(* ===== verification/Prelude.thy ===== *)
theory Prelude
  imports Main "HOL-Library.Word" "HOL-Library.AList"
begin

text \<open>
  Shared vocabulary of the development: the machine types of the C++ sources, the failures a
  C++ statement can have, the sequencing of statements that may fail, and the generic lemmas on
  lists and words that the component theories use.

  A signed \<open>intN_t\<close> is an \<open>N word\<close> read through \<^const>\<open>sint\<close>; the \<open>static_cast\<close>s
  between \<open>intN_t\<close> and \<open>uintN_t\<close> keep the bits and are therefore the identity.
\<close>

unbundle bit_operations_syntax

type_synonym byte = "8 word"
type_synonym u16 = "16 word"
type_synonym u32 = "32 word"
type_synonym u64 = "64 word"
type_synonym i16 = "16 word"
type_synonym i32 = "32 word"

named_theorems codec_defs \<open>definitions of the byte readers and writers\<close>
named_theorems frame_simps \<open>evaluation of frame lengths and frame constants\<close>
named_theorems record_frame \<open>fields an operation leaves unchanged\<close>

text \<open>
  How a C++ call can fail. \<open>UndefinedBehaviour\<close> is an access outside a \<open>std::vector\<close>: no C++
  run promises anything after it. \<open>LogicError\<close> is \<open>std::logic_error\<close>, which libstdc++ throws for a
  \<open>std::string\<close> made from a null pointer (the standard leaves that undefined).
\<close>

datatype cxx_error =
    InvalidArgument
  | OutOfRange
  | LogicError
  | UndefinedBehaviour

text \<open>\<open>operator[]\<close> of \<open>std::vector\<close>: unchecked, so undefined outside the range.\<close>

definition vec_at :: "'a list \<Rightarrow> nat \<Rightarrow> cxx_error + 'a" where
  "vec_at xs i = (if i < length xs then Inr (xs ! i) else Inl UndefinedBehaviour)"

text \<open>Sequencing: an exception skips the rest.\<close>

definition ebind :: "'e + 'a \<Rightarrow> ('a \<Rightarrow> 'e + 'b) \<Rightarrow> 'e + 'b" where
  "ebind m f = (case m of Inl e \<Rightarrow> Inl e | Inr a \<Rightarrow> f a)"

lemma ebind_Inl [simp]: "ebind (Inl e) f = Inl e"
  by (simp add: ebind_def)

lemma ebind_Inr [simp]: "ebind (Inr a) f = f a"
  by (simp add: ebind_def)

lemma ebind_eq_Inr_iff: "ebind m f = Inr b \<longleftrightarrow> (\<exists>a. m = Inr a \<and> f a = Inr b)"
  by (cases m) auto

lemma ebind_assoc: "ebind (ebind m f) g = ebind m (\<lambda>a. ebind (f a) g)"
  by (cases m) auto

lemma vec_at_Inr [simp]: "i < length xs \<Longrightarrow> vec_at xs i = Inr (xs ! i)"
  by (simp add: vec_at_def)

section \<open>Bytes of a word\<close>

lemma unat_byte_less: "unat (x :: byte) < 256"
  using unsigned_less [of x] by simp

text \<open>
  \<open>(value >> (8 * i)) & 0xFF\<close> cast to \<open>uint8_t\<close>, the expression all the encoders use.
\<close>

definition byte_at :: "'a::len word \<Rightarrow> nat \<Rightarrow> byte" where
  "byte_at v i = ucast (drop_bit (8 * i) v AND 0xFF)"

lemma byte_mask: "(0xFF :: 'a::len word) = mask 8"
  by (simp add: mask_eq_exp_minus_1)

lemma bit_byte_at: "bit (byte_at v i) n \<longleftrightarrow> n < 8 \<and> bit v (8 * i + n)"
  unfolding byte_at_def byte_mask
  by (auto simp: bit_simps add.commute dest: bit_imp_le_length)

lemma byte_at_0_byte [simp]: "byte_at (v :: byte) 0 = v"
  by (rule bit_word_eqI) (simp add: bit_byte_at)

text \<open>\<open>static_cast<uintN_t>(b) << k\<close>.\<close>

definition shl_byte :: "nat \<Rightarrow> byte \<Rightarrow> 'a::len word" where
  "shl_byte k b = push_bit k (ucast b)"

lemma bit_shl_byte:
  "bit (shl_byte k b :: 'a::len word) n \<longleftrightarrow> n < LENGTH('a) \<and> k \<le> n \<and> bit b (n - k)"
  by (auto simp: shl_byte_def bit_simps)

section \<open>Integer division\<close>

text \<open>\<open>a / b\<close> on \<open>int\<close> truncates towards zero.\<close>

definition cdiv :: "int \<Rightarrow> int \<Rightarrow> int" where
  "cdiv a b = (if a < 0 then - ((- a) div b) else a div b)"

lemma cdiv_mult [simp]: "0 < b \<Longrightarrow> cdiv (a * b) b = a"
  by (auto simp: cdiv_def mult_less_0_iff minus_mult_left simp del: mult_minus_left)

section \<open>Lists\<close>

lemma nth_append_at [simp]: "(pre @ x # rest) ! length pre = x"
  by simp

lemma nth_append_off: "(pre @ xs) ! (length pre + k) = xs ! k"
  by (simp add: nth_append)

lemma length_suffix_le: "xs = ys @ zs \<Longrightarrow> length zs \<le> length xs"
  by simp

section \<open>Association lists\<close>

lemma set_update: "(k', v') \<in> set (AList.update k v m) \<Longrightarrow> distinct (map fst m) \<Longrightarrow>
    (k', v') = (k, v) \<or> k' \<noteq> k \<and> (k', v') \<in> set m"
proof -
  assume u: "(k', v') \<in> set (AList.update k v m)" and d: "distinct (map fst m)"
  have "map_of (AList.update k v m) k' = Some v'" using u d by (simp add: distinct_update)
  then show ?thesis using d by (auto simp: update_conv' split: if_splits dest: map_of_SomeD)
qed

lemma all_update:
  assumes "\<forall>(k, v) \<in> set m. P k v" "P k v" "distinct (map fst m)"
  shows "\<forall>(k, v) \<in> set (AList.update k v m). P k v"
  using assms set_update [of _ _ k v m] by fastforce

lemma map_of_all: "\<forall>(k, v) \<in> set m. P k v \<Longrightarrow> map_of m k = Some v \<Longrightarrow> P k v"
  using map_of_SomeD by fastforce

section \<open>Invariants of objects\<close>

text \<open>
  An object whose calls are the steps of a relation. What holds at the start and survives every step
  holds in every state that can be reached.
\<close>

locale invariant_system =
  fixes start :: "'s \<Rightarrow> bool"
    and step :: "'s \<Rightarrow> 's \<Rightarrow> bool"
    and inv :: "'s \<Rightarrow> bool"
  assumes inv_start: "start s \<Longrightarrow> inv s"
    and inv_step: "inv s \<Longrightarrow> step s s' \<Longrightarrow> inv s'"
begin

lemma reachable_inv: "start s \<Longrightarrow> step\<^sup>*\<^sup>* s s' \<Longrightarrow> inv s'"
  by (rotate_tac, induction rule: rtranclp_induct) (auto intro: inv_start inv_step)

end

end
