(* ===== verification/ByteCodec.thy ===== *)
theory ByteCodec
  imports Prelude
begin

text \<open>
  The byte helpers of \<open>src/util/my_tools\<close>: \<open>MyLEHelper\<close> and \<open>MyBEHelper\<close>. A writer appends to a
  \<open>std::vector<uint8_t>\<close> (here: returns the longer list); a reader takes the buffer and the offset
  by reference (here: returns the value with the advanced offset) and throws
  \<open>std::out_of_range\<close> when too few bytes are left.
\<close>

section \<open>Guards\<close>

text \<open>
  \<open>offset + bytes_needed > buf.size()\<close> is computed in \<open>size_t\<close>: the sum wraps at \<open>2 ^ 64\<close>.
\<close>

definition EnsureReadable :: "byte list \<Rightarrow> nat \<Rightarrow> nat \<Rightarrow> cxx_error + unit" where
  "EnsureReadable buf offset bytes_needed =
     (if (offset + bytes_needed) mod 2 ^ 64 > length buf then Inl OutOfRange else Inr ())"

definition ValidateBitLength :: "int \<Rightarrow> cxx_error + unit" where
  "ValidateBitLength bit_len =
     (if bit_len \<le> 0 \<or> bit_len > 64 then Inl InvalidArgument else Inr ())"

lemma EnsureReadable_ok [simp]:
  assumes "offset + n \<le> length buf"
  shows "EnsureReadable buf offset n = Inr ()"
proof -
  have "(offset + n) mod 2 ^ 64 \<le> offset + n" by simp
  with assms have "\<not> (offset + n) mod 2 ^ 64 > length buf" by linarith
  then show ?thesis unfolding EnsureReadable_def by (rule if_not_P)
qed

lemma EnsureReadable_short:
  "length buf < offset + n \<Longrightarrow> offset + n < 2 ^ 64 \<Longrightarrow> EnsureReadable buf offset n = Inl OutOfRange"
  by (simp add: EnsureReadable_def)

section \<open>Little endian: MyLEHelper\<close>

definition le_write_uint8 :: "byte list \<Rightarrow> byte \<Rightarrow> byte list" where
  "le_write_uint8 buf value = buf @ [value]"

definition le_write_uint16 :: "byte list \<Rightarrow> u16 \<Rightarrow> byte list" where
  "le_write_uint16 buf value = buf @ [byte_at value 0, byte_at value 1]"

definition le_write_int16 :: "byte list \<Rightarrow> i16 \<Rightarrow> byte list" where
  "le_write_int16 buf value = le_write_uint16 buf value"

definition le_write_uint32 :: "byte list \<Rightarrow> u32 \<Rightarrow> byte list" where
  "le_write_uint32 buf value =
     buf @ [byte_at value 0, byte_at value 1, byte_at value 2, byte_at value 3]"

definition le_write_uint64 :: "byte list \<Rightarrow> u64 \<Rightarrow> byte list" where
  "le_write_uint64 buf value =
     buf @ [byte_at value 0, byte_at value 1, byte_at value 2, byte_at value 3,
            byte_at value 4, byte_at value 5, byte_at value 6, byte_at value 7]"

definition le_read_uint8 :: "byte list \<Rightarrow> nat \<Rightarrow> cxx_error + (byte \<times> nat)" where
  "le_read_uint8 buf offset =
     ebind (EnsureReadable buf offset 1) (\<lambda>_.
     ebind (vec_at buf offset) (\<lambda>b0.
     Inr (b0, offset + 1)))"

definition le_read_uint16 :: "byte list \<Rightarrow> nat \<Rightarrow> cxx_error + (u16 \<times> nat)" where
  "le_read_uint16 buf offset =
     ebind (EnsureReadable buf offset 2) (\<lambda>_.
     ebind (vec_at buf offset) (\<lambda>b0.
     ebind (vec_at buf (offset + 1)) (\<lambda>b1.
     Inr (shl_byte 0 b0 OR shl_byte 8 b1, offset + 2))))"

definition le_read_int16 :: "byte list \<Rightarrow> nat \<Rightarrow> cxx_error + (i16 \<times> nat)" where
  "le_read_int16 buf offset = le_read_uint16 buf offset"

definition le_read_uint32 :: "byte list \<Rightarrow> nat \<Rightarrow> cxx_error + (u32 \<times> nat)" where
  "le_read_uint32 buf offset =
     ebind (EnsureReadable buf offset 4) (\<lambda>_.
     ebind (vec_at buf offset) (\<lambda>b0.
     ebind (vec_at buf (offset + 1)) (\<lambda>b1.
     ebind (vec_at buf (offset + 2)) (\<lambda>b2.
     ebind (vec_at buf (offset + 3)) (\<lambda>b3.
     Inr (shl_byte 0 b0 OR shl_byte 8 b1 OR shl_byte 16 b2 OR shl_byte 24 b3, offset + 4))))))"

definition le_read_uint64 :: "byte list \<Rightarrow> nat \<Rightarrow> cxx_error + (u64 \<times> nat)" where
  "le_read_uint64 buf offset =
     ebind (EnsureReadable buf offset 8) (\<lambda>_.
     ebind (vec_at buf offset) (\<lambda>b0.
     ebind (vec_at buf (offset + 1)) (\<lambda>b1.
     ebind (vec_at buf (offset + 2)) (\<lambda>b2.
     ebind (vec_at buf (offset + 3)) (\<lambda>b3.
     ebind (vec_at buf (offset + 4)) (\<lambda>b4.
     ebind (vec_at buf (offset + 5)) (\<lambda>b5.
     ebind (vec_at buf (offset + 6)) (\<lambda>b6.
     ebind (vec_at buf (offset + 7)) (\<lambda>b7.
     Inr (shl_byte 0 b0 OR shl_byte 8 b1 OR shl_byte 16 b2 OR shl_byte 24 b3 OR
          shl_byte 32 b4 OR shl_byte 40 b5 OR shl_byte 48 b6 OR shl_byte 56 b7,
          offset + 8))))))))))"

text \<open>Bit fields of up to 64 bits, in \<open>(bit_len + 7) / 8\<close> bytes, low byte first.\<close>

definition bits_byte_len :: "int \<Rightarrow> nat" where
  "bits_byte_len bit_len = nat ((bit_len + 7) div 8)"

fun le_write_bits_loop :: "u64 \<Rightarrow> nat \<Rightarrow> nat \<Rightarrow> byte list \<Rightarrow> byte list" where
  "le_write_bits_loop value i 0 buf = buf"
| "le_write_bits_loop value i (Suc k) buf = le_write_bits_loop value (Suc i) k (buf @ [byte_at value i])"

definition le_write_bits :: "byte list \<Rightarrow> u64 \<Rightarrow> int \<Rightarrow> cxx_error + byte list" where
  "le_write_bits buf value bit_len =
     ebind (ValidateBitLength bit_len) (\<lambda>_.
       let byte_len = bits_byte_len bit_len;
           buf = le_write_bits_loop value 0 byte_len buf;
           extra_bits = int byte_len * 8 - bit_len
       in Inr (if extra_bits > 0
               then buf[length buf - 1 := last buf AND drop_bit (nat extra_bits) 0xFF]
               else buf))"

fun le_read_bits_loop :: "byte list \<Rightarrow> nat \<Rightarrow> nat \<Rightarrow> nat \<Rightarrow> u64 \<Rightarrow> cxx_error + u64" where
  "le_read_bits_loop buf offset i 0 value = Inr value"
| "le_read_bits_loop buf offset i (Suc k) value =
     ebind (vec_at buf (offset + i)) (\<lambda>b.
       le_read_bits_loop buf offset (Suc i) k (value OR shl_byte (8 * i) b))"

definition read_bits_mask :: "int \<Rightarrow> u64 \<Rightarrow> u64" where
  "read_bits_mask bit_len value =
     (if bit_len < 64 then value AND (push_bit (nat bit_len) 1 - 1) else value)"

definition le_read_bits :: "byte list \<Rightarrow> nat \<Rightarrow> int \<Rightarrow> cxx_error + u64" where
  "le_read_bits buf offset bit_len =
     ebind (ValidateBitLength bit_len) (\<lambda>_.
     ebind (EnsureReadable buf offset (bits_byte_len bit_len)) (\<lambda>_.
     ebind (le_read_bits_loop buf offset 0 (bits_byte_len bit_len) 0) (\<lambda>value.
     Inr (read_bits_mask bit_len value))))"

section \<open>Big endian: MyBEHelper\<close>

definition be_write_uint8 :: "byte list \<Rightarrow> byte \<Rightarrow> byte list" where
  "be_write_uint8 buf value = buf @ [value]"

definition be_write_uint16 :: "byte list \<Rightarrow> u16 \<Rightarrow> byte list" where
  "be_write_uint16 buf value = buf @ [byte_at value 1, byte_at value 0]"

text \<open>\<open>value >> 8\<close> of an \<open>int16_t\<close> shifts the sign in; the mask \<open>0xFF\<close> cuts it off again.\<close>

definition be_write_int16 :: "byte list \<Rightarrow> i16 \<Rightarrow> byte list" where
  "be_write_int16 buf value =
     buf @ [ucast (signed_drop_bit 8 value AND 0xFF), ucast (value AND 0xFF)]"

definition be_write_uint32 :: "byte list \<Rightarrow> u32 \<Rightarrow> byte list" where
  "be_write_uint32 buf value =
     buf @ [byte_at value 3, byte_at value 2, byte_at value 1, byte_at value 0]"

definition be_write_uint64 :: "byte list \<Rightarrow> u64 \<Rightarrow> byte list" where
  "be_write_uint64 buf value =
     buf @ [byte_at value 7, byte_at value 6, byte_at value 5, byte_at value 4,
            byte_at value 3, byte_at value 2, byte_at value 1, byte_at value 0]"

definition be_read_uint8 :: "byte list \<Rightarrow> nat \<Rightarrow> cxx_error + (byte \<times> nat)" where
  "be_read_uint8 buf offset =
     ebind (EnsureReadable buf offset 1) (\<lambda>_.
     ebind (vec_at buf offset) (\<lambda>b0.
     Inr (b0, offset + 1)))"

definition be_read_uint16 :: "byte list \<Rightarrow> nat \<Rightarrow> cxx_error + (u16 \<times> nat)" where
  "be_read_uint16 buf offset =
     ebind (EnsureReadable buf offset 2) (\<lambda>_.
     ebind (vec_at buf offset) (\<lambda>b0.
     ebind (vec_at buf (offset + 1)) (\<lambda>b1.
     Inr (shl_byte 8 b0 OR shl_byte 0 b1, offset + 2))))"

definition be_read_int16 :: "byte list \<Rightarrow> nat \<Rightarrow> cxx_error + (i16 \<times> nat)" where
  "be_read_int16 buf offset = be_read_uint16 buf offset"

definition be_read_uint32 :: "byte list \<Rightarrow> nat \<Rightarrow> cxx_error + (u32 \<times> nat)" where
  "be_read_uint32 buf offset =
     ebind (EnsureReadable buf offset 4) (\<lambda>_.
     ebind (vec_at buf offset) (\<lambda>b0.
     ebind (vec_at buf (offset + 1)) (\<lambda>b1.
     ebind (vec_at buf (offset + 2)) (\<lambda>b2.
     ebind (vec_at buf (offset + 3)) (\<lambda>b3.
     Inr (shl_byte 24 b0 OR shl_byte 16 b1 OR shl_byte 8 b2 OR shl_byte 0 b3, offset + 4))))))"

definition be_read_uint64 :: "byte list \<Rightarrow> nat \<Rightarrow> cxx_error + (u64 \<times> nat)" where
  "be_read_uint64 buf offset =
     ebind (EnsureReadable buf offset 8) (\<lambda>_.
     ebind (vec_at buf offset) (\<lambda>b0.
     ebind (vec_at buf (offset + 1)) (\<lambda>b1.
     ebind (vec_at buf (offset + 2)) (\<lambda>b2.
     ebind (vec_at buf (offset + 3)) (\<lambda>b3.
     ebind (vec_at buf (offset + 4)) (\<lambda>b4.
     ebind (vec_at buf (offset + 5)) (\<lambda>b5.
     ebind (vec_at buf (offset + 6)) (\<lambda>b6.
     ebind (vec_at buf (offset + 7)) (\<lambda>b7.
     Inr (shl_byte 56 b0 OR shl_byte 48 b1 OR shl_byte 40 b2 OR shl_byte 32 b3 OR
          shl_byte 24 b4 OR shl_byte 16 b5 OR shl_byte 8 b6 OR shl_byte 0 b7,
          offset + 8))))))))))"

fun be_write_bits_loop :: "u64 \<Rightarrow> nat \<Rightarrow> byte list \<Rightarrow> byte list" where
  "be_write_bits_loop value 0 buf = buf"
| "be_write_bits_loop value (Suc i) buf = be_write_bits_loop value i (buf @ [byte_at value i])"

definition be_write_bits :: "byte list \<Rightarrow> u64 \<Rightarrow> int \<Rightarrow> cxx_error + byte list" where
  "be_write_bits buf value bit_len =
     ebind (ValidateBitLength bit_len) (\<lambda>_.
       let byte_len = bits_byte_len bit_len;
           start_index = length buf;
           buf = be_write_bits_loop value byte_len buf;
           extra_bits = int byte_len * 8 - bit_len
       in Inr (if extra_bits > 0
               then buf[start_index := buf ! start_index AND drop_bit (nat extra_bits) 0xFF]
               else buf))"

fun be_read_bits_loop :: "byte list \<Rightarrow> nat \<Rightarrow> nat \<Rightarrow> nat \<Rightarrow> u64 \<Rightarrow> cxx_error + u64" where
  "be_read_bits_loop buf offset i 0 value = Inr value"
| "be_read_bits_loop buf offset i (Suc k) value =
     ebind (vec_at buf (offset + i)) (\<lambda>b.
       be_read_bits_loop buf offset (Suc i) k (push_bit 8 value OR ucast b))"

definition be_read_bits :: "byte list \<Rightarrow> nat \<Rightarrow> int \<Rightarrow> cxx_error + u64" where
  "be_read_bits buf offset bit_len =
     ebind (ValidateBitLength bit_len) (\<lambda>_.
     ebind (EnsureReadable buf offset (bits_byte_len bit_len)) (\<lambda>_.
     ebind (be_read_bits_loop buf offset 0 (bits_byte_len bit_len) 0) (\<lambda>value.
     Inr (read_bits_mask bit_len value))))"

lemmas le_writer_defs [codec_defs] =
  le_write_uint8_def le_write_uint16_def le_write_int16_def le_write_uint32_def le_write_uint64_def

lemmas le_reader_defs [codec_defs] =
  le_read_uint8_def le_read_uint16_def le_read_int16_def le_read_uint32_def le_read_uint64_def

lemmas be_writer_defs [codec_defs] =
  be_write_uint8_def be_write_uint16_def be_write_uint32_def be_write_uint64_def

lemmas be_reader_defs [codec_defs] =
  be_read_uint8_def be_read_uint16_def be_read_int16_def be_read_uint32_def be_read_uint64_def

section \<open>Bytes put together again\<close>

lemma bit_shl_byte_at:
  "bit (shl_byte (8 * i) (byte_at v i) :: 'a::len word) n \<longleftrightarrow> n div 8 = i \<and> bit (v :: 'a word) n"
proof -
  have "8 * i \<le> n \<and> n - 8 * i < 8 \<longleftrightarrow> n div 8 = i"
    by (auto simp: div_nat_eqI)
  then show ?thesis
    by (auto simp: bit_shl_byte bit_byte_at dest: bit_imp_le_length)
qed

lemmas bit_shl_byte_at_num =
  bit_shl_byte_at [of 0, simplified] bit_shl_byte_at [of 1, simplified]
  bit_shl_byte_at [of 2, simplified] bit_shl_byte_at [of 3, simplified]
  bit_shl_byte_at [of 4, simplified] bit_shl_byte_at [of 5, simplified]
  bit_shl_byte_at [of 6, simplified] bit_shl_byte_at [of 7, simplified]

lemma join_bytes16: "shl_byte 0 (byte_at v 0) OR shl_byte 8 (byte_at v 1) = (v :: u16)"
  (is "?w = v")
proof (rule bit_word_eqI)
  fix n assume "n < LENGTH(16)"
  then have "n div 8 \<in> {0, 1}" by auto
  then show "bit ?w n = bit v n"
    by (auto simp: bit_or_iff bit_shl_byte_at_num)
qed

lemma join_bytes32:
  "shl_byte 0 (byte_at v 0) OR shl_byte 8 (byte_at v 1) OR shl_byte 16 (byte_at v 2) OR
   shl_byte 24 (byte_at v 3) = (v :: u32)" (is "?w = v")
proof (rule bit_word_eqI)
  fix n assume "n < LENGTH(32)"
  then have "n div 8 \<in> {0, 1, 2, 3}" by auto
  then show "bit ?w n = bit v n"
    by (auto simp: bit_or_iff bit_shl_byte_at_num)
qed

lemma join_bytes64:
  "shl_byte 0 (byte_at v 0) OR shl_byte 8 (byte_at v 1) OR shl_byte 16 (byte_at v 2) OR
   shl_byte 24 (byte_at v 3) OR shl_byte 32 (byte_at v 4) OR shl_byte 40 (byte_at v 5) OR
   shl_byte 48 (byte_at v 6) OR shl_byte 56 (byte_at v 7) = (v :: u64)" (is "?w = v")
proof (rule bit_word_eqI)
  fix n assume "n < LENGTH(64)"
  then have "n div 8 \<in> {0, 1, 2, 3, 4, 5, 6, 7}" by auto
  then show "bit ?w n = bit v n"
    by (auto simp: bit_or_iff bit_shl_byte_at_num)
qed

lemma join_bytes_be:
  fixes v :: u16 and w :: u32 and x :: u64
  shows "shl_byte 8 (byte_at v 1) OR shl_byte 0 (byte_at v 0) = v"
    and "shl_byte 24 (byte_at w 3) OR shl_byte 16 (byte_at w 2) OR shl_byte 8 (byte_at w 1) OR
      shl_byte 0 (byte_at w 0) = w"
    and "shl_byte 56 (byte_at x 7) OR shl_byte 48 (byte_at x 6) OR shl_byte 40 (byte_at x 5) OR
      shl_byte 32 (byte_at x 4) OR shl_byte 24 (byte_at x 3) OR shl_byte 16 (byte_at x 2) OR
      shl_byte 8 (byte_at x 1) OR shl_byte 0 (byte_at x 0) = x"
  using join_bytes16 [of v] join_bytes32 [of w] join_bytes64 [of x]
  by (simp_all only: ac_simps)

lemmas join_bytes = join_bytes16 join_bytes32 join_bytes64 join_bytes_be

lemmas join_bytes_Suc = join_bytes [unfolded One_nat_def]

lemma be_write_int16_eq: "be_write_int16 buf v = be_write_uint16 buf v"
proof -
  have "ucast (signed_drop_bit 8 v AND 0xFF) = byte_at v 1"
    unfolding byte_mask by (rule bit_word_eqI) (auto simp: bit_byte_at bit_simps)
  moreover have "ucast (v AND 0xFF) = byte_at v 0"
    by (simp add: byte_at_def)
  ultimately show ?thesis
    by (simp add: be_write_int16_def be_write_uint16_def)
qed

section \<open>The codec interface\<close>

text \<open>
  What the users of the helpers rely on: a writer appends a fixed number of bytes, the reader of
  the same width takes exactly these bytes back wherever they stand, and a reader that finds
  fewer bytes throws. A heterogeneous record layout is a list of \<open>wire\<close> values.
\<close>

datatype wire = W8 byte | W16 u16 | W32 u32 | W64 u64

datatype wire_kind = K8 | K16 | K32 | K64

fun kind_of :: "wire \<Rightarrow> wire_kind" where
  "kind_of (W8 _) = K8"
| "kind_of (W16 _) = K16"
| "kind_of (W32 _) = K32"
| "kind_of (W64 _) = K64"

fun kind_size :: "wire_kind \<Rightarrow> nat" where
  "kind_size K8 = 1"
| "kind_size K16 = 2"
| "kind_size K32 = 4"
| "kind_size K64 = 8"

definition kinds_size :: "wire_kind list \<Rightarrow> nat" where
  "kinds_size ks = sum_list (map kind_size ks)"

lemma kinds_size_simps [simp]:
  "kinds_size [] = 0" "kinds_size (k # ks) = kind_size k + kinds_size ks"
  by (simp_all add: kinds_size_def)

locale byte_codec =
  fixes wr8 :: "byte list \<Rightarrow> byte \<Rightarrow> byte list"
    and wr16 :: "byte list \<Rightarrow> u16 \<Rightarrow> byte list"
    and wr32 :: "byte list \<Rightarrow> u32 \<Rightarrow> byte list"
    and wr64 :: "byte list \<Rightarrow> u64 \<Rightarrow> byte list"
    and rd8 :: "byte list \<Rightarrow> nat \<Rightarrow> cxx_error + (byte \<times> nat)"
    and rd16 :: "byte list \<Rightarrow> nat \<Rightarrow> cxx_error + (u16 \<times> nat)"
    and rd32 :: "byte list \<Rightarrow> nat \<Rightarrow> cxx_error + (u32 \<times> nat)"
    and rd64 :: "byte list \<Rightarrow> nat \<Rightarrow> cxx_error + (u64 \<times> nat)"
  assumes wr_append: "wr8 buf a = buf @ wr8 [] a" "wr16 buf b = buf @ wr16 [] b"
      "wr32 buf c = buf @ wr32 [] c" "wr64 buf d = buf @ wr64 [] d"
    and wr_length: "length (wr8 [] a) = 1" "length (wr16 [] b) = 2"
      "length (wr32 [] c) = 4" "length (wr64 [] d) = 8"
    and rd_wr8: "rd8 (pre @ wr8 [] a @ rest) (length pre) = Inr (a, length pre + 1)"
    and rd_wr16: "rd16 (pre @ wr16 [] b @ rest) (length pre) = Inr (b, length pre + 2)"
    and rd_wr32: "rd32 (pre @ wr32 [] c @ rest) (length pre) = Inr (c, length pre + 4)"
    and rd_wr64: "rd64 (pre @ wr64 [] d @ rest) (length pre) = Inr (d, length pre + 8)"
    and rd_short: "off + 8 < 2 ^ 64 \<Longrightarrow> length buf < off + 1 \<Longrightarrow> rd8 buf off = Inl OutOfRange"
      "off + 8 < 2 ^ 64 \<Longrightarrow> length buf < off + 2 \<Longrightarrow> rd16 buf off = Inl OutOfRange"
      "off + 8 < 2 ^ 64 \<Longrightarrow> length buf < off + 4 \<Longrightarrow> rd32 buf off = Inl OutOfRange"
      "off + 8 < 2 ^ 64 \<Longrightarrow> length buf < off + 8 \<Longrightarrow> rd64 buf off = Inl OutOfRange"
    and wr_rd: "off + 1 \<le> length buf \<Longrightarrow> \<exists>v. rd8 buf off = Inr (v, off + 1) \<and> wr8 [] v = take 1 (drop off buf)"
      "off + 2 \<le> length buf \<Longrightarrow> \<exists>v. rd16 buf off = Inr (v, off + 2) \<and> wr16 [] v = take 2 (drop off buf)"
      "off + 4 \<le> length buf \<Longrightarrow> \<exists>v. rd32 buf off = Inr (v, off + 4) \<and> wr32 [] v = take 4 (drop off buf)"
      "off + 8 \<le> length buf \<Longrightarrow> \<exists>v. rd64 buf off = Inr (v, off + 8) \<and> wr64 [] v = take 8 (drop off buf)"
begin

fun write_wire :: "byte list \<Rightarrow> wire \<Rightarrow> byte list" where
  "write_wire buf (W8 v) = wr8 buf v"
| "write_wire buf (W16 v) = wr16 buf v"
| "write_wire buf (W32 v) = wr32 buf v"
| "write_wire buf (W64 v) = wr64 buf v"

definition write_wires :: "byte list \<Rightarrow> wire list \<Rightarrow> byte list" where
  "write_wires buf ws = foldl write_wire buf ws"

fun read_wire :: "wire_kind \<Rightarrow> byte list \<Rightarrow> nat \<Rightarrow> cxx_error + (wire \<times> nat)" where
  "read_wire K8 buf off = ebind (rd8 buf off) (\<lambda>(v, off). Inr (W8 v, off))"
| "read_wire K16 buf off = ebind (rd16 buf off) (\<lambda>(v, off). Inr (W16 v, off))"
| "read_wire K32 buf off = ebind (rd32 buf off) (\<lambda>(v, off). Inr (W32 v, off))"
| "read_wire K64 buf off = ebind (rd64 buf off) (\<lambda>(v, off). Inr (W64 v, off))"

fun read_wires :: "wire_kind list \<Rightarrow> byte list \<Rightarrow> nat \<Rightarrow> cxx_error + (wire list \<times> nat)" where
  "read_wires [] buf off = Inr ([], off)"
| "read_wires (k # ks) buf off =
     ebind (read_wire k buf off) (\<lambda>(w, off).
     ebind (read_wires ks buf off) (\<lambda>(ws, off). Inr (w # ws, off)))"

lemma write_wire_append: "write_wire buf w = buf @ write_wire [] w"
  by (cases w; simp only: write_wire.simps; rule wr_append)

lemma write_wires_Nil [simp]: "write_wires buf [] = buf"
  by (simp add: write_wires_def)

lemma write_wires_Cons: "write_wires buf (w # ws) = write_wires (write_wire buf w) ws"
  by (simp add: write_wires_def)

lemma write_wires_append: "write_wires buf ws = buf @ write_wires [] ws"
proof (induction ws arbitrary: buf)
  case (Cons w ws)
  have "write_wires buf (w # ws) = write_wire buf w @ write_wires [] ws"
    using Cons.IH [of "write_wire buf w"] by (simp add: write_wires_Cons)
  also have "\<dots> = buf @ write_wire [] w @ write_wires [] ws"
    using write_wire_append [of buf w] by simp
  also have "write_wire [] w @ write_wires [] ws = write_wires [] (w # ws)"
    using Cons.IH [of "write_wire [] w"] by (simp add: write_wires_Cons)
  finally show ?case .
qed simp

lemma length_write_wire: "length (write_wire [] w) = kind_size (kind_of w)"
  using wr_length by (cases w) simp_all

lemma length_write_wires:
  "length (write_wires buf ws) = length buf + kinds_size (map kind_of ws)"
proof (induction ws arbitrary: buf)
  case (Cons w ws)
  then show ?case
    using write_wire_append [of buf w] length_write_wire [of w] by (simp add: write_wires_Cons)
qed simp

lemma read_write_wire:
  "read_wire (kind_of w) (pre @ write_wire [] w @ rest) (length pre)
     = Inr (w, length pre + kind_size (kind_of w))"
  using rd_wr8 rd_wr16 rd_wr32 rd_wr64 by (cases w) simp_all

text \<open>A layout that was written is read back field by field, wherever it stands.\<close>

lemma read_write_wires:
  "read_wires (map kind_of ws) (write_wires buf ws @ rest) (length buf)
     = Inr (ws, length buf + kinds_size (map kind_of ws))"
proof (induction ws arbitrary: buf)
  case (Cons w ws)
  let ?b = "write_wire buf w"
  have split: "write_wires buf (w # ws) @ rest = buf @ write_wire [] w @ write_wires [] ws @ rest"
    using write_wires_append [of ?b ws] write_wire_append [of buf w] by (simp add: write_wires_Cons)
  have first: "read_wire (kind_of w) (write_wires buf (w # ws) @ rest) (length buf)
      = Inr (w, length buf + kind_size (kind_of w))"
    unfolding split by (rule read_write_wire)
  have len: "length ?b = length buf + kind_size (kind_of w)"
    using write_wire_append [of buf w] length_write_wire [of w] by simp
  have rest: "read_wires (map kind_of ws) (write_wires buf (w # ws) @ rest) (length ?b)
      = Inr (ws, length ?b + kinds_size (map kind_of ws))"
    using Cons.IH [of ?b] by (simp add: write_wires_Cons)
  show ?case using first rest by (simp add: len)
qed simp

text \<open>Layouts are injective: two records with the same field widths and bytes are equal.\<close>

lemma write_wires_inj:
  assumes "map kind_of ws = map kind_of ws'" and "write_wires [] ws = write_wires [] ws'"
  shows "ws = ws'"
  using read_write_wires [of ws "[]" "[]"] read_write_wires [of ws' "[]" "[]"] assms by simp

lemma read_wire_short:
  "off + 8 < 2 ^ 64 \<Longrightarrow> length buf < off + kind_size k \<Longrightarrow> read_wire k buf off = Inl OutOfRange"
  using rd_short [of off buf] by (cases k) simp_all

lemma write_read_wire:
  assumes "off + kind_size k \<le> length buf"
  shows "\<exists>w. read_wire k buf off = Inr (w, off + kind_size k) \<and> kind_of w = k \<and>
    write_wire [] w = take (kind_size k) (drop off buf)"
  using assms wr_rd [of off buf] by (cases k) auto

text \<open>Reading a whole layout always succeeds on enough bytes, and no bit of them is lost.\<close>

lemma write_read_wires:
  assumes "off + kinds_size ks \<le> length buf"
  shows "\<exists>ws. read_wires ks buf off = Inr (ws, off + kinds_size ks) \<and> map kind_of ws = ks \<and>
    write_wires [] ws = take (kinds_size ks) (drop off buf)"
  using assms
proof (induction ks arbitrary: off)
  case (Cons k ks)
  obtain w where w: "read_wire k buf off = Inr (w, off + kind_size k)" "kind_of w = k"
      "write_wire [] w = take (kind_size k) (drop off buf)"
    using write_read_wire [of off k buf] Cons.prems by auto
  obtain ws where ws: "read_wires ks buf (off + kind_size k) = Inr (ws, off + kind_size k + kinds_size ks)"
      "map kind_of ws = ks" "write_wires [] ws = take (kinds_size ks) (drop (off + kind_size k) buf)"
    using Cons.IH [of "off + kind_size k"] Cons.prems by auto
  have "write_wires [] (w # ws) = write_wire [] w @ write_wires [] ws"
    using write_wires_append [of "write_wire [] w" ws] by (simp add: write_wires_Cons)
  also have "\<dots> = take (kinds_size (k # ks)) (drop off buf)"
    using w(3) ws(3) by (simp add: take_add add.commute)
  finally show ?case using w ws by (auto simp: add.assoc intro!: exI [of _ "w # ws"])
qed simp

end

lemma split_byte:
  fixes w :: "'a::len word"
  assumes "\<And>n. n < 8 \<Longrightarrow> bit w (8 * i + n) \<longleftrightarrow> bit b n"
  shows "byte_at w i = b"
  using assms by (intro bit_word_eqI) (simp add: bit_byte_at)

lemma bit_byte_high [simp]: "8 \<le> n \<Longrightarrow> \<not> bit (b :: byte) n"
  using bit_imp_le_length [of b n] by auto

lemma split_bytes16:
  fixes b0 b1 :: byte
  defines "v \<equiv> shl_byte 0 b0 OR shl_byte 8 b1 :: u16"
  shows "byte_at v 0 = b0" "byte_at v 1 = b1"
  unfolding v_def by (rule split_byte; simp add: bit_or_iff bit_shl_byte)+

lemma split_bytes32:
  fixes b0 b1 b2 b3 :: byte
  defines "v \<equiv> shl_byte 0 b0 OR shl_byte 8 b1 OR shl_byte 16 b2 OR shl_byte 24 b3 :: u32"
  shows "byte_at v 0 = b0" "byte_at v 1 = b1" "byte_at v 2 = b2" "byte_at v 3 = b3"
  unfolding v_def by (rule split_byte; simp add: bit_or_iff bit_shl_byte)+

lemma split_bytes64:
  fixes b0 b1 b2 b3 b4 b5 b6 b7 :: byte
  defines "v \<equiv> shl_byte 0 b0 OR shl_byte 8 b1 OR shl_byte 16 b2 OR shl_byte 24 b3 OR
    shl_byte 32 b4 OR shl_byte 40 b5 OR shl_byte 48 b6 OR shl_byte 56 b7 :: u64"
  shows "byte_at v 0 = b0" "byte_at v 1 = b1" "byte_at v 2 = b2" "byte_at v 3 = b3"
    "byte_at v 4 = b4" "byte_at v 5 = b5" "byte_at v 6 = b6" "byte_at v 7 = b7"
  unfolding v_def by (rule split_byte; simp add: bit_or_iff bit_shl_byte)+

lemma split_bytes_be:
  fixes b0 b1 b2 b3 b4 b5 b6 b7 :: byte
  shows "byte_at (shl_byte 8 b0 OR shl_byte 0 b1 :: u16) i = byte_at (shl_byte 0 b1 OR shl_byte 8 b0 :: u16) i"
    and "byte_at (shl_byte 24 b0 OR shl_byte 16 b1 OR shl_byte 8 b2 OR shl_byte 0 b3 :: u32) i
      = byte_at (shl_byte 0 b3 OR shl_byte 8 b2 OR shl_byte 16 b1 OR shl_byte 24 b0 :: u32) i"
    and "byte_at (shl_byte 56 b0 OR shl_byte 48 b1 OR shl_byte 40 b2 OR shl_byte 32 b3 OR
        shl_byte 24 b4 OR shl_byte 16 b5 OR shl_byte 8 b6 OR shl_byte 0 b7 :: u64) i
      = byte_at (shl_byte 0 b7 OR shl_byte 8 b6 OR shl_byte 16 b5 OR shl_byte 24 b4 OR
        shl_byte 32 b3 OR shl_byte 40 b2 OR shl_byte 48 b1 OR shl_byte 56 b0 :: u64) i"
  by (simp_all only: ac_simps)

lemmas split_bytes = split_bytes16 split_bytes32 split_bytes64 split_bytes_be

lemmas split_bytes_Suc = split_bytes [unfolded One_nat_def]

lemma take_drop_bytes:
  assumes "off + n \<le> length buf"
  shows "take n (drop off buf) = map (\<lambda>i. buf ! (off + i)) [0..<n]"
  using assms by (intro nth_equalityI) simp_all

lemma take_drop_widths:
  "off + 1 \<le> length buf \<Longrightarrow> take 1 (drop off buf) = [buf ! off]"
  "off + 2 \<le> length buf \<Longrightarrow> take 2 (drop off buf) = [buf ! off, buf ! (off + 1)]"
  "off + 4 \<le> length buf \<Longrightarrow> take 4 (drop off buf) =
     [buf ! off, buf ! (off + 1), buf ! (off + 2), buf ! (off + 3)]"
  "off + 8 \<le> length buf \<Longrightarrow> take 8 (drop off buf) =
     [buf ! off, buf ! (off + 1), buf ! (off + 2), buf ! (off + 3),
      buf ! (off + 4), buf ! (off + 5), buf ! (off + 6), buf ! (off + 7)]"
  by (simp_all only: take_drop_bytes) (simp_all add: numeral_eq_Suc upt_conv_Cons)

lemmas take_drop_widths_Suc = take_drop_widths [unfolded One_nat_def]

interpretation le: byte_codec le_write_uint8 le_write_uint16 le_write_uint32 le_write_uint64
  le_read_uint8 le_read_uint16 le_read_uint32 le_read_uint64
  by unfold_locales
    (simp_all add: codec_defs join_bytes_Suc split_bytes_Suc nth_append EnsureReadable_short
      take_drop_widths_Suc)

interpretation be: byte_codec be_write_uint8 be_write_uint16 be_write_uint32 be_write_uint64
  be_read_uint8 be_read_uint16 be_read_uint32 be_read_uint64
  by unfold_locales
    (simp_all add: codec_defs join_bytes_Suc split_bytes_Suc nth_append EnsureReadable_short
      take_drop_widths_Suc)

section \<open>Bit fields\<close>

lemma bit_shl_byte8:
  "bit (shl_byte (8 * i) b :: 'a::len word) n \<longleftrightarrow> n < LENGTH('a) \<and> n div 8 = i \<and> bit b (n mod 8)"
proof -
  have "8 * i \<le> n \<and> bit b (n - 8 * i) \<longleftrightarrow> n div 8 = i \<and> bit b (n mod 8)"
  proof
    assume l: "8 * i \<le> n \<and> bit b (n - 8 * i)"
    then have "n - 8 * i < 8" using bit_imp_le_length [of b "n - 8 * i"] by simp
    with l have d: "n div 8 = i" by (intro div_nat_eqI) auto
    with l show "n div 8 = i \<and> bit b (n mod 8)" by (auto simp: minus_mult_div_eq_mod)
  next
    assume r: "n div 8 = i \<and> bit b (n mod 8)"
    then have "8 * i \<le> n" by auto
    with r show "8 * i \<le> n \<and> bit b (n - 8 * i)" by (auto simp: minus_mult_div_eq_mod)
  qed
  then show ?thesis by (auto simp: bit_shl_byte)
qed

lemma read_bits_mask_take: "0 < bl \<Longrightarrow> bl \<le> 64 \<Longrightarrow> read_bits_mask bl v = take_bit (nat bl) v"
proof (cases "bl = 64")
  case True
  have "take_bit 64 v = v" by (rule take_bit_word_eq_self) simp
  with True show ?thesis by (simp add: read_bits_mask_def)
next
  case False
  assume "0 < bl" "bl \<le> 64"
  with False show ?thesis
    by (simp add: read_bits_mask_def take_bit_eq_mask mask_eq_exp_minus_1 push_bit_of_1)
qed

lemma bits_byte_len_bounds:
  assumes "0 < bl"
  shows "nat bl \<le> 8 * bits_byte_len bl" "8 * bits_byte_len bl < nat bl + 8" "0 < bits_byte_len bl"
  using assms unfolding bits_byte_len_def by linarith+

lemma le_write_bits_loop_eq: "le_write_bits_loop v i k buf = buf @ map (byte_at v) [i..<i + k]"
  by (induction k arbitrary: i buf) (simp_all add: upt_conv_Cons del: upt_Suc)

lemma be_write_bits_loop_eq: "be_write_bits_loop v k buf = buf @ map (byte_at v) (rev [0..<k])"
  by (induction k arbitrary: buf) simp_all

lemma le_read_bits_loop_bits:
  assumes "offset + i + k \<le> length buf"
  shows "\<exists>w. le_read_bits_loop buf offset i k val = Inr w \<and>
    (\<forall>n < 64. bit w n \<longleftrightarrow> bit val n \<or>
       (i \<le> n div 8 \<and> n div 8 < i + k \<and> bit (buf ! (offset + n div 8)) (n mod 8)))"
  using assms
proof (induction k arbitrary: i val)
  case (Suc k)
  let ?v = "val OR shl_byte (8 * i) (buf ! (offset + i))"
  from Suc.prems have at: "vec_at buf (offset + i) = Inr (buf ! (offset + i))" by simp
  obtain w where w: "le_read_bits_loop buf offset (Suc i) k ?v = Inr w"
    "\<forall>n < 64. bit w n \<longleftrightarrow> bit ?v n \<or>
       (Suc i \<le> n div 8 \<and> n div 8 < Suc i + k \<and> bit (buf ! (offset + n div 8)) (n mod 8))"
    using Suc.IH [of "Suc i" ?v] Suc.prems by auto
  have "\<forall>n < 64. bit w n \<longleftrightarrow> bit val n \<or>
       (i \<le> n div 8 \<and> n div 8 < i + Suc k \<and> bit (buf ! (offset + n div 8)) (n mod 8))"
    using w(2) by (auto simp: bit_or_iff bit_shl_byte8 le_Suc_eq Suc_le_eq le_less)
  with w(1) at show ?case by simp
qed auto

lemma be_read_bits_loop_bits:
  assumes "offset + i + k \<le> length buf"
  shows "\<exists>w. be_read_bits_loop buf offset i k val = Inr w \<and>
    (\<forall>n < 64. bit w n \<longleftrightarrow>
       (if n < 8 * k then bit (buf ! (offset + i + (k - 1 - n div 8))) (n mod 8)
        else bit val (n - 8 * k)))"
  using assms
proof (induction k arbitrary: i val)
  case (Suc k)
  let ?b = "buf ! (offset + i)"
  let ?v = "push_bit 8 val OR ucast ?b :: u64"
  from Suc.prems have at: "vec_at buf (offset + i) = Inr ?b" by simp
  obtain w where w: "be_read_bits_loop buf offset (Suc i) k ?v = Inr w"
    "\<forall>n < 64. bit w n \<longleftrightarrow>
       (if n < 8 * k then bit (buf ! (offset + Suc i + (k - 1 - n div 8))) (n mod 8)
        else bit ?v (n - 8 * k))"
    using Suc.IH [of "Suc i" ?v] Suc.prems by auto
  have "bit w n \<longleftrightarrow>
       (if n < 8 * Suc k then bit (buf ! (offset + i + (Suc k - 1 - n div 8))) (n mod 8)
        else bit val (n - 8 * Suc k))" if n: "n < 64" for n
  proof -
    consider (low) "n < 8 * k" | (mid) "8 * k \<le> n" "n < 8 * Suc k" | (high) "8 * Suc k \<le> n"
      by linarith
    then show ?thesis
    proof cases
      case low
      then have "offset + Suc i + (k - 1 - n div 8) = offset + i + (Suc k - 1 - n div 8)"
        by (simp add: less_mult_imp_div_less mult.commute)
      with low n w(2) show ?thesis by auto
    next
      case mid
      then have d: "n div 8 = k" by (intro div_nat_eqI) auto
      then have m: "n - 8 * k = n mod 8" using minus_mult_div_eq_mod [of n 8] by simp
      have "bit ?v (n mod 8) \<longleftrightarrow> bit ?b (n mod 8)"
        by (auto simp: bit_simps)
      with mid n w(2) show ?thesis by (simp add: d m)
    next
      case high
      then have "n - 8 * k \<ge> 8" by simp
      then have "bit ?v (n - 8 * k) \<longleftrightarrow> bit val (n - 8 * k - 8)"
        using n bit_imp_le_length [of ?b "n - 8 * k"] by (auto simp: bit_simps)
      with high n w(2) show ?thesis by (simp add: algebra_simps)
    qed
  qed
  with w(1) at show ?case by simp
qed simp

text \<open>What both writers leave on the wire: the low \<open>bit_len\<close> bits, cut into bytes.\<close>

definition bits_bytes :: "u64 \<Rightarrow> int \<Rightarrow> byte list" where
  "bits_bytes v bit_len = map (byte_at (take_bit (nat bit_len) v)) [0..<bits_byte_len bit_len]"

lemma length_bits_bytes [simp]: "length (bits_bytes v bl) = bits_byte_len bl"
  by (simp add: bits_bytes_def)

lemma byte_and_ff: "(b :: byte) AND 0xFF = b"
  unfolding byte_mask by (rule bit_word_eqI) (auto simp: bit_simps)

lemma byte_at_take_bit_full:
  "8 * Suc j \<le> n \<Longrightarrow> byte_at (take_bit n v) j = byte_at v j"
  by (rule bit_word_eqI) (auto simp: bit_byte_at bit_take_bit_iff)

lemma byte_at_take_bit_part:
  assumes "8 * j < n" "n \<le> 8 * Suc j"
  shows "byte_at v j AND drop_bit (8 * Suc j - n) 0xFF = byte_at (take_bit n v) j"
  using assms unfolding byte_mask
  by (intro bit_word_eqI) (auto simp: bit_byte_at bit_simps)

text \<open>The bytes of a field, with the top byte cut to the field's length.\<close>

lemma bits_bytes_split:
  assumes "0 < bl" "bl \<le> 64"
  obtains k where "bits_byte_len bl = Suc k"
    and "bits_bytes v bl = map (byte_at v) [0..<k] @ [byte_at (take_bit (nat bl) v) k]"
    and "byte_at v k AND drop_bit (nat (int (Suc k) * 8 - bl)) 0xFF = byte_at (take_bit (nat bl) v) k"
proof -
  obtain k where k: "bits_byte_len bl = Suc k"
    using bits_byte_len_bounds(3) [OF assms(1)] by (cases "bits_byte_len bl") auto
  have b: "nat bl \<le> 8 * Suc k" "8 * k < nat bl"
    using bits_byte_len_bounds [OF assms(1)] by (simp_all add: k)
  have e: "nat (int (Suc k) * 8 - bl) = 8 * Suc k - nat bl"
    using assms by (simp add: nat_diff_distrib' nat_mult_distrib)
  show thesis
  proof (rule that [OF k])
    have "byte_at (take_bit (nat bl) v) j = byte_at v j" if "j < k" for j
      using that b(2) by (intro byte_at_take_bit_full) simp
    then show "bits_bytes v bl = map (byte_at v) [0..<k] @ [byte_at (take_bit (nat bl) v) k]"
      by (simp add: bits_bytes_def k)
    show "byte_at v k AND drop_bit (nat (int (Suc k) * 8 - bl)) 0xFF = byte_at (take_bit (nat bl) v) k"
      unfolding e using b by (intro byte_at_take_bit_part)
  qed
qed

lemma le_write_bits_eq:
  assumes "0 < bl" "bl \<le> 64"
  shows "le_write_bits buf v bl = Inr (buf @ bits_bytes v bl)"
proof -
  from assms obtain k where k: "bits_byte_len bl = Suc k"
    "bits_bytes v bl = map (byte_at v) [0..<k] @ [byte_at (take_bit (nat bl) v) k]"
    "byte_at v k AND drop_bit (nat (int (Suc k) * 8 - bl)) 0xFF = byte_at (take_bit (nat bl) v) k"
    by (rule bits_bytes_split)
  have "byte_at (take_bit (nat bl) v) k = byte_at v k" if "\<not> int (Suc k) * 8 - bl > 0"
    using that k(3) by (simp add: byte_and_ff)
  then show ?thesis
    using assms k(3)
    by (auto simp: le_write_bits_def ValidateBitLength_def Let_def le_write_bits_loop_eq k(1,2)
        list_update_append)
qed

lemma be_write_bits_eq:
  assumes "0 < bl" "bl \<le> 64"
  shows "be_write_bits buf v bl = Inr (buf @ rev (bits_bytes v bl))"
proof -
  from assms obtain k where k: "bits_byte_len bl = Suc k"
    "bits_bytes v bl = map (byte_at v) [0..<k] @ [byte_at (take_bit (nat bl) v) k]"
    "byte_at v k AND drop_bit (nat (int (Suc k) * 8 - bl)) 0xFF = byte_at (take_bit (nat bl) v) k"
    by (rule bits_bytes_split)
  have "byte_at (take_bit (nat bl) v) k = byte_at v k" if "\<not> int (Suc k) * 8 - bl > 0"
    using that k(3) by (simp add: byte_and_ff)
  then show ?thesis
    using assms k(3)
    by (auto simp: be_write_bits_def ValidateBitLength_def Let_def be_write_bits_loop_eq k(1,2)
        list_update_append rev_map)
qed

lemma le_read_bits_bytes:
  assumes "0 < bl" "bl \<le> 64"
  shows "le_read_bits (buf @ bits_bytes v bl @ rest) (length buf) bl = Inr (take_bit (nat bl) v)"
proof -
  let ?b = "buf @ bits_bytes v bl @ rest" and ?L = "bits_byte_len bl"
  have L: "nat bl \<le> 8 * ?L" using bits_byte_len_bounds(1) [OF assms(1)] .
  obtain w where w: "le_read_bits_loop ?b (length buf) 0 ?L 0 = Inr w"
    "\<forall>n < 64. bit w n \<longleftrightarrow> n div 8 < ?L \<and> bit (?b ! (length buf + n div 8)) (n mod 8)"
    using le_read_bits_loop_bits [of "length buf" 0 ?L ?b 0] by auto
  have at: "?b ! (length buf + j) = byte_at (take_bit (nat bl) v) j" if "j < ?L" for j
    using that by (simp add: nth_append bits_bytes_def)
  have "bit w n \<longleftrightarrow> bit (take_bit (nat bl) v) n" if "n < 64" for n
  proof -
    have "n < nat bl \<Longrightarrow> n div 8 < ?L" using L by linarith
    then show ?thesis using w(2) that at [of "n div 8"]
      by (auto simp: bit_byte_at bit_take_bit_iff)
  qed
  then have "w = take_bit (nat bl) v" by (intro bit_word_eqI) simp
  then show ?thesis
    using assms w(1)
    by (simp add: le_read_bits_def ValidateBitLength_def read_bits_mask_take)
qed

lemma be_read_bits_bytes:
  assumes "0 < bl" "bl \<le> 64"
  shows "be_read_bits (buf @ rev (bits_bytes v bl) @ rest) (length buf) bl
    = Inr (take_bit (nat bl) v)"
proof -
  let ?b = "buf @ rev (bits_bytes v bl) @ rest" and ?L = "bits_byte_len bl"
  have L: "nat bl \<le> 8 * ?L" using bits_byte_len_bounds(1) [OF assms(1)] .
  obtain w where w: "be_read_bits_loop ?b (length buf) 0 ?L 0 = Inr w"
    "\<forall>n < 64. bit w n \<longleftrightarrow>
       (if n < 8 * ?L then bit (?b ! (length buf + 0 + (?L - 1 - n div 8))) (n mod 8)
        else bit (0 :: u64) (n - 8 * ?L))"
    using be_read_bits_loop_bits [of "length buf" 0 ?L ?b 0] by fastforce
  have at: "?b ! (length buf + 0 + (?L - 1 - j)) = byte_at (take_bit (nat bl) v) j" if "j < ?L" for j
    using that by (auto simp: nth_append rev_nth bits_bytes_def)
  have "bit w n \<longleftrightarrow> bit (take_bit (nat bl) v) n" if "n < 64" for n
  proof -
    have "n < 8 * ?L \<longleftrightarrow> n div 8 < ?L" "n < nat bl \<Longrightarrow> n div 8 < ?L" using L by linarith+
    then show ?thesis using w(2) that at [of "n div 8"]
      by (auto simp: bit_byte_at bit_take_bit_iff)
  qed
  then have "w = take_bit (nat bl) v" by (intro bit_word_eqI) simp
  then show ?thesis
    using assms w(1)
    by (simp add: be_read_bits_def ValidateBitLength_def read_bits_mask_take)
qed

section \<open>Properties\<close>

text \<open>every fixed-width writer of \<open>MyLEHelper\<close> and \<open>MyBEHelper\<close> appends to the buffer, and
  the reader of the same width, started where the writer started, returns the value written and
  the offset behind it, whatever follows in the buffer.\<close>

theorem byte_helpers_roundtrip:
  fixes a :: byte and b :: u16 and c :: u32 and d :: u64
  shows "le_read_uint8 (le_write_uint8 buf a @ rest) (length buf) = Inr (a, length buf + 1) \<and>
    le_read_uint16 (le_write_uint16 buf b @ rest) (length buf) = Inr (b, length buf + 2) \<and>
    le_read_int16 (le_write_int16 buf b @ rest) (length buf) = Inr (b, length buf + 2) \<and>
    le_read_uint32 (le_write_uint32 buf c @ rest) (length buf) = Inr (c, length buf + 4) \<and>
    le_read_uint64 (le_write_uint64 buf d @ rest) (length buf) = Inr (d, length buf + 8) \<and>
    be_read_uint8 (be_write_uint8 buf a @ rest) (length buf) = Inr (a, length buf + 1) \<and>
    be_read_uint16 (be_write_uint16 buf b @ rest) (length buf) = Inr (b, length buf + 2) \<and>
    be_read_int16 (be_write_int16 buf b @ rest) (length buf) = Inr (b, length buf + 2) \<and>
    be_read_uint32 (be_write_uint32 buf c @ rest) (length buf) = Inr (c, length buf + 4) \<and>
    be_read_uint64 (be_write_uint64 buf d @ rest) (length buf) = Inr (d, length buf + 8)"
  using le.rd_wr8 [of buf a rest] le.rd_wr16 [of buf b rest] le.rd_wr32 [of buf c rest]
    le.rd_wr64 [of buf d rest] be.rd_wr8 [of buf a rest] be.rd_wr16 [of buf b rest]
    be.rd_wr32 [of buf c rest] be.rd_wr64 [of buf d rest]
    le.wr_append(1) [of buf a] le.wr_append(2) [of buf b] le.wr_append(3) [of buf c]
    le.wr_append(4) [of buf d] be.wr_append(1) [of buf a] be.wr_append(2) [of buf b]
    be.wr_append(3) [of buf c] be.wr_append(4) [of buf d]
  by (simp add: le_read_int16_def le_write_int16_def be_read_int16_def be_write_int16_eq)

text \<open>a bit field of 1 to 64 bits takes \<open>(bit_len + 7) / 8\<close> bytes, the two byte orders write
  the same bytes in opposite order, and reading gives back the low \<open>bit_len\<close> bits of the value
  from any place in a buffer.\<close>

theorem write_bits_read_bits:
  assumes "1 \<le> bit_len" and "bit_len \<le> 64"
  shows "\<exists>bs. length bs = nat ((bit_len + 7) div 8) \<and>
    le_write_bits buf v bit_len = Inr (buf @ bs) \<and>
    be_write_bits buf v bit_len = Inr (buf @ rev bs) \<and>
    le_read_bits (buf @ bs @ rest) (length buf) bit_len = Inr (take_bit (nat bit_len) v) \<and>
    be_read_bits (buf @ rev bs @ rest) (length buf) bit_len = Inr (take_bit (nat bit_len) v)"
  using assms
  by (intro exI [of _ "bits_bytes v bit_len"])
    (simp add: le_write_bits_eq be_write_bits_eq le_read_bits_bytes be_read_bits_bytes
      bits_byte_len_def)

theorem write_bits_read_bits_witness:
  "\<exists>bs. length bs = 2 \<and> le_write_bits [7] 0xABCD 12 = Inr ([7] @ bs) \<and>
    le_read_bits ([7] @ bs @ [9]) 1 12 = Inr 0xBCD"
  using write_bits_read_bits [of 12 "[7]" "0xABCD" "[9]"]
  by (auto simp: take_bit_eq_mask mask_eq_exp_minus_1)

text \<open>on a buffer with too few bytes behind the offset every reader throws
  \<open>std::out_of_range\<close>, and no reader ever indexes outside the vector, for every offset for which
  \<open>offset + bytes\<close> does not wrap.\<close>

theorem short_reads_throw:
  assumes "offset + 8 < 2 ^ 64"
  shows "(length buf < offset + 1 \<longrightarrow>
      le_read_uint8 buf offset = Inl OutOfRange \<and> be_read_uint8 buf offset = Inl OutOfRange) \<and>
    (length buf < offset + 2 \<longrightarrow>
      le_read_uint16 buf offset = Inl OutOfRange \<and> be_read_uint16 buf offset = Inl OutOfRange) \<and>
    (length buf < offset + 4 \<longrightarrow>
      le_read_uint32 buf offset = Inl OutOfRange \<and> be_read_uint32 buf offset = Inl OutOfRange) \<and>
    (length buf < offset + 8 \<longrightarrow>
      le_read_uint64 buf offset = Inl OutOfRange \<and> be_read_uint64 buf offset = Inl OutOfRange) \<and>
    le_read_uint64 buf offset \<noteq> Inl UndefinedBehaviour \<and>
    be_read_uint64 buf offset \<noteq> Inl UndefinedBehaviour"
proof -
  have "le_read_uint64 buf offset \<noteq> Inl UndefinedBehaviour \<and>
      be_read_uint64 buf offset \<noteq> Inl UndefinedBehaviour"
  proof (cases "length buf < offset + 8")
    case True
    then show ?thesis using assms le.rd_short(4) be.rd_short(4) by simp
  next
    case False
    then show ?thesis by (simp add: le_read_uint64_def be_read_uint64_def)
  qed
  then show ?thesis
    using assms le.rd_short [of offset buf] be.rd_short [of offset buf] by blast
qed

theorem short_reads_throw_witness:
  "le_read_uint64 [1, 2, 3] 1 = Inl OutOfRange \<and> be_read_uint16 [1, 2, 3] 2 = Inl OutOfRange"
  using short_reads_throw [of 1 "[1, 2, 3]"] short_reads_throw [of 2 "[1, 2, 3]"] by simp

text \<open>the guard of the readers is computed modulo \<open>2 ^ 64\<close>: at the largest offset the sum wraps
  to a small number, the guard lets the read pass, and the vector is indexed out of range.\<close>

theorem readable_guard_wraps:
  assumes "1 \<le> length buf" and "length buf < 2 ^ 63"
  shows "le_read_uint16 buf (2 ^ 64 - 1) = Inl UndefinedBehaviour \<and>
    be_read_uint16 buf (2 ^ 64 - 1) = Inl UndefinedBehaviour"
  using assms by (auto simp: le_read_uint16_def be_read_uint16_def EnsureReadable_def vec_at_def)

theorem readable_guard_wraps_witness:
  "le_read_uint16 [1, 2] (2 ^ 64 - 1) = Inl UndefinedBehaviour"
  using readable_guard_wraps [of "[1, 2]"] by simp

end
