(* ===== verification/FlyProtocol.thy ===== *)
theory FlyProtocol
  imports Prelude
begin

text \<open>
  \<open>src/util/my_fly_control/FlyControlProtocol.h\<close>: the constants, enumerations and structs of the
  flight-controller protocol, in the order of the header. Integer fields keep their width;
  \<open>int16_t\<close> and \<open>int32_t\<close> fields are the words with the same bits. \<open>std::vector\<close> is a list.
\<close>

section \<open>Constants\<close>

definition FRAME_HEADER_0 :: byte where
  "FRAME_HEADER_0 = 0xEB"

definition FRAME_HEADER_1 :: byte where
  "FRAME_HEADER_1 = 0x90"

definition FRAME_TAIL_0 :: byte where
  "FRAME_TAIL_0 = 0xED"

definition FRAME_TAIL_1 :: byte where
  "FRAME_TAIL_1 = 0xDE"

definition FRAME_HEADER_LEN :: nat where
  "FRAME_HEADER_LEN = 2"

definition FRAME_TAIL_LEN :: nat where
  "FRAME_TAIL_LEN = 2"

definition FRAME_CHECKSUM_LEN :: nat where
  "FRAME_CHECKSUM_LEN = 1"

definition FRAME_TYPE_HEARTBEAT :: byte where
  "FRAME_TYPE_HEARTBEAT = 0x01"

definition FRAME_TYPE_SET_DESTINATION :: byte where
  "FRAME_TYPE_SET_DESTINATION = 0x02"

definition FRAME_TYPE_COMMAND :: byte where
  "FRAME_TYPE_COMMAND = 0x10"

definition FRAME_TYPE_REPLY :: byte where
  "FRAME_TYPE_REPLY = 0x20"

definition FRAME_TYPE_GIMBAL_CONTROL :: byte where
  "FRAME_TYPE_GIMBAL_CONTROL = 0x30"

definition CMD_SET_DESTINATION :: byte where
  "CMD_SET_DESTINATION = 0x01"

definition CMD_SET_ROUTE :: byte where
  "CMD_SET_ROUTE = 0x02"

definition CMD_SET_ANGLE :: byte where
  "CMD_SET_ANGLE = 0x03"

definition CMD_SET_SPEED :: byte where
  "CMD_SET_SPEED = 0x04"

definition CMD_SET_ALTITUDE :: byte where
  "CMD_SET_ALTITUDE = 0x05"

definition CMD_POWER_SWITCH :: byte where
  "CMD_POWER_SWITCH = 0x06"

definition CMD_PARACHUTE :: byte where
  "CMD_PARACHUTE = 0x07"

definition CMD_BUTTON :: byte where
  "CMD_BUTTON = 0x09"

definition CMD_SET_ORIGIN_RETURN :: byte where
  "CMD_SET_ORIGIN_RETURN = 0x0A"

definition CMD_SET_GEOFENCE :: byte where
  "CMD_SET_GEOFENCE = 0x0B"

definition CMD_SWITCH_MODE :: byte where
  "CMD_SWITCH_MODE = 0x0C"

definition CMD_GUIDANCE :: byte where
  "CMD_GUIDANCE = 0x0D"

definition CMD_GUIDANCE_NEW :: byte where
  "CMD_GUIDANCE_NEW = 0x0E"

definition CMD_GIMBAL_ANG_RATE :: byte where
  "CMD_GIMBAL_ANG_RATE = 0x0F"

definition CMD_GIMBAL_ANGLE :: byte where
  "CMD_GIMBAL_ANGLE = 0x10"

definition CMD_TARGET_STATE :: byte where
  "CMD_TARGET_STATE = 0x11"

definition HEARTBEAT_FRAME_LEN :: nat where
  "HEARTBEAT_FRAME_LEN = 89"

lemmas fly_consts [simp, frame_simps] =
  FRAME_HEADER_0_def FRAME_HEADER_1_def FRAME_TAIL_0_def FRAME_TAIL_1_def
  FRAME_HEADER_LEN_def FRAME_TAIL_LEN_def FRAME_CHECKSUM_LEN_def FRAME_TYPE_HEARTBEAT_def
  FRAME_TYPE_SET_DESTINATION_def FRAME_TYPE_COMMAND_def FRAME_TYPE_REPLY_def FRAME_TYPE_GIMBAL_CONTROL_def
  CMD_SET_DESTINATION_def CMD_SET_ROUTE_def CMD_SET_ANGLE_def CMD_SET_SPEED_def
  CMD_SET_ALTITUDE_def CMD_POWER_SWITCH_def CMD_PARACHUTE_def CMD_BUTTON_def
  CMD_SET_ORIGIN_RETURN_def CMD_SET_GEOFENCE_def CMD_SWITCH_MODE_def CMD_GUIDANCE_def
  CMD_GUIDANCE_NEW_def CMD_GIMBAL_ANG_RATE_def CMD_GIMBAL_ANGLE_def CMD_TARGET_STATE_def
  HEARTBEAT_FRAME_LEN_def

section \<open>Enumerations\<close>

datatype RunMode =
    REAL_FLIGHT
  | SIMULATION

fun RunMode_code :: "RunMode \<Rightarrow> byte" where
  "RunMode_code REAL_FLIGHT = 0x00"
| "RunMode_code SIMULATION = 0x01"

datatype FlightMode =
    PRE_TAKEOFF
  | POST_TAKEOFF
  | MISSION_READY
  | MISSION_RUNNING

fun FlightMode_code :: "FlightMode \<Rightarrow> byte" where
  "FlightMode_code PRE_TAKEOFF = 0x00"
| "FlightMode_code POST_TAKEOFF = 0x01"
| "FlightMode_code MISSION_READY = 0x02"
| "FlightMode_code MISSION_RUNNING = 0x03"

datatype FlightState =
    LEVEL_FLIGHT
  | RETURN_HOME
  | ORBIT
  | WAYPOINT
  | CRUISE
  | TRACKING
  | LANDING
  | TAKEOFF
  | DIVE_PULLUP
  | EMERGENCY_LAND
  | FAST_DESCENT
  | ORIGIN_LOITER
  | TAKEOFF_LOCKED
  | TAKEOFF_UNLOCKED
  | LAUNCHED
  | RECOVERY
  | LEFT_CIRCLE
  | RIGHT_CIRCLE
  | TOUCHDOWN
  | MISSION_1
  | MISSION_2
  | MISSION_3
  | MISSION_4

fun FlightState_code :: "FlightState \<Rightarrow> byte" where
  "FlightState_code LEVEL_FLIGHT = 0x00"
| "FlightState_code RETURN_HOME = 0x01"
| "FlightState_code ORBIT = 0x02"
| "FlightState_code WAYPOINT = 0x03"
| "FlightState_code CRUISE = 0x04"
| "FlightState_code TRACKING = 0x05"
| "FlightState_code LANDING = 0x06"
| "FlightState_code TAKEOFF = 0x07"
| "FlightState_code DIVE_PULLUP = 0x08"
| "FlightState_code EMERGENCY_LAND = 0x09"
| "FlightState_code FAST_DESCENT = 0x0A"
| "FlightState_code ORIGIN_LOITER = 0x0B"
| "FlightState_code TAKEOFF_LOCKED = 0x10"
| "FlightState_code TAKEOFF_UNLOCKED = 0x11"
| "FlightState_code LAUNCHED = 0x13"
| "FlightState_code RECOVERY = 0x20"
| "FlightState_code LEFT_CIRCLE = 0x21"
| "FlightState_code RIGHT_CIRCLE = 0x22"
| "FlightState_code TOUCHDOWN = 0x30"
| "FlightState_code MISSION_1 = 0xA0"
| "FlightState_code MISSION_2 = 0xA1"
| "FlightState_code MISSION_3 = 0xA2"
| "FlightState_code MISSION_4 = 0xA3"

datatype AltitudeType =
    ALT_MSL
  | ALT_RELATIVE

fun AltitudeType_code :: "AltitudeType \<Rightarrow> byte" where
  "AltitudeType_code ALT_MSL = 0x00"
| "AltitudeType_code ALT_RELATIVE = 0x01"

datatype PowerSwitchCmd =
    BATTERY_OFF
  | BATTERY_ON
  | GIMBAL_OFF
  | GIMBAL_ON

fun PowerSwitchCmd_code :: "PowerSwitchCmd \<Rightarrow> byte" where
  "PowerSwitchCmd_code BATTERY_OFF = 0x00"
| "PowerSwitchCmd_code BATTERY_ON = 0x01"
| "PowerSwitchCmd_code GIMBAL_OFF = 0x02"
| "PowerSwitchCmd_code GIMBAL_ON = 0x03"

datatype ParachuteType =
    CHUTE_RECOVERY
  | CHUTE_IMMEDIATE

fun ParachuteType_code :: "ParachuteType \<Rightarrow> byte" where
  "ParachuteType_code CHUTE_RECOVERY = 0x00"
| "ParachuteType_code CHUTE_IMMEDIATE = 0x01"

datatype CoordPointType =
    COORD_ORIGIN
  | COORD_RETURN_HOME

fun CoordPointType_code :: "CoordPointType \<Rightarrow> byte" where
  "CoordPointType_code COORD_ORIGIN = 0x00"
| "CoordPointType_code COORD_RETURN_HOME = 0x01"

section \<open>Structs\<close>

record FaultBits =
  fb_link_lost :: bool
  fb_distance_exceed :: bool
  fb_attitude_exceed :: bool
  fb_altitude_too_low :: bool
  fb_altitude_too_high :: bool
  fb_voltage_too_low :: bool
  fb_mission_fault :: bool
  fb_gps_lost :: bool
  fb_takeoff_failed :: bool
  fb_attitude_error :: bool
  fb_return_timeout :: bool
  fb_return_dist_error :: bool
  fb_parachute_failed :: bool

definition FaultBits_init :: FaultBits where
  "FaultBits_init = \<lparr>fb_link_lost = False,
     fb_distance_exceed = False,
     fb_attitude_exceed = False,
     fb_altitude_too_low = False,
     fb_altitude_too_high = False,
     fb_voltage_too_low = False,
     fb_mission_fault = False,
     fb_gps_lost = False,
     fb_takeoff_failed = False,
     fb_attitude_error = False,
     fb_return_timeout = False,
     fb_return_dist_error = False,
     fb_parachute_failed = False\<rparr>"

record HeartbeatData =
  hb_cnt :: byte
  hb_aircraft_id :: byte
  hb_run_mode :: byte
  hb_satellite_count :: byte
  hb_longitude :: i32
  hb_latitude :: i32
  hb_altitude :: u16
  hb_relative_alt :: u16
  hb_airspeed :: u16
  hb_groundspeed :: u16
  hb_velocity_x :: i16
  hb_velocity_y :: i16
  hb_velocity_z :: i16
  hb_accel_x :: i16
  hb_accel_y :: i16
  hb_accel_z :: i16
  hb_roll :: i16
  hb_pitch :: i16
  hb_yaw :: u16
  hb_flight_mode :: byte
  hb_current_waypoint :: u16
  hb_battery_voltage :: u16
  hb_battery_percent :: byte
  hb_battery_current :: u16
  hb_atm_pressure :: u16
  hb_utc_timestamp :: u64
  hb_fault_info :: u16
  hb_rotation_speed :: u16
  hb_throttle :: u16
  hb_target_altitude :: u16
  hb_target_speed :: u16
  hb_origin_distance :: u16
  hb_origin_heading :: u16
  hb_target_distance :: u16
  hb_flight_state :: byte
  hb_altitude_state :: byte
  hb_state_switch_src :: byte
  hb_flight_time :: u16
  hb_flight_range :: u16
  hb_reserved :: u32

definition HeartbeatData_init :: HeartbeatData where
  "HeartbeatData_init = \<lparr>hb_cnt = 0,
     hb_aircraft_id = 0,
     hb_run_mode = 0,
     hb_satellite_count = 0,
     hb_longitude = 0,
     hb_latitude = 0,
     hb_altitude = 0,
     hb_relative_alt = 0,
     hb_airspeed = 0,
     hb_groundspeed = 0,
     hb_velocity_x = 0,
     hb_velocity_y = 0,
     hb_velocity_z = 0,
     hb_accel_x = 0,
     hb_accel_y = 0,
     hb_accel_z = 0,
     hb_roll = 0,
     hb_pitch = 0,
     hb_yaw = 0,
     hb_flight_mode = 0,
     hb_current_waypoint = 0,
     hb_battery_voltage = 0,
     hb_battery_percent = 0,
     hb_battery_current = 0,
     hb_atm_pressure = 0,
     hb_utc_timestamp = 0,
     hb_fault_info = 0,
     hb_rotation_speed = 0,
     hb_throttle = 0,
     hb_target_altitude = 0,
     hb_target_speed = 0,
     hb_origin_distance = 0,
     hb_origin_heading = 0,
     hb_target_distance = 0,
     hb_flight_state = 0,
     hb_altitude_state = 0,
     hb_state_switch_src = 0,
     hb_flight_time = 0,
     hb_flight_range = 0,
     hb_reserved = 0\<rparr>"

record GimbalControlData =
  gc_cnt :: byte
  gc_enable :: byte
  gc_pitch_angle :: i16
  gc_yaw_angle :: i16

definition GimbalControlData_init :: GimbalControlData where
  "GimbalControlData_init = \<lparr>gc_cnt = 0,
     gc_enable = 0,
     gc_pitch_angle = 0,
     gc_yaw_angle = 0\<rparr>"

record CommandReplyData =
  cr_cnt :: byte
  cr_replied_cmd :: byte
  cr_result :: byte

definition CommandReplyData_init :: CommandReplyData where
  "CommandReplyData_init = \<lparr>cr_cnt = 0,
     cr_replied_cmd = 0,
     cr_result = 0\<rparr>"

record SetDestinationData =
  sd_cmd_type :: byte
  sd_longitude :: i32
  sd_latitude :: i32
  sd_altitude :: u16

definition SetDestinationData_init :: SetDestinationData where
  "SetDestinationData_init = \<lparr>sd_cmd_type = CMD_SET_DESTINATION,
     sd_longitude = 0,
     sd_latitude = 0,
     sd_altitude = 0\<rparr>"

record RoutePoint =
  rp_longitude :: i32
  rp_latitude :: i32
  rp_altitude :: u16
  rp_index :: u16
  rp_speed :: u16

definition RoutePoint_init :: RoutePoint where
  "RoutePoint_init = \<lparr>rp_longitude = 0,
     rp_latitude = 0,
     rp_altitude = 0,
     rp_index = 0,
     rp_speed = 0\<rparr>"

record SetRouteData =
  sr_cmd_type :: byte
  sr_points :: "RoutePoint list"

definition SetRouteData_init :: SetRouteData where
  "SetRouteData_init = \<lparr>sr_cmd_type = CMD_SET_ROUTE,
     sr_points = []\<rparr>"

record SetAngleData =
  sa_cmd_type :: byte
  sa_pitch :: i16
  sa_yaw :: u16

definition SetAngleData_init :: SetAngleData where
  "SetAngleData_init = \<lparr>sa_cmd_type = CMD_SET_ANGLE,
     sa_pitch = 0,
     sa_yaw = 0\<rparr>"

record SetSpeedData =
  ss_cmd_type :: byte
  ss_speed :: u16

definition SetSpeedData_init :: SetSpeedData where
  "SetSpeedData_init = \<lparr>ss_cmd_type = CMD_SET_SPEED,
     ss_speed = 0\<rparr>"

record SetAltitudeData =
  sal_cmd_type :: byte
  sal_altitude_type :: byte
  sal_altitude :: u16

definition SetAltitudeData_init :: SetAltitudeData where
  "SetAltitudeData_init = \<lparr>sal_cmd_type = CMD_SET_ALTITUDE,
     sal_altitude_type = 0,
     sal_altitude = 0\<rparr>"

record PowerSwitchData =
  ps_cmd_type :: byte
  ps_command :: byte

definition PowerSwitchData_init :: PowerSwitchData where
  "PowerSwitchData_init = \<lparr>ps_cmd_type = CMD_POWER_SWITCH,
     ps_command = 0\<rparr>"

record ParachuteData =
  pc_cmd_type :: byte
  pc_parachute_type :: byte

definition ParachuteData_init :: ParachuteData where
  "ParachuteData_init = \<lparr>pc_cmd_type = CMD_PARACHUTE,
     pc_parachute_type = 0\<rparr>"

record ButtonCommandData =
  bc_cmd_type :: byte
  bc_button :: byte

definition ButtonCommandData_init :: ButtonCommandData where
  "ButtonCommandData_init = \<lparr>bc_cmd_type = CMD_BUTTON,
     bc_button = 0\<rparr>"

record SetOriginReturnData =
  so_cmd_type :: byte
  so_point_type :: byte
  so_longitude :: i32
  so_latitude :: i32
  so_altitude :: u16

definition SetOriginReturnData_init :: SetOriginReturnData where
  "SetOriginReturnData_init = \<lparr>so_cmd_type = CMD_SET_ORIGIN_RETURN,
     so_point_type = 0,
     so_longitude = 0,
     so_latitude = 0,
     so_altitude = 0\<rparr>"

record GeofencePoint =
  gp_longitude :: i32
  gp_latitude :: i32
  gp_altitude :: u16
  gp_index :: byte

definition GeofencePoint_init :: GeofencePoint where
  "GeofencePoint_init = \<lparr>gp_longitude = 0,
     gp_latitude = 0,
     gp_altitude = 0,
     gp_index = 0\<rparr>"

record SetGeofenceData =
  sg_cmd_type :: byte
  sg_points :: "GeofencePoint list"

definition SetGeofenceData_init :: SetGeofenceData where
  "SetGeofenceData_init = \<lparr>sg_cmd_type = CMD_SET_GEOFENCE,
     sg_points = []\<rparr>"

record SwitchModeData =
  sm_cmd_type :: byte
  sm_mode :: byte

definition SwitchModeData_init :: SwitchModeData where
  "SwitchModeData_init = \<lparr>sm_cmd_type = CMD_SWITCH_MODE,
     sm_mode = 0\<rparr>"

record GuidanceData =
  gd_cmd_type :: byte
  gd_mode_switch :: byte
  gd_frame_id :: u32
  gd_track_id :: u32
  gd_target_lon :: i32
  gd_target_lat :: i32
  gd_target_alt :: u16

definition GuidanceData_init :: GuidanceData where
  "GuidanceData_init = \<lparr>gd_cmd_type = CMD_GUIDANCE,
     gd_mode_switch = 0,
     gd_frame_id = 0,
     gd_track_id = 0,
     gd_target_lon = 0,
     gd_target_lat = 0,
     gd_target_alt = 0\<rparr>"

record GuidanceNewData =
  gn_cmd_type :: byte
  gn_pitch_los_rate :: i16
  gn_yaw_los_rate :: i16
  gn_pitch_los_angle :: i16
  gn_yaw_los_angle :: i16
  gn_pitch_frame_angle :: i16
  gn_yaw_frame_angle :: i16
  gn_gimbal_pitch_angle :: i16
  gn_gimbal_yaw_angle :: i16
  gn_acc_x :: i16
  gn_acc_y :: i16
  gn_acc_z :: i16
  gn_gyro_x :: i16
  gn_gyro_y :: i16
  gn_gyro_z :: i16
  gn_target_id :: u16
  gn_target_type :: u16
  gn_target_lon :: i32
  gn_target_lat :: i32
  gn_target_alt :: i32
  gn_laser_range :: i32
  gn_status :: byte

definition GuidanceNewData_init :: GuidanceNewData where
  "GuidanceNewData_init = \<lparr>gn_cmd_type = CMD_GUIDANCE_NEW,
     gn_pitch_los_rate = 0,
     gn_yaw_los_rate = 0,
     gn_pitch_los_angle = 0,
     gn_yaw_los_angle = 0,
     gn_pitch_frame_angle = 0,
     gn_yaw_frame_angle = 0,
     gn_gimbal_pitch_angle = 0,
     gn_gimbal_yaw_angle = 0,
     gn_acc_x = 0,
     gn_acc_y = 0,
     gn_acc_z = 0,
     gn_gyro_x = 0,
     gn_gyro_y = 0,
     gn_gyro_z = 0,
     gn_target_id = 0,
     gn_target_type = 0,
     gn_target_lon = 0,
     gn_target_lat = 0,
     gn_target_alt = 0,
     gn_laser_range = 0,
     gn_status = 0\<rparr>"

record GimbalAngRateData =
  gr_cmd_type :: byte
  gr_pitch_los_rate :: i32
  gr_yaw_los_rate :: i32
  gr_target_lon :: i32
  gr_target_lat :: i32
  gr_target_alt :: i32
  gr_laser_range :: i32
  gr_status :: byte

definition GimbalAngRateData_init :: GimbalAngRateData where
  "GimbalAngRateData_init = \<lparr>gr_cmd_type = CMD_GIMBAL_ANG_RATE,
     gr_pitch_los_rate = 0,
     gr_yaw_los_rate = 0,
     gr_target_lon = 0,
     gr_target_lat = 0,
     gr_target_alt = 0,
     gr_laser_range = 0,
     gr_status = 0\<rparr>"

record GimbalAngleData =
  ga_cmd_type :: byte
  ga_pitch_frame_angle :: i32
  ga_yaw_frame_angle :: i32
  ga_pitch_ang_rate :: i32
  ga_yaw_ang_rate :: i32

definition GimbalAngleData_init :: GimbalAngleData where
  "GimbalAngleData_init = \<lparr>ga_cmd_type = CMD_GIMBAL_ANGLE,
     ga_pitch_frame_angle = 0,
     ga_yaw_frame_angle = 0,
     ga_pitch_ang_rate = 0,
     ga_yaw_ang_rate = 0\<rparr>"

record TargetStateData =
  ts_cmd_type :: byte
  ts_pitch_axis_angle :: i32
  ts_yaw_axis_angle :: i32
  ts_target_vertical_ratio :: byte
  ts_target_horizontal_ratio :: byte
  ts_status :: byte

definition TargetStateData_init :: TargetStateData where
  "TargetStateData_init = \<lparr>ts_cmd_type = CMD_TARGET_STATE,
     ts_pitch_axis_angle = 0,
     ts_yaw_axis_angle = 0,
     ts_target_vertical_ratio = 0,
     ts_target_horizontal_ratio = 0,
     ts_status = 0\<rparr>"

record ParsedFrame =
  pf_cnt :: byte
  pf_frame_type :: byte
  pf_payload :: "byte list"
  pf_checksum :: byte
  pf_valid :: bool

definition ParsedFrame_init :: ParsedFrame where
  "ParsedFrame_init = \<lparr>pf_cnt = 0,
     pf_frame_type = 0,
     pf_payload = [],
     pf_checksum = 0,
     pf_valid = False\<rparr>"

end
