(* ===== verification/Framing.thy ===== *)
theory Framing
  imports Prelude
begin

text \<open>
  Interfaces of a stream parser. A parser keeps the bytes it has not used; \<open>pop\<close> takes one frame
  out of them or says that there is none, and \<open>drain\<close> is the loop \<open>while (pop(frame)) handle(frame)\<close>
  of its user.
\<close>

section \<open>Draining a parser\<close>

locale framer =
  fixes pop :: "'b list \<Rightarrow> 'f option \<times> 'b list"
    and drain :: "'b list \<Rightarrow> 'f list \<times> 'b list"
  assumes pop_shrinks: "pop b = (Some f, r) \<Longrightarrow> length r < length b"
    and drain_unfold: "drain b =
      (case pop b of (None, r) \<Rightarrow> ([], r) | (Some f, r) \<Rightarrow> (case drain r of (fs, r') \<Rightarrow> (f # fs, r')))"
begin

lemma drain_None: "pop b = (None, r) \<Longrightarrow> drain b = ([], r)"
  by (subst drain_unfold) simp

lemma drain_Some: "pop b = (Some f, r) \<Longrightarrow> drain b = (f # fst (drain r), snd (drain r))"
  by (subst drain_unfold) (simp split: prod.splits)

lemma drain_length: "length (fst (drain b)) \<le> length b"
proof (induction b rule: length_induct)
  case (1 b)
  show ?case
  proof (cases "pop b")
    case (Pair o' r)
    then show ?thesis
      using 1 pop_shrinks [of b _ r] by (cases o') (fastforce simp: drain_None drain_Some)+
  qed
qed

end

section \<open>Parsers that do not care how the stream is cut\<close>

text \<open>
  A frame that was found stays the same when more bytes follow, and what a failed \<open>pop\<close> dropped
  is never needed later.
\<close>

locale stable_framer = framer +
  assumes stable_some: "pop b = (Some f, r) \<Longrightarrow> pop (b @ x) = (Some f, r @ x)"
    and stable_none: "pop b = (None, r) \<Longrightarrow> pop (b @ x) = pop (r @ x)"
begin

lemma pop_none_again: "pop b = (None, r) \<Longrightarrow> pop r = (None, r)"
  using stable_none [of b r "[]"] by simp

lemma drain_append:
  "drain b = (fs, r) \<Longrightarrow> drain (b @ x) = (fs @ fst (drain (r @ x)), snd (drain (r @ x)))"
proof (induction b arbitrary: fs rule: length_induct)
  case (1 b)
  show ?case
  proof (cases "pop b")
    case (Pair o' r')
    show ?thesis
    proof (cases o')
      case None
      with Pair 1(2) have r: "r' = r" "fs = []" by (simp_all add: drain_None)
      have "drain (b @ x) = drain (r @ x)"
        using Pair None r stable_none [of b r x] drain_unfold [of "b @ x"] drain_unfold [of "r @ x"]
        by simp
      with r show ?thesis by simp
    next
      case (Some f)
      with Pair have p: "pop b = (Some f, r')" by simp
      have fs: "fs = f # fst (drain r')" "snd (drain r') = r"
        using 1(2) drain_Some [OF p] by auto
      have "drain (r' @ x) = (fst (drain r') @ fst (drain (r @ x)), snd (drain (r @ x)))"
        using 1(1) pop_shrinks [OF p] fs(2) by (metis prod.collapse)
      with fs show ?thesis using drain_Some [OF stable_some [OF p, of x]] by simp
    qed
  qed
qed

lemma drain_residue: "drain b = (fs, r) \<Longrightarrow> drain r = ([], r)"
proof (induction b arbitrary: fs rule: length_induct)
  case (1 b)
  show ?case
  proof (cases "pop b")
    case (Pair o' r')
    show ?thesis
    proof (cases o')
      case None
      with Pair 1(2) have "pop r = (None, r)" using pop_none_again [of b r'] by (simp add: drain_None)
      then show ?thesis by (rule drain_None)
    next
      case (Some f)
      with Pair have p: "pop b = (Some f, r')" by simp
      then have "drain r' = (tl fs, r)" using 1(2) drain_Some [OF p] by (cases "drain r'") auto
      then show ?thesis using 1(1) pop_shrinks [OF p] by blast
    qed
  qed
qed

text \<open>Reading the stream in chunks: append a chunk, drain, keep the rest.\<close>

fun feed_chunks :: "'a list \<Rightarrow> 'a list list \<Rightarrow> 'b list \<times> 'a list" where
  "feed_chunks r [] = ([], r)"
| "feed_chunks r (c # cs) =
     (case drain (r @ c) of (fs, r') \<Rightarrow> case feed_chunks r' cs of (gs, r'') \<Rightarrow> (fs @ gs, r''))"

lemma feed_chunks_concat:
  "drain r = ([], r) \<Longrightarrow> feed_chunks r cs = drain (r @ concat cs)"
proof (induction cs arbitrary: r)
  case (Cons c cs)
  obtain fs r' where d: "drain (r @ c) = (fs, r')" by (cases "drain (r @ c)")
  then have "feed_chunks r' cs = drain (r' @ concat cs)"
    using Cons.IH drain_residue by blast
  moreover have "drain (r @ c @ concat cs) = (fs @ fst (drain (r' @ concat cs)), snd (drain (r' @ concat cs)))"
    using drain_append [OF d, of "concat cs"] by simp
  ultimately show ?case using d by (simp split: prod.splits)
qed simp

end

section \<open>Parsers with an encoder\<close>

locale frame_codec = framer pop drain
  for pop :: "'b list \<Rightarrow> 'f option \<times> 'b list" and drain :: "'b list \<Rightarrow> 'f list \<times> 'b list" +
  fixes build :: "'m \<Rightarrow> 'b list"
    and image :: "'m \<Rightarrow> 'f"
    and ok :: "'m \<Rightarrow> bool"
  assumes pop_build: "ok m \<Longrightarrow> pop (build m @ rest) = (Some (image m), rest)"
begin

text \<open>A stream of encoded messages is drained to exactly these messages, in order.\<close>

lemma drain_builds:
  "list_all ok ms \<Longrightarrow> drain (concat (map build ms) @ rest)
     = (map image ms @ fst (drain rest), snd (drain rest))"
proof (induction ms)
  case (Cons m ms)
  then have "pop (concat (map build (m # ms)) @ rest) = (Some (image m), concat (map build ms) @ rest)"
    using pop_build [of m "concat (map build ms) @ rest"] by simp
  from drain_Some [OF this] Cons show ?case by simp
qed simp

end

end
