(* ===== verification/FlyFrame.thy ===== *)
theory FlyFrame
  imports FlyProtocol ByteCodec Framing
begin

text \<open>
  \<open>src/util/my_fly_control/FlyControlFrame.cpp\<close>: the checksum, the assembly of a frame and the
  stream parser \<open>FrameParser\<close>. The parser's only member is the byte deque \<open>buffer_\<close>, so its state
  is a byte list. \<open>PopFrame\<close> returns the frame (or \<open>None\<close> where the code returns \<open>false\<close> and leaves
  the out-parameter alone) with the buffer it leaves behind; its loop drops at least one byte per
  round, which is the termination measure.
\<close>

section \<open>Operations\<close>

fun checksum_loop :: "u32 \<Rightarrow> byte list \<Rightarrow> u32" where
  "checksum_loop acc [] = acc"
| "checksum_loop acc (b # bs) = checksum_loop (acc + ucast b) bs"

definition CalcChecksum :: "byte list \<Rightarrow> byte" where
  "CalcChecksum data = ucast (checksum_loop 0 data AND 0xFF)"

definition BuildFrame :: "byte \<Rightarrow> byte \<Rightarrow> byte list \<Rightarrow> byte list" where
  "BuildFrame cnt frame_type payload =
     (let frame = [FRAME_HEADER_0, FRAME_HEADER_1, cnt, frame_type] @ payload;
          chk = CalcChecksum frame
      in frame @ [chk, FRAME_TAIL_0, FRAME_TAIL_1])"

definition FeedData :: "byte list \<Rightarrow> byte list \<Rightarrow> byte list" where
  "FeedData buffer data = buffer @ data"

definition Reset :: "byte list \<Rightarrow> byte list" where
  "Reset buffer = []"

definition BufferSize :: "byte list \<Rightarrow> nat" where
  "BufferSize buffer = length buffer"

fun FindHeader :: "byte list \<Rightarrow> bool \<times> byte list" where
  "FindHeader [] = (False, [])"
| "FindHeader [a] = (False, [a])"
| "FindHeader (a # b # bs) =
     (if a = FRAME_HEADER_0 \<and> b = FRAME_HEADER_1 then (True, a # b # bs)
      else FindHeader (b # bs))"

definition CMD_OVERHEAD :: nat where
  "CMD_OVERHEAD = 5 + 3"

definition GetExpectedFrameLen :: "byte \<Rightarrow> byte \<Rightarrow> nat" where
  "GetExpectedFrameLen frame_type cmd_byte =
     (if frame_type = FRAME_TYPE_HEARTBEAT then HEARTBEAT_FRAME_LEN
      else if frame_type = FRAME_TYPE_SET_DESTINATION then 18
      else if frame_type = FRAME_TYPE_REPLY then 9
      else if frame_type = FRAME_TYPE_GIMBAL_CONTROL then 12
      else if frame_type = FRAME_TYPE_COMMAND then
        (if cmd_byte = CMD_SET_ROUTE then 0
         else if cmd_byte = CMD_SET_GEOFENCE then 0
         else if cmd_byte = CMD_SET_ANGLE then CMD_OVERHEAD + 4
         else if cmd_byte = CMD_SET_SPEED then CMD_OVERHEAD + 2
         else if cmd_byte = CMD_SET_ALTITUDE then CMD_OVERHEAD + 3
         else if cmd_byte = CMD_POWER_SWITCH then CMD_OVERHEAD + 1
         else if cmd_byte = CMD_PARACHUTE then CMD_OVERHEAD + 1
         else if cmd_byte = CMD_BUTTON then CMD_OVERHEAD + 1
         else if cmd_byte = CMD_SET_ORIGIN_RETURN then CMD_OVERHEAD + 11
         else if cmd_byte = CMD_SWITCH_MODE then CMD_OVERHEAD + 1
         else if cmd_byte = CMD_GUIDANCE then CMD_OVERHEAD + 19
         else if cmd_byte = CMD_GUIDANCE_NEW then CMD_OVERHEAD + 49
         else if cmd_byte = CMD_GIMBAL_ANG_RATE then CMD_OVERHEAD + 25
         else if cmd_byte = CMD_GIMBAL_ANGLE then CMD_OVERHEAD + 16
         else if cmd_byte = CMD_TARGET_STATE then CMD_OVERHEAD + 11
         else 0)
      else 0)"

definition VAR_OVERHEAD :: nat where
  "VAR_OVERHEAD = 9"

definition CalcVariableLenFrameLen :: "byte list \<Rightarrow> byte \<Rightarrow> nat" where
  "CalcVariableLenFrameLen buffer frame_type =
     (if frame_type \<noteq> FRAME_TYPE_COMMAND then 0
      else if length buffer < 6 then 0
      else let cmd_byte = buffer ! 4; count = buffer ! 5 in
        if cmd_byte = CMD_SET_ROUTE then VAR_OVERHEAD + unat count * 14
        else if cmd_byte = CMD_SET_GEOFENCE then VAR_OVERHEAD + unat count * 11
        else 0)"

lemma FindHeader_length: "FindHeader b = (found, r) \<Longrightarrow> length r \<le> length b"
  by (induction b rule: FindHeader.induct) (auto split: if_splits)

lemma FindHeader_tl:
  "(found, r) = FindHeader b \<Longrightarrow> \<not> length r < 5 \<Longrightarrow> length r - Suc 0 < length b"
  using FindHeader_length [of b found r] by simp

lemma FindHeader_True:
  "FindHeader b = (True, r) \<Longrightarrow> \<exists>bs. r = FRAME_HEADER_0 # FRAME_HEADER_1 # bs"
  by (induction b rule: FindHeader.induct) (auto split: if_splits)

function PopFrame :: "byte list \<Rightarrow> ParsedFrame option \<times> byte list" where
  "PopFrame buffer0 =
     (case FindHeader buffer0 of (found, buffer) \<Rightarrow>
      if \<not> found then (None, buffer)
      else if length buffer < 5 then (None, buffer)
      else
        let frame_type = buffer ! 3;
            cmd_byte = (if frame_type = FRAME_TYPE_COMMAND \<and> length buffer \<ge> 5 then buffer ! 4 else 0);
            expected_len0 = GetExpectedFrameLen frame_type cmd_byte;
            expected_len = (if expected_len0 = 0 then CalcVariableLenFrameLen buffer frame_type
                            else expected_len0)
        in
        if expected_len = 0 then
          (if frame_type \<noteq> FRAME_TYPE_COMMAND then PopFrame (tl buffer) else (None, buffer))
        else if length buffer < expected_len then (None, buffer)
        else if buffer ! (expected_len - 2) \<noteq> FRAME_TAIL_0 \<or>
                buffer ! (expected_len - 1) \<noteq> FRAME_TAIL_1 then PopFrame (tl buffer)
        else
          let chk_pos = expected_len - 3;
              received_chk = buffer ! chk_pos;
              calc_chk = CalcChecksum (take chk_pos buffer);
              payload_start = 4;
              payload_len = chk_pos - payload_start
          in (Some \<lparr>pf_cnt = buffer ! 2, pf_frame_type = buffer ! 3,
                    pf_payload = take payload_len (drop payload_start buffer),
                    pf_checksum = received_chk,
                    pf_valid = (calc_chk = received_chk)\<rparr>,
              drop expected_len buffer))"
  by pat_completeness auto
termination
  by (relation "measure length") (auto dest: FindHeader_tl)

declare PopFrame.simps [simp del]

section \<open>One round of the parser loop\<close>

text \<open>
  What the loop decides about a buffer that starts with a header: wait, drop one byte, or take
  the first \<open>n\<close> bytes as a frame.
\<close>

datatype verdict = NeedMore | Skip | Emit nat

definition expected_len_of :: "byte list \<Rightarrow> nat" where
  "expected_len_of b =
     (let e = GetExpectedFrameLen (b ! 3) (if b ! 3 = FRAME_TYPE_COMMAND then b ! 4 else 0)
      in if e = 0 then CalcVariableLenFrameLen b (b ! 3) else e)"

definition head_verdict :: "byte list \<Rightarrow> verdict" where
  "head_verdict b =
     (if length b < 5 then NeedMore
      else if expected_len_of b = 0 then (if b ! 3 \<noteq> FRAME_TYPE_COMMAND then Skip else NeedMore)
      else if length b < expected_len_of b then NeedMore
      else if b ! (expected_len_of b - 2) \<noteq> FRAME_TAIL_0 \<or> b ! (expected_len_of b - 1) \<noteq> FRAME_TAIL_1
      then Skip else Emit (expected_len_of b))"

definition frame_at :: "nat \<Rightarrow> byte list \<Rightarrow> ParsedFrame" where
  "frame_at n b = \<lparr>pf_cnt = b ! 2, pf_frame_type = b ! 3, pf_payload = take (n - 7) (drop 4 b),
     pf_checksum = b ! (n - 3), pf_valid = (CalcChecksum (take (n - 3) b) = b ! (n - 3))\<rparr>"

lemma PopFrame_unfold:
  "PopFrame b = (case FindHeader b of (found, r) \<Rightarrow>
     if \<not> found then (None, r) else
     case head_verdict r of NeedMore \<Rightarrow> (None, r) | Skip \<Rightarrow> PopFrame (tl r)
       | Emit n \<Rightarrow> (Some (frame_at n r), drop n r))"
  by (subst PopFrame.simps)
    (simp add: head_verdict_def expected_len_of_def frame_at_def Let_def split: prod.splits)

lemma PopFrame_cases:
  obtains (no_header) r where "FindHeader b = (False, r)" "PopFrame b = (None, r)"
    | (wait) r where "FindHeader b = (True, r)" "head_verdict r = NeedMore" "PopFrame b = (None, r)"
    | (skip) r where "FindHeader b = (True, r)" "head_verdict r = Skip"
        "PopFrame b = PopFrame (tl r)" "length (tl r) < length b"
    | (emit) r n where "FindHeader b = (True, r)" "head_verdict r = Emit n"
        "PopFrame b = (Some (frame_at n r), drop n r)"
proof -
  obtain found r where h: "FindHeader b = (found, r)" by (cases "FindHeader b")
  show thesis
  proof (cases found)
    case False
    with h have "PopFrame b = (None, r)" by (subst PopFrame_unfold) simp
    with h False no_header show thesis by simp
  next
    case True
    with h have h: "FindHeader b = (True, r)" by simp
    then have p: "PopFrame b = (case head_verdict r of NeedMore \<Rightarrow> (None, r) | Skip \<Rightarrow> PopFrame (tl r)
        | Emit n \<Rightarrow> (Some (frame_at n r), drop n r))" by (subst PopFrame_unfold) simp
    show thesis
    proof (cases "head_verdict r")
      case Skip
      then have "length (tl r) < length b"
        using FindHeader_tl [OF h [symmetric]] by (auto simp: head_verdict_def split: if_splits)
      with h p Skip skip show thesis by simp
    qed (use h p wait emit in auto)
  qed
qed

lemma GetExpectedFrameLen_bounds:
  "GetExpectedFrameLen ft c = 0 \<or> 9 \<le> GetExpectedFrameLen ft c \<and> GetExpectedFrameLen ft c \<le> 89"
  by (simp add: GetExpectedFrameLen_def CMD_OVERHEAD_def)

lemma CalcVariableLenFrameLen_bounds:
  "CalcVariableLenFrameLen b ft = 0 \<or>
    9 \<le> CalcVariableLenFrameLen b ft \<and> CalcVariableLenFrameLen b ft \<le> 3579"
  using unat_byte_less [of "b ! 5"]
  by (simp add: CalcVariableLenFrameLen_def Let_def VAR_OVERHEAD_def)

lemma expected_len_bounds:
  "expected_len_of b \<noteq> 0 \<Longrightarrow> 9 \<le> expected_len_of b \<and> expected_len_of b \<le> 3579"
  using GetExpectedFrameLen_bounds [of "b ! 3" "if b ! 3 = FRAME_TYPE_COMMAND then b ! 4 else 0"]
    CalcVariableLenFrameLen_bounds [of b "b ! 3"]
  by (auto simp: expected_len_of_def Let_def simp del: fly_consts split: if_splits)

lemma head_verdict_EmitD:
  assumes "head_verdict r = Emit n"
  shows "n = expected_len_of r" "9 \<le> n" "n \<le> 3579" "n \<le> length r"
    "r ! (n - 2) = FRAME_TAIL_0" "r ! (n - 1) = FRAME_TAIL_1"
  using assms expected_len_bounds [of r] by (auto simp: head_verdict_def split: if_splits)

lemma PopFrame_shrinks: "PopFrame b = (Some f, r) \<Longrightarrow> length r < length b"
proof (induction b rule: length_induct)
  case (1 b)
  show ?case
  proof (cases b rule: PopFrame_cases)
    case (skip r')
    with 1 show ?thesis by (metis order_less_trans)
  next
    case (emit r' n)
    with 1(2) head_verdict_EmitD [of r' n] FindHeader_length [of b True r'] show ?thesis by auto
  qed (use 1 in simp_all)
qed

text \<open>
  \<open>while (parser_.PopFrame(frame)) HandleFrame(frame);\<close> in \<open>MyFlyControl::ReceiveLoop\<close>: all frames
  of the buffer, in order, and what is left.
\<close>

function PopAll :: "byte list \<Rightarrow> ParsedFrame list \<times> byte list" where
  "PopAll buffer =
     (case PopFrame buffer of
        (None, r) \<Rightarrow> ([], r)
      | (Some f, r) \<Rightarrow> (case PopAll r of (fs, r') \<Rightarrow> (f # fs, r')))"
  by pat_completeness auto
termination
  by (relation "measure length") (auto dest: PopFrame_shrinks [OF sym])

declare PopAll.simps [simp del]

section \<open>The parser does not depend on how the stream is cut\<close>

lemma FindHeader_True_append: "FindHeader b = (True, r) \<Longrightarrow> FindHeader (b @ x) = (True, r @ x)"
  by (induction b rule: FindHeader.induct) (auto split: if_splits)

lemma FindHeader_False_append: "FindHeader b = (False, r) \<Longrightarrow> FindHeader (b @ x) = FindHeader (r @ x)"
  by (induction b rule: FindHeader.induct) (auto split: if_splits)

lemma FindHeader_idem: "FindHeader b = (True, r) \<Longrightarrow> FindHeader r = (True, r)"
  by (auto dest!: FindHeader_True)

lemma expected_len_append:
  assumes "5 \<le> length b" "expected_len_of b \<noteq> 0 \<or> b ! 3 \<noteq> FRAME_TYPE_COMMAND"
  shows "expected_len_of (b @ x) = expected_len_of b"
proof -
  have n: "(b @ x) ! 3 = b ! 3" "(b @ x) ! 4 = b ! 4" "6 \<le> length b \<Longrightarrow> (b @ x) ! 5 = b ! 5"
    using assms by (auto simp: nth_append)
  show ?thesis
    using assms n
    by (auto simp: expected_len_of_def CalcVariableLenFrameLen_def Let_def simp del: fly_consts
        split: if_splits)
qed

lemma head_verdict_append:
  assumes "head_verdict b \<noteq> NeedMore"
  shows "head_verdict (b @ x) = head_verdict b"
proof -
  have l: "5 \<le> length b" and e: "expected_len_of b \<noteq> 0 \<or> b ! 3 \<noteq> FRAME_TYPE_COMMAND"
    and le: "expected_len_of b \<le> length b"
    using assms by (auto simp: head_verdict_def simp del: fly_consts split: if_splits)
  have n: "(b @ x) ! 3 = b ! 3"
    "expected_len_of b \<noteq> 0 \<Longrightarrow> (b @ x) ! (expected_len_of b - 2) = b ! (expected_len_of b - 2)"
    "expected_len_of b \<noteq> 0 \<Longrightarrow> (b @ x) ! (expected_len_of b - 1) = b ! (expected_len_of b - 1)"
    using l le by (auto simp: nth_append)
  show ?thesis
    using l le n by (auto simp: head_verdict_def expected_len_append [OF l e] simp del: fly_consts)
qed

lemma frame_at_append:
  "9 \<le> n \<Longrightarrow> n \<le> length b \<Longrightarrow> frame_at n (b @ x) = frame_at n b"
  by (auto simp: frame_at_def nth_append)

lemma PopFrame_stable_some: "PopFrame b = (Some f, r) \<Longrightarrow> PopFrame (b @ x) = (Some f, r @ x)"
proof (induction b rule: length_induct)
  case (1 b)
  show ?case
  proof (cases b rule: PopFrame_cases)
    case (skip r')
    from FindHeader_True [OF skip(1)] have "tl (r' @ x) = tl r' @ x" by auto
    with skip have "PopFrame (b @ x) = PopFrame (tl r' @ x)"
      by (subst PopFrame_unfold) (simp add: FindHeader_True_append head_verdict_append)
    with skip 1 show ?thesis by metis
  next
    case (emit r' n)
    note e = head_verdict_EmitD [OF emit(2)]
    from emit have "PopFrame (b @ x) = (Some (frame_at n (r' @ x)), drop n (r' @ x))"
      by (subst PopFrame_unfold) (simp add: FindHeader_True_append head_verdict_append)
    with emit e 1(2) show ?thesis by (simp add: frame_at_append)
  qed (use 1 in simp_all)
qed

lemma PopFrame_stable_none: "PopFrame b = (None, r) \<Longrightarrow> PopFrame (b @ x) = PopFrame (r @ x)"
proof (induction b rule: length_induct)
  case (1 b)
  show ?case
  proof (cases b rule: PopFrame_cases)
    case (no_header r')
    with 1(2) show ?thesis
      using PopFrame_unfold [of "b @ x"] PopFrame_unfold [of "r @ x"]
      by (simp add: FindHeader_False_append)
  next
    case (wait r')
    with 1(2) show ?thesis
      using PopFrame_unfold [of "b @ x"] PopFrame_unfold [of "r @ x"]
        FindHeader_True_append [OF FindHeader_idem, of b r' x]
      by (simp add: FindHeader_True_append)
  next
    case (skip r')
    from FindHeader_True [OF skip(1)] have "tl (r' @ x) = tl r' @ x" by auto
    with skip have "PopFrame (b @ x) = PopFrame (tl r' @ x)"
      by (subst PopFrame_unfold) (simp add: FindHeader_True_append head_verdict_append)
    with skip 1 show ?thesis by metis
  qed (use 1 in simp)
qed

section \<open>Building and parsing\<close>

text \<open>The payload lengths the parser expects, per frame type and command.\<close>

definition well_sized :: "byte \<Rightarrow> byte list \<Rightarrow> bool" where
  "well_sized ft p \<longleftrightarrow> p \<noteq> [] \<and>
     (let e = GetExpectedFrameLen ft (if ft = FRAME_TYPE_COMMAND then hd p else 0) in
      if e \<noteq> 0 then length p + 7 = e
      else ft = FRAME_TYPE_COMMAND \<and> 2 \<le> length p \<and>
        (hd p = CMD_SET_ROUTE \<and> length p = 2 + 14 * unat (p ! 1) \<or>
         hd p = CMD_SET_GEOFENCE \<and> length p = 2 + 11 * unat (p ! 1)))"

definition frame_bytes :: "ParsedFrame \<Rightarrow> byte list" where
  "frame_bytes f = [FRAME_HEADER_0, FRAME_HEADER_1, pf_cnt f, pf_frame_type f] @ pf_payload f @
     [pf_checksum f, FRAME_TAIL_0, FRAME_TAIL_1]"

definition built_frame :: "byte \<Rightarrow> byte \<Rightarrow> byte list \<Rightarrow> ParsedFrame" where
  "built_frame cnt ft p = \<lparr>pf_cnt = cnt, pf_frame_type = ft, pf_payload = p,
     pf_checksum = CalcChecksum ([FRAME_HEADER_0, FRAME_HEADER_1, cnt, ft] @ p), pf_valid = True\<rparr>"

lemma BuildFrame_eq: "BuildFrame cnt ft p = frame_bytes (built_frame cnt ft p)"
  by (simp add: BuildFrame_def frame_bytes_def built_frame_def Let_def del: fly_consts)

lemma length_BuildFrame: "length (BuildFrame cnt ft p) = length p + 7"
  by (simp add: BuildFrame_def Let_def)

lemma expected_len_BuildFrame:
  assumes "well_sized ft p"
  shows "expected_len_of (BuildFrame cnt ft p @ rest) = length p + 7"
proof -
  obtain c q where p: "p = c # q" using assms by (cases p) (auto simp: well_sized_def)
  have n: "(BuildFrame cnt ft p @ rest) ! 3 = ft" "(BuildFrame cnt ft p @ rest) ! 4 = c"
    "q \<noteq> [] \<Longrightarrow> (BuildFrame cnt ft p @ rest) ! 5 = hd q"
    "\<not> length (BuildFrame cnt ft p @ rest) < 6"
    by (auto simp: BuildFrame_def Let_def p neq_Nil_conv)
  define e where "e = GetExpectedFrameLen ft (if ft = FRAME_TYPE_COMMAND then c else 0)"
  have x: "expected_len_of (BuildFrame cnt ft p @ rest) =
      (if e = 0 then CalcVariableLenFrameLen (BuildFrame cnt ft p @ rest) ft else e)"
    unfolding expected_len_of_def n e_def Let_def by (rule refl)
  show ?thesis
  proof (cases "e = 0")
    case False
    then have "length p + 7 = e"
      using assms unfolding well_sized_def Let_def p list.sel e_def [symmetric] by (simp only: if_True not_False_eq_True)
    with False show ?thesis unfolding x by (simp only: if_False)
  next
    case True
    then have "well_sized ft p \<longleftrightarrow> ft = FRAME_TYPE_COMMAND \<and> 2 \<le> length p \<and>
        (c = CMD_SET_ROUTE \<and> length p = 2 + 14 * unat (p ! 1) \<or>
         c = CMD_SET_GEOFENCE \<and> length p = 2 + 11 * unat (p ! 1))"
      unfolding well_sized_def Let_def p list.sel e_def by (simp del: fly_consts)
    with assms have w: "ft = FRAME_TYPE_COMMAND" "q \<noteq> []"
      "c = CMD_SET_ROUTE \<and> length p = 2 + 14 * unat (hd q) \<or>
       c = CMD_SET_GEOFENCE \<and> length p = 2 + 11 * unat (hd q)"
      by (auto simp: p neq_Nil_conv Suc_le_length_iff simp del: fly_consts)
    from w(3) show ?thesis
      unfolding x CalcVariableLenFrameLen_def using True n w(1,2)
      by (auto simp: Let_def VAR_OVERHEAD_def)
  qed
qed

lemma take_four_plus: "take (4 + length p) (a # b # c # d # p @ r) = a # b # c # d # p"
  by (simp add: numeral_eq_Suc)

lemma drop_seven_plus: "drop (7 + length p) (a # b # c # d # p @ x # y # z # r) = r"
  by (simp add: numeral_eq_Suc)

lemma PopFrame_BuildFrame:
  assumes "well_sized ft p"
  shows "PopFrame (BuildFrame cnt ft p @ rest) = (Some (built_frame cnt ft p), rest)"
proof -
  let ?b = "BuildFrame cnt ft p @ rest"
  have h: "FindHeader ?b = (True, ?b)" by (simp add: BuildFrame_def Let_def)
  have i: "?b ! (5 + length p) = FRAME_TAIL_0" "?b ! (6 + length p) = FRAME_TAIL_1"
    by (simp_all add: BuildFrame_def Let_def nth_append numeral_eq_Suc)
  have v: "head_verdict ?b = Emit (length p + 7)"
    using i by (simp add: head_verdict_def expected_len_BuildFrame [OF assms] length_BuildFrame)
  have "frame_at (length p + 7) ?b = built_frame cnt ft p"
    using take_four_plus [of p] by (simp add: frame_at_def built_frame_def BuildFrame_def Let_def nth_append)
  moreover have "drop (length p + 7) ?b = rest"
    using drop_seven_plus [of p] by (simp add: BuildFrame_def Let_def add.commute)
  ultimately show ?thesis by (subst PopFrame_unfold) (simp add: h v)
qed

lemma FindHeader_suffix: "FindHeader b = (found, r) \<Longrightarrow> \<exists>junk. b = junk @ r"
proof (induction b rule: FindHeader.induct)
  case (3 a b bs)
  then show ?case by (auto split: if_splits intro: exI [of _ "a # _"])
qed auto

lemma three_elems: "3 \<le> length xs \<Longrightarrow> \<exists>x y z r. xs = x # y # z # r"
  by (auto simp: numeral_3_eq_3 Suc_le_length_iff)

lemma emit_shape:
  assumes "head_verdict r = Emit n" "FindHeader b = (True, r)"
  obtains cnt ft p chk rest where "n = length p + 7"
    and "r = [FRAME_HEADER_0, FRAME_HEADER_1, cnt, ft] @ p @ [chk, FRAME_TAIL_0, FRAME_TAIL_1] @ rest"
proof -
  note e = head_verdict_EmitD [OF assms(1)]
  obtain bs where r0: "r = FRAME_HEADER_0 # FRAME_HEADER_1 # bs"
    using FindHeader_True [OF assms(2)] by auto
  then obtain cnt ft q where bs: "bs = cnt # ft # q"
    using e(2,4) by (cases bs; cases "tl bs") auto
  have lq: "n \<le> length q + 4" using e(4) by (simp add: r0 bs)
  then have "3 \<le> length (drop (n - 7) q)" using e(2) by simp
  then obtain x y z rest where d: "drop (n - 7) q = x # y # z # rest"
    using three_elems by blast
  define p where "p = take (n - 7) q"
  have p: "length p + 7 = n" using lq e(2) by (simp add: p_def)
  have r: "r = FRAME_HEADER_0 # FRAME_HEADER_1 # cnt # ft # p @ x # y # z # rest"
    using append_take_drop_id [of "n - 7" q] by (simp add: r0 bs p_def d)
  have "r ! (length p + 5) = y" "r ! (length p + 6) = z"
    by (simp_all add: r nth_append numeral_eq_Suc)
  moreover have "n - 2 = length p + 5" "n - 1 = length p + 6" using p by simp_all
  ultimately have "y = FRAME_TAIL_0" "z = FRAME_TAIL_1" using e(5,6) by (simp_all del: fly_consts)
  with p r that [of p cnt ft x rest] show thesis by (simp del: fly_consts)
qed

lemma PopFrame_sound:
  "PopFrame b = (Some f, r) \<Longrightarrow> (\<exists>junk. b = junk @ frame_bytes f @ r) \<and>
     (pf_valid f \<longleftrightarrow> CalcChecksum ([FRAME_HEADER_0, FRAME_HEADER_1, pf_cnt f, pf_frame_type f] @
        pf_payload f) = pf_checksum f)"
proof (induction b rule: length_induct)
  case (1 b)
  show ?case
  proof (cases b rule: PopFrame_cases)
    case (skip r')
    obtain junk where "b = junk @ r'" using FindHeader_suffix [OF skip(1)] by auto
    then have b: "b = (junk @ [hd r']) @ tl r'"
      using FindHeader_True [OF skip(1)] by auto
    from 1 skip have "(\<exists>junk. tl r' = junk @ frame_bytes f @ r) \<and> (pf_valid f \<longleftrightarrow> CalcChecksum
        ([FRAME_HEADER_0, FRAME_HEADER_1, pf_cnt f, pf_frame_type f] @ pf_payload f) = pf_checksum f)"
      by metis
    with b show ?thesis by (metis append.assoc)
  next
    case (emit r' n)
    from emit(2,1) obtain cnt ft p chk rest where n: "n = length p + 7"
      and r': "r' = [FRAME_HEADER_0, FRAME_HEADER_1, cnt, ft] @ p @ [chk, FRAME_TAIL_0, FRAME_TAIL_1] @ rest"
      by (rule emit_shape)
    have f: "frame_at n r' = \<lparr>pf_cnt = cnt, pf_frame_type = ft, pf_payload = p, pf_checksum = chk,
        pf_valid = (CalcChecksum ([FRAME_HEADER_0, FRAME_HEADER_1, cnt, ft] @ p) = chk)\<rparr>"
      using take_four_plus [of p] by (simp add: frame_at_def n r' nth_append)
    have "r' = frame_bytes (frame_at n r') @ drop n r'"
      unfolding f using drop_seven_plus [of p] by (simp add: frame_bytes_def n r' add.commute)
    moreover obtain junk where "b = junk @ r'" using FindHeader_suffix [OF emit(1)] by auto
    ultimately show ?thesis using 1(2) emit(3) f by auto
  qed (use 1 in simp_all)
qed

section \<open>The parser as a framer\<close>

interpretation fc: stable_framer PopFrame PopAll
proof
  fix b x r f
  show "PopFrame b = (Some f, r) \<Longrightarrow> length r < length b"
    by (rule PopFrame_shrinks)
  show "PopAll b = (case PopFrame b of (None, r) \<Rightarrow> ([], r)
      | (Some f, r) \<Rightarrow> (case PopAll r of (fs, r') \<Rightarrow> (f # fs, r')))"
    by (rule PopAll.simps)
  show "PopFrame b = (Some f, r) \<Longrightarrow> PopFrame (b @ x) = (Some f, r @ x)"
    by (rule PopFrame_stable_some)
  show "PopFrame b = (None, r) \<Longrightarrow> PopFrame (b @ x) = PopFrame (r @ x)"
    by (rule PopFrame_stable_none)
qed

interpretation fb: frame_codec PopFrame PopAll
  "\<lambda>(cnt, ft, p). BuildFrame cnt ft p" "\<lambda>(cnt, ft, p). built_frame cnt ft p"
  "\<lambda>(cnt, ft, p). well_sized ft p"
  by unfold_locales (auto simp: PopFrame_BuildFrame)

text \<open>
  The receive loop on a list of chunks: append a chunk, take all frames, keep the rest.
\<close>

fun ReceiveChunks :: "byte list \<Rightarrow> byte list list \<Rightarrow> ParsedFrame list \<times> byte list" where
  "ReceiveChunks buffer [] = ([], buffer)"
| "ReceiveChunks buffer (c # cs) =
     (case PopAll (FeedData buffer c) of (fs, r) \<Rightarrow>
      case ReceiveChunks r cs of (gs, r') \<Rightarrow> (fs @ gs, r'))"

lemma ReceiveChunks_eq: "ReceiveChunks b cs = fc.feed_chunks b cs"
  by (induction cs arbitrary: b) (auto simp: FeedData_def split: prod.splits)

lemma PopAll_Nil: "PopAll [] = ([], [])"
  by (subst PopAll.simps, subst PopFrame.simps) simp

text \<open>A byte stream in which no header starts inside \<open>junk\<close>.\<close>

fun headerless :: "byte list \<Rightarrow> bool" where
  "headerless (a # b # bs) \<longleftrightarrow> \<not> (a = FRAME_HEADER_0 \<and> b = FRAME_HEADER_1) \<and> headerless (b # bs)"
| "headerless _ \<longleftrightarrow> True"

lemma FindHeader_headerless:
  "headerless junk \<Longrightarrow> FindHeader (junk @ FRAME_HEADER_0 # bs) = FindHeader (FRAME_HEADER_0 # bs)"
  by (induction junk rule: headerless.induct) (auto simp: neq_Nil_conv)

lemma PopFrame_skip_junk:
  "headerless junk \<Longrightarrow> PopFrame (junk @ FRAME_HEADER_0 # bs) = PopFrame (FRAME_HEADER_0 # bs)"
  using PopFrame_unfold [of "junk @ FRAME_HEADER_0 # bs"] PopFrame_unfold [of "FRAME_HEADER_0 # bs"]
  by (simp add: FindHeader_headerless del: fly_consts)

text \<open>Commands of frame type \<open>0x10\<close> the parser has a length for.\<close>

definition known_command :: "byte \<Rightarrow> bool" where
  "known_command c \<longleftrightarrow> c \<in> {CMD_SET_ROUTE, CMD_SET_ANGLE, CMD_SET_SPEED, CMD_SET_ALTITUDE,
     CMD_POWER_SWITCH, CMD_PARACHUTE, CMD_BUTTON, CMD_SET_ORIGIN_RETURN, CMD_SET_GEOFENCE,
     CMD_SWITCH_MODE, CMD_GUIDANCE, CMD_GUIDANCE_NEW, CMD_GIMBAL_ANG_RATE, CMD_GIMBAL_ANGLE,
     CMD_TARGET_STATE}"

lemma unknown_command_len:
  "b ! 3 = FRAME_TYPE_COMMAND \<Longrightarrow> \<not> known_command (b ! 4) \<Longrightarrow> expected_len_of b = 0"
  by (simp add: expected_len_of_def GetExpectedFrameLen_def CalcVariableLenFrameLen_def
      known_command_def Let_def)

lemma known_command_len:
  "b ! 3 = FRAME_TYPE_COMMAND \<Longrightarrow> known_command (b ! 4) \<Longrightarrow> 6 \<le> length b \<Longrightarrow> expected_len_of b \<noteq> 0"
  by (auto simp: expected_len_of_def GetExpectedFrameLen_def CalcVariableLenFrameLen_def
      known_command_def Let_def CMD_OVERHEAD_def VAR_OVERHEAD_def)

lemma wait_bound:
  assumes "head_verdict r = NeedMore"
  shows "length r < 3579 \<or> r ! 3 = FRAME_TYPE_COMMAND \<and> \<not> known_command (r ! 4)"
proof (rule ccontr)
  assume n: "\<not> ?thesis"
  then have l: "6 \<le> length r" by simp
  have "expected_len_of r \<noteq> 0 \<or> r ! 3 \<noteq> FRAME_TYPE_COMMAND"
    using n known_command_len [of r] l by blast
  with n l assms expected_len_bounds [of r] show False
    by (auto simp: head_verdict_def simp del: fly_consts split: if_splits)
qed

lemma FindHeader_False_short: "FindHeader b = (False, r) \<Longrightarrow> length r \<le> 1"
  by (induction b rule: FindHeader.induct) (auto split: if_splits)

lemma PopFrame_residue:
  "PopFrame b = (None, r) \<Longrightarrow> length r < 3579 \<or> r ! 3 = FRAME_TYPE_COMMAND \<and> \<not> known_command (r ! 4)"
proof (induction b rule: length_induct)
  case (1 b)
  show ?case
  proof (cases b rule: PopFrame_cases)
    case (no_header r')
    with 1(2) FindHeader_False_short [of b r'] show ?thesis by simp
  next
    case (wait r')
    with 1(2) wait_bound [of r'] show ?thesis by simp
  next
    case (skip r')
    with 1 show ?thesis by metis
  qed (use 1 in simp)
qed

section \<open>The checksum\<close>

lemma ucast_add_u32: "(ucast (a + b :: u32) :: byte) = ucast a + ucast b"
proof -
  have "take_bit 8 (x + y) = take_bit 8 (take_bit 32 x + take_bit 32 y)" for x y :: int
    using take_bit_add [of 8 x y] take_bit_add [of 8 "take_bit 32 x" "take_bit 32 y"] by simp
  then show ?thesis by transfer (simp add: take_bit_add)
qed

lemma ucast_byte_u32: "(ucast (ucast (b :: byte) :: u32) :: byte) = b"
  by (rule bit_word_eqI) (simp add: bit_simps)

lemma checksum_loop_ucast: "(ucast (checksum_loop acc bs) :: byte) = ucast acc + sum_list bs"
  by (induction bs arbitrary: acc) (simp_all add: ucast_add_u32 ucast_byte_u32 add.assoc)

text \<open>The 32-bit accumulator may wrap; the low byte is the sum modulo 256 all the same.\<close>

lemma CalcChecksum_eq: "CalcChecksum bs = sum_list bs"
proof -
  have "(ucast (w AND 0xFF) :: byte) = ucast w" for w :: u32
    unfolding byte_mask by (rule bit_word_eqI) (auto simp: bit_simps)
  then show ?thesis by (simp add: CalcChecksum_def checksum_loop_ucast)
qed

section \<open>Properties\<close>

text \<open>C1: a frame that \<open>BuildFrame\<close> assembled, for any frame type and payload whose length the
  protocol knows, is found by the parser behind any bytes that contain no header; the fields come
  back, the checksum is accepted, and exactly the bytes behind the frame stay in the buffer.\<close>

theorem build_then_pop:
  assumes "headerless junk" and "well_sized frame_type payload"
  shows "\<exists>f. PopFrame (junk @ BuildFrame cnt frame_type payload @ rest) = (Some f, rest) \<and>
    pf_cnt f = cnt \<and> pf_frame_type f = frame_type \<and> pf_payload f = payload \<and> pf_valid f"
proof -
  have "BuildFrame cnt frame_type payload @ rest = FRAME_HEADER_0 #
      tl (BuildFrame cnt frame_type payload @ rest)"
    by (simp add: BuildFrame_def Let_def)
  then have "PopFrame (junk @ BuildFrame cnt frame_type payload @ rest)
      = PopFrame (BuildFrame cnt frame_type payload @ rest)"
    using PopFrame_skip_junk [OF assms(1)] by metis
  then show ?thesis
    by (simp add: PopFrame_BuildFrame [OF assms(2)] built_frame_def)
qed

theorem build_then_pop_witness:
  "\<exists>f. PopFrame ([0xEB, 0x00, 0xEB] @ BuildFrame 7 0x10 [0x04, 0x34, 0x12] @ [0xEB]) = (Some f, [0xEB])
     \<and> pf_cnt f = 7 \<and> pf_frame_type f = 0x10 \<and> pf_payload f = [0x04, 0x34, 0x12] \<and> pf_valid f"
  by (rule build_then_pop) (simp_all add: well_sized_def GetExpectedFrameLen_def CMD_OVERHEAD_def Let_def)

text \<open>whatever bytes the serial line delivers, a frame the parser reports is in the stream: the
  buffer is dropped bytes, then the frame with header, fields, checksum and tail, then the bytes
  that remain; and a frame reported as valid is byte for byte what \<open>BuildFrame\<close> makes of its
  fields.\<close>

theorem popped_frame_is_in_stream:
  assumes "PopFrame b = (Some f, r)"
  shows "\<exists>junk. b = junk @ frame_bytes f @ r \<and>
    (pf_valid f \<longrightarrow> b = junk @ BuildFrame (pf_cnt f) (pf_frame_type f) (pf_payload f) @ r)"
proof -
  from PopFrame_sound [OF assms] obtain junk where j: "b = junk @ frame_bytes f @ r"
    and v: "pf_valid f \<longleftrightarrow> CalcChecksum ([FRAME_HEADER_0, FRAME_HEADER_1, pf_cnt f, pf_frame_type f] @
        pf_payload f) = pf_checksum f" by auto
  have "pf_valid f \<Longrightarrow> BuildFrame (pf_cnt f) (pf_frame_type f) (pf_payload f) = frame_bytes f"
    using v by (simp add: BuildFrame_def frame_bytes_def Let_def)
  with j show ?thesis by auto
qed

theorem popped_frame_is_in_stream_witness:
  "\<exists>f junk. PopFrame [1, 0xEB, 0x90, 5, 0x20, 3, 1, 0xA4, 0xED, 0xDE, 9] = (Some f, [9]) \<and>
     [1, 0xEB, 0x90, 5, 0x20, 3, 1, 0xA4, 0xED, 0xDE, 9] = junk @ frame_bytes f @ [9]"
proof -
  have b: "[1, 0xEB, 0x90, 5, 0x20, 3, 1, 0xA4, 0xED, 0xDE, 9] = [1] @ BuildFrame 5 0x20 [3, 1] @ [9]"
    by (simp add: BuildFrame_def CalcChecksum_eq Let_def)
  have "well_sized 0x20 [3, 1]" by (simp add: well_sized_def GetExpectedFrameLen_def Let_def)
  then have "PopFrame ([1] @ BuildFrame 5 0x20 [3, 1] @ [9]) = (Some (built_frame 5 0x20 [3, 1]), [9])"
    using PopFrame_BuildFrame [of "0x20" "[3, 1]" 5 "[9]"] PopFrame_skip_junk [of "[1]"]
    by (simp add: BuildFrame_def Let_def)
  from this [folded b] popped_frame_is_in_stream [OF this [folded b]] show ?thesis by blast
qed

text \<open>C13: the frames taken from a stream and the bytes kept do not depend on how the serial reads
  cut the stream into chunks.\<close>

theorem chunking_irrelevant: "ReceiveChunks [] chunks = PopAll (concat chunks)"
  using fc.feed_chunks_concat [of "[]" chunks] by (simp add: ReceiveChunks_eq PopAll_Nil)

text \<open>a stream of assembled frames, cut into chunks in any way, is drained to exactly these
  frames in order, and nothing is left.\<close>

theorem stream_roundtrip:
  assumes "list_all (\<lambda>(cnt, frame_type, payload). well_sized frame_type payload) msgs"
    and "concat chunks = concat (map (\<lambda>(cnt, frame_type, payload). BuildFrame cnt frame_type payload) msgs)"
  shows "\<exists>frames. ReceiveChunks [] chunks = (frames, []) \<and> list_all pf_valid frames \<and>
    map (\<lambda>f. (pf_cnt f, pf_frame_type f, pf_payload f)) frames = msgs"
proof -
  let ?img = "\<lambda>(cnt, ft, p). built_frame cnt ft p"
  have "ReceiveChunks [] chunks = (map ?img msgs, [])"
    using fc.feed_chunks_concat [of "[]" chunks] fb.drain_builds [OF assms(1), of "[]"] assms(2)
    by (simp add: ReceiveChunks_eq PopAll_Nil)
  moreover have "list_all pf_valid (map ?img msgs)"
    by (auto simp: list_all_iff built_frame_def)
  moreover have "map (\<lambda>f. (pf_cnt f, pf_frame_type f, pf_payload f)) (map ?img msgs) = msgs"
    by (induction msgs) (auto simp: built_frame_def)
  ultimately show ?thesis by blast
qed

theorem stream_roundtrip_witness:
  "\<exists>frames. ReceiveChunks [] [BuildFrame 1 0x20 [3, 1] @ [0xEB], tl (BuildFrame 2 0x20 [4, 0])] = (frames, [])
    \<and> list_all pf_valid frames
    \<and> map (\<lambda>f. (pf_cnt f, pf_frame_type f, pf_payload f)) frames = [(1, 0x20, [3, 1]), (2, 0x20, [4, 0])]"
  by (rule stream_roundtrip)
    (simp_all add: well_sized_def GetExpectedFrameLen_def Let_def BuildFrame_def)

text \<open>when the parser asks for more data it holds fewer than 3579 bytes (the longest route
  frame), except when it waits on a command frame with a command byte it has no length for.\<close>

theorem waiting_buffer_bounded:
  assumes "PopFrame b = (None, r)"
  shows "BufferSize r < 3579 \<or> r ! 3 = FRAME_TYPE_COMMAND \<and> \<not> known_command (r ! 4)"
  using PopFrame_residue [OF assms] by (simp add: BufferSize_def)

theorem waiting_buffer_bounded_witness:
  "PopFrame [1, 2, 3] = (None, [3]) \<and> (BufferSize [3] < 3579 \<or> [3] ! 3 = FRAME_TYPE_COMMAND \<and> \<not> known_command ([3] ! 4))"
proof -
  have p: "PopFrame [1, 2, 3] = (None, [3])" by (simp add: PopFrame.simps)
  from p waiting_buffer_bounded [OF p] show ?thesis by blast
qed

text \<open>a command frame (type \<open>0x10\<close>) whose command byte has no known length blocks the parser for
  good: however many bytes arrive, valid frames among them, \<open>PopFrame\<close> reports nothing and drops
  nothing.\<close>

theorem unknown_command_blocks_parser:
  assumes "\<not> known_command c"
  shows "PopFrame ([FRAME_HEADER_0, FRAME_HEADER_1, cnt, FRAME_TYPE_COMMAND, c] @ later)
    = (None, [FRAME_HEADER_0, FRAME_HEADER_1, cnt, FRAME_TYPE_COMMAND, c] @ later)"
proof -
  let ?b = "[FRAME_HEADER_0, FRAME_HEADER_1, cnt, FRAME_TYPE_COMMAND, c] @ later"
  have "expected_len_of ?b = 0" by (rule unknown_command_len) (use assms in simp_all)
  then have "head_verdict ?b = NeedMore" by (simp add: head_verdict_def)
  then show ?thesis by (subst PopFrame_unfold) simp
qed

theorem unknown_command_blocks_parser_witness:
  "PopFrame ([0xEB, 0x90, 0, 0x10, 0x08] @ BuildFrame 1 0x20 [3, 1])
     = (None, [0xEB, 0x90, 0, 0x10, 0x08] @ BuildFrame 1 0x20 [3, 1])"
  using unknown_command_blocks_parser [of "0x08" 0 "BuildFrame 1 0x20 [3, 1]"]
  by (simp add: known_command_def)

text \<open>the checksum is the byte sum modulo 256, so it detects every change of a single byte.\<close>

theorem checksum_detects_one_byte:
  assumes "i < length data" and "v \<noteq> data ! i"
  shows "CalcChecksum (data[i := v]) \<noteq> CalcChecksum data"
proof -
  have "data = take i data @ data ! i # drop (Suc i) data" using assms(1) by (rule id_take_nth_drop)
  then have "CalcChecksum data = sum_list (take i data) + data ! i + sum_list (drop (Suc i) data)"
    by (metis CalcChecksum_eq sum_list.append sum_list.Cons add.assoc)
  moreover have "CalcChecksum (data[i := v]) = sum_list (take i data) + v + sum_list (drop (Suc i) data)"
    using assms(1) by (simp add: CalcChecksum_eq upd_conv_take_nth_drop add.assoc)
  ultimately show ?thesis using assms(2) by simp
qed

theorem checksum_detects_one_byte_witness:
  "CalcChecksum ([1, 2, 3][1 := 9]) \<noteq> CalcChecksum [1, 2, 3]"
  by (rule checksum_detects_one_byte) simp_all

end
