(* ===== verification/FlyCodec.thy ===== *)
theory FlyCodec
  imports FlyFrame
begin

text \<open>
  \<open>src/util/my_fly_control/FlyControlCodec.cpp\<close>: fault bits, the decoders of the frames the flight
  controller sends and the encoders of the commands it receives. A decoder runs a list of field
  statements \<open>out.field = MyLEHelper::read_...(payload, off)\<close> in order; an encoder is the chain of its
  \<open>MyLEHelper::write_...(payload, data.field)\<close> statements.
\<close>

section \<open>Fault bits\<close>

definition FromU16 :: "u16 \<Rightarrow> FaultBits" where
  "FromU16 val =
     FaultBits_init\<lparr>fb_link_lost := (drop_bit 0 val AND 1 \<noteq> 0),
       fb_distance_exceed := (drop_bit 1 val AND 1 \<noteq> 0),
       fb_attitude_exceed := (drop_bit 2 val AND 1 \<noteq> 0),
       fb_altitude_too_low := (drop_bit 4 val AND 1 \<noteq> 0),
       fb_altitude_too_high := (drop_bit 5 val AND 1 \<noteq> 0),
       fb_voltage_too_low := (drop_bit 6 val AND 1 \<noteq> 0),
       fb_mission_fault := (drop_bit 7 val AND 1 \<noteq> 0),
       fb_gps_lost := (drop_bit 8 val AND 1 \<noteq> 0),
       fb_takeoff_failed := (drop_bit 9 val AND 1 \<noteq> 0),
       fb_attitude_error := (drop_bit 10 val AND 1 \<noteq> 0),
       fb_return_timeout := (drop_bit 13 val AND 1 \<noteq> 0),
       fb_return_dist_error := (drop_bit 14 val AND 1 \<noteq> 0),
       fb_parachute_failed := (drop_bit 15 val AND 1 \<noteq> 0)\<rparr>"

text \<open>\<open>if (c) val |= (1 << k);\<close>\<close>

definition set_bit_if :: "bool \<Rightarrow> nat \<Rightarrow> u16 \<Rightarrow> u16" where
  "set_bit_if c k val = (if c then val OR push_bit k 1 else val)"

definition ToU16 :: "FaultBits \<Rightarrow> u16" where
  "ToU16 fb =
     (let val = 0;
          val = set_bit_if (fb_link_lost fb) 0 val;
          val = set_bit_if (fb_distance_exceed fb) 1 val;
          val = set_bit_if (fb_attitude_exceed fb) 2 val;
          val = set_bit_if (fb_altitude_too_low fb) 4 val;
          val = set_bit_if (fb_altitude_too_high fb) 5 val;
          val = set_bit_if (fb_voltage_too_low fb) 6 val;
          val = set_bit_if (fb_mission_fault fb) 7 val;
          val = set_bit_if (fb_gps_lost fb) 8 val;
          val = set_bit_if (fb_takeoff_failed fb) 9 val;
          val = set_bit_if (fb_attitude_error fb) 10 val;
          val = set_bit_if (fb_return_timeout fb) 13 val;
          val = set_bit_if (fb_return_dist_error fb) 14 val;
          val = set_bit_if (fb_parachute_failed fb) 15 val
      in val)"

section \<open>Decoders\<close>

text \<open>One statement \<open>out.f = read_...(payload, off)\<close>: the reader and the field it sets.\<close>

datatype 'r field_stmt =
    F8 "byte \<Rightarrow> 'r \<Rightarrow> 'r"
  | F16 "u16 \<Rightarrow> 'r \<Rightarrow> 'r"
  | FI16 "i16 \<Rightarrow> 'r \<Rightarrow> 'r"
  | F32 "u32 \<Rightarrow> 'r \<Rightarrow> 'r"
  | F64 "u64 \<Rightarrow> 'r \<Rightarrow> 'r"

fun run_stmt :: "'r field_stmt \<Rightarrow> byte list \<Rightarrow> nat \<Rightarrow> 'r \<Rightarrow> cxx_error + ('r \<times> nat)" where
  "run_stmt (F8 s) payload off out = ebind (le_read_uint8 payload off) (\<lambda>(v, off). Inr (s v out, off))"
| "run_stmt (F16 s) payload off out = ebind (le_read_uint16 payload off) (\<lambda>(v, off). Inr (s v out, off))"
| "run_stmt (FI16 s) payload off out = ebind (le_read_int16 payload off) (\<lambda>(v, off). Inr (s v out, off))"
| "run_stmt (F32 s) payload off out = ebind (le_read_uint32 payload off) (\<lambda>(v, off). Inr (s v out, off))"
| "run_stmt (F64 s) payload off out = ebind (le_read_uint64 payload off) (\<lambda>(v, off). Inr (s v out, off))"

fun run_stmts :: "'r field_stmt list \<Rightarrow> byte list \<Rightarrow> nat \<Rightarrow> 'r \<Rightarrow> cxx_error + ('r \<times> nat)" where
  "run_stmts [] payload off out = Inr (out, off)"
| "run_stmts (s # ss) payload off out =
     ebind (run_stmt s payload off out) (\<lambda>(out, off). run_stmts ss payload off out)"

definition heartbeat_stmts :: "HeartbeatData field_stmt list" where
  "heartbeat_stmts =
   [ F8 (\<lambda>v out. out\<lparr>hb_aircraft_id := v\<rparr>),
     F8 (\<lambda>v out. out\<lparr>hb_run_mode := v\<rparr>),
     F8 (\<lambda>v out. out\<lparr>hb_satellite_count := v\<rparr>),
     F32 (\<lambda>v out. out\<lparr>hb_longitude := v\<rparr>),
     F32 (\<lambda>v out. out\<lparr>hb_latitude := v\<rparr>),
     F16 (\<lambda>v out. out\<lparr>hb_altitude := v\<rparr>),
     F16 (\<lambda>v out. out\<lparr>hb_relative_alt := v\<rparr>),
     F16 (\<lambda>v out. out\<lparr>hb_airspeed := v\<rparr>),
     F16 (\<lambda>v out. out\<lparr>hb_groundspeed := v\<rparr>),
     FI16 (\<lambda>v out. out\<lparr>hb_velocity_x := v\<rparr>),
     FI16 (\<lambda>v out. out\<lparr>hb_velocity_y := v\<rparr>),
     FI16 (\<lambda>v out. out\<lparr>hb_velocity_z := v\<rparr>),
     FI16 (\<lambda>v out. out\<lparr>hb_accel_x := v\<rparr>),
     FI16 (\<lambda>v out. out\<lparr>hb_accel_y := v\<rparr>),
     FI16 (\<lambda>v out. out\<lparr>hb_accel_z := v\<rparr>),
     FI16 (\<lambda>v out. out\<lparr>hb_roll := v\<rparr>),
     FI16 (\<lambda>v out. out\<lparr>hb_pitch := v\<rparr>),
     F16 (\<lambda>v out. out\<lparr>hb_yaw := v\<rparr>),
     F8 (\<lambda>v out. out\<lparr>hb_flight_mode := v\<rparr>),
     F16 (\<lambda>v out. out\<lparr>hb_current_waypoint := v\<rparr>),
     F16 (\<lambda>v out. out\<lparr>hb_battery_voltage := v\<rparr>),
     F8 (\<lambda>v out. out\<lparr>hb_battery_percent := v\<rparr>),
     F16 (\<lambda>v out. out\<lparr>hb_battery_current := v\<rparr>),
     F16 (\<lambda>v out. out\<lparr>hb_atm_pressure := v\<rparr>),
     F64 (\<lambda>v out. out\<lparr>hb_utc_timestamp := v\<rparr>),
     F16 (\<lambda>v out. out\<lparr>hb_fault_info := v\<rparr>),
     F16 (\<lambda>v out. out\<lparr>hb_rotation_speed := v\<rparr>),
     F16 (\<lambda>v out. out\<lparr>hb_throttle := v\<rparr>),
     F16 (\<lambda>v out. out\<lparr>hb_target_altitude := v\<rparr>),
     F16 (\<lambda>v out. out\<lparr>hb_target_speed := v\<rparr>),
     F16 (\<lambda>v out. out\<lparr>hb_origin_distance := v\<rparr>),
     F16 (\<lambda>v out. out\<lparr>hb_origin_heading := v\<rparr>),
     F16 (\<lambda>v out. out\<lparr>hb_target_distance := v\<rparr>),
     F8 (\<lambda>v out. out\<lparr>hb_flight_state := v\<rparr>),
     F8 (\<lambda>v out. out\<lparr>hb_altitude_state := v\<rparr>),
     F8 (\<lambda>v out. out\<lparr>hb_state_switch_src := v\<rparr>),
     F16 (\<lambda>v out. out\<lparr>hb_flight_time := v\<rparr>),
     F16 (\<lambda>v out. out\<lparr>hb_flight_range := v\<rparr>),
     F32 (\<lambda>v out. out\<lparr>hb_reserved := v\<rparr>) ]"

definition DecodeHeartbeat :: "byte list \<Rightarrow> HeartbeatData \<Rightarrow> cxx_error + (bool \<times> HeartbeatData)" where
  "DecodeHeartbeat payload out =
     (if length payload < 82 then Inr (False, out)
      else ebind (run_stmts heartbeat_stmts payload 0 out) (\<lambda>(out, off). Inr (True, out)))"

definition gimbal_stmts :: "GimbalControlData field_stmt list" where
  "gimbal_stmts =
   [ F8 (\<lambda>v out. out\<lparr>gc_enable := v\<rparr>),
     FI16 (\<lambda>v out. out\<lparr>gc_pitch_angle := v\<rparr>),
     FI16 (\<lambda>v out. out\<lparr>gc_yaw_angle := v\<rparr>) ]"

definition DecodeGimbalControl :: "byte list \<Rightarrow> GimbalControlData \<Rightarrow> cxx_error + (bool \<times> GimbalControlData)" where
  "DecodeGimbalControl payload out =
     (if length payload < 5 then Inr (False, out)
      else ebind (run_stmts gimbal_stmts payload 0 out) (\<lambda>(out, off). Inr (True, out)))"

definition reply_stmts :: "CommandReplyData field_stmt list" where
  "reply_stmts =
   [ F8 (\<lambda>v out. out\<lparr>cr_replied_cmd := v\<rparr>),
     F8 (\<lambda>v out. out\<lparr>cr_result := v\<rparr>) ]"

definition DecodeCommandReply :: "byte list \<Rightarrow> CommandReplyData \<Rightarrow> cxx_error + (bool \<times> CommandReplyData)" where
  "DecodeCommandReply payload out =
     (if length payload < 2 then Inr (False, out)
      else ebind (run_stmts reply_stmts payload 0 out) (\<lambda>(out, off). Inr (True, out)))"

section \<open>Encoders\<close>

definition EncodeSetDestination :: "byte \<Rightarrow> SetDestinationData \<Rightarrow> byte list" where
  "EncodeSetDestination cnt data =
     (let payload = [];
          payload = le_write_uint8 payload (sd_cmd_type data);
          payload = le_write_uint32 payload (sd_longitude data);
          payload = le_write_uint32 payload (sd_latitude data);
          payload = le_write_uint16 payload (sd_altitude data)
      in BuildFrame cnt FRAME_TYPE_SET_DESTINATION payload)"

definition write_RoutePoint :: "byte list \<Rightarrow> RoutePoint \<Rightarrow> byte list" where
  "write_RoutePoint payload pt =
     (let payload = le_write_uint32 payload (rp_longitude pt);
          payload = le_write_uint32 payload (rp_latitude pt);
          payload = le_write_uint16 payload (rp_altitude pt);
          payload = le_write_uint16 payload (rp_index pt);
          payload = le_write_uint16 payload (rp_speed pt)
      in payload)"

definition EncodeSetRoute :: "byte \<Rightarrow> SetRouteData \<Rightarrow> byte list" where
  "EncodeSetRoute cnt data =
     (let payload = [];
          payload = le_write_uint8 payload (sr_cmd_type data);
          payload = le_write_uint8 payload (of_nat (length (sr_points data)));
          payload = foldl write_RoutePoint payload (sr_points data)
      in BuildFrame cnt FRAME_TYPE_COMMAND payload)"

definition EncodeSetAngle :: "byte \<Rightarrow> SetAngleData \<Rightarrow> byte list" where
  "EncodeSetAngle cnt data =
     (let payload = [];
          payload = le_write_uint8 payload (sa_cmd_type data);
          payload = le_write_int16 payload (sa_pitch data);
          payload = le_write_uint16 payload (sa_yaw data)
      in BuildFrame cnt FRAME_TYPE_COMMAND payload)"

definition EncodeSetSpeed :: "byte \<Rightarrow> SetSpeedData \<Rightarrow> byte list" where
  "EncodeSetSpeed cnt data =
     (let payload = [];
          payload = le_write_uint8 payload (ss_cmd_type data);
          payload = le_write_uint16 payload (ss_speed data)
      in BuildFrame cnt FRAME_TYPE_COMMAND payload)"

definition EncodeSetAltitude :: "byte \<Rightarrow> SetAltitudeData \<Rightarrow> byte list" where
  "EncodeSetAltitude cnt data =
     (let payload = [];
          payload = le_write_uint8 payload (sal_cmd_type data);
          payload = le_write_uint8 payload (sal_altitude_type data);
          payload = le_write_uint16 payload (sal_altitude data)
      in BuildFrame cnt FRAME_TYPE_COMMAND payload)"

definition EncodePowerSwitch :: "byte \<Rightarrow> PowerSwitchData \<Rightarrow> byte list" where
  "EncodePowerSwitch cnt data =
     (let payload = [];
          payload = le_write_uint8 payload (ps_cmd_type data);
          payload = le_write_uint8 payload (ps_command data)
      in BuildFrame cnt FRAME_TYPE_COMMAND payload)"

definition EncodeParachute :: "byte \<Rightarrow> ParachuteData \<Rightarrow> byte list" where
  "EncodeParachute cnt data =
     (let payload = [];
          payload = le_write_uint8 payload (pc_cmd_type data);
          payload = le_write_uint8 payload (pc_parachute_type data)
      in BuildFrame cnt FRAME_TYPE_COMMAND payload)"

definition EncodeButtonCommand :: "byte \<Rightarrow> ButtonCommandData \<Rightarrow> byte list" where
  "EncodeButtonCommand cnt data =
     (let payload = [];
          payload = le_write_uint8 payload (bc_cmd_type data);
          payload = le_write_uint8 payload (bc_button data)
      in BuildFrame cnt FRAME_TYPE_COMMAND payload)"

definition EncodeSetOriginReturn :: "byte \<Rightarrow> SetOriginReturnData \<Rightarrow> byte list" where
  "EncodeSetOriginReturn cnt data =
     (let payload = [];
          payload = le_write_uint8 payload (so_cmd_type data);
          payload = le_write_uint8 payload (so_point_type data);
          payload = le_write_uint32 payload (so_longitude data);
          payload = le_write_uint32 payload (so_latitude data);
          payload = le_write_uint16 payload (so_altitude data)
      in BuildFrame cnt FRAME_TYPE_COMMAND payload)"

definition write_GeofencePoint :: "byte list \<Rightarrow> GeofencePoint \<Rightarrow> byte list" where
  "write_GeofencePoint payload pt =
     (let payload = le_write_uint32 payload (gp_longitude pt);
          payload = le_write_uint32 payload (gp_latitude pt);
          payload = le_write_uint16 payload (gp_altitude pt);
          payload = le_write_uint8 payload (gp_index pt)
      in payload)"

definition EncodeSetGeofence :: "byte \<Rightarrow> SetGeofenceData \<Rightarrow> byte list" where
  "EncodeSetGeofence cnt data =
     (let payload = [];
          payload = le_write_uint8 payload (sg_cmd_type data);
          payload = le_write_uint8 payload (of_nat (length (sg_points data)));
          payload = foldl write_GeofencePoint payload (sg_points data)
      in BuildFrame cnt FRAME_TYPE_COMMAND payload)"

definition EncodeSwitchMode :: "byte \<Rightarrow> SwitchModeData \<Rightarrow> byte list" where
  "EncodeSwitchMode cnt data =
     (let payload = [];
          payload = le_write_uint8 payload (sm_cmd_type data);
          payload = le_write_uint8 payload (sm_mode data)
      in BuildFrame cnt FRAME_TYPE_COMMAND payload)"

definition EncodeGuidance :: "byte \<Rightarrow> GuidanceData \<Rightarrow> byte list" where
  "EncodeGuidance cnt data =
     (let payload = [];
          payload = le_write_uint8 payload (gd_cmd_type data);
          payload = le_write_uint8 payload (gd_mode_switch data);
          payload = le_write_uint32 payload (gd_frame_id data);
          payload = le_write_uint32 payload (gd_track_id data);
          payload = le_write_uint32 payload (gd_target_lon data);
          payload = le_write_uint32 payload (gd_target_lat data);
          payload = le_write_uint16 payload (gd_target_alt data)
      in BuildFrame cnt FRAME_TYPE_COMMAND payload)"

definition EncodeGuidanceNew :: "byte \<Rightarrow> GuidanceNewData \<Rightarrow> byte list" where
  "EncodeGuidanceNew cnt data =
     (let payload = [];
          payload = le_write_uint8 payload (gn_cmd_type data);
          payload = le_write_int16 payload (gn_pitch_los_rate data);
          payload = le_write_int16 payload (gn_yaw_los_rate data);
          payload = le_write_int16 payload (gn_pitch_los_angle data);
          payload = le_write_int16 payload (gn_yaw_los_angle data);
          payload = le_write_int16 payload (gn_pitch_frame_angle data);
          payload = le_write_int16 payload (gn_yaw_frame_angle data);
          payload = le_write_int16 payload (gn_gimbal_pitch_angle data);
          payload = le_write_int16 payload (gn_gimbal_yaw_angle data);
          payload = le_write_int16 payload (gn_acc_x data);
          payload = le_write_int16 payload (gn_acc_y data);
          payload = le_write_int16 payload (gn_acc_z data);
          payload = le_write_int16 payload (gn_gyro_x data);
          payload = le_write_int16 payload (gn_gyro_y data);
          payload = le_write_int16 payload (gn_gyro_z data);
          payload = le_write_uint16 payload (gn_target_id data);
          payload = le_write_uint16 payload (gn_target_type data);
          payload = le_write_uint32 payload (gn_target_lon data);
          payload = le_write_uint32 payload (gn_target_lat data);
          payload = le_write_uint32 payload (gn_target_alt data);
          payload = le_write_uint32 payload (gn_laser_range data);
          payload = le_write_uint8 payload (gn_status data)
      in BuildFrame cnt FRAME_TYPE_COMMAND payload)"

definition EncodeGimbalAngRate :: "byte \<Rightarrow> GimbalAngRateData \<Rightarrow> byte list" where
  "EncodeGimbalAngRate cnt data =
     (let payload = [];
          payload = le_write_uint8 payload (gr_cmd_type data);
          payload = le_write_uint32 payload (gr_pitch_los_rate data);
          payload = le_write_uint32 payload (gr_yaw_los_rate data);
          payload = le_write_uint32 payload (gr_target_lon data);
          payload = le_write_uint32 payload (gr_target_lat data);
          payload = le_write_uint32 payload (gr_target_alt data);
          payload = le_write_uint32 payload (gr_laser_range data);
          payload = le_write_uint8 payload (gr_status data)
      in BuildFrame cnt FRAME_TYPE_COMMAND payload)"

definition EncodeGimbalAngle :: "byte \<Rightarrow> GimbalAngleData \<Rightarrow> byte list" where
  "EncodeGimbalAngle cnt data =
     (let payload = [];
          payload = le_write_uint8 payload (ga_cmd_type data);
          payload = le_write_uint32 payload (ga_pitch_frame_angle data);
          payload = le_write_uint32 payload (ga_yaw_frame_angle data);
          payload = le_write_uint32 payload (ga_pitch_ang_rate data);
          payload = le_write_uint32 payload (ga_yaw_ang_rate data)
      in BuildFrame cnt FRAME_TYPE_COMMAND payload)"

definition EncodeTargetState :: "byte \<Rightarrow> TargetStateData \<Rightarrow> byte list" where
  "EncodeTargetState cnt data =
     (let payload = [];
          payload = le_write_uint8 payload (ts_cmd_type data);
          payload = le_write_uint32 payload (ts_pitch_axis_angle data);
          payload = le_write_uint32 payload (ts_yaw_axis_angle data);
          payload = le_write_uint8 payload (ts_target_vertical_ratio data);
          payload = le_write_uint8 payload (ts_target_horizontal_ratio data);
          payload = le_write_uint8 payload (ts_status data)
      in BuildFrame cnt FRAME_TYPE_COMMAND payload)"

section \<open>Names\<close>

text \<open>The names the code returns are Chinese texts; each is a constructor here.\<close>

datatype command_name =
    NameSetDestination | NameSetRoute | NameSetAngle | NameSetSpeed | NameSetAltitude
  | NamePowerSwitch | NameParachute | NameButton | NameSetOriginReturn | NameSetGeofence
  | NameSwitchMode | NameGuidance | NameGuidanceNew | NameGimbalAngRate | NameGimbalAngle
  | NameTargetState | NameUnknownCommand

definition GetCommandName :: "byte \<Rightarrow> command_name" where
  "GetCommandName cmd_type =
     (if cmd_type = CMD_SET_DESTINATION then NameSetDestination
      else if cmd_type = CMD_SET_ROUTE then NameSetRoute
      else if cmd_type = CMD_SET_ANGLE then NameSetAngle
      else if cmd_type = CMD_SET_SPEED then NameSetSpeed
      else if cmd_type = CMD_SET_ALTITUDE then NameSetAltitude
      else if cmd_type = CMD_POWER_SWITCH then NamePowerSwitch
      else if cmd_type = CMD_PARACHUTE then NameParachute
      else if cmd_type = CMD_BUTTON then NameButton
      else if cmd_type = CMD_SET_ORIGIN_RETURN then NameSetOriginReturn
      else if cmd_type = CMD_SET_GEOFENCE then NameSetGeofence
      else if cmd_type = CMD_SWITCH_MODE then NameSwitchMode
      else if cmd_type = CMD_GUIDANCE then NameGuidance
      else if cmd_type = CMD_GUIDANCE_NEW then NameGuidanceNew
      else if cmd_type = CMD_GIMBAL_ANG_RATE then NameGimbalAngRate
      else if cmd_type = CMD_GIMBAL_ANGLE then NameGimbalAngle
      else if cmd_type = CMD_TARGET_STATE then NameTargetState
      else NameUnknownCommand)"

datatype frame_type_name =
    NameHeartbeat | NameDestination | NameCommand | NameReply | NameGimbal | NameUnknownType

definition GetFrameTypeName :: "byte \<Rightarrow> frame_type_name" where
  "GetFrameTypeName frame_type =
     (if frame_type = FRAME_TYPE_HEARTBEAT then NameHeartbeat
      else if frame_type = FRAME_TYPE_SET_DESTINATION then NameDestination
      else if frame_type = FRAME_TYPE_COMMAND then NameCommand
      else if frame_type = FRAME_TYPE_REPLY then NameReply
      else if frame_type = FRAME_TYPE_GIMBAL_CONTROL then NameGimbal
      else NameUnknownType)"

section \<open>Messages and their layout\<close>

text \<open>All commands the encoders know, the field layout each one has on the wire, and when its
  \<open>cmd_type\<close> member still has its default and its point count fits the count byte.\<close>

datatype fly_message =
    MSetDestination SetDestinationData
  | MSetRoute SetRouteData
  | MSetAngle SetAngleData
  | MSetSpeed SetSpeedData
  | MSetAltitude SetAltitudeData
  | MPowerSwitch PowerSwitchData
  | MParachute ParachuteData
  | MButtonCommand ButtonCommandData
  | MSetOriginReturn SetOriginReturnData
  | MSetGeofence SetGeofenceData
  | MSwitchMode SwitchModeData
  | MGuidance GuidanceData
  | MGuidanceNew GuidanceNewData
  | MGimbalAngRate GimbalAngRateData
  | MGimbalAngle GimbalAngleData
  | MTargetState TargetStateData

fun encode_message :: "byte \<Rightarrow> fly_message \<Rightarrow> byte list" where
  "encode_message cnt (MSetDestination data) = EncodeSetDestination cnt data"
| "encode_message cnt (MSetRoute data) = EncodeSetRoute cnt data"
| "encode_message cnt (MSetAngle data) = EncodeSetAngle cnt data"
| "encode_message cnt (MSetSpeed data) = EncodeSetSpeed cnt data"
| "encode_message cnt (MSetAltitude data) = EncodeSetAltitude cnt data"
| "encode_message cnt (MPowerSwitch data) = EncodePowerSwitch cnt data"
| "encode_message cnt (MParachute data) = EncodeParachute cnt data"
| "encode_message cnt (MButtonCommand data) = EncodeButtonCommand cnt data"
| "encode_message cnt (MSetOriginReturn data) = EncodeSetOriginReturn cnt data"
| "encode_message cnt (MSetGeofence data) = EncodeSetGeofence cnt data"
| "encode_message cnt (MSwitchMode data) = EncodeSwitchMode cnt data"
| "encode_message cnt (MGuidance data) = EncodeGuidance cnt data"
| "encode_message cnt (MGuidanceNew data) = EncodeGuidanceNew cnt data"
| "encode_message cnt (MGimbalAngRate data) = EncodeGimbalAngRate cnt data"
| "encode_message cnt (MGimbalAngle data) = EncodeGimbalAngle cnt data"
| "encode_message cnt (MTargetState data) = EncodeTargetState cnt data"

fun message_type :: "fly_message \<Rightarrow> byte" where
  "message_type (MSetDestination data) = FRAME_TYPE_SET_DESTINATION"
| "message_type (MSetRoute data) = FRAME_TYPE_COMMAND"
| "message_type (MSetAngle data) = FRAME_TYPE_COMMAND"
| "message_type (MSetSpeed data) = FRAME_TYPE_COMMAND"
| "message_type (MSetAltitude data) = FRAME_TYPE_COMMAND"
| "message_type (MPowerSwitch data) = FRAME_TYPE_COMMAND"
| "message_type (MParachute data) = FRAME_TYPE_COMMAND"
| "message_type (MButtonCommand data) = FRAME_TYPE_COMMAND"
| "message_type (MSetOriginReturn data) = FRAME_TYPE_COMMAND"
| "message_type (MSetGeofence data) = FRAME_TYPE_COMMAND"
| "message_type (MSwitchMode data) = FRAME_TYPE_COMMAND"
| "message_type (MGuidance data) = FRAME_TYPE_COMMAND"
| "message_type (MGuidanceNew data) = FRAME_TYPE_COMMAND"
| "message_type (MGimbalAngRate data) = FRAME_TYPE_COMMAND"
| "message_type (MGimbalAngle data) = FRAME_TYPE_COMMAND"
| "message_type (MTargetState data) = FRAME_TYPE_COMMAND"

fun message_command :: "fly_message \<Rightarrow> byte" where
  "message_command (MSetDestination data) = sd_cmd_type data"
| "message_command (MSetRoute data) = sr_cmd_type data"
| "message_command (MSetAngle data) = sa_cmd_type data"
| "message_command (MSetSpeed data) = ss_cmd_type data"
| "message_command (MSetAltitude data) = sal_cmd_type data"
| "message_command (MPowerSwitch data) = ps_cmd_type data"
| "message_command (MParachute data) = pc_cmd_type data"
| "message_command (MButtonCommand data) = bc_cmd_type data"
| "message_command (MSetOriginReturn data) = so_cmd_type data"
| "message_command (MSetGeofence data) = sg_cmd_type data"
| "message_command (MSwitchMode data) = sm_cmd_type data"
| "message_command (MGuidance data) = gd_cmd_type data"
| "message_command (MGuidanceNew data) = gn_cmd_type data"
| "message_command (MGimbalAngRate data) = gr_cmd_type data"
| "message_command (MGimbalAngle data) = ga_cmd_type data"
| "message_command (MTargetState data) = ts_cmd_type data"

fun message_ok :: "fly_message \<Rightarrow> bool" where
  "message_ok (MSetDestination data) \<longleftrightarrow> sd_cmd_type data = CMD_SET_DESTINATION"
| "message_ok (MSetRoute data) \<longleftrightarrow> sr_cmd_type data = CMD_SET_ROUTE \<and> length (sr_points data) \<le> 255"
| "message_ok (MSetAngle data) \<longleftrightarrow> sa_cmd_type data = CMD_SET_ANGLE"
| "message_ok (MSetSpeed data) \<longleftrightarrow> ss_cmd_type data = CMD_SET_SPEED"
| "message_ok (MSetAltitude data) \<longleftrightarrow> sal_cmd_type data = CMD_SET_ALTITUDE"
| "message_ok (MPowerSwitch data) \<longleftrightarrow> ps_cmd_type data = CMD_POWER_SWITCH"
| "message_ok (MParachute data) \<longleftrightarrow> pc_cmd_type data = CMD_PARACHUTE"
| "message_ok (MButtonCommand data) \<longleftrightarrow> bc_cmd_type data = CMD_BUTTON"
| "message_ok (MSetOriginReturn data) \<longleftrightarrow> so_cmd_type data = CMD_SET_ORIGIN_RETURN"
| "message_ok (MSetGeofence data) \<longleftrightarrow> sg_cmd_type data = CMD_SET_GEOFENCE \<and> length (sg_points data) \<le> 255"
| "message_ok (MSwitchMode data) \<longleftrightarrow> sm_cmd_type data = CMD_SWITCH_MODE"
| "message_ok (MGuidance data) \<longleftrightarrow> gd_cmd_type data = CMD_GUIDANCE"
| "message_ok (MGuidanceNew data) \<longleftrightarrow> gn_cmd_type data = CMD_GUIDANCE_NEW"
| "message_ok (MGimbalAngRate data) \<longleftrightarrow> gr_cmd_type data = CMD_GIMBAL_ANG_RATE"
| "message_ok (MGimbalAngle data) \<longleftrightarrow> ga_cmd_type data = CMD_GIMBAL_ANGLE"
| "message_ok (MTargetState data) \<longleftrightarrow> ts_cmd_type data = CMD_TARGET_STATE"

fun message_wires :: "fly_message \<Rightarrow> wire list" where
  "message_wires (MSetDestination data) =
     [W8 (sd_cmd_type data), W32 (sd_longitude data), W32 (sd_latitude data), W16 (sd_altitude data)]"
| "message_wires (MSetRoute data) =
     [W8 (sr_cmd_type data), W8 (of_nat (length (sr_points data)))] @
     concat (map (\<lambda>pt. [W32 (rp_longitude pt), W32 (rp_latitude pt), W16 (rp_altitude pt), W16 (rp_index pt), W16 (rp_speed pt)]) (sr_points data))"
| "message_wires (MSetAngle data) =
     [W8 (sa_cmd_type data), W16 (sa_pitch data), W16 (sa_yaw data)]"
| "message_wires (MSetSpeed data) =
     [W8 (ss_cmd_type data), W16 (ss_speed data)]"
| "message_wires (MSetAltitude data) =
     [W8 (sal_cmd_type data), W8 (sal_altitude_type data), W16 (sal_altitude data)]"
| "message_wires (MPowerSwitch data) =
     [W8 (ps_cmd_type data), W8 (ps_command data)]"
| "message_wires (MParachute data) =
     [W8 (pc_cmd_type data), W8 (pc_parachute_type data)]"
| "message_wires (MButtonCommand data) =
     [W8 (bc_cmd_type data), W8 (bc_button data)]"
| "message_wires (MSetOriginReturn data) =
     [W8 (so_cmd_type data), W8 (so_point_type data), W32 (so_longitude data), W32 (so_latitude data), W16 (so_altitude data)]"
| "message_wires (MSetGeofence data) =
     [W8 (sg_cmd_type data), W8 (of_nat (length (sg_points data)))] @
     concat (map (\<lambda>pt. [W32 (gp_longitude pt), W32 (gp_latitude pt), W16 (gp_altitude pt), W8 (gp_index pt)]) (sg_points data))"
| "message_wires (MSwitchMode data) =
     [W8 (sm_cmd_type data), W8 (sm_mode data)]"
| "message_wires (MGuidance data) =
     [W8 (gd_cmd_type data), W8 (gd_mode_switch data), W32 (gd_frame_id data), W32 (gd_track_id data), W32 (gd_target_lon data), W32 (gd_target_lat data), W16 (gd_target_alt data)]"
| "message_wires (MGuidanceNew data) =
     [W8 (gn_cmd_type data), W16 (gn_pitch_los_rate data), W16 (gn_yaw_los_rate data), W16 (gn_pitch_los_angle data), W16 (gn_yaw_los_angle data), W16 (gn_pitch_frame_angle data), W16 (gn_yaw_frame_angle data), W16 (gn_gimbal_pitch_angle data), W16 (gn_gimbal_yaw_angle data), W16 (gn_acc_x data), W16 (gn_acc_y data), W16 (gn_acc_z data), W16 (gn_gyro_x data), W16 (gn_gyro_y data), W16 (gn_gyro_z data), W16 (gn_target_id data), W16 (gn_target_type data), W32 (gn_target_lon data), W32 (gn_target_lat data), W32 (gn_target_alt data), W32 (gn_laser_range data), W8 (gn_status data)]"
| "message_wires (MGimbalAngRate data) =
     [W8 (gr_cmd_type data), W32 (gr_pitch_los_rate data), W32 (gr_yaw_los_rate data), W32 (gr_target_lon data), W32 (gr_target_lat data), W32 (gr_target_alt data), W32 (gr_laser_range data), W8 (gr_status data)]"
| "message_wires (MGimbalAngle data) =
     [W8 (ga_cmd_type data), W32 (ga_pitch_frame_angle data), W32 (ga_yaw_frame_angle data), W32 (ga_pitch_ang_rate data), W32 (ga_yaw_ang_rate data)]"
| "message_wires (MTargetState data) =
     [W8 (ts_cmd_type data), W32 (ts_pitch_axis_angle data), W32 (ts_yaw_axis_angle data), W8 (ts_target_vertical_ratio data), W8 (ts_target_horizontal_ratio data), W8 (ts_status data)]"

definition heartbeat_wires :: "HeartbeatData \<Rightarrow> wire list" where
  "heartbeat_wires h =
     [W8 (hb_aircraft_id h),
      W8 (hb_run_mode h),
      W8 (hb_satellite_count h),
      W32 (hb_longitude h),
      W32 (hb_latitude h),
      W16 (hb_altitude h),
      W16 (hb_relative_alt h),
      W16 (hb_airspeed h),
      W16 (hb_groundspeed h),
      W16 (hb_velocity_x h),
      W16 (hb_velocity_y h),
      W16 (hb_velocity_z h),
      W16 (hb_accel_x h),
      W16 (hb_accel_y h),
      W16 (hb_accel_z h),
      W16 (hb_roll h),
      W16 (hb_pitch h),
      W16 (hb_yaw h),
      W8 (hb_flight_mode h),
      W16 (hb_current_waypoint h),
      W16 (hb_battery_voltage h),
      W8 (hb_battery_percent h),
      W16 (hb_battery_current h),
      W16 (hb_atm_pressure h),
      W64 (hb_utc_timestamp h),
      W16 (hb_fault_info h),
      W16 (hb_rotation_speed h),
      W16 (hb_throttle h),
      W16 (hb_target_altitude h),
      W16 (hb_target_speed h),
      W16 (hb_origin_distance h),
      W16 (hb_origin_heading h),
      W16 (hb_target_distance h),
      W8 (hb_flight_state h),
      W8 (hb_altitude_state h),
      W8 (hb_state_switch_src h),
      W16 (hb_flight_time h),
      W16 (hb_flight_range h),
      W32 (hb_reserved h)]"

section \<open>Decoding a layout\<close>

fun stmt_kind :: "'r field_stmt \<Rightarrow> wire_kind" where
  "stmt_kind (F8 _) = K8"
| "stmt_kind (F16 _) = K16"
| "stmt_kind (FI16 _) = K16"
| "stmt_kind (F32 _) = K32"
| "stmt_kind (F64 _) = K64"

fun apply_stmt :: "'r field_stmt \<Rightarrow> wire \<Rightarrow> 'r \<Rightarrow> 'r" where
  "apply_stmt (F8 s) (W8 v) out = s v out"
| "apply_stmt (F16 s) (W16 v) out = s v out"
| "apply_stmt (FI16 s) (W16 v) out = s v out"
| "apply_stmt (F32 s) (W32 v) out = s v out"
| "apply_stmt (F64 s) (W64 v) out = s v out"
| "apply_stmt _ _ out = out"

fun apply_stmts :: "'r field_stmt list \<Rightarrow> wire list \<Rightarrow> 'r \<Rightarrow> 'r" where
  "apply_stmts (s # ss) (w # ws) out = apply_stmts ss ws (apply_stmt s w out)"
| "apply_stmts _ _ out = out"

lemma run_stmt_read:
  "run_stmt s payload off out =
     ebind (le.read_wire (stmt_kind s) payload off) (\<lambda>(w, off). Inr (apply_stmt s w out, off))"
  by (cases s) (simp_all add: le_read_int16_def ebind_assoc case_prod_unfold)

lemma run_stmts_read:
  "run_stmts ss payload off out =
     ebind (le.read_wires (map stmt_kind ss) payload off) (\<lambda>(ws, off). Inr (apply_stmts ss ws out, off))"
proof (induction ss arbitrary: off out)
  case (Cons s ss)
  show ?case
    by (simp add: Cons.IH run_stmt_read ebind_assoc case_prod_unfold)
qed simp

text \<open>Decoding a layout that was written sets the fields to the values written.\<close>

lemma run_stmts_wires:
  assumes "map stmt_kind ss = map kind_of ws"
  shows "run_stmts ss (le.write_wires [] ws @ rest) 0 out = Inr (apply_stmts ss ws out, kinds_size (map kind_of ws))"
  using le.read_write_wires [of ws "[]" rest] by (simp add: run_stmts_read assms)

lemma run_stmts_total:
  assumes "kinds_size (map stmt_kind ss) \<le> length payload"
  obtains ws where "run_stmts ss payload 0 out = Inr (apply_stmts ss ws out, kinds_size (map stmt_kind ss))"
    and "map kind_of ws = map stmt_kind ss"
    and "le.write_wires [] ws = take (kinds_size (map stmt_kind ss)) payload"
  using le.write_read_wires [of 0 "map stmt_kind ss" payload] assms that
  by (auto simp: run_stmts_read)

lemma run_stmts_ok:
  "kinds_size (map stmt_kind ss) \<le> length payload \<Longrightarrow>
     \<exists>r. run_stmts ss payload 0 out = Inr (r, kinds_size (map stmt_kind ss))"
  using run_stmts_total [of ss payload] by metis

lemma heartbeat_kinds: "map stmt_kind heartbeat_stmts = map kind_of (heartbeat_wires h)"
  by (simp add: heartbeat_stmts_def heartbeat_wires_def)

lemma heartbeat_size: "kinds_size (map kind_of (heartbeat_wires h)) = 82"
  by (simp add: heartbeat_wires_def)

lemma heartbeat_apply: "apply_stmts heartbeat_stmts (heartbeat_wires h) out = h\<lparr>hb_cnt := hb_cnt out\<rparr>"
  by (simp add: heartbeat_stmts_def heartbeat_wires_def)

lemma kind_of_W:
  "kind_of w = K8 \<longleftrightarrow> (\<exists>v. w = W8 v)" "kind_of w = K16 \<longleftrightarrow> (\<exists>v. w = W16 v)"
  "kind_of w = K32 \<longleftrightarrow> (\<exists>v. w = W32 v)" "kind_of w = K64 \<longleftrightarrow> (\<exists>v. w = W64 v)"
  by (cases w; simp)+

lemma map_kind_Cons:
  "map kind_of ws = k # ks \<longleftrightarrow> (\<exists>w ws'. ws = w # ws' \<and> kind_of w = k \<and> map kind_of ws' = ks)"
  by (cases ws) auto

lemma heartbeat_wires_apply:
  assumes "map kind_of ws = map stmt_kind heartbeat_stmts"
  shows "heartbeat_wires (apply_stmts heartbeat_stmts ws out) = ws"
  using assms
  by (auto simp: heartbeat_stmts_def heartbeat_wires_def map_kind_Cons kind_of_W)

section \<open>Encoding as a layout\<close>

lemma write_route_points:
  "foldl write_RoutePoint buf rps = le.write_wires buf (concat (map (\<lambda>pt.
     [W32 (rp_longitude pt), W32 (rp_latitude pt), W16 (rp_altitude pt), W16 (rp_index pt),
      W16 (rp_speed pt)]) rps))"
  by (induction rps arbitrary: buf) (simp_all add: le.write_wires_Cons write_RoutePoint_def)

lemma write_geofence_points:
  "foldl write_GeofencePoint buf gps = le.write_wires buf (concat (map (\<lambda>pt.
     [W32 (gp_longitude pt), W32 (gp_latitude pt), W16 (gp_altitude pt), W8 (gp_index pt)]) gps))"
  by (induction gps arbitrary: buf) (simp_all add: le.write_wires_Cons write_GeofencePoint_def)

lemmas write_points = write_route_points write_geofence_points

lemma encode_message_layout:
  "encode_message cnt m = BuildFrame cnt (message_type m) (le.write_wires [] (message_wires m))"
proof (cases m)
  case (MSetRoute data)
  then show ?thesis
    by (simp add: EncodeSetRoute_def write_points le.write_wires_Cons Let_def del: fly_consts)
next
  case (MSetGeofence data)
  then show ?thesis
    by (simp add: EncodeSetGeofence_def write_points le.write_wires_Cons Let_def del: fly_consts)
qed (simp_all add: le.write_wires_Cons Let_def le_write_int16_def EncodeSetDestination_def
    EncodeSetAngle_def EncodeSetSpeed_def EncodeSetAltitude_def EncodePowerSwitch_def
    EncodeParachute_def EncodeButtonCommand_def EncodeSetOriginReturn_def EncodeSwitchMode_def
    EncodeGuidance_def EncodeGuidanceNew_def EncodeGimbalAngRate_def EncodeGimbalAngle_def
    EncodeTargetState_def del: fly_consts)

lemma payload_Cons: "le.write_wires [] (W8 c # ws) = c # le.write_wires [] ws"
  using le.write_wires_append [of "[c]" ws] by (simp add: le.write_wires_Cons le_write_uint8_def)

lemma kinds_size_append [simp]: "kinds_size (xs @ ys) = kinds_size xs + kinds_size ys"
  by (simp add: kinds_size_def)

lemma route_points_size:
  "kinds_size (map kind_of (concat (map (\<lambda>pt.
     [W32 (a pt), W32 (b pt), W16 (c pt), W16 (d pt), W16 (e pt)]) ps))) = 14 * length ps"
  by (induction ps) simp_all

lemma geofence_points_size:
  "kinds_size (map kind_of (concat (map (\<lambda>pt.
     [W32 (a pt), W32 (b pt), W16 (c pt), W8 (g pt)]) qs))) = 11 * length qs"
  by (induction qs) simp_all

lemmas points_size = route_points_size geofence_points_size

lemma unat_count: "n \<le> 255 \<Longrightarrow> unat (of_nat n :: byte) = n"
  by (simp add: unat_of_nat take_bit_nat_eq_self)

lemma message_well_sized:
  assumes "message_ok m"
  shows "well_sized (message_type m) (le.write_wires [] (message_wires m))"
  using assms
proof (cases m)
  case (MSetRoute data)
  with assms show ?thesis
    by (simp add: well_sized_def GetExpectedFrameLen_def payload_Cons le.length_write_wires
        points_size unat_count Let_def)
next
  case (MSetGeofence data)
  with assms show ?thesis
    by (simp add: well_sized_def GetExpectedFrameLen_def payload_Cons le.length_write_wires
        points_size unat_count Let_def)
qed (simp_all add: well_sized_def GetExpectedFrameLen_def payload_Cons le.length_write_wires
    CMD_OVERHEAD_def Let_def)

lemma PopFrame_encode_message:
  assumes "message_ok m"
  shows "PopFrame (encode_message cnt m @ rest) =
    (Some (built_frame cnt (message_type m) (le.write_wires [] (message_wires m))), rest)"
  by (simp add: encode_message_layout PopFrame_BuildFrame message_well_sized assms)

section \<open>Distinct messages have distinct frames\<close>

lemma route_points_kinds:
  "map kind_of (concat (map (\<lambda>pt.
     [W32 (a pt), W32 (b pt), W16 (c pt), W16 (d pt), W16 (e pt)]) ps))
   = concat (replicate (length ps) [K32, K32, K16, K16, K16])"
  by (induction ps) simp_all

lemma kinds_size_replicate: "kinds_size (concat (replicate n ks)) = n * kinds_size ks"
  by (induction n) simp_all

lemma geofence_points_kinds:
  "map kind_of (concat (map (\<lambda>pt. [W32 (a pt), W32 (b pt), W16 (c pt), W8 (g pt)]) qs))
   = concat (replicate (length qs) [K32, K32, K16, K8])"
  by (induction qs) simp_all

lemma route_points_inj:
  "concat (map (\<lambda>pt. [W32 (rp_longitude pt), W32 (rp_latitude pt), W16 (rp_altitude pt),
     W16 (rp_index pt), W16 (rp_speed pt)]) ps) =
   concat (map (\<lambda>pt. [W32 (rp_longitude pt), W32 (rp_latitude pt), W16 (rp_altitude pt),
     W16 (rp_index pt), W16 (rp_speed pt)]) qs) \<Longrightarrow> ps = (qs :: RoutePoint list)"
proof (induction ps arbitrary: qs)
  case (Cons p ps)
  then show ?case by (cases qs) (auto intro: RoutePoint.equality)
next
  case Nil
  then show ?case by (cases qs) auto
qed

lemma geofence_points_inj:
  "concat (map (\<lambda>pt. [W32 (gp_longitude pt), W32 (gp_latitude pt), W16 (gp_altitude pt),
     W8 (gp_index pt)]) ps) =
   concat (map (\<lambda>pt. [W32 (gp_longitude pt), W32 (gp_latitude pt), W16 (gp_altitude pt),
     W8 (gp_index pt)]) qs) \<Longrightarrow> ps = (qs :: GeofencePoint list)"
proof (induction ps arbitrary: qs)
  case (Cons p ps)
  then show ?case by (cases qs) (auto intro: GeofencePoint.equality)
next
  case Nil
  then show ?case by (cases qs) auto
qed

fun message_index :: "fly_message \<Rightarrow> byte \<times> byte" where
  "message_index (MSetDestination _) = (FRAME_TYPE_SET_DESTINATION, CMD_SET_DESTINATION)"
| "message_index (MSetRoute _) = (FRAME_TYPE_COMMAND, CMD_SET_ROUTE)"
| "message_index (MSetAngle _) = (FRAME_TYPE_COMMAND, CMD_SET_ANGLE)"
| "message_index (MSetSpeed _) = (FRAME_TYPE_COMMAND, CMD_SET_SPEED)"
| "message_index (MSetAltitude _) = (FRAME_TYPE_COMMAND, CMD_SET_ALTITUDE)"
| "message_index (MPowerSwitch _) = (FRAME_TYPE_COMMAND, CMD_POWER_SWITCH)"
| "message_index (MParachute _) = (FRAME_TYPE_COMMAND, CMD_PARACHUTE)"
| "message_index (MButtonCommand _) = (FRAME_TYPE_COMMAND, CMD_BUTTON)"
| "message_index (MSetOriginReturn _) = (FRAME_TYPE_COMMAND, CMD_SET_ORIGIN_RETURN)"
| "message_index (MSetGeofence _) = (FRAME_TYPE_COMMAND, CMD_SET_GEOFENCE)"
| "message_index (MSwitchMode _) = (FRAME_TYPE_COMMAND, CMD_SWITCH_MODE)"
| "message_index (MGuidance _) = (FRAME_TYPE_COMMAND, CMD_GUIDANCE)"
| "message_index (MGuidanceNew _) = (FRAME_TYPE_COMMAND, CMD_GUIDANCE_NEW)"
| "message_index (MGimbalAngRate _) = (FRAME_TYPE_COMMAND, CMD_GIMBAL_ANG_RATE)"
| "message_index (MGimbalAngle _) = (FRAME_TYPE_COMMAND, CMD_GIMBAL_ANGLE)"
| "message_index (MTargetState _) = (FRAME_TYPE_COMMAND, CMD_TARGET_STATE)"

lemma message_index_ok:
  "message_ok m \<Longrightarrow> message_index m = (message_type m, hd (le.write_wires [] (message_wires m)))"
  by (cases m) (simp_all add: payload_Cons del: fly_consts)

lemma message_wires_inj:
  assumes "message_index m = message_index m'" "message_wires m = message_wires m'"
  shows "m = m'"
  using assms
  by (cases m; cases m';
      simp add: SetDestinationData.equality SetAngleData.equality SetSpeedData.equality
        SetAltitudeData.equality PowerSwitchData.equality ParachuteData.equality
        ButtonCommandData.equality SetOriginReturnData.equality SwitchModeData.equality
        GuidanceData.equality GuidanceNewData.equality GimbalAngRateData.equality
        GimbalAngleData.equality TargetStateData.equality;
      auto dest!: route_points_inj geofence_points_inj
        intro: SetRouteData.equality SetGeofenceData.equality)

lemma message_kinds_eq:
  assumes "message_index m = message_index m'"
    and "le.write_wires [] (message_wires m) = le.write_wires [] (message_wires m')"
  shows "map kind_of (message_wires m) = map kind_of (message_wires m')"
  using assms(1) arg_cong [OF assms(2), of length]
  by (cases m; cases m';
      simp add: le.length_write_wires kinds_size_replicate route_points_kinds geofence_points_kinds)

lemma encode_message_inj:
  assumes "message_ok m" "message_ok m'" "encode_message cnt m @ rest = encode_message cnt' m' @ rest'"
  shows "cnt = cnt' \<and> m = m' \<and> rest = rest'"
proof -
  have "built_frame cnt (message_type m) (le.write_wires [] (message_wires m)) =
      built_frame cnt' (message_type m') (le.write_wires [] (message_wires m')) \<and> rest = rest'"
    using PopFrame_encode_message [OF assms(1), of cnt rest]
      PopFrame_encode_message [OF assms(2), of cnt' rest'] assms(3) by simp
  then have e: "cnt = cnt'" "message_type m = message_type m'" "rest = rest'"
    "le.write_wires [] (message_wires m) = le.write_wires [] (message_wires m')"
    by (simp_all add: built_frame_def)
  have i: "message_index m = message_index m'"
    using message_index_ok [OF assms(1)] message_index_ok [OF assms(2)] e by simp
  have "message_wires m = message_wires m'"
    using le.write_wires_inj message_kinds_eq [OF i e(4)] e(4) by blast
  with i e show ?thesis using message_wires_inj by blast
qed

section \<open>Fault bits one by one\<close>

lemma less_16_set: "n < 16 \<Longrightarrow> n \<in> {0::nat,1,2,3,4,5,6,7,8,9,10,11,12,13,14,15}"
  by (simp add: numeral_eq_Suc less_Suc_eq)

lemma bit_test: "((drop_bit n v AND 1 :: u16) \<noteq> 0) = bit v n"
  by (simp add: bit_iff_odd_drop_bit and_one_eq odd_iff_mod_2_eq_one)

lemma bit_test_0: "((v AND 1 :: u16) \<noteq> 0) = bit v 0"
  using bit_test [of 0 v] by simp

lemma bit_set_bit_if: "k < 16 \<Longrightarrow> bit (set_bit_if c k v) n \<longleftrightarrow> bit v n \<or> n = k \<and> c"
  by (auto simp: set_bit_if_def bit_simps)

lemma bit_ToU16:
  "bit (ToU16 fb) n \<longleftrightarrow>
     n = 0 \<and> fb_link_lost fb \<or>
     n = 1 \<and> fb_distance_exceed fb \<or>
     n = 2 \<and> fb_attitude_exceed fb \<or>
     n = 4 \<and> fb_altitude_too_low fb \<or>
     n = 5 \<and> fb_altitude_too_high fb \<or>
     n = 6 \<and> fb_voltage_too_low fb \<or>
     n = 7 \<and> fb_mission_fault fb \<or>
     n = 8 \<and> fb_gps_lost fb \<or>
     n = 9 \<and> fb_takeoff_failed fb \<or>
     n = 10 \<and> fb_attitude_error fb \<or>
     n = 13 \<and> fb_return_timeout fb \<or>
     n = 14 \<and> fb_return_dist_error fb \<or>
     n = 15 \<and> fb_parachute_failed fb"
  by (simp add: ToU16_def Let_def bit_set_bit_if disj_assoc)

section \<open>Properties\<close>

text \<open>\<open>ToU16\<close> and \<open>FromU16\<close> are inverse: every set of faults survives the 16-bit encoding, and a
  16-bit fault word loses exactly its reserved bits 3, 11 and 12.\<close>

theorem fault_bits_roundtrip:
  "FromU16 (ToU16 fb) = fb \<and> ToU16 (FromU16 val) = val AND 0xE7F7"
proof
  show "FromU16 (ToU16 fb) = fb"
    by (rule FaultBits.equality)
      (simp_all add: FromU16_def FaultBits_init_def bit_test_0 bit_drop_bit_eq bit_ToU16)
  show "ToU16 (FromU16 val) = val AND 0xE7F7"
  proof (rule bit_word_eqI)
    fix n assume "n < LENGTH(16)"
    then have "n \<in> {0,1,2,3,4,5,6,7,8,9,10,11,12,13,14,15}"
      by (intro less_16_set) simp
    then show "bit (ToU16 (FromU16 val)) n = bit (val AND 0xE7F7) n"
      by (elim insertE emptyE;
          simp add: FromU16_def FaultBits_init_def bit_test_0 bit_drop_bit_eq bit_ToU16 bit_and_iff)
  qed
qed

text \<open>C19: the heartbeat decoder and the 82-byte field layout of the protocol are inverse: a written
  layout decodes to the values written (the frame counter, which the payload does not carry, keeps
  the caller's value), and every payload of at least 82 bytes decodes without a throw to a record
  whose layout is the first 82 bytes, so no bit of the payload is lost or invented.\<close>

theorem heartbeat_decode_bijective:
  "DecodeHeartbeat (le.write_wires [] (heartbeat_wires h) @ rest) out
     = Inr (True, h\<lparr>hb_cnt := hb_cnt out\<rparr>) \<and>
   (82 \<le> length payload \<longrightarrow> (\<exists>h'. DecodeHeartbeat payload out = Inr (True, h') \<and>
      hb_cnt h' = hb_cnt out \<and> le.write_wires [] (heartbeat_wires h') = take 82 payload))"
proof (rule conjI)
  have "length (le.write_wires [] (heartbeat_wires h)) = 82"
    by (simp add: le.length_write_wires heartbeat_size)
  then show "DecodeHeartbeat (le.write_wires [] (heartbeat_wires h) @ rest) out
     = Inr (True, h\<lparr>hb_cnt := hb_cnt out\<rparr>)"
    by (simp add: DecodeHeartbeat_def run_stmts_wires [OF heartbeat_kinds] heartbeat_apply)
  show "82 \<le> length payload \<longrightarrow> (\<exists>h'. DecodeHeartbeat payload out = Inr (True, h') \<and>
      hb_cnt h' = hb_cnt out \<and> le.write_wires [] (heartbeat_wires h') = take 82 payload)"
  proof
    assume l: "82 \<le> length payload"
    have sz: "kinds_size (map stmt_kind heartbeat_stmts) = 82"
      using heartbeat_kinds [of h] heartbeat_size [of h] by simp
    obtain ws where ws: "run_stmts heartbeat_stmts payload 0 out = Inr (apply_stmts heartbeat_stmts ws out, 82)"
        "map kind_of ws = map stmt_kind heartbeat_stmts" "le.write_wires [] ws = take 82 payload"
      using run_stmts_total [of heartbeat_stmts payload out] l unfolding sz by blast
    let ?h = "apply_stmts heartbeat_stmts ws out"
    have w: "heartbeat_wires ?h = ws" by (rule heartbeat_wires_apply [OF ws(2)])
    have "hb_cnt ?h = hb_cnt out" using heartbeat_apply [of ?h out] by (simp add: w) (metis HeartbeatData.select_convs(1) HeartbeatData.surjective HeartbeatData.update_convs(1))
    with ws l w show "\<exists>h'. DecodeHeartbeat payload out = Inr (True, h') \<and>
      hb_cnt h' = hb_cnt out \<and> le.write_wires [] (heartbeat_wires h') = take 82 payload"
      by (auto simp: DecodeHeartbeat_def)
  qed
qed

theorem heartbeat_decode_bijective_witness:
  "\<exists>h'. DecodeHeartbeat (replicate 82 7) HeartbeatData_init = Inr (True, h') \<and> hb_cnt h' = 0 \<and>
     le.write_wires [] (heartbeat_wires h') = replicate 82 7"
  using heartbeat_decode_bijective [of HeartbeatData_init "[]" HeartbeatData_init "replicate 82 7"]
  by (simp add: HeartbeatData_init_def)

text \<open>the three decoders never throw and never read out of bounds: they answer \<open>false\<close> and leave
  the output alone exactly when the payload is shorter than 82, 5 or 2 bytes, and \<open>true\<close> otherwise.\<close>

theorem decoders_total:
  "(\<exists>h. DecodeHeartbeat payload hb = Inr (82 \<le> length payload, h) \<and> (length payload < 82 \<longrightarrow> h = hb)) \<and>
   (\<exists>g. DecodeGimbalControl payload gc = Inr (5 \<le> length payload, g) \<and> (length payload < 5 \<longrightarrow> g = gc)) \<and>
   (\<exists>c. DecodeCommandReply payload cr = Inr (2 \<le> length payload, c) \<and> (length payload < 2 \<longrightarrow> c = cr))"
proof (intro conjI)
  have sz: "kinds_size (map stmt_kind heartbeat_stmts) = 82" "kinds_size (map stmt_kind gimbal_stmts) = 5"
    "kinds_size (map stmt_kind reply_stmts) = 2"
    by (simp_all add: heartbeat_stmts_def gimbal_stmts_def reply_stmts_def)
  show "\<exists>h. DecodeHeartbeat payload hb = Inr (82 \<le> length payload, h) \<and> (length payload < 82 \<longrightarrow> h = hb)"
    using run_stmts_ok [of heartbeat_stmts payload hb] unfolding sz
    by (cases "82 \<le> length payload") (auto simp: DecodeHeartbeat_def)+
  show "\<exists>g. DecodeGimbalControl payload gc = Inr (5 \<le> length payload, g) \<and> (length payload < 5 \<longrightarrow> g = gc)"
    using run_stmts_ok [of gimbal_stmts payload gc] unfolding sz
    by (cases "5 \<le> length payload") (auto simp: DecodeGimbalControl_def)+
  show "\<exists>c. DecodeCommandReply payload cr = Inr (2 \<le> length payload, c) \<and> (length payload < 2 \<longrightarrow> c = cr)"
    using run_stmts_ok [of reply_stmts payload cr] unfolding sz
    by (cases "2 \<le> length payload") (auto simp: DecodeCommandReply_def)+
qed

theorem decoders_total_witness:
  "(\<exists>h. DecodeHeartbeat [1] HeartbeatData_init = Inr (False, h) \<and> h = HeartbeatData_init) \<and>
   (\<exists>c. DecodeCommandReply [4, 0] CommandReplyData_init = Inr (True, c))"
  using decoders_total [of "[1]" HeartbeatData_init GimbalControlData_init CommandReplyData_init]
    decoders_total [of "[4, 0]" HeartbeatData_init GimbalControlData_init CommandReplyData_init] by auto

text \<open>every command the encoders build is a frame the stream parser accepts whole: it comes back
  valid, with the counter, the frame type and the command byte, and the bytes behind it stay.\<close>

theorem encoded_commands_accepted:
  assumes "message_ok m"
  shows "\<exists>f. PopFrame (encode_message cnt m @ rest) = (Some f, rest) \<and> pf_valid f \<and>
    pf_cnt f = cnt \<and> pf_frame_type f = message_type m \<and> hd (pf_payload f) = message_command m \<and>
    pf_payload f = le.write_wires [] (message_wires m)"
proof -
  have "hd (le.write_wires [] (message_wires m)) = message_command m"
    by (cases m) (simp_all add: payload_Cons)
  then show ?thesis
    by (simp add: PopFrame_encode_message [OF assms] built_frame_def)
qed

theorem encoded_commands_accepted_witness:
  "\<exists>f. PopFrame (EncodeSetSpeed 9 (SetSpeedData_init\<lparr>ss_speed := 0x1234\<rparr>) @ [1]) = (Some f, [1]) \<and>
    pf_valid f \<and> pf_payload f = [0x04, 0x34, 0x12]"
  using encoded_commands_accepted [of "MSetSpeed (SetSpeedData_init\<lparr>ss_speed := 0x1234\<rparr>)" 9 "[1]"]
  by (auto simp: SetSpeedData_init_def le.write_wires_def le_write_uint8_def le_write_uint16_def byte_at_def)

text \<open>C30: Two commands, each with its own command byte and a route or fence of at most 255 points, whose encodings
  agree, in any two streams, are the same command with the same field values and the same counter: the encoders
  lose no field of any of the sixteen messages.\<close>

theorem encoders_injective:
  assumes "message_ok m" and "message_ok m'"
    and "encode_message cnt m @ rest = encode_message cnt' m' @ rest'"
  shows "cnt = cnt' \<and> m = m' \<and> rest = rest'"
  using encode_message_inj [OF assms] .

theorem encoders_injective_witness:
  "EncodeSetSpeed 1 (SetSpeedData_init\<lparr>ss_speed := 5\<rparr>) \<noteq> EncodeSetSpeed 1 (SetSpeedData_init\<lparr>ss_speed := 261\<rparr>)"
proof
  assume "EncodeSetSpeed 1 (SetSpeedData_init\<lparr>ss_speed := 5\<rparr>) = EncodeSetSpeed 1 (SetSpeedData_init\<lparr>ss_speed := 261\<rparr>)"
  then have "MSetSpeed (SetSpeedData_init\<lparr>ss_speed := 5\<rparr>) = MSetSpeed (SetSpeedData_init\<lparr>ss_speed := 261\<rparr>)"
    using encoders_injective [of "MSetSpeed (SetSpeedData_init\<lparr>ss_speed := 5\<rparr>)"
        "MSetSpeed (SetSpeedData_init\<lparr>ss_speed := 261\<rparr>)" 1 "[]" 1 "[]"]
    by (simp add: SetSpeedData_init_def)
  then show False by (simp add: SetSpeedData_init_def)
qed

end
