(* ===== verification/Queues.thy ===== *)
theory Queues
  imports Prelude
begin

text \<open>
  The three blocking queues and the buffer of the repository, each operation as what one thread
  does while it holds the mutex: \<open>ThreadSafeQueue\<close> (\<open>src/tools/thread_safe_queue\<close>), \<open>BlockingQueue\<close>
  (\<open>src/util/my_fast_MQTT\<close>), \<open>TaskQueue\<close> (\<open>src/util/my_control\<close>) and \<open>ThreadSafeBuffer\<close>
  (\<open>src/tools/thread_safe_buffer\<close>). A call that would go to sleep on its condition variable answers
  \<open>Waits\<close>; the threads that sleep and are woken are in the theory \<open>QueueThreads\<close>. Log output and
  the flag \<open>usedLog_\<close> are left out; the element type is a type variable.
\<close>

datatype 'r call = Waits | Returns 'r

section \<open>ThreadSafeQueue\<close>

record 'a tsq =
  tsq_queue :: "'a list"
  tsq_max_size :: nat
  tsq_shut :: bool

definition tsq_ctor :: "'a tsq" where
  "tsq_ctor = \<lparr>tsq_queue = [], tsq_max_size = 1000, tsq_shut = False\<rparr>"

definition tsq_init :: "nat \<Rightarrow> 'a tsq \<Rightarrow> 'a tsq" where
  "tsq_init max_size q = q\<lparr>tsq_max_size := max_size\<rparr>"

definition tsq_setMaxSize :: "nat \<Rightarrow> 'a tsq \<Rightarrow> 'a tsq" where
  "tsq_setMaxSize max_size q = q\<lparr>tsq_max_size := max_size\<rparr>"

text \<open>\<open>push\<close>, from the head of its wait loop. The return value \<open>true\<close> is also when
  \<open>cond_not_empty_.notify_one()\<close> is called.\<close>

definition tsq_push :: "'a \<Rightarrow> bool \<Rightarrow> 'a tsq \<Rightarrow> bool call \<times> 'a tsq" where
  "tsq_push item block q =
     (if \<not> block \<and> length (tsq_queue q) \<ge> tsq_max_size q then (Returns False, q)
      else if block \<and> length (tsq_queue q) \<ge> tsq_max_size q \<and> \<not> tsq_shut q then (Waits, q)
      else if tsq_shut q then (Returns False, q)
      else (Returns True, q\<lparr>tsq_queue := tsq_queue q @ [item]\<rparr>))"

text \<open>\<open>pop\<close>, from the head of its wait loop; \<open>None\<close> is the return value \<open>false\<close>. With a time-out the
  same test runs before each \<open>wait_until\<close>; the time-out itself is a step of the waiting thread.\<close>

definition tsq_pop :: "bool \<Rightarrow> 'a tsq \<Rightarrow> 'a option call \<times> 'a tsq" where
  "tsq_pop block q =
     (if \<not> block \<and> tsq_queue q = [] then (Returns None, q)
      else if block \<and> tsq_queue q = [] \<and> \<not> tsq_shut q then (Waits, q)
      else case tsq_queue q of
        [] \<Rightarrow> (Returns None, q)
      | x # xs \<Rightarrow> (Returns (Some x), q\<lparr>tsq_queue := xs\<rparr>))"

definition tsq_clear :: "'a tsq \<Rightarrow> 'a tsq" where
  "tsq_clear q = q\<lparr>tsq_queue := []\<rparr>"

definition tsq_size :: "'a tsq \<Rightarrow> nat" where
  "tsq_size q = length (tsq_queue q)"

definition tsq_empty :: "'a tsq \<Rightarrow> bool" where
  "tsq_empty q \<longleftrightarrow> tsq_queue q = []"

definition tsq_shutdown :: "'a tsq \<Rightarrow> 'a tsq" where
  "tsq_shutdown q = q\<lparr>tsq_shut := True\<rparr>"

lemmas tsq_defs = tsq_push_def tsq_pop_def tsq_clear_def tsq_shutdown_def tsq_setMaxSize_def

section \<open>BlockingQueue\<close>

record 'a bq =
  bq_queue :: "'a list"
  bq_max_size :: nat
  bq_shut :: bool

definition bq_ctor :: "nat \<Rightarrow> 'a bq" where
  "bq_ctor max_size = \<lparr>bq_queue = [], bq_max_size = max_size, bq_shut = False\<rparr>"

definition bq_Push :: "'a \<Rightarrow> 'a bq \<Rightarrow> bool \<times> 'a bq" where
  "bq_Push val q =
     (if bq_shut q then (False, q)
      else if bq_max_size q \<noteq> 0 \<and> length (bq_queue q) \<ge> bq_max_size q then (False, q)
      else (True, q\<lparr>bq_queue := bq_queue q @ [val]\<rparr>))"

definition bq_Pop :: "'a bq \<Rightarrow> 'a option call \<times> 'a bq" where
  "bq_Pop q =
     (if \<not> (bq_queue q \<noteq> [] \<or> bq_shut q) then (Waits, q)
      else case bq_queue q of
        [] \<Rightarrow> (Returns None, q)
      | x # xs \<Rightarrow> (Returns (Some x), q\<lparr>bq_queue := xs\<rparr>))"

text \<open>\<open>Pop(out, timeout_ms)\<close> when \<open>wait_for\<close> ends: \<open>ready\<close> is the predicate evaluated once more.\<close>

definition bq_Pop_timed :: "'a bq \<Rightarrow> 'a option \<times> 'a bq" where
  "bq_Pop_timed q =
     (let ready = (bq_queue q \<noteq> [] \<or> bq_shut q) in
      case bq_queue q of
        [] \<Rightarrow> (None, q)
      | x # xs \<Rightarrow> if \<not> ready then (None, q) else (Some x, q\<lparr>bq_queue := xs\<rparr>))"

definition bq_Shutdown :: "'a bq \<Rightarrow> 'a bq" where
  "bq_Shutdown q = q\<lparr>bq_shut := True\<rparr>"

definition bq_Clear :: "'a bq \<Rightarrow> 'a bq" where
  "bq_Clear q = q\<lparr>bq_queue := []\<rparr>"

definition bq_Size :: "'a bq \<Rightarrow> nat" where
  "bq_Size q = length (bq_queue q)"

definition bq_Empty :: "'a bq \<Rightarrow> bool" where
  "bq_Empty q \<longleftrightarrow> bq_queue q = []"

definition bq_IsShutdown :: "'a bq \<Rightarrow> bool" where
  "bq_IsShutdown q = bq_shut q"

section \<open>TaskQueue\<close>

record 'a task_queue =
  tq_name :: string
  tq_q :: "'a list"
  tq_shut :: bool

definition tq_ctor :: "string \<Rightarrow> 'a task_queue" where
  "tq_ctor name = \<lparr>tq_name = name, tq_q = [], tq_shut = False\<rparr>"

text \<open>\<open>Push\<close> returns nothing; the flag says whether the task went in.\<close>

definition tq_Push :: "'a \<Rightarrow> 'a task_queue \<Rightarrow> bool \<times> 'a task_queue" where
  "tq_Push task q =
     (if tq_shut q then (False, q) else (True, q\<lparr>tq_q := tq_q q @ [task]\<rparr>))"

definition tq_PopBlocking :: "'a task_queue \<Rightarrow> 'a option call \<times> 'a task_queue" where
  "tq_PopBlocking q =
     (if \<not> (tq_shut q \<or> tq_q q \<noteq> []) then (Waits, q)
      else case tq_q q of
        [] \<Rightarrow> (Returns None, q)
      | x # xs \<Rightarrow> (Returns (Some x), q\<lparr>tq_q := xs\<rparr>))"

definition tq_Size :: "'a task_queue \<Rightarrow> nat" where
  "tq_Size q = length (tq_q q)"

definition tq_Clear :: "'a task_queue \<Rightarrow> 'a task_queue" where
  "tq_Clear q = q\<lparr>tq_q := []\<rparr>"

definition tq_Shutdown :: "'a task_queue \<Rightarrow> 'a task_queue" where
  "tq_Shutdown q = (if tq_shut q then q else q\<lparr>tq_shut := True\<rparr>)"

definition tq_IsShutdown :: "'a task_queue \<Rightarrow> bool" where
  "tq_IsShutdown q = tq_shut q"

section \<open>ThreadSafeBuffer\<close>

definition tsb_push :: "'a \<Rightarrow> 'a list \<Rightarrow> bool \<times> 'a list" where
  "tsb_push data buffer = (True, buffer @ [data])"

definition tsb_pop :: "'a list \<Rightarrow> 'a option \<times> 'a list" where
  "tsb_pop buffer = (case buffer of [] \<Rightarrow> (None, []) | x # xs \<Rightarrow> (Some x, xs))"

definition tsb_size :: "'a list \<Rightarrow> nat" where
  "tsb_size buffer = length buffer"

section \<open>The queue contract\<close>

datatype 'a qop = QPush 'a | QPop

locale fifo_queue =
  fixes contents :: "'q \<Rightarrow> 'a list"
    and push :: "'a \<Rightarrow> 'q \<Rightarrow> bool \<times> 'q"
    and pop :: "'q \<Rightarrow> 'a option \<times> 'q"
  assumes push_accepted: "push x q = (True, q') \<Longrightarrow> contents q' = contents q @ [x]"
    and push_refused: "push x q = (False, q') \<Longrightarrow> q' = q"
    and pop_found: "pop q = (Some x, q') \<Longrightarrow> contents q = x # contents q'"
    and pop_nothing: "pop q = (None, q') \<Longrightarrow> q' = q \<and> contents q = []"
begin

text \<open>A sequence of calls: the items accepted, the items delivered, and the queue left.\<close>

fun run :: "'a qop list \<Rightarrow> 'q \<Rightarrow> 'a list \<times> 'a list \<times> 'q" where
  "run [] q = ([], [], q)"
| "run (QPush x # ops) q =
     (case push x q of (b, q1) \<Rightarrow> case run ops q1 of (acc, out, q2) \<Rightarrow>
        (if b then x # acc else acc, out, q2))"
| "run (QPop # ops) q =
     (case pop q of (r, q1) \<Rightarrow> case run ops q1 of (acc, out, q2) \<Rightarrow>
        (acc, (case r of Some x \<Rightarrow> x # out | None \<Rightarrow> out), q2))"

text \<open>What was in the queue and what was accepted is what came out, in this order, and what is in
  the queue now: nothing is lost, duplicated or reordered.\<close>

lemma run_fifo: "run ops q = (acc, out, q') \<Longrightarrow> contents q @ acc = out @ contents q'"
proof (induction ops q arbitrary: acc out rule: run.induct)
  case (2 x ops q)
  obtain b q1 where p: "push x q = (b, q1)" by (cases "push x q")
  obtain a o' where r: "run ops q1 = (a, o', q')" using 2(2) p by (auto split: prod.splits)
  from 2(1) [OF p [symmetric] r] have "contents q1 @ a = o' @ contents q'" .
  with 2(2) p r show ?case
    using push_accepted [of x q q1] push_refused [of x q q1] by (cases b) auto
next
  case (3 ops q)
  obtain r q1 where p: "pop q = (r, q1)" by (cases "pop q")
  obtain a o' where r: "run ops q1 = (a, o', q')" using 3(2) p by (auto split: prod.splits)
  from 3(1) [OF p [symmetric] r] have "contents q1 @ a = o' @ contents q'" .
  with 3(2) p r show ?case
    using pop_found [of q _ q1] pop_nothing [of q q1] by (cases r) auto
qed simp

end

text \<open>A queue that refuses to grow beyond its bound.\<close>

locale bounded_fifo = fifo_queue contents push pop
  for contents :: "'q \<Rightarrow> 'a list" and push :: "'a \<Rightarrow> 'q \<Rightarrow> bool \<times> 'q" and pop :: "'q \<Rightarrow> 'a option \<times> 'q" +
  fixes bound :: "'q \<Rightarrow> nat option"
  assumes push_bound: "push x q = (True, q') \<Longrightarrow> bound q = Some n \<Longrightarrow> length (contents q) < n"
    and bound_push: "push x q = (b, q') \<Longrightarrow> bound q' = bound q"
    and bound_pop: "pop q = (r, q') \<Longrightarrow> bound q' = bound q"
begin

lemma run_bound:
  "run ops q = (acc, out, q') \<Longrightarrow> bound q = Some n \<Longrightarrow> length (contents q) \<le> n \<Longrightarrow>
     length (contents q') \<le> n"
proof (induction ops q arbitrary: acc out rule: run.induct)
  case (2 x ops q)
  obtain b q1 where p: "push x q = (b, q1)" by (cases "push x q")
  obtain a o' where r: "run ops q1 = (a, o', q')" using 2(2) p by (auto split: prod.splits)
  have "length (contents q1) \<le> n"
    using p push_accepted [of x q q1] push_refused [of x q q1] push_bound [of x q q1 n] 2(3,4)
    by (cases b) fastforce+
  with 2(1) [OF p [symmetric] r] bound_push [OF p] 2(3) show ?case by simp
next
  case (3 ops q)
  obtain r q1 where p: "pop q = (r, q1)" by (cases "pop q")
  obtain a o' where r: "run ops q1 = (a, o', q')" using 3(2) p by (auto split: prod.splits)
  have "length (contents q1) \<le> n"
    using p pop_found [of q _ q1] pop_nothing [of q q1] 3(4) by (cases r) fastforce+
  with 3(1) [OF p [symmetric] r] bound_pop [OF p] 3(3) show ?case by simp
qed simp

end

section \<open>The queues keep the contract\<close>

text \<open>The calls that do not sleep: \<open>push(item, false)\<close>, \<open>pop(result, false)\<close>, and a blocking call on
  a queue where it need not wait.\<close>

definition tsq_push_now :: "'a \<Rightarrow> 'a tsq \<Rightarrow> bool \<times> 'a tsq" where
  "tsq_push_now item q = (case tsq_push item False q of (r, q') \<Rightarrow> (r = Returns True, q'))"

definition returned :: "'a option call \<times> 'q \<Rightarrow> 'a option \<times> 'q" where
  "returned = (\<lambda>(r, q). (case r of Returns x \<Rightarrow> x | Waits \<Rightarrow> None, q))"

interpretation tsq: bounded_fifo tsq_queue tsq_push_now "\<lambda>q. returned (tsq_pop False q)"
  "\<lambda>q. Some (tsq_max_size q)"
  by unfold_locales
    (auto simp: tsq_push_now_def tsq_push_def tsq_pop_def returned_def split: if_splits list.splits)

interpretation tsq_wait: fifo_queue tsq_queue "\<lambda>x q. case tsq_push x True q of (r, q') \<Rightarrow> (r = Returns True, q')"
  "\<lambda>q. returned (tsq_pop True q)"
  by unfold_locales
    (auto simp: tsq_push_def tsq_pop_def returned_def split: if_splits list.splits)

interpretation bq: bounded_fifo bq_queue bq_Push "\<lambda>q. returned (bq_Pop q)"
  "\<lambda>q. if bq_max_size q = 0 then None else Some (bq_max_size q)"
  by unfold_locales
    (auto simp: bq_Push_def bq_Pop_def returned_def split: if_splits list.splits)

interpretation bq_timed: fifo_queue bq_queue bq_Push bq_Pop_timed
  by unfold_locales
    (auto simp: bq_Push_def bq_Pop_timed_def Let_def split: if_splits list.splits)

interpretation tq: fifo_queue tq_q tq_Push "\<lambda>q. returned (tq_PopBlocking q)"
  by unfold_locales
    (auto simp: tq_Push_def tq_PopBlocking_def returned_def split: if_splits list.splits)

interpretation tsb: fifo_queue "\<lambda>b. b" tsb_push tsb_pop
  by unfold_locales (auto simp: tsb_push_def tsb_pop_def split: list.splits)

section \<open>Properties\<close>

text \<open>each of the three queues and the buffer is first in, first out: for any sequence of push and
  pop calls, the old contents followed by the accepted items equal the delivered items followed by
  the new contents.\<close>

theorem queues_are_fifo:
  "(case tsq.run ops q of (accepted, delivered, q') \<Rightarrow>
      tsq_queue q @ accepted = delivered @ tsq_queue q') \<and>
   (case bq.run ops b of (accepted, delivered, b') \<Rightarrow>
      bq_queue b @ accepted = delivered @ bq_queue b') \<and>
   (case bq_timed.run ops b of (accepted, delivered, b') \<Rightarrow>
      bq_queue b @ accepted = delivered @ bq_queue b') \<and>
   (case tq.run ops t of (accepted, delivered, t') \<Rightarrow> tq_q t @ accepted = delivered @ tq_q t') \<and>
   (case tsb.run ops s of (accepted, delivered, s') \<Rightarrow> s @ accepted = delivered @ s')"
  using tsq.run_fifo [of ops q] bq.run_fifo [of ops b] bq_timed.run_fifo [of ops b]
    tq.run_fifo [of ops t] tsb.run_fifo [of ops s]
  by (auto split: prod.splits)

text \<open>a bounded queue never exceeds its capacity: \<open>ThreadSafeQueue\<close> stays within \<open>max_size_\<close> and
  \<open>BlockingQueue\<close> within its non-zero \<open>max_size_\<close> through any sequence of calls.\<close>

theorem queues_stay_bounded:
  assumes "length (tsq_queue q) \<le> tsq_max_size q"
    and "bq_max_size b \<noteq> 0" and "length (bq_queue b) \<le> bq_max_size b"
  shows "(case tsq.run ops q of (accepted, delivered, q') \<Rightarrow> length (tsq_queue q') \<le> tsq_max_size q) \<and>
    (case bq.run ops b of (accepted, delivered, b') \<Rightarrow> length (bq_queue b') \<le> bq_max_size b)"
  using tsq.run_bound [of ops q _ _ _ "tsq_max_size q"] bq.run_bound [of ops b _ _ _ "bq_max_size b"] assms
  by (auto split: prod.splits)

theorem queues_stay_bounded_witness:
  "(case tsq.run [QPush 1, QPush (2::nat)] (tsq_init 1 tsq_ctor) of (accepted, delivered, q') \<Rightarrow>
      length (tsq_queue q') \<le> 1) \<and>
   (case bq.run [QPush 1, QPush (2::nat)] (bq_ctor 1) of (accepted, delivered, b') \<Rightarrow>
      length (bq_queue b') \<le> 1)"
  using queues_stay_bounded [of "tsq_init 1 tsq_ctor" "bq_ctor 1" "[QPush 1, QPush (2::nat)]"]
  by (simp add: tsq_init_def tsq_ctor_def bq_ctor_def)

text \<open>after shutdown every push is refused without changing the queue, no call goes to sleep, and
  the items still queued are delivered before a pop reports the end.\<close>

theorem shutdown_semantics:
  fixes x :: 'a and xs :: "'a list"
  shows "tsq_push x block (tsq_shutdown q) = (Returns False, tsq_shutdown q) \<and>
    fst (tsq_pop block (tsq_shutdown q)) = Returns (case tsq_queue q of [] \<Rightarrow> None | y # ys \<Rightarrow> Some y) \<and>
    bq_Push x (bq_Shutdown b) = (False, bq_Shutdown b) \<and>
    fst (bq_Pop (bq_Shutdown b)) = Returns (case bq_queue b of [] \<Rightarrow> None | y # ys \<Rightarrow> Some y) \<and>
    tq_Push x (tq_Shutdown t) = (False, tq_Shutdown t) \<and>
    fst (tq_PopBlocking (tq_Shutdown t)) = Returns (case tq_q t of [] \<Rightarrow> None | y # ys \<Rightarrow> Some y)"
  by (auto simp: tsq_defs bq_Push_def bq_Pop_def bq_Shutdown_def tq_Push_def tq_PopBlocking_def
      tq_Shutdown_def split: list.splits)

end
