(* ===== verification/QueueThreads.thy ===== *)
theory QueueThreads
  imports Queues
begin

text \<open>
  \<open>ThreadSafeQueue\<close> used by any number of threads. A thread is idle, about to (re)evaluate the wait
  loop of \<open>push\<close> or \<open>pop\<close>, or asleep on \<open>cond_not_full_\<close> or \<open>cond_not_empty_\<close>. One step is one
  critical section under \<open>mutex_\<close> (so the steps of different threads interleave in any order), one
  spurious wake-up, or one time-out of \<open>wait_until\<close>. \<open>notify_one\<close> wakes one sleeping thread, any one,
  if there is one; \<open>notify_all\<close> wakes them all. As the C++ standard allows, a thread that was notified
  but whose deadline has passed by the time it runs again sees \<open>cv_status::timeout\<close>.
\<close>

section \<open>Threads\<close>

datatype 'a pc =
    Idle
  | PushReady 'a
  | PushWait 'a
  | PopFresh bool
  | PopWoken bool
  | PopWait bool

record 'a conf =
  cf_q :: "'a tsq"
  cf_pc :: "nat \<Rightarrow> 'a pc"

fun ready_pop :: "'a pc \<Rightarrow> bool" where
  "ready_pop (PopFresh _) = True"
| "ready_pop (PopWoken _) = True"
| "ready_pop _ = False"

fun ready_push :: "'a pc \<Rightarrow> bool" where
  "ready_push (PushReady _) = True"
| "ready_push _ = False"

fun waiting_pop :: "'a pc \<Rightarrow> bool" where
  "waiting_pop (PopWait _) = True"
| "waiting_pop _ = False"

fun waiting_push :: "'a pc \<Rightarrow> bool" where
  "waiting_push (PushWait _) = True"
| "waiting_push _ = False"

fun timed_pop :: "'a pc \<Rightarrow> bool" where
  "timed_pop (PopFresh w) = w"
| "timed_pop (PopWoken w) = w"
| "timed_pop (PopWait w) = w"
| "timed_pop _ = False"

fun wake :: "'a pc \<Rightarrow> 'a pc" where
  "wake (PushWait x) = PushReady x"
| "wake (PopWait w) = PopWoken w"
| "wake p = p"

text \<open>\<open>notify_one\<close> on the condition variable whose sleepers are \<open>P\<close>.\<close>

definition notify_one :: "('a pc \<Rightarrow> bool) \<Rightarrow> (nat \<Rightarrow> 'a pc) \<Rightarrow> (nat \<Rightarrow> 'a pc) \<Rightarrow> bool" where
  "notify_one P pc pc' \<longleftrightarrow>
     ((\<forall>u. \<not> P (pc u)) \<and> pc' = pc) \<or> (\<exists>u. P (pc u) \<and> pc' = pc(u := wake (pc u)))"

definition notify_all :: "('a pc \<Rightarrow> bool) \<Rightarrow> (nat \<Rightarrow> 'a pc) \<Rightarrow> (nat \<Rightarrow> 'a pc)" where
  "notify_all P pc = (\<lambda>t. if P (pc t) then wake (pc t) else pc t)"

text \<open>
  The flags say whether threads use \<open>pop\<close> with a time-out and whether the capacity is changed
  while threads run.
\<close>

inductive tsq_step :: "bool \<Rightarrow> bool \<Rightarrow> 'a conf \<Rightarrow> 'a conf \<Rightarrow> bool" for timed resize where
  call_push: "pc t = Idle \<Longrightarrow>
    tsq_step timed resize \<lparr>cf_q = q, cf_pc = pc\<rparr> \<lparr>cf_q = q, cf_pc = pc(t := PushReady x)\<rparr>"
| push_waits: "pc t = PushReady x \<Longrightarrow> tsq_push x True q = (Waits, q') \<Longrightarrow>
    tsq_step timed resize \<lparr>cf_q = q, cf_pc = pc\<rparr> \<lparr>cf_q = q', cf_pc = pc(t := PushWait x)\<rparr>"
| push_stores: "pc t = PushReady x \<Longrightarrow> tsq_push x True q = (Returns True, q') \<Longrightarrow>
    notify_one waiting_pop (pc(t := Idle)) pc' \<Longrightarrow>
    tsq_step timed resize \<lparr>cf_q = q, cf_pc = pc\<rparr> \<lparr>cf_q = q', cf_pc = pc'\<rparr>"
| push_fails: "pc t = PushReady x \<Longrightarrow> tsq_push x True q = (Returns False, q') \<Longrightarrow>
    tsq_step timed resize \<lparr>cf_q = q, cf_pc = pc\<rparr> \<lparr>cf_q = q', cf_pc = pc(t := Idle)\<rparr>"
| push_now: "tsq_push x False q = (Returns True, q') \<Longrightarrow> notify_one waiting_pop pc pc' \<Longrightarrow>
    tsq_step timed resize \<lparr>cf_q = q, cf_pc = pc\<rparr> \<lparr>cf_q = q', cf_pc = pc'\<rparr>"
| call_pop: "pc t = Idle \<Longrightarrow> (w \<longrightarrow> timed) \<Longrightarrow>
    tsq_step timed resize \<lparr>cf_q = q, cf_pc = pc\<rparr> \<lparr>cf_q = q, cf_pc = pc(t := PopFresh w)\<rparr>"
| pop_waits: "pc t = PopFresh w \<or> pc t = PopWoken w \<Longrightarrow> tsq_pop True q = (Waits, q') \<Longrightarrow>
    tsq_step timed resize \<lparr>cf_q = q, cf_pc = pc\<rparr> \<lparr>cf_q = q', cf_pc = pc(t := PopWait w)\<rparr>"
| pop_takes: "pc t = PopFresh w \<or> pc t = PopWoken w \<Longrightarrow> tsq_pop True q = (Returns (Some x), q') \<Longrightarrow>
    notify_one waiting_push (pc(t := Idle)) pc' \<Longrightarrow>
    tsq_step timed resize \<lparr>cf_q = q, cf_pc = pc\<rparr> \<lparr>cf_q = q', cf_pc = pc'\<rparr>"
| pop_fails: "pc t = PopFresh w \<or> pc t = PopWoken w \<Longrightarrow> tsq_pop True q = (Returns None, q') \<Longrightarrow>
    tsq_step timed resize \<lparr>cf_q = q, cf_pc = pc\<rparr> \<lparr>cf_q = q', cf_pc = pc(t := Idle)\<rparr>"
| pop_now: "tsq_pop False q = (Returns (Some x), q') \<Longrightarrow> notify_one waiting_push pc pc' \<Longrightarrow>
    tsq_step timed resize \<lparr>cf_q = q, cf_pc = pc\<rparr> \<lparr>cf_q = q', cf_pc = pc'\<rparr>"
| pop_timeout: "pc t = PopWait True \<or> pc t = PopWoken True \<Longrightarrow>
    tsq_step timed resize \<lparr>cf_q = q, cf_pc = pc\<rparr> \<lparr>cf_q = q, cf_pc = pc(t := Idle)\<rparr>"
| spurious: "tsq_step timed resize \<lparr>cf_q = q, cf_pc = pc\<rparr> \<lparr>cf_q = q, cf_pc = pc(t := wake (pc t))\<rparr>"
| clear: "tsq_step timed resize \<lparr>cf_q = q, cf_pc = pc\<rparr>
    \<lparr>cf_q = tsq_clear q, cf_pc = notify_all waiting_push pc\<rparr>"
| shutdown: "tsq_step timed resize \<lparr>cf_q = q, cf_pc = pc\<rparr>
    \<lparr>cf_q = tsq_shutdown q, cf_pc = notify_all waiting_pop (notify_all waiting_push pc)\<rparr>"
| resize: "resize \<Longrightarrow>
    tsq_step timed resize \<lparr>cf_q = q, cf_pc = pc\<rparr> \<lparr>cf_q = tsq_setMaxSize n q, cf_pc = pc\<rparr>"

text \<open>All threads idle on an empty, open queue of any capacity.\<close>

definition tsq_start :: "'a conf \<Rightarrow> bool" where
  "tsq_start c \<longleftrightarrow> (\<exists>n. c = \<lparr>cf_q = tsq_init n tsq_ctor, cf_pc = (\<lambda>_. Idle)\<rparr>)"

inductive tsq_reachable :: "bool \<Rightarrow> bool \<Rightarrow> 'a conf \<Rightarrow> bool" for timed resize where
  start: "tsq_start c \<Longrightarrow> tsq_reachable timed resize c"
| step: "tsq_reachable timed resize c \<Longrightarrow> tsq_step timed resize c c' \<Longrightarrow> tsq_reachable timed resize c'"

section \<open>Counting threads\<close>

definition threads :: "('a pc \<Rightarrow> bool) \<Rightarrow> (nat \<Rightarrow> 'a pc) \<Rightarrow> nat" where
  "threads P pc = card {t. P (pc t)}"

definition finitely_busy :: "(nat \<Rightarrow> 'a pc) \<Rightarrow> bool" where
  "finitely_busy pc \<longleftrightarrow> finite {t. pc t \<noteq> Idle}"

lemma finitely_busy_upd [simp]: "finitely_busy pc \<Longrightarrow> finitely_busy (pc(t := p))"
  unfolding finitely_busy_def
  by (rule finite_subset [of _ "insert t {t. pc t \<noteq> Idle}"]) (auto split: if_splits)

lemma finitely_busy_P:
  assumes "finitely_busy pc" "\<not> P Idle"
  shows "finite {t. P (pc t)}"
proof (rule finite_subset)
  show "{t. P (pc t)} \<subseteq> {t. pc t \<noteq> Idle}" using assms(2) by auto
  show "finite {t. pc t \<noteq> Idle}" using assms(1) by (simp add: finitely_busy_def)
qed

lemma threads_upd:
  assumes "finitely_busy pc" "\<not> P Idle"
  shows "threads P (pc(t := p)) + (if P (pc t) then 1 else 0) = threads P pc + (if P p then 1 else 0)"
proof -
  let ?S = "{u. P (pc u)}"
  have f: "finite ?S" using finitely_busy_P [of pc P, OF assms] .
  have "{u. P ((pc(t := p)) u)} = (if P p then insert t ?S else ?S - {t})" by auto
  moreover have "P (pc t) \<Longrightarrow> card ?S = Suc (card (?S - {t}))"
    using f by (intro card.remove) simp_all
  moreover have "\<not> P (pc t) \<Longrightarrow> ?S - {t} = ?S" by auto
  ultimately show ?thesis
    using f by (auto simp: threads_def card_insert_if insert_absorb simp del: fun_upd_apply)
qed

lemma threads_pos: "finitely_busy pc \<Longrightarrow> \<not> P Idle \<Longrightarrow> P (pc t) \<Longrightarrow> 0 < threads P pc"
  using finitely_busy_P [of pc P] by (auto simp: threads_def card_gt_0_iff)

lemma threads_posE: "0 < threads P pc \<Longrightarrow> \<exists>t. P (pc t)"
  by (auto simp: threads_def card_gt_0_iff)

lemma wake_simps [simp]:
  "\<not> waiting_pop (wake p)" "\<not> waiting_push (wake p)"
  "waiting_pop p \<Longrightarrow> ready_pop (wake p)" "waiting_push p \<Longrightarrow> ready_push (wake p)"
  "timed_pop (wake p) = timed_pop p"
  by (cases p; simp)+

lemma notify_all_none [simp]: "\<not> waiting_push (notify_all waiting_push pc t)"
  "\<not> waiting_pop (notify_all waiting_pop pc t)"
  "\<not> waiting_push (notify_all waiting_pop (notify_all waiting_push pc) t)"
  by (auto simp: notify_all_def)

lemma notify_all_frame [simp]: "timed_pop (notify_all P pc t) = timed_pop (pc t)"
  "waiting_pop (notify_all waiting_push pc t) = waiting_pop (pc t)"
  by (auto simp: notify_all_def elim: waiting_push.elims)

lemma notify_all_busy: "finitely_busy pc \<Longrightarrow> finitely_busy (notify_all P pc)"
  unfolding finitely_busy_def notify_all_def
  by (erule rev_finite_subset) (auto split: if_splits elim: wake.elims)

lemma notify_oneE:
  assumes "notify_one P pc pc'"
  obtains (none) "\<forall>u. \<not> P (pc u)" "pc' = pc" | (one) u where "P (pc u)" "pc' = pc(u := wake (pc u))"
  using assms by (auto simp: notify_one_def)

lemma waiting_kinds:
  "waiting_pop p \<Longrightarrow> \<not> ready_pop p \<and> \<not> ready_push p \<and> \<not> waiting_push p \<and> \<not> ready_push (wake p)"
  "waiting_push p \<Longrightarrow> \<not> ready_push p \<and> \<not> ready_pop p \<and> \<not> waiting_pop p \<and> \<not> ready_pop (wake p)"
  by (cases p; simp)+

lemma notify_one_frame:
  assumes "notify_one P pc pc'" "finitely_busy pc"
  shows "finitely_busy pc'" "timed_pop (pc' t) = timed_pop (pc t)"
  using assms(2) by (cases rule: notify_oneE [OF assms(1)]; simp)+

lemma wake_counts:
  assumes "finitely_busy pc"
  shows "waiting_pop (pc u) \<Longrightarrow> threads ready_pop (pc(u := wake (pc u))) = Suc (threads ready_pop pc)"
    "waiting_pop (pc u) \<Longrightarrow> threads ready_push (pc(u := wake (pc u))) = threads ready_push pc"
    "waiting_push (pc u) \<Longrightarrow> threads ready_push (pc(u := wake (pc u))) = Suc (threads ready_push pc)"
    "waiting_push (pc u) \<Longrightarrow> threads ready_pop (pc(u := wake (pc u))) = threads ready_pop pc"
  using threads_upd [of pc ready_pop u "wake (pc u)", OF assms]
    threads_upd [of pc ready_push u "wake (pc u)", OF assms] waiting_kinds [of "pc u"]
  by (simp_all del: fun_upd_apply)

lemma notify_pop:
  assumes "notify_one waiting_pop pc pc'" "finitely_busy pc"
  shows "waiting_push (pc' t) = waiting_push (pc t)" "threads ready_push pc' = threads ready_push pc"
    "waiting_pop (pc' t) \<Longrightarrow> \<exists>u. waiting_pop (pc u) \<and> threads ready_pop pc' = Suc (threads ready_pop pc)"
  using assms(1)
  by (cases rule: notify_oneE; use waiting_kinds(1) wake_counts [OF assms(2)] in auto)+

lemma notify_push:
  assumes "notify_one waiting_push pc pc'" "finitely_busy pc"
  shows "waiting_pop (pc' t) = waiting_pop (pc t)" "threads ready_pop pc' = threads ready_pop pc"
    "waiting_push (pc' t) \<Longrightarrow> \<exists>u. waiting_push (pc u) \<and> threads ready_push pc' = Suc (threads ready_push pc)"
  using assms(1)
  by (cases rule: notify_oneE; use waiting_kinds(2) wake_counts [OF assms(2)] in auto)+

section \<open>No lost wake-up\<close>

text \<open>
  As long as a thread sleeps in \<open>pop\<close>, there are at least as many threads on their way to take an
  item as there are items; and likewise for \<open>push\<close> and free places.
\<close>

definition pop_inv :: "'a conf \<Rightarrow> bool" where
  "pop_inv c \<longleftrightarrow> finitely_busy (cf_pc c) \<and> (\<forall>t. \<not> timed_pop (cf_pc c t)) \<and>
     ((\<exists>t. waiting_pop (cf_pc c t)) \<longrightarrow> \<not> tsq_shut (cf_q c) \<and>
        length (tsq_queue (cf_q c)) \<le> threads ready_pop (cf_pc c))"

definition push_inv :: "'a conf \<Rightarrow> bool" where
  "push_inv c \<longleftrightarrow> finitely_busy (cf_pc c) \<and>
     ((\<exists>t. waiting_push (cf_pc c t)) \<longrightarrow> \<not> tsq_shut (cf_q c) \<and>
        tsq_max_size (cf_q c) \<le> length (tsq_queue (cf_q c)) + threads ready_push (cf_pc c))"

lemma tsq_push_cases:
  "tsq_push x b q = (Waits, q') \<Longrightarrow> q' = q \<and> \<not> tsq_shut q \<and> tsq_max_size q \<le> length (tsq_queue q)"
  "tsq_push x b q = (Returns True, q') \<Longrightarrow> q' = q\<lparr>tsq_queue := tsq_queue q @ [x]\<rparr>"
  "tsq_push x True q = (Returns False, q') \<Longrightarrow> q' = q \<and> tsq_shut q"
  by (auto simp: tsq_push_def split: if_splits)

lemma tsq_pop_cases:
  "tsq_pop b q = (Waits, q') \<Longrightarrow> q' = q \<and> \<not> tsq_shut q \<and> tsq_queue q = []"
  "tsq_pop b q = (Returns (Some y), q') \<Longrightarrow>
     q' = q\<lparr>tsq_queue := tl (tsq_queue q)\<rparr> \<and> tsq_queue q \<noteq> []"
  "tsq_pop True q = (Returns None, q') \<Longrightarrow> q' = q \<and> tsq_shut q \<and> tsq_queue q = []"
  by (auto simp: tsq_pop_def split: if_splits list.splits)

lemma ready_pop_pc: "pc t = PopFresh w \<or> pc t = PopWoken w \<Longrightarrow> ready_pop (pc t) \<and> \<not> waiting_pop (pc t)
  \<and> \<not> ready_push (pc t) \<and> \<not> waiting_push (pc t) \<and> timed_pop (pc t) = w"
  by auto

lemma threads_upd_simps:
  assumes "finitely_busy pc" "\<not> P Idle"
  shows "P (pc t) = P p \<Longrightarrow> threads P (pc(t := p)) = threads P pc"
    "\<not> P (pc t) \<Longrightarrow> P p \<Longrightarrow> threads P (pc(t := p)) = Suc (threads P pc)"
    "P (pc t) \<Longrightarrow> \<not> P p \<Longrightarrow> Suc (threads P (pc(t := p))) = threads P pc"
  using threads_upd [of pc P t p, OF assms] by (auto split: if_splits)

lemma pop_invI:
  "finitely_busy pc \<Longrightarrow> (\<And>t. \<not> timed_pop (pc t)) \<Longrightarrow>
   (\<And>t. waiting_pop (pc t) \<Longrightarrow> \<not> tsq_shut q \<and> length (tsq_queue q) \<le> threads ready_pop pc) \<Longrightarrow>
   pop_inv \<lparr>cf_q = q, cf_pc = pc\<rparr>"
  by (auto simp: pop_inv_def)

lemma pop_invD:
  assumes "pop_inv \<lparr>cf_q = q, cf_pc = pc\<rparr>"
  shows "finitely_busy pc" "\<not> timed_pop (pc t)"
    "waiting_pop (pc t) \<Longrightarrow> \<not> tsq_shut q" "waiting_pop (pc t) \<Longrightarrow> length (tsq_queue q) \<le> threads ready_pop pc"
  using assms by (auto simp: pop_inv_def)

text \<open>Updates of one thread that neither sleeps in \<open>pop\<close> afterwards nor was about to pop.\<close>

lemma pop_inv_upd:
  assumes i: "pop_inv \<lparr>cf_q = q, cf_pc = pc\<rparr>"
    and p: "\<not> waiting_pop p" "\<not> timed_pop p" "ready_pop (pc t) \<longrightarrow> ready_pop p"
  shows "pop_inv \<lparr>cf_q = q, cf_pc = pc(t := p)\<rparr>"
proof (rule pop_invI)
  have "threads ready_pop pc \<le> threads ready_pop (pc(t := p))"
    using threads_upd [of pc ready_pop t p, OF pop_invD(1) [OF i]] p(3) by (auto split: if_splits)
  then show "\<not> tsq_shut q \<and> length (tsq_queue q) \<le> threads ready_pop (pc(t := p))"
    if "waiting_pop ((pc(t := p)) u)" for u
    using that p(1) pop_invD(3,4) [OF i, of u] by (auto split: if_splits)
qed (use pop_invD [OF i] p in auto)

lemma pop_inv_store:
  assumes i: "pop_inv \<lparr>cf_q = q, cf_pc = pc\<rparr>"
    and n: "notify_one waiting_pop pc pc'" and q': "q' = q\<lparr>tsq_queue := tsq_queue q @ [x]\<rparr>"
  shows "pop_inv \<lparr>cf_q = q', cf_pc = pc'\<rparr>"
proof (rule pop_invI)
  note fb = pop_invD(1) [OF i]
  show "\<not> tsq_shut q' \<and> length (tsq_queue q') \<le> threads ready_pop pc'" if "waiting_pop (pc' u)" for u
    using notify_pop(3) [OF n fb that] pop_invD(3,4) [OF i] q' by fastforce
qed (use notify_one_frame [OF n] pop_invD [OF i] in auto)

lemma pop_inv_take:
  assumes i: "pop_inv \<lparr>cf_q = q, cf_pc = pc\<rparr>" and n: "notify_one waiting_push pc pc'"
  shows "pop_inv \<lparr>cf_q = q, cf_pc = pc'\<rparr>"
proof (rule pop_invI)
  note fb = pop_invD(1) [OF i]
  show "\<not> tsq_shut q \<and> length (tsq_queue q) \<le> threads ready_pop pc'" if "waiting_pop (pc' u)" for u
    using that notify_push(1,2) [OF n fb] pop_invD(3,4) [OF i] by simp
qed (use notify_one_frame [OF n] pop_invD [OF i] in auto)

lemma pop_inv_shrink:
  assumes i: "pop_inv \<lparr>cf_q = q, cf_pc = pc\<rparr>" and "length xs \<le> length (tsq_queue q)"
  shows "pop_inv \<lparr>cf_q = q\<lparr>tsq_queue := xs\<rparr>, cf_pc = pc\<rparr>"
  using assms by (fastforce simp: pop_inv_def)

lemma pop_inv_leave:
  assumes i: "pop_inv \<lparr>cf_q = q, cf_pc = pc\<rparr>" and r: "ready_pop (pc t)"
    and ne: "tsq_queue q \<noteq> [] \<or> tsq_shut q"
  shows "pop_inv \<lparr>cf_q = q\<lparr>tsq_queue := tl (tsq_queue q)\<rparr>, cf_pc = pc(t := Idle)\<rparr>"
proof (rule pop_invI)
  have "Suc (threads ready_pop (pc(t := Idle))) = threads ready_pop pc"
    using threads_upd_simps(3) [of pc ready_pop t Idle, OF pop_invD(1) [OF i]] r by simp
  then show "\<not> tsq_shut (q\<lparr>tsq_queue := tl (tsq_queue q)\<rparr>) \<and>
      length (tsq_queue (q\<lparr>tsq_queue := tl (tsq_queue q)\<rparr>)) \<le> threads ready_pop (pc(t := Idle))"
    if "waiting_pop ((pc(t := Idle)) u)" for u
    using that ne pop_invD(3,4) [OF i, of u] by (auto split: if_splits)
qed (use pop_invD [OF i] in auto)

lemma pop_inv_all:
  assumes i: "pop_inv \<lparr>cf_q = q, cf_pc = pc\<rparr>"
  shows "pop_inv \<lparr>cf_q = tsq_clear q, cf_pc = notify_all waiting_push pc\<rparr>"
    "pop_inv \<lparr>cf_q = tsq_shutdown q, cf_pc = notify_all waiting_pop (notify_all waiting_push pc)\<rparr>"
  using pop_invD [OF i]
  by (auto intro!: pop_invI notify_all_busy simp: tsq_clear_def)

lemma pop_inv_step:
  assumes "tsq_step False resize c c'" "pop_inv c"
  shows "pop_inv c'"
  using assms
proof (induction rule: tsq_step.induct)
  case (push_stores pc t x q q' pc')
  then have "pop_inv \<lparr>cf_q = q, cf_pc = pc(t := Idle)\<rparr>" by (intro pop_inv_upd) simp_all
  then show ?case by (rule pop_inv_store [OF _ push_stores(3) tsq_push_cases(2) [OF push_stores(2)]])
next
  case (push_now x q q' pc pc')
  show ?case by (rule pop_inv_store [OF push_now.prems push_now(2) tsq_push_cases(2) [OF push_now(1)]])
next
  case (pop_waits pc t w q q')
  note i = pop_invD [OF pop_waits.prems]
  have "\<not> w" using i(2) [of t] pop_waits(1) by auto
  with pop_waits tsq_pop_cases(1) [OF pop_waits(2)] i show ?case
    by (auto intro!: pop_invI split: if_splits)
next
  case (pop_takes pc t w q x q' pc')
  then have "pop_inv \<lparr>cf_q = q', cf_pc = pc(t := Idle)\<rparr>"
    using pop_inv_leave [of q pc t] ready_pop_pc [of pc t w] tsq_pop_cases(2) by metis
  with pop_takes show ?case using pop_inv_take by blast
next
  case (pop_fails pc t w q q')
  with tsq_pop_cases(3) [OF pop_fails(2)] pop_invD [OF pop_fails.prems] show ?case
    by (auto intro!: pop_invI split: if_splits)
next
  case (pop_now q x q' pc pc')
  have "pop_inv \<lparr>cf_q = q\<lparr>tsq_queue := tl (tsq_queue q)\<rparr>, cf_pc = pc\<rparr>"
    by (rule pop_inv_shrink [OF pop_now.prems]) simp
  with pop_now tsq_pop_cases(2) [OF pop_now(1)] show ?case using pop_inv_take by blast
next
  case (pop_timeout pc t q)
  then show ?case using pop_invD(2) [OF pop_timeout.prems, of t] by auto
next
  case (spurious q pc t)
  have "ready_pop (pc t) \<longrightarrow> ready_pop (wake (pc t))" by (cases "pc t") auto
  with spurious show ?case using pop_invD(2) [OF spurious] by (intro pop_inv_upd) simp_all
next
  case (resize q pc n)
  then show ?case by (simp add: pop_inv_def tsq_setMaxSize_def)
qed (auto intro!: pop_inv_upd pop_inv_all dest: tsq_push_cases)

text \<open>The same for \<open>push\<close> and \<open>cond_not_full_\<close>.\<close>

lemma push_invI:
  "finitely_busy pc \<Longrightarrow>
   (\<And>t. waiting_push (pc t) \<Longrightarrow> \<not> tsq_shut q \<and>
      tsq_max_size q \<le> length (tsq_queue q) + threads ready_push pc) \<Longrightarrow>
   push_inv \<lparr>cf_q = q, cf_pc = pc\<rparr>"
  by (auto simp: push_inv_def)

lemma push_invD:
  assumes "push_inv \<lparr>cf_q = q, cf_pc = pc\<rparr>"
  shows "finitely_busy pc" "waiting_push (pc t) \<Longrightarrow> \<not> tsq_shut q"
    "waiting_push (pc t) \<Longrightarrow> tsq_max_size q \<le> length (tsq_queue q) + threads ready_push pc"
  using assms by (auto simp: push_inv_def)

lemma push_inv_upd:
  assumes i: "push_inv \<lparr>cf_q = q, cf_pc = pc\<rparr>"
    and p: "\<not> waiting_push p" "ready_push (pc t) \<longrightarrow> ready_push p \<or> tsq_shut q"
  shows "push_inv \<lparr>cf_q = q, cf_pc = pc(t := p)\<rparr>"
proof (rule push_invI)
  have "threads ready_push pc \<le> threads ready_push (pc(t := p)) \<or> tsq_shut q"
    using threads_upd [of pc ready_push t p, OF push_invD(1) [OF i]] p(2) by (auto split: if_splits)
  then show "\<not> tsq_shut q \<and> tsq_max_size q \<le> length (tsq_queue q) + threads ready_push (pc(t := p))"
    if "waiting_push ((pc(t := p)) u)" for u
    using that p(1) push_invD(2,3) [OF i, of u] by (auto split: if_splits)
qed (use push_invD [OF i] p in auto)

lemma push_inv_wake_pop:
  assumes i: "push_inv \<lparr>cf_q = q, cf_pc = pc\<rparr>" and n: "notify_one waiting_pop pc pc'"
  shows "push_inv \<lparr>cf_q = q, cf_pc = pc'\<rparr>"
proof (rule push_invI)
  note fb = push_invD(1) [OF i]
  show "\<not> tsq_shut q \<and> tsq_max_size q \<le> length (tsq_queue q) + threads ready_push pc'"
    if "waiting_push (pc' u)" for u
    using that notify_pop(1,2) [OF n fb] push_invD(2,3) [OF i] by simp
qed (use notify_one_frame [OF n] push_invD [OF i] in auto)

lemma push_inv_store:
  assumes i: "push_inv \<lparr>cf_q = q, cf_pc = pc\<rparr>" and r: "ready_push (pc t)"
  shows "push_inv \<lparr>cf_q = q\<lparr>tsq_queue := tsq_queue q @ [x]\<rparr>, cf_pc = pc(t := Idle)\<rparr>"
proof (rule push_invI)
  have "Suc (threads ready_push (pc(t := Idle))) = threads ready_push pc"
    using threads_upd_simps(3) [of pc ready_push t Idle, OF push_invD(1) [OF i]] r by simp
  then show "\<not> tsq_shut (q\<lparr>tsq_queue := tsq_queue q @ [x]\<rparr>) \<and>
      tsq_max_size (q\<lparr>tsq_queue := tsq_queue q @ [x]\<rparr>) \<le>
        length (tsq_queue (q\<lparr>tsq_queue := tsq_queue q @ [x]\<rparr>)) + threads ready_push (pc(t := Idle))"
    if "waiting_push ((pc(t := Idle)) u)" for u
    using that push_invD(2,3) [OF i, of u] by (auto split: if_splits)
qed (use push_invD [OF i] in auto)

lemma push_inv_take:
  assumes i: "push_inv \<lparr>cf_q = q, cf_pc = pc\<rparr>" and n: "notify_one waiting_push pc pc'"
  shows "push_inv \<lparr>cf_q = q\<lparr>tsq_queue := tl (tsq_queue q)\<rparr>, cf_pc = pc'\<rparr>"
proof (rule push_invI)
  note fb = push_invD(1) [OF i]
  show "\<not> tsq_shut (q\<lparr>tsq_queue := tl (tsq_queue q)\<rparr>) \<and> tsq_max_size (q\<lparr>tsq_queue := tl (tsq_queue q)\<rparr>)
      \<le> length (tsq_queue (q\<lparr>tsq_queue := tl (tsq_queue q)\<rparr>)) + threads ready_push pc'"
    if "waiting_push (pc' u)" for u
    using notify_push(3) [OF n fb that] push_invD(2,3) [OF i] by fastforce
qed (use notify_one_frame [OF n] push_invD [OF i] in auto)

lemma push_inv_all:
  assumes i: "push_inv \<lparr>cf_q = q, cf_pc = pc\<rparr>"
  shows "push_inv \<lparr>cf_q = tsq_clear q, cf_pc = notify_all waiting_push pc\<rparr>"
    "push_inv \<lparr>cf_q = tsq_shutdown q, cf_pc = notify_all waiting_pop (notify_all waiting_push pc)\<rparr>"
  using push_invD [OF i]
  by (auto intro!: push_invI notify_all_busy)

lemma push_inv_step:
  assumes "tsq_step timed False c c'" "push_inv c"
  shows "push_inv c'"
  using assms
proof (induction rule: tsq_step.induct)
  case (push_waits pc t x q q')
  with tsq_push_cases(1) [OF push_waits(2)] push_invD [OF push_waits.prems] show ?case
    by (auto intro!: push_invI)
next
  case (push_stores pc t x q q' pc')
  have "ready_push (pc t)" using push_stores(1) by simp
  from push_inv_wake_pop [OF push_inv_store [OF push_stores.prems this] push_stores(3)]
  show ?case using tsq_push_cases(2) [OF push_stores(2)] by simp
next
  case (push_fails pc t x q q')
  with tsq_push_cases(3) [OF push_fails(2)] show ?case by (auto intro!: push_inv_upd)
next
  case (push_now x q q' pc pc')
  have "push_inv \<lparr>cf_q = q\<lparr>tsq_queue := tsq_queue q @ [x]\<rparr>, cf_pc = pc\<rparr>"
    using push_now.prems by (fastforce simp: push_inv_def)
  with push_now tsq_push_cases(2) [OF push_now(1)] show ?case using push_inv_wake_pop by blast
next
  case (pop_takes pc t w q x q' pc')
  then have "push_inv \<lparr>cf_q = q, cf_pc = pc(t := Idle)\<rparr>" by (auto intro!: push_inv_upd)
  with pop_takes tsq_pop_cases(2) [OF pop_takes(2)] show ?case using push_inv_take by blast
next
  case (pop_now q x q' pc pc')
  with tsq_pop_cases(2) [OF pop_now(1)] show ?case using push_inv_take by blast
next
  case (spurious q pc t)
  have "ready_push (pc t) \<longrightarrow> ready_push (wake (pc t))" by (cases "pc t") auto
  with spurious show ?case by (intro push_inv_upd) simp_all
next
  case (pop_waits pc t w q q')
  with tsq_pop_cases(1) [OF pop_waits(2)] show ?case by (auto intro!: push_inv_upd)
next
  case (pop_fails pc t w q q')
  with tsq_pop_cases(3) [OF pop_fails(2)] show ?case by (auto intro!: push_inv_upd)
qed (auto intro!: push_inv_upd push_inv_all)

lemma reachable_pop_inv: "tsq_reachable False resize c \<Longrightarrow> pop_inv c"
proof (induction rule: tsq_reachable.induct)
  case (start c)
  then show ?case by (auto simp: tsq_start_def pop_inv_def finitely_busy_def)
qed (rule pop_inv_step)

lemma reachable_push_inv: "tsq_reachable timed False c \<Longrightarrow> push_inv c"
proof (induction rule: tsq_reachable.induct)
  case (start c)
  then show ?case by (auto simp: tsq_start_def push_inv_def finitely_busy_def)
qed (rule push_inv_step)

section \<open>Properties\<close>

text \<open>C7: no wake-up is lost in \<open>pop\<close> without time-outs: in every interleaving of any number of
  threads, when a thread sleeps in \<open>pop\<close> the queue is not shut down, and at least as many threads
  are on their way to take an item as there are items; so a sleeper never faces a non-empty queue
  with nobody running.\<close>

theorem no_lost_pop_wakeup:
  assumes "tsq_reachable False resize c" and "waiting_pop (cf_pc c t)"
  shows "\<not> tsq_shut (cf_q c) \<and> tsq_size (cf_q c) \<le> threads ready_pop (cf_pc c) \<and>
    (\<not> tsq_empty (cf_q c) \<longrightarrow> (\<exists>u. ready_pop (cf_pc c u)))"
proof -
  have "\<not> tsq_shut (cf_q c)" "length (tsq_queue (cf_q c)) \<le> threads ready_pop (cf_pc c)"
    using reachable_pop_inv [OF assms(1)] assms(2) by (auto simp: pop_inv_def)
  then show ?thesis
    using threads_posE [of ready_pop "cf_pc c"]
    by (cases "tsq_queue (cf_q c)") (auto simp: tsq_size_def tsq_empty_def)
qed

text \<open>A queue of capacity 1 with thread 0 asleep in \<open>pop\<close>.\<close>

lemma reachable_sleeper:
  "tsq_reachable timed resize \<lparr>cf_q = tsq_init 1 tsq_ctor :: nat tsq, cf_pc = (\<lambda>_. Idle)(0 := PopWait False)\<rparr>"
proof -
  let ?q = "tsq_init 1 tsq_ctor :: nat tsq"
  have 0: "tsq_reachable timed resize \<lparr>cf_q = ?q, cf_pc = \<lambda>_. Idle\<rparr>"
    by (rule tsq_reachable.start) (auto simp: tsq_start_def)
  have 1: "tsq_step timed resize \<lparr>cf_q = ?q, cf_pc = \<lambda>_. Idle\<rparr>
      \<lparr>cf_q = ?q, cf_pc = (\<lambda>_. Idle)(0 := PopFresh False)\<rparr>"
    by (rule tsq_step.call_pop) simp_all
  have 2: "tsq_step timed resize \<lparr>cf_q = ?q, cf_pc = (\<lambda>_. Idle)(0 := PopFresh False)\<rparr>
      \<lparr>cf_q = ?q, cf_pc = (\<lambda>_. Idle)(0 := PopFresh False, 0 := PopWait False)\<rparr>"
    by (rule tsq_step.pop_waits) (simp_all add: tsq_pop_def tsq_init_def tsq_ctor_def)
  show ?thesis
    using tsq_reachable.step [OF tsq_reachable.step [OF 0 1] 2] by simp
qed

theorem no_lost_pop_wakeup_witness:
  "\<not> tsq_shut (tsq_init 1 tsq_ctor :: nat tsq) \<and> tsq_size (tsq_init 1 tsq_ctor :: nat tsq) \<le>
     threads ready_pop ((\<lambda>_. Idle)(0 := PopWait False) :: nat \<Rightarrow> nat pc)"
  using no_lost_pop_wakeup [OF reachable_sleeper, of 0] by simp

text \<open>no wake-up is lost in \<open>push\<close> while the capacity is not changed: when a thread sleeps in
  \<open>push\<close> the queue is not shut down and every free place has a thread on its way to fill it.\<close>

theorem no_lost_push_wakeup:
  assumes "tsq_reachable timed False c" and "waiting_push (cf_pc c t)"
  shows "\<not> tsq_shut (cf_q c) \<and>
    tsq_max_size (cf_q c) \<le> tsq_size (cf_q c) + threads ready_push (cf_pc c) \<and>
    (tsq_size (cf_q c) < tsq_max_size (cf_q c) \<longrightarrow> (\<exists>u. ready_push (cf_pc c u)))"
proof -
  have "\<not> tsq_shut (cf_q c)"
    "tsq_max_size (cf_q c) \<le> length (tsq_queue (cf_q c)) + threads ready_push (cf_pc c)"
    using reachable_push_inv [OF assms(1)] assms(2) by (auto simp: push_inv_def)
  then show ?thesis
    using threads_posE [of ready_push "cf_pc c"] by (auto simp: tsq_size_def)
qed

text \<open>A queue of capacity \<open>n\<close>, already full, with thread 0 asleep in \<open>push\<close>: here capacity 0.\<close>

lemma reachable_pusher:
  "tsq_reachable timed resize \<lparr>cf_q = tsq_init 0 tsq_ctor :: nat tsq, cf_pc = (\<lambda>_. Idle)(0 := PushWait 7)\<rparr>"
proof -
  let ?q = "tsq_init 0 tsq_ctor :: nat tsq"
  have 0: "tsq_reachable timed resize \<lparr>cf_q = ?q, cf_pc = \<lambda>_. Idle\<rparr>"
    by (rule tsq_reachable.start) (auto simp: tsq_start_def)
  have 1: "tsq_step timed resize \<lparr>cf_q = ?q, cf_pc = \<lambda>_. Idle\<rparr>
      \<lparr>cf_q = ?q, cf_pc = (\<lambda>_. Idle)(0 := PushReady 7)\<rparr>"
    by (rule tsq_step.call_push) simp
  have 2: "tsq_step timed resize \<lparr>cf_q = ?q, cf_pc = (\<lambda>_. Idle)(0 := PushReady 7)\<rparr>
      \<lparr>cf_q = ?q, cf_pc = (\<lambda>_. Idle)(0 := PushReady 7, 0 := PushWait 7)\<rparr>"
    by (rule tsq_step.push_waits) (simp_all add: tsq_push_def tsq_init_def tsq_ctor_def)
  show ?thesis
    using tsq_reachable.step [OF tsq_reachable.step [OF 0 1] 2] by simp
qed

theorem no_lost_push_wakeup_witness:
  "tsq_max_size (tsq_init 0 tsq_ctor :: nat tsq) \<le> tsq_size (tsq_init 0 tsq_ctor :: nat tsq) +
     threads ready_push ((\<lambda>_. Idle)(0 := PushWait 7) :: nat \<Rightarrow> nat pc)"
  using no_lost_push_wakeup [OF reachable_pusher, of 0] by simp

text \<open>\<open>setMaxSize\<close> does not notify \<open>cond_not_full_\<close>: a run in which the capacity is raised leaves a
  thread asleep in \<open>push\<close> although the queue has a free place, is open, and no other thread runs.\<close>

theorem resize_strands_pusher:
  "\<exists>c t. tsq_reachable False True (c :: nat conf) \<and> waiting_push (cf_pc c t) \<and> \<not> tsq_shut (cf_q c) \<and>
    tsq_size (cf_q c) < tsq_max_size (cf_q c) \<and> (\<forall>u. u \<noteq> t \<longrightarrow> cf_pc c u = Idle)"
proof (intro exI conjI)
  let ?c = "\<lparr>cf_q = tsq_setMaxSize 5 (tsq_init 0 tsq_ctor :: nat tsq), cf_pc = (\<lambda>_. Idle)(0 := PushWait 7)\<rparr>"
  show "tsq_reachable False True ?c"
    by (rule tsq_reachable.step [OF reachable_pusher tsq_step.resize]) simp
  show "waiting_push (cf_pc ?c 0)" "\<not> tsq_shut (cf_q ?c)" "tsq_size (cf_q ?c) < tsq_max_size (cf_q ?c)"
    "\<forall>u. u \<noteq> 0 \<longrightarrow> cf_pc ?c u = Idle"
    by (simp_all add: tsq_setMaxSize_def tsq_init_def tsq_ctor_def tsq_size_def)
qed

theorem resize_strands_pusher_witness:
  "\<exists>c t. tsq_reachable False True (c :: nat conf) \<and> waiting_push (cf_pc c t)"
  using resize_strands_pusher by blast

text \<open>a timed \<open>pop\<close> can swallow a wake-up: it returns \<open>false\<close> on \<open>cv_status::timeout\<close> without
  testing the queue again, so the notification it consumed is lost and another thread stays asleep
  in \<open>pop\<close> although the queue holds an item, is open, and no other thread runs.\<close>

theorem timed_pop_swallows_wakeup:
  "\<exists>c t. tsq_reachable True False (c :: nat conf) \<and> waiting_pop (cf_pc c t) \<and> \<not> tsq_shut (cf_q c) \<and>
    \<not> tsq_empty (cf_q c) \<and> (\<forall>u. u \<noteq> t \<longrightarrow> cf_pc c u = Idle)"
proof (intro exI conjI)
  let ?q = "tsq_init 1 tsq_ctor :: nat tsq" and ?q' = "(tsq_init 1 tsq_ctor)\<lparr>tsq_queue := [7 :: nat]\<rparr>"
  let ?p0 = "(\<lambda>_. Idle)(0 := PopWait False) :: nat \<Rightarrow> nat pc"
  let ?c = "\<lparr>cf_q = ?q', cf_pc = ?p0\<rparr>"
  have 1: "tsq_step True False \<lparr>cf_q = ?q, cf_pc = ?p0\<rparr> \<lparr>cf_q = ?q, cf_pc = ?p0(1 := PopFresh True)\<rparr>"
    by (rule tsq_step.call_pop) simp_all
  have 2: "tsq_step True False \<lparr>cf_q = ?q, cf_pc = ?p0(1 := PopFresh True)\<rparr>
      \<lparr>cf_q = ?q, cf_pc = ?p0(1 := PopFresh True, 1 := PopWait True)\<rparr>"
    by (rule tsq_step.pop_waits) (simp_all add: tsq_pop_def tsq_init_def tsq_ctor_def)
  have 3: "tsq_step True False \<lparr>cf_q = ?q, cf_pc = ?p0(1 := PopFresh True, 1 := PopWait True)\<rparr>
      \<lparr>cf_q = ?q', cf_pc = ?p0(1 := PopFresh True, 1 := PopWait True, 1 := PopWoken True)\<rparr>"
    by (rule tsq_step.push_now [of 7])
      (auto simp: tsq_push_def tsq_init_def tsq_ctor_def notify_one_def intro!: exI [of _ "1 :: nat"])
  have 4: "tsq_step True False
      \<lparr>cf_q = ?q', cf_pc = ?p0(1 := PopFresh True, 1 := PopWait True, 1 := PopWoken True)\<rparr>
      \<lparr>cf_q = ?q', cf_pc = ?p0(1 := PopFresh True, 1 := PopWait True, 1 := PopWoken True, 1 := Idle)\<rparr>"
    by (rule tsq_step.pop_timeout) simp
  have e: "?p0(1 := PopFresh True, 1 := PopWait True, 1 := PopWoken True, 1 := Idle) = ?p0"
    by auto
  show "tsq_reachable True False ?c"
    using reachable_sleeper tsq_reachable.step 1 2 3 4 unfolding e by metis
  show "waiting_pop (cf_pc ?c 0)" "\<not> tsq_shut (cf_q ?c)" "\<not> tsq_empty (cf_q ?c)"
    "\<forall>u. u \<noteq> 0 \<longrightarrow> cf_pc ?c u = Idle"
    by (simp_all add: tsq_init_def tsq_ctor_def tsq_empty_def)
qed

theorem timed_pop_swallows_wakeup_witness:
  "\<exists>c t. tsq_reachable True False (c :: nat conf) \<and> waiting_pop (cf_pc c t) \<and> \<not> tsq_empty (cf_q c)"
  using timed_pop_swallows_wakeup by blast

end
