(* ===== verification/SearchlightProtocol.thy ===== *)
theory SearchlightProtocol
  imports Framing
begin

text \<open>
  \<open>src/util/my_light/SearchlightProtocol.cpp\<close>: frames \<open>55 AA cmd len payload xor\<close>, where the low six
  bits of \<open>len\<close> count the command byte, the length byte and the payload, and the top two bits are a
  frame counter. \<open>tryDecode\<close> changes its buffer argument and sets \<open>error\<close>; here it returns the frame
  (\<open>None\<close> for \<open>false\<close>), the error and the buffer. The error texts are constructors.
\<close>

section \<open>Data\<close>

definition kHeader0 :: byte where "kHeader0 = 0x55"

definition kHeader1 :: byte where "kHeader1 = 0xAA"

definition kCmdId :: byte where "kCmdId = 0xDC"

definition kMaxPayloadLength :: nat where "kMaxPayloadLength = 61"

lemmas sl_consts [simp] = kHeader0_def kHeader1_def kCmdId_def kMaxPayloadLength_def

record DecodedFrame =
  df_cmd_id :: byte
  df_length_byte :: byte
  df_body_length :: byte
  df_frame_counter :: byte
  df_payload :: "byte list"
  df_checksum :: byte

datatype decode_error =
    UnknownCmdId
  | BadLength
  | ChecksumMismatch byte byte

section \<open>Encoding and decoding\<close>

fun xor_loop :: "byte \<Rightarrow> byte list \<Rightarrow> byte" where
  "xor_loop acc [] = acc"
| "xor_loop acc (b # bs) = xor_loop (acc XOR b) bs"

definition sl_checksum :: "byte list \<Rightarrow> byte" where
  "sl_checksum frame_without_checksum =
     (if length frame_without_checksum \<le> 3 then 0 else xor_loop 0 (drop 3 frame_without_checksum))"

definition encode :: "byte \<Rightarrow> byte list \<Rightarrow> byte \<Rightarrow> byte list" where
  "encode cmd_id payload frame_counter =
     (if length payload > kMaxPayloadLength then []
      else
        let body_length = of_nat (length payload + 2) :: byte;
            length_byte = (body_length AND 0x3F) OR push_bit 6 (frame_counter AND 0x03);
            frame = [kHeader0, kHeader1, cmd_id, length_byte] @ payload
        in frame @ [sl_checksum frame])"

fun skip_to_header :: "byte list \<Rightarrow> byte list" where
  "skip_to_header (a # b # bs) =
     (if a = kHeader0 \<and> b = kHeader1 then a # b # bs else skip_to_header (b # bs))"
| "skip_to_header buffer = buffer"

definition tryDecode :: "byte list \<Rightarrow> DecodedFrame option \<times> decode_error option \<times> byte list" where
  "tryDecode buffer0 =
     (let buffer = skip_to_header buffer0 in
      if length buffer < 4 then (None, None, buffer)
      else if buffer ! 2 \<noteq> kCmdId then (None, Some UnknownCmdId, [])
      else
        let length_byte = buffer ! 3;
            body_length = length_byte AND 0x3F;
            frame_counter = drop_bit 6 length_byte AND 0x03
        in
        if body_length < 2 \<or> body_length > 63 then (None, Some BadLength, [])
        else
          let payload_length = unat body_length - 2;
              total_length = payload_length + 5
          in
          if length buffer < total_length then (None, None, buffer)
          else
            let candidate = take total_length buffer;
                expected = sl_checksum (butlast candidate);
                actual = last candidate
            in
            if expected \<noteq> actual then (None, Some (ChecksumMismatch expected actual), [])
            else (Some \<lparr>df_cmd_id = candidate ! 2, df_length_byte = length_byte,
                         df_body_length = body_length, df_frame_counter = frame_counter,
                         df_payload = drop 4 (butlast candidate), df_checksum = actual\<rparr>,
                  None, drop total_length buffer))"

section \<open>Hexadecimal text\<close>

definition hex_upper :: string where
  "hex_upper = ''0123456789ABCDEF''"

definition byteToHex :: "byte \<Rightarrow> string" where
  "byteToHex val = [hex_upper ! (unat val div 16), hex_upper ! (unat val mod 16)]"

fun toHex :: "byte list \<Rightarrow> string" where
  "toHex [] = ''''"
| "toHex [b] = byteToHex b"
| "toHex (b # bs) = byteToHex b @ '' '' @ toHex bs"

text \<open>\<open>std::isxdigit\<close> and \<open>std::tolower\<close> on hexadecimal digits, and the value \<open>std::strtol\<close> gives a
  digit; \<open>strtol\<close> of two such digits reads both and stops at the end of the string.\<close>

definition isxdigit :: "char \<Rightarrow> bool" where
  "isxdigit c \<longleftrightarrow> c \<in> set ''0123456789abcdefABCDEF''"

definition tolower :: "char \<Rightarrow> char" where
  "tolower c = (case map_of (zip ''ABCDEF'' ''abcdef'') c of Some d \<Rightarrow> d | None \<Rightarrow> c)"

definition digit_value :: "char \<Rightarrow> nat option" where
  "digit_value c = map_of (zip ''0123456789abcdef'' [0..<16]) c"

fun strtol16 :: "nat \<Rightarrow> string \<Rightarrow> nat \<times> string" where
  "strtol16 acc [] = (acc, [])"
| "strtol16 acc (c # cs) =
     (case digit_value c of Some d \<Rightarrow> strtol16 (16 * acc + d) cs | None \<Rightarrow> (acc, c # cs))"

fun hex_pairs :: "string \<Rightarrow> byte list option" where
  "hex_pairs (c # d # cs) =
     (case strtol16 0 [c, d] of (val, rest) \<Rightarrow>
      if rest \<noteq> [] \<or> val > 255 then None
      else map_option (Cons (of_nat val)) (hex_pairs cs))"
| "hex_pairs _ = Some []"

definition fromHex :: "string \<Rightarrow> byte list option" where
  "fromHex hex_text =
     (let compact = map tolower (filter isxdigit hex_text) in
      if length compact mod 2 \<noteq> 0 then None else hex_pairs compact)"

section \<open>The length byte\<close>

lemma mask_6: "(0x3F :: byte) = mask 6" and mask_2: "(0x03 :: byte) = mask 2"
  by (simp_all add: mask_eq_exp_minus_1)

lemma length_byte_body:
  assumes "m < 64"
  shows "((of_nat m AND 0x3F) OR push_bit 6 (fc AND 0x03)) AND 0x3F = (of_nat m :: byte)"
proof -
  have "take_bit 6 (of_nat m :: byte) = of_nat m"
    using assms by (simp add: take_bit_of_nat take_bit_nat_eq_self)
  then have m: "of_nat m AND mask 6 = (of_nat m :: byte)" by (simp add: take_bit_eq_mask)
  then have b: "bit (of_nat m :: byte) i \<Longrightarrow> i < 6" for i
    by (metis bit_and_iff bit_mask_iff)
  show ?thesis
    unfolding mask_6 mask_2 m by (rule bit_word_eqI) (use b in \<open>auto simp: bit_simps\<close>)
qed

lemma length_byte_counter:
  "drop_bit 6 ((x AND 0x3F) OR push_bit 6 (fc AND 0x03)) AND 0x03 = (fc AND 0x03 :: byte)"
  unfolding mask_6 mask_2 by (rule bit_word_eqI) (auto simp: bit_simps)

lemma length_byte_eq: "((lb AND 0x3F) AND 0x3F) OR push_bit 6 ((drop_bit 6 lb AND 0x03) AND 0x03) = (lb :: byte)"
  unfolding mask_6 mask_2
proof (rule bit_word_eqI)
  fix n assume "n < LENGTH(8)"
  then show "bit (((lb AND mask 6) AND mask 6) OR push_bit 6 ((drop_bit 6 lb AND mask 2) AND mask 2)) n = bit lb n"
    by (cases "n < 6") (auto simp: bit_simps)
qed

lemma unat_body: "unat (lb AND 0x3F :: byte) < 64"
  unfolding mask_6 take_bit_eq_mask [symmetric]
  using take_bit_nat_less_exp [of 6 "unat lb"] by (simp add: unsigned_take_bit_eq)

section \<open>Shape of a decoded buffer\<close>

lemma skip_to_header_suffix: "\<exists>junk. b = junk @ skip_to_header b"
proof (induction b rule: skip_to_header.induct)
  case (1 a b bs)
  show ?case
  proof (cases "a = kHeader0 \<and> b = kHeader1")
    case False
    with 1 obtain junk where "b # bs = junk @ skip_to_header (b # bs)" by blast
    then have "a # b # bs = (a # junk) @ skip_to_header (b # bs)" by simp
    with False show ?thesis by (metis skip_to_header.simps(1))
  qed simp
qed auto

lemma skip_to_header_shape:
  "4 \<le> length (skip_to_header b) \<Longrightarrow> \<exists>c l bs. skip_to_header b = kHeader0 # kHeader1 # c # l # bs"
proof (induction b rule: skip_to_header.induct)
  case (1 a b bs)
  then show ?case by (cases bs; cases "tl bs") (auto split: if_splits)
qed auto

lemma sl_checksum_frame: "sl_checksum (a # b # c # l # p) = xor_loop l p"
  by (simp add: sl_checksum_def)

text \<open>What the decoder does with a buffer that starts with a header, in terms of the list.\<close>

lemma tryDecode_header:
  assumes "skip_to_header b0 = kHeader0 # kHeader1 # c # l # bs"
  shows "tryDecode b0 =
    (if c \<noteq> kCmdId then (None, Some UnknownCmdId, [])
     else if (l AND 0x3F) < 2 then (None, Some BadLength, [])
     else let n = unat (l AND 0x3F) - 2 in
       if length bs < Suc n then (None, None, kHeader0 # kHeader1 # c # l # bs)
       else if xor_loop l (take n bs) \<noteq> bs ! n
       then (None, Some (ChecksumMismatch (xor_loop l (take n bs)) (bs ! n)), [])
       else (Some \<lparr>df_cmd_id = c, df_length_byte = l, df_body_length = l AND 0x3F,
          df_frame_counter = drop_bit 6 l AND 0x03, df_payload = take n bs, df_checksum = bs ! n\<rparr>,
          None, drop (Suc n) bs))"
proof -
  let ?n = "unat (l AND 0x3F) - 2"
  have "\<not> (63 :: byte) < l AND 0x3F"
    using unat_body [of l] by (simp add: word_less_nat_alt)
  moreover have "take (?n + 5) (kHeader0 # kHeader1 # c # l # bs)
      = kHeader0 # kHeader1 # c # l # take ?n bs @ [bs ! ?n]" if "Suc ?n \<le> length bs"
    using that by (simp add: take_Suc_conv_app_nth numeral_eq_Suc)
  moreover have "drop (?n + 5) (kHeader0 # kHeader1 # c # l # bs) = drop (Suc ?n) bs"
    by (simp add: numeral_eq_Suc)
  ultimately show ?thesis
    unfolding tryDecode_def Let_def assms
    by (auto simp: sl_checksum_frame butlast_append not_less simp del: sl_consts take_Suc_Cons)
qed

lemma tryDecode_short:
  "length (skip_to_header b) < 4 \<Longrightarrow> tryDecode b = (None, None, skip_to_header b)"
  by (simp add: tryDecode_def Let_def)

definition sl_image :: "byte list \<times> byte \<Rightarrow> DecodedFrame" where
  "sl_image = (\<lambda>(p, fc).
     let l = (of_nat (length p + 2) AND 0x3F) OR push_bit 6 (fc AND 0x03) in
     \<lparr>df_cmd_id = kCmdId, df_length_byte = l, df_body_length = of_nat (length p + 2),
      df_frame_counter = fc AND 0x03, df_payload = p, df_checksum = xor_loop l p\<rparr>)"

lemma tryDecode_encode:
  assumes "length p \<le> kMaxPayloadLength"
  shows "tryDecode (encode kCmdId p fc @ rest) = (Some (sl_image (p, fc)), None, rest)"
proof -
  define l where "l = (of_nat (length p + 2) AND 0x3F) OR push_bit 6 (fc AND 0x03 :: byte)"
  have b: "l AND 0x3F = of_nat (length p + 2)"
    unfolding l_def using assms by (intro length_byte_body) simp
  have "unat (of_nat k :: byte) = k" if "k < 64" for k
    using that by (simp add: unat_of_nat take_bit_nat_eq_self)
  from this [of "length p + 2"] have u: "unat (l AND 0x3F) = length p + 2"
    unfolding b using assms by (simp del: of_nat_add of_nat_Suc add_2_eq_Suc')
  then have g: "\<not> l AND 0x3F < 2" by (simp add: word_less_nat_alt)
  have c: "drop_bit 6 l AND 0x03 = fc AND 0x03" unfolding l_def by (rule length_byte_counter)
  have e: "encode kCmdId p fc @ rest = kHeader0 # kHeader1 # kCmdId # l # p @ [xor_loop l p] @ rest"
    using assms by (simp add: encode_def Let_def l_def sl_checksum_frame del: sl_consts)
  have h: "skip_to_header (encode kCmdId p fc @ rest) = kHeader0 # kHeader1 # kCmdId # l # p @ [xor_loop l p] @ rest"
    unfolding e by simp
  have i: "sl_image (p, fc) = \<lparr>df_cmd_id = kCmdId, df_length_byte = l, df_body_length = of_nat (length p + 2),
      df_frame_counter = fc AND 0x03, df_payload = p, df_checksum = xor_loop l p\<rparr>"
    by (simp only: sl_image_def l_def Let_def prod.case)
  show ?thesis
    unfolding tryDecode_header [OF h] u Let_def i using g c b
    by (simp add: nth_append)
qed

lemma tryDecode_Some:
  assumes "tryDecode b = (Some f, e, r)"
  shows "\<exists>junk. b = junk @ encode (df_cmd_id f) (df_payload f) (df_frame_counter f) @ r \<and>
    df_cmd_id f = kCmdId \<and> length (df_payload f) \<le> kMaxPayloadLength \<and> e = None"
proof -
  have l4: "4 \<le> length (skip_to_header b)"
    using assms tryDecode_short [of b] by (cases "length (skip_to_header b) < 4") auto
  then obtain c l bs where h: "skip_to_header b = kHeader0 # kHeader1 # c # l # bs"
    using skip_to_header_shape by blast
  define n where "n = unat (l AND 0x3F) - 2"
  have n: "n \<le> 61" "n + 2 = unat (l AND 0x3F) \<or> l AND 0x3F < 2"
    using unat_body [of l] by (auto simp: n_def word_less_nat_alt)
  from assms [unfolded tryDecode_header [OF h] Let_def n_def [symmetric]]
  have d: "c = kCmdId" "\<not> l AND 0x3F < 2" "Suc n \<le> length bs" "xor_loop l (take n bs) = bs ! n"
    "f = \<lparr>df_cmd_id = c, df_length_byte = l, df_body_length = l AND 0x3F,
      df_frame_counter = drop_bit 6 l AND 0x03, df_payload = take n bs, df_checksum = bs ! n\<rparr>"
    "e = None" "r = drop (Suc n) bs"
    by (auto simp del: sl_consts split: if_splits)
  have lp: "length (take n bs) = n" using d(3) by simp
  have "of_nat (n + 2) = l AND 0x3F"
    using n(2) d(2) by (metis of_nat_unat ucast_id)
  then have "(of_nat (n + 2) AND 0x3F) OR push_bit 6 ((drop_bit 6 l AND 0x03) AND 0x03) = l"
    using length_byte_eq [of l] by simp
  then have "encode c (take n bs) (drop_bit 6 l AND 0x03) = kHeader0 # kHeader1 # c # l # take n bs @ [bs ! n]"
    using n(1) d(4) lp by (simp add: encode_def Let_def sl_checksum_frame)
  moreover have "bs = take n bs @ bs ! n # drop (Suc n) bs"
    using d(3) by (intro id_take_nth_drop) simp
  ultimately have "skip_to_header b = encode (df_cmd_id f) (df_payload f) (df_frame_counter f) @ r"
    unfolding h d(5,7) by simp
  moreover obtain junk where "b = junk @ skip_to_header b" using skip_to_header_suffix by blast
  ultimately have "b = junk @ encode (df_cmd_id f) (df_payload f) (df_frame_counter f) @ r" by simp
  then show ?thesis using d lp n(1) by auto
qed

lemma length_encode: "length p \<le> kMaxPayloadLength \<Longrightarrow> length (encode c p fc) = length p + 5"
  by (simp add: encode_def Let_def)

lemma tryDecode_shrinks: "tryDecode b = (Some f, e, r) \<Longrightarrow> length r < length b"
  using tryDecode_Some [of b f e r] length_encode [of "df_payload f"] by fastforce

lemma tryDecode_None:
  assumes "tryDecode b = (None, e, r)"
  shows "length r < 66" "e \<noteq> None \<Longrightarrow> r = []"
proof -
  have "length r < 66 \<and> (e \<noteq> None \<longrightarrow> r = [])"
  proof (cases "length (skip_to_header b) < 4")
    case True
    with assms tryDecode_short show ?thesis by auto
  next
    case False
    then obtain c l bs where h: "skip_to_header b = kHeader0 # kHeader1 # c # l # bs"
      using skip_to_header_shape [of b] by (auto simp: not_less)
    show ?thesis
      using assms unat_body [of l] unfolding tryDecode_header [OF h] Let_def
      by (auto split: if_splits)
  qed
  then show "length r < 66" "e \<noteq> None \<Longrightarrow> r = []" by simp_all
qed

text \<open>
  The inner loop of \<open>Searchlight::readSerialLoop\<close> on one buffer: the frames decoded, the error of the
  last attempt and the buffer left.
\<close>

function decode_all :: "byte list \<Rightarrow> DecodedFrame list \<times> decode_error option \<times> byte list" where
  "decode_all buffer =
     (case tryDecode buffer of
        (None, e, r) \<Rightarrow> ([], e, r)
      | (Some f, e, r) \<Rightarrow> (case decode_all r of (fs, e', r') \<Rightarrow> (f # fs, e', r')))"
  by pat_completeness auto
termination
  by (relation "measure length") (auto dest: tryDecode_shrinks [OF sym])

declare decode_all.simps [simp del]

definition sl_pop :: "byte list \<Rightarrow> DecodedFrame option \<times> byte list" where
  "sl_pop b = (case tryDecode b of (f, e, r) \<Rightarrow> (f, r))"

definition sl_drain :: "byte list \<Rightarrow> DecodedFrame list \<times> byte list" where
  "sl_drain b = (case decode_all b of (fs, e, r) \<Rightarrow> (fs, r))"

interpretation sl: frame_codec sl_pop sl_drain "\<lambda>(p, fc). encode kCmdId p fc" sl_image
  "\<lambda>(p, fc). length p \<le> kMaxPayloadLength"
proof
  fix b :: "byte list" and r rest f and m :: "byte list \<times> byte"
  show "sl_pop b = (Some f, r) \<Longrightarrow> length r < length b"
    using tryDecode_shrinks [of b f] by (auto simp: sl_pop_def split: prod.splits)
  show "sl_drain b = (case sl_pop b of (None, r) \<Rightarrow> ([], r)
      | (Some f, r) \<Rightarrow> (case sl_drain r of (fs, r') \<Rightarrow> (f # fs, r')))"
    unfolding sl_drain_def sl_pop_def
    by (subst decode_all.simps) (auto split: prod.splits option.splits)
  show "case m of (p, fc) \<Rightarrow> length p \<le> kMaxPayloadLength \<Longrightarrow>
      sl_pop ((case m of (p, fc) \<Rightarrow> encode kCmdId p fc) @ rest) = (Some (sl_image m), rest)"
    by (cases m) (simp add: sl_pop_def tryDecode_encode del: sl_consts)
qed

section \<open>Hexadecimal text\<close>

lemma hex_upper_digit:
  assumes "n < 16"
  shows "isxdigit (hex_upper ! n)" "digit_value (tolower (hex_upper ! n)) = Some n"
proof -
  have "list_all (\<lambda>n. isxdigit (hex_upper ! n) \<and> digit_value (tolower (hex_upper ! n)) = Some n) [0..<16]"
    by code_simp
  then show "isxdigit (hex_upper ! n)" "digit_value (tolower (hex_upper ! n)) = Some n"
    using assms by (auto simp: list_all_iff)
qed

lemma byteToHex_digits:
  "filter isxdigit (byteToHex b) = byteToHex b"
  "strtol16 0 (map tolower (byteToHex b)) = (unat b, [])"
  using unat_byte_less [of b] by (simp_all add: byteToHex_def hex_upper_digit)

lemma space_no_digit: "\<not> isxdigit CHR '' ''"
  by (simp add: isxdigit_def)

lemma hex_compact:
  "map tolower (filter isxdigit (toHex bs)) = concat (map (\<lambda>b. map tolower (byteToHex b)) bs)"
  by (induction bs rule: toHex.induct) (simp_all add: byteToHex_digits space_no_digit)

lemma hex_pairs_bytes: "hex_pairs (concat (map (\<lambda>b. map tolower (byteToHex b)) bs)) = Some bs"
proof (induction bs)
  case (Cons b bs)
  obtain c d where cd: "map tolower (byteToHex b) = [c, d]" by (simp add: byteToHex_def)
  with byteToHex_digits(2) [of b] have "strtol16 0 [c, d] = (unat b, [])" by metis
  with cd Cons unat_byte_less [of b] show ?case by (simp del: strtol16.simps)
qed simp

lemma even_hex: "even (length (concat (map (\<lambda>b. map tolower (byteToHex b)) bs)))"
  by (induction bs) (simp_all add: byteToHex_def)

section \<open>Properties\<close>

text \<open>a searchlight frame built from a payload of at most 61 bytes is decoded to its payload, its
  command and the low two bits of the counter, without an error, and the bytes behind it stay; a
  longer payload is refused with an empty frame.\<close>

theorem searchlight_roundtrip:
  "(length payload \<le> 61 \<longrightarrow> (\<exists>f. tryDecode (encode kCmdId payload counter @ rest) = (Some f, None, rest) \<and>
      df_cmd_id f = kCmdId \<and> df_payload f = payload \<and> df_frame_counter f = counter AND 0x03)) \<and>
   (61 < length payload \<longrightarrow> encode kCmdId payload counter = [])"
  using tryDecode_encode [of payload counter rest] by (auto simp: sl_image_def Let_def encode_def)

theorem searchlight_roundtrip_witness:
  "\<exists>f. tryDecode (encode kCmdId [0x2C, 0x74, 0x0A, 50] 6 @ [1]) = (Some f, None, [1]) \<and>
     df_payload f = [0x2C, 0x74, 0x0A, 50] \<and> df_frame_counter f = 2"
  using searchlight_roundtrip [of "[0x2C, 0x74, 0x0A, 50]" 6 "[1]"] by auto

text \<open>every frame the searchlight decoder reports is, byte for byte, the encoding of its command,
  payload and counter inside the receive buffer; the bytes before it are dropped, those behind it
  kept.\<close>

theorem searchlight_decode_sound:
  assumes "tryDecode b = (Some f, e, r)"
  shows "\<exists>junk. b = junk @ encode (df_cmd_id f) (df_payload f) (df_frame_counter f) @ r \<and>
    df_cmd_id f = kCmdId \<and> length (df_payload f) \<le> 61 \<and> e = None"
  using tryDecode_Some [OF assms] unfolding kMaxPayloadLength_def .

theorem searchlight_decode_sound_witness:
  "\<exists>(f :: DecodedFrame) junk. [9, 0x55, 0xAA, 0xDC, 0x44, 1, 2, 0x47] = junk @ encode (df_cmd_id f) (df_payload f) (df_frame_counter f) @ []"
proof -
  have e: "[9, 0x55, 0xAA, 0xDC, 0x44, 1, 2, 0x47] = [9] @ encode kCmdId [1, 2] 1 @ []"
    by (simp add: encode_def Let_def sl_checksum_frame)
  have "skip_to_header ([9] @ encode kCmdId [1, 2] 1 @ []) = skip_to_header (encode kCmdId [1, 2] 1 @ [])"
    by (simp add: encode_def Let_def)
  then have "tryDecode ([9] @ encode kCmdId [1, 2] 1 @ []) = tryDecode (encode kCmdId [1, 2] 1 @ [])"
    by (simp add: tryDecode_def)
  then have "tryDecode [9, 0x55, 0xAA, 0xDC, 0x44, 1, 2, 0x47] = (Some (sl_image ([1, 2], 1)), None, [])"
    unfolding e using tryDecode_encode [of "[1, 2]" 1 "[]"] by simp
  from searchlight_decode_sound [OF this] show ?thesis by blast
qed

text \<open>the receive buffer stays small and an error leaves nothing behind: a decode that reports no
  frame keeps fewer than 66 bytes, and when it reports an error the buffer is empty, so the frames
  behind a damaged one are dropped with it.\<close>

theorem searchlight_buffer_bounded:
  assumes "tryDecode b = (None, e, r)"
  shows "length r < 66 \<and> (e \<noteq> None \<longrightarrow> r = [])"
  using tryDecode_None [OF assms] by simp

theorem searchlight_buffer_bounded_witness:
  "tryDecode ([0x55, 0xAA, 0x01, 0x02] @ encode kCmdId [1] 0) = (None, Some UnknownCmdId, []) \<and> length ([] :: byte list) < 66"
proof -
  have "tryDecode ([0x55, 0xAA, 0x01, 0x02] @ encode kCmdId [1] 0) = (None, Some UnknownCmdId, [])"
    by (simp add: tryDecode_def Let_def)
  with searchlight_buffer_bounded [OF this] show ?thesis by simp
qed

text \<open>the hexadecimal dump of any byte string is read back to the same bytes.\<close>

theorem hex_roundtrip: "fromHex (toHex bytes) = Some bytes"
  using even_hex [of bytes] hex_pairs_bytes [of bytes]
  by (simp add: fromHex_def hex_compact Let_def even_iff_mod_2_eq_zero)

end
