(* ===== verification/SearchlightCommands.thy ===== *)
theory SearchlightCommands
  imports SearchlightProtocol ByteCodec
begin

text \<open>
  \<open>SearchlightCommandBuilder.cpp\<close>, \<open>SearchlightLedController.cpp\<close>, \<open>SearchlightServoController.cpp\<close> and
  \<open>SearchlightState.cpp\<close> of \<open>src/util/my_light\<close>: the frames of the commands, the range checks of the
  controllers, and the device state kept from the frames that arrive. The builder's only member is
  its frame counter; the controllers share one builder. The texts of commands and errors are
  constructors; the clock is an argument.
\<close>

section \<open>Command builder\<close>

definition clamp :: "int \<Rightarrow> int \<Rightarrow> int \<Rightarrow> int" where
  "clamp val min_value max_value =
     (if val < min_value then min_value else if val > max_value then max_value else val)"

definition appendBigEndianInt16 :: "byte list \<Rightarrow> int \<Rightarrow> byte list" where
  "appendBigEndianInt16 payload val =
     (let safe = clamp val (-32768) 32767;
          raw = of_int safe :: u16
      in payload @ [byte_at raw 1, byte_at raw 0])"

definition makeLedPayload :: "byte \<Rightarrow> byte \<Rightarrow> byte list" where
  "makeLedPayload op val = [0x2C, 0x74, op, val]"

text \<open>\<open>while (payload.size() < 15) payload.push_back(0x00);\<close>\<close>

definition pad15 :: "byte list \<Rightarrow> byte list" where
  "pad15 payload = payload @ replicate (15 - length payload) 0"

definition makeFrame :: "byte list \<Rightarrow> byte \<Rightarrow> byte list \<times> byte" where
  "makeFrame payload frame_counter =
     (encode kCmdId payload frame_counter, (frame_counter + 1) AND 0x03)"

definition makeLedOn :: "byte \<Rightarrow> byte list \<times> byte" where
  "makeLedOn = makeFrame (makeLedPayload 0x01 0x00)"

definition makeLedOff :: "byte \<Rightarrow> byte list \<times> byte" where
  "makeLedOff = makeFrame (makeLedPayload 0x02 0x00)"

definition makeBrightness :: "int \<Rightarrow> byte \<Rightarrow> byte list \<times> byte" where
  "makeBrightness level = makeFrame (makeLedPayload 0x0A (of_int (clamp level 0 100)))"

definition makeFlashEnable :: "byte \<Rightarrow> byte list \<times> byte" where
  "makeFlashEnable = makeFrame (makeLedPayload 0x09 0x00)"

definition makeFlashDisable :: "byte \<Rightarrow> byte list \<times> byte" where
  "makeFlashDisable = makeFrame (makeLedPayload 0x00 0x00)"

definition makeFlashHz :: "int \<Rightarrow> byte \<Rightarrow> byte list \<times> byte" where
  "makeFlashHz hz = makeFrame (makeLedPayload 0x0B (of_int (clamp hz 1 50)))"

definition makeServoHome :: "byte \<Rightarrow> byte list \<times> byte" where
  "makeServoHome = makeFrame (pad15 [0x30, 0x04])"

definition makeServoMoveTo :: "int \<Rightarrow> int \<Rightarrow> byte \<Rightarrow> byte list \<times> byte" where
  "makeServoMoveTo x_degree y_degree =
     (let unit_per_degree = 182;
          x_raw = clamp x_degree (-180) 180 * unit_per_degree;
          y_raw = - clamp y_degree (-180) 180 * unit_per_degree;
          payload = [0x30, 0x0B];
          payload = appendBigEndianInt16 payload x_raw;
          payload = appendBigEndianInt16 payload y_raw
      in makeFrame (pad15 payload))"

section \<open>LED and servo controllers\<close>

text \<open>\<open>bool build...(frame)\<close>: \<open>None\<close> for \<open>false\<close>, and the builder's counter afterwards.\<close>

definition built :: "byte list \<times> byte \<Rightarrow> byte list option \<times> byte" where
  "built r = (case r of (frame, fc) \<Rightarrow> (if frame \<noteq> [] then Some frame else None, fc))"

definition buildOpenLed :: "byte \<Rightarrow> byte list option \<times> byte" where
  "buildOpenLed fc = built (makeLedOn fc)"

definition buildCloseLed :: "byte \<Rightarrow> byte list option \<times> byte" where
  "buildCloseLed fc = built (makeLedOff fc)"

definition buildLightLevel :: "int \<Rightarrow> byte \<Rightarrow> byte list option \<times> byte" where
  "buildLightLevel level fc =
     (if level < 0 \<or> level > 100 then (None, fc) else built (makeBrightness level fc))"

definition buildOpenFlash :: "byte \<Rightarrow> byte list option \<times> byte" where
  "buildOpenFlash fc = built (makeFlashEnable fc)"

definition buildCloseFlash :: "byte \<Rightarrow> byte list option \<times> byte" where
  "buildCloseFlash fc = built (makeFlashDisable fc)"

definition buildFlashHz :: "int \<Rightarrow> byte \<Rightarrow> byte list option \<times> byte" where
  "buildFlashHz hz fc = (if hz \<le> 0 \<or> hz > 50 then (None, fc) else built (makeFlashHz hz fc))"

definition buildHome :: "byte \<Rightarrow> byte list option \<times> byte" where
  "buildHome fc = built (makeServoHome fc)"

definition buildMoveTo :: "int \<Rightarrow> int \<Rightarrow> byte \<Rightarrow> byte list option \<times> byte" where
  "buildMoveTo x_degree y_degree fc =
     (if x_degree < -180 \<or> x_degree > 180 \<or> y_degree < -180 \<or> y_degree > 180 then (None, fc)
      else built (makeServoMoveTo x_degree y_degree fc))"

section \<open>Device state\<close>

datatype DevicePresence = PresenceUnknown | NoDevice | Online

datatype LedPowerState = LedUnknown | LedOff | LedOn

datatype FlashState = FlashUnknown | FlashDisabled | FlashEnabled

datatype light_command =
    NoCommand
  | CmdLightLevel int
  | CmdFlashHz int
  | CmdOpenFlash
  | CmdCloseFlash
  | CmdHome
  | CmdMoveTo int int
  | CmdOpenLed
  | CmdCloseLed

datatype sl_reason =
    NoError
  | BaudRateIllegal
  | OpenFailed
  | SerialIoError
  | InitTimeout
  | NeverSeen
  | OfflineFor int
  | DecodeFailed decode_error
  | CommandFailed light_command string

record SearchlightState =
  ss_presence :: DevicePresence
  ss_led :: LedPowerState
  ss_flash :: FlashState
  ss_brightness :: int
  ss_flash_hz :: int
  ss_servo_x_degree :: int
  ss_servo_y_degree :: int
  ss_last_frame_counter :: byte
  ss_last_cmd_id :: byte
  ss_last_payload_hex :: string
  ss_last_error :: sl_reason
  ss_rx_frame_count :: u64
  ss_checksum_error_count :: u64
  ss_last_seen_ms :: int
  ss_last_queued_command :: light_command
  ss_last_sent_command :: light_command

definition SearchlightState_init :: SearchlightState where
  "SearchlightState_init = \<lparr>ss_presence = PresenceUnknown, ss_led = LedUnknown, ss_flash = FlashUnknown,
     ss_brightness = -1, ss_flash_hz = -1, ss_servo_x_degree = 0, ss_servo_y_degree = 0,
     ss_last_frame_counter = 0, ss_last_cmd_id = 0, ss_last_payload_hex = '''', ss_last_error = NoError,
     ss_rx_frame_count = 0, ss_checksum_error_count = 0, ss_last_seen_ms = 0,
     ss_last_queued_command = NoCommand, ss_last_sent_command = NoCommand\<rparr>"

definition markNoDevice :: "sl_reason \<Rightarrow> SearchlightState \<Rightarrow> SearchlightState" where
  "markNoDevice reason s = s\<lparr>ss_presence := NoDevice, ss_last_error := reason\<rparr>"

definition readBigEndianInt16 :: "byte \<Rightarrow> byte \<Rightarrow> i16" where
  "readBigEndianInt16 high low = shl_byte 8 high OR shl_byte 0 low"

definition applyLed :: "byte \<Rightarrow> int \<Rightarrow> SearchlightState \<Rightarrow> SearchlightState" where
  "applyLed op val s =
     (if op = 0x00 then s\<lparr>ss_flash := FlashDisabled\<rparr>
      else if op = 0x01 then s\<lparr>ss_led := LedOn, ss_flash := FlashDisabled\<rparr>
      else if op = 0x02 then s\<lparr>ss_led := LedOff, ss_flash := FlashDisabled\<rparr>
      else if op = 0x09 then s\<lparr>ss_led := LedOn, ss_flash := FlashEnabled\<rparr>
      else if op = 0x0A then s\<lparr>ss_brightness := val, ss_led := LedOn\<rparr>
      else if op = 0x0B then s\<lparr>ss_flash_hz := val\<rparr>
      else s)"

definition applyPayload :: "DecodedFrame \<Rightarrow> SearchlightState \<Rightarrow> SearchlightState" where
  "applyPayload frame s =
     (let payload = df_payload frame in
      if length payload \<ge> 4 \<and> payload ! 0 = 0x2C \<and> payload ! 1 = 0x74
      then applyLed (payload ! 2) (uint (payload ! 3)) s
      else if length payload \<ge> 2 \<and> payload ! 0 = 0x30 then
        (let op = payload ! 1 in
         if op = 0x04 then s\<lparr>ss_servo_x_degree := 0, ss_servo_y_degree := 0\<rparr>
         else if op = 0x0B \<and> length payload \<ge> 6 then
           (let x_raw = sint (readBigEndianInt16 (payload ! 2) (payload ! 3));
                y_raw = sint (readBigEndianInt16 (payload ! 4) (payload ! 5))
            in s\<lparr>ss_servo_x_degree := cdiv x_raw 182, ss_servo_y_degree := cdiv (- y_raw) 182\<rparr>)
         else s)
      else s)"

definition markOnlineByFrame :: "int \<Rightarrow> DecodedFrame \<Rightarrow> SearchlightState \<Rightarrow> SearchlightState" where
  "markOnlineByFrame nowMs frame s =
     applyPayload frame
       (s\<lparr>ss_presence := Online, ss_last_seen_ms := nowMs,
          ss_last_frame_counter := df_frame_counter frame, ss_last_cmd_id := df_cmd_id frame,
          ss_last_payload_hex := toHex (df_payload frame), ss_last_error := NoError,
          ss_rx_frame_count := ss_rx_frame_count s + 1\<rparr>)"

definition markChecksumError :: "decode_error \<Rightarrow> SearchlightState \<Rightarrow> SearchlightState" where
  "markChecksumError error s =
     s\<lparr>ss_last_error := DecodeFailed error, ss_checksum_error_count := ss_checksum_error_count s + 1\<rparr>"

definition markCommandQueued :: "light_command \<Rightarrow> SearchlightState \<Rightarrow> SearchlightState" where
  "markCommandQueued command s = s\<lparr>ss_last_queued_command := command\<rparr>"

definition markCommandSent :: "light_command \<Rightarrow> SearchlightState \<Rightarrow> SearchlightState" where
  "markCommandSent command s = s\<lparr>ss_last_sent_command := command\<rparr>"

definition markCommandFailed :: "light_command \<Rightarrow> string \<Rightarrow> SearchlightState \<Rightarrow> SearchlightState" where
  "markCommandFailed command reason s = s\<lparr>ss_last_error := CommandFailed command reason\<rparr>"

definition isOnline :: "int \<Rightarrow> int \<Rightarrow> SearchlightState \<Rightarrow> bool \<times> SearchlightState" where
  "isOnline nowMs offline_timeout_ms s =
     (if ss_presence s \<noteq> Online then (False, s)
      else if ss_last_seen_ms s \<le> 0 then
        (False, s\<lparr>ss_presence := NoDevice, ss_last_error := NeverSeen\<rparr>)
      else if nowMs - ss_last_seen_ms s > offline_timeout_ms then
        (False, s\<lparr>ss_presence := NoDevice, ss_last_error := OfflineFor offline_timeout_ms\<rparr>)
      else (True, s))"

record SearchlightStatusSnapshot =
  sn_presence :: DevicePresence
  sn_led :: LedPowerState
  sn_flash :: FlashState
  sn_brightness :: int
  sn_flash_hz :: int
  sn_servo_x_degree :: int
  sn_servo_y_degree :: int
  sn_last_frame_counter :: byte
  sn_last_cmd_id :: byte
  sn_last_payload_hex :: string
  sn_last_error :: sl_reason
  sn_rx_frame_count :: u64
  sn_checksum_error_count :: u64
  sn_last_seen_ms :: int

definition sl_snapshot :: "SearchlightState \<Rightarrow> SearchlightStatusSnapshot" where
  "sl_snapshot s = \<lparr>sn_presence = ss_presence s, sn_led = ss_led s, sn_flash = ss_flash s,
     sn_brightness = ss_brightness s, sn_flash_hz = ss_flash_hz s,
     sn_servo_x_degree = ss_servo_x_degree s, sn_servo_y_degree = ss_servo_y_degree s,
     sn_last_frame_counter = ss_last_frame_counter s, sn_last_cmd_id = ss_last_cmd_id s,
     sn_last_payload_hex = ss_last_payload_hex s, sn_last_error = ss_last_error s,
     sn_rx_frame_count = ss_rx_frame_count s, sn_checksum_error_count = ss_checksum_error_count s,
     sn_last_seen_ms = ss_last_seen_ms s\<rparr>"

section \<open>What a command means\<close>

fun command_frame :: "light_command \<Rightarrow> byte \<Rightarrow> byte list option \<times> byte" where
  "command_frame NoCommand fc = (None, fc)"
| "command_frame (CmdLightLevel level) fc = buildLightLevel level fc"
| "command_frame (CmdFlashHz hz) fc = buildFlashHz hz fc"
| "command_frame CmdOpenFlash fc = buildOpenFlash fc"
| "command_frame CmdCloseFlash fc = buildCloseFlash fc"
| "command_frame CmdHome fc = buildHome fc"
| "command_frame (CmdMoveTo x y) fc = buildMoveTo x y fc"
| "command_frame CmdOpenLed fc = buildOpenLed fc"
| "command_frame CmdCloseLed fc = buildCloseLed fc"

fun command_valid :: "light_command \<Rightarrow> bool" where
  "command_valid NoCommand = False"
| "command_valid (CmdLightLevel level) = (0 \<le> level \<and> level \<le> 100)"
| "command_valid (CmdFlashHz hz) = (1 \<le> hz \<and> hz \<le> 50)"
| "command_valid (CmdMoveTo x y) = (-180 \<le> x \<and> x \<le> 180 \<and> -180 \<le> y \<and> y \<le> 180)"
| "command_valid _ = True"

fun command_effect :: "light_command \<Rightarrow> SearchlightState \<Rightarrow> SearchlightState" where
  "command_effect NoCommand s = s"
| "command_effect (CmdLightLevel level) s = s\<lparr>ss_brightness := level, ss_led := LedOn\<rparr>"
| "command_effect (CmdFlashHz hz) s = s\<lparr>ss_flash_hz := hz\<rparr>"
| "command_effect CmdOpenFlash s = s\<lparr>ss_led := LedOn, ss_flash := FlashEnabled\<rparr>"
| "command_effect CmdCloseFlash s = s\<lparr>ss_flash := FlashDisabled\<rparr>"
| "command_effect CmdHome s = s\<lparr>ss_servo_x_degree := 0, ss_servo_y_degree := 0\<rparr>"
| "command_effect (CmdMoveTo x y) s = s\<lparr>ss_servo_x_degree := x, ss_servo_y_degree := y\<rparr>"
| "command_effect CmdOpenLed s = s\<lparr>ss_led := LedOn, ss_flash := FlashDisabled\<rparr>"
| "command_effect CmdCloseLed s = s\<lparr>ss_led := LedOff, ss_flash := FlashDisabled\<rparr>"

fun command_payload :: "light_command \<Rightarrow> byte list" where
  "command_payload NoCommand = []"
| "command_payload (CmdLightLevel level) = makeLedPayload 0x0A (of_int level)"
| "command_payload (CmdFlashHz hz) = makeLedPayload 0x0B (of_int hz)"
| "command_payload CmdOpenFlash = makeLedPayload 0x09 0"
| "command_payload CmdCloseFlash = makeLedPayload 0x00 0"
| "command_payload CmdHome = pad15 [0x30, 0x04]"
| "command_payload (CmdMoveTo x y) =
     pad15 [0x30, 0x0B, byte_at (of_int (x * 182) :: u16) 1, byte_at (of_int (x * 182) :: u16) 0,
            byte_at (of_int (- y * 182) :: u16) 1, byte_at (of_int (- y * 182) :: u16) 0]"
| "command_payload CmdOpenLed = makeLedPayload 0x01 0"
| "command_payload CmdCloseLed = makeLedPayload 0x02 0"

lemma clamp_id [simp]: "lo \<le> v \<Longrightarrow> v \<le> hi \<Longrightarrow> clamp v lo hi = v"
  by (simp add: clamp_def)

lemma clamp_bounds: "lo \<le> hi \<Longrightarrow> lo \<le> clamp v lo hi \<and> clamp v lo hi \<le> hi"
  by (simp add: clamp_def)

lemma length_command_payload: "length (command_payload c) \<le> 15"
  by (cases c) (simp_all add: makeLedPayload_def pad15_def)

lemma built_makeFrame:
  "length p \<le> 61 \<Longrightarrow> built (makeFrame p fc) = (Some (encode kCmdId p fc), (fc + 1) AND 0x03)"
  by (auto simp: built_def makeFrame_def encode_def Let_def)

lemmas make_defs = makeLedOn_def makeLedOff_def makeBrightness_def makeFlashEnable_def
  makeFlashDisable_def makeFlashHz_def makeServoHome_def makeServoMoveTo_def

lemmas build_defs = buildOpenLed_def buildCloseLed_def buildLightLevel_def buildOpenFlash_def
  buildCloseFlash_def buildFlashHz_def buildHome_def buildMoveTo_def

lemma command_frame_payload:
  "command_valid c \<Longrightarrow> command_frame c fc = built (makeFrame (command_payload c) fc)"
  by (cases c) (simp_all add: build_defs make_defs appendBigEndianInt16_def Let_def)

lemma command_frame_valid:
  assumes "command_valid c"
  shows "command_frame c fc = (Some (encode kCmdId (command_payload c) fc), (fc + 1) AND 0x03)"
  using command_frame_payload [OF assms] built_makeFrame length_command_payload [of c] by simp

lemma command_frame_invalid: "\<not> command_valid c \<Longrightarrow> command_frame c fc = (None, fc)"
  by (cases c) (auto simp: buildLightLevel_def buildFlashHz_def buildMoveTo_def)

lemma readBigEndianInt16_of_int:
  assumes "-32768 \<le> v" "v \<le> 32767"
  shows "sint (readBigEndianInt16 (byte_at (of_int v :: u16) 1) (byte_at (of_int v :: u16) 0)) = v"
proof -
  have "readBigEndianInt16 (byte_at (of_int v :: u16) 1) (byte_at (of_int v :: u16) 0) = of_int v"
    unfolding readBigEndianInt16_def by (rule join_bytes_be(1))
  then show ?thesis using assms by (simp add: signed_of_int signed_take_bit_int_eq_self)
qed

lemma uint_of_int_byte: "0 \<le> v \<Longrightarrow> v \<le> 100 \<Longrightarrow> uint (of_int v :: byte) = v"
  by (simp add: unsigned_of_int take_bit_int_eq_self)

lemma applyPayload_command:
  assumes "command_valid c" "df_payload f = command_payload c"
  shows "applyPayload f s = command_effect c s"
proof (cases c)
  case (CmdMoveTo x y)
  have b: "- 32768 \<le> x * 182" "x * 182 \<le> 32767" "- 32768 \<le> - y * 182" "- y * 182 \<le> 32767"
    using assms(1) CmdMoveTo by simp_all
  have y: "cdiv (- (- y * 182)) 182 = y" using cdiv_mult [of 182 y] by simp
  from CmdMoveTo assms(2) show ?thesis
    using readBigEndianInt16_of_int [OF b(1,2)] readBigEndianInt16_of_int [OF b(3,4)] y
    by (simp add: applyPayload_def pad15_def Let_def)
qed (use assms in \<open>simp_all add: applyPayload_def makeLedPayload_def applyLed_def pad15_def Let_def uint_of_int_byte\<close>)

section \<open>Properties\<close>

text \<open>a command is refused, and the frame counter kept, exactly when its parameter is out of range;
  otherwise one frame is built and the counter moves on modulo 4. When the device echoes that frame,
  the decoder accepts it and the recorded state changes to exactly what was commanded: brightness,
  flash frequency, lamp, flash mode and servo angles, to the degree.\<close>

theorem command_echo_sets_state:
  "(\<not> command_valid c \<longrightarrow> command_frame c fc = (None, fc)) \<and>
   (command_valid c \<longrightarrow> (\<exists>frame f. command_frame c fc = (Some frame, (fc + 1) AND 0x03) \<and>
      tryDecode (frame @ rest) = (Some f, None, rest) \<and> df_frame_counter f = fc AND 0x03 \<and>
      applyPayload f s = command_effect c s))"
proof (intro conjI impI)
  assume v: "command_valid c"
  have "length (command_payload c) \<le> kMaxPayloadLength" using length_command_payload [of c] by simp
  from tryDecode_encode [OF this, of fc rest] show "\<exists>frame f. command_frame c fc = (Some frame, (fc + 1) AND 0x03) \<and>
      tryDecode (frame @ rest) = (Some f, None, rest) \<and> df_frame_counter f = fc AND 0x03 \<and>
      applyPayload f s = command_effect c s"
    using command_frame_valid [OF v] applyPayload_command [OF v, of "sl_image (command_payload c, fc)" s]
    by (intro exI [of _ "encode kCmdId (command_payload c) fc"] exI [of _ "sl_image (command_payload c, fc)"])
      (simp add: sl_image_def Let_def)
qed (rule command_frame_invalid)

theorem command_echo_sets_state_witness:
  "\<exists>frame f. command_frame (CmdMoveTo 30 (-45)) 3 = (Some frame, 0) \<and>
     tryDecode (frame @ []) = (Some f, None, []) \<and>
     ss_servo_y_degree (applyPayload f SearchlightState_init) = -45"
  using command_echo_sets_state [of "CmdMoveTo 30 (-45)" 3 "[]" SearchlightState_init] by auto

text \<open>the on-line test answers \<open>true\<close> exactly when a frame was seen within the time-out; whenever it
  answers \<open>false\<close> the device is not marked on-line afterwards, and a received frame makes it on-line.\<close>

theorem online_iff_recent_frame:
  "(fst (isOnline now timeout s) \<longleftrightarrow> ss_presence s = Online \<and> 0 < ss_last_seen_ms s \<and>
      now - ss_last_seen_ms s \<le> timeout) \<and>
   (if fst (isOnline now timeout s) then snd (isOnline now timeout s) = s
    else ss_presence (snd (isOnline now timeout s)) \<noteq> Online) \<and>
   (fst (isOnline now timeout (markOnlineByFrame seen f s)) \<longleftrightarrow> 0 < seen \<and> now - seen \<le> timeout)"
proof -
  have "ss_presence (applyPayload f t) = ss_presence t \<and> ss_last_seen_ms (applyPayload f t) = ss_last_seen_ms t" for t
    by (simp add: applyPayload_def applyLed_def Let_def)
  then show ?thesis by (auto simp: isOnline_def markOnlineByFrame_def)
qed

end
