(* ===== verification/SearchlightDevice.thy ===== *)
theory SearchlightDevice
  imports SearchlightCommands
begin

text \<open>
  \<open>SerialPort.cpp\<close>, \<open>SearchlightConfig\<close>, \<open>Searchlight.cpp\<close> and \<open>SearchlightManager.cpp\<close> of
  \<open>src/util/my_light\<close>. The answers of the operating system (\<open>open\<close>, \<open>tcgetattr\<close>, \<open>tcsetattr\<close>,
  \<open>select\<close>, \<open>read\<close>, \<open>write\<close>) and the clock are arguments. The two threads are modelled by what one
  round of their loops does to the shared object; \<open>running_\<close> is taken as it is at the start of the
  round. The receive buffer is a local of the read thread and is kept with the object.
\<close>

section \<open>Serial port\<close>

record SerialPort =
  sp_fd :: int
  sp_device :: string

definition SerialPort_init :: SerialPort where
  "SerialPort_init = \<lparr>sp_fd = -1, sp_device = ''''\<rparr>"

text \<open>The answers of the system calls of one \<open>openPort\<close>.\<close>

record os_open =
  oo_fd :: int
  oo_tcgetattr_ok :: bool
  oo_tcsetattr_ok :: bool

definition baudToTermios :: "int \<Rightarrow> bool" where
  "baudToTermios baud_rate = (if baud_rate \<noteq> 115200 then False else True)"

definition configure :: "int \<Rightarrow> os_open \<Rightarrow> bool" where
  "configure baud_rate os =
     (if \<not> baudToTermios baud_rate then False
      else if \<not> oo_tcgetattr_ok os then False
      else if \<not> oo_tcsetattr_ok os then False
      else True)"

definition closePort :: "SerialPort \<Rightarrow> SerialPort" where
  "closePort p = (if sp_fd p \<ge> 0 then p\<lparr>sp_fd := -1\<rparr> else p)"

definition sp_isOpen :: "SerialPort \<Rightarrow> bool" where
  "sp_isOpen p \<longleftrightarrow> sp_fd p \<ge> 0"

definition openPort :: "string \<Rightarrow> int \<Rightarrow> os_open \<Rightarrow> SerialPort \<Rightarrow> bool \<times> SerialPort" where
  "openPort device baud_rate os p =
     (let p = (closePort p)\<lparr>sp_fd := oo_fd os\<rparr> in
      if sp_fd p < 0 then (False, p)
      else let p = p\<lparr>sp_device := device\<rparr> in
        if \<not> configure baud_rate os then (False, closePort p) else (True, p))"

text \<open>What \<open>select\<close> and \<open>read\<close> answer.\<close>

datatype os_read =
    SelectFailed
  | SelectInterrupted
  | SelectTimeout
  | ReadAgain
  | ReadFailed
  | ReadOk "byte list"

definition sp_readBytes :: "os_read \<Rightarrow> SerialPort \<Rightarrow> int \<times> byte list" where
  "sp_readBytes os p =
     (if sp_fd p < 0 then (-1, [])
      else case os of
        SelectFailed \<Rightarrow> (-1, [])
      | SelectInterrupted \<Rightarrow> (0, [])
      | SelectTimeout \<Rightarrow> (0, [])
      | ReadAgain \<Rightarrow> (0, [])
      | ReadFailed \<Rightarrow> (-1, [])
      | ReadOk bs \<Rightarrow> (int (length bs), bs))"

text \<open>One \<open>write\<close>: interrupted or busy, failed with \<open>strerror(errno)\<close>, or the number of bytes taken.\<close>

datatype os_write = WriteAgain | WriteFailed string | WriteOk nat

text \<open>
  The loop of \<open>writeBytes\<close> over the answers of successive \<open>write\<close> calls; \<open>handed\<close> collects the bytes
  the system took. \<open>None\<close>: still in the loop after these answers. \<open>Inl\<close>: the error text.
\<close>

fun writeBytes_loop :: "os_write list \<Rightarrow> byte list \<Rightarrow> nat \<Rightarrow> byte list \<Rightarrow> ((string + unit) \<times> byte list) option" where
  "writeBytes_loop answers bytes sent handed =
     (if \<not> sent < length bytes then Some (Inr (), handed)
      else case answers of
        [] \<Rightarrow> None
      | WriteAgain # rest \<Rightarrow> writeBytes_loop rest bytes sent handed
      | WriteFailed reason # rest \<Rightarrow> Some (Inl reason, handed)
      | WriteOk n # rest \<Rightarrow>
          writeBytes_loop rest bytes (sent + n) (handed @ take n (drop sent bytes)))"

declare writeBytes_loop.simps [simp del]

definition sp_writeBytes :: "os_write list \<Rightarrow> byte list \<Rightarrow> SerialPort \<Rightarrow> ((string + unit) \<times> byte list) option" where
  "sp_writeBytes answers bytes p =
     (if sp_fd p < 0 then Some (Inl ''not open'', []) else writeBytes_loop answers bytes 0 [])"

section \<open>Configuration\<close>

record SearchlightInitConfig =
  sc_driver :: string
  sc_baud_rate :: int
  sc_print_raw_serial :: bool
  sc_init_wait_ms :: int
  sc_offline_timeout_ms :: int

definition SearchlightInitConfig_init :: SearchlightInitConfig where
  "SearchlightInitConfig_init = \<lparr>sc_driver = ''/dev/ttyUSB0'', sc_baud_rate = 115200,
     sc_print_raw_serial = False, sc_init_wait_ms = 1200, sc_offline_timeout_ms = 2000\<rparr>"

section \<open>The device\<close>

record light_task =
  lt_command :: light_command
  lt_parameters :: "byte list"

record Searchlight =
  sl_config :: SearchlightInitConfig
  sl_serial :: SerialPort
  sl_frame_counter :: byte
  sl_state :: SearchlightState
  sl_running :: bool
  sl_task_queue :: "light_task list"
  sl_read_serial :: bool
  sl_worker_thread :: bool
  sl_receive_buffer :: "byte list"

definition Searchlight_init :: Searchlight where
  "Searchlight_init = \<lparr>sl_config = SearchlightInitConfig_init, sl_serial = SerialPort_init,
     sl_frame_counter = 0, sl_state = SearchlightState_init, sl_running = False, sl_task_queue = [],
     sl_read_serial = False, sl_worker_thread = False, sl_receive_buffer = []\<rparr>"

definition sl_shutdown :: "Searchlight \<Rightarrow> Searchlight" where
  "sl_shutdown s =
     (let was_running = sl_running s; s = s\<lparr>sl_running := False\<rparr> in
      if \<not> was_running \<and> \<not> sp_isOpen (sl_serial s) then s
      else s\<lparr>sl_read_serial := False, sl_worker_thread := False, sl_receive_buffer := [],
             sl_task_queue := [], sl_serial := closePort (sl_serial s)\<rparr>)"

definition sl_initialize :: "SearchlightInitConfig \<Rightarrow> os_open \<Rightarrow> Searchlight \<Rightarrow> Searchlight" where
  "sl_initialize config os s =
     (let s = (sl_shutdown s)\<lparr>sl_config := config\<rparr> in
      if sc_baud_rate config \<noteq> 115200 then s\<lparr>sl_state := markNoDevice BaudRateIllegal (sl_state s)\<rparr>
      else case openPort (sc_driver config) (sc_baud_rate config) os (sl_serial s) of
        (ok, port) \<Rightarrow>
          let s = s\<lparr>sl_serial := port\<rparr> in
          if \<not> ok then s\<lparr>sl_state := markNoDevice OpenFailed (sl_state s)\<rparr> else s)"

definition sl_online :: "int \<Rightarrow> Searchlight \<Rightarrow> bool \<times> Searchlight" where
  "sl_online now s =
     (case isOnline now (sc_offline_timeout_ms (sl_config s)) (sl_state s) of
        (b, st) \<Rightarrow> (b, s\<lparr>sl_state := st\<rparr>))"

text \<open>
  \<open>waitInitialDeviceFrame\<close>: poll every 50 ms; \<open>env k\<close> is what the threads did to the object during
  the \<open>k\<close>-th sleep and \<open>clock k\<close> the time of the \<open>k\<close>-th poll.
\<close>

function wait_loop :: "(nat \<Rightarrow> Searchlight \<Rightarrow> Searchlight) \<Rightarrow> (nat \<Rightarrow> int) \<Rightarrow> int \<Rightarrow> nat \<Rightarrow> int \<Rightarrow> Searchlight \<Rightarrow> Searchlight" where
  "wait_loop env clock init_wait_ms k waited_ms s =
     (if waited_ms < init_wait_ms then
        (case sl_online (clock k) s of
           (True, s) \<Rightarrow> s
         | (False, s) \<Rightarrow> wait_loop env clock init_wait_ms (Suc k) (waited_ms + 50) (env k s))
      else s\<lparr>sl_state := markNoDevice InitTimeout (sl_state s)\<rparr>)"
  by pat_completeness auto
termination
  by (relation "measure (\<lambda>(env, clock, init, k, waited, s). nat (init - waited))") auto

declare wait_loop.simps [simp del]

definition waitInitialDeviceFrame :: "(nat \<Rightarrow> Searchlight \<Rightarrow> Searchlight) \<Rightarrow> (nat \<Rightarrow> int) \<Rightarrow> Searchlight \<Rightarrow> Searchlight" where
  "waitInitialDeviceFrame env clock s = wait_loop env clock (sc_init_wait_ms (sl_config s)) 0 0 s"

text \<open>
  \<open>start\<close>. Assigning a new thread to a \<open>std::thread\<close> that is still joinable calls
  \<open>std::terminate\<close>: \<open>None\<close>.
\<close>

definition sl_spawn :: "Searchlight \<Rightarrow> Searchlight option" where
  "sl_spawn s =
     (let s = s\<lparr>sl_running := True\<rparr> in
      if sl_read_serial s \<or> sl_worker_thread s then None
      else Some (s\<lparr>sl_read_serial := True, sl_worker_thread := True, sl_receive_buffer := []\<rparr>))"

definition sl_start :: "(nat \<Rightarrow> Searchlight \<Rightarrow> Searchlight) \<Rightarrow> (nat \<Rightarrow> int) \<Rightarrow> Searchlight \<Rightarrow> Searchlight option" where
  "sl_start env clock s = map_option (waitInitialDeviceFrame env clock) (sl_spawn s)"

definition enqueueCommand :: "light_command \<Rightarrow> byte list \<Rightarrow> Searchlight \<Rightarrow> bool \<times> Searchlight" where
  "enqueueCommand command frame s =
     (if frame = [] then (False, s)
      else (True, s\<lparr>sl_task_queue := sl_task_queue s @ [\<lparr>lt_command = command, lt_parameters = frame\<rparr>],
                    sl_state := markCommandQueued command (sl_state s)\<rparr>))"

definition ensureControlReady :: "int \<Rightarrow> Searchlight \<Rightarrow> bool \<times> Searchlight" where
  "ensureControlReady now s =
     (if \<not> sp_isOpen (sl_serial s) then (False, s) else sl_online now s)"

text \<open>The common body of the eight control calls: check, build under \<open>build_mutex_\<close>, enqueue.\<close>

definition control_call :: "(byte \<Rightarrow> byte list option \<times> byte) \<Rightarrow> light_command \<Rightarrow> int \<Rightarrow> Searchlight \<Rightarrow> bool \<times> Searchlight" where
  "control_call build command now s =
     (case ensureControlReady now s of (ready, s) \<Rightarrow>
      if \<not> ready then (False, s)
      else case build (sl_frame_counter s) of (frame, fc) \<Rightarrow>
        let s = s\<lparr>sl_frame_counter := fc\<rparr> in
        case frame of None \<Rightarrow> (False, s) | Some frame \<Rightarrow> enqueueCommand command frame s)"

definition setting_light_level :: "int \<Rightarrow> int \<Rightarrow> Searchlight \<Rightarrow> bool \<times> Searchlight" where
  "setting_light_level level = control_call (buildLightLevel level) (CmdLightLevel level)"

definition setting_flash :: "int \<Rightarrow> int \<Rightarrow> Searchlight \<Rightarrow> bool \<times> Searchlight" where
  "setting_flash hz = control_call (buildFlashHz hz) (CmdFlashHz hz)"

definition open_flash :: "int \<Rightarrow> Searchlight \<Rightarrow> bool \<times> Searchlight" where
  "open_flash = control_call buildOpenFlash CmdOpenFlash"

definition close_flash :: "int \<Rightarrow> Searchlight \<Rightarrow> bool \<times> Searchlight" where
  "close_flash = control_call buildCloseFlash CmdCloseFlash"

definition home :: "int \<Rightarrow> Searchlight \<Rightarrow> bool \<times> Searchlight" where
  "home = control_call buildHome CmdHome"

definition move_to :: "int \<Rightarrow> int \<Rightarrow> int \<Rightarrow> Searchlight \<Rightarrow> bool \<times> Searchlight" where
  "move_to x y = control_call (buildMoveTo x y) (CmdMoveTo x y)"

definition open_led :: "int \<Rightarrow> Searchlight \<Rightarrow> bool \<times> Searchlight" where
  "open_led = control_call buildOpenLed CmdOpenLed"

definition close_led :: "int \<Rightarrow> Searchlight \<Rightarrow> bool \<times> Searchlight" where
  "close_led = control_call buildCloseLed CmdCloseLed"

text \<open>One round of \<open>readSerialLoop\<close>; \<open>now\<close> is the clock during the round.\<close>

definition receive_bytes :: "int \<Rightarrow> byte list \<Rightarrow> Searchlight \<Rightarrow> Searchlight" where
  "receive_bytes now raw s =
     (case decode_all (sl_receive_buffer s @ raw) of (frames, error, buffer) \<Rightarrow>
        let st = fold (markOnlineByFrame now) frames (sl_state s);
            st = (case error of None \<Rightarrow> st | Some e \<Rightarrow> markChecksumError e st)
        in s\<lparr>sl_receive_buffer := buffer, sl_state := st\<rparr>)"

definition readSerial_round :: "os_open \<Rightarrow> os_read \<Rightarrow> int \<Rightarrow> Searchlight \<Rightarrow> Searchlight" where
  "readSerial_round os_o os_r now s =
     (if \<not> sp_isOpen (sl_serial s) then
        s\<lparr>sl_receive_buffer := [],
          sl_serial := snd (openPort (sc_driver (sl_config s)) (sc_baud_rate (sl_config s)) os_o (sl_serial s))\<rparr>
      else case sp_readBytes os_r (sl_serial s) of (n, raw) \<Rightarrow>
        if n < 0 then
          s\<lparr>sl_state := markNoDevice SerialIoError (sl_state s), sl_serial := closePort (sl_serial s),
            sl_receive_buffer := []\<rparr>
        else snd (sl_online now (if n > 0 then receive_bytes now raw s else s)))"

text \<open>
  One round of \<open>workerLoop\<close> that finds a task; the bytes handed to the system are returned too.
  \<open>None\<close>: still writing after these answers.
\<close>

definition worker_round :: "os_write list \<Rightarrow> Searchlight \<Rightarrow> (byte list \<times> Searchlight) option" where
  "worker_round answers s =
     (case sl_task_queue s of
        [] \<Rightarrow> Some ([], s)
      | task # rest \<Rightarrow>
          let s = s\<lparr>sl_task_queue := rest\<rparr> in
          case sp_writeBytes answers (lt_parameters task) (sl_serial s) of
            None \<Rightarrow> None
          | Some (Inr _, handed) \<Rightarrow>
              Some (handed, s\<lparr>sl_state := markCommandSent (lt_command task) (sl_state s)\<rparr>)
          | Some (Inl error, handed) \<Rightarrow>
              Some (handed, s\<lparr>sl_state := markCommandFailed (lt_command task) error (sl_state s)\<rparr>))"

section \<open>All that happens to the object\<close>

inductive sl_step :: "Searchlight \<Rightarrow> Searchlight \<Rightarrow> bool" where
  initialize: "sl_step s (sl_initialize config os s)"
| spawn: "sl_spawn s = Some s' \<Longrightarrow> sl_step s s'"
| poll: "sl_step s (snd (sl_online now s))"
| init_timeout: "sl_step s (s\<lparr>sl_state := markNoDevice InitTimeout (sl_state s)\<rparr>)"
| control: "sl_step s (snd (control_call (command_frame c) c now s))"
| reader: "sl_running s \<Longrightarrow> sl_read_serial s \<Longrightarrow> sl_step s (readSerial_round os_o os_r now s)"
| worker: "sl_worker_thread s \<Longrightarrow> worker_round answers s = Some (handed, s') \<Longrightarrow> sl_step s s'"
| shutdown: "sl_step s (sl_shutdown s)"

inductive sl_reachable :: "Searchlight \<Rightarrow> bool" where
  start: "sl_reachable Searchlight_init"
| step: "sl_reachable s \<Longrightarrow> sl_step s s' \<Longrightarrow> sl_reachable s'"

section \<open>Serial writes\<close>

text \<open>\<open>write\<close> never reports more bytes than it was given.\<close>

fun plausible_writes :: "os_write list \<Rightarrow> nat \<Rightarrow> bool" where
  "plausible_writes [] room = True"
| "plausible_writes (WriteOk n # rest) room \<longleftrightarrow> n \<le> room \<and> plausible_writes rest (room - n)"
| "plausible_writes (_ # rest) room \<longleftrightarrow> plausible_writes rest room"

lemma writeBytes_loop_eqs [simp]:
  "\<not> sent < length bytes \<Longrightarrow> writeBytes_loop answers bytes sent handed = Some (Inr (), handed)"
  "sent < length bytes \<Longrightarrow> writeBytes_loop [] bytes sent handed = None"
  "sent < length bytes \<Longrightarrow> writeBytes_loop (WriteAgain # rest) bytes sent handed = writeBytes_loop rest bytes sent handed"
  "sent < length bytes \<Longrightarrow> writeBytes_loop (WriteFailed reason # rest) bytes sent handed = Some (Inl reason, handed)"
  "sent < length bytes \<Longrightarrow> writeBytes_loop (WriteOk n # rest) bytes sent handed =
     writeBytes_loop rest bytes (sent + n) (handed @ take n (drop sent bytes))"
  by (subst writeBytes_loop.simps, simp)+

lemma writeBytes_loop_handed:
  assumes "writeBytes_loop answers bytes sent handed = Some (r, out)"
    and "plausible_writes answers (length bytes - sent)" "sent \<le> length bytes"
  shows "\<exists>k. sent \<le> k \<and> k \<le> length bytes \<and> out = handed @ take (k - sent) (drop sent bytes) \<and>
    (r = Inr () \<longrightarrow> k = length bytes)"
  using assms
proof (induction answers arbitrary: sent handed)
  case Nil
  then show ?case
    by (cases "sent < length bytes") (auto intro!: exI [of _ sent])
next
  case (Cons a answers)
  show ?case
  proof (cases "sent < length bytes")
    case False
    with Cons.prems show ?thesis by (auto intro!: exI [of _ sent])
  next
    case True
    show ?thesis
    proof (cases a)
      case WriteAgain
      with True Cons.prems Cons.IH [of sent handed] show ?thesis by simp
    next
      case (WriteFailed reason)
      with True Cons.prems show ?thesis by (auto intro!: exI [of _ sent])
    next
      case (WriteOk n)
      with True Cons.prems have "writeBytes_loop answers bytes (sent + n) (handed @ take n (drop sent bytes)) = Some (r, out)"
        "plausible_writes answers (length bytes - (sent + n))" "sent + n \<le> length bytes"
        by auto
      from Cons.IH [OF this] obtain k where k: "sent + n \<le> k" "k \<le> length bytes"
        "out = handed @ take n (drop sent bytes) @ take (k - (sent + n)) (drop (sent + n) bytes)"
        "r = Inr () \<longrightarrow> k = length bytes" by auto
      have "take n (drop sent bytes) @ take (k - (sent + n)) (drop (sent + n) bytes) = take (k - sent) (drop sent bytes)"
        using k(1) take_add [of n "k - (sent + n)" "drop sent bytes"] by (simp add: add.commute)
      with k show ?thesis by (intro exI [of _ k]) simp
    qed
  qed
qed

section \<open>The object invariant\<close>

definition task_ok :: "light_task \<Rightarrow> bool" where
  "task_ok t \<longleftrightarrow> command_valid (lt_command t) \<and>
     (\<exists>fc. lt_parameters t = encode kCmdId (command_payload (lt_command t)) fc)"

definition sl_inv :: "Searchlight \<Rightarrow> bool" where
  "sl_inv s \<longleftrightarrow> sl_frame_counter s < 4 \<and> list_all task_ok (sl_task_queue s) \<and>
     length (sl_receive_buffer s) < 66 \<and>
     (sl_running s \<longrightarrow> sl_read_serial s \<and> sl_worker_thread s) \<and>
     (\<not> sl_running s \<longrightarrow> \<not> sl_read_serial s \<and> \<not> sl_worker_thread s)"

lemma counter_less: "(x AND 0x03 :: byte) < 4"
proof -
  have "unat (take_bit 2 x) < 4"
    using take_bit_nat_less_exp [of 2 "unat x"] by (simp add: unsigned_take_bit_eq)
  then show ?thesis unfolding mask_2 take_bit_eq_mask by (simp add: word_less_nat_alt)
qed

lemma decode_all_residue: "decode_all b = (fs, e, r) \<Longrightarrow> length r < 66"
proof (induction b arbitrary: fs rule: length_induct)
  case (1 b)
  obtain f e' r' where t: "tryDecode b = (f, e', r')" by (cases "tryDecode b")
  show ?case
  proof (cases f)
    case None
    with t 1(2) tryDecode_None(1) [of b e' r'] show ?thesis by (simp add: decode_all.simps [of b])
  next
    case (Some g)
    with t 1(2) obtain fs' where "decode_all r' = (fs', e, r)"
      by (auto simp: decode_all.simps [of b] split: prod.splits)
    with 1(1) tryDecode_shrinks [of b g e' r'] t Some show ?thesis by blast
  qed
qed

lemma sl_online_frame:
  "sl_online now s = (b, s') \<Longrightarrow> s' = s\<lparr>sl_state := sl_state s'\<rparr>"
  by (auto simp: sl_online_def split: prod.splits)

lemma sl_inv_state [simp]: "sl_inv (s\<lparr>sl_state := st\<rparr>) = sl_inv s"
  by (simp add: sl_inv_def)

lemma sl_inv_serial [simp]: "sl_inv (s\<lparr>sl_serial := p\<rparr>) = sl_inv s"
  by (simp add: sl_inv_def)

lemma sl_inv_config [simp]: "sl_inv (s\<lparr>sl_config := c\<rparr>) = sl_inv s"
  by (simp add: sl_inv_def)

lemma sl_inv_online: "sl_inv s \<Longrightarrow> sl_inv (snd (sl_online now s))"
  by (simp add: sl_online_def split: prod.splits)

lemma sl_inv_shutdown: "sl_inv s \<Longrightarrow> sl_inv (sl_shutdown s)"
  by (auto simp: sl_shutdown_def sl_inv_def Let_def)

lemma encode_command_nonempty: "encode kCmdId (command_payload c) fc \<noteq> []"
proof -
  have "length (command_payload c) \<le> kMaxPayloadLength" using length_command_payload [of c] by simp
  from length_encode [OF this, of kCmdId fc] show ?thesis by auto
qed

text \<open>What a control call does, in one equation.\<close>

lemma control_call_eq:
  assumes "ensureControlReady now s = (ready, s1)"
  shows "control_call (command_frame c) c now s =
    (if ready \<and> command_valid c then
       (True, s1\<lparr>sl_frame_counter := (sl_frame_counter s1 + 1) AND 0x03,
          sl_task_queue := sl_task_queue s1 @ [\<lparr>lt_command = c,
            lt_parameters = encode kCmdId (command_payload c) (sl_frame_counter s1)\<rparr>],
          sl_state := markCommandQueued c (sl_state s1)\<rparr>)
     else (False, s1))"
  using assms encode_command_nonempty [of c]
  by (auto simp: control_call_def enqueueCommand_def command_frame_valid command_frame_invalid Let_def)

lemma ensureControlReady_frame:
  "ensureControlReady now s = (ready, s1) \<Longrightarrow> s1 = s\<lparr>sl_state := sl_state s1\<rparr>"
  using sl_online_frame [of now s] by (auto simp: ensureControlReady_def split: if_splits)

lemma sl_inv_control:
  assumes "sl_inv s"
  shows "sl_inv (snd (control_call (command_frame c) c now s))"
proof -
  obtain ready s1 where r: "ensureControlReady now s = (ready, s1)" by (cases "ensureControlReady now s")
  from ensureControlReady_frame [OF r] assms have "sl_inv s1" by (metis sl_inv_state)
  then show ?thesis
    by (auto simp: control_call_eq [OF r] sl_inv_def counter_less task_ok_def)
qed

lemma sl_inv_receive: "sl_inv s \<Longrightarrow> sl_inv (receive_bytes now raw s)"
  by (auto simp: receive_bytes_def sl_inv_def Let_def dest: decode_all_residue split: prod.splits)

lemma sl_inv_reader: "sl_inv s \<Longrightarrow> sl_inv (readSerial_round os_o os_r now s)"
proof -
  assume i: "sl_inv s"
  then have "sl_inv (s\<lparr>sl_receive_buffer := []\<rparr>)" by (simp add: sl_inv_def)
  then have "sl_inv (s\<lparr>sl_receive_buffer := [], sl_serial := p\<rparr>)" for p by simp
  moreover from i have "sl_inv (s\<lparr>sl_state := st, sl_serial := p, sl_receive_buffer := []\<rparr>)" for st p
    by (simp add: sl_inv_def)
  ultimately show ?thesis
    using i sl_inv_online sl_inv_receive by (simp add: readSerial_round_def split: prod.splits)
qed

lemma sl_inv_worker:
  assumes "sl_inv s" "worker_round answers s = Some (handed, s')"
  shows "sl_inv s'"
proof (cases "sl_task_queue s")
  case (Cons t ts)
  with assms(1) have "sl_inv (s\<lparr>sl_task_queue := ts\<rparr>)" by (simp add: sl_inv_def)
  with assms(2) Cons show ?thesis
    by (auto simp: worker_round_def Let_def split: option.splits sum.splits)
qed (use assms in \<open>simp add: worker_round_def\<close>)

lemma sl_inv_initialize: "sl_inv s \<Longrightarrow> sl_inv (sl_initialize config os s)"
  using sl_inv_shutdown [of s] by (simp add: sl_initialize_def Let_def split: prod.splits)

lemma sl_inv_spawn: "sl_inv s \<Longrightarrow> sl_spawn s = Some s' \<Longrightarrow> sl_inv s'"
  by (auto simp: sl_spawn_def sl_inv_def Let_def split: if_splits)

lemma sl_inv_step: "sl_step s s' \<Longrightarrow> sl_inv s \<Longrightarrow> sl_inv s'"
  by (induction rule: sl_step.induct)
    (auto intro: sl_inv_initialize sl_inv_spawn sl_inv_online sl_inv_control sl_inv_reader
      sl_inv_worker sl_inv_shutdown)

lemma sl_reachable_inv: "sl_reachable s \<Longrightarrow> sl_inv s"
proof (induction rule: sl_reachable.induct)
  case start
  then show ?case by (simp add: sl_inv_def Searchlight_init_def)
qed (rule sl_inv_step)

lemma command_frame_funs:
  "command_frame (CmdLightLevel l) = buildLightLevel l" "command_frame (CmdFlashHz h) = buildFlashHz h"
  "command_frame CmdOpenFlash = buildOpenFlash" "command_frame CmdCloseFlash = buildCloseFlash"
  "command_frame CmdHome = buildHome" "command_frame (CmdMoveTo x y) = buildMoveTo x y"
  "command_frame CmdOpenLed = buildOpenLed" "command_frame CmdCloseLed = buildCloseLed"
  by (rule ext, simp)+

lemmas control_defs = setting_light_level_def setting_flash_def open_flash_def close_flash_def
  home_def move_to_def open_led_def close_led_def

section \<open>Properties\<close>

text \<open>C33: in every state the searchlight object can reach, through any interleaving of API calls, read
  rounds and worker rounds and whatever the operating system answers: the frame counter is below 4,
  every queued task holds the well-formed frame of a command with parameters in range, the receive
  buffer holds fewer than 66 bytes, and the two threads exist exactly while the object runs. A call and a
  round of a thread are one step each, so the moments inside a \<open>shutdown\<close> are not states of this property.\<close>

theorem searchlight_invariant:
  assumes "sl_reachable s"
  shows "sl_frame_counter s < 4 \<and> list_all task_ok (sl_task_queue s) \<and>
    length (sl_receive_buffer s) < 66 \<and>
    sl_read_serial s = sl_running s \<and> sl_worker_thread s = sl_running s"
  using sl_reachable_inv [OF assms] by (auto simp: sl_inv_def)

theorem searchlight_invariant_witness:
  "sl_frame_counter (sl_initialize SearchlightInitConfig_init \<lparr>oo_fd = 3, oo_tcgetattr_ok = True, oo_tcsetattr_ok = True\<rparr> Searchlight_init) < 4"
  using searchlight_invariant [OF sl_reachable.step [OF sl_reachable.start
      sl_step.initialize [of _ SearchlightInitConfig_init "\<lparr>oo_fd = 3, oo_tcgetattr_ok = True, oo_tcsetattr_ok = True\<rparr>"]]]
  by blast

text \<open>each of the eight control calls succeeds exactly when the port is open, the device was seen
  within the time-out and the parameters are in range; then it appends exactly one task, the frame of
  that command, and moves the counter on; otherwise the queue and the counter stay as they are.\<close>

theorem control_calls_spec:
  fixes c :: light_command
  defines "call \<equiv> control_call (command_frame c) c"
  shows "(setting_light_level l = control_call (command_frame (CmdLightLevel l)) (CmdLightLevel l) \<and>
     setting_flash h = control_call (command_frame (CmdFlashHz h)) (CmdFlashHz h) \<and>
     open_flash = control_call (command_frame CmdOpenFlash) CmdOpenFlash \<and>
     close_flash = control_call (command_frame CmdCloseFlash) CmdCloseFlash \<and>
     home = control_call (command_frame CmdHome) CmdHome \<and>
     move_to x y = control_call (command_frame (CmdMoveTo x y)) (CmdMoveTo x y) \<and>
     open_led = control_call (command_frame CmdOpenLed) CmdOpenLed \<and>
     close_led = control_call (command_frame CmdCloseLed) CmdCloseLed) \<and>
   (fst (call now s) \<longleftrightarrow> sp_isOpen (sl_serial s) \<and> fst (sl_online now s) \<and> command_valid c) \<and>
   (if fst (call now s)
    then sl_frame_counter (snd (call now s)) = (sl_frame_counter s + 1) AND 0x03 \<and>
      sl_task_queue (snd (call now s)) = sl_task_queue s @
        [\<lparr>lt_command = c, lt_parameters = encode kCmdId (command_payload c) (sl_frame_counter s)\<rparr>]
    else sl_frame_counter (snd (call now s)) = sl_frame_counter s \<and>
      sl_task_queue (snd (call now s)) = sl_task_queue s)"
proof -
  obtain ready s1 where r: "ensureControlReady now s = (ready, s1)" by (cases "ensureControlReady now s")
  from ensureControlReady_frame [OF r] have f: "sl_frame_counter s1 = sl_frame_counter s"
    "sl_task_queue s1 = sl_task_queue s"
    by (metis Searchlight.select_convs(3,6) Searchlight.surjective Searchlight.update_convs(4))+
  have "ready \<longleftrightarrow> sp_isOpen (sl_serial s) \<and> fst (sl_online now s)"
    using r by (auto simp: ensureControlReady_def split: if_splits)
  then show ?thesis
    unfolding call_def control_call_eq [OF r] command_frame_funs control_defs using f by auto
qed

text \<open>a serial write that reports success has handed the operating system exactly the bytes of the
  frame, each once and in order, however the system splits or interrupts the writes; one that fails
  has handed over a prefix.\<close>

theorem serial_write_exact:
  assumes "sp_writeBytes answers bytes p = Some (r, out)"
    and "plausible_writes answers (length bytes)"
  shows "(r = Inr () \<longrightarrow> out = bytes) \<and> (\<exists>k. out = take k bytes)"
proof (cases "sp_fd p < 0")
  case True
  with assms(1) show ?thesis by (auto simp: sp_writeBytes_def intro: exI [of _ 0])
next
  case False
  with assms(1) have "writeBytes_loop answers bytes 0 [] = Some (r, out)"
    by (simp add: sp_writeBytes_def)
  from writeBytes_loop_handed [OF this] assms(2) show ?thesis by auto
qed

theorem serial_write_exact_witness:
  "sp_writeBytes [WriteOk 2, WriteAgain, WriteOk 1] [7, 8, 9] \<lparr>sp_fd = 3, sp_device = ''tty''\<rparr> = Some (Inr (), [7, 8, 9])"
proof -
  have w: "sp_writeBytes [WriteOk 2, WriteAgain, WriteOk 1] [7, 8, 9] \<lparr>sp_fd = 3, sp_device = ''tty''\<rparr>
      = Some (Inr (), [7, 8, 9])"
    by (simp add: sp_writeBytes_def numeral_eq_Suc)
  from serial_write_exact [OF w] w show ?thesis by simp
qed

text \<open>\<open>start\<close> on an object that is already running ends the process: the thread members are still
  joinable when new threads are assigned to them.\<close>

theorem second_start_terminates:
  assumes "sl_reachable s" and "sl_running s"
  shows "sl_start env clock s = None"
  using sl_reachable_inv [OF assms(1)] assms(2) by (simp add: sl_inv_def sl_start_def sl_spawn_def Let_def)

theorem second_start_terminates_witness:
  "sl_start (\<lambda>_ s. s) (\<lambda>_. 0) (the (sl_spawn Searchlight_init)) = None"
proof -
  have s: "sl_spawn Searchlight_init = Some (Searchlight_init\<lparr>sl_running := True, sl_read_serial := True,
      sl_worker_thread := True\<rparr>)"
    by (simp add: sl_spawn_def Searchlight_init_def Let_def)
  show ?thesis
    by (rule second_start_terminates)
      (use sl_reachable.step [OF sl_reachable.start sl_step.spawn [OF s]] s in simp_all)
qed

section \<open>Inside a shutdown\<close>

text \<open>\<open>shutdown\<close> clears \<open>running_\<close> and notifies without the mutex of the queue, and then joins the worker. The
  worker looks at the flag and the queue under that mutex and then blocks; \<open>LwChecked\<close> is the moment between.
  The components are the flag, the number of tasks, where the worker is and where \<open>shutdown\<close> is.\<close>

datatype light_worker_pc = LwTop | LwChecked | LwWaiting | LwExited
datatype light_shut_pc = ShutBegin | ShutCleared | ShutNotified | ShutDone

inductive light_stop_step :: "bool \<times> nat \<times> light_worker_pc \<times> light_shut_pc \<Rightarrow> bool \<times> nat \<times> light_worker_pc \<times> light_shut_pc \<Rightarrow> bool" where
  clear: "light_stop_step (r, n, w, ShutBegin) (False, n, w, ShutCleared)"
| notify: "light_stop_step (r, n, w, ShutCleared) (r, n, if w = LwWaiting then LwTop else w, ShutNotified)"
| join: "light_stop_step (r, n, LwExited, ShutNotified) (r, n, LwExited, ShutDone)"
| check: "light_stop_step (True, 0, LwTop, p) (True, 0, LwChecked, p)"
| take: "light_stop_step (r, Suc n, LwTop, p) (r, n, LwTop, p)"
| leave: "light_stop_step (False, n, LwTop, p) (False, n, LwExited, p)"
| block: "light_stop_step (r, n, LwChecked, p) (r, n, LwWaiting, p)"

inductive_cases light_stop_stuckE: "light_stop_step (False, 0, LwWaiting, ShutNotified) x"

text \<open>The notification may fall between the look and the block: then neither goes on, unless the system wakes the worker
  without a reason or another thread queues a command.\<close>

lemma shutdown_may_hang:
  "light_stop_step\<^sup>*\<^sup>* (True, 0, LwTop, ShutBegin) (False, 0, LwWaiting, ShutNotified) \<and>
    \<not> light_stop_step (False, 0, LwWaiting, ShutNotified) x"
proof
  have "light_stop_step (True, 0, LwTop, ShutBegin) (True, 0, LwChecked, ShutBegin)" by (rule light_stop_step.check)
  moreover have "light_stop_step (True, 0, LwChecked, ShutBegin) (False, 0, LwChecked, ShutCleared)" by (rule light_stop_step.clear)
  moreover have "light_stop_step (False, 0, LwChecked, ShutCleared) (False, 0, LwChecked, ShutNotified)"
    using light_stop_step.notify [of False 0 LwChecked] by simp
  moreover have "light_stop_step (False, 0, LwChecked, ShutNotified) (False, 0, LwWaiting, ShutNotified)" by (rule light_stop_step.block)
  ultimately show "light_stop_step\<^sup>*\<^sup>* (True, 0, LwTop, ShutBegin) (False, 0, LwWaiting, ShutNotified)"
    by (meson converse_rtranclp_into_rtranclp rtranclp.rtrancl_refl)
qed (auto elim: light_stop_stuckE)

end
