(* ===== verification/Json.thy ===== *)
theory Json
  imports Prelude
begin

text \<open>
  The JSON values of \<open>nlohmann::json\<close> as the configuration readers use them, and the text conversions
  of the C++ library they call. A number is unsigned, signed or a float as the library classifies
  it; a float is kept as the text \<open>dump()\<close> prints, the only thing the readers ask of it. An object is
  its list of fields.
\<close>

datatype json =
    JNull
  | JBool bool
  | JUnsigned nat
  | JInteger int
  | JFloat string
  | JString string
  | JArray "json list"
  | JObject "(string \<times> json) list"

fun is_object :: "json \<Rightarrow> bool" where
  "is_object (JObject _) = True"
| "is_object _ = False"

text \<open>\<open>contains(key)\<close> with \<open>at(key)\<close>: \<open>None\<close> when there is no such field or no object.\<close>

fun field :: "json \<Rightarrow> string \<Rightarrow> json option" where
  "field (JObject fs) key = map_of fs key"
| "field _ key = None"

text \<open>The fields of \<open>keys\<close> that are present and not null: the first one is what a reader takes.\<close>

fun first_present :: "json \<Rightarrow> string list \<Rightarrow> (string \<times> json) option" where
  "first_present cfg [] = None"
| "first_present cfg (key # keys) =
     (case field cfg key of
        Some v \<Rightarrow> if v = JNull then first_present cfg keys else Some (key, v)
      | None \<Rightarrow> first_present cfg keys)"

section \<open>Characters and numbers\<close>

definition ctolower :: "char \<Rightarrow> char" where
  "ctolower c = (let n = of_char c :: nat in if 65 \<le> n \<and> n \<le> 90 then char_of (n + 32) else c)"

definition cisspace :: "char \<Rightarrow> bool" where
  "cisspace c \<longleftrightarrow> (let n = of_char c :: nat in n = 32 \<or> 9 \<le> n \<and> n \<le> 13)"

definition cisdigit :: "char \<Rightarrow> bool" where
  "cisdigit c \<longleftrightarrow> (let n = of_char c :: nat in 48 \<le> n \<and> n \<le> 57)"

text \<open>The helper \<open>TrimCopy\<close> of the drop lock and of the gas detector.\<close>

definition is_blank :: "char \<Rightarrow> bool" where
  "is_blank c \<longleftrightarrow> (let n = of_char c :: nat in n = 32 \<or> n = 9 \<or> n = 13 \<or> n = 10)"

definition TrimCopy :: "string \<Rightarrow> string" where
  "TrimCopy s = rev (dropWhile is_blank (rev (dropWhile is_blank s)))"

text \<open>\<open>std::to_string\<close>.\<close>

fun nat_to_string :: "nat \<Rightarrow> string" where
  "nat_to_string n =
     (if n < 10 then [char_of (48 + n)] else nat_to_string (n div 10) @ [char_of (48 + n mod 10)])"

declare nat_to_string.simps [simp del]

definition int_to_string :: "int \<Rightarrow> string" where
  "int_to_string i = (if i < 0 then CHR ''-'' # nat_to_string (nat (- i)) else nat_to_string (nat i))"

fun decimal :: "nat \<Rightarrow> string \<Rightarrow> nat" where
  "decimal acc [] = acc"
| "decimal acc (c # cs) = decimal (10 * acc + (of_char c - 48)) cs"

datatype stoull_error = StoullInvalid | StoullRange

text \<open>\<open>std::stoull\<close>: blanks, an optional sign, digits; what follows the digits is ignored, and a minus
  sign negates in \<open>unsigned long long\<close>.\<close>

definition stoull :: "string \<Rightarrow> stoull_error + nat" where
  "stoull s =
     (let s = dropWhile cisspace s;
          neg = (case s of c # cs \<Rightarrow> c = CHR ''-'' | [] \<Rightarrow> False);
          s = (case s of c # cs \<Rightarrow> if c = CHR ''-'' \<or> c = CHR ''+'' then cs else s | [] \<Rightarrow> []);
          ds = takeWhile cisdigit s
      in if ds = [] then Inl StoullInvalid
         else let v = decimal 0 ds in
           if v \<ge> 2 ^ 64 then Inl StoullRange
           else Inr (if neg then (2 ^ 64 - v) mod 2 ^ 64 else v))"

lemma decimal_append: "decimal acc (xs @ ys) = decimal (decimal acc xs) ys"
  by (induction xs arbitrary: acc) simp_all

lemma of_char_digit: "(n :: nat) < 10 \<Longrightarrow> of_char (char_of (48 + n) :: char) = 48 + n"
  by (simp add: of_char_of)

lemma nat_to_string_digits: "nat_to_string n \<noteq> [] \<and> list_all cisdigit (nat_to_string n)"
proof (induction n rule: nat_to_string.induct)
  case (1 n)
  then show ?case
    by (cases "n < 10") (simp_all add: nat_to_string.simps [of n] cisdigit_def of_char_digit Let_def)
qed

lemma decimal_nat_to_string: "decimal 0 (nat_to_string n) = n"
proof (induction n rule: nat_to_string.induct)
  case (1 n)
  then show ?case
    by (cases "n < 10") (simp_all add: nat_to_string.simps [of n] decimal_append of_char_digit)
qed

lemma decimal_zeros: "decimal 0 (replicate k (CHR ''0'') @ s) = decimal 0 s"
  by (induction k) simp_all

lemma length_nat_to_string: "n < 10 ^ w \<Longrightarrow> 0 < w \<Longrightarrow> length (nat_to_string n) \<le> w"
proof (induction n arbitrary: w rule: nat_to_string.induct)
  case (1 n)
  show ?case
  proof (cases "n < 10")
    case True
    then show ?thesis using 1(3) by (simp add: nat_to_string.simps [of n])
  next
    case False
    then have "w \<noteq> 1" using 1(2) by auto
    then obtain v where v: "w = Suc v" "0 < v" using 1(3) by (metis One_nat_def neq0_conv not0_implies_Suc)
    then have "n div 10 < 10 ^ v" using 1(2) by (simp add: less_mult_imp_div_less mult.commute)
    then show ?thesis using 1(1) [OF False _ v(2)] False v(1) by (simp add: nat_to_string.simps [of n])
  qed
qed


lemma TrimCopy_no_blank: "list_all (\<lambda>c. \<not> is_blank c) s \<Longrightarrow> TrimCopy s = s"
proof -
  assume a: "list_all (\<lambda>c. \<not> is_blank c) s"
  have "dropWhile is_blank xs = xs" if "list_all (\<lambda>c. \<not> is_blank c) xs" for xs
    using that by (cases xs) simp_all
  then show ?thesis using a by (simp add: TrimCopy_def list_all_rev)
qed

text \<open>What \<open>std::stoull\<close> leaves unread: \<open>consumed\<close> is the length of the text exactly when this is empty.\<close>

definition stoull_rest :: "string \<Rightarrow> string" where
  "stoull_rest s =
     (let s = dropWhile cisspace s;
          s = (case s of c # cs \<Rightarrow> if c = CHR ''-'' \<or> c = CHR ''+'' then cs else s | [] \<Rightarrow> [])
      in dropWhile cisdigit s)"

end
