(* ===== verification/Serial.thy ===== *)
theory Serial
  imports Json
begin

text \<open>
  \<open>src/util/my_serial/MySerial.cpp\<close>: configuration parsing and the life cycle of a port. The
  underlying library \<open>serial::Serial\<close> is not part of the repository: it is the argument \<open>L\<close>, a record
  of its operations on an abstract port, each answering an exception text or a result together with
  the port afterwards. Exceptions of the module itself are constructors. Log output, the JSON forms
  of the snapshots and the port enumeration are left out, and the strings of a configuration are
  valid UTF-8, so that logging it does not throw.
\<close>

section \<open>The library\<close>

datatype bytesize = fivebits | sixbits | sevenbits | eightbits

datatype parity = parity_none | parity_odd | parity_even | parity_mark | parity_space

datatype stopbits = stopbits_one | stopbits_one_point_five | stopbits_two

datatype flowcontrol = flowcontrol_none | flowcontrol_software | flowcontrol_hardware

datatype serial_timeout = SimpleTimeout u32 | Timeout u32 u32 u32 u32 u32

type_synonym ('p, 'r) lib_call = "'p \<Rightarrow> (string + 'r) \<times> 'p"

record 'p serial_lib =
  lib_new :: "string + 'p"
  lib_setPort :: "string \<Rightarrow> ('p, unit) lib_call"
  lib_setBaudrate :: "u32 \<Rightarrow> ('p, unit) lib_call"
  lib_setTimeout :: "serial_timeout \<Rightarrow> ('p, unit) lib_call"
  lib_setBytesize :: "bytesize \<Rightarrow> ('p, unit) lib_call"
  lib_setParity :: "parity \<Rightarrow> ('p, unit) lib_call"
  lib_setStopbits :: "stopbits \<Rightarrow> ('p, unit) lib_call"
  lib_setFlowcontrol :: "flowcontrol \<Rightarrow> ('p, unit) lib_call"
  lib_open :: "('p, unit) lib_call"
  lib_close :: "('p, unit) lib_call"
  lib_isOpen :: "'p \<Rightarrow> bool"
  lib_write :: "byte list \<Rightarrow> ('p, nat) lib_call"
  lib_read :: "nat \<Rightarrow> ('p, byte list) lib_call"
  lib_read_partial :: "nat \<Rightarrow> 'p \<Rightarrow> byte list"
  lib_readline :: "nat \<Rightarrow> byte list \<Rightarrow> ('p, byte list) lib_call"
  lib_available :: "('p, nat) lib_call"

section \<open>Options\<close>

datatype serial_exn =
    PortNotString string
  | PortMissing
  | OutOfUint32 string
  | NotUnsigned string
  | StoullFailed stoull_error
  | TokenType string
  | UnsupportedBytesize string
  | UnsupportedParity string
  | UnsupportedStopbits string
  | UnsupportedFlowcontrol string
  | ConfigNotObject
  | AutoOpenType
  | NotInitialized
  | PortNotOpen
  | LibFailed string

record SerialInitOptions =
  so_port :: string
  so_baudrate :: u32
  so_timeout_ms :: u32
  so_inter_byte_timeout_ms :: u32
  so_read_timeout_constant_ms :: u32
  so_read_timeout_multiplier_ms :: u32
  so_write_timeout_constant_ms :: u32
  so_write_timeout_multiplier_ms :: u32
  so_bytesize :: string
  so_parity :: string
  so_stopbits :: string
  so_flowcontrol :: string
  so_auto_open :: bool

definition SerialInitOptions_init :: SerialInitOptions where
  "SerialInitOptions_init = \<lparr>so_port = '''', so_baudrate = 9600, so_timeout_ms = 1000,
     so_inter_byte_timeout_ms = 0, so_read_timeout_constant_ms = 1000,
     so_read_timeout_multiplier_ms = 0, so_write_timeout_constant_ms = 1000,
     so_write_timeout_multiplier_ms = 0, so_bytesize = ''eightbits'', so_parity = ''none'',
     so_stopbits = ''one'', so_flowcontrol = ''none'', so_auto_open = True\<rparr>"

definition NormalizeToken :: "string \<Rightarrow> string" where
  "NormalizeToken val = map ctolower val"

fun JsonValueToToken :: "json \<Rightarrow> string \<Rightarrow> serial_exn + string" where
  "JsonValueToToken (JString s) field_name = Inr (NormalizeToken s)"
| "JsonValueToToken (JUnsigned n) field_name = Inr (nat_to_string n)"
| "JsonValueToToken (JInteger i) field_name = Inr (int_to_string i)"
| "JsonValueToToken (JFloat text) field_name = Inr (NormalizeToken text)"
| "JsonValueToToken _ field_name = Inl (TokenType field_name)"

fun required_port_loop :: "json \<Rightarrow> string list \<Rightarrow> serial_exn + string" where
  "required_port_loop cfg [] = Inl PortMissing"
| "required_port_loop cfg (key # keys) =
     (case field cfg key of
        None \<Rightarrow> required_port_loop cfg keys
      | Some JNull \<Rightarrow> required_port_loop cfg keys
      | Some (JString port) \<Rightarrow> if port \<noteq> [] then Inr port else required_port_loop cfg keys
      | Some _ \<Rightarrow> Inl (PortNotString key))"

definition GetRequiredPortValue :: "json \<Rightarrow> serial_exn + string" where
  "GetRequiredPortValue cfg = required_port_loop cfg [''port'', ''device'']"

definition uint32_value :: "string \<Rightarrow> json \<Rightarrow> serial_exn + u32" where
  "uint32_value key v =
     (case v of
        JUnsigned parsed \<Rightarrow>
          if parsed > 2 ^ 32 - 1 then Inl (OutOfUint32 key) else Inr (of_nat parsed)
      | JInteger parsed \<Rightarrow>
          if parsed < 0 \<or> parsed > 2 ^ 32 - 1 then Inl (OutOfUint32 key) else Inr (of_int parsed)
      | JString s \<Rightarrow>
          (case stoull s of
             Inl e \<Rightarrow> Inl (StoullFailed e)
           | Inr parsed \<Rightarrow> if parsed > 2 ^ 32 - 1 then Inl (OutOfUint32 key) else Inr (of_nat parsed))
      | _ \<Rightarrow> Inl (NotUnsigned key))"

definition GetUint32Value :: "json \<Rightarrow> string list \<Rightarrow> u32 \<Rightarrow> serial_exn + u32" where
  "GetUint32Value cfg keys default_value =
     (case first_present cfg keys of
        Some (key, v) \<Rightarrow> uint32_value key v
      | None \<Rightarrow> Inr default_value)"

definition GetTokenValue :: "json \<Rightarrow> string list \<Rightarrow> string \<Rightarrow> serial_exn + string" where
  "GetTokenValue cfg keys default_value =
     (case first_present cfg keys of
        Some (key, v) \<Rightarrow> JsonValueToToken v key
      | None \<Rightarrow> Inr (NormalizeToken default_value))"

definition BuildTimeout :: "SerialInitOptions \<Rightarrow> serial_timeout" where
  "BuildTimeout options =
     (if so_inter_byte_timeout_ms options = 0 \<and>
         so_read_timeout_constant_ms options = so_timeout_ms options \<and>
         so_read_timeout_multiplier_ms options = 0 \<and>
         so_write_timeout_constant_ms options = so_timeout_ms options \<and>
         so_write_timeout_multiplier_ms options = 0
      then SimpleTimeout (so_timeout_ms options)
      else Timeout (so_inter_byte_timeout_ms options)
             (so_read_timeout_constant_ms options) (so_read_timeout_multiplier_ms options)
             (so_write_timeout_constant_ms options) (so_write_timeout_multiplier_ms options))"

definition ParseBytesize :: "string \<Rightarrow> serial_exn + bytesize" where
  "ParseBytesize val =
     (let normalized = NormalizeToken val in
      if normalized = ''fivebits'' \<or> normalized = ''5'' then Inr fivebits
      else if normalized = ''sixbits'' \<or> normalized = ''6'' then Inr sixbits
      else if normalized = ''sevenbits'' \<or> normalized = ''7'' then Inr sevenbits
      else if normalized = ''eightbits'' \<or> normalized = ''8'' then Inr eightbits
      else Inl (UnsupportedBytesize val))"

definition ParseParity :: "string \<Rightarrow> serial_exn + parity" where
  "ParseParity val =
     (let normalized = NormalizeToken val in
      if normalized = ''none'' \<or> normalized = ''parity_none'' then Inr parity_none
      else if normalized = ''odd'' \<or> normalized = ''parity_odd'' then Inr parity_odd
      else if normalized = ''even'' \<or> normalized = ''parity_even'' then Inr parity_even
      else if normalized = ''mark'' \<or> normalized = ''parity_mark'' then Inr parity_mark
      else if normalized = ''space'' \<or> normalized = ''parity_space'' then Inr parity_space
      else Inl (UnsupportedParity val))"

definition ParseStopbits :: "string \<Rightarrow> serial_exn + stopbits" where
  "ParseStopbits val =
     (let normalized = NormalizeToken val in
      if normalized = ''one'' \<or> normalized = ''1'' then Inr stopbits_one
      else if normalized = ''one_point_five'' \<or> normalized = ''1.5'' then Inr stopbits_one_point_five
      else if normalized = ''two'' \<or> normalized = ''2'' then Inr stopbits_two
      else Inl (UnsupportedStopbits val))"

definition ParseFlowcontrol :: "string \<Rightarrow> serial_exn + flowcontrol" where
  "ParseFlowcontrol val =
     (let normalized = NormalizeToken val in
      if normalized = ''none'' \<or> normalized = ''flowcontrol_none'' then Inr flowcontrol_none
      else if normalized = ''software'' \<or> normalized = ''flowcontrol_software'' then Inr flowcontrol_software
      else if normalized = ''hardware'' \<or> normalized = ''flowcontrol_hardware'' then Inr flowcontrol_hardware
      else Inl (UnsupportedFlowcontrol val))"

fun bytesize_ToString :: "bytesize \<Rightarrow> string" where
  "bytesize_ToString fivebits = ''fivebits''"
| "bytesize_ToString sixbits = ''sixbits''"
| "bytesize_ToString sevenbits = ''sevenbits''"
| "bytesize_ToString eightbits = ''eightbits''"

fun parity_ToString :: "parity \<Rightarrow> string" where
  "parity_ToString parity_none = ''none''"
| "parity_ToString parity_odd = ''odd''"
| "parity_ToString parity_even = ''even''"
| "parity_ToString parity_mark = ''mark''"
| "parity_ToString parity_space = ''space''"

fun stopbits_ToString :: "stopbits \<Rightarrow> string" where
  "stopbits_ToString stopbits_one = ''one''"
| "stopbits_ToString stopbits_one_point_five = ''one_point_five''"
| "stopbits_ToString stopbits_two = ''two''"

fun flowcontrol_ToString :: "flowcontrol \<Rightarrow> string" where
  "flowcontrol_ToString flowcontrol_none = ''none''"
| "flowcontrol_ToString flowcontrol_software = ''software''"
| "flowcontrol_ToString flowcontrol_hardware = ''hardware''"

text \<open>\<open>cfg.value("auto_open", default)\<close>: a present field must be a boolean, null included.\<close>

definition auto_open_value :: "json \<Rightarrow> bool \<Rightarrow> serial_exn + bool" where
  "auto_open_value cfg default_value =
     (case field cfg ''auto_open'' of
        None \<Rightarrow> Inr default_value
      | Some (JBool b) \<Rightarrow> Inr b
      | Some _ \<Rightarrow> Inl AutoOpenType)"

definition ParseOptions :: "json \<Rightarrow> serial_exn + SerialInitOptions" where
  "ParseOptions cfg =
     (let d = SerialInitOptions_init in
      if \<not> is_object cfg then Inl ConfigNotObject else
      ebind (GetRequiredPortValue cfg) (\<lambda>port.
      ebind (GetUint32Value cfg [''baudrate'', ''baud_rate''] (so_baudrate d)) (\<lambda>baudrate.
      ebind (GetUint32Value cfg [''timeout_ms''] (so_timeout_ms d)) (\<lambda>timeout_ms.
      ebind (GetUint32Value cfg [''inter_byte_timeout_ms''] (so_inter_byte_timeout_ms d)) (\<lambda>inter_byte.
      ebind (GetUint32Value cfg [''read_timeout_constant_ms''] timeout_ms) (\<lambda>read_const.
      ebind (GetUint32Value cfg [''read_timeout_multiplier_ms''] (so_read_timeout_multiplier_ms d)) (\<lambda>read_mult.
      ebind (GetUint32Value cfg [''write_timeout_constant_ms''] timeout_ms) (\<lambda>write_const.
      ebind (GetUint32Value cfg [''write_timeout_multiplier_ms''] (so_write_timeout_multiplier_ms d)) (\<lambda>write_mult.
      ebind (ebind (GetTokenValue cfg [''bytesize'', ''data_bits''] (so_bytesize d)) ParseBytesize) (\<lambda>bytesize.
      ebind (ebind (GetTokenValue cfg [''parity''] (so_parity d)) ParseParity) (\<lambda>parity.
      ebind (ebind (GetTokenValue cfg [''stopbits'', ''stop_bits''] (so_stopbits d)) ParseStopbits) (\<lambda>stopbits.
      ebind (ebind (GetTokenValue cfg [''flowcontrol'', ''flow_control''] (so_flowcontrol d)) ParseFlowcontrol) (\<lambda>flowcontrol.
      ebind (auto_open_value cfg (so_auto_open d)) (\<lambda>auto_open.
      Inr \<lparr>so_port = port, so_baudrate = baudrate, so_timeout_ms = timeout_ms,
           so_inter_byte_timeout_ms = inter_byte, so_read_timeout_constant_ms = read_const,
           so_read_timeout_multiplier_ms = read_mult, so_write_timeout_constant_ms = write_const,
           so_write_timeout_multiplier_ms = write_mult, so_bytesize = bytesize_ToString bytesize,
           so_parity = parity_ToString parity, so_stopbits = stopbits_ToString stopbits,
           so_flowcontrol = flowcontrol_ToString flowcontrol, so_auto_open = auto_open\<rparr>))))))))))))))"

section \<open>The port\<close>

record 'p MySerial =
  ms_serial :: "'p option"
  ms_options :: SerialInitOptions
  ms_initialized :: bool
  ms_last_error :: "serial_exn option"

definition MySerial_init :: "'p MySerial" where
  "MySerial_init = \<lparr>ms_serial = None, ms_options = SerialInitOptions_init, ms_initialized = False,
     ms_last_error = None\<rparr>"

text \<open>A library call on a fresh port inside \<open>Init\<close>: its exception abandons the port.\<close>

definition lib_step :: "('p, unit) lib_call \<Rightarrow> 'p \<Rightarrow> serial_exn + 'p" where
  "lib_step f p = (case f p of (Inl e, p') \<Rightarrow> Inl (LibFailed e) | (Inr _, p') \<Rightarrow> Inr p')"

definition close_previous :: "'p serial_lib \<Rightarrow> 'p option \<Rightarrow> serial_exn + unit" where
  "close_previous L port =
     (case port of
        Some p \<Rightarrow> if lib_isOpen L p then (case lib_close L p of (Inl e, _) \<Rightarrow> Inl (LibFailed e) | _ \<Rightarrow> Inr ())
                  else Inr ()
      | None \<Rightarrow> Inr ())"

definition configure_port :: "'p serial_lib \<Rightarrow> SerialInitOptions \<Rightarrow> serial_exn + 'p" where
  "configure_port L opts =
     ebind (case lib_new L of Inl e \<Rightarrow> Inl (LibFailed e) | Inr p \<Rightarrow> Inr p) (\<lambda>p.
     ebind (lib_step (lib_setPort L (so_port opts)) p) (\<lambda>p.
     ebind (lib_step (lib_setBaudrate L (so_baudrate opts)) p) (\<lambda>p.
     ebind (lib_step (lib_setTimeout L (BuildTimeout opts)) p) (\<lambda>p.
     ebind (ParseBytesize (so_bytesize opts)) (\<lambda>b.
     ebind (lib_step (lib_setBytesize L b) p) (\<lambda>p.
     ebind (ParseParity (so_parity opts)) (\<lambda>b.
     ebind (lib_step (lib_setParity L b) p) (\<lambda>p.
     ebind (ParseStopbits (so_stopbits opts)) (\<lambda>b.
     ebind (lib_step (lib_setStopbits L b) p) (\<lambda>p.
     ebind (ParseFlowcontrol (so_flowcontrol opts)) (\<lambda>b.
     ebind (lib_step (lib_setFlowcontrol L b) p) (\<lambda>p.
     if so_auto_open opts then lib_step (lib_open L) p else Inr p))))))))))))"

definition ms_Init :: "'p serial_lib \<Rightarrow> json \<Rightarrow> 'p MySerial \<Rightarrow> bool \<times> 'p MySerial" where
  "ms_Init L cfg s =
     (case ebind (close_previous L (ms_serial s)) (\<lambda>_.
           ebind (ParseOptions cfg) (\<lambda>opts.
           ebind (configure_port L opts) (\<lambda>p. Inr (opts, p)))) of
        Inr (opts, p) \<Rightarrow> (True, \<lparr>ms_serial = Some p, ms_options = opts, ms_initialized = True,
                                 ms_last_error = None\<rparr>)
      | Inl e \<Rightarrow> (False, \<lparr>ms_serial = None, ms_options = SerialInitOptions_init, ms_initialized = False,
                          ms_last_error = Some e\<rparr>))"

text \<open>\<open>ExecuteWithError\<close> around a body that needs the port: the result on success, and the port and
  \<open>last_error_\<close> afterwards.\<close>

definition with_port :: "'p MySerial \<Rightarrow> ('p \<Rightarrow> (serial_exn + 'r) \<times> 'p) \<Rightarrow> (serial_exn + 'r) \<times> 'p MySerial" where
  "with_port s body =
     (case (if ms_initialized s then ms_serial s else None) of
        None \<Rightarrow> (Inl NotInitialized, s\<lparr>ms_last_error := Some NotInitialized\<rparr>)
      | Some p \<Rightarrow>
          (case body p of (r, p') \<Rightarrow>
             (r, s\<lparr>ms_serial := Some p', ms_last_error := (case r of Inl e \<Rightarrow> Some e | Inr _ \<Rightarrow> None)\<rparr>)))"

definition lib_result :: "(string + 'r) \<times> 'p \<Rightarrow> (serial_exn + 'r) \<times> 'p" where
  "lib_result rp = (case rp of (Inl e, p) \<Rightarrow> (Inl (LibFailed e), p) | (Inr r, p) \<Rightarrow> (Inr r, p))"

definition open_guard :: "'p serial_lib \<Rightarrow> ('p, 'r) lib_call \<Rightarrow> 'p \<Rightarrow> (serial_exn + 'r) \<times> 'p" where
  "open_guard L call p = (if \<not> lib_isOpen L p then (Inl PortNotOpen, p) else lib_result (call p))"

definition ms_Open :: "'p serial_lib \<Rightarrow> 'p MySerial \<Rightarrow> bool \<times> 'p MySerial" where
  "ms_Open L s =
     (case with_port s (\<lambda>p. if \<not> lib_isOpen L p then lib_result (lib_open L p) else (Inr (), p)) of
        (r, s') \<Rightarrow> (case r of Inl _ \<Rightarrow> False | Inr _ \<Rightarrow> True, s'))"

text \<open>\<open>Close\<close> does not catch: the exception of the library reaches the caller.\<close>

definition ms_Close :: "'p serial_lib \<Rightarrow> 'p MySerial \<Rightarrow> string option \<times> 'p MySerial" where
  "ms_Close L s =
     (case ms_serial s of
        Some p \<Rightarrow>
          if lib_isOpen L p then
            (case lib_close L p of (r, p') \<Rightarrow>
               (case r of Inl e \<Rightarrow> Some e | Inr _ \<Rightarrow> None, s\<lparr>ms_serial := Some p'\<rparr>))
          else (None, s)
      | None \<Rightarrow> (None, s))"

definition ms_IsOpen :: "'p serial_lib \<Rightarrow> 'p MySerial \<Rightarrow> bool" where
  "ms_IsOpen L s = (case ms_serial s of Some p \<Rightarrow> lib_isOpen L p | None \<Rightarrow> False)"

text \<open>\<open>Write\<close>, \<open>ReadBytes\<close>, \<open>ReadLine\<close> and \<open>Available\<close>: the answer, the error for the caller, the port.\<close>

definition ms_Write :: "'p serial_lib \<Rightarrow> byte list \<Rightarrow> 'p MySerial \<Rightarrow> nat \<times> serial_exn option \<times> 'p MySerial" where
  "ms_Write L data s =
     (case with_port s (open_guard L (lib_write L data)) of
        (Inl e, s') \<Rightarrow> (0, Some e, s') | (Inr n, s') \<Rightarrow> (n, None, s'))"

text \<open>\<open>ReadBytes\<close> resizes the result before it reads into it, so when the library throws the caller gets
  \<open>size\<close> bytes: those the library had stored, then zeros.\<close>

definition ms_ReadBytes :: "'p serial_lib \<Rightarrow> nat \<Rightarrow> 'p MySerial \<Rightarrow> byte list \<times> serial_exn option \<times> 'p MySerial" where
  "ms_ReadBytes L n s =
     (case with_port s (open_guard L (lib_read L n)) of
        (Inl e, s') \<Rightarrow>
          ((case (e, ms_serial s) of
              (LibFailed _, Some p) \<Rightarrow> take n (lib_read_partial L n p @ replicate n 0)
            | _ \<Rightarrow> []), Some e, s')
      | (Inr bs, s') \<Rightarrow> (bs, None, s'))"

definition ms_Read :: "'p serial_lib \<Rightarrow> nat \<Rightarrow> 'p MySerial \<Rightarrow> byte list \<times> serial_exn option \<times> 'p MySerial" where
  "ms_Read L n s =
     (case with_port s (open_guard L (lib_read L n)) of
        (Inl e, s') \<Rightarrow> ([], Some e, s') | (Inr bs, s') \<Rightarrow> (bs, None, s'))"

definition ms_ReadLine :: "'p serial_lib \<Rightarrow> nat \<Rightarrow> byte list \<Rightarrow> 'p MySerial \<Rightarrow> byte list \<times> serial_exn option \<times> 'p MySerial" where
  "ms_ReadLine L max_size eol s =
     (case with_port s (open_guard L (lib_readline L max_size eol)) of
        (Inl e, s') \<Rightarrow> ([], Some e, s') | (Inr bs, s') \<Rightarrow> (bs, None, s'))"

definition ms_Available :: "'p serial_lib \<Rightarrow> 'p MySerial \<Rightarrow> nat \<times> serial_exn option \<times> 'p MySerial" where
  "ms_Available L s =
     (case with_port s (open_guard L (lib_available L)) of
        (Inl e, s') \<Rightarrow> (0, Some e, s') | (Inr n, s') \<Rightarrow> (n, None, s'))"

section \<open>Snapshot and self test\<close>

record SerialPortSnapshot =
  snp_initialized :: bool
  snp_open :: bool
  snp_port :: string
  snp_baudrate :: u32
  snp_timeout_ms :: u32
  snp_available_bytes :: nat
  snp_bytesize :: string
  snp_parity :: string
  snp_stopbits :: string
  snp_flowcontrol :: string
  snp_last_error :: "serial_exn option"

definition ms_GetSnapshot :: "'p serial_lib \<Rightarrow> 'p MySerial \<Rightarrow> SerialPortSnapshot" where
  "ms_GetSnapshot L s =
     (let snapshot = \<lparr>snp_initialized = ms_initialized s, snp_open = False, snp_port = '''',
        snp_baudrate = 0, snp_timeout_ms = 0, snp_available_bytes = 0, snp_bytesize = '''',
        snp_parity = '''', snp_stopbits = '''', snp_flowcontrol = '''',
        snp_last_error = ms_last_error s\<rparr> in
      case (if ms_initialized s then ms_serial s else None) of
        None \<Rightarrow> snapshot
      | Some p \<Rightarrow>
          let opts = ms_options s;
              snapshot = snapshot\<lparr>snp_open := lib_isOpen L p, snp_port := so_port opts,
                snp_baudrate := so_baudrate opts, snp_timeout_ms := so_timeout_ms opts,
                snp_bytesize := so_bytesize opts, snp_parity := so_parity opts,
                snp_stopbits := so_stopbits opts, snp_flowcontrol := so_flowcontrol opts\<rparr> in
          if snp_open snapshot then
            (case fst (lib_available L p) of
               Inr n \<Rightarrow> snapshot\<lparr>snp_available_bytes := n\<rparr>
             | Inl e \<Rightarrow> snapshot\<lparr>snp_last_error := Some (LibFailed e)\<rparr>)
          else snapshot)"

text \<open>\<open>!err.empty()\<close>: only a library exception may have an empty text.\<close>

fun err_text_set :: "serial_exn option \<Rightarrow> bool" where
  "err_text_set None = False"
| "err_text_set (Some (LibFailed t)) = (t \<noteq> [])"
| "err_text_set (Some _) = True"

datatype loopback_summary = LoopWriteFailed serial_exn | LoopReadFailed serial_exn | LoopPassed | LoopMismatch

definition ms_SelfTestLoopback :: "'p serial_lib \<Rightarrow> byte list \<Rightarrow> nat \<Rightarrow> 'p MySerial \<Rightarrow> (bool \<times> loopback_summary) \<times> 'p MySerial" where
  "ms_SelfTestLoopback L payload read_size s =
     (let expected_size = (if read_size = 0 then length payload else read_size) in
      case ms_Write L payload s of (written, err, s) \<Rightarrow>
      if err_text_set err then ((False, LoopWriteFailed (the err)), s)
      else
        (case ms_Read L expected_size s of (received, err, s) \<Rightarrow>
         if err_text_set err then ((False, LoopReadFailed (the err)), s)
         else ((received = payload, if received = payload then LoopPassed else LoopMismatch), s)))"

section \<open>Behaviour\<close>

lemmas serial_parse_defs = ParseBytesize_def ParseParity_def ParseStopbits_def ParseFlowcontrol_def
  NormalizeToken_def ctolower_def Let_def

lemma ParseBytesize_ToString [simp]: "ParseBytesize (bytesize_ToString b) = Inr b"
  by (cases b; simp only: bytesize_ToString.simps; code_simp)

lemma ParseParity_ToString [simp]: "ParseParity (parity_ToString b) = Inr b"
  by (cases b; simp only: parity_ToString.simps; code_simp)

lemma ParseStopbits_ToString [simp]: "ParseStopbits (stopbits_ToString b) = Inr b"
  by (cases b; simp only: stopbits_ToString.simps; code_simp)

lemma ParseFlowcontrol_ToString [simp]: "ParseFlowcontrol (flowcontrol_ToString b) = Inr b"
  by (cases b; simp only: flowcontrol_ToString.simps; code_simp)

lemma required_port_nonempty: "required_port_loop cfg keys = Inr port \<Longrightarrow> port \<noteq> []"
  by (induction cfg keys rule: required_port_loop.induct) (auto split: option.splits json.splits if_splits)

lemma GetRequiredPortValue_nonempty: "GetRequiredPortValue cfg = Inr port \<Longrightarrow> port \<noteq> []"
  unfolding GetRequiredPortValue_def by (rule required_port_nonempty)

text \<open>The options that a successful parse can give.\<close>

definition canonical_options :: "SerialInitOptions \<Rightarrow> bool" where
  "canonical_options opts \<longleftrightarrow> so_port opts \<noteq> [] \<and>
     (\<exists>b. so_bytesize opts = bytesize_ToString b) \<and> (\<exists>b. so_parity opts = parity_ToString b) \<and>
     (\<exists>b. so_stopbits opts = stopbits_ToString b) \<and> (\<exists>b. so_flowcontrol opts = flowcontrol_ToString b)"

lemma ParseOptions_canonical: "ParseOptions cfg = Inr opts \<Longrightarrow> canonical_options opts"
  unfolding ParseOptions_def Let_def
  by (cases "is_object cfg")
    (auto simp: ebind_eq_Inr_iff canonical_options_def dest: GetRequiredPortValue_nonempty)

lemma lib_step_Inl: "lib_step f p = Inl e \<Longrightarrow> \<exists>t. e = LibFailed t"
  by (auto simp: lib_step_def split: prod.splits sum.splits)

lemma ebind_eq_Inl_iff: "ebind m f = Inl e \<longleftrightarrow> m = Inl e \<or> (\<exists>a. m = Inr a \<and> f a = Inl e)"
  by (cases m) auto

lemma configure_port_Inl:
  assumes "canonical_options opts" and "configure_port L opts = Inl e"
  shows "\<exists>t. e = LibFailed t"
proof -
  from assms(1) obtain b p s f where c: "so_bytesize opts = bytesize_ToString b"
    "so_parity opts = parity_ToString p" "so_stopbits opts = stopbits_ToString s"
    "so_flowcontrol opts = flowcontrol_ToString f" by (auto simp: canonical_options_def)
  show ?thesis
    using assms(2) unfolding configure_port_def c
    by (auto simp: ebind_eq_Inl_iff split: sum.splits if_splits dest: lib_step_Inl)
qed

text \<open>What the documentation of the library says of opening a port: a port is created closed, its
  settings do not open or close it, and \<open>open\<close> returns only with an open port.\<close>

definition keeps_open :: "'p serial_lib \<Rightarrow> ('p, unit) lib_call \<Rightarrow> bool" where
  "keeps_open L f \<longleftrightarrow> (\<forall>p p'. f p = (Inr (), p') \<longrightarrow> lib_isOpen L p' = lib_isOpen L p)"

definition open_laws :: "'p serial_lib \<Rightarrow> bool" where
  "open_laws L \<longleftrightarrow>
     (\<forall>p. lib_new L = Inr p \<longrightarrow> \<not> lib_isOpen L p) \<and>
     (\<forall>v. keeps_open L (lib_setPort L v)) \<and> (\<forall>v. keeps_open L (lib_setBaudrate L v)) \<and>
     (\<forall>v. keeps_open L (lib_setTimeout L v)) \<and> (\<forall>v. keeps_open L (lib_setBytesize L v)) \<and>
     (\<forall>v. keeps_open L (lib_setParity L v)) \<and> (\<forall>v. keeps_open L (lib_setStopbits L v)) \<and>
     (\<forall>v. keeps_open L (lib_setFlowcontrol L v)) \<and>
     (\<forall>p p'. lib_open L p = (Inr (), p') \<longrightarrow> lib_isOpen L p')"

lemma lib_step_keeps: "keeps_open L f \<Longrightarrow> lib_step f p = Inr p' \<Longrightarrow> lib_isOpen L p' = lib_isOpen L p"
  by (auto simp: lib_step_def keeps_open_def split: prod.splits sum.splits)

lemma lib_step_open:
  "open_laws L \<Longrightarrow> lib_step (lib_open L) p = Inr p' \<Longrightarrow> lib_isOpen L p'"
  by (auto simp: lib_step_def open_laws_def split: prod.splits sum.splits)

lemma configure_port_open:
  assumes L: "open_laws L" and "configure_port L opts = Inr p"
  shows "lib_isOpen L p = so_auto_open opts"
proof -
  from assms(2) obtain p0 p1 p2 p3 p4 p5 p6 p7 b4 b5 b6 b7 where new: "lib_new L = Inr p0"
    and steps: "lib_step (lib_setPort L (so_port opts)) p0 = Inr p1"
      "lib_step (lib_setBaudrate L (so_baudrate opts)) p1 = Inr p2"
      "lib_step (lib_setTimeout L (BuildTimeout opts)) p2 = Inr p3"
      "lib_step (lib_setBytesize L b4) p3 = Inr p4" "lib_step (lib_setParity L b5) p4 = Inr p5"
      "lib_step (lib_setStopbits L b6) p5 = Inr p6" "lib_step (lib_setFlowcontrol L b7) p6 = Inr p7"
    and fin: "(if so_auto_open opts then lib_step (lib_open L) p7 else Inr p7) = Inr p"
    unfolding configure_port_def ebind_eq_Inr_iff by (auto split: sum.splits)
  have "lib_isOpen L p7 = lib_isOpen L p0"
    using L steps [THEN lib_step_keeps [rotated, of _ _ _ L]] by (simp add: open_laws_def)
  then show ?thesis
    using L new fin lib_step_open [OF L, of p7 p] by (auto simp: open_laws_def split: if_splits)
qed

lemma ms_Init_cases:
  assumes "ms_Init L cfg s = (ok, s')"
  shows "(if ok then ParseOptions cfg = Inr (ms_options s') \<and> ms_initialized s' \<and> ms_last_error s' = None \<and>
            (\<exists>p. ms_serial s' = Some p \<and> configure_port L (ms_options s') = Inr p)
          else \<exists>e. s' = MySerial_init\<lparr>ms_last_error := Some e\<rparr>)"
  using assms unfolding ms_Init_def MySerial_init_def
  by (auto split: sum.splits prod.splits simp: ebind_eq_Inr_iff)

text \<open>What an operation on a port that is not open answers.\<close>

definition closed_error :: "'p MySerial \<Rightarrow> serial_exn" where
  "closed_error s = (if ms_initialized s \<and> ms_serial s \<noteq> None then PortNotOpen else NotInitialized)"

lemma with_port_closed:
  "\<not> ms_IsOpen L s \<Longrightarrow> with_port s (open_guard L call)
     = (Inl (closed_error s), s\<lparr>ms_last_error := Some (closed_error s)\<rparr>)"
  by (cases "ms_serial s") (auto simp: with_port_def open_guard_def closed_error_def ms_IsOpen_def)

text \<open>What the library promises of a write: the bytes handed over are a prefix of the data, and a
  returning call answers their number.\<close>

definition write_law :: "'p serial_lib \<Rightarrow> ('p \<Rightarrow> byte list) \<Rightarrow> bool" where
  "write_law L sent \<longleftrightarrow>
     (\<forall>d p n p'. lib_write L d p = (Inr n, p') \<longrightarrow> n \<le> length d \<and> sent p' = sent p @ take n d) \<and>
     (\<forall>d p e p'. lib_write L d p = (Inl e, p') \<longrightarrow> (\<exists>k. sent p' = sent p @ take k d))"

lemma ms_Write_law:
  assumes "write_law L sent" and "ms_serial s = Some p" and "ms_Write L data s = (n, err, s')"
  shows "\<exists>p'. ms_serial s' = Some p' \<and> n \<le> length data \<and>
    (\<exists>k. sent p' = sent p @ take k data \<and> (0 < n \<longrightarrow> k = n))"
proof (cases "lib_write L data p")
  case (Pair r p')
  have z: "\<exists>k. sent p = sent p @ take k data" by (rule exI [of _ 0]) simp
  show ?thesis
    using assms Pair z
    by (cases r) (auto simp: ms_Write_def with_port_def open_guard_def lib_result_def write_law_def split: if_splits)
qed

text \<open>A port that records what is written and answers what is queued.\<close>

record recording_port =
  rp_open :: bool
  rp_sent :: "byte list"
  rp_incoming :: "byte list"

definition accept_setting :: "'a \<Rightarrow> recording_port \<Rightarrow> (string + unit) \<times> recording_port" where
  "accept_setting v p = (Inr (), p)"

definition recording_lib :: "recording_port serial_lib" where
  "recording_lib = \<lparr>lib_new = Inr \<lparr>rp_open = False, rp_sent = [], rp_incoming = []\<rparr>,
     lib_setPort = accept_setting, lib_setBaudrate = accept_setting, lib_setTimeout = accept_setting,
     lib_setBytesize = accept_setting, lib_setParity = accept_setting, lib_setStopbits = accept_setting,
     lib_setFlowcontrol = accept_setting, lib_open = (\<lambda>p. (Inr (), p\<lparr>rp_open := True\<rparr>)),
     lib_close = (\<lambda>p. (Inr (), p\<lparr>rp_open := False\<rparr>)), lib_isOpen = rp_open,
     lib_write = (\<lambda>d p. (Inr (length d), p\<lparr>rp_sent := rp_sent p @ d\<rparr>)),
     lib_read = (\<lambda>n p. (Inr (take n (rp_incoming p)), p\<lparr>rp_incoming := drop n (rp_incoming p)\<rparr>)),
     lib_read_partial = (\<lambda>n p. []),
     lib_readline = (\<lambda>n eol p. (Inr (take n (rp_incoming p)), p\<lparr>rp_incoming := drop n (rp_incoming p)\<rparr>)),
     lib_available = (\<lambda>p. (Inr (length (rp_incoming p)), p))\<rparr>"

lemma recording_lib_open_laws: "open_laws recording_lib"
  by (simp add: open_laws_def keeps_open_def recording_lib_def accept_setting_def)

lemma recording_lib_write_law: "write_law recording_lib rp_sent"
  by (simp add: write_law_def recording_lib_def)

section \<open>Properties\<close>

text \<open>options that \<open>ParseOptions\<close> accepts are canonical: the port name is not empty and the four
  line settings are the names \<open>ToString\<close> prints, which the parsers read back to the same value. So
  the second parse inside \<open>Init\<close> cannot throw, and configuring a port with them fails only when the
  library throws.\<close>

theorem serial_options_canonical:
  assumes "ParseOptions cfg = Inr opts"
  shows "so_port opts \<noteq> [] \<and>
    (\<exists>b. ParseBytesize (so_bytesize opts) = Inr b \<and> bytesize_ToString b = so_bytesize opts) \<and>
    (\<exists>p. ParseParity (so_parity opts) = Inr p \<and> parity_ToString p = so_parity opts) \<and>
    (\<exists>s. ParseStopbits (so_stopbits opts) = Inr s \<and> stopbits_ToString s = so_stopbits opts) \<and>
    (\<exists>f. ParseFlowcontrol (so_flowcontrol opts) = Inr f \<and> flowcontrol_ToString f = so_flowcontrol opts) \<and>
    (\<forall>e. configure_port L opts = Inl e \<longrightarrow> (\<exists>t. e = LibFailed t))"
  using ParseOptions_canonical [OF assms] configure_port_Inl [OF ParseOptions_canonical [OF assms], of L]
  unfolding canonical_options_def by fastforce

definition demo_config :: json where
  "demo_config = JObject [(''device'', JString ''/dev/ttyS1''), (''baud_rate'', JString ''115200''),
     (''data_bits'', JUnsigned 8), (''parity'', JString ''EVEN'')]"

definition demo_options :: SerialInitOptions where
  "demo_options = SerialInitOptions_init\<lparr>so_port := ''/dev/ttyS1'', so_baudrate := 115200, so_parity := ''even''\<rparr>"

lemma demo_parse: "ParseOptions demo_config = Inr demo_options"
proof -
  have u: "uint32_value ''baud_rate'' (JString ''115200'') = Inr 115200"
    by (simp add: uint32_value_def stoull_def cisspace_def cisdigit_def)
  have b: "ParseBytesize ''8'' = Inr eightbits" "ParseParity ''even'' = Inr parity_even"
      "NormalizeToken ''EVEN'' = ''even''" "nat_to_string 8 = ''8''"
    by (code_simp, code_simp, code_simp, code_simp)
  have d: "ParseStopbits (NormalizeToken ''one'') = Inr stopbits_one"
      "ParseFlowcontrol (NormalizeToken ''none'') = Inr flowcontrol_none"
    by (code_simp, code_simp)
  show ?thesis
    by (simp add: ParseOptions_def demo_config_def GetRequiredPortValue_def GetUint32Value_def u b d
        GetTokenValue_def auto_open_value_def SerialInitOptions_init_def demo_options_def)
qed

theorem serial_options_canonical_witness:
  "ParseOptions demo_config = Inr demo_options \<and> so_port demo_options \<noteq> [] \<and>
   (\<exists>p. ParseParity (so_parity demo_options) = Inr p \<and> parity_ToString p = so_parity demo_options) \<and>
   configure_port recording_lib demo_options \<noteq> Inl NotInitialized"
  using demo_parse serial_options_canonical [OF demo_parse, of recording_lib] by blast

text \<open>\<open>Init\<close> commits or resets. When it answers true the options are those of the configuration, and
  the port is open exactly when \<open>auto_open\<close> asked for it; when it answers false nothing of the new or
  the previous port is left but the error text. On a port that is not open, every transfer answers
  nothing with the right error, and leaves the port alone.\<close>

theorem serial_init_contract:
  assumes "open_laws L" and "ms_Init L cfg s = (ok, s')" and "\<not> ms_IsOpen L t"
  shows "(if ok then ParseOptions cfg = Inr (ms_options s') \<and> ms_initialized s' \<and> ms_last_error s' = None \<and>
             ms_IsOpen L s' = so_auto_open (ms_options s')
          else \<exists>e. s' = MySerial_init\<lparr>ms_last_error := Some e\<rparr>) \<and>
    (let e = closed_error t; t' = t\<lparr>ms_last_error := Some e\<rparr> in
       ms_Write L data t = (0, Some e, t') \<and> ms_Read L n t = ([], Some e, t') \<and>
       ms_ReadBytes L n t = ([], Some e, t') \<and> ms_ReadLine L n eol t = ([], Some e, t') \<and>
       ms_Available L t = (0, Some e, t') \<and> ms_SelfTestLoopback L data n t = ((False, LoopWriteFailed e), t'))"
proof (rule conjI)
  show "if ok then ParseOptions cfg = Inr (ms_options s') \<and> ms_initialized s' \<and> ms_last_error s' = None \<and>
             ms_IsOpen L s' = so_auto_open (ms_options s')
          else \<exists>e. s' = MySerial_init\<lparr>ms_last_error := Some e\<rparr>"
    using ms_Init_cases [OF assms(2)] configure_port_open [OF assms(1)]
    by (auto simp: ms_IsOpen_def split: if_splits)
  show "let e = closed_error t; t' = t\<lparr>ms_last_error := Some e\<rparr> in
       ms_Write L data t = (0, Some e, t') \<and> ms_Read L n t = ([], Some e, t') \<and>
       ms_ReadBytes L n t = ([], Some e, t') \<and> ms_ReadLine L n eol t = ([], Some e, t') \<and>
       ms_Available L t = (0, Some e, t') \<and> ms_SelfTestLoopback L data n t = ((False, LoopWriteFailed e), t')"
    by (simp add: Let_def ms_Write_def ms_Read_def ms_ReadBytes_def ms_ReadLine_def ms_Available_def
        ms_SelfTestLoopback_def with_port_closed [OF assms(3)] closed_error_def split: prod.splits)
qed

lemma demo_configured:
  "configure_port recording_lib demo_options = Inr \<lparr>rp_open = True, rp_sent = [], rp_incoming = []\<rparr>"
proof -
  have "ParseBytesize ''eightbits'' = Inr eightbits" "ParseParity ''even'' = Inr parity_even"
    "ParseStopbits ''one'' = Inr stopbits_one" "ParseFlowcontrol ''none'' = Inr flowcontrol_none"
    by (code_simp, code_simp, code_simp, code_simp)
  then show ?thesis
    by (simp add: configure_port_def recording_lib_def demo_options_def SerialInitOptions_init_def
        lib_step_def accept_setting_def)
qed

theorem serial_init_contract_witness:
  "fst (ms_Init recording_lib demo_config MySerial_init) \<and>
   ms_IsOpen recording_lib (snd (ms_Init recording_lib demo_config MySerial_init)) \<and>
   ms_Write recording_lib [7] MySerial_init
     = (0, Some NotInitialized, MySerial_init\<lparr>ms_last_error := Some NotInitialized\<rparr>)"
proof -
  have i: "ms_Init recording_lib demo_config MySerial_init =
      (True, \<lparr>ms_serial = Some \<lparr>rp_open = True, rp_sent = [], rp_incoming = []\<rparr>, ms_options = demo_options,
        ms_initialized = True, ms_last_error = None\<rparr>)"
    by (simp add: ms_Init_def MySerial_init_def close_previous_def demo_parse demo_configured)
  have c: "\<not> ms_IsOpen recording_lib MySerial_init" by (simp add: ms_IsOpen_def MySerial_init_def)
  have "so_auto_open demo_options" by (simp add: demo_options_def SerialInitOptions_init_def)
  with i serial_init_contract [OF recording_lib_open_laws i c, where data = "[7]"] show ?thesis
    by (simp add: Let_def closed_error_def MySerial_init_def)
qed

end
