(* ===== verification/FlyControl.thy ===== *)
theory FlyControl
  imports FlyCodec Serial
begin

text \<open>
  \<open>src/util/my_fly_control/MyFlyControl.cpp\<close>: the controller object over a serial port and a frame
  parser. Callbacks are identified by numbers, and a call of a callback is an event of the returned
  list. One round of \<open>ReceiveLoop\<close> reads, feeds the parser and handles the frames; \<open>HandleFrame\<close> does
  not touch the parser, so the round takes all frames first. An exception that leaves a decoder
  would be an \<open>Inl\<close>. Log output is left out.
\<close>

section \<open>State\<close>

datatype fc_event =
    HeartbeatEvent nat HeartbeatData
  | ReplyEvent nat CommandReplyData
  | GimbalEvent nat GimbalControlData

record 'p MyFlyControl =
  fc_serial :: "'p MySerial"
  fc_parser :: "byte list"
  fc_running :: bool
  fc_recv_thread :: bool
  fc_latest_hb :: HeartbeatData
  fc_has_hb :: bool
  fc_cnt :: byte
  fc_on_heartbeat :: "nat option"
  fc_on_reply :: "nat option"
  fc_on_gimbal :: "nat option"

definition MyFlyControl_init :: "'p MyFlyControl" where
  "MyFlyControl_init = \<lparr>fc_serial = MySerial_init, fc_parser = [], fc_running = False,
     fc_recv_thread = False, fc_latest_hb = HeartbeatData_init, fc_has_hb = False, fc_cnt = 0,
     fc_on_heartbeat = None, fc_on_reply = None, fc_on_gimbal = None\<rparr>"

section \<open>Life cycle\<close>

definition fc_Init :: "'p serial_lib \<Rightarrow> json \<Rightarrow> 'p MyFlyControl \<Rightarrow> bool \<times> 'p MyFlyControl" where
  "fc_Init L cfg s = (case ms_Init L cfg (fc_serial s) of (ok, port) \<Rightarrow> (ok, s\<lparr>fc_serial := port\<rparr>))"

datatype start_error = AlreadyRunning | OpenError

definition fc_Start :: "'p serial_lib \<Rightarrow> 'p MyFlyControl \<Rightarrow> (start_error + unit) \<times> 'p MyFlyControl" where
  "fc_Start L s =
     (if fc_running s then (Inl AlreadyRunning, s)
      else case (if \<not> ms_IsOpen L (fc_serial s) then ms_Open L (fc_serial s) else (True, fc_serial s)) of
        (ok, port) \<Rightarrow>
          let s = s\<lparr>fc_serial := port\<rparr> in
          if \<not> ok then (Inl OpenError, s)
          else (Inr (), s\<lparr>fc_parser := Reset (fc_parser s), fc_running := True, fc_recv_thread := True\<rparr>))"

text \<open>\<open>Stop\<close>; the exception \<open>serial_.Close()\<close> may throw is returned.\<close>

definition fc_Stop :: "'p serial_lib \<Rightarrow> 'p MyFlyControl \<Rightarrow> string option \<times> 'p MyFlyControl" where
  "fc_Stop L s =
     (if \<not> fc_running s then (None, s)
      else case ms_Close L (fc_serial s) of (e, port) \<Rightarrow>
        (e, s\<lparr>fc_running := False, fc_recv_thread := False, fc_serial := port\<rparr>))"

definition fc_IsRunning :: "'p MyFlyControl \<Rightarrow> bool" where
  "fc_IsRunning s = fc_running s"

definition SetOnHeartbeat :: "nat option \<Rightarrow> 'p MyFlyControl \<Rightarrow> 'p MyFlyControl" where
  "SetOnHeartbeat cb s = s\<lparr>fc_on_heartbeat := cb\<rparr>"

definition SetOnCommandReply :: "nat option \<Rightarrow> 'p MyFlyControl \<Rightarrow> 'p MyFlyControl" where
  "SetOnCommandReply cb s = s\<lparr>fc_on_reply := cb\<rparr>"

definition SetOnGimbalControl :: "nat option \<Rightarrow> 'p MyFlyControl \<Rightarrow> 'p MyFlyControl" where
  "SetOnGimbalControl cb s = s\<lparr>fc_on_gimbal := cb\<rparr>"

definition GetLatestHeartbeat :: "'p MyFlyControl \<Rightarrow> HeartbeatData" where
  "GetLatestHeartbeat s = fc_latest_hb s"

definition GetFaultBits :: "'p MyFlyControl \<Rightarrow> FaultBits" where
  "GetFaultBits s = FromU16 (hb_fault_info (fc_latest_hb s))"

definition HasHeartbeat :: "'p MyFlyControl \<Rightarrow> bool" where
  "HasHeartbeat s = fc_has_hb s"

section \<open>Sending\<close>

definition NextCnt :: "'p MyFlyControl \<Rightarrow> byte \<times> 'p MyFlyControl" where
  "NextCnt s = (fc_cnt s, s\<lparr>fc_cnt := fc_cnt s + 1\<rparr>)"

definition SendRawData :: "'p serial_lib \<Rightarrow> byte list \<Rightarrow> 'p MyFlyControl \<Rightarrow> bool \<times> 'p MyFlyControl" where
  "SendRawData L data s =
     (case ms_Write L data (fc_serial s) of (written, err, port) \<Rightarrow>
        (written = length data, s\<lparr>fc_serial := port\<rparr>))"

text \<open>\<open>auto frame = Encode...(NextCnt(), data); return SendRawData(frame, err);\<close>\<close>

definition send_frame :: "'p serial_lib \<Rightarrow> (byte \<Rightarrow> byte list) \<Rightarrow> 'p MyFlyControl \<Rightarrow> bool \<times> 'p MyFlyControl" where
  "send_frame L enc s = (case NextCnt s of (cnt, s) \<Rightarrow> SendRawData L (enc cnt) s)"

definition SendSetDestination :: "'p serial_lib \<Rightarrow> i32 \<Rightarrow> i32 \<Rightarrow> u16 \<Rightarrow> 'p MyFlyControl \<Rightarrow> bool \<times> 'p MyFlyControl" where
  "SendSetDestination L lon lat alt s =
     (let data = SetDestinationData_init\<lparr>sd_longitude := lon, sd_latitude := lat, sd_altitude := alt\<rparr>
      in send_frame L (\<lambda>cnt. EncodeSetDestination cnt data) s)"

definition SendSetRoute :: "'p serial_lib \<Rightarrow> RoutePoint list \<Rightarrow> 'p MyFlyControl \<Rightarrow> bool \<times> 'p MyFlyControl" where
  "SendSetRoute L points s =
     (if points = [] \<or> length points > 50 then (False, s)
      else let data = SetRouteData_init\<lparr>sr_points := points\<rparr>
        in send_frame L (\<lambda>cnt. EncodeSetRoute cnt data) s)"

definition SendSetAngle :: "'p serial_lib \<Rightarrow> i16 \<Rightarrow> u16 \<Rightarrow> 'p MyFlyControl \<Rightarrow> bool \<times> 'p MyFlyControl" where
  "SendSetAngle L pitch yaw s =
     (let data = SetAngleData_init\<lparr>sa_pitch := pitch, sa_yaw := yaw\<rparr>
      in send_frame L (\<lambda>cnt. EncodeSetAngle cnt data) s)"

definition SendSetSpeed :: "'p serial_lib \<Rightarrow> u16 \<Rightarrow> 'p MyFlyControl \<Rightarrow> bool \<times> 'p MyFlyControl" where
  "SendSetSpeed L speed s =
     (let data = SetSpeedData_init\<lparr>ss_speed := speed\<rparr>
      in send_frame L (\<lambda>cnt. EncodeSetSpeed cnt data) s)"

definition SendSetAltitude :: "'p serial_lib \<Rightarrow> byte \<Rightarrow> u16 \<Rightarrow> 'p MyFlyControl \<Rightarrow> bool \<times> 'p MyFlyControl" where
  "SendSetAltitude L alt_type altitude s =
     (let data = SetAltitudeData_init\<lparr>sal_altitude_type := alt_type, sal_altitude := altitude\<rparr>
      in send_frame L (\<lambda>cnt. EncodeSetAltitude cnt data) s)"

definition SendPowerSwitch :: "'p serial_lib \<Rightarrow> byte \<Rightarrow> 'p MyFlyControl \<Rightarrow> bool \<times> 'p MyFlyControl" where
  "SendPowerSwitch L command s =
     (let data = PowerSwitchData_init\<lparr>ps_command := command\<rparr>
      in send_frame L (\<lambda>cnt. EncodePowerSwitch cnt data) s)"

definition SendParachute :: "'p serial_lib \<Rightarrow> byte \<Rightarrow> 'p MyFlyControl \<Rightarrow> bool \<times> 'p MyFlyControl" where
  "SendParachute L parachute_type s =
     (let data = ParachuteData_init\<lparr>pc_parachute_type := parachute_type\<rparr>
      in send_frame L (\<lambda>cnt. EncodeParachute cnt data) s)"

definition SendButtonCommand :: "'p serial_lib \<Rightarrow> byte \<Rightarrow> 'p MyFlyControl \<Rightarrow> bool \<times> 'p MyFlyControl" where
  "SendButtonCommand L button s =
     (let data = ButtonCommandData_init\<lparr>bc_button := button\<rparr>
      in send_frame L (\<lambda>cnt. EncodeButtonCommand cnt data) s)"

definition SendSetOriginReturn :: "'p serial_lib \<Rightarrow> byte \<Rightarrow> i32 \<Rightarrow> i32 \<Rightarrow> u16 \<Rightarrow> 'p MyFlyControl \<Rightarrow> bool \<times> 'p MyFlyControl" where
  "SendSetOriginReturn L point_type lon lat alt s =
     (let data = SetOriginReturnData_init\<lparr>so_point_type := point_type, so_longitude := lon,
            so_latitude := lat, so_altitude := alt\<rparr>
      in send_frame L (\<lambda>cnt. EncodeSetOriginReturn cnt data) s)"

definition SendSetGeofence :: "'p serial_lib \<Rightarrow> GeofencePoint list \<Rightarrow> 'p MyFlyControl \<Rightarrow> bool \<times> 'p MyFlyControl" where
  "SendSetGeofence L points s =
     (if length points < 3 \<or> length points > 50 then (False, s)
      else let data = SetGeofenceData_init\<lparr>sg_points := points\<rparr>
        in send_frame L (\<lambda>cnt. EncodeSetGeofence cnt data) s)"

definition SendSwitchMode :: "'p serial_lib \<Rightarrow> byte \<Rightarrow> 'p MyFlyControl \<Rightarrow> bool \<times> 'p MyFlyControl" where
  "SendSwitchMode L mode s =
     (let data = SwitchModeData_init\<lparr>sm_mode := mode\<rparr>
      in send_frame L (\<lambda>cnt. EncodeSwitchMode cnt data) s)"

definition SendGuidance :: "'p serial_lib \<Rightarrow> GuidanceData \<Rightarrow> 'p MyFlyControl \<Rightarrow> bool \<times> 'p MyFlyControl" where
  "SendGuidance L data s = send_frame L (\<lambda>cnt. EncodeGuidance cnt data) s"

definition SendGuidanceNew :: "'p serial_lib \<Rightarrow> GuidanceNewData \<Rightarrow> 'p MyFlyControl \<Rightarrow> bool \<times> 'p MyFlyControl" where
  "SendGuidanceNew L data s = send_frame L (\<lambda>cnt. EncodeGuidanceNew cnt data) s"

definition SendGimbalAngRate :: "'p serial_lib \<Rightarrow> GimbalAngRateData \<Rightarrow> 'p MyFlyControl \<Rightarrow> bool \<times> 'p MyFlyControl" where
  "SendGimbalAngRate L data s = send_frame L (\<lambda>cnt. EncodeGimbalAngRate cnt data) s"

definition SendGimbalAngle :: "'p serial_lib \<Rightarrow> GimbalAngleData \<Rightarrow> 'p MyFlyControl \<Rightarrow> bool \<times> 'p MyFlyControl" where
  "SendGimbalAngle L data s = send_frame L (\<lambda>cnt. EncodeGimbalAngle cnt data) s"

definition SendTargetState :: "'p serial_lib \<Rightarrow> TargetStateData \<Rightarrow> 'p MyFlyControl \<Rightarrow> bool \<times> 'p MyFlyControl" where
  "SendTargetState L data s = send_frame L (\<lambda>cnt. EncodeTargetState cnt data) s"

section \<open>Receiving\<close>

definition fc_emit :: "nat option \<Rightarrow> (nat \<Rightarrow> fc_event) \<Rightarrow> fc_event list" where
  "fc_emit cb ev = (case cb of Some k \<Rightarrow> [ev k] | None \<Rightarrow> [])"

definition HandleFrame :: "ParsedFrame \<Rightarrow> 'p MyFlyControl \<Rightarrow> cxx_error + (fc_event list \<times> 'p MyFlyControl)" where
  "HandleFrame frame s =
     (if pf_frame_type frame = FRAME_TYPE_HEARTBEAT then
        ebind (DecodeHeartbeat (pf_payload frame) (HeartbeatData_init\<lparr>hb_cnt := pf_cnt frame\<rparr>)) (\<lambda>(ok, hb).
        Inr (if ok then (fc_emit (fc_on_heartbeat s) (\<lambda>k. HeartbeatEvent k hb),
                         s\<lparr>fc_latest_hb := hb, fc_has_hb := True\<rparr>)
             else ([], s)))
      else if pf_frame_type frame = FRAME_TYPE_REPLY then
        ebind (DecodeCommandReply (pf_payload frame) (CommandReplyData_init\<lparr>cr_cnt := pf_cnt frame\<rparr>)) (\<lambda>(ok, reply).
        Inr (if ok then (fc_emit (fc_on_reply s) (\<lambda>k. ReplyEvent k reply), s) else ([], s)))
      else if pf_frame_type frame = FRAME_TYPE_GIMBAL_CONTROL then
        ebind (DecodeGimbalControl (pf_payload frame) (GimbalControlData_init\<lparr>gc_cnt := pf_cnt frame\<rparr>)) (\<lambda>(ok, gimbal).
        Inr (if ok then (fc_emit (fc_on_gimbal s) (\<lambda>k. GimbalEvent k gimbal), s) else ([], s)))
      else Inr ([], s))"

text \<open>The frames of one batch: an invalid checksum is skipped.\<close>

fun handle_frames :: "ParsedFrame list \<Rightarrow> 'p MyFlyControl \<Rightarrow> cxx_error + (fc_event list \<times> 'p MyFlyControl)" where
  "handle_frames [] s = Inr ([], s)"
| "handle_frames (f # fs) s =
     (if \<not> pf_valid f then handle_frames fs s
      else ebind (HandleFrame f s) (\<lambda>(evs, s).
           ebind (handle_frames fs s) (\<lambda>(evs', s). Inr (evs @ evs', s))))"

text \<open>What the loop does with the bytes of one read.\<close>

definition fc_deliver :: "byte list \<Rightarrow> 'p MyFlyControl \<Rightarrow> cxx_error + (fc_event list \<times> 'p MyFlyControl)" where
  "fc_deliver bytes s =
     (case PopAll (FeedData (fc_parser s) bytes) of (frames, rest) \<Rightarrow>
        handle_frames frames (s\<lparr>fc_parser := rest\<rparr>))"

definition READ_BUF_SIZE :: nat where
  "READ_BUF_SIZE = 256"

definition receive_round :: "'p serial_lib \<Rightarrow> 'p MyFlyControl \<Rightarrow> cxx_error + (fc_event list \<times> 'p MyFlyControl)" where
  "receive_round L s =
     (case ms_ReadBytes L READ_BUF_SIZE (fc_serial s) of (bytes, err, port) \<Rightarrow>
        let s = s\<lparr>fc_serial := port\<rparr> in
        if err_text_set err then Inr ([], s)
        else if bytes = [] then Inr ([], s)
        else fc_deliver bytes s)"

section \<open>JSON of a heartbeat\<close>

text \<open>A JSON number: an integer, or an integer times the double nearest to \<open>10 ^ -k\<close>.\<close>

datatype json_number = Exact int | Scaled int nat

definition HeartbeatToJson :: "HeartbeatData \<Rightarrow> (string \<times> json_number) list" where
  "HeartbeatToJson hb =
     [(''cnt'', Exact (uint (hb_cnt hb))),
      (''aircraft_id'', Exact (uint (hb_aircraft_id hb))),
      (''run_mode'', Exact (uint (hb_run_mode hb))),
      (''satellite_count'', Exact (uint (hb_satellite_count hb))),
      (''longitude'', Scaled (sint (hb_longitude hb)) 7),
      (''latitude'', Scaled (sint (hb_latitude hb)) 7),
      (''altitude'', Scaled (uint (hb_altitude hb)) 1),
      (''relative_alt'', Scaled (uint (hb_relative_alt hb)) 1),
      (''airspeed'', Scaled (uint (hb_airspeed hb)) 2),
      (''groundspeed'', Scaled (uint (hb_groundspeed hb)) 2),
      (''velocity_x'', Scaled (sint (hb_velocity_x hb)) 2),
      (''velocity_y'', Scaled (sint (hb_velocity_y hb)) 2),
      (''velocity_z'', Scaled (sint (hb_velocity_z hb)) 2),
      (''accel_x'', Scaled (sint (hb_accel_x hb)) 2),
      (''accel_y'', Scaled (sint (hb_accel_y hb)) 2),
      (''accel_z'', Scaled (sint (hb_accel_z hb)) 2),
      (''roll'', Scaled (sint (hb_roll hb)) 2),
      (''pitch'', Scaled (sint (hb_pitch hb)) 2),
      (''yaw'', Scaled (uint (hb_yaw hb)) 2),
      (''flight_mode'', Exact (uint (hb_flight_mode hb))),
      (''current_waypoint'', Exact (uint (hb_current_waypoint hb))),
      (''battery_voltage'', Scaled (uint (hb_battery_voltage hb)) 2),
      (''battery_percent'', Exact (uint (hb_battery_percent hb))),
      (''battery_current'', Scaled (uint (hb_battery_current hb)) 1),
      (''atm_pressure'', Scaled (uint (hb_atm_pressure hb)) 2),
      (''utc_timestamp'', Exact (uint (hb_utc_timestamp hb))),
      (''fault_info'', Exact (uint (hb_fault_info hb))),
      (''rotation_speed'', Exact (uint (hb_rotation_speed hb))),
      (''throttle'', Exact (uint (hb_throttle hb))),
      (''target_altitude'', Scaled (uint (hb_target_altitude hb)) 1),
      (''target_speed'', Scaled (uint (hb_target_speed hb)) 2),
      (''origin_distance'', Exact (uint (hb_origin_distance hb))),
      (''origin_heading'', Scaled (uint (hb_origin_heading hb)) 2),
      (''target_distance'', Exact (uint (hb_target_distance hb))),
      (''flight_state'', Exact (uint (hb_flight_state hb))),
      (''altitude_state'', Exact (uint (hb_altitude_state hb))),
      (''state_switch_src'', Exact (uint (hb_state_switch_src hb))),
      (''flight_time'', Exact (uint (hb_flight_time hb))),
      (''flight_range'', Exact (uint (hb_flight_range hb)))]"

section \<open>What the receiver makes of a stream\<close>

text \<open>The heartbeat a frame carries, and the callbacks it causes: the specification of the receiver.\<close>

definition frame_heartbeat :: "ParsedFrame \<Rightarrow> HeartbeatData option" where
  "frame_heartbeat f =
     (if pf_valid f \<and> pf_frame_type f = FRAME_TYPE_HEARTBEAT \<and> 82 \<le> length (pf_payload f)
      then (case DecodeHeartbeat (pf_payload f) (HeartbeatData_init\<lparr>hb_cnt := pf_cnt f\<rparr>) of
              Inr (_, hb) \<Rightarrow> Some hb | Inl _ \<Rightarrow> None)
      else None)"

definition frame_reply :: "ParsedFrame \<Rightarrow> CommandReplyData option" where
  "frame_reply f =
     (if pf_valid f \<and> pf_frame_type f = FRAME_TYPE_REPLY \<and> 2 \<le> length (pf_payload f)
      then (case DecodeCommandReply (pf_payload f) (CommandReplyData_init\<lparr>cr_cnt := pf_cnt f\<rparr>) of
              Inr (_, r) \<Rightarrow> Some r | Inl _ \<Rightarrow> None)
      else None)"

definition frame_gimbal :: "ParsedFrame \<Rightarrow> GimbalControlData option" where
  "frame_gimbal f =
     (if pf_valid f \<and> pf_frame_type f = FRAME_TYPE_GIMBAL_CONTROL \<and> 5 \<le> length (pf_payload f)
      then (case DecodeGimbalControl (pf_payload f) (GimbalControlData_init\<lparr>gc_cnt := pf_cnt f\<rparr>) of
              Inr (_, g) \<Rightarrow> Some g | Inl _ \<Rightarrow> None)
      else None)"

definition opt_emit :: "nat option \<Rightarrow> 'd option \<Rightarrow> (nat \<Rightarrow> 'd \<Rightarrow> fc_event) \<Rightarrow> fc_event list" where
  "opt_emit cb d ev = (case d of Some x \<Rightarrow> fc_emit cb (\<lambda>k. ev k x) | None \<Rightarrow> [])"

definition frame_events :: "'p MyFlyControl \<Rightarrow> ParsedFrame \<Rightarrow> fc_event list" where
  "frame_events s f = opt_emit (fc_on_heartbeat s) (frame_heartbeat f) HeartbeatEvent @
     opt_emit (fc_on_reply s) (frame_reply f) ReplyEvent @
     opt_emit (fc_on_gimbal s) (frame_gimbal f) GimbalEvent"

definition record_heartbeats :: "ParsedFrame list \<Rightarrow> 'p MyFlyControl \<Rightarrow> 'p MyFlyControl" where
  "record_heartbeats fs s =
     (let hbs = List.map_filter frame_heartbeat fs in
      s\<lparr>fc_latest_hb := last (fc_latest_hb s # hbs), fc_has_hb := fc_has_hb s \<or> hbs \<noteq> []\<rparr>)"

lemma decode_Inr:
  "\<exists>h. DecodeHeartbeat payload hb = Inr (82 \<le> length payload, h)"
  "\<exists>g. DecodeGimbalControl payload gc = Inr (5 \<le> length payload, g)"
  "\<exists>c. DecodeCommandReply payload cr = Inr (2 \<le> length payload, c)"
  using run_stmts_ok [of heartbeat_stmts payload hb] run_stmts_ok [of gimbal_stmts payload gc]
    run_stmts_ok [of reply_stmts payload cr]
  by (auto simp: DecodeHeartbeat_def DecodeGimbalControl_def DecodeCommandReply_def
      heartbeat_stmts_def gimbal_stmts_def reply_stmts_def)

lemma frame_types_distinct:
  "FRAME_TYPE_HEARTBEAT \<noteq> FRAME_TYPE_REPLY" "FRAME_TYPE_HEARTBEAT \<noteq> FRAME_TYPE_GIMBAL_CONTROL"
  "FRAME_TYPE_REPLY \<noteq> FRAME_TYPE_GIMBAL_CONTROL"
  by simp_all

lemma record_heartbeats_Cons:
  "record_heartbeats (f # fs) s = record_heartbeats fs (record_heartbeats [f] s)"
  by (cases "frame_heartbeat f") (simp_all add: record_heartbeats_def map_filter_simps)

lemma record_heartbeats_none: "frame_heartbeat f = None \<Longrightarrow> record_heartbeats [f] s = s"
  by (simp add: record_heartbeats_def map_filter_simps)

lemma HandleFrame_spec:
  assumes "pf_valid f"
  shows "HandleFrame f s = Inr (frame_events s f, record_heartbeats [f] s)"
proof -
  let ?p = "pf_payload f" and ?ft = "pf_frame_type f"
  obtain h where h: "DecodeHeartbeat ?p (HeartbeatData_init\<lparr>hb_cnt := pf_cnt f\<rparr>) = Inr (82 \<le> length ?p, h)"
    using decode_Inr(1) by blast
  obtain g where g: "DecodeGimbalControl ?p (GimbalControlData_init\<lparr>gc_cnt := pf_cnt f\<rparr>) = Inr (5 \<le> length ?p, g)"
    using decode_Inr(2) by blast
  obtain r where r: "DecodeCommandReply ?p (CommandReplyData_init\<lparr>cr_cnt := pf_cnt f\<rparr>) = Inr (2 \<le> length ?p, r)"
    using decode_Inr(3) by blast
  have fh: "frame_heartbeat f = (if ?ft = FRAME_TYPE_HEARTBEAT \<and> 82 \<le> length ?p then Some h else None)"
    and fr: "frame_reply f = (if ?ft = FRAME_TYPE_REPLY \<and> 2 \<le> length ?p then Some r else None)"
    and fg: "frame_gimbal f = (if ?ft = FRAME_TYPE_GIMBAL_CONTROL \<and> 5 \<le> length ?p then Some g else None)"
    using assms h r g by (simp_all add: frame_heartbeat_def frame_reply_def frame_gimbal_def del: fly_consts)
  consider "?ft = FRAME_TYPE_HEARTBEAT" | "?ft = FRAME_TYPE_REPLY" | "?ft = FRAME_TYPE_GIMBAL_CONTROL"
    | "?ft \<notin> {FRAME_TYPE_HEARTBEAT, FRAME_TYPE_REPLY, FRAME_TYPE_GIMBAL_CONTROL}" by blast
  then show ?thesis
    using frame_types_distinct h g r
    by cases (auto simp: HandleFrame_def frame_events_def opt_emit_def fh fr fg record_heartbeats_def
        map_filter_simps simp del: fly_consts)
qed

lemma frame_events_record [simp]: "frame_events (record_heartbeats fs s) = frame_events s"
  by (rule ext) (simp add: frame_events_def record_heartbeats_def Let_def)

lemma invalid_frame:
  "\<not> pf_valid f \<Longrightarrow> frame_heartbeat f = None \<and> frame_events s f = []"
  by (simp add: frame_events_def frame_heartbeat_def frame_reply_def frame_gimbal_def opt_emit_def)

lemma handle_frames_spec:
  "handle_frames fs s = Inr (concat (map (frame_events s) fs), record_heartbeats fs s)"
proof (induction fs arbitrary: s)
  case Nil
  then show ?case by (simp add: record_heartbeats_def map_filter_simps)
next
  case (Cons f fs)
  show ?case
    using invalid_frame [of f s] record_heartbeats_none [of f s]
    by (simp add: Cons.IH HandleFrame_spec record_heartbeats_Cons [of f fs])
qed

text \<open>The successive reads of the loop.\<close>

fun deliver_chunks :: "byte list list \<Rightarrow> 'p MyFlyControl \<Rightarrow> cxx_error + (fc_event list \<times> 'p MyFlyControl)" where
  "deliver_chunks [] s = Inr ([], s)"
| "deliver_chunks (c # cs) s =
     ebind (fc_deliver c s) (\<lambda>(evs, s). ebind (deliver_chunks cs s) (\<lambda>(evs', s). Inr (evs @ evs', s)))"

lemma fc_deliver_spec:
  "fc_deliver bytes s = (case PopAll (fc_parser s @ bytes) of (fs, r) \<Rightarrow>
     Inr (concat (map (frame_events s) fs), record_heartbeats fs (s\<lparr>fc_parser := r\<rparr>)))"
  by (simp add: fc_deliver_def FeedData_def handle_frames_spec frame_events_def [abs_def] split: prod.splits)

lemma record_heartbeats_parser:
  "fc_parser (record_heartbeats fs s) = fc_parser s"
  "(record_heartbeats fs s)\<lparr>fc_parser := r\<rparr> = record_heartbeats fs (s\<lparr>fc_parser := r\<rparr>)"
  by (simp_all add: record_heartbeats_def Let_def)

lemma record_heartbeats_append:
  "record_heartbeats (fs @ gs) s = record_heartbeats gs (record_heartbeats fs s)"
proof (induction fs arbitrary: s)
  case Nil
  then show ?case by (simp add: record_heartbeats_def map_filter_simps)
next
  case (Cons f fs)
  then show ?case
    using record_heartbeats_Cons [of f "fs @ gs" s] record_heartbeats_Cons [of f fs s] by simp
qed

lemma frame_events_parser [simp]: "frame_events (s\<lparr>fc_parser := r\<rparr>) = frame_events s"
  by (rule ext) (simp add: frame_events_def)

lemma deliver_chunks_spec:
  "deliver_chunks cs s = (case fc.feed_chunks (fc_parser s) cs of (fs, r) \<Rightarrow>
     Inr (concat (map (frame_events s) fs), record_heartbeats fs (s\<lparr>fc_parser := r\<rparr>)))"
proof (induction cs arbitrary: s)
  case Nil
  then show ?case by (simp add: record_heartbeats_def map_filter_simps)
next
  case (Cons c cs)
  show ?case
    by (simp add: fc_deliver_spec Cons.IH record_heartbeats_parser record_heartbeats_append
        split: prod.splits)
qed

section \<open>What a send call puts on the wire\<close>

text \<open>The sixteen send calls with their arguments.\<close>

datatype fc_call =
    CSetDestination i32 i32 u16
  | CSetRoute "RoutePoint list"
  | CSetAngle i16 u16
  | CSetSpeed u16
  | CSetAltitude byte u16
  | CPowerSwitch byte
  | CParachute byte
  | CButtonCommand byte
  | CSetOriginReturn byte i32 i32 u16
  | CSetGeofence "GeofencePoint list"
  | CSwitchMode byte
  | CGuidance GuidanceData
  | CGuidanceNew GuidanceNewData
  | CGimbalAngRate GimbalAngRateData
  | CGimbalAngle GimbalAngleData
  | CTargetState TargetStateData

fun run_call :: "'p serial_lib \<Rightarrow> fc_call \<Rightarrow> 'p MyFlyControl \<Rightarrow> bool \<times> 'p MyFlyControl" where
  "run_call L (CSetDestination lon lat alt) = SendSetDestination L lon lat alt"
| "run_call L (CSetRoute points) = SendSetRoute L points"
| "run_call L (CSetAngle pitch yaw) = SendSetAngle L pitch yaw"
| "run_call L (CSetSpeed speed) = SendSetSpeed L speed"
| "run_call L (CSetAltitude alt_type altitude) = SendSetAltitude L alt_type altitude"
| "run_call L (CPowerSwitch command) = SendPowerSwitch L command"
| "run_call L (CParachute parachute_type) = SendParachute L parachute_type"
| "run_call L (CButtonCommand button) = SendButtonCommand L button"
| "run_call L (CSetOriginReturn point_type lon lat alt) = SendSetOriginReturn L point_type lon lat alt"
| "run_call L (CSetGeofence points) = SendSetGeofence L points"
| "run_call L (CSwitchMode mode) = SendSwitchMode L mode"
| "run_call L (CGuidance data) = SendGuidance L data"
| "run_call L (CGuidanceNew data) = SendGuidanceNew L data"
| "run_call L (CGimbalAngRate data) = SendGimbalAngRate L data"
| "run_call L (CGimbalAngle data) = SendGimbalAngle L data"
| "run_call L (CTargetState data) = SendTargetState L data"

fun call_message :: "fc_call \<Rightarrow> fly_message" where
  "call_message (CSetDestination lon lat alt) = MSetDestination (SetDestinationData_init\<lparr>sd_longitude := lon, sd_latitude := lat, sd_altitude := alt\<rparr>)"
| "call_message (CSetRoute points) = MSetRoute (SetRouteData_init\<lparr>sr_points := points\<rparr>)"
| "call_message (CSetAngle pitch yaw) = MSetAngle (SetAngleData_init\<lparr>sa_pitch := pitch, sa_yaw := yaw\<rparr>)"
| "call_message (CSetSpeed speed) = MSetSpeed (SetSpeedData_init\<lparr>ss_speed := speed\<rparr>)"
| "call_message (CSetAltitude alt_type altitude) = MSetAltitude (SetAltitudeData_init\<lparr>sal_altitude_type := alt_type, sal_altitude := altitude\<rparr>)"
| "call_message (CPowerSwitch command) = MPowerSwitch (PowerSwitchData_init\<lparr>ps_command := command\<rparr>)"
| "call_message (CParachute parachute_type) = MParachute (ParachuteData_init\<lparr>pc_parachute_type := parachute_type\<rparr>)"
| "call_message (CButtonCommand button) = MButtonCommand (ButtonCommandData_init\<lparr>bc_button := button\<rparr>)"
| "call_message (CSetOriginReturn point_type lon lat alt) = MSetOriginReturn (SetOriginReturnData_init\<lparr>so_point_type := point_type, so_longitude := lon, so_latitude := lat, so_altitude := alt\<rparr>)"
| "call_message (CSetGeofence points) = MSetGeofence (SetGeofenceData_init\<lparr>sg_points := points\<rparr>)"
| "call_message (CSwitchMode mode) = MSwitchMode (SwitchModeData_init\<lparr>sm_mode := mode\<rparr>)"
| "call_message (CGuidance data) = MGuidance data"
| "call_message (CGuidanceNew data) = MGuidanceNew data"
| "call_message (CGimbalAngRate data) = MGimbalAngRate data"
| "call_message (CGimbalAngle data) = MGimbalAngle data"
| "call_message (CTargetState data) = MTargetState data"

text \<open>Routes have 1 to 50 points, fences 3 to 50.\<close>

fun call_allowed :: "fc_call \<Rightarrow> bool" where
  "call_allowed (CSetRoute points) = (1 \<le> length points \<and> length points \<le> 50)"
| "call_allowed (CSetGeofence points) = (3 \<le> length points \<and> length points \<le> 50)"
| "call_allowed _ = True"

lemma run_call_send:
  "run_call L c s = (if call_allowed c then send_frame L (\<lambda>cnt. encode_message cnt (call_message c)) s
                     else (False, s))"
  by (cases c) (auto simp: SendSetDestination_def SendSetRoute_def SendSetAngle_def SendSetSpeed_def SendSetAltitude_def SendPowerSwitch_def SendParachute_def SendButtonCommand_def
    SendSetOriginReturn_def SendSetGeofence_def SendSwitchMode_def SendGuidance_def SendGuidanceNew_def SendGimbalAngRate_def SendGimbalAngle_def SendTargetState_def
    Let_def Suc_le_eq)

lemma encode_message_nonempty: "encode_message cnt m \<noteq> []"
  using length_BuildFrame [of cnt "message_type m" "le.write_wires [] (message_wires m)"]
  by (auto simp: encode_message_layout)

lemma send_frame_law:
  assumes "write_law L sent" and "ms_serial (fc_serial s) = Some p" and "send_frame L enc s = (ok, s')"
    and "enc (fc_cnt s) \<noteq> []"
  shows "fc_cnt s' = fc_cnt s + 1 \<and> (\<exists>p' k. ms_serial (fc_serial s') = Some p' \<and>
    sent p' = sent p @ take k (enc (fc_cnt s)) \<and> (ok \<longrightarrow> k = length (enc (fc_cnt s))))"
proof -
  obtain n err port where w: "ms_Write L (enc (fc_cnt s)) (fc_serial s) = (n, err, port)"
    by (cases "ms_Write L (enc (fc_cnt s)) (fc_serial s)") auto
  show ?thesis
    using ms_Write_law [OF assms(1,2) w] assms(3,4) w
    by (auto simp: send_frame_def NextCnt_def SendRawData_def)
qed

text \<open>Several send calls in a row; the frames carry consecutive counters.\<close>

fun run_calls :: "'p serial_lib \<Rightarrow> fc_call list \<Rightarrow> 'p MyFlyControl \<Rightarrow> bool list \<times> 'p MyFlyControl" where
  "run_calls L [] s = ([], s)"
| "run_calls L (c # cs) s =
     (case run_call L c s of (ok, s) \<Rightarrow> case run_calls L cs s of (oks, s) \<Rightarrow> (ok # oks, s))"

fun numbered :: "byte \<Rightarrow> fc_call list \<Rightarrow> (byte \<times> fc_call) list" where
  "numbered cnt [] = []"
| "numbered cnt (c # cs) = (cnt, c) # numbered (cnt + 1) cs"

definition call_frame :: "byte \<times> fc_call \<Rightarrow> byte \<times> byte \<times> byte list" where
  "call_frame nc = (case nc of (cnt, c) \<Rightarrow>
     (cnt, message_type (call_message c), le.write_wires [] (message_wires (call_message c))))"

lemma run_call_ok:
  assumes "write_law L sent" and "ms_serial (fc_serial s) = Some p" and "run_call L c s = (True, s')"
  shows "fc_cnt s' = fc_cnt s + 1 \<and> (\<exists>p'. ms_serial (fc_serial s') = Some p' \<and>
    sent p' = sent p @ encode_message (fc_cnt s) (call_message c))"
proof -
  have "call_allowed c" using assms(3) by (auto simp: run_call_send split: if_splits)
  then have "send_frame L (\<lambda>cnt. encode_message cnt (call_message c)) s = (True, s')"
    using assms(3) by (simp add: run_call_send)
  from send_frame_law [OF assms(1,2) this] show ?thesis by (auto simp: encode_message_nonempty)
qed

lemma run_calls_sent:
  assumes "write_law L sent" and "ms_serial (fc_serial s) = Some p" and "run_calls L cs s = (oks, s')"
    and "False \<notin> set oks"
  shows "\<exists>p'. ms_serial (fc_serial s') = Some p' \<and> sent p' = sent p @
    concat (map (\<lambda>(cnt, c). encode_message cnt (call_message c)) (numbered (fc_cnt s) cs))"
  using assms(2-4)
proof (induction cs arbitrary: s p oks)
  case (Cons c cs)
  from Cons.prems obtain s1 oks1 where r: "run_call L c s = (True, s1)" and r1: "run_calls L cs s1 = (oks1, s')"
    and ok1: "False \<notin> set oks1" by (auto split: prod.splits)
  from run_call_ok [OF assms(1) Cons.prems(1) r] obtain p1 where cnt: "fc_cnt s1 = fc_cnt s + 1"
    and p1: "ms_serial (fc_serial s1) = Some p1" "sent p1 = sent p @ encode_message (fc_cnt s) (call_message c)"
    by blast
  from Cons.IH [OF p1(1) r1 ok1] show ?case by (simp add: cnt p1(2))
qed simp

lemma calls_are_builds:
  "concat (map (\<lambda>(cnt, c). encode_message cnt (call_message c)) (numbered n cs)) =
   concat (map (\<lambda>(cnt, ft, p). BuildFrame cnt ft p) (map call_frame (numbered n cs)))"
  by (induction cs arbitrary: n) (simp_all add: call_frame_def encode_message_layout)

lemma calls_well_sized:
  "list_all (\<lambda>c. message_ok (call_message c)) cs \<Longrightarrow>
     list_all (\<lambda>(cnt, ft, p). well_sized ft p) (map call_frame (numbered n cs))"
  by (induction cs arbitrary: n) (simp_all add: call_frame_def message_well_sized)

definition demo_control :: "recording_port MyFlyControl" where
  "demo_control = MyFlyControl_init\<lparr>fc_cnt := 255, fc_on_reply := Some 7, fc_serial := \<lparr>
     ms_serial = Some \<lparr>rp_open = True, rp_sent = [], rp_incoming = []\<rparr>, ms_options = SerialInitOptions_init,
     ms_initialized = True, ms_last_error = None\<rparr>\<rparr>"

section \<open>Properties\<close>

text \<open>C2: the receiver depends only on the bytes that arrived. However the reads cut the stream, the
  callbacks run in the order of the valid frames in the stream, each for a frame of its kind and with
  the fields of the frame, the stored heartbeat is the last valid one, and no decoder throws.\<close>

theorem receiver_follows_stream:
  assumes "PopAll (fc_parser s) = ([], fc_parser s)"
    and "PopAll (fc_parser s @ concat chunks) = (frames, rest)"
  shows "deliver_chunks chunks s =
    Inr (concat (map (frame_events s) frames), record_heartbeats frames (s\<lparr>fc_parser := rest\<rparr>))"
  by (simp add: deliver_chunks_spec fc.feed_chunks_concat [OF assms(1)] assms(2))

theorem receiver_follows_stream_witness:
  "deliver_chunks [take 3 (BuildFrame 5 FRAME_TYPE_REPLY [4, 0]), drop 3 (BuildFrame 5 FRAME_TYPE_REPLY [4, 0])]
     demo_control
   = Inr ([ReplyEvent 7 \<lparr>cr_cnt = 5, cr_replied_cmd = 4, cr_result = 0\<rparr>], demo_control)"
proof -
  have w: "well_sized FRAME_TYPE_REPLY [4, 0]" by code_simp
  have p: "PopAll (BuildFrame 5 FRAME_TYPE_REPLY [4, 0]) = ([built_frame 5 FRAME_TYPE_REPLY [4, 0]], [])"
    using fb.drain_builds [of "[(5, FRAME_TYPE_REPLY, [4, 0])]" "[]"] w by (simp add: PopAll_Nil del: fly_consts)
  have e: "frame_events demo_control (built_frame 5 FRAME_TYPE_REPLY [4, 0])
      = [ReplyEvent 7 \<lparr>cr_cnt = 5, cr_replied_cmd = 4, cr_result = 0\<rparr>]"
    using frame_types_distinct
    by (simp add: frame_events_def opt_emit_def frame_heartbeat_def frame_gimbal_def frame_reply_def built_frame_def
        DecodeCommandReply_def reply_stmts_def le_read_uint8_def EnsureReadable_def CommandReplyData_init_def demo_control_def MyFlyControl_init_def fc_emit_def del: fly_consts)
  have h: "frame_heartbeat (built_frame 5 FRAME_TYPE_REPLY [4, 0]) = None"
    by (simp add: frame_heartbeat_def built_frame_def)
  have n: "fc_parser demo_control = []" by (simp add: demo_control_def MyFlyControl_init_def)
  show ?thesis
    using receiver_follows_stream [of demo_control "[take 3 (BuildFrame 5 FRAME_TYPE_REPLY [4, 0]),
        drop 3 (BuildFrame 5 FRAME_TYPE_REPLY [4, 0])]"] p e n
    by (simp add: PopAll_Nil record_heartbeats_none [OF h] demo_control_def MyFlyControl_init_def del: fly_consts)
qed

text \<open>a send call with an allowed argument takes one counter, modulo 256, and writes exactly the frame
  of its command with that counter, or a part of it when it answers false; a route of 0 or more than 50
  points, or a fence of fewer than 3 or more than 50, is refused with no counter used and no byte
  written.\<close>

theorem send_writes_the_frame:
  assumes "write_law L sent" and "ms_serial (fc_serial s) = Some p" and "run_call L c s = (ok, s')"
  shows "if call_allowed c
    then fc_cnt s' = fc_cnt s + 1 \<and> (\<exists>p' k. ms_serial (fc_serial s') = Some p' \<and>
           sent p' = sent p @ take k (encode_message (fc_cnt s) (call_message c)) \<and>
           (ok \<longrightarrow> k = length (encode_message (fc_cnt s) (call_message c))))
    else \<not> ok \<and> s' = s"
  using assms(3) send_frame_law [OF assms(1,2), of "\<lambda>cnt. encode_message cnt (call_message c)" ok s']
  by (auto simp: run_call_send encode_message_nonempty split: if_splits)

theorem send_writes_the_frame_witness:
  "\<exists>s'. run_call recording_lib (CSetSpeed 500) demo_control = (True, s') \<and> fc_cnt s' = 0 \<and>
     (\<exists>p'. ms_serial (fc_serial s') = Some p' \<and> rp_sent p' = EncodeSetSpeed 255 (SetSpeedData_init\<lparr>ss_speed := 500\<rparr>))"
proof -
  let ?p = "\<lparr>rp_open = True, rp_sent = [], rp_incoming = []\<rparr>"
  have p: "ms_serial (fc_serial demo_control) = Some ?p" by (simp add: demo_control_def)
  obtain ok s' where r: "run_call recording_lib (CSetSpeed 500) demo_control = (ok, s')" by fastforce
  moreover have ok
    using r by (auto simp: SendSetSpeed_def send_frame_def NextCnt_def SendRawData_def ms_Write_def
        with_port_def open_guard_def lib_result_def recording_lib_def demo_control_def)
  moreover have "fc_cnt demo_control = 255" by (simp add: demo_control_def)
  ultimately show ?thesis
    using send_writes_the_frame [OF recording_lib_write_law p r] by auto
qed

text \<open>C3: send calls that all answered true reach a peer that runs the same parser as exactly the
  commands given, in order, with consecutive counters, all valid, however the line cuts the bytes.\<close>

theorem sent_calls_arrive:
  assumes "write_law L sent" and "ms_serial (fc_serial s) = Some p" and "sent p = []"
    and "list_all (\<lambda>c. message_ok (call_message c)) calls"
    and "run_calls L calls s = (oks, s')" and "False \<notin> set oks"
    and "ms_serial (fc_serial s') = Some p'" and "concat chunks = sent p'"
  shows "ReceiveChunks [] chunks
    = (map (\<lambda>(cnt, ft, payload). built_frame cnt ft payload) (map call_frame (numbered (fc_cnt s) calls)), [])"
proof -
  have "sent p' = concat (map (\<lambda>(cnt, ft, p). BuildFrame cnt ft p) (map call_frame (numbered (fc_cnt s) calls)))"
    using run_calls_sent [OF assms(1,2,5,6)] assms(3,7) calls_are_builds by auto
  then show ?thesis
    using fb.drain_builds [OF calls_well_sized [OF assms(4), of "fc_cnt s"], of "[]"] assms(8)
      fc.feed_chunks_concat [of "[]" chunks]
    by (simp add: ReceiveChunks_eq PopAll_Nil)
qed

theorem sent_calls_arrive_witness:
  "\<exists>s' p'. run_calls recording_lib [CSetSpeed 500, CSwitchMode 1] demo_control = ([True, True], s') \<and>
     ms_serial (fc_serial s') = Some p' \<and>
     ReceiveChunks [] [take 4 (rp_sent p'), drop 4 (rp_sent p')] =
       (map (\<lambda>(cnt, ft, payload). built_frame cnt ft payload)
          [call_frame (255, CSetSpeed 500), call_frame (0, CSwitchMode 1)], [])"
proof -
  let ?p = "\<lparr>rp_open = True, rp_sent = [], rp_incoming = []\<rparr>"
  let ?sent = "encode_message 255 (call_message (CSetSpeed 500)) @ encode_message 0 (call_message (CSwitchMode 1))"
  let ?p' = "\<lparr>rp_open = True, rp_sent = ?sent, rp_incoming = []\<rparr>"
  let ?s' = "demo_control\<lparr>fc_cnt := 1, fc_serial := (fc_serial demo_control)\<lparr>ms_serial := Some ?p'\<rparr>\<rparr>"
  have wrap: "(256 :: byte) = 0" "(257 :: byte) = 1" by simp_all
  have r: "run_calls recording_lib [CSetSpeed 500, CSwitchMode 1] demo_control = ([True, True], ?s')"
    by (simp add: wrap run_call_send send_frame_def NextCnt_def SendRawData_def ms_Write_def
        with_port_def open_guard_def lib_result_def recording_lib_def demo_control_def
        del: encode_message.simps call_message.simps run_call.simps)
  have m: "list_all (\<lambda>c. message_ok (call_message c)) [CSetSpeed 500, CSwitchMode 1]"
    by (simp add: SetSpeedData_init_def SwitchModeData_init_def)
  have p: "ms_serial (fc_serial demo_control) = Some ?p" and c: "fc_cnt demo_control = 255"
    by (simp_all add: demo_control_def)
  have "ReceiveChunks [] [take 4 ?sent, drop 4 ?sent] =
       (map (\<lambda>(cnt, ft, payload). built_frame cnt ft payload)
          (map call_frame (numbered (fc_cnt demo_control) [CSetSpeed 500, CSwitchMode 1])), [])"
    by (rule sent_calls_arrive [OF recording_lib_write_law p _ m r, where p' = ?p'])
      (simp_all del: encode_message.simps call_message.simps take_append drop_append)
  then show ?thesis using r by (simp add: c wrap del: encode_message.simps call_message.simps take_append drop_append)
qed

end
