(* ===== verification/FlyControlManager.thy ===== *)
theory FlyControlManager
  imports FlyControl
begin

text \<open>
  \<open>src/util/my_fly_control/MyFlyControlManager.cpp\<close>: the process-wide wrapper of one controller. Each
  operation is taken without interference of another thread; the sixteen send operations forward to
  the controller's operation of the same name, the constructors of \<open>fc_call\<close>. A replaced controller is
  stopped and then gone.
\<close>

record 'p MyFlyControlManager =
  fm_controller :: "'p MyFlyControl option"
  fm_initialized :: bool

definition MyFlyControlManager_init :: "'p MyFlyControlManager" where
  "MyFlyControlManager_init = \<lparr>fm_controller = Some MyFlyControl_init, fm_initialized = False\<rparr>"

definition GetControllerSnapshot :: "'p MyFlyControlManager \<Rightarrow> 'p MyFlyControl option" where
  "GetControllerSnapshot s = fm_controller s"

definition GetInitializedController :: "'p MyFlyControlManager \<Rightarrow> 'p MyFlyControl option" where
  "GetInitializedController s = (if \<not> fm_initialized s then None else fm_controller s)"

definition fm_Init :: "'p serial_lib \<Rightarrow> json \<Rightarrow> 'p MyFlyControlManager \<Rightarrow> bool \<times> 'p MyFlyControlManager" where
  "fm_Init L cfg s =
     (let controller = (case fm_controller s of None \<Rightarrow> MyFlyControl_init | Some k \<Rightarrow> k) in
      if fc_IsRunning controller then (False, s\<lparr>fm_controller := Some controller\<rparr>)
      else case fc_Init L cfg controller of (ok, controller) \<Rightarrow>
        let s = s\<lparr>fm_controller := Some controller\<rparr> in
        if \<not> ok then (False, s) else (True, s\<lparr>fm_initialized := True\<rparr>))"

datatype fm_start_error = ManagerNotInitialized | StartFailed start_error

definition fm_Start :: "'p serial_lib \<Rightarrow> 'p MyFlyControlManager \<Rightarrow> (fm_start_error + unit) \<times> 'p MyFlyControlManager" where
  "fm_Start L s =
     (case GetInitializedController s of
        None \<Rightarrow> (Inl ManagerNotInitialized, s)
      | Some controller \<Rightarrow>
          (case fc_Start L controller of (r, controller) \<Rightarrow>
             (case r of Inl e \<Rightarrow> Inl (StartFailed e) | Inr u \<Rightarrow> Inr u, s\<lparr>fm_controller := Some controller\<rparr>)))"

text \<open>\<open>Stop\<close> and \<open>Shutdown\<close>, with the exception of the library that may leave them.\<close>

definition fm_Stop :: "'p serial_lib \<Rightarrow> 'p MyFlyControlManager \<Rightarrow> string option \<times> 'p MyFlyControlManager" where
  "fm_Stop L s =
     (case GetControllerSnapshot s of
        None \<Rightarrow> (None, s)
      | Some controller \<Rightarrow>
          (case fc_Stop L controller of (e, controller) \<Rightarrow> (e, s\<lparr>fm_controller := Some controller\<rparr>)))"

definition fm_Shutdown :: "'p serial_lib \<Rightarrow> 'p MyFlyControlManager \<Rightarrow> string option \<times> 'p MyFlyControlManager" where
  "fm_Shutdown L s =
     (let old_controller = fm_controller s;
          s = s\<lparr>fm_controller := Some MyFlyControl_init, fm_initialized := False\<rparr> in
      case old_controller of
        None \<Rightarrow> (None, s)
      | Some controller \<Rightarrow> (fst (fc_Stop L controller), s))"

definition fm_IsInitialized :: "'p MyFlyControlManager \<Rightarrow> bool" where
  "fm_IsInitialized s = fm_initialized s"

definition fm_IsRunning :: "'p MyFlyControlManager \<Rightarrow> bool" where
  "fm_IsRunning s = (case GetControllerSnapshot s of None \<Rightarrow> False | Some k \<Rightarrow> fc_IsRunning k)"

definition on_controller :: "('p MyFlyControl \<Rightarrow> 'p MyFlyControl) \<Rightarrow> 'p MyFlyControlManager \<Rightarrow> 'p MyFlyControlManager" where
  "on_controller f s = (case GetControllerSnapshot s of None \<Rightarrow> s | Some k \<Rightarrow> s\<lparr>fm_controller := Some (f k)\<rparr>)"

definition fm_SetOnHeartbeat :: "nat option \<Rightarrow> 'p MyFlyControlManager \<Rightarrow> 'p MyFlyControlManager" where
  "fm_SetOnHeartbeat cb = on_controller (SetOnHeartbeat cb)"

definition fm_SetOnCommandReply :: "nat option \<Rightarrow> 'p MyFlyControlManager \<Rightarrow> 'p MyFlyControlManager" where
  "fm_SetOnCommandReply cb = on_controller (SetOnCommandReply cb)"

definition fm_SetOnGimbalControl :: "nat option \<Rightarrow> 'p MyFlyControlManager \<Rightarrow> 'p MyFlyControlManager" where
  "fm_SetOnGimbalControl cb = on_controller (SetOnGimbalControl cb)"

definition fm_GetLatestHeartbeat :: "'p MyFlyControlManager \<Rightarrow> HeartbeatData" where
  "fm_GetLatestHeartbeat s =
     (case GetControllerSnapshot s of Some k \<Rightarrow> GetLatestHeartbeat k | None \<Rightarrow> HeartbeatData_init)"

definition fm_GetFaultBits :: "'p MyFlyControlManager \<Rightarrow> FaultBits" where
  "fm_GetFaultBits s = (case GetControllerSnapshot s of Some k \<Rightarrow> GetFaultBits k | None \<Rightarrow> FromU16 0)"

definition fm_HasHeartbeat :: "'p MyFlyControlManager \<Rightarrow> bool" where
  "fm_HasHeartbeat s = (case GetControllerSnapshot s of Some k \<Rightarrow> HasHeartbeat k | None \<Rightarrow> False)"

definition fm_call :: "'p serial_lib \<Rightarrow> fc_call \<Rightarrow> 'p MyFlyControlManager \<Rightarrow> bool \<times> 'p MyFlyControlManager" where
  "fm_call L c s =
     (case GetInitializedController s of
        None \<Rightarrow> (False, s)
      | Some controller \<Rightarrow>
          (case run_call L c controller of (ok, controller) \<Rightarrow> (ok, s\<lparr>fm_controller := Some controller\<rparr>)))"

section \<open>Behaviour\<close>

text \<open>Before a successful \<open>Init\<close> no send reaches a controller, and a running controller is not
  reconfigured.\<close>

lemma fm_call_uninitialized: "\<not> fm_IsInitialized s \<Longrightarrow> fm_call L c s = (False, s)"
  by (simp add: fm_call_def GetInitializedController_def fm_IsInitialized_def)

lemma fm_Init_running: "fm_IsRunning s \<Longrightarrow> fm_Init L cfg s = (False, s)"
  by (cases "fm_controller s") (simp_all add: fm_Init_def fm_IsRunning_def GetControllerSnapshot_def)

text \<open>\<open>Shutdown\<close> gives a manager that is as good as new, whatever the old controller did.\<close>

lemma fm_Shutdown_fresh: "snd (fm_Shutdown L s) = MyFlyControlManager_init"
  by (cases "fm_controller s") (simp_all add: fm_Shutdown_def MyFlyControlManager_init_def)

text \<open>
  A second \<open>Init\<close> that fails leaves the manager initialised over a port that is gone: sends are
  forwarded, use up a counter and answer false.
\<close>

lemma fm_failed_reinit:
  assumes "fm_initialized s" and "\<not> fm_IsRunning s" and "fm_Init L cfg s = (False, s')"
  shows "fm_IsInitialized s' \<and> (\<exists>k. fm_controller s' = Some k \<and> ms_serial (fc_serial k) = None)"
proof -
  define k where "k = (case fm_controller s of None \<Rightarrow> MyFlyControl_init | Some k \<Rightarrow> k)"
  obtain ok port where i: "ms_Init L cfg (fc_serial k) = (ok, port)" by fastforce
  have "\<not> fc_IsRunning k"
    using assms(2) by (auto simp: k_def fm_IsRunning_def GetControllerSnapshot_def fc_IsRunning_def
        MyFlyControl_init_def split: option.splits)
  with assms i have "\<not> ok \<and> s' = s\<lparr>fm_controller := Some (k\<lparr>fc_serial := port\<rparr>)\<rparr>"
    by (auto simp: fm_Init_def fc_Init_def k_def [symmetric] Let_def split: if_splits)
  then show ?thesis
    using ms_Init_cases [OF i] assms(1) by (auto simp: fm_IsInitialized_def MySerial_init_def)
qed

end
