(* ===== verification/AirdropLock.thy ===== *)
theory AirdropLock
  imports Serial
begin

text \<open>
  \<open>src/util/my_airdrop_lock/my_airdrop_lock.cpp\<close>: the manager of the drop lock, over a serial port.
  Exceptions are constructors; an exception that leaves an operation is the \<open>Inl\<close> of its result.
  The texts of errors, the log and the JSON form of the status are left out; the pauses of
  \<open>FristPowerOnProtection\<close> have no effect on the state.
\<close>

section \<open>Configuration\<close>

datatype AirdropLockState = Uninitialized | Disabled | Closed | Open | Error

record AirdropLockConfig =
  ac_enabled :: bool
  ac_device :: string
  ac_baud_rate :: int
  ac_data_bits :: int
  ac_stop_bits :: int
  ac_default_pwm_frequency :: string
  ac_open_cmd :: string
  ac_lock_cmd :: string

definition AirdropLockConfig_init :: AirdropLockConfig where
  "AirdropLockConfig_init = \<lparr>ac_enabled = False, ac_device = ''/dev/ttyUSB0'', ac_baud_rate = 9600,
     ac_data_bits = 8, ac_stop_bits = 1, ac_default_pwm_frequency = ''50'', ac_open_cmd = ''D005'',
     ac_lock_cmd = ''D010''\<rparr>"

datatype airdrop_exn =
    FieldNotText string
  | FieldNotInt string
  | EnabledNotBool
  | StoiInvalid
  | StoiRange
  | AirdropNotObject
  | DeviceEmpty
  | BaudRateRange
  | DataBitsRange
  | StopBitsRange
  | CommandNotAscii
  | DutyEmpty
  | DutyNotDigits
  | DutyRange
  | CloseFailed string

definition JsonStringOrNumber :: "json \<Rightarrow> string \<Rightarrow> string \<Rightarrow> airdrop_exn + string" where
  "JsonStringOrNumber cfg key default_value =
     (case field cfg key of
        None \<Rightarrow> Inr default_value
      | Some JNull \<Rightarrow> Inr default_value
      | Some (JString s) \<Rightarrow> Inr s
      | Some (JInteger i) \<Rightarrow> Inr (int_to_string i)
      | Some (JUnsigned n) \<Rightarrow> Inr (nat_to_string n)
      | Some (JFloat text) \<Rightarrow> Inr text
      | Some _ \<Rightarrow> Inl (FieldNotText key))"

text \<open>\<open>std::stoi\<close>, and the conversion of a 64-bit number to \<open>int\<close>, which wraps.\<close>

definition stoi :: "string \<Rightarrow> airdrop_exn + int" where
  "stoi s =
     (let s = dropWhile cisspace s;
          neg = (case s of c # cs \<Rightarrow> c = CHR ''-'' | [] \<Rightarrow> False);
          s = (case s of c # cs \<Rightarrow> if c = CHR ''-'' \<or> c = CHR ''+'' then cs else s | [] \<Rightarrow> []);
          ds = takeWhile cisdigit s
      in if ds = [] then Inl StoiInvalid
         else let v = (if neg then - int (decimal 0 ds) else int (decimal 0 ds)) in
           if v < - (2 ^ 31) \<or> v > 2 ^ 31 - 1 then Inl StoiRange else Inr v)"

definition to_int32 :: "int \<Rightarrow> int" where
  "to_int32 v = sint (word_of_int v :: i32)"

definition JsonIntValue :: "json \<Rightarrow> string \<Rightarrow> int \<Rightarrow> airdrop_exn + int" where
  "JsonIntValue cfg key default_value =
     (case field cfg key of
        None \<Rightarrow> Inr default_value
      | Some JNull \<Rightarrow> Inr default_value
      | Some (JInteger i) \<Rightarrow> Inr (to_int32 i)
      | Some (JUnsigned n) \<Rightarrow> Inr (to_int32 (int n))
      | Some (JString s) \<Rightarrow> stoi s
      | Some _ \<Rightarrow> Inl (FieldNotInt key))"

definition IsAsciiCommand :: "string \<Rightarrow> bool" where
  "IsAsciiCommand command \<longleftrightarrow>
     command \<noteq> [] \<and> list_all (\<lambda>c. 32 \<le> (of_char c :: nat) \<and> (of_char c :: nat) \<le> 126) command"

definition enabled_value :: "json \<Rightarrow> bool \<Rightarrow> airdrop_exn + bool" where
  "enabled_value cfg default_value =
     (case field cfg ''enabled'' of
        None \<Rightarrow> Inr default_value
      | Some (JBool b) \<Rightarrow> Inr b
      | Some _ \<Rightarrow> Inl EnabledNotBool)"

definition ParseConfig :: "json \<Rightarrow> airdrop_exn + AirdropLockConfig" where
  "ParseConfig cfg =
     (let d = AirdropLockConfig_init in
      if \<not> is_object cfg then Inl AirdropNotObject else
      ebind (enabled_value cfg (ac_enabled d)) (\<lambda>enabled.
      ebind (JsonStringOrNumber cfg ''device'' (ac_device d)) (\<lambda>device.
      ebind (JsonIntValue cfg ''baud_rate'' (ac_baud_rate d)) (\<lambda>baud_rate.
      ebind (JsonIntValue cfg ''data_bits'' (ac_data_bits d)) (\<lambda>data_bits.
      ebind (JsonIntValue cfg ''stop_bits'' (ac_stop_bits d)) (\<lambda>stop_bits.
      ebind (JsonStringOrNumber cfg ''default_PWM_frequency'' (ac_default_pwm_frequency d)) (\<lambda>pwm.
      ebind (JsonStringOrNumber cfg ''open_cmd'' (ac_open_cmd d)) (\<lambda>open_cmd.
      ebind (JsonStringOrNumber cfg ''lock_cmd'' (ac_lock_cmd d)) (\<lambda>lock_cmd.
      let device = TrimCopy device; pwm = TrimCopy pwm; open_cmd = TrimCopy open_cmd; lock_cmd = TrimCopy lock_cmd in
      if enabled \<and> device = [] then Inl DeviceEmpty
      else if baud_rate \<le> 0 then Inl BaudRateRange
      else if data_bits < 5 \<or> data_bits > 8 then Inl DataBitsRange
      else if stop_bits \<noteq> 1 \<and> stop_bits \<noteq> 2 then Inl StopBitsRange
      else if \<not> IsAsciiCommand open_cmd \<or> \<not> IsAsciiCommand lock_cmd then Inl CommandNotAscii
      else Inr \<lparr>ac_enabled = enabled, ac_device = device, ac_baud_rate = baud_rate, ac_data_bits = data_bits,
             ac_stop_bits = stop_bits, ac_default_pwm_frequency = pwm, ac_open_cmd = open_cmd,
             ac_lock_cmd = lock_cmd\<rparr>)))))))))"

section \<open>Duty cycle commands\<close>

function pad3 :: "string \<Rightarrow> string" where
  "pad3 digits = (if length digits < 3 then pad3 (CHR ''0'' # digits) else digits)"
  by pat_completeness auto
termination
  by (relation "measure (\<lambda>digits. 3 - length digits)") auto

declare pad3.simps [simp del]

definition NormalizeDutyCycleCommand :: "string \<Rightarrow> airdrop_exn + string" where
  "NormalizeDutyCycleCommand duty_cycle =
     (let val = TrimCopy duty_cycle in
      if val = [] then Inl DutyEmpty else
      let val = (if hd val = CHR ''F'' \<or> hd val = CHR ''f'' then tl val else val) in
      if val = [] \<or> \<not> list_all cisdigit val then Inl DutyNotDigits else
      ebind (stoi val) (\<lambda>numeric_value.
      if numeric_value < 0 \<or> numeric_value > 999 then Inl DutyRange
      else Inr (CHR ''F'' # pad3 (int_to_string numeric_value))))"

section \<open>The manager\<close>

datatype airdrop_error =
    ConfigException airdrop_exn
  | SerialInitFailed "serial_exn option"
  | NotYetInitialized
  | ModuleDisabled
  | SerialNotOpen
  | SendFailed string nat "serial_exn option"

record 'p AirdropLockManager =
  al_initialized :: bool
  al_state :: AirdropLockState
  al_config :: AirdropLockConfig
  al_init_config :: json
  al_last_error :: "airdrop_error option"
  al_last_command :: string
  al_current_duty_cycle :: string
  al_serial :: "'p MySerial"

definition AirdropLockManager_init :: "'p AirdropLockManager" where
  "AirdropLockManager_init = \<lparr>al_initialized = False, al_state = Uninitialized,
     al_config = AirdropLockConfig_init, al_init_config = JObject [], al_last_error = None,
     al_last_command = '''', al_current_duty_cycle = '''', al_serial = MySerial_init\<rparr>"

definition SetErrorLocked :: "airdrop_error \<Rightarrow> 'p AirdropLockManager \<Rightarrow> 'p AirdropLockManager" where
  "SetErrorLocked error s =
     s\<lparr>al_last_error := Some error, al_state := (if ac_enabled (al_config s) then Error else Disabled)\<rparr>"

definition airdrop_serial_config :: "AirdropLockConfig \<Rightarrow> json" where
  "airdrop_serial_config c = JObject
     [(''device'', JString (ac_device c)), (''baud_rate'', JInteger (ac_baud_rate c)),
      (''data_bits'', JInteger (ac_data_bits c)), (''stop_bits'', JInteger (ac_stop_bits c)),
      (''parity'', JString ''none''), (''flowcontrol'', JString ''none''),
      (''timeout_ms'', JInteger 1000), (''auto_open'', JBool True)]"

definition al_Init :: "'p serial_lib \<Rightarrow> json \<Rightarrow> 'p AirdropLockManager \<Rightarrow> bool \<times> 'p AirdropLockManager" where
  "al_Init L cfg s =
     (case ParseConfig cfg of
        Inl e \<Rightarrow> (False, SetErrorLocked (ConfigException e) s)
      | Inr config \<Rightarrow>
          let s = s\<lparr>al_config := config, al_init_config := cfg, al_last_error := None, al_last_command := '''',
                    al_current_duty_cycle := '''', al_initialized := False,
                    al_state := (if ac_enabled config then Closed else Disabled)\<rparr> in
          if \<not> ac_enabled config then
            (case ms_Close L (al_serial s) of
               (Some e, port) \<Rightarrow> (False, SetErrorLocked (ConfigException (CloseFailed e)) (s\<lparr>al_serial := port\<rparr>))
             | (None, port) \<Rightarrow> (True, s\<lparr>al_serial := port, al_initialized := True\<rparr>))
          else
            (case ms_Init L (airdrop_serial_config config) (al_serial s) of
               (False, port) \<Rightarrow> (False, SetErrorLocked (SerialInitFailed (ms_last_error port)) (s\<lparr>al_serial := port\<rparr>))
             | (True, port) \<Rightarrow> (True, s\<lparr>al_serial := port, al_initialized := True, al_state := Closed\<rparr>)))"

definition al_Start :: "'p AirdropLockManager \<Rightarrow> bool" where
  "al_Start s = al_initialized s"

definition al_Stop :: "'p serial_lib \<Rightarrow> 'p AirdropLockManager \<Rightarrow> (string + unit) \<times> 'p AirdropLockManager" where
  "al_Stop L s =
     (case ms_Close L (al_serial s) of
        (Some e, port) \<Rightarrow> (Inl e, s\<lparr>al_serial := port\<rparr>)
      | (None, port) \<Rightarrow> (Inr (), s\<lparr>al_serial := port, al_initialized := False, al_state := Uninitialized\<rparr>))"

definition command_bytes :: "string \<Rightarrow> byte list" where
  "command_bytes command = map of_char command"

text \<open>\<open>init_action\<close>: the name of the action starts with the word for initialisation.\<close>

definition SendCommandLocked :: "'p serial_lib \<Rightarrow> string \<Rightarrow> bool \<Rightarrow> 'p AirdropLockManager \<Rightarrow> bool \<times> 'p AirdropLockManager" where
  "SendCommandLocked L command init_action s =
     (if \<not> al_initialized s \<and> \<not> init_action then (False, SetErrorLocked NotYetInitialized s)
      else if \<not> ac_enabled (al_config s) then (False, SetErrorLocked ModuleDisabled s)
      else if \<not> ms_IsOpen L (al_serial s) then (False, SetErrorLocked SerialNotOpen s)
      else case ms_Write L (command_bytes command) (al_serial s) of (written, write_error, port) \<Rightarrow>
        let s = s\<lparr>al_serial := port\<rparr> in
        if err_text_set write_error \<or> written \<noteq> length command
        then (False, SetErrorLocked (SendFailed command written write_error) s)
        else (True, s\<lparr>al_last_command := command, al_last_error := None\<rparr>))"

definition SetDutyCycle :: "'p serial_lib \<Rightarrow> string \<Rightarrow> 'p AirdropLockManager \<Rightarrow> airdrop_exn + (bool \<times> 'p AirdropLockManager)" where
  "SetDutyCycle L duty_cycle s =
     ebind (NormalizeDutyCycleCommand duty_cycle) (\<lambda>command.
     Inr (case SendCommandLocked L command False s of (ok, s) \<Rightarrow>
       if \<not> ok then (False, s) else (True, s\<lparr>al_current_duty_cycle := TrimCopy duty_cycle\<rparr>)))"

definition SetDutyCycle_int :: "'p serial_lib \<Rightarrow> int \<Rightarrow> 'p AirdropLockManager \<Rightarrow> airdrop_exn + (bool \<times> 'p AirdropLockManager)" where
  "SetDutyCycle_int L duty_cycle s = SetDutyCycle L (int_to_string duty_cycle) s"

definition OpenDropper :: "'p serial_lib \<Rightarrow> 'p AirdropLockManager \<Rightarrow> bool \<times> 'p AirdropLockManager" where
  "OpenDropper L s =
     (case SendCommandLocked L (ac_open_cmd (al_config s)) False s of (ok, s) \<Rightarrow>
       if \<not> ok then (False, s) else (True, s\<lparr>al_state := Open\<rparr>))"

definition CloseDropper :: "'p serial_lib \<Rightarrow> 'p AirdropLockManager \<Rightarrow> bool \<times> 'p AirdropLockManager" where
  "CloseDropper L s =
     (case SendCommandLocked L (ac_lock_cmd (al_config s)) False s of (ok, s) \<Rightarrow>
       if \<not> ok then (False, s) else (True, s\<lparr>al_state := Closed\<rparr>))"

text \<open>An exception of the normalisation is caught and answers false.\<close>

definition FristPowerOnProtection :: "'p serial_lib \<Rightarrow> 'p AirdropLockManager \<Rightarrow> bool \<times> 'p AirdropLockManager" where
  "FristPowerOnProtection L s =
     (case ebind (NormalizeDutyCycleCommand (ac_default_pwm_frequency (al_config s)))
             (\<lambda>duty_cmd. SetDutyCycle L duty_cmd s) of
        Inl e \<Rightarrow> (False, s)
      | Inr (False, s) \<Rightarrow> (False, s)
      | Inr (True, s) \<Rightarrow>
          SendCommandLocked L (ac_lock_cmd (al_config s)) False
            (s\<lparr>al_current_duty_cycle := ac_default_pwm_frequency (al_config s)\<rparr>))"

definition StateToString :: "AirdropLockState \<Rightarrow> string" where
  "StateToString st =
     (case st of Uninitialized \<Rightarrow> ''uninitialized'' | Disabled \<Rightarrow> ''disabled'' | Closed \<Rightarrow> ''closed''
      | Open \<Rightarrow> ''open'' | Error \<Rightarrow> ''error'')"

record airdrop_status =
  as_initialized :: bool
  as_enabled :: bool
  as_state :: string
  as_is_open :: bool
  as_serial_open :: bool
  as_config :: AirdropLockConfig
  as_init_config :: json
  as_current_duty_cycle :: string
  as_last_command :: string
  as_last_error :: "airdrop_error option"

definition al_GetStatus :: "'p serial_lib \<Rightarrow> 'p AirdropLockManager \<Rightarrow> airdrop_status" where
  "al_GetStatus L s = \<lparr>as_initialized = al_initialized s, as_enabled = ac_enabled (al_config s),
     as_state = StateToString (al_state s), as_is_open = (al_state s = Open),
     as_serial_open = ms_IsOpen L (al_serial s), as_config = al_config s, as_init_config = al_init_config s,
     as_current_duty_cycle = al_current_duty_cycle s, as_last_command = al_last_command s,
     as_last_error = al_last_error s\<rparr>"

section \<open>Behaviour of the duty cycle commands\<close>

lemma pad3_eq: "pad3 digits = replicate (3 - length digits) (CHR ''0'') @ digits"
proof (induction digits rule: pad3.induct)
  case (1 digits)
  show ?case
  proof (cases "length digits < 3")
    case True
    then have "3 - length digits = Suc (3 - Suc (length digits))" by simp
    then show ?thesis
      using 1 True by (subst pad3.simps) (simp del: replicate.simps add: replicate_append_same [symmetric] replicate_Suc)
  qed (simp add: pad3.simps)
qed

lemma digit_not_space: "cisdigit c \<Longrightarrow> \<not> cisspace c \<and> \<not> is_blank c \<and> c \<noteq> CHR ''-'' \<and> c \<noteq> CHR ''+'' \<and> c \<noteq> CHR ''F'' \<and> c \<noteq> CHR ''f''"
  by (auto simp: cisdigit_def cisspace_def is_blank_def Let_def)

lemma stoi_digits:
  assumes "ds \<noteq> []" and "list_all cisdigit ds"
  shows "stoi ds = (if int (decimal 0 ds) > 2 ^ 31 - 1 then Inl StoiRange else Inr (int (decimal 0 ds)))"
proof -
  obtain c cs where ds: "ds = c # cs" and c: "cisdigit c" using assms by (cases ds) auto
  have "dropWhile cisspace ds = ds" using digit_not_space [OF c] by (simp add: ds)
  moreover have "takeWhile cisdigit ds = ds" using assms(2) by (simp add: takeWhile_eq_all_conv list_all_iff)
  moreover have "c \<noteq> CHR ''-''" "c \<noteq> CHR ''+''" using digit_not_space [OF c] by simp_all
  ultimately show ?thesis using ds unfolding stoi_def Let_def
    by (simp del: decimal.simps takeWhile.simps dropWhile.simps takeWhile_eq_all_conv)
qed

lemma cisdigit_0 [simp]: "cisdigit (CHR ''0'')"
  by (simp add: cisdigit_def)

text \<open>The normal form of a duty cycle below 1000: \<open>F\<close> and three digits.\<close>

definition duty_command :: "nat \<Rightarrow> string" where
  "duty_command n = CHR ''F'' # pad3 (nat_to_string n)"

lemma pad3_digits:
  "list_all cisdigit (pad3 (nat_to_string n))" "pad3 (nat_to_string n) \<noteq> []"
  "decimal 0 (pad3 (nat_to_string n)) = n"
  using nat_to_string_digits [of n]
  by (auto simp: pad3_eq list_all_iff decimal_zeros decimal_nat_to_string)

lemma length_duty_command: "n < 1000 \<Longrightarrow> length (duty_command n) = 4"
  using length_nat_to_string [of n 3] nat_to_string_digits [of n] by (simp add: duty_command_def pad3_eq)

text \<open>An accepted input is digits, possibly after one \<open>F\<close>, with a value below 1000.\<close>

lemma Normalize_digits:
  assumes "ds \<noteq> []" and "list_all cisdigit ds"
  shows "NormalizeDutyCycleCommand ds = NormalizeDutyCycleCommand (CHR ''F'' # ds)"
    and "NormalizeDutyCycleCommand ds =
      (if decimal 0 ds < 1000 then Inr (duty_command (decimal 0 ds))
       else if int (decimal 0 ds) > 2 ^ 31 - 1 then Inl StoiRange else Inl DutyRange)"
proof -
  have b: "list_all (\<lambda>c. \<not> is_blank c) ds" using assms(2) digit_not_space by (auto simp: list_all_iff)
  moreover have "\<not> is_blank (CHR ''F'')" by (simp add: is_blank_def)
  ultimately have t: "TrimCopy ds = ds" "TrimCopy (CHR ''F'' # ds) = CHR ''F'' # ds"
    by (simp_all add: TrimCopy_no_blank)
  have h: "hd ds \<noteq> CHR ''F'' \<and> hd ds \<noteq> CHR ''f''"
    using assms digit_not_space by (cases ds) auto
  show "NormalizeDutyCycleCommand ds = NormalizeDutyCycleCommand (CHR ''F'' # ds)"
    using assms h by (simp add: NormalizeDutyCycleCommand_def t Let_def)
  show "NormalizeDutyCycleCommand ds =
      (if decimal 0 ds < 1000 then Inr (duty_command (decimal 0 ds))
       else if int (decimal 0 ds) > 2 ^ 31 - 1 then Inl StoiRange else Inl DutyRange)"
    using assms h stoi_digits [OF assms]
    by (simp add: NormalizeDutyCycleCommand_def t Let_def duty_command_def int_to_string_def)
qed

lemma Normalize_Inr:
  assumes "NormalizeDutyCycleCommand s = Inr c"
  shows "\<exists>n < 1000. c = duty_command n"
proof -
  define val where "val = (let v = TrimCopy s in if hd v = CHR ''F'' \<or> hd v = CHR ''f'' then tl v else v)"
  have v: "val \<noteq> []" "list_all cisdigit val"
    and r: "(if \<exists>i. stoi val = Inr i \<and> 0 \<le> i \<and> i \<le> 999 then True else False)"
    and c: "\<And>i. stoi val = Inr i \<Longrightarrow> c = CHR ''F'' # pad3 (int_to_string i)"
    using assms unfolding NormalizeDutyCycleCommand_def val_def Let_def
    by (auto simp: ebind_eq_Inr_iff split: if_splits)
  then obtain i where "stoi val = Inr i" "0 \<le> i" "i \<le> 999" by (auto split: if_splits)
  with c have "c = duty_command (nat i) \<and> nat i < 1000"
    by (simp add: duty_command_def int_to_string_def)
  then show ?thesis by blast
qed

lemma Normalize_nat:
  "NormalizeDutyCycleCommand (nat_to_string n) =
     (if n < 1000 then Inr (duty_command n) else if int n > 2 ^ 31 - 1 then Inl StoiRange else Inl DutyRange)"
  using Normalize_digits(2) [of "nat_to_string n"] nat_to_string_digits [of n]
  by (simp add: decimal_nat_to_string)

lemma Normalize_duty_command:
  "n < 1000 \<Longrightarrow> NormalizeDutyCycleCommand (duty_command n) = Inr (duty_command n)"
  using Normalize_digits(1) [OF pad3_digits(2,1), of n] Normalize_digits(2) [OF pad3_digits(2,1), of n]
  unfolding pad3_digits(3) by (simp add: duty_command_def [of n])

lemma Normalize_negative: "i < 0 \<Longrightarrow> NormalizeDutyCycleCommand (int_to_string i) = Inl DutyNotDigits"
proof -
  assume i: "i < 0"
  have "list_all (\<lambda>c. \<not> is_blank c) (int_to_string i)"
    using i nat_to_string_digits [of "nat (- i)"] digit_not_space
    by (auto simp: int_to_string_def list_all_iff is_blank_def)
  then have "TrimCopy (int_to_string i) = CHR ''-'' # nat_to_string (nat (- i))"
    using i by (simp add: TrimCopy_no_blank) (simp add: int_to_string_def)
  then show ?thesis by (simp add: NormalizeDutyCycleCommand_def cisdigit_def)
qed

section \<open>Behaviour of the manager\<close>

text \<open>What holds of the manager between calls.\<close>

definition airdrop_inv :: "'p AirdropLockManager \<Rightarrow> bool" where
  "airdrop_inv s \<longleftrightarrow>
     (al_state s \<in> {Open, Closed} \<longrightarrow> al_initialized s \<and> ac_enabled (al_config s)) \<and>
     (al_state s = Error \<longrightarrow> ac_enabled (al_config s)) \<and>
     (al_state s = Disabled \<longrightarrow> \<not> ac_enabled (al_config s)) \<and>
     (al_state s = Uninitialized \<longrightarrow> \<not> al_initialized s) \<and>
     (al_initialized s \<and> ac_enabled (al_config s) \<longrightarrow> ms_serial (al_serial s) \<noteq> None) \<and>
     IsAsciiCommand (ac_open_cmd (al_config s)) \<and> IsAsciiCommand (ac_lock_cmd (al_config s))"

text \<open>The states that calls of the interface can reach, a caught exception included.\<close>

inductive airdrop_reachable :: "'p serial_lib \<Rightarrow> 'p AirdropLockManager \<Rightarrow> bool" for L where
  start: "airdrop_reachable L AirdropLockManager_init"
| init: "airdrop_reachable L s \<Longrightarrow> airdrop_reachable L (snd (al_Init L cfg s))"
| stop: "airdrop_reachable L s \<Longrightarrow> airdrop_reachable L (snd (al_Stop L s))"
| duty: "airdrop_reachable L s \<Longrightarrow> SetDutyCycle L d s = Inr (ok, s') \<Longrightarrow> airdrop_reachable L s'"
| open_dropper: "airdrop_reachable L s \<Longrightarrow> airdrop_reachable L (snd (OpenDropper L s))"
| close_dropper: "airdrop_reachable L s \<Longrightarrow> airdrop_reachable L (snd (CloseDropper L s))"
| protection: "airdrop_reachable L s \<Longrightarrow> airdrop_reachable L (snd (FristPowerOnProtection L s))"

lemma ParseConfig_commands:
  "ParseConfig cfg = Inr c \<Longrightarrow> IsAsciiCommand (ac_open_cmd c) \<and> IsAsciiCommand (ac_lock_cmd c)"
  unfolding ParseConfig_def Let_def by (auto simp: ebind_eq_Inr_iff split: if_splits)

lemma SetErrorLocked_inv:
  "airdrop_inv s \<Longrightarrow> airdrop_inv (SetErrorLocked e s)"
  "al_initialized s = False \<Longrightarrow> IsAsciiCommand (ac_open_cmd (al_config s)) \<Longrightarrow>
     IsAsciiCommand (ac_lock_cmd (al_config s)) \<Longrightarrow> airdrop_inv (SetErrorLocked e s)"
  by (auto simp: airdrop_inv_def SetErrorLocked_def)

lemma ms_Close_port: "ms_Close L s = (e, s') \<Longrightarrow> (ms_serial s' = None) = (ms_serial s = None)"
  by (auto simp: ms_Close_def split: option.splits prod.splits if_splits)

lemma ms_Write_port: "ms_Write L d s = (n, e, s') \<Longrightarrow> (ms_serial s' = None) = (ms_serial s = None)"
  by (auto simp: ms_Write_def with_port_def split: option.splits prod.splits sum.splits if_splits)

lemma al_Init_inv:
  assumes "airdrop_inv s" shows "airdrop_inv (snd (al_Init L cfg s))"
proof (cases "ParseConfig cfg")
  case (Inl e)
  then show ?thesis using assms by (simp add: al_Init_def SetErrorLocked_inv)
next
  case (Inr c)
  note cmds = ParseConfig_commands [OF Inr]
  show ?thesis
  proof (cases "ac_enabled c")
    case True
    obtain ok port where i: "ms_Init L (airdrop_serial_config c) (al_serial s) = (ok, port)" by fastforce
    have "ok \<Longrightarrow> ms_serial port \<noteq> None" using ms_Init_cases [OF i] by auto
    then show ?thesis
      using Inr True i cmds
      by (cases ok) (auto simp: al_Init_def Let_def SetErrorLocked_def airdrop_inv_def)
  next
    case False
    then show ?thesis
      using Inr cmds
      by (auto simp: al_Init_def Let_def SetErrorLocked_def airdrop_inv_def split: prod.split option.split)
  qed
qed

lemma SendCommandLocked_inv:
  assumes "airdrop_inv s" and "SendCommandLocked L c b s = (ok, s')"
  shows "airdrop_inv s' \<and> al_config s' = al_config s \<and> al_initialized s' = al_initialized s \<and>
    (ok \<and> \<not> b \<longrightarrow> al_initialized s \<and> ac_enabled (al_config s) \<and> al_state s' = al_state s)"
proof -
  have w: "airdrop_inv (s\<lparr>al_serial := port\<rparr>)" "airdrop_inv (s\<lparr>al_serial := port, al_last_command := c, al_last_error := None\<rparr>)"
    if "ms_Write L d (al_serial s) = (n, e, port)" for d n e port
    using assms(1) ms_Write_port [OF that] by (auto simp: airdrop_inv_def)
  show ?thesis
    using assms w unfolding SendCommandLocked_def
    by (auto simp: Let_def SetErrorLocked_inv split: if_splits prod.splits)
      (auto simp: SetErrorLocked_def)
qed

lemma airdrop_inv_fields:
  "airdrop_inv s \<Longrightarrow> airdrop_inv (s\<lparr>al_current_duty_cycle := d\<rparr>)"
  "airdrop_inv s \<Longrightarrow> al_initialized s \<Longrightarrow> ac_enabled (al_config s) \<Longrightarrow> st \<in> {Open, Closed} \<Longrightarrow>
     airdrop_inv (s\<lparr>al_state := st\<rparr>)"
  by (auto simp: airdrop_inv_def)

lemma dropper_inv:
  assumes "airdrop_inv s"
  shows "airdrop_inv (snd (OpenDropper L s))" "airdrop_inv (snd (CloseDropper L s))"
proof -
  have *: "airdrop_inv (snd (case SendCommandLocked L c False s of (ok, s) \<Rightarrow>
      if \<not> ok then (False, s) else (True, s\<lparr>al_state := st\<rparr>)))" if st: "st \<in> {Open, Closed}" for c st
  proof (cases "SendCommandLocked L c False s")
    case (Pair ok s1)
    note i = SendCommandLocked_inv [OF assms Pair]
    then have "ok \<Longrightarrow> airdrop_inv (s1\<lparr>al_state := st\<rparr>)" using airdrop_inv_fields(2) [of s1 st] st by simp
    with Pair i show ?thesis by simp
  qed
  show "airdrop_inv (snd (OpenDropper L s))" "airdrop_inv (snd (CloseDropper L s))"
    unfolding OpenDropper_def CloseDropper_def by (rule *, simp)+
qed

lemma SendCommandLocked_snd_inv: "airdrop_inv s \<Longrightarrow> airdrop_inv (snd (SendCommandLocked L c b s))"
  using SendCommandLocked_inv [of s L c b] by (cases "SendCommandLocked L c b s") auto

lemma SetDutyCycle_inv:
  assumes "airdrop_inv s" and "SetDutyCycle L d s = Inr (ok, s')"
  shows "airdrop_inv s'"
proof -
  from assms(2) obtain c where c: "(case SendCommandLocked L c False s of (ok, s) \<Rightarrow>
       if \<not> ok then (False, s) else (True, s\<lparr>al_current_duty_cycle := TrimCopy d\<rparr>)) = (ok, s')"
    by (auto simp: SetDutyCycle_def ebind_eq_Inr_iff)
  then show ?thesis
    using SendCommandLocked_snd_inv [OF assms(1), of L c False]
    by (cases "SendCommandLocked L c False s") (auto intro: airdrop_inv_fields(1) split: if_splits)
qed

lemma FristPowerOnProtection_inv:
  assumes "airdrop_inv s" shows "airdrop_inv (snd (FristPowerOnProtection L s))"
proof (cases "ebind (NormalizeDutyCycleCommand (ac_default_pwm_frequency (al_config s)))
             (\<lambda>duty_cmd. SetDutyCycle L duty_cmd s)")
  case (Inl e)
  then show ?thesis using assms by (simp add: FristPowerOnProtection_def)
next
  case (Inr r)
  obtain ok s1 where r: "r = (ok, s1)" by (cases r)
  with Inr have i: "airdrop_inv s1" using assms SetDutyCycle_inv by (auto simp: ebind_eq_Inr_iff)
  show ?thesis
    using Inr r i
    by (cases ok) (simp_all add: FristPowerOnProtection_def SendCommandLocked_snd_inv airdrop_inv_fields(1))
qed

lemma al_Stop_inv: "airdrop_inv s \<Longrightarrow> airdrop_inv (snd (al_Stop L s))"
  unfolding al_Stop_def
  by (auto split: prod.splits option.splits dest: ms_Close_port simp: airdrop_inv_def)

lemma airdrop_reachable_inv: "airdrop_reachable L s \<Longrightarrow> airdrop_inv s"
proof (induction rule: airdrop_reachable.induct)
  case start
  then show ?case by (simp add: airdrop_inv_def AirdropLockManager_init_def AirdropLockConfig_init_def IsAsciiCommand_def)
qed (simp_all add: al_Init_inv al_Stop_inv SetDutyCycle_inv dropper_inv FristPowerOnProtection_inv)

text \<open>The bytes the device has received through the present port, and what a command is to do with them.\<close>

definition airdrop_wire :: "('p \<Rightarrow> byte list) \<Rightarrow> 'p AirdropLockManager \<Rightarrow> byte list" where
  "airdrop_wire sent s = (case ms_serial (al_serial s) of Some p \<Rightarrow> sent p | None \<Rightarrow> [])"

definition command_outcome :: "('p \<Rightarrow> byte list) \<Rightarrow> string \<Rightarrow> AirdropLockState \<Rightarrow> 'p AirdropLockManager \<Rightarrow>
    bool \<times> 'p AirdropLockManager \<Rightarrow> bool" where
  "command_outcome sent command st s result = (case result of (ok, s') \<Rightarrow>
     if ok then al_initialized s \<and> ac_enabled (al_config s) \<and> al_state s' = st \<and> al_last_command s' = command \<and>
       airdrop_wire sent s' = airdrop_wire sent s @ command_bytes command
     else al_state s' = (if ac_enabled (al_config s) then Error else Disabled) \<and> al_last_error s' \<noteq> None \<and>
       (\<exists>k. airdrop_wire sent s' = airdrop_wire sent s @ take k (command_bytes command)))"

lemma SetErrorLocked_outcome:
  "al_state (SetErrorLocked e s) = (if ac_enabled (al_config s) then Error else Disabled)"
  "al_last_error (SetErrorLocked e s) = Some e" "airdrop_wire sent (SetErrorLocked e s) = airdrop_wire sent s"
  by (simp_all add: SetErrorLocked_def airdrop_wire_def)

lemma length_command_bytes [simp]: "length (command_bytes c) = length c"
  by (simp add: command_bytes_def)

lemma SendCommandLocked_outcome:
  assumes L: "write_law L sent" and "command \<noteq> []"
  shows "command_outcome sent command (al_state s) s (SendCommandLocked L command False s)"
proof (cases "al_initialized s \<and> ac_enabled (al_config s) \<and> ms_IsOpen L (al_serial s)")
  case False
  have "\<exists>k. airdrop_wire sent s = airdrop_wire sent s @ take k (command_bytes command)"
    by (rule exI [of _ 0]) simp
  then show ?thesis
    using False unfolding SendCommandLocked_def command_outcome_def
    by (auto simp: SetErrorLocked_outcome)
next
  case True
  then obtain p where p: "ms_serial (al_serial s) = Some p"
    by (auto simp: ms_IsOpen_def split: option.splits)
  obtain n e port where w: "ms_Write L (command_bytes command) (al_serial s) = (n, e, port)"
    by (cases "ms_Write L (command_bytes command) (al_serial s)") auto
  from ms_Write_law [OF L p w] obtain p' k where p': "ms_serial port = Some p'" "n \<le> length command"
    "sent p' = sent p @ take k (command_bytes command)" "0 < n \<longrightarrow> k = n" by auto
  have wire: "airdrop_wire sent (s\<lparr>al_serial := port\<rparr>) = airdrop_wire sent s @ take k (command_bytes command)"
    using p p' by (simp add: airdrop_wire_def)
  show ?thesis
  proof (cases "err_text_set e \<or> n \<noteq> length command")
    case True
    then have "SendCommandLocked L command False s = (False, SetErrorLocked (SendFailed command n e) (s\<lparr>al_serial := port\<rparr>))"
      using \<open>al_initialized s \<and> _\<close> w by (simp add: SendCommandLocked_def)
    then show ?thesis using wire by (auto simp: command_outcome_def SetErrorLocked_outcome)
  next
    case False
    then have "k = length command" using p'(4) assms(2) by simp
    then show ?thesis
      using False True w p p' by (simp add: SendCommandLocked_def command_outcome_def airdrop_wire_def)
  qed
qed

lemma command_outcome_set_state:
  "command_outcome sent c st s r \<Longrightarrow>
   command_outcome sent c st' s (case r of (ok, s') \<Rightarrow> if \<not> ok then (False, s') else (True, s'\<lparr>al_state := st'\<rparr>))"
  by (cases r) (auto simp: command_outcome_def airdrop_wire_def)

lemma dropper_outcome:
  assumes "write_law L sent" and "airdrop_inv s"
  shows "command_outcome sent (ac_open_cmd (al_config s)) Open s (OpenDropper L s)"
    and "command_outcome sent (ac_lock_cmd (al_config s)) Closed s (CloseDropper L s)"
proof -
  have "ac_open_cmd (al_config s) \<noteq> []" "ac_lock_cmd (al_config s) \<noteq> []"
    using assms(2) by (simp_all add: airdrop_inv_def IsAsciiCommand_def)
  then show "command_outcome sent (ac_open_cmd (al_config s)) Open s (OpenDropper L s)"
    and "command_outcome sent (ac_lock_cmd (al_config s)) Closed s (CloseDropper L s)"
    unfolding OpenDropper_def CloseDropper_def
    by (auto intro: command_outcome_set_state SendCommandLocked_outcome [OF assms(1)])
qed

section \<open>Properties\<close>

text \<open>C36: the lock manager reports \<open>open\<close> only for a device it has told to open. In every reachable state,
  \<open>OpenDropper\<close> and \<open>CloseDropper\<close> answer true exactly with the whole configured command on the wire
  and the state switched to open or closed, on an initialised and enabled module; otherwise the state is
  error, or disabled when the module is, an error is recorded, and at most a part of the command was
  written. The states open and closed occur only while the module is initialised and enabled.\<close>

theorem airdrop_lock_contract:
  assumes "write_law L sent" and "airdrop_reachable L s"
  shows "airdrop_inv s \<and>
    command_outcome sent (ac_open_cmd (al_config s)) Open s (OpenDropper L s) \<and>
    command_outcome sent (ac_lock_cmd (al_config s)) Closed s (CloseDropper L s)"
  using dropper_outcome [OF assms(1)] airdrop_reachable_inv [OF assms(2)] by blast

definition demo_lock_config :: AirdropLockConfig where
  "demo_lock_config = AirdropLockConfig_init\<lparr>ac_enabled := True\<rparr>"

definition demo_lock :: "recording_port AirdropLockManager" where
  "demo_lock = AirdropLockManager_init\<lparr>al_config := demo_lock_config, al_init_config := JObject [(''enabled'', JBool True)],
     al_initialized := True, al_state := Closed, al_serial := \<lparr>
       ms_serial = Some \<lparr>rp_open = True, rp_sent = [], rp_incoming = []\<rparr>,
       ms_options = SerialInitOptions_init\<lparr>so_port := ''/dev/ttyUSB0''\<rparr>,
       ms_initialized = True, ms_last_error = None\<rparr>\<rparr>"

lemma demo_lock_parse: "ParseConfig (JObject [(''enabled'', JBool True)]) = Inr demo_lock_config"
proof -
  have "TrimCopy ''/dev/ttyUSB0'' = ''/dev/ttyUSB0''" "TrimCopy ''50'' = ''50''" "TrimCopy ''D005'' = ''D005''"
    "TrimCopy ''D010'' = ''D010''" "IsAsciiCommand ''D005''" "IsAsciiCommand ''D010''"
    by (simp_all add: TrimCopy_def is_blank_def IsAsciiCommand_def)
  then show ?thesis
    by (simp add: ParseConfig_def AirdropLockConfig_init_def enabled_value_def JsonStringOrNumber_def
        JsonIntValue_def demo_lock_config_def)
qed

lemma demo_lock_serial:
  "ParseOptions (airdrop_serial_config demo_lock_config) = Inr (SerialInitOptions_init\<lparr>so_port := ''/dev/ttyUSB0''\<rparr>)"
  "configure_port recording_lib (SerialInitOptions_init\<lparr>so_port := ''/dev/ttyUSB0''\<rparr>)
     = Inr \<lparr>rp_open = True, rp_sent = [], rp_incoming = []\<rparr>"
proof -
  have t: "int_to_string 8 = ''8''" "int_to_string 1 = ''1''" "NormalizeToken ''none'' = ''none''"
    by (code_simp, code_simp, code_simp)
  have b: "ParseBytesize ''8'' = Inr eightbits" "ParseParity ''none'' = Inr parity_none"
    "ParseStopbits ''1'' = Inr stopbits_one" "ParseFlowcontrol ''none'' = Inr flowcontrol_none"
    "ParseBytesize ''eightbits'' = Inr eightbits" "ParseStopbits ''one'' = Inr stopbits_one"
    by (code_simp, code_simp, code_simp, code_simp, code_simp, code_simp)
  show "ParseOptions (airdrop_serial_config demo_lock_config) = Inr (SerialInitOptions_init\<lparr>so_port := ''/dev/ttyUSB0''\<rparr>)"
    by (simp add: ParseOptions_def airdrop_serial_config_def demo_lock_config_def AirdropLockConfig_init_def
        GetRequiredPortValue_def GetUint32Value_def uint32_value_def GetTokenValue_def auto_open_value_def
        SerialInitOptions_init_def t b)
  show "configure_port recording_lib (SerialInitOptions_init\<lparr>so_port := ''/dev/ttyUSB0''\<rparr>)
     = Inr \<lparr>rp_open = True, rp_sent = [], rp_incoming = []\<rparr>"
    by (simp add: configure_port_def recording_lib_def SerialInitOptions_init_def lib_step_def accept_setting_def b)
qed

lemma demo_lock_reached: "airdrop_reachable recording_lib demo_lock"
proof -
  have "al_Init recording_lib (JObject [(''enabled'', JBool True)]) AirdropLockManager_init = (True, demo_lock)"
    using demo_lock_serial
    by (simp add: al_Init_def demo_lock_parse ms_Init_def close_previous_def AirdropLockManager_init_def
        MySerial_init_def demo_lock_def) (simp add: demo_lock_config_def)
  then show ?thesis
    using airdrop_reachable.init [OF airdrop_reachable.start, of recording_lib "JObject [(''enabled'', JBool True)]"] by simp
qed

theorem airdrop_lock_contract_witness:
  "\<exists>s'. OpenDropper recording_lib demo_lock = (True, s') \<and> al_state s' = Open \<and>
     airdrop_wire rp_sent s' = command_bytes ''D005''"
proof -
  obtain s' where s': "OpenDropper recording_lib demo_lock = (True, s')"
    by (simp add: OpenDropper_def SendCommandLocked_def demo_lock_def demo_lock_config_def
        AirdropLockConfig_init_def ms_IsOpen_def ms_Write_def with_port_def open_guard_def lib_result_def
        recording_lib_def)
  have "ac_open_cmd (al_config demo_lock) = ''D005''" "airdrop_wire rp_sent demo_lock = []"
    by (simp_all add: demo_lock_def demo_lock_config_def AirdropLockConfig_init_def airdrop_wire_def)
  then show ?thesis
    using airdrop_lock_contract [OF recording_lib_write_law demo_lock_reached] s'
    by (simp add: command_outcome_def)
qed

text \<open>every duty cycle the normalisation accepts becomes \<open>F\<close> and three digits of a value below 1000,
  a form it maps to itself and from which the value can be read back; the integers it accepts are
  exactly 0 to 999.\<close>

theorem duty_command_canonical:
  assumes "NormalizeDutyCycleCommand s = Inr c"
  shows "(\<exists>n < 1000. c = duty_command n \<and> decimal 0 (tl c) = n) \<and> length c = 4 \<and>
    NormalizeDutyCycleCommand c = Inr c \<and>
    (\<forall>i. (\<exists>c'. NormalizeDutyCycleCommand (int_to_string i) = Inr c') = (0 \<le> i \<and> i \<le> 999))"
proof -
  obtain n where n: "n < 1000" "c = duty_command n" using Normalize_Inr [OF assms] by blast
  have "(\<exists>c'. NormalizeDutyCycleCommand (int_to_string i) = Inr c') = (0 \<le> i \<and> i \<le> 999)" for i
    using Normalize_nat [of "nat i"] Normalize_negative [of i]
    by (cases "i < 0") (auto simp: int_to_string_def)
  then show ?thesis
    using n length_duty_command [of n] Normalize_duty_command [of n] pad3_digits(3) [of n]
    by (auto simp: duty_command_def)
qed

theorem duty_command_canonical_witness:
  "NormalizeDutyCycleCommand ''50'' = Inr ''F050'' \<and> NormalizeDutyCycleCommand ''F050'' = Inr ''F050''"
proof -
  have "NormalizeDutyCycleCommand ''50'' = Inr (duty_command 50)"
    using Normalize_digits(2) [of "''50''"] by (simp add: cisdigit_def)
  moreover have "duty_command 50 = ''F050''" by code_simp
  ultimately have *: "NormalizeDutyCycleCommand ''50'' = Inr ''F050''" by simp
  then show ?thesis using duty_command_canonical [OF *] by blast
qed

end
