(* ===== verification/GasModbus.thy ===== *)
theory GasModbus
  imports Json
begin

text \<open>
  The Modbus-RTU layer of \<open>src/util/my_gas_detector_poll\<close>: the CRC, the request of function code 3,
  the analysis of a response, and the name tables of \<open>MyGasDetectorPollInternal.h\<close>. Texts are the
  UTF-8 bytes of the source; error texts are constructors. A \<open>double\<close> that is a register divided by
  ten is kept as the integer numerator, and the time stamp is an argument.
\<close>

section \<open>Names\<close>

type_synonym utf8 = "byte list"

definition utf8 :: "string \<Rightarrow> utf8" where
  "utf8 s = map of_char s"

definition hex_digit_upper :: "nat \<Rightarrow> char" where
  "hex_digit_upper n = (if n < 10 then char_of (48 + n) else char_of (55 + n))"

definition UnitName :: "nat \<Rightarrow> utf8" where
  "UnitName code =
     (if code = 0 then utf8 ''ppm''
      else if code = 2 then utf8 ''%LEL''
      else if code = 4 then utf8 ''%VOL''
      else if code = 6 then [0x6D, 0x67, 0x2F, 0x6D, 0xC2, 0xB3]
      else if code = 8 then utf8 ''ppb''
      else if code = 10 then [0xE2, 0x84, 0x83]
      else [0xE6, 0x9C, 0xAA, 0xE7, 0x9F, 0xA5, 0xE5, 0x8D, 0x95, 0xE4, 0xBD, 0x8D, 0x28, 0xE7, 0xBC,
          0x96, 0xE7, 0xA0, 0x81, 0x30, 0x78] @ utf8 [hex_digit_upper code] @ utf8 '')'')"

definition StatusName :: "nat \<Rightarrow> utf8" where
  "StatusName code =
     (if code = 0 then [0xE9, 0xA2, 0x84, 0xE7, 0x83, 0xAD]
      else if code = 1 then [0xE6, 0xAD, 0xA3, 0xE5, 0xB8, 0xB8, 0xE5, 0xB7, 0xA5, 0xE4, 0xBD, 0x9C]
      else if code = 2 then [0xE6, 0x95, 0xB0, 0xE6, 0x8D, 0xAE, 0xE9, 0x94, 0x99, 0xE8, 0xAF, 0xAF]
      else if code = 3 then [0xE4, 0xBC, 0xA0, 0xE6, 0x84, 0x9F, 0xE5, 0x99, 0xA8, 0xE6, 0x95, 0x85,
          0xE9, 0x9A, 0x9C]
      else if code = 4 then [0xE9, 0xA2, 0x84, 0xE8, 0xAD, 0xA6]
      else if code = 5 then [0xE4, 0xBD, 0x8E, 0xE6, 0x8A, 0xA5]
      else if code = 6 then [0xE9, 0xAB, 0x98, 0xE6, 0x8A, 0xA5]
      else if code = 7 then [0xE8, 0xAE, 0xBF, 0xE9, 0x97, 0xAE, 0xE6, 0x95, 0x85, 0xE9, 0x9A, 0x9C]
      else if code = 8 then [0xE8, 0xB6, 0x85, 0xE9, 0x87, 0x8F, 0xE7, 0xA8, 0x8B]
      else if code = 9 then [0xE9, 0x9C, 0x80, 0xE8, 0xA6, 0x81, 0xE6, 0xA0, 0x87, 0xE5, 0xAE, 0x9A]
      else if code = 10 then [0xE8, 0xB6, 0x85, 0xE6, 0x97, 0xB6]
      else if code = 11 then [0x53, 0x54, 0x45, 0x4C, 0xE6, 0x8A, 0xA5, 0xE8, 0xAD, 0xA6]
      else if code = 12 then [0x54, 0x57, 0x41, 0xE6, 0x8A, 0xA5, 0xE8, 0xAD, 0xA6]
      else if code = 13 then [0xE4, 0xBF, 0x9D, 0xE7, 0x95, 0x99]
      else if code = 14 then [0xE4, 0xBF, 0x9D, 0xE7, 0x95, 0x99]
      else if code = 15 then [0xE9, 0x80, 0x9A, 0xE4, 0xBF, 0xA1, 0xE6, 0x95, 0x85, 0xE9, 0x9A, 0x9C]
      else [0xE6, 0x9C, 0xAA, 0xE7, 0x9F, 0xA5, 0xE7, 0x8A, 0xB6, 0xE6, 0x80, 0x81])"

definition gas_names :: "utf8 list" where
  "gas_names = [utf8 ''NULL'', utf8 ''AR'', utf8 ''ASH3'', utf8 ''B2H6'', utf8 ''BR2'', utf8 ''CO'',
    utf8 ''CO2'', utf8 ''COCL2'', utf8 ''CH2O'', utf8 ''CH2O2'', utf8 ''CH3BR'', utf8 ''CH4'',
    utf8 ''CH4O'', utf8 ''CH4S'', utf8 ''CH5N'', utf8 ''CH6O'', utf8 ''CIC'', utf8 ''CL2'',
    utf8 ''CLO2'', utf8 ''C2CL4'', utf8 ''C2HCL3'', utf8 ''C2H2'', utf8 ''C2H3CL'', utf8 ''C2H'',
    utf8 ''C2H4O'', utf8 ''C2H6O'', utf8 ''C3H3N'', utf8 ''C3H4'', utf8 ''C3H6'', utf8 ''C3H8'',
    utf8 ''C4H8O2'', utf8 ''C4H8S'', utf8 ''C4H10'', utf8 ''C4H10O'', utf8 ''C5H12'',
    utf8 ''C6H6'', utf8 ''C6H6S'', utf8 ''C6H12'', utf8 ''C6H14'', utf8 ''C7H8'', utf8 ''C7H16'',
    utf8 ''C8H8'', utf8 ''C8H10'', utf8 ''C8H18'', utf8 ''CS2'', utf8 ''EX'', utf8 ''ETO'',
    utf8 ''F2'', utf8 ''FX'', utf8 ''GEH4'', utf8 ''H2'', utf8 ''H2O2'', utf8 ''H2S'',
    utf8 ''HCL'', utf8 ''HCN'', utf8 ''HBR'', utf8 ''HE'', utf8 ''HF'', utf8 ''KR'', utf8 ''N2'',
    utf8 ''NO2'', utf8 ''NOX'', utf8 ''NF3'', utf8 ''NH3'', utf8 ''N2'', utf8 ''N2O'',
    utf8 ''N2H4'', utf8 ''O2'', utf8 ''O3'', utf8 ''PH3'', utf8 ''PID'', utf8 ''P2O5'',
    utf8 ''SO2'', utf8 ''SO2F2'', utf8 ''SIH4'', utf8 ''SIF4'', utf8 ''SF6'', utf8 ''THT'',
    utf8 ''TVOC'', utf8 ''VOC'', utf8 ''VOCS'', utf8 ''SO3'', utf8 ''NMHC'',
    [0xE6, 0xB8, 0xA9, 0xE5, 0xBA, 0xA6], [0xE6, 0xB9, 0xBF, 0xE5, 0xBA, 0xA6],
    [0xE9, 0xA3, 0x8E, 0xE9, 0x80, 0x9F], [0xE9, 0xA3, 0x8E, 0xE5, 0x90, 0x91]]"

definition gas_chinese :: "nat \<Rightarrow> utf8" where
  "gas_chinese code =
     (if code = 1 then [0xE6, 0xB0, 0xA9, 0xE6, 0xB0, 0x94]
      else if code = 2 then [0xE7, 0xA0, 0xB7, 0xE5, 0x8C, 0x96, 0xE6, 0xB0, 0xA2]
      else if code = 3 then [0xE4, 0xB9, 0x99, 0xE7, 0xA1, 0xBC, 0xE7, 0x83, 0xB7]
      else if code = 4 then [0xE6, 0xBA, 0xB4, 0xE6, 0xB0, 0x94]
      else if code = 5 then [0xE4, 0xB8, 0x80, 0xE6, 0xB0, 0xA7, 0xE5, 0x8C, 0x96, 0xE7, 0xA2, 0xB3]
      else if code = 6 then [0xE4, 0xBA, 0x8C, 0xE6, 0xB0, 0xA7, 0xE5, 0x8C, 0x96, 0xE7, 0xA2, 0xB3]
      else if code = 7 then [0xE5, 0x85, 0x89, 0xE6, 0xB0, 0x94]
      else if code = 8 then [0xE7, 0x94, 0xB2, 0xE9, 0x86, 0x9B]
      else if code = 11 then [0xE7, 0x94, 0xB2, 0xE7, 0x83, 0xB7]
      else if code = 17 then [0xE6, 0xB0, 0xAF, 0xE6, 0xB0, 0x94]
      else if code = 18 then [0xE4, 0xBA, 0x8C, 0xE6, 0xB0, 0xA7, 0xE5, 0x8C, 0x96, 0xE6, 0xB0, 0xAF]
      else if code = 21 then [0xE4, 0xB9, 0x99, 0xE7, 0x82, 0x94]
      else if code = 29 then [0xE4, 0xB8, 0x99, 0xE7, 0x83, 0xB7]
      else if code = 35 then [0xE8, 0x8B, 0xAF]
      else if code = 39 then [0xE7, 0x94, 0xB2, 0xE8, 0x8B, 0xAF]
      else if code = 44 then [0xE4, 0xBA, 0x8C, 0xE7, 0xA1, 0xAB, 0xE5, 0x8C, 0x96, 0xE7, 0xA2, 0xB3]
      else if code = 47 then [0xE6, 0xB0, 0x9F, 0xE6, 0xB0, 0x94]
      else if code = 50 then [0xE6, 0xB0, 0xA2, 0xE6, 0xB0, 0x94]
      else if code = 52 then [0xE7, 0xA1, 0xAB, 0xE5, 0x8C, 0x96, 0xE6, 0xB0, 0xA2]
      else if code = 53 then [0xE6, 0xB0, 0xAF, 0xE5, 0x8C, 0x96, 0xE6, 0xB0, 0xA2]
      else if code = 54 then [0xE6, 0xB0, 0xB0, 0xE5, 0x8C, 0x96, 0xE6, 0xB0, 0xA2]
      else if code = 56 then [0xE6, 0xB0, 0xA6, 0xE6, 0xB0, 0x94]
      else if code = 57 then [0xE6, 0xB0, 0x9F, 0xE5, 0x8C, 0x96, 0xE6, 0xB0, 0xA2]
      else if code = 60 then [0xE4, 0xBA, 0x8C, 0xE6, 0xB0, 0xA7, 0xE5, 0x8C, 0x96, 0xE6, 0xB0, 0xAE]
      else if code = 63 then [0xE6, 0xB0, 0xA8, 0xE6, 0xB0, 0x94]
      else if code = 67 then [0xE6, 0xB0, 0xA7, 0xE6, 0xB0, 0x94]
      else if code = 68 then [0xE8, 0x87, 0xAD, 0xE6, 0xB0, 0xA7]
      else if code = 69 then [0xE7, 0xA3, 0xB7, 0xE5, 0x8C, 0x96, 0xE6, 0xB0, 0xA2]
      else if code = 72 then [0xE4, 0xBA, 0x8C, 0xE6, 0xB0, 0xA7, 0xE5, 0x8C, 0x96, 0xE7, 0xA1, 0xAB]
      else if code = 76 then [0xE5, 0x85, 0xAD, 0xE6, 0xB0, 0x9F, 0xE5, 0x8C, 0x96, 0xE7, 0xA1, 0xAB]
      else [])"

definition ExceptionName :: "nat \<Rightarrow> utf8" where
  "ExceptionName code =
     (if code = 1 then [0xE9, 0x9D, 0x9E, 0xE6, 0xB3, 0x95, 0xE5, 0x8A, 0x9F, 0xE8, 0x83, 0xBD]
      else if code = 2 then [0xE9, 0x9D, 0x9E, 0xE6, 0xB3, 0x95, 0xE6, 0x95, 0xB0, 0xE6, 0x8D, 0xAE,
          0xE5, 0x9C, 0xB0, 0xE5, 0x9D, 0x80]
      else if code = 3 then [0xE9, 0x9D, 0x9E, 0xE6, 0xB3, 0x95, 0xE6, 0x95, 0xB0, 0xE6, 0x8D, 0xAE,
          0xE5, 0x80, 0xBC]
      else if code = 4 then [0xE4, 0xBB, 0x8E, 0xE7, 0xAB, 0x99, 0xE8, 0xAE, 0xBE, 0xE5, 0xA4, 0x87,
          0xE6, 0x95, 0x85, 0xE9, 0x9A, 0x9C]
      else [0xE6, 0x9C, 0xAA, 0xE7, 0x9F, 0xA5, 0xE5, 0xBC, 0x82, 0xE5, 0xB8, 0xB8])"

definition GasName :: "nat \<Rightarrow> utf8" where
  "GasName code =
     (let symbol = (if code < length gas_names then gas_names ! code else [0xE6, 0x9C, 0xAA, 0xE7, 0x9F, 0xA5]);
          chinese = gas_chinese code
      in if chinese = [] then symbol else symbol @ utf8 ''('' @ chinese @ utf8 '')'')"

definition DecimalPlaces :: "nat \<Rightarrow> nat" where
  "DecimalPlaces code =
     (if code = 0 then 0 else if code = 4 then 1 else if code = 8 then 2 else if code = 12 then 3 else 0)"

text \<open>The fixed-point text of \<open>raw / 10 ^ decimals\<close> with \<open>decimals\<close> digits after the point. The quotient of a
  16-bit value is printed exactly.\<close>

definition FormatScaled :: "u16 \<Rightarrow> nat \<Rightarrow> string" where
  "FormatScaled raw decimals =
     (let n = unat raw in
      if decimals = 0 then nat_to_string n
      else let frac = nat_to_string (n mod 10 ^ decimals) in
        nat_to_string (n div 10 ^ decimals) @ ''.'' @ replicate (decimals - length frac) (CHR ''0'') @ frac)"

definition hex_byte :: "byte \<Rightarrow> string" where
  "hex_byte b = [hex_digit_upper (unat b div 16), hex_digit_upper (unat b mod 16)]"

fun HexFrame :: "byte list \<Rightarrow> string" where
  "HexFrame [] = []"
| "HexFrame [b] = hex_byte b"
| "HexFrame (b # bs) = hex_byte b @ '' '' @ HexFrame bs"

section \<open>CRC\<close>

definition crc_bit :: "u16 \<Rightarrow> u16" where
  "crc_bit crc = (if crc AND 1 \<noteq> 0 then drop_bit 1 crc XOR 0xA001 else drop_bit 1 crc)"

definition crc_byte :: "u16 \<Rightarrow> byte \<Rightarrow> u16" where
  "crc_byte crc b = (crc_bit ^^ 8) (crc XOR ucast b)"

definition Crc16Modbus :: "byte list \<Rightarrow> u16" where
  "Crc16Modbus data = foldl crc_byte 0xFFFF data"

definition lo_byte :: "u16 \<Rightarrow> byte" where
  "lo_byte v = ucast (v AND 0xFF)"

definition hi_byte :: "u16 \<Rightarrow> byte" where
  "hi_byte v = ucast (drop_bit 8 v AND 0xFF)"

definition BuildRequest :: "byte \<Rightarrow> u16 \<Rightarrow> u16 \<Rightarrow> byte list" where
  "BuildRequest address start_register count =
     (let body = [address, 0x03, hi_byte start_register, lo_byte start_register, hi_byte count, lo_byte count];
          crc = Crc16Modbus body
      in body @ [lo_byte crc, hi_byte crc])"

section \<open>A response\<close>

datatype gas_error =
    NotQueried
  | ShortFrame nat
  | CrcMismatch u16 u16
  | WrongAddress byte byte
  | ModbusException byte nat
  | WrongFunction byte
  | WrongLength int nat int nat
  | DiscardFailed
  | WriteFailed nat nat bool
  | NoAnswer u32
  | ReadFailed

record GasDetectorData =
  gd_address :: int
  gd_valid :: bool
  gd_timeout :: bool
  gd_crc_ok :: bool
  gd_function_code :: int
  gd_byte_count :: int
  gd_exception_code :: int
  gd_crc_received :: u16
  gd_crc_calculated :: u16
  gd_elapsed_us :: nat
  gd_definition_register :: u16
  gd_unit :: utf8
  gd_decimal_places :: nat
  gd_concentration_register :: u16
  gd_concentration :: int
  gd_concentration_text :: string
  gd_low_alarm_register :: u16
  gd_low_alarm :: int
  gd_low_alarm_text :: string
  gd_high_alarm_register :: u16
  gd_high_alarm :: int
  gd_high_alarm_text :: string
  gd_range_register :: u16
  gd_range_value :: int
  gd_range_text :: string
  gd_status_register :: u16
  gd_status :: utf8
  gd_ad_register :: u16
  gd_ad_value :: int
  gd_temperature_register :: u16
  gd_temperature_x10 :: int
  gd_gas_code :: nat
  gd_gas :: utf8
  gd_gas_register :: u16
  gd_humidity_register :: u16
  gd_humidity_x10 :: int
  gd_timestamp :: utf8
  gd_error :: "gas_error option"
  gd_sequence :: u64

definition GasDetectorData_init :: GasDetectorData where
  "GasDetectorData_init = \<lparr>gd_address = 0, gd_valid = False, gd_timeout = False, gd_crc_ok = False,
     gd_function_code = 0, gd_byte_count = 0, gd_exception_code = 0, gd_crc_received = 0,
     gd_crc_calculated = 0, gd_elapsed_us = 0, gd_definition_register = 0,
     gd_unit = [0xE6, 0x9C, 0xAA, 0xE7, 0x9F, 0xA5], gd_decimal_places = 0,
     gd_concentration_register = 0, gd_concentration = 0, gd_concentration_text = ''0'',
     gd_low_alarm_register = 0, gd_low_alarm = 0, gd_low_alarm_text = ''0'',
     gd_high_alarm_register = 0, gd_high_alarm = 0, gd_high_alarm_text = ''0'',
     gd_range_register = 0, gd_range_value = 0, gd_range_text = ''0'', gd_status_register = 0,
     gd_status = [0xE6, 0x9C, 0xAA, 0xE6, 0x9F, 0xA5, 0xE8, 0xAF, 0xA2], gd_ad_register = 0,
     gd_ad_value = 0, gd_temperature_register = 0, gd_temperature_x10 = 0, gd_gas_code = 0,
     gd_gas = utf8 ''NULL'', gd_gas_register = 0, gd_humidity_register = 0, gd_humidity_x10 = 0,
     gd_timestamp = [], gd_error = Some NotQueried, gd_sequence = 0\<rparr>"

text \<open>Register \<open>index\<close> of a response, high byte first; \<open>operator[]\<close> is unchecked.\<close>

definition response_register :: "byte list \<Rightarrow> nat \<Rightarrow> cxx_error + u16" where
  "response_register response index =
     (let offset = 3 + index * 2 in
      ebind (vec_at response offset) (\<lambda>hi. ebind (vec_at response (offset + 1)) (\<lambda>lo.
      Inr (push_bit 8 (ucast hi) OR ucast lo))))"

fun read_registers :: "byte list \<Rightarrow> nat list \<Rightarrow> cxx_error + u16 list" where
  "read_registers response [] = Inr []"
| "read_registers response (i # is) =
     ebind (response_register response i) (\<lambda>r. ebind (read_registers response is) (\<lambda>rs. Inr (r # rs)))"

definition fill_registers :: "u16 list \<Rightarrow> GasDetectorData \<Rightarrow> GasDetectorData" where
  "fill_registers regs result =
     (let r0 = regs ! 0;
          unit_code = unat (drop_bit 12 r0 AND 0x0F);
          decimal_code = unat (drop_bit 8 r0 AND 0x0F);
          places = DecimalPlaces decimal_code;
          gas_code = unat (drop_bit 8 (regs ! 8) AND 0xFF)
      in result\<lparr>gd_definition_register := r0, gd_unit := UnitName unit_code, gd_decimal_places := places,
           gd_concentration_register := regs ! 1, gd_concentration := uint (regs ! 1),
           gd_concentration_text := FormatScaled (regs ! 1) places,
           gd_low_alarm_register := regs ! 2, gd_low_alarm := uint (regs ! 2),
           gd_low_alarm_text := nat_to_string (unat (regs ! 2)),
           gd_high_alarm_register := regs ! 3, gd_high_alarm := uint (regs ! 3),
           gd_high_alarm_text := nat_to_string (unat (regs ! 3)),
           gd_range_register := regs ! 4, gd_range_value := uint (regs ! 4),
           gd_range_text := nat_to_string (unat (regs ! 4)),
           gd_status_register := regs ! 5, gd_status := StatusName (unat (regs ! 5)),
           gd_ad_register := regs ! 6, gd_ad_value := uint (regs ! 6),
           gd_temperature_register := regs ! 7, gd_temperature_x10 := uint (regs ! 7) - 500,
           gd_gas_register := regs ! 8, gd_gas_code := gas_code, gd_gas := GasName gas_code,
           gd_humidity_register := regs ! 9, gd_humidity_x10 := uint (regs ! 9),
           gd_valid := True, gd_error := None\<rparr>)"

text \<open>The answer and the filled result; an access outside the response would be an \<open>Inl\<close>.\<close>

definition ParseResponse :: "byte list \<Rightarrow> byte \<Rightarrow> u16 \<Rightarrow> nat \<Rightarrow> utf8 \<Rightarrow> cxx_error + (bool \<times> GasDetectorData)" where
  "ParseResponse response expected_address expected_register_count elapsed_us timestamp =
     (let result = GasDetectorData_init\<lparr>gd_address := uint expected_address, gd_elapsed_us := elapsed_us,
            gd_timestamp := timestamp\<rparr>;
          n = length response
      in
      if n < 5 then Inr (False, result\<lparr>gd_error := Some (ShortFrame n)\<rparr>)
      else
        ebind (vec_at response (n - 2)) (\<lambda>lo. ebind (vec_at response (n - 1)) (\<lambda>hi.
        let received = ucast lo OR push_bit 8 (ucast hi) :: u16;
            calculated = Crc16Modbus (take (n - 2) response);
            result = result\<lparr>gd_crc_received := received, gd_crc_calculated := calculated,
              gd_crc_ok := (received = calculated)\<rparr>
        in
        if received \<noteq> calculated then Inr (False, result\<lparr>gd_error := Some (CrcMismatch received calculated)\<rparr>)
        else
          ebind (vec_at response 0) (\<lambda>b0. ebind (vec_at response 1) (\<lambda>b1. ebind (vec_at response 2) (\<lambda>b2.
          let result = result\<lparr>gd_function_code := uint b1\<rparr> in
          if b0 \<noteq> expected_address then Inr (False, result\<lparr>gd_error := Some (WrongAddress expected_address b0)\<rparr>)
          else if b1 AND 0x80 \<noteq> 0 then
            Inr (False, result\<lparr>gd_exception_code := uint b2, gd_error := Some (ModbusException b2 n)\<rparr>)
          else if b1 \<noteq> 0x03 then Inr (False, result\<lparr>gd_error := Some (WrongFunction b1)\<rparr>)
          else
            let result = result\<lparr>gd_byte_count := uint b2\<rparr>;
                expected_byte_count = uint expected_register_count * 2;
                expected_frame_size = nat (expected_byte_count + 5)
            in
            if uint b2 \<noteq> expected_byte_count \<or> n \<noteq> expected_frame_size then
              Inr (False, result\<lparr>gd_error := Some (WrongLength expected_byte_count expected_frame_size (uint b2) n)\<rparr>)
            else
              ebind (read_registers response [0..<10]) (\<lambda>regs. Inr (True, fill_registers regs result))))))))"

definition MakeFailureResult :: "int \<Rightarrow> nat \<Rightarrow> gas_error \<Rightarrow> bool \<Rightarrow> utf8 \<Rightarrow> GasDetectorData" where
  "MakeFailureResult address elapsed_us error timeout timestamp =
     GasDetectorData_init\<lparr>gd_address := address, gd_elapsed_us := elapsed_us, gd_timeout := timeout,
       gd_timestamp := timestamp, gd_error := Some error\<rparr>"

section \<open>The CRC is linear\<close>

lemma xor_0_eq: "a XOR b = 0 \<Longrightarrow> a = (b :: 'a::len word)"
proof (rule bit_word_eqI)
  fix n assume "a XOR b = 0"
  then have "bit (a XOR b) n = bit (0 :: 'a word) n" by simp
  then show "bit a n = bit b n" by (simp add: bit_xor_iff)
qed

lemma ucast_byte_0: "(ucast b :: u16) = 0 \<Longrightarrow> b = (0 :: byte)"
proof (rule bit_word_eqI)
  fix n assume "(ucast b :: u16) = 0" and n: "n < LENGTH(8)"
  then have "bit (ucast b :: u16) n = bit (0 :: u16) n" by simp
  with n show "bit b n = bit 0 n" by (simp add: bit_simps)
qed

lemma crc_bit_xor: "crc_bit (a XOR b) = crc_bit a XOR crc_bit b"
proof -
  have "(a XOR b) AND 1 = (a AND 1) XOR (b AND 1)" by (rule bit_word_eqI) (auto simp: bit_simps)
  moreover have "a AND 1 = 0 \<or> a AND 1 = 1" "b AND 1 = 0 \<or> b AND 1 = 1"
    by (simp_all add: and_one_eq mod_2_eq_odd)
  moreover have "drop_bit 1 (a XOR b) = drop_bit 1 a XOR drop_bit 1 b" by (rule drop_bit_xor)
  ultimately show ?thesis
    by (auto simp: crc_bit_def xor.assoc xor.left_commute xor.commute)
qed

lemma crc_bit_0 [simp]: "crc_bit 0 = 0"
  by (simp add: crc_bit_def)

lemma crc_bit_eq_0: "crc_bit a = 0 \<Longrightarrow> a = 0"
proof (rule ccontr)
  assume c: "crc_bit a = 0" and a: "a \<noteq> 0"
  show False
  proof (cases "a AND 1 = 0")
    case True
    then have "drop_bit 1 a = 0" "\<not> bit a 0" using c by (simp_all add: crc_bit_def and_one_eq bit_0 mod_2_eq_odd split: if_splits)
    moreover have "bit a (Suc k) = bit (drop_bit 1 a) k" for k by (simp add: bit_drop_bit_eq)
    ultimately have "bit a n = False" for n by (cases n) simp_all
    then show False using a by (auto intro: bit_eqI)
  next
    case False
    then have "bit (drop_bit 1 a XOR 0xA001) 15" by (simp add: bit_simps impossible_bit)
    then show False using c False by (simp add: crc_bit_def)
  qed
qed

lemma crc_steps_xor: "(crc_bit ^^ n) (a XOR b) = (crc_bit ^^ n) a XOR (crc_bit ^^ n) b"
  by (induction n) (simp_all add: crc_bit_xor)

lemma crc_steps_eq_0: "(crc_bit ^^ n) a = 0 \<Longrightarrow> a = 0"
  by (induction n) (auto dest: crc_bit_eq_0)

lemma crc_steps_0 [simp]: "(crc_bit ^^ n) 0 = 0"
  by (induction n) simp_all

lemma crc_byte_xor: "crc_byte (s XOR t) (a XOR b) = crc_byte s a XOR crc_byte t b"
proof -
  have "(s XOR t) XOR ucast (a XOR b) = (s XOR ucast a) XOR (t XOR ucast b)"
    by (rule bit_word_eqI) (auto simp: bit_simps)
  then show ?thesis by (simp add: crc_byte_def crc_steps_xor)
qed

lemma crc_run_inj:
  "foldl crc_byte s data = foldl crc_byte t data \<Longrightarrow> s = t"
proof (induction data arbitrary: s t)
  case (Cons b bs)
  from Cons.prems have "crc_byte s b = crc_byte t b" using Cons.IH by simp
  then have "crc_byte (s XOR t) 0 = 0" using crc_byte_xor [of s t b b] by simp
  then have "s XOR t = 0" using crc_steps_eq_0 [of 8 "s XOR t"] by (simp add: crc_byte_def)
  then show ?case by (rule xor_0_eq)
qed simp

text \<open>Feeding a CRC to itself, low byte first, leaves nothing.\<close>

lemma crc_bit_even: "\<not> bit a 0 \<Longrightarrow> crc_bit a = drop_bit 1 a"
  by (simp add: crc_bit_def and_one_eq bit_0 mod_2_eq_odd)

lemma crc_steps_shift: "take_bit n a = 0 \<Longrightarrow> (crc_bit ^^ n) a = drop_bit n a"
proof (induction n)
  case (Suc n)
  have z: "\<not> bit a k" if "k \<le> n" for k
    using Suc.prems that by (metis bit_0_eq bit_take_bit_iff less_Suc_eq_le bot_apply bot_bool_def)
  then have "take_bit n a = 0" by (intro bit_eqI) (auto simp: bit_take_bit_iff)
  moreover have "\<not> bit (drop_bit n a) 0" using z by (simp add: bit_drop_bit_eq)
  ultimately show ?case using Suc.IH by (simp add: crc_bit_even drop_bit_drop_bit)
qed simp

lemma crc_byte_low: "crc_byte s (lo_byte s) = drop_bit 8 s"
proof -
  have "take_bit 8 (s XOR ucast (lo_byte s)) = 0" "drop_bit 8 (s XOR ucast (lo_byte s)) = drop_bit 8 s"
    by (rule bit_word_eqI, auto simp: lo_byte_def byte_mask bit_simps)+
  then show ?thesis by (simp add: crc_byte_def crc_steps_shift)
qed

lemma lo_byte_shift: "lo_byte (drop_bit 8 s) = hi_byte s"
  by (simp add: lo_byte_def hi_byte_def)

lemma drop_16 [simp]: "drop_bit 8 (drop_bit 8 (s :: u16)) = 0"
  by (rule bit_word_eqI) (simp add: bit_simps)

lemma crc_residue: "Crc16Modbus (data @ [lo_byte (Crc16Modbus data), hi_byte (Crc16Modbus data)]) = 0"
proof -
  let ?s = "Crc16Modbus data"
  have "Crc16Modbus (data @ [lo_byte ?s, hi_byte ?s]) = crc_byte (crc_byte ?s (lo_byte ?s)) (hi_byte ?s)"
    by (simp add: Crc16Modbus_def)
  also have "\<dots> = crc_byte (drop_bit 8 ?s) (lo_byte (drop_bit 8 ?s))" by (simp add: crc_byte_low lo_byte_shift)
  also have "\<dots> = 0" by (simp add: crc_byte_low)
  finally show ?thesis .
qed

text \<open>A non-zero byte never leaves a remainder that the next byte can cancel.\<close>

lemma crc_bit_back:
  assumes "crc_bit w = y" and "\<not> bit y 15" and "k < 16"
  shows "bit w k \<longleftrightarrow> 0 < k \<and> bit y (k - 1)"
proof -
  have w0: "\<not> bit w 0"
  proof
    assume "bit w 0"
    then have "y = drop_bit 1 w XOR 0xA001" using assms(1) by (simp add: crc_bit_def and_one_eq bit_0 mod_2_eq_odd)
    then show False using assms(2) by (simp add: bit_simps impossible_bit)
  qed
  with assms(1) have "y = drop_bit 1 w" by (simp add: crc_bit_even)
  with w0 show ?thesis by (cases k) (simp_all add: bit_drop_bit_eq)
qed

lemma crc_steps_back:
  "(crc_bit ^^ n) z = y \<Longrightarrow> n \<le> 16 \<Longrightarrow> (\<And>k. 16 - n \<le> k \<Longrightarrow> \<not> bit y k) \<Longrightarrow> k < 16 \<Longrightarrow>
     bit z k \<longleftrightarrow> n \<le> k \<and> bit y (k - n)"
proof (induction n arbitrary: y k)
  case (Suc n)
  let ?w = "(crc_bit ^^ n) z"
  have w: "bit ?w j \<longleftrightarrow> 0 < j \<and> bit y (j - 1)" if "j < 16" for j
    using Suc.prems(1) Suc.prems(3) [of 15] that by (intro crc_bit_back) simp_all
  have "\<not> bit ?w j" if "16 - n \<le> j" for j
    using w [of j] Suc.prems(2) Suc.prems(3) [of "j - 1"] that by (cases "j < 16") (auto simp: impossible_bit)
  from Suc.IH [OF refl _ this Suc.prems(4)] Suc.prems(2,4) w [of "k - n"]
  show ?case by auto
qed simp

lemma crc_table_high: "crc_byte 0 (e :: byte) = ucast (f :: byte) \<Longrightarrow> e = 0"
proof -
  assume e: "crc_byte 0 e = ucast f"
  have "bit e n = False" for n
  proof (cases "n < 8")
    case True
    have "bit (ucast e :: u16) n \<longleftrightarrow> 8 \<le> n \<and> bit (ucast f :: u16) (n - 8)"
      using e True by (intro crc_steps_back) (simp_all add: crc_byte_def bit_simps impossible_bit)
    with True show ?thesis by (simp add: bit_simps)
  qed (simp add: impossible_bit)
  then show "e = 0" by (auto intro: bit_eqI)
qed

text \<open>So two texts of one length that differ only inside two adjacent bytes have different CRCs.\<close>

lemma crc_two_bytes:
  assumes "crc_byte (crc_byte s a) b = crc_byte (crc_byte s a') b'"
  shows "a = a' \<and> b = b'"
proof -
  have "crc_byte (crc_byte s a XOR crc_byte s a') (b XOR b') = 0"
    using assms crc_byte_xor [of "crc_byte s a" "crc_byte s a'" b b'] by simp
  then have z: "(crc_byte s a XOR crc_byte s a') XOR ucast (b XOR b') = 0"
    using crc_steps_eq_0 unfolding crc_byte_def by blast
  moreover have "crc_byte s a XOR crc_byte s a' = crc_byte 0 (a XOR a')"
    using crc_byte_xor [of s s a a'] by simp
  ultimately have "crc_byte 0 (a XOR a') = ucast (b XOR b')" by (simp only: xor_0_eq)
  then have "a XOR a' = 0" by (rule crc_table_high)
  moreover from this z have "(ucast (b XOR b') :: u16) = 0"
    using \<open>crc_byte s a XOR crc_byte s a' = crc_byte 0 (a XOR a')\<close> by (simp add: crc_byte_def)
  then have "b XOR b' = 0" by (rule ucast_byte_0)
  ultimately show ?thesis by (blast intro: xor_0_eq)
qed

lemma crc_detects_two_bytes:
  assumes "Crc16Modbus (pre @ [a, b] @ post) = Crc16Modbus (pre @ [a', b'] @ post)"
  shows "a = a' \<and> b = b'"
  using assms crc_run_inj [of _ post] crc_two_bytes by (fastforce simp: Crc16Modbus_def)

section \<open>Requests and responses\<close>

text \<open>What a slave sends for a read of registers: the specification of a good response.\<close>

definition build_response :: "byte \<Rightarrow> u16 list \<Rightarrow> byte list" where
  "build_response address regs =
     (let body = [address, 0x03, of_nat (2 * length regs)] @ concat (map (\<lambda>r. [hi_byte r, lo_byte r]) regs);
          crc = Crc16Modbus body
      in body @ [lo_byte crc, hi_byte crc])"

lemma join_hi_lo: "push_bit 8 (ucast (hi_byte r)) OR ucast (lo_byte r) = r"
  by (rule bit_word_eqI) (auto simp: hi_byte_def lo_byte_def byte_mask bit_simps)

lemma hi_lo_join: "hi_byte (push_bit 8 (ucast h) OR ucast l) = h" "lo_byte (push_bit 8 (ucast h) OR ucast l) = l"
  by (rule bit_word_eqI, auto simp: hi_byte_def lo_byte_def byte_mask bit_simps impossible_bit)+

lemma or_join: "(ucast l OR push_bit 8 (ucast h) :: u16) = push_bit 8 (ucast h) OR ucast l"
  by (rule or.commute)

lemma list_of_length:
  "length xs = n \<Longrightarrow> xs = map (\<lambda>i. xs ! i) [0..<n]"
  by (auto simp: map_nth)

lemma length_pairs: "length (concat (map (\<lambda>r. [f r, g r]) rs)) = 2 * length rs"
  by (induction rs) simp_all

lemma pairs_nth:
  "i < length rs \<Longrightarrow> concat (map (\<lambda>r. [f r, g r]) rs) ! (2 * i) = f (rs ! i) \<and>
     concat (map (\<lambda>r. [f r, g r]) rs) ! (2 * i + 1) = g (rs ! i)"
proof (induction rs arbitrary: i)
  case (Cons r rs)
  then show ?case by (cases i) auto
qed simp

lemma read_registers_nth:
  "(\<And>i. i \<in> set is \<Longrightarrow> 3 + i * 2 + 1 < length response) \<Longrightarrow>
     read_registers response is =
       Inr (map (\<lambda>i. push_bit 8 (ucast (response ! (3 + i * 2))) OR ucast (response ! (3 + i * 2 + 1))) is)"
proof (induction "is")
  case (Cons i "is")
  have b: "4 + i * 2 < length response" using Cons.prems [of i] by simp
  then have "3 + i * 2 < length response" by simp
  moreover have "read_registers response is =
      Inr (map (\<lambda>i. push_bit 8 (ucast (response ! (3 + i * 2))) OR ucast (response ! (3 + i * 2 + 1))) is)"
    using Cons by simp
  ultimately show ?case using b by (simp add: response_register_def)
qed simp

lemma read_registers_build:
  "length regs = 10 \<Longrightarrow> read_registers ([a, b, c] @ concat (map (\<lambda>r. [hi_byte r, lo_byte r]) regs) @ crc) [0..<10] = Inr regs"
proof -
  assume l: "length regs = 10"
  let ?p = "concat (map (\<lambda>r. [hi_byte r, lo_byte r]) regs)"
  have p: "length ?p = 20" using l by (simp add: length_pairs)
  have "read_registers ([a, b, c] @ ?p @ crc) [0..<10] =
      Inr (map (\<lambda>i. push_bit 8 (ucast (?p ! (2 * i))) OR ucast (?p ! (2 * i + 1))) [0..<10])"
    by (subst read_registers_nth) (auto simp: p nth_append mult.commute simp del: upt_rec_numeral)
  also have "\<dots> = Inr (map (\<lambda>i. regs ! i) [0..<10])"
    using pairs_nth [of _ regs hi_byte lo_byte] l
    by (auto simp: join_hi_lo simp del: upt_rec_numeral intro!: map_cong)
  finally show ?thesis using list_of_length [OF l] by simp
qed

text \<open>Which responses count as valid, and what is read from them.\<close>

lemma pairs_decompose:
  "length xs = 2 * n \<Longrightarrow> \<exists>rs. length rs = n \<and> xs = concat (map (\<lambda>r. [hi_byte r, lo_byte r]) rs)"
proof (induction n arbitrary: xs)
  case (Suc n)
  then obtain h l ys where xs: "xs = h # l # ys" and ys: "length ys = 2 * n"
    by (auto simp: length_Suc_conv numeral_2_eq_2)
  from Suc.IH [OF ys] obtain rs where rs: "length rs = n" "ys = concat (map (\<lambda>r. [hi_byte r, lo_byte r]) rs)" by blast
  then have "length ((push_bit 8 (ucast h) OR ucast l) # rs) = Suc n \<and>
      xs = concat (map (\<lambda>r. [hi_byte r, lo_byte r]) ((push_bit 8 (ucast h) OR ucast l) # rs))"
    by (simp add: xs hi_lo_join)
  then show ?case by blast
qed simp

lemma frame_split:
  assumes "length resp = 25"
  shows "\<exists>b0 b1 b2 rs lo hi. length rs = 10 \<and>
    resp = [b0, b1, b2] @ concat (map (\<lambda>r. [hi_byte r, lo_byte r]) rs) @ [lo, hi]"
proof -
  obtain b0 b1 b2 t where r: "resp = b0 # b1 # b2 # t" and t: "length t = 22"
    using assms by (auto simp: length_Suc_conv numeral_eq_Suc)
  obtain lo hi where e: "drop 20 t = [lo, hi]"
    using t by (cases "drop 20 t"; cases "tl (drop 20 t)") (auto simp: drop_eq_Nil dest: arg_cong [where f = length])
  obtain rs where "length rs = 10" "take 20 t = concat (map (\<lambda>r. [hi_byte r, lo_byte r]) rs)"
    using pairs_decompose [of "take 20 t" 10] t by auto
  then show ?thesis using r e append_take_drop_id [of 20 t] by (intro exI) auto
qed

lemma unat_20: "unat (10 :: u16) = 10" "uint (10 :: u16) = 10"
  by simp_all

lemma ParseResponse_build:
  assumes "length regs = 10"
  shows "ParseResponse (build_response address regs) address 10 el ts =
    Inr (True, fill_registers regs (GasDetectorData_init\<lparr>gd_address := uint address, gd_elapsed_us := el,
      gd_timestamp := ts, gd_crc_received := Crc16Modbus (take 23 (build_response address regs)),
      gd_crc_calculated := Crc16Modbus (take 23 (build_response address regs)), gd_crc_ok := True,
      gd_function_code := 3, gd_byte_count := 20\<rparr>))"
proof -
  let ?p = "concat (map (\<lambda>r. [hi_byte r, lo_byte r]) regs)"
  let ?body = "[address, 0x03, 20] @ ?p" and ?crc = "Crc16Modbus ([address, 0x03, 20] @ ?p)"
  have p: "length ?p = 20" using assms by (simp add: length_pairs)
  have b: "build_response address regs = ?body @ [lo_byte ?crc, hi_byte ?crc]"
    by (simp add: build_response_def Let_def assms)
  have n: "length (build_response address regs) = 25" using p by (simp add: b)
  have at: "build_response address regs ! 23 = lo_byte ?crc" "build_response address regs ! 24 = hi_byte ?crc"
    "take 23 (build_response address regs) = ?body"
    "build_response address regs ! 0 = address" "build_response address regs ! Suc 0 = 3" "build_response address regs ! 2 = 20"
    using p by (simp_all add: b nth_append)
  have regs: "read_registers (build_response address regs) [0..<10] = Inr regs"
    using read_registers_build [OF assms, of address 3 20 "[lo_byte ?crc, hi_byte ?crc]"] by (simp add: b)
  show ?thesis
    unfolding ParseResponse_def Let_def n
    by (simp add: n at or_join join_hi_lo regs del: upt_rec_numeral)
qed

lemma ParseResponse_cases:
  assumes "5 \<le> length resp"
  shows "ParseResponse resp addr 10 el ts =
    (let n = length resp;
         received = push_bit 8 (ucast (resp ! (n - 1))) OR ucast (resp ! (n - 2));
         calculated = Crc16Modbus (take (n - 2) resp);
         res = GasDetectorData_init\<lparr>gd_address := uint addr, gd_elapsed_us := el, gd_timestamp := ts,
           gd_crc_received := received, gd_crc_calculated := calculated, gd_crc_ok := (received = calculated)\<rparr>
     in if received \<noteq> calculated then Inr (False, res\<lparr>gd_error := Some (CrcMismatch received calculated)\<rparr>)
        else let res = res\<lparr>gd_function_code := uint (resp ! 1)\<rparr> in
          if resp ! 0 \<noteq> addr then Inr (False, res\<lparr>gd_error := Some (WrongAddress addr (resp ! 0))\<rparr>)
          else if resp ! 1 AND 0x80 \<noteq> 0 then
            Inr (False, res\<lparr>gd_exception_code := uint (resp ! 2), gd_error := Some (ModbusException (resp ! 2) n)\<rparr>)
          else if resp ! 1 \<noteq> 0x03 then Inr (False, res\<lparr>gd_error := Some (WrongFunction (resp ! 1))\<rparr>)
          else let res = res\<lparr>gd_byte_count := uint (resp ! 2)\<rparr> in
            if uint (resp ! 2) \<noteq> 20 \<or> n \<noteq> 25
            then Inr (False, res\<lparr>gd_error := Some (WrongLength 20 25 (uint (resp ! 2)) n)\<rparr>)
            else ebind (read_registers resp [0..<10]) (\<lambda>regs. Inr (True, fill_registers regs res)))"
proof -
  have b: "length resp - 2 < length resp" "length resp - 1 < length resp" "0 < length resp" "1 < length resp"
    "2 < length resp" "\<not> length resp < 5" using assms by linarith+
  show ?thesis
    unfolding ParseResponse_def Let_def vec_at_Inr [OF b(1)] vec_at_Inr [OF b(2)] vec_at_Inr [OF b(3)]
      vec_at_Inr [OF b(4)] vec_at_Inr [OF b(5)] ebind_Inr or_join if_not_P [OF b(6)]
    by simp
qed

lemma ParseResponse_True:
  assumes "ParseResponse resp addr 10 el ts = Inr (True, res)"
  shows "\<exists>regs. length regs = 10 \<and> resp = build_response addr regs"
proof -
  have n: "5 \<le> length resp"
    using assms by (auto simp: ParseResponse_def Let_def split: if_splits)
  have c: "push_bit 8 (ucast (resp ! (length resp - 1))) OR ucast (resp ! (length resp - 2)) = Crc16Modbus (take (length resp - 2) resp)"
    "resp ! 0 = addr" "resp ! 1 = 3" "uint (resp ! 2) = 20" "length resp = 25"
    using assms unfolding ParseResponse_cases [OF n] Let_def by (auto split: if_splits simp del: upt_rec_numeral)
  from frame_split [OF c(5)] obtain b0 b1 b2 rs lo hi where rs: "length rs = 10"
    and resp: "resp = [b0, b1, b2] @ concat (map (\<lambda>r. [hi_byte r, lo_byte r]) rs) @ [lo, hi]" by blast
  have p: "length (concat (map (\<lambda>r. [hi_byte r, lo_byte r]) rs)) = 20" using rs by (simp add: length_pairs)
  have "b2 = 20" using c(4) by (simp add: resp word_uint_eq_iff)
  moreover have "b0 = addr" "b1 = 3" using c(2,3) by (simp_all add: resp)
  moreover have "push_bit 8 (ucast hi) OR ucast lo = Crc16Modbus ([b0, b1, b2] @ concat (map (\<lambda>r. [hi_byte r, lo_byte r]) rs))"
    using c(1) p unfolding c(5) by (simp add: resp nth_append)
  then have "lo = lo_byte (Crc16Modbus ([b0, b1, b2] @ concat (map (\<lambda>r. [hi_byte r, lo_byte r]) rs)))"
    "hi = hi_byte (Crc16Modbus ([b0, b1, b2] @ concat (map (\<lambda>r. [hi_byte r, lo_byte r]) rs)))"
    using hi_lo_join [of hi lo] by simp_all
  ultimately have "resp = build_response addr rs"
    unfolding resp build_response_def Let_def rs by simp
  with rs show ?thesis by blast
qed

lemma ParseResponse_total:
  "\<exists>ok res. ParseResponse resp addr 10 el ts = Inr (ok, res) \<and> gd_valid res = ok \<and>
     gd_address res = uint addr \<and> (gd_error res = None) = ok \<and> \<not> gd_timeout res"
proof (cases "5 \<le> length resp")
  case True
  have r: "\<exists>regs. read_registers resp [0..<10] = Inr regs" if "length resp = 25"
    using that by (intro exI, subst read_registers_nth) auto
  show ?thesis
    unfolding ParseResponse_cases [OF True] Let_def
    using r by (auto simp: GasDetectorData_init_def fill_registers_def Let_def simp del: upt_rec_numeral)
next
  case False
  then show ?thesis by (auto simp: ParseResponse_def GasDetectorData_init_def)
qed

lemma fill_registers_fields:
  assumes "length regs = 10" and that: "r = fill_registers regs res"
  shows "[gd_definition_register r, gd_concentration_register r, gd_low_alarm_register r, gd_high_alarm_register r,
     gd_range_register r, gd_status_register r, gd_ad_register r, gd_temperature_register r, gd_gas_register r,
     gd_humidity_register r] = regs"
proof -
  have "regs = map (\<lambda>i. regs ! i) [0..<10]" using list_of_length [OF assms(1)] .
  also have "\<dots> = [regs ! 0, regs ! 1, regs ! 2, regs ! 3, regs ! 4, regs ! 5, regs ! 6, regs ! 7, regs ! 8, regs ! 9]"
    by (simp add: upt_rec eval_nat_numeral)
  finally show ?thesis using that by (simp add: fill_registers_def Let_def)
qed

section \<open>Properties\<close>

text \<open>the analysis of a response accepts exactly the frames a Modbus slave with the expected address
  sends for a read of ten registers, never reads outside the bytes received, reports an error in every
  other case, and the register fields of an accepted result are the registers of the frame.\<close>

theorem gas_response_exact:
  "\<exists>ok r. ParseResponse resp addr 10 el ts = Inr (ok, r) \<and> gd_valid r = ok \<and> (gd_error r = None) = ok \<and>
     ok = (\<exists>regs. length regs = 10 \<and> resp = build_response addr regs) \<and>
     (resp = build_response addr [gd_definition_register r, gd_concentration_register r, gd_low_alarm_register r,
        gd_high_alarm_register r, gd_range_register r, gd_status_register r, gd_ad_register r,
        gd_temperature_register r, gd_gas_register r, gd_humidity_register r]) = ok"
proof (cases "\<exists>regs. length regs = 10 \<and> resp = build_response addr regs")
  case True
  then obtain regs where regs: "length regs = 10" "resp = build_response addr regs" by blast
  from ParseResponse_build [OF regs(1), of addr el ts] obtain res where
    p: "ParseResponse resp addr 10 el ts = Inr (True, fill_registers regs res)" by (simp add: regs(2))
  moreover have "gd_valid (fill_registers regs res)" "gd_error (fill_registers regs res) = None"
    by (simp_all add: fill_registers_def Let_def)
  ultimately show ?thesis
    using True regs(2) fill_registers_fields [OF regs(1) refl, of res]
    by (intro exI [of _ True] exI [of _ "fill_registers regs res"] conjI) (simp_all del: upt_rec_numeral)
next
  case False
  from ParseResponse_total [of resp addr el ts] obtain ok r where
    r: "ParseResponse resp addr 10 el ts = Inr (ok, r)" "gd_valid r = ok" "(gd_error r = None) = ok" by auto
  moreover have "\<not> ok" using False ParseResponse_True [of resp addr el ts r] r(1) by (cases ok) auto
  ultimately show ?thesis using False by (intro exI [of _ ok] exI [of _ r] conjI) auto
qed

text \<open>a response in which any two adjacent bytes were damaged is not accepted for the registers that were
  sent, wherever the two bytes are; and a request carries a CRC that leaves the remainder zero.\<close>

theorem gas_crc_detects:
  assumes "build_response addr regs = pre @ [a, b] @ post" and "length regs = 10"
    and "(a', b') \<noteq> (a, b)"
  shows "(\<exists>r. ParseResponse (pre @ [a', b'] @ post) addr 10 el ts = Inr (False, r)) \<and>
    Crc16Modbus (BuildRequest addr start count) = 0"
proof -
  have res: "Crc16Modbus (build_response x ys) = 0" for x ys
    unfolding build_response_def Let_def by (rule crc_residue)
  have "\<nexists>rs. length rs = 10 \<and> pre @ [a', b'] @ post = build_response addr rs"
  proof
    assume "\<exists>rs. length rs = 10 \<and> pre @ [a', b'] @ post = build_response addr rs"
    then have "Crc16Modbus (pre @ [a', b'] @ post) = Crc16Modbus (pre @ [a, b] @ post)"
      using res assms(1) by metis
    from crc_detects_two_bytes [OF this] assms(3) show False by simp
  qed
  moreover obtain ok r where "ParseResponse (pre @ [a', b'] @ post) addr 10 el ts = Inr (ok, r)"
    using ParseResponse_total [of "pre @ [a', b'] @ post" addr el ts] by blast
  ultimately have "\<exists>r. ParseResponse (pre @ [a', b'] @ post) addr 10 el ts = Inr (False, r)"
    using ParseResponse_True [of "pre @ [a', b'] @ post" addr el ts r] by (cases ok) auto
  moreover have "Crc16Modbus (BuildRequest addr start count) = 0"
    unfolding BuildRequest_def Let_def by (rule crc_residue)
  ultimately show ?thesis by blast
qed

theorem gas_crc_detects_witness:
  "\<exists>r. ParseResponse (0x02 # 0x04 # drop 2 (build_response 1 (replicate 10 7))) 1 10 0 [] = Inr (False, r)"
proof -
  have "build_response 1 (replicate 10 7) = [] @ [0x01, 0x03] @ drop 2 (build_response 1 (replicate 10 7))"
    by (simp add: build_response_def Let_def)
  from gas_crc_detects [OF this, where a' = 2 and b' = 4 and el = 0 and ts = "[]"] show ?thesis by simp
qed

end
