(* ===== verification/GasConfig.thy ===== *)
theory GasConfig
  imports GasModbus Serial
begin

text \<open>
  The configuration of the gas detector poll: the JSON readers of \<open>MyGasDetectorPollInternal.h\<close>, the
  address list and \<open>GasDetectorPoll::ParseConfig\<close>. Exceptions are constructors. The set \<open>seen\<close> of the
  address readers always holds the addresses already listed, so the list alone is kept.
\<close>

datatype gas_exn =
    GasFieldNotString string
  | GasFieldEmpty string
  | GasFieldNegative string
  | GasFieldNotDecimal string
  | GasStoull stoull_error
  | GasFieldNotUnsigned string
  | GasFieldNotInteger string
  | GasFieldNotBool string
  | GasUint32Range string
  | GasUint16Range string
  | GasIntRange string
  | AddressRange
  | AddressesEmpty
  | AddressItemEmpty
  | AddressRangeFormat
  | AddressRangeOrder
  | GasConfigNotObject
  | GasDeviceEmpty
  | GasBaudRate
  | GasDataBits
  | GasStopBits
  | GasInterval
  | GasTimeout
  | GasRegisterCount
  | GasSliceTimeout

section \<open>Readers\<close>

definition LowerCopy :: "string \<Rightarrow> string" where
  "LowerCopy val = map ctolower val"

definition FindValue :: "json \<Rightarrow> string list \<Rightarrow> json option" where
  "FindValue cfg keys = map_option snd (first_present cfg keys)"

text \<open>\<open>None\<close> as the second argument: the serial section is the configuration itself.\<close>

definition FindConfigValue :: "json \<Rightarrow> json option \<Rightarrow> string list \<Rightarrow> json option" where
  "FindConfigValue cfg serial_config keys =
     (case FindValue cfg keys of
        Some v \<Rightarrow> Some v
      | None \<Rightarrow> (case serial_config of Some sc \<Rightarrow> FindValue sc keys | None \<Rightarrow> None))"

fun JsonString :: "json \<Rightarrow> string \<Rightarrow> bool \<Rightarrow> gas_exn + string" where
  "JsonString (JString s) field_name allow_number = Inr s"
| "JsonString (JInteger i) field_name allow_number =
     (if allow_number then Inr (int_to_string i) else Inl (GasFieldNotString field_name))"
| "JsonString (JUnsigned n) field_name allow_number =
     (if allow_number then Inr (nat_to_string n) else Inl (GasFieldNotString field_name))"
| "JsonString (JFloat text) field_name allow_number =
     (if allow_number then Inr text else Inl (GasFieldNotString field_name))"
| "JsonString _ field_name allow_number = Inl (GasFieldNotString field_name)"

definition ParseUnsignedText :: "string \<Rightarrow> string \<Rightarrow> gas_exn + nat" where
  "ParseUnsignedText text field_name =
     (let normalized = TrimCopy text in
      if normalized = [] then Inl (GasFieldEmpty field_name)
      else if hd normalized = CHR ''-'' then Inl (GasFieldNegative field_name)
      else case stoull normalized of
        Inl e \<Rightarrow> Inl (GasStoull e)
      | Inr parsed \<Rightarrow>
          if stoull_rest normalized \<noteq> [] then Inl (GasFieldNotDecimal field_name) else Inr parsed)"

fun JsonUnsigned :: "json \<Rightarrow> string \<Rightarrow> nat \<Rightarrow> gas_exn + nat" where
  "JsonUnsigned (JUnsigned n) field_name default_value = Inr n"
| "JsonUnsigned (JInteger i) field_name default_value =
     (if i < 0 then Inl (GasFieldNegative field_name) else Inr (nat i))"
| "JsonUnsigned (JString s) field_name default_value = ParseUnsignedText s field_name"
| "JsonUnsigned JNull field_name default_value = Inr default_value"
| "JsonUnsigned _ field_name default_value = Inl (GasFieldNotUnsigned field_name)"

definition ToUint32 :: "nat \<Rightarrow> string \<Rightarrow> gas_exn + u32" where
  "ToUint32 v field_name = (if v > 2 ^ 32 - 1 then Inl (GasUint32Range field_name) else Inr (of_nat v))"

definition ToUint16 :: "nat \<Rightarrow> string \<Rightarrow> gas_exn + u16" where
  "ToUint16 v field_name = (if v > 2 ^ 16 - 1 then Inl (GasUint16Range field_name) else Inr (of_nat v))"

text \<open>\<open>is_number_integer\<close> also answers true for an unsigned number, which is then read as \<open>int64_t\<close>.\<close>

definition to_int64 :: "int \<Rightarrow> int" where
  "to_int64 v = sint (word_of_int v :: 64 word)"

definition int_in_range :: "int \<Rightarrow> string \<Rightarrow> gas_exn + int" where
  "int_in_range parsed field_name =
     (if parsed < - (2 ^ 31) \<or> parsed > 2 ^ 31 - 1 then Inl (GasIntRange field_name) else Inr parsed)"

fun JsonInteger :: "json \<Rightarrow> string \<Rightarrow> int \<Rightarrow> gas_exn + int" where
  "JsonInteger (JInteger i) field_name default_value = int_in_range i field_name"
| "JsonInteger (JUnsigned n) field_name default_value = int_in_range (to_int64 (int n)) field_name"
| "JsonInteger (JString s) field_name default_value =
     ebind (ParseUnsignedText s field_name) (\<lambda>parsed.
     if int parsed > 2 ^ 31 - 1 then Inl (GasIntRange field_name) else Inr (int parsed))"
| "JsonInteger JNull field_name default_value = Inr default_value"
| "JsonInteger _ field_name default_value = Inl (GasFieldNotInteger field_name)"

fun JsonBoolean :: "json \<Rightarrow> string \<Rightarrow> bool \<Rightarrow> gas_exn + bool" where
  "JsonBoolean (JBool b) field_name default_value = Inr b"
| "JsonBoolean (JUnsigned n) field_name default_value = Inr (n \<noteq> 0)"
| "JsonBoolean (JInteger i) field_name default_value =
     (if i < 0 then Inl (GasFieldNegative field_name) else Inr (i \<noteq> 0))"
| "JsonBoolean (JString s) field_name default_value =
     (let normalized = LowerCopy (TrimCopy s) in
      if normalized \<in> {''true'', ''1'', ''yes'', ''on''} then Inr True
      else if normalized \<in> {''false'', ''0'', ''no'', ''off''} then Inr False
      else Inl (GasFieldNotBool field_name))"
| "JsonBoolean _ field_name default_value = Inl (GasFieldNotBool field_name)"

definition GetStringValue :: "json \<Rightarrow> json option \<Rightarrow> string list \<Rightarrow> string \<Rightarrow> bool \<Rightarrow> gas_exn + string" where
  "GetStringValue cfg sc keys default_value allow_number =
     (case FindConfigValue cfg sc keys of
        None \<Rightarrow> Inr default_value | Some v \<Rightarrow> JsonString v (hd keys) allow_number)"

definition GetUnsignedValue :: "json \<Rightarrow> json option \<Rightarrow> string list \<Rightarrow> nat \<Rightarrow> gas_exn + nat" where
  "GetUnsignedValue cfg sc keys default_value =
     (case FindConfigValue cfg sc keys of
        None \<Rightarrow> Inr default_value | Some v \<Rightarrow> JsonUnsigned v (hd keys) default_value)"

definition GetIntegerValue :: "json \<Rightarrow> json option \<Rightarrow> string list \<Rightarrow> int \<Rightarrow> gas_exn + int" where
  "GetIntegerValue cfg sc keys default_value =
     (case FindConfigValue cfg sc keys of
        None \<Rightarrow> Inr default_value | Some v \<Rightarrow> JsonInteger v (hd keys) default_value)"

definition GetBooleanValue :: "json \<Rightarrow> json option \<Rightarrow> string list \<Rightarrow> bool \<Rightarrow> gas_exn + bool" where
  "GetBooleanValue cfg sc keys default_value =
     (case FindConfigValue cfg sc keys of
        None \<Rightarrow> Inr default_value | Some v \<Rightarrow> JsonBoolean v (hd keys) default_value)"

section \<open>Addresses\<close>

definition AppendAddress :: "nat \<Rightarrow> byte list \<Rightarrow> gas_exn + byte list" where
  "AppendAddress address addresses =
     (if address < 1 \<or> address > 255 then Inl AddressRange
      else if of_nat address \<in> set addresses then Inr addresses
      else Inr (addresses @ [of_nat address]))"

fun AppendAddresses :: "nat list \<Rightarrow> byte list \<Rightarrow> gas_exn + byte list" where
  "AppendAddresses [] addresses = Inr addresses"
| "AppendAddresses (n # ns) addresses = ebind (AppendAddress n addresses) (AppendAddresses ns)"

text \<open>One item: a number or a range.\<close>

definition parse_address_item :: "string \<Rightarrow> byte list \<Rightarrow> gas_exn + byte list" where
  "parse_address_item item addresses =
     (let before = takeWhile (\<lambda>c. c \<noteq> CHR ''-'') item;
          after = drop (length before + 1) item
      in
      if CHR ''-'' \<notin> set item then
        ebind (ParseUnsignedText item ''addresses'') (\<lambda>address.
        if address > 255 then Inl AddressRange else AppendAddress address addresses)
      else if CHR ''-'' \<in> set after then Inl AddressRangeFormat
      else
        ebind (ParseUnsignedText (TrimCopy before) ''addresses'') (\<lambda>start.
        ebind (ParseUnsignedText (TrimCopy after) ''addresses'') (\<lambda>stop.
        if start > 255 \<or> stop > 255 then Inl AddressRange
        else if start > stop then Inl AddressRangeOrder
        else AppendAddresses [start ..< stop + 1] addresses)))"

function parse_address_items :: "string \<Rightarrow> byte list \<Rightarrow> gas_exn + byte list" where
  "parse_address_items rest addresses =
     (if rest = [] then Inr addresses
      else
        let item = TrimCopy (takeWhile (\<lambda>c. c \<noteq> CHR '','') rest);
            tail = dropWhile (\<lambda>c. c \<noteq> CHR '','') rest
        in
        if item = [] then Inl AddressItemEmpty
        else case parse_address_item item addresses of
          Inl e \<Rightarrow> Inl e
        | Inr addresses \<Rightarrow> if tail = [] then Inr addresses else parse_address_items (tl tail) addresses)"
  by pat_completeness auto
termination
proof (relation "measure (\<lambda>(rest, addresses). length rest)")
  fix rest :: string and addresses item tail a
  assume "rest \<noteq> []" and "tail = dropWhile (\<lambda>c. c \<noteq> CHR '','') rest" and "tail \<noteq> []"
  moreover from this have "length tail \<le> length rest" by (simp add: length_dropWhile_le)
  moreover have "length (tl tail) < length tail" using \<open>tail \<noteq> []\<close> by simp
  ultimately show "((tl tail, a), rest, addresses) \<in> measure (\<lambda>(rest, addresses). length rest)"
    by (simp del: length_tl)
qed simp

declare parse_address_items.simps [simp del]

definition ParseAddressText :: "string \<Rightarrow> byte list \<Rightarrow> gas_exn + byte list" where
  "ParseAddressText text addresses =
     (let normalized = TrimCopy text in
      if normalized = [] then Inl AddressesEmpty else parse_address_items normalized addresses)"

definition parse_address_number :: "json \<Rightarrow> byte list \<Rightarrow> gas_exn + byte list" where
  "parse_address_number v addresses =
     ebind (JsonUnsigned v ''addresses'' 0) (\<lambda>address.
     if address > 255 then Inl AddressRange else AppendAddress address addresses)"

fun parse_address_array :: "json list \<Rightarrow> byte list \<Rightarrow> gas_exn + byte list" where
  "parse_address_array [] addresses = Inr addresses"
| "parse_address_array (v # vs) addresses =
     ebind (case v of JString s \<Rightarrow> ParseAddressText s addresses | _ \<Rightarrow> parse_address_number v addresses)
       (parse_address_array vs)"

definition ParseAddresses :: "json \<Rightarrow> gas_exn + byte list" where
  "ParseAddresses v =
     ebind (case v of
              JString s \<Rightarrow> ParseAddressText s []
            | JArray vs \<Rightarrow> parse_address_array vs []
            | _ \<Rightarrow> parse_address_number v []) (\<lambda>addresses.
     if addresses = [] then Inl AddressesEmpty else Inr addresses)"

section \<open>The configuration\<close>

record GasDetectorPollConfig =
  gc_enabled :: bool
  gc_device :: string
  gc_baud_rate :: u32
  gc_data_bits :: int
  gc_stop_bits :: int
  gc_parity :: string
  gc_flowcontrol :: string
  gc_addresses :: "byte list"
  gc_interval_ms :: u32
  gc_timeout_ms :: u32
  gc_start_register :: u16
  gc_register_count :: u16
  gc_read_slice_timeout_ms :: u32
  gc_log_raw_frame :: bool
  gc_debug_log_enabled :: bool
  gc_simulate_mode :: bool

definition kDefaultReadSliceTimeoutMs :: u32 where
  "kDefaultReadSliceTimeoutMs = 50"

definition GasDetectorPollConfig_init :: GasDetectorPollConfig where
  "GasDetectorPollConfig_init = \<lparr>gc_enabled = True, gc_device = ''/dev/ttyUSB0'', gc_baud_rate = 9600,
     gc_data_bits = 8, gc_stop_bits = 1, gc_parity = ''none'', gc_flowcontrol = ''none'',
     gc_addresses = [1, 2, 3, 4, 5, 6], gc_interval_ms = 500, gc_timeout_ms = 400, gc_start_register = 0,
     gc_register_count = 10, gc_read_slice_timeout_ms = kDefaultReadSliceTimeoutMs,
     gc_log_raw_frame = True, gc_debug_log_enabled = False, gc_simulate_mode = False\<rparr>"

definition get_u32 :: "json \<Rightarrow> json option \<Rightarrow> string list \<Rightarrow> u32 \<Rightarrow> gas_exn + u32" where
  "get_u32 cfg sc keys default_value =
     ebind (GetUnsignedValue cfg sc keys (unat default_value)) (\<lambda>v. ToUint32 v (hd keys))"

definition get_u16 :: "json \<Rightarrow> json option \<Rightarrow> string list \<Rightarrow> u16 \<Rightarrow> gas_exn + u16" where
  "get_u16 cfg sc keys default_value =
     ebind (GetUnsignedValue cfg sc keys (unat default_value)) (\<lambda>v. ToUint16 v (hd keys))"

text \<open>The checks at the end of \<open>ParseConfig\<close>; the slice is cut to the response time-out.\<close>

definition check_config :: "GasDetectorPollConfig \<Rightarrow> gas_exn + GasDetectorPollConfig" where
  "check_config p =
     (if gc_enabled p \<and> gc_device p = [] then Inl GasDeviceEmpty
      else if gc_baud_rate p = 0 then Inl GasBaudRate
      else if gc_data_bits p < 5 \<or> gc_data_bits p > 8 then Inl GasDataBits
      else if gc_stop_bits p \<noteq> 1 \<and> gc_stop_bits p \<noteq> 2 then Inl GasStopBits
      else if gc_interval_ms p = 0 then Inl GasInterval
      else if gc_timeout_ms p = 0 then Inl GasTimeout
      else if gc_register_count p \<noteq> 10 then Inl GasRegisterCount
      else if gc_read_slice_timeout_ms p = 0 then Inl GasSliceTimeout
      else
        let p = (if gc_read_slice_timeout_ms p > gc_timeout_ms p
                 then p\<lparr>gc_read_slice_timeout_ms := gc_timeout_ms p\<rparr> else p)
        in if gc_addresses p = [] then Inl AddressesEmpty else Inr p)"

definition gas_ParseConfig :: "json \<Rightarrow> gas_exn + GasDetectorPollConfig" where
  "gas_ParseConfig cfg =
     (let d = GasDetectorPollConfig_init;
          sc = (case field cfg ''serial'' of Some v \<Rightarrow> if is_object v then Some v else None | None \<Rightarrow> None)
      in
      if \<not> is_object cfg then Inl GasConfigNotObject else
      ebind (GetBooleanValue cfg sc [''enabled''] (gc_enabled d)) (\<lambda>enabled.
      ebind (GetStringValue cfg sc [''device'', ''port''] (gc_device d) False) (\<lambda>device.
      ebind (get_u32 cfg sc [''baud_rate'', ''baudrate''] (gc_baud_rate d)) (\<lambda>baud_rate.
      ebind (GetIntegerValue cfg sc [''data_bits'', ''bytesize''] (gc_data_bits d)) (\<lambda>data_bits.
      ebind (GetIntegerValue cfg sc [''stop_bits'', ''stopbits''] (gc_stop_bits d)) (\<lambda>stop_bits.
      ebind (GetStringValue cfg sc [''parity''] (gc_parity d) False) (\<lambda>parity.
      ebind (GetStringValue cfg sc [''flowcontrol'', ''flow_control''] (gc_flowcontrol d) False) (\<lambda>flowcontrol.
      ebind (case FindConfigValue cfg sc [''addresses'', ''address''] of
               Some v \<Rightarrow> ParseAddresses v | None \<Rightarrow> Inr (gc_addresses d)) (\<lambda>addresses.
      ebind (get_u32 cfg sc [''interval_ms'', ''poll_interval_ms''] (gc_interval_ms d)) (\<lambda>interval_ms.
      ebind (get_u32 cfg sc [''timeout_ms'', ''response_timeout_ms''] (gc_timeout_ms d)) (\<lambda>timeout_ms.
      ebind (get_u16 cfg sc [''start_register''] (gc_start_register d)) (\<lambda>start_register.
      ebind (get_u16 cfg sc [''register_count'', ''count''] (gc_register_count d)) (\<lambda>register_count.
      ebind (case FindConfigValue cfg sc [''read_slice_timeout_ms''] of
               Some v \<Rightarrow> ebind (JsonUnsigned v ''read_slice_timeout_ms'' (unat (gc_read_slice_timeout_ms d)))
                            (\<lambda>n. ToUint32 n ''read_slice_timeout_ms'')
             | None \<Rightarrow> Inr (min timeout_ms kDefaultReadSliceTimeoutMs)) (\<lambda>slice.
      ebind (GetBooleanValue cfg sc [''log_raw_frame'', ''verbose_log''] (gc_log_raw_frame d)) (\<lambda>log_raw_frame.
      ebind (GetBooleanValue cfg sc [''debug_log_enabled''] (gc_debug_log_enabled d)) (\<lambda>debug_log_enabled.
      ebind (GetBooleanValue cfg sc [''simulate_mode''] (gc_simulate_mode d)) (\<lambda>simulate_mode.
      check_config \<lparr>gc_enabled = enabled, gc_device = TrimCopy device, gc_baud_rate = baud_rate,
        gc_data_bits = data_bits, gc_stop_bits = stop_bits, gc_parity = LowerCopy (TrimCopy parity),
        gc_flowcontrol = LowerCopy (TrimCopy flowcontrol), gc_addresses = addresses,
        gc_interval_ms = interval_ms, gc_timeout_ms = timeout_ms, gc_start_register = start_register,
        gc_register_count = register_count, gc_read_slice_timeout_ms = slice,
        gc_log_raw_frame = log_raw_frame, gc_debug_log_enabled = debug_log_enabled,
        gc_simulate_mode = simulate_mode\<rparr>)))))))))))))))))"

section \<open>Well-formed configurations\<close>

definition gas_addresses_ok :: "byte list \<Rightarrow> bool" where
  "gas_addresses_ok as \<longleftrightarrow> distinct as \<and> 0 \<notin> set as"

definition gas_config_ok :: "GasDetectorPollConfig \<Rightarrow> bool" where
  "gas_config_ok c \<longleftrightarrow> gas_addresses_ok (gc_addresses c) \<and> gc_addresses c \<noteq> [] \<and>
     (gc_enabled c \<longrightarrow> gc_device c \<noteq> []) \<and> 0 < gc_baud_rate c \<and> gc_data_bits c \<in> {5..8} \<and>
     gc_stop_bits c \<in> {1, 2} \<and> 0 < gc_interval_ms c \<and> gc_register_count c = 10 \<and>
     0 < gc_read_slice_timeout_ms c \<and> gc_read_slice_timeout_ms c \<le> gc_timeout_ms c"

lemma AppendAddress_ok:
  assumes "gas_addresses_ok as" and "AppendAddress n as = Inr bs"
  shows "gas_addresses_ok bs \<and> set bs = insert (of_nat n) (set as) \<and> bs \<noteq> []"
proof -
  have n: "1 \<le> n" "n \<le> 255" and bs: "bs = (if of_nat n \<in> set as then as else as @ [of_nat n])"
    using assms(2) by (auto simp: AppendAddress_def split: if_splits)
  have "unat (of_nat n :: byte) = n" using n by (simp add: unat_of_nat)
  then have "(of_nat n :: byte) \<noteq> 0" using n by (metis not_one_le_zero unat_0)
  then show ?thesis using assms(1) by (auto simp: bs gas_addresses_ok_def)
qed

lemma AppendAddresses_ok:
  "gas_addresses_ok as \<Longrightarrow> AppendAddresses ns as = Inr bs \<Longrightarrow>
     gas_addresses_ok bs \<and> set bs = of_nat ` set ns \<union> set as"
proof (induction ns arbitrary: as)
  case (Cons n ns)
  from Cons.prems(2) obtain cs where c: "AppendAddress n as = Inr cs" "AppendAddresses ns cs = Inr bs"
    by (auto simp: ebind_eq_Inr_iff)
  from AppendAddress_ok [OF Cons.prems(1) c(1)] Cons.IH [OF _ c(2)] show ?case by auto
qed simp

lemma parse_address_item_ok:
  "gas_addresses_ok as \<Longrightarrow> parse_address_item item as = Inr bs \<Longrightarrow> gas_addresses_ok bs"
  unfolding parse_address_item_def Let_def
  by (auto simp: ebind_eq_Inr_iff split: if_splits dest: AppendAddress_ok AppendAddresses_ok)

lemma parse_address_items_ok:
  "gas_addresses_ok as \<Longrightarrow> parse_address_items rest as = Inr bs \<Longrightarrow> gas_addresses_ok bs"
proof (induction rest as rule: parse_address_items.induct)
  case (1 rest as)
  show ?case
    using 1(2,3) 1(1) [OF _ refl refl]
    by (subst (asm) parse_address_items.simps)
      (auto simp: Let_def split: if_splits sum.splits dest: parse_address_item_ok)
qed

lemma ParseAddressText_ok:
  "gas_addresses_ok as \<Longrightarrow> ParseAddressText text as = Inr bs \<Longrightarrow> gas_addresses_ok bs"
  by (auto simp: ParseAddressText_def Let_def split: if_splits dest: parse_address_items_ok)

lemma parse_address_number_ok:
  "gas_addresses_ok as \<Longrightarrow> parse_address_number v as = Inr bs \<Longrightarrow> gas_addresses_ok bs"
  by (auto simp: parse_address_number_def ebind_eq_Inr_iff split: if_splits dest: AppendAddress_ok)

lemma parse_address_array_ok:
  "gas_addresses_ok as \<Longrightarrow> parse_address_array vs as = Inr bs \<Longrightarrow> gas_addresses_ok bs"
proof (induction vs arbitrary: as)
  case (Cons v vs)
  from Cons.prems(2) obtain cs where
    "(case v of JString s \<Rightarrow> ParseAddressText s as | _ \<Rightarrow> parse_address_number v as) = Inr cs"
    and r: "parse_address_array vs cs = Inr bs" by (auto simp: ebind_eq_Inr_iff)
  then have "gas_addresses_ok cs"
    using Cons.prems(1) by (cases v) (auto dest: ParseAddressText_ok parse_address_number_ok)
  from Cons.IH [OF this r] show ?case .
qed simp

lemma ParseAddresses_ok: "ParseAddresses v = Inr as \<Longrightarrow> gas_addresses_ok as \<and> as \<noteq> []"
proof -
  assume "ParseAddresses v = Inr as"
  then have "as \<noteq> []" and "(case v of JString s \<Rightarrow> ParseAddressText s [] | JArray vs \<Rightarrow> parse_address_array vs []
      | _ \<Rightarrow> parse_address_number v []) = Inr as"
    by (auto simp: ParseAddresses_def ebind_eq_Inr_iff split: if_splits)
  moreover have "gas_addresses_ok []" by (simp add: gas_addresses_ok_def)
  ultimately show ?thesis
    by (cases v) (auto dest: ParseAddressText_ok parse_address_number_ok parse_address_array_ok)
qed

lemma check_config_ok:
  assumes "check_config p = Inr c" and "gas_addresses_ok (gc_addresses p)"
  shows "gas_config_ok c"
  using assms unfolding check_config_def Let_def
  by (auto simp: gas_config_ok_def word_neq_0_conv split: if_splits)

lemma default_addresses_ok: "gas_addresses_ok (gc_addresses GasDetectorPollConfig_init)"
  by (simp add: gas_addresses_ok_def GasDetectorPollConfig_init_def)

lemma config_addresses_ok:
  "(case v of Some v \<Rightarrow> ParseAddresses v | None \<Rightarrow> Inr (gc_addresses GasDetectorPollConfig_init)) = Inr as \<Longrightarrow>
     gas_addresses_ok as"
  using default_addresses_ok by (auto split: option.splits dest: ParseAddresses_ok)

lemma gas_ParseConfig_ok: "gas_ParseConfig cfg = Inr c \<Longrightarrow> gas_config_ok c"
  unfolding gas_ParseConfig_def Let_def
  by (cases "is_object cfg") (auto simp: ebind_eq_Inr_iff elim!: check_config_ok dest!: config_addresses_ok)

text \<open>The serial settings the poll asks for, and that \<open>MySerial\<close> takes them.\<close>

definition gas_serial_config :: "GasDetectorPollConfig \<Rightarrow> json" where
  "gas_serial_config c = JObject
     [(''device'', JString (gc_device c)), (''baud_rate'', JUnsigned (unat (gc_baud_rate c))),
      (''data_bits'', JInteger (gc_data_bits c)), (''stop_bits'', JInteger (gc_stop_bits c)),
      (''parity'', JString (gc_parity c)), (''flowcontrol'', JString (gc_flowcontrol c)),
      (''timeout_ms'', JUnsigned (unat (gc_read_slice_timeout_ms c))), (''auto_open'', JBool True)]"

lemma bits_tokens:
  "i \<in> {5..8} \<Longrightarrow> \<exists>b. ParseBytesize (int_to_string i) = Inr b"
  "i \<in> {1, 2} \<Longrightarrow> \<exists>s. ParseStopbits (int_to_string i) = Inr s"
proof -
  assume "i \<in> {5..8}"
  then have "i = 5 \<or> i = 6 \<or> i = 7 \<or> i = 8" by auto
  moreover have "ParseBytesize (int_to_string 5) = Inr fivebits" "ParseBytesize (int_to_string 6) = Inr sixbits"
    "ParseBytesize (int_to_string 7) = Inr sevenbits" "ParseBytesize (int_to_string 8) = Inr eightbits"
    by (code_simp, code_simp, code_simp, code_simp)
  ultimately show "\<exists>b. ParseBytesize (int_to_string i) = Inr b" by auto
next
  assume "i \<in> {1, 2}"
  moreover have "ParseStopbits (int_to_string 1) = Inr stopbits_one" "ParseStopbits (int_to_string 2) = Inr stopbits_two"
    by (code_simp, code_simp)
  ultimately show "\<exists>s. ParseStopbits (int_to_string i) = Inr s" by auto
qed

lemma gas_serial_config_accepted:
  assumes c: "gas_config_ok c" "gc_enabled c"
    and p: "ParseParity (NormalizeToken (gc_parity c)) = Inr par"
    and f: "ParseFlowcontrol (NormalizeToken (gc_flowcontrol c)) = Inr flow"
  shows "\<exists>opts. ParseOptions (gas_serial_config c) = Inr opts \<and> so_port opts = gc_device c \<and>
    so_baudrate opts = gc_baud_rate c \<and> so_timeout_ms opts = gc_read_slice_timeout_ms c \<and> so_auto_open opts"
proof -
  from c obtain b s where b: "ParseBytesize (int_to_string (gc_data_bits c)) = Inr b"
    and s: "ParseStopbits (int_to_string (gc_stop_bits c)) = Inr s"
    using bits_tokens [of "gc_data_bits c"] bits_tokens(2) [of "gc_stop_bits c"] by (auto simp: gas_config_ok_def)
  have d: "gc_device c \<noteq> []" using c by (simp add: gas_config_ok_def)
  have r: "\<not> unat v > 2 ^ 32 - 1" for v :: u32
  proof -
    have "unat v < 2 ^ 32" using unsigned_less [of v, where ?'a = nat] by simp
    then show ?thesis by simp
  qed
  show ?thesis
    using d r [of "gc_baud_rate c"] r [of "gc_read_slice_timeout_ms c"]
    by (simp add: ParseOptions_def gas_serial_config_def GetRequiredPortValue_def GetUint32Value_def
        uint32_value_def GetTokenValue_def auto_open_value_def b s p f)
qed

section \<open>Properties\<close>

text \<open>a configuration that is accepted is well formed: the addresses are distinct, between 1 and 255 and
  not none, the time slice of a read is positive and at most the response time-out, the protocol's ten
  registers are asked for, and an enabled module names a device. Such a configuration, with a parity and
  a flow control \<open>MySerial\<close> knows, gives serial settings that \<open>MySerial\<close> accepts unchanged.\<close>

theorem gas_config_wellformed:
  assumes "gas_ParseConfig cfg = Inr c"
  shows "gas_config_ok c \<and>
    (gc_enabled c \<and> ParseParity (NormalizeToken (gc_parity c)) = Inr par \<and>
     ParseFlowcontrol (NormalizeToken (gc_flowcontrol c)) = Inr flow \<longrightarrow>
     (\<exists>opts. ParseOptions (gas_serial_config c) = Inr opts \<and> so_port opts = gc_device c \<and>
        so_baudrate opts = gc_baud_rate c \<and> so_timeout_ms opts = gc_read_slice_timeout_ms c))"
  using gas_ParseConfig_ok [OF assms] gas_serial_config_accepted by blast

definition demo_gas_config :: json where
  "demo_gas_config = JObject [(''addresses'', JString ''1-3, 7''), (''timeout_ms'', JUnsigned 30)]"

lemma demo_gas_parse:
  "gas_ParseConfig demo_gas_config = Inr (GasDetectorPollConfig_init\<lparr>gc_addresses := [1, 2, 3, 7],
     gc_timeout_ms := 30, gc_read_slice_timeout_ms := 30\<rparr>)"
proof -
  have t: "TrimCopy ''1-3, 7'' = ''1-3, 7''" "TrimCopy ''1-3'' = ''1-3''" "TrimCopy '' 7'' = ''7''"
    "TrimCopy ''1'' = ''1''" "TrimCopy ''3'' = ''3''" "TrimCopy ''7'' = ''7''"
    "TrimCopy ''/dev/ttyUSB0'' = ''/dev/ttyUSB0''" "TrimCopy ''none'' = ''none''" "LowerCopy ''none'' = ''none''"
    by (simp_all add: TrimCopy_def is_blank_def) code_simp
  have u: "ParseUnsignedText ''1'' ''addresses'' = Inr 1" "ParseUnsignedText ''3'' ''addresses'' = Inr 3"
    "ParseUnsignedText ''7'' ''addresses'' = Inr 7"
    by (simp_all add: ParseUnsignedText_def t stoull_def stoull_rest_def cisspace_def cisdigit_def)
  have a: "AppendAddresses [1..<4] [] = Inr [1, 2, 3]"
    by (simp add: AppendAddress_def upt_rec eval_nat_numeral)
  have i: "parse_address_item ''1-3'' [] = Inr [1, 2, 3]" "parse_address_item ''7'' [1, 2, 3] = Inr [1, 2, 3, 7]"
    using a by (simp_all add: parse_address_item_def t u AppendAddress_def)
  have "ParseAddresses (JString ''1-3, 7'') = Inr [1, 2, 3, 7]"
    by (simp add: ParseAddresses_def ParseAddressText_def t i parse_address_items.simps)
  then show ?thesis
    by (simp add: gas_ParseConfig_def demo_gas_config_def GasDetectorPollConfig_init_def GetBooleanValue_def
        GetStringValue_def get_u32_def get_u16_def GetUnsignedValue_def GetIntegerValue_def FindConfigValue_def
        FindValue_def ToUint32_def ToUint16_def check_config_def kDefaultReadSliceTimeoutMs_def t min_def)
qed

theorem gas_config_wellformed_witness:
  "gas_config_ok (GasDetectorPollConfig_init\<lparr>gc_addresses := [1, 2, 3, 7], gc_timeout_ms := 30,
     gc_read_slice_timeout_ms := 30\<rparr>)"
  using gas_config_wellformed [OF demo_gas_parse] by blast

end
