(* ===== verification/GasPoll.thy ===== *)
theory GasPoll
  imports GasConfig
begin

text \<open>
  \<open>src/util/my_gas_detector_poll/MyGasDetectorPoll.cpp\<close>: the poll object and its worker thread. What the
  worker sees of the world is a list of observations: the stop flag, the steady clock in microseconds and
  the text of \<open>TimestampNow\<close>, one for each time the code looks. A loop that has used up the list has not returned: its result is \<open>None\<close>.
  The pauses between requests are kept as the time of the next request; log output, the JSON forms and
  the summary table are left out.
\<close>

section \<open>State\<close>

datatype PollState = PollUninitialized | PollDisabled | PollInitialized | PollRunning | PollError

datatype poll_error =
    QueryError gas_error
  | SerialInitError "serial_exn option"
  | StartNotInitialized
  | StartPortClosed
  | ThreadNotCreated
  | WorkerException

record 'p GasDetectorPoll =
  gp_worker :: bool
  gp_initialized :: bool
  gp_running :: bool
  gp_communication_ok :: bool
  gp_debug_log_enabled :: bool
  gp_simulate_mode :: bool
  gp_state :: PollState
  gp_config :: GasDetectorPollConfig
  gp_init_config :: json
  gp_latest_results :: "GasDetectorData list"
  gp_request_count :: u64
  gp_success_count :: u64
  gp_timeout_count :: u64
  gp_invalid_frame_count :: u64
  gp_crc_error_count :: u64
  gp_cycle_count :: u64
  gp_next_sequence :: u64
  gp_last_error :: "poll_error option"
  gp_last_frame :: string
  gp_serial :: "'p MySerial"

definition GasDetectorPoll_init :: "'p GasDetectorPoll" where
  "GasDetectorPoll_init = \<lparr>gp_worker = False, gp_initialized = False, gp_running = False,
     gp_communication_ok = False, gp_debug_log_enabled = False, gp_simulate_mode = False,
     gp_state = PollUninitialized, gp_config = GasDetectorPollConfig_init, gp_init_config = JObject [],
     gp_latest_results = [], gp_request_count = 0, gp_success_count = 0, gp_timeout_count = 0,
     gp_invalid_frame_count = 0, gp_crc_error_count = 0, gp_cycle_count = 0, gp_next_sequence = 1,
     gp_last_error = None, gp_last_frame = [], gp_serial = MySerial_init\<rparr>"

section \<open>Life cycle\<close>

text \<open>The exception of the library that may leave \<open>serial_.Close()\<close> comes first.\<close>

definition StopInternalLocked :: "'p serial_lib \<Rightarrow> 'p GasDetectorPoll \<Rightarrow> string option \<times> 'p GasDetectorPoll" where
  "StopInternalLocked L s =
     (let s = s\<lparr>gp_worker := False\<rparr> in
      case ms_Close L (gp_serial s) of
        (Some e, port) \<Rightarrow> (Some e, s\<lparr>gp_serial := port\<rparr>)
      | (None, port) \<Rightarrow> (None, s\<lparr>gp_serial := port, gp_running := False, gp_initialized := False,
          gp_communication_ok := False, gp_state := PollUninitialized, gp_last_error := None\<rparr>))"

definition apply_config :: "GasDetectorPollConfig \<Rightarrow> json \<Rightarrow> 'p GasDetectorPoll \<Rightarrow> 'p GasDetectorPoll" where
  "apply_config parsed cfg s =
     s\<lparr>gp_config := parsed, gp_debug_log_enabled := gc_debug_log_enabled parsed,
       gp_simulate_mode := gc_simulate_mode parsed, gp_init_config := cfg,
       gp_latest_results := map (\<lambda>a. GasDetectorData_init\<lparr>gd_address := uint a\<rparr>) (gc_addresses parsed),
       gp_request_count := 0, gp_success_count := 0, gp_timeout_count := 0, gp_invalid_frame_count := 0,
       gp_crc_error_count := 0, gp_cycle_count := 0, gp_next_sequence := 1, gp_last_error := None,
       gp_last_frame := [], gp_communication_ok := False, gp_initialized := False, gp_running := False,
       gp_state := (if gc_enabled parsed then PollInitialized else PollDisabled)\<rparr>"

datatype gas_init_result = InitParseFailed gas_exn | InitThrows string | InitSerialFailed "serial_exn option" | InitOk

definition gp_Init :: "'p serial_lib \<Rightarrow> json \<Rightarrow> 'p GasDetectorPoll \<Rightarrow> gas_init_result \<times> 'p GasDetectorPoll" where
  "gp_Init L cfg s =
     (case gas_ParseConfig cfg of
        Inl e \<Rightarrow> (InitParseFailed e, s)
      | Inr parsed \<Rightarrow>
          (case StopInternalLocked L s of
             (Some e, s) \<Rightarrow> (InitThrows e, s)
           | (None, s) \<Rightarrow>
               let s = apply_config parsed cfg s in
               if \<not> gc_enabled parsed then (InitOk, s\<lparr>gp_initialized := True\<rparr>)
               else
                 (case ms_Init L (gas_serial_config parsed) (gp_serial s) of
                    (False, port) \<Rightarrow>
                      (InitSerialFailed (ms_last_error port),
                       s\<lparr>gp_serial := port, gp_initialized := False, gp_state := PollError,
                         gp_last_error := Some (SerialInitError (ms_last_error port))\<rparr>)
                  | (True, port) \<Rightarrow>
                      (InitOk, s\<lparr>gp_serial := port, gp_initialized := True, gp_state := PollInitialized,
                         gp_last_error := None\<rparr>))))"

text \<open>\<open>thread_created\<close>: whether the constructor of \<open>std::thread\<close> succeeds.\<close>

definition gp_Start :: "'p serial_lib \<Rightarrow> bool \<Rightarrow> 'p GasDetectorPoll \<Rightarrow> bool \<times> 'p GasDetectorPoll" where
  "gp_Start L thread_created s =
     (if \<not> gp_initialized s then
        (False, s\<lparr>gp_last_error := Some StartNotInitialized, gp_state := PollError\<rparr>)
      else if \<not> gc_enabled (gp_config s) then (True, s\<lparr>gp_state := PollDisabled\<rparr>)
      else if gp_running s \<or> gp_worker s then (True, s)
      else if \<not> ms_IsOpen L (gp_serial s) then
        (False, s\<lparr>gp_last_error := Some StartPortClosed, gp_state := PollError\<rparr>)
      else
        let s = s\<lparr>gp_running := True, gp_communication_ok := False, gp_state := PollRunning, gp_last_error := None\<rparr> in
        if thread_created then (True, s\<lparr>gp_worker := True\<rparr>)
        else (False, s\<lparr>gp_running := False, gp_state := PollError, gp_last_error := Some ThreadNotCreated\<rparr>))"

definition gp_Stop :: "'p serial_lib \<Rightarrow> 'p GasDetectorPoll \<Rightarrow> string option \<times> 'p GasDetectorPoll" where
  "gp_Stop L s = StopInternalLocked L s"

definition gp_IsRunning :: "'p GasDetectorPoll \<Rightarrow> bool" where
  "gp_IsRunning s = gp_running s"

definition GetLatestResults :: "'p GasDetectorPoll \<Rightarrow> GasDetectorData list" where
  "GetLatestResults s = gp_latest_results s"

text \<open>The handlers at the end of \<open>WorkerLoop\<close>.\<close>

definition worker_exception :: "'p GasDetectorPoll \<Rightarrow> 'p GasDetectorPoll" where
  "worker_exception s =
     s\<lparr>gp_running := False, gp_communication_ok := False, gp_state := PollError, gp_last_error := Some WorkerException\<rparr>"

section \<open>Reading from the port\<close>

record obs =
  ob_stop :: bool
  ob_now :: nat
  ob_timestamp :: utf8

fun DiscardInputBuffer :: "'p serial_lib \<Rightarrow> obs list \<Rightarrow> 'p MySerial \<Rightarrow> (bool \<times> obs list \<times> 'p MySerial) option" where
  "DiscardInputBuffer L [] port = None"
| "DiscardInputBuffer L (ob # obs) port =
     (if ob_stop ob then Some (False, obs, port)
      else case ms_Available L port of (available, available_error, port) \<Rightarrow>
        if err_text_set available_error then Some (False, obs, port)
        else if available = 0 then Some (True, obs, port)
        else case ms_ReadBytes L (min available 512) port of (discarded, read_error, port) \<Rightarrow>
          if err_text_set read_error then Some (False, obs, port)
          else if discarded = [] then Some (False, obs, port)
          else DiscardInputBuffer L obs port)"

datatype read_err = PortError serial_exn | HeaderIncomplete nat | DeclaredTooLong | BodyIncomplete nat nat

fun ReadUpTo :: "'p serial_lib \<Rightarrow> nat \<Rightarrow> nat \<Rightarrow> obs list \<Rightarrow> byte list \<Rightarrow> 'p MySerial \<Rightarrow>
    (byte list \<times> read_err option \<times> obs list \<times> 'p MySerial) option" where
  "ReadUpTo L n deadline obs result port =
     (if n \<le> length result then Some (result, None, obs, port)
      else case obs of
        [] \<Rightarrow> None
      | ob # obs \<Rightarrow>
          if ob_stop ob then Some (result, None, obs, port)
          else if deadline \<le> ob_now ob then Some (result, None, obs, port)
          else case ms_ReadBytes L (n - length result) port of (chunk, read_error, port) \<Rightarrow>
            if err_text_set read_error then Some (result, Some (PortError (the read_error)), obs, port)
            else ReadUpTo L n deadline obs (result @ chunk) port)"

declare ReadUpTo.simps [simp del]

definition kMaxResponseSize :: nat where
  "kMaxResponseSize = 260"

definition ReadResponse :: "'p serial_lib \<Rightarrow> nat \<Rightarrow> obs list \<Rightarrow> 'p MySerial \<Rightarrow>
    (byte list \<times> read_err option \<times> obs list \<times> 'p MySerial) option" where
  "ReadResponse L deadline obs port =
     (case ReadUpTo L 3 deadline obs [] port of
        None \<Rightarrow> None
      | Some (header, error, obs, port) \<Rightarrow>
          if length header < 3 then
            Some (header, if error = None \<and> header \<noteq> [] then Some (HeaderIncomplete (length header)) else error, obs, port)
          else
            let remaining = (if header ! 1 AND 0x80 \<noteq> 0 then 2 else unat (header ! 2) + 2) in
            if length header + remaining > kMaxResponseSize then Some (header, Some DeclaredTooLong, obs, port)
            else
              (case ReadUpTo L remaining deadline obs [] port of
                 None \<Rightarrow> None
               | Some (body, error, obs, port) \<Rightarrow>
                   let frame = header @ body in
                   Some (frame,
                     if length frame < 3 + remaining \<and> error = None
                     then Some (BodyIncomplete (3 + remaining) (length frame)) else error, obs, port)))"

section \<open>One query\<close>

fun replace_result :: "GasDetectorData \<Rightarrow> GasDetectorData list \<Rightarrow> GasDetectorData list" where
  "replace_result stored [] = [stored]"
| "replace_result stored (r # rs) =
     (if gd_address r = gd_address stored then stored # rs else r # replace_result stored rs)"

definition StoreResult :: "GasDetectorData \<Rightarrow> byte list \<Rightarrow> 'p GasDetectorPoll \<Rightarrow> 'p GasDetectorPoll" where
  "StoreResult result response s =
     (let stored = result\<lparr>gd_sequence := gp_next_sequence s\<rparr>;
          s = s\<lparr>gp_next_sequence := gp_next_sequence s + 1,
                gp_latest_results := replace_result stored (gp_latest_results s),
                gp_last_frame := HexFrame response, gp_communication_ok := gd_valid stored\<rparr>
      in
      if gd_valid stored then
        s\<lparr>gp_success_count := gp_success_count s + 1, gp_last_error := None\<rparr>
      else
        s\<lparr>gp_invalid_frame_count := gp_invalid_frame_count s + 1,
          gp_timeout_count := gp_timeout_count s + (if gd_timeout stored then 1 else 0),
          gp_crc_error_count := gp_crc_error_count s + (if \<not> gd_crc_ok stored \<and> length response \<ge> 5 then 1 else 0),
          gp_last_error := map_option QueryError (gd_error stored)\<rparr>)"

text \<open>The observation of the clock after an exchange.\<close>

definition with_clock :: "obs list \<Rightarrow> (obs \<Rightarrow> obs list \<Rightarrow> 'a option) \<Rightarrow> 'a option" where
  "with_clock obs f = (case obs of [] \<Rightarrow> None | ob # obs \<Rightarrow> f ob obs)"

text \<open>The exchange with one address: the result, the bytes received, what is left of the observations
  and the port.\<close>

definition exchange :: "'p serial_lib \<Rightarrow> GasDetectorPollConfig \<Rightarrow> byte \<Rightarrow> obs list \<Rightarrow> 'p MySerial \<Rightarrow>
    (GasDetectorData \<times> byte list \<times> obs list \<times> 'p MySerial) option" where
  "exchange L config address obs port =
     (let request = BuildRequest address (gc_start_register config) (gc_register_count config);
          failure = (\<lambda>started now e t. MakeFailureResult (uint address) (ob_now now - ob_now started) e t (ob_timestamp now))
      in with_clock obs (\<lambda>started obs.
         case DiscardInputBuffer L obs port of
           None \<Rightarrow> None
         | Some (False, obs, port) \<Rightarrow>
             with_clock obs (\<lambda>now obs. Some (failure started now DiscardFailed False, [], obs, port))
         | Some (True, obs, port) \<Rightarrow>
             (case ms_Write L request port of (written, write_error, port) \<Rightarrow>
                if err_text_set write_error \<or> written \<noteq> length request then
                  with_clock obs (\<lambda>now obs.
                    Some (failure started now (WriteFailed written (length request) (err_text_set write_error)) False,
                          [], obs, port))
                else
                  (case ReadResponse L (ob_now started + unat (gc_timeout_ms config) * 1000) obs port of
                     None \<Rightarrow> None
                   | Some (response, read_error, obs, port) \<Rightarrow>
                       with_clock obs (\<lambda>now obs.
                         if response = [] then
                           Some (failure started now
                             (if read_error = None then NoAnswer (gc_timeout_ms config) else ReadFailed)
                             (read_error = None), response, obs, port)
                         else if read_error \<noteq> None then
                           Some (failure started now ReadFailed False, response, obs, port)
                         else
                           (case ParseResponse response address (gc_register_count config)
                                   (ob_now now - ob_now started) (ob_timestamp now) of
                              Inr (_, result) \<Rightarrow> Some (result, response, obs, port)
                            | Inl _ \<Rightarrow> None))))))"

definition query :: "'p serial_lib \<Rightarrow> byte \<Rightarrow> obs list \<Rightarrow> 'p GasDetectorPoll \<Rightarrow> (obs list \<times> 'p GasDetectorPoll) option" where
  "query L address obs s =
     (let s = s\<lparr>gp_request_count := gp_request_count s + 1\<rparr> in
      case exchange L (gp_config s) address obs (gp_serial s) of
        None \<Rightarrow> None
      | Some (result, response, obs, port) \<Rightarrow> Some (obs, StoreResult result response (s\<lparr>gp_serial := port\<rparr>)))"

text \<open>When the next request is due.\<close>

definition next_request :: "nat \<Rightarrow> u32 \<Rightarrow> nat \<Rightarrow> nat" where
  "next_request next_request_at interval_ms now = max (next_request_at + unat interval_ms * 1000) now"

text \<open>One pass over the addresses: \<open>completed_cycle\<close>, the observations left, the time of the next request and
  the state. \<open>WaitUntil\<close> is the second look at the stop flag.\<close>

fun poll_addresses :: "'p serial_lib \<Rightarrow> byte list \<Rightarrow> obs list \<Rightarrow> nat \<Rightarrow> 'p GasDetectorPoll \<Rightarrow>
    (bool \<times> obs list \<times> nat \<times> 'p GasDetectorPoll) option" where
  "poll_addresses L [] obs next_at s = Some (True, obs, next_at, s)"
| "poll_addresses L (a # as) obs next_at s =
     (case obs of
        [] \<Rightarrow> None
      | ob # obs \<Rightarrow>
          if ob_stop ob then Some (False, obs, next_at, s)
          else (case obs of
                  [] \<Rightarrow> None
                | ob # obs \<Rightarrow>
                    if ob_stop ob then Some (False, obs, next_at, s)
                    else (case query L a obs s of
                            None \<Rightarrow> None
                          | Some (obs, s) \<Rightarrow>
                              with_clock obs (\<lambda>now obs.
                                poll_addresses L as obs (next_request next_at (gc_interval_ms (gp_config s)) (ob_now now)) s))))"

definition poll_cycle :: "'p serial_lib \<Rightarrow> obs list \<Rightarrow> nat \<Rightarrow> 'p GasDetectorPoll \<Rightarrow>
    (obs list \<times> nat \<times> 'p GasDetectorPoll) option" where
  "poll_cycle L obs next_at s =
     (case poll_addresses L (gc_addresses (gp_config s)) obs next_at s of
        None \<Rightarrow> None
      | Some (completed, obs, next_at, s) \<Rightarrow>
          Some (obs, next_at, if completed then s\<lparr>gp_cycle_count := gp_cycle_count s + 1\<rparr> else s))"

section \<open>The object between calls\<close>

text \<open>\<open>k\<close>: the requests counted since the last \<open>Init\<close> whose exchange ended in an exception, which count nowhere else.\<close>

definition gas_inv :: "u64 \<Rightarrow> 'p GasDetectorPoll \<Rightarrow> bool" where
  "gas_inv k s \<longleftrightarrow>
     gp_request_count s = gp_success_count s + gp_invalid_frame_count s + k \<and>
     gp_next_sequence s = gp_success_count s + gp_invalid_frame_count s + 1 \<and>
     (gp_worker s \<longrightarrow> gp_initialized s \<and> gc_enabled (gp_config s)) \<and>
     (gp_running s \<longrightarrow> gp_initialized s \<and> gc_enabled (gp_config s)) \<and>
     gp_running s = (gp_state s = PollRunning) \<and>
     (gp_communication_ok s \<longrightarrow> gp_running s) \<and>
     (gp_initialized s \<longrightarrow> gas_config_ok (gp_config s) \<and>
        map gd_address (gp_latest_results s) = map uint (gc_addresses (gp_config s)))"

text \<open>The calls, a pass of the worker while it is alive or one query of it, and its handlers: an exception falls between
  two queries, or inside an exchange, whose request has been counted then and whose port may be in any state.
  The number beside the object is ghost state: the requests of such exchanges since the last \<open>Init\<close> that
  came to its configuration.\<close>

definition init_applied :: "'p serial_lib \<Rightarrow> json \<Rightarrow> 'p GasDetectorPoll \<Rightarrow> bool" where
  "init_applied L cfg s = (case fst (gp_Init L cfg s) of InitParseFailed e \<Rightarrow> False | InitThrows e \<Rightarrow> False | _ \<Rightarrow> True)"

inductive gas_step :: "'p serial_lib \<Rightarrow> u64 \<times> 'p GasDetectorPoll \<Rightarrow> u64 \<times> 'p GasDetectorPoll \<Rightarrow> bool" for L where
  init: "gas_step L (k, s) (if init_applied L cfg s then 0 else k, snd (gp_Init L cfg s))"
| start: "gas_step L (k, s) (k, snd (gp_Start L created s))"
| stop: "gas_step L (k, s) (k, snd (gp_Stop L s))"
| cycle: "gp_worker s \<Longrightarrow> gp_running s \<Longrightarrow> poll_cycle L obs next_at s = Some (obs', next_at', s') \<Longrightarrow>
    gas_step L (k, s) (k, s')"
| query: "gp_worker s \<Longrightarrow> gp_running s \<Longrightarrow> a \<in> set (gc_addresses (gp_config s)) \<Longrightarrow>
    query L a obs s = Some (obs', s') \<Longrightarrow> gas_step L (k, s) (k, s')"
| died: "gp_worker s \<Longrightarrow> gas_step L (k, s) (k, worker_exception s)"
| died_inside: "gp_worker s \<Longrightarrow> gp_running s \<Longrightarrow>
    gas_step L (k, s) (k + 1, worker_exception (s\<lparr>gp_request_count := gp_request_count s + 1, gp_serial := port\<rparr>))"

inductive_cases gas_stepE: "gas_step L s s'"

lemma StopInternalLocked_inv:
  assumes "gas_inv k s" shows "gas_inv k (snd (StopInternalLocked L s))"
  using assms by (auto simp: StopInternalLocked_def gas_inv_def Let_def split: prod.split option.split)

lemma apply_config_inv:
  "gas_config_ok c \<Longrightarrow> gas_inv 0 (apply_config c cfg s\<lparr>gp_worker := False\<rparr>)"
  by (simp add: gas_inv_def apply_config_def)

lemma StopInternalLocked_None:
  "StopInternalLocked L s = (None, s') \<Longrightarrow> \<not> gp_worker s' \<and> \<not> gp_running s'"
  by (auto simp: StopInternalLocked_def Let_def split: prod.splits option.splits)

lemma gp_Init_inv:
  assumes "gas_inv k s" shows "gas_inv (if init_applied L cfg s then 0 else k) (snd (gp_Init L cfg s))"
proof (cases "gas_ParseConfig cfg")
  case (Inl e)
  then show ?thesis using assms by (simp add: gp_Init_def init_applied_def)
next
  case (Inr c)
  note ok = gas_ParseConfig_ok [OF Inr]
  obtain e s1 where s1: "StopInternalLocked L s = (e, s1)" by fastforce
  show ?thesis
  proof (cases e)
    case None
    note w = StopInternalLocked_None [of L s s1]
    obtain b port where "ms_Init L (gas_serial_config c) (gp_serial (apply_config c cfg s1)) = (b, port)" by fastforce
    then show ?thesis
      using Inr s1 None w ok by (cases b) (auto simp: gp_Init_def init_applied_def Let_def gas_inv_def apply_config_def)
  next
    case (Some x)
    then show ?thesis using Inr s1 StopInternalLocked_inv [OF assms, of L] by (simp add: gp_Init_def init_applied_def)
  qed
qed

lemma gp_Start_inv: "gas_inv k s \<Longrightarrow> gas_inv k (snd (gp_Start L b s))"
  by (auto simp: gp_Start_def gas_inv_def Let_def)

lemma replace_result_addresses:
  "gd_address r \<in> gd_address ` set rs \<Longrightarrow> map gd_address (replace_result r rs) = map gd_address rs"
  by (induction rs) auto

lemma StoreResult_frame [simp]:
  "gp_worker (StoreResult r b s) = gp_worker s" "gp_running (StoreResult r b s) = gp_running s"
  "gp_config (StoreResult r b s) = gp_config s" "gp_initialized (StoreResult r b s) = gp_initialized s"
  "gp_state (StoreResult r b s) = gp_state s" "gp_serial (StoreResult r b s) = gp_serial s"
  by (simp_all add: StoreResult_def Let_def)

lemma exchange_address:
  assumes "exchange L c a obs port = Some (r, resp, obs', port')" and "gc_register_count c = 10"
  shows "gd_address r = uint a"
proof -
  have m: "gd_address (MakeFailureResult x e err t ts) = x" for x e err t ts
    by (simp add: MakeFailureResult_def)
  have p: "ParseResponse b a 10 el ts = Inr (ok, r) \<Longrightarrow> gd_address r = uint a" for b el ok ts
    using ParseResponse_total [of b a el ts] by auto
  show ?thesis
    using assms unfolding exchange_def Let_def with_clock_def
    by (auto simp: m split: list.splits option.splits bool.splits prod.splits if_splits sum.splits dest: p)
qed

lemma query_inv:
  assumes "gas_inv k s" "gp_running s" "a \<in> set (gc_addresses (gp_config s))"
    and "query L a obs s = Some (obs', s')"
  shows "gas_inv k s' \<and> gp_running s' \<and> gp_config s' = gp_config s"
proof -
  obtain r resp port where e: "exchange L (gp_config s) a obs (gp_serial s) = Some (r, resp, obs', port)"
    and s': "s' = StoreResult r resp (s\<lparr>gp_request_count := gp_request_count s + 1, gp_serial := port\<rparr>)"
    using assms(4) by (auto simp: query_def Let_def split: option.splits)
  have c: "gas_config_ok (gp_config s)" "map gd_address (gp_latest_results s) = map uint (gc_addresses (gp_config s))"
    using assms(1,2) by (auto simp: gas_inv_def)
  have "gd_address r = uint a" using exchange_address [OF e] c(1) by (simp add: gas_config_ok_def)
  moreover have "uint a \<in> gd_address ` set (gp_latest_results s)"
    using arg_cong [OF c(2), of set] assms(3) by (auto simp: image_iff)
  ultimately have l: "map gd_address (replace_result (r\<lparr>gd_sequence := n\<rparr>) (gp_latest_results s)) =
      map uint (gc_addresses (gp_config s))" for n
    using replace_result_addresses [of "r\<lparr>gd_sequence := n\<rparr>" "gp_latest_results s"] c(2) by simp
  show ?thesis
    using assms(1,2) l by (auto simp: s' gas_inv_def StoreResult_def Let_def)
qed

lemma poll_addresses_inv:
  "gas_inv k s \<Longrightarrow> gp_running s \<Longrightarrow> set as \<subseteq> set (gc_addresses (gp_config s)) \<Longrightarrow>
     poll_addresses L as obs n s = Some (completed, obs', n', s') \<Longrightarrow> gas_inv k s' \<and> gp_running s'"
proof (induction as arbitrary: obs n s)
  case (Cons a as)
  then show ?case
    by (auto simp: with_clock_def split: list.splits if_splits option.splits prod.splits)
      (metis (no_types, lifting) query_inv)+
qed simp

lemma poll_cycle_inv:
  assumes "gas_inv k s" "gp_running s" "poll_cycle L obs n s = Some (obs', n', s')"
  shows "gas_inv k s'"
proof -
  obtain completed s1 where
    p: "poll_addresses L (gc_addresses (gp_config s)) obs n s = Some (completed, obs', n', s1)"
    and s': "s' = (if completed then s1\<lparr>gp_cycle_count := gp_cycle_count s1 + 1\<rparr> else s1)"
    using assms(3) by (auto simp: poll_cycle_def split: option.splits)
  show ?thesis
    using poll_addresses_inv [OF assms(1,2) _ p] by (auto simp: s' gas_inv_def)
qed

lemma gas_step_inv: "gas_step L x x' \<Longrightarrow> gas_inv (fst x) (snd x) \<Longrightarrow> gas_inv (fst x') (snd x')"
proof (induction rule: gas_step.induct)
  case (init k s cfg)
  then have "gas_inv k s" by simp
  from gp_Init_inv [OF this, of L cfg] show ?case by (simp only: fst_conv snd_conv)
next
  case (cycle s obs next_at obs' next_at' s' k)
  have "gas_inv k s" using cycle(4) by simp
  from poll_cycle_inv [OF this cycle(2,3)] show ?case by simp
next
  case (query s a obs obs' s' k)
  have "gas_inv k s" using query(5) by simp
  from query_inv [OF this query(2-4)] show ?case by simp
next
  case (died s k)
  then show ?case by (auto simp: worker_exception_def gas_inv_def)
next
  case (died_inside s k port)
  then show ?case by (auto simp: worker_exception_def gas_inv_def)
qed (simp_all add: gp_Start_inv gp_Stop_def StopInternalLocked_inv)

interpretation gp: invariant_system "\<lambda>x. x = (0, GasDetectorPoll_init)" "gas_step L" "\<lambda>x. gas_inv (fst x) (snd x)" for L
proof
  show "gas_inv (fst x) (snd x)" if "x = (0, GasDetectorPoll_init)" for x :: "u64 \<times> 'a GasDetectorPoll"
    using that by (simp add: gas_inv_def GasDetectorPoll_init_def)
qed (rule gas_step_inv)

end
