(* ===== verification/GasWorker.thy ===== *)
theory GasWorker
  imports GasPoll
begin

text \<open>
  The main loop of the worker in \<open>src/util/my_gas_detector_poll/MyGasDetectorPoll.cpp\<close>, that it ends once the
  stop flag is set, and what a query reads from the port.
\<close>

section \<open>Observations used\<close>

text \<open>\<open>uses c obs obs'\<close>: \<open>obs'\<close> is what is left of \<open>obs\<close>, and at most \<open>c\<close> of the observations used saw the
  stop flag set.\<close>

definition stops :: "obs list \<Rightarrow> nat" where
  "stops obs = length (filter ob_stop obs)"

definition uses :: "nat \<Rightarrow> obs list \<Rightarrow> obs list \<Rightarrow> bool" where
  "uses c obs obs' \<longleftrightarrow> (\<exists>used. obs = used @ obs' \<and> stops used \<le> c)"

lemma stops_simps [simp]:
  "stops [] = 0" "stops (ob # obs) = (if ob_stop ob then 1 else 0) + stops obs"
  "stops (xs @ ys) = stops xs + stops ys"
  by (simp_all add: stops_def)

lemma uses_refl [simp, intro]: "uses c obs obs"
  by (auto simp: uses_def)

lemma uses_trans: "uses c obs obs' \<Longrightarrow> uses d obs' obs'' \<Longrightarrow> uses (c + d) obs obs''"
  by (force simp: uses_def)

lemma uses_mono: "uses c obs obs' \<Longrightarrow> c \<le> d \<Longrightarrow> uses d obs obs'"
  by (force simp: uses_def)

lemma uses_Cons: "uses c obs obs' \<Longrightarrow> \<not> ob_stop ob \<Longrightarrow> uses c (ob # obs) obs'"
  by (force simp: uses_def intro: exI [of _ "ob # _"])

lemma uses_one [intro]: "uses (Suc 0) (ob # obs) obs"
  by (auto simp: uses_def)

lemma uses_stops: "uses c obs obs' \<Longrightarrow> stops obs \<le> c + stops obs'"
  by (auto simp: uses_def)

lemma uses_length: "uses c obs obs' \<Longrightarrow> length obs' \<le> length obs"
  by (auto simp: uses_def)

section \<open>Every read returns\<close>

lemma DiscardInputBuffer_uses:
  "DiscardInputBuffer L obs port = Some (b, obs', port') \<Longrightarrow> uses 1 obs obs'"
proof (induction obs arbitrary: port)
  case (Cons ob obs)
  then show ?case by (fastforce simp: Let_def split: if_splits prod.splits intro: uses_Cons)
qed simp

lemma DiscardInputBuffer_returns: "0 < stops obs \<Longrightarrow> DiscardInputBuffer L obs port \<noteq> None"
proof (induction obs arbitrary: port)
  case (Cons ob obs)
  then show ?case by (auto split: prod.split)
qed simp

lemma ReadUpTo_uses:
  "ReadUpTo L n d obs acc port = Some (bs, e, obs', port') \<Longrightarrow> uses 1 obs obs'"
proof (induction obs arbitrary: acc port)
  case Nil
  then show ?case by (simp add: ReadUpTo.simps [of L n d "[]"] split: if_splits)
next
  case (Cons ob obs)
  then show ?case
    by (fastforce simp: ReadUpTo.simps [of L n d "ob # obs"] split: if_splits prod.splits intro: uses_Cons)
qed

lemma ReadUpTo_returns: "0 < stops obs \<Longrightarrow> ReadUpTo L n d obs acc port \<noteq> None"
proof (induction obs arbitrary: acc port)
  case (Cons ob obs)
  then show ?case by (auto simp: ReadUpTo.simps [of L n d "ob # obs"] split: prod.split)
qed simp

text \<open>The two reads of \<open>ReadResponse\<close>.\<close>

lemma ReadResponse_two_reads:
  assumes "ReadUpTo L 3 d obs [] port = Some (header, e, obs1, port1)"
  shows "(\<exists>bs e'. ReadResponse L d obs port = Some (bs, e', obs1, port1)) \<or>
    (\<exists>n. ReadResponse L d obs port = map_option (\<lambda>(body, e, obs, port). (header @ body,
        if length (header @ body) < 3 + n \<and> e = None then Some (BodyIncomplete (3 + n) (length (header @ body))) else e,
        obs, port)) (ReadUpTo L n d obs1 [] port1))"
proof (cases "length header < 3")
  case False
  let ?n = "if header ! 1 AND 0x80 \<noteq> 0 then 2 else unat (header ! 2) + 2"
  show ?thesis
  proof (cases "length header + ?n > kMaxResponseSize")
    case True
    then have "ReadResponse L d obs port = Some (header, Some DeclaredTooLong, obs1, port1)"
      using assms False unfolding ReadResponse_def Let_def by simp
    then show ?thesis by blast
  next
    case too_long: False
    have "ReadResponse L d obs port = map_option (\<lambda>(body, e, obs, port). (header @ body,
        if length (header @ body) < 3 + ?n \<and> e = None then Some (BodyIncomplete (3 + ?n) (length (header @ body))) else e,
        obs, port)) (ReadUpTo L ?n d obs1 [] port1)"
      using assms False too_long unfolding ReadResponse_def Let_def
      by (cases "ReadUpTo L ?n d obs1 [] port1") (simp_all split: prod.split)
    then show ?thesis by blast
  qed
qed (use assms in \<open>auto simp: ReadResponse_def\<close>)

lemma ReadResponse_uses:
  assumes "ReadResponse L d obs port = Some (bs, e, obs', port')" shows "uses 2 obs obs'"
proof -
  obtain header e1 obs1 port1 where h: "ReadUpTo L 3 d obs [] port = Some (header, e1, obs1, port1)"
    using assms by (cases "ReadUpTo L 3 d obs [] port") (auto simp: ReadResponse_def)
  note u = ReadUpTo_uses [OF h]
  from ReadResponse_two_reads [OF h] show ?thesis
  proof (elim disjE exE)
    fix n assume "ReadResponse L d obs port = map_option (\<lambda>(body, e, obs, port). (header @ body,
        if length (header @ body) < 3 + n \<and> e = None then Some (BodyIncomplete (3 + n) (length (header @ body))) else e,
        obs, port)) (ReadUpTo L n d obs1 [] port1)"
    with assms obtain bs' e' where "ReadUpTo L n d obs1 [] port1 = Some (bs', e', obs', port')" by auto
    from uses_trans [OF u ReadUpTo_uses [OF this]] show ?thesis by (simp add: numeral_2_eq_2)
  qed (use assms u uses_mono [of 1 obs obs1 2] in auto)
qed

lemma ReadResponse_returns:
  assumes "1 < stops obs" shows "ReadResponse L d obs port \<noteq> None"
proof -
  obtain header e1 obs1 port1 where h: "ReadUpTo L 3 d obs [] port = Some (header, e1, obs1, port1)"
    using assms ReadUpTo_returns [of obs L 3 d "[]" port] by (cases "ReadUpTo L 3 d obs [] port") auto
  have "0 < stops obs1" using uses_stops [OF ReadUpTo_uses [OF h]] assms by simp
  then have "ReadUpTo L n d obs1 [] port1 \<noteq> None" for n by (rule ReadUpTo_returns)
  with ReadResponse_two_reads [OF h] show ?thesis by (elim disjE exE) (simp_all only: option.map_disc_iff option.distinct not_False_eq_True)
qed

section \<open>The main loop\<close>

lemma with_clock_Some:
  "with_clock obs f = Some r \<longleftrightarrow> (\<exists>ob rest. obs = ob # rest \<and> f ob rest = Some r)"
  by (cases obs) (auto simp: with_clock_def)

lemma with_clock_None: "with_clock obs f = None \<longleftrightarrow> (obs = [] \<or> f (hd obs) (tl obs) = None)"
  by (cases obs) (auto simp: with_clock_def)

text \<open>After the input is discarded an exchange fails, or reads a response and stores what comes of it.\<close>

lemma exchange_shape:
  assumes "DiscardInputBuffer L obs port = Some (b, obs2, port2)"
  shows "(\<exists>F p. exchange L c a (started # obs) port = with_clock obs2 (\<lambda>now rest. Some (F now, [], rest, p))) \<or>
    (\<exists>G dl p. (gc_register_count c = 10 \<longrightarrow> (\<forall>now resp e. G now resp e \<noteq> None)) \<and>
       exchange L c a (started # obs) port =
       (case ReadResponse L dl obs2 p of None \<Rightarrow> None
        | Some (resp, e, obs3, p3) \<Rightarrow> with_clock obs3 (\<lambda>now rest. map_option (\<lambda>r. (r, resp, rest, p3)) (G now resp e))))"
proof (cases b)
  case False
  then have "exchange L c a (started # obs) port = with_clock obs2 (\<lambda>now rest.
      Some (MakeFailureResult (uint a) (ob_now now - ob_now started) DiscardFailed False (ob_timestamp now), [], rest, port2))"
    using assms by (simp add: exchange_def with_clock_def)
  then show ?thesis by (intro disjI1 exI)
next
  case True
  let ?q = "BuildRequest a (gc_start_register c) (gc_register_count c)"
  obtain w e port3 where w: "ms_Write L ?q port2 = (w, e, port3)" by (cases "ms_Write L ?q port2") auto
  show ?thesis
  proof (cases "err_text_set e \<or> w \<noteq> length ?q")
    case bad: True
    then have "exchange L c a (started # obs) port = with_clock obs2 (\<lambda>now rest.
        Some (MakeFailureResult (uint a) (ob_now now - ob_now started) (WriteFailed w (length ?q) (err_text_set e)) False
          (ob_timestamp now), [], rest, port3))"
      using assms True w by (simp add: exchange_def with_clock_def)
    then show ?thesis by (intro disjI1 exI)
  next
    case sent: False
    let ?F = "\<lambda>now. MakeFailureResult (uint a) (ob_now now - ob_now started)"
    let ?P = "\<lambda>now resp. ParseResponse resp a (gc_register_count c) (ob_now now - ob_now started) (ob_timestamp now)"
    let ?G = "\<lambda>now resp (re :: read_err option). if resp = [] then
        Some (?F now (if re = None then NoAnswer (gc_timeout_ms c) else ReadFailed) (re = None) (ob_timestamp now))
      else if re \<noteq> None then Some (?F now ReadFailed False (ob_timestamp now))
      else (case ?P now resp of Inr (ok, result) \<Rightarrow> Some result | Inl u \<Rightarrow> None)"
    have "?G now resp re \<noteq> None" if "gc_register_count c = 10" for now resp re
      using ParseResponse_total [of resp a "ob_now now - ob_now started" "ob_timestamp now"] that by auto
    moreover have "exchange L c a (started # obs) port =
       (case ReadResponse L (ob_now started + unat (gc_timeout_ms c) * 1000) obs2 port3 of None \<Rightarrow> None
        | Some (resp, e, obs3, p3) \<Rightarrow> with_clock obs3 (\<lambda>now rest. map_option (\<lambda>r. (r, resp, rest, p3)) (?G now resp e)))"
      using assms True w sent
      by (auto simp: exchange_def with_clock_def split: option.split list.split sum.split)
    ultimately show ?thesis by (intro disjI2 exI [of _ ?G]) blast
  qed
qed

lemma exchange_uses:
  assumes "exchange L c a obs port = Some (r, resp, obs', port')" shows "uses 5 obs obs'"
proof -
  obtain started obs1 where o: "obs = started # obs1" using assms by (cases obs) (auto simp: exchange_def with_clock_def)
  obtain b obs2 port2 where d: "DiscardInputBuffer L obs1 port = Some (b, obs2, port2)"
    using assms by (cases "DiscardInputBuffer L obs1 port") (auto simp: o exchange_def with_clock_def)
  have u: "uses (1 + 1) obs obs2"
    using uses_trans [OF uses_one [of started obs1] DiscardInputBuffer_uses [OF d]] by (simp add: o)
  have k: "uses 5 obs rest" if "uses n obs (ob # rest)" "n \<le> 4" for n ob rest
    using uses_mono [OF uses_trans [OF that(1) uses_one]] that(2) by simp
  from exchange_shape [OF d, of c a started] show ?thesis
  proof (elim disjE exE conjE)
    fix G dl p
    assume e: "exchange L c a (started # obs1) port =
       (case ReadResponse L dl obs2 p of None \<Rightarrow> None
        | Some (resp, e, obs3, p3) \<Rightarrow> with_clock obs3 (\<lambda>now rest. map_option (\<lambda>r. (r, resp, rest, p3)) (G now resp e)))"
    then obtain bs re now p3 where "ReadResponse L dl obs2 p = Some (bs, re, now # obs', p3)"
      using assms o by (cases "ReadResponse L dl obs2 p") (auto simp: with_clock_Some)
    from k [OF uses_trans [OF u ReadResponse_uses [OF this]]] show ?thesis by simp
  qed (use assms u k [of "1 + 1"] in \<open>auto simp: o with_clock_Some\<close>)
qed

lemma exchange_returns:
  assumes "gc_register_count c = 10" "4 < stops obs" shows "exchange L c a obs port \<noteq> None"
proof -
  obtain started obs1 where o: "obs = started # obs1" and s1: "3 < stops obs1"
    using assms(2) by (cases obs) (auto split: if_splits)
  obtain b obs2 port2 where d: "DiscardInputBuffer L obs1 port = Some (b, obs2, port2)"
    using DiscardInputBuffer_returns [of obs1 L port] s1 by (cases "DiscardInputBuffer L obs1 port") auto
  have s2: "2 < stops obs2" using uses_stops [OF DiscardInputBuffer_uses [OF d]] s1 by simp
  from exchange_shape [OF d, of c a started] show ?thesis
  proof (elim disjE exE conjE)
    fix F p assume "exchange L c a (started # obs1) port = with_clock obs2 (\<lambda>now rest. Some (F now, [], rest, p))"
    then show ?thesis using s2 by (cases obs2) (auto simp: o with_clock_def)
  next
    fix G dl p
    assume g: "gc_register_count c = 10 \<longrightarrow> (\<forall>now resp e. G now resp e \<noteq> None)"
      and e: "exchange L c a (started # obs1) port =
       (case ReadResponse L dl obs2 p of None \<Rightarrow> None
        | Some (resp, e, obs3, p3) \<Rightarrow> with_clock obs3 (\<lambda>now rest. map_option (\<lambda>r. (r, resp, rest, p3)) (G now resp e)))"
    obtain bs re obs3 p3 where rr: "ReadResponse L dl obs2 p = Some (bs, re, obs3, p3)"
      using ReadResponse_returns [of obs2 L dl p] s2 by (cases "ReadResponse L dl obs2 p") auto
    have "0 < stops obs3" using uses_stops [OF ReadResponse_uses [OF rr]] s2 by simp
    then show ?thesis using g assms(1) by (cases obs3) (auto simp: o e rr with_clock_def)
  qed
qed

text \<open>The stop flag is only set, until the worker has been joined.\<close>

fun sticky :: "obs list \<Rightarrow> bool" where
  "sticky [] = True"
| "sticky (ob # obs) = ((ob_stop ob \<longrightarrow> (\<forall>x \<in> set obs. ob_stop x)) \<and> sticky obs)"

lemma sticky_append: "sticky (xs @ ys) \<Longrightarrow> sticky ys \<and> (0 < stops xs \<longrightarrow> (\<forall>x \<in> set ys. ob_stop x))"
  by (induction xs) auto

lemma uses_sticky:
  assumes "uses c obs obs'" "sticky obs"
  shows "sticky obs' \<and> (stops obs' = stops obs \<or> (\<forall>x \<in> set obs'. ob_stop x))"
  using assms sticky_append [of _ obs'] by (fastforce simp: uses_def)

lemma query_uses: "query L a obs s = Some (obs', s') \<Longrightarrow> uses 5 obs obs'"
  by (auto simp: query_def Let_def split: option.splits dest: exchange_uses)

lemma query_config: "query L a obs s = Some (obs', s') \<Longrightarrow> gp_config s' = gp_config s"
  by (auto simp: query_def Let_def split: option.splits)

lemma query_returns: "gc_register_count (gp_config s) = 10 \<Longrightarrow> 4 < stops obs \<Longrightarrow> query L a obs s \<noteq> None"
  using exchange_returns [of "gp_config s" obs L a "gp_serial s"] by (auto simp: query_def Let_def split: prod.split)

lemma poll_addresses_length:
  "poll_addresses L as obs n s = Some (completed, obs', n', s') \<Longrightarrow> length obs' \<le> length obs \<and> gp_config s' = gp_config s"
proof (induction as arbitrary: obs n s)
  case (Cons a as)
  show ?case
  proof (cases "\<exists>o1 o2 rest. obs = o1 # o2 # rest \<and> \<not> ob_stop o1 \<and> \<not> ob_stop o2")
    case True
    then obtain o1 o2 rest where o: "obs = o1 # o2 # rest" "\<not> ob_stop o1" "\<not> ob_stop o2" by blast
    obtain ob obs1 s1 where q: "query L a rest s = Some (ob # obs1, s1)"
      and p: "poll_addresses L as obs1 (next_request n (gc_interval_ms (gp_config s1)) (ob_now ob)) s1 = Some (completed, obs', n', s')"
      using Cons.prems o by (auto simp: with_clock_Some split: option.splits)
    from Cons.IH [OF p] uses_length [OF query_uses [OF q]] query_config [OF q] show ?thesis by (simp add: o)
  qed (use Cons.prems in \<open>auto split: list.splits if_splits\<close>)
qed simp

lemma poll_addresses_uses:
  assumes "poll_addresses L as obs n s = Some (completed, obs', n', s')"
  shows "\<exists>c. uses c obs obs'"
  using assms
proof (induction as arbitrary: obs n s)
  case (Cons a as)
  show ?case
  proof (cases "\<exists>o1 o2 rest. obs = o1 # o2 # rest \<and> \<not> ob_stop o1 \<and> \<not> ob_stop o2")
    case True
    then obtain o1 o2 rest where o: "obs = o1 # o2 # rest" "\<not> ob_stop o1" "\<not> ob_stop o2" by blast
    obtain ob obs1 s1 where q: "query L a rest s = Some (ob # obs1, s1)"
      and p: "poll_addresses L as obs1 (next_request n (gc_interval_ms (gp_config s1)) (ob_now ob)) s1 = Some (completed, obs', n', s')"
      using Cons.prems o by (auto simp: with_clock_Some split: option.splits)
    obtain c where "uses c obs1 obs'" using Cons.IH [OF p] by blast
    from uses_trans [OF uses_trans [OF query_uses [OF q] uses_one] this] show ?thesis
      using o uses_Cons by blast
  qed (use Cons.prems in \<open>auto simp: uses_def split: list.splits if_splits\<close>)
qed auto

lemma poll_addresses_stopped:
  "\<forall>x \<in> set obs. ob_stop x \<Longrightarrow> as = [] \<or> obs \<noteq> [] \<Longrightarrow>
     \<exists>completed obs'. poll_addresses L as obs n s = Some (completed, obs', n, s) \<and> length obs \<le> Suc (length obs')"
  by (cases as; cases obs) auto

text \<open>A pass over the addresses returns when the stop flag is seen seven times; if it began before that, it
  leaves one look at the flag for the main loop.\<close>

lemma poll_addresses_returns:
  "gc_register_count (gp_config s) = 10 \<Longrightarrow> sticky obs \<Longrightarrow> 7 < stops obs \<Longrightarrow>
     \<exists>completed obs' n' s'. poll_addresses L as obs n s = Some (completed, obs', n', s') \<and>
       (stops obs' = stops obs \<or> (\<forall>x \<in> set obs'. ob_stop x) \<and> obs' \<noteq> [])"
proof (induction as arbitrary: obs n s)
  case (Cons a as)
  show ?case
  proof (cases "\<exists>o1 o2 rest. obs = o1 # o2 # rest \<and> \<not> ob_stop o1 \<and> \<not> ob_stop o2")
    case True
    then obtain o1 o2 rest where o: "obs = o1 # o2 # rest" "\<not> ob_stop o1" "\<not> ob_stop o2" by blast
    have st: "7 < stops rest" "sticky rest" using Cons.prems o by simp_all
    obtain obs1 s1 where q: "query L a rest s = Some (obs1, s1)"
      using query_returns [OF Cons.prems(1), of rest L a] st by fastforce
    have s1: "2 < stops obs1" using uses_stops [OF query_uses [OF q]] st by simp
    then obtain ob obs2 where o1: "obs1 = ob # obs2" by (cases obs1) auto
    have s2: "1 < stops obs2" using s1 o1 by (auto split: if_splits)
    have u: "uses 6 rest obs2" using uses_trans [OF query_uses [OF q [unfolded o1]] uses_one] by simp
    from uses_sticky [OF u st(2)] show ?thesis
    proof (elim conjE disjE)
      assume "sticky obs2" "stops obs2 = stops rest"
      with Cons.IH [of s1 obs2 "next_request n (gc_interval_ms (gp_config s1)) (ob_now ob)"] show ?thesis
        using Cons.prems(1) st(1) query_config [OF q] by (simp add: o q o1 with_clock_def)
    next
      assume all: "\<forall>x \<in> set obs2. ob_stop x"
      have ne: "obs2 \<noteq> []" "1 < length obs2"
        using s2 by (auto simp: stops_def intro: less_le_trans [OF _ length_filter_le])
      obtain completed obs' where p: "poll_addresses L as obs2 (next_request n (gc_interval_ms (gp_config s1)) (ob_now ob)) s1 =
          Some (completed, obs', next_request n (gc_interval_ms (gp_config s1)) (ob_now ob), s1)"
        and l: "length obs2 \<le> Suc (length obs')"
        using poll_addresses_stopped [OF all, of as L _ s1] ne by blast
      obtain c where "uses c obs2 obs'" using poll_addresses_uses [OF p] by blast
      then have "\<forall>x \<in> set obs'. ob_stop x" using all by (auto simp: uses_def)
      moreover have "obs' \<noteq> []" using l ne(2) by auto
      ultimately show ?thesis using p by (simp add: o q o1 with_clock_def)
    qed
  next
    case False
    obtain o1 o2 rest where o: "obs = o1 # o2 # rest"
      using Cons.prems(3) by (cases obs; cases "tl obs") (simp_all split: if_splits)
    with False have "ob_stop o1 \<or> \<not> ob_stop o1 \<and> ob_stop o2" by blast
    then show ?thesis using Cons.prems(2,3) by (elim disjE conjE) (simp_all add: o, auto)
  qed
qed auto

lemma poll_cycle_length:
  "poll_cycle L obs n s = Some (obs', n', s') \<Longrightarrow> length obs' \<le> length obs \<and> gp_config s' = gp_config s"
  by (auto simp: poll_cycle_def split: option.splits dest: poll_addresses_length)

text \<open>\<open>while (!stop_requested_.load())\<close>: the state in which the worker leaves its main loop.\<close>

function WorkerLoop :: "'p serial_lib \<Rightarrow> obs list \<Rightarrow> nat \<Rightarrow> 'p GasDetectorPoll \<Rightarrow> 'p GasDetectorPoll option" where
  "WorkerLoop L [] next_at s = None"
| "WorkerLoop L (ob # obs) next_at s =
     (if ob_stop ob then Some s
      else case poll_cycle L obs next_at s of
        None \<Rightarrow> None
      | Some (obs', next_at', s') \<Rightarrow> WorkerLoop L obs' next_at' s')"
  by pat_completeness auto

termination
  by (relation "measure (\<lambda>(L, obs, n, s). length obs)") (auto dest!: poll_cycle_length simp: less_Suc_eq_le)

lemma poll_cycle_returns:
  assumes "gc_register_count (gp_config s) = 10" "sticky obs" "7 < stops obs"
  shows "\<exists>obs' n' s'. poll_cycle L obs n s = Some (obs', n', s') \<and> sticky obs' \<and>
    (stops obs' = stops obs \<or> (\<forall>x \<in> set obs'. ob_stop x) \<and> obs' \<noteq> [])"
proof -
  obtain completed obs' n' s' where p: "poll_addresses L (gc_addresses (gp_config s)) obs n s = Some (completed, obs', n', s')"
    and st: "stops obs' = stops obs \<or> (\<forall>x \<in> set obs'. ob_stop x) \<and> obs' \<noteq> []"
    using poll_addresses_returns [OF assms] by blast
  obtain c where "uses c obs obs'" using poll_addresses_uses [OF p] by blast
  with uses_sticky assms(2) st p show ?thesis by (auto simp: poll_cycle_def)
qed

text \<open>The worker thread ends: once the stop flag is set and stays set, eight looks at it are enough for
  the main loop to return, whatever the serial port does and wherever in a query it is, so that the
  \<open>join\<close> in \<open>Stop\<close> comes back.\<close>

theorem worker_loop_returns:
  assumes "gc_register_count (gp_config s) = 10" and "sticky obs" and "8 \<le> stops obs"
  shows "\<exists>s'. WorkerLoop L obs next_at s = Some s' \<and> gp_config s' = gp_config s"
  using assms
proof (induction L obs next_at s rule: WorkerLoop.induct)
  case (2 L ob obs n s)
  show ?case
  proof (cases "ob_stop ob")
    case False
    with 2 have st: "sticky obs" "7 < stops obs" by simp_all
    obtain obs' n' s' where p: "poll_cycle L obs n s = Some (obs', n', s')" and "sticky obs'"
      and d: "stops obs' = stops obs \<or> (\<forall>x \<in> set obs'. ob_stop x) \<and> obs' \<noteq> []"
      using poll_cycle_returns [OF 2(2) st] by blast
    note c = poll_cycle_length [OF p, THEN conjunct2]
    from d show ?thesis
    proof
      assume "stops obs' = stops obs"
      then show ?thesis using 2(1) [OF False p refl refl] 2(2) st(2) c False p \<open>sticky obs'\<close> by simp
    next
      assume "(\<forall>x \<in> set obs'. ob_stop x) \<and> obs' \<noteq> []"
      then show ?thesis using c False p by (cases obs') simp_all
    qed
  qed simp
qed simp

section \<open>Reading a response\<close>

text \<open>What the documentation of the library says of a read: the bytes returned are the next ones of the
  input, at most as many as asked for; an exception has a text.\<close>

definition read_law :: "'p serial_lib \<Rightarrow> ('p \<Rightarrow> byte list) \<Rightarrow> bool" where
  "read_law L incoming \<longleftrightarrow>
     (\<forall>n p bs p'. lib_read L n p = (Inr bs, p') \<longrightarrow> length bs \<le> n \<and> incoming p = bs @ incoming p') \<and>
     (\<forall>n p e p'. lib_read L n p = (Inl e, p') \<longrightarrow> e \<noteq> [])"

text \<open>On a working port a read waits for at least one byte of what arrives.\<close>

definition read_progress :: "'p serial_lib \<Rightarrow> ('p \<Rightarrow> byte list) \<Rightarrow> bool" where
  "read_progress L incoming \<longleftrightarrow>
     (\<forall>n p. lib_isOpen L p \<and> 0 < n \<and> incoming p \<noteq> [] \<longrightarrow>
        (\<exists>bs p'. lib_read L n p = (Inr bs, p') \<and> bs \<noteq> [] \<and> lib_isOpen L p'))"

fun timely :: "nat \<Rightarrow> nat \<Rightarrow> obs list \<Rightarrow> bool" where
  "timely d 0 obs = True"
| "timely d (Suc m) [] = False"
| "timely d (Suc m) (ob # obs) = (\<not> ob_stop ob \<and> ob_now ob < d \<and> timely d m obs)"

lemma timely_mono: "timely d m obs \<Longrightarrow> k \<le> m \<Longrightarrow> timely d k obs"
proof (induction d m obs arbitrary: k rule: timely.induct)
  case (3 d m ob obs)
  then show ?case by (cases k) auto
qed auto

lemma ms_ReadBytes_law:
  assumes "read_law L incoming" "ms_serial port = Some p" "ms_ReadBytes L n port = (bs, e, port')" "\<not> err_text_set e"
  shows "\<exists>p'. ms_serial port' = Some p' \<and> length bs \<le> n \<and> incoming p = bs @ incoming p'"
proof (cases "lib_read L n p")
  case (Pair r p')
  moreover have "r \<noteq> Inl []" using assms(1) Pair unfolding read_law_def by blast
  ultimately show ?thesis
    using assms
    by (cases r; cases "ms_initialized port"; cases "lib_isOpen L p")
      (auto simp: ms_ReadBytes_def with_port_def open_guard_def lib_result_def read_law_def)
qed

lemma ReadUpTo_exact:
  assumes "read_law L incoming"
  shows "ms_serial port = Some p \<Longrightarrow> length acc \<le> n \<Longrightarrow> ReadUpTo L n d obs acc port = Some (bs, None, obs', port') \<Longrightarrow>
    \<exists>got p'. ms_serial port' = Some p' \<and> bs = acc @ got \<and> length bs \<le> n \<and> incoming p = got @ incoming p'"
proof (induction obs arbitrary: acc port p)
  case Nil
  then show ?case by (auto simp: ReadUpTo.simps [of L n d "[]"] split: if_splits)
next
  case (Cons ob obs)
  show ?case
  proof (cases "n \<le> length acc \<or> ob_stop ob \<or> d \<le> ob_now ob")
    case True
    then show ?thesis using Cons.prems by (auto simp: ReadUpTo.simps [of L n d "ob # obs"] split: if_splits)
  next
    case False
    obtain chunk e port1 where r: "ms_ReadBytes L (n - length acc) port = (chunk, e, port1)"
      by (cases "ms_ReadBytes L (n - length acc) port") auto
    have e: "\<not> err_text_set e" and rest: "ReadUpTo L n d obs (acc @ chunk) port1 = Some (bs, None, obs', port')"
      using Cons.prems(3) False by (auto simp: ReadUpTo.simps [of L n d "ob # obs"] r split: if_splits)
    from ms_ReadBytes_law [OF assms Cons.prems(1) r e] obtain p1 where p1: "ms_serial port1 = Some p1"
      and l: "length chunk \<le> n - length acc" and i: "incoming p = chunk @ incoming p1" by blast
    have "length (acc @ chunk) \<le> n" using l Cons.prems(2) by simp
    from Cons.IH [OF p1 this rest] i show ?thesis by (metis append.assoc)
  qed
qed

lemma ReadUpTo_live:
  assumes L: "read_law L incoming" "read_progress L incoming"
  shows "ms_serial port = Some p \<Longrightarrow> ms_initialized port \<Longrightarrow> lib_isOpen L p \<Longrightarrow> length acc \<le> n \<Longrightarrow>
    n - length acc \<le> length (incoming p) \<Longrightarrow> timely d (n - length acc + k) obs \<Longrightarrow>
    \<exists>obs' port' p'. ReadUpTo L n d obs acc port = Some (acc @ take (n - length acc) (incoming p), None, obs', port') \<and>
      ms_serial port' = Some p' \<and> ms_initialized port' \<and> lib_isOpen L p' \<and>
      incoming p' = drop (n - length acc) (incoming p) \<and> timely d k obs'"
proof (induction obs arbitrary: acc port p)
  case Nil
  then have "length acc = n" "k = 0" by (cases "n - length acc + k"; simp)+
  then show ?case using Nil by (auto simp: ReadUpTo.simps [of L n d "[]"])
next
  case (Cons ob obs)
  show ?case
  proof (cases "n \<le> length acc")
    case True
    then have "ReadUpTo L n d (ob # obs) acc port = Some (acc, None, ob # obs, port)" "n = length acc"
      using Cons.prems(4) by (simp_all add: ReadUpTo.simps [of L _ d "ob # obs"])
    then show ?thesis using Cons.prems by (intro exI conjI) simp_all
  next
    case False
    then have t: "\<not> ob_stop ob" "ob_now ob < d" "timely d (n - length acc - 1 + k) obs"
      using Cons.prems(6) by (cases "n - length acc"; simp)+
    have ne: "incoming p \<noteq> []" using Cons.prems(5) False by auto
    obtain chunk p1 where r: "lib_read L (n - length acc) p = (Inr chunk, p1)" and c: "chunk \<noteq> []" and o: "lib_isOpen L p1"
      using L(2) Cons.prems(3) ne False unfolding read_progress_def by (meson zero_less_diff not_le)
    have i: "incoming p = chunk @ incoming p1" and l: "length chunk \<le> n - length acc"
      using L(1) r by (auto simp: read_law_def)
    let ?port = "port\<lparr>ms_serial := Some p1, ms_last_error := None\<rparr>"
    have "ms_ReadBytes L (n - length acc) port = (chunk, None, ?port)"
      using Cons.prems(1-3) r by (simp add: ms_ReadBytes_def with_port_def open_guard_def lib_result_def)
    then have "ReadUpTo L n d (ob # obs) acc port = ReadUpTo L n d obs (acc @ chunk) ?port"
      using t False by (simp add: ReadUpTo.simps [of L n d "ob # obs"])
    moreover have "timely d (n - length (acc @ chunk) + k) obs"
      by (rule timely_mono [OF t(3)]) (use c in \<open>cases chunk; simp\<close>)
    ultimately show ?thesis
      using Cons.IH [of ?port p1 "acc @ chunk"] Cons.prems o l i False by (simp add: take_append drop_append)
  qed
qed

lemma ReadUpTo_error: "ReadUpTo L n d obs acc port = Some (bs, Some e, obs', port') \<Longrightarrow> length bs < n"
proof (induction obs arbitrary: acc port)
  case Nil
  then show ?case by (simp add: ReadUpTo.simps [of L n d "[]"] split: if_splits)
next
  case (Cons ob obs)
  then show ?case by (fastforce simp: ReadUpTo.simps [of L n d "ob # obs"] split: if_splits prod.splits)
qed

text \<open>The size a header declares.\<close>

definition response_size :: "byte list \<Rightarrow> nat" where
  "response_size bs = 3 + (if bs ! 1 AND 0x80 \<noteq> 0 then 2 else unat (bs ! 2) + 2)"

lemma ReadResponse_exact:
  assumes L: "read_law L incoming" and p: "ms_serial port = Some p"
    and r: "ReadResponse L d obs port = Some (bs, None, obs', port')" and ne: "bs \<noteq> []"
  shows "\<exists>p'. ms_serial port' = Some p' \<and> incoming p = bs @ incoming p' \<and> length bs = response_size bs \<and>
    response_size bs \<le> kMaxResponseSize"
proof -
  obtain header e obs1 port1 where h: "ReadUpTo L 3 d obs [] port = Some (header, e, obs1, port1)"
    using r by (cases "ReadUpTo L 3 d obs [] port") (auto simp: ReadResponse_def)
  let ?n = "if header ! 1 AND 0x80 \<noteq> 0 then 2 else unat (header ! 2) + 2"
  have l: "\<not> length header < 3" using r ne by (auto simp: ReadResponse_def h split: if_splits)
  have m: "length header + ?n \<le> kMaxResponseSize"
    using r l unfolding ReadResponse_def h Let_def by (simp split: if_splits)
  obtain body e2 where b: "ReadUpTo L ?n d obs1 [] port1 = Some (body, e2, obs', port')"
    and bs: "bs = header @ body" and e2: "e2 = None" "\<not> length bs < 3 + ?n"
    using r l m unfolding ReadResponse_def h Let_def by (auto split: option.splits if_splits)
  have e: "e = None" using ReadUpTo_error [of L 3 d obs "[]" port header _ obs1 port1] h l by (cases e) auto
  obtain p1 where p1: "ms_serial port1 = Some p1" "length header \<le> 3" "incoming p = header @ incoming p1"
    using ReadUpTo_exact [OF L p _ h [unfolded e]] by auto
  obtain p2 where p2: "ms_serial port' = Some p2" "length body \<le> ?n" "incoming p1 = body @ incoming p2"
    using ReadUpTo_exact [OF L p1(1) _ b [unfolded e2]] by auto
  have h3: "length header = 3" using p1(2) l by simp
  then have "bs ! 1 = header ! 1" "bs ! 2 = header ! 2" by (simp_all add: bs nth_append)
  then have "response_size bs = 3 + ?n" by (simp add: response_size_def)
  moreover have "length bs = 3 + ?n" using e2(2) p2(2) h3 by (simp add: bs)
  ultimately show ?thesis using p1(3) p2 m h3 by (simp add: bs)
qed

lemma ReadResponse_live:
  assumes L: "read_law L incoming" "read_progress L incoming"
    and port: "ms_serial port = Some p" "ms_initialized port" "lib_isOpen L p"
    and f: "incoming p = frame @ rest" "length frame = response_size frame" "response_size frame \<le> kMaxResponseSize"
    and t: "timely d (length frame) obs"
  shows "\<exists>obs' port' p'. ReadResponse L d obs port = Some (frame, None, obs', port') \<and> ms_serial port' = Some p' \<and>
    incoming p' = rest"
proof -
  let ?n = "length frame - 3"
  have l: "5 \<le> length frame" using f(2) by (simp add: response_size_def split: if_splits)
  then have t3: "timely d (3 - length [] + ?n) obs" using t by simp
  obtain obs1 port1 p1 where h: "ReadUpTo L 3 d obs [] port = Some (take 3 frame, None, obs1, port1)"
    and q1: "ms_serial port1 = Some p1" "ms_initialized port1" "lib_isOpen L p1"
      "incoming p1 = drop 3 frame @ rest" "timely d ?n obs1"
    using ReadUpTo_live [OF L port, of "[]" 3 d ?n obs] f(1) l t3 by auto
  obtain obs2 port2 p2 where b: "ReadUpTo L ?n d obs1 [] port1 = Some (drop 3 frame, None, obs2, port2)"
    and q2: "ms_serial port2 = Some p2" "incoming p2 = rest"
    using ReadUpTo_live [OF L q1(1-3), of "[]" ?n d 0 obs1] q1(4,5) l by (auto simp: diff_le_mono)
  have n: "(if take 3 frame ! 1 AND 0x80 \<noteq> 0 then 2 else unat (take 3 frame ! 2) + 2) = ?n"
    using f(2) by (simp add: response_size_def)
  have "ReadResponse L d obs port = Some (frame, None, obs2, port2)"
    unfolding ReadResponse_def h Let_def option.case prod.case n b
    using l f(2,3) by simp
  then show ?thesis using q2 by blast
qed

lemma build_response_size:
  "length regs = 10 \<Longrightarrow> response_size (build_response a regs) = 25 \<and> length (build_response a regs) = 25"
  by (simp add: build_response_def Let_def response_size_def length_pairs)

text \<open>Reading a response. When the answer of a slave arrives, with anything behind it, and
  \<open>ReadResponse\<close> returns bytes and no error, these are exactly the frame of the answer, what is behind
  it is left in the port, and parsing gives its registers; this does not depend on how the port cuts
  the bytes into reads. On a working port 25 looks at the clock before the deadline are enough for it.\<close>

theorem gas_reads_the_answer:
  assumes "read_law L incoming" and "ms_serial port = Some p" and "length regs = 10"
    and "incoming p = build_response a regs @ rest"
  shows "(\<forall>bs obs' port'. ReadResponse L d obs port = Some (bs, None, obs', port') \<and> bs \<noteq> [] \<longrightarrow>
      bs = build_response a regs \<and> (\<exists>p'. ms_serial port' = Some p' \<and> incoming p' = rest) \<and>
      (\<exists>res. ParseResponse bs a 10 el ts = Inr (True, res) \<and> gd_valid res \<and> gd_concentration_register res = regs ! 1)) \<and>
    (read_progress L incoming \<and> ms_initialized port \<and> lib_isOpen L p \<and> timely d 25 obs \<longrightarrow>
      (\<exists>obs' port'. ReadResponse L d obs port = Some (build_response a regs, None, obs', port')))"
proof (intro conjI allI impI)
  note size = build_response_size [OF assms(3), of a]
  fix bs obs' port'
  assume r: "ReadResponse L d obs port = Some (bs, None, obs', port') \<and> bs \<noteq> []"
  from ReadResponse_exact [OF assms(1,2) r [THEN conjunct1] r [THEN conjunct2]] obtain p' where
    p': "ms_serial port' = Some p'" "incoming p = bs @ incoming p'" and n: "length bs = response_size bs" by blast
  have l: "5 \<le> length bs" using n by (simp add: response_size_def split: if_splits)
  have c: "bs @ incoming p' = build_response a regs @ rest" using p'(2) assms(4) by simp
  have "bs ! k = build_response a regs ! k" if "k < 3" for k
    using arg_cong [OF c, of "\<lambda>x. x ! k"] that l size by (simp add: nth_append)
  then have "response_size bs = response_size (build_response a regs)" by (simp add: response_size_def)
  with size have "response_size bs = 25" by simp
  with n size c show b: "bs = build_response a regs" by simp
  with c p' show "\<exists>p'. ms_serial port' = Some p' \<and> incoming p' = rest" by simp
  show "\<exists>res. ParseResponse bs a 10 el ts = Inr (True, res) \<and> gd_valid res \<and> gd_concentration_register res = regs ! 1"
    by (simp add: b ParseResponse_build [OF assms(3)] fill_registers_def Let_def)
next
  assume c: "read_progress L incoming \<and> ms_initialized port \<and> lib_isOpen L p \<and> timely d 25 obs"
  show "\<exists>obs' port'. ReadResponse L d obs port = Some (build_response a regs, None, obs', port')"
    using ReadResponse_live [OF assms(1) _ assms(2) _ _ assms(4), of d obs] c build_response_size [OF assms(3), of a]
    by (auto simp: kMaxResponseSize_def)
qed

lemma recording_lib_read_law: "read_law recording_lib rp_incoming" "read_progress recording_lib rp_incoming"
  by (simp_all add: read_law_def read_progress_def recording_lib_def)

definition demo_port :: "byte list \<Rightarrow> recording_port MySerial" where
  "demo_port bs = MySerial_init\<lparr>ms_serial := Some \<lparr>rp_open = True, rp_sent = [], rp_incoming = bs\<rparr>, ms_initialized := True\<rparr>"

definition demo_obs :: "bool \<Rightarrow> obs" where
  "demo_obs b = \<lparr>ob_stop = b, ob_now = 5, ob_timestamp = []\<rparr>"

theorem gas_reads_the_answer_witness:
  "\<exists>obs' port'. ReadResponse recording_lib 9 (replicate 25 (demo_obs False))
      (demo_port (build_response 1 (replicate 10 7) @ [1, 2])) = Some (build_response 1 (replicate 10 7), None, obs', port')"
proof -
  have t: "timely 9 n (replicate n (demo_obs False))" for n by (induction n) (simp_all add: demo_obs_def)
  show ?thesis
    using gas_reads_the_answer [OF recording_lib_read_law(1), of "demo_port (build_response 1 (replicate 10 7) @ [1, 2])" _
        "replicate 10 7" 1 "[1, 2]" 9 "replicate 25 (demo_obs False)" 0 "[]"]
      recording_lib_read_law(2) t [of 25] by (simp add: demo_port_def recording_lib_def)
qed

theorem worker_loop_returns_witness:
  "\<exists>s'. WorkerLoop recording_lib (demo_obs False # replicate 8 (demo_obs True)) 0 GasDetectorPoll_init = Some s' \<and>
     gp_config s' = GasDetectorPollConfig_init"
proof -
  have "gc_register_count (gp_config (GasDetectorPoll_init :: recording_port GasDetectorPoll)) = 10"
    by (simp add: GasDetectorPoll_init_def GasDetectorPollConfig_init_def)
  moreover have "sticky (demo_obs False # replicate n (demo_obs True))" "stops (replicate n (demo_obs True)) = n" for n
    by (induction n) (simp_all add: demo_obs_def)
  ultimately show ?thesis
    using worker_loop_returns [of "GasDetectorPoll_init :: recording_port GasDetectorPoll"
        "demo_obs False # replicate 8 (demo_obs True)" recording_lib 0]
    by (simp add: GasDetectorPoll_init_def del: WorkerLoop.simps) (simp add: demo_obs_def del: WorkerLoop.simps)
qed

section \<open>The poll object\<close>

text \<open>C38: In every state the calls, the passes and queries of the worker and its exceptions can reach, each request
  counted since the last \<open>Init\<close> is counted as one success or one invalid answer and has taken one sequence number, except
  those whose exchange an exception has ended, which are counted nowhere else; the worker and the running flag
  exist only on an initialised and enabled object, the state is \<open>Running\<close> exactly when the flag is set,
  communication counts as good only while running, and an initialised object has a well-formed
  configuration and one result for each configured address, in order. A query is one step.\<close>

theorem gas_poll_invariant:
  assumes "(gas_step L)\<^sup>*\<^sup>* (0, GasDetectorPoll_init) (lost, s)"
  shows "gp_request_count s = gp_success_count s + gp_invalid_frame_count s + lost \<and>
    gp_next_sequence s = gp_success_count s + gp_invalid_frame_count s + 1 \<and>
    (gp_worker s \<or> gp_running s \<longrightarrow> gp_initialized s \<and> gc_enabled (gp_config s)) \<and>
    gp_running s = (gp_state s = PollRunning) \<and> (gp_communication_ok s \<longrightarrow> gp_running s) \<and>
    (gp_initialized s \<longrightarrow> gas_config_ok (gp_config s) \<and>
       map gd_address (GetLatestResults s) = map uint (gc_addresses (gp_config s)))"
  using gp.reachable_inv [OF refl assms] unfolding gas_inv_def GetLatestResults_def fst_conv snd_conv by blast

theorem gas_poll_invariant_witness:
  "gp_state (snd (gp_Start recording_lib True GasDetectorPoll_init)) = PollError \<and>
   \<not> gp_running (snd (gp_Start recording_lib True GasDetectorPoll_init))"
proof -
  have "(gas_step recording_lib)\<^sup>*\<^sup>* (0, GasDetectorPoll_init) (0, snd (gp_Start recording_lib True GasDetectorPoll_init))"
    by (blast intro: gas_step.start)
  from gas_poll_invariant [OF this] show ?thesis by (simp add: gp_Start_def GasDetectorPoll_init_def)
qed

text \<open>A worker that died of an exception leaves its thread object behind: \<open>Start\<close> then answers true and
  starts nothing.\<close>

lemma start_after_worker_exception:
  "gp_worker s \<Longrightarrow> gp_initialized s \<Longrightarrow> gc_enabled (gp_config s) \<Longrightarrow>
     gp_Start L created (worker_exception s) = (True, worker_exception s) \<and> \<not> gp_IsRunning (worker_exception s)"
  by (simp add: gp_Start_def worker_exception_def gp_IsRunning_def)

text \<open>A response that broke off after five bytes is counted as a CRC error, although its CRC is never
  computed.\<close>

lemma broken_off_counts_as_crc_error:
  "5 \<le> length response \<Longrightarrow>
     gp_crc_error_count (StoreResult (MakeFailureResult a el ReadFailed False ts) response s) = gp_crc_error_count s + 1"
  by (simp add: StoreResult_def MakeFailureResult_def GasDetectorData_init_def Let_def)

text \<open>Discarding old input has no deadline: on a line that never falls silent it ends only with the stop flag.\<close>

definition flooded_lib :: "recording_port serial_lib" where
  "flooded_lib = recording_lib\<lparr>lib_available := (\<lambda>p. (Inr 1, p)), lib_read := (\<lambda>n p. (Inr (replicate n 0), p))\<rparr>"

lemma discard_has_no_deadline:
  "stops obs = 0 \<Longrightarrow> ms_initialized port \<Longrightarrow> ms_serial port = Some p \<Longrightarrow> rp_open p \<Longrightarrow>
     DiscardInputBuffer flooded_lib obs port = None"
proof (induction obs arbitrary: port)
  case (Cons ob obs)
  then show ?case
    by (auto simp: ms_Available_def ms_ReadBytes_def with_port_def open_guard_def lib_result_def flooded_lib_def
        recording_lib_def split: if_splits)
qed simp

end
