(* ===== verification/TaskData.thy ===== *)
theory TaskData
  imports Json
begin

text \<open>
  \<open>src/util/my_data\<close>: the records that travel between the parts of an edge, commands, tasks, results and
  status snapshots, with their JSON forms. An \<open>enum class\<close> is an \<open>int\<close>: a cast from a number that names no
  enumerator gives the last constructor of its datatype. The order of the fields of a JSON object
  carries no meaning; the text forms for the log are left out.
\<close>

type_synonym i64 = "64 word"

section \<open>Optional fields\<close>

definition GetStringOr :: "json \<Rightarrow> string \<Rightarrow> string \<Rightarrow> string" where
  "GetStringOr j key def = (case field j key of Some (JString s) \<Rightarrow> s | _ \<Rightarrow> def)"

text \<open>\<open>get<int>()\<close> and \<open>get<int64_t>()\<close> convert with a \<open>static_cast\<close>, which wraps.\<close>

definition GetIntOr :: "json \<Rightarrow> string \<Rightarrow> i32 \<Rightarrow> i32" where
  "GetIntOr j key def =
     (case field j key of Some (JInteger i) \<Rightarrow> word_of_int i | Some (JUnsigned n) \<Rightarrow> of_nat n | _ \<Rightarrow> def)"

definition GetInt64Or :: "json \<Rightarrow> string \<Rightarrow> i64 \<Rightarrow> i64" where
  "GetInt64Or j key def =
     (case field j key of Some (JInteger i) \<Rightarrow> word_of_int i | Some (JUnsigned n) \<Rightarrow> of_nat n | _ \<Rightarrow> def)"

text \<open>\<open>auto it = j.find(key); if (it != j.end() && it->is_object())\<close>.\<close>

definition object_or :: "json \<Rightarrow> string \<Rightarrow> json \<Rightarrow> json" where
  "object_or j key def = (case field j key of Some v \<Rightarrow> if is_object v then v else def | None \<Rightarrow> def)"

definition empty_object :: json where
  "empty_object = JObject []"

definition jint :: "'a::len word \<Rightarrow> json" where
  "jint v = JInteger (sint v)"

section \<open>Results\<close>

datatype ErrorCode =
    Ok | InvalidCommand | UnknownDevice | DeviceOffline | Timeout | DriverError | EStop | InternalError
  | OtherErrorCode i32

fun ErrorCode_int :: "ErrorCode \<Rightarrow> i32" where
  "ErrorCode_int Ok = 0"
| "ErrorCode_int InvalidCommand = 1"
| "ErrorCode_int UnknownDevice = 2"
| "ErrorCode_int DeviceOffline = 3"
| "ErrorCode_int Timeout = 4"
| "ErrorCode_int DriverError = 5"
| "ErrorCode_int EStop = 6"
| "ErrorCode_int InternalError = 7"
| "ErrorCode_int (OtherErrorCode v) = v"

definition ErrorCode_cast :: "i32 \<Rightarrow> ErrorCode" where
  "ErrorCode_cast v =
     (if v = 0 then Ok else if v = 1 then InvalidCommand else if v = 2 then UnknownDevice
      else if v = 3 then DeviceOffline else if v = 4 then Timeout else if v = 5 then DriverError
      else if v = 6 then EStop else if v = 7 then InternalError else OtherErrorCode v)"

fun ErrorCode_ToString :: "ErrorCode \<Rightarrow> string" where
  "ErrorCode_ToString Ok = ''Ok''"
| "ErrorCode_ToString InvalidCommand = ''InvalidCommand''"
| "ErrorCode_ToString UnknownDevice = ''UnknownDevice''"
| "ErrorCode_ToString DeviceOffline = ''DeviceOffline''"
| "ErrorCode_ToString Timeout = ''Timeout''"
| "ErrorCode_ToString DriverError = ''DriverError''"
| "ErrorCode_ToString EStop = ''EStop''"
| "ErrorCode_ToString InternalError = ''InternalError''"
| "ErrorCode_ToString (OtherErrorCode v) = ''UnknownErrorCode''"

record TaskResult =
  tr_code :: ErrorCode
  tr_message :: string
  tr_started_at_ms :: i64
  tr_finished_at_ms :: i64
  tr_output :: json

definition TaskResult_init :: TaskResult where
  "TaskResult_init = \<lparr>tr_code = Ok, tr_message = '''', tr_started_at_ms = 0, tr_finished_at_ms = 0,
     tr_output = empty_object\<rparr>"

definition TaskResult_toJson :: "TaskResult \<Rightarrow> json" where
  "TaskResult_toJson r = JObject [(''code'', jint (ErrorCode_int (tr_code r))), (''message'', JString (tr_message r)),
     (''started_at_ms'', jint (tr_started_at_ms r)), (''finished_at_ms'', jint (tr_finished_at_ms r)),
     (''output'', tr_output r)]"

definition TaskResult_fromJson :: "json \<Rightarrow> TaskResult" where
  "TaskResult_fromJson j = \<lparr>tr_code = ErrorCode_cast (GetIntOr j ''code'' 0), tr_message = GetStringOr j ''message'' '''',
     tr_started_at_ms = GetInt64Or j ''started_at_ms'' 0, tr_finished_at_ms = GetInt64Or j ''finished_at_ms'' 0,
     tr_output = object_or j ''output'' empty_object\<rparr>"

section \<open>Tasks and commands\<close>

datatype TaskState = Pending | Running | Succeeded | Failed | Cancelled | OtherTaskState i32

fun TaskState_int :: "TaskState \<Rightarrow> i32" where
  "TaskState_int Pending = 0"
| "TaskState_int Running = 1"
| "TaskState_int Succeeded = 2"
| "TaskState_int Failed = 3"
| "TaskState_int Cancelled = 4"
| "TaskState_int (OtherTaskState v) = v"

definition TaskState_cast :: "i32 \<Rightarrow> TaskState" where
  "TaskState_cast v =
     (if v = 0 then Pending else if v = 1 then Running else if v = 2 then Succeeded
      else if v = 3 then Failed else if v = 4 then Cancelled else OtherTaskState v)"

record Task =
  t_task_id :: string
  t_command_id :: string
  t_trace_id :: string
  t_span_id :: string
  t_edge_id :: string
  t_device_id :: string
  t_capability :: string
  t_action :: string
  t_params :: json
  t_idempotency_key :: string
  t_dedup_window_ms :: i64
  t_priority :: i32
  t_created_at_ms :: i64
  t_deadline_at_ms :: i64
  t_policy :: json
  t_state :: TaskState
  t_result :: TaskResult

definition Task_init :: Task where
  "Task_init = \<lparr>t_task_id = '''', t_command_id = '''', t_trace_id = '''', t_span_id = '''', t_edge_id = '''',
     t_device_id = '''', t_capability = '''', t_action = '''', t_params = empty_object, t_idempotency_key = '''',
     t_dedup_window_ms = 0, t_priority = 0, t_created_at_ms = 0, t_deadline_at_ms = 0, t_policy = empty_object,
     t_state = Pending, t_result = TaskResult_init\<rparr>"

definition Task_toJson :: "Task \<Rightarrow> json" where
  "Task_toJson t = JObject [(''task_id'', JString (t_task_id t)), (''command_id'', JString (t_command_id t)),
     (''trace_id'', JString (t_trace_id t)), (''span_id'', JString (t_span_id t)), (''edge_id'', JString (t_edge_id t)),
     (''device_id'', JString (t_device_id t)), (''capability'', JString (t_capability t)),
     (''action'', JString (t_action t)), (''params'', t_params t), (''idempotency_key'', JString (t_idempotency_key t)),
     (''dedup_window_ms'', jint (t_dedup_window_ms t)), (''priority'', jint (t_priority t)),
     (''created_at_ms'', jint (t_created_at_ms t)), (''deadline_at_ms'', jint (t_deadline_at_ms t)),
     (''policy'', t_policy t), (''state'', jint (TaskState_int (t_state t))), (''result'', TaskResult_toJson (t_result t))]"

definition Task_fromJson :: "json \<Rightarrow> Task" where
  "Task_fromJson j = \<lparr>t_task_id = GetStringOr j ''task_id'' '''', t_command_id = GetStringOr j ''command_id'' '''',
     t_trace_id = GetStringOr j ''trace_id'' '''', t_span_id = GetStringOr j ''span_id'' '''',
     t_edge_id = GetStringOr j ''edge_id'' '''', t_device_id = GetStringOr j ''device_id'' '''',
     t_capability = GetStringOr j ''capability'' '''', t_action = GetStringOr j ''action'' '''',
     t_params = object_or j ''params'' empty_object, t_idempotency_key = GetStringOr j ''idempotency_key'' '''',
     t_dedup_window_ms = GetInt64Or j ''dedup_window_ms'' 0, t_priority = GetIntOr j ''priority'' 0,
     t_created_at_ms = GetInt64Or j ''created_at_ms'' 0, t_deadline_at_ms = GetInt64Or j ''deadline_at_ms'' 0,
     t_policy = object_or j ''policy'' empty_object, t_state = TaskState_cast (GetIntOr j ''state'' (TaskState_int Pending)),
     t_result = (case field j ''result'' of
       Some r \<Rightarrow> if is_object r then TaskResult_fromJson r else TaskResult_init | None \<Rightarrow> TaskResult_init)\<rparr>"

record RawCommand =
  rc_command_id :: string
  rc_source :: string
  rc_payload :: json
  rc_received_at_ms :: i64
  rc_idempotency_key :: string
  rc_dedup_window_ms :: i64

definition RawCommand_toJson :: "RawCommand \<Rightarrow> json" where
  "RawCommand_toJson c = JObject [(''command_id'', JString (rc_command_id c)), (''source'', JString (rc_source c)),
     (''received_at_ms'', jint (rc_received_at_ms c)), (''idempotency_key'', JString (rc_idempotency_key c)),
     (''dedup_window_ms'', jint (rc_dedup_window_ms c)), (''payload'', rc_payload c)]"

definition RawCommand_fromJson :: "json \<Rightarrow> RawCommand" where
  "RawCommand_fromJson j = \<lparr>rc_command_id = GetStringOr j ''command_id'' '''', rc_source = GetStringOr j ''source'' '''',
     rc_payload = object_or j ''payload'' empty_object, rc_received_at_ms = GetInt64Or j ''received_at_ms'' 0,
     rc_idempotency_key = GetStringOr j ''idempotency_key'' '''', rc_dedup_window_ms = GetInt64Or j ''dedup_window_ms'' 0\<rparr>"

section \<open>Status\<close>

datatype DeviceConnState = ConnUnknown | Online | Offline | OtherConnState i32

fun DeviceConnState_int :: "DeviceConnState \<Rightarrow> i32" where
  "DeviceConnState_int ConnUnknown = 0"
| "DeviceConnState_int Online = 1"
| "DeviceConnState_int Offline = 2"
| "DeviceConnState_int (OtherConnState v) = v"

definition DeviceConnState_cast :: "i32 \<Rightarrow> DeviceConnState" where
  "DeviceConnState_cast v =
     (if v = 0 then ConnUnknown else if v = 1 then Online else if v = 2 then Offline else OtherConnState v)"

datatype DeviceWorkState = Idle | Busy | Faulted | OtherWorkState i32

fun DeviceWorkState_int :: "DeviceWorkState \<Rightarrow> i32" where
  "DeviceWorkState_int Idle = 0"
| "DeviceWorkState_int Busy = 1"
| "DeviceWorkState_int Faulted = 2"
| "DeviceWorkState_int (OtherWorkState v) = v"

definition DeviceWorkState_cast :: "i32 \<Rightarrow> DeviceWorkState" where
  "DeviceWorkState_cast v =
     (if v = 0 then Idle else if v = 1 then Busy else if v = 2 then Faulted else OtherWorkState v)"

datatype EdgeRunState = EdgeInitializing | EdgeRunning | EdgeEStop | EdgeDegraded | OtherRunState i32

fun EdgeRunState_int :: "EdgeRunState \<Rightarrow> i32" where
  "EdgeRunState_int EdgeInitializing = 0"
| "EdgeRunState_int EdgeRunning = 1"
| "EdgeRunState_int EdgeEStop = 2"
| "EdgeRunState_int EdgeDegraded = 3"
| "EdgeRunState_int (OtherRunState v) = v"

definition EdgeRunState_cast :: "i32 \<Rightarrow> EdgeRunState" where
  "EdgeRunState_cast v =
     (if v = 0 then EdgeInitializing else if v = 1 then EdgeRunning else if v = 2 then EdgeEStop
      else if v = 3 then EdgeDegraded else OtherRunState v)"

record DeviceStatus =
  ds_device_id :: string
  ds_conn_state :: DeviceConnState
  ds_work_state :: DeviceWorkState
  ds_running_task_id :: string
  ds_last_task_at_ms :: i64
  ds_last_seen_at_ms :: i64
  ds_last_error :: string
  ds_queue_depth :: i64

definition DeviceStatus_init :: DeviceStatus where
  "DeviceStatus_init = \<lparr>ds_device_id = '''', ds_conn_state = ConnUnknown, ds_work_state = Idle, ds_running_task_id = '''',
     ds_last_task_at_ms = 0, ds_last_seen_at_ms = 0, ds_last_error = '''', ds_queue_depth = 0\<rparr>"

definition DeviceStatus_toJson :: "DeviceStatus \<Rightarrow> json" where
  "DeviceStatus_toJson s = JObject [(''device_id'', JString (ds_device_id s)),
     (''conn_state'', jint (DeviceConnState_int (ds_conn_state s))),
     (''work_state'', jint (DeviceWorkState_int (ds_work_state s))),
     (''running_task_id'', JString (ds_running_task_id s)), (''last_task_at_ms'', jint (ds_last_task_at_ms s)),
     (''last_seen_at_ms'', jint (ds_last_seen_at_ms s)), (''last_error'', JString (ds_last_error s)),
     (''queue_depth'', jint (ds_queue_depth s))]"

definition DeviceStatus_fromJson :: "json \<Rightarrow> DeviceStatus" where
  "DeviceStatus_fromJson j = \<lparr>ds_device_id = GetStringOr j ''device_id'' '''',
     ds_conn_state = DeviceConnState_cast (GetIntOr j ''conn_state'' 0),
     ds_work_state = DeviceWorkState_cast (GetIntOr j ''work_state'' 0),
     ds_running_task_id = GetStringOr j ''running_task_id'' '''', ds_last_task_at_ms = GetInt64Or j ''last_task_at_ms'' 0,
     ds_last_seen_at_ms = GetInt64Or j ''last_seen_at_ms'' 0, ds_last_error = GetStringOr j ''last_error'' '''',
     ds_queue_depth = GetInt64Or j ''queue_depth'' 0\<rparr>"

record EdgeStatus =
  es_edge_id :: string
  es_run_state :: EdgeRunState
  es_boot_at_ms :: i64
  es_last_heartbeat_at_ms :: i64
  es_estop_active :: bool
  es_estop_reason :: string
  es_devices :: "(string \<times> DeviceStatus) list"
  es_tasks_pending_total :: i64
  es_tasks_running_total :: i64
  es_version :: string

definition EdgeStatus_toJson :: "EdgeStatus \<Rightarrow> json" where
  "EdgeStatus_toJson s = JObject [(''edge_id'', JString (es_edge_id s)),
     (''run_state'', jint (EdgeRunState_int (es_run_state s))), (''boot_at_ms'', jint (es_boot_at_ms s)),
     (''last_heartbeat_at_ms'', jint (es_last_heartbeat_at_ms s)), (''estop_active'', JBool (es_estop_active s)),
     (''estop_reason'', JString (es_estop_reason s)), (''tasks_pending_total'', jint (es_tasks_pending_total s)),
     (''tasks_running_total'', jint (es_tasks_running_total s)), (''version'', JString (es_version s)),
     (''devices'', JObject (map (\<lambda>(k, st). (k, DeviceStatus_toJson st)) (es_devices s)))]"

definition devices_fromJson :: "json option \<Rightarrow> (string \<times> DeviceStatus) list" where
  "devices_fromJson v =
     (case v of
        Some (JObject fs) \<Rightarrow> map (\<lambda>(k, d). (k, DeviceStatus_fromJson d)) (filter (\<lambda>(k, d). is_object d) fs)
      | _ \<Rightarrow> [])"

definition EdgeStatus_fromJson :: "json \<Rightarrow> EdgeStatus" where
  "EdgeStatus_fromJson j = \<lparr>es_edge_id = GetStringOr j ''edge_id'' '''',
     es_run_state = EdgeRunState_cast (GetIntOr j ''run_state'' 0), es_boot_at_ms = GetInt64Or j ''boot_at_ms'' 0,
     es_last_heartbeat_at_ms = GetInt64Or j ''last_heartbeat_at_ms'' 0,
     es_estop_active = (case field j ''estop_active'' of Some (JBool b) \<Rightarrow> b | _ \<Rightarrow> False),
     es_estop_reason = GetStringOr j ''estop_reason'' '''', es_devices = devices_fromJson (field j ''devices''),
     es_tasks_pending_total = GetInt64Or j ''tasks_pending_total'' 0,
     es_tasks_running_total = GetInt64Or j ''tasks_running_total'' 0, es_version = GetStringOr j ''version'' ''0.1.0''\<rparr>"

section \<open>Identifiers\<close>

text \<open>The clock and the static counter are arguments; the counter afterwards is the second result.\<close>

definition GenerateId :: "string \<Rightarrow> i64 \<Rightarrow> u64 \<Rightarrow> string \<times> u64" where
  "GenerateId prefix now seq =
     (prefix @ ''-'' @ int_to_string (sint now) @ ''-'' @ nat_to_string (unat seq), seq + 1)"

section \<open>Round trips\<close>

text \<open>A record with a JSON form: what is read is well formed, and a well-formed record is read back.\<close>

locale json_record =
  fixes writej :: "'a \<Rightarrow> json" and readj :: "json \<Rightarrow> 'a" and wf :: "'a \<Rightarrow> bool"
  assumes wf_from: "wf (readj j)"
    and from_to: "wf t \<Longrightarrow> readj (writej t) = t"
begin

lemma reread: "readj (writej (readj j)) = readj j"
  using wf_from by (rule from_to)

lemma to_inj: "wf t \<Longrightarrow> wf u \<Longrightarrow> writej t = writej u \<Longrightarrow> t = u"
  by (metis from_to)

end

lemma enum_cast_int:
  "ErrorCode_int (ErrorCode_cast v) = v" "TaskState_int (TaskState_cast v) = v"
  "DeviceConnState_int (DeviceConnState_cast v) = v" "DeviceWorkState_int (DeviceWorkState_cast v) = v"
  "EdgeRunState_int (EdgeRunState_cast v) = v"
  by (simp_all add: ErrorCode_cast_def TaskState_cast_def DeviceConnState_cast_def DeviceWorkState_cast_def
      EdgeRunState_cast_def)

lemma GetIntOr_jint [simp]:
  "field j key = Some (jint (v :: i32)) \<Longrightarrow> GetIntOr j key d = v"
  "field j key = Some (jint (w :: i64)) \<Longrightarrow> GetInt64Or j key e = w"
  by (simp_all add: GetIntOr_def GetInt64Or_def jint_def)

lemma object_or_object: "is_object d \<Longrightarrow> is_object (object_or j key d)"
  by (simp add: object_or_def split: option.split)

text \<open>No enumerator is hidden in the constructor for unnamed numbers, and the JSON members are objects.\<close>

definition TaskResult_wf :: "TaskResult \<Rightarrow> bool" where
  "TaskResult_wf r \<longleftrightarrow> ErrorCode_cast (ErrorCode_int (tr_code r)) = tr_code r \<and> is_object (tr_output r)"

definition Task_wf :: "Task \<Rightarrow> bool" where
  "Task_wf t \<longleftrightarrow> TaskState_cast (TaskState_int (t_state t)) = t_state t \<and> is_object (t_params t) \<and>
     is_object (t_policy t) \<and> TaskResult_wf (t_result t)"

definition RawCommand_wf :: "RawCommand \<Rightarrow> bool" where
  "RawCommand_wf c \<longleftrightarrow> is_object (rc_payload c)"

definition DeviceStatus_wf :: "DeviceStatus \<Rightarrow> bool" where
  "DeviceStatus_wf s \<longleftrightarrow> DeviceConnState_cast (DeviceConnState_int (ds_conn_state s)) = ds_conn_state s \<and>
     DeviceWorkState_cast (DeviceWorkState_int (ds_work_state s)) = ds_work_state s"

definition EdgeStatus_wf :: "EdgeStatus \<Rightarrow> bool" where
  "EdgeStatus_wf s \<longleftrightarrow> EdgeRunState_cast (EdgeRunState_int (es_run_state s)) = es_run_state s \<and>
     list_all (\<lambda>(k, d). DeviceStatus_wf d) (es_devices s)"

lemmas json_record_simps = GetStringOr_def object_or_def empty_object_def enum_cast_int

interpretation result_json: json_record TaskResult_toJson TaskResult_fromJson TaskResult_wf
proof
  show "TaskResult_wf (TaskResult_fromJson j)" for j
    by (simp add: TaskResult_wf_def TaskResult_fromJson_def enum_cast_int object_or_object empty_object_def)
  show "TaskResult_fromJson (TaskResult_toJson t) = t" if "TaskResult_wf t" for t
    using that by (simp add: TaskResult_wf_def TaskResult_fromJson_def TaskResult_toJson_def json_record_simps)
qed

lemma TaskResult_wf_init: "TaskResult_wf TaskResult_init"
  by (simp add: TaskResult_wf_def TaskResult_init_def empty_object_def ErrorCode_cast_def)

interpretation task_json: json_record Task_toJson Task_fromJson Task_wf
proof
  show "Task_wf (Task_fromJson j)" for j
    using result_json.wf_from TaskResult_wf_init
    by (simp add: Task_wf_def Task_fromJson_def enum_cast_int object_or_object empty_object_def split: option.split)
  show "Task_fromJson (Task_toJson t) = t" if "Task_wf t" for t
  proof -
    have "is_object (TaskResult_toJson (t_result t))" by (simp add: TaskResult_toJson_def)
    then show ?thesis
      using that result_json.from_to by (simp add: Task_wf_def Task_fromJson_def Task_toJson_def json_record_simps)
  qed
qed

interpretation command_json: json_record RawCommand_toJson RawCommand_fromJson RawCommand_wf
  by unfold_locales (simp_all add: RawCommand_wf_def RawCommand_fromJson_def RawCommand_toJson_def object_or_object
      json_record_simps split: option.split)

interpretation device_json: json_record DeviceStatus_toJson DeviceStatus_fromJson DeviceStatus_wf
  by unfold_locales (simp_all add: DeviceStatus_wf_def DeviceStatus_fromJson_def DeviceStatus_toJson_def json_record_simps)

lemma devices_fromJson_wf: "list_all (\<lambda>(k, d). DeviceStatus_wf d) (devices_fromJson v)"
  by (auto simp: devices_fromJson_def list_all_iff device_json.wf_from split: option.splits json.splits)

lemma devices_fromJson_map:
  "list_all (\<lambda>(k, d). DeviceStatus_wf d) ds \<Longrightarrow>
     devices_fromJson (Some (JObject (map (\<lambda>(k, st). (k, DeviceStatus_toJson st)) ds))) = ds"
  by (induction ds) (auto simp: devices_fromJson_def device_json.from_to, auto simp: DeviceStatus_toJson_def)

interpretation edge_json: json_record EdgeStatus_toJson EdgeStatus_fromJson EdgeStatus_wf
proof
  show "EdgeStatus_wf (EdgeStatus_fromJson j)" for j
    by (simp add: EdgeStatus_wf_def EdgeStatus_fromJson_def enum_cast_int devices_fromJson_wf)
  show "EdgeStatus_fromJson (EdgeStatus_toJson t) = t" if "EdgeStatus_wf t" for t
    using that devices_fromJson_map
    by (simp add: EdgeStatus_wf_def EdgeStatus_fromJson_def EdgeStatus_toJson_def json_record_simps)
qed

text \<open>The JSON forms of commands, tasks and status snapshots lose nothing: a record whose members are
  well formed is read back from its JSON form, and whatever JSON value is read, the record is well
  formed, so that writing and reading it again changes nothing.\<close>

theorem data_json_roundtrip:
  assumes "Task_wf t" and "RawCommand_wf c" and "EdgeStatus_wf e"
  shows "Task_fromJson (Task_toJson t) = t \<and> RawCommand_fromJson (RawCommand_toJson c) = c \<and>
    EdgeStatus_fromJson (EdgeStatus_toJson e) = e \<and>
    Task_wf (Task_fromJson j) \<and> RawCommand_wf (RawCommand_fromJson j) \<and> EdgeStatus_wf (EdgeStatus_fromJson j)"
  using task_json.from_to [OF assms(1)] command_json.from_to [OF assms(2)] edge_json.from_to [OF assms(3)]
    task_json.wf_from command_json.wf_from edge_json.wf_from by simp

theorem data_json_roundtrip_witness:
  "Task_fromJson (Task_toJson (Task_fromJson (JObject [(''priority'', JInteger 3)]))) =
     Task_fromJson (JObject [(''priority'', JInteger 3)])"
  using data_json_roundtrip [OF task_json.wf_from command_json.wf_from edge_json.wf_from,
      of "JObject [(''priority'', JInteger 3)]" JNull JNull JNull] by blast

section \<open>Identifiers are unique\<close>

lemma digits_no_dash: "list_all cisdigit s \<Longrightarrow> CHR ''-'' \<notin> set s"
  by (induction s) (auto simp: cisdigit_def Let_def)

lemma last_part_unique: "xs @ d # ys = us @ d # vs \<Longrightarrow> d \<notin> set ys \<Longrightarrow> d \<notin> set vs \<Longrightarrow> ys = vs"
  by (auto simp: append_eq_append_conv2 append_eq_Cons_conv Cons_eq_append_conv)

lemma nat_to_string_inj: "nat_to_string m = nat_to_string n \<Longrightarrow> m = n"
  using decimal_nat_to_string by metis

text \<open>Identifiers generated from different values of the counter differ, whatever their prefixes and
  times are; so the identifiers of a run are distinct until the 64-bit counter wraps.\<close>

theorem generated_ids_unique:
  assumes "seq \<noteq> seq'"
  shows "fst (GenerateId prefix now seq) \<noteq> fst (GenerateId prefix' now' seq') \<and>
    snd (GenerateId prefix now seq) = seq + 1"
proof -
  have "nat_to_string (unat seq) = nat_to_string (unat seq')"
    if "fst (GenerateId prefix now seq) = fst (GenerateId prefix' now' seq')"
    using that last_part_unique [of "prefix @ ''-'' @ int_to_string (sint now)" "CHR ''-''" "nat_to_string (unat seq)"
        "prefix' @ ''-'' @ int_to_string (sint now')" "nat_to_string (unat seq')"]
      digits_no_dash nat_to_string_digits by (simp add: GenerateId_def)
  with assms nat_to_string_inj word_unat_eq_iff have "fst (GenerateId prefix now seq) \<noteq> fst (GenerateId prefix' now' seq')"
    by metis
  then show ?thesis by (simp add: GenerateId_def)
qed

theorem generated_ids_unique_witness:
  "fst (GenerateId ''task'' 7 1) \<noteq> fst (GenerateId ''task'' 7 2)"
  using generated_ids_unique [of 1 2 "''task''" 7 "''task''" 7] by simp

end
