(* ===== verification/Control.thy ===== *)
theory Control
  imports TaskData
begin

text \<open>
  \<open>src/util/my_control\<close>: the command normalisers, which turn a raw command into a task, the controls,
  which execute a task, and the factory of both. The clock readings are the function \<open>now\<close>, numbered in the
  order of the calls; the measured values of the simulated sensors, random in the code, are an
  argument. The simulated delays have no effect and are not kept.
\<close>

section \<open>Reading a configuration\<close>

text \<open>\<open>cfg.value(key, default)\<close> throws on a value that is no object and on a member of another type. A
  number is asked for only to set a delay or a parameter of the noise; it is checked, not kept. A
  boolean passes for an \<open>int\<close>, not for a \<open>double\<close>.\<close>

datatype json_exn = NotAnObject | WrongType string

definition value_string :: "json \<Rightarrow> string \<Rightarrow> string \<Rightarrow> json_exn + string" where
  "value_string cfg key def =
     (if \<not> is_object cfg then Inl NotAnObject
      else case field cfg key of
        None \<Rightarrow> Inr def
      | Some (JString s) \<Rightarrow> Inr s
      | Some _ \<Rightarrow> Inl (WrongType key))"

definition value_bool :: "json \<Rightarrow> string \<Rightarrow> bool \<Rightarrow> json_exn + bool" where
  "value_bool cfg key def =
     (if \<not> is_object cfg then Inl NotAnObject
      else case field cfg key of
        None \<Rightarrow> Inr def
      | Some (JBool b) \<Rightarrow> Inr b
      | Some _ \<Rightarrow> Inl (WrongType key))"

fun is_number :: "json \<Rightarrow> bool" where
  "is_number (JUnsigned n) = True"
| "is_number (JInteger i) = True"
| "is_number (JFloat t) = True"
| "is_number _ = False"

fun is_bool :: "json \<Rightarrow> bool" where
  "is_bool (JBool b) = True"
| "is_bool _ = False"

definition check_int :: "json \<Rightarrow> string \<Rightarrow> json_exn + unit" where
  "check_int cfg key =
     (if \<not> is_object cfg then Inl NotAnObject
      else case field cfg key of
        None \<Rightarrow> Inr ()
      | Some v \<Rightarrow> if is_number v \<or> is_bool v then Inr () else Inl (WrongType key))"

definition check_double :: "json \<Rightarrow> string \<Rightarrow> json_exn + unit" where
  "check_double cfg key =
     (if \<not> is_object cfg then Inl NotAnObject
      else case field cfg key of
        None \<Rightarrow> Inr ()
      | Some v \<Rightarrow> if is_number v then Inr () else Inl (WrongType key))"

fun check_doubles :: "json \<Rightarrow> string list \<Rightarrow> json_exn + unit" where
  "check_doubles cfg [] = Inr ()"
| "check_doubles cfg (k # ks) = ebind (check_double cfg k) (\<lambda>_. check_doubles cfg ks)"

section \<open>Normalisers\<close>

datatype normalizer = UUVCommandNormalizer | DepthSensorCommandNormalizer | FlowSensorCommandNormalizer | WindSensorCommandNormalizer

text \<open>The part all normalisers share once the fields are checked: the optional parameters, identifiers, times.\<close>

definition fill_task :: "RawCommand \<Rightarrow> string \<Rightarrow> string \<Rightarrow> string \<Rightarrow> string \<Rightarrow> (nat \<Rightarrow> i64) \<Rightarrow> u64 \<Rightarrow> Task \<times> u64" where
  "fill_task inp edge_id device_id capability action now seq =
     (case (if rc_command_id inp \<noteq> [] then (rc_command_id inp, seq) else GenerateId ''cmd'' (now 0) seq) of
        (command_id, seq) \<Rightarrow>
      (case GenerateId ''task'' (now 1) seq of (task_id, seq) \<Rightarrow>
        (Task_init\<lparr>t_edge_id := edge_id, t_device_id := device_id, t_capability := capability, t_action := action,
           t_params := object_or (rc_payload inp) ''params'' empty_object, t_command_id := command_id,
           t_task_id := task_id, t_created_at_ms := now 2,
           t_idempotency_key := (if rc_idempotency_key inp \<noteq> [] then rc_idempotency_key inp else command_id),
           t_dedup_window_ms := rc_dedup_window_ms inp, t_state := Pending\<rparr>, seq)))"

definition UUV_Normalize :: "RawCommand \<Rightarrow> string \<Rightarrow> (nat \<Rightarrow> i64) \<Rightarrow> u64 \<Rightarrow> Task option \<times> u64" where
  "UUV_Normalize inp edge_id now seq =
     (if \<not> is_object (rc_payload inp) then (None, seq)
      else
        let p = rc_payload inp; device_id = GetStringOr p ''device_id'' ''''; capability = GetStringOr p ''capability'' '''';
            action = GetStringOr p ''action'' ''''
        in if device_id = [] \<or> capability = [] \<or> action = [] then (None, seq)
           else (case fill_task inp edge_id device_id capability action now seq of (t, seq) \<Rightarrow> (Some t, seq)))"

text \<open>The three sensors differ in their capability only.\<close>

definition sensor_Normalize :: "string \<Rightarrow> RawCommand \<Rightarrow> string \<Rightarrow> (nat \<Rightarrow> i64) \<Rightarrow> u64 \<Rightarrow> Task option \<times> u64" where
  "sensor_Normalize capability inp edge_id now seq =
     (if \<not> is_object (rc_payload inp) then (None, seq)
      else
        let p = rc_payload inp; device_id = GetStringOr p ''device_id'' '''' in
        if device_id = [] then (None, seq)
        else (case fill_task inp edge_id device_id capability (GetStringOr p ''action'' ''read'') now seq of
                (t, seq) \<Rightarrow> (Some t, seq)))"

definition DepthSensor_Normalize :: "RawCommand \<Rightarrow> string \<Rightarrow> (nat \<Rightarrow> i64) \<Rightarrow> u64 \<Rightarrow> Task option \<times> u64" where
  "DepthSensor_Normalize = sensor_Normalize ''water_depth''"

definition FlowSensor_Normalize :: "RawCommand \<Rightarrow> string \<Rightarrow> (nat \<Rightarrow> i64) \<Rightarrow> u64 \<Rightarrow> Task option \<times> u64" where
  "FlowSensor_Normalize = sensor_Normalize ''flow_speed''"

definition WindSensor_Normalize :: "RawCommand \<Rightarrow> string \<Rightarrow> (nat \<Rightarrow> i64) \<Rightarrow> u64 \<Rightarrow> Task option \<times> u64" where
  "WindSensor_Normalize = sensor_Normalize ''wind''"

fun Normalize :: "normalizer \<Rightarrow> RawCommand \<Rightarrow> string \<Rightarrow> (nat \<Rightarrow> i64) \<Rightarrow> u64 \<Rightarrow> Task option \<times> u64" where
  "Normalize UUVCommandNormalizer = UUV_Normalize"
| "Normalize DepthSensorCommandNormalizer = DepthSensor_Normalize"
| "Normalize FlowSensorCommandNormalizer = FlowSensor_Normalize"
| "Normalize WindSensorCommandNormalizer = WindSensor_Normalize"

section \<open>Controls\<close>

datatype control = UUVControl | DepthSensorControl | FlowSensorControl | WindSensorControl

text \<open>\<open>Init\<close>: whether the fields of the configuration have the types the control asks for.\<close>

definition init_checks :: "json \<Rightarrow> string list \<Rightarrow> json_exn + unit" where
  "init_checks cfg doubles =
     ebind (value_string cfg ''device_name'' '''') (\<lambda>_. ebind (check_int cfg ''simulate_latency_ms'') (\<lambda>_.
     check_doubles cfg doubles))"

fun control_Init :: "control \<Rightarrow> json \<Rightarrow> json_exn + unit" where
  "control_Init UUVControl cfg = init_checks cfg []"
| "control_Init DepthSensorControl cfg = init_checks cfg [''depth_base_m'', ''depth_noise_m'']"
| "control_Init FlowSensorControl cfg = init_checks cfg [''flow_base_mps'', ''flow_noise_mps'']"
| "control_Init WindSensorControl cfg = init_checks cfg [''vx_base'', ''vy_base'', ''vz_base'', ''noise'']"

text \<open>A result between two readings of the clock.\<close>

definition result_of :: "ErrorCode \<Rightarrow> string \<Rightarrow> json \<Rightarrow> (nat \<Rightarrow> i64) \<Rightarrow> TaskResult" where
  "result_of code message output now =
     \<lparr>tr_code = code, tr_message = message, tr_started_at_ms = now 0, tr_finished_at_ms = now 1, tr_output = output\<rparr>"

definition UUVControl_DoTask :: "Task \<Rightarrow> (nat \<Rightarrow> i64) \<Rightarrow> TaskResult" where
  "UUVControl_DoTask task now =
     (let refuse = (\<lambda>code message. result_of code message empty_object now) in
      if t_capability task = [] \<or> t_action task = [] then refuse InvalidCommand ''capability/action is empty''
      else if t_capability task = ''navigate'' then
        if t_action task = ''set'' then result_of Ok ''navigate set ok'' (JObject [(''accepted'', JBool True)]) now
        else if t_action task = ''stop'' then result_of Ok ''navigate stop ok'' (JObject [(''stopped'', JBool True)]) now
        else refuse InvalidCommand ''unknown action for navigate''
      else if t_capability task = ''sample_water'' then
        if t_action task = ''start'' then
          result_of Ok ''sample start ok'' (JObject [(''sample_id'', JString ''demo-001'')]) now
        else refuse InvalidCommand ''unknown action for sample_water''
      else if t_capability task = ''estop'' then refuse EStop ''estop requested''
      else refuse InvalidCommand ''unknown capability'')"

definition DepthSensorControl_DoTask :: "string list \<Rightarrow> Task \<Rightarrow> (nat \<Rightarrow> i64) \<Rightarrow> TaskResult" where
  "DepthSensorControl_DoTask readings task now =
     (if t_capability task \<noteq> ''water_depth'' then
        result_of InvalidCommand (''unsupported capability for depth sensor: '' @ t_capability task) empty_object now
      else if t_action task = ''read'' then
        result_of Ok ''depth read ok'' (JObject [(''depth_m'', JFloat (readings ! 0)), (''unit'', JString ''m'')]) now
      else if t_action task = ''calibrate'' then
        result_of Ok ''calibrate ok'' (JObject [(''calibrated'', JBool True)]) now
      else result_of InvalidCommand (''unknown action for water_depth: '' @ t_action task) empty_object now)"

definition FlowSensorControl_DoTask :: "string list \<Rightarrow> Task \<Rightarrow> (nat \<Rightarrow> i64) \<Rightarrow> TaskResult" where
  "FlowSensorControl_DoTask readings task now =
     (if t_capability task \<noteq> ''flow_speed'' then
        result_of InvalidCommand (''unsupported capability for flow sensor: '' @ t_capability task) empty_object now
      else if t_action task = ''read'' then
        result_of Ok ''flow read ok'' (JObject [(''flow_mps'', JFloat (readings ! 0)), (''unit'', JString ''m/s'')]) now
      else result_of InvalidCommand (''unknown action for flow_speed: '' @ t_action task) empty_object now)"

definition WindSensorControl_DoTask :: "string list \<Rightarrow> Task \<Rightarrow> (nat \<Rightarrow> i64) \<Rightarrow> TaskResult" where
  "WindSensorControl_DoTask readings task now =
     (if t_capability task \<noteq> ''wind'' then
        result_of InvalidCommand (''unsupported capability for split speed sensor: '' @ t_capability task) empty_object now
      else if t_action task = ''read'' then
        result_of Ok ''split speed read ok'' (JObject [(''vx'', JFloat (readings ! 0)), (''vy'', JFloat (readings ! 1)),
          (''vz'', JFloat (readings ! 2)), (''unit'', JString ''m/s'')]) now
      else result_of InvalidCommand (''unknown action for wind: '' @ t_action task) empty_object now)"

fun DoTask :: "control \<Rightarrow> string list \<Rightarrow> Task \<Rightarrow> (nat \<Rightarrow> i64) \<Rightarrow> TaskResult" where
  "DoTask UUVControl readings = UUVControl_DoTask"
| "DoTask DepthSensorControl readings = DepthSensorControl_DoTask readings"
| "DoTask FlowSensorControl readings = FlowSensorControl_DoTask readings"
| "DoTask WindSensorControl readings = WindSensorControl_DoTask readings"

section \<open>The factory\<close>

definition CreateNormalizer :: "string \<Rightarrow> normalizer option" where
  "CreateNormalizer type =
     (if type = ''uuv'' \<or> type = ''UUV'' then Some UUVCommandNormalizer
      else if type = ''depth_sensor'' then Some DepthSensorCommandNormalizer
      else if type = ''flow_sensor'' then Some FlowSensorCommandNormalizer
      else if type = ''wind_sensor'' then Some WindSensorCommandNormalizer
      else None)"

definition CreateControl :: "string \<Rightarrow> control option" where
  "CreateControl type =
     (if type = ''uuv'' \<or> type = ''UUV'' then Some UUVControl
      else if type = ''depth_sensor'' then Some DepthSensorControl
      else if type = ''flow_sensor'' then Some FlowSensorControl
      else if type = ''wind_sensor'' then Some WindSensorControl
      else None)"

section \<open>From a command to its outcome\<close>

text \<open>The capabilities and actions each control knows.\<close>

fun supported :: "control \<Rightarrow> (string \<times> string) list" where
  "supported UUVControl = [(''navigate'', ''set''), (''navigate'', ''stop''), (''sample_water'', ''start'')]"
| "supported DepthSensorControl = [(''water_depth'', ''read''), (''water_depth'', ''calibrate'')]"
| "supported FlowSensorControl = [(''flow_speed'', ''read'')]"
| "supported WindSensorControl = [(''wind'', ''read'')]"

lemma DoTask_code:
  "tr_code (DoTask c readings t now) = Ok \<longleftrightarrow> (t_capability t, t_action t) \<in> set (supported c)"
  by (cases c)
    (simp_all add: UUVControl_DoTask_def DepthSensorControl_DoTask_def FlowSensorControl_DoTask_def
      WindSensorControl_DoTask_def result_of_def Let_def)

lemma DoTask_refused: "tr_code (DoTask c readings t now) \<noteq> Ok \<Longrightarrow>
  tr_code (DoTask c readings t now) \<in> {InvalidCommand, EStop} \<and> tr_message (DoTask c readings t now) \<noteq> [] \<and>
  tr_output (DoTask c readings t now) = empty_object"
  unfolding DoTask_code
  by (cases c)
    (simp_all add: UUVControl_DoTask_def DepthSensorControl_DoTask_def FlowSensorControl_DoTask_def
      WindSensorControl_DoTask_def result_of_def Let_def)

lemma fill_task_fields:
  assumes "fill_task inp edge_id dev cap act now seq = (t, seq')"
  shows "t_device_id t = dev \<and> t_capability t = cap \<and> t_action t = act \<and> t_edge_id t = edge_id \<and> t_state t = Pending \<and>
    (rc_command_id inp \<noteq> [] \<longrightarrow> t_command_id t = rc_command_id inp) \<and> t_command_id t \<noteq> [] \<and> t_idempotency_key t \<noteq> [] \<and>
    Task_wf t \<and> (\<exists>k now. k \<in> {seq, seq + 1} \<and> seq' = k + 1 \<and> t_task_id t = fst (GenerateId ''task'' now k))"
proof -
  define id where "id = (if rc_command_id inp \<noteq> [] then rc_command_id inp else fst (GenerateId ''cmd'' (now 0) seq))"
  define k where "k = (if rc_command_id inp \<noteq> [] then seq else seq + 1)"
  have t: "t = Task_init\<lparr>t_edge_id := edge_id, t_device_id := dev, t_capability := cap, t_action := act,
      t_params := object_or (rc_payload inp) ''params'' empty_object, t_command_id := id,
      t_task_id := fst (GenerateId ''task'' (now 1) k), t_created_at_ms := now 2,
      t_idempotency_key := (if rc_idempotency_key inp \<noteq> [] then rc_idempotency_key inp else id),
      t_dedup_window_ms := rc_dedup_window_ms inp, t_state := Pending\<rparr>" and seq': "seq' = k + 1"
    using assms by (simp_all add: fill_task_def GenerateId_def id_def k_def split: if_splits)
  have "is_object empty_object" "TaskState_cast 0 = Pending" by (simp_all add: empty_object_def TaskState_cast_def)
  then have wf: "Task_wf t" using TaskResult_wf_init by (simp add: t Task_wf_def Task_init_def object_or_object)
  have "id \<noteq> []" by (simp add: id_def GenerateId_def)
  moreover have "k \<in> {seq, seq + 1}" by (simp add: k_def)
  ultimately show ?thesis using wf seq' by (auto simp: t id_def)
qed

text \<open>The action a normaliser puts into the task, and whether the command has all it needs.\<close>

fun command_of :: "normalizer \<Rightarrow> json \<Rightarrow> (string \<times> string) option" where
  "command_of UUVCommandNormalizer p =
     (if GetStringOr p ''capability'' [] = [] \<or> GetStringOr p ''action'' [] = [] then None
      else Some (GetStringOr p ''capability'' [], GetStringOr p ''action'' []))"
| "command_of DepthSensorCommandNormalizer p = Some (''water_depth'', GetStringOr p ''action'' ''read'')"
| "command_of FlowSensorCommandNormalizer p = Some (''flow_speed'', GetStringOr p ''action'' ''read'')"
| "command_of WindSensorCommandNormalizer p = Some (''wind'', GetStringOr p ''action'' ''read'')"

lemma Normalize_cases:
  "Normalize n inp edge_id now seq =
     (if \<not> is_object (rc_payload inp) \<or> GetStringOr (rc_payload inp) ''device_id'' [] = [] then (None, seq)
      else case command_of n (rc_payload inp) of
        None \<Rightarrow> (None, seq)
      | Some (cap, act) \<Rightarrow>
          (case fill_task inp edge_id (GetStringOr (rc_payload inp) ''device_id'' []) cap act now seq of (t, seq) \<Rightarrow> (Some t, seq)))"
  by (cases n)
    (simp_all add: UUV_Normalize_def DepthSensor_Normalize_def FlowSensor_Normalize_def WindSensor_Normalize_def
      sensor_Normalize_def Let_def)

lemma CreateNormalizer_control: "CreateNormalizer ty = Some n \<Longrightarrow> \<exists>c. CreateControl ty = Some c"
  by (auto simp: CreateNormalizer_def CreateControl_def split: if_splits)

text \<open>From a command to its outcome. A normaliser makes a task exactly when the payload is an object with
  a device and, for the vehicle, a capability and an action; the task is well formed, pending, addressed
  to that device, and has a fresh identifier. For every device type with a normaliser there is a control,
  which succeeds on the task exactly when it knows the capability and the action, and otherwise answers
  with a message and no output.\<close>

theorem command_outcome:
  assumes "CreateNormalizer ty = Some n" and "Normalize n inp edge_id now seq = (res, seq')"
  shows "(case res of
      None \<Rightarrow> seq' = seq \<and> (\<not> is_object (rc_payload inp) \<or> GetStringOr (rc_payload inp) ''device_id'' [] = [] \<or>
          command_of n (rc_payload inp) = None)
    | Some t \<Rightarrow>
        is_object (rc_payload inp) \<and> t_device_id t = GetStringOr (rc_payload inp) ''device_id'' [] \<and> t_device_id t \<noteq> [] \<and>
        command_of n (rc_payload inp) = Some (t_capability t, t_action t) \<and> t_edge_id t = edge_id \<and>
        t_state t = Pending \<and> Task_wf t \<and> t_command_id t \<noteq> [] \<and>
        (\<exists>k now. k \<in> {seq, seq + 1} \<and> seq' = k + 1 \<and> t_task_id t = fst (GenerateId ''task'' now k)) \<and>
        (\<exists>c. CreateControl ty = Some c \<and> (\<forall>readings now.
           if (t_capability t, t_action t) \<in> set (supported c) then tr_code (DoTask c readings t now) = Ok
           else tr_code (DoTask c readings t now) \<in> {InvalidCommand, EStop} \<and> tr_message (DoTask c readings t now) \<noteq> [] \<and>
             tr_output (DoTask c readings t now) = empty_object)))"
proof (cases res)
  case None
  then show ?thesis
    using assms(2) by (auto simp: Normalize_cases split: if_splits option.splits prod.splits)
next
  case (Some t)
  from assms(2) obtain cap act where p: "is_object (rc_payload inp)" "GetStringOr (rc_payload inp) ''device_id'' [] \<noteq> []"
    and c: "command_of n (rc_payload inp) = Some (cap, act)"
    and f: "fill_task inp edge_id (GetStringOr (rc_payload inp) ''device_id'' []) cap act now seq = (t, seq')"
    by (auto simp: Some Normalize_cases split: if_splits option.splits prod.splits)
  obtain ctl where "CreateControl ty = Some ctl" using CreateNormalizer_control [OF assms(1)] by blast
  then show ?thesis
    using p c fill_task_fields [OF f] DoTask_code [of ctl] DoTask_refused [of ctl] by (simp add: Some)
qed

theorem command_outcome_witness:
  "\<exists>t. fst (Normalize WindSensorCommandNormalizer
       \<lparr>rc_command_id = ''c'', rc_source = '''', rc_payload = JObject [(''device_id'', JString ''w'')],
        rc_received_at_ms = 0, rc_idempotency_key = '''', rc_dedup_window_ms = 0\<rparr> ''edge'' (\<lambda>_. 0) 0) = Some t \<and>
     t_device_id t = ''w'' \<and> t_command_id t \<noteq> []"
proof -
  let ?c = "\<lparr>rc_command_id = ''c'', rc_source = '''', rc_payload = JObject [(''device_id'', JString ''w'')],
        rc_received_at_ms = 0, rc_idempotency_key = '''', rc_dedup_window_ms = 0\<rparr>"
  have n: "CreateNormalizer ''wind_sensor'' = Some WindSensorCommandNormalizer" by (simp add: CreateNormalizer_def)
  obtain res seq' where r: "Normalize WindSensorCommandNormalizer ?c ''edge'' (\<lambda>_. 0) 0 = (res, seq')" by fastforce
  from command_outcome [OF n r] show ?thesis
    by (cases res) (simp_all add: r GetStringOr_def del: Normalize.simps)
qed

end
