(* ===== verification/Workflow.thy ===== *)
theory Workflow
  imports Control Queues
begin

text \<open>
  \<open>src/util/my_control/demo/Workflow.cpp\<close> and the four device classes of \<open>src/util/my_device\<close>: a device owns
  a control and a workflow, a thread that takes tasks from a queue of the edge, executes them and keeps
  the status of the device. The device classes differ in their names and their control only. A step of
  the thread ends where it reads or changes something that others see.
\<close>

section \<open>Workflow and device\<close>

text \<open>Where the thread is in \<open>RunLoop\<close>.\<close>

datatype wf_pc =
    WTop
  | WPop
  | WPopFailed
  | WGot Task
  | WStarted Task
  | WDone Task TaskResult
  | WExited

record Workflow =
  wf_running :: bool
  wf_stop :: bool
  wf_worker :: bool
  wf_pc :: wf_pc

definition Workflow_ctor :: Workflow where
  "Workflow_ctor = \<lparr>wf_running = False, wf_stop = False, wf_worker = False, wf_pc = WExited\<rparr>"

definition Workflow_Start :: "Workflow \<Rightarrow> bool \<times> Workflow" where
  "Workflow_Start w =
     (if wf_running w then (False, w)
      else (True, w\<lparr>wf_running := True, wf_stop := False, wf_worker := True, wf_pc := WTop\<rparr>))"

definition Workflow_Stop :: "Workflow \<Rightarrow> Workflow" where
  "Workflow_Stop w = (if \<not> wf_running w then w else w\<lparr>wf_stop := True\<rparr>)"

text \<open>\<open>Join\<close> comes back when the thread has left its loop: \<open>None\<close> while it waits.\<close>

definition Workflow_Join :: "Workflow \<Rightarrow> Workflow option" where
  "Workflow_Join w =
     (if wf_worker w \<and> wf_pc w \<noteq> WExited then None else Some (w\<lparr>wf_worker := False, wf_running := False\<rparr>))"

datatype device_class = UUVDevice | DepthSensorDevice | FlowSensorDevice | WindSensorDevice

fun default_device_id :: "device_class \<Rightarrow> string" where
  "default_device_id UUVDevice = ''uuv-unknown''"
| "default_device_id DepthSensorDevice = ''depth-unknown''"
| "default_device_id FlowSensorDevice = ''flow-unknown''"
| "default_device_id WindSensorDevice = ''split-unknown''"

fun default_device_name :: "device_class \<Rightarrow> string" where
  "default_device_name UUVDevice = ''uuv-demo''"
| "default_device_name DepthSensorDevice = ''depth-sensor-demo''"
| "default_device_name FlowSensorDevice = ''flow-sensor-demo''"
| "default_device_name WindSensorDevice = ''split-speed-sensor-demo''"

fun control_type :: "device_class \<Rightarrow> string" where
  "control_type UUVDevice = ''uuv''"
| "control_type DepthSensorDevice = ''depth_sensor''"
| "control_type FlowSensorDevice = ''flow_sensor''"
| "control_type WindSensorDevice = ''wind_sensor''"

record Device =
  dv_class :: device_class
  dv_device_id :: string
  dv_device_name :: string
  dv_control :: "control option"
  dv_workflow :: "Workflow option"
  dv_status :: DeviceStatus
  dv_running_task :: "Task option"

definition Device_ctor :: "device_class \<Rightarrow> i64 \<Rightarrow> Device" where
  "Device_ctor cls now =
     \<lparr>dv_class = cls, dv_device_id = default_device_id cls, dv_device_name = default_device_name cls, dv_control = None,
      dv_workflow = None, dv_status = DeviceStatus_init\<lparr>ds_device_id := default_device_id cls, ds_last_seen_at_ms := now\<rparr>,
      dv_running_task = None\<rparr>"

text \<open>\<open>Init\<close>: what the assignments before an exception have changed stays changed.\<close>

definition Device_Init :: "json \<Rightarrow> i64 \<Rightarrow> Device \<Rightarrow> bool \<times> Device" where
  "Device_Init cfg now d =
     (case value_string cfg ''device_id'' (dv_device_id d) of
        Inl e \<Rightarrow> (False, d)
      | Inr device_id \<Rightarrow>
          let d = d\<lparr>dv_device_id := device_id\<rparr> in
          (case value_string cfg ''device_name'' (dv_device_name d) of
             Inl e \<Rightarrow> (False, d)
           | Inr name \<Rightarrow>
               let d = d\<lparr>dv_device_name := name,
                     dv_status := (dv_status d)\<lparr>ds_device_id := device_id, ds_conn_state := Online, ds_work_state := Idle,
                       ds_last_seen_at_ms := now\<rparr>,
                     dv_control := CreateControl (control_type (dv_class d))\<rparr>
               in
               (case dv_control d of
                  None \<Rightarrow> (False, d)
                | Some c \<Rightarrow>
                    (case control_Init c (case field cfg ''control'' of None \<Rightarrow> empty_object | Some v \<Rightarrow> v) of
                       Inl e \<Rightarrow> (False, d)
                     | Inr _ \<Rightarrow> (True, d)))))"

text \<open>The constructor with a configuration ignores the answer of \<open>Init\<close>.\<close>

definition Device_of_config :: "device_class \<Rightarrow> json \<Rightarrow> (nat \<Rightarrow> i64) \<Rightarrow> Device" where
  "Device_of_config cls cfg now = snd (Device_Init cfg (now 1) (Device_ctor cls (now 0)))"

definition Create :: "string \<Rightarrow> json \<Rightarrow> (nat \<Rightarrow> i64) \<Rightarrow> Device option" where
  "Create type cfg now =
     (if type = ''uuv'' \<or> type = ''UUV'' then Some (Device_of_config UUVDevice cfg now)
      else if type = ''depth_sensor'' then Some (Device_of_config DepthSensorDevice cfg now)
      else if type = ''flow_sensor'' then Some (Device_of_config FlowSensorDevice cfg now)
      else if type = ''wind_sensor'' then Some (Device_of_config WindSensorDevice cfg now)
      else None)"

definition Device_Start :: "Device \<Rightarrow> bool \<times> Device" where
  "Device_Start d =
     (case dv_control d of
        None \<Rightarrow> (False, d)
      | Some c \<Rightarrow> (case Workflow_Start Workflow_ctor of (started, w) \<Rightarrow> (started, d\<lparr>dv_workflow := Some w\<rparr>)))"

definition Device_Stop :: "i64 \<Rightarrow> Device \<Rightarrow> Device" where
  "Device_Stop now d =
     d\<lparr>dv_workflow := map_option Workflow_Stop (dv_workflow d), dv_status := (dv_status d)\<lparr>ds_last_seen_at_ms := now\<rparr>\<rparr>"

definition Device_Join :: "Device \<Rightarrow> Device option" where
  "Device_Join d =
     (case dv_workflow d of
        None \<Rightarrow> Some d
      | Some w \<Rightarrow> map_option (\<lambda>w. d\<lparr>dv_workflow := Some w\<rparr>) (Workflow_Join w))"

definition Device_GetStatusSnapshot :: "Device \<Rightarrow> DeviceStatus" where
  "Device_GetStatusSnapshot d = dv_status d"

definition UpdateOnTaskStart :: "Task \<Rightarrow> i64 \<Rightarrow> Device \<Rightarrow> Device" where
  "UpdateOnTaskStart task now d =
     d\<lparr>dv_status := (dv_status d)\<lparr>ds_work_state := Busy, ds_running_task_id := t_task_id task, ds_last_seen_at_ms := now\<rparr>,
       dv_running_task := Some task\<rparr>"

definition UpdateOnTaskFinish :: "Task \<Rightarrow> TaskResult \<Rightarrow> i64 \<Rightarrow> Device \<Rightarrow> Device" where
  "UpdateOnTaskFinish task r now d =
     (let st = (dv_status d)\<lparr>ds_last_task_at_ms := now, ds_last_seen_at_ms := now\<rparr>;
          st = (if tr_code r = Ok then st\<lparr>ds_last_error := '''', ds_work_state := Idle\<rparr>
                else st\<lparr>ds_last_error := (if tr_message r = [] then ErrorCode_ToString (tr_code r) else tr_message r),
                        ds_work_state := Faulted\<rparr>)
      in d\<lparr>dv_status := st\<lparr>ds_running_task_id := ''''\<rparr>, dv_running_task := None\<rparr>)"

section \<open>The loop of the thread\<close>

definition set_pc :: "wf_pc \<Rightarrow> Device \<Rightarrow> Device" where
  "set_pc pc d = d\<lparr>dv_workflow := map_option (\<lambda>w. w\<lparr>wf_pc := pc\<rparr>) (dv_workflow d)\<rparr>"

definition wf_exit :: "Device \<Rightarrow> Device" where
  "wf_exit d = d\<lparr>dv_workflow := map_option (\<lambda>w. w\<lparr>wf_running := False, wf_pc := WExited\<rparr>) (dv_workflow d)\<rparr>"

text \<open>One step, with the emergency stop flag, the clock and the readings of the sensors. A pop that has to
  wait runs into its time-out.\<close>

definition RunLoop_step :: "bool \<Rightarrow> (nat \<Rightarrow> i64) \<Rightarrow> string list \<Rightarrow> Task task_queue \<Rightarrow> Device \<Rightarrow> Task task_queue \<times> Device" where
  "RunLoop_step estop now readings q d =
     (case (dv_workflow d, dv_control d) of
        (Some w, Some c) \<Rightarrow>
          (case wf_pc w of
             WTop \<Rightarrow> (q, if wf_stop w then wf_exit d else if estop then d else set_pc WPop d)
           | WPop \<Rightarrow>
               (case tq_PopBlocking q of
                  (Returns (Some task), q) \<Rightarrow> (q, set_pc (WGot task) d)
                | (_, q) \<Rightarrow> (q, set_pc WPopFailed d))
           | WPopFailed \<Rightarrow> (q, if tq_IsShutdown q then wf_exit d else set_pc WTop d)
           | WGot task \<Rightarrow> (q, set_pc (WStarted task) (UpdateOnTaskStart task (now 0) d))
           | WStarted task \<Rightarrow> (q, set_pc (WDone task (DoTask c readings task now)) d)
           | WDone task r \<Rightarrow> (q, set_pc WTop (UpdateOnTaskFinish task r (now 0) d))
           | WExited \<Rightarrow> (q, d))
      | _ \<Rightarrow> (q, d))"

section \<open>A device among other threads\<close>

text \<open>The device, its queue and the flag, with the tasks the queue has accepted and the tasks the thread has
  executed, for the specification.\<close>

record wf_sys =
  sy_queue :: "Task task_queue"
  sy_dev :: Device
  sy_estop :: bool
  sy_accepted :: "Task list"
  sy_done :: "(Task \<times> TaskResult) list"

datatype wf_event = Push Task | SetEStop bool | StopDevice i64 | ShutdownQueue | Thread "nat \<Rightarrow> i64" "string list"

definition sys_pc :: "wf_sys \<Rightarrow> wf_pc" where
  "sys_pc s = (case dv_workflow (sy_dev s) of Some w \<Rightarrow> wf_pc w | None \<Rightarrow> WExited)"

definition sys_stop :: "wf_sys \<Rightarrow> bool" where
  "sys_stop s = (case dv_workflow (sy_dev s) of Some w \<Rightarrow> wf_stop w | None \<Rightarrow> False)"

fun pc_done :: "wf_pc \<Rightarrow> (Task \<times> TaskResult) list" where
  "pc_done (WDone t r) = [(t, r)]"
| "pc_done _ = []"

fun wf_event_step :: "wf_event \<Rightarrow> wf_sys \<Rightarrow> wf_sys" where
  "wf_event_step (Push t) s =
     (case tq_Push t (sy_queue s) of (ok, q) \<Rightarrow>
        s\<lparr>sy_queue := q, sy_accepted := sy_accepted s @ (if ok then [t] else [])\<rparr>)"
| "wf_event_step (SetEStop b) s = s\<lparr>sy_estop := b\<rparr>"
| "wf_event_step (StopDevice now) s = s\<lparr>sy_dev := Device_Stop now (sy_dev s)\<rparr>"
| "wf_event_step ShutdownQueue s = s\<lparr>sy_queue := tq_Shutdown (sy_queue s)\<rparr>"
| "wf_event_step (Thread now readings) s =
     (case RunLoop_step (sy_estop s) now readings (sy_queue s) (sy_dev s) of (q, d) \<Rightarrow>
        s\<lparr>sy_queue := q, sy_dev := d, sy_done := sy_done s @ pc_done (sys_pc s)\<rparr>)"

definition wf_run :: "wf_event list \<Rightarrow> wf_sys \<Rightarrow> wf_sys" where
  "wf_run evs s = fold wf_event_step evs s"

lemma wf_run_simps [simp]:
  "wf_run [] s = s" "wf_run (e # evs) s = wf_run evs (wf_event_step e s)" "wf_run (xs @ ys) s = wf_run ys (wf_run xs s)"
  by (simp_all add: wf_run_def)

text \<open>A device that has just been started on an empty queue.\<close>

definition wf_start :: "Device \<Rightarrow> string \<Rightarrow> bool \<Rightarrow> wf_sys" where
  "wf_start d qname estop =
     \<lparr>sy_queue = tq_ctor qname, sy_dev = snd (Device_Start d), sy_estop = estop, sy_accepted = [], sy_done = []\<rparr>"

fun pc_task :: "wf_pc \<Rightarrow> Task list" where
  "pc_task (WGot t) = [t]"
| "pc_task (WStarted t) = [t]"
| "pc_task (WDone t r) = [t]"
| "pc_task _ = []"

fun pc_busy :: "wf_pc \<Rightarrow> bool" where
  "pc_busy (WStarted t) = True"
| "pc_busy (WDone t r) = True"
| "pc_busy _ = False"

definition is_result :: "control \<Rightarrow> Task \<Rightarrow> TaskResult \<Rightarrow> bool" where
  "is_result c t r \<longleftrightarrow> (\<exists>readings now. r = DoTask c readings t now)"

definition status_of_done :: "DeviceStatus \<Rightarrow> (Task \<times> TaskResult) list \<Rightarrow> bool" where
  "status_of_done st ds \<longleftrightarrow> (ds \<noteq> [] \<longrightarrow>
     ds_work_state st = (if tr_code (snd (last ds)) = Ok then Idle else Faulted) \<and>
     (ds_last_error st = []) = (tr_code (snd (last ds)) = Ok))"

definition status_ok :: "wf_pc \<Rightarrow> DeviceStatus \<Rightarrow> (Task \<times> TaskResult) list \<Rightarrow> bool" where
  "status_ok pc st ds \<longleftrightarrow>
     (if pc_busy pc then ds_work_state st = Busy \<and> ds_running_task_id st = t_task_id (hd (pc_task pc))
      else ds_work_state st \<noteq> Busy \<and> ds_running_task_id st = [] \<and> status_of_done st ds)"

definition wf_inv :: "control \<Rightarrow> wf_sys \<Rightarrow> bool" where
  "wf_inv c s \<longleftrightarrow>
     dv_control (sy_dev s) = Some c \<and> dv_workflow (sy_dev s) \<noteq> None \<and>
     sy_accepted s = map fst (sy_done s) @ pc_task (sys_pc s) @ tq_q (sy_queue s) \<and>
     list_all (\<lambda>(t, r). is_result c t r) (sy_done s @ pc_done (sys_pc s)) \<and>
     status_ok (sys_pc s) (dv_status (sy_dev s)) (sy_done s)"

lemma set_pc_simps [simp]:
  "dv_control (set_pc pc d) = dv_control d" "dv_status (set_pc pc d) = dv_status d"
  "dv_workflow (set_pc pc d) = map_option (\<lambda>w. w\<lparr>wf_pc := pc\<rparr>) (dv_workflow d)"
  "dv_control (wf_exit d) = dv_control d" "dv_status (wf_exit d) = dv_status d"
  "dv_workflow (wf_exit d) = map_option (\<lambda>w. w\<lparr>wf_running := False, wf_pc := WExited\<rparr>) (dv_workflow d)"
  by (simp_all add: set_pc_def wf_exit_def)

lemma Update_simps [simp]:
  "dv_control (UpdateOnTaskStart t now d) = dv_control d" "dv_workflow (UpdateOnTaskStart t now d) = dv_workflow d"
  "dv_control (UpdateOnTaskFinish t r now d) = dv_control d" "dv_workflow (UpdateOnTaskFinish t r now d) = dv_workflow d"
  by (simp_all add: UpdateOnTaskStart_def UpdateOnTaskFinish_def Let_def)

lemma ErrorCode_ToString_nonempty: "ErrorCode_ToString c \<noteq> []"
  by (cases c) simp_all

lemma status_ok_start:
  "status_ok (WStarted t) (dv_status (UpdateOnTaskStart t now d)) ds"
  by (simp add: status_ok_def UpdateOnTaskStart_def)

lemma status_ok_finish:
  "status_ok WTop (dv_status (UpdateOnTaskFinish t r now d)) (ds @ [(t, r)])"
  using ErrorCode_ToString_nonempty
  by (simp add: status_ok_def status_of_done_def UpdateOnTaskFinish_def Let_def)

lemma thread_inv:
  assumes "wf_inv c s" shows "wf_inv c (wf_event_step (Thread now rs) s)"
proof -
  obtain w where w: "dv_workflow (sy_dev s) = Some w" and c: "dv_control (sy_dev s) = Some c"
    using assms by (auto simp: wf_inv_def)
  have pc: "sys_pc s = wf_pc w" by (simp add: sys_pc_def w)
  show ?thesis
  proof (cases "wf_pc w")
    case WPop
    then show ?thesis
      using assms w c pc
      by (auto simp: wf_inv_def RunLoop_step_def sys_pc_def tq_PopBlocking_def status_ok_def split: list.splits)
  next
    case (WGot t)
    then show ?thesis
      using assms w c pc status_ok_start by (simp add: wf_inv_def RunLoop_step_def sys_pc_def)
  next
    case (WStarted t)
    then show ?thesis
      using assms w c pc by (auto simp: wf_inv_def RunLoop_step_def sys_pc_def status_ok_def is_result_def)
  next
    case (WDone t r)
    then show ?thesis
      using assms w c pc status_ok_finish by (simp add: wf_inv_def RunLoop_step_def sys_pc_def)
  qed (use assms w c pc in \<open>auto simp: wf_inv_def RunLoop_step_def sys_pc_def status_ok_def\<close>)
qed

lemma Workflow_Stop_pc [simp]: "wf_pc (Workflow_Stop w) = wf_pc w"
  by (simp add: Workflow_Stop_def)

lemma status_ok_seen [simp]: "status_ok pc (st\<lparr>ds_last_seen_at_ms := now\<rparr>) ds = status_ok pc st ds"
  by (simp add: status_ok_def status_of_done_def)

lemma wf_event_inv: "wf_inv c s \<Longrightarrow> wf_inv c (wf_event_step e s)"
proof (cases e)
  case (StopDevice now)
  moreover assume "wf_inv c s"
  ultimately show ?thesis
    by (auto simp: wf_inv_def Device_Stop_def sys_pc_def)
next
  case (Thread now rs)
  moreover assume "wf_inv c s"
  ultimately show ?thesis using thread_inv by simp
qed (auto simp: wf_inv_def sys_pc_def tq_Push_def tq_Shutdown_def)

lemma wf_run_inv: "wf_inv c s \<Longrightarrow> wf_inv c (wf_run evs s)"
  by (induction evs arbitrary: s) (simp_all add: wf_event_inv)

lemma wf_start_inv:
  assumes "dv_control d = Some c" "ds_work_state (dv_status d) \<noteq> Busy" "ds_running_task_id (dv_status d) = []"
  shows "wf_inv c (wf_start d qname estop)"
  using assms
  by (simp add: wf_inv_def wf_start_def Device_Start_def Workflow_Start_def Workflow_ctor_def sys_pc_def tq_ctor_def
      status_ok_def status_of_done_def)

section \<open>Properties\<close>

text \<open>C15: The thread of a device executes the tasks its queue has accepted, each exactly once and in the
  order of their acceptance, whatever pushes, emergency stops, stop requests and shutdowns come in
  between: the accepted tasks are those executed, the one in hand and those still queued. Every
  recorded result is an answer of the control to its task. The status says busy, with the identifier of
  the task, exactly from the start callback to the finish callback, and otherwise tells whether the
  last task succeeded.\<close>

theorem workflow_executes_in_order:
  assumes "dv_control d = Some c" and "ds_work_state (dv_status d) \<noteq> Busy" and "ds_running_task_id (dv_status d) = []"
    and "s = wf_run evs (wf_start d qname estop)"
  shows "sy_accepted s = map fst (sy_done s) @ pc_task (sys_pc s) @ tq_q (sy_queue s) \<and>
    (\<forall>(t, r) \<in> set (sy_done s). \<exists>readings now. r = DoTask c readings t now) \<and>
    (ds_work_state (dv_status (sy_dev s)) = Busy) = pc_busy (sys_pc s) \<and>
    (pc_busy (sys_pc s) \<longrightarrow> ds_running_task_id (dv_status (sy_dev s)) = t_task_id (hd (pc_task (sys_pc s)))) \<and>
    (\<not> pc_busy (sys_pc s) \<and> sy_done s \<noteq> [] \<longrightarrow>
       (ds_work_state (dv_status (sy_dev s)) = Idle) = (tr_code (snd (last (sy_done s))) = Ok))"
  using wf_run_inv [OF wf_start_inv [OF assms(1-3)], of evs qname estop] assms(4)
  by (auto simp: wf_inv_def status_ok_def status_of_done_def is_result_def list_all_iff split: if_splits)

definition demo_task :: Task where
  "demo_task = Task_init\<lparr>t_task_id := ''task-1'', t_capability := ''wind'', t_action := ''read''\<rparr>"

definition demo_device :: Device where
  "demo_device = Device_of_config WindSensorDevice (JObject []) (\<lambda>_. 0)"

lemma demo_device_ok:
  "dv_control demo_device = Some WindSensorControl" "ds_work_state (dv_status demo_device) \<noteq> Busy"
  "ds_running_task_id (dv_status demo_device) = []"
  by (simp_all add: demo_device_def Device_of_config_def Device_Init_def Device_ctor_def value_string_def CreateControl_def
      empty_object_def init_checks_def check_int_def check_double_def DeviceStatus_init_def)

theorem workflow_executes_in_order_witness:
  "sy_accepted (wf_run [Push demo_task, Push demo_task] (wf_start demo_device ''queue'' False)) =
   [] @ [] @ [demo_task, demo_task]"
  using workflow_executes_in_order [OF demo_device_ok refl, of "[Push demo_task, Push demo_task]" "''queue''" False]
  by (simp add: wf_start_def Device_Start_def demo_device_ok Workflow_Start_def Workflow_ctor_def tq_ctor_def
      tq_Push_def sys_pc_def)

text \<open>The number of steps the thread still makes once it is asked to stop.\<close>

fun pc_rank :: "wf_pc \<Rightarrow> nat" where
  "pc_rank WExited = 0"
| "pc_rank WTop = 1"
| "pc_rank WPopFailed = 2"
| "pc_rank (WDone t r) = 2"
| "pc_rank (WStarted t) = 3"
| "pc_rank (WGot t) = 4"
| "pc_rank WPop = 5"

fun is_thread :: "wf_event \<Rightarrow> bool" where
  "is_thread (Thread now rs) = True"
| "is_thread _ = False"

lemma stop_event:
  assumes "sys_stop s" "dv_control (sy_dev s) = Some c"
  shows "sys_stop (wf_event_step e s) \<and> dv_control (sy_dev (wf_event_step e s)) = Some c \<and>
    pc_rank (sys_pc (wf_event_step e s)) \<le> pc_rank (sys_pc s) - (if is_thread e then 1 else 0) \<and>
    length (sy_done (wf_event_step e s)) + (if pc_rank (sys_pc (wf_event_step e s)) \<ge> 2 then 1 else 0)
      \<le> length (sy_done s) + (if pc_rank (sys_pc s) \<ge> 2 then 1 else 0)"
proof -
  obtain w where w: "dv_workflow (sy_dev s) = Some w" "wf_stop w"
    using assms(1) by (auto simp: sys_stop_def split: option.splits)
  show ?thesis
  proof (cases e)
    case (Thread now rs)
    then show ?thesis
      using w assms(2)
      by (cases "wf_pc w")
        (auto simp: RunLoop_step_def sys_pc_def sys_stop_def tq_PopBlocking_def split: list.splits)
  qed (use w assms(2) in \<open>auto simp: sys_stop_def sys_pc_def Device_Stop_def Workflow_Stop_def split: prod.splits\<close>)
qed

text \<open>C31: A stop request ends the thread of a device: five more steps of the thread are enough, whatever
  else happens in between, so that \<open>Join\<close> comes back; and at most one more task is executed, the one in
  hand or one that a pop already running still returns.\<close>

theorem workflow_stops:
  assumes "sys_stop s" and "dv_control (sy_dev s) = Some c" and "5 \<le> length (filter is_thread evs)"
  shows "sys_pc (wf_run evs s) = WExited \<and> Device_Join (sy_dev (wf_run evs s)) \<noteq> None \<and>
    length (sy_done (wf_run evs s)) \<le> length (sy_done s) + 1"
proof -
  have run: "sys_stop (wf_run es s) \<and> pc_rank (sys_pc (wf_run es s)) \<le> pc_rank (sys_pc s) - length (filter is_thread es) \<and>
      length (sy_done (wf_run es s)) + (if pc_rank (sys_pc (wf_run es s)) \<ge> 2 then 1 else 0)
        \<le> length (sy_done s) + (if pc_rank (sys_pc s) \<ge> 2 then 1 else 0)"
    if "sys_stop s" "dv_control (sy_dev s) = Some c" for es s
    using that
  proof (induction es arbitrary: s)
    case (Cons e es)
    note step = stop_event [OF Cons.prems, of e]
    from Cons.IH [of "wf_event_step e s"] step show ?case by (auto split: if_splits)
  qed simp
  have "pc_rank pc \<le> 5" for pc by (cases pc) simp_all
  then have "pc_rank (sys_pc (wf_run evs s)) = 0" using run [OF assms(1,2), of evs] assms(3)
    by (metis (no_types, lifting) diff_is_0_eq le_trans le_zero_eq)
  then have e: "sys_pc (wf_run evs s) = WExited" by (cases "sys_pc (wf_run evs s)") simp_all
  moreover have "Device_Join (sy_dev (wf_run evs s)) \<noteq> None"
    using e by (auto simp: Device_Join_def Workflow_Join_def sys_pc_def split: option.splits)
  ultimately show ?thesis using run [OF assms(1,2), of evs] by (auto split: if_splits)
qed

theorem workflow_stops_witness:
  "sys_pc (wf_run (replicate 5 (Thread (\<lambda>_. 0) [])) (wf_event_step (StopDevice 0) (wf_start demo_device ''queue'' False))) = WExited"
proof -
  have c: "dv_control (sy_dev (wf_event_step (StopDevice 0) (wf_start demo_device ''queue'' False))) = Some WindSensorControl"
    by (simp add: wf_start_def Device_Start_def demo_device_ok Device_Stop_def Workflow_Start_def Workflow_ctor_def)
  have "sys_stop (wf_event_step (StopDevice 0) (wf_start demo_device ''queue'' False))"
    by (simp add: wf_start_def Device_Start_def demo_device_ok Device_Stop_def Workflow_Start_def Workflow_ctor_def
        sys_stop_def Workflow_Stop_def)
  from workflow_stops [OF this c, of "replicate 5 (Thread (\<lambda>_. 0) [])"] show ?thesis by simp
qed

text \<open>One step of a thread that nobody stops, at each of its positions.\<close>

definition at_pc :: "control \<Rightarrow> wf_pc \<Rightarrow> Task list \<Rightarrow> (Task \<times> TaskResult) list \<Rightarrow> wf_sys \<Rightarrow> bool" where
  "at_pc c pc ts log s \<longleftrightarrow> sys_pc s = pc \<and> \<not> sys_stop s \<and> \<not> sy_estop s \<and> dv_control (sy_dev s) = Some c \<and>
     tq_q (sy_queue s) = ts \<and> sy_done s = log"

lemma at_pc_steps:
  "at_pc c WTop ts log s \<Longrightarrow> at_pc c WPop ts log (wf_event_step (Thread n r) s)"
  "at_pc c WPop (t # ts) log s \<Longrightarrow> at_pc c (WGot t) ts log (wf_event_step (Thread n r) s)"
  "at_pc c (WGot t) ts log s \<Longrightarrow> at_pc c (WStarted t) ts log (wf_event_step (Thread n r) s)"
  "at_pc c (WStarted t) ts log s \<Longrightarrow> at_pc c (WDone t (DoTask c r t n)) ts log (wf_event_step (Thread n r) s)"
  "at_pc c (WDone t x) ts log s \<Longrightarrow> at_pc c WTop ts (log @ [(t, x)]) (wf_event_step (Thread n r) s)"
  by (auto simp: at_pc_def sys_pc_def sys_stop_def RunLoop_step_def tq_PopBlocking_def split: option.splits)

lemma round_executes:
  assumes "sys_pc s = WTop" "\<not> sys_stop s" "\<not> sy_estop s" "dv_control (sy_dev s) = Some c" "tq_q (sy_queue s) = t # ts"
    and "s' = wf_run [Thread n1 r1, Thread n2 r2, Thread n3 r3, Thread n4 r4, Thread n5 r5] s"
  shows "sys_pc s' = WTop \<and> \<not> sys_stop s' \<and> \<not> sy_estop s' \<and> dv_control (sy_dev s') = Some c \<and>
    tq_q (sy_queue s') = ts \<and> sy_done s' = sy_done s @ [(t, DoTask c r4 t n4)]"
proof -
  have "at_pc c WTop (t # ts) (sy_done s) s" using assms(1-5) by (simp add: at_pc_def)
  then have "at_pc c WTop ts (sy_done s @ [(t, DoTask c r4 t n4)]) s'"
    unfolding assms(6) wf_run_simps by (intro at_pc_steps)
  then show ?thesis by (simp add: at_pc_def)
qed

text \<open>A device that is neither stopped nor in emergency stop works its queue off: five steps of the
  thread for each queued task execute all of them, in order.\<close>

theorem workflow_drains_queue:
  assumes "sys_pc s = WTop" and "\<not> sys_stop s" and "\<not> sy_estop s" and "dv_control (sy_dev s) = Some c"
    and "list_all is_thread evs" and "length evs = 5 * length (tq_q (sy_queue s))"
  shows "tq_q (sy_queue (wf_run evs s)) = [] \<and> map fst (sy_done (wf_run evs s)) = map fst (sy_done s) @ tq_q (sy_queue s) \<and>
    sys_pc (wf_run evs s) = WTop"
  using assms
proof (induction "tq_q (sy_queue s)" arbitrary: s evs)
  case (Cons t ts)
  from Cons.hyps(2) [symmetric] Cons.prems(6) obtain e1 e2 e3 e4 e5 rest where
    evs: "evs = [e1, e2, e3, e4, e5] @ rest" and len: "length rest = 5 * length ts"
    by (auto simp: length_Suc_conv numeral_eq_Suc)
  with Cons.prems(5) obtain n1 r1 n2 r2 n3 r3 n4 r4 n5 r5 where
    first: "[e1, e2, e3, e4, e5] = [Thread n1 r1, Thread n2 r2, Thread n3 r3, Thread n4 r4, Thread n5 r5]"
    and all: "list_all is_thread rest"
    by (cases e1; cases e2; cases e3; cases e4; cases e5) simp_all
  let ?s = "wf_run [e1, e2, e3, e4, e5] s"
  note r = round_executes [OF Cons.prems(1-4) Cons.hyps(2) [symmetric] arg_cong [OF first, of "\<lambda>x. wf_run x s"]]
  have "wf_run evs s = wf_run rest ?s" by (simp add: evs)
  then show ?case
    using Cons.hyps(1) [of ?s rest] r all len Cons.hyps(2) by simp
qed simp

theorem workflow_drains_queue_witness:
  "map fst (sy_done (wf_run (replicate 5 (Thread (\<lambda>_. 0) [''1'', ''2'', ''3'']))
     (wf_event_step (Push demo_task) (wf_start demo_device ''queue'' False)))) = [demo_task]"
proof -
  let ?s = "wf_event_step (Push demo_task) (wf_start demo_device ''queue'' False)"
  have "sys_pc ?s = WTop" "\<not> sys_stop ?s" "\<not> sy_estop ?s" "dv_control (sy_dev ?s) = Some WindSensorControl"
    "tq_q (sy_queue ?s) = [demo_task]" "sy_done ?s = []"
    by (simp_all add: wf_start_def Device_Start_def demo_device_ok Workflow_Start_def Workflow_ctor_def
        sys_stop_def sys_pc_def tq_Push_def tq_ctor_def)
  then show ?thesis
    using workflow_drains_queue [of ?s WindSensorControl "replicate 5 (Thread (\<lambda>_. 0) [''1'', ''2'', ''3''])"]
    by (simp del: wf_event_step.simps add: numeral_eq_Suc)
qed

text \<open>The emergency stop flag is looked at before a pop, not after it: a pop that already waits when the flag
  is set takes a task that arrives later, and the task is executed.\<close>

lemma estop_misses_waiting_pop:
  assumes "sys_pc s = WPop" "dv_control (sy_dev s) = Some c" "tq_q (sy_queue s) = []" "\<not> tq_shut (sy_queue s)"
    and "s' = wf_run [SetEStop True, Push t, Thread n1 r1, Thread n2 r2, Thread n3 r3, Thread n4 r4] s"
  shows "sy_estop s' \<and> sy_done s' = sy_done s @ [(t, DoTask c r3 t n3)]"
proof -
  obtain w where w: "dv_workflow (sy_dev s) = Some w" "wf_pc w = WPop"
    using assms(1) by (cases "dv_workflow (sy_dev s)") (auto simp: sys_pc_def)
  show ?thesis
    using w assms(2-4) by (simp add: assms(5) RunLoop_step_def sys_pc_def tq_PopBlocking_def tq_Push_def)
qed

text \<open>A device whose \<open>Init\<close> failed on the configuration of its control is created all the same, and starts.\<close>

lemma failed_init_device_starts:
  "fst (Device_Init (JObject [(''control'', JNull)]) n (Device_ctor UUVDevice m)) = False \<and>
   (\<exists>d. Create ''uuv'' (JObject [(''control'', JNull)]) now = Some d \<and> fst (Device_Start d))"
  by (simp add: Create_def Device_of_config_def Device_Init_def Device_ctor_def value_string_def CreateControl_def
      init_checks_def Device_Start_def Workflow_Start_def Workflow_ctor_def)

end
