(* ===== verification/Edge.thy ===== *)
theory Edge
  imports Workflow "HOL-Library.AList"
begin

text \<open>
  \<open>src/util/my_edge/BaseEdge.cpp\<close> with the subclasses \<open>UAVEdge\<close> and \<open>UNAEdge\<close> of \<open>src/util/my_edge/demo\<close>, which add
  the choice of a normaliser and handlers for tasks of the edge itself. A call holds the lock of the edge and is one step; the threads of an edge are in the
  theory \<open>EdgeThreads\<close>. The maps are association lists, whose order stands for the unspecified order of an
  \<open>unordered_map\<close>. Messages, the log and the JSON dumps are left out.
\<close>

section \<open>State\<close>

datatype RunState = RsInitializing | RsReady | RsRunning | RsStopping | RsStopped | RsRunOver

datatype SubmitCode = SubmitOk | NotRunning | SubmitEStop | SubmitInvalidCommand | SubmitUnknownDevice | QueueShutdown | SubmitInternalError

record SubmitResult =
  sr_code :: SubmitCode
  sr_edge_id :: string
  sr_device_id :: string
  sr_command_id :: string
  sr_task_id :: string
  sr_queue_size_after :: i64

text \<open>The handlers the repository registers: the built-in one and those of \<open>UNAEdge\<close>, which only log.\<close>

datatype self_handler = SayHello | SelfUP | SelfDown | SelfStop | SelfEStop

record BaseEdge =
  be_edge_id :: string
  be_edge_type :: string
  be_version :: string
  be_cfg :: json
  be_boot_at_ms :: i64
  be_run_state :: RunState
  be_estop :: bool
  be_estop_reason :: string
  be_allow_queue_when_estop :: bool
  be_device_type_by_id :: "(string \<times> string) list"
  be_queues :: "(string \<times> Task task_queue) list"
  be_devices :: "(string \<times> Device) list"
  be_self_device_id :: string
  be_self_task :: Task
  be_self_task_executing :: bool
  be_self_task_run_state :: RunState
  be_self_action_enable :: bool
  be_snapshot_enable :: bool
  be_monitor_thread :: bool
  be_self_action_thread :: bool
  be_snapshot_thread :: bool
  be_self_task_handlers :: "(string \<times> self_handler) list"

definition BaseEdge_ctor :: "string \<Rightarrow> BaseEdge" where
  "BaseEdge_ctor edge_type = \<lparr>be_edge_id = ''edge-default'', be_edge_type = edge_type, be_version = ''0.0'', be_cfg = JNull,
     be_boot_at_ms = 0, be_run_state = RsInitializing, be_estop = False, be_estop_reason = '''',
     be_allow_queue_when_estop = False, be_device_type_by_id = [], be_queues = [], be_devices = [],
     be_self_device_id = ''self'', be_self_task = Task_init, be_self_task_executing = False,
     be_self_task_run_state = RsRunOver, be_self_action_enable = True, be_snapshot_enable = True,
     be_monitor_thread = False, be_self_action_thread = False, be_snapshot_thread = False, be_self_task_handlers = []\<rparr>"

section \<open>Initialisation\<close>

text \<open>An assignment from \<open>cfg.value\<close>: an exception leaves what was assigned before.\<close>

definition assign :: "json_exn + 'v \<Rightarrow> ('v \<Rightarrow> 's \<Rightarrow> 's) \<Rightarrow> ('s \<Rightarrow> json_exn option \<times> 's) \<Rightarrow> 's \<Rightarrow> json_exn option \<times> 's" where
  "assign r f k s = (case r of Inl e \<Rightarrow> (Some e, s) | Inr v \<Rightarrow> k (f v s))"

definition add_queue :: "string \<Rightarrow> string \<Rightarrow> BaseEdge \<Rightarrow> BaseEdge" where
  "add_queue device_id type s =
     s\<lparr>be_device_type_by_id := AList.update device_id type (be_device_type_by_id s),
       be_queues := AList.update device_id (tq_ctor (''queue-'' @ device_id)) (be_queues s)\<rparr>"

definition init_device :: "(nat \<Rightarrow> i64) \<Rightarrow> json \<Rightarrow> BaseEdge \<Rightarrow> BaseEdge" where
  "init_device now dcfg s =
     (case value_string dcfg ''device_id'' '''' of
        Inl e \<Rightarrow> s
      | Inr device_id \<Rightarrow>
          (case value_string dcfg ''type'' '''' of
             Inl e \<Rightarrow> s
           | Inr type \<Rightarrow>
               if device_id = [] \<or> type = [] then s
               else
                 let s = add_queue device_id type s in
                 (case Create type dcfg now of
                    None \<Rightarrow> s
                  | Some d \<Rightarrow> s\<lparr>be_devices := AList.update device_id d (be_devices s)\<rparr>)))"

definition RegisterSelfTaskHandler :: "string \<Rightarrow> self_handler \<Rightarrow> BaseEdge \<Rightarrow> BaseEdge" where
  "RegisterSelfTaskHandler action h s = s\<lparr>be_self_task_handlers := AList.update action h (be_self_task_handlers s)\<rparr>"

definition init_devices :: "json \<Rightarrow> (nat \<Rightarrow> i64) \<Rightarrow> BaseEdge \<Rightarrow> BaseEdge" where
  "init_devices cfg now s =
     (case field cfg ''devices'' of Some (JArray ds) \<Rightarrow> fold (init_device now) ds s | _ \<Rightarrow> s)"

text \<open>\<open>None\<close>: returned true; the exception otherwise.\<close>

definition be_Init :: "json \<Rightarrow> (nat \<Rightarrow> i64) \<Rightarrow> BaseEdge \<Rightarrow> json_exn option \<times> BaseEdge" where
  "be_Init cfg now s =
     (let s = s\<lparr>be_run_state := RsInitializing, be_self_task := Task_init, be_self_task_run_state := RsRunOver,
            be_self_task_executing := False, be_cfg := cfg\<rparr> in
      assign (value_string cfg ''edge_id'' (be_edge_id s)) (\<lambda>v s. s\<lparr>be_edge_id := v\<rparr>) (
      assign (value_string cfg ''version'' (be_version s)) (\<lambda>v s. s\<lparr>be_version := v\<rparr>) (
      assign (value_string cfg ''edge_type'' (be_edge_type s)) (\<lambda>v s. s\<lparr>be_edge_type := v\<rparr>) (
      assign (value_bool cfg ''allow_queue_when_estop'' False) (\<lambda>v s. s\<lparr>be_allow_queue_when_estop := v\<rparr>) (
      assign (value_bool cfg ''self_action_enable'' (be_self_action_enable s)) (\<lambda>v s. s\<lparr>be_self_action_enable := v\<rparr>) (
      assign (value_string cfg ''self_device_id'' (be_self_device_id s)) (\<lambda>v s. s\<lparr>be_self_device_id := v\<rparr>) (
      assign (value_bool cfg ''snapshot_enable'' (be_snapshot_enable s)) (\<lambda>v s. s\<lparr>be_snapshot_enable := v\<rparr>) (
      assign (check_int cfg ''snapshot_interval_ms'') (\<lambda>v s. s) (\<lambda>s.
        let s = s\<lparr>be_boot_at_ms := now 0, be_devices := [], be_queues := [], be_device_type_by_id := []\<rparr>;
            s = add_queue (be_self_device_id s) ''self'' s;
            s = init_devices cfg now s;
            s = RegisterSelfTaskHandler ''say_hello'' SayHello s
        in (None, s\<lparr>be_run_state := RsReady\<rparr>))))))))) s)"

text \<open>\<open>UNAEdge::Init\<close> adds its handlers; the link to its vehicle is outside the model.\<close>

definition una_Init :: "json \<Rightarrow> (nat \<Rightarrow> i64) \<Rightarrow> BaseEdge \<Rightarrow> json_exn option \<times> BaseEdge" where
  "una_Init cfg now s =
     (case be_Init cfg now s of
        (Some e, s) \<Rightarrow> (Some e, s)
      | (None, s) \<Rightarrow> (None, RegisterSelfTaskHandler ''estop'' SelfEStop (RegisterSelfTaskHandler ''stop'' SelfStop
          (RegisterSelfTaskHandler ''down'' SelfDown (RegisterSelfTaskHandler ''up'' SelfUP s)))))"

section \<open>Start and shutdown\<close>

definition StartSelfTaskMonitorThreadLocked :: "BaseEdge \<Rightarrow> BaseEdge" where
  "StartSelfTaskMonitorThreadLocked s = s\<lparr>be_monitor_thread := True\<rparr>"

definition StartSelfActionThreadLocked :: "BaseEdge \<Rightarrow> BaseEdge" where
  "StartSelfActionThreadLocked s = (if \<not> be_self_action_enable s then s else s\<lparr>be_self_action_thread := True\<rparr>)"

definition StartSnapshotThreadLocked :: "BaseEdge \<Rightarrow> BaseEdge" where
  "StartSnapshotThreadLocked s = (if \<not> be_snapshot_enable s then s else s\<lparr>be_snapshot_thread := True\<rparr>)"

text \<open>The devices still to be started, in the order of the map.\<close>

fun start_devices :: "(string \<times> Device) list \<Rightarrow> BaseEdge \<Rightarrow> bool \<times> BaseEdge" where
  "start_devices [] s = (True, s)"
| "start_devices ((device_id, d) # ds) s =
     (case map_of (be_queues s) device_id of
        None \<Rightarrow> (False, s)
      | Some q \<Rightarrow>
          (case Device_Start d of
             (False, d) \<Rightarrow> (False, s)
           | (True, d) \<Rightarrow> start_devices ds (s\<lparr>be_devices := AList.update device_id d (be_devices s)\<rparr>)))"

definition be_Start :: "BaseEdge \<Rightarrow> bool \<times> BaseEdge" where
  "be_Start s =
     (if be_run_state s \<noteq> RsReady then (False, s)
      else
        let s = StartSnapshotThreadLocked (StartSelfActionThreadLocked (StartSelfTaskMonitorThreadLocked s)) in
        (case start_devices (be_devices s) s of
           (False, s) \<Rightarrow> (False, s)
         | (True, s) \<Rightarrow> (True, s\<lparr>be_run_state := RsRunning\<rparr>)))"

text \<open>The joins inside \<open>Shutdown\<close> are taken to come back.\<close>

definition be_Shutdown :: "BaseEdge \<Rightarrow> BaseEdge" where
  "be_Shutdown s =
     (if be_run_state s = RsStopped \<or> be_run_state s = RsStopping then s
      else s\<lparr>be_snapshot_thread := False, be_self_action_thread := False, be_devices := [], be_queues := [],
             be_device_type_by_id := [], be_run_state := RsStopped\<rparr>)"

definition be_SetEStop :: "bool \<Rightarrow> string \<Rightarrow> BaseEdge \<Rightarrow> BaseEdge" where
  "be_SetEStop active reason s = s\<lparr>be_estop := active, be_estop_reason := reason\<rparr>"

section \<open>Tasks\<close>

definition AppendTaskToQueueLocked :: "string \<Rightarrow> Task \<Rightarrow> BaseEdge \<Rightarrow> bool \<times> BaseEdge" where
  "AppendTaskToQueueLocked device_id task s =
     (case map_of (be_queues s) device_id of
        None \<Rightarrow> (False, s)
      | Some q \<Rightarrow>
          if tq_IsShutdown q then (False, s)
          else (True, s\<lparr>be_queues := AList.update device_id (snd (tq_Push task q)) (be_queues s)\<rparr>))"

definition be_AppendTask :: "Task \<Rightarrow> BaseEdge \<Rightarrow> bool \<times> BaseEdge" where
  "be_AppendTask task s =
     (if t_device_id task = [] then (False, s) else AppendTaskToQueueLocked (t_device_id task) task s)"

definition be_AppendJsonTask :: "json \<Rightarrow> BaseEdge \<Rightarrow> bool \<times> BaseEdge" where
  "be_AppendJsonTask taskj s = be_AppendTask (Task_fromJson taskj) s"

definition MakeResult :: "SubmitCode \<Rightarrow> RawCommand \<Rightarrow> string \<Rightarrow> string \<Rightarrow> i64 \<Rightarrow> BaseEdge \<Rightarrow> SubmitResult" where
  "MakeResult code cmd device_id task_id queue_size_after s =
     \<lparr>sr_code = code, sr_edge_id = be_edge_id s, sr_device_id = device_id, sr_command_id = rc_command_id cmd,
      sr_task_id = task_id, sr_queue_size_after = queue_size_after\<rparr>"

text \<open>The default value of the parameter \<open>task_id\<close> of \<open>MakeResult\<close> is written \<open>0\<close>: a string made from a null
  pointer. A refusal relies on it.\<close>

definition default_task_id :: "cxx_error + string" where
  "default_task_id = Inl LogicError"

definition refusal :: "SubmitCode \<Rightarrow> RawCommand \<Rightarrow> string \<Rightarrow> BaseEdge \<Rightarrow> cxx_error + SubmitResult" where
  "refusal code cmd device_id s =
     (case default_task_id of Inl e \<Rightarrow> Inl e | Inr task_id \<Rightarrow> Inr (MakeResult code cmd device_id task_id 0 s))"

text \<open>\<open>NormalizeCommandLocked\<close> of \<open>UAVEdge\<close> and \<open>UNAEdge\<close>.\<close>

definition NormalizeCommandLocked :: "RawCommand \<Rightarrow> string \<Rightarrow> string \<Rightarrow> (nat \<Rightarrow> i64) \<Rightarrow> u64 \<Rightarrow> BaseEdge \<Rightarrow> Task option \<times> u64" where
  "NormalizeCommandLocked cmd device_id device_type now seq s =
     (case CreateNormalizer device_type of
        None \<Rightarrow> (None, seq)
      | Some n \<Rightarrow>
          (case Normalize n cmd (be_edge_id s) now seq of
             (None, seq) \<Rightarrow> (None, seq)
           | (Some t, seq) \<Rightarrow>
               let t = (if t_device_id t = [] then t\<lparr>t_device_id := device_id\<rparr> else t) in
               if t_device_id t \<noteq> device_id then (None, seq) else (Some t, seq)))"

definition be_Submit :: "RawCommand \<Rightarrow> (nat \<Rightarrow> i64) \<Rightarrow> u64 \<Rightarrow> BaseEdge \<Rightarrow> (cxx_error + SubmitResult) \<times> u64 \<times> BaseEdge" where
  "be_Submit cmd now seq s =
     (if be_run_state s \<noteq> RsRunning then (refusal NotRunning cmd '''' s, seq, s)
      else if be_estop s \<and> \<not> be_allow_queue_when_estop s then (refusal SubmitEStop cmd '''' s, seq, s)
      else if \<not> is_object (rc_payload cmd) then (refusal SubmitInvalidCommand cmd '''' s, seq, s)
      else
        let device_id = GetStringOr (rc_payload cmd) ''device_id'' '''' in
        if device_id = [] then (refusal SubmitInvalidCommand cmd '''' s, seq, s)
        else
          (case map_of (be_device_type_by_id s) device_id of
             None \<Rightarrow> (refusal SubmitUnknownDevice cmd device_id s, seq, s)
           | Some type \<Rightarrow>
               (case NormalizeCommandLocked cmd device_id type now seq s of
                  (None, seq) \<Rightarrow> (refusal SubmitInvalidCommand cmd device_id s, seq, s)
                | (Some task, seq) \<Rightarrow>
                    (case AppendTaskToQueueLocked device_id task s of
                       (False, s) \<Rightarrow> (Inr (MakeResult SubmitInternalError cmd device_id (t_task_id task) 0 s), seq, s)
                     | (True, s) \<Rightarrow>
                         let qsize = (case map_of (be_queues s) device_id of Some q \<Rightarrow> of_nat (tq_Size q) | None \<Rightarrow> 0) in
                         (Inr (MakeResult SubmitOk cmd device_id (t_task_id task) qsize s), seq, s)))))"

section \<open>Status\<close>

definition edge_run_state :: "RunState \<Rightarrow> bool \<Rightarrow> EdgeRunState" where
  "edge_run_state rs estop =
     (if rs = RsInitializing \<or> rs = RsReady then EdgeInitializing
      else if rs = RsRunning then (if estop then EdgeEStop else EdgeRunning)
      else EdgeDegraded)"

definition queue_depth :: "BaseEdge \<Rightarrow> string \<Rightarrow> i64 option" where
  "queue_depth s device_id = map_option (\<lambda>q. of_nat (tq_Size q)) (map_of (be_queues s) device_id)"

definition device_snapshot :: "BaseEdge \<Rightarrow> string \<times> Device \<Rightarrow> string \<times> DeviceStatus" where
  "device_snapshot s d =
     (let ds = Device_GetStatusSnapshot (snd d) in
      (fst d, case queue_depth s (fst d) of Some n \<Rightarrow> ds\<lparr>ds_queue_depth := n\<rparr> | None \<Rightarrow> ds))"

definition be_GetStatusSnapshot :: "BaseEdge \<Rightarrow> EdgeStatus" where
  "be_GetStatusSnapshot s =
     (let pending = sum_list (map (\<lambda>(k, d). case queue_depth s k of Some n \<Rightarrow> n | None \<Rightarrow> 0) (be_devices s));
          running = of_nat (length (filter (\<lambda>(k, d). ds_work_state (Device_GetStatusSnapshot d) = Busy) (be_devices s)))
      in \<lparr>es_edge_id = be_edge_id s, es_run_state = edge_run_state (be_run_state s) (be_estop s),
          es_boot_at_ms = be_boot_at_ms s, es_last_heartbeat_at_ms = 0, es_estop_active = be_estop s,
          es_estop_reason = be_estop_reason s, es_devices = map (device_snapshot s) (be_devices s),
          es_tasks_pending_total = pending + (case queue_depth s (be_self_device_id s) of Some n \<Rightarrow> n | None \<Rightarrow> 0),
          es_tasks_running_total = running, es_version = be_version s\<rparr>)"

section \<open>The edge between calls\<close>

text \<open>One step of the thread of a device of the edge.\<close>

definition device_thread_step :: "string \<Rightarrow> (nat \<Rightarrow> i64) \<Rightarrow> string list \<Rightarrow> BaseEdge \<Rightarrow> BaseEdge" where
  "device_thread_step device_id now readings s =
     (case (map_of (be_queues s) device_id, map_of (be_devices s) device_id) of
        (Some q, Some d) \<Rightarrow>
          (case RunLoop_step (be_estop s) now readings q d of (q, d) \<Rightarrow>
             s\<lparr>be_queues := AList.update device_id q (be_queues s), be_devices := AList.update device_id d (be_devices s)\<rparr>)
      | _ \<Rightarrow> s)"

inductive edge_step :: "BaseEdge \<Rightarrow> BaseEdge \<Rightarrow> bool" where
  init: "edge_step s (snd (be_Init cfg now s))"
| una_init: "edge_step s (snd (una_Init cfg now s))"
| start: "edge_step s (snd (be_Start s))"
| submit: "edge_step s (snd (snd (be_Submit cmd now seq s)))"
| append: "edge_step s (snd (be_AppendTask task s))"
| append_json: "edge_step s (snd (be_AppendJsonTask taskj s))"
| estop: "edge_step s (be_SetEStop active reason s)"
| thread: "edge_step s (device_thread_step device_id now readings s)"
| shutdown: "edge_step s (be_Shutdown s)"

definition keys :: "(string \<times> 'a) list \<Rightarrow> string set" where
  "keys m = fst ` set m"

definition edge_inv :: "BaseEdge \<Rightarrow> bool" where
  "edge_inv s \<longleftrightarrow>
     distinct (map fst (be_queues s)) \<and> distinct (map fst (be_devices s)) \<and>
     keys (be_device_type_by_id s) = keys (be_queues s) \<and> keys (be_devices s) \<subseteq> keys (be_queues s) \<and>
     (\<forall>(k, q) \<in> set (be_queues s). \<not> tq_shut q) \<and>
     (be_run_state s = RsReady \<or> be_run_state s = RsRunning \<longrightarrow> be_self_device_id s \<in> keys (be_queues s)) \<and>
     (be_run_state s = RsRunning \<longrightarrow> (\<forall>(k, d) \<in> set (be_devices s). dv_control d \<noteq> None \<and> dv_workflow d \<noteq> None))"

lemma keys_simps [simp]: "keys [] = {}" "keys (x # m) = insert (fst x) (keys m)"
  by (simp_all add: keys_def)

lemma keys_update [simp]: "keys (AList.update k v m) = insert k (keys m)"
  by (simp add: keys_def dom_update)

lemma distinct_keys_update [simp]: "distinct (map fst m) \<Longrightarrow> distinct (map fst (AList.update k v m))"
  by (rule distinct_update)

lemma keys_map_of: "k \<in> keys m \<longleftrightarrow> (\<exists>v. map_of m k = Some v)"
  by (auto simp: keys_def domD domI dom_map_of_conv_image_fst [symmetric])

lemma add_queue_frame [simp]:
  "be_run_state (add_queue k ty s) = be_run_state s" "be_devices (add_queue k ty s) = be_devices s"
  "be_self_device_id (add_queue k ty s) = be_self_device_id s"
  by (simp_all add: add_queue_def)

definition maps_inv :: "BaseEdge \<Rightarrow> bool" where
  "maps_inv s \<longleftrightarrow>
     distinct (map fst (be_queues s)) \<and> distinct (map fst (be_devices s)) \<and>
     keys (be_device_type_by_id s) = keys (be_queues s) \<and> keys (be_devices s) \<subseteq> keys (be_queues s) \<and>
     (\<forall>(k, q) \<in> set (be_queues s). \<not> tq_shut q)"

lemma edge_inv_maps: "edge_inv s \<Longrightarrow> maps_inv s"
  by (simp add: edge_inv_def maps_inv_def)

lemma add_queue_inv: "maps_inv s \<Longrightarrow> maps_inv (add_queue k ty s)"
  using all_update [of "be_queues s" "\<lambda>k q. \<not> tq_shut q" k "tq_ctor (''queue-'' @ k)"]
  by (auto simp: maps_inv_def add_queue_def tq_ctor_def)

lemma init_device_inv:
  assumes "maps_inv s"
  shows "maps_inv (init_device now dcfg s) \<and> be_self_device_id (init_device now dcfg s) = be_self_device_id s \<and>
    keys (be_queues s) \<subseteq> keys (be_queues (init_device now dcfg s))"
proof -
  have "maps_inv (add_queue k ty s\<lparr>be_devices := AList.update k d (be_devices s)\<rparr>)" for k ty d
    using add_queue_inv [OF assms, of k ty] by (auto simp: maps_inv_def add_queue_def)
  moreover have "k \<in> keys (be_queues (add_queue k ty s))" for k ty by (simp add: add_queue_def)
  moreover have "keys (be_queues s) \<subseteq> keys (be_queues (add_queue k ty s))" for k ty by (auto simp: add_queue_def)
  ultimately show ?thesis
    using assms add_queue_inv [OF assms] by (auto simp: init_device_def Let_def split: sum.split option.split)
qed

lemma init_devices_inv:
  assumes "maps_inv s" "be_self_device_id s \<in> keys (be_queues s)"
  shows "maps_inv (init_devices cfg now s) \<and> be_self_device_id (init_devices cfg now s) \<in> keys (be_queues (init_devices cfg now s))"
proof -
  have "maps_inv (fold (init_device now) ds s) \<and> be_self_device_id (fold (init_device now) ds s) \<in> keys (be_queues (fold (init_device now) ds s))"
    for ds
    using assms
  proof (induction ds arbitrary: s)
    case (Cons d ds)
    from Cons.IH [of "init_device now d s"] init_device_inv [OF Cons.prems(1), of now d] Cons.prems(2) show ?case by auto
  qed simp
  then show ?thesis using assms by (simp add: init_devices_def split: option.split json.split)
qed

text \<open>While \<open>Init\<close> runs the edge is not ready.\<close>

definition in_init :: "BaseEdge \<Rightarrow> bool" where
  "in_init s \<longleftrightarrow> maps_inv s \<and> be_run_state s = RsInitializing"

lemma in_init_inv: "in_init s \<Longrightarrow> edge_inv s"
  by (simp add: in_init_def edge_inv_def maps_inv_def)

lemma assign_inv:
  assumes "in_init s" "\<And>v. in_init (f v s)" "\<And>s'. in_init s' \<Longrightarrow> edge_inv (snd (k s'))"
  shows "edge_inv (snd (assign r f k s))"
  using assms by (simp add: assign_def in_init_inv split: sum.split)

lemma init_tail_inv:
  "edge_inv (RegisterSelfTaskHandler a h (init_devices cfg now (add_queue (be_self_device_id s) ''self''
     (s\<lparr>be_boot_at_ms := b, be_devices := [], be_queues := [], be_device_type_by_id := []\<rparr>)))\<lparr>be_run_state := RsReady\<rparr>)"
proof -
  let ?s = "add_queue (be_self_device_id s) ''self''
     (s\<lparr>be_boot_at_ms := b, be_devices := [], be_queues := [], be_device_type_by_id := []\<rparr>)"
  have "maps_inv ?s" "be_self_device_id ?s \<in> keys (be_queues ?s)"
    by (simp_all add: maps_inv_def add_queue_def tq_ctor_def)
  from init_devices_inv [OF this, of cfg now] show ?thesis
    by (simp add: edge_inv_def maps_inv_def RegisterSelfTaskHandler_def)
qed

lemma be_Init_inv:
  assumes "edge_inv s" shows "edge_inv (snd (be_Init cfg now s))"
proof -
  have "in_init (s\<lparr>be_run_state := RsInitializing, be_self_task := Task_init, be_self_task_run_state := RsRunOver,
            be_self_task_executing := False, be_cfg := cfg\<rparr>)"
    using edge_inv_maps [OF assms] by (simp add: in_init_def maps_inv_def)
  then show ?thesis
    unfolding be_Init_def Let_def
    by (intro assign_inv) (simp_all add: in_init_def maps_inv_def init_tail_inv)
qed

lemma register_inv: "edge_inv s \<Longrightarrow> edge_inv (RegisterSelfTaskHandler a h s)"
  by (simp add: edge_inv_def RegisterSelfTaskHandler_def)

lemma una_Init_inv: "edge_inv s \<Longrightarrow> edge_inv (snd (una_Init cfg now s))"
  using be_Init_inv [of s cfg now] by (auto simp: una_Init_def register_inv split: prod.splits option.splits)

lemma Device_Start_True: "Device_Start d = (True, d') \<Longrightarrow> dv_control d' \<noteq> None \<and> dv_workflow d' \<noteq> None"
  by (auto simp: Device_Start_def split: option.splits prod.splits)

lemma start_devices_maps:
  assumes "maps_inv s" "keys ds \<subseteq> keys (be_devices s)" "start_devices ds s = (ok, s')"
  shows "maps_inv s' \<and> be_queues s' = be_queues s \<and> be_self_device_id s' = be_self_device_id s \<and> be_run_state s' = be_run_state s"
  using assms
proof (induction ds arbitrary: s)
  case (Cons kd ds)
  obtain k d where kd: "kd = (k, d)" by fastforce
  have "maps_inv (s\<lparr>be_devices := AList.update k d' (be_devices s)\<rparr>)" for d'
    using Cons.prems(1,2) by (auto simp: maps_inv_def kd)
  then show ?case
    using Cons.prems Cons.IH [of "s\<lparr>be_devices := AList.update k (snd (Device_Start d)) (be_devices s)\<rparr>"]
    by (auto simp: kd split: option.splits prod.splits bool.splits)
qed simp

text \<open>After a successful start every device that was listed has a control and a workflow, and so have those
  started before.\<close>

lemma start_devices_workflows:
  assumes "distinct (map fst (be_devices s))" "start_devices ds s = (True, s')"
    and "\<forall>(k, d) \<in> set (be_devices s). k \<notin> keys ds \<longrightarrow> dv_control d \<noteq> None \<and> dv_workflow d \<noteq> None"
  shows "\<forall>(k, d) \<in> set (be_devices s'). dv_control d \<noteq> None \<and> dv_workflow d \<noteq> None"
  using assms
proof (induction ds arbitrary: s)
  case Nil
  then show ?case by (simp add: keys_def)
next
  case (Cons kd ds)
  obtain k d where kd: "kd = (k, d)" by fastforce
  from Cons.prems(2) obtain d' where d': "Device_Start d = (True, d')"
    and r: "start_devices ds (s\<lparr>be_devices := AList.update k d' (be_devices s)\<rparr>) = (True, s')"
    by (auto simp: kd split: option.splits prod.splits bool.splits)
  have "\<forall>(j, e) \<in> set (AList.update k d' (be_devices s)). j \<notin> keys ds \<longrightarrow> dv_control e \<noteq> None \<and> dv_workflow e \<noteq> None"
    using Cons.prems(3) Device_Start_True [OF d'] set_update [OF _ Cons.prems(1), of _ _ k d']
    by (fastforce simp: kd keys_def)
  then show ?case using Cons.IH [OF _ r] Cons.prems(1) by simp
qed

lemma be_Start_inv:
  assumes "edge_inv s" shows "edge_inv (snd (be_Start s))"
proof (cases "be_run_state s = RsReady")
  case True
  let ?s = "StartSnapshotThreadLocked (StartSelfActionThreadLocked (StartSelfTaskMonitorThreadLocked s))"
  have f: "be_devices ?s = be_devices s" "be_queues ?s = be_queues s" "be_self_device_id ?s = be_self_device_id s"
    "be_run_state ?s = RsReady" "be_device_type_by_id ?s = be_device_type_by_id s"
    using True
    by (simp_all add: StartSnapshotThreadLocked_def StartSelfActionThreadLocked_def StartSelfTaskMonitorThreadLocked_def)
  have m: "maps_inv ?s" using edge_inv_maps [OF assms] by (simp add: maps_inv_def f)
  obtain ok s' where r: "start_devices (be_devices s) ?s = (ok, s')" by fastforce
  note i = start_devices_maps [OF m _ r]
  have w: "ok \<Longrightarrow> \<forall>(k, d) \<in> set (be_devices s'). dv_control d \<noteq> None \<and> dv_workflow d \<noteq> None"
  proof (rule start_devices_workflows [of ?s "be_devices s" s'])
    show "\<forall>(k, d) \<in> set (be_devices ?s). k \<notin> keys (be_devices s) \<longrightarrow> dv_control d \<noteq> None \<and> dv_workflow d \<noteq> None"
      by (force simp: f keys_def)
  qed (use r m in \<open>simp_all add: maps_inv_def f\<close>)
  have "be_self_device_id s \<in> keys (be_queues s)" using assms True by (simp add: edge_inv_def)
  then show ?thesis
    using i w True r by (cases ok) (auto simp: be_Start_def Let_def f edge_inv_def maps_inv_def)
qed (use assms in \<open>simp add: be_Start_def\<close>)

lemma AppendTaskToQueueLocked_inv:
  assumes "edge_inv s" shows "edge_inv (snd (AppendTaskToQueueLocked k t s))"
proof (cases "map_of (be_queues s) k")
  case (Some q)
  then have k: "k \<in> keys (be_queues s)" "\<not> tq_shut q"
    using assms map_of_all [of "be_queues s" "\<lambda>k q. \<not> tq_shut q" k q] by (auto simp: keys_map_of edge_inv_def)
  have "\<forall>(k, q) \<in> set (AList.update k (q\<lparr>tq_q := tq_q q @ [t]\<rparr>) (be_queues s)). \<not> tq_shut q"
    using assms k(2) by (intro all_update) (auto simp: edge_inv_def)
  then show ?thesis
    using assms k Some by (auto simp: AppendTaskToQueueLocked_def tq_IsShutdown_def tq_Push_def edge_inv_def insert_absorb)
qed (use assms in \<open>simp add: AppendTaskToQueueLocked_def\<close>)

lemma be_AppendTask_inv: "edge_inv s \<Longrightarrow> edge_inv (snd (be_AppendTask t s))"
  by (simp add: be_AppendTask_def AppendTaskToQueueLocked_inv)

lemma be_Submit_inv: "edge_inv s \<Longrightarrow> edge_inv (snd (snd (be_Submit cmd now seq s)))"
proof -
  assume "edge_inv s"
  then have "edge_inv s'" if "AppendTaskToQueueLocked k t s = (b, s')" for k t b s'
    using AppendTaskToQueueLocked_inv [of s k t] that by simp
  then show ?thesis using \<open>edge_inv s\<close>
    by (auto simp: be_Submit_def Let_def split: option.split prod.split bool.split)
qed

lemma RunLoop_step_frame:
  assumes "RunLoop_step e now rs q d = (q', d')"
  shows "tq_shut q' = tq_shut q \<and> dv_control d' = dv_control d \<and> (dv_workflow d' = None) = (dv_workflow d = None)"
  using assms
  by (auto simp: RunLoop_step_def tq_PopBlocking_def split: option.splits wf_pc.splits if_splits list.splits)

lemma device_thread_step_inv:
  assumes "edge_inv s" shows "edge_inv (device_thread_step k now rs s)"
proof (cases "map_of (be_queues s) k \<noteq> None \<and> map_of (be_devices s) k \<noteq> None")
  case True
  then obtain q d where q: "map_of (be_queues s) k = Some q" and d: "map_of (be_devices s) k = Some d" by blast
  obtain q' d' where r: "RunLoop_step (be_estop s) now rs q d = (q', d')" by fastforce
  note f = RunLoop_step_frame [OF r]
  have k: "k \<in> keys (be_queues s)" "k \<in> keys (be_devices s)" using q d by (simp_all add: keys_map_of)
  have "\<forall>(k, q) \<in> set (AList.update k q' (be_queues s)). \<not> tq_shut q"
    using assms f map_of_all [of "be_queues s" "\<lambda>k q. \<not> tq_shut q" k q] q by (intro all_update) (auto simp: edge_inv_def)
  moreover have "be_run_state s = RsRunning \<longrightarrow>
      (\<forall>(k, d) \<in> set (AList.update k d' (be_devices s)). dv_control d \<noteq> None \<and> dv_workflow d \<noteq> None)"
    using assms f map_of_all [of "be_devices s" "\<lambda>k d. dv_control d \<noteq> None \<and> dv_workflow d \<noteq> None" k d] d
    by (intro impI all_update) (auto simp: edge_inv_def)
  ultimately show ?thesis
    using assms k by (auto simp: device_thread_step_def q d r edge_inv_def insert_absorb)
qed (use assms in \<open>auto simp: device_thread_step_def split: option.split\<close>)

lemma edge_step_inv: "edge_step s s' \<Longrightarrow> edge_inv s \<Longrightarrow> edge_inv s'"
proof (induction rule: edge_step.induct)
  case (estop s active reason)
  then show ?case by (simp add: be_SetEStop_def edge_inv_def)
next
  case (shutdown s)
  then show ?case by (auto simp: be_Shutdown_def edge_inv_def)
qed (simp_all add: be_Init_inv una_Init_inv be_Start_inv be_Submit_inv be_AppendTask_inv be_AppendJsonTask_def device_thread_step_inv)

interpretation edge: invariant_system "\<lambda>s. \<exists>edge_type. s = BaseEdge_ctor edge_type" edge_step edge_inv
proof
  show "edge_inv s" if "\<exists>edge_type. s = BaseEdge_ctor edge_type" for s
    using that by (auto simp: BaseEdge_ctor_def edge_inv_def)
qed (rule edge_step_inv)

section \<open>Submitting commands\<close>

lemma append_to_queue:
  assumes "edge_inv s" "map_of (be_device_type_by_id s) k = Some ty"
  shows "\<exists>q. map_of (be_queues s) k = Some q \<and> \<not> tq_shut q \<and> AppendTaskToQueueLocked k t s =
    (True, s\<lparr>be_queues := AList.update k (q\<lparr>tq_q := tq_q q @ [t]\<rparr>) (be_queues s)\<rparr>)"
proof -
  have "k \<in> keys (be_queues s)" using assms keys_map_of [of k "be_device_type_by_id s"] by (auto simp: edge_inv_def)
  then obtain q where q: "map_of (be_queues s) k = Some q" by (auto simp: keys_map_of)
  moreover have "\<not> tq_shut q"
    using assms(1) map_of_all [of "be_queues s" "\<lambda>k q. \<not> tq_shut q" k q] q by (auto simp: edge_inv_def)
  ultimately show ?thesis by (simp add: AppendTaskToQueueLocked_def tq_IsShutdown_def tq_Push_def)
qed

text \<open>What a command needs to be accepted.\<close>

definition acceptable :: "RawCommand \<Rightarrow> BaseEdge \<Rightarrow> bool" where
  "acceptable cmd s \<longleftrightarrow>
     be_run_state s = RsRunning \<and> (be_estop s \<longrightarrow> be_allow_queue_when_estop s) \<and> is_object (rc_payload cmd) \<and>
     GetStringOr (rc_payload cmd) ''device_id'' [] \<noteq> [] \<and>
     (\<exists>ty n. map_of (be_device_type_by_id s) (GetStringOr (rc_payload cmd) ''device_id'' []) = Some ty \<and>
        CreateNormalizer ty = Some n \<and> command_of n (rc_payload cmd) \<noteq> None)"

lemma NormalizeCommandLocked_cases:
  assumes "is_object (rc_payload cmd)" "dev = GetStringOr (rc_payload cmd) ''device_id'' []" "dev \<noteq> []"
    and "NormalizeCommandLocked cmd dev ty now seq s = (res, seq')"
  shows "(res \<noteq> None) = (\<exists>n. CreateNormalizer ty = Some n \<and> command_of n (rc_payload cmd) \<noteq> None) \<and>
    (\<forall>t. res = Some t \<longrightarrow> t_device_id t = dev \<and> Task_wf t \<and> t_edge_id t = be_edge_id s)"
proof (cases "CreateNormalizer ty")
  case None
  then show ?thesis using assms(4) by (simp add: NormalizeCommandLocked_def)
next
  case (Some n)
  show ?thesis
  proof (cases "command_of n (rc_payload cmd)")
    case None
    then show ?thesis using assms Some by (simp add: NormalizeCommandLocked_def Normalize_cases)
  next
    case (Some c)
    obtain cap act where c: "c = (cap, act)" by fastforce
    obtain t q where f: "fill_task cmd (be_edge_id s) dev cap act now seq = (t, q)" by fastforce
    note ff = fill_task_fields [OF f]
    have "res = Some t"
      using assms Some c f ff \<open>CreateNormalizer ty = Some n\<close>
      by (simp add: NormalizeCommandLocked_def Normalize_cases Let_def)
    then show ?thesis using ff Some \<open>CreateNormalizer ty = Some n\<close> by simp
  qed
qed

lemma refusal_throws: "refusal code cmd device_id s = Inl LogicError"
  by (simp add: refusal_def default_task_id_def)

text \<open>C9: The outcome of submitting a command to an edge, in every state its calls and threads can reach. The
  command is accepted exactly when the edge runs, is not in emergency stop or may queue then, and the
  payload names a device of a known type with the fields its normaliser needs; then one well-formed task,
  addressed to that device, is added at the end of that queue and nothing else changes. A refused command
  changes nothing, but the caller gets no result: each refusal ends in the exception of the default task
  identifier.\<close>

theorem submit_outcome:
  assumes "edge_step\<^sup>*\<^sup>* (BaseEdge_ctor edge_type) s" and "be_Submit cmd now seq s = (r, seq', s')"
  shows "if acceptable cmd s then
      (\<exists>sr t q. let dev = GetStringOr (rc_payload cmd) ''device_id'' [] in
         r = Inr sr \<and> sr_code sr = SubmitOk \<and> map_of (be_queues s) dev = Some q \<and> t_device_id t = dev \<and>
         t_task_id t = sr_task_id sr \<and> Task_wf t \<and>
         s' = s\<lparr>be_queues := AList.update dev (q\<lparr>tq_q := tq_q q @ [t]\<rparr>) (be_queues s)\<rparr>)
    else r = Inl LogicError \<and> s' = s"
proof -
  let ?dev = "GetStringOr (rc_payload cmd) ''device_id'' []"
  have inv: "edge_inv s" using edge.reachable_inv assms(1) by blast
  show ?thesis
  proof (cases "be_run_state s = RsRunning \<and> (be_estop s \<longrightarrow> be_allow_queue_when_estop s) \<and> is_object (rc_payload cmd) \<and> ?dev \<noteq> []")
    case False
    then have "s' = s \<and> r = Inl LogicError"
      using assms(2) unfolding be_Submit_def Let_def by (simp add: refusal_throws split: if_splits)
    moreover have "\<not> acceptable cmd s" using False unfolding acceptable_def by blast
    ultimately show ?thesis by simp
  next
    case ok: True
    show ?thesis
    proof (cases "map_of (be_device_type_by_id s) ?dev")
      case None
      then show ?thesis using ok assms(2) by (auto simp: be_Submit_def refusal_throws acceptable_def Let_def)
    next
      case (Some ty)
      obtain res sq where n: "NormalizeCommandLocked cmd ?dev ty now seq s = (res, sq)" by fastforce
      note nc = NormalizeCommandLocked_cases [OF _ refl _ n]
      show ?thesis
      proof (cases res)
        case None
        then show ?thesis using ok Some n nc assms(2) by (auto simp: be_Submit_def refusal_throws acceptable_def Let_def)
      next
        case t: (Some t)
        obtain q where q: "map_of (be_queues s) ?dev = Some q" and a: "AppendTaskToQueueLocked ?dev t s =
            (True, s\<lparr>be_queues := AList.update ?dev (q\<lparr>tq_q := tq_q q @ [t]\<rparr>) (be_queues s)\<rparr>)"
          using append_to_queue [OF inv Some, of t] by blast
        have acc: "acceptable cmd s" using ok Some nc t by (auto simp: acceptable_def)
        have "\<exists>sr. r = Inr sr \<and> sr_code sr = SubmitOk \<and> sr_task_id sr = t_task_id t"
          "s' = s\<lparr>be_queues := AList.update ?dev (q\<lparr>tq_q := tq_q q @ [t]\<rparr>) (be_queues s)\<rparr>"
          using assms(2) ok Some n t a by (auto simp: be_Submit_def MakeResult_def Let_def)
        then show ?thesis using acc q nc ok t by (auto simp: Let_def)
      qed
    qed
  qed
qed

definition demo_edge_cfg :: json where
  "demo_edge_cfg = JObject [(''edge_id'', JString ''e1''),
     (''devices'', JArray [JObject [(''device_id'', JString ''w''), (''type'', JString ''wind_sensor'')]])]"

definition demo_edge :: BaseEdge where
  "demo_edge = snd (be_Start (snd (be_Init demo_edge_cfg (\<lambda>_. 0) (BaseEdge_ctor ''uav''))))"

definition demo_command :: RawCommand where
  "demo_command = \<lparr>rc_command_id = ''c'', rc_source = '''', rc_payload = JObject [(''device_id'', JString ''w'')],
     rc_received_at_ms = 0, rc_idempotency_key = '''', rc_dedup_window_ms = 0\<rparr>"

lemma demo_edge_reachable: "edge_step\<^sup>*\<^sup>* (BaseEdge_ctor ''uav'') demo_edge"
  unfolding demo_edge_def by (meson edge_step.init edge_step.start rtranclp.rtrancl_refl rtranclp.rtrancl_into_rtrancl)

lemmas demo_simps = demo_edge_def demo_edge_cfg_def be_Init_def assign_def value_string_def value_bool_def check_int_def
  BaseEdge_ctor_def init_devices_def init_device_def add_queue_def Create_def Device_of_config_def Device_Init_def
  Device_ctor_def CreateControl_def init_checks_def empty_object_def RegisterSelfTaskHandler_def be_Start_def
  StartSnapshotThreadLocked_def StartSelfActionThreadLocked_def StartSelfTaskMonitorThreadLocked_def Device_Start_def
  Workflow_Start_def Workflow_ctor_def Let_def check_double_def

lemma demo_edge_facts:
  "be_run_state demo_edge = RsRunning" "\<not> be_estop demo_edge"
  "map_of (be_device_type_by_id demo_edge) ''w'' = Some ''wind_sensor''"
  by (simp_all add: demo_simps)

theorem submit_outcome_witness:
  "\<exists>sr. fst (be_Submit demo_command (\<lambda>_. 0) 0 demo_edge) = Inr sr \<and> sr_code sr = SubmitOk"
proof -
  obtain r seq' s' where r: "be_Submit demo_command (\<lambda>_. 0) 0 demo_edge = (r, seq', s')" by (metis prod.exhaust)
  have "acceptable demo_command demo_edge"
    using demo_edge_facts by (simp add: acceptable_def demo_command_def GetStringOr_def CreateNormalizer_def)
  with submit_outcome [OF demo_edge_reachable r] r show ?thesis by (auto simp: Let_def)
qed

text \<open>The type of the edge's own queue has no normaliser: a command to the edge itself is always refused.\<close>

lemma submit_to_self_refused:
  assumes "be_run_state s = RsRunning" "\<not> be_estop s" "map_of (be_device_type_by_id s) (be_self_device_id s) = Some ''self''"
    and "GetStringOr (rc_payload cmd) ''device_id'' [] = be_self_device_id s"
  shows "fst (be_Submit cmd now seq s) = refusal SubmitInvalidCommand cmd (be_self_device_id s) s"
  using assms
  by (simp add: be_Submit_def NormalizeCommandLocked_def CreateNormalizer_def refusal_throws Let_def split: option.split)

section \<open>The devices of a running edge\<close>

datatype edge_event =
    EvSubmit RawCommand "nat \<Rightarrow> i64" u64
  | EvAppend Task
  | EvSetEStop bool string
  | EvThread string "nat \<Rightarrow> i64" "string list"

fun edge_event_step :: "edge_event \<Rightarrow> BaseEdge \<Rightarrow> BaseEdge" where
  "edge_event_step (EvSubmit cmd now seq) s = snd (snd (be_Submit cmd now seq s))"
| "edge_event_step (EvAppend t) s = snd (be_AppendTask t s)"
| "edge_event_step (EvSetEStop b r) s = be_SetEStop b r s"
| "edge_event_step (EvThread k now rs) s = device_thread_step k now rs s"

text \<open>The tasks that queue \<open>k\<close> gains.\<close>

definition gained :: "string \<Rightarrow> BaseEdge \<Rightarrow> BaseEdge \<Rightarrow> Task list" where
  "gained k s s' =
     (case (map_of (be_queues s) k, map_of (be_queues s') k) of
        (Some q, Some q') \<Rightarrow> drop (length (tq_q q)) (tq_q q') | _ \<Rightarrow> [])"

text \<open>What an event of the edge is for the device \<open>k\<close>.\<close>

fun device_events :: "string \<Rightarrow> edge_event \<Rightarrow> BaseEdge \<Rightarrow> wf_event list" where
  "device_events k (EvSetEStop b r) s = [SetEStop b]"
| "device_events k (EvThread j now rs) s = (if j = k then [Thread now rs] else [])"
| "device_events k e s = map Push (gained k s (edge_event_step e s))"

fun edge_events :: "string \<Rightarrow> edge_event list \<Rightarrow> BaseEdge \<Rightarrow> wf_event list" where
  "edge_events k [] s = []"
| "edge_events k (e # es) s = device_events k e s @ edge_events k es (edge_event_step e s)"

definition edge_run :: "edge_event list \<Rightarrow> BaseEdge \<Rightarrow> BaseEdge" where
  "edge_run es s = fold edge_event_step es s"

text \<open>The edge holds the queue, the device and the flag of a workflow system.\<close>

definition shows_device :: "string \<Rightarrow> BaseEdge \<Rightarrow> wf_sys \<Rightarrow> bool" where
  "shows_device k s w \<longleftrightarrow>
     map_of (be_queues s) k = Some (sy_queue w) \<and> map_of (be_devices s) k = Some (sy_dev w) \<and> be_estop s = sy_estop w \<and>
     \<not> tq_shut (sy_queue w)"

lemma append_shows:
  assumes "shows_device k s w" "AppendTaskToQueueLocked j t s = (ok, s')"
  shows "shows_device k s' (wf_run (map Push (gained k s s')) w)"
proof (cases "map_of (be_queues s) j")
  case None
  then show ?thesis using assms by (auto simp: AppendTaskToQueueLocked_def shows_device_def gained_def)
next
  case (Some q)
  then show ?thesis
    using assms
    by (cases "j = k")
      (auto simp: AppendTaskToQueueLocked_def shows_device_def gained_def tq_IsShutdown_def tq_Push_def update_conv' split: if_splits)
qed

lemma same_shows: "shows_device k s w \<Longrightarrow> shows_device k s (wf_run (map Push (gained k s s)) w)"
  by (simp add: gained_def shows_device_def split: option.split)

lemma submit_appends:
  assumes "be_Submit cmd now seq s = (r, seq', s')"
  shows "s' = s \<or> (\<exists>j t ok. AppendTaskToQueueLocked j t s = (ok, s'))"
  using assms by (auto simp: be_Submit_def Let_def split: if_splits option.splits prod.splits bool.splits)

lemma edge_event_shows:
  assumes "shows_device k s w"
  shows "shows_device k (edge_event_step e s) (wf_run (device_events k e s) w)"
proof (cases e)
  case (EvSubmit cmd now seq)
  obtain r seq' s' where "be_Submit cmd now seq s = (r, seq', s')" by (metis prod.exhaust)
  then show ?thesis
    using submit_appends append_shows [OF assms] same_shows [OF assms] by (fastforce simp: EvSubmit)
next
  case (EvAppend t)
  then show ?thesis
    using append_shows [OF assms, of "t_device_id t" t] same_shows [OF assms]
    by (cases "AppendTaskToQueueLocked (t_device_id t) t s") (auto simp: be_AppendTask_def)
next
  case (EvSetEStop b r)
  then show ?thesis using assms by (simp add: be_SetEStop_def shows_device_def)
next
  case (EvThread j now rs)
  show ?thesis
  proof (cases "j = k")
    case True
    obtain q d where r: "RunLoop_step (sy_estop w) now rs (sy_queue w) (sy_dev w) = (q, d)" by fastforce
    with RunLoop_step_frame [OF r] show ?thesis
      using assms by (simp add: EvThread True shows_device_def device_thread_step_def update_conv')
  next
    case False
    then show ?thesis
      using assms by (auto simp: EvThread shows_device_def device_thread_step_def update_conv' split: option.split prod.split)
  qed
qed

lemma edge_run_shows:
  "shows_device k s w \<Longrightarrow> shows_device k (edge_run es s) (wf_run (edge_events k es s) w)"
  by (induction es arbitrary: s w) (simp_all add: edge_run_def edge_event_shows)

text \<open>C5: A running edge implements, for each of its devices, the system of one workflow with its queue: any
  sequence of submitted commands, appended tasks, emergency stops and steps of the threads of all
  devices acts on one device exactly as the tasks its queue gains, the changes of the flag and the steps
  of its own thread. So the device executes the tasks of its queue once each and in order.\<close>

theorem edge_refines_workflow:
  assumes "shows_device k s w" and "wf_inv c w"
  shows "let w' = wf_run (edge_events k es s) w; s' = edge_run es s in
    map_of (be_queues s') k = Some (sy_queue w') \<and> map_of (be_devices s') k = Some (sy_dev w') \<and>
    sy_accepted w' = map fst (sy_done w') @ pc_task (sys_pc w') @ tq_q (sy_queue w')"
  using edge_run_shows [OF assms(1), of es] wf_run_inv [OF assms(2), of "edge_events k es s"]
  by (simp add: Let_def shows_device_def wf_inv_def)

lemma demo_shows:
  "shows_device ''w'' demo_edge (wf_start (Device_of_config WindSensorDevice
     (JObject [(''device_id'', JString ''w''), (''type'', JString ''wind_sensor'')]) (\<lambda>_. 0)) ''queue-w'' False)"
  by (simp add: shows_device_def demo_simps wf_start_def tq_ctor_def)

theorem edge_refines_workflow_witness:
  "\<exists>q. map_of (be_queues (edge_run [EvSubmit demo_command (\<lambda>_. 0) 0, EvThread ''w'' (\<lambda>_. 0) []] demo_edge)) ''w'' = Some q"
proof -
  let ?d = "Device_of_config WindSensorDevice (JObject [(''device_id'', JString ''w''), (''type'', JString ''wind_sensor'')]) (\<lambda>_. 0)"
  have "wf_inv WindSensorControl (wf_start ?d ''queue-w'' False)"
    by (rule wf_start_inv) (simp_all add: demo_simps DeviceStatus_init_def)
  from edge_refines_workflow [OF demo_shows this, of "[EvSubmit demo_command (\<lambda>_. 0) 0, EvThread ''w'' (\<lambda>_. 0) []]"]
  show ?thesis by (simp only: Let_def) blast
qed

section \<open>The invariant\<close>

text \<open>C25: In every state an edge can reach, the known device identifiers are exactly those with a queue,
  every device has a queue, no queue is closed, a ready or running edge has its own queue, and in a
  running edge every device has a control and a workflow.\<close>

theorem edge_invariant:
  assumes "edge_step\<^sup>*\<^sup>* (BaseEdge_ctor edge_type) s"
  shows "fst ` set (be_device_type_by_id s) = fst ` set (be_queues s) \<and> fst ` set (be_devices s) \<subseteq> fst ` set (be_queues s) \<and>
    distinct (map fst (be_queues s)) \<and> distinct (map fst (be_devices s)) \<and>
    (\<forall>(k, q) \<in> set (be_queues s). \<not> tq_shut q) \<and>
    (be_run_state s \<in> {RsReady, RsRunning} \<longrightarrow> be_self_device_id s \<in> fst ` set (be_queues s)) \<and>
    (be_run_state s = RsRunning \<longrightarrow> (\<forall>(k, d) \<in> set (be_devices s). dv_control d \<noteq> None \<and> dv_workflow d \<noteq> None))"
proof -
  have "edge_inv s" using edge.reachable_inv assms by blast
  then show ?thesis unfolding edge_inv_def keys_def by blast
qed

theorem edge_invariant_witness: "be_self_device_id demo_edge \<in> fst ` set (be_queues demo_edge)"
  using edge_invariant [OF demo_edge_reachable] demo_edge_facts(1) by simp

end
