(* ===== verification/EdgeThreads.thy ===== *)
theory EdgeThreads
  imports Edge
begin

text \<open>
  The threads of an edge in \<open>src/util/my_edge/BaseEdge.cpp\<close>: the monitor, which fetches tasks of the edge itself
  from its queue, the action thread, which executes them, and the snapshot thread with the lock that
  \<open>Shutdown\<close> holds while it waits for that thread.
\<close>

section \<open>Tasks of the edge itself\<close>

text \<open>\<open>FetchSelfTask\<close> in its two halves: the look at the state and the queue, with the answer of the function
  when it goes no further, and the pop, where a wait runs into the time-out.\<close>

definition fetch_check :: "BaseEdge \<Rightarrow> nat option" where
  "fetch_check s =
     (if be_self_task_run_state s \<noteq> RsRunOver then Some 5
      else case map_of (be_queues s) (be_self_device_id s) of
        None \<Rightarrow> Some 0
      | Some q \<Rightarrow> if tq_IsShutdown q then Some 3 else None)"

definition fetch_pop :: "BaseEdge \<Rightarrow> nat \<times> BaseEdge" where
  "fetch_pop s =
     (case map_of (be_queues s) (be_self_device_id s) of
        None \<Rightarrow> (4, s)
      | Some q \<Rightarrow>
          (case tq_PopBlocking q of
             (Returns (Some t), q) \<Rightarrow>
               (1, s\<lparr>be_queues := AList.update (be_self_device_id s) q (be_queues s), be_self_task := t,
                     be_self_task_run_state := RsInitializing\<rparr>)
           | _ \<Rightarrow> (2, s)))"

definition FetchSelfTask :: "BaseEdge \<Rightarrow> nat \<times> BaseEdge" where
  "FetchSelfTask s = (case fetch_check s of Some code \<Rightarrow> (code, s) | None \<Rightarrow> fetch_pop s)"

text \<open>\<open>stops\<close>: what the five looks of \<open>SayHelloAction\<close> at the stop flag of the action thread see.\<close>

definition SayHelloAction :: "bool list \<Rightarrow> BaseEdge \<Rightarrow> int \<times> BaseEdge" where
  "SayHelloAction stops s =
     (if be_self_task_run_state s \<noteq> RsReady \<and> be_self_task_run_state s \<noteq> RsInitializing then (- 2, s)
      else if True \<in> set (take 5 stops) then (- 1, s\<lparr>be_self_task_run_state := RsStopped\<rparr>)
      else (0, s\<lparr>be_self_task_run_state := RsRunOver\<rparr>))"

fun invoke_handler :: "self_handler \<Rightarrow> bool list \<Rightarrow> BaseEdge \<Rightarrow> BaseEdge" where
  "invoke_handler SayHello stops s = snd (SayHelloAction stops s)"
| "invoke_handler _ stops s = s"

definition TryInvokeSelfTaskHandler :: "Task \<Rightarrow> bool list \<Rightarrow> BaseEdge \<Rightarrow> bool \<times> BaseEdge" where
  "TryInvokeSelfTaskHandler task stops s =
     (if t_action task = [] then (False, s)
      else case map_of (be_self_task_handlers s) (t_action task) of
        None \<Rightarrow> (False, s)
      | Some h \<Rightarrow> (True, invoke_handler h stops (s\<lparr>be_self_task_executing := True\<rparr>)))"

definition FinishSelfTask :: "BaseEdge \<Rightarrow> RunState \<times> BaseEdge" where
  "FinishSelfTask s =
     (let final_state = (if be_self_task_run_state s \<noteq> RsStopping \<and> be_self_task_run_state s \<noteq> RsStopped then RsRunOver
                         else be_self_task_run_state s)
      in (final_state, s\<lparr>be_self_task_run_state := final_state, be_self_task_executing := False\<rparr>))"

section \<open>Monitor and action thread\<close>

datatype mon_pc = MonTop | MonPop | MonExit

datatype act_pc = ActTop | ActCopied Task | ActHandled Task

record self_sys =
  ss_edge :: BaseEdge
  ss_mon :: mon_pc
  ss_act :: act_pc
  ss_fetched :: "Task list"
  ss_executed :: "Task list"

inductive self_step :: "self_sys \<Rightarrow> self_sys \<Rightarrow> bool" where
  mon_check: "ss_mon s = MonTop \<Longrightarrow> fetch_check (ss_edge s) = None \<Longrightarrow> self_step s (s\<lparr>ss_mon := MonPop\<rparr>)"
| mon_exit: "ss_mon s = MonTop \<Longrightarrow> fetch_check (ss_edge s) \<in> {Some 0, Some 3} \<Longrightarrow> self_step s (s\<lparr>ss_mon := MonExit\<rparr>)"
| mon_fetch: "ss_mon s = MonPop \<Longrightarrow> fetch_pop (ss_edge s) = (code, e) \<Longrightarrow>
    self_step s (s\<lparr>ss_edge := e, ss_mon := MonTop,
      ss_fetched := ss_fetched s @ (if code = 1 then [be_self_task e] else [])\<rparr>)"
| act_copy: "ss_act s = ActTop \<Longrightarrow> be_self_task_run_state (ss_edge s) \<in> {RsInitializing, RsReady} \<Longrightarrow>
    self_step s (s\<lparr>ss_act := ActCopied (be_self_task (ss_edge s))\<rparr>)"
| act_invoke: "ss_act s = ActCopied t \<Longrightarrow> TryInvokeSelfTaskHandler t stops (ss_edge s) = (handled, e) \<Longrightarrow>
    self_step s (s\<lparr>ss_edge := e, ss_act := ActHandled t, ss_executed := ss_executed s @ [t]\<rparr>)"
| act_finish: "ss_act s = ActHandled t \<Longrightarrow> FinishSelfTask (ss_edge s) = (final, e) \<Longrightarrow>
    self_step s (s\<lparr>ss_edge := e, ss_act := ActTop\<rparr>)"
| push: "be_AppendTask t (ss_edge s) = (ok, e) \<Longrightarrow> self_step s (s\<lparr>ss_edge := e\<rparr>)"

inductive_cases self_stepE: "self_step s s'"

definition self_start :: "BaseEdge \<Rightarrow> self_sys" where
  "self_start e = \<lparr>ss_edge = e, ss_mon = MonTop, ss_act = ActTop, ss_fetched = [], ss_executed = []\<rparr>"

text \<open>The fetched task that is not executed yet.\<close>

definition self_pending :: "self_sys \<Rightarrow> Task list" where
  "self_pending s =
     (case ss_act s of
        ActTop \<Rightarrow> if be_self_task_run_state (ss_edge s) = RsInitializing then [be_self_task (ss_edge s)] else []
      | ActCopied t \<Rightarrow> [t]
      | ActHandled t \<Rightarrow> [])"

definition quiet_task :: "BaseEdge \<Rightarrow> Task \<Rightarrow> bool" where
  "quiet_task e t \<longleftrightarrow> map_of (be_self_task_handlers e) (t_action t) \<noteq> Some SayHello"

definition self_order :: "self_sys \<Rightarrow> bool" where
  "self_order s \<longleftrightarrow>
     be_self_task_run_state (ss_edge s) \<in> {RsInitializing, RsRunOver} \<and>
     (ss_act s \<noteq> ActTop \<longrightarrow> be_self_task_run_state (ss_edge s) = RsInitializing) \<and>
     (ss_mon s = MonPop \<longrightarrow> be_self_task_run_state (ss_edge s) = RsRunOver) \<and>
     ss_fetched s = ss_executed s @ self_pending s"

definition self_inv :: "self_sys \<Rightarrow> bool" where
  "self_inv s \<longleftrightarrow> (list_all (quiet_task (ss_edge s)) (ss_fetched s) \<longrightarrow> self_order s)"

lemma invoke_other: "h \<noteq> SayHello \<Longrightarrow> invoke_handler h stops s = s"
  by (cases h) simp_all

lemma TryInvoke_keeps:
  assumes "quiet_task s t" "TryInvokeSelfTaskHandler t stops s = (handled, e)"
  shows "e = s \<or> e = s\<lparr>be_self_task_executing := True\<rparr>"
  using assms by (auto simp: TryInvokeSelfTaskHandler_def quiet_task_def invoke_other split: if_splits option.splits)

lemma invoke_handlers [simp]: "be_self_task_handlers (invoke_handler h stops s) = be_self_task_handlers s"
  by (cases h) (simp_all add: SayHelloAction_def)

lemma TryInvoke_handlers:
  "TryInvokeSelfTaskHandler t stops s = (handled, e) \<Longrightarrow> be_self_task_handlers e = be_self_task_handlers s"
  by (auto simp: TryInvokeSelfTaskHandler_def split: if_splits option.splits)

lemma quiet_task_cong: "be_self_task_handlers e = be_self_task_handlers e' \<Longrightarrow> quiet_task e = quiet_task e'"
  by (simp add: quiet_task_def fun_eq_iff)

lemma append_self_frame:
  assumes "be_AppendTask t s = (ok, e)"
  shows "be_self_task_run_state e = be_self_task_run_state s \<and> be_self_task e = be_self_task s \<and>
    be_self_task_handlers e = be_self_task_handlers s"
  using assms by (auto simp: be_AppendTask_def AppendTaskToQueueLocked_def split: if_splits option.splits)

lemma fetch_pop_cases:
  assumes "fetch_pop s = (code, e)"
  shows "code \<noteq> 1 \<and> e = s \<or>
    code = 1 \<and> be_self_task_run_state e = RsInitializing \<and> be_self_task_handlers e = be_self_task_handlers s"
  using assms by (auto simp: fetch_pop_def tq_PopBlocking_def split: option.splits list.splits if_splits)

lemma self_step_grows:
  assumes "self_step s s'"
  shows "be_self_task_handlers (ss_edge s') = be_self_task_handlers (ss_edge s) \<and>
    (\<exists>new. ss_fetched s' = ss_fetched s @ new)"
  using assms
proof (induction rule: self_step.induct)
  case (mon_fetch s code e)
  from fetch_pop_cases [OF mon_fetch.hyps(2)] show ?case by auto
next
  case (act_invoke s t stops handled e)
  from TryInvoke_handlers [OF act_invoke.hyps(2)] show ?case by simp
next
  case (push t s ok e)
  from append_self_frame [OF push.hyps] show ?case by simp
qed (auto simp: FinishSelfTask_def Let_def)

lemma self_step_order:
  "self_step s s' \<Longrightarrow> list_all (quiet_task (ss_edge s)) (ss_fetched s) \<Longrightarrow> self_order s \<Longrightarrow> self_order s'"
proof (induction rule: self_step.induct)
  case (mon_check s)
  then show ?case by (auto simp: self_order_def self_pending_def fetch_check_def split: if_splits)
next
  case (mon_exit s)
  then show ?case by (simp add: self_order_def self_pending_def split: act_pc.split)
next
  case (mon_fetch s code e)
  then show ?case using fetch_pop_cases [OF mon_fetch.hyps(2)] by (auto simp: self_order_def self_pending_def)
next
  case (act_copy s)
  then show ?case by (auto simp: self_order_def self_pending_def)
next
  case (act_invoke s t stops handled e)
  then have "quiet_task (ss_edge s) t" by (simp add: self_order_def self_pending_def)
  from TryInvoke_keeps [OF this act_invoke.hyps(2)] act_invoke show ?case
    by (auto simp: self_order_def self_pending_def)
next
  case (act_finish s t final e)
  then show ?case by (auto simp: self_order_def self_pending_def FinishSelfTask_def Let_def)
next
  case (push t s ok e)
  then show ?case
    using append_self_frame [OF push.hyps] by (auto simp: self_order_def self_pending_def split: act_pc.split)
qed

lemma self_step_inv:
  assumes "self_step s s'" "self_inv s"
  shows "self_inv s'"
proof -
  have "quiet_task (ss_edge s') = quiet_task (ss_edge s)"
    using self_step_grows [OF assms(1)] quiet_task_cong by blast
  then show ?thesis
    using self_step_grows [OF assms(1)] self_step_order [OF assms(1)] assms(2) by (auto simp: self_inv_def)
qed

interpretation selft: invariant_system
  "\<lambda>s. \<exists>e. s = self_start e \<and> be_self_task_run_state e = RsRunOver" self_step self_inv
proof
  show "self_inv s" if "\<exists>e. s = self_start e \<and> be_self_task_run_state e = RsRunOver" for s
    using that by (auto simp: self_start_def self_inv_def self_order_def self_pending_def)
qed (rule self_step_inv)

text \<open>In every interleaving of the monitor, the action thread and other threads that append tasks, as long as
  no fetched task goes to the built-in \<open>say_hello\<close> handler, each task the edge fetches is executed exactly
  once and in the order of fetching; at most the last one is still to be executed.\<close>

theorem self_tasks_in_order:
  assumes "be_self_task_run_state e = RsRunOver" and "self_step\<^sup>*\<^sup>* (self_start e) s"
    and "list_all (quiet_task (ss_edge s)) (ss_fetched s)"
  shows "ss_fetched s = ss_executed s @ self_pending s \<and> length (self_pending s) \<le> 1"
proof -
  have "self_inv s" using selft.reachable_inv [OF _ assms(2)] assms(1) by blast
  then show ?thesis using assms(3)
    by (auto simp: self_inv_def self_order_def self_pending_def split: act_pc.split)
qed

text \<open>The handler \<open>say_hello\<close> stores \<open>RunOver\<close> itself, before \<open>FinishSelfTask\<close>. A task the monitor fetches in between is
  never executed: \<open>FinishSelfTask\<close> marks it as done.\<close>

definition self_fetched :: "Task \<Rightarrow> Task task_queue \<Rightarrow> BaseEdge \<Rightarrow> BaseEdge" where
  "self_fetched t q e = e\<lparr>be_queues := AList.update (be_self_device_id e) q (be_queues e), be_self_task := t,
     be_self_task_run_state := RsInitializing\<rparr>"

lemma fetch_step:
  assumes "be_self_task_run_state (ss_edge s) = RsRunOver" "ss_mon s = MonTop"
    and "map_of (be_queues (ss_edge s)) (be_self_device_id (ss_edge s)) = Some q" "\<not> tq_shut q" "tq_q q = t # ts"
  shows "self_step\<^sup>*\<^sup>* s (s\<lparr>ss_edge := self_fetched t (q\<lparr>tq_q := ts\<rparr>) (ss_edge s), ss_fetched := ss_fetched s @ [t]\<rparr>)"
proof -
  have "self_step s (s\<lparr>ss_mon := MonPop\<rparr>)"
    using assms by (intro self_step.mon_check) (simp_all add: fetch_check_def tq_IsShutdown_def)
  moreover have "self_step (s\<lparr>ss_mon := MonPop\<rparr>)
      (s\<lparr>ss_edge := self_fetched t (q\<lparr>tq_q := ts\<rparr>) (ss_edge s), ss_fetched := ss_fetched s @ [t]\<rparr>)"
    using self_step.mon_fetch [of "s\<lparr>ss_mon := MonPop\<rparr>" 1] assms
    by (cases s) (simp add: fetch_pop_def tq_PopBlocking_def self_fetched_def)
  ultimately show ?thesis by (meson converse_rtranclp_into_rtranclp r_into_rtranclp)
qed

text \<open>Two tasks wait in the queue of the edge, the first one for the built-in \<open>say_hello\<close> handler: in some
  interleaving of monitor and action thread both are fetched, only the first is executed, and nothing is
  left of the second.\<close>

theorem say_hello_loses_task:
  assumes "be_self_task_run_state e = RsRunOver" and "map_of (be_queues e) (be_self_device_id e) = Some q"
    and "\<not> tq_shut q" and "tq_q q = t1 # t2 # ts" and "t_action t1 \<noteq> []"
    and "map_of (be_self_task_handlers e) (t_action t1) = Some SayHello"
  shows "\<exists>s. self_step\<^sup>*\<^sup>* (self_start e) s \<and> ss_fetched s = [t1, t2] \<and> ss_executed s = [t1] \<and>
    ss_act s = ActTop \<and> be_self_task_run_state (ss_edge s) = RsRunOver \<and>
    map_of (be_queues (ss_edge s)) (be_self_device_id e) = Some (q\<lparr>tq_q := ts\<rparr>)"
proof -
  let ?e1 = "self_fetched t1 (q\<lparr>tq_q := t2 # ts\<rparr>) e"
  let ?e2 = "?e1\<lparr>be_self_task_executing := True, be_self_task_run_state := RsRunOver\<rparr>"
  let ?e3 = "self_fetched t2 (q\<lparr>tq_q := ts\<rparr>) ?e2"
  let ?s1 = "(self_start e)\<lparr>ss_edge := ?e1, ss_fetched := [t1]\<rparr>"
  let ?s2 = "?s1\<lparr>ss_act := ActCopied t1\<rparr>"
  let ?s3 = "?s1\<lparr>ss_edge := ?e2, ss_act := ActHandled t1, ss_executed := [t1]\<rparr>"
  let ?s4 = "?s3\<lparr>ss_edge := ?e3, ss_fetched := [t1, t2]\<rparr>"
  let ?s5 = "?s4\<lparr>ss_edge := ?e3\<lparr>be_self_task_run_state := RsRunOver, be_self_task_executing := False\<rparr>, ss_act := ActTop\<rparr>"
  have "self_step\<^sup>*\<^sup>* (self_start e) ?s1"
    using fetch_step [of "self_start e" q t1 "t2 # ts"] assms(1-4) by (simp add: self_start_def)
  moreover have "self_step ?s1 ?s2"
    using self_step.act_copy [of ?s1] by (simp add: self_start_def self_fetched_def)
  moreover have "self_step ?s2 ?s3"
    using self_step.act_invoke [of ?s2 t1 "[]" True ?e2] assms(5,6)
    by (simp add: self_start_def TryInvokeSelfTaskHandler_def SayHelloAction_def self_fetched_def)
  moreover have "self_step\<^sup>*\<^sup>* ?s3 ?s4"
    using fetch_step [of ?s3 "q\<lparr>tq_q := t2 # ts\<rparr>" t2 ts] assms(3)
    by (simp add: self_start_def self_fetched_def update_conv')
  moreover have "self_step ?s4 ?s5"
    using self_step.act_finish [of ?s4 t1] by (simp add: self_start_def FinishSelfTask_def self_fetched_def)
  ultimately have "self_step\<^sup>*\<^sup>* (self_start e) ?s5" by (meson rtranclp.rtrancl_into_rtrancl rtranclp_trans)
  then show ?thesis
    by (intro exI [of _ ?s5]) (simp add: self_start_def self_fetched_def update_conv')
qed

definition hello_task :: "string \<Rightarrow> string \<Rightarrow> Task" where
  "hello_task tid action = Task_init\<lparr>t_task_id := tid, t_device_id := ''self'', t_action := action\<rparr>"

definition hello_queue :: "string \<Rightarrow> Task task_queue" where
  "hello_queue a = \<lparr>tq_name = ''queue-self'', tq_q = [hello_task ''1'' a, hello_task ''2'' a], tq_shut = False\<rparr>"

definition hello_edge :: "string \<Rightarrow> BaseEdge" where
  "hello_edge action = snd (be_AppendTask (hello_task ''2'' action) (snd (be_AppendTask (hello_task ''1'' action)
     (snd (be_Init (JObject []) (\<lambda>_. 0) (BaseEdge_ctor ''uav''))))))"

lemma hello_edge_facts:
  "be_self_task_run_state (hello_edge a) = RsRunOver" "be_self_device_id (hello_edge a) = ''self''"
  "map_of (be_queues (hello_edge a)) ''self'' = Some (hello_queue a)"
  "be_self_task_handlers (hello_edge a) = [(''say_hello'', SayHello)]"
  by (simp_all add: hello_edge_def hello_queue_def hello_task_def be_AppendTask_def AppendTaskToQueueLocked_def tq_IsShutdown_def tq_Push_def
    tq_ctor_def demo_simps Task_init_def)

theorem say_hello_loses_task_witness:
  "\<exists>s. self_step\<^sup>*\<^sup>* (self_start (hello_edge ''say_hello'')) s \<and> ss_executed s = [hello_task ''1'' ''say_hello''] \<and>
    ss_fetched s = [hello_task ''1'' ''say_hello'', hello_task ''2'' ''say_hello'']"
proof -
  have "t_action (hello_task ''1'' ''say_hello'') = ''say_hello''" by (simp add: hello_task_def)
  then show ?thesis
    using say_hello_loses_task [of "hello_edge ''say_hello''" "hello_queue ''say_hello''" "hello_task ''1'' ''say_hello''"
        "hello_task ''2'' ''say_hello''" "[]"] by (auto simp: hello_edge_facts hello_queue_def)
qed

theorem self_tasks_in_order_witness:
  "\<exists>s. self_step\<^sup>*\<^sup>* (self_start (hello_edge ''go'')) s \<and> ss_fetched s = [hello_task ''1'' ''go''] \<and>
    ss_fetched s = ss_executed s @ self_pending s"
proof -
  let ?q = "(hello_queue ''go'')\<lparr>tq_q := [hello_task ''2'' ''go'']\<rparr>"
  let ?s = "(self_start (hello_edge ''go''))\<lparr>ss_edge := self_fetched (hello_task ''1'' ''go'') ?q (hello_edge ''go''),
    ss_fetched := [hello_task ''1'' ''go'']\<rparr>"
  have r: "self_step\<^sup>*\<^sup>* (self_start (hello_edge ''go'')) ?s"
    using fetch_step [of "self_start (hello_edge ''go'')" "hello_queue ''go''" "hello_task ''1'' ''go''" "[hello_task ''2'' ''go'']"]
    by (simp add: self_start_def hello_edge_facts hello_queue_def)
  have "list_all (quiet_task (ss_edge ?s)) (ss_fetched ?s)"
    by (simp add: quiet_task_def self_fetched_def hello_edge_facts hello_task_def)
  with self_tasks_in_order [OF hello_edge_facts(1) r] r show ?thesis by (intro exI [of _ ?s]) simp
qed

section \<open>Shutdown and the snapshot thread\<close>

text \<open>\<open>Shutdown\<close> keeps \<open>rw_mutex_\<close> from its first line to its last and joins the snapshot thread in between;
  each round of \<open>SnapshotLoop\<close> takes the same lock. \<open>ShEnter\<close> waits for the lock, \<open>ShLocked\<close> is the test of the
  run state, \<open>ShJoin\<close> the join in \<open>StopSnapshotThreadLocked\<close>; \<open>SnTest\<close> is the test of the stop flag, \<open>SnLock\<close>
  waits for the lock, \<open>SnReport\<close> holds it, \<open>SnSleep\<close> is the pause.\<close>

datatype mutex_owner = NoOwner | ShutdownOwns | SnapshotOwns

datatype sh_pc = ShEnter | ShLocked | ShJoin | ShDone

datatype sn_pc = SnTest | SnLock | SnReport | SnSleep | SnExit

record shut_sys =
  sd_owner :: mutex_owner
  sd_run_state :: RunState
  sd_snapshot_stop :: bool
  sd_sh :: sh_pc
  sd_sn :: sn_pc

inductive shut_step :: "shut_sys \<Rightarrow> shut_sys \<Rightarrow> bool" where
  sh_lock: "sd_sh s = ShEnter \<Longrightarrow> sd_owner s = NoOwner \<Longrightarrow> shut_step s (s\<lparr>sd_sh := ShLocked, sd_owner := ShutdownOwns\<rparr>)"
| sh_return: "sd_sh s = ShLocked \<Longrightarrow> sd_run_state s \<in> {RsStopped, RsStopping} \<Longrightarrow>
    shut_step s (s\<lparr>sd_sh := ShDone, sd_owner := NoOwner\<rparr>)"
| sh_stop: "sd_sh s = ShLocked \<Longrightarrow> sd_run_state s \<notin> {RsStopped, RsStopping} \<Longrightarrow>
    shut_step s (s\<lparr>sd_sh := ShJoin, sd_run_state := RsStopping, sd_snapshot_stop := True\<rparr>)"
| sh_joined: "sd_sh s = ShJoin \<Longrightarrow> sd_sn s = SnExit \<Longrightarrow>
    shut_step s (s\<lparr>sd_sh := ShDone, sd_run_state := RsStopped, sd_owner := NoOwner\<rparr>)"
| sn_test: "sd_sn s = SnTest \<Longrightarrow> shut_step s (s\<lparr>sd_sn := if sd_snapshot_stop s then SnExit else SnLock\<rparr>)"
| sn_lock: "sd_sn s = SnLock \<Longrightarrow> sd_owner s = NoOwner \<Longrightarrow> shut_step s (s\<lparr>sd_sn := SnReport, sd_owner := SnapshotOwns\<rparr>)"
| sn_unlock: "sd_sn s = SnReport \<Longrightarrow> shut_step s (s\<lparr>sd_sn := SnSleep, sd_owner := NoOwner\<rparr>)"
| sn_wake: "sd_sn s = SnSleep \<Longrightarrow> shut_step s (s\<lparr>sd_sn := SnTest\<rparr>)"

inductive_cases shut_stepE: "shut_step s s'"

definition shut_start :: shut_sys where
  "shut_start = \<lparr>sd_owner = NoOwner, sd_run_state = RsRunning, sd_snapshot_stop = False, sd_sh = ShEnter, sd_sn = SnTest\<rparr>"

definition shut_inv :: "shut_sys \<Rightarrow> bool" where
  "shut_inv s \<longleftrightarrow>
     (sd_owner s = ShutdownOwns \<longleftrightarrow> sd_sh s \<in> {ShLocked, ShJoin}) \<and>
     (sd_owner s = SnapshotOwns \<longleftrightarrow> sd_sn s = SnReport) \<and>
     (sd_snapshot_stop s \<longleftrightarrow> sd_sh s \<in> {ShJoin, ShDone}) \<and>
     (sd_sh s \<in> {ShEnter, ShLocked} \<longleftrightarrow> sd_run_state s = RsRunning) \<and>
     (sd_sh s = ShDone \<longrightarrow> sd_sn s = SnExit) \<and> (sd_sn s = SnExit \<longrightarrow> sd_sh s \<in> {ShJoin, ShDone})"

interpretation shutl: invariant_system "\<lambda>s. s = shut_start" shut_step shut_inv
proof
  show "shut_inv s" if "s = shut_start" for s using that by (simp add: shut_start_def shut_inv_def)
  show "shut_inv s'" if "shut_inv s" "shut_step s s'" for s s'
    using that(2,1) by (induction rule: shut_step.induct) (auto simp: shut_inv_def)
qed

lemma shut_step_possible:
  "(\<exists>s'. shut_step s s') \<longleftrightarrow>
     sd_sh s = ShEnter \<and> sd_owner s = NoOwner \<or> sd_sh s = ShLocked \<or> sd_sh s = ShJoin \<and> sd_sn s = SnExit \<or>
     sd_sn s \<in> {SnTest, SnReport, SnSleep} \<or> sd_sn s = SnLock \<and> sd_owner s = NoOwner"
  (is "?L \<longleftrightarrow> ?R")
proof
  show "?L \<Longrightarrow> ?R" by (auto elim: shut_stepE)
  show "?R \<Longrightarrow> ?L" by (cases "sd_run_state s \<in> {RsStopped, RsStopping}") (auto intro: shut_step.intros)
qed

text \<open>Of a running edge with a snapshot thread, the threads that execute \<open>Shutdown\<close> and \<open>SnapshotLoop\<close> are
  stuck in a state they can reach exactly when both have ended or when \<open>Shutdown\<close>, holding the lock,
  waits for the snapshot thread while that thread waits for the lock.\<close>

theorem shutdown_stuck_iff:
  assumes "shut_step\<^sup>*\<^sup>* shut_start s"
  shows "(\<nexists>s'. shut_step s s') \<longleftrightarrow>
    sd_sh s = ShDone \<and> sd_sn s = SnExit \<or> sd_sh s = ShJoin \<and> sd_sn s = SnLock \<and> sd_owner s = ShutdownOwns"
proof -
  have "shut_inv s" using shutl.reachable_inv [OF refl assms] .
  then show ?thesis
    by (cases "sd_sh s"; cases "sd_sn s"; cases "sd_owner s") (simp_all add: shut_step_possible shut_inv_def)
qed

lemma shutdown_deadlock_reachable:
  "\<exists>s. shut_step\<^sup>*\<^sup>* shut_start s \<and> sd_sh s = ShJoin \<and> sd_sn s = SnLock \<and> sd_owner s = ShutdownOwns"
proof -
  let ?s1 = "shut_start\<lparr>sd_sn := SnLock\<rparr>"
  let ?s2 = "?s1\<lparr>sd_sh := ShLocked, sd_owner := ShutdownOwns\<rparr>"
  let ?s3 = "?s2\<lparr>sd_sh := ShJoin, sd_run_state := RsStopping, sd_snapshot_stop := True\<rparr>"
  have "shut_step shut_start ?s1" using shut_step.sn_test [of shut_start] by (simp add: shut_start_def)
  moreover have "shut_step ?s1 ?s2" using shut_step.sh_lock [of ?s1] by (simp add: shut_start_def)
  moreover have "shut_step ?s2 ?s3" using shut_step.sh_stop [of ?s2] by (simp add: shut_start_def)
  ultimately have "shut_step\<^sup>*\<^sup>* shut_start ?s3" by (meson converse_rtranclp_into_rtranclp rtranclp.rtrancl_refl)
  then show ?thesis by (intro exI [of _ ?s3]) (simp add: shut_start_def)
qed

theorem shutdown_stuck_iff_witness:
  "\<exists>s. shut_step\<^sup>*\<^sup>* shut_start s \<and> sd_sh s = ShJoin \<and> (\<nexists>s'. shut_step s s')"
  using shutdown_deadlock_reachable shutdown_stuck_iff by blast

text \<open>\<open>Shutdown\<close> leaves the monitor thread as it was: it is neither told to stop nor joined.\<close>

lemma shutdown_keeps_monitor: "be_monitor_thread (be_Shutdown s) = be_monitor_thread s"
  by (simp add: be_Shutdown_def Let_def)

end
