(* ===== verification/EdgeManager.thy ===== *)
theory EdgeManager
  imports Edge
begin

text \<open>
  The collection of edges, \<open>src/util/my_edge/MyEdgeManager.cpp\<close>, and the factory \<open>src/util/my_edge/MyEdge.cpp\<close>. The
  manager only knows the interface \<open>IEdge\<close>: its operations take the virtual functions they call as arguments
  and are stated for any class of edges; the locale \<open>iedge\<close> has what the manager relies on, and \<open>BaseEdge\<close> with its
  subclasses provides it. Each operation holds the mutex of the manager and is one step.
\<close>

section \<open>Factory\<close>

datatype edge_class = UUVEdge | UAVEdge | TUNAEdge | UNAEdge

definition edge_Create :: "string \<Rightarrow> edge_class option" where
  "edge_Create type =
     (if type = ''uuv'' \<or> type = ''UUV'' then Some UUVEdge
      else if type = ''uav'' \<or> type = ''UAV'' then Some UAVEdge
      else if type = ''tuna'' \<or> type = ''TUNA'' then Some TUNAEdge
      else None)"

definition edge_Create_cfg :: "string \<Rightarrow> edge_class option" where
  "edge_Create_cfg type =
     (if ''uuv'' = type \<or> ''UUV'' = type then Some UUVEdge
      else if ''tuna'' = type \<or> ''TUNA'' = type then Some TUNAEdge
      else if ''uav'' = type \<or> ''UAV'' = type then Some UAVEdge
      else if ''una'' = type \<or> ''UNA'' = type then Some UNAEdge
      else None)"

text \<open>Both factories agree wherever the shorter one knows the type; it does not know \<open>una\<close>.\<close>

lemma edge_Create_agrees: "edge_Create ty = Some c \<Longrightarrow> edge_Create_cfg ty = Some c"
  by (auto simp: edge_Create_def edge_Create_cfg_def split: if_splits)

lemma edge_Create_misses_una: "edge_Create ''una'' = None \<and> edge_Create_cfg ''una'' = Some UNAEdge"
  by (simp add: edge_Create_def edge_Create_cfg_def)

section \<open>Manager\<close>

type_synonym 'e manager = "(string \<times> 'e) list"

datatype append_outcome = AppendReturns bool | ThrowsDuplicateEdge string

definition appendEdge :: "('e \<Rightarrow> string) \<Rightarrow> 'e option \<Rightarrow> 'e manager \<Rightarrow> append_outcome \<times> 'e manager" where
  "appendEdge edgeId edge_ptr edges =
     (case edge_ptr of
        None \<Rightarrow> (AppendReturns False, edges)
      | Some e \<Rightarrow>
          if map_of edges (edgeId e) \<noteq> None then (ThrowsDuplicateEdge (edgeId e), edges)
          else (AppendReturns True, AList.update (edgeId e) e edges))"

definition getEdges :: "'e manager \<Rightarrow> 'e list" where
  "getEdges edges = map snd edges"

definition getEdgeIds :: "'e manager \<Rightarrow> string list" where
  "getEdgeIds edges = map fst edges"

definition deleteEdgeById :: "string \<Rightarrow> 'e manager \<Rightarrow> bool \<times> 'e manager" where
  "deleteEdgeById edge_id edges =
     (if map_of edges edge_id = None then (False, edges) else (True, AList.delete edge_id edges))"

fun startAllEdges :: "('e \<Rightarrow> bool \<times> 'e) \<Rightarrow> 'e manager \<Rightarrow> bool \<times> 'e manager" where
  "startAllEdges Start [] = (True, [])"
| "startAllEdges Start ((k, e) # edges) =
     (case Start e of (ok, e) \<Rightarrow>
        (case startAllEdges Start edges of (all_success, edges) \<Rightarrow> (ok \<and> all_success, (k, e) # edges)))"

definition stopAllEdges :: "('e \<Rightarrow> 'e) \<Rightarrow> 'e manager \<Rightarrow> bool \<times> 'e manager" where
  "stopAllEdges Shutdown edges = (True, map (\<lambda>(k, e). (k, Shutdown e)) edges)"

definition getEdgeById :: "string \<Rightarrow> 'e manager \<Rightarrow> 'e option" where
  "getEdgeById edge_id edges = map_of edges edge_id"

definition GetHeartbeatInfo :: "('e \<Rightarrow> EdgeStatus) \<Rightarrow> 'e manager \<Rightarrow> json" where
  "GetHeartbeatInfo GetStatusSnapshot edges =
     JObject (map (\<lambda>(k, e). (k, EdgeStatus_toJson (GetStatusSnapshot e))) edges)"

definition HasEdge :: "string \<Rightarrow> 'e manager \<Rightarrow> bool" where
  "HasEdge edge_id edges \<longleftrightarrow> map_of edges edge_id \<noteq> None"

definition em_IsEmpty :: "'e manager \<Rightarrow> bool" where
  "em_IsEmpty edges \<longleftrightarrow> edges = []"

text \<open>\<open>f\<close> is \<open>AppendJsonTask\<close> or \<open>AppendTask\<close> of the edge with its argument.\<close>

definition append_to_edge :: "('e \<Rightarrow> bool \<times> 'e) \<Rightarrow> string \<Rightarrow> 'e manager \<Rightarrow> bool \<times> 'e manager" where
  "append_to_edge f edge_id edges =
     (case map_of edges edge_id of
        None \<Rightarrow> (False, edges)
      | Some e \<Rightarrow> (case f e of (result, e) \<Rightarrow> (result, AList.update edge_id e edges)))"

definition appendTaskToEdgeById :: "(json \<Rightarrow> 'e \<Rightarrow> bool \<times> 'e) \<Rightarrow> string \<Rightarrow> json \<Rightarrow> 'e manager \<Rightarrow> bool \<times> 'e manager" where
  "appendTaskToEdgeById AppendJsonTask edge_id task edges = append_to_edge (AppendJsonTask task) edge_id edges"

definition appendTaskToEdgeByIdV2 :: "(Task \<Rightarrow> 'e \<Rightarrow> bool \<times> 'e) \<Rightarrow> string \<Rightarrow> Task \<Rightarrow> 'e manager \<Rightarrow> bool \<times> 'e manager" where
  "appendTaskToEdgeByIdV2 AppendTask edge_id task edges = append_to_edge (AppendTask task) edge_id edges"

text \<open>These calls have their bodies commented out in the source: what they answer, with no effect on an edge.\<close>

definition SelectEdgeByIdDoAction :: "string \<Rightarrow> json \<Rightarrow> 'e manager \<Rightarrow> bool" where
  "SelectEdgeByIdDoAction edge_id action edges = (if map_of edges edge_id = None then False else False)"

definition setESTOP :: "string \<Rightarrow> bool \<Rightarrow> 'e manager \<Rightarrow> bool" where
  "setESTOP edge_id estop edges = (if map_of edges edge_id = None then False else False)"

definition setAllEdgesESTOP :: "bool \<Rightarrow> 'e manager \<Rightarrow> bool" where
  "setAllEdgesESTOP estop edges = True"

definition getEdgeOnlineStatus :: "string \<Rightarrow> 'e manager \<Rightarrow> bool" where
  "getEdgeOnlineStatus edge_id edges = (if map_of edges edge_id = None then False else False)"

definition getOnlineEdges :: "'e manager \<Rightarrow> bool \<times> string list" where
  "getOnlineEdges edges = (True, map fst edges)"

definition getEdgeTaskStatus :: "string \<Rightarrow> 'e manager \<Rightarrow> bool" where
  "getEdgeTaskStatus edge_id edges \<longleftrightarrow> map_of edges edge_id \<noteq> None"

section \<open>What the manager relies on\<close>

definition manager_inv :: "('e \<Rightarrow> bool) \<Rightarrow> 'e manager \<Rightarrow> bool" where
  "manager_inv valid m \<longleftrightarrow> distinct (map fst m) \<and> (\<forall>(k, e) \<in> set m. valid e)"

lemma keys_map_snd [simp]: "map fst (map (\<lambda>(k, e). (k, f e)) m) = map fst m"
  by (induction m) auto

lemma startAll_eq:
  "startAllEdges Start m = (list_all (\<lambda>(k, e). fst (Start e)) m, map (\<lambda>(k, e). (k, snd (Start e))) m)"
  by (induction m) (auto simp: split_beta)

lemma manager_map:
  assumes "manager_inv valid m" "\<And>e. valid e \<Longrightarrow> valid (f e)"
  shows "manager_inv valid (map (\<lambda>(k, e). (k, f e)) m)"
  using assms by (auto simp del: map_map simp: manager_inv_def)

text \<open>\<open>valid\<close> holds of the edges a caller can get hold of; an edge that is shut down accepts no task.\<close>

locale iedge =
  fixes valid :: "'e \<Rightarrow> bool"
    and Start :: "'e \<Rightarrow> bool \<times> 'e"
    and Shutdown :: "'e \<Rightarrow> 'e"
    and AppendTask :: "Task \<Rightarrow> 'e \<Rightarrow> bool \<times> 'e"
    and AppendJsonTask :: "json \<Rightarrow> 'e \<Rightarrow> bool \<times> 'e"
  assumes valid_Start: "valid e \<Longrightarrow> valid (snd (Start e))"
    and valid_Shutdown: "valid e \<Longrightarrow> valid (Shutdown e)"
    and valid_AppendTask: "valid e \<Longrightarrow> valid (snd (AppendTask t e))"
    and valid_AppendJsonTask: "valid e \<Longrightarrow> valid (snd (AppendJsonTask j e))"
    and shutdown_refuses: "valid e \<Longrightarrow> AppendTask t (Shutdown e) = (False, Shutdown e)"
    and shutdown_refuses_json: "valid e \<Longrightarrow> AppendJsonTask j (Shutdown e) = (False, Shutdown e)"
begin

lemma manager_append:
  assumes "manager_inv valid m" "valid e" shows "manager_inv valid (snd (appendEdge edgeId (Some e) m))"
  using assms all_update [of m "\<lambda>k. valid" "edgeId e" e] by (simp add: manager_inv_def appendEdge_def)

lemma manager_delete: "manager_inv valid m \<Longrightarrow> manager_inv valid (snd (deleteEdgeById k m))"
  using distinct_delete [of m k] by (auto simp: manager_inv_def deleteEdgeById_def) (auto simp: AList.delete_eq)

lemma manager_start: "manager_inv valid m \<Longrightarrow> manager_inv valid (snd (startAllEdges Start m))"
  unfolding startAll_eq snd_conv by (erule manager_map) (rule valid_Start)

lemma manager_stop: "manager_inv valid m \<Longrightarrow> manager_inv valid (snd (stopAllEdges Shutdown m))"
  unfolding stopAllEdges_def snd_conv by (erule manager_map) (rule valid_Shutdown)

lemma manager_append_to:
  assumes "manager_inv valid m" "\<And>e. valid e \<Longrightarrow> valid (snd (f e))"
  shows "manager_inv valid (snd (append_to_edge f k m))"
proof (cases "map_of m k")
  case (Some e)
  then have "valid (snd (f e))" using assms map_of_all [of m "\<lambda>k. valid" k e] by (simp add: manager_inv_def)
  then show ?thesis
    using assms(1) Some all_update [of m "\<lambda>k. valid" k "snd (f e)"]
    by (simp add: manager_inv_def append_to_edge_def split: prod.split)
qed (use assms in \<open>simp add: append_to_edge_def\<close>)

text \<open>After all edges are stopped no task gets in.\<close>

lemma stopped_refuses:
  assumes "manager_inv valid m"
  shows "append_to_edge (AppendTask t) k (snd (stopAllEdges Shutdown m)) = (False, snd (stopAllEdges Shutdown m))"
    "append_to_edge (AppendJsonTask j) k (snd (stopAllEdges Shutdown m)) = (False, snd (stopAllEdges Shutdown m))"
proof -
  let ?m = "snd (stopAllEdges Shutdown m)"
  have m: "map_of ?m k = map_option Shutdown (map_of m k)" by (simp add: stopAllEdges_def map_of_map)
  have "AList.update k e ?m = ?m" if "map_of ?m k = Some e" for e
    using that assms by (simp add: manager_inv_def stopAllEdges_def update_triv del: map_map)
  then show "append_to_edge (AppendTask t) k ?m = (False, ?m)" "append_to_edge (AppendJsonTask j) k ?m = (False, ?m)"
    using assms m map_of_all [of m "\<lambda>k. valid" k]
    by (auto simp: append_to_edge_def manager_inv_def shutdown_refuses shutdown_refuses_json split: option.split)
qed

end
section \<open>Edges of the repository\<close>

text \<open>A stopped edge has no queues, and between calls no edge is in the state \<open>Stopping\<close>.\<close>

definition stop_inv :: "BaseEdge \<Rightarrow> bool" where
  "stop_inv s \<longleftrightarrow> be_run_state s \<noteq> RsStopping \<and> (be_run_state s = RsStopped \<longrightarrow> be_queues s = [])"

lemma assign_state:
  assumes "be_run_state s = RsInitializing" "\<And>v. be_run_state (f v s) = RsInitializing"
    and "\<And>s'. be_run_state s' = RsInitializing \<Longrightarrow> be_run_state (snd (k s')) \<in> {RsInitializing, RsReady}"
  shows "be_run_state (snd (assign r f k s)) \<in> {RsInitializing, RsReady}"
  using assms by (simp add: assign_def split: sum.split)

lemma be_Init_state: "be_run_state (snd (be_Init cfg now s)) \<in> {RsInitializing, RsReady}"
  unfolding be_Init_def Let_def by (intro assign_state) simp_all

lemma una_Init_state: "be_run_state (snd (una_Init cfg now s)) \<in> {RsInitializing, RsReady}"
  using be_Init_state [of cfg now s]
  by (cases "be_Init cfg now s") (simp add: una_Init_def RegisterSelfTaskHandler_def split: option.split)

lemma start_devices_state: "be_run_state (snd (start_devices ds s)) = be_run_state s"
  by (induction ds s rule: start_devices.induct) (auto split: option.split prod.split bool.split)

lemma be_Start_stop: "stop_inv s \<Longrightarrow> stop_inv (snd (be_Start s))"
proof (cases "be_run_state s = RsReady")
  case True
  let ?s = "StartSnapshotThreadLocked (StartSelfActionThreadLocked (StartSelfTaskMonitorThreadLocked s))"
  have "be_run_state ?s = RsReady"
    using True by (simp add: StartSnapshotThreadLocked_def StartSelfActionThreadLocked_def StartSelfTaskMonitorThreadLocked_def)
  then show ?thesis
    using True start_devices_state [of "be_devices ?s" ?s]
    by (auto simp: be_Start_def stop_inv_def Let_def split: prod.split bool.split)
qed (simp add: be_Start_def)

lemma append_stop: "stop_inv s \<Longrightarrow> stop_inv (snd (AppendTaskToQueueLocked k t s))"
  by (auto simp: AppendTaskToQueueLocked_def stop_inv_def split: option.split)

lemma edge_step_stop: "edge_step s s' \<Longrightarrow> stop_inv s \<Longrightarrow> stop_inv s'"
proof (induction rule: edge_step.induct)
  case (init s cfg now)
  then show ?case using be_Init_state [of cfg now s] by (auto simp: stop_inv_def)
next
  case (una_init s cfg now)
  then show ?case using una_Init_state [of cfg now s] by (auto simp: stop_inv_def)
next
  case (submit s cmd now seq)
  obtain r seq' s' where r: "be_Submit cmd now seq s = (r, seq', s')" by (metis prod.exhaust)
  from submit_appends [OF r] show ?case
    using submit append_stop [OF submit] by (auto simp: r) (metis snd_conv)
next
  case (thread s device_id now readings)
  then show ?case by (auto simp: stop_inv_def device_thread_step_def split: option.split prod.split)
next
  case (estop s active reason)
  then show ?case by (simp add: stop_inv_def be_SetEStop_def)
next
  case (shutdown s)
  then show ?case by (simp add: stop_inv_def be_Shutdown_def)
qed (simp_all add: be_Start_stop be_AppendTask_def be_AppendJsonTask_def append_stop)

interpretation edge_stop: invariant_system "\<lambda>s. \<exists>edge_type. s = BaseEdge_ctor edge_type" edge_step stop_inv
proof
  show "stop_inv s" if "\<exists>edge_type. s = BaseEdge_ctor edge_type" for s
    using that by (auto simp: BaseEdge_ctor_def stop_inv_def)
qed (rule edge_step_stop)

definition edge_made :: "BaseEdge \<Rightarrow> bool" where
  "edge_made e \<longleftrightarrow> (\<exists>edge_type. edge_step\<^sup>*\<^sup>* (BaseEdge_ctor edge_type) e)"

lemma edge_made_step: "edge_made e \<Longrightarrow> edge_step e e' \<Longrightarrow> edge_made e'"
  unfolding edge_made_def by (meson rtranclp.rtrancl_into_rtrancl)

lemma shutdown_state:
  assumes "edge_made e"
  shows "be_queues (be_Shutdown e) = [] \<and> be_run_state (be_Shutdown e) = RsStopped"
proof -
  have "stop_inv e" using assms edge_stop.reachable_inv by (auto simp: edge_made_def)
  then show ?thesis by (auto simp: be_Shutdown_def stop_inv_def)
qed

interpretation base_edge: iedge edge_made be_Start be_Shutdown be_AppendTask be_AppendJsonTask
proof
  fix e t j
  assume e: "edge_made e"
  show "edge_made (snd (be_Start e))" "edge_made (be_Shutdown e)" "edge_made (snd (be_AppendTask t e))"
    "edge_made (snd (be_AppendJsonTask j e))"
    unfolding be_AppendJsonTask_def
    by (rule edge_made_step [OF e edge_step.start] edge_made_step [OF e edge_step.shutdown]
        edge_made_step [OF e edge_step.append])+
  show "be_AppendTask t (be_Shutdown e) = (False, be_Shutdown e)"
    "be_AppendJsonTask j (be_Shutdown e) = (False, be_Shutdown e)"
    using shutdown_state [OF e] by (simp_all add: be_AppendTask_def be_AppendJsonTask_def AppendTaskToQueueLocked_def)
qed

section \<open>The manager between calls\<close>

inductive manager_step :: "BaseEdge manager \<Rightarrow> BaseEdge manager \<Rightarrow> bool" where
  append: "edge_made e \<Longrightarrow> manager_step m (snd (appendEdge be_edge_id (Some e) m))"
| delete: "manager_step m (snd (deleteEdgeById k m))"
| start: "manager_step m (snd (startAllEdges be_Start m))"
| stop: "manager_step m (snd (stopAllEdges be_Shutdown m))"
| task: "manager_step m (snd (appendTaskToEdgeByIdV2 be_AppendTask k t m))"
| task_json: "manager_step m (snd (appendTaskToEdgeById be_AppendJsonTask k j m))"
| edge_works: "map_of m k = Some e \<Longrightarrow> edge_step e e' \<Longrightarrow> manager_step m (AList.update k e' m)"

lemma manager_step_inv: "manager_step m m' \<Longrightarrow> manager_inv edge_made m \<Longrightarrow> manager_inv edge_made m'"
proof (induction rule: manager_step.induct)
  case (edge_works m k e e')
  then show ?case
    using map_of_all [of m "\<lambda>k. edge_made" k e] edge_made_step [OF _ edge_works.hyps(2)]
      all_update [of m "\<lambda>k. edge_made" k e'] by (simp add: manager_inv_def)
qed (simp_all add: base_edge.manager_append base_edge.manager_delete base_edge.manager_start base_edge.manager_stop
    appendTaskToEdgeByIdV2_def appendTaskToEdgeById_def base_edge.manager_append_to base_edge.valid_AppendTask
    base_edge.valid_AppendJsonTask)

interpretation mgr: invariant_system "\<lambda>m. m = []" manager_step "manager_inv edge_made"
proof
  show "manager_inv edge_made m" if "m = []" for m using that by (simp add: manager_inv_def)
qed (rule manager_step_inv)

text \<open>Whatever was called before, the identifiers in the manager are distinct, and after \<open>stopAllEdges\<close> no call
  gets a task into an edge: both calls that append a task answer false and change nothing, and every edge
  of the manager is stopped and refuses commands, with the exception every refusal ends in.\<close>

theorem stopped_manager_refuses:
  assumes "manager_step\<^sup>*\<^sup>* [] m"
  shows "distinct (getEdgeIds m) \<and>
    (let (ok, m') = stopAllEdges be_Shutdown m in
      ok \<and> getEdgeIds m' = getEdgeIds m \<and>
      (\<forall>k t. appendTaskToEdgeByIdV2 be_AppendTask k t m' = (False, m')) \<and>
      (\<forall>k j. appendTaskToEdgeById be_AppendJsonTask k j m' = (False, m')) \<and>
      (\<forall>k. case getEdgeById k m' of None \<Rightarrow> \<not> HasEdge k m
         | Some e \<Rightarrow> HasEdge k m \<and> be_run_state e = RsStopped \<and> (\<forall>cmd now seq. be_Submit cmd now seq e = (Inl LogicError, seq, e))))"
proof -
  have i: "manager_inv edge_made m" using mgr.reachable_inv [OF refl assms] .
  let ?m = "snd (stopAllEdges be_Shutdown m)"
  have m: "map_of ?m k = map_option be_Shutdown (map_of m k)" for k by (simp add: stopAllEdges_def map_of_map)
  have "be_run_state (be_Shutdown e) = RsStopped" if "map_of m k = Some e" for k e
    using shutdown_state map_of_all [of m "\<lambda>k. edge_made" k e] that i by (simp add: manager_inv_def)
  then have "case getEdgeById k ?m of None \<Rightarrow> \<not> HasEdge k m
       | Some e \<Rightarrow> HasEdge k m \<and> be_run_state e = RsStopped \<and> (\<forall>cmd now seq. be_Submit cmd now seq e = (Inl LogicError, seq, e))" for k
    by (cases "map_of m k") (auto simp: getEdgeById_def HasEdge_def m be_Submit_def refusal_throws)
  moreover have "getEdgeIds ?m = getEdgeIds m" by (simp add: getEdgeIds_def stopAllEdges_def del: map_map)
  ultimately show ?thesis
    using i base_edge.stopped_refuses [OF i]
    by (simp add: stopAllEdges_def getEdgeIds_def manager_inv_def appendTaskToEdgeByIdV2_def appendTaskToEdgeById_def)
qed

lemma demo_manager_reachable: "manager_step\<^sup>*\<^sup>* [] [(''e1'', demo_edge)]"
proof -
  have "edge_made demo_edge" using demo_edge_reachable by (auto simp: edge_made_def)
  from manager_step.append [OF this, of "[]"] show ?thesis by (auto simp: appendEdge_def demo_simps)
qed

theorem stopped_manager_refuses_witness:
  "appendTaskToEdgeByIdV2 be_AppendTask ''e1'' Task_init (snd (stopAllEdges be_Shutdown [(''e1'', demo_edge)])) =
    (False, snd (stopAllEdges be_Shutdown [(''e1'', demo_edge)]))"
  using stopped_manager_refuses [OF demo_manager_reachable] by (simp add: split_beta)

text \<open>A task handed to the manager reaches the edge with the given identifier and no other: the answer is
  that of this edge, its state is the one after its own \<open>AppendTask\<close>, and every other edge and the set of
  identifiers stay as they are; with an unknown identifier nothing happens and the answer is false.\<close>

theorem manager_routes_tasks:
  "(case appendTaskToEdgeByIdV2 be_AppendTask k t m of (ok, m') \<Rightarrow>
     (\<forall>i. getEdgeById i m' = (if i = k then map_option (\<lambda>e. snd (be_AppendTask t e)) (getEdgeById k m) else getEdgeById i m)) \<and>
     getEdgeIds m' = getEdgeIds m \<and>
     ok = (case getEdgeById k m of None \<Rightarrow> False | Some e \<Rightarrow> fst (be_AppendTask t e)))"
proof (cases "map_of m k")
  case (Some e)
  have "map fst (AList.update k e' m) = map fst m" for e'
    using Some by (induction m) (auto split: if_splits)
  then show ?thesis
    using Some by (simp add: appendTaskToEdgeByIdV2_def append_to_edge_def getEdgeById_def getEdgeIds_def update_conv' split_beta)
qed (simp add: appendTaskToEdgeByIdV2_def append_to_edge_def getEdgeById_def getEdgeIds_def)

end
