(* ===== verification/FileSys.thy ===== *)
theory FileSys
  imports Prelude "HOL-Library.Sublist"
begin

text \<open>
  The part of \<open>std::filesystem\<close> that the file cache uses, on a file system with directories, regular files and
  symbolic links. A path is the list of its elements behind the root directory, as the iterator of a
  \<open>path\<close> gives them: repeated separators vanish and a separator at the end is an empty last element. Names
  are taken to have no zero byte.
\<close>

section \<open>Paths\<close>

fun split_slash :: "string \<Rightarrow> string list" where
  "split_slash [] = [[]]"
| "split_slash (c # s) =
     (if c = CHR ''/'' then [] # split_slash s
      else case split_slash s of p # ps \<Rightarrow> (c # p) # ps | [] \<Rightarrow> [[c]])"

definition is_absolute :: "string \<Rightarrow> bool" where
  "is_absolute s = (case s of c # cs \<Rightarrow> c = CHR ''/'' | [] \<Rightarrow> False)"

definition elements :: "string \<Rightarrow> string list" where
  "elements s =
     (let ps = split_slash s; ne = filter (\<lambda>p. p \<noteq> []) ps in
      if ne \<noteq> [] \<and> last ps = [] then ne @ [[]] else ne)"

text \<open>\<open>p / s\<close>\<close>

definition path_append :: "string list \<Rightarrow> string \<Rightarrow> string list" where
  "path_append p s = (if is_absolute s then elements s else p @ elements s)"

definition path_string :: "string list \<Rightarrow> string" where
  "path_string p = (if p = [] then ''/'' else concat (map (\<lambda>c. CHR ''/'' # c) p))"

text \<open>\<open>lexically_normal\<close> of an absolute path: dots go, a name goes with the two dots behind it, and where the
  path ended in dots a separator stays.\<close>

fun norm :: "string list \<Rightarrow> string list \<Rightarrow> string list" where
  "norm acc [] = acc"
| "norm acc (c # cs) =
     (if c = [] \<or> c = ''.'' then norm acc cs
      else if c = ''..'' then norm (butlast acc) cs
      else norm (acc @ [c]) cs)"

definition lexically_normal :: "string list \<Rightarrow> string list" where
  "lexically_normal p =
     (let q = norm [] p in
      if q \<noteq> [] \<and> p \<noteq> [] \<and> last p \<in> {[], ''.'', ''..''} then q @ [[]] else q)"

text \<open>\<open>lexically_relative\<close> of two normal absolute paths.\<close>

fun lexically_relative :: "string list \<Rightarrow> string list \<Rightarrow> string list" where
  "lexically_relative (x # p) (y # base) =
     (if x = y then lexically_relative p base else replicate (Suc (length base)) ''..'' @ x # p)"
| "lexically_relative p [] = p"
| "lexically_relative [] base = replicate (length base) ''..''"

text \<open>The text of a relative path; no elements is the path \<open>.\<close>.\<close>

fun relative_string :: "string list \<Rightarrow> string" where
  "relative_string [] = ''.''"
| "relative_string [c] = c"
| "relative_string (c # cs) = c @ CHR ''/'' # relative_string cs"

section \<open>Files\<close>

type_synonym byte_string = "8 word list"

text \<open>A regular file has its contents and the time of the last write, in seconds.\<close>

datatype node = NDir | NFile byte_string int | NLink string

type_synonym fs = "(string list \<times> node) list"

datatype errno = ENOENT | ENOTDIR | EISDIR | EEXIST | ENOTEMPTY | ELOOP | EBUSY | EINVAL | EIO

definition node_at :: "fs \<Rightarrow> string list \<Rightarrow> node option" where
  "node_at fs p = (if p = [] then Some NDir else map_of fs p)"

text \<open>
  Where a path leads from the directory \<open>cur\<close>: links are followed, at most \<open>n\<close> of them, and the last element may be
  missing.
\<close>

function locate :: "nat \<Rightarrow> fs \<Rightarrow> string list \<Rightarrow> string list \<Rightarrow> errno + string list" where
  "locate n fs cur [] = Inr cur"
| "locate n fs cur (c # cs) =
     (if node_at fs cur \<noteq> Some NDir then Inl ENOTDIR
      else if c = [] \<or> c = ''.'' then locate n fs cur cs
      else if c = ''..'' then locate n fs (butlast cur) cs
      else case node_at fs (cur @ [c]) of
        None \<Rightarrow> if cs = [] then Inr (cur @ [c]) else Inl ENOENT
      | Some (NLink t) \<Rightarrow>
          (case n of
             0 \<Rightarrow> Inl ELOOP
           | Suc m \<Rightarrow> locate m fs (if is_absolute t then [] else cur) (elements t @ cs))
      | Some _ \<Rightarrow> locate n fs (cur @ [c]) cs)"
  by pat_completeness auto
termination by (relation "measures [\<lambda>(n, fs, cur, cs). n, \<lambda>(n, fs, cur, cs). length cs]") auto

definition max_links :: nat where
  "max_links = 40"

definition realpath :: "fs \<Rightarrow> string list \<Rightarrow> errno + string list" where
  "realpath fs p =
     ebind (locate max_links fs [] p) (\<lambda>q. if node_at fs q = None then Inl ENOENT else Inr q)"

text \<open>\<open>status\<close>: a path that leads nowhere is not found; a loop of links is an error.\<close>

datatype fstatus = SNotFound | SFound "string list" | SError errno

definition status :: "fs \<Rightarrow> string list \<Rightarrow> fstatus" where
  "status fs p =
     (case realpath fs p of
        Inr q \<Rightarrow> SFound q
      | Inl e \<Rightarrow> if e = ENOENT \<or> e = ENOTDIR then SNotFound else SError e)"

definition fs_exists :: "fs \<Rightarrow> string list \<Rightarrow> bool" where
  "fs_exists fs p = (case status fs p of SFound q \<Rightarrow> True | _ \<Rightarrow> False)"

definition is_directory :: "fs \<Rightarrow> string list \<Rightarrow> bool" where
  "is_directory fs p = (case status fs p of SFound q \<Rightarrow> node_at fs q = Some NDir | _ \<Rightarrow> False)"

fun is_file :: "node option \<Rightarrow> bool" where
  "is_file (Some (NFile d t)) = True"
| "is_file _ = False"

definition is_regular_file :: "fs \<Rightarrow> string list \<Rightarrow> bool" where
  "is_regular_file fs p = (case status fs p of SFound q \<Rightarrow> is_file (node_at fs q) | _ \<Rightarrow> False)"

section \<open>Canonical paths\<close>

text \<open>The leading elements that exist, and the rest.\<close>

fun leading :: "fs \<Rightarrow> string list \<Rightarrow> string list \<Rightarrow> errno + string list \<times> string list" where
  "leading fs pre [] = Inr (pre, [])"
| "leading fs pre (c # cs) =
     (case status fs (pre @ [c]) of
        SFound q \<Rightarrow> leading fs (pre @ [c]) cs
      | SNotFound \<Rightarrow> Inr (pre, c # cs)
      | SError e \<Rightarrow> Inl e)"

definition weakly_canonical :: "fs \<Rightarrow> string list \<Rightarrow> errno + string list" where
  "weakly_canonical fs p =
     (case status fs p of
        SFound q \<Rightarrow> Inr q
      | SError e \<Rightarrow> Inl e
      | SNotFound \<Rightarrow>
          ebind (leading fs [] p) (\<lambda>(pre, rest). ebind (realpath fs pre) (\<lambda>base. Inr (lexically_normal (base @ rest)))))"

section \<open>Changes\<close>

text \<open>The entry a path names: as \<open>locate\<close>, but a link at its end is not followed.\<close>

definition entry :: "fs \<Rightarrow> string list \<Rightarrow> errno + string list" where
  "entry fs p =
     (if p = [] \<or> last p \<in> {[], ''.'', ''..''} then realpath fs p
      else ebind (realpath fs (butlast p)) (\<lambda>d.
        if node_at fs d = Some NDir then Inr (d @ [last p]) else Inl ENOTDIR))"

definition fs_put :: "fs \<Rightarrow> string list \<Rightarrow> node \<Rightarrow> fs" where
  "fs_put fs q x = AList.update q x fs"

definition fs_del :: "fs \<Rightarrow> string list \<Rightarrow> fs" where
  "fs_del fs q = AList.delete q fs"

definition has_children :: "fs \<Rightarrow> string list \<Rightarrow> bool" where
  "has_children fs q \<longleftrightarrow> list_ex (\<lambda>(p, x). p \<noteq> [] \<and> butlast p = q) fs"

definition fs_remove :: "fs \<Rightarrow> string list \<Rightarrow> errno + fs" where
  "fs_remove fs p =
     (if p \<noteq> [] \<and> last p \<in> {''.'', ''..''} then Inl EINVAL
      else ebind (entry fs p) (\<lambda>q.
       case node_at fs q of
         None \<Rightarrow> Inl ENOENT
       | Some NDir \<Rightarrow> if q = [] then Inl EBUSY else if has_children fs q then Inl ENOTEMPTY else Inr (fs_del fs q)
       | Some _ \<Rightarrow> Inr (fs_del fs q)))"

text \<open>Opening a file for writing with truncation: where it is written.\<close>

definition fs_open :: "fs \<Rightarrow> string list \<Rightarrow> errno + string list" where
  "fs_open fs p =
     ebind (locate max_links fs [] p) (\<lambda>q. if node_at fs q = Some NDir then Inl EISDIR else Inr q)"

definition fs_rename :: "fs \<Rightarrow> string list \<Rightarrow> string list \<Rightarrow> errno + fs" where
  "fs_rename fs p p' =
     ebind (entry fs p) (\<lambda>q. ebind (entry fs p') (\<lambda>q'.
       case node_at fs q of
         None \<Rightarrow> Inl ENOENT
       | Some x \<Rightarrow> if node_at fs q' = Some NDir \<or> x = NDir then Inl EISDIR
           else if q = q' then Inr fs else Inr (fs_put (fs_del fs q) q' x)))"

text \<open>The error, if any, and what was made until then.\<close>

fun create_directories :: "fs \<Rightarrow> string list \<Rightarrow> string list \<Rightarrow> errno option \<times> fs" where
  "create_directories fs pre [] = (None, fs)"
| "create_directories fs pre (c # cs) =
     (case status fs (pre @ [c]) of
        SFound q \<Rightarrow> if node_at fs q = Some NDir then create_directories fs (pre @ [c]) cs else (Some ENOTDIR, fs)
      | SError e \<Rightarrow> (Some e, fs)
      | SNotFound \<Rightarrow>
          (case entry fs (pre @ [c]) of
             Inl e \<Rightarrow> (Some e, fs)
           | Inr q \<Rightarrow> if node_at fs q \<noteq> None then (Some EEXIST, fs) else create_directories (fs_put fs q NDir) (pre @ [c]) cs))"

definition last_write_time :: "fs \<Rightarrow> (string list \<Rightarrow> int) \<Rightarrow> string list \<Rightarrow> int option" where
  "last_write_time fs dir_time p =
     (case realpath fs p of
        Inl e \<Rightarrow> None
      | Inr q \<Rightarrow> (case node_at fs q of Some (NFile d t) \<Rightarrow> Some t | Some NDir \<Rightarrow> Some (dir_time q) | _ \<Rightarrow> None))"

section \<open>Well-formed file systems\<close>

definition clean :: "string \<Rightarrow> bool" where
  "clean c \<longleftrightarrow> c \<noteq> [] \<and> c \<noteq> ''.'' \<and> c \<noteq> ''..'' \<and> CHR ''/'' \<notin> set c"

definition no_slash :: "string \<Rightarrow> bool" where
  "no_slash c \<longleftrightarrow> CHR ''/'' \<notin> set c"

definition fs_wf :: "fs \<Rightarrow> bool" where
  "fs_wf fs \<longleftrightarrow> distinct (map fst fs) \<and>
     (\<forall>(p, x) \<in> set fs. p \<noteq> [] \<and> list_all clean p \<and> node_at fs (butlast p) = Some NDir)"

text \<open>A path that \<open>weakly_canonical\<close> can give: plain names, perhaps a separator at the end.\<close>

definition normal_path :: "string list \<Rightarrow> bool" where
  "normal_path p \<longleftrightarrow> (\<exists>q e. p = q @ e \<and> list_all clean q \<and> (e = [] \<or> e = [[]] \<and> q \<noteq> []))"

lemma clean_no_slash [simp]: "clean c \<Longrightarrow> no_slash c"
  by (simp add: clean_def no_slash_def)

lemma cleanI: "c \<noteq> [] \<Longrightarrow> c \<noteq> ''.'' \<Longrightarrow> c \<noteq> ''..'' \<Longrightarrow> no_slash c \<Longrightarrow> clean c"
  by (simp add: clean_def no_slash_def)

lemma clean_normal: "list_all clean p \<Longrightarrow> normal_path p"
  by (auto simp: normal_path_def)

lemma node_at_root [simp]: "node_at fs [] = Some NDir"
  by (simp add: node_at_def)

lemma node_at_wf:
  assumes "fs_wf fs" "node_at fs p = Some x"
  shows "list_all clean p \<and> (p \<noteq> [] \<longrightarrow> node_at fs (butlast p) = Some NDir)"
  using assms map_of_SomeD [of fs p x] by (fastforce simp: fs_wf_def node_at_def split: if_splits)

lemma node_at_ancestors:
  assumes "fs_wf fs" "node_at fs p \<noteq> None" "strict_prefix a p"
  shows "node_at fs a = Some NDir"
  using assms(2,3)
proof (induction p rule: rev_induct)
  case (snoc c p)
  then have d: "node_at fs p = Some NDir" using node_at_wf [OF assms(1), of "p @ [c]"] by auto
  from snoc.prems(2) have "prefix a p" by (auto simp: strict_prefix_def)
  then show ?case using snoc.IH d by (cases "a = p") (auto simp: strict_prefix_def)
qed simp

lemma split_slash_no_slash: "\<forall>p \<in> set (split_slash s). no_slash p"
  by (induction s) (auto simp: no_slash_def split: list.split)

lemma elements_no_slash [simp]: "list_all no_slash (elements s)"
  using split_slash_no_slash [of s] by (auto simp: elements_def Let_def list_all_iff no_slash_def)

lemma list_all_butlast: "list_all P xs \<Longrightarrow> list_all P (butlast xs)"
  by (auto simp: list_all_iff dest: in_set_butlastD)

lemma locate_ConsE:
  assumes "locate n fs cur (c # cs) = Inr q"
  obtains (skip) "node_at fs cur = Some NDir" "c = [] \<or> c = ''.''" "locate n fs cur cs = Inr q"
  | (up) "node_at fs cur = Some NDir" "c = ''..''" "locate n fs (butlast cur) cs = Inr q"
  | (missing) "node_at fs cur = Some NDir" "c \<noteq> []" "c \<noteq> ''.''" "c \<noteq> ''..''" "node_at fs (cur @ [c]) = None" "cs = []" "q = cur @ [c]"
  | (link) t m where "node_at fs cur = Some NDir" "c \<noteq> []" "c \<noteq> ''.''" "c \<noteq> ''..''" "node_at fs (cur @ [c]) = Some (NLink t)"
      "n = Suc m" "locate m fs (if is_absolute t then [] else cur) (elements t @ cs) = Inr q"
  | (down) x where "node_at fs cur = Some NDir" "c \<noteq> []" "c \<noteq> ''.''" "c \<noteq> ''..''" "node_at fs (cur @ [c]) = Some x"
      "\<forall>t. x \<noteq> NLink t" "locate n fs (cur @ [c]) cs = Inr q"
proof (cases "c = [] \<or> c = ''.'' \<or> c = ''..''")
  case True
  then show ?thesis using assms skip up by (cases "node_at fs cur = Some NDir") auto
next
  case False
  then have d: "node_at fs cur = Some NDir" using assms by (cases "node_at fs cur = Some NDir") auto
  show ?thesis
  proof (cases "node_at fs (cur @ [c])")
    case None
    then show ?thesis using assms False d missing by (cases "cs = []") auto
  next
    case (Some x)
    show ?thesis
    proof (cases x)
      case (NLink t)
      then obtain m where "n = Suc m" "locate m fs (if is_absolute t then [] else cur) (elements t @ cs) = Inr q"
        using assms False d Some by (cases n) auto
      then show ?thesis using link Some NLink False d by blast
    qed (use assms False d Some down [of x] in simp_all)
  qed
qed

text \<open>Induction along a successful search.\<close>

lemma locate_Inr_induct [consumes 1, case_names arrive skip up missing link down]:
  assumes "locate n fs cur cs = Inr q"
    and "\<And>n. P n q []"
    and "\<And>n cur c cs. locate n fs cur cs = Inr q \<Longrightarrow> c = [] \<or> c = ''.'' \<Longrightarrow> P n cur cs \<Longrightarrow> P n cur (c # cs)"
    and "\<And>n cur cs. node_at fs cur = Some NDir \<Longrightarrow> locate n fs (butlast cur) cs = Inr q \<Longrightarrow> P n (butlast cur) cs \<Longrightarrow> P n cur (''..'' # cs)"
    and "\<And>n cur c. node_at fs cur = Some NDir \<Longrightarrow> c \<noteq> [] \<Longrightarrow> c \<noteq> ''.'' \<Longrightarrow> c \<noteq> ''..'' \<Longrightarrow> node_at fs (cur @ [c]) = None \<Longrightarrow>
        q = cur @ [c] \<Longrightarrow> P n cur [c]"
    and "\<And>m cur c cs t. c \<noteq> [] \<Longrightarrow> c \<noteq> ''.'' \<Longrightarrow> c \<noteq> ''..'' \<Longrightarrow> node_at fs (cur @ [c]) = Some (NLink t) \<Longrightarrow>
        P m (if is_absolute t then [] else cur) (elements t @ cs) \<Longrightarrow> P (Suc m) cur (c # cs)"
    and "\<And>n cur c cs x. node_at fs cur = Some NDir \<Longrightarrow> c \<noteq> [] \<Longrightarrow> c \<noteq> ''.'' \<Longrightarrow> c \<noteq> ''..'' \<Longrightarrow> node_at fs (cur @ [c]) = Some x \<Longrightarrow>
        \<forall>t. x \<noteq> NLink t \<Longrightarrow> P n (cur @ [c]) cs \<Longrightarrow> P n cur (c # cs)"
  shows "P n cur cs"
  using assms(1)
proof (induction n arbitrary: cur cs rule: less_induct)
  case outer: (less n)
  from outer.prems show ?case
  proof (induction cs arbitrary: cur)
    case Nil
    then show ?case using assms(2) by simp
  next
    case (Cons c cs)
    from Cons.prems show ?case
    proof (cases rule: locate_ConsE)
      case skip
      then show ?thesis using Cons.IH assms(3) by blast
    next
      case up
      then show ?thesis using Cons.IH assms(4) by blast
    next
      case missing
      then show ?thesis using assms(5) by blast
    next
      case (link t m)
      then have "P m (if is_absolute t then [] else cur) (elements t @ cs)" using outer.IH by blast
      then show ?thesis using link assms(6) by blast
    next
      case (down x)
      then show ?thesis using Cons.IH assms(7) by blast
    qed
  qed
qed

lemma locate_clean:
  assumes "locate n fs cur cs = Inr q" "list_all clean cur" "list_all no_slash cs"
  shows "list_all clean q"
  using assms by (induction rule: locate_Inr_induct) (simp_all add: list_all_butlast cleanI)

lemma norm_clean: "list_all clean acc \<Longrightarrow> list_all no_slash cs \<Longrightarrow> list_all clean (norm acc cs)"
  by (induction acc cs rule: norm.induct) (auto simp: list_all_butlast cleanI)

lemma lexically_normal_normal: "list_all no_slash p \<Longrightarrow> normal_path (lexically_normal p)"
  using norm_clean [of "[]" p] by (auto simp: lexically_normal_def Let_def normal_path_def)

lemma realpath_clean: "fs_wf fs \<Longrightarrow> list_all no_slash p \<Longrightarrow> realpath fs p = Inr q \<Longrightarrow> list_all clean q"
  using locate_clean [of max_links fs "[]" p q] by (auto simp: realpath_def ebind_eq_Inr_iff split: if_splits)

lemma leading_split: "leading fs pre cs = Inr (p, rest) \<Longrightarrow> pre @ cs = p @ rest"
  by (induction fs pre cs rule: leading.induct) (auto split: fstatus.splits)

lemma weakly_canonical_normal:
  assumes "fs_wf fs" "list_all no_slash p" "weakly_canonical fs p = Inr q"
  shows "normal_path q"
proof (cases "status fs p")
  case SNotFound
  then obtain pre rest base where l: "leading fs [] p = Inr (pre, rest)" "realpath fs pre = Inr base"
    and q: "q = lexically_normal (base @ rest)"
    using assms(3) by (auto simp: weakly_canonical_def ebind_eq_Inr_iff)
  have "list_all no_slash (pre @ rest)" using leading_split [OF l(1)] assms(2) by simp
  then have "list_all no_slash (base @ rest)" using realpath_clean [OF assms(1) _ l(2)]
    by (auto simp: list_all_iff)
  then show ?thesis using q lexically_normal_normal by simp
next
  case (SFound q')
  then have "realpath fs p = Inr q" using assms(3)
    by (auto simp: weakly_canonical_def status_def split: sum.splits if_splits)
  then show ?thesis using realpath_clean assms(1,2) clean_normal by blast
qed (use assms(3) in \<open>simp add: weakly_canonical_def\<close>)

section \<open>The text of paths\<close>

lemma path_string_Cons: "path_string (c # p) = CHR ''/'' # c @ (if p = [] then [] else path_string p)"
  by (simp add: path_string_def)

lemma slash_split [simp]:
  "no_slash c \<Longrightarrow> no_slash d \<Longrightarrow> (c @ CHR ''/'' # s = d @ CHR ''/'' # t) = (c = d \<and> s = t)"
proof (induction c arbitrary: d)
  case Nil
  then show ?case by (cases d) (auto simp: no_slash_def)
next
  case (Cons a c)
  then show ?case by (cases d) (auto simp: no_slash_def)
qed

lemma path_string_prefix:
  assumes "list_all no_slash root" "root \<noteq> []" "list_all no_slash p"
  shows "prefix (path_string root @ ''/'') (path_string p) \<longleftrightarrow> prefix root p \<and> p \<noteq> root"
  using assms
proof (induction root arbitrary: p)
  case (Cons c root)
  show ?case
  proof (cases p)
    case (Cons d p')
    have c: "no_slash c" "no_slash d" using Cons.prems Cons by simp_all
    show ?thesis
    proof (cases "p' = []")
      case True
      have "\<forall>s. \<not> prefix (c @ s @ ''/'') d" using c by (auto simp: no_slash_def prefix_def)
      then show ?thesis using True Cons by (cases "root = []") (auto simp: path_string_Cons dest: spec [of _ "[]"])
    next
      case p': False
      then obtain s where s: "path_string p' = CHR ''/'' # s" by (cases p') (auto simp: path_string_Cons)
      show ?thesis
      proof (cases "root = []")
        case True
        then show ?thesis using Cons p' s c by (auto simp: path_string_Cons prefix_def)
      next
        case False
        then obtain r where r: "path_string root = CHR ''/'' # r" by (cases root) (auto simp: path_string_Cons)
        have "prefix (path_string (c # root) @ ''/'') (path_string p) \<longleftrightarrow>
            c = d \<and> prefix (path_string root @ ''/'') (path_string p')"
          using Cons p' False s r c by (auto simp: path_string_Cons prefix_def)
        then show ?thesis using Cons.IH [of p'] Cons.prems False Cons by auto
      qed
    qed
  qed (auto simp: path_string_def)
qed simp

lemma path_string_concat_inj:
  "concat (map (\<lambda>c. CHR ''/'' # c) p) = concat (map (\<lambda>c. CHR ''/'' # c) q) \<Longrightarrow>
   list_all no_slash p \<Longrightarrow> list_all no_slash q \<Longrightarrow> p = q"
proof (induction p arbitrary: q)
  case Nil
  then show ?case by (cases q) auto
next
  case (Cons c p)
  then obtain d q' where q: "q = d # q'" by (cases q) auto
  let ?f = "\<lambda>p. concat (map (\<lambda>c. CHR ''/'' # c) p)"
  have e: "c @ ?f p = d @ ?f q'" and s: "no_slash c" "no_slash d" using Cons.prems q by auto
  have f: "?f p = [] \<or> (\<exists>t. ?f p = CHR ''/'' # t)" for p by (cases p) auto
  have "c = d \<and> ?f p = ?f q'"
  proof (cases "?f p = []"; cases "?f q' = []")
    assume "?f p = []" "?f q' \<noteq> []"
    then show ?thesis using e f [of q'] s by (auto simp: no_slash_def)
  next
    assume "?f p \<noteq> []" "?f q' = []"
    then show ?thesis using e f [of p] s by (auto simp: no_slash_def)
  next
    assume "?f p \<noteq> []" "?f q' \<noteq> []"
    then show ?thesis using e f [of p] f [of q'] s by auto
  qed (use e in simp_all)
  then show ?case using Cons q by auto
qed

lemma path_string_inj:
  assumes "path_string p = path_string q" "list_all no_slash p" "list_all no_slash q" "p \<noteq> [[]]" "q \<noteq> [[]]"
  shows "p = q"
proof (cases "p = [] \<or> q = []")
  case True
  have "path_string r = ''/'' \<longleftrightarrow> r = [] \<or> r = [[]]" for r
    by (cases r) (auto simp: path_string_def)
  then show ?thesis using True assms(1,4,5) by (metis path_string_def)
qed (use assms path_string_concat_inj [of p q] in \<open>simp add: path_string_def\<close>)

section \<open>A directory without links\<close>

text \<open>The file system around a directory \<open>root\<close> that may itself be missing: what is above it are directories, and
  there is no link in it.\<close>

definition fs_ok :: "string list \<Rightarrow> fs \<Rightarrow> bool" where
  "fs_ok root fs \<longleftrightarrow>
     fs_wf fs \<and> root \<noteq> [] \<and> list_all clean root \<and> (\<forall>a. strict_prefix a root \<longrightarrow> node_at fs a = Some NDir) \<and>
     (node_at fs root = None \<or> node_at fs root = Some NDir) \<and>
     (\<forall>p t. prefix root p \<longrightarrow> node_at fs p \<noteq> Some (NLink t))"

definition changes_below :: "string list \<Rightarrow> fs \<Rightarrow> fs \<Rightarrow> bool" where
  "changes_below root fs fs' \<longleftrightarrow> (\<forall>p. \<not> prefix root p \<longrightarrow> node_at fs' p = node_at fs p)"

lemma changes_below_refl [simp]: "changes_below root fs fs"
  by (simp add: changes_below_def)

lemma changes_below_trans: "changes_below root fs fs' \<Longrightarrow> changes_below root fs' fs'' \<Longrightarrow> changes_below root fs fs''"
  by (simp add: changes_below_def)

text \<open>A path without double dots, and the names in it.\<close>

definition plain_path :: "string list \<Rightarrow> bool" where
  "plain_path p \<longleftrightarrow> list_all (\<lambda>c. clean c \<or> c = [] \<or> c = ''.'') p"

definition names :: "string list \<Rightarrow> string list" where
  "names p = filter (\<lambda>c. c \<noteq> [] \<and> c \<noteq> ''.'') p"

lemma names_simps [simp]: "names [] = []" "names (p @ q) = names p @ names q" "names [[]] = []" "names [''.''] = []"
  by (simp_all add: names_def)

lemma names_Cons: "names (c # p) = (if c = [] \<or> c = ''.'' then names p else c # names p)"
  by (simp add: names_def)

lemma names_clean [simp]: "list_all clean p \<Longrightarrow> names p = p"
  by (induction p) (auto simp: names_def clean_def)

lemma plain_names: "plain_path p \<Longrightarrow> list_all clean (names p)"
  by (auto simp: plain_path_def names_def list_all_iff)

lemma normal_plain: "normal_path p \<Longrightarrow> plain_path p"
  by (auto simp: normal_path_def plain_path_def list_all_iff)

lemma plain_butlast: "plain_path p \<Longrightarrow> plain_path (butlast p)"
  by (simp add: plain_path_def list_all_butlast)

lemma normal_names: "normal_path p \<Longrightarrow> list_all clean (names p) \<and> (p = names p \<or> p = names p @ [[]] \<and> names p \<noteq> [])"
  by (auto simp: normal_path_def)

lemma locate_no_link:
  assumes "locate n fs cur cs = Inr q" "plain_path cs"
    and "\<forall>a t. prefix a (names cs) \<longrightarrow> node_at fs (cur @ a) \<noteq> Some (NLink t)"
  shows "q = cur @ names cs"
  using assms
proof (induction rule: locate_Inr_induct)
  case (link m cur c cs t)
  then have "prefix [c] (names (c # cs))" by (simp add: names_Cons)
  then show ?case using link by blast
next
  case (down n cur c cs x)
  then have "\<forall>a t. prefix a (names cs) \<longrightarrow> node_at fs ((cur @ [c]) @ a) \<noteq> Some (NLink t)"
    by (auto simp: names_Cons)
  then show ?case using down by (simp add: names_Cons plain_path_def)
qed (auto simp: names_Cons clean_def plain_path_def)

lemma fs_ok_no_link:
  assumes "fs_ok root fs" "prefix root p \<or> prefix p root" "prefix a p"
  shows "node_at fs a \<noteq> Some (NLink t)"
proof (cases "prefix root a")
  case False
  have "prefix a root"
    using assms(2)
  proof
    show "prefix root p \<Longrightarrow> prefix a root" using prefix_same_cases [OF assms(3)] False by blast
    show "prefix p root \<Longrightarrow> prefix a root" using assms(3) prefix_order.trans by blast
  qed
  then have "strict_prefix a root" using False by (auto simp: strict_prefix_def)
  then show ?thesis using assms(1) by (simp add: fs_ok_def)
qed (use assms(1) in \<open>simp add: fs_ok_def\<close>)

lemma fs_ok_locate:
  assumes "fs_ok root fs" "plain_path p" "prefix root (names p) \<or> prefix (names p) root" "locate n fs [] p = Inr q"
  shows "q = names p"
  using locate_no_link [OF assms(4,2)] fs_ok_no_link [OF assms(1,3)] by simp

lemma fs_ok_realpath:
  assumes "fs_ok root fs" "plain_path p" "prefix root (names p) \<or> prefix (names p) root" "realpath fs p = Inr q"
  shows "q = names p \<and> node_at fs q \<noteq> None"
  using fs_ok_locate [OF assms(1-3)] assms(4) by (auto simp: realpath_def ebind_eq_Inr_iff split: if_splits)

lemma fs_ok_entry:
  assumes "fs_ok root fs" "plain_path p" "prefix root (names p)" "entry fs p = Inr q"
  shows "q = names p \<and> node_at fs (butlast q) = Some NDir"
proof (cases "p = [] \<or> last p \<in> {[], ''.'', ''..''}")
  case True
  then have r: "realpath fs p = Inr q" using assms(4) by (auto simp: entry_def)
  note q = fs_ok_realpath [OF assms(1,2) _ r]
  then have "q \<noteq> []" using assms(1,3) by (auto simp: fs_ok_def)
  then show ?thesis using q assms(1,3) node_at_wf [of fs q] by (auto simp: fs_ok_def)
next
  case False
  then obtain b c where p: "p = b @ [c]" "c \<noteq> []" "c \<noteq> ''.''" by (cases p rule: rev_cases) auto
  then have n: "names p = names b @ [c]" by (simp add: names_def)
  obtain d where d: "realpath fs b = Inr d" "node_at fs d = Some NDir" "q = d @ [c]"
    using assms(4) False p by (auto simp: entry_def ebind_eq_Inr_iff split: if_splits)
  have "prefix root (names b) \<or> prefix (names b) root"
    using assms(3) prefix_same_cases [of root "names p" "names b"] n by auto
  then have "d = names b" using fs_ok_realpath [OF assms(1) _ _ d(1)] plain_butlast [OF assms(2)] p(1) by simp
  then show ?thesis using d n by simp
qed

lemma node_at_put: "q \<noteq> [] \<Longrightarrow> node_at (fs_put fs q x) p = (if p = q then Some x else node_at fs p)"
  by (simp add: node_at_def fs_put_def update_conv')

lemma node_at_del: "q \<noteq> [] \<Longrightarrow> node_at (fs_del fs q) p = (if p = q then None else node_at fs p)"
  by (simp add: node_at_def fs_del_def delete_conv')

lemma has_children_iff: "fs_wf fs \<Longrightarrow> has_children fs q \<longleftrightarrow> (\<exists>c. node_at fs (q @ [c]) \<noteq> None)"
proof
  show "\<exists>c. node_at fs (q @ [c]) \<noteq> None" if "has_children fs q"
  proof -
    from that obtain p x where p: "(p, x) \<in> set fs" "p \<noteq> []" "butlast p = q" by (auto simp: has_children_def list_ex_iff)
    then have "map_of fs p \<noteq> None" using p(1) by (metis fst_conv imageI map_of_eq_None_iff)
    then show ?thesis using p by (intro exI [of _ "last p"]) (auto simp: node_at_def)
  qed
  show "has_children fs q" if "\<exists>c. node_at fs (q @ [c]) \<noteq> None"
    using that by (force simp: has_children_def list_ex_iff node_at_def dest: map_of_SomeD)
qed

lemma fs_put_wf:
  assumes "fs_wf fs" "q \<noteq> []" "list_all clean q" "node_at fs (butlast q) = Some NDir" "node_at fs q \<noteq> Some NDir"
  shows "fs_wf (fs_put fs q x)"
proof -
  have "node_at (fs_put fs q x) (butlast p) = Some NDir" if "(p, y) \<in> set (fs_put fs q x)" for p y
  proof -
    have "node_at fs (butlast p) = Some NDir" "p \<noteq> []"
      using that assms set_update [of p y q x fs] by (auto simp: fs_put_def fs_wf_def)
    then show ?thesis using assms(2,5) by (auto simp: node_at_put)
  qed
  moreover have "p \<noteq> [] \<and> list_all clean p" if "(p, y) \<in> set (fs_put fs q x)" for p y
    using that assms set_update [of p y q x fs] by (auto simp: fs_put_def fs_wf_def)
  ultimately show ?thesis using assms(1) by (auto simp: fs_wf_def fs_put_def distinct_update)
qed

lemma fs_del_wf:
  assumes "fs_wf fs" "q \<noteq> []" "\<not> has_children fs q"
  shows "fs_wf (fs_del fs q)"
proof -
  have "node_at (fs_del fs q) (butlast p) = Some NDir \<and> p \<noteq> [] \<and> list_all clean p" if "(p, y) \<in> set (fs_del fs q)" for p y
  proof -
    have "(p, y) \<in> set fs" using that by (auto simp: fs_del_def AList.delete_eq)
    moreover from this have "butlast p \<noteq> q" using assms(1,3) by (auto simp: has_children_def list_ex_iff fs_wf_def)
    ultimately show ?thesis using assms(1,2) by (auto simp: fs_wf_def node_at_del)
  qed
  then show ?thesis using assms(1) distinct_delete [of fs q] by (auto simp: fs_wf_def fs_del_def)
qed

lemma below_not_above: "prefix root q \<Longrightarrow> strict_prefix a root \<Longrightarrow> a \<noteq> q"
  by (auto simp: strict_prefix_def)

lemma fs_put_ok:
  assumes "fs_ok root fs" "prefix root q" "list_all clean q" "node_at fs (butlast q) = Some NDir" "node_at fs q \<noteq> Some NDir"
    and "\<forall>t. x \<noteq> NLink t" "q = root \<Longrightarrow> x = NDir"
  shows "fs_ok root (fs_put fs q x) \<and> changes_below root fs (fs_put fs q x)"
proof -
  have q: "q \<noteq> []" using assms(1,2) by (auto simp: fs_ok_def)
  have "fs_wf (fs_put fs q x)" using assms q by (intro fs_put_wf) (simp_all add: fs_ok_def)
  then show ?thesis
    using assms q by (auto simp: fs_ok_def changes_below_def node_at_put dest: below_not_above [OF assms(2)])
qed

lemma fs_del_ok:
  assumes "fs_ok root fs" "prefix root q" "\<not> has_children fs q"
  shows "fs_ok root (fs_del fs q) \<and> changes_below root fs (fs_del fs q)"
proof -
  have q: "q \<noteq> []" using assms(1,2) by (auto simp: fs_ok_def)
  have "fs_wf (fs_del fs q)" using assms q by (intro fs_del_wf) (simp_all add: fs_ok_def)
  then show ?thesis
    using assms q by (auto simp: fs_ok_def changes_below_def node_at_del dest: below_not_above [OF assms(2)])
qed

lemma no_children_of_file:
  assumes "fs_wf fs" "node_at fs q = Some x" "x \<noteq> NDir"
  shows "\<not> has_children fs q"
  using assms node_at_wf [of fs "q @ [c]" for c] by (fastforce simp: has_children_iff)

lemma fs_remove_ok:
  assumes "fs_ok root fs" "plain_path p" "prefix root (names p)" "fs_remove fs p = Inr fs'"
  shows "fs_ok root fs' \<and> changes_below root fs fs' \<and> fs' = fs_del fs (names p)"
proof -
  from assms(4) obtain q where q: "entry fs p = Inr q"
    by (auto simp: fs_remove_def ebind_eq_Inr_iff split: if_splits)
  obtain x where x: "node_at fs q = Some x" and fs': "fs' = fs_del fs q" and c: "x = NDir \<Longrightarrow> \<not> has_children fs q"
    using assms(4) q by (cases "node_at fs q") (auto simp: fs_remove_def split: node.splits if_splits)
  have "q = names p" using fs_ok_entry [OF assms(1-3) q] by simp
  moreover have "\<not> has_children fs q"
    using c no_children_of_file [of fs q x] x assms(1) by (cases "x = NDir") (auto simp: fs_ok_def)
  ultimately show ?thesis using fs_del_ok [OF assms(1), of q] assms(3) fs' by simp
qed

lemma locate_parent:
  assumes "locate n fs cur cs = Inr q" "fs_wf fs" "q \<noteq> []" "node_at fs cur \<noteq> None"
  shows "node_at fs (butlast q) = Some NDir"
  using assms
proof (induction rule: locate_Inr_induct)
  case (arrive n)
  then show ?case using node_at_wf by blast
next
  case (up n cur cs)
  then have "node_at fs (butlast cur) \<noteq> None" using node_at_wf [of fs cur] by (cases "cur = []") auto
  then show ?case using up by simp
qed simp_all

lemma fs_open_ok:
  assumes "fs_ok root fs" "plain_path p" "prefix root (names p)" "names p \<noteq> root" "fs_open fs p = Inr q"
  shows "q = names p \<and> fs_ok root (fs_put fs q (NFile d t)) \<and> changes_below root fs (fs_put fs q (NFile d t))"
proof -
  from assms(5) have l: "locate max_links fs [] p = Inr q" and d: "node_at fs q \<noteq> Some NDir"
    by (auto simp: fs_open_def ebind_eq_Inr_iff split: if_splits)
  have q: "q = names p" using fs_ok_locate [OF assms(1,2) _ l] assms(3) by simp
  have "node_at fs (butlast q) = Some NDir"
    using locate_parent [OF l] assms(1,3) q by (cases "q = []") (auto simp: fs_ok_def)
  then show ?thesis
    using fs_put_ok [OF assms(1), of q "NFile d t"] assms(3,4) plain_names [OF assms(2)] d q by simp
qed

lemma fs_rename_ok:
  assumes "fs_ok root fs" "plain_path p" "prefix root (names p)" "normal_path p'" "prefix root (names p')" "p' \<noteq> root"
    and "fs_rename fs p p' = Inr fs'"
  shows "fs_ok root fs' \<and> changes_below root fs fs'"
proof -
  from assms(7) obtain q q' x where q: "entry fs p = Inr q" "entry fs p' = Inr q'" and x: "node_at fs q = Some x" "x \<noteq> NDir"
    and d: "node_at fs q' \<noteq> Some NDir" and fs': "fs' = (if q = q' then fs else fs_put (fs_del fs q) q' x)"
    by (auto simp: fs_rename_def ebind_eq_Inr_iff split: option.splits if_splits)
  have e: "q = names p" "q' = names p'" "node_at fs (butlast q') = Some NDir"
    using fs_ok_entry [OF assms(1-3) q(1)] fs_ok_entry [OF assms(1) normal_plain [OF assms(4)] assms(5) q(2)] by blast+
  show ?thesis
  proof (cases "q = q'")
    case False
    have ne: "q \<noteq> []" using e assms(1,3) by (auto simp: fs_ok_def)
    have "\<not> has_children fs q" using no_children_of_file [OF _ x] assms(1) by (simp add: fs_ok_def)
    note del = fs_del_ok [OF assms(1) _ this]
    have "butlast q' \<noteq> q" using e(3) x by auto
    moreover have "names p' \<noteq> root"
    proof
      assume r: "names p' = root"
      then have "p' = root @ [[]]" using normal_names [OF assms(4)] assms(6) by auto
      then have "realpath fs p' = Inr q'" using q(2) by (simp add: entry_def)
      then have "node_at fs q' \<noteq> None" using fs_ok_realpath [OF assms(1) normal_plain [OF assms(4)]] assms(5) by auto
      then show False using d e r assms(1) by (auto simp: fs_ok_def)
    qed
    moreover have "\<forall>t. x \<noteq> NLink t" using assms(1,3) x(1) e(1) by (auto simp: fs_ok_def)
    ultimately have "fs_ok root (fs_put (fs_del fs q) q' x) \<and> changes_below root (fs_del fs q) (fs_put (fs_del fs q) q' x)"
      using del e d ne assms(3,5) normal_names [OF assms(4)] by (intro fs_put_ok) (auto simp: node_at_del)
    then show ?thesis using fs' False del e assms(3) changes_below_trans by auto
  qed (use fs' assms(1) in simp)
qed

lemma prefix_comparable:
  assumes "prefix root (pre @ c # cs) \<or> prefix (pre @ c # cs) root"
  shows "prefix root (pre @ [c]) \<or> prefix (pre @ [c]) root"
proof -
  have p: "prefix (pre @ [c]) (pre @ c # cs)" by simp
  show ?thesis using assms prefix_same_cases [OF p] prefix_order.trans [OF p] by blast
qed

lemma locate_physical:
  "fs_wf fs \<Longrightarrow> list_all clean cs \<Longrightarrow> node_at fs (cur @ cs) = Some x \<Longrightarrow> \<forall>t. x \<noteq> NLink t \<Longrightarrow> locate n fs cur cs = Inr (cur @ cs)"
proof (induction cs arbitrary: cur)
  case (Cons c cs)
  have d: "node_at fs cur = Some NDir"
    using node_at_ancestors [OF Cons.prems(1), of "cur @ c # cs" cur] Cons.prems(3) by (auto simp: strict_prefix_def)
  have c: "c \<noteq> []" "c \<noteq> ''.''" "c \<noteq> ''..''" using Cons.prems(2) by (auto simp: clean_def)
  obtain y where y: "node_at fs (cur @ [c]) = Some y" "\<forall>t. y \<noteq> NLink t"
  proof (cases "cs = []")
    case False
    then show ?thesis using that [of NDir] node_at_ancestors [OF Cons.prems(1), of "cur @ c # cs" "cur @ [c]"] Cons.prems(3)
      by (auto simp: strict_prefix_def)
  qed (use Cons.prems that in auto)
  have "locate n fs (cur @ [c]) cs = Inr ((cur @ [c]) @ cs)" using Cons by simp
  then show ?case using d c y by (cases y) simp_all
qed simp

lemma realpath_physical:
  assumes "fs_wf fs" "list_all clean p" "node_at fs p = Some x" "\<forall>t. x \<noteq> NLink t"
  shows "realpath fs p = Inr p"
  using locate_physical [of fs p "[]" x] assms by (simp add: realpath_def)

lemma create_directories_ok:
  assumes "fs_ok root fs" "list_all clean (pre @ cs)" "prefix root (pre @ cs) \<or> prefix (pre @ cs) root"
    and "create_directories fs pre cs = (res, fs')"
  shows "fs_ok root fs' \<and> changes_below root fs fs' \<and> (\<forall>q. \<not> prefix q (pre @ cs) \<longrightarrow> node_at fs' q = node_at fs q)"
  using assms
proof (induction fs pre cs rule: create_directories.induct)
  case (2 fs pre c cs)
  have p: "list_all clean (pre @ [c])" "prefix root (pre @ [c]) \<or> prefix (pre @ [c]) root"
    using "2.prems"(2) prefix_comparable [OF "2.prems"(3)] by (simp_all add: list_all_iff)
  show ?case
  proof (cases "status fs (pre @ [c])")
    case SNotFound
    show ?thesis
    proof (cases "fs' = fs")
      case False
      then obtain q where q: "entry fs (pre @ [c]) = Inr q" "node_at fs q = None"
        "create_directories (fs_put fs q NDir) (pre @ [c]) cs = (res, fs')"
        using "2.prems"(4) SNotFound by (auto split: if_splits sum.splits)
      have r: "prefix root (pre @ [c])"
      proof (rule ccontr)
        assume "\<not> ?thesis"
        then have "strict_prefix (pre @ [c]) root" using p(2) by (auto simp: strict_prefix_def)
        then have "node_at fs (pre @ [c]) = Some NDir" using "2.prems"(1) by (simp add: fs_ok_def)
        moreover from this have "realpath fs (pre @ [c]) = Inr (pre @ [c])"
          using realpath_physical [OF _ p(1)] "2.prems"(1) by (auto simp: fs_ok_def)
        ultimately show False using SNotFound by (simp add: status_def)
      qed
      note e = fs_ok_entry [OF "2.prems"(1) normal_plain [OF clean_normal [OF p(1)]] _ q(1)]
      have "fs_ok root (fs_put fs q NDir) \<and> changes_below root fs (fs_put fs q NDir)"
        using "2.prems"(1) e r p(1) q(2) by (intro fs_put_ok) auto
      moreover from this have "fs_ok root fs' \<and> changes_below root (fs_put fs q NDir) fs' \<and>
          (\<forall>r. \<not> prefix r (pre @ c # cs) \<longrightarrow> node_at fs' r = node_at (fs_put fs q NDir) r)"
        using "2.IH" SNotFound q "2.prems" by simp
      moreover have "q = pre @ [c]" using e r p(1) by simp
      then have "\<forall>r. \<not> prefix r (pre @ c # cs) \<longrightarrow> node_at (fs_put fs q NDir) r = node_at fs r"
        by (auto simp: node_at_put)
      ultimately show ?thesis using changes_below_trans by metis
    qed (use "2.prems" in simp)
  qed (use 2 in \<open>auto split: if_splits\<close>)
qed simp

lemma entry_fresh:
  assumes "fs_wf fs" "list_all no_slash p" "entry fs p = Inr q" "node_at fs q = None"
  shows "q \<noteq> [] \<and> list_all clean q \<and> node_at fs (butlast q) = Some NDir"
proof -
  have "\<not> (p = [] \<or> last p \<in> {[], ''.'', ''..''})"
    using assms(3,4) by (auto simp: entry_def realpath_def ebind_eq_Inr_iff split: if_splits)
  then obtain b c where p: "p = b @ [c]" "clean c"
    using assms(2) by (cases p rule: rev_cases) (auto intro: cleanI)
  then have "\<not> (p = [] \<or> last p \<in> {[], ''.'', ''..''})" by (auto simp: clean_def)
  then obtain d where d: "realpath fs b = Inr d" "node_at fs d = Some NDir" "q = d @ [c]"
    using assms(3) p(1) by (auto simp: entry_def ebind_eq_Inr_iff split: if_splits)
  have "list_all clean d" using realpath_clean [OF assms(1) _ d(1)] assms(2) p(1) by simp
  then show ?thesis using d p(2) by simp
qed

lemma create_directories_wf:
  "fs_wf fs \<Longrightarrow> list_all no_slash (pre @ cs) \<Longrightarrow> create_directories fs pre cs = (res, fs') \<Longrightarrow> fs_wf fs'"
proof (induction fs pre cs rule: create_directories.induct)
  case (2 fs pre c cs)
  show ?case
  proof (cases "fs' = fs")
    case False
    show ?thesis
    proof (cases "status fs (pre @ [c])")
      case SNotFound
      then obtain q where q: "entry fs (pre @ [c]) = Inr q" "node_at fs q = None"
        "create_directories (fs_put fs q NDir) (pre @ [c]) cs = (res, fs')"
        using "2.prems"(3) False by (auto split: if_splits sum.splits)
      have "list_all no_slash (pre @ [c])" using "2.prems"(2) by simp
      from entry_fresh [OF "2.prems"(1) this q(1,2)] have "fs_wf (fs_put fs q NDir)"
        using fs_put_wf [OF "2.prems"(1)] q(2) by simp
      then show ?thesis using "2.IH" SNotFound q "2.prems"(2) by simp
    next
      case (SFound q)
      then show ?thesis using 2 False by (simp split: if_splits)
    qed (use "2.prems" False in simp)
  qed (use "2.prems" in simp)
qed simp

end
