(* ===== verification/FileCache.thy ===== *)
theory FileCache
  imports Json FileSys "HOL-Library.List_Lexorder" "HOL-Library.Char_ord"
begin

text \<open>
  \<open>src/util/my_cache\<close>: the cache of files below one directory, with the check of the paths, the index in memory and
  the scan thread. The configuration is the parsed JSON value. What the system answers beyond the
  state of the file system (a full disk, missing rights, the time) is the record \<open>io\<close>; times are in seconds,
  and a time is kept as the number that the code formats. The calls between two changes of the file
  system are one step.
\<close>

section \<open>Types\<close>

datatype CacheStatus = StNotInitialized | StRunning | StError

datatype CacheErrorCode =
    CacheOk | NotInitialized | PathTraversal | FileNotFound | FileAlreadyExists | IoError | InvalidArgument | CreateDirFailed | FileTooLarge

record FileInfo =
  fi_name :: string
  fi_size :: nat
  fi_type :: string
  fi_modified_at :: "int option"

record CacheConfig =
  cf_root_path :: string
  cf_max_file_size :: u64
  cf_max_retention_seconds :: "64 word"

record MyCache =
  mc_config :: CacheConfig
  mc_root :: "string list"
  mc_status :: CacheStatus
  mc_running :: bool
  mc_index :: "(string \<times> FileInfo) list"

definition MyCache_ctor :: MyCache where
  "MyCache_ctor = \<lparr>mc_config = \<lparr>cf_root_path = '''', cf_max_file_size = 0, cf_max_retention_seconds = 0\<rparr>, mc_root = [],
     mc_status = StNotInitialized, mc_running = False, mc_index = []\<rparr>"

text \<open>Which calls go through, how many bytes get out when writing fails, and the time.\<close>

record io =
  io_mkdir :: bool
  io_open :: bool
  io_write :: bool
  io_flush :: bool
  io_written :: nat
  io_rename :: bool
  io_remove :: bool
  io_now :: int

section \<open>Names\<close>

definition rfind :: "char \<Rightarrow> string \<Rightarrow> nat option" where
  "rfind c s = (if c \<in> set s then Some (length s - Suc (length (takeWhile (\<lambda>d. d \<noteq> c) (rev s)))) else None)"

definition GetFileExtension :: "string \<Rightarrow> string" where
  "GetFileExtension name =
     (case rfind (CHR ''.'') name of
        None \<Rightarrow> []
      | Some pos \<Rightarrow>
          if pos = length name - 1 then []
          else
            let slash_pos = rfind (CHR ''/'') name;
                basename = (case slash_pos of Some p \<Rightarrow> drop (p + 1) name | None \<Rightarrow> name)
            in if (case slash_pos of Some p \<Rightarrow> pos < p | None \<Rightarrow> False) then []
               else if rfind (CHR ''.'') basename = Some 0 \<and> CHR ''.'' \<notin> set (drop 1 basename) then []
               else drop (pos + 1) name)"

definition IsPathInsideRoot :: "string list \<Rightarrow> string list \<Rightarrow> bool" where
  "IsPathInsideRoot root_path resolved_path \<longleftrightarrow>
     path_string resolved_path = path_string root_path \<or> prefix (path_string root_path @ ''/'') (path_string resolved_path)"

definition ValidatePath :: "fs \<Rightarrow> MyCache \<Rightarrow> string \<Rightarrow> CacheErrorCode + string list" where
  "ValidatePath fs c name =
     (if name = [] then Inl InvalidArgument
      else if mc_status c \<noteq> StRunning then Inl NotInitialized
      else case weakly_canonical fs (path_append (mc_root c) name) of
        Inl e \<Rightarrow> Inl InvalidArgument
      | Inr resolved \<Rightarrow>
          if \<not> IsPathInsideRoot (mc_root c) resolved then Inl PathTraversal
          else if resolved = mc_root c then Inl InvalidArgument
          else Inr resolved)"

definition ValidateDirectoryPath :: "fs \<Rightarrow> MyCache \<Rightarrow> string \<Rightarrow> bool \<Rightarrow> CacheErrorCode + string list" where
  "ValidateDirectoryPath fs c folder_path allow_root =
     (if mc_status c \<noteq> StRunning then Inl NotInitialized
      else if CHR 0x00 \<in> set folder_path then Inl InvalidArgument
      else if CHR 0x5C \<in> set folder_path then Inl InvalidArgument
      else if folder_path = [] \<or> folder_path = ''.'' then Inr (mc_root c)
      else case weakly_canonical fs (path_append (mc_root c) folder_path) of
        Inl e \<Rightarrow> Inl InvalidArgument
      | Inr resolved \<Rightarrow>
          if \<not> IsPathInsideRoot (mc_root c) resolved then Inl PathTraversal
          else if \<not> allow_root \<and> resolved = mc_root c then Inl InvalidArgument
          else Inr resolved)"

section \<open>Index\<close>

text \<open>What the recursive iterator yields: every entry below the directory; it does not enter links.\<close>

definition dir_entries :: "fs \<Rightarrow> string list \<Rightarrow> string list list" where
  "dir_entries fs target =
     (case realpath fs target of
        Inl e \<Rightarrow> []
      | Inr base \<Rightarrow> map (\<lambda>p. names target @ drop (length base) p) (filter (strict_prefix base) (map fst fs)))"

definition relative_path :: "fs \<Rightarrow> string list \<Rightarrow> string list \<Rightarrow> errno + string" where
  "relative_path fs root p =
     ebind (weakly_canonical fs p) (\<lambda>q. ebind (weakly_canonical fs root) (\<lambda>b. Inr (relative_string (lexically_relative q b))))"

definition file_size :: "fs \<Rightarrow> string list \<Rightarrow> nat" where
  "file_size fs p =
     (case realpath fs p of
        Inr q \<Rightarrow> (case node_at fs q of Some (NFile d t) \<Rightarrow> length d | _ \<Rightarrow> 0)
      | Inl e \<Rightarrow> 0)"

definition file_info :: "fs \<Rightarrow> string \<Rightarrow> string list \<Rightarrow> FileInfo" where
  "file_info fs name p =
     \<lparr>fi_name = name, fi_size = file_size fs p, fi_type = GetFileExtension name, fi_modified_at = last_write_time fs (\<lambda>_. 0) p\<rparr>"

definition index_entry :: "fs \<Rightarrow> string list \<Rightarrow> string list \<Rightarrow> (string \<times> FileInfo) list \<Rightarrow> (string \<times> FileInfo) list" where
  "index_entry fs root p idx =
     (if \<not> is_regular_file fs p then idx
      else case relative_path fs root p of
        Inl e \<Rightarrow> idx
      | Inr name \<Rightarrow> AList.update name (file_info fs name p) idx)"

definition RefreshIndex :: "fs \<Rightarrow> MyCache \<Rightarrow> MyCache" where
  "RefreshIndex fs c = c\<lparr>mc_index := fold (index_entry fs (mc_root c)) (dir_entries fs (mc_root c)) []\<rparr>"

definition expired_names :: "io \<Rightarrow> (string list \<Rightarrow> int) \<Rightarrow> MyCache \<Rightarrow> fs \<Rightarrow> string list" where
  "expired_names w dir_time c fs =
     filter (\<lambda>name. case last_write_time fs dir_time (path_append (mc_root c) name) of
         None \<Rightarrow> False
       | Some t \<Rightarrow> io_now w - t > sint (cf_max_retention_seconds (mc_config c)))
       (map fst (mc_index c))"

fun clean_names :: "io \<Rightarrow> string list \<Rightarrow> MyCache \<Rightarrow> fs \<Rightarrow> MyCache \<times> fs" where
  "clean_names w [] c fs = (c, fs)"
| "clean_names w (name # ns) c fs =
     (case (if io_remove w then fs_remove fs (path_append (mc_root c) name) else Inl EIO) of
        Inl e \<Rightarrow> clean_names w ns c fs
      | Inr fs \<Rightarrow> clean_names w ns (c\<lparr>mc_index := AList.delete name (mc_index c)\<rparr>) fs)"

definition CleanExpiredFiles :: "io \<Rightarrow> (string list \<Rightarrow> int) \<Rightarrow> MyCache \<Rightarrow> fs \<Rightarrow> MyCache \<times> fs" where
  "CleanExpiredFiles w dir_time c fs =
     (if sint (cf_max_retention_seconds (mc_config c)) \<le> 0 then (c, fs)
      else clean_names w (expired_names w dir_time c fs) c fs)"

section \<open>Initialisation\<close>

definition config_max_size :: "json \<Rightarrow> u64 \<Rightarrow> u64" where
  "config_max_size cfg def = (case field cfg ''max_file_size'' of Some (JUnsigned n) \<Rightarrow> of_nat n * 1024 * 1024 | _ \<Rightarrow> def)"

text \<open>\<open>trunc\<close>: the integer a float is converted to.\<close>

definition config_retention :: "(string \<Rightarrow> 64 word) \<Rightarrow> json \<Rightarrow> 64 word \<Rightarrow> 64 word" where
  "config_retention trunc cfg def =
     (case field cfg ''max_retention_seconds'' of
        Some (JUnsigned n) \<Rightarrow> of_nat n
      | Some (JInteger i) \<Rightarrow> of_int i
      | Some (JFloat t) \<Rightarrow> trunc t
      | _ \<Rightarrow> def)"

text \<open>The directory of the configuration, made if it is missing.\<close>

definition open_root :: "io \<Rightarrow> string list \<Rightarrow> string \<Rightarrow> fs \<Rightarrow> (CacheErrorCode + string list) \<times> fs" where
  "open_root w cwd root_path fs =
     (if root_path = [] then (Inl InvalidArgument, fs)
      else
        let p = path_append cwd root_path in
        (case (if fs_exists fs p then (None, fs)
               else if io_mkdir w then create_directories fs [] p else (Some EIO, fs)) of
           (Some e, fs) \<Rightarrow> (Inl CreateDirFailed, fs)
         | (None, fs) \<Rightarrow>
             if \<not> is_directory fs p then (Inl InvalidArgument, fs)
             else (case realpath fs p of Inl e \<Rightarrow> (Inl InvalidArgument, fs) | Inr root \<Rightarrow> (Inr root, fs))))"

definition mc_Init :: "io \<Rightarrow> string list \<Rightarrow> (string \<Rightarrow> 64 word) \<Rightarrow> json option \<Rightarrow> MyCache \<Rightarrow> fs \<Rightarrow> CacheErrorCode \<times> MyCache \<times> fs" where
  "mc_Init w cwd trunc config_json c fs =
     (if mc_status c = StRunning then (CacheOk, c, fs)
      else case config_json of
        None \<Rightarrow> (InvalidArgument, c\<lparr>mc_status := StError\<rparr>, fs)
      | Some cfg \<Rightarrow>
          (case field cfg ''root_path'' of
             Some (JString root_path) \<Rightarrow>
               let c = c\<lparr>mc_config := \<lparr>cf_root_path = root_path, cf_max_file_size = config_max_size cfg (cf_max_file_size (mc_config c)),
                     cf_max_retention_seconds = config_retention trunc cfg (cf_max_retention_seconds (mc_config c))\<rparr>\<rparr> in
               (case open_root w cwd root_path fs of
                  (Inl e, fs) \<Rightarrow> (e, c\<lparr>mc_status := StError\<rparr>, fs)
                | (Inr root, fs) \<Rightarrow>
                    (CacheOk, (RefreshIndex fs (c\<lparr>mc_root := root\<rparr>))\<lparr>mc_status := StRunning, mc_running := True\<rparr>, fs))
           | _ \<Rightarrow> (InvalidArgument, c\<lparr>mc_status := StError\<rparr>, fs)))"

section \<open>Files\<close>

definition append_tmp :: "string list \<Rightarrow> string list" where
  "append_tmp p = (if p = [] then [''.tmp''] else butlast p @ [last p @ ''.tmp''])"

definition remove_quietly :: "io \<Rightarrow> fs \<Rightarrow> string list \<Rightarrow> fs" where
  "remove_quietly w fs p = (if io_remove w then case fs_remove fs p of Inr fs' \<Rightarrow> fs' | Inl e \<Rightarrow> fs else fs)"

text \<open>The temporary file and the renaming. Data that the stream still holds are written when it is closed, where
  nobody looks at the result.\<close>

definition write_file :: "io \<Rightarrow> 8 word list \<Rightarrow> string list \<Rightarrow> fs \<Rightarrow> bool \<times> fs" where
  "write_file w data full_path fs =
     (let tmp_path = append_tmp full_path in
      case (if io_open w then fs_open fs tmp_path else Inl EIO) of
        Inl e \<Rightarrow> (False, fs)
      | Inr q \<Rightarrow>
          if \<not> io_write w then (False, remove_quietly w (fs_put fs q (NFile (take (io_written w) data) (io_now w))) tmp_path)
          else
            let fs = fs_put fs q (NFile (if io_flush w then data else take (io_written w) data) (io_now w)) in
            (case (if io_rename w then fs_rename fs tmp_path full_path else Inl EIO) of
               Inl e \<Rightarrow> (False, remove_quietly w fs tmp_path)
             | Inr fs \<Rightarrow> (True, fs)))"

definition SaveFile :: "io \<Rightarrow> string \<Rightarrow> 8 word list \<Rightarrow> MyCache \<Rightarrow> fs \<Rightarrow> CacheErrorCode \<times> MyCache \<times> fs" where
  "SaveFile w name data c fs =
     (case ValidatePath fs c name of
        Inl code \<Rightarrow> (code, c, fs)
      | Inr full_path \<Rightarrow>
          let max = cf_max_file_size (mc_config c) in
          if 0 < max \<and> unat max < length data then (FileTooLarge, c, fs)
          else
            let parent = butlast full_path in
            (case (if fs_exists fs parent then (None, fs)
                   else if io_mkdir w then create_directories fs [] parent else (Some EIO, fs)) of
               (Some e, fs) \<Rightarrow> (CreateDirFailed, c, fs)
             | (None, fs) \<Rightarrow>
                 (case write_file w data full_path fs of
                    (False, fs) \<Rightarrow> (IoError, c, fs)
                  | (True, fs) \<Rightarrow>
                      (CacheOk, c\<lparr>mc_index := AList.update name
                         \<lparr>fi_name = name, fi_size = length data, fi_type = GetFileExtension name,
                          fi_modified_at = last_write_time fs (\<lambda>_. 0) full_path\<rparr> (mc_index c)\<rparr>, fs))))"

definition DeleteFile :: "io \<Rightarrow> string \<Rightarrow> MyCache \<Rightarrow> fs \<Rightarrow> CacheErrorCode \<times> MyCache \<times> fs" where
  "DeleteFile w name c fs =
     (case ValidatePath fs c name of
        Inl code \<Rightarrow> (code, c, fs)
      | Inr full_path \<Rightarrow>
          if \<not> fs_exists fs full_path then (FileNotFound, c, fs)
          else
            (case (if io_remove w then fs_remove fs full_path else Inl EIO) of
               Inl e \<Rightarrow> (IoError, c, fs)
             | Inr fs \<Rightarrow> (CacheOk, c\<lparr>mc_index := AList.delete name (mc_index c)\<rparr>, fs)))"

definition GetFullPath :: "fs \<Rightarrow> MyCache \<Rightarrow> string \<Rightarrow> CacheErrorCode + string" where
  "GetFullPath fs c name = ebind (ValidatePath fs c name) (\<lambda>full_path. Inr (path_string full_path))"

definition mc_Exists :: "fs \<Rightarrow> MyCache \<Rightarrow> string \<Rightarrow> CacheErrorCode + bool" where
  "mc_Exists fs c name = ebind (ValidatePath fs c name) (\<lambda>full_path. Inr (map_of (mc_index c) name \<noteq> None))"

definition list_entry :: "fs \<Rightarrow> string list \<Rightarrow> string list \<Rightarrow> FileInfo" where
  "list_entry fs root p =
     file_info fs (case relative_path fs root p of Inr name \<Rightarrow> name | Inl e \<Rightarrow> last p) p"

definition GetFileList :: "fs \<Rightarrow> MyCache \<Rightarrow> string \<Rightarrow> CacheErrorCode + FileInfo list" where
  "GetFileList fs c folder_path =
     ebind (ValidateDirectoryPath fs c folder_path True) (\<lambda>target.
       if \<not> fs_exists fs target then Inl FileNotFound
       else if \<not> is_directory fs target then Inl InvalidArgument
       else Inr (sort_key fi_name (map (list_entry fs (mc_root c))
              (filter (is_regular_file fs) (dir_entries fs target)))))"

definition GetAllFileList :: "fs \<Rightarrow> MyCache \<Rightarrow> CacheErrorCode + FileInfo list" where
  "GetAllFileList fs c = GetFileList fs c ''''"

definition CreateSubdirectory :: "io \<Rightarrow> string \<Rightarrow> string \<Rightarrow> MyCache \<Rightarrow> fs \<Rightarrow> (CacheErrorCode + string) \<times> fs" where
  "CreateSubdirectory w folder_path new_folder_name c fs =
     (case ValidateDirectoryPath fs c folder_path True of
        Inl code \<Rightarrow> (Inl code, fs)
      | Inr parent_path \<Rightarrow>
          if new_folder_name = [] then (Inl InvalidArgument, fs)
          else if CHR 0x00 \<in> set new_folder_name \<or> CHR 0x5C \<in> set new_folder_name \<or> CHR ''/'' \<in> set new_folder_name \<or>
                  new_folder_name = ''.'' \<or> new_folder_name = ''..'' then (Inl InvalidArgument, fs)
          else if \<not> fs_exists fs parent_path then (Inl FileNotFound, fs)
          else if \<not> is_directory fs parent_path then (Inl InvalidArgument, fs)
          else (case weakly_canonical fs (path_append (names parent_path) new_folder_name) of
                  Inl e \<Rightarrow> (Inl InvalidArgument, fs)
                | Inr resolved \<Rightarrow>
                    if \<not> IsPathInsideRoot (mc_root c) resolved then (Inl PathTraversal, fs)
                    else if fs_exists fs resolved then (Inl FileAlreadyExists, fs)
                    else (case (if io_mkdir w then entry fs resolved else Inl EIO) of
                            Inl e \<Rightarrow> (Inl CreateDirFailed, fs)
                          | Inr q \<Rightarrow> if node_at fs q \<noteq> None then (Inl CreateDirFailed, fs)
                                    else (Inr (path_string resolved), fs_put fs q NDir))))"

section \<open>Provider\<close>

record MyCacheProvider =
  pv_initialized_flag :: bool
  pv_instance :: "MyCache option"

definition pv_running :: "MyCacheProvider \<Rightarrow> bool" where
  "pv_running p \<longleftrightarrow> pv_initialized_flag p \<and> (case pv_instance p of Some c \<Rightarrow> mc_status c = StRunning | None \<Rightarrow> False)"

definition pv_Init :: "io \<Rightarrow> string list \<Rightarrow> (string \<Rightarrow> 64 word) \<Rightarrow> json option \<Rightarrow> MyCacheProvider \<Rightarrow> fs \<Rightarrow> CacheErrorCode \<times> MyCacheProvider \<times> fs" where
  "pv_Init w cwd trunc config_json p fs =
     (if pv_running p then (CacheOk, p, fs)
      else case mc_Init w cwd trunc config_json MyCache_ctor fs of
        (code, c, fs) \<Rightarrow>
          if code \<noteq> CacheOk then (code, p\<lparr>pv_instance := None\<rparr>, fs)
          else (CacheOk, \<lparr>pv_initialized_flag = True, pv_instance = Some c\<rparr>, fs))"

definition pv_Get :: "MyCacheProvider \<Rightarrow> CacheErrorCode + MyCache" where
  "pv_Get p =
     (case pv_instance p of
        Some c \<Rightarrow> if pv_running p then Inr c else Inl NotInitialized
      | None \<Rightarrow> Inl NotInitialized)"

definition pv_Destroy :: "MyCacheProvider \<Rightarrow> MyCacheProvider" where
  "pv_Destroy p = p\<lparr>pv_instance := None, pv_initialized_flag := False\<rparr>"

section \<open>Checked paths\<close>

lemma path_append_no_slash: "list_all clean root \<Longrightarrow> list_all no_slash (path_append root name)"
  using elements_no_slash [of name] by (auto simp: path_append_def list_all_iff)

lemma clean_no_slashes: "list_all clean p \<Longrightarrow> list_all no_slash p"
  by (simp add: list_all_iff)

lemma normal_no_slash:
  assumes "normal_path p" shows "list_all no_slash p \<and> p \<noteq> [[]]"
proof -
  obtain q e where p: "p = q @ e" "list_all clean q" "e = [] \<or> e = [[]] \<and> q \<noteq> []"
    using assms by (auto simp: normal_path_def)
  have "list_all no_slash e" using p(3) by (auto simp: no_slash_def)
  moreover have "p \<noteq> [[]]" using p by (cases q) (auto simp: clean_def)
  ultimately show ?thesis using p clean_no_slashes by simp
qed


lemma inside_iff:
  assumes "normal_path p" "list_all clean root"
  shows "IsPathInsideRoot root p \<longleftrightarrow> p = root \<or> root \<noteq> [] \<and> prefix root p"
proof (cases "root = []")
  case True
  have "\<not> prefix ''//'' (path_string p)"
  proof (cases p)
    case (Cons c cs)
    then have "clean c" using assms(1) by (auto simp: normal_path_def Cons_eq_append_conv)
    then show ?thesis using Cons by (cases c) (auto simp: path_string_def clean_def)
  qed (simp add: path_string_def)
  moreover have "path_string p = ''/'' \<longleftrightarrow> p = []"
    using normal_no_slash [OF assms(1)] by (cases p) (auto simp: path_string_def)
  ultimately show ?thesis using True by (simp add: IsPathInsideRoot_def path_string_def)
next
  case False
  have r: "list_all no_slash root" "root \<noteq> [[]]" using normal_no_slash [OF clean_normal [OF assms(2)]] by simp_all
  have n: "list_all no_slash p" "p \<noteq> [[]]" using normal_no_slash [OF assms(1)] by simp_all
  have "path_string p = path_string root \<longleftrightarrow> p = root" using path_string_inj [of p root] r n by blast
  then show ?thesis using path_string_prefix [OF r(1) False n(1)] False by (auto simp: IsPathInsideRoot_def)
qed

lemma weakly_canonical_append_normal:
  assumes "fs_wf fs" "list_all clean root" "weakly_canonical fs (path_append root name) = Inr p"
  shows "normal_path p"
  using weakly_canonical_normal [OF assms(1) path_append_no_slash [OF assms(2)] assms(3)] .

lemma ValidatePath_cases:
  assumes "fs_wf fs" "list_all clean (mc_root c)" "ValidatePath fs c name = Inr p"
  shows "normal_path p \<and> mc_root c \<noteq> [] \<and> prefix (mc_root c) p \<and> p \<noteq> mc_root c"
proof -
  have w: "weakly_canonical fs (path_append (mc_root c) name) = Inr p" "IsPathInsideRoot (mc_root c) p" "p \<noteq> mc_root c"
    using assms(3) by (auto simp: ValidatePath_def split: if_splits sum.splits)
  then show ?thesis using weakly_canonical_append_normal [OF assms(1,2) w(1)] inside_iff assms(2) by blast
qed



section \<open>Initialisation\<close>

text \<open>An \<open>Init\<close> that succeeds leaves a running cache on an existing directory, whose path is canonical and is
  where the configured path leads, with an index that has been read from it; the file system stays well
  formed. One that fails says so in the status, unless the cache ran already.\<close>

theorem init_establishes:
  assumes "fs_wf fs" and "list_all clean cwd" and "mc_status c \<noteq> StRunning" and "mc_Init w cwd trunc cfg c fs = (code, c', fs')"
  shows "fs_wf fs' \<and>
    (if code = CacheOk
     then mc_status c' = StRunning \<and> list_all clean (mc_root c') \<and> node_at fs' (mc_root c') = Some NDir \<and>
       realpath fs' (path_append cwd (cf_root_path (mc_config c'))) = Inr (mc_root c') \<and>
       mc_index c' = mc_index (RefreshIndex fs' c')
     else mc_status c' = StError)"
proof -
  have root: "fs_wf fs'' \<and> (\<forall>root. r = Inr root \<longrightarrow> list_all clean root \<and> node_at fs'' root = Some NDir \<and>
      realpath fs'' (path_append cwd path) = Inr root) \<and> r \<noteq> Inl CacheOk"
    if o: "open_root w cwd path fs = (r, fs'')" for path r fs''
  proof -
    have p: "list_all no_slash (path_append cwd path)" by (rule path_append_no_slash [OF assms(2)])
    obtain res fs1 where m: "(if fs_exists fs (path_append cwd path) then (None, fs) else if io_mkdir w
        then create_directories fs [] (path_append cwd path) else (Some EIO, fs)) = (res, fs1)" by fastforce
    have wf: "fs_wf fs1"
      using m assms(1) create_directories_wf [OF assms(1), of "[]" "path_append cwd path"] p by (auto split: if_splits)
    have "fs'' = fs1 \<or> fs'' = fs" using o m by (auto simp: open_root_def Let_def split: if_splits option.splits sum.splits)
    moreover have "list_all clean root \<and> node_at fs'' root = Some NDir \<and> realpath fs'' (path_append cwd path) = Inr root"
      if "r = Inr root" for root
    proof -
      have e: "fs'' = fs1" "is_directory fs1 (path_append cwd path)" "realpath fs1 (path_append cwd path) = Inr root"
        using o m that by (auto simp: open_root_def Let_def split: if_splits option.splits sum.splits)
      then show ?thesis using realpath_clean [OF wf p e(3)] by (simp add: is_directory_def status_def)
    qed
    moreover have "r \<noteq> Inl CacheOk" using o m by (auto simp: open_root_def Let_def split: if_splits option.splits sum.splits)
    ultimately show ?thesis using wf assms(1) by blast
  qed
  show ?thesis
  proof (cases cfg)
    case (Some j)
    show ?thesis
    proof (cases "\<exists>path. field j ''root_path'' = Some (JString path)")
      case True
      then obtain path where path: "field j ''root_path'' = Some (JString path)" by blast
      obtain r fs'' where o: "open_root w cwd path fs = (r, fs'')" by fastforce
      show ?thesis
        using root [OF o] assms(3,4) Some path o
        by (cases r) (auto simp: mc_Init_def Let_def RefreshIndex_def)
    next
      case False
      then show ?thesis
        using assms Some by (auto simp: mc_Init_def Let_def split: option.splits json.splits)
    qed
  qed (use assms in \<open>auto simp: mc_Init_def\<close>)
qed

section \<open>What a call changes\<close>

abbreviation cache_ok :: "MyCache \<Rightarrow> fs \<Rightarrow> bool" where
  "cache_ok c fs \<equiv> fs_ok (mc_root c) fs"

lemma cache_ok_wf: "cache_ok c fs \<Longrightarrow> fs_wf fs \<and> list_all clean (mc_root c) \<and> mc_root c \<noteq> []"
  by (simp add: fs_ok_def)

lemma normal_below:
  assumes "normal_path p" "prefix root p" "p \<noteq> root" "list_all clean root"
  shows "prefix root (names p)" "plain_path (append_tmp p)" "prefix root (names (append_tmp p))" "names (append_tmp p) \<noteq> root"
    "list_all clean (butlast p)" "prefix root (butlast p)" "append_tmp p \<noteq> p" "names (append_tmp p) = append_tmp p"
proof -
  obtain q e where p: "p = q @ e" "list_all clean q" "e = [] \<or> e = [[]] \<and> q \<noteq> []" using assms(1) by (auto simp: normal_path_def)
  obtain b x where b: "p = b @ [x]" using assms(2,3) by (cases p rule: rev_cases) auto
  have r: "prefix root b" using assms(2,3) b by auto
  have cb: "list_all clean b" using p b by auto
  have cx: "clean (x @ ''.tmp'')" using p b by (auto simp: clean_def)
  have t: "append_tmp p = b @ [x @ ''.tmp'']" using b by (simp add: append_tmp_def)
  have cl: "list_all clean (append_tmp p)" using t cb cx by simp
  have "\<not> prefix (b @ [y]) root" for y
    using prefix_length_le [OF r] prefix_length_le [of "b @ [y]" root] by auto
  then show "names (append_tmp p) \<noteq> root" using cl t by auto
  show "prefix root (names p)" using r b cb by (auto simp: prefix_def)
  show "plain_path (append_tmp p)" using cl by (simp add: clean_normal normal_plain)
  show "prefix root (names (append_tmp p))" using cl t r by (auto simp: prefix_def)
  show "list_all clean (butlast p)" "prefix root (butlast p)" using b cb r by simp_all
  show "append_tmp p \<noteq> p" "names (append_tmp p) = append_tmp p" using t b cl by auto
qed

lemma remove_quietly_ok:
  assumes "fs_ok root fs" "plain_path p" "prefix root (names p)"
  shows "fs_ok root (remove_quietly w fs p) \<and> changes_below root fs (remove_quietly w fs p)"
  using assms fs_remove_ok [OF assms] by (auto simp: remove_quietly_def split: sum.split)

lemma write_file_ok:
  assumes "fs_ok root fs" "normal_path p" "prefix root p" "p \<noteq> root" "write_file w d p fs = (ok, fs')"
  shows "fs_ok root fs' \<and> changes_below root fs fs'"
proof -
  note n = normal_below [OF assms(2-4)]
  have r: "list_all clean root" using assms(1) by (simp add: fs_ok_def)
  show ?thesis
  proof (cases "if io_open w then fs_open fs (append_tmp p) else Inl EIO")
    case (Inl e)
    then show ?thesis using assms(1,5) by (simp add: write_file_def Let_def)
  next
    case (Inr q)
    then have o: "fs_open fs (append_tmp p) = Inr q" by (simp split: if_splits)
    have put: "fs_ok root (fs_put fs q (NFile d' t)) \<and> changes_below root fs (fs_put fs q (NFile d' t))" for d' t
      using fs_open_ok [OF assms(1) n(2,3,4) [OF r] o] by blast
    have rm: "fs_ok root (remove_quietly w (fs_put fs q (NFile d' t)) (append_tmp p)) \<and>
        changes_below root fs (remove_quietly w (fs_put fs q (NFile d' t)) (append_tmp p))" for d' t
      using remove_quietly_ok [OF _ n(2,3) [OF r], of "fs_put fs q (NFile d' t)" w] put changes_below_trans by blast
    have rn: "fs_rename (fs_put fs q (NFile d' t)) (append_tmp p) p = Inr fs'' \<Longrightarrow> fs_ok root fs'' \<and> changes_below root fs fs''" for d' t fs''
      using fs_rename_ok [OF _ n(2,3) [OF r] assms(2) n(1) [OF r] assms(4)] put changes_below_trans by blast
    show ?thesis
      using assms(5) Inr rm rn by (auto simp: write_file_def Let_def split: if_splits sum.splits)
  qed
qed

lemma make_dirs_ok:
  assumes "fs_ok root fs" "list_all clean p" "prefix root p"
    and "(if fs_exists fs p then (None, fs) else if io_mkdir w then create_directories fs [] p else (Some EIO, fs)) = (res, fs')"
  shows "fs_ok root fs' \<and> changes_below root fs fs' \<and> (\<forall>q. \<not> prefix q p \<longrightarrow> node_at fs' q = node_at fs q)"
  using assms create_directories_ok [of root fs "[]" p] by (auto split: if_splits)

lemma SaveFile_ok:
  assumes "cache_ok c fs" "SaveFile w name d c fs = (code, c', fs')"
  shows "cache_ok c fs' \<and> changes_below (mc_root c) fs fs' \<and> mc_root c' = mc_root c"
proof (cases "ValidatePath fs c name")
  case (Inr p)
  have wf: "fs_wf fs" "list_all clean (mc_root c)" using assms(1) by (simp_all add: fs_ok_def)
  note v = ValidatePath_cases [OF wf Inr]
  have n: "list_all clean (butlast p)" "prefix (mc_root c) (butlast p)" using normal_below v wf by blast+
  obtain res fs1 where m: "(if fs_exists fs (butlast p) then (None, fs) else if io_mkdir w
      then create_directories fs [] (butlast p) else (Some EIO, fs)) = (res, fs1)" by fastforce
  note mk = make_dirs_ok [OF assms(1) n m]
  obtain ok fs2 where wr: "write_file w d p fs1 = (ok, fs2)" by fastforce
  have "fs_ok (mc_root c) fs2 \<and> changes_below (mc_root c) fs fs2"
    using write_file_ok [OF _ _ _ _ wr] mk v changes_below_trans by blast
  then show ?thesis
    using assms mk Inr m wr by (auto simp: SaveFile_def Let_def split: if_splits option.splits bool.splits)
qed (use assms in \<open>simp add: SaveFile_def\<close>)

lemma DeleteFile_ok:
  assumes "cache_ok c fs" "DeleteFile w name c fs = (code, c', fs')"
  shows "cache_ok c fs' \<and> changes_below (mc_root c) fs fs' \<and> mc_root c' = mc_root c"
proof (cases "ValidatePath fs c name")
  case (Inr p)
  have wf: "fs_wf fs" "list_all clean (mc_root c)" using assms(1) by (simp_all add: fs_ok_def)
  note v = ValidatePath_cases [OF wf Inr]
  have n: "prefix (mc_root c) (names p)" using normal_below v wf by blast
  show ?thesis
    using assms Inr fs_remove_ok [OF assms(1) normal_plain n] v
    by (auto simp: DeleteFile_def split: if_splits sum.splits)
qed (use assms in \<open>simp add: DeleteFile_def\<close>)

lemma ValidateDirectoryPath_cases:
  assumes "fs_wf fs" "list_all clean (mc_root c)" "ValidateDirectoryPath fs c name b = Inr p"
  shows "normal_path p \<and> prefix (mc_root c) p"
proof (cases "p = mc_root c")
  case True
  then show ?thesis using assms(2) clean_normal by simp
next
  case False
  then have w: "weakly_canonical fs (path_append (mc_root c) name) = Inr p" "IsPathInsideRoot (mc_root c) p"
    using assms(3) by (auto simp: ValidateDirectoryPath_def split: if_splits sum.splits)
  then show ?thesis using weakly_canonical_append_normal [OF assms(1,2) w(1)] inside_iff [OF _ assms(2)] False by blast
qed

lemma CreateSubdirectory_ok:
  assumes "cache_ok c fs" "CreateSubdirectory w folder new c fs = (res, fs')"
  shows "cache_ok c fs' \<and> changes_below (mc_root c) fs fs'"
proof (cases "fs' = fs")
  case False
  have wf: "fs_wf fs" "list_all clean (mc_root c)" using assms(1) by (simp_all add: fs_ok_def)
  obtain parent p q where v: "ValidateDirectoryPath fs c folder True = Inr parent"
    and p: "weakly_canonical fs (path_append (names parent) new) = Inr p" "IsPathInsideRoot (mc_root c) p"
    and q: "entry fs p = Inr q" "node_at fs q = None" "fs' = fs_put fs q NDir"
    using assms(2) False unfolding CreateSubdirectory_def
    by (auto split: sum.splits if_splits)
  have "list_all clean (names parent)" using ValidateDirectoryPath_cases [OF wf v] normal_plain plain_names by blast
  then have n: "normal_path p" using weakly_canonical_append_normal [OF wf(1) _ p(1)] by blast
  then have "prefix (mc_root c) p" using inside_iff [OF n wf(2)] p(2) by auto
  then have b: "prefix (mc_root c) (names p)"
    using normal_names [OF n] wf(2) by (metis names_clean names_simps(2) prefixE prefixI)
  have "names p \<noteq> [] \<and> list_all clean (names p)" using b assms(1) normal_names [OF n] by (auto simp: fs_ok_def)
  then show ?thesis
    using fs_ok_entry [OF assms(1) normal_plain [OF n] b q(1)] fs_put_ok [OF assms(1), of q NDir] b q(2,3) by auto
qed (use assms(1) in simp)

section \<open>The index and the scan thread\<close>

definition plain_name :: "string \<Rightarrow> bool" where
  "plain_name name \<longleftrightarrow> \<not> is_absolute name \<and> plain_path (elements name)"

lemma plain_name_below:
  assumes "plain_name name" "list_all clean root"
  shows "plain_path (path_append root name)" "prefix root (names (path_append root name))"
proof -
  have "path_append root name = root @ elements name" using assms(1) by (simp add: plain_name_def path_append_def)
  then show "plain_path (path_append root name)" "prefix root (names (path_append root name))"
    using assms normal_plain [OF clean_normal [OF assms(2)]] by (simp_all add: plain_name_def plain_path_def)
qed

lemma split_slash_name: "no_slash c \<Longrightarrow> split_slash c = [c]"
  by (induction c) (auto simp: no_slash_def)

lemma split_slash_Cons: "no_slash c \<Longrightarrow> split_slash (c @ CHR ''/'' # s) = c # split_slash s"
  by (induction c) (auto simp: no_slash_def)

lemma split_slash_relative: "list_all clean p \<Longrightarrow> p \<noteq> [] \<Longrightarrow> split_slash (relative_string p) = p"
  by (induction p rule: relative_string.induct) (simp_all add: split_slash_name split_slash_Cons)

lemma clean_not_Nil: "list_all clean p \<Longrightarrow> [] \<notin> set p"
  by (auto simp: list_all_iff clean_def)

lemma elements_relative: "list_all clean p \<Longrightarrow> p \<noteq> [] \<Longrightarrow> elements (relative_string p) = p"
proof -
  assume p: "list_all clean p" "p \<noteq> []"
  have "filter (\<lambda>c. c \<noteq> []) p = p" using clean_not_Nil [OF p(1)] by (simp add: filter_id_conv) metis
  moreover have "last p \<noteq> []" using clean_not_Nil [OF p(1)] p(2) by (metis last_in_set)
  ultimately show ?thesis using p by (simp add: elements_def split_slash_relative Let_def)
qed

lemma clean_not_absolute: "clean c \<Longrightarrow> \<not> is_absolute (c @ s)"
  by (cases c) (auto simp: is_absolute_def clean_def)

lemma relative_not_absolute: "list_all clean p \<Longrightarrow> p \<noteq> [] \<Longrightarrow> \<not> is_absolute (relative_string p)"
  using clean_not_absolute [of _ "[]"] by (cases p rule: relative_string.cases) (simp_all add: clean_not_absolute)

lemma plain_relative: "list_all clean p \<Longrightarrow> p \<noteq> [] \<Longrightarrow> plain_name (relative_string p)"
  by (simp add: plain_name_def relative_not_absolute elements_relative normal_plain clean_normal)

lemma lexically_relative_below: "lexically_relative (root @ rel) root = rel"
  by (induction root) (cases rel, simp_all)

text \<open>An entry below the directory leads to itself.\<close>

lemma entry_realpath:
  assumes "fs_ok root fs" "strict_prefix root p" "node_at fs p = Some x"
  shows "realpath fs p = Inr p" "realpath fs root = Inr root" "status fs p = SFound p" "relative_path fs root p = Inr (relative_string (drop (length root) p))"
proof -
  have wf: "fs_wf fs" "list_all clean root" using assms(1) by (simp_all add: fs_ok_def)
  have c: "list_all clean p" using node_at_wf [OF wf(1) assms(3)] by simp
  have "\<forall>t. x \<noteq> NLink t" using assms by (auto simp: fs_ok_def strict_prefix_def)
  then show p: "realpath fs p = Inr p" using realpath_physical [OF wf(1) c assms(3)] by simp
  have "node_at fs root = Some NDir" using node_at_ancestors [OF wf(1) _ assms(2)] assms(3) by simp
  then show r: "realpath fs root = Inr root" using realpath_physical [OF wf] by simp
  show "status fs p = SFound p" using p by (simp add: status_def)
  obtain rel where "p = root @ rel" using assms(2) by (auto simp: strict_prefix_def prefix_def)
  then show "relative_path fs root p = Inr (relative_string (drop (length root) p))"
    using p r by (simp add: relative_path_def weakly_canonical_def status_def lexically_relative_below)
qed

lemma dir_entries_below:
  assumes "fs_ok root fs" "p \<in> set (dir_entries fs root)"
  shows "strict_prefix root p \<and> node_at fs p \<noteq> None"
proof -
  have wf: "list_all clean root" "fs_wf fs" using assms(1) by (simp_all add: fs_ok_def)
  obtain base where b: "realpath fs root = Inr base"
    using assms(2) by (cases "realpath fs root") (simp_all add: dir_entries_def)
  have "base = root" using fs_ok_realpath [OF assms(1) normal_plain [OF clean_normal [OF wf(1)]] _ b] wf(1) by simp
  then obtain q x where q: "(q, x) \<in> set fs" "strict_prefix root q" "p = root @ drop (length root) q"
    using assms(2) b wf(1) by (auto simp: dir_entries_def)
  then have "p = q" by (auto simp: strict_prefix_def prefix_def)
  moreover have "node_at fs q \<noteq> None" using q(1) by (metis fst_conv image_eqI map_of_eq_None_iff node_at_def option.distinct(1))
  ultimately show ?thesis using q(2) by simp
qed

text \<open>What is in the index after a scan, as a function of the name.\<close>

lemma index_entry_below:
  assumes "fs_ok root fs" "strict_prefix root p" "node_at fs p = Some x"
  shows "index_entry fs root p idx =
    (if is_file (Some x) then AList.update (relative_string (drop (length root) p)) (file_info fs (relative_string (drop (length root) p)) p) idx
     else idx)"
  using entry_realpath [OF assms] assms(3) by (simp add: index_entry_def is_regular_file_def)

lemma index_names:
  assumes "fs_ok root fs" "\<forall>p \<in> set ps. strict_prefix root p \<and> node_at fs p \<noteq> None" "fst ` set idx \<subseteq> Collect plain_name"
  shows "fst ` set (fold (index_entry fs root) ps idx) \<subseteq> Collect plain_name"
  using assms(2,3)
proof (induction ps arbitrary: idx)
  case (Cons p ps)
  then obtain x where x: "node_at fs p = Some x" "strict_prefix root p" by auto
  have "list_all clean p" using node_at_wf [OF _ x(1)] assms(1) by (simp add: fs_ok_def)
  then have "list_all clean (drop (length root) p)" by (auto simp: list_all_iff dest: in_set_dropD)
  moreover have "drop (length root) p \<noteq> []" using x(2) by (auto simp: strict_prefix_def prefix_def)
  ultimately have "plain_name (relative_string (drop (length root) p))" by (rule plain_relative)
  then have "fst ` set (index_entry fs root p idx) \<subseteq> Collect plain_name"
    using Cons.prems(2) index_entry_below [OF assms(1) x(2,1), of idx] by (simp add: dom_update)
  then show ?case using Cons by simp
qed simp

text \<open>No link anywhere, and what paths then lead to: their elements with the dots worked out.\<close>

definition link_free :: "fs \<Rightarrow> bool" where
  "link_free fs \<longleftrightarrow> list_all (\<lambda>(p, x). case x of NLink t \<Rightarrow> False | _ \<Rightarrow> True) fs"

lemma link_free_node: "link_free fs \<Longrightarrow> node_at fs p \<noteq> Some (NLink t)"
  by (auto simp: link_free_def node_at_def list_all_iff dest!: map_of_SomeD split: if_splits)

lemma norm_append: "norm acc (p @ q) = norm (norm acc p) q"
  by (induction acc p rule: norm.induct) auto

lemma norm_clean_id: "list_all clean p \<Longrightarrow> norm acc p = acc @ p"
  by (induction p arbitrary: acc) (auto simp: clean_def)

lemma locate_norm: "locate n fs cur cs = Inr q \<Longrightarrow> \<forall>p t. node_at fs p \<noteq> Some (NLink t) \<Longrightarrow> q = norm cur cs"
  by (induction rule: locate_Inr_induct) auto

lemma realpath_norm: "realpath fs p = Inr q \<Longrightarrow> \<forall>p t. node_at fs p \<noteq> Some (NLink t) \<Longrightarrow> q = norm [] p"
  by (auto simp: realpath_def ebind_eq_Inr_iff dest: locate_norm split: if_splits)

lemma entry_norm:
  assumes "entry fs p = Inr q" "\<forall>p t. node_at fs p \<noteq> Some (NLink t)"
  shows "q = norm [] p"
proof (cases "p = [] \<or> last p \<in> {[], ''.'', ''..''}")
  case True
  then show ?thesis using assms realpath_norm by (simp add: entry_def split: if_splits)
next
  case False
  then obtain b c where p: "p = b @ [c]" by (cases p rule: rev_cases) auto
  then obtain d where d: "realpath fs b = Inr d" "q = d @ [c]"
    using assms(1) False by (auto simp: entry_def ebind_eq_Inr_iff split: if_splits)
  then show ?thesis using realpath_norm [OF d(1) assms(2)] False p by (simp add: norm_append)
qed

lemma weakly_canonical_norm:
  assumes "fs_wf fs" "\<forall>p t. node_at fs p \<noteq> Some (NLink t)" "list_all no_slash p" "weakly_canonical fs p = Inr r"
  shows "names r = norm [] p"
proof (cases "status fs p")
  case (SFound q)
  then have "realpath fs p = Inr r" using assms(4) by (auto simp: weakly_canonical_def status_def split: sum.splits if_splits)
  then show ?thesis using realpath_norm realpath_clean assms by fastforce
next
  case SNotFound
  then obtain pre rest base where l: "leading fs [] p = Inr (pre, rest)" and b: "realpath fs pre = Inr base"
    and r: "r = lexically_normal (base @ rest)"
    using assms(4) by (auto simp: weakly_canonical_def ebind_eq_Inr_iff)
  have p: "p = pre @ rest" using leading_split [OF l] by simp
  have c: "list_all clean base" using realpath_clean [OF assms(1) _ b] assms(3) p by simp
  have "names (lexically_normal (base @ rest)) = norm [] (base @ rest)"
    using norm_clean [of "[]" "base @ rest"] assms(3) p c clean_no_slashes by (simp add: lexically_normal_def Let_def)
  also have "\<dots> = norm [] p" using realpath_norm [OF b assms(2)] c p by (simp add: norm_append norm_clean_id)
  finally show ?thesis using r by simp
qed (use assms(4) in \<open>simp add: weakly_canonical_def\<close>)

text \<open>A name is safe when, whatever happens below the directory, the entry it names behind the directory's path
  is below the directory.\<close>

definition safe_name :: "string list \<Rightarrow> fs \<Rightarrow> string \<Rightarrow> bool" where
  "safe_name root fs n \<longleftrightarrow> (\<forall>fs' q. fs_ok root fs' \<and> changes_below root fs fs' \<and>
     entry fs' (path_append root n) = Inr q \<longrightarrow> prefix root q)"

lemma safe_name_change: "safe_name root fs n \<Longrightarrow> changes_below root fs fs' \<Longrightarrow> safe_name root fs' n"
  unfolding safe_name_def using changes_below_trans by blast

lemma plain_safe: "list_all clean root \<Longrightarrow> plain_name n \<Longrightarrow> safe_name root fs n"
  unfolding safe_name_def using fs_ok_entry plain_name_below by blast

text \<open>The name of an accepted path is safe when it is plain, and any is when there are no links.\<close>

lemma accepted_safe:
  assumes "cache_ok c fs" "ValidatePath fs c name = Inr p" "plain_name name \<or> link_free fs"
  shows "safe_name (mc_root c) fs name"
proof -
  have wf: "fs_wf fs" "list_all clean (mc_root c)" using assms(1) by (simp_all add: fs_ok_def)
  show ?thesis
  proof (cases "plain_name name")
    case False
    then have l: "\<forall>p t. node_at fs p \<noteq> Some (NLink t)" using assms(3) link_free_node by blast
    have w: "weakly_canonical fs (path_append (mc_root c) name) = Inr p"
      using assms(2) by (auto simp: ValidatePath_def split: if_splits sum.splits)
    note v = ValidatePath_cases [OF wf assms(2)]
    have n: "prefix (mc_root c) (names p)" using normal_below v wf by blast
    have "prefix (mc_root c) q"
      if ok: "fs_ok (mc_root c) fs'" and ch: "changes_below (mc_root c) fs fs'" and e: "entry fs' (path_append (mc_root c) name) = Inr q" for fs' q
    proof -
      have "\<forall>p t. node_at fs' p \<noteq> Some (NLink t)" using ok ch l unfolding fs_ok_def changes_below_def by metis
      from entry_norm [OF e this] n weakly_canonical_norm [OF wf(1) l path_append_no_slash [OF wf(2)] w]
      show ?thesis by simp
    qed
    then show ?thesis unfolding safe_name_def by blast
  qed (use plain_safe wf in blast)
qed

definition safe_names :: "MyCache \<Rightarrow> fs \<Rightarrow> string set \<Rightarrow> bool" where
  "safe_names c fs ns \<longleftrightarrow> (\<forall>n \<in> ns. safe_name (mc_root c) fs n)"

lemma RefreshIndex_safe: "cache_ok c fs \<Longrightarrow> safe_names (RefreshIndex fs c) fs (fst ` set (mc_index (RefreshIndex fs c)))"
  using index_names [of "mc_root c" fs "dir_entries fs (mc_root c)" "[]"] dir_entries_below [of "mc_root c" fs]
    plain_safe [of "mc_root c"] by (auto simp: safe_names_def RefreshIndex_def fs_ok_def)

lemma fs_remove_below:
  assumes "fs_ok root fs" "fs_remove fs p = Inr fs'" "\<forall>q. entry fs p = Inr q \<longrightarrow> prefix root q"
  shows "fs_ok root fs' \<and> changes_below root fs fs'"
proof -
  from assms(2) obtain q where q: "entry fs p = Inr q"
    by (auto simp: fs_remove_def ebind_eq_Inr_iff split: if_splits)
  obtain x where x: "node_at fs q = Some x" and fs': "fs' = fs_del fs q" and c: "x = NDir \<Longrightarrow> \<not> has_children fs q"
    using assms(2) q by (cases "node_at fs q") (auto simp: fs_remove_def split: node.splits if_splits)
  have "\<not> has_children fs q"
    using c no_children_of_file [of fs q x] x assms(1) by (cases "x = NDir") (auto simp: fs_ok_def)
  then show ?thesis using fs_del_ok [OF assms(1), of q] assms(3) q fs' by simp
qed

section \<open>The cache between calls\<close>

text \<open>The cache, the file system, and the expired names the scan thread has collected and not yet removed. Other
  calls may come between the scan, the collection and the removal of each name; each call is one step. The
  guards of \<open>init\<close> and \<open>save\<close> are what is asked of the directory and of the names.\<close>

inductive cache_step :: "MyCache \<times> fs \<times> string list \<Rightarrow> MyCache \<times> fs \<times> string list \<Rightarrow> bool" where
  init: "list_all clean cwd \<Longrightarrow> mc_Init w cwd trunc cfg c fs = (code, c', fs') \<Longrightarrow>
    code = CacheOk \<and> mc_status c \<noteq> StRunning \<longrightarrow> fs_ok (mc_root c') fs' \<Longrightarrow>
    cache_step (c, fs, ns) (c', fs', ns)"
| save: "plain_name name \<or> link_free fs \<Longrightarrow> SaveFile w name d c fs = (code, c', fs') \<Longrightarrow>
    cache_step (c, fs, ns) (c', fs', ns)"
| delete: "DeleteFile w name c fs = (code, c', fs') \<Longrightarrow> cache_step (c, fs, ns) (c', fs', ns)"
| subdirectory: "CreateSubdirectory w folder new c fs = (res, fs') \<Longrightarrow> cache_step (c, fs, ns) (c, fs', ns)"
| refresh: "mc_running c \<Longrightarrow> cache_step (c, fs, ns) (RefreshIndex fs c, fs, ns)"
| collect: "mc_running c \<Longrightarrow> 0 < sint (cf_max_retention_seconds (mc_config c)) \<Longrightarrow>
    cache_step (c, fs, []) (c, fs, expired_names w dt c fs)"
| clean: "clean_names w [n] c fs = (c', fs') \<Longrightarrow> cache_step (c, fs, n # ns) (c', fs', ns)"

text \<open>A round of cleaning with nothing in between is \<open>CleanExpiredFiles\<close>.\<close>

lemma clean_names_Cons:
  "clean_names w (n # ns) c fs = (case clean_names w [n] c fs of (c, fs) \<Rightarrow> clean_names w ns c fs)"
  by (auto split: sum.split)

lemma clean_steps: "clean_names w ns c fs = (c', fs') \<Longrightarrow> cache_step\<^sup>*\<^sup>* (c, fs, ns) (c', fs', [])"
proof (induction ns arbitrary: c fs)
  case (Cons n ns)
  obtain c1 fs1 where o: "clean_names w [n] c fs = (c1, fs1)" by fastforce
  have "cache_step (c, fs, n # ns) (c1, fs1, ns)" by (rule cache_step.clean [OF o])
  moreover have "clean_names w ns c1 fs1 = (c', fs')" using Cons.prems o clean_names_Cons [of w n ns c fs] by simp
  ultimately show ?case using Cons.IH by (meson converse_rtranclp_into_rtranclp)
qed simp

fun cache_inv :: "MyCache \<times> fs \<times> string list \<Rightarrow> bool" where
  "cache_inv (c, fs, ns) \<longleftrightarrow> fs_wf fs \<and> (mc_running c \<or> ns \<noteq> [] \<longrightarrow> mc_status c = StRunning) \<and>
     (mc_status c = StRunning \<longrightarrow> cache_ok c fs \<and> safe_names c fs (fst ` set (mc_index c) \<union> set ns))"

text \<open>A running cache changes things below its directory only.\<close>

lemma safe_names_step:
  assumes "safe_names c fs ns" "changes_below (mc_root c) fs fs'" "mc_root c' = mc_root c"
    and "\<forall>n \<in> ns'. n \<in> ns \<or> safe_name (mc_root c) fs n"
  shows "safe_names c' fs' ns'"
  using assms safe_name_change unfolding safe_names_def by metis

lemma SaveFile_index:
  assumes "SaveFile w name d c fs = (code, c', fs')"
  shows "mc_status c' = mc_status c \<and> mc_running c' = mc_running c \<and>
    (c' = c \<or> (\<exists>p. ValidatePath fs c name = Inr p) \<and> fst ` set (mc_index c') = insert name (fst ` set (mc_index c)))"
proof -
  have "c' = c \<or> (\<exists>p. ValidatePath fs c name = Inr p) \<and> (\<exists>i. c' = c\<lparr>mc_index := AList.update name i (mc_index c)\<rparr>)"
    using assms by (auto simp: SaveFile_def Let_def split: sum.splits if_splits prod.splits option.splits bool.splits)
  then show ?thesis by (elim disjE conjE exE) (simp_all add: dom_update)
qed

lemma DeleteFile_index:
  assumes "DeleteFile w name c fs = (code, c', fs')"
  shows "mc_status c' = mc_status c \<and> mc_running c' = mc_running c \<and> fst ` set (mc_index c') \<subseteq> fst ` set (mc_index c)"
proof -
  have "c' = c \<or> c' = c\<lparr>mc_index := AList.delete name (mc_index c)\<rparr>"
    using assms by (auto simp: DeleteFile_def split: sum.splits if_splits)
  then show ?thesis using dom_delete_subset [of name "mc_index c"] by (elim disjE) simp_all
qed

lemma clean_one_ok:
  assumes "cache_ok c fs" "safe_name (mc_root c) fs n" "clean_names w [n] c fs = (c', fs')"
  shows "cache_ok c fs' \<and> changes_below (mc_root c) fs fs' \<and> mc_root c' = mc_root c \<and> mc_status c' = mc_status c \<and>
    mc_running c' = mc_running c \<and> fst ` set (mc_index c') \<subseteq> fst ` set (mc_index c)"
proof (cases "if io_remove w then fs_remove fs (path_append (mc_root c) n) else Inl EIO")
  case (Inr fs1)
  then have "fs_remove fs (path_append (mc_root c) n) = Inr fs1" by (simp split: if_splits)
  note fs_remove_below [OF assms(1) this]
  then have "fs_ok (mc_root c) fs1 \<and> changes_below (mc_root c) fs fs1"
    using assms(1,2) changes_below_refl unfolding safe_name_def by blast
  moreover have "c' = c\<lparr>mc_index := AList.delete n (mc_index c)\<rparr>" "fs' = fs1" using Inr assms(3) by simp_all
  ultimately show ?thesis using dom_delete_subset [of n "mc_index c"] by simp
qed (use assms in simp)

lemma expired_names_index: "set (expired_names w dt c fs) \<subseteq> fst ` set (mc_index c)"
  by (auto simp: expired_names_def)

lemma running_step:
  assumes "cache_step s s'" "cache_inv s" "mc_status (fst s) = StRunning"
  shows "cache_inv s' \<and> mc_status (fst s') = StRunning \<and> mc_root (fst s') = mc_root (fst s) \<and>
    changes_below (mc_root (fst s)) (fst (snd s)) (fst (snd s'))"
  using assms
proof (induction rule: cache_step.induct)
  case (init cwd w trunc cfg c fs code c' fs' ns)
  then show ?case by (auto simp: mc_Init_def)
next
  case (save name fs w d c code c' fs' ns)
  have ok: "cache_ok c fs" and sf: "safe_names c fs (fst ` set (mc_index c) \<union> set ns)" using save.prems by simp_all
  note s = SaveFile_ok [OF ok save(2)] and i = SaveFile_index [OF save(2)]
  have "\<forall>n \<in> fst ` set (mc_index c') \<union> set ns. n \<in> fst ` set (mc_index c) \<union> set ns \<or> safe_name (mc_root c) fs n"
  proof (cases "c' = c")
    case False
    then show ?thesis using i accepted_safe [OF ok _ save(1)] by (metis Un_iff insert_iff)
  qed simp
  then have "safe_names c' fs' (fst ` set (mc_index c') \<union> set ns)" using safe_names_step [OF sf, of fs' c'] s by simp
  then show ?case using save.prems s i by (auto simp: fs_ok_def)
next
  case (delete w name c fs code c' fs' ns)
  have ok: "cache_ok c fs" and sf: "safe_names c fs (fst ` set (mc_index c) \<union> set ns)" using delete.prems by simp_all
  note s = DeleteFile_ok [OF ok delete(1)] and i = DeleteFile_index [OF delete(1)]
  have "\<forall>n \<in> fst ` set (mc_index c') \<union> set ns. n \<in> fst ` set (mc_index c) \<union> set ns \<or> safe_name (mc_root c) fs n"
    using i by blast
  then have "safe_names c' fs' (fst ` set (mc_index c') \<union> set ns)" using safe_names_step [OF sf, of fs' c'] s by blast
  then show ?case using delete.prems s i by (auto simp: fs_ok_def)
next
  case (subdirectory w folder new c fs res fs' ns)
  have ok: "cache_ok c fs" and sf: "safe_names c fs (fst ` set (mc_index c) \<union> set ns)" using subdirectory.prems by simp_all
  note s = CreateSubdirectory_ok [OF ok subdirectory(1)]
  have "safe_names c fs' (fst ` set (mc_index c) \<union> set ns)" using safe_names_step [OF sf, of fs' c] s by blast
  then show ?case using subdirectory.prems s by (auto simp: fs_ok_def)
next
  case (refresh c fs ns)
  then have "safe_names (RefreshIndex fs c) fs (fst ` set (mc_index (RefreshIndex fs c)) \<union> set ns)"
    using RefreshIndex_safe [of c fs] by (auto simp: safe_names_def RefreshIndex_def)
  then show ?case using refresh by (simp add: RefreshIndex_def)
next
  case (collect c fs w dt)
  then show ?case using expired_names_index [of w dt c fs] by (auto simp: safe_names_def)
next
  case (clean w n c fs c' fs' ns)
  have ok: "cache_ok c fs" and sf: "safe_names c fs (fst ` set (mc_index c) \<union> set (n # ns))" using clean.prems by simp_all
  note s = clean_one_ok [OF ok _ clean(1)]
  have n: "safe_name (mc_root c) fs n" using sf by (simp add: safe_names_def)
  have "safe_names c' fs' (fst ` set (mc_index c') \<union> set ns)"
    using safe_names_step [OF sf, of fs' c' "fst ` set (mc_index c') \<union> set ns"] s [OF n] by auto
  then show ?case using clean.prems s [OF n] by (auto simp: fs_ok_def)
qed

text \<open>Before an \<open>Init\<close> has succeeded at most directories are made.\<close>

definition only_dirs_added :: "fs \<Rightarrow> fs \<Rightarrow> bool" where
  "only_dirs_added fs fs' \<longleftrightarrow> (\<forall>p. node_at fs' p = node_at fs p \<or> node_at fs p = None \<and> node_at fs' p = Some NDir)"

lemma only_dirs_added_refl [simp]: "only_dirs_added fs fs"
  by (simp add: only_dirs_added_def)

lemma only_dirs_added_trans: "only_dirs_added fs fs' \<Longrightarrow> only_dirs_added fs' fs'' \<Longrightarrow> only_dirs_added fs fs''"
  unfolding only_dirs_added_def by metis

lemma create_directories_adds: "create_directories fs pre cs = (res, fs') \<Longrightarrow> only_dirs_added fs fs'"
proof (induction fs pre cs rule: create_directories.induct)
  case (2 fs pre c cs)
  show ?case
  proof (cases "fs' = fs")
    case False
    show ?thesis
    proof (cases "status fs (pre @ [c])")
      case SNotFound
      then obtain q where q: "entry fs (pre @ [c]) = Inr q" "node_at fs q = None"
        "create_directories (fs_put fs q NDir) (pre @ [c]) cs = (res, fs')"
        using "2.prems"(1) False by (auto split: if_splits sum.splits)
      then have "q \<noteq> []" by auto
      then have "only_dirs_added fs (fs_put fs q NDir)" using q(2) by (simp add: only_dirs_added_def node_at_put)
      moreover have "only_dirs_added (fs_put fs q NDir) fs'" using "2.IH" SNotFound q by simp
      ultimately show ?thesis by (rule only_dirs_added_trans)
    next
      case (SFound q)
      then show ?thesis using 2 False by (simp split: if_splits)
    qed (use "2.prems" False in simp)
  qed simp
qed simp

lemma open_root_adds: "open_root w cwd path fs = (r, fs') \<Longrightarrow> only_dirs_added fs fs'"
  by (auto simp: open_root_def Let_def split: if_splits option.splits sum.splits prod.splits dest: create_directories_adds)

lemma Init_adds: "mc_Init w cwd trunc cfg c fs = (code, c', fs') \<Longrightarrow> only_dirs_added fs fs'"
  by (auto simp: mc_Init_def Let_def split: if_splits option.splits json.splits prod.splits sum.splits dest: open_root_adds)

lemma Init_running: "mc_Init w cwd trunc cfg c fs = (code, c', fs') \<Longrightarrow> mc_status c \<noteq> StRunning \<Longrightarrow> \<not> mc_running c \<Longrightarrow>
    mc_running c' \<longrightarrow> mc_status c' = StRunning"
  by (auto simp: mc_Init_def Let_def RefreshIndex_def split: if_splits option.splits json.splits prod.splits sum.splits)

lemma idle_step:
  assumes "cache_step s s'" "cache_inv s" "mc_status (fst s) \<noteq> StRunning"
  shows "cache_inv s' \<and> only_dirs_added (fst (snd s)) (fst (snd s'))"
  using assms
proof (induction rule: cache_step.induct)
  case (init cwd w trunc cfg c fs code c' fs' ns)
  have i: "fs_wf fs" "\<not> mc_running c" "ns = []" "mc_status c \<noteq> StRunning" using init.prems by auto
  note e = init_establishes [OF i(1) init(1) i(4) init(2)]
  have "cache_inv (c', fs', [])"
  proof (cases "code = CacheOk")
    case True
    then have ok: "cache_ok c' fs'" using init(3) i(4) by simp
    have "mc_index c' = mc_index (RefreshIndex fs' c')" using e True by simp
    then have "safe_names c' fs' (fst ` set (mc_index c'))"
      using RefreshIndex_safe [OF ok] by (simp add: safe_names_def RefreshIndex_def)
    then show ?thesis using e True ok by simp
  next
    case False
    then show ?thesis using e Init_running [OF init(2) i(4,2)] by auto
  qed
  then show ?case using Init_adds [OF init(2)] i(3) by simp
next
  case (save name fs w d c code c' fs' ns)
  then show ?case by (auto simp: SaveFile_def ValidatePath_def split: if_splits)
next
  case (delete w name c fs code c' fs' ns)
  then show ?case by (auto simp: DeleteFile_def ValidatePath_def split: if_splits)
next
  case (subdirectory w folder new c fs res fs' ns)
  then show ?case by (auto simp: CreateSubdirectory_def ValidateDirectoryPath_def split: if_splits)
next
  case (clean w n c fs c' fs' ns)
  then show ?case by simp
qed auto

lemma cache_step_inv: "cache_step s s' \<Longrightarrow> cache_inv s \<Longrightarrow> cache_inv s'"
  using running_step idle_step by blast

interpretation cache: invariant_system "\<lambda>s. \<exists>fs. s = (MyCache_ctor, fs, []) \<and> fs_wf fs" cache_step cache_inv
proof
  show "cache_inv s" if "\<exists>fs. s = (MyCache_ctor, fs, []) \<and> fs_wf fs" for s
    using that by (auto simp: MyCache_ctor_def)
qed (use cache_step_inv in blast)

lemma running_changes:
  assumes "cache_step\<^sup>*\<^sup>* s s'" "cache_inv s" "mc_status (fst s) = StRunning"
  shows "cache_inv s' \<and> mc_status (fst s') = StRunning \<and> mc_root (fst s') = mc_root (fst s) \<and>
    changes_below (mc_root (fst s)) (fst (snd s)) (fst (snd s'))"
  using assms(1)
proof (induction rule: rtranclp_induct)
  case (step y z)
  from running_step [OF step.hyps(2)] step.IH have
    z: "cache_inv z" "mc_status (fst z) = StRunning" "mc_root (fst z) = mc_root (fst s)"
      "changes_below (mc_root (fst s)) (fst (snd y)) (fst (snd z))" by simp_all
  moreover have "changes_below (mc_root (fst s)) (fst (snd s)) (fst (snd z))"
    using step.IH z(4) changes_below_trans by blast
  ultimately show ?case by simp
next
  case base
  then show ?case using assms(2,3) by simp
qed

lemma idle_changes:
  assumes "cache_step\<^sup>*\<^sup>* s s'" "cache_inv s" "mc_status (fst s') \<noteq> StRunning"
  shows "only_dirs_added (fst (snd s)) (fst (snd s'))"
  using assms(1,3)
proof (induction rule: rtranclp_induct)
  case (step y z)
  have i: "cache_inv y" using step.hyps(1) assms(2) by (induction rule: rtranclp_induct) (auto intro: cache_step_inv)
  then have n: "mc_status (fst y) \<noteq> StRunning" using running_step [OF step.hyps(2)] step.prems by blast
  then show ?case using step.IH idle_step [OF step.hyps(2) i n] only_dirs_added_trans by blast
qed simp

text \<open>C6: From the construction of the cache on, whatever sequence of \<open>Init\<close>, the other calls and the parts of the scan
  thread's rounds, also with failing system calls: as long as no \<open>Init\<close> has succeeded nothing happens to the
  file system but that missing directories on the way to the configured one are made; from then on
  nothing outside the directory of the cache changes, no link appears in it, and the file system stays well formed.
  This holds when the directory opened is not the root of the file system and has no links below it, and when
  each file is saved under a name that is relative without double dots, or under any name, absolute or with double dots,
  while the file system has no links at all. Names of the other calls are arbitrary. A call is one step,
  and nobody else changes the directory or links outside it.\<close>

theorem cache_confined:
  assumes "fs_wf fs0" and "cache_step\<^sup>*\<^sup>* (MyCache_ctor, fs0, []) (c, fs, ns)" and "cache_step\<^sup>*\<^sup>* (c, fs, ns) (c', fs', ns')"
  shows "if mc_status c = StRunning
    then mc_root c' = mc_root c \<and> fs_ok (mc_root c) fs' \<and> (\<forall>p. \<not> prefix (mc_root c) p \<longrightarrow> node_at fs' p = node_at fs p)
    else \<forall>p. node_at fs p = node_at fs0 p \<or> node_at fs0 p = None \<and> node_at fs p = Some NDir"
proof -
  have i: "cache_inv (c, fs, ns)" using cache.reachable_inv [OF _ assms(2)] assms(1) by blast
  have i0: "cache_inv (MyCache_ctor, fs0, [])" using assms(1) by (simp add: MyCache_ctor_def)
  show ?thesis
    using running_changes [OF assms(3) i] idle_changes [OF assms(2) i0] by (auto simp: changes_below_def only_dirs_added_def)
qed

section \<open>What the index says\<close>

lemma file_info_file:
  assumes "realpath fs p = Inr p" "node_at fs p = Some (NFile d t)"
  shows "file_info fs n p = \<lparr>fi_name = n, fi_size = length d, fi_type = GetFileExtension n, fi_modified_at = Some t\<rparr>"
  using assms by (simp add: file_info_def file_size_def last_write_time_def)

lemma relative_string_inj:
  assumes "list_all clean p" "list_all clean q" "p \<noteq> []" "q \<noteq> []" "relative_string p = relative_string q"
  shows "p = q"
  using elements_relative assms by metis

text \<open>The files below a directory, by their paths relative to it.\<close>

definition file_below :: "fs \<Rightarrow> string list \<Rightarrow> string list \<Rightarrow> bool" where
  "file_below fs root rel \<longleftrightarrow> rel \<noteq> [] \<and> is_file (node_at fs (root @ rel))"

lemma index_fold:
  assumes "fs_ok root fs" "\<forall>p \<in> set ps. strict_prefix root p \<and> node_at fs p \<noteq> None"
    and "list_all clean rel" "rel \<noteq> []"
  shows "map_of (fold (index_entry fs root) ps idx) (relative_string rel) =
    (if root @ rel \<in> set ps \<and> is_file (node_at fs (root @ rel))
     then Some (file_info fs (relative_string rel) (root @ rel)) else map_of idx (relative_string rel))"
  using assms(2)
proof (induction ps arbitrary: idx)
  case (Cons p ps)
  then obtain x where x: "node_at fs p = Some x" "strict_prefix root p" by auto
  obtain r where r: "p = root @ r" "r \<noteq> []" using x(2) by (auto simp: strict_prefix_def prefix_def)
  have "list_all clean p" using node_at_wf [OF _ x(1)] assms(1) by (simp add: fs_ok_def)
  then have "relative_string rel = relative_string r \<longleftrightarrow> rel = r"
    using relative_string_inj [OF assms(3) _ assms(4) r(2)] r by auto
  then show ?case
    using Cons index_entry_below [OF assms(1) x(2,1), of idx] x r by (auto simp: update_conv')
qed simp

lemma dir_entries_complete:
  assumes "fs_ok root fs" "node_at fs (root @ rel) \<noteq> None" "rel \<noteq> []"
  shows "root @ rel \<in> set (dir_entries fs root)"
proof -
  obtain x where x: "node_at fs (root @ rel) = Some x" using assms(2) by blast
  have p: "strict_prefix root (root @ rel)" using assms(3) by (simp add: strict_prefix_def)
  have "(root @ rel, x) \<in> set fs" using x assms(3) by (simp add: node_at_def map_of_SomeD)
  then have "root @ rel \<in> set (filter (strict_prefix root) (map fst fs))" using p by (force simp: rev_image_eqI)
  then have "names root @ drop (length root) (root @ rel) \<in> set (dir_entries fs root)"
    unfolding dir_entries_def entry_realpath(2) [OF assms(1) p x] sum.case set_map by (rule imageI)
  then show ?thesis using assms(1) by (simp add: fs_ok_def)
qed

text \<open>After a scan of a directory without links the index is exact: \<open>Exists\<close> answers, for the relative path of a
  file, true if and only if there is such a regular file, and the entry has its size and time.\<close>

theorem refresh_index_exact:
  assumes "fs_ok (mc_root c) fs" and "list_all clean rel" and "rel \<noteq> []"
  shows "map_of (mc_index (RefreshIndex fs c)) (relative_string rel) =
    (case node_at fs (mc_root c @ rel) of
       Some (NFile d t) \<Rightarrow> Some \<lparr>fi_name = relative_string rel, fi_size = length d,
         fi_type = GetFileExtension (relative_string rel), fi_modified_at = Some t\<rparr>
     | _ \<Rightarrow> None)"
proof -
  let ?p = "mc_root c @ rel"
  have b: "\<forall>p \<in> set (dir_entries fs (mc_root c)). strict_prefix (mc_root c) p \<and> node_at fs p \<noteq> None"
    using dir_entries_below [OF assms(1)] by blast
  note f = index_fold [OF assms(1) b assms(2,3), of "[]"]
  show ?thesis
  proof (cases "is_file (node_at fs ?p)")
    case True
    then obtain d t where n: "node_at fs ?p = Some (NFile d t)" by (cases "node_at fs ?p" rule: is_file.cases) auto
    have "strict_prefix (mc_root c) ?p" using assms(3) by (simp add: strict_prefix_def)
    from entry_realpath(1) [OF assms(1) this n] show ?thesis
      using f n dir_entries_complete [OF assms(1) _ assms(3)] file_info_file by (simp add: RefreshIndex_def)
  next
    case False
    then show ?thesis using f by (auto simp: RefreshIndex_def split: option.split node.split)
  qed
qed

section \<open>What saving does\<close>




lemma create_directories_keeps:
  "create_directories fs pre cs = (res, fs') \<Longrightarrow> node_at fs r \<noteq> None \<Longrightarrow> node_at fs' r = node_at fs r"
proof (induction fs pre cs rule: create_directories.induct)
  case (2 fs pre c cs)
  show ?case
  proof (cases "fs' = fs")
    case False
    show ?thesis
    proof (cases "status fs (pre @ [c])")
      case SNotFound
      then obtain q where q: "entry fs (pre @ [c]) = Inr q" "node_at fs q = None"
        "create_directories (fs_put fs q NDir) (pre @ [c]) cs = (res, fs')"
        using "2.prems"(1) False by (auto split: if_splits sum.splits)
      then have "q \<noteq> []" "r \<noteq> q" using "2.prems"(2) by auto
      then have "node_at (fs_put fs q NDir) r = node_at fs r" by (simp add: node_at_put)
      then show ?thesis using "2.IH" SNotFound q "2.prems"(2) by simp
    next
      case (SFound q)
      then show ?thesis using 2 False by (simp split: if_splits)
    qed (use "2.prems" False in simp)
  qed simp
qed simp

lemma write_file_failed:
  assumes "fs_ok root fs" "normal_path p" "prefix root p" "p \<noteq> root" "write_file w d p fs = (False, fs')" "r \<noteq> append_tmp p"
  shows "node_at fs' r = node_at fs r"
proof (cases "if io_open w then fs_open fs (append_tmp p) else Inl EIO")
  case (Inr q)
  have root: "list_all clean root" using assms(1) by (simp add: fs_ok_def)
  note n = normal_below [OF assms(2-4) root]
  have "fs_open fs (append_tmp p) = Inr q" using Inr by (simp split: if_splits)
  note o = fs_open_ok [OF assms(1) n(2,3,4) this]
  have q: "q = append_tmp p" "q \<noteq> []" using o n(3,8) assms(1) by (auto simp: fs_ok_def)
  have "node_at (remove_quietly w (fs_put fs q (NFile d' t)) (append_tmp p)) r = node_at fs r" for d' t
    using o q n(2,3,8) assms(6) fs_remove_ok [of root "fs_put fs q (NFile d' t)" "append_tmp p"]
    by (auto simp: remove_quietly_def node_at_put node_at_del split: sum.split)
  then show ?thesis using assms(5) Inr by (auto simp: write_file_def Let_def split: if_splits sum.splits)
qed (use assms(5) in \<open>simp add: write_file_def Let_def\<close>)

text \<open>C35: A save that fails, in a directory without links, leaves the index alone and keeps every file and directory,
  the one to be replaced included, except for a file with the name of the temporary file. It fails with the error
  of the path check when that refuses the name, and with \<open>FileTooLarge\<close> when the data exceed a limit that is set;
  in both cases the file system is untouched. (Through a link at the temporary name another file would be written.)\<close>

theorem failed_save_keeps_files:
  assumes "fs_ok (mc_root c) fs" and "SaveFile w name d c fs = (code, c', fs')" and "code \<noteq> CacheOk"
  shows "c' = c \<and>
    (case ValidatePath fs c name of
       Inl e \<Rightarrow> code = e \<and> fs' = fs
     | Inr p \<Rightarrow>
         if 0 < cf_max_file_size (mc_config c) \<and> unat (cf_max_file_size (mc_config c)) < length d
         then code = FileTooLarge \<and> fs' = fs
         else code \<in> {CreateDirFailed, IoError} \<and>
           (\<forall>r. r \<noteq> append_tmp p \<and> node_at fs r \<noteq> None \<longrightarrow> node_at fs' r = node_at fs r))"
proof (cases "ValidatePath fs c name")
  case (Inr p)
  show ?thesis
  proof (cases "0 < cf_max_file_size (mc_config c) \<and> unat (cf_max_file_size (mc_config c)) < length d")
    case False
    have wf: "fs_wf fs" "list_all clean (mc_root c)" using assms(1) by (simp_all add: fs_ok_def)
    note v = ValidatePath_cases [OF wf Inr]
    have n: "list_all clean (butlast p)" "prefix (mc_root c) (butlast p)" using normal_below v wf by blast+
    obtain res fs1 where m: "(if fs_exists fs (butlast p) then (None, fs) else if io_mkdir w
        then create_directories fs [] (butlast p) else (Some EIO, fs)) = (res, fs1)" by fastforce
    note mk = make_dirs_ok [OF assms(1) n m]
    have k: "node_at fs1 r = node_at fs r" if "node_at fs r \<noteq> None" for r
      using m create_directories_keeps [OF _ that, of "[]" "butlast p" res fs1] by (auto split: if_splits)
    obtain ok fs2 where wr: "write_file w d p fs1 = (ok, fs2)" by fastforce
    show ?thesis
    proof (cases res)
      case None
      then have "\<not> ok" "fs' = fs2" "code = IoError" "c' = c"
        using assms(2,3) Inr False m wr by (auto simp: SaveFile_def Let_def split: if_splits bool.splits)
      then show ?thesis
        using k Inr False write_file_failed [of "mc_root c" fs1 p w d fs2] mk v wr by auto
    next
      case (Some e)
      then show ?thesis using assms(2) Inr False m k by (auto simp: SaveFile_def Let_def)
    qed
  qed (use assms Inr in \<open>auto simp: SaveFile_def Let_def\<close>)
qed (use assms in \<open>simp add: SaveFile_def\<close>)

section \<open>Odd effects\<close>

definition demo_io :: io where
  "demo_io = \<lparr>io_mkdir = True, io_open = True, io_write = True, io_flush = True, io_written = 0, io_rename = True, io_remove = True,
     io_now = 100\<rparr>"

definition demo_cache :: MyCache where
  "demo_cache = MyCache_ctor\<lparr>mc_root := [''c''], mc_status := StRunning, mc_running := True,
     mc_config := \<lparr>cf_root_path = ''/c'', cf_max_file_size = 0, cf_max_retention_seconds = 10\<rparr>\<rparr>"

text \<open>An empty cache, and one with links to a directory and a file beside it.\<close>

definition demo_fs :: fs where
  "demo_fs = [([''c''], NDir), ([''o''], NDir), ([''o'', ''f''], NFile [1] 0)]"

definition linked_fs :: fs where
  "linked_fs = ([''c'', ''l''], NLink ''/o'') # ([''c'', ''g''], NLink ''/o/f'') # demo_fs"

text \<open>With a link in the directory the check does not hold what it promises. A name through the link is refused,
  but behind a name that does not exist and two dots it is accepted, since these elements are only
  normalised as text; the save then writes a file outside. And the scan enters a linked file under its
  target's path, so that cleaning removes the expired file outside.\<close>

theorem link_escapes:
  "ValidatePath linked_fs demo_cache ''l/f'' = Inl PathTraversal \<and>
   ValidatePath linked_fs demo_cache ''n/../l/f'' = Inr [''c'', ''l'', ''f''] \<and>
   (case SaveFile demo_io ''n/../l/f'' [7] demo_cache linked_fs of
      (code, c, fs) \<Rightarrow> code = CacheOk \<and> node_at fs [''o'', ''f''] = Some (NFile [7] 100)) \<and>
   (case CleanExpiredFiles demo_io (\<lambda>_. 0) (RefreshIndex linked_fs demo_cache) linked_fs of
      (c, fs) \<Rightarrow> node_at linked_fs [''o'', ''f''] = Some (NFile [1] 0) \<and> node_at fs [''o'', ''f''] = None)"
  by code_simp

text \<open>A link outside to a file of the cache: a save under the absolute name of the link is accepted, and the cleaning
  later removes the link, outside the directory.\<close>

lemma absolute_link_removed:
  "let fs = ([''o'', ''l''], NLink ''/c/a'') # ([''c'', ''a''], NFile [] 0) # demo_fs;
       (code, c, fs) = SaveFile demo_io ''/o/l'' [1] demo_cache fs;
       (c, fs') = CleanExpiredFiles (demo_io\<lparr>io_now := 200\<rparr>) (\<lambda>_. 0) c fs
   in code = CacheOk \<and> node_at fs [''o'', ''l''] = Some (NLink ''/c/a'') \<and> node_at fs' [''o'', ''l''] = None"
  by code_simp

text \<open>Two dots behind a name that does not exist lead to the directory itself, which the check means to refuse: an
  empty cache directory is deleted.\<close>

lemma delete_removes_root:
  "case DeleteFile demo_io ''n/..'' demo_cache demo_fs of (code, c, fs) \<Rightarrow> code = CacheOk \<and> node_at fs [''c''] = None"
  by code_simp

text \<open>The index is keyed by the name as it was given, the scan by the normal path.\<close>

lemma exists_forgets_alias:
  "case SaveFile demo_io ''./a'' [1] demo_cache demo_fs of (code, c, fs) \<Rightarrow>
     mc_Exists fs c ''./a'' = Inr True \<and> mc_Exists fs (RefreshIndex fs c) ''./a'' = Inr False \<and>
     mc_Exists fs (RefreshIndex fs c) ''a'' = Inr True"
  by code_simp

text \<open>The size limit is in megabytes and wraps around: a large one means no limit.\<close>

lemma max_size_wraps: "config_max_size (JObject [(''max_file_size'', JUnsigned (2 ^ 44))]) def = 0"
  by (simp add: config_max_size_def)

text \<open>The temporary name of one file is the name of another, which is lost.\<close>

lemma save_loses_tmp:
  "case SaveFile demo_io ''a'' [1] demo_cache ((([''c'', ''a.tmp''], NFile [2] 0)) # demo_fs) of (code, c, fs) \<Rightarrow>
     code = CacheOk \<and> node_at fs [''c'', ''a.tmp''] = None"
  by code_simp

text \<open>With the root directory as the cache directory no name is accepted.\<close>

lemma slash_root_refuses: "fs_wf fs \<Longrightarrow> mc_root c = [] \<Longrightarrow> ValidatePath fs c name \<noteq> Inr p"
  using ValidatePath_cases [of fs c name p] by auto

section \<open>Witnesses\<close>

lemma demo_node_at: "node_at demo_fs p = (if p = [] \<or> p = [''c''] \<or> p = [''o''] then Some NDir
    else if p = [''o'', ''f''] then Some (NFile [1] 0) else None)"
  by (auto simp: node_at_def demo_fs_def)

lemma demo_fs_ok: "fs_ok (mc_root demo_cache) demo_fs"
proof -
  have "fs_wf demo_fs" by (simp add: fs_wf_def node_at_def demo_fs_def clean_def)
  then show ?thesis by (auto simp: fs_ok_def demo_cache_def demo_node_at clean_def strict_prefix_def prefix_def Cons_eq_append_conv)
qed




definition demo_init :: "CacheErrorCode \<times> MyCache \<times> fs" where
  "demo_init = mc_Init demo_io [''o''] (\<lambda>_. 0) (Some (JObject [(''root_path'', JString ''/c'')])) MyCache_ctor demo_fs"

definition demo_absolute :: "CacheErrorCode \<times> MyCache \<times> fs" where
  "demo_absolute = SaveFile demo_io ''/c/n/../a'' [1] (fst (snd demo_init)) (snd (snd demo_init))"

text \<open>A file saved under an absolute name with double dots; one outside is refused.\<close>

theorem cache_confined_witness:
  "fst demo_absolute = CacheOk \<and> node_at (snd (snd demo_absolute)) [''o'', ''f''] = Some (NFile [1] 0) \<and>
   fst (SaveFile demo_io ''/o/f'' [1] (fst (snd demo_init)) (snd (snd demo_init))) = PathTraversal"
proof -
  have i: "demo_init = (CacheOk, fst (snd demo_init), snd (snd demo_init))" "mc_status (fst (snd demo_init)) = StRunning"
    "mc_root (fst (snd demo_init)) = [''c'']" "snd (snd demo_init) = demo_fs" "link_free demo_fs"
    by code_simp+
  have a: "demo_absolute = (CacheOk, fst (snd demo_absolute), snd (snd demo_absolute))"
    "fst (SaveFile demo_io ''/o/f'' [1] (fst (snd demo_init)) (snd (snd demo_init))) = PathTraversal" by code_simp+
  have ok: "fs_ok [''c''] demo_fs" using demo_fs_ok by (simp add: demo_cache_def)
  have "cache_step (MyCache_ctor, demo_fs, []) (fst (snd demo_init), snd (snd demo_init), [])"
    using i(1,3,4) ok by (intro cache_step.init [of "[''o'']" demo_io "\<lambda>_. 0" "Some (JObject [(''root_path'', JString ''/c'')])" _ _ CacheOk])
      (simp_all only: demo_init_def [symmetric], simp_all add: clean_def)
  then have s0: "cache_step\<^sup>*\<^sup>* (MyCache_ctor, demo_fs, []) (fst (snd demo_init), snd (snd demo_init), [])" by blast
  have "cache_step (fst (snd demo_init), snd (snd demo_init), []) (fst (snd demo_absolute), snd (snd demo_absolute), [])"
  proof -
    have "SaveFile demo_io ''/c/n/../a'' [1] (fst (snd demo_init)) (snd (snd demo_init)) =
        (CacheOk, fst (snd demo_absolute), snd (snd demo_absolute))"
      using a(1) unfolding demo_absolute_def .
    then show ?thesis using i(4,5) by (intro cache_step.save [of "''/c/n/../a''" _ demo_io "[1]" _ CacheOk]) simp_all
  qed
  then have s1: "cache_step\<^sup>*\<^sup>* (fst (snd demo_init), snd (snd demo_init), [])
      (fst (snd demo_absolute), snd (snd demo_absolute), [])" by blast
  have wf: "fs_wf demo_fs" using ok by (simp add: fs_ok_def)
  show ?thesis using cache_confined [OF wf s0 s1] i a by (simp add: demo_node_at) (metis fst_conv)
qed


theorem failed_save_keeps_files_witness:
  "node_at (snd (snd (SaveFile (demo_io\<lparr>io_rename := False\<rparr>) ''x/a'' [1] demo_cache demo_fs))) [''o'', ''f''] = Some (NFile [1] 0)"
proof -
  let ?w = "demo_io\<lparr>io_rename := False\<rparr>"
  obtain code c' fs' where s: "SaveFile ?w ''x/a'' [1] demo_cache demo_fs = (code, c', fs')" by (metis prod.exhaust)
  have v: "ValidatePath demo_fs demo_cache ''x/a'' = Inr [''c'', ''x'', ''a'']" by code_simp
  have "fst (SaveFile ?w ''x/a'' [1] demo_cache demo_fs) = IoError" by code_simp
  then have "code \<noteq> CacheOk" using s by simp
  from failed_save_keeps_files [OF demo_fs_ok s this] v s show ?thesis
    by (auto simp: demo_node_at append_tmp_def demo_cache_def dest!: spec [of _ "[''o'', ''f'']"])
qed

theorem init_establishes_witness:
  "mc_status (fst (snd (mc_Init demo_io [''c''] (\<lambda>_. 0) (Some (JObject [(''root_path'', JString ''d/e'')])) MyCache_ctor demo_fs))) = StRunning"
proof -
  let ?i = "mc_Init demo_io [''c''] (\<lambda>_. 0) (Some (JObject [(''root_path'', JString ''d/e'')])) MyCache_ctor demo_fs"
  obtain code c' fs' where s: "?i = (code, c', fs')" by (metis prod.exhaust)
  have "fst ?i = CacheOk" by code_simp
  then have ok: "code = CacheOk" using s by simp
  have "fs_wf demo_fs" "list_all clean [''c'']" "mc_status MyCache_ctor \<noteq> StRunning"
    using demo_fs_ok by (simp_all add: fs_ok_def clean_def MyCache_ctor_def)
  from init_establishes [OF this s] ok s show ?thesis by simp
qed

theorem refresh_index_exact_witness:
  "map_of (mc_index (RefreshIndex demo_fs demo_cache)) (relative_string [''b'']) = None"
proof -
  have "list_all clean [''b'']" by (simp add: clean_def)
  from refresh_index_exact [OF demo_fs_ok this] show ?thesis by (simp add: demo_node_at demo_cache_def)
qed

end
