(* ===== verification/PodData.thy ===== *)
theory PodData
  imports Control
begin

text \<open>
  \<open>src/util/my_pod/common\<close>: the codes, states and values of the pods, and the names of their capabilities. A
  \<open>PodResult<void>\<close> is its code, a \<open>PodResult<T>\<close> its code with the data; messages are left out. A \<open>double\<close> is
  its 64 bits; of an error message only whether there is one is kept.
\<close>

type_synonym f64 = "64 word"

section \<open>Codes and states\<close>

datatype PodErrorCode =
    SUCCESS | UNKNOWN_ERROR | CONNECTION_FAILED | CONNECTION_TIMEOUT | ALREADY_CONNECTED | NOT_CONNECTED | DISCONNECT_FAILED
  | SESSION_ERROR | SESSION_NOT_INITIALIZED | SEND_FAILED | RECEIVE_FAILED
  | CAPABILITY_NOT_FOUND | CAPABILITY_NOT_SUPPORTED | CAPABILITY_INIT_FAILED
  | PTZ_CONTROL_FAILED | LASER_MEASURE_FAILED | STREAM_START_FAILED | STREAM_STOP_FAILED | IMAGE_CAPTURE_FAILED
  | CENTER_MEASURE_FAILED | POD_NOT_FOUND | POD_ALREADY_EXISTS

type_synonym 'a PodResult = "PodErrorCode \<times> 'a option"

definition isSuccess :: "'a PodResult \<Rightarrow> bool" where
  "isSuccess r \<longleftrightarrow> fst r = SUCCESS"

definition pod_success :: "'a \<Rightarrow> 'a PodResult" where
  "pod_success v = (SUCCESS, Some v)"

definition pod_fail :: "PodErrorCode \<Rightarrow> 'a PodResult" where
  "pod_fail c = (c, None)"

datatype PodVendor = UnknownVendor | DJI | PINLING

datatype PodState = DISCONNECTED | CONNECTING | CONNECTED | ERROR

datatype StreamType = UnknownStream | RTSP | RTMP | HLS | RAW

fun podVendorToString :: "PodVendor \<Rightarrow> string" where
  "podVendorToString DJI = ''DJI''"
| "podVendorToString PINLING = ''PINLING''"
| "podVendorToString UnknownVendor = ''UNKNOWN''"

fun podStateToString :: "PodState \<Rightarrow> string" where
  "podStateToString DISCONNECTED = [CHR 0xE5, CHR 0xB7, CHR 0xB2, CHR 0xE6, CHR 0x96, CHR 0xAD, CHR 0xE5, CHR 0xBC, CHR 0x80]"
| "podStateToString CONNECTING = [CHR 0xE8, CHR 0xBF, CHR 0x9E, CHR 0xE6, CHR 0x8E, CHR 0xA5, CHR 0xE4, CHR 0xB8, CHR 0xAD]"
| "podStateToString CONNECTED = [CHR 0xE5, CHR 0xB7, CHR 0xB2, CHR 0xE8, CHR 0xBF, CHR 0x9E, CHR 0xE6, CHR 0x8E, CHR 0xA5]"
| "podStateToString ERROR = [CHR 0xE5, CHR 0xBC, CHR 0x82, CHR 0xE5, CHR 0xB8, CHR 0xB8]"

fun streamTypeToString :: "StreamType \<Rightarrow> string" where
  "streamTypeToString RTSP = ''RTSP''"
| "streamTypeToString RTMP = ''RTMP''"
| "streamTypeToString HLS = ''HLS''"
| "streamTypeToString RAW = ''RAW''"
| "streamTypeToString UnknownStream = [CHR 0xE6, CHR 0x9C, CHR 0xAA, CHR 0xE7, CHR 0x9F, CHR 0xA5]"

section \<open>Capabilities\<close>

datatype CapabilityType = UnknownCapability | STATUS | HEARTBEAT | PTZ | LASER | STREAM | IMAGE | CENTER_MEASURE

fun capabilityTypeToString :: "CapabilityType \<Rightarrow> string" where
  "capabilityTypeToString STATUS = [CHR 0xE7, CHR 0x8A, CHR 0xB6, CHR 0xE6, CHR 0x80, CHR 0x81, CHR 0xE6, CHR 0x9F, CHR 0xA5, CHR 0xE8, CHR 0xAF, CHR 0xA2]"
| "capabilityTypeToString HEARTBEAT = [CHR 0xE5, CHR 0xBF, CHR 0x83, CHR 0xE8, CHR 0xB7, CHR 0xB3, CHR 0xE6, CHR 0xA3, CHR 0x80, CHR 0xE6, CHR 0xB5, CHR 0x8B]"
| "capabilityTypeToString PTZ = [CHR 0xE4, CHR 0xBA, CHR 0x91, CHR 0xE5, CHR 0x8F, CHR 0xB0, CHR 0xE6, CHR 0x8E, CHR 0xA7, CHR 0xE5, CHR 0x88, CHR 0xB6]"
| "capabilityTypeToString LASER = [CHR 0xE6, CHR 0xBF, CHR 0x80, CHR 0xE5, CHR 0x85, CHR 0x89, CHR 0xE6, CHR 0xB5, CHR 0x8B, CHR 0xE8, CHR 0xB7, CHR 0x9D]"
| "capabilityTypeToString STREAM = [CHR 0xE6, CHR 0xB5, CHR 0x81, CHR 0xE5, CHR 0xAA, CHR 0x92, CHR 0xE4, CHR 0xBD, CHR 0x93]"
| "capabilityTypeToString IMAGE = [CHR 0xE5, CHR 0x9B, CHR 0xBE, CHR 0xE5, CHR 0x83, CHR 0x8F, CHR 0xE6, CHR 0x8A, CHR 0x93, CHR 0xE6, CHR 0x8B, CHR 0x8D]"
| "capabilityTypeToString CENTER_MEASURE = [CHR 0xE4, CHR 0xB8, CHR 0xAD, CHR 0xE5, CHR 0xBF, CHR 0x83, CHR 0xE7, CHR 0x82, CHR 0xB9, CHR 0xE6, CHR 0xB5, CHR 0x8B, CHR 0xE9, CHR 0x87, CHR 0x8F]"
| "capabilityTypeToString UnknownCapability = [CHR 0xE6, CHR 0x9C, CHR 0xAA, CHR 0xE7, CHR 0x9F, CHR 0xA5, CHR 0xE8, CHR 0x83, CHR 0xBD, CHR 0xE5, CHR 0x8A, CHR 0x9B]"

fun capabilityTypeToKey :: "CapabilityType \<Rightarrow> string" where
  "capabilityTypeToKey STATUS = ''STATUS''"
| "capabilityTypeToKey HEARTBEAT = ''HEARTBEAT''"
| "capabilityTypeToKey PTZ = ''PTZ''"
| "capabilityTypeToKey LASER = ''LASER''"
| "capabilityTypeToKey STREAM = ''STREAM''"
| "capabilityTypeToKey IMAGE = ''IMAGE''"
| "capabilityTypeToKey CENTER_MEASURE = ''CENTER_MEASURE''"
| "capabilityTypeToKey UnknownCapability = ''UNKNOWN''"

definition normalizeCapabilityText :: "string \<Rightarrow> string" where
  "normalizeCapabilityText value = map ctolower (filter (\<lambda>ch. \<not> (cisspace ch \<or> ch = CHR ''_'' \<or> ch = CHR ''-'')) value)"

text \<open>\<open>None\<close>: the answer is false and the argument keeps its value.\<close>

definition capabilityTypeFromString :: "string \<Rightarrow> CapabilityType option" where
  "capabilityTypeFromString value =
     (let normalized = normalizeCapabilityText value in
      if normalized = [] then None
      else if normalized = ''status'' \<or> normalized = [CHR 0xE7, CHR 0x8A, CHR 0xB6, CHR 0xE6, CHR 0x80, CHR 0x81, CHR 0xE6, CHR 0x9F, CHR 0xA5, CHR 0xE8, CHR 0xAF, CHR 0xA2] then Some STATUS
      else if normalized = ''heartbeat'' \<or> normalized = [CHR 0xE5, CHR 0xBF, CHR 0x83, CHR 0xE8, CHR 0xB7, CHR 0xB3, CHR 0xE6, CHR 0xA3, CHR 0x80, CHR 0xE6, CHR 0xB5, CHR 0x8B] then Some HEARTBEAT
      else if normalized = ''ptz'' \<or> normalized = [CHR 0xE4, CHR 0xBA, CHR 0x91, CHR 0xE5, CHR 0x8F, CHR 0xB0, CHR 0xE6, CHR 0x8E, CHR 0xA7, CHR 0xE5, CHR 0x88, CHR 0xB6] then Some PTZ
      else if normalized = ''laser'' \<or> normalized = [CHR 0xE6, CHR 0xBF, CHR 0x80, CHR 0xE5, CHR 0x85, CHR 0x89, CHR 0xE6, CHR 0xB5, CHR 0x8B, CHR 0xE8, CHR 0xB7, CHR 0x9D] then Some LASER
      else if normalized = ''stream'' \<or> normalized = [CHR 0xE6, CHR 0xB5, CHR 0x81, CHR 0xE5, CHR 0xAA, CHR 0x92, CHR 0xE4, CHR 0xBD, CHR 0x93] then Some STREAM
      else if normalized = ''image'' \<or> normalized = [CHR 0xE5, CHR 0x9B, CHR 0xBE, CHR 0xE5, CHR 0x83, CHR 0x8F, CHR 0xE6, CHR 0x8A, CHR 0x93, CHR 0xE6, CHR 0x8B, CHR 0x8D] then Some IMAGE
      else if normalized = ''centermeasure'' \<or> normalized = [CHR 0xE4, CHR 0xB8, CHR 0xAD, CHR 0xE5, CHR 0xBF, CHR 0x83, CHR 0xE7, CHR 0x82, CHR 0xB9, CHR 0xE6, CHR 0xB5, CHR 0x8B, CHR 0xE9, CHR 0x87, CHR 0x8F] then Some CENTER_MEASURE
      else None)"

section \<open>Values\<close>

record PodInfo =
  pi_pod_id :: string
  pi_pod_name :: string
  pi_vendor :: PodVendor
  pi_model :: string
  pi_firmware_ver :: string
  pi_ip_address :: string
  pi_port :: u16
  pi_raw_config :: json

record PodStatus =
  ps_state :: PodState
  ps_temperature :: f64
  ps_voltage :: f64
  ps_uptime_ms :: u64
  ps_error :: bool

definition PodStatus_init :: PodStatus where
  "PodStatus_init = \<lparr>ps_state = DISCONNECTED, ps_temperature = 0, ps_voltage = 0, ps_uptime_ms = 0, ps_error = False\<rparr>"

record PTZPose =
  pz_yaw :: f64
  pz_pitch :: f64
  pz_roll :: f64
  pz_zoom :: f64

definition PTZPose_init :: PTZPose where
  "PTZPose_init = \<lparr>pz_yaw = 0, pz_pitch = 0, pz_roll = 0, pz_zoom = 0x3FF0000000000000\<rparr>"

record PTZCommand =
  pc_yaw_speed :: f64
  pc_pitch_speed :: f64
  pc_zoom_speed :: f64

record LaserInfo =
  li_is_valid :: bool
  li_distance :: f64
  li_latitude :: f64
  li_longitude :: f64
  li_altitude :: f64

definition LaserInfo_init :: LaserInfo where
  "LaserInfo_init = \<lparr>li_is_valid = False, li_distance = 0, li_latitude = 0, li_longitude = 0, li_altitude = 0\<rparr>"

record StreamInfo =
  si_type :: StreamType
  si_url :: string
  si_width :: i32
  si_height :: i32
  si_fps :: i32
  si_is_active :: bool

definition StreamInfo_init :: StreamInfo where
  "StreamInfo_init = \<lparr>si_type = UnknownStream, si_url = '''', si_width = 0, si_height = 0, si_fps = 0, si_is_active = False\<rparr>"

record ImageFrame =
  if_width :: i32
  if_height :: i32
  if_channels :: i32
  if_data :: "byte list"
  if_timestamp_ms :: u64
  if_format :: string

definition ImageFrame_init :: ImageFrame where
  "ImageFrame_init = \<lparr>if_width = 0, if_height = 0, if_channels = 3, if_data = [], if_timestamp_ms = 0, if_format = ''''\<rparr>"

record CenterMeasurementResult =
  cm_is_valid :: bool
  cm_distance :: f64
  cm_latitude :: f64
  cm_longitude :: f64
  cm_altitude :: f64
  cm_center_x :: f64
  cm_center_y :: f64

definition CenterMeasurementResult_init :: CenterMeasurementResult where
  "CenterMeasurementResult_init = \<lparr>cm_is_valid = False, cm_distance = 0, cm_latitude = 0, cm_longitude = 0, cm_altitude = 0,
     cm_center_x = 0, cm_center_y = 0\<rparr>"

record PodRuntimeStatus =
  rs_is_online :: bool
  rs_pod_status :: PodStatus
  rs_ptz_pose :: PTZPose
  rs_laser_info :: LaserInfo
  rs_stream_info :: StreamInfo
  rs_last_update_ms :: u64
  rs_online_update_ms :: u64
  rs_ptz_update_ms :: u64
  rs_laser_update_ms :: u64
  rs_stream_update_ms :: u64

definition PodRuntimeStatus_init :: PodRuntimeStatus where
  "PodRuntimeStatus_init = \<lparr>rs_is_online = False, rs_pod_status = PodStatus_init, rs_ptz_pose = PTZPose_init,
     rs_laser_info = LaserInfo_init, rs_stream_info = StreamInfo_init, rs_last_update_ms = 0, rs_online_update_ms = 0,
     rs_ptz_update_ms = 0, rs_laser_update_ms = 0, rs_stream_update_ms = 0\<rparr>"

record PodMonitorConfig =
  mg_poll_interval_ms :: u32
  mg_status_interval_ms :: u32
  mg_ptz_interval_ms :: u32
  mg_laser_interval_ms :: u32
  mg_stream_interval_ms :: u32
  mg_online_window_size :: u32
  mg_online_threshold :: u32
  mg_enable_status_poll :: bool
  mg_enable_ptz_poll :: bool
  mg_enable_laser_poll :: bool
  mg_enable_stream_poll :: bool
  mg_auto_start :: bool

definition PodMonitorConfig_init :: PodMonitorConfig where
  "PodMonitorConfig_init = \<lparr>mg_poll_interval_ms = 1000, mg_status_interval_ms = 5000, mg_ptz_interval_ms = 1000,
     mg_laser_interval_ms = 5000, mg_stream_interval_ms = 5000, mg_online_window_size = 3, mg_online_threshold = 2,
     mg_enable_status_poll = True, mg_enable_ptz_poll = True, mg_enable_laser_poll = False, mg_enable_stream_poll = True,
     mg_auto_start = True\<rparr>"

section \<open>Names of capabilities are read back\<close>

text \<open>Both names of a capability, in any case and with blanks, underscores and hyphens in it, are read as that
  capability.\<close>

lemma normalize_keys:
  "normalizeCapabilityText ''STATUS'' = ''status''"
  "normalizeCapabilityText ''HEARTBEAT'' = ''heartbeat''"
  "normalizeCapabilityText ''PTZ'' = ''ptz''"
  "normalizeCapabilityText ''LASER'' = ''laser''"
  "normalizeCapabilityText ''STREAM'' = ''stream''"
  "normalizeCapabilityText ''IMAGE'' = ''image''"
  "normalizeCapabilityText ''CENTER_MEASURE'' = ''centermeasure''"
  by (simp_all add: normalizeCapabilityText_def ctolower_def cisspace_def char_of_def bit_0)

lemma normalize_texts:
  "normalizeCapabilityText (capabilityTypeToString STATUS) = capabilityTypeToString STATUS"
  "normalizeCapabilityText (capabilityTypeToString HEARTBEAT) = capabilityTypeToString HEARTBEAT"
  "normalizeCapabilityText (capabilityTypeToString PTZ) = capabilityTypeToString PTZ"
  "normalizeCapabilityText (capabilityTypeToString LASER) = capabilityTypeToString LASER"
  "normalizeCapabilityText (capabilityTypeToString STREAM) = capabilityTypeToString STREAM"
  "normalizeCapabilityText (capabilityTypeToString IMAGE) = capabilityTypeToString IMAGE"
  "normalizeCapabilityText (capabilityTypeToString CENTER_MEASURE) = capabilityTypeToString CENTER_MEASURE"
  by (simp_all add: normalizeCapabilityText_def ctolower_def cisspace_def)

lemma capability_names:
  assumes "t \<noteq> UnknownCapability"
  shows "capabilityTypeFromString (capabilityTypeToKey t) = Some t"
    and "capabilityTypeFromString (capabilityTypeToString t) = Some t"
  using assms by (cases t; simp add: capabilityTypeFromString_def normalize_keys normalize_texts [simplified] Let_def)+

lemma capability_names_read_back:
  assumes "t \<noteq> UnknownCapability" and "normalizeCapabilityText s = normalizeCapabilityText n"
    and "n = capabilityTypeToKey t \<or> n = capabilityTypeToString t"
  shows "capabilityTypeFromString s = Some t"
  using capability_names [OF assms(1)] assms(2,3) by (auto simp: capabilityTypeFromString_def)

end
