(* ===== verification/PodMonitor.thy ===== *)
theory PodMonitor
  imports PodData
begin

text \<open>
  \<open>src/util/my_pod/monitor\<close>: the thread that polls a pod and keeps its last known data. What the pod answers comes
  in through functions on its state; \<open>None\<close> is an exception, which every poll catches. A pass reads the
  clock up to nine times.
\<close>

record PodMonitor =
  mn_config :: PodMonitorConfig
  mn_runtime :: PodRuntimeStatus
  mn_running :: bool
  mn_history :: "bool list"

definition PodMonitor_init :: PodMonitor where
  "PodMonitor_init = \<lparr>mn_config = PodMonitorConfig_init, mn_runtime = PodRuntimeStatus_init, mn_running = False, mn_history = []\<rparr>"

definition monitor_start :: "PodMonitorConfig \<Rightarrow> PodMonitor \<Rightarrow> PodMonitor" where
  "monitor_start config m =
     (if mn_running m then m
      else m\<lparr>mn_config := config, mn_runtime := PodRuntimeStatus_init, mn_history := [], mn_running := True\<rparr>)"

definition monitor_stop :: "PodMonitor \<Rightarrow> PodMonitor" where
  "monitor_stop m = (if \<not> mn_running m then m else m\<lparr>mn_running := False\<rparr>)"

definition updateConfig :: "PodMonitorConfig \<Rightarrow> PodMonitor \<Rightarrow> PodMonitor" where
  "updateConfig config m = m\<lparr>mn_config := config\<rparr>"

section \<open>Polls\<close>

fun trim_front :: "nat \<Rightarrow> 'a list \<Rightarrow> 'a list" where
  "trim_front n [] = []"
| "trim_front n (x # xs) = (if length (x # xs) > n then trim_front n xs else x # xs)"

definition updateOnlineWindow :: "bool \<Rightarrow> PodMonitor \<Rightarrow> PodMonitor" where
  "updateOnlineWindow ping_result m =
     (let h = trim_front (unat (mg_online_window_size (mn_config m))) (mn_history m @ [ping_result]);
          success_count = of_nat (length (filter (\<lambda>ok. ok) h)) :: u32
      in m\<lparr>mn_history := h, mn_runtime := (mn_runtime m)\<lparr>rs_is_online := success_count \<ge> mg_online_threshold (mn_config m)\<rparr>\<rparr>)"

definition ping_ok :: "PodStatus PodResult \<Rightarrow> bool" where
  "ping_ok result \<longleftrightarrow> isSuccess result \<and> (case snd result of Some s \<Rightarrow> ps_state s = CONNECTED | None \<Rightarrow> False)"

definition pollStatus :: "PodStatus PodResult option \<Rightarrow> u64 \<Rightarrow> PodMonitor \<Rightarrow> PodMonitor" where
  "pollStatus answer now m =
     (case answer of
        None \<Rightarrow> updateOnlineWindow False m
      | Some result \<Rightarrow>
          let m = updateOnlineWindow (ping_ok result) m;
              rt = mn_runtime m;
              st = (case result of (SUCCESS, Some s) \<Rightarrow> s | _ \<Rightarrow> rs_pod_status rt)
          in m\<lparr>mn_runtime := rt\<lparr>rs_pod_status := st\<lparr>ps_state := if rs_is_online rt then CONNECTED else DISCONNECTED\<rparr>,
                 rs_online_update_ms := now, rs_last_update_ms := now\<rparr>\<rparr>)"

definition pollPtz :: "PTZPose PodResult option \<Rightarrow> u64 \<Rightarrow> PodMonitor \<Rightarrow> PodMonitor" where
  "pollPtz answer now m =
     (case answer of
        Some (SUCCESS, Some pose) \<Rightarrow>
          m\<lparr>mn_runtime := (mn_runtime m)\<lparr>rs_ptz_pose := pose, rs_ptz_update_ms := now, rs_last_update_ms := now\<rparr>\<rparr>
      | _ \<Rightarrow> m)"

definition pollLaser :: "LaserInfo PodResult option \<Rightarrow> u64 \<Rightarrow> PodMonitor \<Rightarrow> PodMonitor" where
  "pollLaser answer now m =
     (case answer of
        Some (SUCCESS, Some info) \<Rightarrow>
          m\<lparr>mn_runtime := (mn_runtime m)\<lparr>rs_laser_info := info, rs_laser_update_ms := now, rs_last_update_ms := now\<rparr>\<rparr>
      | _ \<Rightarrow> m)"

definition pollStream :: "StreamInfo PodResult option \<Rightarrow> u64 \<Rightarrow> PodMonitor \<Rightarrow> PodMonitor" where
  "pollStream answer now m =
     (case answer of
        Some (SUCCESS, Some info) \<Rightarrow>
          m\<lparr>mn_runtime := (mn_runtime m)\<lparr>rs_stream_info := info, rs_stream_update_ms := now, rs_last_update_ms := now\<rparr>\<rparr>
      | _ \<Rightarrow> m)"

section \<open>The loop\<close>

text \<open>The times of the last polls, which are local to the loop.\<close>

record poll_times =
  last_status_time :: u64
  last_ptz_time :: u64
  last_laser_time :: u64
  last_stream_time :: u64

definition poll_times_init :: poll_times where
  "poll_times_init = \<lparr>last_status_time = 0, last_ptz_time = 0, last_laser_time = 0, last_stream_time = 0\<rparr>"

definition due :: "bool \<Rightarrow> u64 \<Rightarrow> u64 \<Rightarrow> u32 \<Rightarrow> bool" where
  "due enabled now prev interval \<longleftrightarrow> enabled \<and> now - prev \<ge> ucast interval"

text \<open>What the loop calls on the pod; the first function is \<open>refreshDeviceStatus\<close> followed by \<open>getDeviceStatus\<close>.\<close>

record 'p polled_pod =
  call_status :: "'p \<Rightarrow> PodStatus PodResult option \<times> 'p"
  call_pose :: "'p \<Rightarrow> PTZPose PodResult option \<times> 'p"
  call_laser :: "'p \<Rightarrow> LaserInfo PodResult option \<times> 'p"
  call_stream :: "'p \<Rightarrow> StreamInfo PodResult option \<times> 'p"

text \<open>One poll: \<open>ask\<close> the pod, unless the poll needs a pod that is online, and \<open>store\<close> the answer.\<close>

definition poll_with :: "('p \<Rightarrow> 'a \<times> 'p) \<Rightarrow> ('a \<Rightarrow> u64 \<Rightarrow> PodMonitor \<Rightarrow> PodMonitor) \<Rightarrow> bool \<Rightarrow> u64 \<Rightarrow> PodMonitor \<times> 'p \<Rightarrow> PodMonitor \<times> 'p" where
  "poll_with ask store only_online now = (\<lambda>(m, p).
     if only_online \<and> \<not> rs_is_online (mn_runtime m) then (m, p)
     else case ask p of (answer, p) \<Rightarrow> (store answer now m, p))"

definition monitor_pass :: "'p polled_pod \<Rightarrow> (nat \<Rightarrow> u64) \<Rightarrow> poll_times \<Rightarrow> PodMonitor \<Rightarrow> 'p \<Rightarrow> poll_times \<times> PodMonitor \<times> 'p" where
  "monitor_pass pod clock t m p =
     (let cfg = mn_config m; now = clock 0;
          (t, s) = (if due (mg_enable_status_poll cfg) now (last_status_time t) (mg_status_interval_ms cfg)
             then (t\<lparr>last_status_time := clock 2\<rparr>, poll_with (call_status pod) pollStatus False (clock 1) (m, p)) else (t, m, p));
          (t, s) = (if due (mg_enable_ptz_poll cfg) now (last_ptz_time t) (mg_ptz_interval_ms cfg)
             then (t\<lparr>last_ptz_time := clock 4\<rparr>, poll_with (call_pose pod) pollPtz True (clock 3) s) else (t, s));
          (t, s) = (if due (mg_enable_laser_poll cfg) now (last_laser_time t) (mg_laser_interval_ms cfg)
             then (t\<lparr>last_laser_time := clock 6\<rparr>, poll_with (call_laser pod) pollLaser True (clock 5) s) else (t, s));
          (t, s) = (if due (mg_enable_stream_poll cfg) now (last_stream_time t) (mg_stream_interval_ms cfg)
             then (t\<lparr>last_stream_time := clock 8\<rparr>, poll_with (call_stream pod) pollStream False (clock 7) s) else (t, s))
      in (t, s))"

text \<open>The sleep between two passes: the slices it sleeps, given what the loads of \<open>running_\<close> answer. \<open>None\<close>: it
  still sleeps when the observations end.\<close>

fun sleep_slices :: "u32 \<Rightarrow> u32 \<Rightarrow> bool list \<Rightarrow> u32 list option" where
  "sleep_slices poll_interval slept [] = (if slept < poll_interval then None else Some [])"
| "sleep_slices poll_interval slept (running # obs) =
     (if slept < poll_interval \<and> running
      then map_option ((#) (min 100 (poll_interval - slept))) (sleep_slices poll_interval (slept + 100) obs)
      else Some [])"

section \<open>Sleeping\<close>

lemma sleep_from:
  assumes "unat poll \<le> 2 ^ 32 - 100" and "unat slept \<le> unat poll + 99" and "unat poll \<le> unat slept + 100 * n"
  shows "\<exists>ds. sleep_slices poll slept (replicate n True) = Some ds \<and> sum_list (map unat ds) = unat poll - unat slept \<and>
    (\<forall>d \<in> set ds. unat d \<le> 100)"
  using assms(2,3)
proof (induction n arbitrary: slept)
  case (Suc n)
  show ?case
  proof (cases "slept < poll")
    case True
    then have lt: "unat slept < unat poll" by (simp add: word_less_nat_alt)
    have s: "unat (slept + 100) = unat slept + 100"
      using lt assms(1) by (subst unat_add_lem [THEN iffD1]) simp_all
    have d: "unat (poll - slept) = unat poll - unat slept" using True by (simp add: unat_sub order_less_imp_le)
    have m: "unat (min 100 (poll - slept)) = min 100 (unat poll - unat slept)"
      using d by (simp add: min_def word_le_nat_alt)
    obtain ds where ds: "sleep_slices poll (slept + 100) (replicate n True) = Some ds"
        "sum_list (map unat ds) = unat poll - unat (slept + 100)" "\<forall>d \<in> set ds. unat d \<le> 100"
      using Suc.IH [of "slept + 100"] Suc.prems lt s by auto
    then show ?thesis using True lt s m by (auto simp: min_def)
  next
    case False
    then show ?thesis by (simp add: word_less_nat_alt)
  qed
qed (auto simp: word_less_nat_alt)

lemma sleep_stopped:
  "\<exists>ds. sleep_slices poll slept (replicate k True @ False # obs) = Some ds \<and> length ds \<le> k"
proof (induction k arbitrary: slept)
  case (Suc k)
  then obtain ds where "sleep_slices poll (slept + 100) (replicate k True @ False # obs) = Some ds" "length ds \<le> k" by blast
  then show ?case by simp
qed simp

text \<open>The sleep between two passes of the monitor ends. For an interval of at most \<open>2 ^ 32 - 100\<close> milliseconds
  it sleeps exactly the interval, in slices of at most 100; and whatever the interval, a stop that is
  seen after \<open>k\<close> slices ends it there.\<close>

theorem monitor_sleep:
  assumes "unat poll \<le> 2 ^ 32 - 100" and "unat poll \<le> 100 * n"
  shows "(\<exists>ds. sleep_slices poll 0 (replicate n True) = Some ds \<and> sum_list (map unat ds) = unat poll \<and> (\<forall>d \<in> set ds. unat d \<le> 100)) \<and>
    (\<exists>ds. sleep_slices q slept (replicate k True @ False # obs) = Some ds \<and> length ds \<le> k)"
  using sleep_from [of poll 0 n] sleep_stopped [of q slept k obs] assms by simp

section \<open>A pass and the pod\<close>

text \<open>A pass changes the pod by its calls only: what all of them keep is kept.\<close>

lemma poll_with_pod:
  assumes "\<And>p. R p p" "\<And>p. R p (snd (ask p))"
  shows "R (snd s) (snd (poll_with ask store only_online now s))"
  using assms by (cases s) (simp add: poll_with_def case_prod_unfold)

lemma monitor_pass_pod:
  assumes refl: "\<And>p. R p p" and trans: "\<And>p q r. R p q \<Longrightarrow> R q r \<Longrightarrow> R p r"
    and calls: "\<And>p. R p (snd (call_status pod p))" "\<And>p. R p (snd (call_pose pod p))" "\<And>p. R p (snd (call_laser pod p))"
      "\<And>p. R p (snd (call_stream pod p))"
    and pass: "monitor_pass pod clock t m p = (t', m', p')"
  shows "R p p'"
proof -
  have poll: "R q0 q1"
    if "(if b then (t1, poll_with ask store only_online now (m0, q0)) else (t2, m0, q0)) = (t0, m1, q1)" "\<And>p. R p (snd (ask p))"
    for b t0 t1 t2 ask store only_online now m0 m1 q0 q1
    using that poll_with_pod [of R ask "(m0, q0)" store only_online now] refl by (auto split: if_splits)
  obtain q1 q2 q3 where "R p q1" "R q1 q2" "R q2 q3" "R q3 p'"
    using pass unfolding monitor_pass_def Let_def
    by (auto split: prod.splits dest!: poll [OF _ calls(1)] poll [OF _ calls(2)] poll [OF _ calls(3)] poll [OF _ calls(4)])
  then show ?thesis using trans by blast
qed

section \<open>The online window\<close>

datatype monitor_event =
    StatusPoll "PodStatus PodResult option" u64
  | PtzPoll "PTZPose PodResult option" u64
  | LaserPoll "LaserInfo PodResult option" u64
  | StreamPoll "StreamInfo PodResult option" u64

fun monitor_event_step :: "monitor_event \<Rightarrow> PodMonitor \<Rightarrow> PodMonitor" where
  "monitor_event_step (StatusPoll a t) m = pollStatus a t m"
| "monitor_event_step (PtzPoll a t) m = (if rs_is_online (mn_runtime m) then pollPtz a t m else m)"
| "monitor_event_step (LaserPoll a t) m = (if rs_is_online (mn_runtime m) then pollLaser a t m else m)"
| "monitor_event_step (StreamPoll a t) m = pollStream a t m"

text \<open>The answers to the status polls, an exception counting as a failure, and the last pose and range that the pod
  gave while it was online.\<close>

fun pings :: "monitor_event list \<Rightarrow> bool list" where
  "pings [] = []"
| "pings (StatusPoll a t # evs) = (case a of None \<Rightarrow> False | Some r \<Rightarrow> ping_ok r) # pings evs"
| "pings (_ # evs) = pings evs"

definition last_n :: "nat \<Rightarrow> 'a list \<Rightarrow> 'a list" where
  "last_n n xs = drop (length xs - n) xs"

lemma trim_front_last_n: "trim_front n xs = last_n n xs"
  by (induction xs) (auto simp: last_n_def Suc_diff_le not_less)

lemma last_n_snoc: "last_n n (last_n n xs @ [x]) = last_n n (xs @ [x])"
  by (cases "length xs < n") (auto simp: last_n_def Suc_diff_le split: nat_diff_split)

lemma length_last_n [simp]: "length (last_n n xs) = min (length xs) n"
  by (simp add: last_n_def)

lemma pings_append: "pings (xs @ ys) = pings xs @ pings ys"
  by (induction xs rule: pings.induct) simp_all

lemma updateOnlineWindow_keeps [simp]:
  "mn_config (updateOnlineWindow b m) = mn_config m"
  "mn_history (updateOnlineWindow b m) = last_n (unat (mg_online_window_size (mn_config m))) (mn_history m @ [b])"
  by (simp_all add: updateOnlineWindow_def trim_front_last_n Let_def)

lemma updateOnlineWindow_online:
  "rs_is_online (mn_runtime (updateOnlineWindow b m)) \<longleftrightarrow>
     unat (mg_online_threshold (mn_config m)) \<le> length (filter (\<lambda>ok. ok) (mn_history (updateOnlineWindow b m)))"
proof -
  let ?h = "mn_history (updateOnlineWindow b m)"
  have "length (filter (\<lambda>ok. ok) ?h) \<le> unat (mg_online_window_size (mn_config m))"
    using length_filter_le [of "\<lambda>ok. ok" ?h] by simp
  moreover have "unat (mg_online_window_size (mn_config m)) < 2 ^ 32"
    using unsigned_less [of "mg_online_window_size (mn_config m)"] by simp
  ultimately have "length (filter (\<lambda>ok. ok) ?h) < 2 ^ 32" by (rule le_less_trans)
  then have "unat (of_nat (length (filter (\<lambda>ok. ok) ?h)) :: u32) = length (filter (\<lambda>ok. ok) ?h)"
    by (simp add: unsigned_of_nat take_bit_nat_eq_self)
  then show ?thesis by (simp add: updateOnlineWindow_def trim_front_last_n Let_def word_le_nat_alt)
qed

lemma pollStatus_window:
  "mn_config (pollStatus a t m) = mn_config m"
  "mn_history (pollStatus a t m) = last_n (unat (mg_online_window_size (mn_config m)))
     (mn_history m @ [case a of None \<Rightarrow> False | Some r \<Rightarrow> ping_ok r])"
  "rs_is_online (mn_runtime (pollStatus a t m)) \<longleftrightarrow>
     unat (mg_online_threshold (mn_config m)) \<le> length (filter (\<lambda>ok. ok) (mn_history (pollStatus a t m)))"
  using updateOnlineWindow_online by (auto simp: pollStatus_def Let_def split: option.split)

lemma other_polls_window [simp]:
  "mn_config (pollPtz p t m) = mn_config m" "mn_history (pollPtz p t m) = mn_history m"
  "rs_is_online (mn_runtime (pollPtz p t m)) = rs_is_online (mn_runtime m)"
  "mn_config (pollLaser l t m) = mn_config m" "mn_history (pollLaser l t m) = mn_history m"
  "rs_is_online (mn_runtime (pollLaser l t m)) = rs_is_online (mn_runtime m)"
  "mn_config (pollStream s t m) = mn_config m" "mn_history (pollStream s t m) = mn_history m"
  "rs_is_online (mn_runtime (pollStream s t m)) = rs_is_online (mn_runtime m)"
  by (simp_all add: pollPtz_def pollLaser_def pollStream_def split: option.split prod.split PodErrorCode.split)

text \<open>C34: After a start the monitor counts a pod as online exactly when enough of the last answers to status polls
  said that it is connected: the window holds the last \<open>online_window_size\<close> of them, whatever other polls
  happen in between, and an exception counts as a failure. Before the first answer the pod is offline. The
  configuration is the one of the start: \<open>updateConfig\<close>, which nothing in the repository calls, is no event here.\<close>

theorem monitor_online_window:
  assumes "\<not> mn_running m"
  shows "let m' = fold monitor_event_step evs (monitor_start c m);
             w = last_n (unat (mg_online_window_size c)) (pings evs)
         in mn_history m' = w \<and>
            (rs_is_online (mn_runtime m') \<longleftrightarrow> pings evs \<noteq> [] \<and> unat (mg_online_threshold c) \<le> length (filter (\<lambda>ok. ok) w))"
proof -
  let ?m = "\<lambda>evs. fold monitor_event_step evs (monitor_start c m)"
  let ?w = "\<lambda>evs. last_n (unat (mg_online_window_size c)) (pings evs)"
  have "mn_config (?m evs) = c \<and> mn_history (?m evs) = ?w evs \<and>
    (rs_is_online (mn_runtime (?m evs)) \<longleftrightarrow> pings evs \<noteq> [] \<and> unat (mg_online_threshold c) \<le> length (filter (\<lambda>ok. ok) (?w evs)))"
  proof (induction evs rule: rev_induct)
    case Nil
    show ?case using assms by (simp add: monitor_start_def PodRuntimeStatus_init_def last_n_def)
  next
    case (snoc e evs)
    then show ?case by (cases e) (simp_all add: pings_append pollStatus_window last_n_snoc)
  qed
  then show ?thesis by (simp add: Let_def)
qed

text \<open>An exception can take a pod offline and leave its recorded state as it was.\<close>

lemma exception_leaves_state: "rs_pod_status (mn_runtime (pollStatus None t m)) = rs_pod_status (mn_runtime m)"
  by (simp add: pollStatus_def updateOnlineWindow_def Let_def)

section \<open>Witnesses\<close>

theorem monitor_sleep_witness:
  "\<exists>ds. sleep_slices 250 0 (replicate 3 True) = Some ds \<and> sum_list (map unat ds) = 250 \<and> (\<forall>d \<in> set ds. unat d \<le> 100)"
  using monitor_sleep [of 250 3 0 0 0 "[]"] by simp

theorem monitor_online_window_witness:
  "\<not> rs_is_online (mn_runtime (fold monitor_event_step
       [StatusPoll (Some (SUCCESS, Some (PodStatus_init\<lparr>ps_state := CONNECTED\<rparr>))) 1, StatusPoll None 2]
       (monitor_start PodMonitorConfig_init PodMonitor_init)))"
  using monitor_online_window [of PodMonitor_init
      "[StatusPoll (Some (SUCCESS, Some (PodStatus_init\<lparr>ps_state := CONNECTED\<rparr>))) 1, StatusPoll None 2]" PodMonitorConfig_init]
  by (simp add: PodMonitor_init_def PodMonitorConfig_init_def ping_ok_def isSuccess_def last_n_def PodStatus_init_def Let_def)

end
