(* ===== verification/ViewLink.thy ===== *)
theory ViewLink
  imports PodData
begin

text \<open>
  \<open>src/util/my_pod/pod/pinling/ViewLinkClient.cpp\<close>: the wrapper of the ViewLink SDK. What the calls of the SDK
  answer is an argument, its callbacks are events. The calls that only forward a command to the SDK are
  the constructors of \<open>vlk_call\<close>.
\<close>

record Attitude =
  at_yaw :: f64
  at_pitch :: f64
  at_roll :: f64
  at_valid :: bool

record TelemetrySnapshot =
  te_attitude :: Attitude
  te_sensor_type :: i32
  te_tracker_status :: i32
  te_target_lat :: f64
  te_target_lng :: f64
  te_target_alt :: f64
  te_drone_lat :: f64
  te_drone_lng :: f64
  te_drone_alt :: f64
  te_horizontal_fov :: f64
  te_vertical_fov :: f64
  te_eo_digital_zoom :: i32
  te_ir_digital_zoom :: i32
  te_zoom_magnification :: f64
  te_laser_distance :: i16
  te_ir_color :: i32
  te_record_mode :: i32
  te_valid :: bool

definition TelemetrySnapshot_init :: TelemetrySnapshot where
  "TelemetrySnapshot_init = \<lparr>te_attitude = \<lparr>at_yaw = 0, at_pitch = 0, at_roll = 0, at_valid = False\<rparr>, te_sensor_type = 0,
     te_tracker_status = 0, te_target_lat = 0, te_target_lng = 0, te_target_alt = 0, te_drone_lat = 0, te_drone_lng = 0,
     te_drone_alt = 0, te_horizontal_fov = 0, te_vertical_fov = 0, te_eo_digital_zoom = 0, te_ir_digital_zoom = 0,
     te_zoom_magnification = 0, te_laser_distance = 0, te_ir_color = 0, te_record_mode = 0, te_valid = False\<rparr>"

record DeviceModelInfo =
  mi_model_code :: i32
  mi_model_name :: string
  mi_valid :: bool

definition DeviceModelInfo_init :: DeviceModelInfo where
  "DeviceModelInfo_init = \<lparr>mi_model_code = 0, mi_model_name = '''', mi_valid = False\<rparr>"

record DeviceConfigInfo =
  ci_version_no :: string
  ci_device_id :: string
  ci_serial_no :: string
  ci_valid :: bool

definition DeviceConfigInfo_init :: DeviceConfigInfo where
  "DeviceConfigInfo_init = \<lparr>ci_version_no = '''', ci_device_id = '''', ci_serial_no = '''', ci_valid = False\<rparr>"

record ViewLinkClient =
  vc_initialized :: bool
  vc_connected :: bool
  vc_tcp_connected :: bool
  vc_serial_connected :: bool
  vc_telemetry :: TelemetrySnapshot
  vc_model_info :: DeviceModelInfo
  vc_config_info :: DeviceConfigInfo
  vc_telemetry_cb :: bool

definition ViewLinkClient_init :: ViewLinkClient where
  "ViewLinkClient_init = \<lparr>vc_initialized = False, vc_connected = False, vc_tcp_connected = False, vc_serial_connected = False,
     vc_telemetry = TelemetrySnapshot_init, vc_model_info = DeviceModelInfo_init, vc_config_info = DeviceConfigInfo_init,
     vc_telemetry_cb = False\<rparr>"

section \<open>Life cycle\<close>

text \<open>\<open>False\<close> is the exception.\<close>

definition vlk_Initialize :: "bool \<Rightarrow> ViewLinkClient \<Rightarrow> bool \<times> ViewLinkClient" where
  "vlk_Initialize vlk_init_ok c =
     (if vc_initialized c then (True, c)
      else if \<not> vlk_init_ok then (False, c)
      else (True, c\<lparr>vc_initialized := True\<rparr>))"

definition vlk_Disconnect :: "ViewLinkClient \<Rightarrow> ViewLinkClient" where
  "vlk_Disconnect c = c\<lparr>vc_connected := False, vc_tcp_connected := False, vc_serial_connected := False\<rparr>"

definition vlk_Shutdown :: "ViewLinkClient \<Rightarrow> ViewLinkClient" where
  "vlk_Shutdown c =
     (if \<not> vc_initialized c then c
      else (vlk_Disconnect c)\<lparr>vc_telemetry := TelemetrySnapshot_init, vc_model_info := DeviceModelInfo_init,
             vc_config_info := DeviceConfigInfo_init, vc_initialized := False\<rparr>)"

section \<open>Callbacks\<close>

datatype conn_status = TcpConnected | TcpDisconnected | SerialConnected | SerialDisconnected | OtherStatus

fun OnConnectionStatus :: "conn_status \<Rightarrow> ViewLinkClient \<Rightarrow> ViewLinkClient" where
  "OnConnectionStatus TcpConnected c = c\<lparr>vc_tcp_connected := True, vc_connected := True\<rparr>"
| "OnConnectionStatus TcpDisconnected c = c\<lparr>vc_tcp_connected := False, vc_connected := vc_serial_connected c\<rparr>"
| "OnConnectionStatus SerialConnected c = c\<lparr>vc_serial_connected := True, vc_connected := True\<rparr>"
| "OnConnectionStatus SerialDisconnected c = c\<lparr>vc_serial_connected := False, vc_connected := vc_tcp_connected c\<rparr>"
| "OnConnectionStatus OtherStatus c = c\<lparr>vc_connected := False, vc_tcp_connected := False, vc_serial_connected := False\<rparr>"

datatype vlk_event =
    ConnEvent conn_status
  | ModelEvent i32 string
  | ConfigEvent string string string
  | TelemetryEvent TelemetrySnapshot

text \<open>The state after a callback, and what the telemetry callback of the owner is called with. The names end at the
  first zero byte.\<close>

definition c_text :: "string \<Rightarrow> string" where
  "c_text = takeWhile (\<lambda>ch. ch \<noteq> CHR 0x00)"

fun on_event :: "vlk_event \<Rightarrow> ViewLinkClient \<Rightarrow> TelemetrySnapshot option \<times> ViewLinkClient" where
  "on_event (ConnEvent st) c = (None, OnConnectionStatus st c)"
| "on_event (ModelEvent code name) c =
     (None, c\<lparr>vc_model_info := \<lparr>mi_model_code = code, mi_model_name = c_text name, mi_valid = True\<rparr>\<rparr>)"
| "on_event (ConfigEvent version device serial) c =
     (None, c\<lparr>vc_config_info := \<lparr>ci_version_no = c_text version, ci_device_id = c_text device, ci_serial_no = c_text serial,
        ci_valid = True\<rparr>\<rparr>)"
| "on_event (TelemetryEvent t) c =
     (let t = t\<lparr>te_attitude := (te_attitude t)\<lparr>at_valid := True\<rparr>, te_valid := True\<rparr>
      in (if vc_telemetry_cb c then Some t else None, c\<lparr>vc_telemetry := t\<rparr>))"

definition GetConnectionTypeName :: "ViewLinkClient \<Rightarrow> string" where
  "GetConnectionTypeName c = (if vc_tcp_connected c then ''TCP'' else if vc_serial_connected c then ''Serial'' else ''None'')"

section \<open>Commands\<close>

text \<open>What the client passes on to the SDK as it gets it.\<close>

datatype vlk_call =
    VLK_Move i16 i16
  | VLK_Stop
  | VLK_Home
  | VLK_TurnTo f64 f64
  | VLK_ZoomIn i16
  | VLK_ZoomOut i16
  | VLK_StopZoom
  | VLK_ZoomTo u32

section \<open>The connection flags\<close>

text \<open>The client is connected exactly when one of its links is, and only while the SDK runs.\<close>

definition vlk_inv :: "ViewLinkClient \<Rightarrow> bool" where
  "vlk_inv c \<longleftrightarrow> (vc_connected c \<longleftrightarrow> vc_tcp_connected c \<or> vc_serial_connected c) \<and> (vc_connected c \<longrightarrow> vc_initialized c) \<and>
     (te_valid (vc_telemetry c) \<longrightarrow> vc_initialized c)"

lemma vlk_inv_init [simp]: "vlk_inv ViewLinkClient_init"
  by (simp add: vlk_inv_def ViewLinkClient_init_def TelemetrySnapshot_init_def)

lemma vlk_inv_Initialize: "vlk_inv c \<Longrightarrow> vlk_inv (snd (vlk_Initialize ok c))"
  by (auto simp: vlk_inv_def vlk_Initialize_def)

lemma vlk_inv_Disconnect: "vlk_inv c \<Longrightarrow> vlk_inv (vlk_Disconnect c)"
  by (simp add: vlk_inv_def vlk_Disconnect_def)

lemma vlk_Shutdown_off: "vlk_inv c \<Longrightarrow> vlk_inv (vlk_Shutdown c) \<and> \<not> vc_initialized (vlk_Shutdown c) \<and> \<not> vc_connected (vlk_Shutdown c)"
  by (auto simp: vlk_inv_def vlk_Shutdown_def vlk_Disconnect_def TelemetrySnapshot_init_def)

lemma vlk_inv_status: "vlk_inv c \<Longrightarrow> vc_initialized c \<Longrightarrow>
    vlk_inv (OnConnectionStatus st c) \<and> vc_initialized (OnConnectionStatus st c)"
  by (cases st) (auto simp: vlk_inv_def)

lemma vlk_inv_event: "vlk_inv c \<Longrightarrow> vc_initialized c \<Longrightarrow> vlk_inv (snd (on_event e c)) \<and> vc_initialized (snd (on_event e c))"
  by (induction e c rule: on_event.induct) (use vlk_inv_status in \<open>auto simp: vlk_inv_def Let_def\<close>)

end
