(* ===== verification/Pod.thy ===== *)
theory Pod
  imports PodMonitor ViewLink
begin

text \<open>
  \<open>src/util/my_pod/session\<close> and \<open>src/util/my_pod/pod\<close>: the sessions, the base class of the pods and the classes \<open>DjiPod\<close> and
  \<open>PinlingPod\<close>. \<open>PinlingPod\<close> extends the record of the base class; the operations of the base class work on
  both. A call that may throw answers \<open>Inl\<close> of the exception. What the network, the clock and the SDK
  answer is an argument; the removal of the log directory of the SDK and the waiting times are left out.
  The calls of a pod are taken one after the other.
\<close>

section \<open>Sessions\<close>

datatype session_class = BaseSession | DjiSession | PinlingSession

record Session =
  se_class :: session_class
  se_host :: string
  se_port :: u16
  se_connected :: bool

definition Session_ctor :: "session_class \<Rightarrow> Session" where
  "Session_ctor cls = \<lparr>se_class = cls, se_host = '''', se_port = 0, se_connected = False\<rparr>"

fun doConnect :: "session_class \<Rightarrow> string \<Rightarrow> u16 \<Rightarrow> PodErrorCode" where
  "doConnect BaseSession host port = SUCCESS"
| "doConnect DjiSession host port = SUCCESS"
| "doConnect PinlingSession host port = SUCCESS"

fun doDisconnect :: "session_class \<Rightarrow> PodErrorCode" where
  "doDisconnect BaseSession = SUCCESS"
| "doDisconnect DjiSession = SUCCESS"
| "doDisconnect PinlingSession = SUCCESS"

fun doSend :: "session_class \<Rightarrow> byte list \<Rightarrow> PodErrorCode" where
  "doSend BaseSession data = SUCCESS"
| "doSend DjiSession data = SUCCESS"
| "doSend PinlingSession data = SUCCESS"

fun doReceive :: "session_class \<Rightarrow> u32 \<Rightarrow> byte list PodResult" where
  "doReceive BaseSession timeout_ms = pod_success [0x00]"
| "doReceive DjiSession timeout_ms = pod_success [0xAA, 0xBB]"
| "doReceive PinlingSession timeout_ms = pod_success []"

definition session_connect :: "string \<Rightarrow> u16 \<Rightarrow> Session \<Rightarrow> PodErrorCode \<times> Session" where
  "session_connect host port s =
     (if se_connected s then (ALREADY_CONNECTED, s)
      else
        let s = s\<lparr>se_host := host, se_port := port\<rparr>; result = doConnect (se_class s) host port
        in if result = SUCCESS then (result, s\<lparr>se_connected := True\<rparr>) else (result, s))"

definition session_disconnect :: "Session \<Rightarrow> PodErrorCode \<times> Session" where
  "session_disconnect s =
     (if \<not> se_connected s then (NOT_CONNECTED, s) else (doDisconnect (se_class s), s\<lparr>se_connected := False\<rparr>))"

definition sendRequest :: "byte list \<Rightarrow> Session \<Rightarrow> PodErrorCode" where
  "sendRequest data s = (if \<not> se_connected s then NOT_CONNECTED else doSend (se_class s) data)"

definition receiveResponse :: "u32 \<Rightarrow> Session \<Rightarrow> byte list PodResult" where
  "receiveResponse timeout_ms s = (if \<not> se_connected s then pod_fail NOT_CONNECTED else doReceive (se_class s) timeout_ms)"

definition session_request :: "byte list \<Rightarrow> u32 \<Rightarrow> Session \<Rightarrow> byte list PodResult" where
  "session_request req timeout_ms s =
     (let sent = sendRequest req s in if sent \<noteq> SUCCESS then pod_fail sent else receiveResponse timeout_ms s)"

section \<open>The base class\<close>

record BasePod =
  pd_info :: PodInfo
  pd_state :: PodState
  pd_session :: "Session option"
  pd_monitor :: PodMonitor
  pd_capability_configs :: json
  pd_cached_status :: PodStatus
  pd_alive :: bool
  pd_heartbeat_running :: bool
  pd_heartbeat_interval_ms :: u32
  pd_current_pose :: PTZPose
  pd_laser_enabled :: bool
  pd_last_laser_measurement :: LaserInfo
  pd_streaming :: bool
  pd_current_stream :: StreamInfo
  pd_last_center_result :: CenterMeasurementResult
  pd_continuous_measure_running :: bool
  pd_measure_interval_ms :: u32

definition BasePod_ctor :: "PodInfo \<Rightarrow> BasePod" where
  "BasePod_ctor info = \<lparr>pd_info = info, pd_state = DISCONNECTED, pd_session = None, pd_monitor = PodMonitor_init,
     pd_capability_configs = JNull, pd_cached_status = PodStatus_init, pd_alive = False, pd_heartbeat_running = False,
     pd_heartbeat_interval_ms = 1000, pd_current_pose = PTZPose_init, pd_laser_enabled = False,
     pd_last_laser_measurement = LaserInfo_init, pd_streaming = False, pd_current_stream = StreamInfo_init,
     pd_last_center_result = CenterMeasurementResult_init, pd_continuous_measure_running = False, pd_measure_interval_ms = 500\<rparr>"

definition resetRuntimeState :: "'a BasePod_scheme \<Rightarrow> 'a BasePod_scheme" where
  "resetRuntimeState p = p\<lparr>pd_state := DISCONNECTED, pd_cached_status := PodStatus_init, pd_alive := False,
     pd_heartbeat_running := False, pd_heartbeat_interval_ms := 1000, pd_current_pose := PTZPose_init, pd_laser_enabled := False,
     pd_last_laser_measurement := LaserInfo_init, pd_streaming := False, pd_current_stream := StreamInfo_init,
     pd_last_center_result := CenterMeasurementResult_init, pd_continuous_measure_running := False, pd_measure_interval_ms := 500\<rparr>"

text \<open>The fields of the configuration that have the right type; the port is cut to 16 bits.\<close>

definition update_info :: "json \<Rightarrow> PodInfo \<Rightarrow> PodInfo" where
  "update_info pod_config i =
     i\<lparr>pi_raw_config := pod_config,
       pi_pod_name := GetStringOr pod_config ''name'' (pi_pod_name i),
       pi_model := GetStringOr pod_config ''model'' (pi_model i),
       pi_firmware_ver := GetStringOr pod_config ''firmware_ver'' (pi_firmware_ver i),
       pi_ip_address := GetStringOr pod_config ''ip'' (pi_ip_address i),
       pi_port := (case field pod_config ''port'' of
           Some (JUnsigned n) \<Rightarrow> of_nat n | Some (JInteger n) \<Rightarrow> of_int n | _ \<Rightarrow> pi_port i)\<rparr>"

definition setCapabilityConfigs :: "json \<Rightarrow> 'a BasePod_scheme \<Rightarrow> 'a BasePod_scheme" where
  "setCapabilityConfigs capability_section p = p\<lparr>pd_capability_configs := capability_section\<rparr>"

definition startMonitor :: "PodMonitorConfig \<Rightarrow> 'a BasePod_scheme \<Rightarrow> 'a BasePod_scheme" where
  "startMonitor config p = p\<lparr>pd_monitor := monitor_start config (pd_monitor p)\<rparr>"

definition stopMonitor :: "'a BasePod_scheme \<Rightarrow> 'a BasePod_scheme" where
  "stopMonitor p = p\<lparr>pd_monitor := monitor_stop (pd_monitor p)\<rparr>"

definition isMonitorRunning :: "'a BasePod_scheme \<Rightarrow> bool" where
  "isMonitorRunning p = mn_running (pd_monitor p)"

definition isConnected :: "'a BasePod_scheme \<Rightarrow> bool" where
  "isConnected p \<longleftrightarrow> pd_state p = CONNECTED"

text \<open>\<open>Init\<close> up to the hook \<open>onInit\<close>, which is virtual.\<close>

definition init_common :: "json \<Rightarrow> 'a BasePod_scheme \<Rightarrow> 'a BasePod_scheme" where
  "init_common pod_config p =
     (let p = (if isMonitorRunning p then stopMonitor p else p);
          p = p\<lparr>pd_info := update_info pod_config (pd_info p)\<rparr>
      in resetRuntimeState
           (case field pod_config ''capability'' of
              Some c \<Rightarrow> if is_object c then setCapabilityConfigs c p else p\<lparr>pd_capability_configs := JObject []\<rparr>
            | None \<Rightarrow> p\<lparr>pd_capability_configs := JObject []\<rparr>))"

definition BasePod_Init :: "(json \<Rightarrow> 'a BasePod_scheme \<Rightarrow> PodErrorCode \<times> 'a BasePod_scheme) \<Rightarrow> json \<Rightarrow> 'a BasePod_scheme \<Rightarrow>
    PodErrorCode \<times> 'a BasePod_scheme" where
  "BasePod_Init onInit pod_config p =
     (if \<not> is_object pod_config then (UNKNOWN_ERROR, p)
      else if isConnected p then (ALREADY_CONNECTED, p)
      else case onInit pod_config (init_common pod_config p) of
        (result, p) \<Rightarrow> if result \<noteq> SUCCESS then (result, p\<lparr>pd_state := ERROR\<rparr>) else (SUCCESS, p))"

definition BasePod_onInit :: "json \<Rightarrow> 'a BasePod_scheme \<Rightarrow> PodErrorCode \<times> 'a BasePod_scheme" where
  "BasePod_onInit pod_config p = (SUCCESS, p)"

definition BasePod_connect :: "'a BasePod_scheme \<Rightarrow> PodErrorCode \<times> 'a BasePod_scheme" where
  "BasePod_connect p =
     (if pd_state p = CONNECTED then (ALREADY_CONNECTED, p)
      else case pd_session p of
        None \<Rightarrow> (SESSION_NOT_INITIALIZED, p)
      | Some s \<Rightarrow>
          (case session_connect (pi_ip_address (pd_info p)) (pi_port (pd_info p)) s of
             (result, s) \<Rightarrow> (result, p\<lparr>pd_session := Some s, pd_state := if result = SUCCESS then CONNECTED else ERROR\<rparr>)))"

definition BasePod_disconnect :: "'a BasePod_scheme \<Rightarrow> PodErrorCode \<times> 'a BasePod_scheme" where
  "BasePod_disconnect p =
     (if pd_state p = DISCONNECTED then (NOT_CONNECTED, p)
      else case pd_session p of
        Some s \<Rightarrow>
          (if se_connected s
           then (case session_disconnect s of (result, s) \<Rightarrow> (result, p\<lparr>pd_session := Some s, pd_state := DISCONNECTED\<rparr>))
           else (SUCCESS, p\<lparr>pd_state := DISCONNECTED\<rparr>))
      | None \<Rightarrow> (SUCCESS, p\<lparr>pd_state := DISCONNECTED\<rparr>))"

definition setSession :: "Session option \<Rightarrow> 'a BasePod_scheme \<Rightarrow> 'a BasePod_scheme" where
  "setSession s p = p\<lparr>pd_session := s\<rparr>"

subsection \<open>Capabilities\<close>

definition readConfig :: "json \<Rightarrow> CapabilityType \<Rightarrow> json" where
  "readConfig source type =
     (case field source (capabilityTypeToKey type) of
        Some (JObject c) \<Rightarrow> JObject c
      | _ \<Rightarrow> (case field source (capabilityTypeToString type) of
               Some (JObject c) \<Rightarrow> JObject c
             | _ \<Rightarrow> JObject []))"

definition getCapabilityConfig :: "'a BasePod_scheme \<Rightarrow> CapabilityType \<Rightarrow> json" where
  "getCapabilityConfig p type =
     (let config = readConfig (pd_capability_configs p) type in
      if config \<noteq> JObject [] then config
      else case field (pi_raw_config (pd_info p)) ''capability'' of
        Some c \<Rightarrow> readConfig c type
      | None \<Rightarrow> JObject [])"

definition isCapabilityEnabled :: "'a BasePod_scheme \<Rightarrow> CapabilityType \<Rightarrow> bool" where
  "isCapabilityEnabled p type =
     (case field (getCapabilityConfig p type) ''open'' of Some (JString s) \<Rightarrow> s = ''enable'' | _ \<Rightarrow> True)"

definition getCapabilityInitArgs :: "'a BasePod_scheme \<Rightarrow> CapabilityType \<Rightarrow> json" where
  "getCapabilityInitArgs p type =
     (case field (getCapabilityConfig p type) ''init_args'' of Some (JObject a) \<Rightarrow> JObject a | _ \<Rightarrow> JObject [])"

subsection \<open>Operations of the base class\<close>

definition BasePod_getDeviceStatus :: "'a BasePod_scheme \<Rightarrow> PodStatus PodResult" where
  "BasePod_getDeviceStatus p = pod_success (pd_cached_status p)"

definition sendHeartbeat :: "'a BasePod_scheme \<Rightarrow> bool PodResult \<times> 'a BasePod_scheme" where
  "sendHeartbeat p = (pod_success True, p\<lparr>pd_alive := True\<rparr>)"

definition startHeartbeat :: "u32 \<Rightarrow> 'a BasePod_scheme \<Rightarrow> PodErrorCode \<times> 'a BasePod_scheme" where
  "startHeartbeat interval_ms p = (SUCCESS, p\<lparr>pd_heartbeat_interval_ms := interval_ms, pd_heartbeat_running := True\<rparr>)"

definition stopHeartbeat :: "'a BasePod_scheme \<Rightarrow> PodErrorCode \<times> 'a BasePod_scheme" where
  "stopHeartbeat p = (SUCCESS, p\<lparr>pd_heartbeat_running := False\<rparr>)"

definition BasePod_getPose :: "'a BasePod_scheme \<Rightarrow> PTZPose PodResult" where
  "BasePod_getPose p = pod_success (pd_current_pose p)"

definition BasePod_setPose :: "PTZPose \<Rightarrow> 'a BasePod_scheme \<Rightarrow> PodErrorCode \<times> 'a BasePod_scheme" where
  "BasePod_setPose pose p = (SUCCESS, p\<lparr>pd_current_pose := pose\<rparr>)"

definition BasePod_goHome :: "'a BasePod_scheme \<Rightarrow> PodErrorCode \<times> 'a BasePod_scheme" where
  "BasePod_goHome p = (SUCCESS, p\<lparr>pd_current_pose := PTZPose_init\<rparr>)"

definition enableLaser :: "'a BasePod_scheme \<Rightarrow> PodErrorCode \<times> 'a BasePod_scheme" where
  "enableLaser p = (SUCCESS, p\<lparr>pd_laser_enabled := True\<rparr>)"

definition disableLaser :: "'a BasePod_scheme \<Rightarrow> PodErrorCode \<times> 'a BasePod_scheme" where
  "disableLaser p = (SUCCESS, p\<lparr>pd_laser_enabled := False\<rparr>)"

text \<open>The three classes answer a measurement with their own constants.\<close>

definition measure_laser :: "LaserInfo \<Rightarrow> 'a BasePod_scheme \<Rightarrow> LaserInfo PodResult \<times> 'a BasePod_scheme" where
  "measure_laser info p =
     (if \<not> pd_laser_enabled p then (pod_fail LASER_MEASURE_FAILED, p)
      else (pod_success info, p\<lparr>pd_last_laser_measurement := info\<rparr>))"

definition BasePod_laserMeasure :: "'a BasePod_scheme \<Rightarrow> LaserInfo PodResult \<times> 'a BasePod_scheme" where
  "BasePod_laserMeasure = measure_laser (LaserInfo_init\<lparr>li_is_valid := True, li_distance := 0x4059000000000000\<rparr>)"

definition active_stream :: "StreamType \<Rightarrow> string \<Rightarrow> i32 \<Rightarrow> StreamInfo" where
  "active_stream type url fps =
     \<lparr>si_type = type, si_url = url, si_width = 1920, si_height = 1080, si_fps = fps, si_is_active = True\<rparr>"

definition BasePod_startStream :: "StreamType \<Rightarrow> 'a BasePod_scheme \<Rightarrow> StreamInfo PodResult \<times> 'a BasePod_scheme" where
  "BasePod_startStream type p =
     (if pd_streaming p then (pod_success (pd_current_stream p), p)
      else let st = active_stream type ''rtsp://127.0.0.1:8554/mock'' 30
           in (pod_success st, p\<lparr>pd_current_stream := st, pd_streaming := True\<rparr>))"

definition BasePod_stopStream :: "'a BasePod_scheme \<Rightarrow> PodErrorCode \<times> 'a BasePod_scheme" where
  "BasePod_stopStream p =
     (if \<not> pd_streaming p then (STREAM_STOP_FAILED, p)
      else (SUCCESS, p\<lparr>pd_streaming := False, pd_current_stream := (pd_current_stream p)\<lparr>si_is_active := False\<rparr>\<rparr>))"

definition getStreamInfo :: "'a BasePod_scheme \<Rightarrow> StreamInfo PodResult" where
  "getStreamInfo p = pod_success (pd_current_stream p)"

definition BasePod_captureImage :: "ImageFrame PodResult" where
  "BasePod_captureImage = pod_success (ImageFrame_init\<lparr>if_width := 1920, if_height := 1080, if_channels := 3, if_format := ''JPEG''\<rparr>)"

definition measure_center :: "CenterMeasurementResult \<Rightarrow> 'a BasePod_scheme \<Rightarrow> CenterMeasurementResult PodResult \<times> 'a BasePod_scheme" where
  "measure_center result p = (pod_success result, p\<lparr>pd_last_center_result := result\<rparr>)"

definition BasePod_centerMeasure :: "'a BasePod_scheme \<Rightarrow> CenterMeasurementResult PodResult \<times> 'a BasePod_scheme" where
  "BasePod_centerMeasure = measure_center (CenterMeasurementResult_init\<lparr>cm_is_valid := True, cm_distance := 0x4062C00000000000,
     cm_center_x := 0x408E000000000000, cm_center_y := 0x4080E00000000000\<rparr>)"

definition startContinuousMeasure :: "u32 \<Rightarrow> 'a BasePod_scheme \<Rightarrow> PodErrorCode \<times> 'a BasePod_scheme" where
  "startContinuousMeasure interval_ms p = (SUCCESS, p\<lparr>pd_measure_interval_ms := interval_ms, pd_continuous_measure_running := True\<rparr>)"

definition stopContinuousMeasure :: "'a BasePod_scheme \<Rightarrow> PodErrorCode \<times> 'a BasePod_scheme" where
  "stopContinuousMeasure p = (SUCCESS, p\<lparr>pd_continuous_measure_running := False\<rparr>)"

definition getLastMeasureResult :: "'a BasePod_scheme \<Rightarrow> CenterMeasurementResult PodResult" where
  "getLastMeasureResult p = pod_success (pd_last_center_result p)"

lemma init_common_rest:
  "pd_session (init_common cfg p) = pd_session p" "pd_state (init_common cfg p) = DISCONNECTED"
  "pd_info (init_common cfg p) = update_info cfg (pd_info p)" "\<not> mn_running (pd_monitor (init_common cfg p))"
  "pd_capability_configs (init_common cfg p) =
     (case field cfg ''capability'' of Some c \<Rightarrow> if is_object c then c else JObject [] | None \<Rightarrow> JObject [])"
  by (auto simp: init_common_def Let_def resetRuntimeState_def setCapabilityConfigs_def stopMonitor_def monitor_stop_def
      isMonitorRunning_def split: option.split)

section \<open>DjiPod\<close>

definition DjiPod_ctor :: "PodInfo \<Rightarrow> BasePod" where
  "DjiPod_ctor info = setSession (Some (Session_ctor DjiSession)) (BasePod_ctor info)"

definition DjiPod_getDeviceStatus :: "BasePod \<Rightarrow> PodStatus PodResult \<times> BasePod" where
  "DjiPod_getDeviceStatus p =
     (let st = (pd_cached_status p)\<lparr>ps_state := CONNECTED, ps_temperature := 0x4041C00000000000, ps_voltage := 0x4028000000000000\<rparr>
      in (pod_success st, p\<lparr>pd_cached_status := st\<rparr>))"

definition DjiPod_laserMeasure :: "BasePod \<Rightarrow> LaserInfo PodResult \<times> BasePod" where
  "DjiPod_laserMeasure = measure_laser \<lparr>li_is_valid = True, li_distance = 0x406F500000000000, li_latitude = 0x403E1F9ACFFA7EB7,
     li_longitude = 0x405E29E065300581, li_altitude = 0x4059000000000000\<rparr>"

definition DjiPod_startStream :: "StreamType \<Rightarrow> BasePod \<Rightarrow> StreamInfo PodResult \<times> BasePod" where
  "DjiPod_startStream type p =
     (let st = active_stream type ''rtsp://192.168.1.100:8554/dji_stream'' 30
      in (pod_success st, p\<lparr>pd_current_stream := st, pd_streaming := True\<rparr>))"

definition DjiPod_stopStream :: "'a BasePod_scheme \<Rightarrow> PodErrorCode \<times> 'a BasePod_scheme" where
  "DjiPod_stopStream p =
     (SUCCESS, p\<lparr>pd_streaming := False, pd_current_stream := (pd_current_stream p)\<lparr>si_is_active := False\<rparr>\<rparr>)"

definition DjiPod_captureImage :: "ImageFrame PodResult" where
  "DjiPod_captureImage = pod_success (ImageFrame_init\<lparr>if_width := 3840, if_height := 2160, if_channels := 3, if_format := ''JPEG''\<rparr>)"

definition DjiPod_centerMeasure :: "BasePod \<Rightarrow> CenterMeasurementResult PodResult \<times> BasePod" where
  "DjiPod_centerMeasure = measure_center \<lparr>cm_is_valid = True, cm_distance = 0x4074000000000000, cm_latitude = 0x403E1F9ACFFA7EB7,
     cm_longitude = 0x405E29E065300581, cm_altitude = 0x4055400000000000, cm_center_x = 0x409E000000000000,
     cm_center_y = 0x4090E00000000000\<rparr>"

definition DjiPod_polled :: "BasePod polled_pod" where
  "DjiPod_polled =
     \<lparr>call_status = (\<lambda>p. case DjiPod_getDeviceStatus p of (r, p) \<Rightarrow> (Some r, p)),
      call_pose = (\<lambda>p. (Some (BasePod_getPose p), p)),
      call_laser = (\<lambda>p. case DjiPod_laserMeasure p of (r, p) \<Rightarrow> (Some r, p)),
      call_stream = (\<lambda>p. (Some (getStreamInfo p), p))\<rparr>"

text \<open>A pass of the monitor thread over its own pod.\<close>

definition pod_pass :: "'a BasePod_scheme polled_pod \<Rightarrow> (nat \<Rightarrow> u64) \<Rightarrow> poll_times \<Rightarrow> 'a BasePod_scheme \<Rightarrow> poll_times \<times> 'a BasePod_scheme" where
  "pod_pass polled clock t p =
     (case monitor_pass polled clock t (pd_monitor p) p of (t, m, p) \<Rightarrow> (t, p\<lparr>pd_monitor := m\<rparr>))"

end
