(* ===== verification/PinlingPod.thy ===== *)
theory PinlingPod
  imports Pod
begin

text \<open>
  \<open>src/util/my_pod/pod/pinling/pinling_pod.cpp\<close>: the pod whose gimbal is driven through the ViewLink SDK, with the
  probe of the device by ping and the reconnection to the SDK. What the SDK does in an attempt to connect
  is a record, with the callbacks that arrive while the attempt waits. The arithmetic on \<open>double\<close> is the
  record \<open>fpu\<close>. A call of the pod and a pass of its monitor are single steps. In the program the monitor runs beside the
  calls, and then a reconnection under way and the state \<open>CONNECTING\<close> can be seen from the other thread, which is what the
  \<open>compare_exchange\<close> of \<open>ensureSdkConnection\<close> is for; what is shown here of these two holds between the calls of one thread.
\<close>

record PinlingPod = BasePod +
  pp_client :: ViewLinkClient
  pp_sdk_connected :: bool
  pp_sdk_reconnect_enabled :: bool
  pp_reconnecting :: bool
  pp_last_reconnect_attempt_ms :: u64
  pp_telemetry_cb :: bool

definition PinlingPod_ctor :: "PodInfo \<Rightarrow> PinlingPod" where
  "PinlingPod_ctor info =
     setSession (Some (Session_ctor PinlingSession)) (BasePod.extend (BasePod_ctor info)
       \<lparr>pp_client = ViewLinkClient_init, pp_sdk_connected = False, pp_sdk_reconnect_enabled = False, pp_reconnecting = False,
        pp_last_reconnect_attempt_ms = 0, pp_telemetry_cb = False\<rparr>)"

definition kMaxRetryCount :: nat where
  "kMaxRetryCount = 3"

definition kReconnectCooldownMs :: u64 where
  "kReconnectCooldownMs = 5000"

section \<open>Parameters of the SDK\<close>

record PinlingSdkConfig =
  sc_ip :: string
  sc_port :: u16
  sc_link_type :: string
  sc_has_init_args :: bool

text \<open>The port of \<open>init_args\<close>: \<open>get<int>()\<close> cuts to 32 bits, then the range is checked.\<close>

definition init_args_port :: "json \<Rightarrow> u16 \<Rightarrow> PodErrorCode + u16" where
  "init_args_port init_args def =
     (case (case field init_args ''port'' of
              Some (JUnsigned n) \<Rightarrow> Some (of_nat n :: i32) | Some (JInteger n) \<Rightarrow> Some (of_int n) | _ \<Rightarrow> None) of
        None \<Rightarrow> Inr def
      | Some raw_port \<Rightarrow> if sint raw_port \<le> 0 \<or> sint raw_port > 65535 then Inl UNKNOWN_ERROR else Inr (ucast raw_port))"

definition resolvePinlingSdkConfig :: "PodInfo \<Rightarrow> json \<Rightarrow> PodErrorCode + PinlingSdkConfig" where
  "resolvePinlingSdkConfig info init_args =
     (let ip = GetStringOr init_args ''ip'' (pi_ip_address info);
          link_type = GetStringOr init_args ''link_type'' ''tcp''
      in ebind (init_args_port init_args (pi_port info)) (\<lambda>port.
           if ip = [] then Inl UNKNOWN_ERROR
           else if port = 0 then Inl UNKNOWN_ERROR
           else Inr \<lparr>sc_ip = ip, sc_port = port, sc_link_type = link_type,
             sc_has_init_args = is_object init_args \<and> init_args \<noteq> JObject []\<rparr>))"

section \<open>SDK\<close>

text \<open>One attempt: whether the SDK starts and takes the target, and the callbacks while the attempt waits for the
  connection and then for telemetry. A wait ends with the state the callbacks have left.\<close>

record vlk_attempt =
  va_init :: bool
  va_connect :: "string \<Rightarrow> u16 \<Rightarrow> bool"
  va_link :: "vlk_event list"
  va_more :: "vlk_event list"

text \<open>A callback of the SDK. The telemetry callback stores the pose, which it hands to the callback of the user too.\<close>

definition pose_of :: "TelemetrySnapshot \<Rightarrow> PTZPose" where
  "pose_of t = \<lparr>pz_yaw = at_yaw (te_attitude t), pz_pitch = at_pitch (te_attitude t), pz_roll = at_roll (te_attitude t),
     pz_zoom = te_zoom_magnification t\<rparr>"

definition sdk_event :: "vlk_event \<Rightarrow> PinlingPod \<Rightarrow> PinlingPod" where
  "sdk_event e p =
     (case on_event e (pp_client p) of
        (None, c) \<Rightarrow> p\<lparr>pp_client := c\<rparr>
      | (Some t, c) \<Rightarrow> p\<lparr>pp_client := c, pd_current_pose := pose_of t\<rparr>)"

definition setTelemetryCallback :: "bool \<Rightarrow> PinlingPod \<Rightarrow> PinlingPod" where
  "setTelemetryCallback cb p = p\<lparr>pp_telemetry_cb := cb\<rparr>"

definition isSdkConnected :: "PinlingPod \<Rightarrow> bool" where
  "isSdkConnected p = vc_connected (pp_client p)"

definition connectSDK :: "vlk_attempt \<Rightarrow> string \<Rightarrow> u16 \<Rightarrow> PinlingPod \<Rightarrow> PodErrorCode \<times> PinlingPod" where
  "connectSDK a ip port p =
     (if vc_connected (pp_client p) then (SUCCESS, p\<lparr>pp_sdk_connected := True\<rparr>)
      else
        let p = p\<lparr>pp_sdk_connected := False\<rparr> in
        case vlk_Initialize (va_init a) (pp_client p) of
          (False, c) \<Rightarrow> (CONNECTION_FAILED, p\<lparr>pp_client := c\<rparr>)
        | (True, c) \<Rightarrow>
            let c = c\<lparr>vc_telemetry_cb := True\<rparr> in
            if \<not> va_connect a ip port then (CONNECTION_FAILED, p\<lparr>pp_client := vlk_Shutdown c\<rparr>)
            else
              let p = fold sdk_event (va_link a) (p\<lparr>pp_client := c\<rparr>) in
              if \<not> vc_connected (pp_client p) then (CONNECTION_TIMEOUT, p\<lparr>pp_client := vlk_Shutdown (pp_client p)\<rparr>)
              else
                let p = fold sdk_event (va_more a) p
                in (SUCCESS, p\<lparr>pp_sdk_connected := vc_connected (pp_client p)\<rparr>))"

definition disconnectSDK :: "PinlingPod \<Rightarrow> PinlingPod" where
  "disconnectSDK p =
     (if \<not> pp_sdk_connected p \<and> \<not> vc_connected (pp_client p) then p\<lparr>pp_sdk_connected := False\<rparr>
      else p\<lparr>pp_client := vlk_Shutdown (pp_client p), pp_sdk_connected := False\<rparr>)"

text \<open>The attempts with the given numbers, until one succeeds.\<close>

fun sdk_retry :: "(nat \<Rightarrow> vlk_attempt) \<Rightarrow> string \<Rightarrow> u16 \<Rightarrow> PodErrorCode \<Rightarrow> nat list \<Rightarrow> PinlingPod \<Rightarrow> PodErrorCode \<times> PinlingPod" where
  "sdk_retry as ip port result [] p = (result, p)"
| "sdk_retry as ip port result (attempt # rest) p =
     (case connectSDK (as attempt) ip port p of
        (result, p) \<Rightarrow> if result = SUCCESS then (result, p) else sdk_retry as ip port result rest p)"

text \<open>The log line with \<open>open\<close> and \<open>description\<close> of the capability throws when one of them is no text.\<close>

definition log_ptz_config :: "json \<Rightarrow> json_exn + unit" where
  "log_ptz_config ptz_cfg =
     (if ptz_cfg = JObject [] then Inr ()
      else ebind (value_string ptz_cfg ''open'' ''<unset>'') (\<lambda>_. ebind (value_string ptz_cfg ''description'' '''') (\<lambda>_. Inr ())))"

definition connectFromConfig :: "(nat \<Rightarrow> vlk_attempt) \<Rightarrow> PinlingPod \<Rightarrow> (json_exn + PodErrorCode) \<times> PinlingPod" where
  "connectFromConfig as p =
     (if \<not> isCapabilityEnabled p PTZ then (Inr CAPABILITY_NOT_SUPPORTED, p)
      else case resolvePinlingSdkConfig (pd_info p) (getCapabilityInitArgs p PTZ) of
        Inl e \<Rightarrow> (Inr e, p)
      | Inr cfg \<Rightarrow>
          (case log_ptz_config (getCapabilityConfig p PTZ) of
             Inl e \<Rightarrow> (Inl e, p)
           | Inr _ \<Rightarrow>
               (case sdk_retry as (sc_ip cfg) (sc_port cfg) SUCCESS [1..<Suc kMaxRetryCount] p of
                  (result, p) \<Rightarrow> (Inr result, p))))"

definition ensureSdkConnection :: "(nat \<Rightarrow> vlk_attempt) \<Rightarrow> u64 \<Rightarrow> PinlingPod \<Rightarrow> (json_exn + PodErrorCode) \<times> PinlingPod" where
  "ensureSdkConnection as now_ms p =
     (if \<not> isCapabilityEnabled p PTZ then (Inr CAPABILITY_NOT_SUPPORTED, p)
      else
        let p = p\<lparr>pp_sdk_connected := vc_connected (pp_client p)\<rparr> in
        if vc_connected (pp_client p) then (Inr SUCCESS, p)
        else if ps_state (pd_cached_status p) \<noteq> CONNECTED then (Inr NOT_CONNECTED, p)
        else if \<not> pp_sdk_reconnect_enabled p then (Inr NOT_CONNECTED, p)
        else if pp_last_reconnect_attempt_ms p \<noteq> 0 \<and> now_ms - pp_last_reconnect_attempt_ms p < kReconnectCooldownMs
          then (Inr NOT_CONNECTED, p)
        else if pp_reconnecting p then (Inr NOT_CONNECTED, p)
        else
          case connectFromConfig as (p\<lparr>pp_reconnecting := True, pp_last_reconnect_attempt_ms := now_ms\<rparr>) of
            (Inl e, p) \<Rightarrow> (Inl e, p)
          | (Inr result, p) \<Rightarrow> (Inr result, p\<lparr>pp_sdk_connected := vc_connected (pp_client p), pp_reconnecting := False\<rparr>))"

section \<open>Life cycle\<close>

definition PinlingPod_onInit :: "json \<Rightarrow> PinlingPod \<Rightarrow> PodErrorCode \<times> PinlingPod" where
  "PinlingPod_onInit pod_config p =
     (let p = (if pd_session p = None then setSession (Some (Session_ctor PinlingSession)) p else p);
          p = (if vc_connected (pp_client p) then disconnectSDK p else p);
          p = p\<lparr>pp_sdk_connected := False, pp_sdk_reconnect_enabled := False, pp_reconnecting := False,
                pp_last_reconnect_attempt_ms := 0\<rparr>
      in if \<not> isCapabilityEnabled p PTZ then (SUCCESS, p)
         else case resolvePinlingSdkConfig (pd_info p) (getCapabilityInitArgs p PTZ) of
           Inl e \<Rightarrow> (e, p)
         | Inr cfg \<Rightarrow> (SUCCESS, p))"

definition PinlingPod_Init :: "json \<Rightarrow> PinlingPod \<Rightarrow> PodErrorCode \<times> PinlingPod" where
  "PinlingPod_Init pod_config p = BasePod_Init PinlingPod_onInit pod_config p"

definition PinlingPod_connect :: "(nat \<Rightarrow> vlk_attempt) \<Rightarrow> PinlingPod \<Rightarrow> (json_exn + PodErrorCode) \<times> PinlingPod" where
  "PinlingPod_connect as p =
     (case BasePod_connect p of
        (result, p) \<Rightarrow>
          if result \<noteq> SUCCESS then (Inr result, p)
          else if \<not> isCapabilityEnabled p PTZ then (Inr result, p\<lparr>pp_sdk_reconnect_enabled := False\<rparr>)
          else case connectFromConfig as (p\<lparr>pp_sdk_reconnect_enabled := True\<rparr>) of
            (Inl e, p) \<Rightarrow> (Inl e, p)
          | (Inr _, p) \<Rightarrow> (Inr result, p))"

definition PinlingPod_disconnect :: "PinlingPod \<Rightarrow> PodErrorCode \<times> PinlingPod" where
  "PinlingPod_disconnect p = BasePod_disconnect (disconnectSDK (p\<lparr>pp_sdk_reconnect_enabled := False\<rparr>))"

section \<open>Status\<close>

record probe =
  pr_ping :: bool
  pr_now :: u64
  pr_attempts :: "nat \<Rightarrow> vlk_attempt"

definition refreshDeviceStatus :: "probe \<Rightarrow> PinlingPod \<Rightarrow> (json_exn + PodErrorCode) \<times> PinlingPod" where
  "refreshDeviceStatus pr p =
     (if pi_ip_address (pd_info p) = []
      then (Inr UNKNOWN_ERROR,
        p\<lparr>pd_cached_status := (pd_cached_status p)\<lparr>ps_state := ERROR, ps_error := True\<rparr>, pd_state := ERROR\<rparr>)
      else
        let is_online = pr_ping pr;
            p = p\<lparr>pd_cached_status := (pd_cached_status p)\<lparr>ps_state := if is_online then CONNECTED else DISCONNECTED,
                    ps_error := \<not> is_online\<rparr>,
                  pp_sdk_connected := vc_connected (pp_client p)\<rparr>
        in
        if \<not> is_online then (Inr SUCCESS, (disconnectSDK p)\<lparr>pd_state := DISCONNECTED\<rparr>)
        else if pp_sdk_reconnect_enabled p \<and> \<not> pp_sdk_connected p then
          (case ensureSdkConnection (pr_attempts pr) (pr_now pr) p of
             (Inl e, p) \<Rightarrow> (Inl e, p)
           | (Inr result, p) \<Rightarrow>
               (Inr SUCCESS, p\<lparr>pd_state := if result = SUCCESS then CONNECTED
                  else if pp_reconnecting p then CONNECTING else ERROR\<rparr>))
        else if pp_sdk_connected p then (Inr SUCCESS, p\<lparr>pd_state := CONNECTED\<rparr>)
        else (Inr SUCCESS, p\<lparr>pd_state := DISCONNECTED\<rparr>))"

definition PinlingPod_getDeviceStatus :: "probe \<Rightarrow> PinlingPod \<Rightarrow> (json_exn + PodStatus PodResult) \<times> PinlingPod" where
  "PinlingPod_getDeviceStatus pr p =
     (case refreshDeviceStatus pr p of
        (Inl e, p) \<Rightarrow> (Inl e, p)
      | (Inr result, p) \<Rightarrow>
          if result \<noteq> SUCCESS then (Inr (pod_fail result), p) else (Inr (pod_success (pd_cached_status p)), p))"

section \<open>Gimbal\<close>

text \<open>The operations on \<open>double\<close>: \<open>x > 0\<close>, \<open>abs(x - y) > 0.01\<close>, \<open>abs(x) > 0.01\<close>, and the casts of \<open>x * 100.0\<close> to \<open>short\<close> and
  of \<open>x\<close> to \<open>int\<close> and \<open>float\<close>.\<close>

record fpu =
  fp_positive :: "f64 \<Rightarrow> bool"
  fp_differ :: "f64 \<Rightarrow> f64 \<Rightarrow> bool"
  fp_moves :: "f64 \<Rightarrow> bool"
  fp_hundredths :: "f64 \<Rightarrow> i16"
  fp_int :: "f64 \<Rightarrow> i32"
  fp_float :: "f64 \<Rightarrow> u32"

text \<open>A command to the gimbal: the connection is made sure of first, then \<open>calls\<close> go to the SDK.\<close>

definition with_sdk :: "(nat \<Rightarrow> vlk_attempt) \<Rightarrow> u64 \<Rightarrow> (PinlingPod \<Rightarrow> vlk_call list) \<Rightarrow> PinlingPod \<Rightarrow>
    (json_exn + PodErrorCode) \<times> vlk_call list \<times> PinlingPod" where
  "with_sdk as now calls p =
     (case ensureSdkConnection as now p of
        (Inl e, p) \<Rightarrow> (Inl e, [], p)
      | (Inr result, p) \<Rightarrow> if result \<noteq> SUCCESS then (Inr result, [], p) else (Inr SUCCESS, calls p, p))"

definition PinlingPod_getPose :: "(nat \<Rightarrow> vlk_attempt) \<Rightarrow> u64 \<Rightarrow> PinlingPod \<Rightarrow> (json_exn + PTZPose PodResult) \<times> PinlingPod" where
  "PinlingPod_getPose as now p =
     (case ensureSdkConnection as now p of
        (Inl e, p) \<Rightarrow> (Inl e, p)
      | (Inr result, p) \<Rightarrow>
          if result \<noteq> SUCCESS then (Inr (pod_fail result), p)
          else
            let t = vc_telemetry (pp_client p) in
            if \<not> at_valid (te_attitude t) then (Inr (pod_success (pd_current_pose p)), p)
            else (Inr (pod_success (pose_of t)), p\<lparr>pd_current_pose := pose_of t\<rparr>))"

definition setPose_calls :: "fpu \<Rightarrow> PTZPose \<Rightarrow> PinlingPod \<Rightarrow> vlk_call list" where
  "setPose_calls F pose p =
     VLK_TurnTo (pz_yaw pose) (pz_pitch pose) #
     (if fp_positive F (pz_zoom pose) \<and> fp_differ F (pz_zoom pose) (pz_zoom (pd_current_pose p))
      then [VLK_ZoomTo (fp_float F (pz_zoom pose))] else [])"

definition PinlingPod_setPose :: "fpu \<Rightarrow> (nat \<Rightarrow> vlk_attempt) \<Rightarrow> u64 \<Rightarrow> PTZPose \<Rightarrow> PinlingPod \<Rightarrow>
    (json_exn + PodErrorCode) \<times> vlk_call list \<times> PinlingPod" where
  "PinlingPod_setPose F as now pose = with_sdk as now (setPose_calls F pose)"

text \<open>\<open>std::min(speed, 8)\<close> as a \<open>short\<close>.\<close>

definition zoom_step :: "i32 \<Rightarrow> i16" where
  "zoom_step speed = (if sint speed < 8 then ucast speed else 8)"

definition controlSpeed_calls :: "fpu \<Rightarrow> PTZCommand \<Rightarrow> vlk_call list" where
  "controlSpeed_calls F cmd =
     VLK_Move (fp_hundredths F (pc_yaw_speed cmd)) (fp_hundredths F (pc_pitch_speed cmd)) #
     (if fp_moves F (pc_zoom_speed cmd)
      then let zoom_spd = fp_int F (pc_zoom_speed cmd)
           in if sint zoom_spd > 0 then [VLK_ZoomIn (zoom_step zoom_spd)] else [VLK_ZoomOut (zoom_step (- zoom_spd))]
      else [])"

definition PinlingPod_controlSpeed :: "fpu \<Rightarrow> (nat \<Rightarrow> vlk_attempt) \<Rightarrow> u64 \<Rightarrow> PTZCommand \<Rightarrow> PinlingPod \<Rightarrow>
    (json_exn + PodErrorCode) \<times> vlk_call list \<times> PinlingPod" where
  "PinlingPod_controlSpeed F as now cmd = with_sdk as now (\<lambda>_. controlSpeed_calls F cmd)"

definition PinlingPod_stopPtz :: "(nat \<Rightarrow> vlk_attempt) \<Rightarrow> u64 \<Rightarrow> PinlingPod \<Rightarrow> (json_exn + PodErrorCode) \<times> vlk_call list \<times> PinlingPod" where
  "PinlingPod_stopPtz as now = with_sdk as now (\<lambda>_. [VLK_Stop, VLK_StopZoom])"

definition PinlingPod_goHome :: "(nat \<Rightarrow> vlk_attempt) \<Rightarrow> u64 \<Rightarrow> PinlingPod \<Rightarrow> (json_exn + PodErrorCode) \<times> vlk_call list \<times> PinlingPod" where
  "PinlingPod_goHome as now = with_sdk as now (\<lambda>_. [VLK_Home])"

definition zoomTo :: "(nat \<Rightarrow> vlk_attempt) \<Rightarrow> u64 \<Rightarrow> u32 \<Rightarrow> PinlingPod \<Rightarrow> (json_exn + PodErrorCode) \<times> vlk_call list \<times> PinlingPod" where
  "zoomTo as now magnification = with_sdk as now (\<lambda>_. [VLK_ZoomTo magnification])"

definition zoomSpeed :: "(nat \<Rightarrow> vlk_attempt) \<Rightarrow> u64 \<Rightarrow> i32 \<Rightarrow> PinlingPod \<Rightarrow> (json_exn + PodErrorCode) \<times> vlk_call list \<times> PinlingPod" where
  "zoomSpeed as now speed = with_sdk as now (\<lambda>_.
     if sint speed > 0 then [VLK_ZoomIn (zoom_step speed)]
     else if sint speed < 0 then [VLK_ZoomOut (zoom_step (- speed))] else [VLK_StopZoom])"

definition stopZoom :: "(nat \<Rightarrow> vlk_attempt) \<Rightarrow> u64 \<Rightarrow> PinlingPod \<Rightarrow> (json_exn + PodErrorCode) \<times> vlk_call list \<times> PinlingPod" where
  "stopZoom as now = with_sdk as now (\<lambda>_. [VLK_StopZoom])"

section \<open>Placeholders\<close>

definition PinlingPod_laserMeasure :: "PinlingPod \<Rightarrow> LaserInfo PodResult \<times> PinlingPod" where
  "PinlingPod_laserMeasure = measure_laser \<lparr>li_is_valid = True, li_distance = 0x4066800000000000, li_latitude = 0x403F3C0C9539B888,
     li_longitude = 0x405E5D3C07EE0B0B, li_altitude = 0x4049000000000000\<rparr>"

definition PinlingPod_startStream :: "StreamType \<Rightarrow> PinlingPod \<Rightarrow> StreamInfo PodResult \<times> PinlingPod" where
  "PinlingPod_startStream type p =
     (let st = active_stream type ''rtsp://192.168.1.200:554/pinling_stream'' 25
      in (pod_success st, p\<lparr>pd_current_stream := st, pd_streaming := True\<rparr>))"

definition PinlingPod_centerMeasure :: "PinlingPod \<Rightarrow> CenterMeasurementResult PodResult \<times> PinlingPod" where
  "PinlingPod_centerMeasure = measure_center \<lparr>cm_is_valid = True, cm_distance = 0x4069000000000000,
     cm_latitude = 0x403F3C0C9539B888, cm_longitude = 0x405E5D3C07EE0B0B, cm_altitude = 0x404E000000000000,
     cm_center_x = 0x408E000000000000, cm_center_y = 0x4080E00000000000\<rparr>"

text \<open>What the monitor calls: it refreshes the status and asks for it, which refreshes it again.\<close>

definition PinlingPod_polled :: "probe \<Rightarrow> probe \<Rightarrow> (nat \<Rightarrow> vlk_attempt) \<Rightarrow> u64 \<Rightarrow> PinlingPod polled_pod" where
  "PinlingPod_polled pr1 pr2 as now =
     \<lparr>call_status = (\<lambda>p. case refreshDeviceStatus pr1 p of
          (Inl e, p) \<Rightarrow> (None, p)
        | (Inr _, p) \<Rightarrow> (case PinlingPod_getDeviceStatus pr2 p of (Inl e, p) \<Rightarrow> (None, p) | (Inr r, p) \<Rightarrow> (Some r, p))),
      call_pose = (\<lambda>p. case PinlingPod_getPose as now p of (Inl e, p) \<Rightarrow> (None, p) | (Inr r, p) \<Rightarrow> (Some r, p)),
      call_laser = (\<lambda>p. case PinlingPod_laserMeasure p of (r, p) \<Rightarrow> (Some r, p)),
      call_stream = (\<lambda>p. (Some (getStreamInfo p), p))\<rparr>"

section \<open>What the SDK operations change\<close>

text \<open>A callback changes the client and the pose, and keeps the client consistent.\<close>

definition event_change :: "PinlingPod \<Rightarrow> PinlingPod \<Rightarrow> bool" where
  "event_change p p' \<longleftrightarrow> (\<exists>c pose. p' = p\<lparr>pp_client := c, pd_current_pose := pose\<rparr> \<and>
     (vlk_inv (pp_client p) \<longrightarrow> vc_initialized (pp_client p) \<longrightarrow> vlk_inv c \<and> vc_initialized c))"

lemma event_changeI: "p' = p\<lparr>pp_client := c, pd_current_pose := pose\<rparr> \<Longrightarrow>
    (vlk_inv (pp_client p) \<Longrightarrow> vc_initialized (pp_client p) \<Longrightarrow> vlk_inv c \<and> vc_initialized c) \<Longrightarrow> event_change p p'"
  unfolding event_change_def by blast

lemma event_changeE:
  assumes "event_change p p'"
  obtains c pose where "p' = p\<lparr>pp_client := c, pd_current_pose := pose\<rparr>"
    "vlk_inv (pp_client p) \<Longrightarrow> vc_initialized (pp_client p) \<Longrightarrow> vlk_inv c \<and> vc_initialized c"
  using assms unfolding event_change_def by blast

lemma sdk_event_change: "event_change p (sdk_event e p)"
proof -
  obtain t c where e: "on_event e (pp_client p) = (t, c)" by fastforce
  then have v: "vlk_inv (pp_client p) \<Longrightarrow> vc_initialized (pp_client p) \<Longrightarrow> vlk_inv c \<and> vc_initialized c"
    using vlk_inv_event [of "pp_client p" e] by simp
  show ?thesis using e v
    by (intro event_changeI [where c = c and pose = "case t of None \<Rightarrow> pd_current_pose p | Some t \<Rightarrow> pose_of t"])
      (simp_all add: sdk_event_def split: option.split)
qed

lemma sdk_events_change: "event_change p (fold sdk_event es p)"
proof (induction es arbitrary: p)
  case Nil
  show ?case by (rule event_changeI [where c = "pp_client p" and pose = "pd_current_pose p"]) simp_all
next
  case (Cons e es)
  obtain c pose where a: "sdk_event e p = p\<lparr>pp_client := c, pd_current_pose := pose\<rparr>"
      "vlk_inv (pp_client p) \<Longrightarrow> vc_initialized (pp_client p) \<Longrightarrow> vlk_inv c \<and> vc_initialized c"
    using sdk_event_change [of p e] by (blast elim: event_changeE)
  obtain d pose' where b: "fold sdk_event es (sdk_event e p) = (sdk_event e p)\<lparr>pp_client := d, pd_current_pose := pose'\<rparr>"
      "vlk_inv (pp_client (sdk_event e p)) \<Longrightarrow> vc_initialized (pp_client (sdk_event e p)) \<Longrightarrow> vlk_inv d \<and> vc_initialized d"
    using Cons.IH [of "sdk_event e p"] by (blast elim: event_changeE)
  show ?case using a b by (intro event_changeI [where c = d and pose = pose']) simp_all
qed

text \<open>\<open>p'\<close> is \<open>p\<close> up to the state of the SDK.\<close>

definition sdk_change :: "PinlingPod \<Rightarrow> PinlingPod \<Rightarrow> bool" where
  "sdk_change p p' \<longleftrightarrow> (\<exists>c pose b. p' = p\<lparr>pp_client := c, pd_current_pose := pose, pp_sdk_connected := b\<rparr> \<and>
     (vlk_inv (pp_client p) \<longrightarrow> vlk_inv c))"

lemma sdk_changeI: "p' = p\<lparr>pp_client := c, pd_current_pose := pose, pp_sdk_connected := b\<rparr> \<Longrightarrow>
    (vlk_inv (pp_client p) \<Longrightarrow> vlk_inv c) \<Longrightarrow> sdk_change p p'"
  unfolding sdk_change_def by blast

lemma sdk_change_refl: "sdk_change p p"
  by (rule sdk_changeI [where c = "pp_client p" and pose = "pd_current_pose p" and b = "pp_sdk_connected p"]) simp_all

lemma sdk_changeE:
  assumes "sdk_change p p'"
  obtains c pose b where "p' = p\<lparr>pp_client := c, pd_current_pose := pose, pp_sdk_connected := b\<rparr>"
    "vlk_inv (pp_client p) \<Longrightarrow> vlk_inv c"
  using assms unfolding sdk_change_def by blast

lemma sdk_change_trans:
  assumes "sdk_change p q" "sdk_change q r"
  shows "sdk_change p r"
proof -
  obtain c z b where a: "q = p\<lparr>pp_client := c, pd_current_pose := z, pp_sdk_connected := b\<rparr>" "vlk_inv (pp_client p) \<Longrightarrow> vlk_inv c"
    using assms(1) by (blast elim: sdk_changeE)
  obtain d y e where b: "r = q\<lparr>pp_client := d, pd_current_pose := y, pp_sdk_connected := e\<rparr>" "vlk_inv (pp_client q) \<Longrightarrow> vlk_inv d"
    using assms(2) by (blast elim: sdk_changeE)
  show ?thesis using a b by (intro sdk_changeI [where c = d and pose = y and b = e]) simp_all
qed

lemma connectSDK_change: "connectSDK a ip port p = (r, p') \<Longrightarrow> sdk_change p p'"
proof -
  assume a: "connectSDK a ip port p = (r, p')"
  show ?thesis
  proof (cases "vc_connected (pp_client p)")
    case True
    then show ?thesis using a by (intro sdk_changeI [where c = "pp_client p" and pose = "pd_current_pose p" and b = True]) (simp_all add: connectSDK_def)
  next
    case False
    obtain ok c where i: "vlk_Initialize (va_init a) (pp_client p) = (ok, c)" by fastforce
    have vi: "vlk_inv (pp_client p) \<Longrightarrow> vlk_inv c" using vlk_inv_Initialize [of "pp_client p" "va_init a"] i by simp
    have vo: "ok \<Longrightarrow> vc_initialized c" using i by (auto simp: vlk_Initialize_def split: if_splits)
    let ?c = "c\<lparr>vc_telemetry_cb := True\<rparr>" let ?p = "p\<lparr>pp_sdk_connected := False, pp_client := ?c\<rparr>"
    have v2: "vlk_inv ?c = vlk_inv c" by (simp add: vlk_inv_def)
    obtain c1 z1 where l: "fold sdk_event (va_link a) ?p = ?p\<lparr>pp_client := c1, pd_current_pose := z1\<rparr>"
        "vlk_inv ?c \<Longrightarrow> vc_initialized ?c \<Longrightarrow> vlk_inv c1 \<and> vc_initialized c1"
      using sdk_events_change [of ?p "va_link a"] by (auto elim!: event_changeE)
    let ?q = "?p\<lparr>pp_client := c1, pd_current_pose := z1\<rparr>"
    obtain c2 z2 where m: "fold sdk_event (va_more a) ?q = ?q\<lparr>pp_client := c2, pd_current_pose := z2\<rparr>"
        "vlk_inv c1 \<Longrightarrow> vc_initialized c1 \<Longrightarrow> vlk_inv c2 \<and> vc_initialized c2"
      using sdk_events_change [of ?q "va_more a"] by (auto elim!: event_changeE)
    show ?thesis
    proof (cases ok)
      case False': False
      then show ?thesis using a False i vi
        by (intro sdk_changeI [where c = c and pose = "pd_current_pose p" and b = False]) (auto simp: connectSDK_def)
    next
      case True
      note ok = True
      show ?thesis
      proof (cases "va_connect a ip port")
        case False'': False
        then show ?thesis using a False i ok vi v2 vlk_Shutdown_off [of ?c]
          by (intro sdk_changeI [where c = "vlk_Shutdown ?c" and pose = "pd_current_pose p" and b = False]) (auto simp: connectSDK_def Let_def)
      next
        case True
        show ?thesis
        proof (cases "vc_connected c1")
          case False3: False
          then show ?thesis using a False i ok True l vi v2 vo vlk_Shutdown_off [of c1]
            by (intro sdk_changeI [where c = "vlk_Shutdown c1" and pose = z1 and b = False]) (auto simp: connectSDK_def Let_def)
        next
          case True4: True
          then show ?thesis using a False i ok True l m vi v2 vo
            by (intro sdk_changeI [where c = c2 and pose = z2 and b = "vc_connected c2"]) (auto simp: connectSDK_def Let_def)
        qed
      qed
    qed
  qed
qed

lemma disconnectSDK_change: "sdk_change p (disconnectSDK p)"
proof (cases "pp_sdk_connected p \<or> vc_connected (pp_client p)")
  case True
  then show ?thesis using vlk_Shutdown_off
    by (intro sdk_changeI [where c = "vlk_Shutdown (pp_client p)" and pose = "pd_current_pose p" and b = False]) (auto simp: disconnectSDK_def)
next
  case False
  then show ?thesis
    by (intro sdk_changeI [where c = "pp_client p" and pose = "pd_current_pose p" and b = False]) (auto simp: disconnectSDK_def)
qed

lemma sdk_retry_change: "sdk_retry as ip port r ks p = (r', p') \<Longrightarrow> sdk_change p p'"
proof (induction as ip port r ks p rule: sdk_retry.induct)
  case (2 as ip port r k ks p)
  obtain r1 p1 where c: "connectSDK (as k) ip port p = (r1, p1)" by fastforce
  show ?case
  proof (cases "r1 = SUCCESS")
    case True
    then show ?thesis using 2(2) c connectSDK_change [OF c] by simp
  next
    case False
    then show ?thesis using 2(2) c 2(1) [OF c [symmetric]] sdk_change_trans [OF connectSDK_change [OF c]] by simp
  qed
qed (simp add: sdk_change_refl)

lemma connectFromConfig_change: "connectFromConfig as p = (r, p') \<Longrightarrow> sdk_change p p'"
  unfolding connectFromConfig_def
  by (auto split: if_splits sum.splits prod.splits simp: sdk_change_refl dest: sdk_retry_change)

section \<open>Making sure of the connection\<close>

text \<open>When \<open>ensureSdkConnection\<close> really tries to connect.\<close>

definition ensure_starts :: "u64 \<Rightarrow> PinlingPod \<Rightarrow> bool" where
  "ensure_starts now p \<longleftrightarrow> isCapabilityEnabled p PTZ \<and> \<not> vc_connected (pp_client p) \<and> ps_state (pd_cached_status p) = CONNECTED \<and>
     pp_sdk_reconnect_enabled p \<and> \<not> pp_reconnecting p \<and>
     (pp_last_reconnect_attempt_ms p = 0 \<or> now - pp_last_reconnect_attempt_ms p \<ge> kReconnectCooldownMs)"

definition ptz_texts :: "json \<Rightarrow> bool" where
  "ptz_texts c \<longleftrightarrow> log_ptz_config (readConfig c PTZ) = Inr ()"

definition raw_texts :: "PodInfo \<Rightarrow> bool" where
  "raw_texts i \<longleftrightarrow> (case field (pi_raw_config i) ''capability'' of Some c \<Rightarrow> ptz_texts c | None \<Rightarrow> True)"

lemma log_empty [simp]: "log_ptz_config (JObject []) = Inr ()"
  by (simp add: log_ptz_config_def)

lemma texts_config: "ptz_texts (pd_capability_configs p) \<Longrightarrow> raw_texts (pd_info p) \<Longrightarrow> log_ptz_config (getCapabilityConfig p PTZ) = Inr ()"
  by (auto simp: ptz_texts_def raw_texts_def getCapabilityConfig_def Let_def split: option.split)

lemma connectFromConfig_throws: "connectFromConfig as p = (Inl e, p') \<Longrightarrow> log_ptz_config (getCapabilityConfig p PTZ) \<noteq> Inr ()"
  by (auto simp: connectFromConfig_def split: if_splits sum.splits prod.splits)

lemma capability_cong:
  assumes "pd_capability_configs p = pd_capability_configs q" "pd_info p = pd_info q"
  shows "getCapabilityConfig p t = getCapabilityConfig q t" "isCapabilityEnabled p t = isCapabilityEnabled q t"
  unfolding getCapabilityConfig_def isCapabilityEnabled_def assms by simp_all

lemma ensure_idle:
  assumes "\<not> ensure_starts now p"
  shows "ensureSdkConnection as now p =
    (if \<not> isCapabilityEnabled p PTZ then (Inr CAPABILITY_NOT_SUPPORTED, p)
     else (Inr (if vc_connected (pp_client p) then SUCCESS else NOT_CONNECTED), p\<lparr>pp_sdk_connected := vc_connected (pp_client p)\<rparr>))"
  using assms by (auto simp: ensureSdkConnection_def ensure_starts_def Let_def not_le)

lemma ensure_start:
  assumes "ensure_starts now p" "ensureSdkConnection as now p = (r, p')"
  obtains c pose b where "p' = p\<lparr>pp_client := c, pd_current_pose := pose, pp_sdk_connected := b,
      pp_last_reconnect_attempt_ms := now, pp_reconnecting := isl r\<rparr>" "vlk_inv (pp_client p) \<Longrightarrow> vlk_inv c"
    "isl r \<Longrightarrow> log_ptz_config (getCapabilityConfig p PTZ) \<noteq> Inr ()"
proof -
  let ?p = "p\<lparr>pp_sdk_connected := vc_connected (pp_client p), pp_reconnecting := True, pp_last_reconnect_attempt_ms := now\<rparr>"
  obtain r1 q where q: "connectFromConfig as ?p = (r1, q)" by fastforce
  obtain c pose b where c: "q = ?p\<lparr>pp_client := c, pd_current_pose := pose, pp_sdk_connected := b\<rparr>" "vlk_inv (pp_client p) \<Longrightarrow> vlk_inv c"
    using connectFromConfig_change [OF q] by (auto elim!: sdk_changeE)
  have cfg: "getCapabilityConfig ?p PTZ = getCapabilityConfig p PTZ" by (rule capability_cong) simp_all
  have e: "ensureSdkConnection as now p = (case (r1, q) of (Inl e, p) \<Rightarrow> (Inl e, p)
      | (Inr result, p) \<Rightarrow> (Inr result, p\<lparr>pp_sdk_connected := vc_connected (pp_client p), pp_reconnecting := False\<rparr>))"
    using assms(1) q by (auto simp: ensureSdkConnection_def ensure_starts_def Let_def not_less)
  show ?thesis
  proof (cases r1)
    case (Inl x)
    then show ?thesis using that [where c = c and pose = pose and b = b] e c assms(2) q connectFromConfig_throws [of as ?p x q] cfg by simp
  next
    case (Inr x)
    then show ?thesis using that [where c = c and pose = pose and b = "vc_connected c"] e c assms(2) by simp
  qed
qed

text \<open>Either way the rest of the pod stays as it is.\<close>

lemma ensure_form:
  assumes "ensureSdkConnection as now p = (r, p')"
  obtains c pose b n w where "p' = p\<lparr>pp_client := c, pd_current_pose := pose, pp_sdk_connected := b,
      pp_last_reconnect_attempt_ms := n, pp_reconnecting := w\<rparr>" "vlk_inv (pp_client p) \<Longrightarrow> vlk_inv c"
    "w \<longleftrightarrow> pp_reconnecting p \<or> isl r" "isl r \<Longrightarrow> log_ptz_config (getCapabilityConfig p PTZ) \<noteq> Inr ()"
proof (cases "ensure_starts now p")
  case True
  obtain c pose b where s: "p' = p\<lparr>pp_client := c, pd_current_pose := pose, pp_sdk_connected := b,
      pp_last_reconnect_attempt_ms := now, pp_reconnecting := isl r\<rparr>" "vlk_inv (pp_client p) \<Longrightarrow> vlk_inv c"
    "isl r \<Longrightarrow> log_ptz_config (getCapabilityConfig p PTZ) \<noteq> Inr ()" using ensure_start [OF True assms] by blast
  have "\<not> pp_reconnecting p" using True by (simp add: ensure_starts_def)
  then show ?thesis using that [where c = c and pose = pose and b = b and n = now and w = "isl r"] s by blast
next
  case False
  then have q: "p' = p\<lparr>pp_sdk_connected := if isCapabilityEnabled p PTZ then vc_connected (pp_client p) else pp_sdk_connected p\<rparr>" "\<not> isl r"
    using ensure_idle [OF False, of as] assms by (auto split: if_splits)
  show ?thesis
    by (rule that [where c = "pp_client p" and pose = "pd_current_pose p" and n = "pp_last_reconnect_attempt_ms p"
          and w = "pp_reconnecting p" and b = "if isCapabilityEnabled p PTZ then vc_connected (pp_client p) else pp_sdk_connected p"])
      (use q in simp_all)
qed

section \<open>All calls\<close>

inductive pin_call :: "PinlingPod \<Rightarrow> PinlingPod \<Rightarrow> bool" where
  connect: "PinlingPod_connect as p = (r, p') \<Longrightarrow> pin_call p p'"
| disconnect: "PinlingPod_disconnect p = (c, p') \<Longrightarrow> pin_call p p'"
| refresh: "refreshDeviceStatus pr p = (r, p') \<Longrightarrow> pin_call p p'"
| status: "PinlingPod_getDeviceStatus pr p = (rs, p') \<Longrightarrow> pin_call p p'"
| pose: "PinlingPod_getPose as now p = (rp, p') \<Longrightarrow> pin_call p p'"
| command: "with_sdk as now calls p = (r, cs, p') \<Longrightarrow> pin_call p p'"
| event: "vc_initialized (pp_client p) \<Longrightarrow> pin_call p (sdk_event e p)"
| callback: "pin_call p (setTelemetryCallback b p)"
| start_monitor: "pin_call p (startMonitor c p)"
| stop_monitor: "pin_call p (stopMonitor p)"
| poll_pass: "pod_pass (PinlingPod_polled pr1 pr2 as now) clock t p = (t', p') \<Longrightarrow> pin_call p p'"
| heartbeat: "pin_call p (snd (sendHeartbeat p))"
| start_heartbeat: "pin_call p (snd (startHeartbeat i p))"
| stop_heartbeat: "pin_call p (snd (stopHeartbeat p))"
| laser_on: "pin_call p (snd (enableLaser p))"
| laser_off: "pin_call p (snd (disableLaser p))"
| laser: "pin_call p (snd (PinlingPod_laserMeasure p))"
| stream: "pin_call p (snd (PinlingPod_startStream ty p))"
| stop_stream: "pin_call p (snd (DjiPod_stopStream p))"
| center: "pin_call p (snd (PinlingPod_centerMeasure p))"
| start_measure: "pin_call p (snd (startContinuousMeasure i p))"
| stop_measure: "pin_call p (snd (stopContinuousMeasure p))"

lemmas local_ops = setTelemetryCallback_def startMonitor_def stopMonitor_def sendHeartbeat_def startHeartbeat_def stopHeartbeat_def
  enableLaser_def disableLaser_def PinlingPod_laserMeasure_def measure_laser_def PinlingPod_startStream_def DjiPod_stopStream_def
  PinlingPod_centerMeasure_def measure_center_def startContinuousMeasure_def stopContinuousMeasure_def Let_def

text \<open>What the calls keep, as a relation between the pod before and after: the session stays, the client stays
  consistent, a pending reconnection stays pending, and one is left pending only when the texts of the
  capability are bad.\<close>

definition call_keeps :: "PinlingPod \<Rightarrow> PinlingPod \<Rightarrow> bool" where
  "call_keeps p p' \<longleftrightarrow> pd_info p' = pd_info p \<and> pd_capability_configs p' = pd_capability_configs p \<and>
     (pd_session p \<noteq> None \<longrightarrow> pd_session p' \<noteq> None) \<and> (vlk_inv (pp_client p) \<longrightarrow> vlk_inv (pp_client p')) \<and>
     (pp_reconnecting p \<longrightarrow> pp_reconnecting p') \<and>
     (log_ptz_config (getCapabilityConfig p PTZ) = Inr () \<and> \<not> pp_reconnecting p \<longrightarrow>
        \<not> pp_reconnecting p' \<and> (pd_state p \<noteq> CONNECTING \<longrightarrow> pd_state p' \<noteq> CONNECTING))"

lemma call_keeps_refl: "call_keeps p p"
  by (simp add: call_keeps_def)

lemma call_keeps_trans: "call_keeps p q \<Longrightarrow> call_keeps q r \<Longrightarrow> call_keeps p r"
  using capability_cong(1) [of q p PTZ] by (auto simp: call_keeps_def)

lemma sdk_change_keeps: "sdk_change p p' \<Longrightarrow> call_keeps p p'"
  by (auto simp: call_keeps_def elim!: sdk_changeE)

lemma ensure_keeps: "ensureSdkConnection as now p = (r, p') \<Longrightarrow> call_keeps p p'"
  by (erule ensure_form) (auto simp: call_keeps_def)

lemma ensure_no_throw: "ensureSdkConnection as now p = (Inl e, p') \<Longrightarrow> log_ptz_config (getCapabilityConfig p PTZ) \<noteq> Inr ()"
  by (erule ensure_form) auto

lemma BasePod_connect_keeps: "BasePod_connect (p :: PinlingPod) = (r, p') \<Longrightarrow> call_keeps p p'"
  by (auto simp: BasePod_connect_def call_keeps_def split: if_splits option.splits prod.splits)

lemma connect_keeps: "PinlingPod_connect as p = (r, p') \<Longrightarrow> call_keeps p p'"
proof -
  assume a: "PinlingPod_connect as p = (r, p')"
  obtain c q where b: "BasePod_connect p = (c, q)" by fastforce
  obtain r2 p2 where f: "connectFromConfig as (q\<lparr>pp_sdk_reconnect_enabled := True\<rparr>) = (r2, p2)" by fastforce
  have k: "call_keeps p q" using BasePod_connect_keeps [OF b] .
  have "call_keeps q (q\<lparr>pp_sdk_reconnect_enabled := e\<rparr>)" for e by (simp add: call_keeps_def)
  then show ?thesis using a b f k sdk_change_keeps [OF connectFromConfig_change [OF f]] call_keeps_trans
    by (auto simp: PinlingPod_connect_def split: if_splits sum.splits) blast+
qed

lemma disconnect_keeps: "PinlingPod_disconnect p = (c, p') \<Longrightarrow> call_keeps p p'"
proof -
  assume a: "PinlingPod_disconnect p = (c, p')"
  let ?p = "p\<lparr>pp_sdk_reconnect_enabled := False\<rparr>"
  have "call_keeps p ?p" by (simp add: call_keeps_def)
  moreover have "call_keeps ?p (disconnectSDK ?p)" by (rule sdk_change_keeps [OF disconnectSDK_change])
  moreover have "call_keeps (disconnectSDK ?p) p'" using a
    by (auto simp: PinlingPod_disconnect_def BasePod_disconnect_def call_keeps_def split: if_splits option.splits prod.splits)
  ultimately show ?thesis using call_keeps_trans by blast
qed

lemma refresh_keeps: "refreshDeviceStatus pr p = (r, p') \<Longrightarrow> call_keeps p p'"
proof -
  assume a: "refreshDeviceStatus pr p = (r, p')"
  let ?p = "p\<lparr>pd_cached_status := (pd_cached_status p)\<lparr>ps_state := if pr_ping pr then CONNECTED else DISCONNECTED, ps_error := \<not> pr_ping pr\<rparr>,
      pp_sdk_connected := vc_connected (pp_client p)\<rparr>"
  have k: "call_keeps p ?p" by (simp add: call_keeps_def)
  have st: "call_keeps q (q\<lparr>pd_state := st\<rparr>)" if "st \<noteq> CONNECTING" for q st using that by (simp add: call_keeps_def)
  consider (no_ip) "pi_ip_address (pd_info p) = []"
    | (off) "pi_ip_address (pd_info p) \<noteq> []" "\<not> pr_ping pr"
    | (ensure) "pi_ip_address (pd_info p) \<noteq> []" "pr_ping pr" "pp_sdk_reconnect_enabled p" "\<not> vc_connected (pp_client p)"
    | (idle) "pi_ip_address (pd_info p) \<noteq> []" "pr_ping pr" "\<not> (pp_sdk_reconnect_enabled p \<and> \<not> vc_connected (pp_client p))" by blast
  then show ?thesis
  proof cases
    case no_ip
    then show ?thesis using a by (auto simp: refreshDeviceStatus_def call_keeps_def)
  next
    case off
    then have "p' = (disconnectSDK ?p)\<lparr>pd_state := DISCONNECTED\<rparr>" using a by (simp add: refreshDeviceStatus_def Let_def)
    then show ?thesis using k sdk_change_keeps [OF disconnectSDK_change] st call_keeps_trans by blast
  next
    case ensure
    obtain r1 q where e: "ensureSdkConnection (pr_attempts pr) (pr_now pr) ?p = (r1, q)" by fastforce
    have kq: "call_keeps p q" using k ensure_keeps [OF e] call_keeps_trans by blast
    show ?thesis
    proof (cases r1)
      case (Inl x)
      then show ?thesis using a e kq ensure by (simp add: refreshDeviceStatus_def Let_def)
    next
      case (Inr c)
      then have "p' = q\<lparr>pd_state := if c = SUCCESS then CONNECTED else if pp_reconnecting q then CONNECTING else ERROR\<rparr>"
        using a e ensure by (simp add: refreshDeviceStatus_def Let_def)
      then show ?thesis using kq by (simp add: call_keeps_def)
    qed
  next
    case idle
    then have "p' = ?p\<lparr>pd_state := CONNECTED\<rparr> \<or> p' = ?p\<lparr>pd_state := DISCONNECTED\<rparr>"
      using a by (auto simp: refreshDeviceStatus_def Let_def split: if_splits)
    then show ?thesis using k st call_keeps_trans by blast
  qed
qed

lemma refresh_no_throw: "refreshDeviceStatus pr p = (Inl e, p') \<Longrightarrow> log_ptz_config (getCapabilityConfig p PTZ) \<noteq> Inr ()"
proof -
  assume a: "refreshDeviceStatus pr p = (Inl e, p')"
  let ?p = "p\<lparr>pd_cached_status := (pd_cached_status p)\<lparr>ps_state := if pr_ping pr then CONNECTED else DISCONNECTED, ps_error := \<not> pr_ping pr\<rparr>,
      pp_sdk_connected := vc_connected (pp_client p)\<rparr>"
  have "getCapabilityConfig ?p PTZ = getCapabilityConfig p PTZ" by (rule capability_cong) simp_all
  moreover have "\<exists>x q. ensureSdkConnection (pr_attempts pr) (pr_now pr) ?p = (Inl x, q)"
    using a by (auto simp: refreshDeviceStatus_def Let_def split: if_splits prod.splits sum.splits)
  ultimately show ?thesis using ensure_no_throw by metis
qed

lemma status_keeps: "PinlingPod_getDeviceStatus pr p = (r, p') \<Longrightarrow> call_keeps p p'"
  using refresh_keeps by (fastforce simp: PinlingPod_getDeviceStatus_def split: prod.splits sum.splits if_splits)

lemma pose_keeps: "PinlingPod_getPose as now p = (r, p') \<Longrightarrow> call_keeps p p'"
proof -
  assume a: "PinlingPod_getPose as now p = (r, p')"
  obtain r1 q where e: "ensureSdkConnection as now p = (r1, q)" by fastforce
  then have "p' = q \<or> (\<exists>z. p' = q\<lparr>pd_current_pose := z\<rparr>)"
    using a by (auto simp: PinlingPod_getPose_def Let_def split: sum.splits if_splits)
  moreover have "call_keeps q (q\<lparr>pd_current_pose := z\<rparr>)" for z by (simp add: call_keeps_def)
  ultimately show ?thesis using ensure_keeps [OF e] call_keeps_trans by blast
qed

lemma with_sdk_keeps: "with_sdk as now calls p = (r, cs, p') \<Longrightarrow> call_keeps p p'"
  using ensure_keeps by (fastforce simp: with_sdk_def split: prod.splits sum.splits if_splits)

lemma event_keeps: "vc_initialized (pp_client p) \<Longrightarrow> call_keeps p (sdk_event e p)"
proof -
  assume i: "vc_initialized (pp_client p)"
  obtain c z where "sdk_event e p = p\<lparr>pp_client := c, pd_current_pose := z\<rparr>"
      "vlk_inv (pp_client p) \<Longrightarrow> vc_initialized (pp_client p) \<Longrightarrow> vlk_inv c \<and> vc_initialized c"
    using sdk_event_change [of p e] by (auto elim!: event_changeE)
  then show ?thesis using i by (simp add: call_keeps_def)
qed

lemma pass_keeps:
  assumes "pod_pass (PinlingPod_polled pr1 pr2 as now) clock t p = (t', p')"
  shows "call_keeps p p'"
proof -
  obtain m q where m: "monitor_pass (PinlingPod_polled pr1 pr2 as now) clock t (pd_monitor p) p = (t', m, q)" "p' = q\<lparr>pd_monitor := m\<rparr>"
    using assms by (auto simp: pod_pass_def split: prod.splits)
  have "call_keeps p (snd (call_status (PinlingPod_polled pr1 pr2 as now) p))" for p
    using refresh_keeps status_keeps call_keeps_trans
    by (fastforce simp: PinlingPod_polled_def split: prod.split sum.split)
  moreover have "call_keeps p (snd (call_pose (PinlingPod_polled pr1 pr2 as now) p))" for p
    using pose_keeps by (fastforce simp: PinlingPod_polled_def split: prod.split sum.split)
  moreover have "call_keeps p (snd (call_laser (PinlingPod_polled pr1 pr2 as now) p))" for p
    by (auto simp: PinlingPod_polled_def local_ops call_keeps_def split: prod.split)
  moreover have "call_keeps p (snd (call_stream (PinlingPod_polled pr1 pr2 as now) p))" for p
    by (simp add: PinlingPod_polled_def call_keeps_refl)
  ultimately have "call_keeps p q"
    by (intro monitor_pass_pod [where R = call_keeps, OF call_keeps_refl _ _ _ _ _ m(1)]) (auto intro: call_keeps_trans)
  moreover have "call_keeps q p'" using m(2) by (simp add: call_keeps_def)
  ultimately show ?thesis by (rule call_keeps_trans)
qed

lemma pin_call_keeps: "pin_call p p' \<Longrightarrow> call_keeps p p'"
proof (induction rule: pin_call.induct)
  case (connect as p r p') then show ?case by (rule connect_keeps)
next
  case (disconnect p c p') then show ?case by (rule disconnect_keeps)
next
  case (refresh pr p r p') then show ?case by (rule refresh_keeps)
next
  case (status pr p rs p') then show ?case by (rule status_keeps)
next
  case (pose as now p rp p') then show ?case by (rule pose_keeps)
next
  case (command as now calls p r cs p') then show ?case by (rule with_sdk_keeps)
next
  case (event p e) then show ?case by (rule event_keeps)
next
  case (poll_pass pr1 pr2 as now clock t p t' p') then show ?case by (rule pass_keeps)
qed (auto simp: local_ops call_keeps_def)

section \<open>A pod with well-formed texts\<close>

definition pin_inv :: "PinlingPod \<Rightarrow> bool" where
  "pin_inv p \<longleftrightarrow> pd_session p \<noteq> None \<and> vlk_inv (pp_client p) \<and> \<not> pp_reconnecting p \<and> pd_state p \<noteq> CONNECTING \<and>
     ptz_texts (pd_capability_configs p) \<and> raw_texts (pd_info p)"

text \<open>Calls, and new configurations whose capability \<open>PTZ\<close> has texts only.\<close>

inductive pin_step :: "PinlingPod \<Rightarrow> PinlingPod \<Rightarrow> bool" where
  call: "pin_call p p' \<Longrightarrow> pin_step p p'"
| capabilities: "ptz_texts c \<Longrightarrow> pin_step p (setCapabilityConfigs c p)"
| init: "(case field cfg ''capability'' of Some c \<Rightarrow> ptz_texts c | None \<Rightarrow> True) \<Longrightarrow> PinlingPod_Init cfg p = (r, p') \<Longrightarrow> pin_step p p'"

definition pin_start :: "PinlingPod \<Rightarrow> bool" where
  "pin_start p \<longleftrightarrow> (\<exists>info. raw_texts info \<and> p = PinlingPod_ctor info)"

lemma onInit_inv:
  assumes "PinlingPod_onInit cfg p = (r, p')" "vlk_inv (pp_client p)" "pd_state p \<noteq> CONNECTING"
    "ptz_texts (pd_capability_configs p)" "raw_texts (pd_info p)"
  shows "pin_inv p'"
proof -
  let ?s = "if pd_session p = None then setSession (Some (Session_ctor PinlingSession)) p else p"
  define q where "q = (if vc_connected (pp_client ?s) then disconnectSDK ?s else ?s)"
  have "sdk_change ?s q" unfolding q_def by (auto intro: sdk_change_refl disconnectSDK_change)
  then have q: "pd_session q = pd_session ?s" "pd_state q = pd_state ?s" "pd_capability_configs q = pd_capability_configs ?s"
      "pd_info q = pd_info ?s" "vlk_inv (pp_client ?s) \<Longrightarrow> vlk_inv (pp_client q)"
    by (auto elim!: sdk_changeE)
  have "p' = q\<lparr>pp_sdk_connected := False, pp_sdk_reconnect_enabled := False, pp_reconnecting := False, pp_last_reconnect_attempt_ms := 0\<rparr>"
    using assms(1) unfolding PinlingPod_onInit_def Let_def q_def [symmetric] by (auto split: if_splits sum.splits)
  then show ?thesis using q assms by (auto simp: pin_inv_def setSession_def)
qed

lemma Init_inv:
  assumes "PinlingPod_Init cfg p = (r, p')" "pin_inv p" "case field cfg ''capability'' of Some c \<Rightarrow> ptz_texts c | None \<Rightarrow> True"
  shows "pin_inv p'"
proof (cases "is_object cfg \<and> \<not> isConnected p")
  case True
  let ?q = "init_common cfg p"
  obtain r1 p1 where o: "PinlingPod_onInit cfg ?q = (r1, p1)" by fastforce
  have c: "pp_client ?q = pp_client p"
    by (auto simp: init_common_def Let_def resetRuntimeState_def setCapabilityConfigs_def stopMonitor_def split: option.split)
  have "ptz_texts (JObject [])" by (simp add: ptz_texts_def readConfig_def)
  then have t: "ptz_texts (pd_capability_configs ?q)" "raw_texts (update_info cfg (pd_info p))"
    using assms(3) by (auto simp: init_common_rest raw_texts_def update_info_def split: option.splits)
  have "pin_inv p1" using onInit_inv [OF o] c t assms(2) by (simp add: pin_inv_def init_common_rest)
  moreover have "p' = p1 \<or> p' = p1\<lparr>pd_state := ERROR\<rparr>"
    using assms(1) o True by (auto simp: PinlingPod_Init_def BasePod_Init_def split: if_splits prod.splits)
  ultimately show ?thesis by (auto simp: pin_inv_def)
next
  case False
  then show ?thesis using assms by (auto simp: PinlingPod_Init_def BasePod_Init_def split: if_splits)
qed

interpretation pinling: invariant_system pin_start pin_step pin_inv
proof
  show "pin_inv p" if "pin_start p" for p
    using that by (auto simp: pin_start_def pin_inv_def PinlingPod_ctor_def setSession_def BasePod_ctor_def BasePod.extend_def
        ptz_texts_def readConfig_def)
  show "pin_inv p'" if i: "pin_inv p" and s: "pin_step p p'" for p p'
    using s
  proof cases
    case call
    have "log_ptz_config (getCapabilityConfig p PTZ) = Inr ()" using i texts_config [of p] by (simp add: pin_inv_def)
    then show ?thesis using i pin_call_keeps [OF call] by (auto simp: pin_inv_def call_keeps_def)
  next
    case (capabilities c)
    then show ?thesis using i by (simp add: pin_inv_def setCapabilityConfigs_def)
  next
    case (init cfg r)
    then show ?thesis using Init_inv i by blast
  qed
qed

lemma connect_no_throw: "log_ptz_config (getCapabilityConfig p PTZ) = Inr () \<Longrightarrow> \<not> isl (fst (PinlingPod_connect as p))"
proof -
  assume a: "log_ptz_config (getCapabilityConfig p PTZ) = Inr ()"
  obtain c q where b: "BasePod_connect p = (c, q)" by fastforce
  then have "pd_capability_configs q = pd_capability_configs p" "pd_info q = pd_info p"
    by (auto simp: BasePod_connect_def split: if_splits option.splits prod.splits)
  then have "log_ptz_config (getCapabilityConfig (q\<lparr>pp_sdk_reconnect_enabled := True\<rparr>) PTZ) = Inr ()"
    using a capability_cong(1) [of "q\<lparr>pp_sdk_reconnect_enabled := True\<rparr>" p PTZ] by simp
  then show ?thesis using b connectFromConfig_throws [of as "q\<lparr>pp_sdk_reconnect_enabled := True\<rparr>"]
    by (auto simp: PinlingPod_connect_def split: prod.split sum.split)
qed

text \<open>A pod whose configurations give texts for \<open>open\<close> and \<open>description\<close> of the capability \<open>PTZ\<close>, in every state it can
  reach by its calls, passes of its monitor, callbacks of the SDK and new configurations, each behind
  the other: it has a session, the flags of the SDK agree, no reconnection is left pending and the state is not left at
  \<open>CONNECTING\<close>; and connecting, refreshing the status and asking for the pose do not throw.\<close>

theorem pinling_invariant:
  assumes "pin_start p" and "pin_step\<^sup>*\<^sup>* p q"
  shows "pd_session q \<noteq> None \<and> (vc_connected (pp_client q) \<longleftrightarrow> vc_tcp_connected (pp_client q) \<or> vc_serial_connected (pp_client q)) \<and>
    (vc_connected (pp_client q) \<longrightarrow> vc_initialized (pp_client q)) \<and> \<not> pp_reconnecting q \<and> pd_state q \<noteq> CONNECTING \<and>
    \<not> isl (fst (PinlingPod_connect as q)) \<and> \<not> isl (fst (refreshDeviceStatus pr q)) \<and> \<not> isl (fst (PinlingPod_getPose as now q))"
proof -
  have i: "pin_inv q" using pinling.reachable_inv assms by blast
  then have t: "log_ptz_config (getCapabilityConfig q PTZ) = Inr ()" using texts_config [of q] by (simp add: pin_inv_def)
  have "\<not> isl (fst (refreshDeviceStatus pr q))"
    using t refresh_no_throw [of pr q] by (cases "refreshDeviceStatus pr q"; cases "fst (refreshDeviceStatus pr q)") auto
  moreover have "\<not> isl (fst (PinlingPod_getPose as now q))"
    using t ensure_no_throw [of as now q] by (auto simp: PinlingPod_getPose_def Let_def split: prod.split sum.split)
  ultimately show ?thesis using i connect_no_throw [OF t] by (auto simp: pin_inv_def vlk_inv_def)
qed

section \<open>A reconnection that throws\<close>

text \<open>Calls and new capabilities, whatever they hold; \<open>Init\<close> is left out.\<close>

inductive pin_any :: "PinlingPod \<Rightarrow> PinlingPod \<Rightarrow> bool" where
  any_call: "pin_call p p' \<Longrightarrow> pin_any p p'"
| any_capabilities: "pin_any p (setCapabilityConfigs c p)"

lemma pin_any_pending: "pin_any\<^sup>*\<^sup>* p q \<Longrightarrow> pp_reconnecting p \<Longrightarrow> pp_reconnecting q"
proof (induction rule: rtranclp_induct)
  case (step q r)
  then show ?case using pin_call_keeps [of q r] by (auto elim!: pin_any.cases simp: call_keeps_def setCapabilityConfigs_def)
qed simp

text \<open>When an attempt to reconnect throws, because \<open>open\<close> or \<open>description\<close> of the capability is no text, the attempt
  counts as pending for good: after any further calls, as long as the SDK is not connected by other means,
  no call reconnects, even when the capabilities have been corrected.\<close>

theorem bad_open_blocks_reconnect:
  assumes "ensureSdkConnection as now p = (Inl e, p1)" and "pin_any\<^sup>*\<^sup>* p1 q" and "\<not> vc_connected (pp_client q)"
  shows "\<exists>q'. ensureSdkConnection as' now' q = (Inr (if isCapabilityEnabled q PTZ then NOT_CONNECTED else CAPABILITY_NOT_SUPPORTED), q') \<and>
    pp_client q' = pp_client q \<and> pp_reconnecting q'"
proof -
  have "pp_reconnecting p1" using assms(1) by (rule ensure_form) auto
  then have r: "pp_reconnecting q" using pin_any_pending assms(2) by blast
  then have "\<not> ensure_starts now' q" by (simp add: ensure_starts_def)
  from ensure_idle [OF this, of as'] show ?thesis using r assms(3) by auto
qed

section \<open>The cooldown\<close>

text \<open>The times at which \<open>ensureSdkConnection\<close> tries to connect, over calls of it with callbacks in between.\<close>

fun reconnects :: "(vlk_event list \<times> (nat \<Rightarrow> vlk_attempt) \<times> u64) list \<Rightarrow> PinlingPod \<Rightarrow> u64 list" where
  "reconnects [] p = []"
| "reconnects ((events, as, now) # rest) p =
     (let p = fold sdk_event events p; p' = snd (ensureSdkConnection as now p)
      in (if pp_last_reconnect_attempt_ms p' \<noteq> pp_last_reconnect_attempt_ms p then [now] else []) @ reconnects rest p')"

lemma ensure_last:
  "pp_last_reconnect_attempt_ms (snd (ensureSdkConnection as now p)) = (if ensure_starts now p then now else pp_last_reconnect_attempt_ms p)"
proof (cases "ensure_starts now p")
  case True
  obtain r p' where e: "ensureSdkConnection as now p = (r, p')" by fastforce
  show ?thesis by (rule ensure_start [OF True e]) (use True e in simp)
next
  case False
  then show ?thesis using ensure_idle [OF False, of as] by simp
qed

lemma events_last: "pp_last_reconnect_attempt_ms (fold sdk_event es p) = pp_last_reconnect_attempt_ms p"
  using sdk_events_change [of p es] by (auto elim!: event_changeE)

lemma reconnects_spaced:
  assumes "sorted (map (unat \<circ> snd \<circ> snd) calls)" "\<forall>c \<in> set calls. pp_last_reconnect_attempt_ms p \<le> snd (snd c) \<and> snd (snd c) \<noteq> 0"
  shows "sorted_wrt (\<lambda>s t. unat s + 5000 \<le> unat t) (reconnects calls p) \<and>
    (\<forall>t \<in> set (reconnects calls p). pp_last_reconnect_attempt_ms p = 0 \<or> unat (pp_last_reconnect_attempt_ms p) + 5000 \<le> unat t)"
  using assms
proof (induction calls arbitrary: p)
  case (Cons c calls)
  obtain es as now where c: "c = (es, as, now)" by (cases c) auto
  let ?p = "fold sdk_event es p" let ?q = "snd (ensureSdkConnection as now ?p)"
  let ?l = "pp_last_reconnect_attempt_ms p"
  have lp: "pp_last_reconnect_attempt_ms ?p = ?l" by (rule events_last)
  have now: "?l \<le> now" "now \<noteq> 0" using Cons.prems(2) c by auto
  have later: "\<forall>d \<in> set calls. now \<le> snd (snd d)" using Cons.prems(1) c by (auto simp: word_le_nat_alt)
  have lq: "pp_last_reconnect_attempt_ms ?q = (if ensure_starts now ?p then now else ?l)" by (simp add: ensure_last lp)
  have "\<forall>d \<in> set calls. pp_last_reconnect_attempt_ms ?q \<le> snd (snd d) \<and> snd (snd d) \<noteq> 0"
    using lq later Cons.prems(2) by auto
  then have IH: "sorted_wrt (\<lambda>s t. unat s + 5000 \<le> unat t) (reconnects calls ?q)"
      "\<forall>t \<in> set (reconnects calls ?q). pp_last_reconnect_attempt_ms ?q = 0 \<or> unat (pp_last_reconnect_attempt_ms ?q) + 5000 \<le> unat t"
    using Cons.IH [of ?q] Cons.prems(1) c by auto
  show ?case
  proof (cases "ensure_starts now ?p")
    case True
    then have "?l = 0 \<or> now - ?l \<ge> 5000" by (simp add: ensure_starts_def lp kReconnectCooldownMs_def)
    moreover have "unat (now - ?l) = unat now - unat ?l" "unat ?l \<le> unat now" using now(1) by (simp_all add: unat_sub word_le_nat_alt)
    ultimately have sp: "?l = 0 \<or> unat ?l + 5000 \<le> unat now" by (auto simp: word_le_nat_alt)
    have ne: "now \<noteq> ?l" using sp now(2) by auto
    have "reconnects (c # calls) p = now # reconnects calls ?q" using c lq lp ne True by (simp add: Let_def)
    then show ?thesis using IH lq True now(2) sp by fastforce
  next
    case False
    then have "reconnects (c # calls) p = reconnects calls ?q" using c lq lp by (simp add: Let_def)
    then show ?thesis using IH lq False by simp
  qed
qed simp

text \<open>Reconnections keep their distance: over any sequence of calls that make sure of the connection, with callbacks
  of the SDK in between and a clock that does not go back, two attempts are at least 5000 milliseconds
  apart, and a call that is no attempt leaves the SDK alone.\<close>

theorem reconnect_cooldown:
  assumes "sorted (map (unat \<circ> snd \<circ> snd) calls)" and "\<forall>c \<in> set calls. pp_last_reconnect_attempt_ms p \<le> snd (snd c) \<and> snd (snd c) \<noteq> 0"
  shows "sorted_wrt (\<lambda>s t. unat s + 5000 \<le> unat t) (reconnects calls p) \<and>
    (now \<noteq> 0 \<and> pp_last_reconnect_attempt_ms (snd (ensureSdkConnection as now q)) = pp_last_reconnect_attempt_ms q \<longrightarrow>
       pp_client (snd (ensureSdkConnection as now q)) = pp_client q)"
proof -
  have "\<not> ensure_starts now q"
    if "now \<noteq> 0" "pp_last_reconnect_attempt_ms (snd (ensureSdkConnection as now q)) = pp_last_reconnect_attempt_ms q"
    using that ensure_last [of as now q] by (auto simp: ensure_starts_def kReconnectCooldownMs_def)
  then show ?thesis using reconnects_spaced [OF assms] ensure_idle [of now q as] by auto
qed

section \<open>A device that goes offline\<close>

text \<open>When a ping of a connected pod fails, the pod becomes \<open>DISCONNECTED\<close> but its session stays connected. Then
  \<open>disconnect\<close> refuses and \<open>connect\<close> fails with \<open>ALREADY_CONNECTED\<close> and leaves the pod in the state \<open>ERROR\<close>; only
  after that \<open>disconnect\<close> frees the session and the next \<open>connect\<close> gets to the SDK again.\<close>

theorem offline_strands_session:
  assumes "pd_session p = Some s" and "se_connected s" and "pi_ip_address (pd_info p) \<noteq> []" and "\<not> pr_ping pr"
    and "refreshDeviceStatus pr p = (r, p1)" and "PinlingPod_connect as p1 = (r2, p2)" and "PinlingPod_disconnect p2 = (c3, p3)"
  shows "r = Inr SUCCESS \<and> pd_state p1 = DISCONNECTED \<and> fst (PinlingPod_disconnect p1) = NOT_CONNECTED \<and>
    pd_session (snd (PinlingPod_disconnect p1)) = Some s \<and> r2 = Inr ALREADY_CONNECTED \<and> pd_state p2 = ERROR \<and>
    c3 = SUCCESS \<and> pd_state p3 = DISCONNECTED \<and> fst (BasePod_connect p3) = SUCCESS"
proof -
  have d: "pd_session (disconnectSDK q) = pd_session q \<and> pd_state (disconnectSDK q) = pd_state q" for q
    using disconnectSDK_change [of q] by (auto elim!: sdk_changeE)
  have 1: "r = Inr SUCCESS" "pd_state p1 = DISCONNECTED" "pd_session p1 = Some s"
    using assms(1,3,4,5) d by (auto simp: refreshDeviceStatus_def Let_def)
  have 2: "r2 = Inr ALREADY_CONNECTED" "p2 = p1\<lparr>pd_state := ERROR\<rparr>"
    using assms(2,6) 1 by (auto simp: PinlingPod_connect_def BasePod_connect_def session_connect_def)
  have "c3 = doDisconnect (se_class s)" "pd_state p3 = DISCONNECTED" "pd_session p3 = Some (s\<lparr>se_connected := False\<rparr>)"
    using assms(2,7) 1 2 d by (auto simp: PinlingPod_disconnect_def BasePod_disconnect_def session_disconnect_def)
  moreover have "doDisconnect k = SUCCESS" "doConnect k h q = SUCCESS" for k h q by (cases k; simp)+
  ultimately show ?thesis using 1 2 d
    by (simp add: PinlingPod_disconnect_def BasePod_disconnect_def BasePod_connect_def session_connect_def Let_def)
qed

section \<open>Odd effects\<close>

definition demo_info :: PodInfo where
  "demo_info = \<lparr>pi_pod_id = ''p'', pi_pod_name = ''p'', pi_vendor = PINLING, pi_model = '''', pi_firmware_ver = '''',
     pi_ip_address = ''10.0.0.2'', pi_port = 2000, pi_raw_config = JObject []\<rparr>"

text \<open>An SDK that connects at once, one that is never reached, and a ping that succeeds.\<close>

definition demo_up :: "nat \<Rightarrow> vlk_attempt" where
  "demo_up = (\<lambda>_. \<lparr>va_init = True, va_connect = (\<lambda>_ _. True), va_link = [ConnEvent TcpConnected], va_more = []\<rparr>)"

definition demo_down :: "nat \<Rightarrow> vlk_attempt" where
  "demo_down = (\<lambda>_. \<lparr>va_init = True, va_connect = (\<lambda>_ _. False), va_link = [], va_more = []\<rparr>)"

definition demo_probe :: "bool \<Rightarrow> u64 \<Rightarrow> probe" where
  "demo_probe ping now = \<lparr>pr_ping = ping, pr_now = now, pr_attempts = demo_down\<rparr>"

definition demo_pod :: PinlingPod where
  "demo_pod = snd (PinlingPod_connect demo_up (PinlingPod_ctor demo_info))"

text \<open>The link breaks and then a ping fails: \<open>disconnectSDK\<close> finds nothing to do and leaves the SDK running, and
  \<open>disconnect\<close> does not stop it either. When the SDK has its link back, the pod counts as connected again.\<close>

lemma disconnect_leaves_sdk:
  "let p = sdk_event (ConnEvent TcpDisconnected) demo_pod;
       p = snd (refreshDeviceStatus (demo_probe False 1) p);
       p = snd (PinlingPod_disconnect p);
       q = snd (refreshDeviceStatus (demo_probe True 2) (sdk_event (ConnEvent TcpConnected) p))
   in vc_initialized (pp_client p) \<and> pd_state p = DISCONNECTED \<and> pd_state q = CONNECTED"
  by code_simp

text \<open>A pod without the capability \<open>PTZ\<close>: connected, and the first successful ping takes it to \<open>DISCONNECTED\<close>.\<close>

lemma ping_disconnects_without_ptz:
  "let caps = JObject [(''PTZ'', JObject [(''open'', JString ''disable'')])];
       p = snd (PinlingPod_connect demo_up (setCapabilityConfigs caps (PinlingPod_ctor demo_info)))
   in pd_state p = CONNECTED \<and> pd_state (snd (refreshDeviceStatus (demo_probe True 1) p)) = DISCONNECTED"
  by code_simp

text \<open>A slow zoom in is cast to the speed 0, which zooms out.\<close>

lemma slow_zoom_in_zooms_out:
  "fp_moves F (pc_zoom_speed cmd) \<Longrightarrow> fp_int F (pc_zoom_speed cmd) = 0 \<Longrightarrow> VLK_ZoomOut 0 \<in> set (controlSpeed_calls F cmd)"
  by (simp add: controlSpeed_calls_def zoom_step_def)

text \<open>The port of a pod is cut to 16 bits, the one of \<open>init_args\<close> is checked.\<close>

lemma pod_port_is_cut:
  "pi_port (update_info (JObject [(''port'', JUnsigned 67536)]) demo_info) = 2000 \<and>
   init_args_port (JObject [(''port'', JUnsigned 67536)]) 1 = Inl UNKNOWN_ERROR"
  by (simp add: update_info_def init_args_port_def demo_info_def)

section \<open>Witnesses\<close>

lemma demo_start: "pin_start (PinlingPod_ctor demo_info)"
  unfolding pin_start_def by (rule exI [of _ demo_info]) (simp add: raw_texts_def demo_info_def)

lemma demo_reached: "pin_step\<^sup>*\<^sup>* (PinlingPod_ctor demo_info) demo_pod"
proof -
  obtain r where "PinlingPod_connect demo_up (PinlingPod_ctor demo_info) = (r, demo_pod)"
    by (cases "PinlingPod_connect demo_up (PinlingPod_ctor demo_info)") (simp add: demo_pod_def)
  then show ?thesis by (intro r_into_rtranclp pin_step.call pin_call.connect)
qed

lemma demo_pod_state:
  "pd_state demo_pod = CONNECTED \<and> vc_connected (pp_client demo_pod) \<and> pp_sdk_connected demo_pod \<and> pp_sdk_reconnect_enabled demo_pod \<and>
   pp_last_reconnect_attempt_ms demo_pod = 0 \<and> pd_session demo_pod = Some (Session_ctor PinlingSession\<lparr>se_host := ''10.0.0.2'', se_port := 2000, se_connected := True\<rparr>)"
  by code_simp

theorem pinling_invariant_witness: "vc_tcp_connected (pp_client demo_pod) \<or> vc_serial_connected (pp_client demo_pod)"
  using pinling_invariant [OF demo_start demo_reached, of demo_up "demo_probe True 0" 0] demo_pod_state by blast

definition bad_open_pod :: PinlingPod where
  "bad_open_pod = (setCapabilityConfigs (JObject [(''PTZ'', JObject [(''open'', JBool True)])]) (PinlingPod_ctor demo_info))
     \<lparr>pp_sdk_reconnect_enabled := True, pd_cached_status := PodStatus_init\<lparr>ps_state := CONNECTED\<rparr>\<rparr>"

theorem bad_open_blocks_reconnect_witness:
  "\<exists>q'. ensureSdkConnection demo_up 99999 (snd (ensureSdkConnection demo_up 1 bad_open_pod)) = (Inr NOT_CONNECTED, q') \<and> pp_reconnecting q'"
proof -
  have e: "ensureSdkConnection demo_up 1 bad_open_pod = (Inl (WrongType ''open''), snd (ensureSdkConnection demo_up 1 bad_open_pod))"
    and c: "\<not> vc_connected (pp_client (snd (ensureSdkConnection demo_up 1 bad_open_pod)))"
    and t: "isCapabilityEnabled (snd (ensureSdkConnection demo_up 1 bad_open_pod)) PTZ" by code_simp+
  show ?thesis using bad_open_blocks_reconnect [OF e rtranclp.rtrancl_refl c, of demo_up 99999] t by auto
qed

theorem reconnect_cooldown_witness:
  "let p = snd (refreshDeviceStatus (demo_probe True 7) (sdk_event (ConnEvent TcpDisconnected) demo_pod));
       ts = reconnects [([], demo_down, 100), ([], demo_down, 5006), ([], demo_down, 5007)] p
   in ts = [5007] \<and> sorted_wrt (\<lambda>s t. unat s + 5000 \<le> unat t) ts"
proof -
  define p where "p = snd (refreshDeviceStatus (demo_probe True 7) (sdk_event (ConnEvent TcpDisconnected) demo_pod))"
  have l: "pp_last_reconnect_attempt_ms p = 7" and ts: "reconnects [([], demo_down, 100), ([], demo_down, 5006), ([], demo_down, 5007)] p = [5007]"
    unfolding p_def by code_simp+
  have s: "sorted (map (unat \<circ> snd \<circ> snd) [([] :: vlk_event list, demo_down, 100 :: u64), ([], demo_down, 5006), ([], demo_down, 5007)])"
    "\<forall>c \<in> set [([] :: vlk_event list, demo_down, 100 :: u64), ([], demo_down, 5006), ([], demo_down, 5007)].
       pp_last_reconnect_attempt_ms p \<le> snd (snd c) \<and> snd (snd c) \<noteq> 0" using l by simp_all
  show ?thesis using reconnect_cooldown [OF s] ts unfolding p_def [symmetric] Let_def by blast
qed

theorem offline_strands_session_witness:
  "let p1 = snd (refreshDeviceStatus (demo_probe False 1) demo_pod); p2 = snd (PinlingPod_connect demo_up p1)
   in fst (PinlingPod_connect demo_up p1) = Inr ALREADY_CONNECTED \<and> pd_state p2 = ERROR \<and> fst (PinlingPod_disconnect p2) = SUCCESS"
proof -
  let ?p1 = "snd (refreshDeviceStatus (demo_probe False 1) demo_pod)" let ?p2 = "snd (PinlingPod_connect demo_up ?p1)"
  have ip: "pi_ip_address (pd_info demo_pod) \<noteq> []" by code_simp
  show ?thesis
    using offline_strands_session [of demo_pod _ "demo_probe False 1" "fst (refreshDeviceStatus (demo_probe False 1) demo_pod)" ?p1
        demo_up "fst (PinlingPod_connect demo_up ?p1)" ?p2 "fst (PinlingPod_disconnect ?p2)" "snd (PinlingPod_disconnect ?p2)"]
      demo_pod_state ip by (simp add: demo_probe_def Let_def)
qed

end
