(* ===== verification/PodManager.thy ===== *)
theory PodManager
  imports PinlingPod
begin

text \<open>
  \<open>src/util/my_pod/manager\<close> and \<open>registry\<close>: the collection of pods, made from a configuration. A pod is one of two
  classes and a virtual call chooses the operation of its class. The registry owns its pods, in an order
  of its own; what
  \<open>Shutdown\<close> and \<open>removePod\<close> leave to other holders of the pointers is returned. \<open>trunc\<close> is the cast of a float
  in the configuration to an integer.
\<close>

section \<open>Virtual calls\<close>

datatype pod = Dji BasePod | Pinling PinlingPod

fun pod_getPodInfo :: "pod \<Rightarrow> PodInfo" where
  "pod_getPodInfo (Dji p) = pd_info p"
| "pod_getPodInfo (Pinling p) = pd_info p"

fun pod_getState :: "pod \<Rightarrow> PodState" where
  "pod_getState (Dji p) = pd_state p"
| "pod_getState (Pinling p) = pd_state p"

fun pod_isConnected :: "pod \<Rightarrow> bool" where
  "pod_isConnected (Dji p) = isConnected p"
| "pod_isConnected (Pinling p) = isConnected p"

fun pod_isMonitorRunning :: "pod \<Rightarrow> bool" where
  "pod_isMonitorRunning (Dji p) = isMonitorRunning p"
| "pod_isMonitorRunning (Pinling p) = isMonitorRunning p"

fun pod_getRuntimeStatus :: "pod \<Rightarrow> PodRuntimeStatus" where
  "pod_getRuntimeStatus (Dji p) = mn_runtime (pd_monitor p)"
| "pod_getRuntimeStatus (Pinling p) = mn_runtime (pd_monitor p)"

fun pod_Init :: "json \<Rightarrow> pod \<Rightarrow> PodErrorCode \<times> pod" where
  "pod_Init cfg (Dji p) = map_prod id Dji (BasePod_Init BasePod_onInit cfg p)"
| "pod_Init cfg (Pinling p) = map_prod id Pinling (PinlingPod_Init cfg p)"

fun pod_connect :: "(nat \<Rightarrow> vlk_attempt) \<Rightarrow> pod \<Rightarrow> (json_exn + PodErrorCode) \<times> pod" where
  "pod_connect as (Dji p) = map_prod Inr Dji (BasePod_connect p)"
| "pod_connect as (Pinling p) = map_prod id Pinling (PinlingPod_connect as p)"

fun pod_disconnect :: "pod \<Rightarrow> PodErrorCode \<times> pod" where
  "pod_disconnect (Dji p) = map_prod id Dji (BasePod_disconnect p)"
| "pod_disconnect (Pinling p) = map_prod id Pinling (PinlingPod_disconnect p)"

fun pod_startMonitor :: "PodMonitorConfig \<Rightarrow> pod \<Rightarrow> pod" where
  "pod_startMonitor c (Dji p) = Dji (startMonitor c p)"
| "pod_startMonitor c (Pinling p) = Pinling (startMonitor c p)"

fun pod_stopMonitor :: "pod \<Rightarrow> pod" where
  "pod_stopMonitor (Dji p) = Dji (stopMonitor p)"
| "pod_stopMonitor (Pinling p) = Pinling (stopMonitor p)"

section \<open>Registry\<close>

type_synonym PodRegistry = "(string \<times> pod) list"

text \<open>\<open>None\<close> is a null pointer.\<close>

definition registerPod :: "string \<Rightarrow> pod option \<Rightarrow> PodRegistry \<Rightarrow> bool \<times> PodRegistry" where
  "registerPod pod_id pod pods = (case pod of None \<Rightarrow> (False, pods) | Some p \<Rightarrow> (True, AList.update pod_id p pods))"

definition unregisterPod :: "string \<Rightarrow> PodRegistry \<Rightarrow> bool \<times> PodRegistry" where
  "unregisterPod pod_id pods = (if map_of pods pod_id = None then (False, pods) else (True, AList.delete pod_id pods))"

definition hasPod :: "string \<Rightarrow> PodRegistry \<Rightarrow> bool" where
  "hasPod pod_id pods \<longleftrightarrow> map_of pods pod_id \<noteq> None"

section \<open>Monitor configuration\<close>

text \<open>\<open>get<int>()\<close> and \<open>get<uint32_t>()\<close> also take floats and booleans.\<close>

definition json_u32 :: "(string \<Rightarrow> u32) \<Rightarrow> string \<Rightarrow> json \<Rightarrow> json_exn + u32" where
  "json_u32 trunc key v =
     (case v of
        JUnsigned n \<Rightarrow> Inr (of_nat n)
      | JInteger i \<Rightarrow> Inr (of_int i)
      | JFloat t \<Rightarrow> Inr (trunc t)
      | JBool b \<Rightarrow> Inr (of_bool b)
      | _ \<Rightarrow> Inl (WrongType key))"

definition u32_or :: "(string \<Rightarrow> u32) \<Rightarrow> json \<Rightarrow> string \<Rightarrow> u32 \<Rightarrow> json_exn + u32" where
  "u32_or trunc j key def = (case field j key of None \<Rightarrow> Inr def | Some v \<Rightarrow> json_u32 trunc key v)"

definition bool_or :: "json \<Rightarrow> string \<Rightarrow> bool \<Rightarrow> json_exn + bool" where
  "bool_or j key def =
     (case field j key of None \<Rightarrow> Inr def | Some (JBool b) \<Rightarrow> Inr b | Some _ \<Rightarrow> Inl (WrongType key))"

definition isOpen :: "json \<Rightarrow> string \<Rightarrow> json_exn + bool" where
  "isOpen capability key =
     (case field capability key of
        None \<Rightarrow> Inr False
      | Some cap \<Rightarrow> if \<not> is_object cap then Inr False else ebind (value_string cap ''open'' '''') (\<lambda>s. Inr (s = ''enable'')))"

definition applyMonitorSwitch :: "bool \<Rightarrow> json \<Rightarrow> string \<Rightarrow> bool \<Rightarrow> bool \<Rightarrow> json_exn + bool" where
  "applyMonitorSwitch has_capability_config m key capability_enabled target =
     (if field m key = None then Inr target
      else ebind (bool_or m key False) (\<lambda>requested. Inr (if has_capability_config then capability_enabled \<and> requested else requested)))"

text \<open>The switches that follow from the capabilities: status, gimbal, laser and stream.\<close>

definition capability_switches :: "json \<Rightarrow> json_exn + bool \<times> bool \<times> bool \<times> bool" where
  "capability_switches capability =
     ebind (isOpen capability ''STATUS'') (\<lambda>status. ebind (isOpen capability ''PTZ'') (\<lambda>ptz.
     ebind (isOpen capability ''LASER'') (\<lambda>laser. ebind (isOpen capability ''STREAM'') (\<lambda>stream. Inr (status, ptz, laser, stream)))))"

text \<open>The node \<open>monitor\<close> over a configuration.\<close>

definition apply_monitor :: "(string \<Rightarrow> u32) \<Rightarrow> bool \<Rightarrow> bool \<times> bool \<times> bool \<times> bool \<Rightarrow> json \<Rightarrow> PodMonitorConfig \<Rightarrow> json_exn + PodMonitorConfig" where
  "apply_monitor trunc has_cap enabled m cfg =
     (case enabled of (status_enabled, ptz_enabled, laser_enabled, stream_enabled) \<Rightarrow>
     ebind (u32_or trunc m ''poll_interval_ms'' (mg_poll_interval_ms cfg)) (\<lambda>poll.
     ebind (u32_or trunc m ''status_interval_ms'' (mg_status_interval_ms cfg)) (\<lambda>status.
     ebind (u32_or trunc m ''ptz_interval_ms'' (mg_ptz_interval_ms cfg)) (\<lambda>ptz.
     ebind (u32_or trunc m ''laser_interval_ms'' (mg_laser_interval_ms cfg)) (\<lambda>laser.
     ebind (u32_or trunc m ''stream_interval_ms'' (mg_stream_interval_ms cfg)) (\<lambda>stream.
     ebind (u32_or trunc m ''online_window_size'' (mg_online_window_size cfg)) (\<lambda>window.
     ebind (u32_or trunc m ''online_threshold'' (mg_online_threshold cfg)) (\<lambda>threshold.
     ebind (applyMonitorSwitch has_cap m ''enable_status_poll'' status_enabled (mg_enable_status_poll cfg)) (\<lambda>en_status.
     ebind (applyMonitorSwitch has_cap m ''enable_ptz_poll'' ptz_enabled (mg_enable_ptz_poll cfg)) (\<lambda>en_ptz.
     ebind (applyMonitorSwitch has_cap m ''enable_stream_poll'' stream_enabled (mg_enable_stream_poll cfg)) (\<lambda>en_stream.
     ebind (bool_or m ''auto_start'' (mg_auto_start cfg)) (\<lambda>auto.
       Inr (cfg\<lparr>mg_poll_interval_ms := poll, mg_status_interval_ms := status, mg_ptz_interval_ms := ptz,
         mg_laser_interval_ms := laser, mg_stream_interval_ms := stream, mg_online_window_size := window,
         mg_online_threshold := threshold, mg_enable_status_poll := en_status, mg_enable_ptz_poll := en_ptz,
         mg_enable_stream_poll := en_stream, mg_auto_start := auto\<rparr>)))))))))))))"

definition parseMonitorConfig :: "(string \<Rightarrow> u32) \<Rightarrow> json \<Rightarrow> json_exn + PodMonitorConfig" where
  "parseMonitorConfig trunc pod_cfg =
     (let has_cap = (case field pod_cfg ''capability'' of Some c \<Rightarrow> is_object c | None \<Rightarrow> False) in
      ebind (if has_cap then capability_switches (the (field pod_cfg ''capability'')) else Inr (False, False, False, False))
        (\<lambda>(status, ptz, laser, stream).
          let cfg = (if has_cap
                then PodMonitorConfig_init\<lparr>mg_enable_status_poll := status, mg_enable_ptz_poll := ptz, mg_enable_laser_poll := laser,
                  mg_enable_stream_poll := stream\<rparr>
                else PodMonitorConfig_init)
          in case field pod_cfg ''monitor'' of
               Some m \<Rightarrow> if is_object m then apply_monitor trunc has_cap (status, ptz, laser, stream) m cfg else Inr cfg
             | None \<Rightarrow> Inr cfg))"

section \<open>Manager\<close>

record PodManager =
  pg_registry :: PodRegistry
  pg_init_config :: json
  pg_initialized :: bool

definition PodManager_ctor :: PodManager where
  "PodManager_ctor = \<lparr>pg_registry = [], pg_init_config = JNull, pg_initialized = False\<rparr>"

definition value_i32 :: "(string \<Rightarrow> u32) \<Rightarrow> json \<Rightarrow> string \<Rightarrow> u32 \<Rightarrow> json_exn + u32" where
  "value_i32 trunc cfg key def = (if \<not> is_object cfg then Inl NotAnObject else u32_or trunc cfg key def)"

text \<open>The class that a type names.\<close>

definition make_pod :: "string \<Rightarrow> PodInfo \<Rightarrow> pod option" where
  "make_pod type info =
     (if type = ''dji'' then Some (Dji (DjiPod_ctor (info\<lparr>pi_vendor := DJI\<rparr>)))
      else if type = ''pinling'' then Some (Pinling (PinlingPod_ctor (info\<lparr>pi_vendor := PINLING\<rparr>)))
      else None)"

definition createPod :: "(string \<Rightarrow> u32) \<Rightarrow> string \<Rightarrow> json \<Rightarrow> json_exn + pod option" where
  "createPod trunc pod_id pod_cfg =
     ebind (value_string pod_cfg ''type'' '''') (\<lambda>type.
     ebind (value_string pod_cfg ''name'' pod_id) (\<lambda>name.
     ebind (value_string pod_cfg ''ip'' '''') (\<lambda>ip.
     ebind (value_i32 trunc pod_cfg ''port'' 0) (\<lambda>port.
     ebind (value_string pod_cfg ''model'' '''') (\<lambda>model.
     ebind (value_string pod_cfg ''firmware_ver'' '''') (\<lambda>firmware.
       Inr (make_pod type \<lparr>pi_pod_id = pod_id, pi_pod_name = name, pi_vendor = UnknownVendor, pi_model = model,
         pi_firmware_ver = firmware, pi_ip_address = ip, pi_port = ucast port, pi_raw_config = pod_cfg\<rparr>)))))))"

text \<open>One entry of \<open>pod_args\<close>: the pod to register, if any.\<close>

definition init_pod :: "(string \<Rightarrow> u32) \<Rightarrow> (string \<Rightarrow> nat \<Rightarrow> vlk_attempt) \<Rightarrow> string \<Rightarrow> json \<Rightarrow> json_exn + pod option" where
  "init_pod trunc as pod_id pod_cfg =
     ebind (createPod trunc pod_id pod_cfg) (\<lambda>pod.
       case pod of
         None \<Rightarrow> Inr None
       | Some pod \<Rightarrow>
           (case pod_Init pod_cfg pod of
              (code, pod) \<Rightarrow>
                if code \<noteq> SUCCESS then Inr None
                else case pod_connect (as pod_id) pod of
                  (Inl e, pod) \<Rightarrow> Inl e
                | (Inr _, pod) \<Rightarrow>
                    ebind (parseMonitorConfig trunc pod_cfg) (\<lambda>cfg.
                      Inr (Some (if mg_auto_start cfg then pod_startMonitor cfg pod else pod)))))"

fun init_pods :: "(string \<Rightarrow> u32) \<Rightarrow> (string \<Rightarrow> nat \<Rightarrow> vlk_attempt) \<Rightarrow> (string \<times> json) list \<Rightarrow> PodRegistry \<Rightarrow>
    (json_exn + unit) \<times> PodRegistry" where
  "init_pods trunc as [] pods = (Inr (), pods)"
| "init_pods trunc as ((pod_id, pod_cfg) # rest) pods =
     (case init_pod trunc as pod_id pod_cfg of
        Inl e \<Rightarrow> (Inl e, pods)
      | Inr None \<Rightarrow> init_pods trunc as rest pods
      | Inr (Some pod) \<Rightarrow> init_pods trunc as rest (snd (registerPod pod_id (Some pod) pods)))"

definition pm_Init :: "(string \<Rightarrow> u32) \<Rightarrow> (string \<Rightarrow> nat \<Rightarrow> vlk_attempt) \<Rightarrow> json \<Rightarrow> PodManager \<Rightarrow> (json_exn + bool) \<times> PodManager" where
  "pm_Init trunc as config m =
     (if pg_initialized m then (Inr True, m)
      else
        let m = m\<lparr>pg_init_config := config\<rparr> in
        case field config ''pod_args'' of
          Some (JObject pod_args) \<Rightarrow>
            (case init_pods trunc as pod_args (pg_registry m) of
               (Inl e, pods) \<Rightarrow> (Inl e, m\<lparr>pg_registry := pods\<rparr>)
             | (Inr _, pods) \<Rightarrow> (Inr True, m\<lparr>pg_registry := pods, pg_initialized := True\<rparr>))
        | _ \<Rightarrow> (Inr True, m\<lparr>pg_initialized := True\<rparr>))"

definition addPod :: "pod option \<Rightarrow> PodManager \<Rightarrow> PodErrorCode \<times> PodManager" where
  "addPod pod m =
     (case pod of
        None \<Rightarrow> (UNKNOWN_ERROR, m)
      | Some p \<Rightarrow>
          let pod_id = pi_pod_id (pod_getPodInfo p) in
          if hasPod pod_id (pg_registry m) then (POD_ALREADY_EXISTS, m)
          else (SUCCESS, m\<lparr>pg_registry := snd (registerPod pod_id (Some p) (pg_registry m))\<rparr>))"

definition close_pod :: "pod \<Rightarrow> pod" where
  "close_pod p =
     (let p = (if pod_isMonitorRunning p then pod_stopMonitor p else p)
      in if pod_isConnected p then snd (pod_disconnect p) else p)"

text \<open>\<open>clear()\<close> keeps the kind of the value.\<close>

fun json_clear :: "json \<Rightarrow> json" where
  "json_clear JNull = JNull"
| "json_clear (JBool b) = JBool False"
| "json_clear (JUnsigned n) = JUnsigned 0"
| "json_clear (JInteger i) = JInteger 0"
| "json_clear (JFloat t) = JFloat ''0.0''"
| "json_clear (JString t) = JString ''''"
| "json_clear (JArray xs) = JArray []"
| "json_clear (JObject fs) = JObject []"

definition pm_Shutdown :: "PodManager \<Rightarrow> pod list \<times> PodManager" where
  "pm_Shutdown m =
     (map (close_pod \<circ> snd) (pg_registry m), m\<lparr>pg_registry := [], pg_init_config := json_clear (pg_init_config m), pg_initialized := False\<rparr>)"

definition removePod :: "string \<Rightarrow> PodManager \<Rightarrow> PodErrorCode \<times> pod option \<times> PodManager" where
  "removePod pod_id m =
     (if \<not> hasPod pod_id (pg_registry m) then (POD_NOT_FOUND, None, m)
      else (SUCCESS, map_option close_pod (map_of (pg_registry m) pod_id), m\<lparr>pg_registry := snd (unregisterPod pod_id (pg_registry m))\<rparr>))"

definition getPod :: "string \<Rightarrow> PodManager \<Rightarrow> pod option" where
  "getPod pod_id m = map_of (pg_registry m) pod_id"

definition listPods :: "PodManager \<Rightarrow> pod list" where
  "listPods m = map snd (pg_registry m)"

definition listPodIds :: "PodManager \<Rightarrow> string list" where
  "listPodIds m = map fst (pg_registry m)"

definition pm_size :: "PodManager \<Rightarrow> nat" where
  "pm_size m = length (pg_registry m)"

definition connectPod :: "(nat \<Rightarrow> vlk_attempt) \<Rightarrow> string \<Rightarrow> PodManager \<Rightarrow> (json_exn + PodErrorCode) \<times> PodManager" where
  "connectPod as pod_id m =
     (case getPod pod_id m of
        None \<Rightarrow> (Inr POD_NOT_FOUND, m)
      | Some p \<Rightarrow> (case pod_connect as p of (r, p) \<Rightarrow> (r, m\<lparr>pg_registry := AList.update pod_id p (pg_registry m)\<rparr>)))"

definition disconnectPod :: "string \<Rightarrow> PodManager \<Rightarrow> PodErrorCode \<times> PodManager" where
  "disconnectPod pod_id m =
     (case getPod pod_id m of
        None \<Rightarrow> (POD_NOT_FOUND, m)
      | Some p \<Rightarrow> (case pod_disconnect p of (r, p) \<Rightarrow> (r, m\<lparr>pg_registry := AList.update pod_id p (pg_registry m)\<rparr>)))"

definition pod_snapshot :: "pod \<Rightarrow> json" where
  "pod_snapshot pod =
     (let info = pod_getPodInfo pod in
      JObject ([(''pod_id'', JString (pi_pod_id info)), (''pod_name'', JString (pi_pod_name info)),
          (''vendor'', JString (podVendorToString (pi_vendor info))), (''ip'', JString (pi_ip_address info)),
          (''port'', JUnsigned (unat (pi_port info))), (''state'', JString (podStateToString (pod_getState pod))),
          (''connected'', JBool (pod_isConnected pod)), (''monitor_running'', JBool (pod_isMonitorRunning pod))] @
        (if pod_isMonitorRunning pod
         then [(''is_online'', JBool (rs_is_online (pod_getRuntimeStatus pod))),
               (''last_update_ms'', JUnsigned (unat (rs_last_update_ms (pod_getRuntimeStatus pod))))]
         else [])))"

definition pm_GetStatusSnapshot :: "PodManager \<Rightarrow> json" where
  "pm_GetStatusSnapshot m = JArray (map pod_snapshot (listPods m))"

section \<open>Closing a pod\<close>

text \<open>What the manager needs of a pod to shut it down.\<close>

locale closable =
  fixes running :: "'p \<Rightarrow> bool" and stop :: "'p \<Rightarrow> 'p" and connected :: "'p \<Rightarrow> bool" and disconnect :: "'p \<Rightarrow> 'p"
  assumes stop_stops: "\<not> running (stop p)"
    and disconnect_disconnects: "\<not> connected (disconnect p)"
    and disconnect_running: "running (disconnect p) = running p"
begin

lemma closed:
  "let q = (if running p then stop p else p); r = (if connected q then disconnect q else q) in \<not> running r \<and> \<not> connected r"
  by (simp add: Let_def stop_stops disconnect_disconnects disconnect_running)

end

lemma disconnectSDK_rest:
  "pd_info (disconnectSDK p) = pd_info p" "pd_state (disconnectSDK p) = pd_state p" "pd_session (disconnectSDK p) = pd_session p"
  "pd_monitor (disconnectSDK p) = pd_monitor p"
  using disconnectSDK_change [of p] by (auto elim!: sdk_changeE)

lemma base_disconnect_rest:
  "pd_info (snd (BasePod_disconnect p)) = pd_info p" "pd_monitor (snd (BasePod_disconnect p)) = pd_monitor p"
  "pd_state (snd (BasePod_disconnect p)) = DISCONNECTED"
  by (auto simp: BasePod_disconnect_def split: option.split prod.split)

interpretation pods: closable pod_isMonitorRunning pod_stopMonitor pod_isConnected "\<lambda>p. snd (pod_disconnect p)"
proof
  show "\<not> pod_isMonitorRunning (pod_stopMonitor p)" for p
    by (cases p) (simp_all add: isMonitorRunning_def stopMonitor_def monitor_stop_def)
  show "\<not> pod_isConnected (snd (pod_disconnect p))" for p
    by (cases p) (simp_all add: isConnected_def base_disconnect_rest PinlingPod_disconnect_def)
  show "pod_isMonitorRunning (snd (pod_disconnect p)) = pod_isMonitorRunning p" for p
    by (cases p) (simp_all add: isMonitorRunning_def base_disconnect_rest PinlingPod_disconnect_def disconnectSDK_rest)
qed

lemma close_pod_closed: "\<not> pod_isMonitorRunning (close_pod p) \<and> \<not> pod_isConnected (close_pod p)"
  using pods.closed [of p] by (simp add: close_pod_def Let_def)

section \<open>Polls and capabilities\<close>

lemma isOpen_cases: "isOpen c key = Inr b \<Longrightarrow> b \<longleftrightarrow> (\<exists>cap. field c key = Some (JObject cap) \<and> map_of cap ''open'' = Some (JString ''enable''))"
  by (auto simp: isOpen_def value_string_def ebind_eq_Inr_iff split: option.splits if_splits json.splits elim: is_object.elims)

lemma switch_narrows: "applyMonitorSwitch True m key cap cap = Inr b \<Longrightarrow> b \<longrightarrow> cap"
  by (auto simp: applyMonitorSwitch_def ebind_eq_Inr_iff split: if_splits)

text \<open>Which polls the monitor of a pod makes. When the configuration of the pod has capabilities, the status, the gimbal
  and the stream are polled only if the capability of that name is open, whatever the node \<open>monitor\<close> asks
  for, and the laser exactly if it is open; without capabilities the laser is not polled.\<close>

theorem monitor_respects_capability:
  assumes "parseMonitorConfig trunc pod_cfg = Inr cfg"
  shows "case field pod_cfg ''capability'' of
      Some (JObject caps) \<Rightarrow>
        (let is_open = (\<lambda>key. \<exists>cap. map_of caps key = Some (JObject cap) \<and> map_of cap ''open'' = Some (JString ''enable''))
         in (mg_enable_status_poll cfg \<longrightarrow> is_open ''STATUS'') \<and> (mg_enable_ptz_poll cfg \<longrightarrow> is_open ''PTZ'') \<and>
            (mg_enable_stream_poll cfg \<longrightarrow> is_open ''STREAM'') \<and> (mg_enable_laser_poll cfg \<longleftrightarrow> is_open ''LASER''))
    | _ \<Rightarrow> \<not> mg_enable_laser_poll cfg"
proof -
  have laser: "apply_monitor trunc h (a, b, c, d) m x = Inr y \<Longrightarrow> mg_enable_laser_poll y = mg_enable_laser_poll x" for h a b c d m x y
    by (auto simp: apply_monitor_def ebind_eq_Inr_iff)
  show ?thesis
  proof (cases "\<exists>caps. field pod_cfg ''capability'' = Some (JObject caps)")
    case True
    then obtain caps where caps: "field pod_cfg ''capability'' = Some (JObject caps)" by blast
    then obtain s p l t where sw: "capability_switches (JObject caps) = Inr (s, p, l, t)"
      using assms by (auto simp: parseMonitorConfig_def Let_def ebind_eq_Inr_iff)
    let ?c = "PodMonitorConfig_init\<lparr>mg_enable_status_poll := s, mg_enable_ptz_poll := p, mg_enable_laser_poll := l, mg_enable_stream_poll := t\<rparr>"
    have "isOpen (JObject caps) ''STATUS'' = Inr s" "isOpen (JObject caps) ''PTZ'' = Inr p"
        "isOpen (JObject caps) ''LASER'' = Inr l" "isOpen (JObject caps) ''STREAM'' = Inr t"
      using sw by (auto simp: capability_switches_def ebind_eq_Inr_iff)
    note o = this [THEN isOpen_cases]
    have "cfg = ?c \<or> (\<exists>m. apply_monitor trunc True (s, p, l, t) m ?c = Inr cfg)"
      using assms caps sw by (auto simp: parseMonitorConfig_def Let_def split: option.splits if_splits)
    then have "(mg_enable_status_poll cfg \<longrightarrow> s) \<and> (mg_enable_ptz_poll cfg \<longrightarrow> p) \<and> (mg_enable_stream_poll cfg \<longrightarrow> t) \<and>
        mg_enable_laser_poll cfg = l"
      using laser by (auto simp: apply_monitor_def ebind_eq_Inr_iff dest!: switch_narrows)
    then show ?thesis using caps o by (simp add: Let_def)
  next
    case False
    then have "(case field pod_cfg ''capability'' of Some c \<Rightarrow> is_object c | None \<Rightarrow> False) = False"
      by (auto split: option.splits elim: is_object.elims)
    then have "cfg = PodMonitorConfig_init \<or> (\<exists>m. apply_monitor trunc False (False, False, False, False) m PodMonitorConfig_init = Inr cfg)"
      using assms by (auto simp: parseMonitorConfig_def Let_def split: option.splits if_splits)
    then have "\<not> mg_enable_laser_poll cfg" using laser by (auto simp: PodMonitorConfig_init_def)
    then show ?thesis using False by (auto split: option.split json.split)
  qed
qed

section \<open>Initialisation\<close>

lemma base_init_rest:
  "BasePod_Init BasePod_onInit cfg p = (SUCCESS, q) \<Longrightarrow>
     pd_session q = pd_session p \<and> pd_state q = DISCONNECTED \<and> pi_pod_id (pd_info q) = pi_pod_id (pd_info p) \<and> \<not> mn_running (pd_monitor q)"
  by (auto simp: BasePod_Init_def BasePod_onInit_def init_common_rest update_info_def split: if_splits)

lemma onInit_rest:
  assumes "PinlingPod_onInit cfg p = (c, q)"
  shows "pd_session q = (if pd_session p = None then Some (Session_ctor PinlingSession) else pd_session p) \<and> pd_state q = pd_state p \<and>
    pd_info q = pd_info p \<and> pd_monitor q = pd_monitor p"
  using assms
  by (auto simp: PinlingPod_onInit_def Let_def setSession_def disconnectSDK_rest split: if_splits sum.splits)

lemma pinling_init_rest:
  assumes "PinlingPod_Init cfg p = (SUCCESS, q)"
  shows "pd_session q = (if pd_session p = None then Some (Session_ctor PinlingSession) else pd_session p) \<and> pd_state q = DISCONNECTED \<and>
    pi_pod_id (pd_info q) = pi_pod_id (pd_info p) \<and> \<not> mn_running (pd_monitor q)"
proof -
  have "PinlingPod_onInit cfg (init_common cfg p) = (SUCCESS, q)"
    using assms by (auto simp: PinlingPod_Init_def BasePod_Init_def split: if_splits prod.splits)
  from onInit_rest [OF this] show ?thesis by (simp add: init_common_rest update_info_def)
qed

lemma base_connect_rest:
  "pd_info (snd (BasePod_connect p)) = pd_info p" "pd_monitor (snd (BasePod_connect p)) = pd_monitor p"
  by (auto simp: BasePod_connect_def split: option.split prod.split)

lemma pinling_connect_rest:
  assumes "PinlingPod_connect as p = (r, q)"
  shows "pd_info q = pd_info p \<and> pd_monitor q = pd_monitor p \<and> pd_state q = pd_state (snd (BasePod_connect p))"
proof -
  obtain c p1 where b: "BasePod_connect p = (c, p1)" by fastforce
  obtain r2 p2 where f: "connectFromConfig as (p1\<lparr>pp_sdk_reconnect_enabled := True\<rparr>) = (r2, p2)" by fastforce
  have "pd_info p2 = pd_info p1 \<and> pd_monitor p2 = pd_monitor p1 \<and> pd_state p2 = pd_state p1"
    using connectFromConfig_change [OF f] by (auto elim!: sdk_changeE)
  then show ?thesis using assms b f base_connect_rest [of p]
    by (auto simp: PinlingPod_connect_def split: if_splits sum.splits)
qed

lemma fresh_connect: "pd_session p = Some s \<Longrightarrow> \<not> se_connected s \<Longrightarrow> pd_state p \<noteq> CONNECTED \<Longrightarrow>
    fst (BasePod_connect p) = SUCCESS \<and> pd_state (snd (BasePod_connect p)) = CONNECTED"
  by (cases "se_class s") (simp_all add: BasePod_connect_def session_connect_def Let_def)

lemma value_string_Inr: "value_string cfg key def = Inr s \<Longrightarrow> s \<noteq> def \<Longrightarrow> field cfg key = Some (JString s)"
  by (auto simp: value_string_def split: if_splits option.splits json.splits)

lemma createPod_parts:
  assumes "createPod trunc pod_id cfg = Inr (Some p0)"
  shows "\<exists>type info. value_string cfg ''type'' '''' = Inr type \<and> pi_pod_id info = pod_id \<and> make_pod type info = Some p0"
proof -
  obtain type name ip port model firmware where "value_string cfg ''type'' '''' = Inr type"
      "(Inr (make_pod type \<lparr>pi_pod_id = pod_id, pi_pod_name = name, pi_vendor = UnknownVendor, pi_model = model,
         pi_firmware_ver = firmware, pi_ip_address = ip, pi_port = ucast (port :: u32), pi_raw_config = cfg\<rparr>) :: json_exn + pod option) = Inr (Some p0)"
    using assms unfolding createPod_def ebind_eq_Inr_iff by (elim exE conjE) (rule that; assumption)
  then show ?thesis
    by (intro exI conjI) (assumption, rule PodInfo.select_convs(1), simp)
qed

lemma createPod_made:
  assumes "createPod trunc pod_id cfg = Inr (Some p0)"
  shows "\<exists>info. pi_pod_id info = pod_id \<and>
      (field cfg ''type'' = Some (JString ''dji'') \<and> p0 = Dji (DjiPod_ctor info) \<or>
       field cfg ''type'' = Some (JString ''pinling'') \<and> p0 = Pinling (PinlingPod_ctor info))"
proof -
  obtain type info where v: "value_string cfg ''type'' '''' = Inr type" "pi_pod_id info = pod_id" "make_pod type info = Some p0"
    using createPod_parts [OF assms] by blast
  consider (dji) "type = ''dji''" "p0 = Dji (DjiPod_ctor (info\<lparr>pi_vendor := DJI\<rparr>))"
    | (pinling) "type = ''pinling''" "p0 = Pinling (PinlingPod_ctor (info\<lparr>pi_vendor := PINLING\<rparr>))"
    using v(3) by (auto simp: make_pod_def split: if_splits)
  then show ?thesis
  proof cases
    case dji
    then show ?thesis using v(1,2) value_string_Inr [OF v(1)] by (intro exI [of _ "info\<lparr>pi_vendor := DJI\<rparr>"]) simp
  next
    case pinling
    then show ?thesis using v(1,2) value_string_Inr [OF v(1)] by (intro exI [of _ "info\<lparr>pi_vendor := PINLING\<rparr>"]) simp
  qed
qed

text \<open>A pod that an entry of the configuration makes.\<close>

lemma init_pod_made:
  assumes "init_pod trunc as pod_id cfg = Inr (Some p)"
  shows "pi_pod_id (pod_getPodInfo p) = pod_id \<and> pod_isConnected p \<and>
    (\<exists>c. parseMonitorConfig trunc cfg = Inr c \<and> pod_isMonitorRunning p = mg_auto_start c) \<and>
    field cfg ''type'' = Some (JString (case p of Dji _ \<Rightarrow> ''dji'' | Pinling _ \<Rightarrow> ''pinling''))"
proof -
  obtain p0 where c: "createPod trunc pod_id cfg = Inr (Some p0)"
    using assms by (auto simp: init_pod_def ebind_eq_Inr_iff split: option.splits)
  obtain code p1 where i: "pod_Init cfg p0 = (code, p1)" by fastforce
  then have s: "code = SUCCESS" using assms c by (auto simp: init_pod_def split: if_splits)
  obtain r p2 where k: "pod_connect (as pod_id) p1 = (r, p2)" by fastforce
  obtain mc where m: "parseMonitorConfig trunc cfg = Inr mc" "p = (if mg_auto_start mc then pod_startMonitor mc p2 else p2)"
    using assms c i s k by (auto simp: init_pod_def ebind_eq_Inr_iff split: sum.splits)
  have t: "\<exists>info. pi_pod_id info = pod_id \<and>
      (field cfg ''type'' = Some (JString ''dji'') \<and> p0 = Dji (DjiPod_ctor info) \<or>
       field cfg ''type'' = Some (JString ''pinling'') \<and> p0 = Pinling (PinlingPod_ctor info))"
    using c createPod_made by blast
  then obtain info where info: "pi_pod_id info = pod_id" and
    d: "field cfg ''type'' = Some (JString ''dji'') \<and> p0 = Dji (DjiPod_ctor info) \<or>
       field cfg ''type'' = Some (JString ''pinling'') \<and> p0 = Pinling (PinlingPod_ctor info)" by blast
  have p2: "pi_pod_id (pod_getPodInfo p2) = pod_id \<and> pod_isConnected p2 \<and> \<not> pod_isMonitorRunning p2 \<and>
      field cfg ''type'' = Some (JString (case p2 of Dji _ \<Rightarrow> ''dji'' | Pinling _ \<Rightarrow> ''pinling''))"
    using d
  proof
    assume a: "field cfg ''type'' = Some (JString ''dji'') \<and> p0 = Dji (DjiPod_ctor info)"
    obtain q where q: "BasePod_Init BasePod_onInit cfg (DjiPod_ctor info) = (SUCCESS, q)" "p1 = Dji q"
      using i s a by (cases "BasePod_Init BasePod_onInit cfg (DjiPod_ctor info)") auto
    have q': "pd_session q = Some (Session_ctor DjiSession)" "pd_state q = DISCONNECTED" "pi_pod_id (pd_info q) = pod_id" "\<not> mn_running (pd_monitor q)"
      using base_init_rest [OF q(1)] info by (simp_all add: DjiPod_ctor_def setSession_def BasePod_ctor_def)
    obtain c q1 where b: "BasePod_connect q = (c, q1)" by fastforce
    then have "pd_info q1 = pd_info q" "pd_monitor q1 = pd_monitor q" "pd_state q1 = CONNECTED"
      using fresh_connect [of q "Session_ctor DjiSession"] base_connect_rest [of q] q' by (simp_all add: Session_ctor_def)
    moreover have "p2 = Dji q1" using k q(2) b by simp
    ultimately show ?thesis using a q' by (simp add: isConnected_def isMonitorRunning_def)
  next
    assume a: "field cfg ''type'' = Some (JString ''pinling'') \<and> p0 = Pinling (PinlingPod_ctor info)"
    obtain q where q: "PinlingPod_Init cfg (PinlingPod_ctor info) = (SUCCESS, q)" "p1 = Pinling q"
      using i s a by (cases "PinlingPod_Init cfg (PinlingPod_ctor info)") auto
    have q': "pd_session q = Some (Session_ctor PinlingSession)" "pd_state q = DISCONNECTED" "pi_pod_id (pd_info q) = pod_id" "\<not> mn_running (pd_monitor q)"
      using pinling_init_rest [OF q(1)] info by (simp_all add: PinlingPod_ctor_def setSession_def BasePod_ctor_def BasePod.extend_def)
    obtain c q1 where b: "PinlingPod_connect (as pod_id) q = (c, q1)" by fastforce
    then have "pd_info q1 = pd_info q" "pd_monitor q1 = pd_monitor q" "pd_state q1 = CONNECTED"
      using fresh_connect [of q "Session_ctor PinlingSession"] pinling_connect_rest [OF b] q' by (simp_all add: Session_ctor_def)
    moreover have "p2 = Pinling q1" using k q(2) b by simp
    ultimately show ?thesis using a q' by (simp add: isConnected_def isMonitorRunning_def)
  qed
  then show ?thesis using m by (cases p2) (auto simp: startMonitor_def monitor_start_def isConnected_def isMonitorRunning_def)
qed

lemma init_pods_spec:
  assumes "init_pods trunc as args pods = (Inr (), pods')" "distinct (map fst args)"
  shows "map_of pods' k = (case map_of args k of
      None \<Rightarrow> map_of pods k
    | Some cfg \<Rightarrow> (case init_pod trunc as k cfg of Inr (Some p) \<Rightarrow> Some p | _ \<Rightarrow> map_of pods k)) \<and>
    (\<forall>cfg. map_of args k = Some cfg \<longrightarrow> \<not> isl (init_pod trunc as k cfg))"
  using assms
proof (induction args arbitrary: pods)
  case (Cons a args)
  obtain id cfg where a: "a = (id, cfg)" by (cases a)
  obtain po where po: "init_pod trunc as id cfg = Inr po" using Cons.prems(1) a by (auto split: sum.splits)
  define pods1 where "pods1 = (case po of None \<Rightarrow> pods | Some p \<Rightarrow> AList.update id p pods)"
  have "init_pods trunc as args pods1 = (Inr (), pods')"
    using Cons.prems(1) a po by (cases po) (simp_all add: pods1_def registerPod_def)
  then have IH: "map_of pods' k = (case map_of args k of
      None \<Rightarrow> map_of pods1 k
    | Some cfg \<Rightarrow> (case init_pod trunc as k cfg of Inr (Some p) \<Rightarrow> Some p | _ \<Rightarrow> map_of pods1 k)) \<and>
    (\<forall>cfg. map_of args k = Some cfg \<longrightarrow> \<not> isl (init_pod trunc as k cfg))"
    using Cons.IH Cons.prems(2) by simp
  show ?case
  proof (cases "k = id")
    case True
    then have "map_of args k = None" using Cons.prems(2) a by (auto simp: map_of_eq_None_iff)
    then show ?thesis using IH True a po by (cases po) (simp_all add: pods1_def update_conv')
  next
    case False
    then have e: "map_of pods1 k = map_of pods k" by (cases po) (simp_all add: pods1_def update_conv')
    show ?thesis using IH [unfolded e] False a by simp
  qed
qed simp

text \<open>An initialisation that gets through registers, for each entry of \<open>pod_args\<close>, a pod exactly when the type is
  known and the pod accepts its configuration. The pod has the identifier of the entry and the class of the
  type, it is connected, and its monitor runs exactly when the configuration says so.\<close>

theorem manager_init_registers:
  assumes "\<not> pg_initialized m" and "pg_registry m = []" and "field config ''pod_args'' = Some (JObject args)"
    and "distinct (map fst args)" and "pm_Init trunc as config m = (Inr ok, m')"
  shows "ok \<and> pg_initialized m' \<and> (\<forall>pod_id.
    case getPod pod_id m' of
      None \<Rightarrow> (\<forall>cfg. map_of args pod_id = Some cfg \<longrightarrow> init_pod trunc as pod_id cfg = Inr None)
    | Some p \<Rightarrow>
        (\<exists>cfg c. map_of args pod_id = Some cfg \<and> pi_pod_id (pod_getPodInfo p) = pod_id \<and> pod_isConnected p \<and>
           field cfg ''type'' = Some (JString (case p of Dji _ \<Rightarrow> ''dji'' | Pinling _ \<Rightarrow> ''pinling'')) \<and>
           parseMonitorConfig trunc cfg = Inr c \<and> pod_isMonitorRunning p = mg_auto_start c))"
proof -
  obtain pods' where i: "init_pods trunc as args [] = (Inr (), pods')"
    using assms by (cases "init_pods trunc as args []") (auto simp: pm_Init_def Let_def split: sum.splits)
  then have m: "ok" "m' = m\<lparr>pg_init_config := config, pg_registry := pods', pg_initialized := True\<rparr>"
    using assms by (auto simp: pm_Init_def Let_def)
  have "case getPod k m' of
      None \<Rightarrow> (\<forall>cfg. map_of args k = Some cfg \<longrightarrow> init_pod trunc as k cfg = Inr None)
    | Some p \<Rightarrow>
        (\<exists>cfg c. map_of args k = Some cfg \<and> pi_pod_id (pod_getPodInfo p) = k \<and> pod_isConnected p \<and>
           field cfg ''type'' = Some (JString (case p of Dji _ \<Rightarrow> ''dji'' | Pinling _ \<Rightarrow> ''pinling'')) \<and>
           parseMonitorConfig trunc cfg = Inr c \<and> pod_isMonitorRunning p = mg_auto_start c)" for k
  proof (cases "map_of args k")
    case None
    then show ?thesis using init_pods_spec [OF i assms(4), of k] m by (simp add: getPod_def)
  next
    case (Some cfg)
    then obtain po where po: "init_pod trunc as k cfg = Inr po" "map_of pods' k = po"
      using init_pods_spec [OF i assms(4), of k]
      by (cases "init_pod trunc as k cfg") (auto split: option.splits)
    show ?thesis
    proof (cases po)
      case None
      then show ?thesis using po m Some by (simp add: getPod_def)
    next
      case Some': (Some p)
      then show ?thesis using init_pod_made [of trunc as k cfg p] po m Some by (auto simp: getPod_def)
    qed
  qed
  then show ?thesis using m by simp
qed

text \<open>An entry that throws ends the initialisation: what was registered before it stays registered, with its monitor, and
  the manager counts as not initialised.\<close>

lemma bad_entry_aborts_init:
  assumes "pm_Init trunc as config m = (Inl e, m')"
  shows "\<not> pg_initialized m' \<and> (\<exists>args. field config ''pod_args'' = Some (JObject args) \<and>
    pg_registry m' = snd (init_pods trunc as args (pg_registry m)))"
  using assms by (auto simp: pm_Init_def Let_def split: if_splits option.splits json.splits prod.splits sum.splits)

section \<open>Registered pods\<close>

text \<open>The calls of the manager, and any call of a holder of a pod, which keeps the identifier.\<close>

inductive pm_step :: "PodManager \<Rightarrow> PodManager \<Rightarrow> bool" where
  init: "pm_Init trunc as config m = (r, m') \<Longrightarrow> pm_step m m'"
| add: "addPod p m = (c, m') \<Longrightarrow> pm_step m m'"
| remove: "removePod pod_id m = (c, p, m') \<Longrightarrow> pm_step m m'"
| connect: "connectPod as pod_id m = (r, m') \<Longrightarrow> pm_step m m'"
| disconnect: "disconnectPod pod_id m = (c, m') \<Longrightarrow> pm_step m m'"
| shutdown: "pm_Shutdown m = (ps, m') \<Longrightarrow> pm_step m m'"
| holder: "getPod pod_id m = Some p \<Longrightarrow> pi_pod_id (pod_getPodInfo q) = pi_pod_id (pod_getPodInfo p) \<Longrightarrow>
    pm_step m (m\<lparr>pg_registry := AList.update pod_id q (pg_registry m)\<rparr>)"

definition registry_ok :: "PodRegistry \<Rightarrow> bool" where
  "registry_ok pods \<longleftrightarrow> distinct (map fst pods) \<and> (\<forall>(k, p) \<in> set pods. pi_pod_id (pod_getPodInfo p) = k)"

lemma registry_ok_update: "registry_ok pods \<Longrightarrow> pi_pod_id (pod_getPodInfo p) = k \<Longrightarrow> registry_ok (AList.update k p pods)"
  using all_update [of pods "\<lambda>k p. pi_pod_id (pod_getPodInfo p) = k" k p] by (auto simp: registry_ok_def distinct_update)

lemma registry_ok_delete: "registry_ok pods \<Longrightarrow> registry_ok (AList.delete k pods)"
  by (auto simp: registry_ok_def AList.delete_eq distinct_map_filter)

lemma registry_ok_get: "registry_ok pods \<Longrightarrow> map_of pods k = Some p \<Longrightarrow> pi_pod_id (pod_getPodInfo p) = k"
  using map_of_SomeD by (fastforce simp: registry_ok_def)

lemma init_pods_ok: "init_pods trunc as args pods = (r, pods') \<Longrightarrow> registry_ok pods \<Longrightarrow> registry_ok pods'"
proof (induction trunc as args pods rule: init_pods.induct)
  case (2 trunc as pod_id pod_cfg rest pods)
  show ?case
  proof (cases "init_pod trunc as pod_id pod_cfg")
    case (Inr po)
    show ?thesis
    proof (cases po)
      case None
      then show ?thesis using 2 Inr by simp
    next
      case (Some p)
      have "registry_ok (AList.update pod_id p pods)"
        using registry_ok_update [OF 2(4), of p pod_id] init_pod_made [of trunc as pod_id pod_cfg p] Inr Some by simp
      then show ?thesis using 2(2) 2(3) Inr Some by (simp add: registerPod_def)
    qed
  qed (use 2 in simp)
qed simp

lemma pod_connect_id: "pod_connect as p = (r, q) \<Longrightarrow> pi_pod_id (pod_getPodInfo q) = pi_pod_id (pod_getPodInfo p)"
proof (cases p)
  case (Dji d)
  then show "pod_connect as p = (r, q) \<Longrightarrow> ?thesis" using base_connect_rest(1) [of d] by (cases "BasePod_connect d") auto
next
  case (Pinling d)
  then show "pod_connect as p = (r, q) \<Longrightarrow> ?thesis" using pinling_connect_rest [of as d] by (cases "PinlingPod_connect as d") auto
qed

lemma pod_disconnect_id: "pi_pod_id (pod_getPodInfo (snd (pod_disconnect p))) = pi_pod_id (pod_getPodInfo p)"
  by (cases p) (simp_all add: base_disconnect_rest PinlingPod_disconnect_def disconnectSDK_rest)

interpretation manager: invariant_system "\<lambda>m. m = PodManager_ctor" pm_step "\<lambda>m. registry_ok (pg_registry m)"
proof
  show "registry_ok (pg_registry m)" if "m = PodManager_ctor" for m using that by (simp add: registry_ok_def PodManager_ctor_def)
  show "registry_ok (pg_registry m')" if i: "registry_ok (pg_registry m)" and s: "pm_step m m'" for m m'
    using s
  proof cases
    case (init trunc as config r)
    then show ?thesis using i init_pods_ok
      by (fastforce simp: pm_Init_def Let_def split: if_splits option.splits json.splits prod.splits sum.splits)
  next
    case (add p c)
    then show ?thesis using i by (auto simp: addPod_def Let_def registerPod_def intro: registry_ok_update split: option.splits if_splits)
  next
    case (remove pod_id c p)
    then show ?thesis using i by (auto simp: removePod_def unregisterPod_def intro: registry_ok_delete split: if_splits)
  next
    case (connect as pod_id r)
    then show ?thesis using i registry_ok_get pod_connect_id
      by (fastforce simp: connectPod_def getPod_def intro!: registry_ok_update split: option.splits prod.splits)
  next
    case (disconnect pod_id c)
    show ?thesis
    proof (cases "map_of (pg_registry m) pod_id")
      case (Some p)
      then show ?thesis using disconnect i registry_ok_get [OF i Some] pod_disconnect_id [of p]
        by (auto simp: disconnectPod_def getPod_def intro!: registry_ok_update split: prod.splits)
    qed (use disconnect i in \<open>simp add: disconnectPod_def getPod_def\<close>)
  next
    case (shutdown ps)
    then show ?thesis by (auto simp: pm_Shutdown_def registry_ok_def)
  next
    case (holder pod_id p q)
    then show ?thesis using i registry_ok_get by (auto simp: getPod_def intro!: registry_ok_update)
  qed
qed

text \<open>Whatever was called before, each pod is registered once and under its own identifier. A pod that is removed, and
  every pod at a shutdown, is left with its monitor stopped and not connected; after a shutdown the manager
  is empty and takes a new configuration.\<close>

theorem manager_releases_pods:
  assumes "pm_step\<^sup>*\<^sup>* PodManager_ctor m"
  shows "distinct (listPodIds m) \<and> map (\<lambda>p. pi_pod_id (pod_getPodInfo p)) (listPods m) = listPodIds m \<and>
    (case removePod pod_id m of (c, p, m') \<Rightarrow>
       (c = SUCCESS \<longleftrightarrow> pod_id \<in> set (listPodIds m)) \<and> getPod pod_id m' = None \<and>
       (case p of None \<Rightarrow> c = POD_NOT_FOUND
        | Some p \<Rightarrow> \<not> pod_isMonitorRunning p \<and> \<not> pod_isConnected p \<and> (\<forall>k. k \<noteq> pod_id \<longrightarrow> getPod k m' = getPod k m))) \<and>
    (case pm_Shutdown m of (ps, m') \<Rightarrow>
       length ps = pm_size m \<and> (\<forall>p \<in> set ps. \<not> pod_isMonitorRunning p \<and> \<not> pod_isConnected p) \<and> pm_size m' = 0 \<and> \<not> pg_initialized m')"
proof -
  have ok: "registry_ok (pg_registry m)" using manager.reachable_inv assms by blast
  then have "map (\<lambda>p. pi_pod_id (pod_getPodInfo p)) (map snd (pg_registry m)) = map fst (pg_registry m)"
    by (auto simp: registry_ok_def)
  moreover have "(c = SUCCESS \<longleftrightarrow> pod_id \<in> set (listPodIds m)) \<and> getPod pod_id m' = None \<and>
       (case p of None \<Rightarrow> c = POD_NOT_FOUND
        | Some p \<Rightarrow> \<not> pod_isMonitorRunning p \<and> \<not> pod_isConnected p \<and> (\<forall>k. k \<noteq> pod_id \<longrightarrow> getPod k m' = getPod k m))"
    if r: "removePod pod_id m = (c, p, m')" for c p m'
  proof (cases "map_of (pg_registry m) pod_id")
    case None
    then show ?thesis using r by (auto simp: removePod_def hasPod_def listPodIds_def getPod_def map_of_eq_None_iff)
  next
    case (Some q)
    then have "pod_id \<in> fst ` set (pg_registry m)" by (metis domI dom_map_of_conv_image_fst)
    then show ?thesis using r Some close_pod_closed [of q]
      by (auto simp: removePod_def hasPod_def unregisterPod_def listPodIds_def getPod_def delete_conv')
  qed
  ultimately show ?thesis using ok close_pod_closed
    by (auto simp: registry_ok_def listPodIds_def listPods_def pm_Shutdown_def pm_size_def split: prod.split)
qed

section \<open>Events\<close>

datatype PodEventType = EventConnected | EventDisconnected | EventStateChanged | EventErrorOccurred

record PodEvent =
  pe_type :: PodEventType
  pe_pod_id :: string
  pe_message :: string

text \<open>The dispatcher is its list of listeners; a call of one is an event.\<close>

definition addEventListener :: "'l \<Rightarrow> 'l list \<Rightarrow> 'l list" where
  "addEventListener callback listeners = listeners @ [callback]"

definition dispatch :: "PodEvent \<Rightarrow> 'l list \<Rightarrow> ('l \<times> PodEvent) list" where
  "dispatch event listeners = map (\<lambda>l. (l, event)) listeners"

section \<open>Witnesses\<close>

definition demo_config :: json where
  "demo_config = JObject [(''pod_args'', JObject
     [(''a'', JObject [(''type'', JString ''dji'')]),
      (''b'', JObject [(''type'', JString ''pinling''), (''ip'', JString ''10.0.0.2''), (''port'', JUnsigned 2000),
         (''capability'', JObject [(''PTZ'', JObject [(''open'', JString ''enable'')])]),
         (''monitor'', JObject [(''enable_status_poll'', JBool True), (''auto_start'', JBool False)])]),
      (''c'', JObject [(''type'', JString ''other'')])])]"

definition demo_init :: PodManager where
  "demo_init = snd (pm_Init (\<lambda>_. 0) (\<lambda>_. demo_up) demo_config PodManager_ctor)"

lemma demo_init_result: "pm_Init (\<lambda>_. 0) (\<lambda>_. demo_up) demo_config PodManager_ctor = (Inr True, demo_init)"
proof -
  have "fst (pm_Init (\<lambda>_. 0) (\<lambda>_. demo_up) demo_config PodManager_ctor) = Inr True" by code_simp
  then show ?thesis unfolding demo_init_def by (metis prod.collapse)
qed

theorem monitor_respects_capability_witness:
  "case parseMonitorConfig (\<lambda>_. 0) (JObject [(''capability'', JObject [(''PTZ'', JObject [(''open'', JString ''enable'')])]),
       (''monitor'', JObject [(''enable_status_poll'', JBool True)])]) of
     Inr cfg \<Rightarrow> mg_enable_ptz_poll cfg \<and> \<not> mg_enable_status_poll cfg \<and> \<not> mg_enable_laser_poll cfg
   | Inl e \<Rightarrow> False"
proof -
  let ?j = "JObject [(''capability'', JObject [(''PTZ'', JObject [(''open'', JString ''enable'')])]),
       (''monitor'', JObject [(''enable_status_poll'', JBool True)])]"
  obtain cfg where c: "parseMonitorConfig (\<lambda>_. 0) ?j = Inr cfg" "mg_enable_ptz_poll cfg"
  proof -
    have "case parseMonitorConfig (\<lambda>_. 0) ?j of Inr cfg \<Rightarrow> mg_enable_ptz_poll cfg | Inl e \<Rightarrow> False" by code_simp
    then show ?thesis using that by (cases "parseMonitorConfig (\<lambda>_. 0) ?j") simp_all
  qed
  then show ?thesis using monitor_respects_capability [OF c(1)] by (auto simp: Let_def)
qed

theorem manager_init_registers_witness: "pg_initialized demo_init \<and> getPod ''c'' demo_init = None \<and> getPod ''b'' demo_init \<noteq> None"
proof -
  obtain args where a: "field demo_config ''pod_args'' = Some (JObject args)" "distinct (map fst args)"
    by (simp add: demo_config_def)
  have "getPod ''c'' demo_init = None \<and> getPod ''b'' demo_init \<noteq> None" by code_simp
  then show ?thesis
    using manager_init_registers [OF _ _ a demo_init_result] by (simp add: PodManager_ctor_def)
qed

theorem manager_releases_pods_witness: "fst (removePod ''a'' demo_init) = SUCCESS \<and> distinct (listPodIds demo_init)"
proof -
  have "''a'' \<in> set (listPodIds demo_init)" by code_simp
  then show ?thesis
    using manager_releases_pods [OF r_into_rtranclp [of pm_step, OF pm_step.init [OF demo_init_result]], of "''a''"]
    by (auto split: prod.splits)
qed

end
