(* ===== verification/Processes.thy ===== *)
theory Processes
  imports Prelude
begin

text \<open>
  The part of the POSIX process interface that the two guards of the media server use: \<open>fork\<close>, \<open>kill\<close>,
  \<open>waitpid\<close> and the sleeps between them, over the table of the processes that this process has started. A
  child that has ended is a zombie until it is waited for, and \<open>kill(pid, 0)\<close> succeeds on a zombie. What a
  child does by itself is the parameter \<open>os_fate\<close>: whether it is seen to have ended at a time, be it by a
  crash or because it answered \<open>SIGTERM\<close>. A child that was sent \<open>SIGKILL\<close> ends at most \<open>os_kill_lag\<close>
  milliseconds later.
\<close>

datatype proc_state = Live | Dying nat | Zombie | Gone
datatype signal = SIGTERM | SIGKILL

record os =
  os_clock :: nat
  os_procs :: "int \<Rightarrow> proc_state"
  os_fate :: "nat \<Rightarrow> int \<Rightarrow> bool"
  os_kill_lag :: nat
  os_forks :: "int list"
  os_signals :: "(int \<times> signal) list"

section \<open>Time\<close>

definition age :: "nat \<Rightarrow> bool \<Rightarrow> proc_state \<Rightarrow> proc_state" where
  "age t ended p = (case p of
      Live \<Rightarrow> if ended then Zombie else Live
    | Dying d \<Rightarrow> if d \<le> t \<or> ended then Zombie else Dying d
    | Zombie \<Rightarrow> Zombie | Gone \<Rightarrow> Gone)"

definition sleep_ms :: "nat \<Rightarrow> os \<Rightarrow> os" where
  "sleep_ms n w = w\<lparr>os_clock := os_clock w + n,
     os_procs := (\<lambda>p. age (os_clock w + n) (os_fate w (os_clock w + n) p) (os_procs w p))\<rparr>"

section \<open>Calls\<close>

text \<open>\<open>fork\<close>: the process number comes from the system and belongs to no child; nothing left or no proper
  number is a failure.\<close>

definition fork :: "os \<Rightarrow> int \<times> os" where
  "fork w = (case os_forks w of
      [] \<Rightarrow> (- 1, w)
    | p # ps \<Rightarrow> if 0 < p \<and> os_procs w p = Gone
        then (p, w\<lparr>os_procs := (os_procs w)(p := Live), os_forks := ps\<rparr>) else (- 1, w\<lparr>os_forks := ps\<rparr>))"

text \<open>\<open>kill(pid, 0) == 0\<close>\<close>

definition kill0 :: "int \<Rightarrow> os \<Rightarrow> bool" where
  "kill0 p w \<longleftrightarrow> os_procs w p \<noteq> Gone"

definition kill :: "int \<Rightarrow> signal \<Rightarrow> os \<Rightarrow> os" where
  "kill p sig w = (if os_procs w p = Gone then w else
     w\<lparr>os_signals := os_signals w @ [(p, sig)],
       os_procs := (if sig = SIGKILL \<and> os_procs w p = Live
                    then (os_procs w)(p := Dying (os_clock w + os_kill_lag w)) else os_procs w)\<rparr>)"

text \<open>\<open>waitpid(pid, &status, WNOHANG)\<close>\<close>

definition waitpid_nohang :: "int \<Rightarrow> os \<Rightarrow> int \<times> os" where
  "waitpid_nohang p w = (case os_procs w p of
      Zombie \<Rightarrow> (p, w\<lparr>os_procs := (os_procs w)(p := Gone)\<rparr>)
    | Gone \<Rightarrow> (- 1, w)
    | _ \<Rightarrow> (0, w))"

text \<open>\<open>waitpid(pid, &status, 0)\<close>: \<open>None\<close> when nothing makes the child end.\<close>

definition waitpid :: "int \<Rightarrow> os \<Rightarrow> (int \<times> os) option" where
  "waitpid p w = (case os_procs w p of
      Live \<Rightarrow> None
    | Dying t \<Rightarrow> Some (waitpid_nohang p (sleep_ms (t - os_clock w) w))
    | _ \<Rightarrow> Some (waitpid_nohang p w))"

section \<open>What the calls do to the table\<close>

named_theorems os_defs \<open>the calls of the process interface\<close>

lemmas [os_defs] = sleep_ms_def fork_def kill0_def kill_def waitpid_nohang_def waitpid_def age_def

lemma age_Gone [simp]: "age t e p = Gone \<longleftrightarrow> p = Gone"
  by (cases p) (simp_all add: age_def)

lemma age_Zombie [simp]: "age t e Zombie = Zombie"
  by (simp add: age_def)

lemma sleep_ms_simps [simp]:
  "os_clock (sleep_ms n w) = os_clock w + n"
  "os_procs (sleep_ms n w) p = Gone \<longleftrightarrow> os_procs w p = Gone"
  "os_procs w p = Zombie \<Longrightarrow> os_procs (sleep_ms n w) p = Zombie"
  "os_kill_lag (sleep_ms n w) = os_kill_lag w"
  "os_signals (sleep_ms n w) = os_signals w"
  "os_forks (sleep_ms n w) = os_forks w"
  "os_fate (sleep_ms n w) = os_fate w"
  by (simp_all add: sleep_ms_def)

lemma kill0_sleep [simp]: "kill0 p (sleep_ms n w) = kill0 p w"
  by (simp add: kill0_def)

lemma kill_simps [simp]:
  "os_clock (kill p sig w) = os_clock w"
  "os_kill_lag (kill p sig w) = os_kill_lag w"
  "os_procs (kill p sig w) q = Gone \<longleftrightarrow> os_procs w q = Gone"
  "os_forks (kill p sig w) = os_forks w"
  "os_fate (kill p sig w) = os_fate w"
  "kill0 q (kill p sig w) = kill0 q w"
  by (simp_all add: kill_def kill0_def)

text \<open>The only process in the table, if any, is \<open>p\<close>.\<close>

definition only_child :: "int \<Rightarrow> os \<Rightarrow> bool" where
  "only_child p w \<longleftrightarrow> (\<forall>q. q \<noteq> p \<longrightarrow> os_procs w q = Gone)"

definition no_child :: "os \<Rightarrow> bool" where
  "no_child w \<longleftrightarrow> (\<forall>q. os_procs w q = Gone)"

lemma only_child_sleep [simp]: "only_child p (sleep_ms n w) = only_child p w"
  by (simp add: only_child_def)

lemma only_child_kill [simp]: "only_child p (kill q sig w) = only_child p w"
  by (simp add: only_child_def)

lemma only_child_gone: "only_child p w \<Longrightarrow> os_procs w p = Gone \<Longrightarrow> no_child w"
  unfolding only_child_def no_child_def by metis

lemma no_child_only: "no_child w \<Longrightarrow> only_child p w"
  by (simp add: only_child_def no_child_def)

lemma waitpid_nohang_only: "only_child p w \<Longrightarrow> only_child p (snd (waitpid_nohang q w))"
  by (simp add: only_child_def waitpid_nohang_def split: proc_state.split)

lemma no_child_sleep [simp]: "no_child (sleep_ms n w) = no_child w"
  by (simp add: no_child_def)

text \<open>\<open>fork\<close> gives a number of its own or fails.\<close>

lemma fork_cases:
  obtains (failed) w' where "fork w = (- 1, w')" "os_procs w' = os_procs w" "os_kill_lag w' = os_kill_lag w"
      "os_clock w' = os_clock w" "os_fate w' = os_fate w"
    | (forked) p w' where "fork w = (p, w')" "0 < p" "os_procs w p = Gone"
      "os_procs w' = (os_procs w)(p := Live)" "os_kill_lag w' = os_kill_lag w" "os_clock w' = os_clock w"
      "os_fate w' = os_fate w"
proof (cases "os_forks w")
  case Nil
  then show thesis using failed by (simp add: fork_def)
next
  case (Cons p ps)
  show thesis
  proof (cases "0 < p \<and> os_procs w p = Gone")
    case True
    then show thesis using Cons forked by (simp add: fork_def)
  next
    case False
    then show thesis using Cons failed by (simp add: fork_def)
  qed
qed

text \<open>A child that was sent \<open>SIGKILL\<close> is waited for in the end.\<close>

lemma waitpid_killed:
  assumes "os_procs w p = Zombie \<or> (\<exists>t. os_procs w p = Dying t)"
  shows "\<exists>w'. waitpid p w = Some (p, w') \<and> os_procs w' p = Gone \<and> (\<forall>q. q \<noteq> p \<longrightarrow> (os_procs w' q = Gone \<longleftrightarrow> os_procs w q = Gone))
     \<and> os_kill_lag w' = os_kill_lag w"
  using assms
proof
  assume "os_procs w p = Zombie"
  then show ?thesis by (auto simp: waitpid_def waitpid_nohang_def)
next
  assume "\<exists>t. os_procs w p = Dying t"
  then obtain t where t: "os_procs w p = Dying t" ..
  moreover have "t \<le> os_clock w + (t - os_clock w)" by simp
  ultimately have "os_procs (sleep_ms (t - os_clock w) w) p = Zombie" by (simp add: sleep_ms_def age_def)
  then show ?thesis using t by (auto simp: waitpid_def waitpid_nohang_def)
qed

end
