(* ===== verification/RelayMonitor.thy ===== *)
theory RelayMonitor
  imports Processes AirdropLock
begin

text \<open>
  The first media server guard, \<open>src/util/my_mediamtx_monitor/v1\<close>: the reading of its configuration, the YAML file it
  writes for the server, and the life of the server process. The text of a JSON value that is not a string, as
  \<open>dump()\<close> prints it, is the parameter \<open>dump\<close>; the files are a table of contents. Logging and the help texts are
  left out.
\<close>

datatype RtspRelayState = STOPPED | STARTING | RUNNING | SOURCE_LOST | RELAY_ERROR

definition RtspRelayStateToString :: "RtspRelayState \<Rightarrow> string" where
  "RtspRelayStateToString state = (case state of
      STOPPED \<Rightarrow> ''STOPPED'' | STARTING \<Rightarrow> ''STARTING'' | RUNNING \<Rightarrow> ''RUNNING''
    | SOURCE_LOST \<Rightarrow> ''SOURCE_LOST'' | RELAY_ERROR \<Rightarrow> ''ERROR'')"

section \<open>YAML\<close>

abbreviation (input) nl :: char where "nl \<equiv> CHR 0x0A"

definition quoted :: "string \<Rightarrow> string" where
  "quoted s = CHR 0x22 # s @ [CHR 0x22]"

fun is_array :: "json \<Rightarrow> bool" where
  "is_array (JArray xs) = True"
| "is_array _ = False"

fun yaml_scalar :: "(json \<Rightarrow> string) \<Rightarrow> json \<Rightarrow> string" where
  "yaml_scalar dump (JString s) = quoted s"
| "yaml_scalar dump (JBool b) = (if b then ''yes'' else ''no'')"
| "yaml_scalar dump v = dump v"

definition fields_size :: "(string \<times> json) list \<Rightarrow> nat" where
  "fields_size fs = size_list (size_prod (\<lambda>_. 0) size) fs"

text \<open>The loops over the fields of an object and over the elements of an array are functions of their own.\<close>

function (sequential) JsonToYaml :: "(json \<Rightarrow> string) \<Rightarrow> json \<Rightarrow> nat \<Rightarrow> string"
  and yaml_fields :: "(json \<Rightarrow> string) \<Rightarrow> (string \<times> json) list \<Rightarrow> nat \<Rightarrow> string"
  and yaml_elems :: "(json \<Rightarrow> string) \<Rightarrow> json list \<Rightarrow> nat \<Rightarrow> string" where
  "JsonToYaml dump (JObject fs) indent = yaml_fields dump fs indent"
| "JsonToYaml dump _ indent = []"
| "yaml_fields dump [] indent = []"
| "yaml_fields dump ((key, JObject fs) # rest) indent =
     replicate (indent * 2) CHR '' '' @ key @ '':'' @ [nl] @ JsonToYaml dump (JObject fs) (indent + 1) @
     yaml_fields dump rest indent"
| "yaml_fields dump ((key, JArray xs) # rest) indent =
     replicate (indent * 2) CHR '' '' @ key @ '':'' @ [nl] @ yaml_elems dump xs indent @ yaml_fields dump rest indent"
| "yaml_fields dump ((key, v) # rest) indent =
     replicate (indent * 2) CHR '' '' @ key @ '': '' @ yaml_scalar dump v @ [nl] @ yaml_fields dump rest indent"
| "yaml_elems dump [] indent = []"
| "yaml_elems dump (e # es) indent =
     (if is_object e \<or> is_array e
      then replicate (indent * 2) CHR '' '' @ ''  -'' @ [nl] @ JsonToYaml dump e (indent + 2)
      else replicate (indent * 2) CHR '' '' @ ''  - '' @ dump e @ [nl]) @ yaml_elems dump es indent"
  by pat_completeness auto

termination
  by (relation "measure (case_sum (\<lambda>(_, j, _). size j)
    (case_sum (\<lambda>(_, fs, _). fields_size fs) (\<lambda>(_, xs, _). size_list size xs)))")
    (simp_all add: fields_size_def)

section \<open>State\<close>

record relay =
  rl_json_config :: json
  rl_mediamtx_json_config :: json
  rl_yaml_content :: string
  rl_local_ip :: string
  rl_yaml_file_name :: string
  rl_yaml_file_abs_path :: string
  rl_mediamtx_bin :: string
  rl_check_ip :: string
  rl_check_port :: int
  rl_listen_port :: int
  rl_interval_sec :: int
  rl_enable :: bool
  rl_running :: bool
  rl_initialized :: bool
  rl_pid :: int
  rl_joinable :: bool
  rl_state :: RtspRelayState
  rl_info :: json
  rl_os :: os
  rl_files :: "string \<Rightarrow> string option"

definition new_relay :: "os \<Rightarrow> (string \<Rightarrow> string option) \<Rightarrow> relay" where
  "new_relay w files = \<lparr>rl_json_config = JNull, rl_mediamtx_json_config = JNull, rl_yaml_content = [], rl_local_ip = [],
     rl_yaml_file_name = ''mediamtx.yaml'', rl_yaml_file_abs_path = [], rl_mediamtx_bin = ''./mediamtx'',
     rl_check_ip = [], rl_check_port = 2000, rl_listen_port = 8555, rl_interval_sec = 5, rl_enable = False,
     rl_running = False, rl_initialized = False, rl_pid = - 1, rl_joinable = False, rl_state = STOPPED,
     rl_info = JNull, rl_os = w, rl_files = files\<rparr>"

section \<open>Configuration\<close>

definition string_field :: "json \<Rightarrow> string \<Rightarrow> string option" where
  "string_field j key = (case field j key of Some (JString s) \<Rightarrow> Some s | _ \<Rightarrow> None)"

definition int_field :: "json \<Rightarrow> string \<Rightarrow> int option" where
  "int_field j key = (case field j key of
      Some (JInteger i) \<Rightarrow> Some (to_int32 i) | Some (JUnsigned n) \<Rightarrow> Some (to_int32 (int n)) | _ \<Rightarrow> None)"

definition bool_field :: "json \<Rightarrow> string \<Rightarrow> bool option" where
  "bool_field j key = (case field j key of Some (JBool b) \<Rightarrow> Some b | _ \<Rightarrow> None)"

definition or_else :: "'a option \<Rightarrow> 'a \<Rightarrow> 'a" where
  "or_else x d = (case x of Some v \<Rightarrow> v | None \<Rightarrow> d)"

definition listen_port :: "json \<Rightarrow> int \<Rightarrow> int" where
  "listen_port cfg port = (case string_field cfg ''rtspAddress'' of
      None \<Rightarrow> port
    | Some addr \<Rightarrow> (case stoi addr of Inr p \<Rightarrow> p | Inl e \<Rightarrow> port))"

definition relay_ParseConfig :: "relay \<Rightarrow> bool \<times> relay" where
  "relay_ParseConfig m =
     (let cfg = rl_json_config m;
          m = m\<lparr>rl_enable := or_else (bool_field cfg ''mediamtx_enable'') (rl_enable m)\<rparr>
      in case string_field cfg ''check_ip'' of
           None \<Rightarrow> (False, m)
         | Some ip \<Rightarrow>
           (let m = m\<lparr>rl_check_ip := ip,
                  rl_check_port := or_else (int_field cfg ''check_port'') (rl_check_port m),
                  rl_yaml_file_name := or_else (string_field cfg ''yaml_file_name'') (rl_yaml_file_name m),
                  rl_mediamtx_bin := or_else (string_field cfg ''mediamtx_bin_path'')
                    (or_else (string_field cfg ''mediamtx_bin'') (rl_mediamtx_bin m)),
                  rl_interval_sec := (case int_field cfg ''monitor_interval_sec'' of
                      Some v \<Rightarrow> if v < 1 then 1 else v | None \<Rightarrow> rl_interval_sec m)\<rparr>
            in case field cfg ''mediamtx_json_config'' of
                 Some (JObject fs) \<Rightarrow> (True, m\<lparr>rl_mediamtx_json_config := JObject fs,
                   rl_listen_port := listen_port (JObject fs) (rl_listen_port m)\<rparr>)
               | _ \<Rightarrow> (False, m)))"

text \<open>What the file system answers: whether the old file can be deleted and the new one written.\<close>

definition GenerateYAML :: "(json \<Rightarrow> string) \<Rightarrow> bool \<Rightarrow> bool \<Rightarrow> relay \<Rightarrow> bool \<times> relay" where
  "GenerateYAML dump can_delete can_write m =
     (let m = m\<lparr>rl_yaml_content := JsonToYaml dump (rl_mediamtx_json_config m) 0\<rparr>;
          path = rl_yaml_file_abs_path m
      in if path = [] then (False, m)
         else
           (let m = (if rl_files m path \<noteq> None \<and> can_delete then m\<lparr>rl_files := (rl_files m)(path := None)\<rparr> else m)
            in if can_write then (True, m\<lparr>rl_files := (rl_files m)(path := Some (rl_yaml_content m))\<rparr>)
               else (False, m)))"

definition stream_info :: "string \<times> json \<Rightarrow> json" where
  "stream_info p = JObject ((''stream_name'', JString (fst p)) #
     (case string_field (snd p) ''source'' of Some s \<Rightarrow> [(''source_url'', JString s)] | None \<Rightarrow> []) @
     (case bool_field (snd p) ''sourceOnDemand'' of Some b \<Rightarrow> [(''on_demand'', JBool b)] | None \<Rightarrow> []))"

definition source_info :: "relay \<Rightarrow> json" where
  "source_info m = JObject ([(''check_ip'', JString (rl_check_ip m)), (''check_port'', JInteger (rl_check_port m))] @
     (case field (rl_mediamtx_json_config m) ''paths'' of
        Some (JObject ps) \<Rightarrow> if ps = [] then [] else [(''streams'', JArray (map stream_info ps))]
      | _ \<Rightarrow> []))"

definition relay_info :: "relay \<Rightarrow> json" where
  "relay_info m =
     (let address = rl_local_ip m @ '':'' @ int_to_string (rl_listen_port m) in
      JObject [(''module'', JString ''RtspRelayMonitor''), (''enabled'', JBool (rl_enable m)),
        (''source'', source_info m),
        (''local'', JObject [(''rtsp_listen_port'', JInteger (rl_listen_port m)),
           (''rtsp_listen_address'', JString address), (''mediamtx_bin'', JString (rl_mediamtx_bin m)),
           (''yaml_file'', JString (rl_yaml_file_abs_path m))]),
        (''pull_method'', JObject [(''protocol'', JString ''RTSP''),
           (''relay_url'', JString (''rtsp://'' @ address @ ''/live''))]),
        (''monitor_interval_sec'', JInteger (rl_interval_sec m))])"

text \<open>\<open>Init\<close>, with the address and the start directory that the tools report.\<close>

definition relay_Init :: "(json \<Rightarrow> string) \<Rightarrow> string \<Rightarrow> string \<Rightarrow> bool \<Rightarrow> bool \<Rightarrow> json \<Rightarrow> relay \<Rightarrow> bool \<times> relay" where
  "relay_Init dump local_ip root_path can_delete can_write json_config m =
     (case relay_ParseConfig (m\<lparr>rl_json_config := json_config\<rparr>) of
        (False, m) \<Rightarrow> (False, m)
      | (True, m) \<Rightarrow>
        (let m = m\<lparr>rl_local_ip := local_ip\<rparr> in
         if root_path = [] then (False, m)
         else if rl_yaml_file_name m = [] then (False, m)
         else (case GenerateYAML dump can_delete can_write
                      (m\<lparr>rl_yaml_file_abs_path := root_path @ ''/'' @ rl_yaml_file_name m\<rparr>) of
             (False, m) \<Rightarrow> (False, m)
           | (True, m) \<Rightarrow> (let m = m\<lparr>rl_initialized := True\<rparr> in (True, m\<lparr>rl_info := relay_info m\<rparr>)))))"

section \<open>The server process\<close>

text \<open>The wait for the process to answer \<open>SIGTERM\<close>, at most so many seconds.\<close>

fun term_wait :: "nat \<Rightarrow> int \<Rightarrow> os \<Rightarrow> os" where
  "term_wait 0 pid w = w"
| "term_wait (Suc n) pid w = (let w = sleep_ms 1000 w in if kill0 pid w then term_wait n pid w else w)"

text \<open>\<open>None\<close> when the blocking \<open>waitpid\<close> does not return.\<close>

definition StopRelayProcess :: "relay \<Rightarrow> relay option" where
  "StopRelayProcess m =
     (let pid = rl_pid m in
      if pid \<le> 0 then Some m
      else
        (let w = term_wait 5 pid (kill pid SIGTERM (rl_os m));
             w = (if kill0 pid w then kill pid SIGKILL w else w)
         in map_option (\<lambda>(r, w). m\<lparr>rl_os := w, rl_pid := - 1\<rparr>) (waitpid pid w)))"

definition CheckProcessAlive :: "relay \<Rightarrow> bool \<times> relay" where
  "CheckProcessAlive m =
     (if rl_pid m \<le> 0 then (False, m)
      else if kill0 (rl_pid m) (rl_os m) then (True, m)
      else (False, m\<lparr>rl_os := snd (waitpid_nohang (rl_pid m) (rl_os m)), rl_pid := - 1\<rparr>))"

definition StartRelayProcess :: "bool \<Rightarrow> relay \<Rightarrow> bool \<times> relay" where
  "StartRelayProcess port_available m =
     (if \<not> port_available then (False, m)
      else if rl_files m (rl_yaml_file_abs_path m) = None then (False, m)
      else (case fork (rl_os m) of (pid, w) \<Rightarrow>
        if pid < 0 then (False, m\<lparr>rl_os := w\<rparr>) else (True, m\<lparr>rl_os := w, rl_pid := pid\<rparr>)))"

text \<open>The body of \<open>MonitorLoop\<close> behind its check of \<open>running_\<close>, with the answer of the probe of the source and
  whether the port can be bound.\<close>

definition relay_body :: "bool \<Rightarrow> bool \<Rightarrow> relay \<Rightarrow> relay option" where
  "relay_body reachable port_available m =
     (if \<not> rl_enable m then map_option (\<lambda>m. m\<lparr>rl_state := STOPPED\<rparr>) (StopRelayProcess m)
      else if \<not> reachable then map_option (\<lambda>m. m\<lparr>rl_state := SOURCE_LOST\<rparr>) (StopRelayProcess m)
      else (case CheckProcessAlive m of
          (True, m) \<Rightarrow> Some (m\<lparr>rl_state := RUNNING\<rparr>)
        | (False, m) \<Rightarrow> (case StartRelayProcess port_available m of
              (True, m) \<Rightarrow> Some (m\<lparr>rl_state := STARTING\<rparr>)
            | (False, m) \<Rightarrow> Some (m\<lparr>rl_state := RELAY_ERROR\<rparr>))))"

section \<open>Start and stop\<close>

definition relay_Start :: "relay \<Rightarrow> relay" where
  "relay_Start m =
     (if \<not> rl_initialized m then m
      else if rl_running m then m
      else m\<lparr>rl_running := True, rl_joinable := True\<rparr>)"

text \<open>\<open>Stop\<close> up to the join of the monitor thread, and behind it.\<close>

definition relay_stop_begin :: "relay \<Rightarrow> relay option" where
  "relay_stop_begin m = StopRelayProcess (m\<lparr>rl_running := False\<rparr>)"

definition relay_stop_end :: "relay \<Rightarrow> relay" where
  "relay_stop_end m = m\<lparr>rl_joinable := False, rl_state := STOPPED\<rparr>"

definition relay_GetHeartbeat :: "relay \<Rightarrow> json" where
  "relay_GetHeartbeat m = JObject [(''module'', JString ''RtspRelayMonitor''),
     (''state'', JString (RtspRelayStateToString (rl_state m))), (''enable'', JBool (rl_enable m)),
     (''check_ip'', JString (rl_check_ip m)), (''check_port'', JInteger (rl_check_port m)),
     (''rtsp_listen_port'', JInteger (rl_listen_port m)), (''relay_pid'', JInteger (rl_pid m)),
     (''yaml_file'', JString (rl_yaml_file_abs_path m))]"

text \<open>\<open>RtspRelayMonitorManager::IsRunning\<close>\<close>

definition relay_IsRunning :: "relay \<Rightarrow> bool" where
  "relay_IsRunning m \<longleftrightarrow> rl_state m = RUNNING \<or> rl_state m = STARTING"

section \<open>A stop returns\<close>

lemma term_wait_simps [simp]:
  "os_procs (term_wait n pid w) q = Gone \<longleftrightarrow> os_procs w q = Gone"
  "os_kill_lag (term_wait n pid w) = os_kill_lag w"
  "kill0 q (term_wait n pid w) = kill0 q w"
  by (induction n arbitrary: w) (simp_all add: Let_def kill0_def)

text \<open>A zombie keeps answering \<open>kill(pid, 0)\<close>, so the wait never ends early for a child of this process.\<close>

lemma term_wait_full: "kill0 pid w \<Longrightarrow> os_clock (term_wait n pid w) = os_clock w + 1000 * n"
  by (induction n arbitrary: w) (simp_all add: Let_def)

lemma killed_ends: "kill0 pid w \<Longrightarrow> os_procs (kill pid SIGKILL w) pid \<noteq> Live"
  by (simp add: kill_def kill0_def)

lemma waitpid_returns: "os_procs w pid \<noteq> Live \<Longrightarrow> waitpid pid w \<noteq> None"
  by (simp add: waitpid_def split: proc_state.split)

lemma StopRelayProcess_returns: "\<exists>m'. StopRelayProcess m = Some m'"
proof -
  define w where "w = term_wait 5 (rl_pid m) (kill (rl_pid m) SIGTERM (rl_os m))"
  define w' where "w' = (if kill0 (rl_pid m) w then kill (rl_pid m) SIGKILL w else w)"
  have "os_procs w' (rl_pid m) \<noteq> Live"
    using killed_ends [of "rl_pid m" w] by (auto simp: w'_def kill0_def)
  then have "waitpid (rl_pid m) w' \<noteq> None" by (rule waitpid_returns)
  then show ?thesis by (auto simp: StopRelayProcess_def Let_def w_def w'_def)
qed

text \<open>The process table under the guard: at most the child it remembers, and that one is not waited for.\<close>

definition relay_inv :: "relay \<Rightarrow> bool" where
  "relay_inv m \<longleftrightarrow> only_child (rl_pid m) (rl_os m) \<and> (os_procs (rl_os m) (rl_pid m) \<noteq> Gone \<longleftrightarrow> 0 < rl_pid m)"

lemma relay_inv_no_child: "relay_inv m \<Longrightarrow> rl_pid m \<le> 0 \<Longrightarrow> no_child (rl_os m)"
  using only_child_gone [of "rl_pid m" "rl_os m"] by (auto simp: relay_inv_def)

lemma no_child_relay_inv: "no_child (rl_os m) \<Longrightarrow> rl_pid m \<le> 0 \<Longrightarrow> relay_inv m"
  by (auto simp: relay_inv_def no_child_def only_child_def)

lemma StopRelayProcess_inv:
  assumes "relay_inv m" "StopRelayProcess m = Some m'"
  shows "rl_pid m' \<le> 0 \<and> no_child (rl_os m') \<and> (\<exists>w p. m' = m\<lparr>rl_os := w, rl_pid := p\<rparr>)"
proof (cases "rl_pid m \<le> 0")
  case True
  then have "m' = m" using assms(2) by (simp add: StopRelayProcess_def)
  moreover have "m = m\<lparr>rl_os := rl_os m, rl_pid := rl_pid m\<rparr>" by simp
  ultimately show ?thesis using True relay_inv_no_child [OF assms(1)] by blast
next
  case False
  let ?p = "rl_pid m"
  define w where "w = term_wait 5 ?p (kill ?p SIGTERM (rl_os m))"
  have there: "kill0 ?p w" using assms(1) False by (simp add: w_def relay_inv_def kill0_def)
  have "os_procs (kill ?p SIGKILL w) ?p = Zombie \<or> (\<exists>t. os_procs (kill ?p SIGKILL w) ?p = Dying t)"
    using there by (cases "os_procs w ?p") (auto simp: kill_def kill0_def)
  from waitpid_killed [OF this] obtain w' where w': "waitpid ?p (kill ?p SIGKILL w) = Some (?p, w')"
    "os_procs w' ?p = Gone" "\<forall>q. q \<noteq> ?p \<longrightarrow> (os_procs w' q = Gone \<longleftrightarrow> os_procs w q = Gone)" by auto
  have "m' = m\<lparr>rl_os := w', rl_pid := - 1\<rparr>"
    using assms(2) False there w'(1) by (simp add: StopRelayProcess_def Let_def w_def)
  moreover have "os_procs w' q = Gone" for q
    using w'(2,3) assms(1) by (cases "q = ?p") (simp_all add: w_def relay_inv_def only_child_def)
  ultimately show ?thesis by (auto simp: no_child_def)
qed

lemma CheckProcessAlive_inv:
  assumes "relay_inv m"
  shows "CheckProcessAlive m = (0 < rl_pid m, m)"
  using assms by (simp add: CheckProcessAlive_def relay_inv_def kill0_def)

lemma StartRelayProcess_inv:
  assumes "relay_inv m" "rl_pid m \<le> 0" "StartRelayProcess ok m = (b, m')"
  shows "relay_inv m' \<and> (b \<longleftrightarrow> 0 < rl_pid m')"
proof -
  note empty = relay_inv_no_child [OF assms(1,2)]
  have same: "relay_inv m \<and> (False \<longleftrightarrow> 0 < rl_pid m)" using assms(1,2) by simp
  show ?thesis
  proof (cases "ok \<and> rl_files m (rl_yaml_file_abs_path m) \<noteq> None")
    case False
    then show ?thesis using assms(3) same by (auto simp: StartRelayProcess_def split: if_splits)
  next
    case True
    show ?thesis
    proof (cases rule: fork_cases [of "rl_os m"])
      case (failed w')
      then show ?thesis using True assms(2,3) empty
        by (auto simp: StartRelayProcess_def relay_inv_def no_child_def only_child_def)
    next
      case (forked p w')
      then show ?thesis using True assms(3) empty
        by (auto simp: StartRelayProcess_def relay_inv_def no_child_def only_child_def)
    qed
  qed
qed

lemma relay_inv_state [simp]: "relay_inv (m\<lparr>rl_state := st\<rparr>) = relay_inv m"
  by (simp add: relay_inv_def)

text \<open>A round of the first media server guard always comes back, however the server behaves: the wait behind \<open>SIGTERM\<close> is
  bounded and the blocking \<open>waitpid\<close> only runs on a server that has ended or was sent \<open>SIGKILL\<close>.\<close>

theorem relay_body_returns: "\<exists>m'. relay_body reachable port_available m = Some m'"
  using StopRelayProcess_returns [of m]
  by (auto simp: relay_body_def split: prod.split bool.split)

lemma relay_body_inv:
  assumes "relay_inv m" "relay_body reachable port_available m = Some m'"
  shows "relay_inv m' \<and> ((rl_state m' = RUNNING \<or> rl_state m' = STARTING) \<longleftrightarrow> 0 < rl_pid m')"
proof (cases "rl_enable m \<and> reachable")
  case False
  then obtain m1 st where "StopRelayProcess m = Some m1" "m' = m1\<lparr>rl_state := st\<rparr>" "st \<in> {STOPPED, SOURCE_LOST}"
    using assms(2) by (auto simp: relay_body_def split: if_splits)
  then show ?thesis using StopRelayProcess_inv [OF assms(1)] no_child_relay_inv [of m1] by fastforce
next
  case True
  show ?thesis
  proof (cases "0 < rl_pid m")
    case alive: True
    then show ?thesis using True assms CheckProcessAlive_inv [OF assms(1)] by (auto simp: relay_body_def)
  next
    case dead: False
    obtain b m1 where st: "StartRelayProcess port_available m = (b, m1)" by fastforce
    have m': "m' = m1\<lparr>rl_state := (if b then STARTING else RELAY_ERROR)\<rparr>"
      using True dead assms(2) CheckProcessAlive_inv [OF assms(1)] st
      by (cases b) (auto simp: relay_body_def)
    show ?thesis using StartRelayProcess_inv [OF assms(1) _ st] dead m' by auto
  qed
qed

text \<open>After a round of the first media server guard the state it reports is what the process table holds: when it
  says that the server is running or starting there is a server process not yet waited for, and in every
  other state there is no child process at all.\<close>

theorem relay_state_matches_table:
  assumes "relay_inv m" "relay_body reachable port_available m = Some m'"
  shows "if relay_IsRunning m' then os_procs (rl_os m') (rl_pid m') \<noteq> Gone else no_child (rl_os m')"
  using relay_body_inv [OF assms] relay_inv_no_child [of m']
  by (auto simp: relay_IsRunning_def relay_inv_def not_less)

text \<open>A server that has crashed is a zombie, which \<open>kill(pid, 0)\<close> takes for a living process: the guard reports it as
  running for as long as the source can be reached, and never starts it again.\<close>

theorem relay_blind_to_crash:
  assumes "0 < rl_pid m" "os_procs (rl_os m) (rl_pid m) = Zombie" "rl_enable m"
  shows "((\<lambda>m. the (relay_body True port_available m)) ^^ Suc n) m = m\<lparr>rl_state := RUNNING\<rparr>"
proof (induction n)
  case 0
  show ?case using assms by (simp add: relay_body_def CheckProcessAlive_def kill0_def)
next
  case (Suc n)
  then show ?case using assms by (simp add: relay_body_def CheckProcessAlive_def kill0_def)
qed

text \<open>An array inside an array leaves no text.\<close>

theorem nested_array_lost: "JsonToYaml dump (JArray xs) indent = []"
  by simp

end
