(* ===== verification/RelayThreads.thy ===== *)
theory RelayThreads
  imports RelayMonitor
begin

text \<open>
  The monitor thread of the first media server guard beside the caller of \<open>Init\<close>, \<open>Start\<close> and \<open>Stop\<close>. A round of
  \<open>MonitorLoop\<close> is two steps, the check of \<open>running_\<close> behind its sleep and its body; \<open>Stop\<close> is two steps, up to
  the join and behind it. The body and the stop of the process are single steps. In the program \<open>relay_pid_\<close> is a plain number that
  both threads use without a lock, and a round of the monitor that falls between the last \<open>waitpid\<close> of
  \<open>StopRelayProcess\<close> and its \<open>relay_pid_ = -1\<close> finds no process, starts a server and has its number overwritten. What is
  shown here holds where no round falls into a stop of the process.
\<close>

datatype monitor_pc = NotStarted | Asleep | Checked | Ended
datatype caller_pc = Free | Joining

record relay_system =
  sys_relay :: relay
  sys_monitor :: monitor_pc
  sys_caller :: caller_pc

inductive relay_step :: "relay_system \<Rightarrow> relay_system \<Rightarrow> bool" where
  init: "sys_caller s = Free \<Longrightarrow>
    relay_step s (s\<lparr>sys_relay := snd (relay_Init dump ip root can_delete can_write cfg (sys_relay s))\<rparr>)"
| start: "sys_caller s = Free \<Longrightarrow>
    relay_step s (s\<lparr>sys_relay := relay_Start (sys_relay s),
      sys_monitor := (if rl_initialized (sys_relay s) \<and> \<not> rl_running (sys_relay s) then Asleep else sys_monitor s)\<rparr>)"
| stop: "sys_caller s = Free \<Longrightarrow> relay_stop_begin (sys_relay s) = Some m \<Longrightarrow>
    relay_step s (s\<lparr>sys_relay := m, sys_caller := Joining\<rparr>)"
| joined: "sys_caller s = Joining \<Longrightarrow> sys_monitor s = Ended \<or> sys_monitor s = NotStarted \<Longrightarrow>
    relay_step s (s\<lparr>sys_relay := relay_stop_end (sys_relay s), sys_monitor := NotStarted, sys_caller := Free\<rparr>)"
| check: "sys_monitor s = Asleep \<Longrightarrow> rl_running (sys_relay s) \<Longrightarrow> relay_step s (s\<lparr>sys_monitor := Checked\<rparr>)"
| leave: "sys_monitor s = Asleep \<Longrightarrow> \<not> rl_running (sys_relay s) \<Longrightarrow> relay_step s (s\<lparr>sys_monitor := Ended\<rparr>)"
| body: "sys_monitor s = Checked \<Longrightarrow> relay_body reachable port_available (sys_relay s) = Some m \<Longrightarrow>
    relay_step s (s\<lparr>sys_relay := m, sys_monitor := Asleep\<rparr>)"
| pass: "relay_step s (s\<lparr>sys_relay := (sys_relay s)\<lparr>rl_os := sleep_ms n (rl_os (sys_relay s))\<rparr>\<rparr>)"

inductive_cases relay_stepE: "relay_step s s'"

definition relay_start_state :: "relay_system \<Rightarrow> bool" where
  "relay_start_state s \<longleftrightarrow> (\<exists>w files. no_child w \<and>
     s = \<lparr>sys_relay = new_relay w files, sys_monitor = NotStarted, sys_caller = Free\<rparr>)"

definition relay_system_inv :: "relay_system \<Rightarrow> bool" where
  "relay_system_inv s \<longleftrightarrow> relay_inv (sys_relay s)"

section \<open>One server at a time\<close>

lemma relay_ParseConfig_frame:
  "rl_os (snd (relay_ParseConfig m)) = rl_os m \<and> rl_pid (snd (relay_ParseConfig m)) = rl_pid m"
  by (auto simp: relay_ParseConfig_def Let_def split: option.splits json.splits)

lemma GenerateYAML_frame:
  "rl_os (snd (GenerateYAML d cd cw m)) = rl_os m \<and> rl_pid (snd (GenerateYAML d cd cw m)) = rl_pid m"
  by (auto simp: GenerateYAML_def Let_def)

lemma relay_Init_frame:
  "rl_os (snd (relay_Init d ip root cd cw cfg m)) = rl_os m \<and> rl_pid (snd (relay_Init d ip root cd cw cfg m)) = rl_pid m"
proof -
  obtain b m1 where p: "relay_ParseConfig (m\<lparr>rl_json_config := cfg\<rparr>) = (b, m1)" by fastforce
  have f1: "rl_os m1 = rl_os m" "rl_pid m1 = rl_pid m"
    using relay_ParseConfig_frame [of "m\<lparr>rl_json_config := cfg\<rparr>"] p by auto
  let ?m2 = "m1\<lparr>rl_local_ip := ip, rl_yaml_file_abs_path := root @ ''/'' @ rl_yaml_file_name m1\<rparr>"
  obtain c m3 where g: "GenerateYAML d cd cw ?m2 = (c, m3)" by fastforce
  have f3: "rl_os m3 = rl_os m" "rl_pid m3 = rl_pid m"
    using GenerateYAML_frame [of d cd cw ?m2] g f1 by auto
  show ?thesis using p g f1 f3 by (cases b; cases c) (simp_all add: relay_Init_def Let_def)
qed

lemma relay_step_inv: "relay_system_inv s \<Longrightarrow> relay_step s s' \<Longrightarrow> relay_system_inv s'"
proof (erule relay_stepE, goal_cases)
  case (1 d ip root cd cw cfg)
  then show ?case using relay_Init_frame [of d ip root cd cw cfg "sys_relay s"]
    by (simp add: relay_system_inv_def relay_inv_def)
next
  case (3 m)
  then have "relay_inv ((sys_relay s)\<lparr>rl_running := False\<rparr>)" by (simp add: relay_system_inv_def relay_inv_def)
  from StopRelayProcess_inv [OF this] show ?case using 3 no_child_relay_inv [of m]
    by (simp add: relay_stop_begin_def relay_system_inv_def)
next
  case (7 reachable port_available m)
  then show ?case using relay_body_inv [of "sys_relay s" reachable port_available m]
    by (simp add: relay_system_inv_def)
qed (simp_all add: relay_system_inv_def relay_inv_def relay_Start_def relay_stop_end_def)

interpretation relay: invariant_system relay_start_state relay_step relay_system_inv
proof
  fix s assume "relay_start_state s"
  then show "relay_system_inv s"
    by (auto simp: relay_start_state_def relay_system_inv_def relay_inv_def new_relay_def no_child_def only_child_def)
qed (rule relay_step_inv)

text \<open>However the calls of \<open>Init\<close>, \<open>Start\<close> and \<open>Stop\<close>, the rounds of the monitor thread and crashes of the server
  interleave, in these steps, the first media server guard never has two server processes: every child that is not yet
  waited for is the one whose number it remembers.\<close>

theorem relay_single_server:
  assumes "relay_start_state s" "relay_step\<^sup>*\<^sup>* s s'" "os_procs (rl_os (sys_relay s')) p \<noteq> Gone"
  shows "p = rl_pid (sys_relay s')"
  using relay.reachable_inv [OF assms(1,2)] assms(3)
  by (auto simp: relay_system_inv_def relay_inv_def only_child_def)

section \<open>Stopping\<close>

text \<open>A stop that does not fall between the check and the body of a round leaves nothing behind.\<close>

definition quiet :: "relay_system \<Rightarrow> bool" where
  "quiet s \<longleftrightarrow> sys_caller s = Joining \<and> sys_monitor s \<noteq> Checked \<and> \<not> rl_running (sys_relay s) \<and>
     rl_pid (sys_relay s) \<le> 0 \<and> no_child (rl_os (sys_relay s))"

lemma stop_quiet:
  assumes "relay_system_inv s" "sys_monitor s \<noteq> Checked" "relay_stop_begin (sys_relay s) = Some m"
  shows "quiet (s\<lparr>sys_relay := m, sys_caller := Joining\<rparr>)"
proof -
  have i: "relay_inv ((sys_relay s)\<lparr>rl_running := False\<rparr>)"
    using assms(1) by (simp add: relay_system_inv_def relay_inv_def)
  show ?thesis
    using StopRelayProcess_inv [OF i] assms(2,3) by (auto simp: quiet_def relay_stop_begin_def)
qed

lemma quiet_step:
  assumes "quiet s" "relay_step s s'"
  shows "quiet s' \<or> (sys_caller s' = Free \<and> sys_monitor s' = NotStarted \<and> no_child (rl_os (sys_relay s')) \<and>
    rl_state (sys_relay s') = STOPPED)"
  using assms(2,1) by (cases rule: relay_step.cases) (auto simp: quiet_def relay_stop_end_def)

text \<open>A stop that falls between the check and the body does not stop the server: the body starts one behind the stop of
  the process, the thread ends, and \<open>Stop\<close> reports \<open>STOPPED\<close>.\<close>

theorem stop_can_leave_server:
  assumes "sys_monitor s = Checked" "sys_caller s = Free" "rl_pid (sys_relay s) = - 1" "rl_enable (sys_relay s)"
    and "rl_files (sys_relay s) (rl_yaml_file_abs_path (sys_relay s)) \<noteq> None"
    and "fork (rl_os (sys_relay s)) = (p, w)" "0 < p" "os_procs w p = Live"
  shows "\<exists>s'. relay_step\<^sup>*\<^sup>* s s' \<and> sys_caller s' = Free \<and> sys_monitor s' = NotStarted \<and>
    rl_state (sys_relay s') = STOPPED \<and> \<not> rl_running (sys_relay s') \<and> os_procs (rl_os (sys_relay s')) p = Live"
proof -
  let ?m0 = "(sys_relay s)\<lparr>rl_running := False\<rparr>"
  let ?s1 = "s\<lparr>sys_relay := ?m0, sys_caller := Joining\<rparr>"
  let ?m1 = "?m0\<lparr>rl_os := w, rl_pid := p, rl_state := STARTING\<rparr>"
  let ?s2 = "?s1\<lparr>sys_relay := ?m1, sys_monitor := Asleep\<rparr>"
  let ?s3 = "?s2\<lparr>sys_monitor := Ended\<rparr>"
  let ?s4 = "?s3\<lparr>sys_relay := relay_stop_end ?m1, sys_monitor := NotStarted, sys_caller := Free\<rparr>"
  have a: "relay_step s ?s1"
    using assms(2,3) by (intro relay_step.stop) (simp_all add: relay_stop_begin_def StopRelayProcess_def)
  have "relay_body True True ?m0 = Some ?m1"
    using assms by (auto simp: relay_body_def CheckProcessAlive_def StartRelayProcess_def)
  then have b: "relay_step ?s1 ?s2"
    using relay_step.body [of ?s1 True True ?m1] assms(1) by simp
  have c: "relay_step ?s2 ?s3" using relay_step.leave [of ?s2] by simp
  have d: "relay_step ?s3 ?s4" using relay_step.joined [of ?s3] by simp
  have "relay_step\<^sup>*\<^sup>* s ?s4"
    using a b c d by (meson converse_rtranclp_into_rtranclp rtranclp.rtrancl_refl)
  then show ?thesis using assms(8) by (intro exI [of _ ?s4]) (simp add: relay_stop_end_def)
qed

text \<open>An \<open>Init\<close> that fails after one that succeeded leaves the guard startable.\<close>

theorem failed_init_keeps_initialized:
  assumes "rl_initialized m" "string_field cfg ''check_ip'' = None"
  shows "fst (relay_Init dump ip root cd cw cfg m) = False \<and>
    rl_initialized (snd (relay_Init dump ip root cd cw cfg m))"
  using assms by (simp add: relay_Init_def relay_ParseConfig_def Let_def)

section \<open>A run\<close>

definition demo_relay_os :: os where
  "demo_relay_os = \<lparr>os_clock = 0, os_procs = (\<lambda>_. Gone), os_fate = (\<lambda>_ _. False), os_kill_lag = 100,
     os_forks = [7], os_signals = []\<rparr>"

definition demo_relay_config :: json where
  "demo_relay_config = JObject [(''mediamtx_enable'', JBool True), (''check_ip'', JString ''10.0.0.1''),
     (''mediamtx_json_config'', JObject [])]"

theorem relay_single_server_witness:
  "\<exists>s s'. relay_start_state s \<and> relay_step\<^sup>*\<^sup>* s s' \<and> rl_pid (sys_relay s') = 7 \<and>
     os_procs (rl_os (sys_relay s')) 7 \<noteq> Gone \<and> os_procs (rl_os (sys_relay s')) 8 = Gone"
proof -
  let ?s0 = "\<lparr>sys_relay = new_relay demo_relay_os (\<lambda>_. None), sys_monitor = NotStarted, sys_caller = Free\<rparr>"
  define m1 where "m1 = snd (relay_Init (\<lambda>_. []) [] ''/opt'' True True demo_relay_config (sys_relay ?s0))"
  have m1: "rl_initialized m1 \<and> \<not> rl_running m1 \<and> rl_enable m1 \<and> rl_pid m1 = - 1 \<and> rl_os m1 = demo_relay_os \<and>
      rl_files m1 (rl_yaml_file_abs_path m1) \<noteq> None"
    by (simp add: m1_def relay_Init_def relay_ParseConfig_def GenerateYAML_def demo_relay_config_def new_relay_def
        string_field_def bool_field_def int_field_def or_else_def Let_def)
  let ?s1 = "?s0\<lparr>sys_relay := m1\<rparr>"
  let ?m2 = "m1\<lparr>rl_running := True, rl_joinable := True\<rparr>"
  let ?s2 = "?s1\<lparr>sys_relay := ?m2, sys_monitor := Asleep\<rparr>"
  let ?s3 = "?s2\<lparr>sys_monitor := Checked\<rparr>"
  let ?w = "demo_relay_os\<lparr>os_procs := (os_procs demo_relay_os)(7 := Live), os_forks := []\<rparr>"
  let ?m4 = "?m2\<lparr>rl_os := ?w, rl_pid := 7, rl_state := STARTING\<rparr>"
  let ?s4 = "?s3\<lparr>sys_relay := ?m4, sys_monitor := Asleep\<rparr>"
  have a: "relay_step ?s0 ?s1"
    using relay_step.init [of ?s0 "\<lambda>_. []" "[]" "''/opt''" True True demo_relay_config] by (simp add: m1_def)
  have b: "relay_step ?s1 ?s2" using relay_step.start [of ?s1] m1 by (simp add: relay_Start_def)
  have c: "relay_step ?s2 ?s3" using relay_step.check [of ?s2] by simp
  have "fork demo_relay_os = (7, ?w)" by (simp add: fork_def demo_relay_os_def)
  then have "relay_body True True ?m2 = Some ?m4"
    using m1 by (auto simp: relay_body_def CheckProcessAlive_def StartRelayProcess_def)
  then have d: "relay_step ?s3 ?s4" using relay_step.body [of ?s3 True True ?m4] by simp
  have start: "relay_start_state ?s0"
    unfolding relay_start_state_def
    by (intro exI [of _ demo_relay_os] exI [of _ "\<lambda>_. None"]) (simp add: demo_relay_os_def no_child_def)
  have run: "relay_step\<^sup>*\<^sup>* ?s0 ?s4"
    using a b c d by (meson converse_rtranclp_into_rtranclp rtranclp.rtrancl_refl)
  show ?thesis
    using start run relay_single_server [OF start run, of 8] by (intro exI [of _ ?s0] exI [of _ ?s4]) auto
qed

end
