(* ===== verification/TextLines.thy ===== *)
theory TextLines
  imports Json
begin

text \<open>
  Reading text by lines and words, as \<open>std::getline\<close> and \<open>operator>>\<close> do, and the helper \<open>trim\<close> of the health
  collectors, in the C locale.
\<close>

section \<open>Lines and words\<close>

text \<open>The lines \<open>getline\<close> finds: each ends in a line feed, the last may lack it.\<close>

fun split_lines :: "string \<Rightarrow> string list" where
  "split_lines [] = []"
| "split_lines (c # s) =
     (if c = CHR 0x0A then [] # split_lines s
      else case split_lines s of l # ls \<Rightarrow> (c # l) # ls | [] \<Rightarrow> [[c]])"

definition first_line :: "string \<Rightarrow> string" where
  "first_line s = (case split_lines s of [] \<Rightarrow> [] | l # _ \<Rightarrow> l)"

function words_of :: "string \<Rightarrow> string list" where
  "words_of s =
     (case dropWhile cisspace s of
        [] \<Rightarrow> []
      | c # cs \<Rightarrow> (c # takeWhile (\<lambda>d. \<not> cisspace d) cs) # words_of (dropWhile (\<lambda>d. \<not> cisspace d) cs))"
  by pat_completeness auto
termination
proof (relation "measure length")
  fix s :: string and c cs
  assume "dropWhile cisspace s = c # cs"
  then have "length (c # cs) \<le> length s" using length_dropWhile_le [of cisspace s] by simp
  then show "(dropWhile (\<lambda>d. \<not> cisspace d) cs, s) \<in> measure length"
    using length_dropWhile_le [of "\<lambda>d. \<not> cisspace d" cs] by simp
qed simp

declare words_of.simps [simp del]

definition trim :: "string \<Rightarrow> string" where
  "trim s = rev (dropWhile cisspace (rev (dropWhile cisspace s)))"

text \<open>\<open>c_str()\<close> ends at the first null character.\<close>

definition c_str :: "string \<Rightarrow> string" where
  "c_str s = takeWhile (\<lambda>c. c \<noteq> CHR 0x00) s"

lemma trim_blank_left: "cisspace c \<Longrightarrow> trim (c # s) = trim s"
  by (simp add: trim_def)

lemma words_of_word:
  assumes "w \<noteq> []" "list_all (\<lambda>c. \<not> cisspace c) w" "s = [] \<or> cisspace (hd s)"
  shows "words_of (w @ s) = w # words_of s"
proof -
  obtain c cs where w: "w = c # cs" using assms(1) by (cases w) auto
  have cs: "\<forall>d \<in> set cs. \<not> cisspace d" using assms(2) by (auto simp: w list_all_iff)
  have s: "takeWhile (\<lambda>d. \<not> cisspace d) s = []" "dropWhile (\<lambda>d. \<not> cisspace d) s = s"
    using assms(3) by (cases s; simp)+
  show ?thesis
    using assms(2) by (subst words_of.simps) (simp add: w takeWhile_append2 [OF cs [rule_format]] dropWhile_append2 [OF cs [rule_format]] s)
qed

lemma words_of_blank: "cisspace c \<Longrightarrow> words_of (c # s) = words_of s"
  by (subst (1 2) words_of.simps) simp

lemma words_of_blanks: "list_all cisspace s \<Longrightarrow> words_of s = []"
proof -
  assume "list_all cisspace s"
  then have d: "dropWhile cisspace s = []" by (simp add: dropWhile_eq_Nil_conv list_all_iff)
  show ?thesis unfolding words_of.simps [of s] d by simp
qed

definition word :: "string \<Rightarrow> bool" where
  "word w \<longleftrightarrow> w \<noteq> [] \<and> list_all (\<lambda>c. \<not> cisspace c) w"

lemma words_of_joined:
  assumes "\<forall>w \<in> set ws. word w" and s: "s = [] \<or> cisspace (hd s)"
  shows "words_of (concat (map (\<lambda>w. CHR '' '' # w) ws) @ s) = ws @ words_of s"
  using assms(1)
proof (induction ws)
  case (Cons w ws)
  have "concat (map (\<lambda>w. CHR '' '' # w) ws) @ s = [] \<or> cisspace (hd (concat (map (\<lambda>w. CHR '' '' # w) ws) @ s))"
    using s by (cases ws) (auto simp: cisspace_def)
  then show ?case
    using Cons words_of_word [of w "concat (map (\<lambda>w. CHR '' '' # w) ws) @ s"]
    by (simp add: words_of_blank word_def cisspace_def)
qed simp

text \<open>Trimming takes nothing from the words.\<close>

lemma words_of_blank_right: "list_all cisspace b \<Longrightarrow> words_of (s @ b) = words_of s"
proof (induction s rule: words_of.induct)
  case (1 s)
  show ?case
  proof (cases "dropWhile cisspace s")
    case Nil
    then have "list_all cisspace (s @ b)" "list_all cisspace s" using 1(2) by (auto simp: dropWhile_eq_Nil_conv list_all_iff)
    then show ?thesis by (simp add: words_of_blanks)
  next
    case (Cons c cs)
    then have c: "\<not> cisspace c" using hd_dropWhile [of cisspace s] by simp
    have n: "\<not> (\<forall>d \<in> set s. cisspace d)" using Cons by (metis dropWhile_eq_Nil_conv list.distinct(1))
    then have d: "dropWhile cisspace (s @ b) = c # (cs @ b)"
      using Cons by (induction s) auto
    let ?t = "takeWhile (\<lambda>d. \<not> cisspace d) cs" and ?r = "dropWhile (\<lambda>d. \<not> cisspace d) cs"
    have "takeWhile (\<lambda>d. \<not> cisspace d) b = []" "dropWhile (\<lambda>d. \<not> cisspace d) b = b"
      using 1(2) by (cases b; simp)+
    then have "takeWhile (\<lambda>d. \<not> cisspace d) (cs @ b) = ?t" "dropWhile (\<lambda>d. \<not> cisspace d) (cs @ b) = ?r @ b"
      by (induction cs) auto
    then show ?thesis
      using 1(1) [OF Cons 1(2)] by (subst (1 2) words_of.simps) (simp add: d Cons)
  qed
qed

lemma words_of_dropWhile: "words_of (dropWhile cisspace s) = words_of s"
  by (subst (1 2) words_of.simps) simp

lemma words_of_trim: "words_of (trim s) = words_of s"
proof -
  define t where "t = rev (dropWhile cisspace s)"
  have "dropWhile cisspace s = rev (dropWhile cisspace t) @ rev (takeWhile cisspace t)"
    by (metis rev_append rev_rev_ident t_def takeWhile_dropWhile_id)
  moreover have "list_all cisspace (rev (takeWhile cisspace t))"
    by (auto simp: list_all_iff dest: set_takeWhileD)
  ultimately have "words_of (dropWhile cisspace s) = words_of (rev (dropWhile cisspace t))"
    by (simp add: words_of_blank_right)
  then show ?thesis by (simp add: trim_def t_def [symmetric] words_of_dropWhile)
qed

section \<open>Positions\<close>

text \<open>\<open>find\<close> and \<open>rfind\<close> of a character.\<close>

definition find_char :: "char \<Rightarrow> string \<Rightarrow> nat option" where
  "find_char c s = (let n = length (takeWhile (\<lambda>d. d \<noteq> c) s) in if n < length s then Some n else None)"

definition rfind_char :: "char \<Rightarrow> string \<Rightarrow> nat option" where
  "rfind_char c s = (case find_char c (rev s) of None \<Rightarrow> None | Some n \<Rightarrow> Some (length s - 1 - n))"

lemma find_char_append: "c \<notin> set s \<Longrightarrow> find_char c (s @ c # t) = Some (length s)"
proof -
  assume "c \<notin> set s"
  then have "takeWhile (\<lambda>d. d \<noteq> c) (s @ c # t) = s"
    by (subst takeWhile_append2) auto
  then show ?thesis by (simp add: find_char_def)
qed

lemma rfind_char_append: "c \<notin> set t \<Longrightarrow> rfind_char c (s @ c # t) = Some (length s)"
  using find_char_append [of c "rev t" "rev s"] by (simp add: rfind_char_def)

section \<open>Numbers\<close>

text \<open>\<open>std::stoi\<close>, \<open>std::stoll\<close> (64 bits) and \<open>std::stoull\<close>; the callers swallow every exception.\<close>

definition signed_of_text :: "nat \<Rightarrow> string \<Rightarrow> int option" where
  "signed_of_text w s =
     (let s = dropWhile cisspace s;
          neg = (case s of c # cs \<Rightarrow> c = CHR ''-'' | [] \<Rightarrow> False);
          s = (case s of c # cs \<Rightarrow> if c = CHR ''-'' \<or> c = CHR ''+'' then cs else s | [] \<Rightarrow> []);
          ds = takeWhile cisdigit s
      in if ds = [] then None
         else let v = (if neg then - int (decimal 0 ds) else int (decimal 0 ds)) in
           if v < - (2 ^ (w - 1)) \<or> v > 2 ^ (w - 1) - 1 then None else Some v)"

definition int_of_text :: "string \<Rightarrow> int option" where
  "int_of_text = signed_of_text 32"

definition u64_of_text :: "string \<Rightarrow> u64 option" where
  "u64_of_text s = (case stoull s of Inl _ \<Rightarrow> None | Inr n \<Rightarrow> Some (of_nat n))"

text \<open>\<open>stream >> n\<close> for an unsigned \<open>n\<close>: zero without digits, the largest value when it does not fit.\<close>

definition extract_u64 :: "string \<Rightarrow> u64" where
  "extract_u64 s = (case stoull s of Inl StoullInvalid \<Rightarrow> 0 | Inl StoullRange \<Rightarrow> - 1 | Inr n \<Rightarrow> of_nat n)"

text \<open>Digits alone are read whole, with their value.\<close>

lemma digits_head:
  assumes "list_all cisdigit ds" "ds \<noteq> []"
  shows "dropWhile cisspace ds = ds"
    and "(case ds of c # cs \<Rightarrow> c = CHR ''-'' | [] \<Rightarrow> False) = False"
    and "(case ds of c # cs \<Rightarrow> if c = CHR ''-'' \<or> c = CHR ''+'' then cs else ds | [] \<Rightarrow> []) = ds"
    and "takeWhile cisdigit ds = ds"
  using assms by (cases ds; auto simp: cisdigit_def cisspace_def Let_def takeWhile_eq_all_conv list_all_iff)+

lemma int_of_text_nat: "n < 2 ^ 31 \<Longrightarrow> int_of_text (nat_to_string n) = Some (int n)"
  using nat_to_string_digits [of n]
  by (simp add: int_of_text_def signed_of_text_def Let_def decimal_nat_to_string digits_head del: list.case)

lemma u64_of_text_nat: "n < 2 ^ 64 \<Longrightarrow> u64_of_text (nat_to_string n) = Some (of_nat n)"
  using nat_to_string_digits [of n]
  by (simp add: u64_of_text_def stoull_def Let_def decimal_nat_to_string digits_head del: list.case)

end
