(* ===== verification/StreamConfig.thy ===== *)
theory StreamConfig
  imports Json TextLines Control "HOL-Library.Sublist"
begin

text \<open>
  The configuration of the second media server guard, \<open>src/util/my_mediamtx_monitor/v2/PodConfig.cpp\<close>, and the path and
  YAML helpers of \<open>PodStreamManager.cpp\<close>. The mapping of the streams is the list of its entries in key
  order, as \<open>std::map\<close> walks them; the time stamp in the YAML file is a parameter.
\<close>

section \<open>Configuration\<close>

record StreamConfig =
  cf_open :: bool
  cf_pod_ip :: string
  cf_rtsp_port :: string
  cf_abs_mediamtx_path :: string
  cf_stream_mapping :: "(string \<times> string) list"
  cf_monitor_period_ms :: int
  cf_worker_period_ms :: int
  cf_connect_debounce_count :: int
  cf_disconnect_debounce_count :: int
  cf_graceful_stop_timeout_ms :: int
  cf_max_crash_count :: int
  cf_crash_window_seconds :: int

definition new_StreamConfig :: StreamConfig where
  "new_StreamConfig = \<lparr>cf_open = False, cf_pod_ip = [], cf_rtsp_port = ''8555'', cf_abs_mediamtx_path = [],
     cf_stream_mapping = [], cf_monitor_period_ms = 500, cf_worker_period_ms = 200,
     cf_connect_debounce_count = 3, cf_disconnect_debounce_count = 3, cf_graceful_stop_timeout_ms = 3000,
     cf_max_crash_count = - 1, cf_crash_window_seconds = 60\<rparr>"

definition IsValid :: "(string \<Rightarrow> bool) \<Rightarrow> StreamConfig \<Rightarrow> bool" where
  "IsValid executable c \<longleftrightarrow>
     (if \<not> cf_open c then True
      else if cf_pod_ip c = [] then False
      else if cf_abs_mediamtx_path c = [] then False
      else if \<not> executable (cf_abs_mediamtx_path c) then False
      else if cf_stream_mapping c = [] then False
      else if cf_rtsp_port c = [] then False
      else True)"

definition tuned :: "StreamConfig \<Rightarrow> StreamConfig" where
  "tuned c = c\<lparr>cf_monitor_period_ms := 500, cf_worker_period_ms := 200, cf_connect_debounce_count := 3,
     cf_disconnect_debounce_count := 3, cf_graceful_stop_timeout_ms := 3000, cf_max_crash_count := - 1,
     cf_crash_window_seconds := 60\<rparr>"

definition CreateDefaultConfig :: StreamConfig where
  "CreateDefaultConfig = tuned (new_StreamConfig\<lparr>cf_open := True, cf_pod_ip := ''192.168.10.251'',
     cf_rtsp_port := ''8555'', cf_abs_mediamtx_path := ''/root/test_rtsp/mediamtx'',
     cf_stream_mapping := [(''video_l'', ''rtsp://192.168.10.251:8554/video_l''),
       (''video_m'', ''rtsp://192.168.10.251:8554/video_m''),
       (''video_r'', ''rtsp://192.168.10.251:8554/video_r'')]\<rparr>)"

definition CreatePodConfigByUAV :: StreamConfig where
  "CreatePodConfigByUAV = new_StreamConfig"

fun add_streams :: "(string \<times> json) list \<Rightarrow> (string \<times> string) list \<Rightarrow> (string \<times> string) list" where
  "add_streams [] mapping = mapping"
| "add_streams ((path_name, path_config) # ps) mapping =
     (case field path_config ''source'' of
        Some (JString url) \<Rightarrow> add_streams ps (AList.update path_name url mapping)
      | _ \<Rightarrow> add_streams ps mapping)"

definition strip_colon :: "string \<Rightarrow> string" where
  "strip_colon s = (case s of c # cs \<Rightarrow> if c = CHR '':'' then cs else s | [] \<Rightarrow> [])"

text \<open>\<open>value\<close> throws when the configuration is no object or the field has another type.\<close>

definition CreatePodByConfig :: "json \<Rightarrow> json_exn + StreamConfig" where
  "CreatePodByConfig j =
     ebind (value_bool j ''mediamtx_enable'' False) (\<lambda>open.
     ebind (value_string j ''check_ip'' []) (\<lambda>ip.
     ebind (value_string j ''mediamtx_bin_path'' []) (\<lambda>path.
       let c = new_StreamConfig\<lparr>cf_open := open, cf_pod_ip := ip, cf_abs_mediamtx_path := path\<rparr> in
       case field j ''mediamtx_json_config'' of
         Some (JObject fs) \<Rightarrow>
           ebind (value_string (JObject fs) ''rtspAddress'' (cf_rtsp_port c)) (\<lambda>port.
             let c = c\<lparr>cf_rtsp_port := strip_colon port\<rparr> in
             case field (JObject fs) ''paths'' of
               Some (JObject ps) \<Rightarrow> Inr (tuned (c\<lparr>cf_stream_mapping := add_streams ps []\<rparr>))
             | _ \<Rightarrow> Inr (tuned c))
       | _ \<Rightarrow> Inr (tuned c))))"

section \<open>Paths\<close>

definition GetParentPath :: "string \<Rightarrow> string" where
  "GetParentPath path =
     (case dropWhile (\<lambda>c. c \<noteq> CHR ''/'') (rev path) of
        [] \<Rightarrow> ''.''
      | slash # rest \<Rightarrow> if rest = [] then ''/'' else rev rest)"

definition JoinPath :: "string \<Rightarrow> string \<Rightarrow> string" where
  "JoinPath dir filename =
     (if dir = [] then filename else if last dir = CHR ''/'' then dir @ filename else dir @ ''/'' @ filename)"

definition GetConfigPath :: "StreamConfig \<Rightarrow> string" where
  "GetConfigPath c = JoinPath (GetParentPath (cf_abs_mediamtx_path c)) ''mediamtx.yml''"

definition GetLogFilePath :: "StreamConfig \<Rightarrow> string" where
  "GetLogFilePath c = JoinPath (GetParentPath (cf_abs_mediamtx_path c)) ''mediamtx.log''"

section \<open>YAML\<close>

definition yaml_line :: "string \<Rightarrow> string" where
  "yaml_line s = s @ [CHR 0x0A]"

definition stream_lines :: "string \<times> string \<Rightarrow> string list" where
  "stream_lines kv = [''  '' @ fst kv @ '':'', ''    source: '' @ snd kv, ''    sourceOnDemand: no'']"

definition yaml_lines :: "string \<Rightarrow> StreamConfig \<Rightarrow> string list" where
  "yaml_lines stamp c =
     [''# MediaMTX Configuration'', ''# Auto-generated by PodStreamManager'', ''# Generated at: '' @ stamp, [],
      ''rtspAddress: :'' @ cf_rtsp_port c, [], ''paths:''] @ concat (map stream_lines (cf_stream_mapping c))"

definition GenerateYamlContent :: "string \<Rightarrow> StreamConfig \<Rightarrow> string" where
  "GenerateYamlContent stamp c = concat (map yaml_line (yaml_lines stamp c))"

section \<open>What a configuration gives\<close>

lemma dir_of_path:
  assumes "CHR ''/'' \<notin> set name" "dir \<noteq> []"
  shows "GetParentPath (dir @ ''/'' @ name) = dir"
proof -
  have "dropWhile (\<lambda>c. c \<noteq> CHR ''/'') (rev name @ CHR ''/'' # rev dir) = CHR ''/'' # rev dir"
    using assms(1) by (auto simp: dropWhile_append3)
  then show ?thesis using assms(2) by (simp add: GetParentPath_def)
qed

lemma add_streams_distinct: "distinct (map fst mapping) \<Longrightarrow> distinct (map fst (add_streams ps mapping))"
  by (induction ps mapping rule: add_streams.induct)
    (simp_all add: distinct_update split: option.split json.split)

text \<open>The configuration file is beside the server, and the log and it are different files.\<close>

lemma config_beside_server:
  assumes "cf_abs_mediamtx_path c = dir @ ''/'' @ name" "CHR ''/'' \<notin> set name" "dir \<noteq> []" "last dir \<noteq> CHR ''/''"
  shows "GetConfigPath c = dir @ ''/mediamtx.yml'' \<and> GetLogFilePath c = dir @ ''/mediamtx.log''"
  using assms dir_of_path [OF assms(2,3)] by (simp add: GetConfigPath_def GetLogFilePath_def JoinPath_def)

text \<open>Whatever the JSON text says about debouncing and crashes, the tuning is the built-in one.\<close>

lemma tuned_tuned [simp]: "tuned (tuned c) = tuned c"
  by (simp add: tuned_def)

lemma ebind_InrE: "ebind m f = Inr b \<Longrightarrow> (\<And>a. m = Inr a \<Longrightarrow> f a = Inr b \<Longrightarrow> P) \<Longrightarrow> P"
  by (cases m) simp_all

lemma CreatePodByConfig_tuned: "CreatePodByConfig j = Inr c \<Longrightarrow> tuned c = c"
  unfolding CreatePodByConfig_def Let_def
  by (elim ebind_InrE) (auto split: option.split_asm json.split_asm elim!: ebind_InrE)

end
