(* ===== verification/StreamManager.thy ===== *)
theory StreamManager
  imports Processes StreamConfig
begin

text \<open>
  The second media server guard, \<open>src/util/my_mediamtx_monitor/v2/PodStreamManager.cpp\<close>: the writing of the server's
  configuration, the life of the server process, the state machine of the worker thread and the debounced
  probe of the monitor thread, as functions on the manager. Logging and the names of the states are left out.
\<close>

datatype stream_state = kIdle | kReady | kRunning | kStopping | kError
datatype thread_pc = NoThread | AtTop | InBackoff | Exited

text \<open>What the file system answers. \<open>dk_room\<close> is how many bytes a write can still place, when it cannot place all.\<close>

record disk =
  dk_files :: "string \<Rightarrow> string option"
  dk_executable :: "string \<Rightarrow> bool"
  dk_writable :: "string \<Rightarrow> bool"
  dk_can_open :: bool
  dk_room :: "nat option"
  dk_can_rename :: bool

record stream_mgr =
  sm_config :: StreamConfig
  sm_inited :: bool
  sm_quit :: bool
  sm_connected :: bool
  sm_pid :: int
  sm_state :: stream_state
  sm_monitor :: thread_pc
  sm_worker :: thread_pc
  sm_stopping :: bool
  sm_success_count :: int
  sm_fail_count :: int
  sm_crashes :: "nat list"
  sm_backoff :: nat
  sm_last_stop :: nat
  sm_os :: os
  sm_disk :: disk

definition new_stream_mgr :: "os \<Rightarrow> disk \<Rightarrow> stream_mgr" where
  "new_stream_mgr w d = \<lparr>sm_config = new_StreamConfig, sm_inited = False, sm_quit = False, sm_connected = False,
     sm_pid = - 1, sm_state = kIdle, sm_monitor = NoThread, sm_worker = NoThread, sm_stopping = False,
     sm_success_count = 0, sm_fail_count = 0, sm_crashes = [], sm_backoff = 0, sm_last_stop = 0,
     sm_os = w, sm_disk = d\<rparr>"

definition Transition :: "stream_state \<Rightarrow> stream_mgr \<Rightarrow> stream_mgr" where
  "Transition next m = (if sm_state m \<noteq> next then m\<lparr>sm_state := next\<rparr> else m)"

lemma Transition_simp [simp]: "Transition next m = m\<lparr>sm_state := next\<rparr>"
  by (simp add: Transition_def)

section \<open>Crashes and backoff\<close>

definition kMaxBackoffLevel :: nat where
  "kMaxBackoffLevel = 5"

definition kCooldownMs :: int where
  "kCooldownMs = 2000"

definition RecordCrash :: "stream_mgr \<Rightarrow> stream_mgr" where
  "RecordCrash m =
     (let now = os_clock (sm_os m);
          window_start = int now - cf_crash_window_seconds (sm_config m) * 1000
      in m\<lparr>sm_crashes := filter (\<lambda>t. \<not> int t < window_start) (sm_crashes m @ [now]),
           sm_backoff := (if sm_backoff m < kMaxBackoffLevel then sm_backoff m + 1 else sm_backoff m)\<rparr>)"

definition IsCrashingTooOften :: "stream_mgr \<Rightarrow> bool" where
  "IsCrashingTooOften m \<longleftrightarrow>
     (if cf_max_crash_count (sm_config m) < 0 then False
      else int (length (sm_crashes m)) \<ge> cf_max_crash_count (sm_config m))"

definition GetBackoffDelayMs :: "stream_mgr \<Rightarrow> nat" where
  "GetBackoffDelayMs m =
     (if sm_backoff m = 0 then 0 else if sm_backoff m \<le> 1 then 1000 else if sm_backoff m \<le> 2 then 2000
      else if sm_backoff m \<le> 3 then 4000 else if sm_backoff m \<le> 4 then 8000 else 10000)"

definition ResetBackoff :: "stream_mgr \<Rightarrow> stream_mgr" where
  "ResetBackoff m = m\<lparr>sm_backoff := 0\<rparr>"

section \<open>Configuration file\<close>

definition put_file :: "string \<Rightarrow> string option \<Rightarrow> disk \<Rightarrow> disk" where
  "put_file path content d = d\<lparr>dk_files := (dk_files d)(path := content)\<rparr>"

text \<open>The text is written to a file beside the configuration file, which is then renamed.\<close>

definition PrepareMediaMtxConfig :: "string \<Rightarrow> stream_mgr \<Rightarrow> bool \<times> stream_mgr" where
  "PrepareMediaMtxConfig stamp m =
     (let config_path = GetConfigPath (sm_config m);
          yaml_content = GenerateYamlContent stamp (sm_config m);
          tmp_path = config_path @ ''.tmp'';
          d = sm_disk m
      in if \<not> dk_can_open d then (False, m)
         else
           (let placed = (case dk_room d of None \<Rightarrow> yaml_content | Some n \<Rightarrow> take n yaml_content);
                d = put_file tmp_path (Some placed) d
            in if placed \<noteq> yaml_content then (False, m\<lparr>sm_disk := put_file tmp_path None d\<rparr>)
               else if \<not> dk_can_rename d then (False, m\<lparr>sm_disk := put_file tmp_path None d\<rparr>)
               else (True, m\<lparr>sm_disk := put_file tmp_path None (put_file config_path (Some yaml_content) d)\<rparr>)))"

section \<open>The server process\<close>

definition IsMediaMtxAlive :: "stream_mgr \<Rightarrow> bool" where
  "IsMediaMtxAlive m \<longleftrightarrow> 0 < sm_pid m \<and> kill0 (sm_pid m) (sm_os m)"

definition ReapChildIfNeeded :: "stream_mgr \<Rightarrow> bool \<times> stream_mgr" where
  "ReapChildIfNeeded m =
     (if sm_pid m \<le> 0 then (False, m)
      else case waitpid_nohang (sm_pid m) (sm_os m) of (result, w) \<Rightarrow>
        if result = sm_pid m then (True, m\<lparr>sm_os := w, sm_pid := - 1\<rparr>) else (False, m\<lparr>sm_os := w\<rparr>))"

definition StartMediaMtx :: "stream_mgr \<Rightarrow> bool \<times> stream_mgr" where
  "StartMediaMtx m =
     (if IsMediaMtxAlive m then (True, m)
      else case fork (sm_os m) of (pid, w) \<Rightarrow>
        if pid < 0 then (False, m\<lparr>sm_os := w\<rparr>)
        else
          (let m = m\<lparr>sm_os := sleep_ms 100 w, sm_pid := pid\<rparr> in
           if \<not> IsMediaMtxAlive m then (False, snd (ReapChildIfNeeded m)) else (True, m)))"

text \<open>The wait for the answer to \<open>SIGTERM\<close>, with \<open>SIGKILL\<close> at its end.\<close>

function graceful_wait :: "nat \<Rightarrow> int \<Rightarrow> int \<Rightarrow> os \<Rightarrow> os" where
  "graceful_wait start_time timeout_ms pid w =
     (if \<not> kill0 pid w then w
      else if int (os_clock w) - int start_time \<ge> timeout_ms then kill pid SIGKILL w
      else graceful_wait start_time timeout_ms pid (sleep_ms 100 w))"
  by pat_completeness auto

termination
  by (relation "measure (\<lambda>(s, t, p, w). nat (t + int s - int (os_clock w)))") auto

declare graceful_wait.simps [simp del]

fun reap_wait :: "nat \<Rightarrow> int \<Rightarrow> os \<Rightarrow> os" where
  "reap_wait 0 pid w = w"
| "reap_wait (Suc n) pid w =
     (case waitpid_nohang pid w of (result, w) \<Rightarrow>
        if result = pid \<or> result < 0 then w else reap_wait n pid (sleep_ms 100 w))"

definition StopMediaMtx :: "bool \<Rightarrow> stream_mgr \<Rightarrow> stream_mgr" where
  "StopMediaMtx force_kill m =
     (let pid = sm_pid m in
      if pid \<le> 0 then m
      else if \<not> IsMediaMtxAlive m then snd (ReapChildIfNeeded m)
      else
        (let w = (if force_kill then kill pid SIGKILL (sm_os m)
                  else graceful_wait (os_clock (sm_os m)) (cf_graceful_stop_timeout_ms (sm_config m)) pid
                         (kill pid SIGTERM (sm_os m)))
         in m\<lparr>sm_os := reap_wait 30 pid w, sm_pid := - 1\<rparr>))"

section \<open>Threads\<close>

text \<open>One probe of \<open>MonitorLoop\<close>.\<close>

definition monitor_probe :: "bool \<Rightarrow> stream_mgr \<Rightarrow> stream_mgr" where
  "monitor_probe probe_ok m =
     (if probe_ok then
        (let m = m\<lparr>sm_fail_count := 0, sm_success_count := sm_success_count m + 1\<rparr> in
         if \<not> sm_connected m \<and> sm_success_count m \<ge> cf_connect_debounce_count (sm_config m)
         then m\<lparr>sm_connected := True\<rparr> else m)
      else
        (let m = m\<lparr>sm_success_count := 0, sm_fail_count := sm_fail_count m + 1\<rparr> in
         if sm_connected m \<and> sm_fail_count m \<ge> cf_disconnect_debounce_count (sm_config m)
         then m\<lparr>sm_connected := False\<rparr> else m))"

text \<open>The end of the case \<open>kReady\<close>.\<close>

definition start_stream :: "string \<Rightarrow> stream_mgr \<Rightarrow> stream_mgr" where
  "start_stream stamp m =
     (case PrepareMediaMtxConfig stamp m of
        (False, m) \<Rightarrow> RecordCrash m
      | (True, m) \<Rightarrow> (case StartMediaMtx m of
            (False, m) \<Rightarrow> RecordCrash m
          | (True, m) \<Rightarrow> Transition kRunning m))"

text \<open>A round of \<open>WorkerLoop\<close>, up to its end or up to the end of the sleep of the backoff, and from there on.\<close>

definition worker_ready :: "string \<Rightarrow> stream_mgr \<Rightarrow> stream_mgr" where
  "worker_ready stamp m =
     (if \<not> sm_connected m then m
      else if int (os_clock (sm_os m)) - int (sm_last_stop m) < kCooldownMs then m
      else
        (let backoff_ms = GetBackoffDelayMs m in
         if backoff_ms > 0 then m\<lparr>sm_os := sleep_ms backoff_ms (sm_os m), sm_worker := InBackoff\<rparr>
         else start_stream stamp m))"

definition worker_resume :: "string \<Rightarrow> stream_mgr \<Rightarrow> stream_mgr" where
  "worker_resume stamp m =
     (let m = m\<lparr>sm_worker := AtTop\<rparr> in
      if sm_quit m \<or> \<not> sm_connected m then m else start_stream stamp m)"

definition worker_running :: "bool \<Rightarrow> stream_mgr \<Rightarrow> stream_mgr" where
  "worker_running child_exited m =
     (if \<not> sm_connected m then
        (let m = StopMediaMtx False (Transition kStopping m)
         in Transition kReady (m\<lparr>sm_last_stop := os_clock (sm_os m)\<rparr>))
      else if child_exited then
        (let m = RecordCrash m in
         if IsCrashingTooOften m then Transition kError m else Transition kReady m)
      else if \<not> IsMediaMtxAlive m then Transition kReady (RecordCrash m)
      else m)"

definition worker_top :: "string \<Rightarrow> stream_mgr \<Rightarrow> stream_mgr" where
  "worker_top stamp m =
     (case ReapChildIfNeeded m of (child_exited, m) \<Rightarrow>
        case sm_state m of
          kIdle \<Rightarrow> m
        | kReady \<Rightarrow> worker_ready stamp m
        | kRunning \<Rightarrow> worker_running child_exited m
        | kStopping \<Rightarrow> if \<not> IsMediaMtxAlive m then Transition kReady (snd (ReapChildIfNeeded m)) else m
        | kError \<Rightarrow> if \<not> IsCrashingTooOften m then Transition kReady m else m)"

section \<open>Life cycle\<close>

definition stream_Init :: "StreamConfig \<Rightarrow> stream_mgr \<Rightarrow> bool \<times> stream_mgr" where
  "stream_Init config m =
     (if sm_inited m then (False, m)
      else
        (let m = m\<lparr>sm_inited := True, sm_config := config\<rparr> in
         if \<not> cf_open config then (True, Transition kIdle (m\<lparr>sm_quit := True\<rparr>))
         else if \<not> IsValid (dk_executable (sm_disk m)) config then (False, m\<lparr>sm_inited := False\<rparr>)
         else if \<not> dk_writable (sm_disk m) (GetParentPath (cf_abs_mediamtx_path config))
         then (False, m\<lparr>sm_inited := False\<rparr>)
         else (True, (Transition kReady m)\<lparr>sm_quit := True\<rparr>)))"

definition joinable :: "thread_pc \<Rightarrow> bool" where
  "joinable t \<longleftrightarrow> t \<noteq> NoThread"

text \<open>\<open>Start\<close>; \<open>MonitorLoop\<close> begins with counts of its own.\<close>

definition stream_Start :: "stream_mgr \<Rightarrow> stream_mgr" where
  "stream_Start m =
     (if \<not> sm_inited m then m
      else if \<not> cf_open (sm_config m) then m
      else if joinable (sm_monitor m) \<or> joinable (sm_worker m) then m
      else m\<lparr>sm_quit := False, sm_monitor := AtTop, sm_worker := AtTop, sm_success_count := 0, sm_fail_count := 0\<rparr>)"

text \<open>\<open>Stop\<close> up to the joins, and behind them.\<close>

definition stream_stop_begin :: "stream_mgr \<Rightarrow> stream_mgr" where
  "stream_stop_begin m = (if \<not> sm_inited m then m else m\<lparr>sm_quit := True, sm_stopping := True\<rparr>)"

definition stream_stop_end :: "stream_mgr \<Rightarrow> stream_mgr" where
  "stream_stop_end m =
     (let m = m\<lparr>sm_monitor := NoThread, sm_worker := NoThread\<rparr>;
          m = (if IsMediaMtxAlive m then
                 (let m = StopMediaMtx False m in if IsMediaMtxAlive m then StopMediaMtx True m else m)
               else m);
          m = snd (ReapChildIfNeeded m)
      in (Transition kIdle m)\<lparr>sm_inited := False, sm_stopping := False\<rparr>)"

end
