(* ===== verification/StreamThreads.thy ===== *)
theory StreamThreads
  imports StreamManager
begin

text \<open>
  What the second media server guard keeps: it holds a server process exactly in the state \<open>kRunning\<close>, however its
  two threads, the calls of \<open>Init\<close>, \<open>Start\<close> and \<open>Stop\<close> and the crashes of the server interleave; and how its
  states follow the link. A round of the worker is one step, or two when it sleeps for the backoff. The
  time a server takes to end after \<open>SIGKILL\<close> is arbitrary, so the wait for it may run out: its number is then dropped
  and the process is never waited for. The class has no lock for the calls of its life cycle: they come one after another here.
\<close>

section \<open>Stopping the server\<close>

text \<open>A process that is no longer there, or was sent \<open>SIGKILL\<close> and no longer runs.\<close>

definition killed :: "os \<Rightarrow> int \<Rightarrow> bool" where
  "killed w q \<longleftrightarrow> (os_procs w q \<noteq> Gone \<longrightarrow> os_procs w q \<noteq> Live \<and> (q, SIGKILL) \<in> set (os_signals w))"

text \<open>The number \<open>p\<close> the guard holds, if any, is that of a child, and there are no others but killed ones.\<close>

definition child_ok :: "int \<Rightarrow> os \<Rightarrow> bool" where
  "child_ok p w \<longleftrightarrow> (\<forall>q. \<not> (0 < p \<and> q = p) \<longrightarrow> killed w q) \<and> (0 < p \<longrightarrow> os_procs w p \<in> {Live, Zombie})"

lemma child_ok_none: "p \<le> 0 \<Longrightarrow> child_ok p w \<longleftrightarrow> (\<forall>q. killed w q)"
  by (simp add: child_ok_def)

lemma child_ok_some: "0 < p \<Longrightarrow> child_ok p w \<longleftrightarrow> (\<forall>q. q \<noteq> p \<longrightarrow> killed w q) \<and> os_procs w p \<in> {Live, Zombie}"
  by (simp add: child_ok_def)

lemma age_Live: "p \<in> {Live, Zombie} \<Longrightarrow> age t e p \<in> {Live, Zombie}"
  by (auto simp: age_def)

lemma killed_sleep: "killed w q \<Longrightarrow> killed (sleep_ms n w) q"
  by (auto simp: killed_def sleep_ms_def age_def split: proc_state.splits if_splits)

lemma killed_kill: "killed w q \<Longrightarrow> killed (kill p sig w) q"
  by (auto simp: killed_def kill_def)

lemma killed_waitpid: "killed w q \<Longrightarrow> killed (snd (waitpid_nohang p w)) q"
  by (auto simp: killed_def waitpid_nohang_def split: proc_state.split)

lemma child_ok_sleep: "child_ok p w \<Longrightarrow> child_ok p (sleep_ms n w)"
proof -
  assume c: "child_ok p w"
  then have "os_procs (sleep_ms n w) p \<in> {Live, Zombie}" if "0 < p"
    using age_Live [of "os_procs w p"] that by (simp add: child_ok_def sleep_ms_def)
  then show ?thesis using c killed_sleep by (simp add: child_ok_def)
qed

lemma killed_graceful_wait: "killed w q \<Longrightarrow> killed (graceful_wait s t p w) q"
  by (induction s t p w rule: graceful_wait.induct; subst graceful_wait.simps; simp add: killed_sleep killed_kill)

lemma killed_reap_wait: "killed w q \<Longrightarrow> killed (reap_wait n p w) q"
proof (induction n p w rule: reap_wait.induct)
  case (2 n p w)
  obtain r w' where o: "waitpid_nohang p w = (r, w')" by fastforce
  then have "killed w' q" using killed_waitpid [OF "2.prems", of p] by simp
  show ?case
  proof (cases "r = p \<or> r < 0")
    case False
    then show ?thesis using "2.IH" [OF o [symmetric] False killed_sleep] \<open>killed w' q\<close> o by simp
  qed (use \<open>killed w' q\<close> o in auto)
qed simp

text \<open>The server itself is killed at the end of the grace period.\<close>

lemma graceful_wait_kills: "kill0 p w \<Longrightarrow> killed (graceful_wait s t p w) p"
proof (induction s t p w rule: graceful_wait.induct)
  case (1 s t p w)
  show ?case
  proof (cases "int (os_clock w) - int s \<ge> t")
    case True
    then show ?thesis using "1.prems" by (subst graceful_wait.simps) (auto simp: killed_def kill_def kill0_def)
  next
    case False
    then show ?thesis using 1 by (subst graceful_wait.simps) simp
  qed
qed

text \<open>\<open>kill(pid, 0)\<close> also succeeds on a server that has already ended, so the grace period is always used up and
  \<open>SIGKILL\<close> always sent.\<close>

theorem grace_always_used_up:
  assumes "kill0 p w"
  shows "(p, SIGKILL) \<in> set (os_signals (graceful_wait (os_clock w) t p w)) \<and>
    int (os_clock (graceful_wait (os_clock w) t p w)) \<ge> int (os_clock w) + t"
proof -
  have "kill0 p v \<Longrightarrow> (p, SIGKILL) \<in> set (os_signals (graceful_wait s t p v)) \<and>
      int (os_clock (graceful_wait s t p v)) \<ge> int s + t" for s v
  proof (induction s t p v rule: graceful_wait.induct)
    case (1 s t p v)
    show ?case
    proof (cases "int (os_clock v) - int s \<ge> t")
      case True
      then show ?thesis using "1.prems" by (subst (1 2) graceful_wait.simps) (auto simp: kill_def kill0_def)
    next
      case False
      then show ?thesis using "1.IH" "1.prems" by (subst (1 2) graceful_wait.simps) simp
    qed
  qed
  then show ?thesis using assms by blast
qed

lemma StopMediaMtx_frame:
  "StopMediaMtx f m = m\<lparr>sm_os := sm_os (StopMediaMtx f m), sm_pid := sm_pid (StopMediaMtx f m)\<rparr>"
  by (cases m) (auto simp: StopMediaMtx_def ReapChildIfNeeded_def Let_def split: prod.split)

lemma StopMediaMtx_no_child:
  assumes "child_ok (sm_pid m) (sm_os m)"
  shows "sm_pid (StopMediaMtx False m) \<le> 0 \<and> killed (sm_os (StopMediaMtx False m)) q"
proof (cases "0 < sm_pid m")
  case False
  then show ?thesis using assms by (simp add: StopMediaMtx_def child_ok_none)
next
  case True
  let ?k = "kill (sm_pid m) SIGTERM (sm_os m)"
  let ?g = "graceful_wait (os_clock (sm_os m)) (cf_graceful_stop_timeout_ms (sm_config m)) (sm_pid m) ?k"
  have there: "kill0 (sm_pid m) (sm_os m)" using assms True by (auto simp: child_ok_some kill0_def)
  have "killed ?g q"
  proof (cases "q = sm_pid m")
    case True
    then show ?thesis using graceful_wait_kills there by simp
  next
    case False
    then show ?thesis using assms True killed_graceful_wait killed_kill by (simp add: child_ok_some)
  qed
  then have "killed (reap_wait 30 (sm_pid m) ?g) q" by (rule killed_reap_wait)
  then show ?thesis using True there by (simp add: StopMediaMtx_def Let_def IsMediaMtxAlive_def)
qed

text \<open>The wait behind \<open>SIGKILL\<close> gives up after three seconds: the number is dropped, and a process that ends later
  stays unreaped.\<close>

lemma reap_gives_up:
  assumes "0 < p" and "os_procs w p = Dying d" and "\<forall>t. \<not> os_fate w t p" and "os_clock w + 100 * n < d"
  shows "os_procs (reap_wait n p w) p = Dying d"
  using assms
proof (induction n p w rule: reap_wait.induct)
  case (2 n p w)
  have wp: "waitpid_nohang p w = (0, w)" using "2.prems" by (simp add: waitpid_nohang_def)
  have "os_procs (sleep_ms 100 w) p = Dying d" using "2.prems" by (simp add: sleep_ms_def age_def)
  then have "os_procs (reap_wait n p (sleep_ms 100 w)) p = Dying d"
    using "2.IH" [OF wp [symmetric]] "2.prems" by simp
  then show ?case using wp "2.prems"(1) by simp
qed simp

section \<open>A server exactly when running\<close>

definition stream_inv :: "stream_mgr \<Rightarrow> bool" where
  "stream_inv m \<longleftrightarrow> child_ok (sm_pid m) (sm_os m) \<and>
     (sm_state m = kRunning \<longleftrightarrow> 0 < sm_pid m) \<and> sm_state m \<noteq> kStopping \<and>
     (sm_worker m = InBackoff \<longrightarrow> sm_state m = kReady) \<and>
     (\<not> sm_inited m \<longrightarrow> sm_state m = kIdle \<and> sm_worker m \<notin> {AtTop, InBackoff})"

lemma RecordCrash_frame [simp]:
  "sm_os (RecordCrash m) = sm_os m" "sm_pid (RecordCrash m) = sm_pid m" "sm_state (RecordCrash m) = sm_state m"
  "sm_worker (RecordCrash m) = sm_worker m" "sm_inited (RecordCrash m) = sm_inited m"
  "sm_connected (RecordCrash m) = sm_connected m" "sm_config (RecordCrash m) = sm_config m"
  "sm_last_stop (RecordCrash m) = sm_last_stop m" "sm_stopping (RecordCrash m) = sm_stopping m"
  "sm_quit (RecordCrash m) = sm_quit m" "sm_monitor (RecordCrash m) = sm_monitor m"
  "sm_disk (RecordCrash m) = sm_disk m"
  by (simp_all add: RecordCrash_def Let_def)

lemma Prepare_frame: "PrepareMediaMtxConfig stamp m = (b, m') \<Longrightarrow> \<exists>d. m' = m\<lparr>sm_disk := d\<rparr>"
proof -
  have "\<exists>d. m = m\<lparr>sm_disk := d\<rparr>" by (rule exI [of _ "sm_disk m"]) simp
  then show "PrepareMediaMtxConfig stamp m = (b, m') \<Longrightarrow> \<exists>d. m' = m\<lparr>sm_disk := d\<rparr>"
    by (auto simp: PrepareMediaMtxConfig_def Let_def split: if_splits)
qed

lemma Start_cases:
  assumes "StartMediaMtx m = (b, m')" "child_ok (sm_pid m) (sm_os m)" "sm_pid m \<le> 0"
  shows "\<exists>w p. m' = m\<lparr>sm_os := w, sm_pid := p\<rparr> \<and> child_ok p w \<and> (b \<longleftrightarrow> 0 < p)"
proof (cases "fork (sm_os m)")
  case (Pair p w')
  have k: "\<forall>q. killed (sm_os m) q" using assms(2,3) by (simp add: child_ok_none)
  show ?thesis
  proof (cases "p < 0")
    case True
    then have "os_procs w' = os_procs (sm_os m)" "os_signals w' = os_signals (sm_os m)"
      using Pair by (auto simp: fork_def split: list.splits if_splits)
    then have "child_ok (sm_pid m) w'" using assms(3) k by (simp add: child_ok_none killed_def)
    moreover have "m' = m\<lparr>sm_os := w'\<rparr> \<and> \<not> b"
      using assms Pair True by (auto simp: StartMediaMtx_def IsMediaMtxAlive_def)
    ultimately show ?thesis using assms(3) by (intro exI [of _ w'] exI [of _ "sm_pid m"]) simp
  next
    case False
    then have w': "0 < p" "os_procs w' = (os_procs (sm_os m))(p := Live)" "os_signals w' = os_signals (sm_os m)"
      using Pair by (auto simp: fork_def split: list.splits if_splits)
    then have ok: "child_ok p (sleep_ms 100 w')" using k by (intro child_ok_sleep) (simp add: child_ok_some killed_def)
    have "kill0 p (sleep_ms 100 w')" using w'(2) by (simp add: kill0_def)
    then have "m' = m\<lparr>sm_os := sleep_ms 100 w', sm_pid := p\<rparr> \<and> b"
      using assms(1,3) w' Pair by (simp add: StartMediaMtx_def IsMediaMtxAlive_def Let_def)
    then show ?thesis using ok w' by (intro exI [of _ "sleep_ms 100 w'"] exI [of _ p]) simp
  qed
qed

lemma Reap_cases:
  assumes "ReapChildIfNeeded m = (b, m')" "child_ok (sm_pid m) (sm_os m)"
  shows "if b then m' = m\<lparr>sm_os := sm_os m', sm_pid := - 1\<rparr> \<and> 0 < sm_pid m \<and> (\<forall>q. killed (sm_os m') q) \<and>
      os_clock (sm_os m') = os_clock (sm_os m) else m' = m"
  using assms
  by (auto simp: ReapChildIfNeeded_def child_ok_some waitpid_nohang_def killed_def
      split: if_splits proc_state.splits)

lemma start_stream_inv:
  assumes "stream_inv m" "sm_state m = kReady" "sm_inited m" "sm_worker m \<noteq> InBackoff"
  shows "stream_inv (start_stream stamp m)"
proof -
  obtain b m1 where p: "PrepareMediaMtxConfig stamp m = (b, m1)" by fastforce
  obtain d where m1: "m1 = m\<lparr>sm_disk := d\<rparr>" using Prepare_frame [OF p] ..
  have nc: "child_ok (sm_pid m1) (sm_os m1)" "sm_pid m1 \<le> 0" using assms m1 by (auto simp: stream_inv_def)
  obtain c m2 where s: "StartMediaMtx m1 = (c, m2)" by fastforce
  from Start_cases [OF s nc] obtain w q where m2: "m2 = m1\<lparr>sm_os := w, sm_pid := q\<rparr>" "child_ok q w" "c \<longleftrightarrow> 0 < q" by blast
  show ?thesis using assms p s m1 m2 by (cases b; cases c) (auto simp: start_stream_def stream_inv_def)
qed

lemma start_stream_not_backoff: "sm_worker (start_stream stamp m) = sm_worker m"
proof -
  obtain b m1 where p: "PrepareMediaMtxConfig stamp m = (b, m1)" by fastforce
  obtain d where m1: "m1 = m\<lparr>sm_disk := d\<rparr>" using Prepare_frame [OF p] ..
  have "sm_worker (snd (StartMediaMtx m1)) = sm_worker m1"
    by (auto simp: StartMediaMtx_def ReapChildIfNeeded_def Let_def split: prod.split)
  then show ?thesis using p m1
    by (cases b) (auto simp: start_stream_def split: prod.splits bool.splits)
qed

lemma stream_inv_sleep: "stream_inv m \<Longrightarrow> stream_inv (m\<lparr>sm_os := sleep_ms n (sm_os m)\<rparr>)"
  by (simp add: stream_inv_def child_ok_sleep)

lemma worker_ready_inv:
  assumes "stream_inv m" "sm_state m = kReady" "sm_inited m" "sm_worker m \<noteq> InBackoff"
  shows "stream_inv (worker_ready stamp m)"
  using start_stream_inv [OF assms, of stamp] assms stream_inv_sleep [OF assms(1), of "GetBackoffDelayMs m"]
  by (auto simp: worker_ready_def Let_def stream_inv_def)

lemma cut_inv:
  assumes "child_ok (sm_pid m) (sm_os m)"
  shows "sm_pid (StopMediaMtx False (m\<lparr>sm_state := st\<rparr>)) \<le> 0 \<and>
    (\<forall>q. killed (sm_os (StopMediaMtx False (m\<lparr>sm_state := st\<rparr>))) q)"
  using StopMediaMtx_no_child [of "m\<lparr>sm_state := st\<rparr>"] assms by simp

lemma worker_top_inv:
  assumes "stream_inv m" "sm_worker m = AtTop" shows "stream_inv (worker_top stamp m)"
proof -
  obtain b m1 where r: "ReapChildIfNeeded m = (b, m1)" by fastforce
  have c: "child_ok (sm_pid m) (sm_os m)" "sm_inited m" using assms by (auto simp: stream_inv_def)
  note rc = Reap_cases [OF r c(1)]
  show ?thesis
  proof (cases "sm_state m = kRunning")
    case False
    then have "m1 = m" using rc assms(1) by (auto simp: stream_inv_def split: if_splits)
    then show ?thesis using r False assms c worker_ready_inv [of m stamp]
      by (cases "sm_state m") (auto simp: worker_top_def stream_inv_def)
  next
    case True
    have m1: "sm_state m1 = kRunning" "sm_worker m1 = AtTop" "sm_inited m1"
      "child_ok (sm_pid m1) (sm_os m1)" "b \<longleftrightarrow> \<not> 0 < sm_pid m1"
    proof -
      have eq: "m1 = (if b then m\<lparr>sm_os := sm_os m1, sm_pid := - 1\<rparr> else m)" using rc by (cases b) simp_all
      have "sm_state m1 = sm_state m \<and> sm_worker m1 = sm_worker m \<and> sm_inited m1 = sm_inited m"
        by (subst (1 2 3) eq) simp
      then show "sm_state m1 = kRunning" "sm_worker m1 = AtTop" "sm_inited m1" using True assms(2) c(2) by simp_all
      have pid: "sm_pid m1 = (if b then - 1 else sm_pid m)" by (subst eq) simp
      then show "b \<longleftrightarrow> \<not> 0 < sm_pid m1" using True assms(1) by (simp add: stream_inv_def)
      show "child_ok (sm_pid m1) (sm_os m1)" using rc pid c(1) by (cases b) (simp_all add: child_ok_none)
    qed
    define w p where wp: "w = sm_os (StopMediaMtx False (m1\<lparr>sm_state := kStopping\<rparr>))"
      "p = sm_pid (StopMediaMtx False (m1\<lparr>sm_state := kStopping\<rparr>))"
    then have st: "StopMediaMtx False (m1\<lparr>sm_state := kStopping\<rparr>) = m1\<lparr>sm_state := kStopping, sm_os := w, sm_pid := p\<rparr>"
      using StopMediaMtx_frame [of False "m1\<lparr>sm_state := kStopping\<rparr>"] by simp
    have cut: "p \<le> 0" "\<forall>q. killed w q"
      using cut_inv [OF m1(4), of kStopping] unfolding wp by auto
    have "stream_inv (worker_running b m1)"
    proof (cases "sm_connected m1")
      case False
      then show ?thesis using st cut m1 by (simp add: worker_running_def Let_def stream_inv_def child_ok_none)
    next
      case True
      then show ?thesis using m1
        by (auto simp: worker_running_def Let_def stream_inv_def IsMediaMtxAlive_def child_ok_some kill0_def)
    qed
    then show ?thesis using r m1 by (simp add: worker_top_def)
  qed
qed

lemma worker_resume_inv:
  assumes "stream_inv m" "sm_worker m = InBackoff" shows "stream_inv (worker_resume stamp m)"
proof -
  have "stream_inv (m\<lparr>sm_worker := AtTop\<rparr>)" "sm_state m = kReady" "sm_inited m"
    using assms by (auto simp: stream_inv_def)
  then show ?thesis using start_stream_inv [of "m\<lparr>sm_worker := AtTop\<rparr>" stamp]
    by (simp add: worker_resume_def Let_def)
qed

lemma stream_stop_end_inv:
  assumes "stream_inv m"
  shows "stream_inv (stream_stop_end m) \<and> killed (sm_os (stream_stop_end m)) q"
proof -
  let ?m = "m\<lparr>sm_monitor := NoThread, sm_worker := NoThread\<rparr>"
  have c: "child_ok (sm_pid ?m) (sm_os ?m)" using assms by (auto simp: stream_inv_def)
  note st = StopMediaMtx_no_child [OF c]
  define m1 where "m1 = (if IsMediaMtxAlive ?m then
      (let m = StopMediaMtx False ?m in if IsMediaMtxAlive m then StopMediaMtx True m else m) else ?m)"
  have m1: "sm_pid m1 \<le> 0 \<and> (\<forall>q. killed (sm_os m1) q) \<and> sm_worker m1 = NoThread"
  proof (cases "IsMediaMtxAlive ?m")
    case True
    have "\<not> IsMediaMtxAlive (StopMediaMtx False ?m)" using st by (meson IsMediaMtxAlive_def linorder_not_le)
    moreover have "sm_worker (StopMediaMtx False ?m) = NoThread" by (subst StopMediaMtx_frame) simp
    ultimately show ?thesis using True st by (simp add: m1_def Let_def)
  next
    case False
    have "sm_pid ?m \<le> 0"
    proof (rule ccontr)
      assume "\<not> sm_pid ?m \<le> 0"
      then show False using False c by (auto simp: IsMediaMtxAlive_def child_ok_some kill0_def)
    qed
    then show ?thesis using False c by (simp add: m1_def child_ok_none)
  qed
  have e: "stream_stop_end m = m1\<lparr>sm_state := kIdle, sm_inited := False, sm_stopping := False\<rparr>"
    using m1 by (simp add: stream_stop_end_def m1_def Let_def ReapChildIfNeeded_def)
  then show ?thesis using m1 by (simp add: stream_inv_def child_ok_none)
qed

section \<open>The threads together\<close>

inductive stream_step :: "stream_mgr \<Rightarrow> stream_mgr \<Rightarrow> bool" where
  init: "stream_step m (snd (stream_Init config m))"
| start: "\<not> sm_stopping m \<Longrightarrow> stream_step m (stream_Start m)"
| stop: "\<not> sm_stopping m \<Longrightarrow> stream_step m (stream_stop_begin m)"
| joined: "sm_stopping m \<Longrightarrow> sm_monitor m \<in> {NoThread, Exited} \<Longrightarrow> sm_worker m \<in> {NoThread, Exited} \<Longrightarrow>
    stream_step m (stream_stop_end m)"
| probe: "sm_monitor m = AtTop \<Longrightarrow> \<not> sm_quit m \<Longrightarrow> stream_step m (monitor_probe probe_ok m)"
| monitor_leave: "sm_monitor m = AtTop \<Longrightarrow> sm_quit m \<Longrightarrow> stream_step m (m\<lparr>sm_monitor := Exited\<rparr>)"
| work: "sm_worker m = AtTop \<Longrightarrow> \<not> sm_quit m \<Longrightarrow> stream_step m (worker_top stamp m)"
| resume: "sm_worker m = InBackoff \<Longrightarrow> stream_step m (worker_resume stamp m)"
| worker_leave: "sm_worker m = AtTop \<Longrightarrow> sm_quit m \<Longrightarrow> stream_step m (m\<lparr>sm_worker := Exited\<rparr>)"
| pass: "stream_step m (m\<lparr>sm_os := sleep_ms n (sm_os m)\<rparr>)"
| disk: "stream_step m (m\<lparr>sm_disk := d\<rparr>)"
| lag: "stream_step m (m\<lparr>sm_os := (sm_os m)\<lparr>os_kill_lag := n\<rparr>\<rparr>)"

definition stream_start_state :: "stream_mgr \<Rightarrow> bool" where
  "stream_start_state m \<longleftrightarrow> (\<exists>w d. no_child w \<and> m = new_stream_mgr w d)"

lemma stream_Init_inv: "stream_inv m \<Longrightarrow> stream_inv (snd (stream_Init config m))"
  by (auto simp: stream_Init_def Let_def stream_inv_def)

lemma stream_Start_inv: "stream_inv m \<Longrightarrow> stream_inv (stream_Start m)"
  by (auto simp: stream_Start_def stream_inv_def)

lemma stream_stop_begin_inv: "stream_inv m \<Longrightarrow> stream_inv (stream_stop_begin m)"
  by (auto simp: stream_stop_begin_def stream_inv_def)

lemma monitor_probe_frame [simp]:
  "sm_os (monitor_probe ok m) = sm_os m" "sm_pid (monitor_probe ok m) = sm_pid m"
  "sm_state (monitor_probe ok m) = sm_state m" "sm_worker (monitor_probe ok m) = sm_worker m"
  "sm_inited (monitor_probe ok m) = sm_inited m" "sm_config (monitor_probe ok m) = sm_config m"
  "sm_crashes (monitor_probe ok m) = sm_crashes m" "sm_backoff (monitor_probe ok m) = sm_backoff m"
  "sm_last_stop (monitor_probe ok m) = sm_last_stop m"
  by (simp_all add: monitor_probe_def Let_def)

lemma stream_step_inv: "stream_inv m \<Longrightarrow> stream_step m m' \<Longrightarrow> stream_inv m'"
proof (erule stream_step.cases, goal_cases)
  case (1 m config)
  then show ?case by (simp add: stream_Init_inv)
next
  case (2 m)
  then show ?case by (simp add: stream_Start_inv)
next
  case (3 m)
  then show ?case by (simp add: stream_stop_begin_inv)
next
  case (4 m)
  then show ?case by (simp add: stream_stop_end_inv)
next
  case (5 m ok)
  then show ?case by (simp add: stream_inv_def)
next
  case (7 m stamp)
  then show ?case by (simp add: worker_top_inv)
next
  case (8 m stamp)
  then show ?case by (simp add: worker_resume_inv)
next
  case (10 m n)
  then show ?case by (simp add: stream_inv_sleep)
qed (auto simp: stream_inv_def child_ok_def killed_def)

interpretation stream: invariant_system stream_start_state stream_step stream_inv
proof
  fix m assume "stream_start_state m"
  then show "stream_inv m"
    by (auto simp: stream_start_state_def stream_inv_def new_stream_mgr_def child_ok_none no_child_def killed_def)
qed (rule stream_step_inv)

text \<open>C10: However probes, rounds of the worker, failures of the file system, crashes of the server and the calls of
  \<open>Init\<close>, \<open>Start\<close> and \<open>Stop\<close>, one call of these after another, interleave, and however long the system takes
  to end a killed process: the second media server guard holds the number of a server process, running or not yet waited
  for, exactly when its state is \<open>kRunning\<close>; any other process it has started is gone, or was sent \<open>SIGKILL\<close> and no longer
  runs. Such a process stays behind when it does not end within the three seconds the guard waits for it.\<close>

theorem server_exactly_when_running:
  assumes "stream_start_state m" "stream_step\<^sup>*\<^sup>* m m'"
  shows "(sm_state m' = kRunning \<longleftrightarrow> 0 < sm_pid m') \<and>
    (if sm_state m' = kRunning \<and> p = sm_pid m' then os_procs (sm_os m') p \<in> {Live, Zombie}
     else os_procs (sm_os m') p \<noteq> Gone \<longrightarrow> os_procs (sm_os m') p \<noteq> Live \<and> (p, SIGKILL) \<in> set (os_signals (sm_os m')))"
proof -
  have i: "stream_inv m'" by (rule stream.reachable_inv [OF assms])
  then show ?thesis by (cases "0 < sm_pid m'") (auto simp: stream_inv_def child_ok_some child_ok_none killed_def)
qed

text \<open>Once \<open>Stop\<close> of the second media server guard has joined its threads and returns, no server process runs, the
  state is \<open>kIdle\<close> and \<open>Init\<close> may be called again.\<close>

theorem stream_stop_clean:
  assumes "stream_start_state m" "stream_step\<^sup>*\<^sup>* m m'"
  shows "killed (sm_os (stream_stop_end m')) q \<and> sm_state (stream_stop_end m') = kIdle \<and>
    \<not> sm_inited (stream_stop_end m')"
  using stream_stop_end_inv [OF stream.reachable_inv [OF assms]]
  by (simp add: stream_stop_end_def Let_def)

end
