(* ===== verification/StreamStates.thy ===== *)
theory StreamStates
  imports StreamThreads
begin

text \<open>
  How the second media server guard follows the link: the debounced probe against its specification, the
  starts, stops and restarts of the server, the cooldown and the backoff.
\<close>

section \<open>The debounced probe\<close>

text \<open>\<open>n\<close> successes in a row, and since then never \<open>k\<close> failures in a row. The newest probe is the head.\<close>

definition link_up :: "nat \<Rightarrow> nat \<Rightarrow> bool list \<Rightarrow> bool" where
  "link_up n k qs \<longleftrightarrow> (\<exists>ys xs. qs = ys @ replicate n True @ xs \<and> \<not> sublist (replicate k False) ys)"

lemma prefix_replicate_iff: "prefix (replicate k b) zs \<longleftrightarrow> k \<le> length (takeWhile (\<lambda>x. x = b) zs)"
proof (induction k arbitrary: zs)
  case (Suc k)
  then show ?case by (cases zs) auto
qed simp

lemma link_up_True: "0 < k \<Longrightarrow>
    link_up n k (True # qs) \<longleftrightarrow> link_up n k qs \<or> n \<le> length (takeWhile (\<lambda>x. x = True) (True # qs))"
proof
  assume k: "0 < k" and "link_up n k (True # qs)"
  then obtain ys xs where e: "True # qs = ys @ replicate n True @ xs" "\<not> sublist (replicate k False) ys"
    by (auto simp: link_up_def)
  show "link_up n k qs \<or> n \<le> length (takeWhile (\<lambda>x. x = True) (True # qs))"
  proof (cases ys)
    case Nil
    then have "prefix (replicate n True) (True # qs)" using e(1) by simp
    then show ?thesis by (simp add: prefix_replicate_iff)
  next
    case (Cons b ys')
    then have "qs = ys' @ replicate n True @ xs" "\<not> sublist (replicate k False) ys'"
      using e by (auto simp: sublist_Cons_right)
    then show ?thesis by (auto simp: link_up_def)
  qed
next
  assume k: "0 < k" and a: "link_up n k qs \<or> n \<le> length (takeWhile (\<lambda>x. x = True) (True # qs))"
  show "link_up n k (True # qs)" using a
  proof
    assume "link_up n k qs"
    then obtain ys xs where e: "qs = ys @ replicate n True @ xs" "\<not> sublist (replicate k False) ys"
      by (auto simp: link_up_def)
    moreover have "\<not> prefix (replicate k False) (True # ys)" using k by (cases k) simp_all
    ultimately have "\<not> sublist (replicate k False) (True # ys)" by (simp add: sublist_Cons_right)
    then show ?thesis using e(1) unfolding link_up_def by (intro exI [of _ "True # ys"] exI [of _ xs]) simp
  next
    assume "n \<le> length (takeWhile (\<lambda>x. x = True) (True # qs))"
    then have "prefix (replicate n True) (True # qs)" by (simp only: prefix_replicate_iff)
    then obtain xs where "True # qs = [] @ replicate n True @ xs" by (auto elim: prefixE)
    moreover have "\<not> sublist (replicate k False) ([] :: bool list)" using k by simp
    ultimately show ?thesis unfolding link_up_def by blast
  qed
qed

lemma link_up_False: "0 < n \<Longrightarrow>
    link_up n k (False # qs) \<longleftrightarrow> link_up n k qs \<and> length (takeWhile (\<lambda>x. x = False) (False # qs)) < k"
proof
  assume n: "0 < n" and "link_up n k (False # qs)"
  then obtain ys xs where e: "False # qs = ys @ replicate n True @ xs" "\<not> sublist (replicate k False) ys"
    by (auto simp: link_up_def)
  obtain n' where n': "n = Suc n'" using n by (cases n) auto
  obtain ys' where ys: "ys = False # ys'" using e(1) n' that by (cases ys) simp_all
  then have q: "qs = ys' @ replicate n True @ xs" "\<not> sublist (replicate k False) ys'"
    using e by (auto simp: sublist_Cons_right)
  have "takeWhile (\<lambda>x. x = False) (as @ True # cs) = takeWhile (\<lambda>x. x = False) as" for as cs
    by (induction as) simp_all
  from this [of ys "replicate n' True @ xs"] n'
  have "takeWhile (\<lambda>x. x = False) (False # qs) = takeWhile (\<lambda>x. x = False) ys"
    unfolding q(1) ys by simp
  moreover have "\<not> prefix (replicate k False) ys" using e(2) prefix_imp_sublist by blast
  ultimately show "link_up n k qs \<and> length (takeWhile (\<lambda>x. x = False) (False # qs)) < k"
    using q by (simp only: prefix_replicate_iff) (auto simp: link_up_def)
next
  assume n: "0 < n" and a: "link_up n k qs \<and> length (takeWhile (\<lambda>x. x = False) (False # qs)) < k"
  then obtain ys xs where e: "qs = ys @ replicate n True @ xs" "\<not> sublist (replicate k False) ys"
    by (auto simp: link_up_def)
  have "\<not> prefix (replicate k False) (False # ys)"
  proof
    assume "prefix (replicate k False) (False # ys)"
    from prefix_prefix [OF this, of "replicate n True @ xs"]
    have "prefix (replicate k False) (False # qs)" using e(1) by simp
    then show False using a by (simp only: prefix_replicate_iff) linarith
  qed
  then have "\<not> sublist (replicate k False) (False # ys)" using e(2) by (simp add: sublist_Cons_right)
  then show "link_up n k (False # qs)" using e(1)
    unfolding link_up_def by (intro exI [of _ "False # ys"] exI [of _ xs]) simp
qed

lemma probes_spec:
  assumes "\<not> sm_connected m" "sm_success_count m = 0" "sm_fail_count m = 0"
    "cf_connect_debounce_count (sm_config m) = int n" "cf_disconnect_debounce_count (sm_config m) = int k" "0 < n" "0 < k"
  shows "sm_connected (foldr monitor_probe qs m) = link_up n k qs \<and>
    sm_success_count (foldr monitor_probe qs m) = int (length (takeWhile (\<lambda>x. x = True) qs)) \<and>
    sm_fail_count (foldr monitor_probe qs m) = int (length (takeWhile (\<lambda>x. x = False) qs)) \<and>
    sm_config (foldr monitor_probe qs m) = sm_config m"
proof (induction qs)
  case Nil
  then show ?case using assms by (auto simp: link_up_def)
next
  case (Cons q qs)
  show ?case
  proof (cases q)
    case True
    then show ?thesis using Cons assms link_up_True [OF assms(7), of n qs]
      by (auto simp: monitor_probe_def Let_def)
  next
    case False
    then show ?thesis using Cons assms link_up_False [OF assms(6), of k qs]
      by (auto simp: monitor_probe_def Let_def)
  qed
qed

text \<open>C21: The link counts as up exactly when the probes have at some time succeeded as often in a row as the
  configuration asks, and have not since then failed as often in a row as it asks, whatever the
  probes in between.\<close>

theorem debounce_meets_spec:
  assumes "\<not> sm_connected m" "sm_success_count m = 0" "sm_fail_count m = 0"
    and "cf_connect_debounce_count (sm_config m) = int n" "cf_disconnect_debounce_count (sm_config m) = int k"
    and "0 < n" "0 < k"
  shows "sm_connected (fold monitor_probe probes m) \<longleftrightarrow>
    (\<exists>xs ys. probes = xs @ replicate n True @ ys \<and> \<not> sublist (replicate k False) ys)"
proof -
  have "fold monitor_probe probes m = foldr monitor_probe (rev probes) m" by (simp add: foldr_conv_fold)
  then have "sm_connected (fold monitor_probe probes m) = link_up n k (rev probes)"
    using probes_spec [OF assms, of "rev probes"] by simp
  moreover have "link_up n k (rev probes) \<longleftrightarrow>
    (\<exists>xs ys. probes = xs @ replicate n True @ ys \<and> \<not> sublist (replicate k False) ys)"
  proof
    assume "link_up n k (rev probes)"
    then obtain ys xs where e: "rev probes = ys @ replicate n True @ xs" "\<not> sublist (replicate k False) ys"
      by (auto simp: link_up_def)
    then have "probes = rev xs @ replicate n True @ rev ys" by (simp add: rev_swap)
    moreover have "\<not> sublist (replicate k False) (rev ys)" using e(2) by (metis rev_replicate sublist_rev_left rev_rev_ident)
    ultimately show "\<exists>xs ys. probes = xs @ replicate n True @ ys \<and> \<not> sublist (replicate k False) ys" by blast
  next
    assume "\<exists>xs ys. probes = xs @ replicate n True @ ys \<and> \<not> sublist (replicate k False) ys"
    then obtain xs ys where e: "probes = xs @ replicate n True @ ys" "\<not> sublist (replicate k False) ys" by blast
    then have "rev probes = rev ys @ replicate n True @ rev xs" by simp
    moreover have "\<not> sublist (replicate k False) (rev ys)" using e(2) by (metis rev_replicate sublist_rev_left rev_rev_ident)
    ultimately show "link_up n k (rev probes)" unfolding link_up_def by blast
  qed
  ultimately show ?thesis by simp
qed

section \<open>Starting, stopping and restarting\<close>

lemma Prepare_ok:
  assumes "dk_can_open (sm_disk m)" "dk_room (sm_disk m) = None" "dk_can_rename (sm_disk m)"
  shows "\<exists>d. PrepareMediaMtxConfig stamp m = (True, m\<lparr>sm_disk := d\<rparr>) \<and>
    dk_files d (GetConfigPath (sm_config m)) = Some (GenerateYamlContent stamp (sm_config m))"
proof -
  let ?path = "GetConfigPath (sm_config m)" and ?yaml = "GenerateYamlContent stamp (sm_config m)"
  let ?d = "put_file (?path @ ''.tmp'') None (put_file ?path (Some ?yaml) (put_file (?path @ ''.tmp'') (Some ?yaml) (sm_disk m)))"
  have "PrepareMediaMtxConfig stamp m = (True, m\<lparr>sm_disk := ?d\<rparr>)"
    using assms by (simp add: PrepareMediaMtxConfig_def Let_def put_file_def)
  moreover have "dk_files ?d ?path = Some ?yaml" by (simp add: put_file_def)
  ultimately show ?thesis by blast
qed

text \<open>When the link is up, the cooldown is over and nothing has failed before, one round of the worker brings
  the server up: the configuration file holds the generated text and the state is \<open>kRunning\<close> with a server process,
  provided the file can be written and \<open>fork\<close> succeeds.\<close>

theorem worker_starts_server:
  assumes "stream_inv m" "sm_state m = kReady" "sm_connected m" "sm_backoff m = 0"
    and "int (os_clock (sm_os m)) - int (sm_last_stop m) \<ge> 2000"
    and "dk_can_open (sm_disk m)" "dk_room (sm_disk m) = None" "dk_can_rename (sm_disk m)"
    and "fork (sm_os m) = (p, w)" "0 < p"
  shows "sm_state (worker_top stamp m) = kRunning \<and> sm_pid (worker_top stamp m) = p \<and>
    os_procs (sm_os (worker_top stamp m)) p \<noteq> Gone \<and>
    dk_files (sm_disk (worker_top stamp m)) (GetConfigPath (sm_config m)) =
      Some (GenerateYamlContent stamp (sm_config m))"
proof -
  have pid: "sm_pid m \<le> 0" and c: "child_ok (sm_pid m) (sm_os m)" using assms(1,2) by (auto simp: stream_inv_def)
  obtain d where d: "PrepareMediaMtxConfig stamp m = (True, m\<lparr>sm_disk := d\<rparr>)"
    "dk_files d (GetConfigPath (sm_config m)) = Some (GenerateYamlContent stamp (sm_config m))"
    using Prepare_ok [OF assms(6-8)] by blast
  obtain b m2 where s: "StartMediaMtx (m\<lparr>sm_disk := d\<rparr>) = (b, m2)" by fastforce
  have w: "os_procs w p \<noteq> Gone" using assms(9,10) by (auto simp: fork_def split: list.splits if_splits)
  have m2: "b \<and> m2 = m\<lparr>sm_disk := d, sm_os := sleep_ms 100 w, sm_pid := p\<rparr>"
    using s pid assms(9,10) w by (auto simp: StartMediaMtx_def IsMediaMtxAlive_def kill0_def Let_def)
  have "worker_top stamp m = m2\<lparr>sm_state := kRunning\<rparr>"
    using assms pid d(1) s m2
    by (simp add: worker_top_def ReapChildIfNeeded_def worker_ready_def kCooldownMs_def GetBackoffDelayMs_def
        start_stream_def)
  then show ?thesis using m2 d(2) w by simp
qed

text \<open>When the link is lost, one round of the worker ends the server: whatever the server does, it is killed
  and forgotten, the state is \<open>kReady\<close> and the cooldown runs from the end of the stop.\<close>

theorem worker_stops_server:
  assumes "stream_inv m" "sm_state m = kRunning" "\<not> sm_connected m"
  shows "sm_state (worker_top stamp m) = kReady \<and> killed (sm_os (worker_top stamp m)) q \<and>
    sm_last_stop (worker_top stamp m) = os_clock (sm_os (worker_top stamp m))"
proof -
  obtain b m1 where r: "ReapChildIfNeeded m = (b, m1)" by fastforce
  have c: "child_ok (sm_pid m) (sm_os m)" using assms(1) by (auto simp: stream_inv_def)
  note rc = Reap_cases [OF r c]
  have eq: "m1 = (if b then m\<lparr>sm_os := sm_os m1, sm_pid := - 1\<rparr> else m)" using rc by (cases b) simp_all
  have "sm_state m1 = kRunning \<and> \<not> sm_connected m1" using assms by (subst (1 2) eq) simp
  moreover have "sm_pid m1 = (if b then - 1 else sm_pid m)" by (subst eq) simp
  then have "child_ok (sm_pid m1) (sm_os m1)"
    using rc c by (cases b; simp add: child_ok_none)
  note cut = cut_inv [OF this, of kStopping]
  ultimately show ?thesis using r cut
    by (simp add: worker_top_def worker_running_def Let_def)
qed

text \<open>A server that has died while the link is up is noticed by the next round of the worker: it is waited for, the crash
  is recorded, the backoff grows by one up to its maximum, and the state is \<open>kReady\<close> again when
  crashes are not limited.\<close>

theorem worker_notices_crash:
  assumes "stream_inv m" "sm_state m = kRunning" "sm_connected m" "os_procs (sm_os m) (sm_pid m) = Zombie"
    and "cf_max_crash_count (sm_config m) < 0" "0 \<le> cf_crash_window_seconds (sm_config m)"
  shows "sm_state (worker_top stamp m) = kReady \<and> os_procs (sm_os (worker_top stamp m)) (sm_pid m) = Gone \<and>
    sm_backoff (worker_top stamp m) = (if sm_backoff m < 5 then sm_backoff m + 1 else sm_backoff m) \<and>
    os_clock (sm_os m) \<in> set (sm_crashes (worker_top stamp m))"
proof -
  have pid: "0 < sm_pid m" and c: "child_ok (sm_pid m) (sm_os m)" using assms(1,2) by (auto simp: stream_inv_def)
  let ?w = "(sm_os m)\<lparr>os_procs := (os_procs (sm_os m))(sm_pid m := Gone)\<rparr>"
  have r: "ReapChildIfNeeded m = (True, m\<lparr>sm_os := ?w, sm_pid := - 1\<rparr>)"
    using pid assms(4) by (simp add: ReapChildIfNeeded_def waitpid_nohang_def)
  then show ?thesis using r assms(2,3,5,6)
    by (simp add: worker_top_def worker_running_def Let_def IsCrashingTooOften_def RecordCrash_def kMaxBackoffLevel_def)
qed

section \<open>Backoff and cooldown\<close>

lemma StopMediaMtx_selectors [simp]:
  "sm_backoff (StopMediaMtx f m) = sm_backoff m" "sm_connected (StopMediaMtx f m) = sm_connected m"
  "sm_worker (StopMediaMtx f m) = sm_worker m" "sm_last_stop (StopMediaMtx f m) = sm_last_stop m"
  "sm_config (StopMediaMtx f m) = sm_config m"
  by (subst StopMediaMtx_frame, simp)+

lemma Reap_selectors [simp]:
  "sm_backoff (snd (ReapChildIfNeeded m)) = sm_backoff m" "sm_connected (snd (ReapChildIfNeeded m)) = sm_connected m"
  "sm_worker (snd (ReapChildIfNeeded m)) = sm_worker m" "sm_last_stop (snd (ReapChildIfNeeded m)) = sm_last_stop m"
  "sm_config (snd (ReapChildIfNeeded m)) = sm_config m" "sm_state (snd (ReapChildIfNeeded m)) = sm_state m"
  by (simp_all add: ReapChildIfNeeded_def split: prod.split)

lemma RecordCrash_backoff: "sm_backoff m \<le> sm_backoff (RecordCrash m)"
  "sm_backoff m \<le> 5 \<Longrightarrow> sm_backoff (RecordCrash m) \<le> 5"
  by (simp_all add: RecordCrash_def Let_def kMaxBackoffLevel_def)

lemma start_stream_backoff:
  "sm_backoff m \<le> sm_backoff (start_stream stamp m) \<and> (sm_backoff m \<le> 5 \<longrightarrow> sm_backoff (start_stream stamp m) \<le> 5)"
proof -
  obtain b m1 where p: "PrepareMediaMtxConfig stamp m = (b, m1)" by fastforce
  obtain d where m1: "m1 = m\<lparr>sm_disk := d\<rparr>" using Prepare_frame [OF p] ..
  obtain c m2 where s: "StartMediaMtx m1 = (c, m2)" by fastforce
  have m2: "sm_backoff m2 = sm_backoff m"
    using s m1 Reap_selectors(1)
    by (auto simp: StartMediaMtx_def Let_def split: if_splits prod.splits)
  show ?thesis using p s m2 m1 RecordCrash_backoff [of m1] RecordCrash_backoff [of m2]
    by (cases b; cases c) (simp_all add: start_stream_def)
qed

lemma worker_top_backoff:
  "sm_backoff m \<le> sm_backoff (worker_top stamp m) \<and> (sm_backoff m \<le> 5 \<longrightarrow> sm_backoff (worker_top stamp m) \<le> 5)"
proof -
  obtain b m1 where r: "ReapChildIfNeeded m = (b, m1)" by fastforce
  have b: "sm_backoff m1 = sm_backoff m" using r Reap_selectors(1) [of m] by simp
  note rec = RecordCrash_backoff [of m1]
  have running: "sm_backoff m1 \<le> sm_backoff (worker_running b m1) \<and>
      (sm_backoff m1 \<le> 5 \<longrightarrow> sm_backoff (worker_running b m1) \<le> 5)"
    using rec by (simp add: worker_running_def Let_def)
  have ready: "sm_backoff m1 \<le> sm_backoff (worker_ready stamp m1) \<and>
      (sm_backoff m1 \<le> 5 \<longrightarrow> sm_backoff (worker_ready stamp m1) \<le> 5)"
    using start_stream_backoff [of m1 stamp] by (simp add: worker_ready_def Let_def)
  show ?thesis using r b running ready by (cases "sm_state m1") (simp_all add: worker_top_def)
qed

lemma stop_end_backoff: "sm_backoff (stream_stop_end m) = sm_backoff m"
  by (simp add: stream_stop_end_def Let_def)

text \<open>The wait before a restart never shortens: no step of the second media server guard, not even a successful start or a
  stop with a new \<open>Init\<close>, lowers the backoff level, which stays at most 5, a wait of at most ten seconds.\<close>

theorem backoff_never_shrinks:
  assumes "stream_step m m'"
  shows "sm_backoff m \<le> sm_backoff m' \<and> (sm_backoff m \<le> 5 \<longrightarrow> sm_backoff m' \<le> 5) \<and>
    GetBackoffDelayMs m' \<le> 10000"
proof -
  have "sm_backoff m \<le> sm_backoff m' \<and> (sm_backoff m \<le> 5 \<longrightarrow> sm_backoff m' \<le> 5)"
    using assms
  proof (cases rule: stream_step.cases)
    case (work stamp)
    then show ?thesis by (simp add: worker_top_backoff)
  next
    case (resume stamp)
    have "sm_backoff (m\<lparr>sm_worker := AtTop\<rparr>) = sm_backoff m" by simp
    then show ?thesis using resume start_stream_backoff [of "m\<lparr>sm_worker := AtTop\<rparr>" stamp]
      by (auto simp: worker_resume_def Let_def)
  qed (auto simp: stream_Init_def stream_Start_def stream_stop_begin_def stop_end_backoff Let_def)
  then show ?thesis by (simp add: GetBackoffDelayMs_def)
qed

lemma fork_clock: "os_clock (snd (fork w)) = os_clock w"
  by (simp add: fork_def split: list.split)

lemma waitpid_nohang_clock: "os_clock (snd (waitpid_nohang p w)) = os_clock w"
  by (simp add: waitpid_nohang_def split: proc_state.split)

lemma Start_clock: "os_clock (sm_os m) \<le> os_clock (sm_os (snd (StartMediaMtx m)))"
  using fork_clock [of "sm_os m"]
  by (auto simp: StartMediaMtx_def ReapChildIfNeeded_def Let_def waitpid_nohang_def split: prod.split proc_state.split)

lemma Start_last_stop: "sm_last_stop (snd (StartMediaMtx m)) = sm_last_stop m"
  by (auto simp: StartMediaMtx_def Let_def split: prod.split)

lemma start_stream_clock:
  "os_clock (sm_os m) \<le> os_clock (sm_os (start_stream stamp m)) \<and> sm_last_stop (start_stream stamp m) = sm_last_stop m"
proof -
  obtain b m1 where p: "PrepareMediaMtxConfig stamp m = (b, m1)" by fastforce
  obtain d where m1: "m1 = m\<lparr>sm_disk := d\<rparr>" using Prepare_frame [OF p] ..
  obtain c m2 where s: "StartMediaMtx m1 = (c, m2)" by fastforce
  show ?thesis using p s m1 Start_clock [of m1] Start_last_stop [of m1]
    by (cases b; cases c) (simp_all add: start_stream_def)
qed

definition cool_inv :: "stream_mgr \<Rightarrow> bool" where
  "cool_inv m \<longleftrightarrow> stream_inv m \<and>
     (sm_worker m = InBackoff \<longrightarrow> int (os_clock (sm_os m)) - int (sm_last_stop m) \<ge> 2000)"

lemma worker_running_worker: "sm_worker (worker_running b m) = sm_worker m"
  by (simp add: worker_running_def Let_def)

lemma worker_top_ready:
  assumes "stream_inv m" "sm_state m = kReady"
  shows "worker_top stamp m = worker_ready stamp m"
  using assms by (simp add: worker_top_def ReapChildIfNeeded_def stream_inv_def)

lemma worker_top_other:
  assumes "sm_state m \<noteq> kReady" shows "sm_worker (worker_top stamp m) = sm_worker m \<and>
    (sm_state m \<noteq> kRunning \<longrightarrow> sm_state (worker_top stamp m) \<noteq> kRunning)"
proof -
  obtain b m1 where r: "ReapChildIfNeeded m = (b, m1)" by fastforce
  have "sm_worker m1 = sm_worker m" "sm_state m1 = sm_state m"
    using r Reap_selectors(3,6) [of m] by simp_all
  then show ?thesis using r assms worker_running_worker [of b m1]
    by (cases "sm_state m1") (auto simp: worker_top_def)
qed

lemma worker_ready_cool:
  assumes "sm_worker m \<noteq> InBackoff" "sm_worker (worker_ready stamp m) = InBackoff"
  shows "int (os_clock (sm_os (worker_ready stamp m))) - int (sm_last_stop (worker_ready stamp m)) \<ge> 2000"
  using assms start_stream_not_backoff [of stamp m]
  by (auto simp: worker_ready_def kCooldownMs_def Let_def split: if_splits)

lemma cool_step: "cool_inv m \<Longrightarrow> stream_step m m' \<Longrightarrow> cool_inv m'"
proof -
  assume c: "cool_inv m" and st: "stream_step m m'"
  have i: "stream_inv m" "stream_inv m'" using c st stream_step_inv by (auto simp: cool_inv_def)
  from st show "cool_inv m'"
  proof (cases rule: stream_step.cases)
    case (work stamp)
    show ?thesis
    proof (cases "sm_state m = kReady")
      case True
      then show ?thesis using work i worker_top_ready [OF i(1)] worker_ready_cool [of m stamp]
        by (auto simp: cool_inv_def)
    next
      case False
      then show ?thesis using work i worker_top_other [of m stamp] by (simp add: cool_inv_def)
    qed
  next
    case (resume stamp)
    then show ?thesis using i start_stream_not_backoff [of stamp "m\<lparr>sm_worker := AtTop\<rparr>"]
      by (auto simp: cool_inv_def worker_resume_def Let_def)
  next
    case joined
    then show ?thesis using i by (simp add: cool_inv_def stream_stop_end_def Let_def)
  next
    case (pass n)
    then show ?thesis using c i by (auto simp: cool_inv_def)
  qed (use c i in \<open>auto simp: cool_inv_def stream_Init_def stream_Start_def stream_stop_begin_def Let_def\<close>)
qed

interpretation cool: invariant_system stream_start_state stream_step cool_inv
proof
  fix m assume s: "stream_start_state m"
  then have "stream_inv m" using stream.inv_start by blast
  then show "cool_inv m" using s by (auto simp: cool_inv_def stream_start_state_def new_stream_mgr_def)
qed (rule cool_step)

text \<open>A server is only ever started while the link is up and at least two seconds after the last time one was
  stopped because the link was lost, even when the start comes out of a backoff.\<close>

theorem cooldown_respected:
  assumes "stream_start_state m0" "stream_step\<^sup>*\<^sup>* m0 m" "stream_step m m'"
    and "sm_state m \<noteq> kRunning" "sm_state m' = kRunning"
  shows "sm_connected m \<and> int (os_clock (sm_os m')) - int (sm_last_stop m') \<ge> 2000"
proof -
  have c: "cool_inv m" by (rule cool.reachable_inv [OF assms(1,2)])
  then have i: "stream_inv m" by (simp add: cool_inv_def)
  from assms(3) show ?thesis
  proof (cases rule: stream_step.cases)
    case (work stamp)
    have ready: "sm_state m = kReady" using work assms(4,5) worker_top_other [of m stamp] by auto
    have eq: "m' = worker_ready stamp m" using work worker_top_ready [OF i ready] by simp
    show ?thesis using eq ready assms(5) start_stream_clock [of m stamp]
      by (auto simp: worker_ready_def kCooldownMs_def Let_def split: if_splits)
  next
    case (resume stamp)
    have "int (os_clock (sm_os m)) - int (sm_last_stop m) \<ge> 2000" using c resume by (simp add: cool_inv_def)
    then show ?thesis using resume assms(4,5) start_stream_clock [of "m\<lparr>sm_worker := AtTop\<rparr>" stamp]
      by (auto simp: worker_resume_def Let_def split: if_splits)
  qed (use assms(4,5) in \<open>auto simp: stream_Init_def stream_Start_def stream_stop_begin_def stream_stop_end_def Let_def
      split: if_splits\<close>)
qed

section \<open>The error state\<close>

text \<open>Old crashes are dropped only when a new one is recorded, and in \<open>kError\<close> none is: once in \<open>kError\<close> the guard stays
  there however much time passes, until it is stopped.\<close>

definition stuck :: "stream_mgr \<Rightarrow> bool" where
  "stuck m \<longleftrightarrow> stream_inv m \<and> sm_state m = kError \<and> IsCrashingTooOften m \<and> sm_inited m"

lemma stuck_step: "stuck m \<Longrightarrow> stream_step m m' \<Longrightarrow> sm_inited m' \<Longrightarrow> stuck m'"
proof -
  assume s: "stuck m" and st: "stream_step m m'" and ini: "sm_inited m'"
  have i: "stream_inv m'" using s st stream_step_inv by (auto simp: stuck_def)
  have nb: "sm_worker m \<noteq> InBackoff" "sm_pid m \<le> 0" using s by (auto simp: stuck_def stream_inv_def)
  from st show "stuck m'"
  proof (cases rule: stream_step.cases)
    case (init config)
    then show ?thesis using s by (simp add: stuck_def stream_Init_def)
  next
    case joined
    then have "\<not> sm_inited m'" by (simp add: stream_stop_end_def Let_def)
    then show ?thesis using ini by simp
  next
    case (work stamp)
    then have "m' = m" using s nb by (simp add: stuck_def worker_top_def ReapChildIfNeeded_def)
    then show ?thesis using s by simp
  next
    case (resume stamp)
    then show ?thesis using nb by simp
  qed (use s i in \<open>auto simp: stuck_def stream_Start_def stream_stop_begin_def IsCrashingTooOften_def\<close>)
qed

theorem error_state_never_recovers:
  assumes "stuck m" "(\<lambda>m m'. stream_step m m' \<and> sm_inited m')\<^sup>*\<^sup>* m m'"
  shows "sm_state m' = kError"
proof -
  from assms(2) have "stuck m'"
    by (induction rule: rtranclp_induct) (use assms(1) stuck_step in auto)
  then show ?thesis by (simp add: stuck_def)
qed

text \<open>A guard that is stopped and initialised again keeps what it thought of the link: its worker may start the server
  before the first probe.\<close>

theorem restart_keeps_link:
  "sm_connected (stream_Start (snd (stream_Init config (stream_stop_end m)))) = sm_connected m"
  by (simp add: stream_Start_def stream_Init_def stream_stop_end_def Let_def)

section \<open>A run\<close>

definition demo_os :: os where
  "demo_os = \<lparr>os_clock = 10000, os_procs = (\<lambda>_. Gone), os_fate = (\<lambda>_ _. False), os_kill_lag = 100,
     os_forks = [7], os_signals = []\<rparr>"

definition demo_disk :: disk where
  "demo_disk = \<lparr>dk_files = (\<lambda>_. None), dk_executable = (\<lambda>_. True), dk_writable = (\<lambda>_. True),
     dk_can_open = True, dk_room = None, dk_can_rename = True\<rparr>"

definition demo_ready :: stream_mgr where
  "demo_ready = (new_stream_mgr demo_os demo_disk)\<lparr>sm_inited := True, sm_config := CreateDefaultConfig, sm_state := kReady,
     sm_monitor := AtTop, sm_worker := AtTop\<rparr>"

definition demo_up :: stream_mgr where
  "demo_up = demo_ready\<lparr>sm_success_count := 3, sm_connected := True\<rparr>"

lemma stream_demo_start: "stream_start_state (new_stream_mgr demo_os demo_disk)"
  unfolding stream_start_state_def
  by (intro exI [of _ demo_os] exI [of _ demo_disk]) (simp add: demo_os_def no_child_def)

lemma demo_probes: "fold monitor_probe [True, True, True] demo_ready = demo_up"
  by (simp add: monitor_probe_def demo_up_def demo_ready_def new_stream_mgr_def CreateDefaultConfig_def tuned_def)

lemma demo_reaches_up: "stream_step\<^sup>*\<^sup>* (new_stream_mgr demo_os demo_disk) demo_up"
proof -
  let ?m0 = "new_stream_mgr demo_os demo_disk"
  let ?m1 = "?m0\<lparr>sm_inited := True, sm_config := CreateDefaultConfig, sm_quit := True, sm_state := kReady\<rparr>"
  have "snd (stream_Init CreateDefaultConfig ?m0) = ?m1"
    by (simp add: stream_Init_def Let_def IsValid_def new_stream_mgr_def CreateDefaultConfig_def tuned_def demo_disk_def)
  then have a: "stream_step ?m0 ?m1" using stream_step.init [of ?m0 CreateDefaultConfig] by simp
  have "stream_Start ?m1 = demo_ready"
    by (simp add: stream_Start_def demo_ready_def joinable_def new_stream_mgr_def CreateDefaultConfig_def tuned_def)
  then have b: "stream_step ?m1 demo_ready" using stream_step.start [of ?m1] by (simp add: new_stream_mgr_def)
  have p: "stream_step m (monitor_probe True m)" if "sm_monitor m = AtTop" "\<not> sm_quit m" for m
    using stream_step.probe that by blast
  have "stream_step\<^sup>*\<^sup>* demo_ready (monitor_probe True (monitor_probe True (monitor_probe True demo_ready)))"
    by (rule rtranclp.rtrancl_into_rtrancl [OF rtranclp.rtrancl_into_rtrancl [OF r_into_rtranclp]]; rule p)
      (simp_all add: monitor_probe_def Let_def demo_ready_def new_stream_mgr_def)
  then have "stream_step\<^sup>*\<^sup>* demo_ready demo_up" using demo_probes by simp
  then show ?thesis using a b by (meson converse_rtranclp_into_rtranclp)
qed

lemma demo_up_inv: "stream_inv demo_up"
  by (rule stream.reachable_inv [OF stream_demo_start demo_reaches_up])

lemma stream_demo_runs:
  "sm_state demo_up = kReady \<and> stream_step demo_up (worker_top [] demo_up) \<and>
   sm_state (worker_top [] demo_up) = kRunning \<and> sm_pid (worker_top [] demo_up) = 7"
proof -
  have r: "sm_state demo_up = kReady" "sm_connected demo_up" "sm_backoff demo_up = 0" "sm_last_stop demo_up = 0"
    "sm_os demo_up = demo_os" "sm_disk demo_up = demo_disk" "sm_worker demo_up = AtTop" "\<not> sm_quit demo_up"
    by (simp_all add: demo_up_def demo_ready_def new_stream_mgr_def)
  have f: "fork demo_os = (7, demo_os\<lparr>os_procs := (os_procs demo_os)(7 := Live), os_forks := []\<rparr>)"
    by (simp add: fork_def demo_os_def)
  have "sm_state (worker_top [] demo_up) = kRunning \<and> sm_pid (worker_top [] demo_up) = 7"
    using worker_starts_server [OF demo_up_inv r(1-3), of 7 "demo_os\<lparr>os_procs := (os_procs demo_os)(7 := Live), os_forks := []\<rparr>" "[]"]
      r f by (simp add: demo_os_def demo_disk_def)
  then show ?thesis using r stream_step.work [of demo_up "[]"] by simp
qed

theorem debounce_meets_spec_witness:
  "sm_connected (fold monitor_probe [True, False, True, True, True, False, False] demo_ready)"
proof -
  have "\<exists>xs ys. [True, False, True, True, True, False, False] = xs @ replicate 3 True @ ys \<and>
      \<not> sublist (replicate 3 False) ys"
    by (rule exI [of _ "[True, False]"], rule exI [of _ "[False, False]"])
      (auto simp: numeral_3_eq_3 sublist_Cons_right)
  then show ?thesis
    using debounce_meets_spec [of demo_ready 3 3 "[True, False, True, True, True, False, False]"]
    by (simp add: demo_ready_def new_stream_mgr_def CreateDefaultConfig_def tuned_def)
qed

theorem worker_notices_crash_witness:
  "\<exists>m. sm_state m = kRunning \<and> sm_state (worker_top [] m) = kReady \<and> sm_backoff (worker_top [] m) = 1"
proof -
  let ?w = "demo_os\<lparr>os_procs := (\<lambda>p. if p = 7 then Zombie else Gone)\<rparr>"
  let ?m = "demo_up\<lparr>sm_state := kRunning, sm_pid := 7, sm_os := ?w\<rparr>"
  have s: "sm_backoff ?m = 0" "stream_inv ?m" "sm_state ?m = kRunning" "sm_connected ?m"
    "os_procs (sm_os ?m) (sm_pid ?m) = Zombie" "cf_max_crash_count (sm_config ?m) < 0"
    "0 \<le> cf_crash_window_seconds (sm_config ?m)"
    by (simp_all add: stream_inv_def child_ok_some killed_def demo_os_def demo_up_def demo_ready_def
        new_stream_mgr_def CreateDefaultConfig_def tuned_def)
  show ?thesis using worker_notices_crash [OF s(2-7), of "[]"] s(1,3)
    by (intro exI [of _ ?m]) simp
qed

theorem server_exactly_when_running_witness:
  "\<exists>m. stream_step\<^sup>*\<^sup>* (new_stream_mgr demo_os demo_disk) m \<and> os_procs (sm_os m) 7 \<noteq> Gone \<and> os_procs (sm_os m) 8 = Gone"
proof -
  let ?m = "worker_top [] demo_up"
  have r: "stream_step\<^sup>*\<^sup>* (new_stream_mgr demo_os demo_disk) ?m"
    using demo_reaches_up stream_demo_runs by (meson rtranclp.rtrancl_into_rtrancl)
  have s: "os_signals (sm_os ?m) = []"
    by (simp add: worker_top_def demo_up_def demo_ready_def new_stream_mgr_def ReapChildIfNeeded_def worker_ready_def
        kCooldownMs_def GetBackoffDelayMs_def start_stream_def PrepareMediaMtxConfig_def Let_def StartMediaMtx_def
        IsMediaMtxAlive_def fork_def demo_os_def demo_disk_def kill0_def)
  show ?thesis using r s stream_demo_runs server_exactly_when_running [OF stream_demo_start r, of 7]
      server_exactly_when_running [OF stream_demo_start r, of 8] by (intro exI [of _ ?m]) auto
qed

theorem cooldown_respected_witness:
  "int (os_clock (sm_os (worker_top [] demo_up))) - int (sm_last_stop (worker_top [] demo_up)) \<ge> 2000"
  using cooldown_respected [OF stream_demo_start demo_reaches_up, of "worker_top [] demo_up"] stream_demo_runs by simp

end
