(* ===== verification/Heartbeat.thy ===== *)
theory Heartbeat
  imports Json Control "HOL-Library.Sublist"
begin

text \<open>
  The heartbeat, \<open>src/util/my_heartbeat/MyHeartbeatManager.cpp\<close>: its configuration, the document it builds each
  round, the rounds of its worker, and the message it would publish. The clock, the process number, the host
  name, the summary of the edge manager and the answer of the publisher are arguments; a number that is no
  integer is cut by the parameter \<open>trunc\<close>. What is logged is a value, the log itself is left out.
\<close>

section \<open>JSON access\<close>

definition value_int :: "(string \<Rightarrow> int) \<Rightarrow> json \<Rightarrow> string \<Rightarrow> int \<Rightarrow> json_exn + int" where
  "value_int trunc cfg key def =
     (if \<not> is_object cfg then Inl NotAnObject
      else case field cfg key of
        None \<Rightarrow> Inr def
      | Some (JUnsigned n) \<Rightarrow> Inr (sint (of_nat n :: i32))
      | Some (JInteger i) \<Rightarrow> Inr (sint (of_int i :: i32))
      | Some (JFloat t) \<Rightarrow> Inr (trunc t)
      | Some (JBool b) \<Rightarrow> Inr (of_bool b)
      | Some _ \<Rightarrow> Inl (WrongType key))"

definition value_json :: "json \<Rightarrow> string \<Rightarrow> json \<Rightarrow> json_exn + json" where
  "value_json cfg key def =
     (if \<not> is_object cfg then Inl NotAnObject
      else case field cfg key of None \<Rightarrow> Inr def | Some v \<Rightarrow> Inr v)"

text \<open>\<open>j[key] = v\<close>: null becomes an object, everything else that is no object throws.\<close>

fun set_field :: "json \<Rightarrow> string \<Rightarrow> json \<Rightarrow> json_exn + json" where
  "set_field (JObject fs) key v = Inr (JObject (AList.update key v fs))"
| "set_field JNull key v = Inr (JObject [(key, v)])"
| "set_field _ key v = Inl (WrongType key)"

lemma field_set_field: "set_field j key v = Inr j' \<Longrightarrow>
    field j' k = (if k = key then Some v else if j = JNull then None else field j k)"
  by (cases j) (auto simp: update_conv')

section \<open>State\<close>

record 'p heartbeat =
  hb_running :: bool
  hb_joinable :: bool
  hb_publisher :: "'p option"
  hb_topic_fmt :: string
  hb_qos :: int
  hb_retain :: bool
  hb_seq :: u64
  hb_config :: json
  hb_data :: json
  hb_interval_sec :: int
  hb_simple_json4log :: bool
  hb_start_time :: int
  hb_source_id :: string

definition new_heartbeat :: "'p heartbeat" where
  "new_heartbeat = \<lparr>hb_running = False, hb_joinable = False, hb_publisher = None, hb_topic_fmt = ''system/heartbeats'',
     hb_qos = 1, hb_retain = False, hb_seq = 0, hb_config = JNull, hb_data = JNull, hb_interval_sec = 5,
     hb_simple_json4log = False, hb_start_time = 0, hb_source_id = []\<rparr>"

definition SetPublisher :: "'p option \<Rightarrow> 'p heartbeat \<Rightarrow> 'p heartbeat" where
  "SetPublisher p hb = hb\<lparr>hb_publisher := p\<rparr>"

definition SetMqttPublishConfig :: "string \<Rightarrow> int \<Rightarrow> bool \<Rightarrow> 'p heartbeat \<Rightarrow> 'p heartbeat" where
  "SetMqttPublishConfig topic_fmt qos retain hb =
     (let hb = (if topic_fmt \<noteq> [] then hb\<lparr>hb_topic_fmt := topic_fmt\<rparr> else hb)
      in hb\<lparr>hb_qos := qos, hb_retain := retain\<rparr>)"

text \<open>A reader that throws leaves what was set before it.\<close>

definition read_into :: "json_exn + 'a \<Rightarrow> ('a \<Rightarrow> 'p heartbeat) \<Rightarrow> 'p heartbeat \<Rightarrow>
    ('p heartbeat \<Rightarrow> json_exn option \<times> 'p heartbeat) \<Rightarrow> json_exn option \<times> 'p heartbeat" where
  "read_into r f hb rest = (case r of Inl e \<Rightarrow> (Some e, hb) | Inr v \<Rightarrow> rest (f v))"

definition heartbeat_Init :: "(string \<Rightarrow> int) \<Rightarrow> string option \<Rightarrow> int \<Rightarrow> json \<Rightarrow> 'p heartbeat \<Rightarrow>
    json_exn option \<times> 'p heartbeat" where
  "heartbeat_Init trunc hostname now config hb =
     (let hb = hb\<lparr>hb_config := config\<rparr> in
      read_into (value_int trunc config ''interval_sec'' 5) (\<lambda>v. hb\<lparr>hb_interval_sec := v\<rparr>) hb (\<lambda>hb.
      read_into (value_bool config ''simple_json4log'' False) (\<lambda>v. hb\<lparr>hb_simple_json4log := v\<rparr>) hb (\<lambda>hb.
      read_into (value_string config ''source_id'' []) (\<lambda>v. hb\<lparr>hb_source_id := v\<rparr>) hb (\<lambda>hb.
      let hb = (if hb_source_id hb = [] then hb\<lparr>hb_source_id :=
            (case hostname of Some h \<Rightarrow> h | None \<Rightarrow> ''unknown'')\<rparr> else hb) in
      read_into (value_string config ''topic_fmt'' (hb_topic_fmt hb)) (\<lambda>v. hb\<lparr>hb_topic_fmt := v\<rparr>) hb (\<lambda>hb.
      read_into (value_int trunc config ''qos'' (hb_qos hb)) (\<lambda>v. hb\<lparr>hb_qos := v\<rparr>) hb (\<lambda>hb.
      read_into (value_bool config ''retain'' (hb_retain hb)) (\<lambda>v. hb\<lparr>hb_retain := v\<rparr>) hb (\<lambda>hb.
      (None, hb\<lparr>hb_start_time := now\<rparr>))))))))"

definition heartbeat_Start :: "'p heartbeat \<Rightarrow> 'p heartbeat" where
  "heartbeat_Start hb = (if hb_running hb then hb else hb\<lparr>hb_running := True, hb_joinable := True\<rparr>)"

definition heartbeat_Stop :: "'p heartbeat \<Rightarrow> 'p heartbeat" where
  "heartbeat_Stop hb = (if \<not> hb_running hb then hb else hb\<lparr>hb_running := False, hb_joinable := False\<rparr>)"

section \<open>The document\<close>

text \<open>\<open>BuildHeartbeat\<close>. The summary of the edge manager goes into the old document, which is then replaced.\<close>

definition BuildHeartbeat :: "int \<Rightarrow> int \<Rightarrow> json \<Rightarrow> 'p heartbeat \<Rightarrow> json_exn option \<times> 'p heartbeat" where
  "BuildHeartbeat pid now edge_summary hb =
     (case ebind (value_json (hb_config hb) ''base'' (JObject [])) (\<lambda>base.
           ebind (set_field base ''pid'' (JInteger pid)) (\<lambda>base.
           ebind (set_field base ''timestamp'' (JInteger now)) (\<lambda>base.
           ebind (set_field base ''uptime_sec'' (JInteger (now - hb_start_time hb))) (\<lambda>base.
           ebind (value_json (hb_config hb) ''extra'' (JObject [])) (\<lambda>extra.
             Inr (JObject [(''base'', base), (''extra'', extra)])))))) of
        Inl e \<Rightarrow> (Some e, hb)
      | Inr doc \<Rightarrow> (case set_field (hb_data hb) ''edge_summary'' edge_summary of
            Inl e \<Rightarrow> (Some e, hb)
          | Inr old \<Rightarrow> (None, hb\<lparr>hb_data := doc\<rparr>)))"

definition GetHeartbeatSnapshot :: "'p heartbeat \<Rightarrow> json" where
  "GetHeartbeatSnapshot hb = hb_data hb"

definition GetInitConfig :: "'p heartbeat \<Rightarrow> json" where
  "GetInitConfig hb = hb_config hb"

text \<open>What \<open>LogHeartbeatData\<close> writes.\<close>

definition LogHeartbeatData :: "'p heartbeat \<Rightarrow> json" where
  "LogHeartbeatData hb =
     (let snapshot = GetHeartbeatSnapshot hb in
      if hb_simple_json4log hb then
        (case field snapshot ''base'' of Some base \<Rightarrow> base | None \<Rightarrow> snapshot)
      else snapshot)"

definition SendHeartbeat :: "'p heartbeat \<Rightarrow> json_exn + json option" where
  "SendHeartbeat hb =
     ebind (value_string (hb_config hb) ''sender'' ''log'') (\<lambda>sender.
       Inr (if sender = ''log'' then Some (LogHeartbeatData hb) else None))"

section \<open>The worker\<close>

text \<open>The wait between two rounds: the values of \<open>running_\<close> that its checks see; the result counts the seconds slept.\<close>

fun heartbeat_wait :: "int \<Rightarrow> int \<Rightarrow> bool list \<Rightarrow> nat" where
  "heartbeat_wait interval i (r # rs) =
     (if i < interval \<and> r then Suc (heartbeat_wait interval (i + 1) rs) else 0)"
| "heartbeat_wait interval i [] = 0"

text \<open>A round of \<open>WorkerLoop\<close>: what it logs, nothing when the document could not be built.\<close>

definition heartbeat_round :: "int \<Rightarrow> int \<Rightarrow> json \<Rightarrow> 'p heartbeat \<Rightarrow> json option \<times> 'p heartbeat" where
  "heartbeat_round pid now edge_summary hb =
     (case BuildHeartbeat pid now edge_summary hb of
        (Some e, hb) \<Rightarrow> (None, hb)
      | (None, hb) \<Rightarrow> (Some (LogHeartbeatData hb), hb))"

section \<open>Publishing\<close>

definition find_from :: "string \<Rightarrow> nat \<Rightarrow> string \<Rightarrow> nat option" where
  "find_from key pos t = find (\<lambda>i. prefix key (drop i t)) [pos..<Suc (length t)]"

definition source_key :: string where
  "source_key = ''{source}''"

lemma length_source_key [simp]: "length source_key = 8"
  by (simp add: source_key_def)

lemma find_from_Some:
  assumes "find_from key pos t = Some i"
  shows "pos \<le> i \<and> prefix key (drop i t) \<and> i + length key \<le> length t \<and> (\<forall>j. pos \<le> j \<longrightarrow> j < i \<longrightarrow> \<not> prefix key (drop j t))"
proof -
  from assms obtain k where k: "k < length [pos..<Suc (length t)]" "i = [pos..<Suc (length t)] ! k"
    "prefix key (drop i t)" "\<forall>j<k. \<not> prefix key (drop ([pos..<Suc (length t)] ! j) t)"
    unfolding find_from_def by (auto simp: find_Some_iff)
  have i: "i = pos + k" "i \<le> length t" using k(1,2) by (auto simp: nth_append split: if_splits)
  have "length key \<le> length t - i" using prefix_length_le [OF k(3)] by simp
  moreover have "\<not> prefix key (drop j t)" if "pos \<le> j" "j < i" for j
  proof -
    have "j - pos < k" using that i by simp
    with k(4) have "\<not> prefix key (drop ([pos..<Suc (length t)] ! (j - pos)) t)" by blast
    moreover have "[pos..<Suc (length t)] ! (j - pos) = j" using that i by (simp add: nth_append)
    ultimately show ?thesis by simp
  qed
  ultimately show ?thesis using i k(3) by auto
qed

text \<open>The loop of \<open>formatTopic\<close> from a position on.\<close>

function format_loop :: "string \<Rightarrow> string \<Rightarrow> nat \<Rightarrow> string" where
  "format_loop t source pos =
     (case find_from source_key pos t of
        None \<Rightarrow> t
      | Some i \<Rightarrow> format_loop (take i t @ source @ drop (i + 8) t) source (i + length source))"
  by pat_completeness auto

termination
proof (relation "measure (\<lambda>(t, source, pos). length t - pos)", goal_cases)
  case (2 t source pos i)
  then show ?case using find_from_Some [of source_key pos t i] by auto
qed simp

declare format_loop.simps [simp del]

definition formatTopic :: "string \<Rightarrow> string \<Rightarrow> string" where
  "formatTopic fmt source = format_loop fmt source 0"

text \<open>\<open>SendOnceByMQTT\<close>: the call of the publisher, if there is one; its answer is only logged.\<close>

definition SendOnceByMQTT :: "int \<Rightarrow> 'p heartbeat \<Rightarrow> ('p \<times> string \<times> json \<times> int \<times> bool) option \<times> 'p heartbeat" where
  "SendOnceByMQTT ts hb =
     (case hb_publisher hb of
        None \<Rightarrow> (None, hb)
      | Some pub \<Rightarrow>
        (let hb = hb\<lparr>hb_seq := hb_seq hb + 1\<rparr>;
             payload = JObject [(''version'', JString ''1.0''), (''source'', JString (hb_source_id hb)),
               (''type'', JString ''heartbeat''), (''timestamp'', JInteger ts),
               (''seq'', JUnsigned (unat (hb_seq hb))), (''status'', JString ''online'')]
         in (Some (pub, formatTopic (hb_topic_fmt hb) (hb_source_id hb), payload, hb_qos hb, hb_retain hb), hb)))"

section \<open>Topics\<close>

text \<open>The reference: from left to right every occurrence is replaced, and what was put in is not read again.\<close>

fun subst_source :: "string \<Rightarrow> string \<Rightarrow> string" where
  "subst_source source [] = []"
| "subst_source source (c # s) =
     (if prefix source_key (c # s) then source @ subst_source source (drop 7 s) else c # subst_source source s)"

lemma subst_source_none:
  "(\<And>j. j \<le> length s \<Longrightarrow> \<not> prefix source_key (drop j s)) \<Longrightarrow> subst_source source s = s"
proof (induction source s rule: subst_source.induct)
  case (2 source c s)
  have "\<not> prefix source_key (c # s)" using "2.prems" [of 0] by simp
  moreover have "subst_source source s = s"
    using "2.prems" [of "Suc _"] by (intro "2.IH"(2)) (use calculation in auto)
  ultimately show ?case by simp
qed simp

lemma subst_source_skip:
  "(\<And>j. j < k \<Longrightarrow> \<not> prefix source_key (drop j s)) \<Longrightarrow> k \<le> length s \<Longrightarrow>
   subst_source source s = take k s @ subst_source source (drop k s)"
proof (induction k arbitrary: s)
  case (Suc k)
  then obtain c s' where s: "s = c # s'" by (cases s) auto
  have "\<not> prefix source_key (c # s')" using Suc.prems(1) [of 0] s by simp
  moreover have "subst_source source s' = take k s' @ subst_source source (drop k s')"
    using Suc.prems(1) [of "Suc _"] Suc.prems(2) s by (intro Suc.IH) auto
  ultimately show ?case by (simp add: s)
qed simp

lemma subst_source_key: "prefix source_key s \<Longrightarrow> subst_source source s = source @ subst_source source (drop 8 s)"
  by (cases s) (auto simp: source_key_def)

lemma format_loop_subst:
  "format_loop (pre @ s) source (length pre) = pre @ subst_source source s"
proof (induction "length s" arbitrary: pre s rule: less_induct)
  case less
  show ?case
  proof (cases "find_from source_key (length pre) (pre @ s)")
    case None
    then have no: "\<not> prefix source_key (drop i (pre @ s))" if "length pre \<le> i" "i \<le> length (pre @ s)" for i
      using that by (auto simp: find_from_def find_None_iff simp del: drop_append upt_Suc)
    have "\<not> prefix source_key (drop j s)" if "j \<le> length s" for j
      using no [of "length pre + j"] that by simp
    from subst_source_none [OF this] show ?thesis using None by (simp add: format_loop.simps)
  next
    case (Some i)
    note f = find_from_Some [OF Some]
    define k where "k = i - length pre"
    have i: "i = length pre + k" using f by (simp add: k_def)
    have k: "prefix source_key (drop k s)" "k + 8 \<le> length s" using f i by simp_all
    have "\<not> prefix source_key (drop j s)" if "j < k" for j
    proof -
      have "\<not> prefix source_key (drop (length pre + j) (pre @ s))" using f that i by (auto simp del: drop_append)
      then show ?thesis by simp
    qed
    from subst_source_skip [OF this]
    have "subst_source source s = take k s @ subst_source source (drop k s)" using k(2) by simp
    also have "\<dots> = take k s @ source @ subst_source source (drop (k + 8) s)"
      using subst_source_key [OF k(1)] by (simp add: add.commute)
    finally have sub: "subst_source source s = take k s @ source @ subst_source source (drop (k + 8) s)" .
    have "format_loop (pre @ s) source (length pre) =
        format_loop ((pre @ take k s @ source) @ drop (k + 8) s) source (length (pre @ take k s @ source))"
      using Some i k(2) by (subst format_loop.simps) (simp add: min_def add.assoc)
    also have "\<dots> = (pre @ take k s @ source) @ subst_source source (drop (k + 8) s)"
      using k(2) by (intro less.hyps) simp
    finally show ?thesis using sub by simp
  qed
qed

text \<open>C37: The loop that fills a topic format, which searches and edits one string in place, replaces exactly the
  occurrences of \<open>{source}\<close> that a reading from left to right finds, and ends even when the source itself contains
  the placeholder.\<close>

theorem formatTopic_meets_spec: "formatTopic fmt source = subst_source source fmt"
  using format_loop_subst [of "[]" fmt source] by (simp add: formatTopic_def)

section \<open>What a round leaves\<close>

text \<open>Each round of the heartbeat whose document can be built leaves a snapshot with this process, this time and the time
  since \<open>Init\<close> under \<open>base\<close>, every other entry of the configured \<open>base\<close> as it was, and the configured \<open>extra\<close>.\<close>

theorem snapshot_after_round:
  assumes "BuildHeartbeat pid now edge_summary hb = (None, hb')"
  shows "\<exists>base. field (GetHeartbeatSnapshot hb') ''base'' = Some base \<and>
    field base ''pid'' = Some (JInteger pid) \<and> field base ''timestamp'' = Some (JInteger now) \<and>
    field base ''uptime_sec'' = Some (JInteger (now - hb_start_time hb)) \<and>
    (\<forall>key conf. field (hb_config hb) ''base'' = Some conf \<longrightarrow> key \<notin> {''pid'', ''timestamp'', ''uptime_sec''} \<longrightarrow>
       field base key = field conf key) \<and>
    field (GetHeartbeatSnapshot hb') ''extra'' =
      (case field (hb_config hb) ''extra'' of None \<Rightarrow> Some (JObject []) | Some v \<Rightarrow> Some v)"
proof -
  obtain b0 b1 b2 b3 extra where s: "value_json (hb_config hb) ''base'' (JObject []) = Inr b0"
    "set_field b0 ''pid'' (JInteger pid) = Inr b1" "set_field b1 ''timestamp'' (JInteger now) = Inr b2"
    "set_field b2 ''uptime_sec'' (JInteger (now - hb_start_time hb)) = Inr b3"
    "value_json (hb_config hb) ''extra'' (JObject []) = Inr extra"
    "hb_data hb' = JObject [(''base'', b3), (''extra'', extra)]"
    using assms by (auto simp: BuildHeartbeat_def ebind_eq_Inr_iff split: sum.splits)
  have nn: "b1 \<noteq> JNull" "b2 \<noteq> JNull" using s(2,3) by (cases b0; auto)+ 
  have conf: "field (hb_config hb) ''base'' = Some conf \<Longrightarrow> b0 = conf" for conf
    using s(1) by (auto simp: value_json_def split: if_splits)
  have e: "extra = (case field (hb_config hb) ''extra'' of None \<Rightarrow> JObject [] | Some v \<Rightarrow> v)"
    using s(5) by (auto simp: value_json_def split: if_splits option.splits)
  show ?thesis
    using s(6) e conf nn
    by (intro exI [of _ b3]) (auto simp: GetHeartbeatSnapshot_def field_set_field [OF s(2)] field_set_field [OF s(3)]
        field_set_field [OF s(4)] split: option.split)
qed

text \<open>The summary of the edge manager is collected in every round and then lost: it is written into the document that the
  same round replaces.\<close>

theorem edge_summary_lost:
  "BuildHeartbeat pid now edge_summary hb = (None, hb') \<Longrightarrow> field (GetHeartbeatSnapshot hb') ''edge_summary'' = None"
  by (auto simp: BuildHeartbeat_def GetHeartbeatSnapshot_def ebind_eq_Inr_iff split: sum.splits)

text \<open>An interval that is not positive means no wait at all between two rounds.\<close>

theorem no_wait_without_interval: "interval \<le> 0 \<Longrightarrow> heartbeat_wait interval 0 rs = 0"
  by (cases rs) simp_all

definition demo_heartbeat :: "unit heartbeat" where
  "demo_heartbeat = new_heartbeat\<lparr>hb_config := JObject [(''base'', JObject [(''site'', JString ''north'')])], hb_start_time := 100\<rparr>"

theorem snapshot_after_round_witness:
  "field (GetHeartbeatSnapshot (snd (BuildHeartbeat 42 160 JNull demo_heartbeat))) ''extra'' = Some (JObject [])"
proof -
  have b: "BuildHeartbeat 42 160 JNull demo_heartbeat = (None, snd (BuildHeartbeat 42 160 JNull demo_heartbeat))"
    by (simp add: BuildHeartbeat_def demo_heartbeat_def new_heartbeat_def value_json_def)
  show ?thesis using snapshot_after_round [OF b] by (auto simp: demo_heartbeat_def)
qed

end
