(* ===== verification/ServiceGuard.thy ===== *)
theory ServiceGuard
  imports Processes AirdropLock
begin

text \<open>
  The check for other instances at the start, \<open>src/tools/service_guard/ServiceGuard.cpp\<close>: the reading of the process list in
  pieces of the buffer of \<open>fgets\<close>, the decision what to do with the instances found, the same for the service
  manager, and the stop of an old process. The text that a shell command prints is an argument, no text
  is a command that could not be run; the sleeps are steps of the process interface.
\<close>

section \<open>Reading the output of a command\<close>

text \<open>One call of \<open>fgets\<close> with room for \<open>n\<close> characters: up to and with the first line feed, at most \<open>n - 1\<close>.\<close>

fun fgets :: "nat \<Rightarrow> string \<Rightarrow> string" where
  "fgets (Suc (Suc n)) (c # s) = (if c = CHR 0x0A then [c] else c # fgets (Suc n) s)"
| "fgets n s = []"

lemma fgets_length: "length (fgets n s) \<le> length s"
  by (induction n s rule: fgets.induct) auto

lemma fgets_Nil [simp]: "fgets n [] = []"
  by (cases "(n, [] :: string)" rule: fgets.cases) auto

function fgets_all :: "nat \<Rightarrow> string \<Rightarrow> string list" where
  "fgets_all n s = (if fgets n s = [] then [] else fgets n s # fgets_all n (drop (length (fgets n s)) s))"
  by pat_completeness auto

termination
proof (relation "measure (\<lambda>(n, s). length s)", goal_cases)
  case (2 n s)
  then have "s \<noteq> []" by auto
  then show ?case using 2 by (cases "fgets n s") simp_all
qed simp

declare fgets_all.simps [simp del]

definition ExecuteShell :: "string option \<Rightarrow> string option" where
  "ExecuteShell output = (case output of
      None \<Rightarrow> None
    | Some text \<Rightarrow> Some (filter (\<lambda>c. c \<noteq> CHR 0x0D) (filter (\<lambda>c. c \<noteq> CHR 0x0A) (concat (fgets_all 128 text)))))"

definition ExecuteShellLines :: "string option \<Rightarrow> string list" where
  "ExecuteShellLines output = (case output of None \<Rightarrow> [] | Some text \<Rightarrow> fgets_all 256 text)"

section \<open>Other instances\<close>

text \<open>The second word of a line, as \<open>>>\<close> reads it; empty when there is none.\<close>

definition next_word :: "string \<Rightarrow> string \<times> string" where
  "next_word s = (let s = dropWhile cisspace s in (takeWhile (\<lambda>c. \<not> cisspace c) s, dropWhile (\<lambda>c. \<not> cisspace c) s))"

definition pid_word :: "string \<Rightarrow> string" where
  "pid_word line = fst (next_word (snd (next_word line)))"

fun collect_pids :: "int \<Rightarrow> string list \<Rightarrow> airdrop_exn + int list" where
  "collect_pids my_pid [] = Inr []"
| "collect_pids my_pid (line # lines) =
     (if pid_word line = [] then collect_pids my_pid lines
      else ebind (stoi (pid_word line)) (\<lambda>found_pid.
        ebind (collect_pids my_pid lines) (\<lambda>others.
          Inr (if found_pid \<noteq> my_pid then found_pid # others else others))))"

datatype guard_outcome = Continue | ExitProgram | GaveUp

text \<open>The outcome and the processes that are sent \<open>SIGKILL\<close>. An exception is logged and the start goes on.\<close>

definition ExecuteByPS :: "bool \<Rightarrow> int \<Rightarrow> string option \<Rightarrow> guard_outcome \<times> int list" where
  "ExecuteByPS is_hard_setup my_pid output =
     (case collect_pids my_pid (ExecuteShellLines output) of
        Inl e \<Rightarrow> (GaveUp, [])
      | Inr other_pids \<Rightarrow>
          if other_pids \<noteq> [] then (if is_hard_setup then (Continue, other_pids) else (ExitProgram, []))
          else (Continue, []))"

definition Execute :: "bool \<Rightarrow> int \<Rightarrow> string option \<Rightarrow> guard_outcome \<times> int list" where
  "Execute is_hard_setup my_pid output = ExecuteByPS is_hard_setup my_pid output"

text \<open>By the service manager: the outcome and whether the service is told to stop.\<close>

definition ExecuteBySystemcal :: "bool \<Rightarrow> string option \<Rightarrow> string option \<Rightarrow> guard_outcome \<times> bool" where
  "ExecuteBySystemcal is_hard_setup check_output stop_output =
     (case ExecuteShell check_output of
        None \<Rightarrow> (GaveUp, False)
      | Some status \<Rightarrow>
          if status = ''active'' then
            (if is_hard_setup then (case ExecuteShell stop_output of None \<Rightarrow> (GaveUp, False) | Some out \<Rightarrow> (Continue, True))
             else (ExitProgram, False))
          else (Continue, False))"

section \<open>Old processes\<close>

definition IsProcessAlive :: "int \<Rightarrow> os \<Rightarrow> bool" where
  "IsProcessAlive pid w = kill0 pid w"

text \<open>The wait for the old process; true when it is gone in time.\<close>

fun kill_wait :: "nat \<Rightarrow> int \<Rightarrow> os \<Rightarrow> bool \<times> os" where
  "kill_wait 0 pid w = (False, w)"
| "kill_wait (Suc n) pid w = (if \<not> IsProcessAlive pid w then (True, w) else kill_wait n pid (sleep_ms 1000 w))"

definition KillOldProcess :: "int \<Rightarrow> os \<Rightarrow> os" where
  "KillOldProcess pid w =
     (if pid \<le> 1 then w
      else case kill_wait 5 pid (kill pid SIGTERM w) of
        (True, w) \<Rightarrow> w
      | (False, w) \<Rightarrow> if IsProcessAlive pid w then sleep_ms 1000 (kill pid SIGKILL w) else w)"

definition pid_file_path :: string where
  "pid_file_path = ''/tmp/my_pipeline_service.pid''"

text \<open>False when the file cannot be created and the code throws.\<close>

definition WritePidFile :: "bool \<Rightarrow> int \<Rightarrow> (string \<Rightarrow> string option) \<Rightarrow> bool \<times> (string \<Rightarrow> string option)" where
  "WritePidFile can_create my_pid files =
     (if \<not> can_create then (False, files) else (True, files(pid_file_path \<mapsto> int_to_string my_pid)))"

section \<open>Lines\<close>

definition text_line :: "string \<Rightarrow> bool" where
  "text_line l \<longleftrightarrow> (\<exists>body. l = body @ [CHR 0x0A] \<and> CHR 0x0A \<notin> set body)"

lemma fgets_line: "CHR 0x0A \<notin> set body \<Longrightarrow> length body + 1 < n \<Longrightarrow> fgets n (body @ CHR 0x0A # rest) = body @ [CHR 0x0A]"
proof (induction body arbitrary: n)
  case Nil
  then obtain k where "n = Suc (Suc k)" by (metis add_0 less_imp_Suc_add list.size(3) plus_1_eq_Suc add_Suc)
  then show ?case by simp
next
  case (Cons c body)
  then obtain k where k: "n = Suc (Suc k)" by (cases n; cases "n - 1") auto
  then show ?case using Cons by auto
qed

lemma fgets_all_lines:
  assumes "\<forall>l\<in>set ls. text_line l \<and> length l < n"
  shows "fgets_all n (concat ls) = ls"
  using assms
proof (induction ls)
  case Nil
  show ?case by (simp add: fgets_all.simps)
next
  case (Cons l ls)
  then obtain body where b: "l = body @ [CHR 0x0A]" "CHR 0x0A \<notin> set body" "length body + 1 < n"
    by (auto simp: text_line_def)
  have "fgets n (concat (l # ls)) = l" using fgets_line [OF b(2,3), of "concat ls"] b(1) by simp
  then show ?case using Cons b(1) by (subst fgets_all.simps) simp
qed

lemma fgets_prefix: "s = fgets n s @ drop (length (fgets n s)) s"
  by (induction n s rule: fgets.induct) auto

lemma fgets_some: "1 < n \<Longrightarrow> s \<noteq> [] \<Longrightarrow> fgets n s \<noteq> []"
  by (cases "(n, s)" rule: fgets.cases) auto

text \<open>However a text is cut into pieces, put together they are the text.\<close>

lemma fgets_all_concat: "1 < n \<Longrightarrow> concat (fgets_all n s) = s"
proof (induction n s rule: fgets_all.induct)
  case (1 n s)
  show ?case
  proof (cases "fgets n s = []")
    case True
    then have "s = []" using fgets_some [of n s] 1(2) by blast
    then show ?thesis by (simp add: fgets_all.simps)
  next
    case False
    have "concat (fgets_all n s) = fgets n s @ concat (fgets_all n (drop (length (fgets n s)) s))"
      using False by (subst fgets_all.simps) simp
    also have "\<dots> = s" using 1(1) [OF False 1(2)] fgets_prefix [of s n] by simp
    finally show ?thesis .
  qed
qed

lemma ExecuteShell_text:
  "ExecuteShell (Some text) = Some (filter (\<lambda>c. c \<noteq> CHR 0x0A \<and> c \<noteq> CHR 0x0D) text)"
  by (simp add: ExecuteShell_def fgets_all_concat conj_commute)

section \<open>The instances found\<close>

text \<open>A line of the process list: the user, the process number and the rest.\<close>

type_synonym ps_entry = "string \<times> nat \<times> nat \<times> string"

definition ps_line :: "ps_entry \<Rightarrow> string" where
  "ps_line e = (case e of (user, gap, pid, rest) \<Rightarrow>
     user @ replicate (Suc gap) CHR '' '' @ nat_to_string pid @ CHR '' '' # rest @ [CHR 0x0A])"

definition ps_pid :: "ps_entry \<Rightarrow> int" where
  "ps_pid e = (case e of (user, gap, pid, rest) \<Rightarrow> int pid)"

definition ps_entry_ok :: "ps_entry \<Rightarrow> bool" where
  "ps_entry_ok e \<longleftrightarrow> (case e of (user, gap, pid, rest) \<Rightarrow>
     user \<noteq> [] \<and> list_all (\<lambda>c. \<not> cisspace c) user \<and> pid < 2 ^ 31 \<and> CHR 0x0A \<notin> set rest \<and> length (ps_line e) < 256)"

lemma space_simps [simp]: "cisspace CHR '' ''" "cisspace CHR 0x0A"
  by (simp_all add: cisspace_def Let_def)

lemma next_word_word:
  assumes "word \<noteq> []" "list_all (\<lambda>c. \<not> cisspace c) word" "cisspace sp"
  shows "next_word (replicate k CHR '' '' @ word @ sp # tail) = (word, sp # tail)"
proof -
  have "dropWhile cisspace (replicate k CHR '' '' @ word @ sp # tail) = word @ sp # tail"
    using assms(1,2) by (induction k) (cases word; simp)+
  moreover have "takeWhile (\<lambda>c. \<not> cisspace c) (word @ sp # tail) = word"
    "dropWhile (\<lambda>c. \<not> cisspace c) (word @ sp # tail) = sp # tail"
    using assms(2,3) by (induction word) simp_all
  ultimately show ?thesis by (simp add: next_word_def)
qed

lemma pid_word_ps_line:
  assumes "ps_entry_ok e" shows "stoi (pid_word (ps_line e)) = Inr (ps_pid e) \<and> pid_word (ps_line e) \<noteq> []"
proof -
  obtain user gap pid rest where e: "e = (user, gap, pid, rest)" by (cases e) auto
  have ok: "user \<noteq> []" "list_all (\<lambda>c. \<not> cisspace c) user" "pid < 2 ^ 31" using assms e by (simp_all add: ps_entry_ok_def)
  have d: "nat_to_string pid \<noteq> []" "list_all cisdigit (nat_to_string pid)" using nat_to_string_digits by simp_all
  then have ns: "list_all (\<lambda>c. \<not> cisspace c) (nat_to_string pid)" using digit_not_space by (auto simp: list_all_iff)
  let ?t = "replicate gap CHR '' '' @ nat_to_string pid @ CHR '' '' # rest @ [CHR 0x0A]"
  have "next_word (ps_line e) = (user, CHR '' '' # ?t)"
    using next_word_word [of user "CHR '' ''" 0 ?t] ok by (simp add: ps_line_def e)
  moreover have "next_word (CHR '' '' # ?t) = (nat_to_string pid, CHR '' '' # rest @ [CHR 0x0A])"
    using next_word_word [OF d(1) ns, of "CHR '' ''" "Suc gap" "rest @ [CHR 0x0A]"] by simp
  ultimately have "pid_word (ps_line e) = nat_to_string pid" by (simp add: pid_word_def)
  then show ?thesis using stoi_digits [OF d] d(1) ok(3) by (simp add: decimal_nat_to_string ps_pid_def e)
qed

lemma collect_pids_entries:
  "list_all ps_entry_ok es \<Longrightarrow> collect_pids my_pid (map ps_line es) = Inr (filter (\<lambda>p. p \<noteq> my_pid) (map ps_pid es))"
  by (induction es) (simp_all add: pid_word_ps_line)

lemma ps_line_text: "ps_entry_ok e \<Longrightarrow> text_line (ps_line e) \<and> length (ps_line e) < 256"
proof -
  assume ok: "ps_entry_ok e"
  obtain user gap pid rest where e: "e = (user, gap, pid, rest)" by (cases e) auto
  have "CHR 0x0A \<notin> set (nat_to_string pid)"
    using nat_to_string_digits [of pid] digit_not_space [of "CHR 0x0A"] by (auto simp: list_all_iff)
  moreover have "CHR 0x0A \<notin> set user" "CHR 0x0A \<notin> set rest"
    using ok e by (auto simp: ps_entry_ok_def list_all_iff)
  ultimately have "text_line (ps_line e)"
    unfolding text_line_def e ps_line_def
    by (intro exI [of _ "user @ replicate (Suc gap) CHR '' '' @ nat_to_string pid @ CHR '' '' # rest"]) simp
  then show ?thesis using ok e by (simp add: ps_entry_ok_def)
qed

text \<open>When every line of the process list fits the buffer, the check at the start finds exactly the other instances: a hard
  start kills them all and nothing else and goes on, a normal start ends the program if there is one
  and goes on otherwise, and no process is killed in a normal start.\<close>

theorem guard_finds_other_instances:
  assumes "list_all ps_entry_ok es"
  shows "Execute hard my_pid (Some (concat (map ps_line es))) =
    (let others = filter (\<lambda>p. p \<noteq> my_pid) (map ps_pid es)
     in if others \<noteq> [] \<and> \<not> hard then (ExitProgram, []) else (Continue, others))"
proof -
  have "ExecuteShellLines (Some (concat (map ps_line es))) = map ps_line es"
    using assms ps_line_text by (simp add: ExecuteShellLines_def fgets_all_lines list_all_iff)
  then show ?thesis using collect_pids_entries [OF assms, of my_pid]
    by (simp add: Execute_def ExecuteByPS_def Let_def)
qed

theorem guard_finds_other_instances_witness:
  "Execute True 300 (Some (concat (map ps_line
     [(''root'', 4, 200, ''1 0 10:00 ? 00:00:01 fast_cpp_server''), (''root'', 4, 300, ''1 0 10:05 ? 00:00:00 fast_cpp_server'')]))) =
   (Continue, [200])"
  using guard_finds_other_instances [of "[(''root'', 4, 200, ''1 0 10:00 ? 00:00:01 fast_cpp_server''),
      (''root'', 4, 300, ''1 0 10:05 ? 00:00:00 fast_cpp_server'')]" True 300]
  by (simp add: ps_entry_ok_def ps_line_def ps_pid_def cisspace_def Let_def nat_to_string.simps)

text \<open>A line longer than the buffer is read as two lines: the second word of its tail is taken for a process
  number, and the process that has it is killed.\<close>

lemma fgets_full: "CHR 0x0A \<notin> set a \<Longrightarrow> fgets (Suc (length a)) (a @ rest) = a"
  by (induction a) auto

theorem long_line_kills_stranger:
  assumes "CHR 0x0A \<notin> set a" "length a = 255" "text_line b" "length b < 256"
    and "pid_word a \<noteq> []" "stoi (pid_word a) = Inr p" "pid_word b \<noteq> []" "stoi (pid_word b) = Inr q" "q \<noteq> my_pid"
  shows "q \<in> set (snd (Execute True my_pid (Some (a @ b))))"
proof -
  have f: "fgets 256 (a @ b) = a" using fgets_full [OF assms(1), of b] assms(2) by simp
  have b: "fgets_all 256 b = [b]" using fgets_all_lines [of "[b]" 256] assms(3,4) by simp
  have "a \<noteq> []" using assms(2) by auto
  then have "fgets_all 256 (a @ b) = [a, b]" using f b by (subst fgets_all.simps) simp
  then show ?thesis using assms(5-9) by (simp add: Execute_def ExecuteByPS_def ExecuteShellLines_def)
qed

text \<open>A line whose second word is no number ends the check with nobody killed, and the start goes on beside the other instances.\<close>

theorem bad_line_disables_guard:
  assumes "fgets_all 256 text = [good, bad]" "pid_word good \<noteq> []" "stoi (pid_word good) = Inr p"
    and "pid_word bad \<noteq> []" "stoi (pid_word bad) = Inl e"
  shows "Execute hard my_pid (Some text) = (GaveUp, [])"
  using assms by (simp add: Execute_def ExecuteByPS_def ExecuteShellLines_def)

section \<open>Stopping an old process\<close>

lemma kill_wait_frame: "kill_wait n pid w = (b, w') \<Longrightarrow> (os_procs w' q = Gone \<longleftrightarrow> os_procs w q = Gone) \<and> (b \<longrightarrow> os_procs w' pid = Gone)"
  by (induction n arbitrary: w) (auto simp: IsProcessAlive_def kill0_def split: if_splits)

text \<open>A process that does not end in time is sent \<open>SIGKILL\<close>; no process with a number up to 1 is ever touched.\<close>

theorem KillOldProcess_ends:
  "if pid \<le> 1 then KillOldProcess pid w = w else os_procs (KillOldProcess pid w) pid \<noteq> Live"
proof (cases "pid \<le> 1")
  case True
  then show ?thesis by (simp add: KillOldProcess_def)
next
  case False
  obtain b w1 where k: "kill_wait 5 pid (kill pid SIGTERM w) = (b, w1)" by fastforce
  note f = kill_wait_frame [OF k]
  have "os_procs (sleep_ms 1000 (kill pid SIGKILL w1)) pid \<noteq> Live" if "os_procs w1 pid \<noteq> Gone"
    using that by (auto simp: kill_def sleep_ms_def age_def split: proc_state.split)
  note killed = this
  show ?thesis
  proof (cases "os_procs w1 pid = Gone")
    case True
    then have "KillOldProcess pid w = w1"
      using False k by (cases b) (simp_all add: KillOldProcess_def IsProcessAlive_def kill0_def)
    then show ?thesis using False True by simp
  next
    case there: False
    then have "\<not> b" using f by blast
    then show ?thesis using False k killed [OF there] there
      by (simp add: KillOldProcess_def IsProcessAlive_def kill0_def)
  qed
qed

end
