(* ===== verification/Calendar.thy ===== *)
theory Calendar
  imports Prelude
begin

text \<open>
  The Gregorian calendar as \<open>MyDateTime.cpp\<close> and the C library see it: \<open>IsLeapYear\<close> and
  \<open>DaysInMonth\<close> are the functions of the source; \<open>struct tm\<close>, \<open>gmtime_r\<close> and the inverse the
  C library uses inside \<open>mktime\<close> are those of the C standard, which this theory writes out: the day
  count of a date, and the date of a day count. The two are inverse to each other on the dates that
  \<open>DaysInMonth\<close> allows (\<open>date_of_day_of_date\<close>, \<open>day_of_date_of_day\<close>); everything later in the
  date part rests on these two facts.

  An \<open>int\<close> or \<open>time_t\<close> is an integer here; the functions of \<open>DateTime\<close> check the width where the
  code computes with one.
\<close>

section \<open>The functions of the source\<close>

definition cmod :: "int \<Rightarrow> int \<Rightarrow> int" where
  "cmod a b = a - cdiv a b * b"

definition IsLeapYear :: "int \<Rightarrow> bool" where
  "IsLeapYear year \<longleftrightarrow> (cmod year 4 = 0 \<and> cmod year 100 \<noteq> 0) \<or> cmod year 400 = 0"

definition month_days :: "int list" where
  "month_days = [31, 28, 31, 30, 31, 30, 31, 31, 30, 31, 30, 31]"

definition DaysInMonth :: "int \<Rightarrow> int \<Rightarrow> int" where
  "DaysInMonth year month =
     (if month < 1 \<or> month > 12 then 0
      else if month = 2 \<and> IsLeapYear year then 29
      else month_days ! nat (month - 1))"

lemma cmod_eq_0_iff: "0 < b \<Longrightarrow> cmod a b = 0 \<longleftrightarrow> a mod b = 0"
proof -
  assume b: "0 < b"
  have "cmod a b = (if a < 0 then - ((- a) mod b) else a mod b)"
    using minus_div_mult_eq_mod [of "- a" b] minus_div_mult_eq_mod [of a b]
    unfolding cmod_def cdiv_def by (cases "a < 0") simp_all
  then show ?thesis
    by (simp add: mod_eq_0_iff_dvd)
qed

lemma IsLeapYear_mod: "IsLeapYear y \<longleftrightarrow> (y mod 4 = 0 \<and> y mod 100 \<noteq> 0) \<or> y mod 400 = 0"
  by (simp add: IsLeapYear_def cmod_eq_0_iff)

lemma month_cases:
  assumes "1 \<le> (m :: int)" "m \<le> 12"
  obtains "m = 1" | "m = 2" | "m = 3" | "m = 4" | "m = 5" | "m = 6" | "m = 7" | "m = 8" | "m = 9"
    | "m = 10" | "m = 11" | "m = 12"
proof -
  have "m = 1 \<or> m = 2 \<or> m = 3 \<or> m = 4 \<or> m = 5 \<or> m = 6 \<or> m = 7 \<or> m = 8 \<or> m = 9 \<or> m = 10 \<or>
      m = 11 \<or> m = 12"
    using assms by presburger
  then show thesis using that by blast
qed

lemma DaysInMonth_bounds: "1 \<le> m \<Longrightarrow> m \<le> 12 \<Longrightarrow> 28 \<le> DaysInMonth y m \<and> DaysInMonth y m \<le> 31"
  by (erule month_cases, assumption) (simp_all add: DaysInMonth_def month_days_def)

section \<open>Years\<close>

text \<open>Days from 0001-01-01 to the first of January of a year.\<close>

definition days_before_year :: "int \<Rightarrow> int" where
  "days_before_year y = 365 * (y - 1) + (y - 1) div 4 - (y - 1) div 100 + (y - 1) div 400"

definition year_length :: "int \<Rightarrow> int" where
  "year_length y = (if IsLeapYear y then 366 else 365)"

lemma div_pred: "0 < b \<Longrightarrow> y div b = (y - 1) div b + (if y mod b = 0 then 1 else 0)" for y b :: int
proof -
  assume b: "0 < b"
  show ?thesis
  proof (cases "y mod b = 0")
    case True
    then obtain k where "y = b * k" by (auto simp: mod_eq_0_iff_dvd)
    moreover have "(b * k - 1) div b = k - 1"
      using b by (intro int_div_pos_eq [of _ _ _ "b - 1"]) (simp_all add: algebra_simps)
    ultimately show ?thesis using True b by simp
  next
    case False
    have "y = b * (y div b) + y mod b" by simp
    moreover have "0 < y mod b" "y mod b < b" using False b by (simp_all add: order_neq_le_trans)
    ultimately have "(y - 1) div b = y div b"
      by (intro int_div_pos_eq [of _ _ _ "y mod b - 1"]) simp_all
    then show ?thesis using False by simp
  qed
qed

lemma leap_count:
  fixes y :: int
  assumes "a = a' + (if p then 1 else 0)" "b = b' + (if q then 1 else 0)" "c = c' + (if r then 1 else 0)"
    and "q \<Longrightarrow> p" "r \<Longrightarrow> q"
  shows "365 * y + a - b + c
    = 365 * (y - 1) + a' - b' + c' + (if p \<and> \<not> q \<or> r then 366 else 365)"
  using assms by (cases p; cases q; cases r) simp_all

lemma days_before_year_Suc: "days_before_year (y + 1) = days_before_year y + year_length y"
proof -
  have "y mod 100 = 0 \<Longrightarrow> y mod 4 = 0" "y mod 400 = 0 \<Longrightarrow> y mod 100 = 0" by presburger+
  then show ?thesis
    unfolding days_before_year_def year_length_def IsLeapYear_mod add_diff_cancel_right'
    by (rule leap_count [OF div_pred div_pred div_pred, rotated 3]) simp_all
qed

lemma mean_year:
  fixes y :: int
  assumes "4 * a + r = y" "0 \<le> r" "r < 4" "100 * b + s = y" "0 \<le> s" "s < 100"
    "400 * c + t = y" "0 \<le> t" "t < 400"
  shows "400 * (365 * y + a - b + c) \<le> 146097 * y + 1200 \<and> 146097 * y - 1200 \<le> 400 * (365 * y + a - b + c)"
  using assms by auto

lemma days_before_year_bounds:
  "400 * days_before_year (y + 1) \<le> 146097 * y + 1200 \<and> 146097 * y - 1200 \<le> 400 * days_before_year (y + 1)"
  unfolding days_before_year_def add_diff_cancel_right'
  by (rule mean_year [OF mult_div_mod_eq _ _ mult_div_mod_eq _ _ mult_div_mod_eq]) simp_all

text \<open>The year of a day, counted from 0001-01-01: an estimate by the mean year, then a correction.\<close>

definition year_of_day :: "int \<Rightarrow> int" where
  "year_of_day n =
     (let y = 400 * n div 146097 + 1
      in if n < days_before_year y then y - 1
         else if days_before_year (y + 1) \<le> n then y + 1 else y)"

lemma year_length_pos: "365 \<le> year_length y \<and> year_length y \<le> 366"
  by (simp add: year_length_def)

lemma year_of_day_correct:
  "days_before_year (year_of_day n) \<le> n \<and> n < days_before_year (year_of_day n) + year_length (year_of_day n)"
proof -
  define q where "q = 400 * n div 146097"
  have q: "146097 * q \<le> 400 * n" "400 * n < 146097 * (q + 1)"
    using mult_div_mod_eq [of 146097 "400 * n"] pos_mod_bound [of 146097 "400 * n"]
      pos_mod_sign [of 146097 "400 * n"] unfolding q_def distrib_left by (simp_all del: mult_div_mod_eq)
  have lo: "days_before_year q \<le> n"
    using days_before_year_bounds [of q] q(1) days_before_year_Suc [of q] year_length_pos [of q] by simp
  have hi: "n < days_before_year (q + 3)"
    using days_before_year_bounds [of "q + 1"] q(2) days_before_year_Suc [of "q + 2"]
      year_length_pos [of "q + 2"] by (simp add: algebra_simps)
  show ?thesis
    using lo hi days_before_year_Suc [of q] days_before_year_Suc [of "q + 1"] days_before_year_Suc [of "q + 2"]
    by (auto simp: year_of_day_def q_def [symmetric] Let_def add.assoc)
qed

lemma days_before_year_mono: "y \<le> z \<Longrightarrow> days_before_year y \<le> days_before_year z"
proof (induction z rule: int_ge_induct)
  case (step i)
  then show ?case using days_before_year_Suc [of i] year_length_pos [of i] by simp
qed simp

lemma year_of_day_unique:
  assumes "days_before_year y \<le> n" "n < days_before_year (y + 1)"
  shows "year_of_day n = y"
proof (rule ccontr)
  assume "year_of_day n \<noteq> y"
  then consider "year_of_day n + 1 \<le> y" | "y + 1 \<le> year_of_day n" by linarith
  then show False
  proof cases
    case 1
    then show False
      using days_before_year_mono [OF 1] year_of_day_correct [of n] assms(1)
        days_before_year_Suc [of "year_of_day n"] by simp
  next
    case 2
    then show False using days_before_year_mono [OF 2] year_of_day_correct [of n] assms(2) by simp
  qed
qed

section \<open>Months\<close>

text \<open>Days of a year before its \<open>k\<close>+1st month.\<close>

primrec days_before_month :: "int \<Rightarrow> nat \<Rightarrow> int" where
  "days_before_month y 0 = 0"
| "days_before_month y (Suc k) = days_before_month y k + DaysInMonth y (int k + 1)"

text \<open>From month \<open>m\<close> on, with \<open>d\<close> days left: the month and the day in it (from 0).\<close>

function find_month :: "int \<Rightarrow> int \<Rightarrow> int \<Rightarrow> int \<times> int" where
  "find_month y m d = (if m \<ge> 12 \<or> d < DaysInMonth y m then (m, d) else find_month y (m + 1) (d - DaysInMonth y m))"
  by pat_completeness auto
termination
  by (relation "measure (\<lambda>(y, m, d). nat (12 - m))") auto

declare find_month.simps [simp del]

lemma days_before_month_12: "days_before_month y 12 = year_length y"
  by (simp add: eval_nat_numeral year_length_def DaysInMonth_def month_days_def)

lemma find_month_sound:
  assumes "1 \<le> m" "m \<le> 12" "0 \<le> d" "days_before_month y (nat (m - 1)) + d < year_length y"
    and "find_month y m d = (m', d')"
  shows "1 \<le> m' \<and> m' \<le> 12 \<and> 0 \<le> d' \<and> d' < DaysInMonth y m' \<and>
    days_before_month y (nat (m' - 1)) + d' = days_before_month y (nat (m - 1)) + d"
  using assms
proof (induction y m d rule: find_month.induct)
  case (1 y m d)
  have s: "nat m = Suc (nat (m - 1))" using 1(2) by simp
  have step: "days_before_month y (nat m) = days_before_month y (nat (m - 1)) + DaysInMonth y m"
    using 1(2) by (simp add: s)
  show ?case
  proof (cases "m \<ge> 12 \<or> d < DaysInMonth y m")
    case True
    have "d < DaysInMonth y m" if "m = 12"
      using 1(5) step that by (simp add: days_before_month_12)
    then show ?thesis using True 1 by (auto simp: find_month.simps [of y m])
  next
    case False
    then show ?thesis using 1(1) [OF False] 1(2-6) step by (simp add: find_month.simps [of y m])
  qed
qed

lemma days_before_month_mono: "k \<le> l \<Longrightarrow> l \<le> 12 \<Longrightarrow> days_before_month y k \<le> days_before_month y l"
proof (induction l rule: dec_induct)
  case (step l)
  then show ?case using DaysInMonth_bounds [of "int l + 1" y] by simp
qed simp

lemma month_unique:
  assumes "1 \<le> m" "m \<le> 12" "0 \<le> d" "d < DaysInMonth y m"
    and "1 \<le> m'" "m' \<le> 12" "0 \<le> d'" "d' < DaysInMonth y m'"
    and "days_before_month y (nat (m - 1)) + d = days_before_month y (nat (m' - 1)) + d'"
  shows "m = m' \<and> d = d'"
proof -
  have suc: "days_before_month y (nat x) = days_before_month y (nat (x - 1)) + DaysInMonth y x"
    if "1 \<le> x" for x
  proof -
    have "nat x = Suc (nat (x - 1))" using that by simp
    then show ?thesis using that by simp
  qed
  have below: "days_before_month y (nat x) \<le> days_before_month y (nat (x' - 1))"
    if "1 \<le> x" "x < x'" "x' \<le> 12" for x x'
    using that by (intro days_before_month_mono) simp_all
  have "\<not> m < m'"
    using below [of m m'] suc [of m] assms by auto
  moreover have "\<not> m' < m"
    using below [of m' m] suc [of m'] assms by auto
  ultimately show ?thesis using assms(9) by auto
qed

section \<open>Dates\<close>

text \<open>1970-01-01 is day 719162 from 0001-01-01.\<close>

definition valid_date :: "int \<Rightarrow> int \<Rightarrow> int \<Rightarrow> bool" where
  "valid_date y m d \<longleftrightarrow> 1 \<le> m \<and> m \<le> 12 \<and> 1 \<le> d \<and> d \<le> DaysInMonth y m"

definition day_of_date :: "int \<Rightarrow> int \<Rightarrow> int \<Rightarrow> int" where
  "day_of_date y m d = days_before_year y + days_before_month y (nat (m - 1)) + (d - 1) - 719162"

definition date_of_day :: "int \<Rightarrow> int \<times> int \<times> int" where
  "date_of_day n =
     (let y = year_of_day (n + 719162);
          (m, d) = find_month y 1 (n + 719162 - days_before_year y)
      in (y, m, d + 1))"

lemma find_month_year:
  "find_month y 1 k = (m', d') \<Longrightarrow> 0 \<le> k \<Longrightarrow> k < year_length y \<Longrightarrow>
    1 \<le> m' \<and> m' \<le> 12 \<and> 0 \<le> d' \<and> d' < DaysInMonth y m' \<and> days_before_month y (nat (m' - 1)) + d' = k"
  using find_month_sound [of 1 k y m' d'] by simp

theorem day_of_date_of_day:
  "date_of_day n = (y, m, d) \<Longrightarrow> valid_date y m d \<and> day_of_date y m d = n"
proof -
  assume e: "date_of_day n = (y, m, d)"
  define k where "k = n + 719162 - days_before_year y"
  have y: "y = year_of_day (n + 719162)" and f: "find_month y 1 k = (m, d - 1)"
    using e by (auto simp: date_of_day_def Let_def k_def split: prod.splits)
  have "0 \<le> k" "k < year_length y"
    using year_of_day_correct [of "n + 719162"] by (simp_all add: y k_def)
  from find_month_year [OF f this] show ?thesis
    by (simp add: valid_date_def day_of_date_def k_def)
qed

lemma day_of_year_range:
  assumes "valid_date y m d"
  shows "0 \<le> days_before_month y (nat (m - 1)) + (d - 1) \<and>
    days_before_month y (nat (m - 1)) + (d - 1) < year_length y"
proof -
  have s: "nat m = Suc (nat (m - 1))" using assms unfolding valid_date_def by linarith
  have "days_before_month y (nat m) \<le> year_length y"
    using days_before_month_mono [of "nat m" 12 y] assms
    by (simp only: valid_date_def days_before_month_12 order_refl nat_le_iff of_nat_numeral)
  moreover have "0 \<le> days_before_month y (nat (m - 1))"
    using days_before_month_mono [of 0 "nat (m - 1)" y] assms
    by (simp add: valid_date_def nat_le_iff)
  ultimately show ?thesis using assms by (simp add: valid_date_def s)
qed

theorem date_of_day_of_date:
  assumes v: "valid_date y m d"
  shows "date_of_day (day_of_date y m d) = (y, m, d)"
proof -
  obtain y' m' d' where e: "date_of_day (day_of_date y m d) = (y', m', d')" by (cases "date_of_day (day_of_date y m d)")
  note r = day_of_date_of_day [OF e]
  have yy: "year_of_day (day_of_date y m d + 719162) = y"
    using day_of_year_range [OF v] days_before_year_Suc [of y]
    by (intro year_of_day_unique) (simp_all add: day_of_date_def)
  then have "y' = y" using e by (auto simp: date_of_day_def Let_def split: prod.splits)
  moreover have "m = m' \<and> d - 1 = d' - 1"
    by (rule month_unique [of _ _ y]) (use r v calculation in \<open>auto simp: valid_date_def day_of_date_def\<close>)
  ultimately show ?thesis using e by simp
qed

section \<open>struct tm\<close>

record tm =
  tm_sec :: int
  tm_min :: int
  tm_hour :: int
  tm_mday :: int
  tm_mon :: int
  tm_year :: int
  tm_wday :: int
  tm_yday :: int
  tm_isdst :: int

text \<open>\<open>int\<close> and \<open>int64_t\<close>.\<close>

definition fits32 :: "int \<Rightarrow> bool" where
  "fits32 v \<longleftrightarrow> - (2 ^ 31) \<le> v \<and> v < 2 ^ 31"

definition fits64 :: "int \<Rightarrow> bool" where
  "fits64 v \<longleftrightarrow> - (2 ^ 63) \<le> v \<and> v < 2 ^ 63"

text \<open>The broken-down time of a second count, as \<open>gmtime_r\<close> and \<open>localtime_r\<close> give it: it fails
  (\<open>NULL\<close>) when the year does not fit an \<open>int\<close>.\<close>

definition broken_down :: "int \<Rightarrow> int \<Rightarrow> tm option" where
  "broken_down isdst t =
     (let (y, m, d) = date_of_day (t div 86400); s = t mod 86400
      in if fits32 (y - 1900) then
           Some \<lparr>tm_sec = s mod 60, tm_min = s div 60 mod 60, tm_hour = s div 3600, tm_mday = d,
             tm_mon = m - 1, tm_year = y - 1900, tm_wday = (t div 86400 + 4) mod 7,
             tm_yday = day_of_date y m d - day_of_date y 1 1, tm_isdst = isdst\<rparr>
         else None)"

text \<open>The second count of a broken-down time: month and day may be out of range, as \<open>mktime\<close>
  allows.\<close>

definition seconds_of_tm :: "tm \<Rightarrow> int" where
  "seconds_of_tm x =
     (let y = tm_year x + 1900 + tm_mon x div 12
      in 86400 * (day_of_date y (tm_mon x mod 12 + 1) 1 + (tm_mday x - 1))
           + 3600 * tm_hour x + 60 * tm_min x + tm_sec x)"

lemma day_of_date_add: "day_of_date y m 1 + (d - 1) = day_of_date y m d"
  by (simp add: day_of_date_def)

lemma clock_split:
  fixes s :: int
  shows "3600 * (s div 3600) + 60 * (s div 60 mod 60) + s mod 60 = s"
proof -
  have "s div 3600 = s div 60 div 60" by (simp add: zdiv_zmult2_eq [symmetric])
  moreover have "60 * (s div 60 div 60) + s div 60 mod 60 = s div 60" by simp
  moreover have "60 * (s div 60) + s mod 60 = s" by simp
  ultimately show ?thesis by linarith
qed

lemma seconds_of_broken_down: "broken_down i t = Some x \<Longrightarrow> seconds_of_tm (x\<lparr>tm_isdst := j\<rparr>) = t"
proof -
  assume b: "broken_down i t = Some x"
  obtain y m d where e: "date_of_day (t div 86400) = (y, m, d)" by (cases "date_of_day (t div 86400)")
  from day_of_date_of_day [OF e] have v: "valid_date y m d" and n: "day_of_date y m d = t div 86400" by simp_all
  define s where "s = t mod 86400"
  have x: "x = \<lparr>tm_sec = s mod 60, tm_min = s div 60 mod 60, tm_hour = s div 3600, tm_mday = d,
      tm_mon = m - 1, tm_year = y - 1900, tm_wday = (t div 86400 + 4) mod 7,
      tm_yday = day_of_date y m d - day_of_date y 1 1, tm_isdst = i\<rparr>"
    using b by (simp add: broken_down_def e Let_def s_def split: if_splits)
  have m: "(m - 1) div 12 = 0" "(m - 1) mod 12 = m - 1" using v by (simp_all add: valid_date_def)
  have "seconds_of_tm (x\<lparr>tm_isdst := j\<rparr>)
      = 86400 * (day_of_date y m 1 + (d - 1)) + (3600 * (s div 3600) + 60 * (s div 60 mod 60) + s mod 60)"
    by (simp add: seconds_of_tm_def x m)
  also have "\<dots> = 86400 * (t div 86400) + s"
    unfolding clock_split day_of_date_add n ..
  also have "\<dots> = t" unfolding s_def by simp
  finally show ?thesis .
qed

end
