(* ===== verification/DateTime.thy ===== *)
theory DateTime
  imports Calendar Json
begin

text \<open>
  \<open>DateTimeTools\<close> of \<open>util/my_tools/MyDateTime.cpp\<close>: splitting a time stamp into seconds and a
  fraction, text from a time stamp and back, the calendar questions and the arithmetic on time stamps.

  The time zone of the machine is an argument: what \<open>localtime_r\<close> and \<open>mktime\<close> answer, and the
  conversions of \<open>put_time\<close> that depend on the locale. The laws a zone without repeated hours has
  are the locale \<open>plain_zone\<close>; every zone with a fixed offset from UTC is an instance. The current
  time is an argument of the functions that read the clock. A computation that leaves \<open>int\<close> or
  \<open>int64_t\<close> is undefined behaviour, an error value.
\<close>

section \<open>Time zones\<close>

record zone =
  z_local :: "int \<Rightarrow> tm option"
  z_mktime :: "tm \<Rightarrow> int"
  z_conv :: "string \<Rightarrow> tm \<Rightarrow> string"

text \<open>A zone that is \<open>off\<close> seconds ahead of UTC the whole year. \<open>mktime\<close> answers -1 when the
  normalised year does not fit.\<close>

definition fixed_zone :: "(string \<Rightarrow> tm \<Rightarrow> string) \<Rightarrow> int \<Rightarrow> zone" where
  "fixed_zone conv off =
     \<lparr>z_local = (\<lambda>t. broken_down 0 (t + off)),
      z_mktime = (\<lambda>x. let t = seconds_of_tm x - off
                      in if broken_down 0 (t + off) = None then - 1 else t),
      z_conv = conv\<rparr>"

definition LocalTime :: "zone \<Rightarrow> int \<Rightarrow> tm option" where
  "LocalTime z seconds = z_local z seconds"

definition GmTime :: "int \<Rightarrow> tm option" where
  "GmTime seconds = broken_down 0 seconds"

definition chk64 :: "int \<Rightarrow> cxx_error + int" where
  "chk64 v = (if fits64 v then Inr v else Inl UndefinedBehaviour)"

section \<open>From a time stamp to text\<close>

definition SplitTimestamp :: "int \<Rightarrow> int \<Rightarrow> int \<times> int" where
  "SplitTimestamp timestamp unit_per_second =
     (let sec = cdiv timestamp unit_per_second; frac = cmod timestamp unit_per_second
      in if frac < 0 then (sec - 1, frac + unit_per_second) else (sec, frac))"

definition zero_pad :: "nat \<Rightarrow> string \<Rightarrow> string" where
  "zero_pad width s = replicate (width - length s) (CHR ''0'') @ s"

definition FormatFraction :: "int \<Rightarrow> nat \<Rightarrow> string" where
  "FormatFraction value width = zero_pad width (int_to_string value)"

text \<open>\<open>std::put_time\<close>: the conversions the default formats use are written out.\<close>

definition put_conv :: "zone \<Rightarrow> tm \<Rightarrow> char \<Rightarrow> string" where
  "put_conv z x c =
     (if c = CHR ''Y'' then int_to_string (tm_year x + 1900)
      else if c = CHR ''m'' then zero_pad 2 (int_to_string (tm_mon x + 1))
      else if c = CHR ''d'' then zero_pad 2 (int_to_string (tm_mday x))
      else if c = CHR ''H'' then zero_pad 2 (int_to_string (tm_hour x))
      else if c = CHR ''M'' then zero_pad 2 (int_to_string (tm_min x))
      else if c = CHR ''S'' then zero_pad 2 (int_to_string (tm_sec x))
      else if c = CHR ''%'' then ''%''
      else z_conv z [c] x)"

fun FormatTm :: "zone \<Rightarrow> tm \<Rightarrow> string \<Rightarrow> string" where
  "FormatTm z x [] = []"
| "FormatTm z x [c] = (if c = CHR ''%'' then [] else [c])"
| "FormatTm z x (c # e # f) =
     (if c \<noteq> CHR ''%'' then c # FormatTm z x (e # f)
      else if e = CHR ''E'' \<or> e = CHR ''O'' then
        (case f of [] \<Rightarrow> [] | g # rest \<Rightarrow> z_conv z [e, g] x @ FormatTm z x rest)
      else put_conv z x e @ FormatTm z x f)"

definition FormatLocal :: "zone \<Rightarrow> int \<Rightarrow> string \<Rightarrow> string" where
  "FormatLocal z seconds format =
     (case LocalTime z seconds of None \<Rightarrow> [] | Some x \<Rightarrow> FormatTm z x format)"

definition FormatWithFraction :: "zone \<Rightarrow> int \<Rightarrow> int \<Rightarrow> nat \<Rightarrow> string \<Rightarrow> string" where
  "FormatWithFraction z timestamp unit_per_second width format =
     (let (seconds, fraction) = SplitTimestamp timestamp unit_per_second;
          base = FormatLocal z seconds format
      in if base = [] then [] else base @ CHR ''.'' # FormatFraction fraction width)"

definition default_format :: string where
  "default_format = ''%Y-%m-%d %H:%M:%S''"

definition Format :: "zone \<Rightarrow> int \<Rightarrow> string \<Rightarrow> string" where
  "Format z seconds format = FormatLocal z seconds format"

definition FormatMs :: "zone \<Rightarrow> int \<Rightarrow> string \<Rightarrow> string" where
  "FormatMs z milliseconds format = FormatWithFraction z milliseconds 1000 3 format"

definition FormatUs :: "zone \<Rightarrow> int \<Rightarrow> string \<Rightarrow> string" where
  "FormatUs z microseconds format = FormatWithFraction z microseconds 1000000 6 format"

definition FormatNs :: "zone \<Rightarrow> int \<Rightarrow> string \<Rightarrow> string" where
  "FormatNs z nanoseconds format = FormatWithFraction z nanoseconds 1000000000 9 format"

definition GetTimestamp :: "int \<Rightarrow> string" where
  "GetTimestamp now = int_to_string now"

definition GetUtcTime :: "zone \<Rightarrow> int \<Rightarrow> string" where
  "GetUtcTime z now = (case GmTime now of None \<Rightarrow> [] | Some x \<Rightarrow> FormatTm z x ''%Y-%m-%d %H:%M:%S'')"

definition Today :: "zone \<Rightarrow> int \<Rightarrow> string" where
  "Today z now = Format z now ''%Y-%m-%d''"

section \<open>From text to a time stamp\<close>

text \<open>\<open>std::sscanf\<close>, with the directives of the format the code uses.\<close>

datatype directive = Literal char | Blanks | Conv_d | Conv_c

definition scan_int :: "string \<Rightarrow> cxx_error + (int \<times> string) option" where
  "scan_int s0 =
     (let s1 = dropWhile cisspace s0;
          negative = (case s1 of c # cs \<Rightarrow> c = CHR ''-'' | [] \<Rightarrow> False);
          s2 = (case s1 of c # cs \<Rightarrow> if c = CHR ''-'' \<or> c = CHR ''+'' then cs else s1 | [] \<Rightarrow> []);
          ds = takeWhile cisdigit s2;
          v = (if negative then - int (decimal 0 ds) else int (decimal 0 ds))
      in if ds = [] then Inr None
         else if fits32 v then Inr (Some (v, dropWhile cisdigit s2))
         else Inl UndefinedBehaviour)"

fun sscanf :: "directive list \<Rightarrow> string \<Rightarrow> cxx_error + int list" where
  "sscanf [] s = Inr []"
| "sscanf (Literal c # ds) s =
     (case s of [] \<Rightarrow> Inr [] | x # xs \<Rightarrow> if x = c then sscanf ds xs else Inr [])"
| "sscanf (Blanks # ds) s = sscanf ds (dropWhile cisspace s)"
| "sscanf (Conv_d # ds) s =
     ebind (scan_int s) (\<lambda>r. case r of None \<Rightarrow> Inr []
       | Some (v, rest) \<Rightarrow> ebind (sscanf ds rest) (\<lambda>vs. Inr (v # vs)))"
| "sscanf (Conv_c # ds) s =
     (case s of [] \<Rightarrow> Inr [] | x # xs \<Rightarrow> ebind (sscanf ds xs) (\<lambda>vs. Inr (of_char x # vs)))"

definition datetime_directives :: "directive list" where
  "datetime_directives =
     [Conv_d, Literal (CHR ''-''), Conv_d, Literal (CHR ''-''), Conv_d, Blanks,
      Conv_d, Literal (CHR '':''), Conv_d, Literal (CHR '':''), Conv_d, Conv_c]"

definition find_dot :: "string \<Rightarrow> nat option" where
  "find_dot s = (let k = length (takeWhile (\<lambda>c. c \<noteq> CHR ''.'') s) in if k < length s then Some k else None)"

definition substr_to :: "string \<Rightarrow> nat option \<Rightarrow> string" where
  "substr_to s dot_pos = (case dot_pos of None \<Rightarrow> s | Some k \<Rightarrow> take k s)"

definition c_str :: "string \<Rightarrow> string" where
  "c_str s = takeWhile (\<lambda>c. c \<noteq> CHR 0x00) s"

definition parsed_tm :: "int \<Rightarrow> int \<Rightarrow> int \<Rightarrow> int \<Rightarrow> int \<Rightarrow> int \<Rightarrow> tm" where
  "parsed_tm year month day hour minute second =
     \<lparr>tm_sec = second, tm_min = minute, tm_hour = hour, tm_mday = day, tm_mon = month - 1,
      tm_year = year - 1900, tm_wday = 0, tm_yday = 0, tm_isdst = - 1\<rparr>"

definition checked_seconds ::
  "zone \<Rightarrow> int \<Rightarrow> int \<Rightarrow> int \<Rightarrow> int \<Rightarrow> int \<Rightarrow> int \<Rightarrow> cxx_error + int option" where
  "checked_seconds z year month day hour minute second =
     (if month < 1 \<or> month > 12 \<or> day < 1 \<or> day > 31 \<or> hour < 0 \<or> hour > 23 \<or>
         minute < 0 \<or> minute > 59 \<or> second < 0 \<or> second > 60 then Inr None
      else if \<not> fits32 (year - 1900) then Inl UndefinedBehaviour
      else
        let parsed = z_mktime z (parsed_tm year month day hour minute second)
        in if parsed = - 1 then Inr None
           else (case LocalTime z parsed of
               None \<Rightarrow> Inr None
             | Some check_tm \<Rightarrow>
                 if tm_year check_tm \<noteq> year - 1900 \<or> tm_mon check_tm \<noteq> month - 1 \<or>
                    tm_mday check_tm \<noteq> day \<or> tm_hour check_tm \<noteq> hour \<or>
                    tm_min check_tm \<noteq> minute \<or> tm_sec check_tm \<noteq> second
                 then Inr None else Inr (Some parsed)))"

definition ParseDateTimeToSeconds :: "zone \<Rightarrow> string \<Rightarrow> cxx_error + int option" where
  "ParseDateTimeToSeconds z datetime =
     (let main_part = substr_to datetime (find_dot datetime)
      in ebind (sscanf datetime_directives (c_str main_part)) (\<lambda>vs.
           case vs of
             [year, month, day, hour, minute, second] \<Rightarrow>
               checked_seconds z year month day hour minute second
           | _ \<Rightarrow> Inr None))"

definition ParseFraction :: "string \<Rightarrow> nat option \<Rightarrow> nat \<Rightarrow> int option" where
  "ParseFraction text dot_pos target_width =
     (case dot_pos of
        None \<Rightarrow> Some 0
      | Some k \<Rightarrow>
          let digits = drop (k + 1) text
          in if digits = [] then None
             else
               let digits = take target_width digits
               in if \<not> list_all cisdigit digits then None
                  else Some (int (decimal 0
                    (digits @ replicate (target_width - length digits) (CHR ''0'')))))"

definition ParseWithFraction :: "zone \<Rightarrow> string \<Rightarrow> int \<Rightarrow> nat \<Rightarrow> cxx_error + int" where
  "ParseWithFraction z datetime unit_per_second fraction_width =
     ebind (ParseDateTimeToSeconds z datetime) (\<lambda>r.
       case r of
         None \<Rightarrow> Inr (- 1)
       | Some seconds \<Rightarrow>
           (case ParseFraction datetime (find_dot datetime) fraction_width of
              None \<Rightarrow> Inr (- 1)
            | Some fraction \<Rightarrow>
                ebind (chk64 (seconds * unit_per_second)) (\<lambda>v. chk64 (v + fraction))))"

definition Parse :: "zone \<Rightarrow> string \<Rightarrow> cxx_error + int" where
  "Parse z datetime =
     ebind (ParseDateTimeToSeconds z datetime) (\<lambda>r. Inr (case r of None \<Rightarrow> - 1 | Some seconds \<Rightarrow> seconds))"

definition ParseMs :: "zone \<Rightarrow> string \<Rightarrow> cxx_error + int" where
  "ParseMs z datetime = ParseWithFraction z datetime 1000 3"

definition ParseUs :: "zone \<Rightarrow> string \<Rightarrow> cxx_error + int" where
  "ParseUs z datetime = ParseWithFraction z datetime 1000000 6"

definition ParseNs :: "zone \<Rightarrow> string \<Rightarrow> cxx_error + int" where
  "ParseNs z datetime = ParseWithFraction z datetime 1000000000 9"

section \<open>Calendar questions\<close>

definition empty_tm :: tm where
  "empty_tm = \<lparr>tm_sec = 0, tm_min = 0, tm_hour = 0, tm_mday = 1, tm_mon = 0, tm_year = 70,
     tm_wday = 4, tm_yday = 0, tm_isdst = 0\<rparr>"

definition CurrentLocalTm :: "zone \<Rightarrow> int \<Rightarrow> tm" where
  "CurrentLocalTm z now = (case LocalTime z now of None \<Rightarrow> empty_tm | Some x \<Rightarrow> x)"

definition CurrentYear :: "zone \<Rightarrow> int \<Rightarrow> int" where
  "CurrentYear z now = tm_year (CurrentLocalTm z now) + 1900"

definition CurrentMonth :: "zone \<Rightarrow> int \<Rightarrow> int" where
  "CurrentMonth z now = tm_mon (CurrentLocalTm z now) + 1"

definition CurrentDay :: "zone \<Rightarrow> int \<Rightarrow> int" where
  "CurrentDay z now = tm_mday (CurrentLocalTm z now)"

definition CurrentHour :: "zone \<Rightarrow> int \<Rightarrow> int" where
  "CurrentHour z now = tm_hour (CurrentLocalTm z now)"

definition CurrentMinute :: "zone \<Rightarrow> int \<Rightarrow> int" where
  "CurrentMinute z now = tm_min (CurrentLocalTm z now)"

definition CurrentSecond :: "zone \<Rightarrow> int \<Rightarrow> int" where
  "CurrentSecond z now = tm_sec (CurrentLocalTm z now)"

definition DayOfWeek :: "zone \<Rightarrow> int \<Rightarrow> int" where
  "DayOfWeek z seconds =
     (case LocalTime z seconds of None \<Rightarrow> 0 | Some x \<Rightarrow> if tm_wday x = 0 then 7 else tm_wday x)"

definition DayOfYear :: "zone \<Rightarrow> int \<Rightarrow> int" where
  "DayOfYear z seconds = (case LocalTime z seconds of None \<Rightarrow> 0 | Some x \<Rightarrow> tm_yday x + 1)"

definition DaysInCurrentMonth :: "zone \<Rightarrow> int \<Rightarrow> int" where
  "DaysInCurrentMonth z now = DaysInMonth (CurrentYear z now) (CurrentMonth z now)"

record date_time =
  dt_year :: int
  dt_month :: int
  dt_day :: int
  dt_hour :: int
  dt_minute :: int
  dt_second :: int
  dt_millisecond :: int
  dt_microsecond :: int

definition NowDateTime :: "zone \<Rightarrow> int \<Rightarrow> date_time" where
  "NowDateTime z now_us =
     (let (seconds, fraction) = SplitTimestamp now_us 1000000
      in case LocalTime z seconds of
           None \<Rightarrow> \<lparr>dt_year = 1970, dt_month = 1, dt_day = 1, dt_hour = 0, dt_minute = 0,
             dt_second = 0, dt_millisecond = 0, dt_microsecond = 0\<rparr>
         | Some x \<Rightarrow> \<lparr>dt_year = tm_year x + 1900, dt_month = tm_mon x + 1, dt_day = tm_mday x,
             dt_hour = tm_hour x, dt_minute = tm_min x, dt_second = tm_sec x,
             dt_millisecond = cdiv fraction 1000, dt_microsecond = fraction\<rparr>)"

section \<open>Arithmetic on time stamps\<close>

definition AddDays :: "int \<Rightarrow> int \<Rightarrow> cxx_error + int" where
  "AddDays base_time days = chk64 (base_time + days * 86400)"

definition AddHours :: "int \<Rightarrow> int \<Rightarrow> cxx_error + int" where
  "AddHours base_time hours = chk64 (base_time + hours * 3600)"

definition AddMinutes :: "int \<Rightarrow> int \<Rightarrow> cxx_error + int" where
  "AddMinutes base_time minutes = chk64 (base_time + minutes * 60)"

definition AddSeconds :: "int \<Rightarrow> int \<Rightarrow> cxx_error + int" where
  "AddSeconds base_time seconds = chk64 (base_time + seconds)"

definition DiffSeconds :: "int \<Rightarrow> int \<Rightarrow> cxx_error + int" where
  "DiffSeconds begin_s end_s = chk64 (end_s - begin_s)"

definition DiffMilliseconds :: "int \<Rightarrow> int \<Rightarrow> cxx_error + int" where
  "DiffMilliseconds begin_ms end_ms = chk64 (end_ms - begin_ms)"

definition DiffMinutes :: "int \<Rightarrow> int \<Rightarrow> cxx_error + int" where
  "DiffMinutes begin_s end_s = ebind (DiffSeconds begin_s end_s) (\<lambda>d. Inr (cdiv d 60))"

definition DiffHours :: "int \<Rightarrow> int \<Rightarrow> cxx_error + int" where
  "DiffHours begin_s end_s = ebind (DiffSeconds begin_s end_s) (\<lambda>d. Inr (cdiv d 3600))"

definition DiffDays :: "int \<Rightarrow> int \<Rightarrow> cxx_error + int" where
  "DiffDays begin_s end_s = ebind (DiffSeconds begin_s end_s) (\<lambda>d. Inr (cdiv d 86400))"

definition IsSameDay :: "zone \<Rightarrow> int \<Rightarrow> int \<Rightarrow> bool" where
  "IsSameDay z left right =
     (case (LocalTime z left, LocalTime z right) of
        (Some l, Some r) \<Rightarrow> tm_year l = tm_year r \<and> tm_yday l = tm_yday r
      | _ \<Rightarrow> False)"

definition IsExpired :: "int \<Rightarrow> int \<Rightarrow> bool" where
  "IsExpired now expire_time \<longleftrightarrow> now \<ge> expire_time"

definition IsExpiredMs :: "int \<Rightarrow> int \<Rightarrow> int \<Rightarrow> cxx_error + bool" where
  "IsExpiredMs now_ms start_ms timeout_ms =
     ebind (DiffMilliseconds start_ms now_ms) (\<lambda>d. Inr (d \<ge> timeout_ms))"

definition GetTimezoneOffset :: "zone \<Rightarrow> int \<Rightarrow> int" where
  "GetTimezoneOffset z now =
     (case (LocalTime z now, GmTime now) of
        (Some local_tm, Some utc_tm) \<Rightarrow> z_mktime z local_tm - z_mktime z utc_tm
      | _ \<Rightarrow> 0)"

end
