(* ===== verification/DateParse.thy ===== *)
theory DateParse
  imports DateTime
begin

text \<open>
  What \<open>DateTimeTools\<close> promises: a time stamp split into seconds and fraction, text and time stamp
  as inverses of each other in every zone without repeated hours, exactly which dates the parser
  accepts in a zone with a fixed offset, and the calendar questions.
\<close>

section \<open>Splitting\<close>

lemma cmod_alt: "0 < b \<Longrightarrow> cmod a b = (if a < 0 then - ((- a) mod b) else a mod b)"
  using minus_div_mult_eq_mod [of "- a" b] minus_div_mult_eq_mod [of a b]
  unfolding cmod_def cdiv_def by (cases "a < 0") simp_all

lemma SplitTimestamp_floor:
  assumes "0 < u"
  shows "SplitTimestamp t u = (t div u, t mod u)"
  using assms pos_mod_sign [of u "- t"] pos_mod_bound [of u "- t"] pos_mod_bound [of u t] pos_mod_sign [of u t]
  by (cases "t < 0")
    (auto simp: SplitTimestamp_def cmod_alt cdiv_def Let_def zdiv_zminus1_eq_if zmod_zminus1_eq_if
      simp del: pos_mod_bound pos_mod_sign)

section \<open>Digits\<close>

lemma decimal_zero_pad: "decimal 0 (zero_pad w s) = decimal 0 s"
  by (simp add: zero_pad_def decimal_zeros)

lemma digits_zero_pad: "list_all cisdigit s \<Longrightarrow> list_all cisdigit (zero_pad w s)"
  by (auto simp: zero_pad_def list_all_iff cisdigit_def)

lemma int_to_string_nat: "0 \<le> v \<Longrightarrow> int_to_string v = nat_to_string (nat v)"
  by (simp add: int_to_string_def)

lemma not_space_digit: "cisdigit c \<Longrightarrow> \<not> cisspace c"
  by (auto simp: cisdigit_def cisspace_def Let_def)

lemma digit_not_sign: "cisdigit c \<Longrightarrow> c \<noteq> CHR ''-'' \<and> c \<noteq> CHR ''+''"
  by (auto simp: cisdigit_def Let_def)

definition ends_number :: "string \<Rightarrow> bool" where
  "ends_number rest \<longleftrightarrow> (case rest of [] \<Rightarrow> True | c # cs \<Rightarrow> \<not> cisdigit c)"

lemma take_digits:
  "list_all cisdigit ds \<Longrightarrow> ends_number rest \<Longrightarrow>
    takeWhile cisdigit (ds @ rest) = ds \<and> dropWhile cisdigit (ds @ rest) = rest"
  by (induction ds) (auto simp: ends_number_def split: list.splits)

lemma scan_int_digits:
  assumes "list_all cisdigit ds" "ds \<noteq> []" "ends_number rest" "fits32 (int (decimal 0 ds))"
  shows "scan_int (ds @ rest) = Inr (Some (int (decimal 0 ds), rest))"
proof -
  obtain c cs where ds: "ds = c # cs" using assms(2) by (cases ds) auto
  then have c: "cisdigit c" using assms(1) by simp
  then show ?thesis
    using take_digits [OF assms(1,3)] assms(4) digit_not_sign [OF c] not_space_digit [OF c]
    by (simp add: scan_int_def ds)
qed

lemma scan_int_negative:
  assumes "list_all cisdigit ds" "ds \<noteq> []" "ends_number rest" "fits32 (- int (decimal 0 ds))"
  shows "scan_int (CHR ''-'' # ds @ rest) = Inr (Some (- int (decimal 0 ds), rest))"
  using take_digits [OF assms(1,3)] assms(2,4) by (simp add: scan_int_def cisspace_def)

lemma scan_int_to_string:
  assumes "fits32 v" "ends_number rest"
  shows "scan_int (int_to_string v @ rest) = Inr (Some (v, rest))"
proof (cases "v < 0")
  case True
  then show ?thesis
    using scan_int_negative [of "nat_to_string (nat (- v))" rest] nat_to_string_digits assms
    by (simp add: int_to_string_def decimal_nat_to_string)
next
  case False
  then show ?thesis
    using scan_int_digits [of "nat_to_string (nat v)" rest] nat_to_string_digits assms
    by (simp add: int_to_string_def decimal_nat_to_string)
qed

lemma scan_int_padded:
  assumes "0 \<le> v" "fits32 v" "ends_number rest"
  shows "scan_int (zero_pad w (int_to_string v) @ rest) = Inr (Some (v, rest))"
proof -
  have d: "list_all cisdigit (zero_pad w (int_to_string v))" "zero_pad w (int_to_string v) \<noteq> []"
    using assms(1) nat_to_string_digits by (simp_all add: digits_zero_pad int_to_string_nat, simp add: zero_pad_def)
  have "int (decimal 0 (zero_pad w (int_to_string v))) = v"
    using assms(1) by (simp add: decimal_zero_pad int_to_string_nat decimal_nat_to_string)
  then show ?thesis using scan_int_digits [OF d assms(3)] assms(2) by simp
qed

section \<open>The text of a broken-down time\<close>

definition stamp :: "tm \<Rightarrow> string" where
  "stamp x = int_to_string (tm_year x + 1900) @ CHR ''-'' # zero_pad 2 (int_to_string (tm_mon x + 1)) @
     CHR ''-'' # zero_pad 2 (int_to_string (tm_mday x)) @ CHR '' '' # zero_pad 2 (int_to_string (tm_hour x)) @
     CHR '':'' # zero_pad 2 (int_to_string (tm_min x)) @ CHR '':'' # zero_pad 2 (int_to_string (tm_sec x))"

lemma FormatTm_default: "FormatTm z x default_format = stamp x"
  by (simp add: default_format_def put_conv_def stamp_def)

text \<open>The fields a calendar day can have.\<close>

definition tm_in_range :: "tm \<Rightarrow> bool" where
  "tm_in_range x \<longleftrightarrow> 0 \<le> tm_mon x \<and> tm_mon x \<le> 11 \<and> 1 \<le> tm_mday x \<and> tm_mday x \<le> 31 \<and>
     0 \<le> tm_hour x \<and> tm_hour x \<le> 23 \<and> 0 \<le> tm_min x \<and> tm_min x \<le> 59 \<and>
     0 \<le> tm_sec x \<and> tm_sec x \<le> 59 \<and> fits32 (tm_year x)"

lemma ends_number_simps [simp]:
  "ends_number []" "ends_number (CHR ''-'' # s)" "ends_number (CHR '' '' # s)" "ends_number (CHR '':'' # s)"
  by (simp_all add: ends_number_def cisdigit_def)

lemma padded_starts_with_digit:
  assumes "0 \<le> v"
  shows "dropWhile cisspace (zero_pad w (int_to_string v) @ s) = zero_pad w (int_to_string v) @ s"
proof -
  have d: "list_all cisdigit (zero_pad w (int_to_string v))" "zero_pad w (int_to_string v) \<noteq> []"
    using assms nat_to_string_digits by (simp_all add: digits_zero_pad int_to_string_nat, simp add: zero_pad_def)
  then show ?thesis by (cases "zero_pad w (int_to_string v)") (auto dest: not_space_digit)
qed

lemma sscanf_stamp:
  assumes r: "tm_in_range x" and y: "fits32 (tm_year x + 1900)"
  shows "sscanf datetime_directives (stamp x) =
    Inr [tm_year x + 1900, tm_mon x + 1, tm_mday x, tm_hour x, tm_min x, tm_sec x]"
proof -
  have "fits32 (tm_mon x + 1)" "fits32 (tm_mday x)" "fits32 (tm_hour x)" "fits32 (tm_min x)" "fits32 (tm_sec x)"
    using r by (simp_all add: tm_in_range_def fits32_def)
  moreover have "scan_int (zero_pad 2 (int_to_string (tm_sec x))) = Inr (Some (tm_sec x, []))"
    using r scan_int_padded [of "tm_sec x" "[]" 2] calculation(5) by (simp add: tm_in_range_def)
  moreover have "cisspace (CHR '' '')" by (simp add: cisspace_def)
  ultimately show ?thesis
    using r y by (simp add: tm_in_range_def datetime_directives_def stamp_def scan_int_to_string
        scan_int_padded padded_starts_with_digit)
qed

lemma stamp_chars:
  assumes "tm_in_range x" "c \<in> set (stamp x)"
  shows "c \<noteq> CHR ''.'' \<and> c \<noteq> CHR 0x00"
proof -
  have digit: "d \<noteq> CHR ''.'' \<and> d \<noteq> CHR 0x00" if "cisdigit d" for d
    using that by (auto simp: cisdigit_def Let_def)
  have n: "\<And>d k. d \<in> set (nat_to_string k) \<Longrightarrow> cisdigit d"
    using nat_to_string_digits by (auto simp: list_all_iff)
  have p: "d \<noteq> CHR ''.'' \<and> d \<noteq> CHR 0x00" if "0 \<le> v" "d \<in> set (zero_pad 2 (int_to_string v))" for d v
    using that n digit [of d] by (auto simp: zero_pad_def int_to_string_nat)
  have q: "d \<noteq> CHR ''.'' \<and> d \<noteq> CHR 0x00" if "d \<in> set (int_to_string v)" for d v
    using that n digit [of d] by (auto simp: int_to_string_def split: if_splits)
  show ?thesis
    using assms p [of "tm_mon x + 1" c] p [of "tm_mday x" c] p [of "tm_hour x" c] p [of "tm_min x" c]
      p [of "tm_sec x" c] q [of c "tm_year x + 1900"] by (auto simp: stamp_def tm_in_range_def)
qed

section \<open>Zones without repeated hours\<close>

text \<open>What \<open>localtime_r\<close> and \<open>mktime\<close> owe each other where no hour is repeated.\<close>

locale plain_zone =
  fixes z :: zone
  assumes local_range: "z_local z t = Some x \<Longrightarrow> tm_in_range x"
    and mktime_local: "z_local z t = Some x \<Longrightarrow>
      z_mktime z (x\<lparr>tm_wday := 0, tm_yday := 0, tm_isdst := - 1\<rparr>) = t"
begin

lemma checked_seconds_local:
  assumes l: "z_local z t = Some x"
  shows "checked_seconds z (tm_year x + 1900) (tm_mon x + 1) (tm_mday x) (tm_hour x) (tm_min x) (tm_sec x)
    = Inr (if t = - 1 then None else Some t)"
proof -
  have "parsed_tm (tm_year x + 1900) (tm_mon x + 1) (tm_mday x) (tm_hour x) (tm_min x) (tm_sec x)
      = x\<lparr>tm_wday := 0, tm_yday := 0, tm_isdst := - 1\<rparr>"
    by (simp add: parsed_tm_def)
  then show ?thesis
    using local_range [OF l] mktime_local [OF l] l
    by (simp add: checked_seconds_def tm_in_range_def LocalTime_def Let_def)
qed

lemma parse_stamp:
  assumes l: "z_local z t = Some x" and y: "fits32 (tm_year x + 1900)"
    and tail: "tail = [] \<or> (\<exists>fr. tail = CHR ''.'' # fr)"
  shows "ParseDateTimeToSeconds z (stamp x @ tail) = Inr (if t = - 1 then None else Some t)"
proof -
  note r = local_range [OF l]
  have tw: "takeWhile (\<lambda>c. c \<noteq> CHR ''.'') (stamp x) = stamp x" "takeWhile (\<lambda>c. c \<noteq> CHR 0x00) (stamp x) = stamp x"
    using stamp_chars [OF r] by (simp_all add: takeWhile_eq_all_conv)
  have "substr_to (stamp x @ tail) (find_dot (stamp x @ tail)) = stamp x"
    using tail stamp_chars [OF r]
    by (auto simp: substr_to_def find_dot_def Let_def takeWhile_append2 tw(1))
  then show ?thesis
    using sscanf_stamp [OF r y] checked_seconds_local [OF l]
    by (simp add: ParseDateTimeToSeconds_def c_str_def tw(2))
qed

end

lemma broken_down_range: "broken_down i t = Some x \<Longrightarrow> tm_in_range x"
proof -
  assume b: "broken_down i t = Some x"
  obtain y m d where e: "date_of_day (t div 86400) = (y, m, d)" by (cases "date_of_day (t div 86400)")
  from day_of_date_of_day [OF e] have v: "valid_date y m d" by simp
  then have "1 \<le> m" "m \<le> 12" "1 \<le> d" "d \<le> 31"
    using DaysInMonth_bounds [of m y] by (simp_all add: valid_date_def)
  moreover have "t mod 86400 div 3600 < 24" "0 \<le> t mod 86400 div 3600"
    by (simp_all add: div_less_iff_less_mult pos_imp_zdiv_nonneg_iff)
  moreover have "t mod 86400 div 60 mod 60 < 60" "0 \<le> t mod 86400 div 60 mod 60"
    "t mod 86400 mod 60 < 60" "0 \<le> t mod 86400 mod 60"
    by (simp_all only: pos_mod_bound pos_mod_sign zero_less_numeral)
  ultimately show ?thesis
    using b by (auto simp: broken_down_def e Let_def tm_in_range_def split: if_splits)
qed

interpretation fixed: plain_zone "fixed_zone conv off" for conv off
proof
  show "tm_in_range x" if "z_local (fixed_zone conv off) t = Some x" for t x
    using that broken_down_range by (simp add: fixed_zone_def)
  show "z_mktime (fixed_zone conv off) (x\<lparr>tm_wday := 0, tm_yday := 0, tm_isdst := - 1\<rparr>) = t"
    if l: "z_local (fixed_zone conv off) t = Some x" for t x
  proof -
    have "seconds_of_tm (x\<lparr>tm_wday := 0, tm_yday := 0, tm_isdst := - 1\<rparr>) = seconds_of_tm (x\<lparr>tm_isdst := - 1\<rparr>)"
      by (simp add: seconds_of_tm_def)
    also have "\<dots> = t + off"
      using l by (intro seconds_of_broken_down [of 0]) (simp add: fixed_zone_def)
    finally show ?thesis using l by (simp add: fixed_zone_def)
  qed
qed

section \<open>Round trips\<close>

lemma take_all_digits: "take w (zero_pad w s) = zero_pad w s" if "length s \<le> w"
  using that by (simp add: zero_pad_def)

lemma find_dot_after: "CHR ''.'' \<notin> set s \<Longrightarrow> find_dot (s @ CHR ''.'' # r) = Some (length s)"
proof -
  assume "CHR ''.'' \<notin> set s"
  then have "takeWhile (\<lambda>c. c \<noteq> CHR ''.'') (s @ CHR ''.'' # r) = s"
    by (subst takeWhile_append2) auto
  then show ?thesis by (simp add: find_dot_def)
qed

lemma ParseFraction_FormatFraction:
  assumes f: "0 \<le> f" "f < 10 ^ w" and w: "0 < w"
  shows "ParseFraction (s @ CHR ''.'' # FormatFraction f w) (Some (length s)) w = Some f"
proof -
  have "nat f < 10 ^ w" using f by (simp add: nat_less_iff)
  then have l: "length (nat_to_string (nat f)) \<le> w" using w by (rule length_nat_to_string)
  have "length (zero_pad w (nat_to_string (nat f))) = w" using l by (simp add: zero_pad_def)
  moreover have "zero_pad w (nat_to_string (nat f)) \<noteq> []"
    using nat_to_string_digits by (simp add: zero_pad_def)
  ultimately show ?thesis
    using f nat_to_string_digits
    by (simp add: ParseFraction_def FormatFraction_def int_to_string_nat digits_zero_pad
        decimal_zero_pad decimal_nat_to_string)
qed

context plain_zone begin

lemma parse_format:
  assumes l: "z_local z (t div 10 ^ w) = Some x" and y: "fits32 (tm_year x + 1900)" and w: "0 < w"
    and t: "fits64 t" "- (2 ^ 63) \<le> t div 10 ^ w * 10 ^ w"
  shows "ParseWithFraction z (FormatWithFraction z t (10 ^ w) w default_format) (10 ^ w) w
    = Inr (if t div 10 ^ w = - 1 then - 1 else t)"
proof -
  define fr where "fr = FormatFraction (t mod 10 ^ w) w"
  have s: "stamp x \<noteq> []" by (simp add: stamp_def)
  have printed: "FormatWithFraction z t (10 ^ w) w default_format = stamp x @ CHR ''.'' # fr"
    using l s by (simp add: FormatWithFraction_def SplitTimestamp_floor FormatLocal_def LocalTime_def
        FormatTm_default fr_def)
  have dot: "find_dot (stamp x @ CHR ''.'' # fr) = Some (length (stamp x))"
    using stamp_chars [OF local_range [OF l]] by (intro find_dot_after) blast
  have "ParseFraction (stamp x @ CHR ''.'' # fr) (Some (length (stamp x))) w = Some (t mod 10 ^ w)"
    unfolding fr_def using w by (intro ParseFraction_FormatFraction) simp_all
  moreover have "t div 10 ^ w * 10 ^ w \<le> t"
    using minus_div_mult_eq_mod [of t "10 ^ w"] pos_mod_sign [of "10 ^ w" t]
    by (simp del: pos_mod_sign minus_div_mult_eq_mod)
  moreover have "t div 10 ^ w * 10 ^ w + t mod 10 ^ w = t" by (rule div_mult_mod_eq)
  ultimately show ?thesis
    using parse_stamp [OF l y, of "CHR ''.'' # fr"] t
    by (simp add: printed ParseWithFraction_def dot chk64_def fits64_def del: div_mult_mod_eq)
qed

lemma parse_format_seconds:
  assumes "z_local z t = Some x" "fits32 (tm_year x + 1900)"
  shows "Parse z (Format z t default_format) = Inr t"
  using parse_stamp [OF assms, of "[]"] assms(1)
  by (simp add: Parse_def Format_def FormatLocal_def LocalTime_def FormatTm_default)

end

text \<open>C18: Text written by \<open>FormatMs\<close>, \<open>FormatUs\<close> or \<open>FormatNs\<close> (unit \<open>10 ^ w\<close> per second,
  \<open>w\<close> digits) in a zone with a fixed offset and parsed again gives back the time stamp to the last digit,
  also before 1970, with one exception that the code itself makes: in the last second before the epoch
  the parser answers -1, its value for a failure.\<close>

theorem format_parse_roundtrip:
  assumes "broken_down 0 (t div 10 ^ w + off) = Some x" and "fits32 (tm_year x + 1900)" and "0 < w"
    and "fits64 t" and "- (2 ^ 63) \<le> t div 10 ^ w * 10 ^ w"
  shows "ParseWithFraction (fixed_zone conv off)
      (FormatWithFraction (fixed_zone conv off) t (10 ^ w) w default_format) (10 ^ w) w
    = Inr (if t div 10 ^ w = - 1 then - 1 else t)"
  using assms by (intro fixed.parse_format) (simp_all add: fixed_zone_def)

theorem format_parse_roundtrip_witness:
  "ParseMs (fixed_zone (\<lambda>_ _. []) 28800)
     (FormatMs (fixed_zone (\<lambda>_ _. []) 28800) 1709222399123 default_format) = Inr 1709222399123"
proof -
  obtain x where x: "broken_down 0 (1709222399123 div 10 ^ 3 + 28800) = Some x"
    and y: "fits32 (tm_year x + 1900)"
    by (simp add: broken_down_def date_of_day_def year_of_day_def days_before_year_def
        find_month.simps DaysInMonth_def month_days_def IsLeapYear_mod fits32_def)
  have "fits64 1709222399123" "- (2 ^ 63) \<le> 1709222399123 div 10 ^ 3 * (10 ^ 3 :: int)"
    by (simp_all add: fits64_def)
  from format_parse_roundtrip [OF x y _ this, of "\<lambda>_ _. []"]
  show ?thesis by (simp add: ParseMs_def FormatMs_def)
qed

section \<open>Which dates the parser accepts\<close>

lemma seconds_of_parsed:
  assumes "1 \<le> m" "m \<le> 12"
  shows "seconds_of_tm (parsed_tm y m d h mi s) = 86400 * day_of_date y m d + 3600 * h + 60 * mi + s"
proof -
  have "(m - 1) div 12 = 0" "(m - 1) mod 12 = m - 1" using assms by simp_all
  then show ?thesis
    using day_of_date_add [of y m d] by (simp add: seconds_of_tm_def parsed_tm_def)
qed

definition valid_clock :: "int \<Rightarrow> int \<Rightarrow> int \<Rightarrow> bool" where
  "valid_clock h mi s \<longleftrightarrow> 0 \<le> h \<and> h \<le> 23 \<and> 0 \<le> mi \<and> mi \<le> 59 \<and> 0 \<le> s \<and> s \<le> 59"

lemma clock_parts:
  fixes n :: int
  assumes c: "valid_clock h mi s"
  defines "t \<equiv> 86400 * n + 3600 * h + 60 * mi + s"
  shows "t div 86400 = n \<and> t mod 86400 div 3600 = h \<and> t mod 86400 div 60 mod 60 = mi \<and>
    t mod 86400 mod 60 = s"
proof -
  have n: "t div 86400 = n"
    using c by (intro int_div_pos_eq [of _ _ _ "3600 * h + 60 * mi + s"]) (simp_all add: t_def valid_clock_def)
  have r: "t mod 86400 = 3600 * h + 60 * mi + s"
    using mult_div_mod_eq [of 86400 t] unfolding n by (simp add: t_def)
  have h: "(3600 * h + 60 * mi + s) div 3600 = h"
    using c by (intro int_div_pos_eq [of _ _ _ "60 * mi + s"]) (simp_all add: valid_clock_def)
  have m: "(3600 * h + 60 * mi + s) div 60 = 60 * h + mi"
    using c by (intro int_div_pos_eq [of _ _ _ s]) (simp_all add: valid_clock_def)
  have "(60 * h + mi) mod 60 = mi" using c by (simp add: valid_clock_def)
  moreover have "(3600 * h + 60 * mi + s) mod 60 = s"
    using mult_div_mod_eq [of 60 "3600 * h + 60 * mi + s"] unfolding m by simp
  ultimately show ?thesis using n r h m by simp
qed

lemma broken_down_valid:
  assumes "valid_date y m d" "valid_clock h mi s" "fits32 (y - 1900)"
  shows "\<exists>x. broken_down 0 (86400 * day_of_date y m d + 3600 * h + 60 * mi + s) = Some x \<and>
    tm_year x = y - 1900 \<and> tm_mon x = m - 1 \<and> tm_mday x = d \<and> tm_hour x = h \<and> tm_min x = mi \<and> tm_sec x = s"
  using clock_parts [OF assms(2), of "day_of_date y m d"] date_of_day_of_date [OF assms(1)] assms(3)
  by (simp add: broken_down_def Let_def)

lemma broken_down_valid_date:
  assumes "broken_down 0 t = Some x"
  shows "valid_date (tm_year x + 1900) (tm_mon x + 1) (tm_mday x)"
proof -
  obtain y m d where e: "date_of_day (t div 86400) = (y, m, d)" by (cases "date_of_day (t div 86400)")
  then show ?thesis
    using assms day_of_date_of_day [OF e] by (auto simp: broken_down_def Let_def split: if_splits)
qed

lemma checked_seconds_fixed:
  "checked_seconds (fixed_zone conv off) y m d h mi s = Inr (Some t) \<longleftrightarrow>
    valid_date y m d \<and> valid_clock h mi s \<and> fits32 (y - 1900) \<and> t \<noteq> - 1 \<and>
    t = 86400 * day_of_date y m d + 3600 * h + 60 * mi + s - off" (is "?l \<longleftrightarrow> ?r")
proof
  assume l: ?l
  then have m: "1 \<le> m" "m \<le> 12" and y: "fits32 (y - 1900)"
    by (simp_all add: checked_seconds_def split: if_splits)
  obtain x where x: "broken_down 0 (t + off) = Some x" "t \<noteq> - 1"
      "t = 86400 * day_of_date y m d + 3600 * h + 60 * mi + s - off"
    and f: "tm_year x = y - 1900" "tm_mon x = m - 1" "tm_mday x = d" "tm_hour x = h" "tm_min x = mi" "tm_sec x = s"
    using l by (auto simp: checked_seconds_def fixed_zone_def LocalTime_def Let_def seconds_of_parsed
        split: if_splits option.splits)
  show ?r
    using y broken_down_valid_date [OF x(1)] broken_down_range [OF x(1)] x(2,3) f
    by (auto simp: tm_in_range_def valid_clock_def)
next
  assume r: ?r
  then obtain x where x: "broken_down 0 (t + off) = Some x" and f: "tm_year x = y - 1900" "tm_mon x = m - 1"
    "tm_mday x = d" "tm_hour x = h" "tm_min x = mi" "tm_sec x = s"
    using broken_down_valid [of y m d h mi s] by auto
  have "1 \<le> m" "m \<le> 12" "1 \<le> d" "d \<le> 31"
    using r DaysInMonth_bounds [of m y] by (simp_all add: valid_date_def)
  then show ?l
    using r x f by (simp add: checked_seconds_def fixed_zone_def LocalTime_def Let_def seconds_of_parsed
        valid_clock_def)
qed

lemma parse_fields:
  "ParseDateTimeToSeconds z s = Inr (Some t) \<longleftrightarrow>
    (\<exists>y m d h mi sec. sscanf datetime_directives (c_str (substr_to s (find_dot s))) = Inr [y, m, d, h, mi, sec] \<and>
       checked_seconds z y m d h mi sec = Inr (Some t))" (is "?l \<longleftrightarrow> ?r")
proof
  assume ?l
  then obtain vs where vs: "sscanf datetime_directives (c_str (substr_to s (find_dot s))) = Inr vs"
    and c: "(case vs of [y, m, d, h, mi, sec] \<Rightarrow> checked_seconds z y m d h mi sec | _ \<Rightarrow> Inr None) = Inr (Some t)"
    unfolding ParseDateTimeToSeconds_def Let_def ebind_eq_Inr_iff by blast
  from c obtain y m d h mi sec where "vs = [y, m, d, h, mi, sec]" "checked_seconds z y m d h mi sec = Inr (Some t)"
    by (auto split: list.split_asm)
  then show ?r using vs by blast
next
  assume ?r
  then show ?l by (auto simp: ParseDateTimeToSeconds_def Let_def)
qed

text \<open>C28: In a zone with a fixed offset, without daylight saving time, the parser accepts exactly the texts
  whose six numbers are a date that \<open>DaysInMonth\<close> and the leap year rule of the same file allow and a time of the
  day, with two limits: the year less 1900 has to fit \<open>int\<close>, and the last second before the epoch, whose count
  \<open>-1\<close> is the failure value of \<open>mktime\<close>, is rejected. It answers the second count of that local time. The check
  against \<open>localtime_r\<close> is what rejects 30 February, and also every leap second (60 passes the range check).\<close>

theorem parser_accepts_dates:
  "ParseDateTimeToSeconds (fixed_zone conv off) datetime = Inr (Some t) \<longleftrightarrow>
    (\<exists>year month day hour minute second.
       sscanf datetime_directives (c_str (substr_to datetime (find_dot datetime)))
         = Inr [year, month, day, hour, minute, second] \<and>
       1 \<le> month \<and> month \<le> 12 \<and> 1 \<le> day \<and> day \<le> DaysInMonth year month \<and>
       valid_clock hour minute second \<and> fits32 (year - 1900) \<and>
       t = 86400 * day_of_date year month day + 3600 * hour + 60 * minute + second - off \<and> t \<noteq> - 1)"
  by (auto simp: parse_fields checked_seconds_fixed valid_date_def)

text \<open>60 passes the range check of the seconds, but no text with it is accepted.\<close>

lemma leap_second_rejected: "checked_seconds (fixed_zone conv off) y m d h mi 60 \<noteq> Inr (Some t)"
  by (simp add: checked_seconds_fixed valid_clock_def)

text \<open>The fraction is cut to the width before its characters are looked at, so anything may follow.\<close>

lemma junk_after_fraction:
  assumes "list_all cisdigit ds" and "ds \<noteq> []"
  shows "ParseFraction (s @ CHR ''.'' # ds @ junk) (Some (length s)) (length ds) = Some (int (decimal 0 ds))"
  using assms by (simp add: ParseFraction_def)

text \<open>Half a second before the epoch the round trip fails: the parser answers its failure value.\<close>

lemma before_epoch_lost:
  "ParseMs (fixed_zone conv 0) (FormatMs (fixed_zone conv 0) (- 500) default_format) = Inr (- 1)"
proof -
  obtain x where x: "broken_down 0 (- 500 div 10 ^ 3 + 0) = Some x" and y: "fits32 (tm_year x + 1900)"
    by (simp add: broken_down_def date_of_day_def year_of_day_def days_before_year_def
        find_month.simps DaysInMonth_def month_days_def IsLeapYear_mod fits32_def)
  show ?thesis
    using fixed.parse_format [of conv 0 "- 500" 3 x] x y
    by (simp add: ParseMs_def FormatMs_def fits64_def fixed_zone_def)
qed

section \<open>Calendar questions\<close>

lemma broken_down_day:
  assumes "broken_down i t = Some x"
  shows "t div 86400 = day_of_date (tm_year x + 1900) 1 1 + tm_yday x"
    and "tm_wday x = (t div 86400 + 4) mod 7"
proof -
  obtain y m d where e: "date_of_day (t div 86400) = (y, m, d)" by (cases "date_of_day (t div 86400)")
  show "t div 86400 = day_of_date (tm_year x + 1900) 1 1 + tm_yday x" "tm_wday x = (t div 86400 + 4) mod 7"
    using assms day_of_date_of_day [OF e] e by (auto simp: broken_down_def Let_def split: if_splits)
qed

lemma broken_down_same_day:
  assumes "broken_down i t = Some x" "broken_down i t' = Some x'" "t div 86400 = t' div 86400"
  shows "tm_year x = tm_year x' \<and> tm_yday x = tm_yday x'"
  using assms by (auto simp: broken_down_def Let_def split: if_splits prod.splits)

lemma broken_down_None_day: "t div 86400 = t' div 86400 \<Longrightarrow> broken_down i t = None \<longleftrightarrow> broken_down i t' = None"
  by (simp add: broken_down_def Let_def split: prod.splits)

text \<open>Two time stamps are on the same day for \<open>IsSameDay\<close>, which compares year and day of the
  year, exactly when their local day counts are equal, as long as the C library can represent the
  first of them.\<close>

theorem same_day_iff:
  "IsSameDay (fixed_zone conv off) left right \<longleftrightarrow>
    (left + off) div 86400 = (right + off) div 86400 \<and> broken_down 0 (left + off) \<noteq> None"
proof (cases "broken_down 0 (left + off)"; cases "broken_down 0 (right + off)")
  fix l r assume lr: "broken_down 0 (left + off) = Some l" "broken_down 0 (right + off) = Some r"
  then have "tm_year l = tm_year r \<and> tm_yday l = tm_yday r \<longleftrightarrow> (left + off) div 86400 = (right + off) div 86400"
    using broken_down_same_day [OF lr] broken_down_day(1) [OF lr(1)] broken_down_day(1) [OF lr(2)] by auto
  then show ?thesis using lr by (simp add: IsSameDay_def LocalTime_def fixed_zone_def)
qed (use broken_down_None_day [of "left + off" "right + off" 0] in
    \<open>auto simp: IsSameDay_def LocalTime_def fixed_zone_def\<close>)

lemma day_of_week_next:
  assumes "broken_down 0 (t + off) \<noteq> None" "broken_down 0 (t + 86400 + off) \<noteq> None"
  shows "DayOfWeek (fixed_zone conv off) (t + 86400) = DayOfWeek (fixed_zone conv off) t mod 7 + 1"
proof -
  obtain x x' where x: "broken_down 0 (t + off) = Some x" "broken_down 0 (t + 86400 + off) = Some x'"
    using assms by auto
  have "(t + 86400 + off) div 86400 = (t + off) div 86400 + 1" by (simp add: add.commute add.left_commute)
  then have "tm_wday x' = (tm_wday x + 1) mod 7"
    using broken_down_day(2) [OF x(1)] broken_down_day(2) [OF x(2)] by presburger
  moreover have "0 \<le> tm_wday x" "tm_wday x < 7" using broken_down_day(2) [OF x(1)] by simp_all
  moreover have "(w + 1) mod 7 = (if w = 6 then 0 else w + 1)" if "0 \<le> w" "w < 7" for w :: int
    using that by auto
  ultimately show ?thesis
    using x by (auto simp: DayOfWeek_def LocalTime_def fixed_zone_def)
qed

lemma add_days_moves_date:
  assumes "AddDays t n = Inr t'"
  shows "(t' + off) div 86400 = (t + off) div 86400 + n" "(t' + off) mod 86400 = (t + off) mod 86400"
proof -
  have "t' + off = t + off + n * 86400" using assms by (auto simp: AddDays_def chk64_def split: if_splits)
  then show "(t' + off) div 86400 = (t + off) div 86400 + n" "(t' + off) mod 86400 = (t + off) mod 86400"
    by (simp_all only: div_mult_self3 mod_mult_self3 div_mult_self1 mod_mult_self1 zero_neq_numeral
        not_False_eq_True)
qed

lemma timezone_offset_fixed:
  assumes "broken_down 0 now \<noteq> None" "broken_down 0 (now + off) \<noteq> None" "broken_down 0 (now - off) \<noteq> None"
  shows "GetTimezoneOffset (fixed_zone conv off) now = off"
proof -
  obtain l u where l: "broken_down 0 (now + off) = Some l" and u: "broken_down 0 now = Some u"
    using assms by auto
  have "seconds_of_tm l = now + off" "seconds_of_tm u = now"
    using seconds_of_broken_down [OF l, of "tm_isdst l"] seconds_of_broken_down [OF u, of "tm_isdst u"] by simp_all
  then show ?thesis
    using l u by (simp add: GetTimezoneOffset_def LocalTime_def GmTime_def fixed_zone_def Let_def)
qed

lemma now_fraction_range:
  "0 \<le> dt_microsecond (NowDateTime z us) \<and> dt_microsecond (NowDateTime z us) < 1000000 \<and>
   dt_millisecond (NowDateTime z us) = dt_microsecond (NowDateTime z us) div 1000"
  by (simp add: NowDateTime_def SplitTimestamp_floor cdiv_def split: option.split)

end
