(* ===== verification/FastMqtt.thy ===== *)
theory FastMqtt
  imports Queues Heartbeat "HOL-Library.List_Lexorder" "HOL-Library.Char_ord"
begin

text \<open>
  The MQTT client \<open>FastMQTT\<close>, \<open>src/util/my_fast_MQTT/FastMQTT.cpp\<close> and \<open>FastMQTTTypes.hpp\<close>: its
  configuration, the life cycle, publishing, the table of callbacks, what the library's handlers do,
  and the bodies of the four threads. The mosquitto library is outside: what it answers is an argument,
  what is asked of it is recorded in order in \<open>fm_calls\<close>, and its topic matching is the parameter
  \<open>matches\<close>. The callbacks of the users are values of a type variable, with the parameter \<open>fails\<close>
  for those that throw. The clock is an argument; log output is left out. The counter of handles is
  not cut at 64 bits.
\<close>

section \<open>Configuration\<close>

datatype LifecycleState = Uninitialized | Initialized | Starting | Running | Stopping | Stopped

fun LifecycleStateToString :: "LifecycleState \<Rightarrow> string" where
  "LifecycleStateToString Uninitialized = ''Uninitialized''"
| "LifecycleStateToString Initialized = ''Initialized''"
| "LifecycleStateToString Starting = ''Starting''"
| "LifecycleStateToString Running = ''Running''"
| "LifecycleStateToString Stopping = ''Stopping''"
| "LifecycleStateToString Stopped = ''Stopped''"

fun state_number :: "LifecycleState \<Rightarrow> int" where
  "state_number Uninitialized = 0"
| "state_number Initialized = 1"
| "state_number Starting = 2"
| "state_number Running = 3"
| "state_number Stopping = 4"
| "state_number Stopped = 5"

record BrokerConfig =
  br_host :: string
  br_port :: int
  br_client_id :: string
  br_username :: string
  br_password :: string
  br_keep_alive :: int
  br_clean_session :: bool
  br_auto_reconnect :: bool
  br_connect_timeout_ms :: int

record ThreadConfig =
  th_send_queue_size :: nat
  th_recv_queue_size :: nat

record DefaultConfig =
  de_qos :: int
  de_retain :: bool

record FastMQTTConfig =
  fc_enable :: bool
  fc_broker :: BrokerConfig
  fc_thread :: ThreadConfig
  fc_def :: DefaultConfig

definition default_broker :: BrokerConfig where
  "default_broker = \<lparr>br_host = ''127.0.0.1'', br_port = 1883, br_client_id = [], br_username = [],
     br_password = [], br_keep_alive = 60, br_clean_session = True, br_auto_reconnect = True,
     br_connect_timeout_ms = 5000\<rparr>"

definition default_thread :: ThreadConfig where
  "default_thread = \<lparr>th_send_queue_size = 1000, th_recv_queue_size = 1000\<rparr>"

definition default_def :: DefaultConfig where
  "default_def = \<lparr>de_qos = 1, de_retain = False\<rparr>"

definition default_config :: FastMQTTConfig where
  "default_config = \<lparr>fc_enable = True, fc_broker = default_broker, fc_thread = default_thread, fc_def = default_def\<rparr>"

text \<open>\<open>value(key, default)\<close> for \<open>std::size_t\<close>.\<close>

definition value_size :: "(string \<Rightarrow> int) \<Rightarrow> json \<Rightarrow> string \<Rightarrow> nat \<Rightarrow> json_exn + nat" where
  "value_size trunc cfg key def =
     (if \<not> is_object cfg then Inl NotAnObject
      else case field cfg key of
        None \<Rightarrow> Inr def
      | Some (JUnsigned n) \<Rightarrow> Inr (unat (of_nat n :: u64))
      | Some (JInteger i) \<Rightarrow> Inr (unat (of_int i :: u64))
      | Some (JFloat t) \<Rightarrow> Inr (unat (of_int (trunc t) :: u64))
      | Some (JBool b) \<Rightarrow> Inr (of_bool b)
      | Some _ \<Rightarrow> Inl (WrongType key))"

text \<open>The field when it is an object.\<close>

definition object_field :: "json \<Rightarrow> string \<Rightarrow> json option" where
  "object_field j key = (case field j key of Some v \<Rightarrow> if is_object v then Some v else None | None \<Rightarrow> None)"

definition read_broker :: "(string \<Rightarrow> int) \<Rightarrow> json \<Rightarrow> json_exn + BrokerConfig" where
  "read_broker trunc b =
     ebind (value_string b ''host'' (br_host default_broker)) (\<lambda>host.
     ebind (value_int trunc b ''port'' (br_port default_broker)) (\<lambda>port.
     ebind (value_string b ''client_id'' (br_client_id default_broker)) (\<lambda>client_id.
     ebind (value_string b ''username'' (br_username default_broker)) (\<lambda>username.
     ebind (value_string b ''password'' (br_password default_broker)) (\<lambda>password.
     ebind (value_int trunc b ''keep_alive'' (br_keep_alive default_broker)) (\<lambda>keep_alive.
     ebind (value_bool b ''clean_session'' (br_clean_session default_broker)) (\<lambda>clean_session.
     ebind (value_bool b ''auto_reconnect'' (br_auto_reconnect default_broker)) (\<lambda>auto_reconnect.
     ebind (value_int trunc b ''connect_timeout_ms'' (br_connect_timeout_ms default_broker)) (\<lambda>timeout.
       Inr \<lparr>br_host = host, br_port = port, br_client_id = client_id, br_username = username,
         br_password = password, br_keep_alive = keep_alive, br_clean_session = clean_session,
         br_auto_reconnect = auto_reconnect, br_connect_timeout_ms = timeout\<rparr>)))))))))"

definition FromJson :: "(string \<Rightarrow> int) \<Rightarrow> json \<Rightarrow> json_exn + FastMQTTConfig" where
  "FromJson trunc j =
     (let m = (case object_field j ''mqtt'' of Some v \<Rightarrow> v | None \<Rightarrow> j) in
      ebind (value_bool m ''enable'' True) (\<lambda>enable.
      ebind (case object_field m ''broker'' of None \<Rightarrow> Inr default_broker | Some b \<Rightarrow> read_broker trunc b) (\<lambda>broker.
      ebind (case object_field m ''thread'' of None \<Rightarrow> Inr default_thread | Some t \<Rightarrow>
          ebind (value_size trunc t ''send_queue_size'' (th_send_queue_size default_thread)) (\<lambda>s.
          ebind (value_size trunc t ''recv_queue_size'' (th_recv_queue_size default_thread)) (\<lambda>r.
            Inr \<lparr>th_send_queue_size = s, th_recv_queue_size = r\<rparr>))) (\<lambda>thread.
      ebind (case object_field m ''default'' of None \<Rightarrow> Inr default_def | Some d \<Rightarrow>
          ebind (value_int trunc d ''qos'' (de_qos default_def)) (\<lambda>q.
          ebind (value_bool d ''retain'' (de_retain default_def)) (\<lambda>r.
            Inr \<lparr>de_qos = q, de_retain = r\<rparr>))) (\<lambda>def.
        Inr \<lparr>fc_enable = enable, fc_broker = broker, fc_thread = thread, fc_def = def\<rparr>)))))"

section \<open>State\<close>

record Message =
  msg_topic :: string
  msg_payload :: string
  msg_qos :: int
  msg_retain :: bool
  msg_timestamp :: int

record Statistics =
  st_reconnect_count :: int
  st_last_connect_time :: int
  st_last_send_time :: int
  st_last_recv_time :: int
  st_send_success :: int
  st_send_failed :: int
  st_recv_count :: int
  st_callback_failed :: int
  st_send_dropped :: int
  st_recv_dropped :: int

record 'cb CallbackEntry =
  ce_handle :: nat
  ce_filter :: string
  ce_callback :: 'cb
  ce_qos :: int

text \<open>What is asked of the library.\<close>

datatype mosq_call =
    LibInit
  | LibCleanup
  | Connect
  | Reconnect
  | Disconnect
  | DestroyHandle
  | Subscribe string int
  | Unsubscribe string
  | PublishCall Message

text \<open>The threads that are joinable, and the process-wide reference count of the library.\<close>

datatype thread_name = ConnThread | RecvThread | DispThread | SendThread

record 'cb fast_mqtt =
  fm_config :: FastMQTTConfig
  fm_state :: LifecycleState
  fm_ip_alive :: bool
  fm_broker_connected :: bool
  fm_session_connected :: bool
  fm_ready :: bool
  fm_running :: bool
  fm_mosq :: bool
  fm_send_queue :: "Message bq option"
  fm_recv_queue :: "Message bq option"
  fm_callbacks :: "(string \<times> 'cb CallbackEntry list) list"
  fm_next_handle :: nat
  fm_joinable :: "thread_name list"
  fm_backoff_index :: nat
  fm_stats :: Statistics
  fm_lib_ref :: int
  fm_calls :: "mosq_call list"

definition new_statistics :: Statistics where
  "new_statistics = \<lparr>st_reconnect_count = 0, st_last_connect_time = 0, st_last_send_time = 0,
     st_last_recv_time = 0, st_send_success = 0, st_send_failed = 0, st_recv_count = 0,
     st_callback_failed = 0, st_send_dropped = 0, st_recv_dropped = 0\<rparr>"

definition new_fast_mqtt :: "'cb fast_mqtt" where
  "new_fast_mqtt = \<lparr>fm_config = default_config, fm_state = Uninitialized, fm_ip_alive = False,
     fm_broker_connected = False, fm_session_connected = False, fm_ready = False, fm_running = False,
     fm_mosq = False, fm_send_queue = None, fm_recv_queue = None, fm_callbacks = [], fm_next_handle = 1,
     fm_joinable = [], fm_backoff_index = 0, fm_stats = new_statistics, fm_lib_ref = 0, fm_calls = []\<rparr>"

definition call_lib :: "mosq_call list \<Rightarrow> 'cb fast_mqtt \<Rightarrow> 'cb fast_mqtt" where
  "call_lib cs m = m\<lparr>fm_calls := fm_calls m @ cs\<rparr>"

definition bump :: "(Statistics \<Rightarrow> Statistics) \<Rightarrow> 'cb fast_mqtt \<Rightarrow> 'cb fast_mqtt" where
  "bump f m = m\<lparr>fm_stats := f (fm_stats m)\<rparr>"

section \<open>Backoff\<close>

definition kBackoffTable :: "nat list" where
  "kBackoffTable = [1, 2, 5, 10, 20, 30]"

definition NextBackoffSeconds :: "'cb fast_mqtt \<Rightarrow> nat \<times> 'cb fast_mqtt" where
  "NextBackoffSeconds m =
     (let idx = fm_backoff_index m;
          m' = (if idx + 1 < length kBackoffTable then m\<lparr>fm_backoff_index := idx + 1\<rparr> else m)
      in (kBackoffTable ! (if idx < length kBackoffTable then idx else length kBackoffTable - 1), m'))"

definition mqtt_ResetBackoff :: "'cb fast_mqtt \<Rightarrow> 'cb fast_mqtt" where
  "mqtt_ResetBackoff m = m\<lparr>fm_backoff_index := 0\<rparr>"

section \<open>Life cycle\<close>

text \<open>\<open>new_ok\<close>: whether \<open>mosquitto_new\<close> gives a handle. A refused user name is only logged.\<close>

definition Initialize :: "(string \<Rightarrow> int) \<Rightarrow> bool \<Rightarrow> json \<Rightarrow> 'cb fast_mqtt \<Rightarrow> bool \<times> 'cb fast_mqtt" where
  "Initialize trunc new_ok config m =
     (if fm_state m \<noteq> Uninitialized then (False, m)
      else case FromJson trunc config of
        Inl e \<Rightarrow> (False, m)
      | Inr cfg \<Rightarrow>
          let m = m\<lparr>fm_config := cfg\<rparr> in
          if \<not> fc_enable cfg then (True, m\<lparr>fm_state := Initialized\<rparr>)
          else if br_host (fc_broker cfg) = [] then (False, m)
          else
            let m = (if fm_lib_ref m = 0 then call_lib [LibInit] m else m);
                m = m\<lparr>fm_lib_ref := fm_lib_ref m + 1\<rparr>
            in if \<not> new_ok then
                 let m = (if fm_lib_ref m = 1 then call_lib [LibCleanup] m else m)
                 in (False, m\<lparr>fm_lib_ref := fm_lib_ref m - 1\<rparr>)
               else (True, m\<lparr>fm_mosq := True,
                   fm_send_queue := Some (bq_ctor (th_send_queue_size (fc_thread cfg))),
                   fm_recv_queue := Some (bq_ctor (th_recv_queue_size (fc_thread cfg))),
                   fm_state := Initialized\<rparr>))"

text \<open>Assigning a thread to a \<open>std::thread\<close> that is joinable ends the program: \<open>None\<close>.\<close>

fun start_threads :: "thread_name list \<Rightarrow> 'cb fast_mqtt \<Rightarrow> 'cb fast_mqtt option" where
  "start_threads [] m = Some m"
| "start_threads (t # ts) m =
     (if t \<in> set (fm_joinable m) then None
      else start_threads ts (m\<lparr>fm_joinable := fm_joinable m @ [t]\<rparr>))"

definition mqtt_Start :: "'cb fast_mqtt \<Rightarrow> (bool \<times> 'cb fast_mqtt) option" where
  "mqtt_Start m =
     (if fm_state m \<noteq> Initialized then Some (False, m)
      else if \<not> fc_enable (fm_config m) then Some (False, m)
      else case start_threads [ConnThread, RecvThread, DispThread, SendThread]
                  (mqtt_ResetBackoff (m\<lparr>fm_state := Starting, fm_running := True\<rparr>)) of
        None \<Rightarrow> None
      | Some m \<Rightarrow> Some (True, m\<lparr>fm_state := Running\<rparr>))"

text \<open>The joins of \<open>Stop\<close>, called on the thread \<open>self\<close> (\<open>None\<close>: none of the four). Joining the own
  thread throws \<open>system_error\<close> and leaves it and those after it joinable.\<close>

fun join_threads :: "thread_name option \<Rightarrow> thread_name list \<Rightarrow> 'cb fast_mqtt \<Rightarrow> bool \<times> 'cb fast_mqtt" where
  "join_threads self [] m = (True, m)"
| "join_threads self (t # ts) m =
     (if t \<in> set (fm_joinable m) then
        if self = Some t then (False, m)
        else join_threads self ts (m\<lparr>fm_joinable := removeAll t (fm_joinable m)\<rparr>)
      else join_threads self ts m)"

definition stop_begin :: "'cb fast_mqtt \<Rightarrow> 'cb fast_mqtt" where
  "stop_begin m =
     (let m = m\<lparr>fm_state := Stopping, fm_running := False,
            fm_send_queue := map_option bq_Shutdown (fm_send_queue m),
            fm_recv_queue := map_option bq_Shutdown (fm_recv_queue m)\<rparr>
      in if fm_mosq m then call_lib [Disconnect] m else m)"

definition stop_end :: "'cb fast_mqtt \<Rightarrow> 'cb fast_mqtt" where
  "stop_end m = m\<lparr>fm_broker_connected := False, fm_session_connected := False, fm_ready := False,
     fm_ip_alive := False, fm_state := Stopped\<rparr>"

text \<open>\<open>Stop\<close> as one call: the answer is false when it leaves by the exception.\<close>

definition mqtt_Stop :: "thread_name option \<Rightarrow> 'cb fast_mqtt \<Rightarrow> bool \<times> 'cb fast_mqtt" where
  "mqtt_Stop self m =
     (if fm_state m \<noteq> Running \<and> fm_state m \<noteq> Starting then (True, m)
      else case join_threads self [ConnThread, RecvThread, DispThread, SendThread] (stop_begin m) of
        (False, m) \<Rightarrow> (False, m)
      | (True, m) \<Rightarrow> (True, stop_end m))"

definition ClearAllCallbacks :: "'cb fast_mqtt \<Rightarrow> 'cb fast_mqtt" where
  "ClearAllCallbacks m = m\<lparr>fm_callbacks := []\<rparr>"

definition destroy_end :: "'cb fast_mqtt \<Rightarrow> 'cb fast_mqtt" where
  "destroy_end m =
     (let m = (if fm_mosq m then
                 let m = (call_lib [DestroyHandle] m)\<lparr>fm_mosq := False\<rparr>;
                     m = (if fm_lib_ref m = 1 then call_lib [LibCleanup] m else m)
                 in m\<lparr>fm_lib_ref := fm_lib_ref m - 1\<rparr>
               else m)
      in (ClearAllCallbacks m)\<lparr>fm_send_queue := None, fm_recv_queue := None, fm_state := Uninitialized\<rparr>)"

definition mqtt_Destroy :: "thread_name option \<Rightarrow> 'cb fast_mqtt \<Rightarrow> bool \<times> 'cb fast_mqtt" where
  "mqtt_Destroy self m =
     (case mqtt_Stop self m of (False, m) \<Rightarrow> (False, m) | (True, m) \<Rightarrow> (True, destroy_end m))"

section \<open>Publishing\<close>

definition Publish :: "int \<Rightarrow> string \<Rightarrow> string \<Rightarrow> int \<Rightarrow> bool \<Rightarrow> 'cb fast_mqtt \<Rightarrow> bool \<times> 'cb fast_mqtt" where
  "Publish now topic payload qos retain m =
     (if fm_state m \<noteq> Running then (False, m)
      else case fm_send_queue m of
        None \<Rightarrow> (False, m)
      | Some q \<Rightarrow>
          (case bq_Push \<lparr>msg_topic = topic, msg_payload = payload, msg_qos = qos, msg_retain = retain,
                msg_timestamp = now\<rparr> q of
             (False, q) \<Rightarrow> (False, bump (\<lambda>s. s\<lparr>st_send_dropped := st_send_dropped s + 1\<rparr>) m)
           | (True, q) \<Rightarrow> (True, m\<lparr>fm_send_queue := Some q\<rparr>)))"

definition Publish_default :: "int \<Rightarrow> string \<Rightarrow> string \<Rightarrow> 'cb fast_mqtt \<Rightarrow> bool \<times> 'cb fast_mqtt" where
  "Publish_default now topic payload m =
     Publish now topic payload (de_qos (fc_def (fm_config m))) (de_retain (fc_def (fm_config m))) m"

definition Publish_qos :: "int \<Rightarrow> string \<Rightarrow> string \<Rightarrow> int \<Rightarrow> 'cb fast_mqtt \<Rightarrow> bool \<times> 'cb fast_mqtt" where
  "Publish_qos now topic payload qos m =
     Publish now topic payload qos (de_retain (fc_def (fm_config m))) m"

text \<open>\<open>rc\<close>: what \<open>mosquitto_publish\<close> answers.\<close>

definition DoPublish :: "int \<Rightarrow> Message \<Rightarrow> 'cb fast_mqtt \<Rightarrow> bool \<times> 'cb fast_mqtt" where
  "DoPublish rc msg m =
     (if \<not> fm_mosq m \<or> \<not> fm_broker_connected m then (False, m)
      else (rc = 0, call_lib [PublishCall msg] m))"

section \<open>Callbacks\<close>

text \<open>\<open>std::map\<close>, ordered by the topic.\<close>

fun map_change :: "'k::linorder \<Rightarrow> ('v option \<Rightarrow> 'v) \<Rightarrow> ('k \<times> 'v) list \<Rightarrow> ('k \<times> 'v) list" where
  "map_change k f [] = [(k, f None)]"
| "map_change k f ((k', v) # m) =
     (if k < k' then (k, f None) # (k', v) # m
      else if k = k' then (k, f (Some v)) # m
      else (k', v) # map_change k f m)"

definition insert_callback :: "string \<Rightarrow> 'cb \<Rightarrow> int \<Rightarrow> 'cb fast_mqtt \<Rightarrow> nat \<times> 'cb fast_mqtt" where
  "insert_callback topic callback qos m =
     (let handle = fm_next_handle m;
          entry = \<lparr>ce_handle = handle, ce_filter = topic, ce_callback = callback, ce_qos = qos\<rparr>
      in (handle, m\<lparr>fm_next_handle := handle + 1,
            fm_callbacks := map_change topic (\<lambda>v. case v of None \<Rightarrow> [entry] | Some es \<Rightarrow> es @ [entry]) (fm_callbacks m)\<rparr>))"

definition subscribe_now :: "string \<Rightarrow> int \<Rightarrow> 'cb fast_mqtt \<Rightarrow> 'cb fast_mqtt" where
  "subscribe_now topic qos m =
     (if fm_session_connected m \<and> fm_mosq m then call_lib [Subscribe topic qos] m else m)"

text \<open>An empty \<open>std::function\<close> is \<open>None\<close>.\<close>

definition RegisterCallback :: "string \<Rightarrow> 'cb option \<Rightarrow> int \<Rightarrow> 'cb fast_mqtt \<Rightarrow> nat \<times> 'cb fast_mqtt" where
  "RegisterCallback topic callback qos m =
     (case callback of
        None \<Rightarrow> (0, m)
      | Some cb \<Rightarrow> (case insert_callback topic cb qos m of (h, m) \<Rightarrow> (h, subscribe_now topic qos m)))"

text \<open>The first entry with the handle is erased, and its topic when nothing is left there.\<close>

fun erase_handle :: "nat \<Rightarrow> 'cb CallbackEntry list \<Rightarrow> 'cb CallbackEntry list option" where
  "erase_handle h [] = None"
| "erase_handle h (e # es) =
     (if ce_handle e = h then Some es else map_option ((#) e) (erase_handle h es))"

fun erase_callback :: "nat \<Rightarrow> (string \<times> 'cb CallbackEntry list) list \<Rightarrow>
    (string option \<times> (string \<times> 'cb CallbackEntry list) list) option" where
  "erase_callback h [] = None"
| "erase_callback h ((topic, es) # cs) =
     (case erase_handle h es of
        Some [] \<Rightarrow> Some (Some topic, cs)
      | Some es' \<Rightarrow> Some (None, (topic, es') # cs)
      | None \<Rightarrow> map_option (\<lambda>(t, cs'). (t, (topic, es) # cs')) (erase_callback h cs))"

definition unsubscribe_now :: "string \<Rightarrow> 'cb fast_mqtt \<Rightarrow> 'cb fast_mqtt" where
  "unsubscribe_now topic m =
     (if fm_session_connected m \<and> fm_mosq m then call_lib [Unsubscribe topic] m else m)"

definition UnregisterCallback :: "nat \<Rightarrow> 'cb fast_mqtt \<Rightarrow> bool \<times> 'cb fast_mqtt" where
  "UnregisterCallback handle m =
     (case erase_callback handle (fm_callbacks m) of
        None \<Rightarrow> (False, m)
      | Some (None, cs) \<Rightarrow> (True, m\<lparr>fm_callbacks := cs\<rparr>)
      | Some (Some topic, cs) \<Rightarrow> (True, (unsubscribe_now topic m)\<lparr>fm_callbacks := cs\<rparr>))"

definition ClearCallback :: "string \<Rightarrow> 'cb fast_mqtt \<Rightarrow> 'cb fast_mqtt" where
  "ClearCallback topic m =
     (case map_of (fm_callbacks m) topic of
        None \<Rightarrow> m
      | Some es \<Rightarrow> (unsubscribe_now topic m)\<lparr>fm_callbacks := filter (\<lambda>c. fst c \<noteq> topic) (fm_callbacks m)\<rparr>)"

text \<open>The subscriptions \<open>ResubscribeAll\<close> collects, and their renewal.\<close>

definition subscriptions :: "'cb fast_mqtt \<Rightarrow> (string \<times> int) list" where
  "subscriptions m = map (\<lambda>(topic, es). (topic, case es of [] \<Rightarrow> 1 | e # _ \<Rightarrow> ce_qos e)) (fm_callbacks m)"

definition ResubscribeAll :: "'cb fast_mqtt \<Rightarrow> 'cb fast_mqtt" where
  "ResubscribeAll m =
     (if fm_mosq m then call_lib (map (\<lambda>(topic, qos). Subscribe topic qos) (subscriptions m)) m else m)"

text \<open>\<open>mosquitto_topic_matches_sub\<close>: \<open>None\<close> is an error code.\<close>

definition TopicMatch :: "(string \<Rightarrow> string \<Rightarrow> bool option) \<Rightarrow> string \<Rightarrow> string \<Rightarrow> bool" where
  "TopicMatch matches filt topic = (case matches filt topic of None \<Rightarrow> False | Some r \<Rightarrow> r)"

fun collect_matched :: "(string \<Rightarrow> string \<Rightarrow> bool option) \<Rightarrow> string \<Rightarrow>
    (string \<times> 'cb CallbackEntry list) list \<Rightarrow> 'cb CallbackEntry list \<Rightarrow> 'cb CallbackEntry list" where
  "collect_matched matches topic [] matched = matched"
| "collect_matched matches topic ((filt, es) # cs) matched =
     collect_matched matches topic cs
       (if TopicMatch matches filt topic then fold (#) es matched else matched)"

text \<open>The calls of the matched callbacks, in order; one that throws is counted.\<close>

fun run_callbacks :: "('cb \<Rightarrow> Message \<Rightarrow> bool) \<Rightarrow> Message \<Rightarrow> 'cb CallbackEntry list \<Rightarrow> 'cb fast_mqtt \<Rightarrow>
    ('cb \<times> Message) list \<times> 'cb fast_mqtt" where
  "run_callbacks fails msg [] m = ([], m)"
| "run_callbacks fails msg (e # es) m =
     (let m = (if fails (ce_callback e) msg
               then bump (\<lambda>s. s\<lparr>st_callback_failed := st_callback_failed s + 1\<rparr>) m else m);
          (calls, m) = run_callbacks fails msg es m
      in ((ce_callback e, msg) # calls, m))"

definition DispatchToCallbacks :: "(string \<Rightarrow> string \<Rightarrow> bool option) \<Rightarrow> ('cb \<Rightarrow> Message \<Rightarrow> bool) \<Rightarrow>
    Message \<Rightarrow> 'cb fast_mqtt \<Rightarrow> ('cb \<times> Message) list \<times> 'cb fast_mqtt" where
  "DispatchToCallbacks matches fails msg m =
     run_callbacks fails msg (collect_matched matches (msg_topic msg) (fm_callbacks m) []) m"

section \<open>Handlers of the library\<close>

definition set_link :: "bool \<Rightarrow> bool \<Rightarrow> 'cb fast_mqtt \<Rightarrow> 'cb fast_mqtt" where
  "set_link up r m = m\<lparr>fm_broker_connected := up, fm_session_connected := up, fm_ready := r\<rparr>"

definition HandleConnect :: "int \<Rightarrow> int \<Rightarrow> 'cb fast_mqtt \<Rightarrow> 'cb fast_mqtt" where
  "HandleConnect now rc m =
     (if rc = 0 then
        ResubscribeAll (mqtt_ResetBackoff (bump (\<lambda>s. s\<lparr>st_last_connect_time := now\<rparr>)
          (set_link True (fc_enable (fm_config m)) m)))
      else set_link False False m)"

definition HandleDisconnect :: "'cb fast_mqtt \<Rightarrow> 'cb fast_mqtt" where
  "HandleDisconnect m = set_link False False m"

text \<open>A message without topic is \<open>None\<close>; \<open>payload\<close> is empty for a null pointer or no length.\<close>

definition HandleMessage :: "int \<Rightarrow> string option \<Rightarrow> string \<Rightarrow> int \<Rightarrow> bool \<Rightarrow> 'cb fast_mqtt \<Rightarrow> 'cb fast_mqtt" where
  "HandleMessage now topic payload qos retain m =
     (case (topic, fm_recv_queue m) of
        (Some topic, Some q) \<Rightarrow>
          let msg = \<lparr>msg_topic = topic, msg_payload = payload, msg_qos = qos, msg_retain = retain, msg_timestamp = now\<rparr>;
              m = bump (\<lambda>s. s\<lparr>st_recv_count := st_recv_count s + 1, st_last_recv_time := now\<rparr>) m
          in (case bq_Push msg q of
                (False, q) \<Rightarrow> bump (\<lambda>s. s\<lparr>st_recv_dropped := st_recv_dropped s + 1\<rparr>) m
              | (True, q) \<Rightarrow> m\<lparr>fm_recv_queue := Some q\<rparr>)
      | _ \<Rightarrow> m)"

section \<open>Reports\<close>

definition GetSendQueueSize :: "'cb fast_mqtt \<Rightarrow> nat" where
  "GetSendQueueSize m = (case fm_send_queue m of None \<Rightarrow> 0 | Some q \<Rightarrow> bq_Size q)"

definition GetReceiveQueueSize :: "'cb fast_mqtt \<Rightarrow> nat" where
  "GetReceiveQueueSize m = (case fm_recv_queue m of None \<Rightarrow> 0 | Some q \<Rightarrow> bq_Size q)"

definition GetStatistics :: "'cb fast_mqtt \<Rightarrow> json" where
  "GetStatistics m = (let s = fm_stats m in JObject
     [(''reconnect_count'', JInteger (st_reconnect_count s)),
      (''last_connect_time'', JInteger (st_last_connect_time s)),
      (''last_send_time'', JInteger (st_last_send_time s)),
      (''last_recv_time'', JInteger (st_last_recv_time s)),
      (''send_success'', JInteger (st_send_success s)),
      (''send_failed'', JInteger (st_send_failed s)),
      (''recv_count'', JInteger (st_recv_count s)),
      (''callback_failed'', JInteger (st_callback_failed s)),
      (''send_dropped'', JInteger (st_send_dropped s)),
      (''recv_dropped'', JInteger (st_recv_dropped s))])"

definition GetHealthStatus :: "'cb fast_mqtt \<Rightarrow> json" where
  "GetHealthStatus m = (let s = fm_stats m in JObject
     [(''enable'', JBool (fc_enable (fm_config m))),
      (''state'', JString (LifecycleStateToString (fm_state m))),
      (''ready'', JBool (fm_ready m)),
      (''broker_connected'', JBool (fm_broker_connected m)),
      (''ip_alive'', JBool (fm_ip_alive m)),
      (''reconnect_count'', JInteger (st_reconnect_count s)),
      (''last_connect_time'', JInteger (st_last_connect_time s)),
      (''last_send_time'', JInteger (st_last_send_time s)),
      (''last_recv_time'', JInteger (st_last_recv_time s)),
      (''send_queue_size'', JUnsigned (GetSendQueueSize m)),
      (''recv_queue_size'', JUnsigned (GetReceiveQueueSize m)),
      (''send_success'', JInteger (st_send_success s)),
      (''send_failed'', JInteger (st_send_failed s)),
      (''recv_count'', JInteger (st_recv_count s)),
      (''callback_failed'', JInteger (st_callback_failed s))])"

definition callback_topic :: "string \<times> 'cb CallbackEntry list \<Rightarrow> json" where
  "callback_topic kv = JObject
     [(''topic'', JString (fst kv)),
      (''callback_count'', JUnsigned (length (snd kv))),
      (''handles'', JArray (map (\<lambda>e. JUnsigned (ce_handle e)) (snd kv))),
      (''qos_list'', JArray (map (\<lambda>e. JInteger (ce_qos e)) (snd kv)))]"

definition thread_status :: "thread_name \<Rightarrow> 'cb fast_mqtt \<Rightarrow> json" where
  "thread_status t m = JObject
     [(''alive'', JBool (t \<in> set (fm_joinable m))),
      (''running'', JBool (fm_running m \<and> t \<in> set (fm_joinable m)))]"

definition Status :: "'cb fast_mqtt \<Rightarrow> json" where
  "Status m = (let b = fc_broker (fm_config m); th = fc_thread (fm_config m) in JObject
     [(''state'', JInteger (state_number (fm_state m))),
      (''ready'', JBool (fm_ready m)),
      (''broker_connected'', JBool (fm_broker_connected m)),
      (''session_connected'', JBool (fm_session_connected m)),
      (''ip_alive'', JBool (fm_ip_alive m)),
      (''broker_host'', JString (br_host b)),
      (''broker_port'', JInteger (br_port b)),
      (''broker_endpoint'', JString (br_host b @ '':'' @ int_to_string (br_port b))),
      (''send_queue_capacity'', JUnsigned (th_send_queue_size th)),
      (''recv_queue_capacity'', JUnsigned (th_recv_queue_size th)),
      (''callback_count'', JUnsigned (fold (\<lambda>kv n. n + length (snd kv)) (fm_callbacks m) 0)),
      (''topic_count'', JUnsigned (length (fm_callbacks m))),
      (''callback_topics'', JArray (map callback_topic (fm_callbacks m))),
      (''send_queue_size'', JUnsigned (GetSendQueueSize m)),
      (''recv_queue_size'', JUnsigned (GetReceiveQueueSize m)),
      (''queues'', JObject [(''send'', JUnsigned (GetSendQueueSize m)), (''recv'', JUnsigned (GetReceiveQueueSize m))]),
      (''threads'', JObject [(''conn_thread'', thread_status ConnThread m), (''recv_thread'', thread_status RecvThread m),
         (''disp_thread'', thread_status DispThread m), (''send_thread'', thread_status SendThread m)])])"

text \<open>Initialising again is refused unless the module was destroyed; a refusal changes nothing but the
  configuration it has read.\<close>

lemma Initialize_refused:
  "fm_state m \<noteq> Uninitialized \<Longrightarrow> Initialize trunc new_ok config m = (False, m)"
  "Initialize trunc new_ok config m = (False, m') \<Longrightarrow>
    fm_state m' = fm_state m \<and> fm_mosq m' = fm_mosq m \<and> fm_lib_ref m' = fm_lib_ref m \<and>
    fm_send_queue m' = fm_send_queue m \<and> fm_recv_queue m' = fm_recv_queue m"
  by (auto simp: Initialize_def Let_def call_lib_def split: if_splits sum.splits)

end
