(* ===== verification/FastMqttThreads.thy ===== *)
theory FastMqttThreads
  imports FastMqtt
begin

text \<open>
  The four threads of \<open>FastMQTT\<close> beside the callers: the bodies of the loops as functions, cut where
  another thread can come in between, and the step relation of the whole module. The calls of the life
  cycle come from one thread that is none of the four; publishing and the callback table are open
  to every thread, a running callback among them.

  \<open>Publish\<close> looks at the state and at the queue, and pushes later without a lock: the messages of the
  publishers in between are \<open>sy_publishing\<close>. \<open>HandleMessage\<close> counts a message, pushes it and counts a
  refusal in three steps. A message is dispatched by collecting its callbacks under the lock of the
  table and then calling them one by one, each call a step of its own. The parameter \<open>asks\<close> says which callbacks call
  \<open>Status\<close> (or anything else under the lock of the life cycle): such a callback does not return while
  \<open>Stop\<close> holds that lock. Apart from that callbacks return, some by throwing (\<open>fails\<close>). What a callback that
  calls \<open>Stop\<close> itself does is shown apart, in \<open>FastMqttLaws\<close>.

  \<open>sy_accepted\<close>, \<open>sy_called\<close> and the two \<open>lost\<close> counters are ghost state: the messages \<open>Publish\<close>
  took, those given to the callbacks, and those still queued when \<open>Destroy\<close> drops a queue, which the
  program counts nowhere.
\<close>

section \<open>The bodies of the loops\<close>

text \<open>\<open>CheckTcpAlive\<close> goes through the addresses of the host: no socket, connected at once, refused, or
  in progress with what \<open>select\<close> and the error of the socket say.\<close>

datatype attempt = NoSocket | ConnectedAtOnce | Refused | InProgress bool bool

fun CheckTcpAlive :: "attempt list \<Rightarrow> bool" where
  "CheckTcpAlive [] = False"
| "CheckTcpAlive (NoSocket # as) = CheckTcpAlive as"
| "CheckTcpAlive (ConnectedAtOnce # as) = True"
| "CheckTcpAlive (Refused # as) = CheckTcpAlive as"
| "CheckTcpAlive (InProgress writable clean # as) = (if writable \<and> clean then True else CheckTcpAlive as)"

definition connection_round :: "attempt list \<Rightarrow> 'cb fast_mqtt \<Rightarrow> 'cb fast_mqtt" where
  "connection_round as m = m\<lparr>fm_ip_alive := CheckTcpAlive as\<rparr>"

datatype recv_pc = RTop | RLoop | RDone

text \<open>Step 1 of a round of the receiver: \<open>rc\<close> is the answer of the library. The waits are left out.\<close>

definition receiver_connect :: "int \<Rightarrow> bool \<Rightarrow> 'cb fast_mqtt \<Rightarrow> recv_pc \<times> 'cb fast_mqtt" where
  "receiver_connect rc ever m =
     (let m = (if \<not> ever then call_lib [Connect] m
               else call_lib [Reconnect] (bump (\<lambda>s. s\<lparr>st_reconnect_count := st_reconnect_count s + 1\<rparr>) m))
      in if rc \<noteq> 0 then
           (let (wait, m) = NextBackoffSeconds m
            in (if \<not> br_auto_reconnect (fc_broker (fm_config m)) then RDone else RTop, m))
         else (RLoop, m))"

text \<open>Step 2 and 3: \<open>lrc\<close> is what \<open>mosquitto_loop\<close> answers.\<close>

definition receiver_loop :: "int \<Rightarrow> 'cb fast_mqtt \<Rightarrow> recv_pc \<times> 'cb fast_mqtt" where
  "receiver_loop lrc m =
     (if lrc = 0 then (RLoop, m)
      else let m = set_link False False m in
        if fm_running m then
          (if \<not> br_auto_reconnect (fc_broker (fm_config m)) then (RDone, m)
           else (RTop, snd (NextBackoffSeconds m)))
        else (RTop, m))"

text \<open>A queue that is not there is a null pointer.\<close>

definition sender_pop :: "'cb fast_mqtt \<Rightarrow> cxx_error + (Message option \<times> 'cb fast_mqtt)" where
  "sender_pop m =
     (case fm_send_queue m of
        None \<Rightarrow> Inl UndefinedBehaviour
      | Some q \<Rightarrow> (case bq_Pop_timed q of (r, q) \<Rightarrow> Inr (r, m\<lparr>fm_send_queue := Some q\<rparr>)))"

definition sender_publish :: "int \<Rightarrow> int \<Rightarrow> Message \<Rightarrow> 'cb fast_mqtt \<Rightarrow> 'cb fast_mqtt" where
  "sender_publish now rc msg m =
     (case DoPublish rc msg m of
        (True, m) \<Rightarrow> bump (\<lambda>s. s\<lparr>st_send_success := st_send_success s + 1, st_last_send_time := now\<rparr>) m
      | (False, m) \<Rightarrow> bump (\<lambda>s. s\<lparr>st_send_failed := st_send_failed s + 1\<rparr>) m)"

definition dispatcher_pop :: "'cb fast_mqtt \<Rightarrow> cxx_error + (Message option \<times> 'cb fast_mqtt)" where
  "dispatcher_pop m =
     (case fm_recv_queue m of
        None \<Rightarrow> Inl UndefinedBehaviour
      | Some q \<Rightarrow> (case bq_Pop_timed q of (r, q) \<Rightarrow> Inr (r, m\<lparr>fm_recv_queue := Some q\<rparr>)))"

text \<open>\<open>HandleMessage\<close>: the entry with its counter, the push, and the count of a refused push.\<close>

datatype arrival = NoArrival | Counted Message | NoRoom

definition message_enters :: "int \<Rightarrow> string option \<Rightarrow> string \<Rightarrow> int \<Rightarrow> bool \<Rightarrow> 'cb fast_mqtt \<Rightarrow> arrival \<times> 'cb fast_mqtt" where
  "message_enters now topic payload qos retain m =
     (case (topic, fm_recv_queue m) of
        (Some topic, Some q) \<Rightarrow>
          (Counted \<lparr>msg_topic = topic, msg_payload = payload, msg_qos = qos, msg_retain = retain, msg_timestamp = now\<rparr>,
           bump (\<lambda>s. s\<lparr>st_recv_count := st_recv_count s + 1, st_last_recv_time := now\<rparr>) m)
      | _ \<Rightarrow> (NoArrival, m))"

definition message_push :: "Message \<Rightarrow> 'cb fast_mqtt \<Rightarrow> cxx_error + (arrival \<times> 'cb fast_mqtt)" where
  "message_push msg m =
     (case fm_recv_queue m of
        None \<Rightarrow> Inl UndefinedBehaviour
      | Some q \<Rightarrow> (case bq_Push msg q of
            (False, q) \<Rightarrow> Inr (NoRoom, m)
          | (True, q) \<Rightarrow> Inr (NoArrival, m\<lparr>fm_recv_queue := Some q\<rparr>)))"

definition message_dropped :: "'cb fast_mqtt \<Rightarrow> 'cb fast_mqtt" where
  "message_dropped m = bump (\<lambda>s. s\<lparr>st_recv_dropped := st_recv_dropped s + 1\<rparr>) m"

text \<open>\<open>Publish\<close>: the look at the state and the queue, and the push, for which a queue that is gone
  meanwhile is a null pointer.\<close>

definition publish_allowed :: "'cb fast_mqtt \<Rightarrow> bool" where
  "publish_allowed m \<longleftrightarrow> fm_state m = Running \<and> fm_send_queue m \<noteq> None"

definition publish_push :: "Message \<Rightarrow> 'cb fast_mqtt \<Rightarrow> cxx_error + (bool \<times> 'cb fast_mqtt)" where
  "publish_push msg m =
     (case fm_send_queue m of
        None \<Rightarrow> Inl UndefinedBehaviour
      | Some q \<Rightarrow> (case bq_Push msg q of
            (False, q) \<Rightarrow> Inr (False, bump (\<lambda>s. s\<lparr>st_send_dropped := st_send_dropped s + 1\<rparr>) m)
          | (True, q) \<Rightarrow> Inr (True, m\<lparr>fm_send_queue := Some q\<rparr>)))"

text \<open>The end of one callback of the dispatcher.\<close>

definition callback_ends :: "('cb \<Rightarrow> Message \<Rightarrow> bool) \<Rightarrow> 'cb CallbackEntry \<Rightarrow> Message \<Rightarrow> 'cb fast_mqtt \<Rightarrow> 'cb fast_mqtt" where
  "callback_ends fails e msg m =
     (if fails (ce_callback e) msg then bump (\<lambda>s. s\<lparr>st_callback_failed := st_callback_failed s + 1\<rparr>) m else m)"

text \<open>The pieces are the operations, when nothing comes in between.\<close>

lemma Publish_pieces:
  "Publish now topic payload qos retain m =
     (if publish_allowed m
      then case publish_push \<lparr>msg_topic = topic, msg_payload = payload, msg_qos = qos, msg_retain = retain, msg_timestamp = now\<rparr> m of
          Inl e \<Rightarrow> (False, m) | Inr x \<Rightarrow> x
      else (False, m))"
  by (auto simp: Publish_def publish_allowed_def publish_push_def split: option.splits prod.splits bool.splits)

lemma HandleMessage_pieces:
  "HandleMessage now topic payload qos retain m =
     (case message_enters now topic payload qos retain m of
        (Counted msg, m) \<Rightarrow> (case message_push msg m of
            Inl e \<Rightarrow> m | Inr (NoRoom, m) \<Rightarrow> message_dropped m | Inr (a, m) \<Rightarrow> m)
      | (a, m) \<Rightarrow> m)"
  by (auto simp: HandleMessage_def message_enters_def message_push_def message_dropped_def bump_def Let_def
      split: option.splits prod.splits bool.splits)

lemma run_callbacks_pieces:
  "snd (run_callbacks fails msg es m) = fold (\<lambda>e. callback_ends fails e msg) es m"
  by (induction es arbitrary: m) (simp_all add: callback_ends_def Let_def case_prod_unfold)

section \<open>The system\<close>

datatype 'cb disp_pc = DIdle | DGot Message | DCalling Message "'cb CallbackEntry list"

record 'cb fm_sys =
  sy :: "'cb fast_mqtt"
  sy_recv :: recv_pc
  sy_ever :: bool
  sy_sending :: "Message option"
  sy_disp :: "'cb disp_pc"
  sy_arriving :: arrival
  sy_publishing :: "Message list"
  sy_exited :: "thread_name list"
  sy_joining :: "thread_name list option"
  sy_accepted :: int
  sy_called :: int
  sy_send_lost :: int
  sy_recv_lost :: int

definition fm_start_sys :: "'cb fm_sys" where
  "fm_start_sys = \<lparr>sy = new_fast_mqtt, sy_recv = RDone, sy_ever = False, sy_sending = None,
     sy_disp = DIdle, sy_arriving = NoArrival, sy_publishing = [], sy_exited = [], sy_joining = None, sy_accepted = 0, sy_called = 0,
     sy_send_lost = 0, sy_recv_lost = 0\<rparr>"

definition alive :: "thread_name \<Rightarrow> 'cb fm_sys \<Rightarrow> bool" where
  "alive t s \<longleftrightarrow> t \<in> set (fm_joinable (sy s)) \<and> t \<notin> set (sy_exited s)"

definition queued :: "Message bq option \<Rightarrow> int" where
  "queued q = (case q of None \<Rightarrow> 0 | Some q \<Rightarrow> int (length (bq_queue q)))"

definition in_hand :: "Message option \<Rightarrow> int" where
  "in_hand r = (case r of None \<Rightarrow> 0 | Some _ \<Rightarrow> 1)"

definition dispatching :: "'cb disp_pc \<Rightarrow> int" where
  "dispatching d = (case d of DIdle \<Rightarrow> 0 | _ \<Rightarrow> 1)"

definition arriving :: "arrival \<Rightarrow> int" where
  "arriving a = (case a of NoArrival \<Rightarrow> 0 | _ \<Rightarrow> 1)"

definition popped :: "Message option \<Rightarrow> 'cb disp_pc" where
  "popped r = (case r of None \<Rightarrow> DIdle | Some msg \<Rightarrow> DGot msg)"

text \<open>The receiver is in no handler of an arriving message.\<close>

definition recv_free :: "'cb fm_sys \<Rightarrow> bool" where
  "recv_free s \<longleftrightarrow> alive RecvThread s \<and> sy_arriving s = NoArrival"

inductive fm_step :: "(string \<Rightarrow> int) \<Rightarrow> (string \<Rightarrow> string \<Rightarrow> bool option) \<Rightarrow> ('cb \<Rightarrow> Message \<Rightarrow> bool) \<Rightarrow>
    ('cb \<Rightarrow> Message \<Rightarrow> bool) \<Rightarrow> 'cb fm_sys \<Rightarrow> 'cb fm_sys \<Rightarrow> bool" for trunc matches fails asks where
  initialize: "sy_joining s = None \<Longrightarrow> Initialize trunc new_ok config (sy s) = (r, m) \<Longrightarrow>
    fm_step trunc matches fails asks s (s\<lparr>sy := m\<rparr>)"
| start_refused: "sy_joining s = None \<Longrightarrow> mqtt_Start (sy s) = Some (False, m) \<Longrightarrow>
    fm_step trunc matches fails asks s (s\<lparr>sy := m\<rparr>)"
| start: "sy_joining s = None \<Longrightarrow> mqtt_Start (sy s) = Some (True, m) \<Longrightarrow>
    fm_step trunc matches fails asks s (s\<lparr>sy := m, sy_recv := RTop, sy_ever := False, sy_exited := []\<rparr>)"
| stop_begins: "sy_joining s = None \<Longrightarrow> fm_state (sy s) = Running \<Longrightarrow>
    fm_step trunc matches fails asks s (s\<lparr>sy := stop_begin (sy s),
      sy_joining := Some [ConnThread, RecvThread, DispThread, SendThread]\<rparr>)"
| stop_joins: "sy_joining s = Some (t # ts) \<Longrightarrow> t \<in> set (sy_exited s) \<Longrightarrow>
    fm_step trunc matches fails asks s (s\<lparr>sy := (sy s)\<lparr>fm_joinable := removeAll t (fm_joinable (sy s))\<rparr>, sy_joining := Some ts\<rparr>)"
| stop_ends: "sy_joining s = Some [] \<Longrightarrow>
    fm_step trunc matches fails asks s (s\<lparr>sy := stop_end (sy s), sy_joining := None\<rparr>)"
| destroy: "sy_joining s = None \<Longrightarrow> fm_state (sy s) \<noteq> Running \<Longrightarrow>
    fm_step trunc matches fails asks s (s\<lparr>sy := destroy_end (sy s),
      sy_send_lost := sy_send_lost s + queued (fm_send_queue (sy s)),
      sy_recv_lost := sy_recv_lost s + queued (fm_recv_queue (sy s))\<rparr>)"
| publish: "publish_allowed (sy s) \<Longrightarrow>
    fm_step trunc matches fails asks s (s\<lparr>sy_publishing := msg # sy_publishing s\<rparr>)"
| publish_queued: "msg \<in> set (sy_publishing s) \<Longrightarrow> publish_push msg (sy s) = Inr (r, m) \<Longrightarrow>
    fm_step trunc matches fails asks s (s\<lparr>sy := m, sy_publishing := remove1 msg (sy_publishing s),
      sy_accepted := sy_accepted s + of_bool r\<rparr>)"
| register: "RegisterCallback topic cb qos (sy s) = (h, m) \<Longrightarrow> fm_step trunc matches fails asks s (s\<lparr>sy := m\<rparr>)"
| unregister: "UnregisterCallback h (sy s) = (r, m) \<Longrightarrow> fm_step trunc matches fails asks s (s\<lparr>sy := m\<rparr>)"
| clear: "fm_step trunc matches fails asks s (s\<lparr>sy := ClearCallback topic (sy s)\<rparr>)"
| clear_all: "fm_step trunc matches fails asks s (s\<lparr>sy := ClearAllCallbacks (sy s)\<rparr>)"
| probe: "alive ConnThread s \<Longrightarrow> fm_step trunc matches fails asks s (s\<lparr>sy := connection_round as (sy s)\<rparr>)"
| conn_exit: "alive ConnThread s \<Longrightarrow> \<not> fm_running (sy s) \<Longrightarrow>
    fm_step trunc matches fails asks s (s\<lparr>sy_exited := ConnThread # sy_exited s\<rparr>)"
| connect: "recv_free s \<Longrightarrow> sy_recv s = RTop \<Longrightarrow> receiver_connect rc (sy_ever s) (sy s) = (pc, m) \<Longrightarrow>
    fm_step trunc matches fails asks s (s\<lparr>sy := m, sy_recv := pc, sy_ever := True\<rparr>)"
| recv_leaves: "recv_free s \<Longrightarrow> sy_recv s \<noteq> RDone \<Longrightarrow> \<not> fm_running (sy s) \<Longrightarrow>
    fm_step trunc matches fails asks s (s\<lparr>sy_recv := RDone\<rparr>)"
| recv_exit: "recv_free s \<Longrightarrow> sy_recv s = RDone \<Longrightarrow>
    fm_step trunc matches fails asks s (s\<lparr>sy_exited := RecvThread # sy_exited s\<rparr>)"
| connected: "recv_free s \<Longrightarrow> sy_recv s = RLoop \<Longrightarrow>
    fm_step trunc matches fails asks s (s\<lparr>sy := HandleConnect now rc (sy s)\<rparr>)"
| disconnected: "recv_free s \<Longrightarrow> fm_step trunc matches fails asks s (s\<lparr>sy := HandleDisconnect (sy s)\<rparr>)"
| message: "recv_free s \<Longrightarrow> sy_recv s = RLoop \<Longrightarrow> message_enters now topic payload qos retain (sy s) = (a, m) \<Longrightarrow>
    fm_step trunc matches fails asks s (s\<lparr>sy := m, sy_arriving := a\<rparr>)"
| message_queued: "alive RecvThread s \<Longrightarrow> sy_arriving s = Counted msg \<Longrightarrow> message_push msg (sy s) = Inr (a, m) \<Longrightarrow>
    fm_step trunc matches fails asks s (s\<lparr>sy := m, sy_arriving := a\<rparr>)"
| message_refused: "alive RecvThread s \<Longrightarrow> sy_arriving s = NoRoom \<Longrightarrow>
    fm_step trunc matches fails asks s (s\<lparr>sy := message_dropped (sy s), sy_arriving := NoArrival\<rparr>)"
| network: "recv_free s \<Longrightarrow> sy_recv s = RLoop \<Longrightarrow> receiver_loop lrc (sy s) = (pc, m) \<Longrightarrow>
    fm_step trunc matches fails asks s (s\<lparr>sy := m, sy_recv := pc\<rparr>)"
| send_pop: "alive SendThread s \<Longrightarrow> sy_sending s = None \<Longrightarrow> sender_pop (sy s) = Inr (r, m) \<Longrightarrow>
    fm_step trunc matches fails asks s (s\<lparr>sy := m, sy_sending := r\<rparr>)"
| send_publish: "alive SendThread s \<Longrightarrow> sy_sending s = Some msg \<Longrightarrow>
    fm_step trunc matches fails asks s (s\<lparr>sy := sender_publish now rc msg (sy s), sy_sending := None\<rparr>)"
| send_exit: "alive SendThread s \<Longrightarrow> sy_sending s = None \<Longrightarrow> \<not> fm_running (sy s) \<Longrightarrow>
    fm_step trunc matches fails asks s (s\<lparr>sy_exited := SendThread # sy_exited s\<rparr>)"
| disp_pop: "alive DispThread s \<Longrightarrow> sy_disp s = DIdle \<Longrightarrow> dispatcher_pop (sy s) = Inr (r, m) \<Longrightarrow>
    fm_step trunc matches fails asks s (s\<lparr>sy := m, sy_disp := popped r\<rparr>)"
| disp_collect: "alive DispThread s \<Longrightarrow> sy_disp s = DGot msg \<Longrightarrow>
    fm_step trunc matches fails asks s
      (s\<lparr>sy_disp := DCalling msg (collect_matched matches (msg_topic msg) (fm_callbacks (sy s)) [])\<rparr>)"
| callback: "alive DispThread s \<Longrightarrow> sy_disp s = DCalling msg (e # es) \<Longrightarrow>
    asks (ce_callback e) msg \<longrightarrow> sy_joining s = None \<Longrightarrow>
    fm_step trunc matches fails asks s (s\<lparr>sy := callback_ends fails e msg (sy s), sy_disp := DCalling msg es\<rparr>)"
| disp_done: "alive DispThread s \<Longrightarrow> sy_disp s = DCalling msg [] \<Longrightarrow>
    fm_step trunc matches fails asks s (s\<lparr>sy_disp := DIdle, sy_called := sy_called s + 1\<rparr>)"
| disp_exit: "alive DispThread s \<Longrightarrow> sy_disp s = DIdle \<Longrightarrow> \<not> fm_running (sy s) \<Longrightarrow>
    fm_step trunc matches fails asks s (s\<lparr>sy_exited := DispThread # sy_exited s\<rparr>)"

section \<open>What each operation leaves alone\<close>

abbreviation all_threads :: "thread_name list" where
  "all_threads \<equiv> [ConnThread, RecvThread, DispThread, SendThread]"

text \<open>The part of the module the life cycle is about, and its counters.\<close>

definition life :: "'cb fast_mqtt \<Rightarrow> LifecycleState \<times> bool \<times> bool \<times> bool \<times> bool \<times> thread_name list \<times> int \<times> bool" where
  "life m = (fm_state m, fm_running m, fm_mosq m, fm_send_queue m \<noteq> None, fm_recv_queue m \<noteq> None,
     fm_joinable m, fm_lib_ref m, fc_enable (fm_config m))"

definition link :: "'cb fast_mqtt \<Rightarrow> bool \<times> bool \<times> bool" where
  "link m = (fm_broker_connected m, fm_session_connected m, fm_ready m)"

definition sent :: "'cb fast_mqtt \<Rightarrow> int" where
  "sent m = st_send_success (fm_stats m) + st_send_failed (fm_stats m) + queued (fm_send_queue m)"

definition received :: "'cb fast_mqtt \<Rightarrow> int" where
  "received m = st_recv_count (fm_stats m) - st_recv_dropped (fm_stats m) - queued (fm_recv_queue m)"

lemmas fm_views = life_def link_def sent_def received_def queued_def

lemma life_eqs: "life m = life m' \<longleftrightarrow> fm_state m = fm_state m' \<and> fm_running m = fm_running m' \<and>
    fm_mosq m = fm_mosq m' \<and> (fm_send_queue m = None \<longleftrightarrow> fm_send_queue m' = None) \<and>
    (fm_recv_queue m = None \<longleftrightarrow> fm_recv_queue m' = None) \<and> fm_joinable m = fm_joinable m' \<and>
    fm_lib_ref m = fm_lib_ref m' \<and> fc_enable (fm_config m) = fc_enable (fm_config m')"
  by (auto simp: life_def)

lemma publish_push_frame:
  "publish_push msg m = Inr (r, m') \<Longrightarrow>
    life m' = life m \<and> link m' = link m \<and> sent m' = sent m + of_bool r \<and> received m' = received m"
  by (auto simp: publish_push_def fm_views bump_def bq_Push_def split: if_splits option.splits prod.splits)

lemma callbacks_frame:
  "life (m\<lparr>fm_callbacks := c\<rparr>) = life m" "link (m\<lparr>fm_callbacks := c\<rparr>) = link m"
  "sent (m\<lparr>fm_callbacks := c\<rparr>) = sent m" "received (m\<lparr>fm_callbacks := c\<rparr>) = received m"
  "life (m\<lparr>fm_next_handle := h\<rparr>) = life m" "link (m\<lparr>fm_next_handle := h\<rparr>) = link m"
  "sent (m\<lparr>fm_next_handle := h\<rparr>) = sent m" "received (m\<lparr>fm_next_handle := h\<rparr>) = received m"
  "life (m\<lparr>fm_calls := l\<rparr>) = life m" "link (m\<lparr>fm_calls := l\<rparr>) = link m"
  "sent (m\<lparr>fm_calls := l\<rparr>) = sent m" "received (m\<lparr>fm_calls := l\<rparr>) = received m"
  by (simp_all add: fm_views)

lemmas table_defs = RegisterCallback_def insert_callback_def subscribe_now_def UnregisterCallback_def
  unsubscribe_now_def ClearCallback_def ClearAllCallbacks_def ResubscribeAll_def call_lib_def

lemma table_frame:
  "RegisterCallback topic cb qos m = (h, m') \<Longrightarrow>
    life m' = life m \<and> link m' = link m \<and> sent m' = sent m \<and> received m' = received m"
  "UnregisterCallback h m = (r, m') \<Longrightarrow>
    life m' = life m \<and> link m' = link m \<and> sent m' = sent m \<and> received m' = received m"
  "life (ClearCallback topic m) = life m \<and> link (ClearCallback topic m) = link m \<and>
    sent (ClearCallback topic m) = sent m \<and> received (ClearCallback topic m) = received m"
  "life (ClearAllCallbacks m) = life m \<and> link (ClearAllCallbacks m) = link m \<and>
    sent (ClearAllCallbacks m) = sent m \<and> received (ClearAllCallbacks m) = received m"
  "life (ResubscribeAll m) = life m \<and> link (ResubscribeAll m) = link m \<and>
    sent (ResubscribeAll m) = sent m \<and> received (ResubscribeAll m) = received m"
  by (auto simp: table_defs callbacks_frame Let_def split: if_splits option.splits prod.splits)

lemma callback_ends_frame:
  "life (callback_ends fails e msg m) = life m \<and> link (callback_ends fails e msg m) = link m \<and>
    sent (callback_ends fails e msg m) = sent m \<and> received (callback_ends fails e msg m) = received m"
  by (simp add: callback_ends_def fm_views bump_def)

lemma backoff_frame:
  "life (snd (NextBackoffSeconds m)) = life m \<and> link (snd (NextBackoffSeconds m)) = link m \<and>
    sent (snd (NextBackoffSeconds m)) = sent m \<and> received (snd (NextBackoffSeconds m)) = received m"
  by (simp add: fm_views NextBackoffSeconds_def Let_def)

lemma handle_connect_frame:
  "life (HandleConnect now rc m) = life m \<and> sent (HandleConnect now rc m) = sent m \<and>
    received (HandleConnect now rc m) = received m \<and>
    link (HandleConnect now rc m) = (rc = 0, rc = 0, rc = 0 \<and> fc_enable (fm_config m))"
  by (simp add: HandleConnect_def table_frame(5)) (simp add: fm_views mqtt_ResetBackoff_def set_link_def bump_def)

lemma message_enters_frame:
  "message_enters now topic payload qos retain m = (a, m') \<Longrightarrow>
    life m' = life m \<and> link m' = link m \<and> sent m' = sent m \<and> received m' = received m + arriving a"
  by (auto simp: message_enters_def arriving_def fm_views bump_def split: option.splits)

lemma message_push_frame:
  "message_push msg m = Inr (a, m') \<Longrightarrow>
    life m' = life m \<and> link m' = link m \<and> sent m' = sent m \<and> received m' + 1 = received m + arriving a"
  by (auto simp: message_push_def arriving_def fm_views bq_Push_def split: option.splits if_splits prod.splits bool.splits)

lemma message_dropped_frame:
  "life (message_dropped m) = life m \<and> link (message_dropped m) = link m \<and>
    sent (message_dropped m) = sent m \<and> received (message_dropped m) + 1 = received m"
  by (simp add: message_dropped_def fm_views bump_def)

lemma set_link_frame:
  "life (set_link u r m) = life m \<and> link (set_link u r m) = (u, u, r) \<and>
    sent (set_link u r m) = sent m \<and> received (set_link u r m) = received m"
  by (simp add: fm_views set_link_def)

lemma receiver_connect_frame:
  "receiver_connect rc ever m = (pc, m') \<Longrightarrow>
    life m' = life m \<and> link m' = link m \<and> sent m' = sent m \<and> received m' = received m \<and>
    (pc = RLoop \<longleftrightarrow> rc = 0)"
  by (auto simp: receiver_connect_def Let_def call_lib_def bump_def NextBackoffSeconds_def fm_views split: if_splits)

lemma receiver_loop_frame:
  "receiver_loop lrc m = (pc, m') \<Longrightarrow>
    life m' = life m \<and> sent m' = sent m \<and> received m' = received m \<and>
    (if lrc = 0 then pc = RLoop \<and> m' = m else pc \<noteq> RLoop \<and> link m' = (False, False, False))"
  using backoff_frame [of "set_link False False m"] set_link_frame [of False False m]
  by (auto simp: receiver_loop_def Let_def split: if_splits)

lemma sender_pop_frame:
  "sender_pop m = Inr (r, m') \<Longrightarrow>
    life m' = life m \<and> link m' = link m \<and> sent m' + in_hand r = sent m \<and> received m' = received m"
  by (auto simp: sender_pop_def fm_views bq_Pop_timed_def Let_def in_hand_def split: option.splits list.splits prod.splits if_splits)

lemma sender_publish_frame:
  "life (sender_publish now rc msg m) = life m \<and> link (sender_publish now rc msg m) = link m \<and>
    sent (sender_publish now rc msg m) = sent m + 1 \<and> received (sender_publish now rc msg m) = received m"
  by (auto simp: sender_publish_def DoPublish_def call_lib_def bump_def fm_views split: bool.splits)

lemma dispatcher_pop_frame:
  "dispatcher_pop m = Inr (r, m') \<Longrightarrow>
    life m' = life m \<and> link m' = link m \<and> sent m' = sent m \<and> received m' = received m + in_hand r"
  by (auto simp: dispatcher_pop_def fm_views bq_Pop_timed_def Let_def in_hand_def split: option.splits list.splits prod.splits if_splits)

section \<open>Invariants\<close>

text \<open>The life cycle: which parts exist and which threads may run in each state.\<close>

definition life_ok :: "thread_name list option \<Rightarrow> LifecycleState \<times> bool \<times> bool \<times> bool \<times> bool \<times> thread_name list \<times> int \<times> bool \<Rightarrow> bool" where
  "life_ok joining l = (case l of (state, running, mosq, sendq, recvq, joinable, lib_ref, enable) \<Rightarrow>
     lib_ref = of_bool mosq \<and> sendq = mosq \<and> recvq = mosq \<and>
     (case state of
        Uninitialized \<Rightarrow> \<not> running \<and> \<not> mosq \<and> joinable = [] \<and> joining = None
      | Initialized \<Rightarrow> \<not> running \<and> mosq = enable \<and> joinable = [] \<and> joining = None
      | Starting \<Rightarrow> False
      | Running \<Rightarrow> running \<and> mosq \<and> enable \<and> joinable = all_threads \<and> joining = None
      | Stopping \<Rightarrow> \<not> running \<and> mosq \<and> enable \<and> joining = Some joinable \<and>
          joinable \<in> {all_threads, [RecvThread, DispThread, SendThread], [DispThread, SendThread], [SendThread], []}
      | Stopped \<Rightarrow> \<not> running \<and> mosq \<and> enable \<and> joinable = [] \<and> joining = None))"

definition link_ok :: "LifecycleState \<Rightarrow> recv_pc \<Rightarrow> bool \<times> bool \<times> bool \<Rightarrow> bool" where
  "link_ok state pc l = (case l of (broker, session, ready) \<Rightarrow> session = broker \<and> ready = broker \<and>
     (broker \<longrightarrow> state = Running \<and> pc = RLoop \<or> state = Stopping \<and> pc \<noteq> RTop))"

definition fm_inv :: "'cb fm_sys \<Rightarrow> bool" where
  "fm_inv s \<longleftrightarrow>
     life_ok (sy_joining s) (life (sy s)) \<and> link_ok (fm_state (sy s)) (sy_recv s) (link (sy s)) \<and>
     (sy_sending s \<noteq> None \<longrightarrow> alive SendThread s) \<and> (sy_disp s \<noteq> DIdle \<longrightarrow> alive DispThread s) \<and>
     (sy_arriving s \<noteq> NoArrival \<longrightarrow> alive RecvThread s) \<and>
     sy_accepted s = sent (sy s) + in_hand (sy_sending s) + sy_send_lost s \<and>
     received (sy s) = arriving (sy_arriving s) + dispatching (sy_disp s) + sy_called s + sy_recv_lost s"

lemma life_fields: "fst (life m) = fm_state m" "fst (snd (life m)) = fm_running m"
  "fst (snd (snd (snd (snd (snd (life m)))))) = fm_joinable m"
  "snd (snd (snd (snd (snd (snd (snd (life m))))))) = fc_enable (fm_config m)"
  by (simp_all add: life_def)

lemma life_sameD: "life m' = life m \<Longrightarrow> fm_state m' = fm_state m \<and> fm_running m' = fm_running m \<and>
    fm_joinable m' = fm_joinable m \<and> fc_enable (fm_config m') = fc_enable (fm_config m)"
  by (simp add: life_def)

text \<open>A step of a thread or of a caller that leaves the life cycle alone.\<close>

lemma fm_inv_frame:
  assumes "fm_inv s" and "life (sy s') = life (sy s)" and "sy_joining s' = sy_joining s" and "sy_exited s' = sy_exited s"
    and "link_ok (fm_state (sy s)) (sy_recv s') (link (sy s'))"
    and "sy_sending s' \<noteq> None \<Longrightarrow> alive SendThread s" and "sy_disp s' \<noteq> DIdle \<Longrightarrow> alive DispThread s"
    and "sy_arriving s' \<noteq> NoArrival \<Longrightarrow> alive RecvThread s"
    and "sy_accepted s' = sent (sy s') + in_hand (sy_sending s') + sy_send_lost s'"
    and "received (sy s') = arriving (sy_arriving s') + dispatching (sy_disp s') + sy_called s' + sy_recv_lost s'"
  shows "fm_inv s'"
  using assms life_sameD [OF assms(2)] by (auto simp: fm_inv_def alive_def)

lemma in_hand_simps [simp]: "in_hand None = 0" "in_hand (Some x) = 1"
  by (simp_all add: in_hand_def)

lemma pc_simps [simp]: "dispatching DIdle = 0" "dispatching (DGot msg) = 1" "dispatching (DCalling msg es) = 1"
  "arriving NoArrival = 0" "arriving (Counted msg) = 1" "arriving NoRoom = 1"
  by (simp_all add: dispatching_def arriving_def)

lemma dispatching_popped [simp]: "dispatching (popped r) = in_hand r" "popped None = DIdle"
  by (cases r; simp add: popped_def)+

text \<open>A call from outside the threads.\<close>

lemma fm_inv_caller:
  assumes "fm_inv s" and "life m = life (sy s)" and "link m = link (sy s)" and "sent m = sent (sy s) + a"
    and "received m = received (sy s)"
  shows "fm_inv (s\<lparr>sy := m, sy_publishing := ps, sy_accepted := sy_accepted s + a\<rparr>)"
  using assms(1,3-5) life_sameD [OF assms(2)] unfolding fm_inv_def alive_def by (simp add: assms(2))

lemma fm_inv_table:
  assumes "fm_inv s" and "life m = life (sy s) \<and> link m = link (sy s) \<and> sent m = sent (sy s) \<and> received m = received (sy s)"
  shows "fm_inv (s\<lparr>sy := m\<rparr>)"
  using fm_inv_caller [of s m 0 "sy_publishing s"] assms by simp

lemma alive_states: "fm_inv s \<Longrightarrow> alive t s \<Longrightarrow> fm_state (sy s) = Running \<or> fm_state (sy s) = Stopping"
  by (auto simp: fm_inv_def alive_def life_ok_def life_def split: LifecycleState.splits)

lemma alive_enable: "fm_inv s \<Longrightarrow> alive t s \<Longrightarrow> fc_enable (fm_config (sy s))"
  by (auto simp: fm_inv_def alive_def life_ok_def life_def split: LifecycleState.splits)

lemma recv_free_states: "fm_inv s \<Longrightarrow> recv_free s \<Longrightarrow> fm_state (sy s) = Running \<or> fm_state (sy s) = Stopping"
  by (auto simp: recv_free_def dest: alive_states)

lemma recv_free_enable: "fm_inv s \<Longrightarrow> recv_free s \<Longrightarrow> fc_enable (fm_config (sy s))"
  by (auto simp: recv_free_def dest: alive_enable)

lemma Initialize_ok:
  assumes i: "fm_inv s" and r: "Initialize trunc new_ok config (sy s) = (r, m)"
  shows "fm_inv (s\<lparr>sy := m\<rparr>)"
proof (cases "fm_state (sy s) = Uninitialized")
  case True
  then show ?thesis
    using i r by (auto simp: Initialize_def Let_def call_lib_def fm_inv_def life_ok_def life_def link_ok_def link_def
        sent_def received_def queued_def alive_def bq_ctor_def split: sum.splits if_splits)
next
  case False
  then have "m = sy s" using r by (simp add: Initialize_def)
  then show ?thesis using i by simp
qed

lemma start_threads_all: "fm_joinable m = [] \<Longrightarrow> start_threads all_threads m = Some (m\<lparr>fm_joinable := all_threads\<rparr>)"
  by simp

lemma Start_ok:
  assumes i: "fm_inv s" and r: "mqtt_Start (sy s) = Some (True, m)"
  shows "fm_inv (s\<lparr>sy := m, sy_recv := RTop, sy_ever := False, sy_exited := []\<rparr>)"
proof -
  have st: "fm_state (sy s) = Initialized" "fc_enable (fm_config (sy s))"
    using r by (auto simp: mqtt_Start_def split: if_splits)
  then have j: "fm_joinable (sy s) = []"
    using i by (simp add: fm_inv_def life_ok_def life_def)
  have "m = (mqtt_ResetBackoff ((sy s)\<lparr>fm_state := Starting, fm_running := True\<rparr>))\<lparr>fm_joinable := all_threads, fm_state := Running\<rparr>"
    using r st j by (simp add: mqtt_Start_def mqtt_ResetBackoff_def)
  then show ?thesis
    using i st j by (auto simp: fm_inv_def mqtt_ResetBackoff_def life_ok_def life_def link_ok_def link_def alive_def
        sent_def received_def)
qed

lemma Start_refused: "mqtt_Start m = Some (False, m') \<Longrightarrow> m' = m"
  by (auto simp: mqtt_Start_def split: if_splits option.splits)

lemma queued_shutdown [simp]: "queued (map_option bq_Shutdown q) = queued q"
  by (cases q) (simp_all add: queued_def bq_Shutdown_def)

lemma stop_begin_ok:
  assumes i: "fm_inv s" and r: "fm_state (sy s) = Running"
  shows "fm_inv (s\<lparr>sy := stop_begin (sy s), sy_joining := Some all_threads\<rparr>)"
proof -
  have "link (stop_begin (sy s)) = link (sy s)" "sent (stop_begin (sy s)) = sent (sy s)"
    "received (stop_begin (sy s)) = received (sy s)" "fm_joinable (stop_begin (sy s)) = fm_joinable (sy s)"
    "fm_state (stop_begin (sy s)) = Stopping"
    by (simp_all add: stop_begin_def Let_def call_lib_def link_def sent_def received_def)
  moreover have "life (stop_begin (sy s)) = (Stopping, False, fm_mosq (sy s), fm_send_queue (sy s) \<noteq> None,
      fm_recv_queue (sy s) \<noteq> None, fm_joinable (sy s), fm_lib_ref (sy s), fc_enable (fm_config (sy s)))"
    by (auto simp: stop_begin_def Let_def call_lib_def life_def)
  ultimately show ?thesis
    using i r by (auto simp: fm_inv_def life_ok_def link_ok_def alive_def life_def)
qed

lemma stop_end_ok:
  assumes i: "fm_inv s" and r: "sy_joining s = Some []"
  shows "fm_inv (s\<lparr>sy := stop_end (sy s), sy_joining := None\<rparr>)"
  using assms by (auto simp: fm_inv_def life_ok_def link_ok_def alive_def life_def link_def sent_def received_def
      stop_end_def split: LifecycleState.splits)

lemma stop_joins_ok:
  assumes i: "fm_inv s" and r: "sy_joining s = Some (t # ts)" "t \<in> set (sy_exited s)"
  shows "fm_inv (s\<lparr>sy := (sy s)\<lparr>fm_joinable := removeAll t (fm_joinable (sy s))\<rparr>, sy_joining := Some ts\<rparr>)"
proof -
  have st: "fm_state (sy s) = Stopping" "fm_joinable (sy s) = t # ts"
    "t # ts \<in> {all_threads, [RecvThread, DispThread, SendThread], [DispThread, SendThread], [SendThread]}"
    using i r by (auto simp: fm_inv_def life_ok_def life_def split: LifecycleState.splits)
  have "\<not> alive t s" using r by (simp add: alive_def)
  then show ?thesis
    using i r st by (auto simp: fm_inv_def life_ok_def link_ok_def alive_def life_def link_def sent_def received_def)
qed

lemma destroy_ok:
  assumes i: "fm_inv s" and r: "sy_joining s = None" "fm_state (sy s) \<noteq> Running"
  shows "fm_inv (s\<lparr>sy := destroy_end (sy s), sy_send_lost := sy_send_lost s + queued (fm_send_queue (sy s)),
      sy_recv_lost := sy_recv_lost s + queued (fm_recv_queue (sy s))\<rparr>)"
  using assms by (auto simp: fm_inv_def life_ok_def link_ok_def alive_def life_def link_def sent_def received_def
      destroy_end_def Let_def call_lib_def ClearAllCallbacks_def queued_def split: LifecycleState.splits)

lemma exit_ok:
  assumes i: "fm_inv s" and h: "t = SendThread \<Longrightarrow> sy_sending s = None" "t = DispThread \<Longrightarrow> sy_disp s = DIdle"
    "t = RecvThread \<Longrightarrow> sy_arriving s = NoArrival"
  shows "fm_inv (s\<lparr>sy_exited := t # sy_exited s\<rparr>)"
  using assms by (auto simp: fm_inv_def alive_def)

theorem fm_step_inv: "fm_step trunc matches fails asks s s' \<Longrightarrow> fm_inv s \<Longrightarrow> fm_inv s'"
proof (induction rule: fm_step.induct)
  case (initialize s new_ok config r m)
  then show ?case using Initialize_ok by blast
next
  case (start_refused s m)
  then show ?case using Start_refused by fastforce
next
  case (start s m)
  then show ?case using Start_ok by blast
next
  case (stop_begins s)
  then show ?case using stop_begin_ok by blast
next
  case (stop_joins s t ts)
  then show ?case using stop_joins_ok by blast
next
  case (stop_ends s)
  then show ?case using stop_end_ok by blast
next
  case (destroy s)
  then show ?case using destroy_ok by blast
next
  case (publish s msg)
  then show ?case by (simp add: fm_inv_def alive_def)
next
  case (publish_queued msg s r m)
  then show ?case using publish_push_frame [OF publish_queued(2)] by (intro fm_inv_caller) simp_all
next
  case (register topic cb qos s h m)
  then show ?case using table_frame(1) [OF register(1)] by (intro fm_inv_table) simp_all
next
  case (unregister h s r m)
  then show ?case using table_frame(2) [OF unregister(1)] by (intro fm_inv_table) simp_all
next
  case (clear s topic)
  then show ?case using table_frame(3) by (intro fm_inv_table) blast+
next
  case (clear_all s)
  then show ?case using table_frame(4) by (intro fm_inv_table) blast+
next
  case (probe s as)
  then show ?case
    by - (rule fm_inv_frame [of s]; auto simp: fm_inv_def connection_round_def fm_views link_ok_def)
next
  case (conn_exit s)
  then show ?case by (intro exit_ok) auto
next
  case (connect s rc pc m)
  then show ?case
    using receiver_connect_frame [OF connect(3)] recv_free_states [OF connect(4,1)]
    by - (rule fm_inv_frame [of s]; auto simp: fm_inv_def link_ok_def)
next
  case (recv_leaves s)
  then show ?case
    using recv_free_states [OF recv_leaves(4,1)]
    by - (rule fm_inv_frame [of s]; auto simp: fm_inv_def link_ok_def life_ok_def life_def)
next
  case (recv_exit s)
  then show ?case by (intro exit_ok) (auto simp: recv_free_def)
next
  case (connected s now rc)
  then show ?case
    using handle_connect_frame [of now rc "sy s"] recv_free_states [OF connected(3,1)] recv_free_enable [OF connected(3,1)]
    by - (rule fm_inv_frame [of s]; auto simp: fm_inv_def link_ok_def)
next
  case (disconnected s)
  then show ?case
    using set_link_frame [of False False "sy s"]
    by - (rule fm_inv_frame [of s]; auto simp: fm_inv_def link_ok_def HandleDisconnect_def)
next
  case (message s now topic payload qos retain a m)
  then show ?case
    using message_enters_frame [OF message(3)]
    by - (rule fm_inv_frame [of s]; auto simp: fm_inv_def recv_free_def)
next
  case (message_queued s msg a m)
  then show ?case
    using message_push_frame [OF message_queued(3)] by - (rule fm_inv_frame [of s]; auto simp: fm_inv_def)
next
  case (message_refused s)
  then show ?case
    using message_dropped_frame [of "sy s"] by - (rule fm_inv_frame [of s]; auto simp: fm_inv_def)
next
  case (network s lrc pc m)
  then show ?case
    using receiver_loop_frame [OF network(3)]
    by - (rule fm_inv_frame [of s]; auto simp: fm_inv_def link_ok_def split: if_splits)
next
  case (send_pop s r m)
  then show ?case
    using sender_pop_frame [OF send_pop(3)] by - (rule fm_inv_frame [of s]; auto simp: fm_inv_def)
next
  case (send_publish s msg now rc)
  then show ?case
    using sender_publish_frame [of now rc msg "sy s"] by - (rule fm_inv_frame [of s]; auto simp: fm_inv_def)
next
  case (send_exit s)
  then show ?case by (intro exit_ok) auto
next
  case (disp_pop s r m)
  then show ?case
    using dispatcher_pop_frame [OF disp_pop(3)] by - (rule fm_inv_frame [of s]; auto simp: fm_inv_def)
next
  case (disp_collect s msg)
  then show ?case by - (rule fm_inv_frame [of s]; auto simp: fm_inv_def)
next
  case (callback s msg e es)
  then show ?case
    using callback_ends_frame [of fails e msg "sy s"] by - (rule fm_inv_frame [of s]; auto simp: fm_inv_def)
next
  case (disp_done s msg)
  then show ?case by - (rule fm_inv_frame [of s]; auto simp: fm_inv_def)
next
  case (disp_exit s)
  then show ?case by (intro exit_ok) auto
qed

lemma fm_inv_start: "fm_inv fm_start_sys"
  by (simp add: fm_inv_def fm_start_sys_def new_fast_mqtt_def new_statistics_def life_ok_def life_def link_ok_def
      link_def sent_def received_def queued_def)

interpretation mqtt: invariant_system "\<lambda>s. s = fm_start_sys" "fm_step trunc matches fails asks" fm_inv
  for trunc matches fails asks
  by unfold_locales (auto simp: fm_inv_start intro: fm_step_inv)

end
