(* ===== verification/FastMqttLaws.thy ===== *)
theory FastMqttLaws
  imports FastMqttThreads
begin

text \<open>
  What holds of \<open>FastMQTT\<close>: no message is lost unaccounted under any interleaving, readiness means a
  session, \<open>Stop\<close> can always finish, a message reaches exactly the registered callbacks that match,
  the backoff follows its table, and what goes wrong when a callback stops the module.
\<close>

section \<open>Accounting and readiness\<close>

text \<open>C4: Under every interleaving of the callers, the four threads and the library, a publisher between its
  look at the state and its push included, each message that \<open>Publish\<close> took is exactly once counted as sent
  or as failed, in the queue, in the sender's hands, or lost without a count because it was still queued when
  \<open>Destroy\<close> dropped the queue; each message that arrived is counted as dropped, was given to the
  callbacks, is still queued, in the hands of the receiver or the dispatcher, or was lost with the queue.
  Callbacks may use the module while they run.\<close>

theorem mqtt_messages_accounted:
  assumes "(fm_step trunc matches fails asks)\<^sup>*\<^sup>* fm_start_sys s"
  shows "sy_accepted s = st_send_success (fm_stats (sy s)) + st_send_failed (fm_stats (sy s)) +
      queued (fm_send_queue (sy s)) + in_hand (sy_sending s) + sy_send_lost s \<and>
    st_recv_count (fm_stats (sy s)) = st_recv_dropped (fm_stats (sy s)) + sy_called s +
      queued (fm_recv_queue (sy s)) + arriving (sy_arriving s) + dispatching (sy_disp s) + sy_recv_lost s"
  using mqtt.reachable_inv [OF _ assms] by (simp add: fm_inv_def sent_def received_def)

text \<open>A publisher that passed its look at the state can push into a queue that \<open>Destroy\<close> has dropped: the push
  then goes through a null pointer.\<close>

lemma publisher_outlives_queue:
  assumes "fm_state (sy s) = Stopped" and "sy_joining s = None" and "msg \<in> set (sy_publishing s)"
  shows "\<exists>s'. fm_step trunc matches fails asks s s' \<and> msg \<in> set (sy_publishing s') \<and>
    publish_push msg (sy s') = Inl UndefinedBehaviour"
proof -
  let ?s = "s\<lparr>sy := destroy_end (sy s), sy_send_lost := sy_send_lost s + queued (fm_send_queue (sy s)),
      sy_recv_lost := sy_recv_lost s + queued (fm_recv_queue (sy s))\<rparr>"
  have "fm_step trunc matches fails asks s ?s" using assms by (intro fm_step.destroy) simp_all
  then show ?thesis using assms(3)
    by (intro exI [of _ ?s]) (simp add: publish_push_def destroy_end_def Let_def call_lib_def ClearAllCallbacks_def)
qed

text \<open>A module that says it is ready is running with its session, or being stopped; while it runs its receiver
  is in the network loop, the handle of the library exists and the queues do. The library is initialised
  exactly as often as there is a handle.\<close>

theorem mqtt_ready_means_session:
  assumes "(fm_step trunc matches fails asks)\<^sup>*\<^sup>* fm_start_sys s"
  shows "fm_ready (sy s) \<Longrightarrow> fm_session_connected (sy s) \<and> fm_broker_connected (sy s) \<and> fm_mosq (sy s) \<and>
      fm_send_queue (sy s) \<noteq> None \<and> fm_recv_queue (sy s) \<noteq> None \<and>
      (fm_state (sy s) = Running \<and> sy_recv s = RLoop \<or> fm_state (sy s) = Stopping)"
    and "fm_lib_ref (sy s) = of_bool (fm_mosq (sy s))"
  using mqtt.reachable_inv [OF _ assms]
  by (auto simp: fm_inv_def link_ok_def link_def life_ok_def life_def split: LifecycleState.splits)

section \<open>Stop returns\<close>

lemma exits_now:
  assumes "alive t s" "\<not> fm_running (sy s)" "t = RecvThread \<Longrightarrow> sy_recv s = RDone"
    "t = SendThread \<Longrightarrow> sy_sending s = None" "t = DispThread \<Longrightarrow> sy_disp s = DIdle"
    "t = RecvThread \<Longrightarrow> sy_arriving s = NoArrival"
  shows "fm_step trunc matches fails asks s (s\<lparr>sy_exited := t # sy_exited s\<rparr>)"
  using assms by (cases t) (auto intro: fm_step.intros simp: recv_free_def)

text \<open>A callback of the message in the dispatcher's hands, not yet returned, asks for the status.\<close>

definition asks_pending :: "(string \<Rightarrow> string \<Rightarrow> bool option) \<Rightarrow> ('cb \<Rightarrow> Message \<Rightarrow> bool) \<Rightarrow> 'cb fm_sys \<Rightarrow> bool" where
  "asks_pending matches asks s =
     (case sy_disp s of
        DIdle \<Rightarrow> False
      | DGot msg \<Rightarrow> list_ex (\<lambda>e. asks (ce_callback e) msg)
          (collect_matched matches (msg_topic msg) (fm_callbacks (sy s)) [])
      | DCalling msg es \<Rightarrow> list_ex (\<lambda>e. asks (ce_callback e) msg) es)"

lemma asks_pending_cong:
  "sy_disp s = sy_disp s' \<Longrightarrow> fm_callbacks (sy s) = fm_callbacks (sy s') \<Longrightarrow>
    asks_pending matches asks s = asks_pending matches asks s'"
  unfolding asks_pending_def by presburger

text \<open>The dispatcher comes to the end of its message when none of the callbacks asks.\<close>

lemma callbacks_end:
  assumes "alive DispThread s" and "sy_disp s = DCalling msg es" and "\<not> list_ex (\<lambda>e. asks (ce_callback e) msg) es"
  shows "(fm_step trunc matches fails asks)\<^sup>*\<^sup>* s
    (s\<lparr>sy := fold (\<lambda>e. callback_ends fails e msg) es (sy s), sy_disp := DIdle, sy_called := sy_called s + 1\<rparr>)"
  using assms
proof (induction es arbitrary: s)
  case Nil
  have "fm_step trunc matches fails asks s (s\<lparr>sy_disp := DIdle, sy_called := sy_called s + 1\<rparr>)"
    using Nil by (intro fm_step.disp_done) auto
  then show ?case by (auto intro: r_into_rtranclp)
next
  case (Cons e es)
  let ?u = "s\<lparr>sy := callback_ends fails e msg (sy s), sy_disp := DCalling msg es\<rparr>"
  have "fm_step trunc matches fails asks s ?u" using Cons.prems by (intro fm_step.callback) auto
  moreover have "alive DispThread ?u"
    using Cons.prems(1) callback_ends_frame [of fails e msg "sy s"] by (simp add: alive_def life_eqs)
  ultimately show ?case using Cons.IH [of ?u] Cons.prems(3) by (auto intro: converse_rtranclp_into_rtranclp)
qed

lemma fold_callback_ends_frame:
  "life (fold (\<lambda>e. callback_ends fails e msg) es m) = life m \<and> link (fold (\<lambda>e. callback_ends fails e msg) es m) = link m \<and>
    sent (fold (\<lambda>e. callback_ends fails e msg) es m) = sent m \<and>
    received (fold (\<lambda>e. callback_ends fails e msg) es m) = received m"
  by (induction es arbitrary: m) (simp_all add: callback_ends_frame)

text \<open>What it then has done is \<open>DispatchToCallbacks\<close> on the table as it was when collected.\<close>

lemma dispatch_ends:
  assumes a: "alive DispThread s" and d: "sy_disp s \<noteq> DIdle" and n: "\<not> asks_pending matches asks s"
  shows "\<exists>m. (fm_step trunc matches fails asks)\<^sup>*\<^sup>* s (s\<lparr>sy := m, sy_disp := DIdle, sy_called := sy_called s + 1\<rparr>) \<and>
    life m = life (sy s) \<and> (\<forall>msg. sy_disp s = DGot msg \<longrightarrow> m = snd (DispatchToCallbacks matches fails msg (sy s)))"
proof (cases "sy_disp s")
  case (DGot msg)
  let ?es = "collect_matched matches (msg_topic msg) (fm_callbacks (sy s)) []"
  let ?u = "s\<lparr>sy_disp := DCalling msg ?es\<rparr>" and ?m = "fold (\<lambda>e. callback_ends fails e msg) ?es (sy s)"
  have "fm_step trunc matches fails asks s ?u" using a DGot by (intro fm_step.disp_collect)
  moreover have "(fm_step trunc matches fails asks)\<^sup>*\<^sup>* ?u
      (?u\<lparr>sy := fold (\<lambda>e. callback_ends fails e msg) ?es (sy ?u), sy_disp := DIdle, sy_called := sy_called ?u + 1\<rparr>)"
    using a n DGot by (intro callbacks_end) (simp_all add: alive_def asks_pending_def)
  ultimately have "(fm_step trunc matches fails asks)\<^sup>*\<^sup>* s (s\<lparr>sy := ?m, sy_disp := DIdle, sy_called := sy_called s + 1\<rparr>)"
    by (simp add: converse_rtranclp_into_rtranclp)
  moreover have "life ?m = life (sy s)" using fold_callback_ends_frame by blast
  ultimately show ?thesis using DGot
    by (intro exI [of _ ?m]) (simp add: DispatchToCallbacks_def run_callbacks_pieces)
next
  case (DCalling msg es)
  let ?m = "fold (\<lambda>e. callback_ends fails e msg) es (sy s)"
  have "(fm_step trunc matches fails asks)\<^sup>*\<^sup>* s (s\<lparr>sy := ?m, sy_disp := DIdle, sy_called := sy_called s + 1\<rparr>)"
    using a n DCalling by (intro callbacks_end) (simp_all add: asks_pending_def)
  moreover have "life ?m = life (sy s)" using fold_callback_ends_frame by blast
  ultimately show ?thesis using DCalling by (intro exI [of _ ?m]) simp
qed (use d in simp)

text \<open>The receiver comes out of the handler of a message.\<close>

lemma handler_ends:
  assumes i: "fm_inv s" and a: "alive RecvThread s"
  shows "\<exists>s'. (fm_step trunc matches fails asks)\<^sup>*\<^sup>* s s' \<and> recv_free s' \<and> life (sy s') = life (sy s) \<and>
    sy_joining s' = sy_joining s \<and> sy_exited s' = sy_exited s \<and> sy_disp s' = sy_disp s \<and>
    fm_callbacks (sy s') = fm_callbacks (sy s)"
proof -
  have refused: ?thesis if r: "(fm_step trunc matches fails asks)\<^sup>*\<^sup>* s u" "sy_arriving u = NoRoom" "sy u = sy s"
      "sy_joining u = sy_joining s" "sy_exited u = sy_exited s" "sy_disp u = sy_disp s" for u
  proof -
    let ?u = "u\<lparr>sy := message_dropped (sy u), sy_arriving := NoArrival\<rparr>"
    have "alive RecvThread u" using a r by (simp add: alive_def)
    then have "fm_step trunc matches fails asks u ?u" using r(2) by (intro fm_step.message_refused)
    then show ?thesis
      using r a message_dropped_frame [of "sy s"]
      by (intro exI [of _ ?u]) (auto simp: recv_free_def alive_def life_eqs message_dropped_def bump_def)
  qed
  show ?thesis
  proof (cases "sy_arriving s")
    case NoArrival
    then show ?thesis using a by (intro exI [of _ s]) (simp add: recv_free_def)
  next
    case NoRoom
    then show ?thesis using refused [of s] by simp
  next
    case (Counted msg)
    obtain q where q: "fm_recv_queue (sy s) = Some q"
      using i alive_states [OF i a] by (auto simp: fm_inv_def life_ok_def life_def split: LifecycleState.splits)
    obtain b q' where p: "bq_Push msg q = (b, q')" by fastforce
    show ?thesis
    proof (cases b)
      case True
      let ?u = "s\<lparr>sy := (sy s)\<lparr>fm_recv_queue := Some q'\<rparr>, sy_arriving := NoArrival\<rparr>"
      have "fm_step trunc matches fails asks s ?u"
        using a Counted q p True by (intro fm_step.message_queued) (auto simp: message_push_def)
      then show ?thesis using a q by (intro exI [of _ ?u]) (auto simp: recv_free_def alive_def life_def)
    next
      case False
      have "fm_step trunc matches fails asks s (s\<lparr>sy := sy s, sy_arriving := NoRoom\<rparr>)"
        using a Counted q p False by (intro fm_step.message_queued) (auto simp: message_push_def)
      then show ?thesis by (intro refused [of "s\<lparr>sy := sy s, sy_arriving := NoRoom\<rparr>"]) auto
    qed
  qed
qed

text \<open>A thread that is asked to end comes to the end of its round and ends.\<close>

lemma thread_ends:
  assumes i: "fm_inv s" and st: "fm_state (sy s) = Stopping" and t: "t \<in> set (fm_joinable (sy s))"
    and n: "\<not> asks_pending matches asks s"
  shows "\<exists>s'. (fm_step trunc matches fails asks)\<^sup>*\<^sup>* s s' \<and> t \<in> set (sy_exited s') \<and>
    life (sy s') = life (sy s) \<and> sy_joining s' = sy_joining s \<and> \<not> asks_pending matches asks s'"
proof (cases "alive t s")
  case False
  then show ?thesis using t n by (intro exI [of _ s]) (auto simp: alive_def)
next
  case a: True
  have nr: "\<not> fm_running (sy s)" using i st by (simp add: fm_inv_def life_ok_def life_def)
  have finish: ?thesis if p: "(fm_step trunc matches fails asks)\<^sup>*\<^sup>* s u" "life (sy u) = life (sy s)" "sy_joining u = sy_joining s"
      "sy_exited u = sy_exited s" "t = RecvThread \<Longrightarrow> sy_recv u = RDone \<and> sy_arriving u = NoArrival"
      "t = SendThread \<Longrightarrow> sy_sending u = None" "t = DispThread \<Longrightarrow> sy_disp u = DIdle"
      "\<not> asks_pending matches asks u" for u
  proof -
    have "alive t u" "\<not> fm_running (sy u)"
      using a nr life_sameD [OF p(2)] p(4) by (simp_all add: alive_def)
    then have "fm_step trunc matches fails asks u (u\<lparr>sy_exited := t # sy_exited u\<rparr>)"
      using p(5-7) by (intro exits_now) auto
    with p(1-3,8) show ?thesis
      using asks_pending_cong [of "u\<lparr>sy_exited := t # sy_exited u\<rparr>" u]
      by (intro exI [of _ "u\<lparr>sy_exited := t # sy_exited u\<rparr>"]) simp
  qed
  show ?thesis
  proof (cases t)
    case ConnThread
    then show ?thesis using n by (intro finish [of s]) simp_all
  next
    case RecvThread
    obtain u where u: "(fm_step trunc matches fails asks)\<^sup>*\<^sup>* s u" "recv_free u" "life (sy u) = life (sy s)"
      "sy_joining u = sy_joining s" "sy_exited u = sy_exited s" "sy_disp u = sy_disp s"
      "fm_callbacks (sy u) = fm_callbacks (sy s)"
      using handler_ends [OF i, where trunc = trunc and matches = matches and fails = fails and asks = asks] a RecvThread by auto
    then have n': "\<not> asks_pending matches asks u" using n asks_pending_cong [of u s] by simp
    have f: "sy_arriving u = NoArrival" using u(2) by (simp add: recv_free_def)
    show ?thesis
    proof (cases "sy_recv u = RDone")
      case True
      then show ?thesis using RecvThread u n' f by (intro finish [of u]) simp_all
    next
      case False
      have "fm_step trunc matches fails asks u (u\<lparr>sy_recv := RDone\<rparr>)"
        using u False nr life_sameD [OF u(3)] by (intro fm_step.recv_leaves) simp_all
      with u(1) have "(fm_step trunc matches fails asks)\<^sup>*\<^sup>* s (u\<lparr>sy_recv := RDone\<rparr>)" by simp
      then show ?thesis using RecvThread u n' f
        using asks_pending_cong [of "u\<lparr>sy_recv := RDone\<rparr>" u]
        by (intro finish [of "u\<lparr>sy_recv := RDone\<rparr>"]) auto
    qed
  next
    case DispThread
    show ?thesis
    proof (cases "sy_disp s = DIdle")
      case True
      then show ?thesis using DispThread n by (intro finish [of s]) simp_all
    next
      case False
      obtain m where "(fm_step trunc matches fails asks)\<^sup>*\<^sup>* s (s\<lparr>sy := m, sy_disp := DIdle, sy_called := sy_called s + 1\<rparr>)"
        "life m = life (sy s)"
        using dispatch_ends [OF _ False n] a DispThread by blast
      then show ?thesis using DispThread
        by (intro finish [of "s\<lparr>sy := m, sy_disp := DIdle, sy_called := sy_called s + 1\<rparr>"]) (auto simp: asks_pending_def)
    qed
  next
    case SendThread
    show ?thesis
    proof (cases "sy_sending s")
      case None
      then show ?thesis using SendThread n by (intro finish [of s]) simp_all
    next
      case (Some msg)
      let ?u = "s\<lparr>sy := sender_publish 0 0 msg (sy s), sy_sending := None\<rparr>"
      have "fm_callbacks (sender_publish 0 0 msg (sy s)) = fm_callbacks (sy s)"
        by (auto simp: sender_publish_def DoPublish_def call_lib_def bump_def)
      then have "\<not> asks_pending matches asks ?u" using n asks_pending_cong [of ?u s] by simp
      moreover have "fm_step trunc matches fails asks s ?u"
        using a SendThread Some by (intro fm_step.send_publish) simp_all
      ultimately show ?thesis
        using SendThread sender_publish_frame [of 0 0 msg "sy s"] by (intro finish [of ?u]) auto
    qed
  qed
qed

lemma stop_finishes:
  assumes "fm_inv s" and "sy_joining s = Some ts" and "\<not> asks_pending matches asks s"
  shows "\<exists>s'. (fm_step trunc matches fails asks)\<^sup>*\<^sup>* s s' \<and> fm_state (sy s') = Stopped \<and> sy_joining s' = None"
  using assms
proof (induction ts arbitrary: s)
  case Nil
  then have "fm_step trunc matches fails asks s (s\<lparr>sy := stop_end (sy s), sy_joining := None\<rparr>)"
    by (intro fm_step.stop_ends)
  then show ?case by (intro exI [of _ "s\<lparr>sy := stop_end (sy s), sy_joining := None\<rparr>"]) (auto simp: stop_end_def)
next
  case (Cons t ts)
  have st: "fm_state (sy s) = Stopping" and j: "fm_joinable (sy s) = t # ts"
    using Cons.prems by (auto simp: fm_inv_def life_ok_def life_def split: LifecycleState.splits)
  obtain u where u: "(fm_step trunc matches fails asks)\<^sup>*\<^sup>* s u" "t \<in> set (sy_exited u)" "sy_joining u = Some (t # ts)"
    "\<not> asks_pending matches asks u"
    using thread_ends [OF Cons.prems(1) st, where t = t and trunc = trunc and matches = matches and fails = fails and asks = asks]
      j Cons.prems(2,3) by auto
  let ?v = "u\<lparr>sy := (sy u)\<lparr>fm_joinable := removeAll t (fm_joinable (sy u))\<rparr>, sy_joining := Some ts\<rparr>"
  have step: "fm_step trunc matches fails asks u ?v" using u by (intro fm_step.stop_joins)
  have "fm_inv u" using u(1) Cons.prems(1) by (induction rule: rtranclp_induct) (auto intro: fm_step_inv)
  then have "fm_inv ?v" using step by (rule fm_step_inv [rotated])
  moreover have "\<not> asks_pending matches asks ?v" using u(4) asks_pending_cong [of ?v u] by simp
  ultimately obtain w where "(fm_step trunc matches fails asks)\<^sup>*\<^sup>* ?v w" "fm_state (sy w) = Stopped" "sy_joining w = None"
    using Cons.IH [of ?v] by auto
  then show ?case using u(1) step by (meson rtranclp.rtrancl_into_rtrancl rtranclp_trans)
qed

text \<open>The dispatcher is in a callback that waits for the lock that \<open>Stop\<close> holds, or has it before it.\<close>

definition stop_blocked :: "('cb \<Rightarrow> Message \<Rightarrow> bool) \<Rightarrow> 'cb fm_sys \<Rightarrow> bool" where
  "stop_blocked asks s \<longleftrightarrow> sy_joining s \<noteq> None \<and>
     (case sy_disp s of DCalling msg es \<Rightarrow> list_ex (\<lambda>e. asks (ce_callback e) msg) es | _ \<Rightarrow> False)"

lemma stop_blocked_stays:
  assumes "fm_step trunc matches fails asks s s'" and "fm_inv s" and "stop_blocked asks s"
  shows "stop_blocked asks s'"
  using assms
proof (cases rule: fm_step.cases)
  case stop_ends
  then show ?thesis using assms(2,3)
    by (auto simp: stop_blocked_def fm_inv_def alive_def life_ok_def life_def split: disp_pc.splits LifecycleState.splits)
qed (auto simp: stop_blocked_def)

lemma stop_blocked_never_ends:
  assumes "(fm_step trunc matches fails asks)\<^sup>*\<^sup>* s s'" and "fm_inv s" and "stop_blocked asks s"
  shows "fm_inv s' \<and> stop_blocked asks s'"
  using assms(1) by (induction rule: rtranclp_induct) (use assms in \<open>auto intro: fm_step_inv stop_blocked_stays\<close>)

text \<open>C22: When \<open>Stop\<close> has begun, wherever the four threads are, each can reach the end of its loop and be
  joined, so that \<open>Stop\<close> can complete, provided that no callback still to be called for the message in the
  dispatcher's hands calls \<open>Status\<close>; as soon as the dispatcher is among callbacks of which one does, \<open>Stop\<close> never
  completes, because \<open>Status\<close> waits for the lock \<open>Stop\<close> holds while it joins the dispatcher. Callbacks that
  neither return nor throw, and those that call \<open>Stop\<close> themselves, are outside this statement.\<close>

theorem mqtt_stop_completes:
  assumes "(fm_step trunc matches fails asks)\<^sup>*\<^sup>* fm_start_sys s" and "fm_state (sy s) = Stopping"
  shows "(\<not> asks_pending matches asks s \<longrightarrow> (\<exists>s'. (fm_step trunc matches fails asks)\<^sup>*\<^sup>* s s' \<and>
      fm_state (sy s') = Stopped \<and> fm_joinable (sy s') = [] \<and> sy_joining s' = None)) \<and>
    (stop_blocked asks s \<longrightarrow> (\<forall>s'. (fm_step trunc matches fails asks)\<^sup>*\<^sup>* s s' \<longrightarrow> fm_state (sy s') = Stopping))"
proof (intro conjI impI allI)
  have i: "fm_inv s" using mqtt.reachable_inv [OF _ assms(1)] by simp
  then obtain ts where j: "sy_joining s = Some ts"
    using assms(2) by (auto simp: fm_inv_def life_ok_def life_def)
  show "\<exists>s'. (fm_step trunc matches fails asks)\<^sup>*\<^sup>* s s' \<and> fm_state (sy s') = Stopped \<and> fm_joinable (sy s') = [] \<and>
    sy_joining s' = None" if n: "\<not> asks_pending matches asks s"
  proof -
    from stop_finishes [OF i j n] obtain s' where
      s': "(fm_step trunc matches fails asks)\<^sup>*\<^sup>* s s'" "fm_state (sy s') = Stopped" "sy_joining s' = None" by blast
    from s'(1) i have "fm_inv s'" by (induction rule: rtranclp_induct) (auto intro: fm_step_inv)
    then show ?thesis using s' by (auto simp: fm_inv_def life_ok_def life_def)
  qed
  show "fm_state (sy s') = Stopping" if "stop_blocked asks s" "(fm_step trunc matches fails asks)\<^sup>*\<^sup>* s s'" for s'
    using stop_blocked_never_ends [OF that(2) i that(1)]
    by (auto simp: stop_blocked_def fm_inv_def life_ok_def life_def split: LifecycleState.splits)
qed

section \<open>Callbacks\<close>

definition entries :: "(string \<times> 'cb CallbackEntry list) list \<Rightarrow> 'cb CallbackEntry list" where
  "entries cs = concat (map snd cs)"

text \<open>The table: each entry under its own filter, no topic without entries, every handle once.\<close>

definition table_ok :: "'cb fast_mqtt \<Rightarrow> bool" where
  "table_ok m \<longleftrightarrow> (\<forall>(f, es) \<in> set (fm_callbacks m). es \<noteq> [] \<and> (\<forall>e \<in> set es. ce_filter e = f)) \<and>
     distinct (map ce_handle (entries (fm_callbacks m))) \<and>
     (\<forall>e \<in> set (entries (fm_callbacks m)). ce_handle e < fm_next_handle m)"

lemma collect_matched_spec:
  "\<forall>(f, es) \<in> set cs. \<forall>e \<in> set es. ce_filter e = f \<Longrightarrow>
    collect_matched matches topic cs acc = rev (filter (\<lambda>e. TopicMatch matches (ce_filter e) topic) (entries cs)) @ acc"
proof (induction cs arbitrary: acc)
  case (Cons c cs)
  obtain f es where c: "c = (f, es)" by fastforce
  have "fold (#) es acc = rev es @ acc" by (induction es arbitrary: acc) auto
  moreover have "filter (\<lambda>e. TopicMatch matches (ce_filter e) topic) es = (if TopicMatch matches f topic then es else [])"
    using Cons.prems by (auto simp: c filter_empty_conv intro: filter_True)
  ultimately show ?case using Cons by (simp add: c entries_def)
qed (simp add: entries_def)

lemma run_callbacks_spec:
  "run_callbacks fails msg es m = (calls, m') \<Longrightarrow>
    calls = map (\<lambda>e. (ce_callback e, msg)) es \<and>
    st_callback_failed (fm_stats m') = st_callback_failed (fm_stats m) +
      int (length (filter (\<lambda>e. fails (ce_callback e) msg) es))"
proof (induction es arbitrary: m calls m')
  case (Cons e es)
  let ?m = "if fails (ce_callback e) msg then bump (\<lambda>s. s\<lparr>st_callback_failed := st_callback_failed s + 1\<rparr>) m else m"
  obtain cs where "run_callbacks fails msg es ?m = (cs, m')" "calls = (ce_callback e, msg) # cs"
    using Cons.prems by (auto simp: Let_def split: prod.splits)
  then show ?case using Cons.IH [of ?m] by (auto simp: bump_def)
qed simp

text \<open>C32: A received message is given to every registered callback whose filter matches its topic,
  once each, the newest of a topic first; a callback that throws is counted and does not keep the
  others from being called.\<close>

theorem dispatch_calls_matching:
  assumes "table_ok m" and "DispatchToCallbacks matches fails msg m = (calls, m')"
  shows "calls = map (\<lambda>e. (ce_callback e, msg))
      (rev (filter (\<lambda>e. TopicMatch matches (ce_filter e) (msg_topic msg)) (entries (fm_callbacks m)))) \<and>
    st_callback_failed (fm_stats m') = st_callback_failed (fm_stats m) +
      int (length (filter (\<lambda>(cb, msg). fails cb msg) calls))"
proof -
  have c: "collect_matched matches (msg_topic msg) (fm_callbacks m) [] =
      rev (filter (\<lambda>e. TopicMatch matches (ce_filter e) (msg_topic msg)) (entries (fm_callbacks m)))"
    using collect_matched_spec [of "fm_callbacks m" matches "msg_topic msg" "[]"] assms(1) by (auto simp: table_ok_def)
  note r = run_callbacks_spec [OF assms(2) [unfolded DispatchToCallbacks_def]]
  show ?thesis using r c by (simp add: filter_map comp_def)
qed

lemma map_change_entries:
  "\<exists>us vs. entries cs = us @ vs \<and>
    entries (map_change k (\<lambda>v. case v of None \<Rightarrow> [e] | Some es \<Rightarrow> es @ [e]) cs) = us @ e # vs"
proof (induction cs)
  case Nil
  then show ?case by (simp add: entries_def)
next
  case (Cons c cs)
  obtain k' es where c: "c = (k', es)" by fastforce
  consider "k < k'" | "k = k'" | "\<not> k < k'" "k \<noteq> k'" by blast
  then show ?case
  proof cases
    case 1
    then show ?thesis by (intro exI [of _ "[]"] exI [of _ "entries (c # cs)"]) (simp add: c entries_def)
  next
    case 2
    then show ?thesis by (intro exI [of _ es] exI [of _ "entries cs"]) (simp add: c entries_def)
  next
    case 3
    then obtain us vs where "entries cs = us @ vs"
      "entries (map_change k (\<lambda>v. case v of None \<Rightarrow> [e] | Some es \<Rightarrow> es @ [e]) cs) = us @ e # vs"
      using Cons.IH by blast
    then show ?thesis using 3 by (intro exI [of _ "es @ us"] exI [of _ vs]) (simp add: c entries_def)
  qed
qed

lemma map_change_keys:
  "\<forall>(f, es) \<in> set cs. es \<noteq> [] \<and> (\<forall>x \<in> set es. ce_filter x = f) \<Longrightarrow> ce_filter e = k \<Longrightarrow>
    \<forall>(f, es) \<in> set (map_change k (\<lambda>v. case v of None \<Rightarrow> [e] | Some es \<Rightarrow> es @ [e]) cs).
      es \<noteq> [] \<and> (\<forall>x \<in> set es. ce_filter x = f)"
proof (induction cs)
  case (Cons c cs)
  obtain k' es where c: "c = (k', es)" by fastforce
  consider "k < k'" | "k = k'" | "\<not> k < k'" "k \<noteq> k'" by blast
  then show ?case
  proof cases
    case 3
    then show ?thesis using Cons.IH Cons.prems by (simp add: c)
  qed (use Cons.prems in \<open>simp_all add: c\<close>)
qed simp

lemma erase_handle_spec:
  "erase_handle h es = Some es' \<Longrightarrow> distinct (map ce_handle es) \<Longrightarrow>
    es' = filter (\<lambda>e. ce_handle e \<noteq> h) es \<and> h \<in> ce_handle ` set es"
proof (induction es arbitrary: es')
  case (Cons a es)
  show ?case
  proof (cases "ce_handle a = h")
    case True
    then have "h \<notin> ce_handle ` set es" using Cons.prems(2) by simp
    then have "filter (\<lambda>e. ce_handle e \<noteq> h) es = es" by (intro filter_True) (metis imageI)
    then show ?thesis using True Cons.prems(1) by simp
  next
    case False
    then show ?thesis using Cons by auto
  qed
qed simp

lemma erase_handle_None: "erase_handle h es = None \<longleftrightarrow> h \<notin> ce_handle ` set es"
  by (induction es) auto

lemma erase_callback_spec:
  assumes "distinct (map ce_handle (entries cs))"
  shows "(case erase_callback h cs of
      None \<Rightarrow> h \<notin> ce_handle ` set (entries cs)
    | Some (t, cs') \<Rightarrow> h \<in> ce_handle ` set (entries cs) \<and>
        entries cs' = filter (\<lambda>e. ce_handle e \<noteq> h) (entries cs) \<and>
        (\<forall>(f, es') \<in> set cs'. \<exists>es. (f, es) \<in> set cs \<and> set es' \<subseteq> set es \<and> (es \<noteq> [] \<longrightarrow> es' \<noteq> [])))"
  using assms
proof (induction cs)
  case Nil
  then show ?case by (simp add: entries_def)
next
  case (Cons c cs)
  obtain f es where c: "c = (f, es)" by fastforce
  have d: "distinct (map ce_handle es)" "distinct (map ce_handle (entries cs))"
    "ce_handle ` set es \<inter> ce_handle ` set (entries cs) = {}"
    using Cons.prems by (auto simp: c entries_def)
  show ?case
  proof (cases "erase_handle h es")
    case None
    then have n: "filter (\<lambda>e. ce_handle e \<noteq> h) es = es" "h \<notin> ce_handle ` set es"
      by (auto simp: erase_handle_None intro!: filter_True)
    show ?thesis
      using Cons.IH [OF d(2)] None n by (fastforce simp: c entries_def split: option.splits)
  next
    case (Some es')
    note e = erase_handle_spec [OF Some d(1)]
    have r: "filter (\<lambda>e. ce_handle e \<noteq> h) (entries cs) = entries cs"
      using d(3) e by (auto intro!: filter_True)
    have "set es' \<subseteq> set es" using e by auto
    moreover have "erase_callback h (c # cs) = Some (if es' = [] then (Some f, cs) else (None, (f, es') # cs))"
      using Some by (cases es') (simp_all add: c)
    moreover have "h \<in> ce_handle ` set (entries (c # cs))" using e by (simp add: c entries_def image_Un)
    moreover have "filter (\<lambda>e. ce_handle e \<noteq> h) (entries (c # cs)) = es' @ entries cs"
      using e r by (simp add: c entries_def)
    ultimately show ?thesis
      by (auto simp: c) (simp_all add: entries_def)
  qed
qed

lemma register_correct:
  assumes "table_ok m"
  shows "case RegisterCallback topic (Some cb) qos m of (h, m') \<Rightarrow> table_ok m' \<and>
      h \<notin> ce_handle ` set (entries (fm_callbacks m)) \<and>
      (\<exists>us vs. entries (fm_callbacks m) = us @ vs \<and>
         entries (fm_callbacks m') = us @ \<lparr>ce_handle = h, ce_filter = topic, ce_callback = cb, ce_qos = qos\<rparr> # vs)"
proof -
  define e where "e = \<lparr>ce_handle = fm_next_handle m, ce_filter = topic, ce_callback = cb, ce_qos = qos\<rparr>"
  define cs' where "cs' = map_change topic (\<lambda>v. case v of None \<Rightarrow> [e] | Some es \<Rightarrow> es @ [e]) (fm_callbacks m)"
  obtain us vs where u: "entries (fm_callbacks m) = us @ vs" "entries cs' = us @ e # vs"
    using map_change_entries [of "fm_callbacks m" topic e] by (auto simp: cs'_def)
  have k: "\<forall>(f, es) \<in> set cs'. es \<noteq> [] \<and> (\<forall>x \<in> set es. ce_filter x = f)"
    unfolding cs'_def using assms by (intro map_change_keys) (simp_all add: table_ok_def e_def)
  have h: "\<forall>x \<in> set (us @ vs). ce_handle x < fm_next_handle m" using assms u by (simp add: table_ok_def)
  have ok: "table_ok m'" if "fm_callbacks m' = cs'" "fm_next_handle m' = fm_next_handle m + 1" for m'
  proof -
    have "distinct (map ce_handle (us @ vs))" using assms u by (simp add: table_ok_def)
    then have "distinct (map ce_handle (us @ e # vs))" using h by (auto simp: e_def)
    moreover have "\<forall>x \<in> set (us @ e # vs). ce_handle x < fm_next_handle m + 1"
      using h by (auto simp: e_def less_Suc_eq)
    ultimately show ?thesis using k unfolding table_ok_def that u(2) by blast
  qed
  show ?thesis
    using ok u h by (auto simp: RegisterCallback_def insert_callback_def Let_def subscribe_now_def call_lib_def
        e_def [symmetric] cs'_def [symmetric])
qed

lemma unregister_correct:
  assumes "table_ok m"
  shows "case UnregisterCallback h m of (r, m') \<Rightarrow> table_ok m' \<and> r = (h \<in> ce_handle ` set (entries (fm_callbacks m))) \<and>
      entries (fm_callbacks m') = filter (\<lambda>e. ce_handle e \<noteq> h) (entries (fm_callbacks m))"
proof -
  have d: "distinct (map ce_handle (entries (fm_callbacks m)))" using assms by (simp add: table_ok_def)
  have dd: "distinct (map ce_handle (filter P (entries (fm_callbacks m))))" for P
    using d by (simp add: distinct_map_filter)
  note s = erase_callback_spec [OF d, of h]
  show ?thesis
  proof (cases "erase_callback h (fm_callbacks m)")
    case None
    then have "filter (\<lambda>e. ce_handle e \<noteq> h) (entries (fm_callbacks m)) = entries (fm_callbacks m)"
      using s by (auto intro!: filter_True)
    then show ?thesis using None s assms by (simp add: UnregisterCallback_def)
  next
    case (Some r)
    obtain t cs where r: "r = (t, cs)" by fastforce
    have e: "entries cs = filter (\<lambda>e. ce_handle e \<noteq> h) (entries (fm_callbacks m))"
      and sub: "\<And>f es'. (f, es') \<in> set cs \<Longrightarrow>
        \<exists>es. (f, es) \<in> set (fm_callbacks m) \<and> set es' \<subseteq> set es \<and> (es \<noteq> [] \<longrightarrow> es' \<noteq> [])"
      using s by (auto simp: Some r)
    have shape: "es' \<noteq> [] \<and> (\<forall>x \<in> set es'. ce_filter x = f)" if c: "(f, es') \<in> set cs" for f es'
    proof -
      obtain es where "(f, es) \<in> set (fm_callbacks m)" "set es' \<subseteq> set es" "es \<noteq> [] \<longrightarrow> es' \<noteq> []"
        using sub [OF c] by blast
      then show ?thesis using assms unfolding table_ok_def by blast
    qed
    have t: "table_ok m'" if "fm_callbacks m' = cs" "fm_next_handle m' = fm_next_handle m" for m'
      using assms dd shape by (auto simp: table_ok_def that e)
    show ?thesis
      using Some r s t by (cases t) (auto simp: UnregisterCallback_def unsubscribe_now_def call_lib_def)
  qed
qed

text \<open>C29: The table of callbacks keeps its shape, and is what its calls say: registering adds one entry
  with a fresh handle, unregistering that handle takes exactly that entry away and answers whether
  it was there.\<close>

theorem callback_table_correct:
  assumes "table_ok m"
  shows "(case RegisterCallback topic (Some cb) qos m of (h, m') \<Rightarrow> table_ok m' \<and>
      h \<notin> ce_handle ` set (entries (fm_callbacks m)) \<and>
      (\<exists>us vs. entries (fm_callbacks m) = us @ vs \<and>
         entries (fm_callbacks m') = us @ \<lparr>ce_handle = h, ce_filter = topic, ce_callback = cb, ce_qos = qos\<rparr> # vs)) \<and>
    (case UnregisterCallback h m of (r, m') \<Rightarrow> table_ok m' \<and> r = (h \<in> ce_handle ` set (entries (fm_callbacks m))) \<and>
      entries (fm_callbacks m') = filter (\<lambda>e. ce_handle e \<noteq> h) (entries (fm_callbacks m)))"
  using register_correct [OF assms] unregister_correct [OF assms] by (rule conjI)

section \<open>Backoff\<close>

fun nth_backoff :: "nat \<Rightarrow> 'cb fast_mqtt \<Rightarrow> nat" where
  "nth_backoff 0 m = fst (NextBackoffSeconds m)"
| "nth_backoff (Suc n) m = nth_backoff n (snd (NextBackoffSeconds m))"

text \<open>After a success the waits are those of the table in order, then its last one for ever.\<close>

lemma backoff_follows_table: "nth_backoff n (mqtt_ResetBackoff m) = kBackoffTable ! min n 5"
proof -
  have "nth_backoff n m = kBackoffTable ! min (n + fm_backoff_index m) 5" if "fm_backoff_index m \<le> 5" for m :: "'a fast_mqtt"
    using that
  proof (induction n arbitrary: m)
    case 0
    then show ?case by (auto simp: NextBackoffSeconds_def Let_def kBackoffTable_def min_def)
  next
    case (Suc n)
    have "fm_backoff_index (snd (NextBackoffSeconds m)) = min (Suc (fm_backoff_index m)) 5"
      using Suc.prems by (auto simp: NextBackoffSeconds_def Let_def kBackoffTable_def)
    then show ?case using Suc.IH [of "snd (NextBackoffSeconds m)"] by (simp add: min_def)
  qed
  then show ?thesis by (simp add: mqtt_ResetBackoff_def)
qed

section \<open>A callback that stops the module\<close>

text \<open>Called on the dispatcher, \<open>Stop\<close> joins the first two threads and leaves by the exception of the
  join with itself. The state stays \<open>Stopping\<close>, from which no later \<open>Stop\<close> joins the rest.\<close>

lemma stop_from_callback:
  assumes "fm_state m = Running" and "fm_joinable m = all_threads"
  shows "fst (mqtt_Stop (Some DispThread) m) = False \<and> fm_state (snd (mqtt_Stop (Some DispThread) m)) = Stopping \<and>
    fm_joinable (snd (mqtt_Stop (Some DispThread) m)) = [DispThread, SendThread] \<and>
    mqtt_Stop None (snd (mqtt_Stop (Some DispThread) m)) = (True, snd (mqtt_Stop (Some DispThread) m))"
proof -
  have "fm_state (stop_begin m) = Stopping" "fm_joinable (stop_begin m) = all_threads"
    using assms by (simp_all add: stop_begin_def Let_def call_lib_def)
  then show ?thesis using assms by (simp add: mqtt_Stop_def)
qed

text \<open>After a callback has called \<open>Stop\<close>, the module can be destroyed and initialised again, but the
  next \<open>Start\<close> ends the program: it assigns to the dispatcher thread, which was never joined.\<close>

theorem stop_from_callback_is_fatal:
  assumes "fm_state m = Running" and "fm_joinable m = all_threads"
    and "mqtt_Destroy None (snd (mqtt_Stop (Some DispThread) m)) = (r, m1)"
    and "Initialize trunc True config m1 = (True, m2)" and "fc_enable (fm_config m2)"
  shows "mqtt_Start m2 = None"
proof -
  note st = stop_from_callback [OF assms(1,2)]
  have m1: "m1 = destroy_end (snd (mqtt_Stop (Some DispThread) m))"
    using assms(3) st by (simp add: mqtt_Destroy_def)
  then have "fm_joinable m1 = [DispThread, SendThread]" "fm_state m1 = Uninitialized"
    using st by (simp_all add: destroy_end_def Let_def call_lib_def ClearAllCallbacks_def)
  then have "fm_joinable m2 = [DispThread, SendThread]" "fm_state m2 = Initialized"
    using assms(4) by (auto simp: Initialize_def Let_def call_lib_def split: sum.splits if_splits)
  then show ?thesis using assms(5) by (simp add: mqtt_Start_def mqtt_ResetBackoff_def)
qed

section \<open>A run\<close>

definition demo_ready :: "unit fm_sys" where
  "demo_ready =
     (let m = snd (Initialize (\<lambda>_. 0) True (JObject []) new_fast_mqtt);
          m = snd (the (mqtt_Start m));
          m = snd (Publish 7 ''a/b'' ''x'' 1 False m);
          m = HandleConnect 8 0 (snd (receiver_connect 0 False m))
      in fm_start_sys\<lparr>sy := m, sy_recv := RLoop, sy_ever := True, sy_accepted := 1\<rparr>)"

lemma demo_initialize:
  "Initialize (\<lambda>_. 0) True (JObject []) (new_fast_mqtt :: unit fast_mqtt) =
    (True, new_fast_mqtt\<lparr>fm_mosq := True, fm_send_queue := Some (bq_ctor 1000),
       fm_recv_queue := Some (bq_ctor 1000), fm_state := Initialized, fm_lib_ref := 1, fm_calls := [LibInit]\<rparr>)"
  by (simp add: Initialize_def FromJson_def object_field_def value_bool_def new_fast_mqtt_def Let_def call_lib_def
      default_broker_def default_thread_def default_def_def default_config_def)

lemma demo_run: "(fm_step (\<lambda>_. 0) (\<lambda>_ _. Some True) (\<lambda>_ _. False) asks)\<^sup>*\<^sup>* fm_start_sys demo_ready"
proof -
  let ?R = "fm_step (\<lambda>_. 0) (\<lambda>_ _. Some True) (\<lambda>(_ :: unit) _. False) asks"
  let ?m1 = "new_fast_mqtt\<lparr>fm_mosq := True, fm_send_queue := Some (bq_ctor 1000), fm_recv_queue := Some (bq_ctor 1000),
    fm_state := Initialized, fm_lib_ref := 1, fm_calls := [LibInit]\<rparr> :: unit fast_mqtt"
  let ?m2 = "?m1\<lparr>fm_state := Running, fm_running := True, fm_joinable := all_threads, fm_backoff_index := 0\<rparr>"
  obtain m3 where m3: "Publish 7 ''a/b'' ''x'' 1 False ?m2 = (True, m3)"
    by (simp add: Publish_def bq_Push_def bq_ctor_def)
  obtain m4 where m4: "receiver_connect 0 False m3 = (RLoop, m4)" by (simp add: receiver_connect_def)
  have start: "mqtt_Start ?m1 = Some (True, ?m2)"
    by (simp add: mqtt_Start_def new_fast_mqtt_def default_config_def mqtt_ResetBackoff_def)
  have j: "fm_joinable m3 = all_threads" "fm_joinable m4 = all_threads"
    using m3 m4 by (auto simp: Publish_def bq_Push_def bq_ctor_def receiver_connect_def call_lib_def bump_def)
  let ?msg = "\<lparr>msg_topic = ''a/b'', msg_payload = ''x'', msg_qos = 1, msg_retain = False, msg_timestamp = 7\<rparr>"
  let ?s1 = "fm_start_sys\<lparr>sy := ?m1\<rparr>" and ?s2 = "fm_start_sys\<lparr>sy := ?m2, sy_recv := RTop\<rparr>"
    and ?s3 = "fm_start_sys\<lparr>sy := m3, sy_recv := RTop, sy_accepted := 1\<rparr>"
    and ?s4 = "fm_start_sys\<lparr>sy := m4, sy_recv := RLoop, sy_ever := True, sy_accepted := 1\<rparr>"
  have s: "sy fm_start_sys = (new_fast_mqtt :: unit fast_mqtt)" "sy_joining fm_start_sys = None"
    "sy_exited fm_start_sys = []" "sy_ever fm_start_sys = False" "sy_accepted fm_start_sys = 0"
    by (simp_all add: fm_start_sys_def)
  have "?R fm_start_sys ?s1"
    by (rule fm_step.initialize [where new_ok = True and config = "JObject []" and r = True])
      (simp_all only: s demo_initialize)
  moreover have "?R ?s1 ?s2"
    using fm_step.start [of ?s1 ?m2] start s by (simp add: fm_start_sys_def)
  moreover have "?R ?s2 (?s2\<lparr>sy_publishing := [?msg]\<rparr>)"
    using fm_step.publish [of ?s2 _ _ _ _ ?msg] by (simp add: publish_allowed_def fm_start_sys_def)
  moreover have "?R (?s2\<lparr>sy_publishing := [?msg]\<rparr>) ?s3"
  proof -
    have "publish_push ?msg ?m2 = Inr (True, m3)"
      using m3 by (simp add: Publish_def publish_push_def bq_Push_def bq_ctor_def)
    then show ?thesis
      using fm_step.publish_queued [of ?msg "?s2\<lparr>sy_publishing := [?msg]\<rparr>" True m3] s by (simp add: fm_start_sys_def)
  qed
  moreover have "?R ?s3 ?s4"
    using fm_step.connect [of ?s3 0 RLoop m4] m4 j s by (simp add: recv_free_def alive_def fm_start_sys_def)
  moreover have "?R ?s4 (?s4\<lparr>sy := HandleConnect 8 0 m4\<rparr>)"
  proof -
    have a: "recv_free ?s4" "sy_recv ?s4 = RLoop" "sy ?s4 = m4"
      by (simp_all add: recv_free_def alive_def j s fm_start_sys_def)
    from a(1,2) have "?R ?s4 (?s4\<lparr>sy := HandleConnect 8 0 (sy ?s4)\<rparr>)" by (rule fm_step.connected)
    then show ?thesis by (simp only: a(3))
  qed
  moreover have "?s4\<lparr>sy := HandleConnect 8 0 m4\<rparr> = demo_ready"
    using m3 m4 start unfolding demo_ready_def demo_initialize by (simp add: Let_def fm_start_sys_def)
  ultimately show ?thesis by (metis (no_types, lifting) converse_rtranclp_into_rtranclp rtranclp.rtrancl_refl)
qed

lemma demo_values: "fm_state (sy demo_ready) = Running" "fm_ready (sy demo_ready)" "sy_accepted demo_ready = 1"
  "sy_joining demo_ready = None" "fm_mosq (sy demo_ready)" "fm_joinable (sy demo_ready) = all_threads"
  unfolding demo_ready_def Let_def demo_initialize
  by (simp_all add: mqtt_Start_def new_fast_mqtt_def default_config_def
      mqtt_ResetBackoff_def Publish_def bq_Push_def bq_ctor_def receiver_connect_def call_lib_def HandleConnect_def
      ResubscribeAll_def set_link_def bump_def fm_start_sys_def)

theorem mqtt_messages_accounted_witness:
  "1 = st_send_success (fm_stats (sy demo_ready)) + st_send_failed (fm_stats (sy demo_ready)) +
      queued (fm_send_queue (sy demo_ready)) + in_hand (sy_sending demo_ready) + sy_send_lost demo_ready"
  using mqtt_messages_accounted [OF demo_run] demo_values(3) by simp

theorem mqtt_ready_means_session_witness: "fm_session_connected (sy demo_ready) \<and> sy_recv demo_ready = RLoop"
  using mqtt_ready_means_session(1) [OF demo_run demo_values(2)] demo_values(1) by simp

theorem mqtt_stop_completes_witness:
  "\<exists>s s' :: unit fm_sys. fm_state (sy s) = Stopping \<and>
    (fm_step (\<lambda>_. 0) (\<lambda>_ _. Some True) (\<lambda>_ _. False) (\<lambda>_ _. True))\<^sup>*\<^sup>* s s' \<and> fm_state (sy s') = Stopped"
proof -
  let ?s = "demo_ready\<lparr>sy := stop_begin (sy demo_ready), sy_joining := Some all_threads\<rparr>"
  have "fm_step (\<lambda>_. 0) (\<lambda>_ _. Some True) (\<lambda>_ _. False) (\<lambda>_ _. True) demo_ready ?s"
    using demo_values by (intro fm_step.stop_begins)
  then have "(fm_step (\<lambda>_. 0) (\<lambda>_ _. Some True) (\<lambda>_ _. False) (\<lambda>_ _. True))\<^sup>*\<^sup>* fm_start_sys ?s"
    using demo_run by (rule rtranclp.rtrancl_into_rtrancl [rotated])
  moreover have "fm_state (sy ?s) = Stopping" by (simp add: stop_begin_def Let_def call_lib_def)
  moreover have "\<not> asks_pending (\<lambda>_ _. Some True) (\<lambda>_ _. True) ?s"
    by (simp add: asks_pending_def demo_ready_def Let_def fm_start_sys_def)
  ultimately show ?thesis using mqtt_stop_completes [of "\<lambda>_. 0" "\<lambda>_ _. Some True" "\<lambda>_ _. False" "\<lambda>_ _. True" ?s] by blast
qed

definition demo_table :: "nat fast_mqtt" where
  "demo_table = snd (RegisterCallback ''b'' (Some 11) 1 (snd (RegisterCallback ''a'' (Some 10) 1 new_fast_mqtt)))"

lemma demo_table_callbacks: "fm_callbacks demo_table =
    [(''a'', [\<lparr>ce_handle = 1, ce_filter = ''a'', ce_callback = 10, ce_qos = 1\<rparr>]),
     (''b'', [\<lparr>ce_handle = 2, ce_filter = ''b'', ce_callback = 11, ce_qos = 1\<rparr>])]" "fm_next_handle demo_table = 3"
proof -
  have "(''b'' :: string) < ''a'' \<longleftrightarrow> False" by (simp add: List_Lexorder.list_less_def less_char_def)
  then show "fm_callbacks demo_table =
    [(''a'', [\<lparr>ce_handle = 1, ce_filter = ''a'', ce_callback = 10, ce_qos = 1\<rparr>]),
     (''b'', [\<lparr>ce_handle = 2, ce_filter = ''b'', ce_callback = 11, ce_qos = 1\<rparr>])]" "fm_next_handle demo_table = 3"
    by (simp_all add: demo_table_def RegisterCallback_def insert_callback_def subscribe_now_def new_fast_mqtt_def Let_def)
qed

lemma demo_table_ok: "table_ok demo_table"
  by (simp add: table_ok_def demo_table_callbacks entries_def)

theorem dispatch_calls_matching_witness:
  "fst (DispatchToCallbacks (\<lambda>_ _. Some True) (\<lambda>cb _. cb = 11) \<lparr>msg_topic = ''a'', msg_payload = [], msg_qos = 0,
      msg_retain = False, msg_timestamp = 0\<rparr> demo_table)
    = map (\<lambda>cb. (cb, \<lparr>msg_topic = ''a'', msg_payload = [], msg_qos = 0, msg_retain = False, msg_timestamp = 0\<rparr>)) [11, 10]"
proof -
  obtain calls m' where d: "DispatchToCallbacks (\<lambda>_ _. Some True) (\<lambda>cb _. cb = (11 :: nat)) \<lparr>msg_topic = ''a'',
      msg_payload = [], msg_qos = 0, msg_retain = False, msg_timestamp = 0\<rparr> demo_table = (calls, m')" by fastforce
  show ?thesis
    using dispatch_calls_matching [OF demo_table_ok d] by (simp add: d demo_table_callbacks entries_def TopicMatch_def)
qed

theorem callback_table_correct_witness:
  "entries (fm_callbacks (snd (UnregisterCallback 1 demo_table))) =
    [\<lparr>ce_handle = 2, ce_filter = ''b'', ce_callback = 11, ce_qos = 1\<rparr>]"
  using callback_table_correct [OF demo_table_ok, of "[]" 12 1 1, THEN conjunct2]
  by (auto simp: demo_table_callbacks entries_def split: prod.splits)

theorem stop_from_callback_is_fatal_witness:
  "mqtt_Start (snd (Initialize (\<lambda>_. 0) True (JObject [])
     (snd (mqtt_Destroy None (snd (mqtt_Stop (Some DispThread) (sy demo_ready))))))) = None"
proof -
  let ?m = "snd (mqtt_Destroy None (snd (mqtt_Stop (Some DispThread) (sy demo_ready))))"
  have "fm_state ?m = Uninitialized"
    using stop_from_callback [OF demo_values(1,6)]
    by (simp add: mqtt_Destroy_def destroy_end_def Let_def call_lib_def ClearAllCallbacks_def)
  then have i: "fst (Initialize (\<lambda>_. 0) True (JObject []) ?m)" "fc_enable (fm_config (snd (Initialize (\<lambda>_. 0) True (JObject []) ?m)))"
    by (simp_all add: Initialize_def FromJson_def object_field_def value_bool_def Let_def call_lib_def default_broker_def)
  show ?thesis
    by (rule stop_from_callback_is_fatal [OF demo_values(1,6) prod.collapse [symmetric]])
      (use i in \<open>auto simp: prod_eq_iff\<close>)
qed

end
