(* ===== verification/MqttSubscribe.thy ===== *)
theory MqttSubscribe
  imports FastMqtt
begin

text \<open>
  Subscriptions of \<open>FastMQTT\<close> under concurrency. \<open>RegisterCallback\<close> puts the entry into the table under
  one mutex, then looks at the session flag without a lock, then subscribes under another mutex; \<open>HandleConnect\<close>
  sets the flag, then collects the topics under the first mutex and subscribes them one by one under the
  second. Any number of callers register and unregister in between. The question is whether a topic can
  fall between the two. \<open>su_topics\<close> is what the broker has for this session, \<open>su_pending\<close> the registrations
  that have not looked at the flag, \<open>su_asking\<close> those that have seen a session and have not made their request,
  \<open>su_resub\<close> where the receiver is in \<open>ResubscribeAll\<close>. The library may refuse any request: the program
  logs it and goes on, which \<open>su_failed\<close> records, the topics whose last request in this session was refused.
\<close>

datatype resubscription = Idle | Collecting | Subscribing "(string \<times> int) list"

record 'cb sub_sys =
  su :: "'cb fast_mqtt"
  su_topics :: "string list"
  su_failed :: "string list"
  su_pending :: "(string \<times> int) list"
  su_asking :: "(string \<times> int) list"
  su_resub :: resubscription

definition sub_start :: "'cb fast_mqtt \<Rightarrow> 'cb sub_sys" where
  "sub_start m = \<lparr>su = m, su_topics = [], su_failed = [], su_pending = [], su_asking = [], su_resub = Idle\<rparr>"

text \<open>The session flag and the broker's list when a topic is given up.\<close>

definition broker_drops :: "bool \<Rightarrow> string option \<Rightarrow> string list \<Rightarrow> string list" where
  "broker_drops session t ts = (case t of Some t \<Rightarrow> if session then removeAll t ts else ts | None \<Rightarrow> ts)"

definition emptied :: "nat \<Rightarrow> 'cb fast_mqtt \<Rightarrow> string option" where
  "emptied h m = (case erase_callback h (fm_callbacks m) of Some (t, _) \<Rightarrow> t | None \<Rightarrow> None)"

text \<open>The answer to a request.\<close>

definition request_answered :: "bool \<Rightarrow> string \<Rightarrow> 'cb sub_sys \<Rightarrow> 'cb sub_sys" where
  "request_answered ok topic s =
     (if ok then s\<lparr>su_topics := topic # su_topics s, su_failed := removeAll topic (su_failed s)\<rparr>
      else s\<lparr>su_failed := topic # su_failed s\<rparr>)"

definition session_at :: "'cb sub_sys \<Rightarrow> bool" where
  "session_at s \<longleftrightarrow> fm_session_connected (su s) \<and> fm_mosq (su s)"

inductive sub_step :: "'cb sub_sys \<Rightarrow> 'cb sub_sys \<Rightarrow> bool" where
  register_insert:
    "sub_step s (s\<lparr>su := snd (insert_callback topic cb qos (su s)), su_pending := (topic, qos) # su_pending s\<rparr>)"
| register_check:
    "(topic, qos) \<in> set (su_pending s) \<Longrightarrow>
     sub_step s (s\<lparr>su_pending := remove1 (topic, qos) (su_pending s),
       su_asking := (if session_at s then (topic, qos) # su_asking s else su_asking s)\<rparr>)"
| register_ask:
    "(topic, qos) \<in> set (su_asking s) \<Longrightarrow>
     sub_step s (request_answered ok topic (s\<lparr>su := call_lib [Subscribe topic qos] (su s),
       su_asking := remove1 (topic, qos) (su_asking s)\<rparr>))"
| unregister:
    "sub_step s (s\<lparr>su := snd (UnregisterCallback h (su s)),
       su_topics := broker_drops (session_at s) (emptied h (su s)) (su_topics s),
       su_failed := broker_drops (session_at s) (emptied h (su s)) (su_failed s)\<rparr>)"
| clear:
    "sub_step s (s\<lparr>su := ClearCallback topic (su s),
       su_topics := (if map_of (fm_callbacks (su s)) topic = None then su_topics s
         else broker_drops (session_at s) (Some topic) (su_topics s)),
       su_failed := (if map_of (fm_callbacks (su s)) topic = None then su_failed s
         else broker_drops (session_at s) (Some topic) (su_failed s))\<rparr>)"
| clear_all: "sub_step s (s\<lparr>su := ClearAllCallbacks (su s)\<rparr>)"
| session_up:
    "su_resub s = Idle \<Longrightarrow> fm_mosq (su s) \<Longrightarrow>
     sub_step s (s\<lparr>su := set_link True (fc_enable (fm_config (su s))) (su s),
       su_topics := [], su_failed := [], su_resub := Collecting\<rparr>)"
| collect:
    "su_resub s = Collecting \<Longrightarrow> sub_step s (s\<lparr>su_resub := Subscribing (subscriptions (su s))\<rparr>)"
| subscribe_one:
    "su_resub s = Subscribing ((topic, qos) # rest) \<Longrightarrow>
     sub_step s (request_answered ok topic (s\<lparr>su := call_lib [Subscribe topic qos] (su s), su_resub := Subscribing rest\<rparr>))"
| subscribed: "su_resub s = Subscribing [] \<Longrightarrow> sub_step s (s\<lparr>su_resub := Idle\<rparr>)"
| session_down:
    "su_resub s = Idle \<Longrightarrow> sub_step s (s\<lparr>su := HandleDisconnect (su s), su_topics := [], su_failed := []\<rparr>)"

definition registered :: "'cb fast_mqtt \<Rightarrow> string set" where
  "registered m = fst ` set (fm_callbacks m)"

text \<open>The halves of a registration with nothing in between are \<open>RegisterCallback\<close>.\<close>

lemma register_pieces:
  assumes "s' = s\<lparr>su := snd (insert_callback topic cb qos (su s))\<rparr>"
  shows "snd (RegisterCallback topic (Some cb) qos (su s)) =
    (if session_at s' then call_lib [Subscribe topic qos] (su s') else su s')"
  using assms by (simp add: RegisterCallback_def subscribe_now_def session_at_def Let_def case_prod_unfold)

text \<open>Every registered topic is at the broker or was refused, or someone is on the way to bring it there.\<close>

definition sub_inv :: "'cb sub_sys \<Rightarrow> bool" where
  "sub_inv s \<longleftrightarrow> fm_mosq (su s) \<and> distinct (map fst (fm_callbacks (su s))) \<and>
     (fm_session_connected (su s) \<longrightarrow> (\<forall>t \<in> registered (su s).
        t \<in> set (su_topics s) \<or> t \<in> set (su_failed s) \<or> t \<in> fst ` set (su_pending s) \<or>
        t \<in> fst ` set (su_asking s) \<or>
        su_resub s = Collecting \<or> (\<exists>rest. su_resub s = Subscribing rest \<and> t \<in> fst ` set rest)))"

lemma map_change_keys_set: "fst ` set (map_change k f cs) = insert k (fst ` set cs)"
proof (induction cs)
  case (Cons c cs)
  then show ?case by (cases c) (auto simp: insert_commute)
qed simp

lemma map_change_distinct: "distinct (map fst cs) \<Longrightarrow> sorted (map fst cs) \<Longrightarrow>
    distinct (map fst (map_change k f cs)) \<and> sorted (map fst (map_change k f cs))"
proof (induction cs)
  case (Cons c cs)
  obtain k' v where c: "c = (k', v)" by fastforce
  have ks: "\<forall>x \<in> fst ` set cs. k' \<le> x" "k' \<notin> fst ` set cs" using Cons.prems by (auto simp: c)
  show ?case
  proof (cases "k < k'")
    case True
    then show ?thesis using Cons.prems ks by (auto simp: c)
  next
    case False
    then show ?thesis
      using Cons ks map_change_keys_set [of k f cs] by (auto simp: c)
  qed
qed simp

lemma erase_callback_keys:
  "erase_callback h cs = Some (t, cs') \<Longrightarrow>
    (case t of None \<Rightarrow> map fst cs' = map fst cs
     | Some k \<Rightarrow> \<exists>us vs. map fst cs = us @ k # vs \<and> map fst cs' = us @ vs)"
proof (induction cs arbitrary: t cs')
  case (Cons c cs)
  obtain f es where c: "c = (f, es)" by fastforce
  show ?case
  proof (cases "erase_handle h es")
    case None
    then obtain cs'' where e: "erase_callback h cs = Some (t, cs'')" "cs' = (f, es) # cs''"
      using Cons.prems by (auto simp: c)
    show ?thesis
    proof (cases t)
      case (Some k)
      then obtain us vs where "map fst cs = us @ k # vs" "map fst cs'' = us @ vs" using Cons.IH [OF e(1)] by auto
      then have "\<exists>us vs. map fst (c # cs) = us @ k # vs \<and> map fst cs' = us @ vs"
        by (intro exI [of _ "f # us"] exI [of _ vs]) (simp add: c e(2))
      then show ?thesis using Some by simp
    qed (use Cons.IH [OF e(1)] in \<open>simp add: c e(2)\<close>)
  next
    case (Some es')
    then show ?thesis
      using Cons.prems by (cases es') (auto simp: c, metis append_Nil)
  qed
qed simp

lemma call_lib_simps [simp]: "fm_mosq (call_lib c m) = fm_mosq m" "fm_callbacks (call_lib c m) = fm_callbacks m"
  "fm_session_connected (call_lib c m) = fm_session_connected m"
  by (simp_all add: call_lib_def)

lemma now_simps [simp]:
  "fm_mosq (subscribe_now t q m) = fm_mosq m" "fm_callbacks (subscribe_now t q m) = fm_callbacks m"
  "fm_session_connected (subscribe_now t q m) = fm_session_connected m"
  "fm_mosq (unsubscribe_now t m) = fm_mosq m" "fm_session_connected (unsubscribe_now t m) = fm_session_connected m"
  by (simp_all add: subscribe_now_def unsubscribe_now_def)

lemma link_simps [simp]:
  "fm_mosq (set_link u r m) = fm_mosq m" "fm_callbacks (set_link u r m) = fm_callbacks m"
  "fm_session_connected (set_link u r m) = u" "registered (set_link u r m) = registered m"
  by (simp_all add: set_link_def registered_def)

definition keys_sorted :: "'cb sub_sys \<Rightarrow> bool" where
  "keys_sorted s \<longleftrightarrow> sorted (map fst (fm_callbacks (su s)))"

lemma request_answered_simps [simp]:
  "su (request_answered ok topic s) = su s" "su_pending (request_answered ok topic s) = su_pending s"
  "su_asking (request_answered ok topic s) = su_asking s" "su_resub (request_answered ok topic s) = su_resub s"
  "t \<in> set (su_topics (request_answered ok topic s)) \<or> t \<in> set (su_failed (request_answered ok topic s)) \<longleftrightarrow>
     t = topic \<or> t \<in> set (su_topics s) \<or> t \<in> set (su_failed s)"
  by (auto simp: request_answered_def)

lemma fst_remove1: "(t, q) \<in> set xs \<Longrightarrow> insert t (fst ` set (remove1 (t, q) xs)) = fst ` set xs"
  by (induction xs) (auto simp: insert_commute)

text \<open>Where a topic is taken care of.\<close>

definition covered :: "string \<Rightarrow> 'cb sub_sys \<Rightarrow> bool" where
  "covered t s \<longleftrightarrow> (t \<in> set (su_topics s) \<or> t \<in> set (su_failed s)) \<or> t \<in> fst ` set (su_pending s) \<or>
     t \<in> fst ` set (su_asking s) \<or> su_resub s = Collecting \<or>
     (\<exists>rest. su_resub s = Subscribing rest \<and> t \<in> fst ` set rest)"

lemma sub_inv_covered: "sub_inv s \<longleftrightarrow> fm_mosq (su s) \<and> distinct (map fst (fm_callbacks (su s))) \<and>
    (fm_session_connected (su s) \<longrightarrow> (\<forall>t \<in> registered (su s). covered t s))"
  by (auto simp: sub_inv_def covered_def)

lemma sub_step_inv:
  assumes "sub_step s s'" and "sub_inv s" and "keys_sorted s"
  shows "sub_inv s' \<and> keys_sorted s'"
  using assms
proof (induction rule: sub_step.induct)
  case (register_insert s topic cb qos)
  then show ?case
    by (auto simp: sub_inv_def keys_sorted_def insert_callback_def Let_def registered_def map_change_keys_set
        map_change_distinct)
next
  case (register_check topic qos s)
  note f = fst_remove1 [OF register_check(1), symmetric]
  show ?case
    using register_check unfolding sub_inv_def session_at_def keys_sorted_def by (auto simp: f)
next
  case (register_ask topic qos s ok)
  have "covered t (request_answered ok topic (s\<lparr>su := call_lib [Subscribe topic qos] (su s),
      su_asking := remove1 (topic, qos) (su_asking s)\<rparr>))" if "covered t s" for t
    using that fst_remove1 [OF register_ask(1), symmetric] unfolding covered_def by auto
  then show ?case using register_ask by (auto simp: sub_inv_covered keys_sorted_def registered_def)
next
  case (unregister s h)
  show ?case
  proof (cases "erase_callback h (fm_callbacks (su s))")
    case None
    then show ?thesis using unregister by (simp add: UnregisterCallback_def emptied_def broker_drops_def)
  next
    case (Some r)
    obtain t cs where r: "r = (t, cs)" by fastforce
    note k = erase_callback_keys [OF Some [unfolded r]]
    show ?thesis
    proof (cases t)
      case None
      then have "map fst cs = map fst (fm_callbacks (su s))" using k by simp
      moreover from this have "fst ` set cs = fst ` set (fm_callbacks (su s))" by (metis set_map)
      ultimately show ?thesis
        using unregister None by (simp add: Some r UnregisterCallback_def emptied_def broker_drops_def sub_inv_def
            keys_sorted_def registered_def)
    next
      case (Some topic)
      then obtain us vs where uv: "map fst (fm_callbacks (su s)) = us @ topic # vs" "map fst cs = us @ vs"
        using k by auto
      have d: "topic \<notin> set (us @ vs)" "distinct (us @ vs)" "sorted (us @ vs)"
        using unregister uv by (auto simp: sub_inv_def keys_sorted_def sorted_append)
      have ks: "fst ` set (fm_callbacks (su s)) = insert topic (set (us @ vs))" "fst ` set cs = set (us @ vs)"
        using uv by (metis set_map list.set(2) set_append Un_insert_right, metis set_map)
      show ?thesis
        using unregister d uv(2) Some
        by (auto simp: \<open>erase_callback h (fm_callbacks (su s)) = Some r\<close> r UnregisterCallback_def emptied_def
            broker_drops_def sub_inv_def keys_sorted_def registered_def ks)
    qed
  qed
next
  case (clear s topic)
  have ks: "fst ` set (filter (\<lambda>c. fst c \<noteq> topic) cs) = fst ` set cs - {topic}"
    "map fst (filter (\<lambda>c. fst c \<noteq> topic) cs) = filter (\<lambda>k. k \<noteq> topic) (map fst cs)" for cs :: "(string \<times> 'a CallbackEntry list) list"
    by (auto simp: filter_map comp_def)
  show ?case
  proof (cases "map_of (fm_callbacks (su s)) topic")
    case None
    then show ?thesis using clear by (simp add: ClearCallback_def)
  next
    case (Some es)
    let ?s = "s\<lparr>su := ClearCallback topic (su s), su_topics := broker_drops (session_at s) (Some topic) (su_topics s),
      su_failed := broker_drops (session_at s) (Some topic) (su_failed s)\<rparr>"
    have "covered t ?s" if "covered t s" "t \<noteq> topic" for t
      using that unfolding covered_def broker_drops_def by auto
    moreover have "registered (su ?s) = registered (su s) - {topic}"
      using Some by (auto simp: ClearCallback_def registered_def ks)
    moreover have "distinct (map fst (fm_callbacks (su ?s)))" "keys_sorted ?s" "fm_mosq (su ?s)"
      "fm_session_connected (su ?s) = fm_session_connected (su s)"
      using clear Some by (auto simp: ClearCallback_def sub_inv_def keys_sorted_def ks sorted_filter [of id, simplified])
    ultimately show ?thesis using clear Some by (auto simp: sub_inv_covered)
  qed
next
  case (clear_all s)
  then show ?case by (simp add: ClearAllCallbacks_def sub_inv_def keys_sorted_def registered_def)
next
  case (session_up s)
  then show ?case by (simp add: sub_inv_def keys_sorted_def)
next
  case (collect s)
  then show ?case by (force simp: sub_inv_def keys_sorted_def registered_def subscriptions_def)
next
  case (subscribe_one s topic qos rest ok)
  have "covered t (request_answered ok topic (s\<lparr>su := call_lib [Subscribe topic qos] (su s), su_resub := Subscribing rest\<rparr>))"
    if "covered t s" for t
    using that subscribe_one(1) unfolding covered_def by auto
  then show ?case using subscribe_one by (auto simp: sub_inv_covered keys_sorted_def registered_def)
next
  case (subscribed s)
  then show ?case by (auto simp: sub_inv_def keys_sorted_def)
next
  case (session_down s)
  then show ?case by (simp add: sub_inv_def keys_sorted_def HandleDisconnect_def)
qed

interpretation subs: invariant_system
  "\<lambda>s. \<exists>m. s = sub_start m \<and> fm_mosq m \<and> fm_callbacks m = [] \<and> \<not> fm_session_connected m"
  sub_step "\<lambda>s. sub_inv s \<and> keys_sorted s"
proof
  show "sub_inv s \<and> keys_sorted s" if "\<exists>m. s = sub_start m \<and> fm_mosq m \<and> fm_callbacks m = [] \<and> \<not> fm_session_connected m" for s :: "'a sub_sys"
    using that by (auto simp: sub_start_def sub_inv_def keys_sorted_def)
qed (use sub_step_inv in blast)

text \<open>C12: No registration is missed: however callers register and unregister while the session comes and
  goes, once no \<open>RegisterCallback\<close> is half way and the renewal has ended, every topic in the table is, as long as
  there is a session, subscribed at the broker, unless the library refused the last request made for it in this
  session, which the program only logs.\<close>

theorem registered_topics_subscribed:
  assumes "sub_step\<^sup>*\<^sup>* (sub_start m) s" and "fm_mosq m" and "fm_callbacks m = []" and "\<not> fm_session_connected m"
    and "su_pending s = []" and "su_asking s = []" and "su_resub s = Idle" and "fm_session_connected (su s)"
    and "(topic, es) \<in> set (fm_callbacks (su s))"
  shows "topic \<in> set (su_topics s) \<or> topic \<in> set (su_failed s)"
proof -
  have "sub_inv s" using subs.reachable_inv [OF _ assms(1)] assms(2-4) by blast
  moreover have "topic \<in> registered (su s)" using assms(9) by (force simp: registered_def)
  ultimately show ?thesis using assms(5-8) by (auto simp: sub_inv_def)
qed

text \<open>A registration whose halves lie around the whole renewal of a session.\<close>

theorem registered_topics_subscribed_witness:
  "\<exists>s :: nat sub_sys. sub_step\<^sup>*\<^sup>* (sub_start (new_fast_mqtt\<lparr>fm_mosq := True\<rparr>)) s \<and>
     map fst (fm_callbacks (su s)) = [''t''] \<and> ''t'' \<in> set (su_topics s)"
proof -
  let ?m = "new_fast_mqtt\<lparr>fm_mosq := True\<rparr> :: nat fast_mqtt"
  let ?s0 = "sub_start ?m"
  let ?s1 = "?s0\<lparr>su := set_link True True ?m, su_topics := [], su_failed := [], su_resub := Collecting\<rparr>"
  let ?s2 = "?s1\<lparr>su_resub := Subscribing []\<rparr>"
  let ?m3 = "snd (insert_callback ''t'' 5 1 (set_link True True ?m))"
  let ?s3 = "?s2\<lparr>su := ?m3, su_pending := [(''t'', 1)]\<rparr>"
  let ?s4 = "?s3\<lparr>su_resub := Idle\<rparr>"
  let ?s5 = "?s4\<lparr>su_pending := [], su_asking := [(''t'', 1)]\<rparr>"
  let ?s6 = "?s5\<lparr>su := call_lib [Subscribe ''t'' 1] ?m3, su_asking := [], su_topics := [''t''], su_failed := []\<rparr>"
  have f: "fm_mosq ?m" "fm_callbacks ?m = []" "\<not> fm_session_connected ?m" "fc_enable (fm_config ?m)"
    by (simp_all add: new_fast_mqtt_def default_config_def)
  have m3: "fm_session_connected ?m3" "fm_mosq ?m3" "map fst (fm_callbacks ?m3) = [''t'']"
    using f by (simp_all add: insert_callback_def Let_def)
  have "sub_step ?s0 ?s1" using sub_step.session_up [of ?s0] f by (simp add: sub_start_def)
  moreover have "sub_step ?s1 ?s2" using sub_step.collect [of ?s1] f by (simp add: subscriptions_def)
  moreover have "sub_step ?s2 ?s3" using sub_step.register_insert [of ?s2 "''t''" 1 5] by (simp add: sub_start_def)
  moreover have "sub_step ?s3 ?s4" using sub_step.subscribed [of ?s3] by simp
  moreover have "sub_step ?s4 ?s5"
    using sub_step.register_check [of "''t''" 1 ?s4] m3 by (simp add: sub_start_def session_at_def)
  moreover have "sub_step ?s5 ?s6"
    using sub_step.register_ask [of "''t''" 1 ?s5 True] by (simp add: sub_start_def request_answered_def)
  ultimately have r: "sub_step\<^sup>*\<^sup>* ?s0 ?s6" by (meson converse_rtranclp_into_rtranclp rtranclp.rtrancl_refl)
  obtain es where "(''t'', es) \<in> set (fm_callbacks (su ?s6))" using m3(3) by auto
  then have "''t'' \<in> set (su_topics ?s6)"
    using registered_topics_subscribed [OF r f(1-3)] m3(1) by simp
  then show ?thesis using r m3(3) by (intro exI [of _ ?s6]) simp
qed

end
