(* ===== verification/DemoEdges.thy ===== *)
theory DemoEdges
  imports Edge
begin

text \<open>
  The two edges with their own copy of the life cycle, \<open>UUVEdge\<close> and \<open>TUNAEdge\<close> of \<open>src/util/my_edge/demo\<close>. They do
  not derive from \<open>BaseEdge\<close>: \<open>UUVEdge\<close> keeps a normaliser per device type and has a thread for tasks of its own,
  \<open>TUNAEdge\<close> makes the normaliser for each command and drives a vehicle, whose link is outside the model (what
  is asked of it is recorded). A call holds the lock of the edge and is one step; the lock and the threads are in
  \<open>DemoEdgeThreads\<close>. The second \<open>lock_shared\<close> that \<open>AppendTask\<close> and \<open>AppendJsonTask\<close> take while they hold the
  first is undefined by the standard; it is taken to succeed. Messages and the log are left out. As in \<open>Edge\<close>,
  an association list stands for an \<open>unordered_map\<close>.
\<close>

section \<open>State\<close>

datatype vehicle_call = VehicleInit string | VehicleDisarm | VehicleStop

record OwnEdge =
  og_edge_id :: string
  og_version :: string
  og_edge_type :: string
  og_cfg :: json
  og_boot_at_ms :: i64
  og_run_state :: RunState
  og_estop :: bool
  og_estop_reason :: string
  og_allow_queue_when_estop :: bool
  og_device_type_by_id :: "(string \<times> string) list"
  og_normalizers :: "(string \<times> normalizer) list"
  og_queues :: "(string \<times> Task task_queue) list"
  og_devices :: "(string \<times> Device) list"
  og_snapshot_enable :: bool
  og_snapshot_thread :: bool
  og_self_action_enable :: bool
  og_self_device_id :: string
  og_self_action_thread :: bool
  og_vehicle :: bool
  og_vehicle_calls :: "vehicle_call list"

definition UUVEdge_ctor :: OwnEdge where
  "UUVEdge_ctor = \<lparr>og_edge_id = ''edge-unknown'', og_version = ''0.1.0'', og_edge_type = ''uuv'', og_cfg = JNull,
     og_boot_at_ms = 0, og_run_state = RsInitializing, og_estop = False, og_estop_reason = [],
     og_allow_queue_when_estop = False, og_device_type_by_id = [], og_normalizers = [], og_queues = [],
     og_devices = [], og_snapshot_enable = False, og_snapshot_thread = False, og_self_action_enable = True,
     og_self_device_id = ''self'', og_self_action_thread = False, og_vehicle = False, og_vehicle_calls = []\<rparr>"

text \<open>\<open>TUNAEdge\<close> has no thread and no queue of its own.\<close>

definition TUNAEdge_ctor :: OwnEdge where
  "TUNAEdge_ctor = UUVEdge_ctor\<lparr>og_edge_id := ''tuna-default'', og_version := ''0.0'', og_edge_type := ''tuna'',
     og_self_action_enable := False\<rparr>"

section \<open>Initialisation\<close>

text \<open>The end of \<open>Init\<close>: its answer, an exception that leaves it, or a read of a missing member through the
  unchecked \<open>operator[]\<close> of a constant object.\<close>

datatype init_end = InitReturns bool | InitThrows json_exn | InitUndefined

definition reading :: "json_exn + 'v \<Rightarrow> ('v \<Rightarrow> 's \<Rightarrow> 's) \<Rightarrow> ('s \<Rightarrow> init_end \<times> 's) \<Rightarrow> 's \<Rightarrow> init_end \<times> 's" where
  "reading r f k s = (case r of Inl e \<Rightarrow> (InitThrows e, s) | Inr v \<Rightarrow> k (f v s))"

text \<open>What a range-based \<open>for\<close> over a JSON value goes through.\<close>

fun json_elements :: "json \<Rightarrow> json list" where
  "json_elements (JArray ds) = ds"
| "json_elements (JObject fs) = map snd fs"
| "json_elements JNull = []"
| "json_elements v = [v]"

definition EnsureNormalizerForTypeLocked :: "string \<Rightarrow> OwnEdge \<Rightarrow> bool \<times> OwnEdge" where
  "EnsureNormalizerForTypeLocked type s =
     (if map_of (og_normalizers s) type \<noteq> None then (True, s)
      else case CreateNormalizer type of
        None \<Rightarrow> (False, s)
      | Some n \<Rightarrow> (True, s\<lparr>og_normalizers := AList.update type n (og_normalizers s)\<rparr>))"

definition device_failed :: "bool \<times> OwnEdge \<Rightarrow> bool \<times> OwnEdge" where
  "device_failed r = (False, (snd r)\<lparr>og_run_state := RsInitializing\<rparr>)"

definition new_queue :: "string \<Rightarrow> OwnEdge \<Rightarrow> OwnEdge" where
  "new_queue device_id s = s\<lparr>og_queues := AList.update device_id (tq_ctor (''queue-'' @ device_id)) (og_queues s)\<rparr>"

text \<open>One round of the loop over the devices; the boolean is \<open>initStatus\<close>.\<close>

definition uuv_init_device :: "(nat \<Rightarrow> i64) \<Rightarrow> json \<Rightarrow> bool \<times> OwnEdge \<Rightarrow> bool \<times> OwnEdge" where
  "uuv_init_device now dcfg r =
     (case (value_string dcfg ''device_id'' [], value_string dcfg ''type'' []) of
        (Inr device_id, Inr type) \<Rightarrow>
          if device_id = [] \<or> type = [] then device_failed r
          else
            let (ok, s) = r; s = s\<lparr>og_device_type_by_id := AList.update device_id type (og_device_type_by_id s)\<rparr> in
            (case EnsureNormalizerForTypeLocked type s of
               (False, s) \<Rightarrow> device_failed (ok, s)
             | (True, s) \<Rightarrow>
                 let s = new_queue device_id s in
                 (case Create type dcfg now of
                    None \<Rightarrow> device_failed (ok, s)
                  | Some d \<Rightarrow> (ok, s\<lparr>og_devices := AList.update device_id d (og_devices s), og_run_state := RsReady\<rparr>)))
      | _ \<Rightarrow> device_failed r)"

text \<open>The old parts go, the queue of the edge itself is made, then the devices are read.\<close>

definition uuv_clear :: "i64 \<Rightarrow> OwnEdge \<Rightarrow> OwnEdge" where
  "uuv_clear boot s =
     (let s = s\<lparr>og_boot_at_ms := boot, og_devices := [], og_queues := [], og_device_type_by_id := [], og_normalizers := []\<rparr>
      in if og_self_action_enable s then new_queue (og_self_device_id s) s else s)"

definition uuv_init_devices :: "json \<Rightarrow> (nat \<Rightarrow> i64) \<Rightarrow> OwnEdge \<Rightarrow> init_end \<times> OwnEdge" where
  "uuv_init_devices cfg now s =
     (case field cfg ''devices'' of
        None \<Rightarrow> (InitUndefined, s\<lparr>og_run_state := RsInitializing\<rparr>)
      | Some ds \<Rightarrow>
          let is_array = (case ds of JArray _ \<Rightarrow> True | _ \<Rightarrow> False);
              s = (if is_array then s else s\<lparr>og_run_state := RsInitializing\<rparr>);
              (ok, s) = fold (uuv_init_device now) (json_elements ds) (is_array, s)
          in (InitReturns ok, s))"

definition uuv_Init :: "json \<Rightarrow> (nat \<Rightarrow> i64) \<Rightarrow> OwnEdge \<Rightarrow> init_end \<times> OwnEdge" where
  "uuv_Init cfg now s =
     (let s = s\<lparr>og_cfg := cfg\<rparr> in
      reading (value_string cfg ''edge_id'' (og_edge_id s)) (\<lambda>v s. s\<lparr>og_edge_id := v\<rparr>) (\<lambda>s.
      reading (value_string cfg ''version'' (og_version s)) (\<lambda>v s. s\<lparr>og_version := v\<rparr>) (\<lambda>s.
      reading (value_string cfg ''edge_type'' (og_edge_type s)) (\<lambda>v s. s\<lparr>og_edge_type := v\<rparr>) (\<lambda>s.
      reading (value_bool cfg ''allow_queue_when_estop'' False) (\<lambda>v s. s\<lparr>og_allow_queue_when_estop := v\<rparr>) (\<lambda>s.
      reading (value_bool cfg ''self_action_enable'' True) (\<lambda>v s. s\<lparr>og_self_action_enable := v\<rparr>) (\<lambda>s.
      reading (value_string cfg ''self_device_id'' (og_self_device_id s)) (\<lambda>v s. s\<lparr>og_self_device_id := v\<rparr>) (\<lambda>s.
        uuv_init_devices cfg now (uuv_clear (now 0) s)) s) s) s) s) s) s)"

text \<open>\<open>TUNAEdge\<close> keeps no normalisers, and returns at once without an array of devices.\<close>

definition tuna_init_device :: "(nat \<Rightarrow> i64) \<Rightarrow> json \<Rightarrow> bool \<times> OwnEdge \<Rightarrow> bool \<times> OwnEdge" where
  "tuna_init_device now dcfg r =
     (case (value_string dcfg ''device_id'' [], value_string dcfg ''type'' []) of
        (Inr device_id, Inr type) \<Rightarrow>
          if device_id = [] \<or> type = [] then device_failed r
          else
            let (ok, s) = r;
                s = s\<lparr>og_device_type_by_id := AList.update device_id type (og_device_type_by_id s)\<rparr>;
                s = new_queue device_id s
            in (case Create type dcfg now of
                  None \<Rightarrow> device_failed (ok, s)
                | Some d \<Rightarrow> (ok, s\<lparr>og_devices := AList.update device_id d (og_devices s), og_run_state := RsReady\<rparr>))
      | _ \<Rightarrow> device_failed r)"

definition tuna_init_devices :: "json \<Rightarrow> (nat \<Rightarrow> i64) \<Rightarrow> OwnEdge \<Rightarrow> init_end \<times> OwnEdge" where
  "tuna_init_devices cfg now s =
     (case field cfg ''devices'' of
        Some (JArray ds) \<Rightarrow>
          let (ok, s) = fold (tuna_init_device now) ds (True, s) in
          reading (value_string cfg ''connection_url'' [])
            (\<lambda>conn s. if conn \<noteq> [] then s\<lparr>og_vehicle := True\<rparr> else s) (\<lambda>s. (InitReturns ok, s)) s
      | _ \<Rightarrow> (InitReturns False, s\<lparr>og_run_state := RsInitializing\<rparr>))"

definition tuna_Init :: "json \<Rightarrow> (nat \<Rightarrow> i64) \<Rightarrow> OwnEdge \<Rightarrow> init_end \<times> OwnEdge" where
  "tuna_Init cfg now s =
     (let s = s\<lparr>og_cfg := cfg\<rparr> in
      reading (value_string cfg ''edge_id'' (og_edge_id s)) (\<lambda>v s. s\<lparr>og_edge_id := v\<rparr>) (\<lambda>s.
      reading (value_string cfg ''version'' (og_version s)) (\<lambda>v s. s\<lparr>og_version := v\<rparr>) (\<lambda>s.
      reading (value_string cfg ''edge_type'' (og_edge_type s)) (\<lambda>v s. s\<lparr>og_edge_type := v\<rparr>) (\<lambda>s.
      reading (value_bool cfg ''allow_queue_when_estop'' False) (\<lambda>v s. s\<lparr>og_allow_queue_when_estop := v\<rparr>) (\<lambda>s.
        tuna_init_devices cfg now
          (s\<lparr>og_boot_at_ms := now 0, og_devices := [], og_queues := [], og_device_type_by_id := []\<rparr>)) s) s) s) s)"

section \<open>Start and shutdown\<close>

fun og_start_devices :: "(string \<times> Device) list \<Rightarrow> OwnEdge \<Rightarrow> bool \<times> OwnEdge" where
  "og_start_devices [] s = (True, s)"
| "og_start_devices ((device_id, d) # ds) s =
     (case map_of (og_queues s) device_id of
        None \<Rightarrow> (False, s\<lparr>og_run_state := RsReady\<rparr>)
      | Some q \<Rightarrow>
          (case Device_Start d of
             (False, d) \<Rightarrow> (False, s\<lparr>og_run_state := RsReady\<rparr>)
           | (True, d) \<Rightarrow> og_start_devices ds (s\<lparr>og_devices := AList.update device_id d (og_devices s)\<rparr>)))"

text \<open>\<open>db\<close>: whether the data base is initialised.\<close>

definition StartStatusSnapshotThreadLocked :: "bool \<Rightarrow> OwnEdge \<Rightarrow> OwnEdge" where
  "StartStatusSnapshotThreadLocked db s =
     (if \<not> og_snapshot_enable s then s else if \<not> db then s else s\<lparr>og_snapshot_thread := True\<rparr>)"

definition uuv_StartSelfActionThreadLocked :: "OwnEdge \<Rightarrow> OwnEdge" where
  "uuv_StartSelfActionThreadLocked s =
     (if \<not> og_self_action_enable s then s
      else if map_of (og_queues s) (og_self_device_id s) = None then s
      else s\<lparr>og_self_action_thread := True\<rparr>)"

definition uuv_Start :: "bool \<Rightarrow> OwnEdge \<Rightarrow> bool \<times> OwnEdge" where
  "uuv_Start db s =
     (if og_run_state s \<noteq> RsReady then (False, s)
      else case og_start_devices (og_devices s) s of
        (False, s) \<Rightarrow> (False, s)
      | (True, s) \<Rightarrow> (True, uuv_StartSelfActionThreadLocked (StartStatusSnapshotThreadLocked db (s\<lparr>og_run_state := RsRunning\<rparr>))))"

text \<open>A vehicle that cannot connect is only reported. The address was stored by \<open>Init\<close>, so its read cannot fail.\<close>

definition connection_url :: "OwnEdge \<Rightarrow> string" where
  "connection_url s = (case value_string (og_cfg s) ''connection_url'' [] of Inr c \<Rightarrow> c | Inl _ \<Rightarrow> [])"

definition tuna_Start :: "bool \<Rightarrow> OwnEdge \<Rightarrow> bool \<times> OwnEdge" where
  "tuna_Start db s =
     (if og_run_state s \<noteq> RsReady then (False, s)
      else case og_start_devices (og_devices s) s of
        (False, s) \<Rightarrow> (False, s)
      | (True, s) \<Rightarrow>
          let s = (if og_vehicle s \<and> connection_url s \<noteq> []
                   then s\<lparr>og_vehicle_calls := og_vehicle_calls s @ [VehicleInit (connection_url s)]\<rparr> else s)
          in (True, StartStatusSnapshotThreadLocked db (s\<lparr>og_run_state := RsRunning\<rparr>)))"

text \<open>The joins inside \<open>Shutdown\<close> are taken to come back here.\<close>

definition uuv_Shutdown :: "OwnEdge \<Rightarrow> OwnEdge" where
  "uuv_Shutdown s =
     (if og_run_state s = RsStopped \<or> og_run_state s = RsStopping then s
      else s\<lparr>og_snapshot_thread := False, og_self_action_thread := False, og_devices := [], og_queues := [],
             og_device_type_by_id := [], og_normalizers := [], og_run_state := RsStopped\<rparr>)"

definition tuna_Shutdown :: "OwnEdge \<Rightarrow> OwnEdge" where
  "tuna_Shutdown s =
     (if og_run_state s = RsStopped \<or> og_run_state s = RsStopping then s
      else
        let s = (if og_vehicle s then s\<lparr>og_vehicle := False, og_vehicle_calls := og_vehicle_calls s @ [VehicleStop]\<rparr> else s)
        in s\<lparr>og_snapshot_thread := False, og_devices := [], og_queues := [], og_device_type_by_id := [], og_run_state := RsStopped\<rparr>)"

definition uuv_SetEStop :: "bool \<Rightarrow> string \<Rightarrow> OwnEdge \<Rightarrow> OwnEdge" where
  "uuv_SetEStop active reason s = s\<lparr>og_estop := active, og_estop_reason := reason\<rparr>"

definition tuna_SetEStop :: "bool \<Rightarrow> string \<Rightarrow> OwnEdge \<Rightarrow> OwnEdge" where
  "tuna_SetEStop active reason s =
     (let s = s\<lparr>og_estop := active, og_estop_reason := reason\<rparr> in
      if active \<and> og_vehicle s then s\<lparr>og_vehicle_calls := og_vehicle_calls s @ [VehicleDisarm]\<rparr> else s)"

section \<open>Commands and tasks\<close>

definition og_MakeResult :: "SubmitCode \<Rightarrow> RawCommand \<Rightarrow> string \<Rightarrow> string \<Rightarrow> i64 \<Rightarrow> OwnEdge \<Rightarrow> SubmitResult" where
  "og_MakeResult code cmd device_id task_id queue_size_after s =
     \<lparr>sr_code = code, sr_edge_id = og_edge_id s, sr_device_id = device_id, sr_command_id = rc_command_id cmd,
      sr_task_id = task_id, sr_queue_size_after = queue_size_after\<rparr>"

text \<open>The end of both \<open>Submit\<close>: the task goes into the queue of its device.\<close>

definition submit_task :: "RawCommand \<Rightarrow> string \<Rightarrow> Task \<Rightarrow> OwnEdge \<Rightarrow> SubmitResult \<times> OwnEdge" where
  "submit_task cmd device_id task s =
     (case map_of (og_queues s) device_id of
        None \<Rightarrow> (og_MakeResult SubmitInternalError cmd device_id (t_task_id task) 0 s, s)
      | Some q \<Rightarrow>
          if tq_IsShutdown q then (og_MakeResult QueueShutdown cmd device_id (t_task_id task) 0 s, s)
          else
            let q = snd (tq_Push task q) in
            (og_MakeResult SubmitOk cmd device_id (t_task_id task) (of_nat (tq_Size q)) s,
             s\<lparr>og_queues := AList.update device_id q (og_queues s)\<rparr>))"

definition uuv_Submit :: "RawCommand \<Rightarrow> (nat \<Rightarrow> i64) \<Rightarrow> u64 \<Rightarrow> OwnEdge \<Rightarrow> SubmitResult \<times> u64 \<times> OwnEdge" where
  "uuv_Submit cmd now seq s =
     (if og_run_state s \<noteq> RsRunning then (og_MakeResult NotRunning cmd [] [] 0 s, seq, s)
      else if og_estop s \<and> \<not> og_allow_queue_when_estop s then (og_MakeResult SubmitEStop cmd [] [] 0 s, seq, s)
      else if \<not> is_object (rc_payload cmd) then (og_MakeResult SubmitInvalidCommand cmd [] [] 0 s, seq, s)
      else
        let device_id = GetStringOr (rc_payload cmd) ''device_id'' [] in
        if device_id = [] then (og_MakeResult SubmitInvalidCommand cmd [] [] 0 s, seq, s)
        else
          (case map_of (og_device_type_by_id s) device_id of
             None \<Rightarrow> (og_MakeResult SubmitUnknownDevice cmd device_id [] 0 s, seq, s)
           | Some type \<Rightarrow>
               (case map_of (og_normalizers s) type of
                  None \<Rightarrow> (og_MakeResult SubmitInternalError cmd device_id [] 0 s, seq, s)
                | Some n \<Rightarrow>
                    (case Normalize n cmd (og_edge_id s) now seq of
                       (None, seq) \<Rightarrow> (og_MakeResult SubmitInvalidCommand cmd device_id [] 0 s, seq, s)
                     | (Some task, seq) \<Rightarrow> (case submit_task cmd device_id task s of (r, s) \<Rightarrow> (r, seq, s))))))"

text \<open>In \<open>TUNAEdge\<close>, as in \<open>BaseEdge\<close>, the default of the task identifier is the null pointer; in \<open>UUVEdge\<close> it is the
  empty string.\<close>

definition og_refusal :: "SubmitCode \<Rightarrow> RawCommand \<Rightarrow> string \<Rightarrow> OwnEdge \<Rightarrow> cxx_error + SubmitResult" where
  "og_refusal code cmd device_id s =
     (case default_task_id of Inl e \<Rightarrow> Inl e | Inr task_id \<Rightarrow> Inr (og_MakeResult code cmd device_id task_id 0 s))"

definition tuna_Submit :: "RawCommand \<Rightarrow> (nat \<Rightarrow> i64) \<Rightarrow> u64 \<Rightarrow> OwnEdge \<Rightarrow> (cxx_error + SubmitResult) \<times> u64 \<times> OwnEdge" where
  "tuna_Submit cmd now seq s =
     (if og_run_state s \<noteq> RsRunning then (og_refusal NotRunning cmd [] s, seq, s)
      else if og_estop s \<and> \<not> og_allow_queue_when_estop s then (og_refusal SubmitEStop cmd [] s, seq, s)
      else if \<not> is_object (rc_payload cmd) then (og_refusal SubmitInvalidCommand cmd [] s, seq, s)
      else
        let device_id = GetStringOr (rc_payload cmd) ''device_id'' [] in
        if device_id = [] then (og_refusal SubmitInvalidCommand cmd [] s, seq, s)
        else
          (case map_of (og_device_type_by_id s) device_id of
             None \<Rightarrow> (og_refusal SubmitUnknownDevice cmd device_id s, seq, s)
           | Some type \<Rightarrow>
               (case CreateNormalizer type of
                  None \<Rightarrow> (og_refusal SubmitInternalError cmd device_id s, seq, s)
                | Some n \<Rightarrow>
                    (case Normalize n cmd (og_edge_id s) now seq of
                       (None, seq) \<Rightarrow> (og_refusal SubmitInvalidCommand cmd device_id s, seq, s)
                     | (Some task, seq) \<Rightarrow> (case submit_task cmd device_id task s of (r, s) \<Rightarrow> (Inr r, seq, s))))))"

definition max_task_queue_size :: nat where
  "max_task_queue_size = 1000"

definition AppendTaskToTargetTaskQueue :: "string \<Rightarrow> Task \<Rightarrow> OwnEdge \<Rightarrow> bool \<times> OwnEdge" where
  "AppendTaskToTargetTaskQueue device_id task s =
     (case map_of (og_queues s) device_id of
        None \<Rightarrow> (False, s)
      | Some q \<Rightarrow>
          if tq_Size q \<ge> max_task_queue_size then (False, s)
          else (True, s\<lparr>og_queues := AList.update device_id (snd (tq_Push task q)) (og_queues s)\<rparr>))"

definition uuv_AppendTask :: "Task \<Rightarrow> OwnEdge \<Rightarrow> bool \<times> OwnEdge" where
  "uuv_AppendTask task s =
     (if t_device_id task = [] then (False, s) else AppendTaskToTargetTaskQueue (t_device_id task) task s)"

definition uuv_AppendJsonTask :: "json \<Rightarrow> OwnEdge \<Rightarrow> bool \<times> OwnEdge" where
  "uuv_AppendJsonTask task s =
     (let device_id = GetStringOr task ''device_id'' [] in
      if device_id = [] then (False, s) else AppendTaskToTargetTaskQueue device_id (Task_fromJson task) s)"

text \<open>\<open>TUNAEdge\<close> has the same three functions.\<close>

definition tuna_AppendTask :: "Task \<Rightarrow> OwnEdge \<Rightarrow> bool \<times> OwnEdge" where
  "tuna_AppendTask task s =
     (if t_device_id task = [] then (False, s) else AppendTaskToTargetTaskQueue (t_device_id task) task s)"

definition tuna_AppendJsonTask :: "json \<Rightarrow> OwnEdge \<Rightarrow> bool \<times> OwnEdge" where
  "tuna_AppendJsonTask task s =
     (let device_id = GetStringOr task ''device_id'' [] in
      if device_id = [] then (False, s) else AppendTaskToTargetTaskQueue device_id (Task_fromJson task) s)"

section \<open>Status\<close>

definition og_queue_depth :: "OwnEdge \<Rightarrow> string \<Rightarrow> i64 option" where
  "og_queue_depth s device_id = map_option (\<lambda>q. of_nat (tq_Size q)) (map_of (og_queues s) device_id)"

definition og_device_snapshot :: "OwnEdge \<Rightarrow> string \<times> Device \<Rightarrow> string \<times> DeviceStatus" where
  "og_device_snapshot s d =
     (let ds = Device_GetStatusSnapshot (snd d) in
      (fst d, case og_queue_depth s (fst d) of Some n \<Rightarrow> ds\<lparr>ds_queue_depth := n\<rparr> | None \<Rightarrow> ds))"

text \<open>Unlike \<open>BaseEdge\<close>, the tasks waiting for the edge itself are not counted.\<close>

definition uuv_GetStatusSnapshot :: "OwnEdge \<Rightarrow> EdgeStatus" where
  "uuv_GetStatusSnapshot s =
     (let pending = sum_list (map (\<lambda>(k, d). case og_queue_depth s k of Some n \<Rightarrow> n | None \<Rightarrow> 0) (og_devices s));
          running = of_nat (length (filter (\<lambda>(k, d). ds_work_state (Device_GetStatusSnapshot d) = Busy) (og_devices s)))
      in \<lparr>es_edge_id = og_edge_id s, es_run_state = edge_run_state (og_run_state s) (og_estop s),
          es_boot_at_ms = og_boot_at_ms s, es_last_heartbeat_at_ms = 0, es_estop_active = og_estop s,
          es_estop_reason = og_estop_reason s, es_devices = map (og_device_snapshot s) (og_devices s),
          es_tasks_pending_total = pending, es_tasks_running_total = running, es_version = og_version s\<rparr>)"

fun RunStateToString :: "RunState \<Rightarrow> string" where
  "RunStateToString RsInitializing = ''Initializing''"
| "RunStateToString RsReady = ''Ready''"
| "RunStateToString RsRunning = ''Running''"
| "RunStateToString RsStopping = ''Stopping''"
| "RunStateToString RsStopped = ''Stopped''"
| "RunStateToString RsRunOver = ''RunOver''"

definition uuv_DumpInternalInfo :: "OwnEdge \<Rightarrow> json" where
  "uuv_DumpInternalInfo s = JObject
     [(''edge_id'', JString (og_edge_id s)), (''edge_type'', JString (og_edge_type s)),
      (''version'', JString (og_version s)), (''run_state'', JString (RunStateToString (og_run_state s))),
      (''estop_active'', JBool (og_estop s)),
      (''task-queues'', JObject (map (\<lambda>(device_id, q). (device_id,
         JObject [(''name'', JString (tq_name q)), (''size'', JUnsigned (tq_Size q))])) (og_queues s))),
      (''devices'', JObject (map (\<lambda>(device_id, d). (device_id, JNull)) (og_devices s))),
      (''normalizers'', JObject (map (\<lambda>(type, n). (type, JNull)) (og_normalizers s)))]"

definition uuv_GetRunTimeStatusInfo :: json where
  "uuv_GetRunTimeStatusInfo = JObject [(''name'', JString ''UUVEdge''), (''state'', JString ''active'')]"

text \<open>\<open>TUNAEdge\<close> reads the status of its vehicle without using it; its dump shows what the vehicle answers.\<close>

definition tuna_GetStatusSnapshot :: "OwnEdge \<Rightarrow> EdgeStatus" where
  "tuna_GetStatusSnapshot s = uuv_GetStatusSnapshot s"

definition tuna_DumpInternalInfo :: "json \<Rightarrow> OwnEdge \<Rightarrow> json" where
  "tuna_DumpInternalInfo vehicle_status s = JObject (
     [(''edge_id'', JString (og_edge_id s)), (''edge_type'', JString (og_edge_type s)),
      (''version'', JString (og_version s)), (''run_state'', JString (RunStateToString (og_run_state s))),
      (''estop_active'', JBool (og_estop s)),
      (''task-queues'', JObject (map (\<lambda>(device_id, q). (device_id,
         JObject [(''name'', JString (tq_name q)), (''size'', JUnsigned (tq_Size q))])) (og_queues s))),
      (''devices'', JObject (map (\<lambda>(device_id, d). (device_id, JNull)) (og_devices s))),
      (''normalizers'', JObject [])] @ (if og_vehicle s then [(''vehicle'', vehicle_status)] else []))"

definition tuna_GetRunTimeStatusInfo :: json where
  "tuna_GetRunTimeStatusInfo = JObject [(''name'', JString ''TUNAEdge''), (''state'', JString ''active'')]"

section \<open>Tasks of the edge itself\<close>

text \<open>The text the code stores when a task gives no reason, in UTF-8.\<close>

definition default_reason :: string where
  "default_reason = map char_of [0xE8, 0x87, 0xAA, 0xE6, 0x88, 0x91, 0xE8, 0xA1, 0x8C, 0xE5, 0x8A, 0xA8 :: nat]"

text \<open>The queue is looked up under the lock and popped without it; an empty one runs into the time-out.\<close>

definition GetSelfTask :: "OwnEdge \<Rightarrow> Task option \<times> OwnEdge" where
  "GetSelfTask s =
     (case map_of (og_queues s) (og_self_device_id s) of
        None \<Rightarrow> (None, s)
      | Some q \<Rightarrow>
          (case tq_PopBlocking q of
             (Returns (Some t), q) \<Rightarrow> (Some t, s\<lparr>og_queues := AList.update (og_self_device_id s) q (og_queues s)\<rparr>)
           | _ \<Rightarrow> (None, s)))"

text \<open>An exception from the parameters is caught; reading the status and the dump change nothing.\<close>

definition ExecuteSelfTask :: "Task \<Rightarrow> OwnEdge \<Rightarrow> OwnEdge" where
  "ExecuteSelfTask task s =
     (if t_action task = ''get_status'' then s
      else if t_action task = ''set_estop'' then
        (case (value_bool (t_params task) ''active'' False, value_string (t_params task) ''reason'' default_reason) of
           (Inr active, Inr reason) \<Rightarrow> uuv_SetEStop active reason s
         | _ \<Rightarrow> s)
      else s)"

end
