(* ===== verification/DemoEdgeThreads.thy ===== *)
theory DemoEdgeThreads
  imports DemoEdges EdgeThreads
begin

text \<open>
  The edges \<open>UUVEdge\<close> and \<open>TUNAEdge\<close> between calls: the step relations of both, what every call keeps, what
  becomes of a submitted command, and the lock that \<open>Shutdown\<close> of \<open>UUVEdge\<close> holds while it waits for the
  thread of the edge's own tasks.
\<close>

section \<open>Steps\<close>

definition og_device_thread_step :: "string \<Rightarrow> (nat \<Rightarrow> i64) \<Rightarrow> string list \<Rightarrow> OwnEdge \<Rightarrow> OwnEdge" where
  "og_device_thread_step device_id now readings s =
     (case (map_of (og_queues s) device_id, map_of (og_devices s) device_id) of
        (Some q, Some d) \<Rightarrow>
          (case RunLoop_step (og_estop s) now readings q d of (q, d) \<Rightarrow>
             s\<lparr>og_queues := AList.update device_id q (og_queues s), og_devices := AList.update device_id d (og_devices s)\<rparr>)
      | _ \<Rightarrow> s)"

inductive uuv_step :: "OwnEdge \<Rightarrow> OwnEdge \<Rightarrow> bool" where
  init: "uuv_step s (snd (uuv_Init cfg now s))"
| start: "uuv_step s (snd (uuv_Start db s))"
| submit: "uuv_step s (snd (snd (uuv_Submit cmd now seq s)))"
| append: "uuv_step s (snd (uuv_AppendTask task s))"
| append_json: "uuv_step s (snd (uuv_AppendJsonTask taskj s))"
| estop: "uuv_step s (uuv_SetEStop active reason s)"
| thread: "uuv_step s (og_device_thread_step device_id now readings s)"
| self_pop: "uuv_step s (snd (GetSelfTask s))"
| self_execute: "uuv_step s (ExecuteSelfTask task s)"
| shutdown: "uuv_step s (uuv_Shutdown s)"

inductive tuna_step :: "OwnEdge \<Rightarrow> OwnEdge \<Rightarrow> bool" where
  init: "tuna_step s (snd (tuna_Init cfg now s))"
| start: "tuna_step s (snd (tuna_Start db s))"
| submit: "tuna_step s (snd (snd (tuna_Submit cmd now seq s)))"
| append: "tuna_step s (snd (tuna_AppendTask task s))"
| append_json: "tuna_step s (snd (tuna_AppendJsonTask taskj s))"
| estop: "tuna_step s (tuna_SetEStop active reason s)"
| thread: "tuna_step s (og_device_thread_step device_id now readings s)"
| shutdown: "tuna_step s (tuna_Shutdown s)"

section \<open>Invariant\<close>

text \<open>The maps: queues are open and, for every device whose type can be commanded, there; no device is without
  its queue.\<close>

definition maps_ok :: "OwnEdge \<Rightarrow> bool" where
  "maps_ok s \<longleftrightarrow> distinct (map fst (og_queues s)) \<and> distinct (map fst (og_devices s)) \<and>
     distinct (map fst (og_device_type_by_id s)) \<and>
     (\<forall>(k, ty) \<in> set (og_device_type_by_id s). CreateNormalizer ty \<noteq> None \<longrightarrow> k \<in> keys (og_queues s)) \<and>
     keys (og_devices s) \<subseteq> keys (og_queues s) \<and> (\<forall>(k, q) \<in> set (og_queues s). \<not> tq_shut q)"

definition devices_running :: "OwnEdge \<Rightarrow> bool" where
  "devices_running s \<longleftrightarrow> (og_run_state s = RsRunning \<longrightarrow> (\<forall>(k, d) \<in> set (og_devices s). dv_control d \<noteq> None \<and> dv_workflow d \<noteq> None))"

text \<open>\<open>UUVEdge\<close> has the normaliser of every type it has a device of, when there is one.\<close>

definition normalizers_ok :: "OwnEdge \<Rightarrow> bool" where
  "normalizers_ok s \<longleftrightarrow> (\<forall>(ty, n) \<in> set (og_normalizers s). CreateNormalizer ty = Some n) \<and>
     (\<forall>(k, ty) \<in> set (og_device_type_by_id s). CreateNormalizer ty \<noteq> None \<longrightarrow> ty \<in> keys (og_normalizers s))"

definition demo_inv :: "OwnEdge \<Rightarrow> bool" where
  "demo_inv s \<longleftrightarrow> maps_ok s \<and> devices_running s"

lemma set_update_subset: "set (AList.update k v m) \<subseteq> insert (k, v) (set m)"
  by (induction m) auto

lemma all_queues_update:
  assumes "maps_ok s" "\<not> tq_shut q"
  shows "\<forall>(k, q) \<in> set (AList.update k q (og_queues s)). \<not> tq_shut q"
  using assms by (intro all_update) (auto simp: maps_ok_def)

lemma new_queue_keys: "og_queues (new_queue k s) = AList.update k (tq_ctor (''queue-'' @ k)) (og_queues s)"
  by (simp add: new_queue_def)

lemma put_queue_ok:
  assumes "maps_ok s" "\<not> tq_shut q" "k \<in> keys (og_queues s)"
  shows "maps_ok (s\<lparr>og_queues := AList.update k q (og_queues s)\<rparr>)"
  using assms all_queues_update [OF assms(1,2), of k] by (auto simp: maps_ok_def insert_absorb)

lemma types_update:
  assumes "\<forall>(k, ty) \<in> set m. P k ty" "distinct (map fst m)" "P k ty"
  shows "\<forall>(k, ty) \<in> set (AList.update k ty m). P k ty"
  using assms by (intro all_update)

text \<open>A device of the configuration: the entry of its type, its queue, the device.\<close>

lemma device_ok:
  assumes "maps_ok s"
  shows "maps_ok (new_queue k (s\<lparr>og_device_type_by_id := AList.update k ty (og_device_type_by_id s)\<rparr>))"
    and "maps_ok (new_queue k (s\<lparr>og_device_type_by_id := AList.update k ty (og_device_type_by_id s), og_normalizers := ns\<rparr>))"
    and "CreateNormalizer ty = None \<Longrightarrow> maps_ok (s\<lparr>og_device_type_by_id := AList.update k ty (og_device_type_by_id s)\<rparr>)"
proof -
  let ?P = "\<lambda>j t. CreateNormalizer t \<noteq> None \<longrightarrow> j \<in> insert k (keys (og_queues s))"
  have "\<forall>(j, t) \<in> set (AList.update k ty (og_device_type_by_id s)). ?P j t"
    using assms by (intro types_update) (auto simp: maps_ok_def)
  moreover have "\<forall>(j, q) \<in> set (AList.update k (tq_ctor (''queue-'' @ k)) (og_queues s)). \<not> tq_shut q"
    using assms by (intro all_queues_update) (simp_all add: tq_ctor_def)
  ultimately show "maps_ok (new_queue k (s\<lparr>og_device_type_by_id := AList.update k ty (og_device_type_by_id s)\<rparr>))"
    and "maps_ok (new_queue k (s\<lparr>og_device_type_by_id := AList.update k ty (og_device_type_by_id s), og_normalizers := ns\<rparr>))"
    using assms by (auto simp: maps_ok_def new_queue_def)
  assume n: "CreateNormalizer ty = None"
  have "\<forall>(j, t) \<in> set (AList.update k ty (og_device_type_by_id s)). CreateNormalizer t \<noteq> None \<longrightarrow> j \<in> keys (og_queues s)"
    using assms n by (intro types_update) (auto simp: maps_ok_def)
  then show "maps_ok (s\<lparr>og_device_type_by_id := AList.update k ty (og_device_type_by_id s)\<rparr>)"
    using assms by (simp add: maps_ok_def)
qed

lemma put_device_ok: "maps_ok s \<Longrightarrow> k \<in> keys (og_queues s) \<Longrightarrow>
    maps_ok (s\<lparr>og_devices := AList.update k d (og_devices s), og_run_state := rs\<rparr>)"
  by (simp add: maps_ok_def)

lemma run_state_ok [simp]: "maps_ok (s\<lparr>og_run_state := rs\<rparr>) = maps_ok s" "normalizers_ok (s\<lparr>og_run_state := rs\<rparr>) = normalizers_ok s"
  by (simp_all add: maps_ok_def normalizers_ok_def)

lemma new_queue_mem: "k \<in> keys (og_queues (new_queue k s))"
  by (simp add: new_queue_def)

text \<open>While a device is read, an edge that still counts as running has none.\<close>

definition init_inv :: "bool \<times> OwnEdge \<Rightarrow> bool" where
  "init_inv r \<longleftrightarrow> maps_ok (snd r) \<and> (og_run_state (snd r) = RsRunning \<longrightarrow> og_devices (snd r) = [])"

lemma init_inv_demo: "init_inv r \<Longrightarrow> demo_inv (snd r)"
  by (auto simp: init_inv_def demo_inv_def devices_running_def)

lemma device_failed_ok: "maps_ok (snd r) \<Longrightarrow> init_inv (device_failed r)"
  by (simp add: init_inv_def device_failed_def)

lemma type_added_ok:
  assumes "normalizers_ok s" "maps_ok s" "\<forall>(t, n) \<in> set ns. CreateNormalizer t = Some n" "keys (og_normalizers s) \<subseteq> keys ns"
    and "CreateNormalizer ty \<noteq> None \<longrightarrow> ty \<in> keys ns"
    and "og_device_type_by_id s' = AList.update k ty (og_device_type_by_id s)" "og_normalizers s' = ns"
  shows "normalizers_ok s'"
proof -
  have "\<forall>(j, t) \<in> set (AList.update k ty (og_device_type_by_id s)). CreateNormalizer t \<noteq> None \<longrightarrow> t \<in> keys ns"
    using assms by (intro types_update) (auto simp: normalizers_ok_def maps_ok_def)
  then show ?thesis using assms by (simp add: normalizers_ok_def)
qed

lemma uuv_init_device_ok:
  assumes i: "init_inv r" and n: "normalizers_ok (snd r)"
  shows "init_inv (uuv_init_device now dcfg r) \<and> normalizers_ok (snd (uuv_init_device now dcfg r))"
proof -
  obtain ok s where r: "r = (ok, s)" by fastforce
  have m: "maps_ok s" "normalizers_ok s" using i n by (simp_all add: init_inv_def r)
  have fail: ?thesis if "uuv_init_device now dcfg r = device_failed (ok', s')" "maps_ok s'" "normalizers_ok s'" for ok' s'
    using that device_failed_ok [of "(ok', s')"] by (simp add: device_failed_def)
  show ?thesis
  proof (cases "\<exists>k ty. value_string dcfg ''device_id'' [] = Inr k \<and> value_string dcfg ''type'' [] = Inr ty \<and> k \<noteq> [] \<and> ty \<noteq> []")
    case False
    then have "uuv_init_device now dcfg r = device_failed (ok, s)"
      by (auto simp: uuv_init_device_def r split: sum.split)
    then show ?thesis using m by (rule fail)
  next
    case True
    then obtain k ty where kt: "value_string dcfg ''device_id'' [] = Inr k" "value_string dcfg ''type'' [] = Inr ty"
      "k \<noteq> []" "ty \<noteq> []" by blast
    let ?s = "s\<lparr>og_device_type_by_id := AList.update k ty (og_device_type_by_id s)\<rparr>"
    show ?thesis
    proof (cases "CreateNormalizer ty")
      case None
      have "ty \<notin> keys (og_normalizers s)"
        using m(2) None by (force simp: normalizers_ok_def keys_def)
      then have "uuv_init_device now dcfg r = device_failed (ok, ?s)"
        using None kt by (simp add: uuv_init_device_def r EnsureNormalizerForTypeLocked_def Let_def keys_map_of)
      moreover have "maps_ok ?s" using device_ok(3) [OF m(1) None] .
      moreover have "normalizers_ok ?s"
        by (rule type_added_ok [OF m(2,1), where ns = "og_normalizers s" and ty = ty and k = k]) (use m(2) None in \<open>auto simp: normalizers_ok_def\<close>)
      ultimately show ?thesis by (rule fail)
    next
      case (Some n)
      define ns where "ns = (if ty \<in> keys (og_normalizers s) then og_normalizers s else AList.update ty n (og_normalizers s))"
      have ens: "EnsureNormalizerForTypeLocked ty ?s = (True, ?s\<lparr>og_normalizers := ns\<rparr>)"
        using Some by (auto simp: EnsureNormalizerForTypeLocked_def ns_def keys_map_of)
      have sound: "\<forall>(t, n) \<in> set ns. CreateNormalizer t = Some n"
        using m(2) Some by (auto simp: ns_def normalizers_ok_def keys_def dest!: subsetD [OF set_update_subset])
      let ?q = "new_queue k (?s\<lparr>og_normalizers := ns\<rparr>)"
      have q: "maps_ok ?q" by (rule device_ok(2) [OF m(1)])
      have nq: "normalizers_ok s'" if "og_device_type_by_id s' = og_device_type_by_id ?q" "og_normalizers s' = og_normalizers ?q" for s'
        by (rule type_added_ok [OF m(2,1) sound, where ty = ty and k = k]) (use that Some in \<open>auto simp: ns_def new_queue_def\<close>)
      show ?thesis
      proof (cases "Create ty dcfg now")
        case None
        then have "uuv_init_device now dcfg r = device_failed (ok, ?q)"
          using kt ens by (simp add: uuv_init_device_def r Let_def)
        then show ?thesis using q nq [OF refl refl] by (rule fail)
      next
        case (Some d)
        then have "uuv_init_device now dcfg r = (ok, ?q\<lparr>og_devices := AList.update k d (og_devices ?q), og_run_state := RsReady\<rparr>)"
          using kt ens by (simp add: uuv_init_device_def r Let_def)
        then show ?thesis
          using put_device_ok [OF q new_queue_mem, where d = d and rs = RsReady] nq
          by (simp add: init_inv_def)
      qed
    qed
  qed
qed

lemma tuna_init_device_ok:
  assumes i: "init_inv r"
  shows "init_inv (tuna_init_device now dcfg r)"
proof -
  obtain ok s where r: "r = (ok, s)" by fastforce
  have m: "maps_ok s" using i by (simp add: init_inv_def r)
  have "maps_ok (new_queue k (s\<lparr>og_device_type_by_id := AList.update k ty (og_device_type_by_id s)\<rparr>))" for k ty
    by (rule device_ok(1) [OF m])
  then show ?thesis
    using m put_device_ok [OF _ new_queue_mem] device_failed_ok
    by (auto simp: tuna_init_device_def r Let_def init_inv_def device_failed_def split: sum.split option.split)
qed

lemma reading_ok:
  assumes "P s" "\<And>v. P (f v s)" "\<And>s'. P s' \<Longrightarrow> Q (snd (k s'))" "\<And>s. P s \<Longrightarrow> Q s"
  shows "Q (snd (reading r f k s))"
  using assms by (simp add: reading_def split: sum.split)

lemma cleared_ok: "maps_ok (s\<lparr>og_boot_at_ms := b, og_devices := [], og_queues := [], og_device_type_by_id := []\<rparr>)"
  by (simp add: maps_ok_def)

definition uuv_ok :: "OwnEdge \<Rightarrow> bool" where
  "uuv_ok s \<longleftrightarrow> demo_inv s \<and> normalizers_ok s"

lemma uuv_devices_ok:
  "init_inv r \<Longrightarrow> normalizers_ok (snd r) \<Longrightarrow> uuv_ok (snd (fold (uuv_init_device now) ds r))"
proof (induction ds arbitrary: r)
  case Nil
  then show ?case using init_inv_demo by (simp add: uuv_ok_def)
next
  case (Cons d ds)
  then show ?case using uuv_init_device_ok [of r now d] by simp
qed

lemma tuna_devices_ok: "init_inv r \<Longrightarrow> init_inv (fold (tuna_init_device now) ds r)"
  by (induction ds arbitrary: r) (simp_all add: tuna_init_device_ok)

lemma settings_ok [simp]:
  "demo_inv (s\<lparr>og_cfg := a\<rparr>) = demo_inv s" "demo_inv (s\<lparr>og_edge_id := b\<rparr>) = demo_inv s"
  "demo_inv (s\<lparr>og_version := c\<rparr>) = demo_inv s" "demo_inv (s\<lparr>og_edge_type := d\<rparr>) = demo_inv s"
  "demo_inv (s\<lparr>og_allow_queue_when_estop := e\<rparr>) = demo_inv s" "demo_inv (s\<lparr>og_self_action_enable := f\<rparr>) = demo_inv s"
  "demo_inv (s\<lparr>og_self_device_id := g\<rparr>) = demo_inv s" "demo_inv (s\<lparr>og_vehicle := h\<rparr>) = demo_inv s"
  "demo_inv (s\<lparr>og_snapshot_thread := f\<rparr>) = demo_inv s" "demo_inv (s\<lparr>og_self_action_thread := f\<rparr>) = demo_inv s"
  "demo_inv (s\<lparr>og_vehicle_calls := l\<rparr>) = demo_inv s" "demo_inv (s\<lparr>og_estop := f, og_estop_reason := g\<rparr>) = demo_inv s"
  "normalizers_ok (s\<lparr>og_cfg := a\<rparr>) = normalizers_ok s" "normalizers_ok (s\<lparr>og_edge_id := b\<rparr>) = normalizers_ok s"
  "normalizers_ok (s\<lparr>og_version := c\<rparr>) = normalizers_ok s" "normalizers_ok (s\<lparr>og_edge_type := d\<rparr>) = normalizers_ok s"
  "normalizers_ok (s\<lparr>og_allow_queue_when_estop := e\<rparr>) = normalizers_ok s"
  "normalizers_ok (s\<lparr>og_self_action_enable := f\<rparr>) = normalizers_ok s"
  "normalizers_ok (s\<lparr>og_self_device_id := g\<rparr>) = normalizers_ok s"
  "normalizers_ok (s\<lparr>og_snapshot_thread := f\<rparr>) = normalizers_ok s"
  "normalizers_ok (s\<lparr>og_self_action_thread := f\<rparr>) = normalizers_ok s"
  "normalizers_ok (s\<lparr>og_queues := qs\<rparr>) = normalizers_ok s"
  "normalizers_ok (s\<lparr>og_devices := ds\<rparr>) = normalizers_ok s"
  "normalizers_ok (s\<lparr>og_queues := qs, og_devices := ds\<rparr>) = normalizers_ok s"
  "normalizers_ok (s\<lparr>og_estop := f, og_estop_reason := g\<rparr>) = normalizers_ok s"
  by (simp_all add: demo_inv_def maps_ok_def devices_running_def normalizers_ok_def)

lemma uuv_ok_settings [simp]:
  "uuv_ok (s\<lparr>og_cfg := a\<rparr>) = uuv_ok s" "uuv_ok (s\<lparr>og_edge_id := b\<rparr>) = uuv_ok s"
  "uuv_ok (s\<lparr>og_version := c\<rparr>) = uuv_ok s" "uuv_ok (s\<lparr>og_edge_type := d\<rparr>) = uuv_ok s"
  "uuv_ok (s\<lparr>og_allow_queue_when_estop := e\<rparr>) = uuv_ok s" "uuv_ok (s\<lparr>og_self_action_enable := f\<rparr>) = uuv_ok s"
  "uuv_ok (s\<lparr>og_self_device_id := g\<rparr>) = uuv_ok s"
  by (simp_all add: uuv_ok_def)

lemma uuv_Init_ok: "uuv_ok s \<Longrightarrow> uuv_ok (snd (uuv_Init cfg now s))"
proof -
  assume i: "uuv_ok s"
  have clear: "init_inv (b, uuv_clear c u) \<and> normalizers_ok (uuv_clear c u)"  for b c u
    by (simp add: uuv_clear_def Let_def new_queue_def init_inv_def maps_ok_def normalizers_ok_def tq_ctor_def)
  have tail: "uuv_ok (snd (uuv_init_devices cfg now (uuv_clear c u)))" for c u
  proof (cases "field cfg ''devices''")
    case None
    then show ?thesis
      using clear [of True c u] by (simp add: uuv_init_devices_def uuv_ok_def demo_inv_def devices_running_def init_inv_def)
  next
    case (Some ds)
    let ?s = "\<lambda>b. if b then uuv_clear c u else (uuv_clear c u)\<lparr>og_run_state := RsInitializing\<rparr>"
    have "uuv_ok (snd (fold (uuv_init_device now) es (b, ?s b)))" for b es
      using clear [of b c u] by (intro uuv_devices_ok) (simp_all add: init_inv_def)
    then show ?thesis by (simp add: uuv_init_devices_def Some Let_def split_beta)
  qed
  show ?thesis
    unfolding uuv_Init_def Let_def
    by (intro reading_ok [where P = uuv_ok and Q = uuv_ok]) (simp_all add: i tail)
qed

lemma tuna_Init_ok: "demo_inv s \<Longrightarrow> demo_inv (snd (tuna_Init cfg now s))"
proof -
  assume i: "demo_inv s"
  have tail: "demo_inv (snd (tuna_init_devices cfg now
      (u\<lparr>og_boot_at_ms := c, og_devices := [], og_queues := [], og_device_type_by_id := []\<rparr>)))" for c u
  proof -
    let ?s = "u\<lparr>og_boot_at_ms := c, og_devices := [], og_queues := [], og_device_type_by_id := []\<rparr>"
    have "demo_inv (snd (fold (tuna_init_device now) es (True, ?s)))" for es
      by (intro init_inv_demo tuna_devices_ok) (simp add: init_inv_def cleared_ok)
    moreover have "demo_inv (?s\<lparr>og_run_state := RsInitializing\<rparr>)"
      using cleared_ok [where s = u and b = c] by (simp add: demo_inv_def devices_running_def)
    ultimately show ?thesis
      by (auto simp: tuna_init_devices_def reading_def split_beta Let_def split: option.split json.split sum.split)
  qed
  show ?thesis
    unfolding tuna_Init_def Let_def
    by (intro reading_ok [where P = demo_inv and Q = demo_inv]) (simp_all add: i tail)
qed

lemma og_start_devices_frame:
  assumes "maps_ok s" "keys ds \<subseteq> keys (og_devices s)" "og_start_devices ds s = (ok, s')"
  shows "maps_ok s' \<and> og_queues s' = og_queues s \<and> og_device_type_by_id s' = og_device_type_by_id s \<and>
    og_normalizers s' = og_normalizers s \<and> (\<not> ok \<longrightarrow> og_run_state s' = RsReady)"
  using assms
proof (induction ds arbitrary: s)
  case (Cons kd ds)
  obtain k d where kd: "kd = (k, d)" by fastforce
  have "maps_ok (s\<lparr>og_devices := AList.update k d' (og_devices s)\<rparr>)" for d'
    using Cons.prems(1,2) by (auto simp: maps_ok_def kd)
  then show ?case
    using Cons.prems Cons.IH [of "s\<lparr>og_devices := AList.update k (snd (Device_Start d)) (og_devices s)\<rparr>"]
    by (auto simp: kd split: option.splits prod.splits bool.splits)
qed simp

lemma og_start_devices_started:
  assumes "distinct (map fst (og_devices s))" "og_start_devices ds s = (True, s')"
    and "\<forall>(k, d) \<in> set (og_devices s). k \<notin> keys ds \<longrightarrow> dv_control d \<noteq> None \<and> dv_workflow d \<noteq> None"
  shows "\<forall>(k, d) \<in> set (og_devices s'). dv_control d \<noteq> None \<and> dv_workflow d \<noteq> None"
  using assms
proof (induction ds arbitrary: s)
  case Nil
  then show ?case by (simp add: keys_def)
next
  case (Cons kd ds)
  obtain k d where kd: "kd = (k, d)" by fastforce
  from Cons.prems(2) obtain d' where d': "Device_Start d = (True, d')"
    and r: "og_start_devices ds (s\<lparr>og_devices := AList.update k d' (og_devices s)\<rparr>) = (True, s')"
    by (auto simp: kd split: option.splits prod.splits bool.splits)
  have "\<forall>(j, e) \<in> set (AList.update k d' (og_devices s)). j \<notin> keys ds \<longrightarrow> dv_control e \<noteq> None \<and> dv_workflow e \<noteq> None"
    using Cons.prems(3) Device_Start_True [OF d'] set_update [OF _ Cons.prems(1), of _ _ k d']
    by (fastforce simp: kd keys_def)
  then show ?case using Cons.IH [OF _ r] Cons.prems(1) by simp
qed

text \<open>The devices, once all are started, allow the state \<open>Running\<close>.\<close>

lemma devices_started:
  assumes "demo_inv s" "og_start_devices (og_devices s) s = (ok, s')"
  shows "maps_ok s' \<and> (ok \<longrightarrow> demo_inv (s'\<lparr>og_run_state := RsRunning\<rparr>)) \<and> (\<not> ok \<longrightarrow> demo_inv s') \<and>
    (normalizers_ok s \<longrightarrow> normalizers_ok s')"
proof -
  have m: "maps_ok s" using assms(1) by (simp add: demo_inv_def)
  note f = og_start_devices_frame [OF m order_refl assms(2)]
  have "\<forall>(k, d) \<in> set (og_devices s'). dv_control d \<noteq> None \<and> dv_workflow d \<noteq> None" if ok
  proof (rule og_start_devices_started [of s "og_devices s"])
    show "\<forall>(k, d) \<in> set (og_devices s). k \<notin> keys (og_devices s) \<longrightarrow> dv_control d \<noteq> None \<and> dv_workflow d \<noteq> None"
      by (force simp: keys_def)
  qed (use assms(2) that m in \<open>simp_all add: maps_ok_def\<close>)
  then show ?thesis using f by (auto simp: demo_inv_def devices_running_def normalizers_ok_def)
qed

lemma uuv_Start_ok: "uuv_ok s \<Longrightarrow> uuv_ok (snd (uuv_Start db s))"
proof -
  assume i: "uuv_ok s"
  obtain ok s' where r: "og_start_devices (og_devices s) s = (ok, s')" by fastforce
  show ?thesis
    using devices_started [OF _ r] i r
    by (cases ok) (auto simp: uuv_Start_def uuv_ok_def uuv_StartSelfActionThreadLocked_def StartStatusSnapshotThreadLocked_def)
qed

lemma tuna_Start_ok: "demo_inv s \<Longrightarrow> demo_inv (snd (tuna_Start db s))"
proof -
  assume i: "demo_inv s"
  obtain ok s' where r: "og_start_devices (og_devices s) s = (ok, s')" by fastforce
  have "demo_inv (s'\<lparr>og_vehicle_calls := l, og_run_state := RsRunning\<rparr>) = demo_inv (s'\<lparr>og_run_state := RsRunning\<rparr>)" for l
    by (simp add: demo_inv_def maps_ok_def devices_running_def)
  then show ?thesis
    using devices_started [OF i r] i r
    by (cases ok) (auto simp: tuna_Start_def StartStatusSnapshotThreadLocked_def Let_def)
qed

lemma demo_inv_queue:
  "demo_inv s \<Longrightarrow> map_of (og_queues s) k = Some q \<Longrightarrow> \<not> tq_shut q' \<Longrightarrow>
    demo_inv (s\<lparr>og_queues := AList.update k q' (og_queues s)\<rparr>)"
  using put_queue_ok [of s q' k] by (auto simp: demo_inv_def devices_running_def keys_map_of)

lemma open_queue: "demo_inv s \<Longrightarrow> map_of (og_queues s) k = Some q \<Longrightarrow> \<not> tq_shut q"
  using map_of_all [of "og_queues s" "\<lambda>k q. \<not> tq_shut q" k q] by (auto simp: demo_inv_def maps_ok_def)

lemma push_open: "\<not> tq_shut q \<Longrightarrow> snd (tq_Push t q) = q\<lparr>tq_q := tq_q q @ [t]\<rparr>"
  by (simp add: tq_Push_def)

lemma append_ok:
  assumes "demo_inv s"
  shows "demo_inv (snd (AppendTaskToTargetTaskQueue k t s))"
    "normalizers_ok s \<Longrightarrow> normalizers_ok (snd (AppendTaskToTargetTaskQueue k t s))"
  using assms open_queue [OF assms, of k] demo_inv_queue [OF assms, of k]
  by (auto simp: AppendTaskToTargetTaskQueue_def push_open split: option.split)

lemma submit_task_ok:
  assumes "demo_inv s"
  shows "demo_inv (snd (submit_task cmd k t s))" "normalizers_ok s \<Longrightarrow> normalizers_ok (snd (submit_task cmd k t s))"
  using assms open_queue [OF assms, of k] demo_inv_queue [OF assms, of k]
  by (auto simp: submit_task_def push_open Let_def split: option.split)

lemma Submit_ok:
  assumes "demo_inv s"
  shows "demo_inv (snd (snd (tuna_Submit cmd now seq s)))"
    and "demo_inv (snd (snd (uuv_Submit cmd now seq s)))"
    and "normalizers_ok s \<Longrightarrow> normalizers_ok (snd (snd (uuv_Submit cmd now seq s)))"
  using assms submit_task_ok [OF assms]
  by (auto simp: tuna_Submit_def uuv_Submit_def Let_def split_beta split: option.split)

lemma og_device_thread_step_ok:
  assumes "demo_inv s"
  shows "demo_inv (og_device_thread_step k now rs s)" "normalizers_ok s \<Longrightarrow> normalizers_ok (og_device_thread_step k now rs s)"
proof -
  have "demo_inv (og_device_thread_step k now rs s) \<and> (normalizers_ok s \<longrightarrow> normalizers_ok (og_device_thread_step k now rs s))"
  proof (cases "map_of (og_queues s) k \<noteq> None \<and> map_of (og_devices s) k \<noteq> None")
    case True
    then obtain q d where q: "map_of (og_queues s) k = Some q" and d: "map_of (og_devices s) k = Some d" by blast
    obtain q' d' where r: "RunLoop_step (og_estop s) now rs q d = (q', d')" by fastforce
    note f = RunLoop_step_frame [OF r]
    have k: "k \<in> keys (og_queues s)" "k \<in> keys (og_devices s)" using q d by (simp_all add: keys_map_of)
    have "\<forall>(k, q) \<in> set (AList.update k q' (og_queues s)). \<not> tq_shut q"
      using assms f open_queue [OF assms q] by (intro all_queues_update) (auto simp: demo_inv_def)
    moreover have "og_run_state s = RsRunning \<longrightarrow>
        (\<forall>(k, d) \<in> set (AList.update k d' (og_devices s)). dv_control d \<noteq> None \<and> dv_workflow d \<noteq> None)"
      using assms f map_of_all [of "og_devices s" "\<lambda>k d. dv_control d \<noteq> None \<and> dv_workflow d \<noteq> None" k d] d
      by (intro impI all_update) (auto simp: demo_inv_def devices_running_def maps_ok_def)
    ultimately show ?thesis
      using assms k by (auto simp: og_device_thread_step_def q d r demo_inv_def maps_ok_def devices_running_def insert_absorb)
  qed (use assms in \<open>auto simp: og_device_thread_step_def split: option.split\<close>)
  then show "demo_inv (og_device_thread_step k now rs s)" "normalizers_ok s \<Longrightarrow> normalizers_ok (og_device_thread_step k now rs s)"
    by auto
qed

lemma GetSelfTask_ok:
  assumes "demo_inv s"
  shows "demo_inv (snd (GetSelfTask s))" "normalizers_ok s \<Longrightarrow> normalizers_ok (snd (GetSelfTask s))"
proof -
  have "demo_inv (snd (GetSelfTask s)) \<and> (normalizers_ok s \<longrightarrow> normalizers_ok (snd (GetSelfTask s)))"
  proof (cases "map_of (og_queues s) (og_self_device_id s)")
    case (Some q)
    then show ?thesis
      using assms open_queue [OF assms Some] demo_inv_queue [OF assms Some]
      by (auto simp: GetSelfTask_def tq_PopBlocking_def split: list.split)
  qed (use assms in \<open>simp add: GetSelfTask_def\<close>)
  then show "demo_inv (snd (GetSelfTask s))" "normalizers_ok s \<Longrightarrow> normalizers_ok (snd (GetSelfTask s))" by auto
qed

lemma uuv_step_ok: "uuv_step s s' \<Longrightarrow> uuv_ok s \<Longrightarrow> uuv_ok s'"
proof (induction rule: uuv_step.induct)
  case (shutdown s)
  then show ?case by (auto simp: uuv_Shutdown_def uuv_ok_def demo_inv_def maps_ok_def devices_running_def normalizers_ok_def)
next
  case (self_execute s task)
  then show ?case by (auto simp: ExecuteSelfTask_def uuv_SetEStop_def uuv_ok_def split: sum.split)
qed (auto simp: uuv_Init_ok uuv_Start_ok, auto simp: uuv_ok_def Submit_ok uuv_AppendTask_def uuv_AppendJsonTask_def
    Let_def append_ok uuv_SetEStop_def og_device_thread_step_ok GetSelfTask_ok)

lemma tuna_step_ok: "tuna_step s s' \<Longrightarrow> demo_inv s \<Longrightarrow> demo_inv s'"
proof (induction rule: tuna_step.induct)
  case (shutdown s)
  then show ?case by (auto simp: tuna_Shutdown_def Let_def demo_inv_def maps_ok_def devices_running_def)
qed (auto simp: tuna_Init_ok tuna_Start_ok Submit_ok tuna_AppendTask_def tuna_AppendJsonTask_def
    Let_def append_ok tuna_SetEStop_def og_device_thread_step_ok)

interpretation uuv: invariant_system "\<lambda>s. s = UUVEdge_ctor" uuv_step uuv_ok
proof
  show "uuv_ok s" if "s = UUVEdge_ctor" for s
    using that by (simp add: UUVEdge_ctor_def uuv_ok_def demo_inv_def maps_ok_def devices_running_def normalizers_ok_def)
qed (rule uuv_step_ok)

interpretation tuna: invariant_system "\<lambda>s. s = TUNAEdge_ctor" tuna_step demo_inv
proof
  show "demo_inv s" if "s = TUNAEdge_ctor" for s
    using that by (simp add: UUVEdge_ctor_def TUNAEdge_ctor_def demo_inv_def maps_ok_def devices_running_def)
qed (rule tuna_step_ok)

section \<open>Submitted commands\<close>

text \<open>The condition of the contract; \<open>device\<close> is what the payload calls the target.\<close>

definition og_acceptable :: "RawCommand \<Rightarrow> OwnEdge \<Rightarrow> bool" where
  "og_acceptable cmd s \<longleftrightarrow>
     og_run_state s = RsRunning \<and> (og_estop s \<longrightarrow> og_allow_queue_when_estop s) \<and> is_object (rc_payload cmd) \<and>
     GetStringOr (rc_payload cmd) ''device_id'' [] \<noteq> [] \<and>
     (case map_of (og_device_type_by_id s) (GetStringOr (rc_payload cmd) ''device_id'' []) of
        None \<Rightarrow> False
      | Some ty \<Rightarrow> (case CreateNormalizer ty of None \<Rightarrow> False | Some n \<Rightarrow> command_of n (rc_payload cmd) \<noteq> None))"

text \<open>The table of normalisers of \<open>UUVEdge\<close> answers as \<open>TUNAEdge\<close>'s factory does.\<close>

lemma normalizer_table:
  assumes "uuv_ok s" "map_of (og_device_type_by_id s) k = Some ty"
  shows "map_of (og_normalizers s) ty = CreateNormalizer ty"
proof -
  have n: "\<forall>(ty, n) \<in> set (og_normalizers s). CreateNormalizer ty = Some n"
    and t: "CreateNormalizer ty \<noteq> None \<longrightarrow> ty \<in> keys (og_normalizers s)"
    using assms map_of_SomeD [OF assms(2)] by (auto simp: uuv_ok_def normalizers_ok_def)
  show ?thesis
  proof (cases "map_of (og_normalizers s) ty")
    case None
    then show ?thesis using t by (auto simp: keys_map_of)
  next
    case (Some n)
    then show ?thesis using map_of_all [OF n Some] by simp
  qed
qed

lemma Normalize_task:
  assumes "is_object (rc_payload cmd)" "GetStringOr (rc_payload cmd) ''device_id'' [] \<noteq> []"
    and "Normalize n cmd edge_id now seq = (res, seq')"
  shows "(res \<noteq> None) = (command_of n (rc_payload cmd) \<noteq> None) \<and>
    (\<forall>t. res = Some t \<longrightarrow> t_device_id t = GetStringOr (rc_payload cmd) ''device_id'' [] \<and> Task_wf t)"
  using assms fill_task_fields by (auto simp: Normalize_cases split: option.splits prod.splits)

lemma og_MakeResult_sel [simp]:
  "sr_code (og_MakeResult c cmd d t n s) = c" "sr_task_id (og_MakeResult c cmd d t n s) = t"
  by (simp_all add: og_MakeResult_def)

lemma refused_cases:
  assumes "\<not> og_acceptable cmd s"
  shows "\<not> (og_run_state s = RsRunning \<and> (og_estop s \<longrightarrow> og_allow_queue_when_estop s) \<and> is_object (rc_payload cmd) \<and>
       GetStringOr (rc_payload cmd) ''device_id'' [] \<noteq> []) \<or>
    map_of (og_device_type_by_id s) (GetStringOr (rc_payload cmd) ''device_id'' []) = None \<or>
    (\<exists>ty. map_of (og_device_type_by_id s) (GetStringOr (rc_payload cmd) ''device_id'' []) = Some ty \<and>
       (CreateNormalizer ty = None \<or>
        (\<exists>n. CreateNormalizer ty = Some n \<and> fst (Normalize n cmd (og_edge_id s) now seq) = None)))"
proof (rule ccontr)
  assume c: "\<not> ?thesis"
  then obtain ty n where n: "map_of (og_device_type_by_id s) (GetStringOr (rc_payload cmd) ''device_id'' []) = Some ty"
      "CreateNormalizer ty = Some n" "fst (Normalize n cmd (og_edge_id s) now seq) \<noteq> None"
    and p: "is_object (rc_payload cmd)" "GetStringOr (rc_payload cmd) ''device_id'' [] \<noteq> []"
    by (metis not_None_eq)
  obtain res sq where "Normalize n cmd (og_edge_id s) now seq = (res, sq)" by fastforce
  then show False using assms c n p Normalize_task [OF p] by (fastforce simp: og_acceptable_def)
qed

text \<open>An accepted command, and what both functions then come to.\<close>

definition accepted :: "RawCommand \<Rightarrow> OwnEdge \<Rightarrow> SubmitResult \<Rightarrow> OwnEdge \<Rightarrow> bool" where
  "accepted cmd s r s' \<longleftrightarrow>
     (\<exists>t q. let dev = GetStringOr (rc_payload cmd) ''device_id'' [] in
        sr_code r = SubmitOk \<and> sr_task_id r = t_task_id t \<and> t_device_id t = dev \<and> Task_wf t \<and>
        map_of (og_queues s) dev = Some q \<and>
        s' = s\<lparr>og_queues := AList.update dev (q\<lparr>tq_q := tq_q q @ [t]\<rparr>) (og_queues s)\<rparr>)"

lemma accepted_case:
  assumes i: "demo_inv s" and a: "og_acceptable cmd s"
  obtains ty n t sq r s' where "map_of (og_device_type_by_id s) (GetStringOr (rc_payload cmd) ''device_id'' []) = Some ty"
    and "CreateNormalizer ty = Some n" and "Normalize n cmd (og_edge_id s) now seq = (Some t, sq)"
    and "submit_task cmd (GetStringOr (rc_payload cmd) ''device_id'' []) t s = (r, s')" and "accepted cmd s r s'"
proof -
  let ?dev = "GetStringOr (rc_payload cmd) ''device_id'' []"
  from a have p: "is_object (rc_payload cmd)" "?dev \<noteq> []" by (simp_all add: og_acceptable_def)
  from a obtain ty n where ty: "map_of (og_device_type_by_id s) ?dev = Some ty" and n: "CreateNormalizer ty = Some n"
    and c: "command_of n (rc_payload cmd) \<noteq> None"
    by (auto simp: og_acceptable_def split: option.splits)
  obtain res sq where z: "Normalize n cmd (og_edge_id s) now seq = (res, sq)" by fastforce
  with Normalize_task [OF p z] c obtain t where t: "res = Some t" "t_device_id t = ?dev" "Task_wf t" by auto
  have "?dev \<in> keys (og_queues s)"
    using i map_of_SomeD [OF ty] n by (auto simp: demo_inv_def maps_ok_def)
  then obtain q where q: "map_of (og_queues s) ?dev = Some q" by (auto simp: keys_map_of)
  obtain r s' where r: "submit_task cmd ?dev t s = (r, s')" by fastforce
  then have "accepted cmd s r s'"
    using t q open_queue [OF i q] by (auto simp: accepted_def submit_task_def Let_def tq_IsShutdown_def push_open)
  then show ?thesis using that ty n z t r by blast
qed

lemma uuv_submit_cases:
  assumes i: "uuv_ok s" and s: "uuv_Submit cmd now seq s = (r, seq', s')"
  shows "if og_acceptable cmd s then accepted cmd s r s' else sr_code r \<noteq> SubmitOk \<and> s' = s"
proof (cases "og_acceptable cmd s")
  case True
  have d: "demo_inv s" using i by (simp add: uuv_ok_def)
  obtain ty n t sq r0 s0 where "map_of (og_device_type_by_id s) (GetStringOr (rc_payload cmd) ''device_id'' []) = Some ty"
    "CreateNormalizer ty = Some n" "Normalize n cmd (og_edge_id s) now seq = (Some t, sq)"
    "submit_task cmd (GetStringOr (rc_payload cmd) ''device_id'' []) t s = (r0, s0)" "accepted cmd s r0 s0"
    by (rule accepted_case [OF d True])
  then show ?thesis
    using s True normalizer_table [OF i] by (auto simp: uuv_Submit_def og_acceptable_def Let_def)
next
  case False
  then show ?thesis
    using s refused_cases [OF False, of now seq] normalizer_table [OF i]
    by (auto simp: uuv_Submit_def Let_def split_beta split: if_splits option.splits)
qed

lemma og_refusal_throws: "og_refusal code cmd device_id s = Inl LogicError"
  by (simp add: og_refusal_def default_task_id_def)

lemma tuna_submit_cases:
  assumes d: "demo_inv s" and s: "tuna_Submit cmd now seq s = (x, seq', s')"
  shows "if og_acceptable cmd s then \<exists>r. x = Inr r \<and> accepted cmd s r s' else x = Inl LogicError \<and> s' = s"
proof (cases "og_acceptable cmd s")
  case True
  obtain ty n t sq r0 s0 where "map_of (og_device_type_by_id s) (GetStringOr (rc_payload cmd) ''device_id'' []) = Some ty"
    "CreateNormalizer ty = Some n" "Normalize n cmd (og_edge_id s) now seq = (Some t, sq)"
    "submit_task cmd (GetStringOr (rc_payload cmd) ''device_id'' []) t s = (r0, s0)" "accepted cmd s r0 s0"
    by (rule accepted_case [OF d True])
  then show ?thesis
    using s True by (auto simp: tuna_Submit_def og_acceptable_def Let_def)
next
  case False
  then show ?thesis
    using s refused_cases [OF False, of now seq]
    by (auto simp: tuna_Submit_def og_refusal_throws Let_def split_beta split: if_splits option.splits)
qed

text \<open>C14: Submitting a command to \<open>UUVEdge\<close> and to \<open>TUNAEdge\<close>, in every state their calls and threads can reach,
  although the one looks the normaliser up in a table filled by \<open>Init\<close> and the other makes it for each command:
  it is accepted exactly when the edge runs, is not in emergency stop or may queue then, and the payload names a
  device of a known type with the fields its normaliser needs; then one well-formed task for that device is
  added at the end of that queue and nothing else changes. A refused command changes nothing;
  \<open>UUVEdge\<close> answers with a code that is not \<open>Ok\<close>, while the caller of \<open>TUNAEdge\<close> gets the exception of the default task
  identifier.\<close>

theorem own_submit_outcome:
  assumes "uuv_step\<^sup>*\<^sup>* UUVEdge_ctor u" and "tuna_step\<^sup>*\<^sup>* TUNAEdge_ctor v"
    and "uuv_Submit cmd now seq u = (r, seq', u')" and "tuna_Submit cmd now seq v = (x, seq'', v')"
  shows "(if og_acceptable cmd u then accepted cmd u r u' else sr_code r \<noteq> SubmitOk \<and> u' = u) \<and>
    (if og_acceptable cmd v then \<exists>r. x = Inr r \<and> accepted cmd v r v' else x = Inl LogicError \<and> v' = v)"
  using uuv_submit_cases [OF uuv.reachable_inv [OF refl assms(1)] assms(3)]
    tuna_submit_cases [OF tuna.reachable_inv [OF refl assms(2)] assms(4)] by (rule conjI)

definition wind_cfg :: json where
  "wind_cfg = JObject [(''edge_id'', JString ''e1''),
     (''devices'', JArray [JObject [(''device_id'', JString ''w''), (''type'', JString ''wind_sensor'')]])]"

definition wind_edge :: OwnEdge where
  "wind_edge = snd (uuv_Start False (snd (uuv_Init wind_cfg (\<lambda>_. 0) UUVEdge_ctor)))"

definition wind_command :: RawCommand where
  "wind_command = \<lparr>rc_command_id = ''c'', rc_source = [], rc_payload = JObject [(''device_id'', JString ''w'')],
     rc_received_at_ms = 0, rc_idempotency_key = [], rc_dedup_window_ms = 0\<rparr>"

lemma wind_edge_reached: "uuv_step\<^sup>*\<^sup>* UUVEdge_ctor wind_edge"
  unfolding wind_edge_def
  by (rule rtranclp.rtrancl_into_rtrancl [OF r_into_rtranclp [of uuv_step]]) (rule uuv_step.init, rule uuv_step.start)

lemma wind_acceptable: "og_acceptable wind_command wind_edge"
  by code_simp

text \<open>The running \<open>UUVEdge\<close> takes the command, a \<open>TUNAEdge\<close> that was never started throws.\<close>

theorem own_submit_outcome_witness:
  "(\<exists>r u'. accepted wind_command wind_edge r u') \<and> fst (tuna_Submit wind_command (\<lambda>_. 0) 0 TUNAEdge_ctor) = Inl LogicError"
proof -
  obtain r q u' where u: "uuv_Submit wind_command (\<lambda>_. 0) 0 wind_edge = (r, q, u')" by (metis prod.exhaust)
  obtain x p v' where v: "tuna_Submit wind_command (\<lambda>_. 0) 0 TUNAEdge_ctor = (x, p, v')" by (metis prod.exhaust)
  have "\<not> og_acceptable wind_command TUNAEdge_ctor"
    by (simp add: og_acceptable_def TUNAEdge_ctor_def UUVEdge_ctor_def)
  then show ?thesis
    using own_submit_outcome [OF wind_edge_reached rtranclp.rtrancl_refl u v] wind_acceptable v by auto
qed

text \<open>A failed device leaves its mark only until the next good one: \<open>Init\<close> answers \<open>False\<close>, yet the state is
  \<open>Ready\<close> and \<open>Start\<close> succeeds, without the first device.\<close>

definition bad_first_cfg :: json where
  "bad_first_cfg = JObject [(''devices'', JArray [JObject [(''device_id'', JString ''x''), (''type'', JString ''unknown'')],
     JObject [(''device_id'', JString ''w''), (''type'', JString ''wind_sensor'')]])]"

lemma failed_init_starts:
  "fst (uuv_Init bad_first_cfg (\<lambda>_. 0) UUVEdge_ctor) = InitReturns False \<and>
   og_run_state (snd (uuv_Init bad_first_cfg (\<lambda>_. 0) UUVEdge_ctor)) = RsReady \<and>
   fst (uuv_Start False (snd (uuv_Init bad_first_cfg (\<lambda>_. 0) UUVEdge_ctor)))"
  by code_simp

text \<open>Without devices it is the other way round: \<open>Init\<close> answers \<open>True\<close> and \<open>Start\<close> refuses.\<close>

lemma empty_init_never_starts:
  "fst (uuv_Init (JObject [(''devices'', JArray [])]) (\<lambda>_. 0) UUVEdge_ctor) = InitReturns True \<and>
   \<not> fst (uuv_Start False (snd (uuv_Init (JObject [(''devices'', JArray [])]) (\<lambda>_. 0) UUVEdge_ctor)))"
  by code_simp

section \<open>The lock during a shutdown\<close>

text \<open>\<open>Shutdown\<close> of a running \<open>UUVEdge\<close> against the thread of the edge's own tasks; the snapshot thread is never
  started. Looking up the queue and executing a task that reads the status, dumps the edge or sets the emergency
  stop need the lock that \<open>Shutdown\<close> keeps while it joins.\<close>

datatype sa_pc = SaTest | SaFind | SaFound | SaPop | SaRun Task | SaInside | SaSleep | SaExit

datatype sa_owner = Free | ByShutdown | BySelf

record sa_sys =
  sf_owner :: sa_owner
  sf_run_state :: RunState
  sf_stop :: bool
  sf_queue :: "Task task_queue"
  sf_sh :: sh_pc
  sf_sa :: sa_pc

definition needs_lock :: "Task \<Rightarrow> bool" where
  "needs_lock t \<longleftrightarrow> t_action t = ''get_status'' \<or> t_action t = ''dump_info'' \<or>
     t_action t = ''set_estop'' \<and>
       (case (value_bool (t_params t) ''active'' False, value_string (t_params t) ''reason'' default_reason) of
          (Inr _, Inr _) \<Rightarrow> True | _ \<Rightarrow> False)"

inductive sa_step :: "sa_sys \<Rightarrow> sa_sys \<Rightarrow> bool" where
  sh_lock: "sf_sh s = ShEnter \<Longrightarrow> sf_owner s = Free \<Longrightarrow> sa_step s (s\<lparr>sf_sh := ShLocked, sf_owner := ByShutdown\<rparr>)"
| sh_return: "sf_sh s = ShLocked \<Longrightarrow> sf_run_state s \<in> {RsStopped, RsStopping} \<Longrightarrow>
    sa_step s (s\<lparr>sf_sh := ShDone, sf_owner := Free\<rparr>)"
| sh_stop: "sf_sh s = ShLocked \<Longrightarrow> sf_run_state s \<notin> {RsStopped, RsStopping} \<Longrightarrow>
    sa_step s (s\<lparr>sf_sh := ShJoin, sf_run_state := RsStopping, sf_stop := True, sf_queue := tq_Shutdown (sf_queue s)\<rparr>)"
| sh_joined: "sf_sh s = ShJoin \<Longrightarrow> sf_sa s = SaExit \<Longrightarrow>
    sa_step s (s\<lparr>sf_sh := ShDone, sf_run_state := RsStopped, sf_owner := Free\<rparr>)"
| sa_test: "sf_sa s = SaTest \<Longrightarrow> sa_step s (s\<lparr>sf_sa := if sf_stop s then SaExit else SaFind\<rparr>)"
| sa_find: "sf_sa s = SaFind \<Longrightarrow> sf_owner s = Free \<Longrightarrow> sa_step s (s\<lparr>sf_sa := SaFound, sf_owner := BySelf\<rparr>)"
| sa_found: "sf_sa s = SaFound \<Longrightarrow> sa_step s (s\<lparr>sf_sa := SaPop, sf_owner := Free\<rparr>)"
| sa_pop: "sf_sa s = SaPop \<Longrightarrow> tq_PopBlocking (sf_queue s) = (Returns (Some t), q) \<Longrightarrow>
    sa_step s (s\<lparr>sf_sa := SaRun t, sf_queue := q\<rparr>)"
| sa_none: "sf_sa s = SaPop \<Longrightarrow> tq_q (sf_queue s) = [] \<Longrightarrow> sa_step s (s\<lparr>sf_sa := SaSleep\<rparr>)"
| sa_run: "sf_sa s = SaRun t \<Longrightarrow> needs_lock t \<Longrightarrow> sf_owner s = Free \<Longrightarrow>
    sa_step s (s\<lparr>sf_sa := SaInside, sf_owner := BySelf\<rparr>)"
| sa_skip: "sf_sa s = SaRun t \<Longrightarrow> \<not> needs_lock t \<Longrightarrow> sa_step s (s\<lparr>sf_sa := SaSleep\<rparr>)"
| sa_ran: "sf_sa s = SaInside \<Longrightarrow> sa_step s (s\<lparr>sf_sa := SaSleep, sf_owner := Free\<rparr>)"
| sa_wake: "sf_sa s = SaSleep \<Longrightarrow> sa_step s (s\<lparr>sf_sa := SaTest\<rparr>)"

inductive_cases sa_stepE: "sa_step s s'"

definition sa_begin :: "Task list \<Rightarrow> sa_sys" where
  "sa_begin ts = \<lparr>sf_owner = Free, sf_run_state = RsRunning, sf_stop = False,
     sf_queue = (tq_ctor ''queue-self'')\<lparr>tq_q := ts\<rparr>, sf_sh = ShEnter, sf_sa = SaTest\<rparr>"

definition sa_inv :: "sa_sys \<Rightarrow> bool" where
  "sa_inv s \<longleftrightarrow>
     (sf_owner s = ByShutdown \<longleftrightarrow> sf_sh s \<in> {ShLocked, ShJoin}) \<and>
     (sf_owner s = BySelf \<longleftrightarrow> sf_sa s \<in> {SaFound, SaInside}) \<and>
     (sf_stop s \<longleftrightarrow> sf_sh s \<in> {ShJoin, ShDone}) \<and>
     (sf_sh s \<in> {ShEnter, ShLocked} \<longleftrightarrow> sf_run_state s = RsRunning) \<and>
     (sf_sh s = ShDone \<longrightarrow> sf_sa s = SaExit) \<and> (sf_sa s = SaExit \<longrightarrow> sf_sh s \<in> {ShJoin, ShDone})"

interpretation selfl: invariant_system "\<lambda>s. \<exists>ts. s = sa_begin ts" sa_step sa_inv
proof
  show "sa_inv s" if "\<exists>ts. s = sa_begin ts" for s using that by (auto simp: sa_begin_def sa_inv_def)
  show "sa_inv s'" if "sa_inv s" "sa_step s s'" for s s'
    using that(2,1) by (induction rule: sa_step.induct) (auto simp: sa_inv_def)
qed

lemma self_pop_possible: "sf_sa s = SaPop \<Longrightarrow> \<exists>s'. sa_step s s'"
proof (cases "tq_q (sf_queue s)")
  case (Cons t ts)
  assume "sf_sa s = SaPop"
  then show ?thesis
    by (intro exI [of _ "s\<lparr>sf_sa := SaRun t, sf_queue := (sf_queue s)\<lparr>tq_q := ts\<rparr>\<rparr>"] sa_step.sa_pop)
      (simp_all add: tq_PopBlocking_def Cons)
qed (auto intro: sa_step.intros)

lemma self_run_possible: "sf_sa s = SaRun t \<Longrightarrow> needs_lock t \<longrightarrow> sf_owner s = Free \<Longrightarrow> \<exists>s'. sa_step s s'"
  by (cases "needs_lock t") (auto intro: sa_step.intros)

lemma sa_step_possible:
  "(\<exists>s'. sa_step s s') \<longleftrightarrow>
     sf_sh s = ShEnter \<and> sf_owner s = Free \<or> sf_sh s = ShLocked \<or> sf_sh s = ShJoin \<and> sf_sa s = SaExit \<or>
     sf_sa s \<in> {SaTest, SaFound, SaPop, SaInside, SaSleep} \<or> sf_sa s = SaFind \<and> sf_owner s = Free \<or>
     (\<exists>t. sf_sa s = SaRun t \<and> (needs_lock t \<longrightarrow> sf_owner s = Free))"
  (is "?L \<longleftrightarrow> ?R")
proof
  show "?L \<Longrightarrow> ?R" by (auto elim: sa_stepE)
  show "?R \<Longrightarrow> ?L"
    using self_pop_possible self_run_possible by (cases "sf_run_state s \<in> {RsStopped, RsStopping}") (auto intro: sa_step.intros)
qed

text \<open>Of a running \<open>UUVEdge\<close> with any tasks in its own queue, the threads that execute \<open>Shutdown\<close> and
  \<open>SelfActionLoop\<close> are stuck in a state they can reach exactly when both have ended or when \<open>Shutdown\<close>, holding
  the lock, waits for the thread while that thread waits for the lock, to look up its queue or to execute a
  task that needs it.\<close>

theorem self_shutdown_stuck_iff:
  assumes "sa_step\<^sup>*\<^sup>* (sa_begin ts) s"
  shows "(\<nexists>s'. sa_step s s') \<longleftrightarrow>
    sf_sh s = ShDone \<and> sf_sa s = SaExit \<or>
    sf_sh s = ShJoin \<and> sf_owner s = ByShutdown \<and> (sf_sa s = SaFind \<or> (\<exists>t. sf_sa s = SaRun t \<and> needs_lock t))"
proof -
  have "sa_inv s" using selfl.reachable_inv [OF _ assms] by blast
  then show ?thesis
    by (cases "sf_sh s"; cases "sf_sa s"; cases "sf_owner s") (auto simp: sa_step_possible sa_inv_def)
qed

lemma self_deadlock_reachable:
  "\<exists>s. sa_step\<^sup>*\<^sup>* (sa_begin ts) s \<and> sf_sh s = ShJoin \<and> sf_sa s = SaFind \<and> sf_owner s = ByShutdown"
proof -
  let ?s1 = "(sa_begin ts)\<lparr>sf_sa := SaFind\<rparr>"
  let ?s2 = "?s1\<lparr>sf_sh := ShLocked, sf_owner := ByShutdown\<rparr>"
  let ?s3 = "?s2\<lparr>sf_sh := ShJoin, sf_run_state := RsStopping, sf_stop := True, sf_queue := tq_Shutdown (sf_queue ?s2)\<rparr>"
  have "sa_step (sa_begin ts) ?s1" using sa_step.sa_test [of "sa_begin ts"] by (simp add: sa_begin_def)
  moreover have "sa_step ?s1 ?s2" using sa_step.sh_lock [of ?s1] by (simp add: sa_begin_def)
  moreover have "sa_step ?s2 ?s3" using sa_step.sh_stop [of ?s2] by (simp add: sa_begin_def)
  ultimately have "sa_step\<^sup>*\<^sup>* (sa_begin ts) ?s3" by (meson converse_rtranclp_into_rtranclp rtranclp.rtrancl_refl)
  then show ?thesis by (intro exI [of _ ?s3]) (simp add: sa_begin_def)
qed

theorem self_shutdown_stuck_iff_witness:
  "\<exists>s. sa_step\<^sup>*\<^sup>* (sa_begin []) s \<and> sf_sh s = ShJoin \<and> (\<nexists>s'. sa_step s s')"
  using self_deadlock_reachable self_shutdown_stuck_iff by blast

end
