(* ===== verification/ProcInfo.thy ===== *)
theory ProcInfo
  imports TextLines Complex_Main
begin

text \<open>
  The collectors of \<open>src/util/my_soft_healthy\<close>: what \<open>ProcessInfoCollector\<close> and \<open>ThreadInfoCollector\<close> read from
  \<open>/proc\<close>. What the system answers is a view of \<open>/proc\<close>; each pass over it has a view of its own, so processes may
  come and go between the passes. An \<open>unordered_map\<close> is an association list, a \<open>double\<close> a rational number without
  rounding. Log output is left out.
\<close>

section \<open>Snapshots and configuration\<close>

record ThreadSnapshot =
  th_tid :: int
  th_name :: string
  th_state :: char
  th_priority :: int
  th_nice :: int
  th_policy :: string
  th_utime_ticks :: u64
  th_stime_ticks :: u64
  th_cpu_pct_machine :: rat
  th_cpu_pct_core :: rat
  th_rchar :: "u64 option"
  th_wchar :: "u64 option"
  th_read_bytes :: "u64 option"
  th_write_bytes :: "u64 option"
  th_voluntary :: "u64 option"
  th_nonvoluntary :: "u64 option"

definition ThreadSnapshot_init :: ThreadSnapshot where
  "ThreadSnapshot_init = \<lparr>th_tid = 0, th_name = [], th_state = CHR ''?'', th_priority = 0, th_nice = 0,
     th_policy = ''UNKNOWN'', th_utime_ticks = 0, th_stime_ticks = 0, th_cpu_pct_machine = 0, th_cpu_pct_core = 0,
     th_rchar = None, th_wchar = None, th_read_bytes = None, th_write_bytes = None, th_voluntary = None,
     th_nonvoluntary = None\<rparr>"

record ProcessSnapshot =
  ps_pid :: int
  ps_start_time_ticks :: u64
  ps_ppid :: int
  ps_name :: string
  ps_cmdline :: string
  ps_state :: char
  ps_threads_count :: nat
  ps_utime_ticks :: u64
  ps_stime_ticks :: u64
  ps_cpu_pct_machine :: rat
  ps_cpu_pct_core :: rat
  ps_vm_rss_bytes :: u64
  ps_vm_size_bytes :: u64
  ps_io_rchar :: "u64 option"
  ps_io_wchar :: "u64 option"
  ps_io_read_bytes :: "u64 option"
  ps_io_write_bytes :: "u64 option"
  ps_voluntary :: "u64 option"
  ps_nonvoluntary :: "u64 option"
  ps_children :: "int list"
  ps_top_threads :: "ThreadSnapshot list"

definition ProcessSnapshot_init :: ProcessSnapshot where
  "ProcessSnapshot_init = \<lparr>ps_pid = 0, ps_start_time_ticks = 0, ps_ppid = - 1, ps_name = [], ps_cmdline = [],
     ps_state = CHR ''?'', ps_threads_count = 0, ps_utime_ticks = 0, ps_stime_ticks = 0, ps_cpu_pct_machine = 0,
     ps_cpu_pct_core = 0, ps_vm_rss_bytes = 0, ps_vm_size_bytes = 0, ps_io_rchar = None, ps_io_wchar = None,
     ps_io_read_bytes = None, ps_io_write_bytes = None, ps_voluntary = None, ps_nonvoluntary = None, ps_children = [],
     ps_top_threads = []\<rparr>"

record HostSnapshot =
  ho_num_cpus :: int
  ho_clk_tck :: int
  ho_total_cpu_jiffies :: u64

record SoftHealthSnapshot =
  sn_host :: HostSnapshot
  sn_roots :: "int list"
  sn_processes :: "(int \<times> ProcessSnapshot) list"
  sn_pid_tid_ticks :: "(int \<times> (int \<times> u64) list) list"

record SoftHealthMonitorConfig =
  sc_interval_seconds :: int
  sc_threads_topn :: int
  sc_include_proc_io :: bool
  sc_include_thread_io :: bool
  sc_include_ctx_switches :: bool
  sc_target_pid :: "int option"
  sc_target_name :: "string option"
  sc_target_cmdline_regex :: "string option"

definition SoftHealthMonitorConfig_init :: SoftHealthMonitorConfig where
  "SoftHealthMonitorConfig_init = \<lparr>sc_interval_seconds = 5, sc_threads_topn = 20, sc_include_proc_io = True,
     sc_include_thread_io = False, sc_include_ctx_switches = True, sc_target_pid = None, sc_target_name = None,
     sc_target_cmdline_regex = None\<rparr>"

section \<open>The system\<close>

text \<open>The content of a file, empty when it cannot be opened; the names in a directory; the scheduling policy of
  a thread, -1 when it is unknown.\<close>

record proc_view =
  pv_file :: "string \<Rightarrow> string"
  pv_dir :: "string \<Rightarrow> string list option"
  pv_policy :: "int \<Rightarrow> int"

definition proc_path :: "int \<Rightarrow> string \<Rightarrow> string" where
  "proc_path pid name = ''/proc/'' @ int_to_string pid @ ''/'' @ name"

definition task_path :: "int \<Rightarrow> int \<Rightarrow> string \<Rightarrow> string" where
  "task_path pid tid name = proc_path pid ''task/'' @ int_to_string tid @ ''/'' @ name"

definition dot_entry :: "string \<Rightarrow> bool" where
  "dot_entry name \<longleftrightarrow> name = ''.'' \<or> name = ''..''"

definition dir_names :: "proc_view \<Rightarrow> string \<Rightarrow> string list" where
  "dir_names v path = (case pv_dir v path of None \<Rightarrow> [] | Some ns \<Rightarrow> ns)"

definition list_all_pids :: "proc_view \<Rightarrow> int list" where
  "list_all_pids v =
     sort (List.map_filter int_of_text (filter (\<lambda>n. n \<noteq> [] \<and> list_all cisdigit n) (dir_names v ''/proc'')))"

definition list_tids :: "proc_view \<Rightarrow> int \<Rightarrow> int list" where
  "list_tids v pid =
     sort (List.map_filter int_of_text
       (filter (\<lambda>n. \<not> dot_entry n \<and> list_all cisdigit n) (dir_names v (proc_path pid ''task''))))"

definition count_threads :: "proc_view \<Rightarrow> int \<Rightarrow> nat" where
  "count_threads v pid = length (filter (\<lambda>n. \<not> dot_entry n \<and> list_all cisdigit n) (dir_names v (proc_path pid ''task'')))"

definition count_open_fds :: "proc_view \<Rightarrow> int \<Rightarrow> nat" where
  "count_open_fds v pid = length (filter (\<lambda>n. \<not> dot_entry n) (dir_names v (proc_path pid ''fd'')))"

section \<open>The files of a process\<close>

text \<open>A line of \<open>stat\<close>: the number before the name, the name between the first and the last parenthesis, and the
  words after it. Field 3 is the first of them.\<close>

definition stat_parts :: "string \<Rightarrow> (string \<times> string \<times> string list) option" where
  "stat_parts content =
     (case (find_char CHR ''('' content, rfind_char CHR '')'' content) of
        (Some l, Some r) \<Rightarrow>
          if r \<le> l then None
          else Some (trim (take l content), take (r - l - 1) (drop (l + 1) content), words_of (trim (drop (r + 1) content)))
      | _ \<Rightarrow> None)"

definition get_field :: "string list \<Rightarrow> nat \<Rightarrow> string option" where
  "get_field toks n = (if n < 3 \<or> n - 3 \<ge> length toks then None else Some (toks ! (n - 3)))"

text \<open>A field that is missing leaves the old value, one that is no number gives \<open>bad\<close>.\<close>

definition number_field :: "string list \<Rightarrow> nat \<Rightarrow> (string \<Rightarrow> 'n option) \<Rightarrow> 'n \<Rightarrow> 'n \<Rightarrow> 'n" where
  "number_field toks n f bad old =
     (case get_field toks n of None \<Rightarrow> old | Some t \<Rightarrow> (case f t of None \<Rightarrow> bad | Some v \<Rightarrow> v))"

definition state_field :: "string list \<Rightarrow> char \<Rightarrow> char" where
  "state_field toks old = (case get_field toks 3 of Some (c # _) \<Rightarrow> c | _ \<Rightarrow> old)"

definition read_proc_stat :: "proc_view \<Rightarrow> int \<Rightarrow> ProcessSnapshot \<Rightarrow> ProcessSnapshot option" where
  "read_proc_stat v pid out =
     (case stat_parts (pv_file v (proc_path pid ''stat'')) of
        None \<Rightarrow> None
      | Some (pid_str, name, toks) \<Rightarrow>
          Some (out\<lparr>ps_pid := (case int_of_text pid_str of None \<Rightarrow> pid | Some p \<Rightarrow> p), ps_name := name,
            ps_state := state_field toks (ps_state out),
            ps_ppid := number_field toks 4 int_of_text (ps_ppid out) (ps_ppid out),
            ps_utime_ticks := number_field toks 14 u64_of_text (ps_utime_ticks out) (ps_utime_ticks out),
            ps_stime_ticks := number_field toks 15 u64_of_text (ps_stime_ticks out) (ps_stime_ticks out),
            ps_start_time_ticks := number_field toks 22 u64_of_text (ps_start_time_ticks out) (ps_start_time_ticks out)\<rparr>))"

definition read_cmdline :: "proc_view \<Rightarrow> int \<Rightarrow> string" where
  "read_cmdline v pid = trim (map (\<lambda>c. if c = CHR 0x00 then CHR '' '' else c) (pv_file v (proc_path pid ''cmdline'')))"

definition starts_with :: "string \<Rightarrow> string \<Rightarrow> bool" where
  "starts_with p line \<longleftrightarrow> take (length p) line = p"

definition after :: "string \<Rightarrow> string \<Rightarrow> string" where
  "after p line = trim (drop (length p) line)"

definition or_old :: "'v option \<Rightarrow> 'v option \<Rightarrow> 'v option" where
  "or_old new old = (case new of None \<Rightarrow> old | Some v \<Rightarrow> Some v)"

definition status_line :: "bool \<Rightarrow> string \<Rightarrow> ProcessSnapshot \<Rightarrow> ProcessSnapshot" where
  "status_line include_ctx line out =
     (if starts_with ''VmRSS:'' line then out\<lparr>ps_vm_rss_bytes := extract_u64 (after ''VmRSS:'' line) * 1024\<rparr>
      else if starts_with ''VmSize:'' line then out\<lparr>ps_vm_size_bytes := extract_u64 (after ''VmSize:'' line) * 1024\<rparr>
      else if include_ctx \<and> starts_with ''voluntary_ctxt_switches:'' line
        then out\<lparr>ps_voluntary := or_old (u64_of_text (after ''voluntary_ctxt_switches:'' line)) (ps_voluntary out)\<rparr>
      else if include_ctx \<and> starts_with ''nonvoluntary_ctxt_switches:'' line
        then out\<lparr>ps_nonvoluntary := or_old (u64_of_text (after ''nonvoluntary_ctxt_switches:'' line)) (ps_nonvoluntary out)\<rparr>
      else out)"

definition read_status_fields :: "proc_view \<Rightarrow> int \<Rightarrow> SoftHealthMonitorConfig \<Rightarrow> ProcessSnapshot \<Rightarrow> ProcessSnapshot" where
  "read_status_fields v pid cfg out =
     fold (status_line (sc_include_ctx_switches cfg)) (split_lines (pv_file v (proc_path pid ''status''))) out"

text \<open>A line \<open>key: value\<close> of \<open>io\<close>; other lines and values that are no numbers are passed over.\<close>

definition io_line :: "string \<Rightarrow> (string \<times> u64) option" where
  "io_line line =
     (case find_char CHR '':'' line of
        None \<Rightarrow> None
      | Some pos \<Rightarrow> map_option (Pair (trim (take pos line))) (u64_of_text (trim (drop (pos + 1) line))))"

definition proc_io_value :: "string \<times> u64 \<Rightarrow> ProcessSnapshot \<Rightarrow> ProcessSnapshot" where
  "proc_io_value kv out =
     (case kv of (key, v) \<Rightarrow>
        if key = ''rchar'' then out\<lparr>ps_io_rchar := Some v\<rparr>
        else if key = ''wchar'' then out\<lparr>ps_io_wchar := Some v\<rparr>
        else if key = ''read_bytes'' then out\<lparr>ps_io_read_bytes := Some v\<rparr>
        else if key = ''write_bytes'' then out\<lparr>ps_io_write_bytes := Some v\<rparr>
        else out)"

definition read_proc_io :: "proc_view \<Rightarrow> int \<Rightarrow> ProcessSnapshot \<Rightarrow> ProcessSnapshot" where
  "read_proc_io v pid out =
     fold proc_io_value (List.map_filter io_line (split_lines (pv_file v (proc_path pid ''io'')))) out"

section \<open>The tree of processes\<close>

definition add_child :: "int \<Rightarrow> int \<Rightarrow> (int \<times> int list) list \<Rightarrow> (int \<times> int list) list" where
  "add_child ppid pid m = AList.update ppid ((case map_of m ppid of None \<Rightarrow> [] | Some cs \<Rightarrow> cs) @ [pid]) m"

definition build_pid_maps :: "proc_view \<Rightarrow> (int \<times> int) list \<times> (int \<times> int list) list" where
  "build_pid_maps v =
     fold (\<lambda>pid (parents, children).
         (case read_proc_stat v pid ProcessSnapshot_init of
            None \<Rightarrow> (parents, children)
          | Some tmp \<Rightarrow> (AList.update pid (ps_ppid tmp) parents, add_child (ps_ppid tmp) pid children)))
       (list_all_pids v) ([], [])"

definition children_of :: "(int \<times> int list) list \<Rightarrow> int \<Rightarrow> int list" where
  "children_of m pid = (case map_of m pid of None \<Rightarrow> [] | Some cs \<Rightarrow> cs)"

text \<open>The loop over the stack, whose top is the head of the list here. It ends also on parents that form a
  circle, because a process visited once is passed over.\<close>

definition tree_nodes :: "(int \<times> int list) list \<Rightarrow> int list \<Rightarrow> int set" where
  "tree_nodes m stack = set stack \<union> (\<Union>cs \<in> snd ` set m. set cs)"

function subtree_loop :: "(int \<times> int list) list \<Rightarrow> int list \<Rightarrow> int list \<Rightarrow> int list" where
  "subtree_loop m [] res = res"
| "subtree_loop m (pid # stack) res =
     (if pid \<in> set res then subtree_loop m stack res
      else subtree_loop m (rev (children_of m pid) @ stack) (res @ [pid]))"
  by pat_completeness auto
termination
proof (relation "measures [\<lambda>(m, stack, res). card (tree_nodes m stack - set res), \<lambda>(m, stack, res). length stack]")
  have fin: "finite (tree_nodes m st)" for m st by (simp add: tree_nodes_def)
  show "((m, stack, res), m, pid # stack, res)
      \<in> measures [\<lambda>(m, stack, res). card (tree_nodes m stack - set res), \<lambda>(m, stack, res). length stack]"
    if "pid \<in> set res" for m pid stack res
  proof -
    have "card (tree_nodes m stack - set res) \<le> card (tree_nodes m (pid # stack) - set res)"
      by (rule card_mono) (auto simp: tree_nodes_def)
    then show ?thesis by auto
  qed
  show "((m, rev (children_of m pid) @ stack, res @ [pid]), m, pid # stack, res)
      \<in> measures [\<lambda>(m, stack, res). card (tree_nodes m stack - set res), \<lambda>(m, stack, res). length stack]"
    if "pid \<notin> set res" for m pid stack res
  proof -
    have "set (children_of m pid) \<subseteq> tree_nodes m stack"
    proof (cases "map_of m pid")
      case (Some cs)
      then have "cs \<in> snd ` set m" using map_of_SomeD by force
      then show ?thesis using Some by (auto simp: children_of_def tree_nodes_def)
    qed (simp add: children_of_def)
    then have "tree_nodes m (rev (children_of m pid) @ stack) - set (res @ [pid]) \<subset> tree_nodes m (pid # stack) - set res"
      using that by (auto simp: tree_nodes_def)
    then show ?thesis using fin by (simp add: psubset_card_mono)
  qed
qed simp

definition collect_subtree :: "int list \<Rightarrow> (int \<times> int list) list \<Rightarrow> int list" where
  "collect_subtree roots ppid_children = sort (subtree_loop ppid_children (rev roots) [])"

section \<open>The processes of a snapshot\<close>

text \<open>\<open>search\<close> is what \<open>std::regex_search\<close> answers for a text and a pattern; a pattern that does not compile matches
  nothing.\<close>

definition resolve_roots :: "(string \<Rightarrow> string \<Rightarrow> bool) \<Rightarrow> SoftHealthMonitorConfig \<Rightarrow> proc_view \<Rightarrow> int list" where
  "resolve_roots search cfg v =
     (case sc_target_pid cfg of
        Some pid \<Rightarrow> [pid]
      | None \<Rightarrow>
          (case sc_target_name cfg of
             Some name \<Rightarrow> filter (\<lambda>pid. first_line (pv_file v (proc_path pid ''comm'')) = name) (list_all_pids v)
           | None \<Rightarrow>
               (case sc_target_cmdline_regex cfg of
                  Some re \<Rightarrow>
                    filter (\<lambda>pid.
                        let cmd = pv_file v (proc_path pid ''cmdline'')
                        in cmd \<noteq> [] \<and> search (map (\<lambda>c. if c = CHR 0x00 then CHR '' '' else c) cmd) re)
                      (list_all_pids v)
                | None \<Rightarrow> [])))"

definition collect_process :: "proc_view \<Rightarrow> SoftHealthMonitorConfig \<Rightarrow> int \<Rightarrow> ProcessSnapshot option" where
  "collect_process v cfg pid =
     map_option (\<lambda>ps.
         let ps = ps\<lparr>ps_cmdline := read_cmdline v pid\<rparr>;
             ps = read_status_fields v pid cfg ps;
             ps = (if sc_include_proc_io cfg then read_proc_io v pid ps else ps)
         in ps\<lparr>ps_threads_count := count_threads v pid\<rparr>)
       (read_proc_stat v pid ProcessSnapshot_init)"

definition fill_children :: "(int \<times> int list) list \<Rightarrow> (int \<times> ProcessSnapshot) list \<Rightarrow> (int \<times> ProcessSnapshot) list" where
  "fill_children m ps =
     map (\<lambda>(pid, p). (pid, p\<lparr>ps_children := sort (ps_children p @ filter (\<lambda>c. c \<in> fst ` set ps) (children_of m pid))\<rparr>)) ps"

text \<open>The passes: the tree, the roots, the details.\<close>

definition collect_processes_basic ::
    "(string \<Rightarrow> string \<Rightarrow> bool) \<Rightarrow> (nat \<Rightarrow> proc_view) \<Rightarrow> SoftHealthMonitorConfig \<Rightarrow> SoftHealthSnapshot \<Rightarrow> SoftHealthSnapshot" where
  "collect_processes_basic search v cfg snap =
     (let children = snd (build_pid_maps (v 0)); roots = resolve_roots search cfg (v 1); snap = snap\<lparr>sn_roots := roots\<rparr>
      in if roots = [] then snap
         else
           let ps = List.map_filter (\<lambda>pid. map_option (Pair pid) (collect_process (v 2) cfg pid)) (collect_subtree roots children)
           in snap\<lparr>sn_processes := fill_children children ps\<rparr>)"

section \<open>The threads of a process\<close>

record task_stat =
  ts_utime :: u64
  ts_stime :: u64
  ts_state :: char
  ts_priority :: int
  ts_nice :: int
  ts_processor :: int
  ts_comm :: string

definition task_stat_init :: task_stat where
  "task_stat_init = \<lparr>ts_utime = 0, ts_stime = 0, ts_state = CHR ''?'', ts_priority = 0, ts_nice = 0, ts_processor = - 1, ts_comm = []\<rparr>"

definition read_task_stat :: "proc_view \<Rightarrow> int \<Rightarrow> int \<Rightarrow> task_stat \<Rightarrow> task_stat option" where
  "read_task_stat v pid tid out =
     (case stat_parts (pv_file v (task_path pid tid ''stat'')) of
        None \<Rightarrow> None
      | Some (_, comm, toks) \<Rightarrow>
          Some \<lparr>ts_utime = number_field toks 14 u64_of_text 0 (ts_utime out),
            ts_stime = number_field toks 15 u64_of_text 0 (ts_stime out), ts_state = state_field toks (ts_state out),
            ts_priority = number_field toks 18 int_of_text 0 (ts_priority out),
            ts_nice = number_field toks 19 int_of_text 0 (ts_nice out),
            ts_processor = number_field toks 39 int_of_text (- 1) (ts_processor out), ts_comm = comm\<rparr>)"

definition policy_to_string :: "int \<Rightarrow> string" where
  "policy_to_string pol =
     (if pol = 0 then ''OTHER'' else if pol = 1 then ''FIFO'' else if pol = 2 then ''RR'' else if pol = 3 then ''BATCH''
      else if pol = 5 then ''IDLE'' else if pol = 6 then ''DEADLINE'' else ''UNKNOWN'')"

definition get_thread_policy_best_effort :: "proc_view \<Rightarrow> int \<Rightarrow> string" where
  "get_thread_policy_best_effort v tid = (if pv_policy v tid = - 1 then ''UNKNOWN'' else policy_to_string (pv_policy v tid))"

record light =
  li_tid :: int
  li_ticks :: u64
  li_delta :: u64
  li_stat :: task_stat

definition ticks_delta :: "u64 \<Rightarrow> u64 \<Rightarrow> u64" where
  "ticks_delta prev now = (if now \<ge> prev then now - prev else 0)"

definition lookup_ticks :: "(int \<times> u64) list \<Rightarrow> int \<Rightarrow> u64" where
  "lookup_ticks m tid = (case map_of m tid of None \<Rightarrow> 0 | Some t \<Rightarrow> t)"

definition light_of :: "proc_view \<Rightarrow> int \<Rightarrow> (int \<times> u64) list \<Rightarrow> int \<Rightarrow> light option" where
  "light_of v pid prev tid =
     map_option (\<lambda>st.
         let ticks = ts_utime st + ts_stime st
         in \<lparr>li_tid = tid, li_ticks = ticks, li_delta = ticks_delta (lookup_ticks prev tid) ticks, li_stat = st\<rparr>)
       (read_task_stat v pid tid task_stat_init)"

text \<open>The comparison of the sort, and insertion by it; \<open>std::sort\<close> leaves the order of equal threads open.\<close>

definition busier :: "light \<Rightarrow> light \<Rightarrow> bool" where
  "busier a b \<longleftrightarrow> (if li_delta a \<noteq> li_delta b then li_delta a > li_delta b else li_ticks a > li_ticks b)"

fun insert_light :: "light \<Rightarrow> light list \<Rightarrow> light list" where
  "insert_light a [] = [a]"
| "insert_light a (b # bs) = (if busier b a then b # insert_light a bs else a # b # bs)"

definition sort_lights :: "light list \<Rightarrow> light list" where
  "sort_lights ls = foldr insert_light ls []"

definition percent :: "u64 \<Rightarrow> u64 \<Rightarrow> rat" where
  "percent d host_delta = of_int (uint d) / of_int (uint host_delta) * 100"

definition thread_status_line :: "string \<Rightarrow> ThreadSnapshot \<Rightarrow> ThreadSnapshot" where
  "thread_status_line line t =
     (if starts_with ''voluntary_ctxt_switches:'' line
        then t\<lparr>th_voluntary := or_old (u64_of_text (after ''voluntary_ctxt_switches:'' line)) (th_voluntary t)\<rparr>
      else if starts_with ''nonvoluntary_ctxt_switches:'' line
        then t\<lparr>th_nonvoluntary := or_old (u64_of_text (after ''nonvoluntary_ctxt_switches:'' line)) (th_nonvoluntary t)\<rparr>
      else t)"

definition thread_io_value :: "string \<times> u64 \<Rightarrow> ThreadSnapshot \<Rightarrow> ThreadSnapshot" where
  "thread_io_value kv t =
     (case kv of (key, v) \<Rightarrow>
        if key = ''rchar'' then t\<lparr>th_rchar := Some v\<rparr>
        else if key = ''wchar'' then t\<lparr>th_wchar := Some v\<rparr>
        else if key = ''read_bytes'' then t\<lparr>th_read_bytes := Some v\<rparr>
        else if key = ''write_bytes'' then t\<lparr>th_write_bytes := Some v\<rparr>
        else t)"

definition thread_snapshot :: "proc_view \<Rightarrow> SoftHealthMonitorConfig \<Rightarrow> int \<Rightarrow> u64 \<Rightarrow> int \<Rightarrow> light \<Rightarrow> ThreadSnapshot" where
  "thread_snapshot v cfg pid host_delta num_cpus l =
     (let path = task_path pid (li_tid l); st = li_stat l;
          t = ThreadSnapshot_init\<lparr>th_tid := li_tid l,
            th_name := (if ts_comm st = [] then first_line (pv_file v (path ''comm'')) else ts_comm st),
            th_state := ts_state st, th_priority := ts_priority st, th_nice := ts_nice st,
            th_policy := get_thread_policy_best_effort v (li_tid l), th_utime_ticks := li_ticks l, th_stime_ticks := 0\<rparr>;
          t = (if host_delta > 0
               then t\<lparr>th_cpu_pct_machine := percent (li_delta l) host_delta,
                      th_cpu_pct_core := percent (li_delta l) host_delta * of_int num_cpus\<rparr>
               else t);
          t = (if sc_include_ctx_switches cfg then fold thread_status_line (split_lines (pv_file v (path ''status''))) t else t)
      in if sc_include_thread_io cfg
         then fold thread_io_value (List.map_filter io_line (split_lines (pv_file v (path ''io'')))) t else t)"

definition collect_topn_threads ::
    "proc_view \<Rightarrow> int \<Rightarrow> (int \<times> u64) list \<Rightarrow> SoftHealthMonitorConfig \<Rightarrow> u64 \<Rightarrow> u64 \<Rightarrow> int \<Rightarrow> ThreadSnapshot list" where
  "collect_topn_threads v pid prev cfg prev_host_total curr_host_total num_cpus =
     (let lights = sort_lights (List.map_filter (light_of v pid prev) (list_tids v pid));
          topn = (if sc_threads_topn cfg < 0 then length lights else nat (sc_threads_topn cfg))
      in map (thread_snapshot v cfg pid (ticks_delta prev_host_total curr_host_total) num_cpus) (take topn lights))"

end
