(* ===== verification/ProcLaws.thy ===== *)
theory ProcLaws
  imports ProcInfo
begin

text \<open>
  What the collectors of \<open>src/util/my_soft_healthy\<close> promise: the line of \<open>stat\<close> is read whatever the process is called,
  the tree of a process is complete, its loop ends, and the threads kept are the busiest.
\<close>

section \<open>The line of stat\<close>

text \<open>The line the kernel writes, as proc(5) documents it: the number, the name in parentheses, the state and
  more numbers. The name may hold anything, parentheses and blanks included.\<close>

definition stat_line :: "int \<Rightarrow> string \<Rightarrow> char \<Rightarrow> int list \<Rightarrow> string" where
  "stat_line pid comm state ns =
     int_to_string pid @ '' ('' @ comm @ '')'' @ concat (map (\<lambda>w. CHR '' '' # w) ([state] # map int_to_string ns)) @ [CHR 0x0A]"

lemma int_to_string_chars: "set (int_to_string n) \<subseteq> {c. cisdigit c} \<union> {CHR ''-''}"
  using nat_to_string_digits by (auto simp: int_to_string_def list_all_iff)

lemma number_char_not_space: "cisdigit c \<Longrightarrow> \<not> cisspace c" "\<not> cisspace CHR ''-''"
  by (auto simp: cisdigit_def cisspace_def Let_def)

lemma int_to_string_word: "word (int_to_string n)"
  using nat_to_string_digits [of "nat n"] nat_to_string_digits [of "nat (- n)"] number_char_not_space
  by (auto simp: word_def int_to_string_def list_all_iff)

lemma int_to_string_no: "c \<notin> set (int_to_string n)" if "\<not> cisdigit c" "c \<noteq> CHR ''-''"
  using int_to_string_chars [of n] that by auto

lemma trim_int: "trim (int_to_string n @ '' '') = int_to_string n"
proof -
  obtain c cs where w: "int_to_string n = c # cs" "\<not> cisspace c"
    using int_to_string_word [of n] by (cases "int_to_string n") (auto simp: word_def)
  obtain d ds where v: "rev (int_to_string n) = d # ds" "\<not> cisspace d"
    using int_to_string_word [of n] by (cases "rev (int_to_string n)") (auto simp: word_def list_all_rev [symmetric, of _ "int_to_string n"])
  have "dropWhile cisspace (int_to_string n @ '' '') = int_to_string n @ '' ''" using w by simp
  moreover have "dropWhile cisspace (rev (int_to_string n @ '' '')) = rev (int_to_string n)"
    using v by (simp add: cisspace_def)
  ultimately show ?thesis by (simp add: trim_def)
qed

lemma drop_prefix: "length p = n \<Longrightarrow> drop n (p @ t) = t"
  by simp

lemma stat_parts_line:
  assumes "\<not> cisspace state" "state \<noteq> CHR '')''"
  shows "stat_parts (stat_line pid comm state ns) = Some (int_to_string pid, comm, [state] # map int_to_string ns)"
proof -
  let ?ws = "[state] # map int_to_string ns"
  let ?tail = "concat (map (\<lambda>w. CHR '' '' # w) ?ws) @ [CHR 0x0A]"
  have l: "stat_line pid comm state ns = (int_to_string pid @ '' '') @ CHR ''('' # (comm @ CHR '')'' # ?tail)"
    and r: "stat_line pid comm state ns = (int_to_string pid @ '' ('' @ comm) @ CHR '')'' # ?tail"
    by (simp_all add: stat_line_def)
  have "CHR ''('' \<notin> set (int_to_string pid @ '' '')" using int_to_string_no [of "CHR ''(''" pid] by (simp add: cisdigit_def)
  then have fl: "find_char CHR ''('' (stat_line pid comm state ns) = Some (length (int_to_string pid) + 1)"
    unfolding l by (subst find_char_append) simp_all
  have "CHR '')'' \<notin> set ?tail" using assms(2) int_to_string_no [of "CHR '')''"] by (auto simp: cisdigit_def)
  then have fr: "rfind_char CHR '')'' (stat_line pid comm state ns) = Some (length (int_to_string pid) + 2 + length comm)"
    unfolding r by (subst rfind_char_append) simp_all
  have w: "\<forall>w \<in> set ?ws. word w" using assms(1) int_to_string_word by (auto simp: word_def)
  have "words_of (trim ?tail) = ?ws"
    using words_of_joined [OF w, of "[CHR 0x0A]"] by (simp add: words_of_trim cisspace_def words_of_blanks del: concat.simps list.map)
  moreover have "stat_line pid comm state ns = (int_to_string pid @ '' ('' @ comm @ '')'') @ ?tail" by (simp add: stat_line_def)
  then have "drop (length (int_to_string pid) + 2 + length comm + 1) (stat_line pid comm state ns) = ?tail"
    by (simp only:) (rule drop_prefix, simp)
  moreover have "take (length (int_to_string pid) + 1) (stat_line pid comm state ns) = int_to_string pid @ '' ''"
    unfolding l by simp
  moreover have "take (length comm) (drop (length (int_to_string pid) + 2) (stat_line pid comm state ns)) = comm"
    unfolding l by simp
  ultimately show ?thesis by (simp add: stat_parts_def fl fr trim_int)
qed

lemma number_field_int:
  "n < length ns \<Longrightarrow> number_field ([state] # map int_to_string ns) (n + 4) f bad old =
     (case f (int_to_string (ns ! n)) of None \<Rightarrow> bad | Some v \<Rightarrow> v)"
  by (simp add: number_field_def get_field_def)

lemma int_of_text_int: "0 \<le> n \<Longrightarrow> n < 2 ^ 31 \<Longrightarrow> int_of_text (int_to_string n) = Some n"
  using int_of_text_nat [of "nat n"] by (simp add: int_to_string_def nat_less_iff)

lemma u64_of_text_int: "0 \<le> n \<Longrightarrow> n < 2 ^ 64 \<Longrightarrow> u64_of_text (int_to_string n) = Some (of_int n)"
  using u64_of_text_nat [of "nat n"] by (simp add: int_to_string_def nat_less_iff)

text \<open>C23: A process is read from the line the kernel writes for it, whatever its name holds, parentheses and line
  feeds included: number, name, state, parent, times and start time are those of the line.\<close>

theorem stat_line_read:
  assumes "pv_file v (proc_path pid ''stat'') = stat_line pid comm state ns" and "19 \<le> length ns"
    and "\<not> cisspace state" and "state \<noteq> CHR '')''"
    and "0 \<le> pid" and "pid < 2 ^ 31" and "0 \<le> ns ! 0" and "ns ! 0 < 2 ^ 31"
    and "\<forall>k \<in> {10, 11, 18}. 0 \<le> ns ! k \<and> ns ! k < 2 ^ 64"
  shows "read_proc_stat v pid out = Some (out\<lparr>ps_pid := pid, ps_name := comm, ps_state := state, ps_ppid := ns ! 0,
    ps_utime_ticks := of_int (ns ! 10), ps_stime_ticks := of_int (ns ! 11), ps_start_time_ticks := of_int (ns ! 18)\<rparr>)"
proof -
  let ?t = "[state] # map int_to_string ns"
  have "ns \<noteq> []" using assms(2) by auto
  then have "number_field ?t 4 int_of_text b p = ns ! 0" for b p
    using assms number_field_int [of 0 ns state int_of_text] by (simp add: int_of_text_int)
  moreover have "number_field ?t 14 u64_of_text b p = of_int (ns ! 10)" for b p
    using assms number_field_int [of 10 ns state u64_of_text] by (simp add: u64_of_text_int)
  moreover have "number_field ?t 15 u64_of_text b p = of_int (ns ! 11)" for b p
    using assms number_field_int [of 11 ns state u64_of_text] by (simp add: u64_of_text_int)
  moreover have "number_field ?t 22 u64_of_text b p = of_int (ns ! 18)" for b p
    using assms number_field_int [of 18 ns state u64_of_text] by (simp add: u64_of_text_int)
  ultimately show ?thesis
    using assms by (simp add: read_proc_stat_def stat_parts_line int_of_text_int state_field_def get_field_def)
qed

definition demo_view :: proc_view where
  "demo_view = \<lparr>pv_file = (\<lambda>path. if path = proc_path 7 ''stat'' then stat_line 7 ''a) (b'' CHR ''S'' (replicate 19 3) else []),
     pv_dir = (\<lambda>_. None), pv_policy = (\<lambda>_. 0)\<rparr>"

theorem stat_line_read_witness:
  "map_option ps_name (read_proc_stat demo_view 7 ProcessSnapshot_init) = Some ''a) (b''"
  using stat_line_read [of demo_view 7 "''a) (b''" "CHR ''S''" "replicate 19 3" ProcessSnapshot_init]
  by (simp add: demo_view_def cisspace_def)

section \<open>The tree\<close>

definition parent_of :: "(int \<times> int list) list \<Rightarrow> (int \<times> int) set" where
  "parent_of m = {(p, c). c \<in> set (children_of m p)}"

lemma subtree_loop_set:
  assumes "\<forall>x \<in> set res. set (children_of m x) \<subseteq> set res \<union> set stack" and "distinct res"
  shows "set (subtree_loop m stack res) = set res \<union> (parent_of m)\<^sup>* `` set stack \<and> distinct (subtree_loop m stack res)"
  using assms
proof (induction m stack res rule: subtree_loop.induct)
  case (1 m res)
  then show ?case by simp
next
  case (2 m pid stack res)
  let ?R = "(parent_of m)\<^sup>*"
  show ?case
  proof (cases "pid \<in> set res")
    case True
    have "q \<in> set res \<union> ?R `` set stack" if "(pid, q) \<in> ?R" for q
      using that
    proof induction
      case (step y z)
      show ?case
      proof (cases "y \<in> set res")
        case True
        then show ?thesis using 2(3) \<open>pid \<in> set res\<close> step(2) by (auto simp: parent_of_def)
      next
        case False
        then show ?thesis using step by (auto intro: rtrancl_into_rtrancl)
      qed
    qed (use True in simp)
    moreover have "\<forall>x \<in> set res. set (children_of m x) \<subseteq> set res \<union> set stack" using 2(3) True by auto
    ultimately show ?thesis using 2(1) [OF True] 2(4) True by auto
  next
    case False
    have r: "?R `` {pid} = {pid} \<union> ?R `` set (children_of m pid)"
      by (auto simp: parent_of_def elim: converse_rtranclE intro: converse_rtrancl_into_rtrancl)
    have "\<forall>x \<in> set (res @ [pid]). set (children_of m x) \<subseteq> set (res @ [pid]) \<union> set (rev (children_of m pid) @ stack)"
      using 2(3) by auto
    then show ?thesis using 2(2) [OF False] 2(4) False r by auto
  qed
qed

text \<open>C26: The pids collected for a set of roots are, in order and once each, exactly the roots and everything that
  descends from them, also when the parents read from \<open>/proc\<close> form a circle.\<close>

theorem subtree_exact:
  "set (collect_subtree roots m) = (parent_of m)\<^sup>* `` set roots \<and> sorted (collect_subtree roots m) \<and>
   distinct (collect_subtree roots m)"
  using subtree_loop_set [of "[]" m "rev roots"] by (simp add: collect_subtree_def)

section \<open>The processes\<close>

lemma map_filter_keys: "map fst (List.map_filter (\<lambda>k. map_option (Pair k) (f k)) ks) = filter (\<lambda>k. f k \<noteq> None) ks"
  by (induction ks) (auto simp: map_filter_simps split: option.split)

lemma fill_children_keys: "map fst (fill_children m ps) = map fst ps"
  by (simp add: fill_children_def split_beta comp_def)

lemma fill_children_fst: "fst ` set (fill_children m ps) = fst ` set ps"
  using fill_children_keys by (metis list.set_map)

section \<open>The threads\<close>

lemma insert_light_set: "set (insert_light a ls) = insert a (set ls)"
  by (induction ls) auto

lemma insert_light_length: "length (insert_light a ls) = Suc (length ls)"
  by (induction ls) auto

lemma sort_lights_set: "set (sort_lights ls) = set ls" "length (sort_lights ls) = length ls"
  by (induction ls) (simp_all add: sort_lights_def insert_light_set insert_light_length)

lemma not_busier: "\<not> busier b a \<longleftrightarrow> li_delta b < li_delta a \<or> li_delta b = li_delta a \<and> li_ticks b \<le> li_ticks a"
  by (auto simp: busier_def)

lemma not_busier_trans: "\<not> busier b a \<Longrightarrow> \<not> busier c b \<Longrightarrow> \<not> busier c a"
  by (auto simp: not_busier)

lemma busier_total: "busier b a \<Longrightarrow> \<not> busier a b"
  by (auto simp: busier_def split: if_splits)

lemma insert_light_sorted:
  "sorted_wrt (\<lambda>a b. \<not> busier b a) ls \<Longrightarrow> sorted_wrt (\<lambda>a b. \<not> busier b a) (insert_light a ls)"
proof (induction ls)
  case (Cons b bs)
  then show ?case
    using not_busier_trans [of b a] by (cases "busier b a") (auto simp: insert_light_set dest: busier_total)
qed simp

lemma sort_lights_sorted: "sorted_wrt (\<lambda>a b. \<not> busier b a) (sort_lights ls)"
  by (induction ls) (simp_all add: sort_lights_def insert_light_sorted)

lemma sorted_take_drop:
  "sorted_wrt P xs \<Longrightarrow> a \<in> set (take n xs) \<Longrightarrow> b \<in> set (drop n xs) \<Longrightarrow> P a b"
  by (metis append_take_drop_id sorted_wrt_append)

lemma thread_status_frame: "th_tid (fold thread_status_line ls t) = th_tid t" "th_utime_ticks (fold thread_status_line ls t) = th_utime_ticks t"
  "th_cpu_pct_machine (fold thread_status_line ls t) = th_cpu_pct_machine t" "th_cpu_pct_core (fold thread_status_line ls t) = th_cpu_pct_core t"
  by (induction ls arbitrary: t) (simp_all add: thread_status_line_def)

lemma thread_io_frame: "th_tid (fold thread_io_value ls t) = th_tid t" "th_utime_ticks (fold thread_io_value ls t) = th_utime_ticks t"
  "th_cpu_pct_machine (fold thread_io_value ls t) = th_cpu_pct_machine t" "th_cpu_pct_core (fold thread_io_value ls t) = th_cpu_pct_core t"
  by (induction ls arbitrary: t) (simp_all add: thread_io_value_def split: prod.split)

lemma thread_snapshot_fields:
  "th_tid (thread_snapshot v cfg pid d n l) = li_tid l" "th_utime_ticks (thread_snapshot v cfg pid d n l) = li_ticks l"
  "th_cpu_pct_machine (thread_snapshot v cfg pid 0 n l) = 0" "th_cpu_pct_core (thread_snapshot v cfg pid 0 n l) = 0"
  by (simp_all add: thread_snapshot_def Let_def thread_status_frame thread_io_frame ThreadSnapshot_init_def)

text \<open>The threads kept are the busiest since the last sample: a thread left out used no more time than any
  that is kept.\<close>

lemma topn_busiest:
  assumes "t \<in> set (collect_topn_threads v pid prev cfg p c n)"
    and "l \<in> set (List.map_filter (light_of v pid prev) (list_tids v pid))"
    and "li_tid l \<notin> th_tid ` set (collect_topn_threads v pid prev cfg p c n)"
  obtains k where "k \<in> set (List.map_filter (light_of v pid prev) (list_tids v pid))" "li_tid k = th_tid t" "\<not> busier l k"
proof -
  let ?ls = "sort_lights (List.map_filter (light_of v pid prev) (list_tids v pid))"
  define topn where "topn = (if sc_threads_topn cfg < 0 then length ?ls else nat (sc_threads_topn cfg))"
  have e: "collect_topn_threads v pid prev cfg p c n = map (thread_snapshot v cfg pid (ticks_delta p c) n) (take topn ?ls)"
    by (simp add: collect_topn_threads_def Let_def topn_def)
  from assms(1) obtain k where k: "k \<in> set (take topn ?ls)" "li_tid k = th_tid t"
    by (auto simp: e thread_snapshot_fields)
  have "l \<in> set ?ls" using assms(2) by (simp add: sort_lights_set)
  moreover have "l \<notin> set (take topn ?ls)" using assms(3) by (force simp: e thread_snapshot_fields)
  ultimately have "l \<in> set (drop topn ?ls)" by (metis UnE append_take_drop_id set_append)
  then have "\<not> busier l k" using sorted_take_drop [OF sort_lights_sorted k(1)] by blast
  moreover have "k \<in> set (List.map_filter (light_of v pid prev) (list_tids v pid))"
    using k(1) set_take_subset [of topn ?ls] by (auto simp: sort_lights_set)
  ultimately show ?thesis using that k(2) by blast
qed

end
