(* ===== verification/SoftHealth.thy ===== *)
theory SoftHealth
  imports ProcLaws Heartbeat
begin

text \<open>
  The analyser and the manager of \<open>src/util/my_soft_healthy\<close>: the differences between two samples
  (\<open>ResourceUsageAnalyzer\<close>), the sample itself, its publication and the life of the sampling thread
  (\<open>SoftHealthMonitorManager\<close>), and the configuration. A sample is one step here, whoever takes it, although \<open>refresh_now\<close> itself
  takes no lock and a call of it may run beside the sampling thread; the JSON print-out
  and the time stamp are left out.
\<close>

section \<open>Configuration\<close>

text \<open>A field that is there must have its type; one read before an exception keeps its new value.\<close>

definition config_field :: "json \<Rightarrow> (json \<Rightarrow> 'v \<Rightarrow> json_exn + 'v) \<Rightarrow> ('c \<Rightarrow> 'v) \<Rightarrow> ('v \<Rightarrow> 'c \<Rightarrow> 'c) \<Rightarrow>
    json_exn option \<times> 'c \<Rightarrow> json_exn option \<times> 'c" where
  "config_field j read getter put r =
     (case r of
        (Some e, c) \<Rightarrow> (Some e, c)
      | (None, c) \<Rightarrow>
          if \<not> is_object j then (None, c)
          else (case read j (getter c) of Inl e \<Rightarrow> (Some e, c) | Inr v \<Rightarrow> (None, put v c)))"

definition nullable :: "string \<Rightarrow> (json \<Rightarrow> 'v \<Rightarrow> json_exn + 'v) \<Rightarrow> 'v \<Rightarrow> json \<Rightarrow> 'v option \<Rightarrow> json_exn + 'v option" where
  "nullable key read zero j old =
     (case field j key of
        None \<Rightarrow> Inr old
      | Some JNull \<Rightarrow> Inr old
      | Some _ \<Rightarrow> (case read j zero of Inl e \<Rightarrow> Inl e | Inr v \<Rightarrow> Inr (Some v)))"

definition generateSampleConfigByJson ::
    "(string \<Rightarrow> int) \<Rightarrow> json \<Rightarrow> SoftHealthMonitorConfig \<Rightarrow> json_exn option \<times> SoftHealthMonitorConfig" where
  "generateSampleConfigByJson trunc j cfg =
     (let r = (None, cfg);
          r = config_field j (\<lambda>j. value_int trunc j ''interval_seconds'') sc_interval_seconds (\<lambda>v c. c\<lparr>sc_interval_seconds := v\<rparr>) r;
          r = config_field j (\<lambda>j. value_int trunc j ''threads_topn'') sc_threads_topn (\<lambda>v c. c\<lparr>sc_threads_topn := v\<rparr>) r;
          r = config_field j (\<lambda>j. value_bool j ''include_proc_io'') sc_include_proc_io (\<lambda>v c. c\<lparr>sc_include_proc_io := v\<rparr>) r;
          r = config_field j (\<lambda>j. value_bool j ''include_thread_io'') sc_include_thread_io (\<lambda>v c. c\<lparr>sc_include_thread_io := v\<rparr>) r;
          r = config_field j (\<lambda>j. value_bool j ''include_ctx_switches'') sc_include_ctx_switches
                (\<lambda>v c. c\<lparr>sc_include_ctx_switches := v\<rparr>) r;
          r = config_field j (nullable ''target_pid'' (\<lambda>j. value_int trunc j ''target_pid'') 0) sc_target_pid
                (\<lambda>v c. c\<lparr>sc_target_pid := v\<rparr>) r;
          r = config_field j (nullable ''target_name'' (\<lambda>j. value_string j ''target_name'') []) sc_target_name
                (\<lambda>v c. c\<lparr>sc_target_name := v\<rparr>) r
      in config_field j (nullable ''target_cmdline_regex'' (\<lambda>j. value_string j ''target_cmdline_regex'') [])
           sc_target_cmdline_regex (\<lambda>v c. c\<lparr>sc_target_cmdline_regex := v\<rparr>) r)"

section \<open>The analyser\<close>

text \<open>The list of threads is sorted before it is searched; a thread is in it once, so the order plays no part. The
  rates of the transfers are computed and dropped.\<close>

definition thread_usage :: "u64 \<Rightarrow> int \<Rightarrow> (int \<times> u64) list \<Rightarrow> ThreadSnapshot \<Rightarrow> ThreadSnapshot" where
  "thread_usage host_delta num_cpus deltas t =
     (case map_of deltas (th_tid t) of
        None \<Rightarrow> t
      | Some d \<Rightarrow>
          if host_delta > 0
          then t\<lparr>th_cpu_pct_machine := percent d host_delta, th_cpu_pct_core := percent d host_delta * of_int num_cpus\<rparr>
          else t)"

definition process_usage :: "u64 \<Rightarrow> SoftHealthSnapshot \<Rightarrow> SoftHealthSnapshot \<Rightarrow> int \<Rightarrow> ProcessSnapshot \<Rightarrow> ProcessSnapshot" where
  "process_usage host_delta prev now pid p =
     (case map_of (sn_processes prev) pid of
        None \<Rightarrow> p
      | Some pp \<Rightarrow>
          if ps_start_time_ticks pp \<noteq> ps_start_time_ticks p then p
          else
            let d = ticks_delta (ps_utime_ticks pp + ps_stime_ticks pp) (ps_utime_ticks p + ps_stime_ticks p);
                n = ho_num_cpus (sn_host now);
                p = (if host_delta > 0
                     then p\<lparr>ps_cpu_pct_machine := percent d host_delta, ps_cpu_pct_core := percent d host_delta * of_int n\<rparr>
                     else p)
            in (case map_of (sn_pid_tid_ticks now) pid of
                  None \<Rightarrow> p
                | Some now_ticks \<Rightarrow>
                    let prev_ticks = (case map_of (sn_pid_tid_ticks prev) pid of None \<Rightarrow> [] | Some m \<Rightarrow> m);
                        deltas = map (\<lambda>(tid, t). (tid, ticks_delta (lookup_ticks prev_ticks tid) t)) now_ticks
                    in p\<lparr>ps_top_threads := map (thread_usage host_delta n deltas) (ps_top_threads p)\<rparr>))"

definition compute_deltas :: "SoftHealthSnapshot option \<Rightarrow> SoftHealthSnapshot \<Rightarrow> SoftHealthSnapshot" where
  "compute_deltas prev now =
     (case prev of
        None \<Rightarrow> now
      | Some prev \<Rightarrow>
          let host_delta = ticks_delta (ho_total_cpu_jiffies (sn_host prev)) (ho_total_cpu_jiffies (sn_host now))
          in now\<lparr>sn_processes := map (\<lambda>(pid, p). (pid, process_usage host_delta prev now pid p)) (sn_processes now)\<rparr>)"

section \<open>The manager\<close>

record health =
  he_cfg :: SoftHealthMonitorConfig
  he_current :: "SoftHealthSnapshot option"
  he_prev :: "SoftHealthSnapshot option"
  he_running :: bool
  he_joinable :: bool

definition health_ctor :: health where
  "health_ctor = \<lparr>he_cfg = SoftHealthMonitorConfig_init, he_current = None, he_prev = None, he_running = False, he_joinable = False\<rparr>"

definition task_ticks :: "proc_view \<Rightarrow> int \<Rightarrow> (int \<times> u64) list" where
  "task_ticks v pid =
     List.map_filter (\<lambda>tid. map_option (\<lambda>st. (tid, ts_utime st + ts_stime st)) (read_task_stat v pid tid task_stat_init))
       (list_tids v pid)"

definition previous_ticks :: "SoftHealthSnapshot option \<Rightarrow> int \<Rightarrow> (int \<times> u64) list" where
  "previous_ticks prev pid =
     (case prev of None \<Rightarrow> [] | Some s \<Rightarrow> (case map_of (sn_pid_tid_ticks s) pid of None \<Rightarrow> [] | Some m \<Rightarrow> m))"

text \<open>The first three passes are those of the collector, then the ticks of all threads, then the busiest of them.
  The total of the host is set to 0.\<close>

definition take_sample :: "(string \<Rightarrow> string \<Rightarrow> bool) \<Rightarrow> (nat \<Rightarrow> proc_view) \<Rightarrow> int \<Rightarrow> int \<Rightarrow> health \<Rightarrow> SoftHealthSnapshot" where
  "take_sample search v num_cpus clk_tck h =
     (let now = \<lparr>sn_host = \<lparr>ho_num_cpus = num_cpus, ho_clk_tck = clk_tck, ho_total_cpu_jiffies = 0\<rparr>, sn_roots = [],
                 sn_processes = [], sn_pid_tid_ticks = []\<rparr>;
          now = collect_processes_basic search v (he_cfg h) now;
          now = now\<lparr>sn_pid_tid_ticks := filter (\<lambda>(pid, m). m \<noteq> []) (map (\<lambda>(pid, p). (pid, task_ticks (v 3) pid)) (sn_processes now))\<rparr>;
          prev_total = (case he_prev h of None \<Rightarrow> 0 | Some s \<Rightarrow> ho_total_cpu_jiffies (sn_host s))
      in now\<lparr>sn_processes := map (\<lambda>(pid, p). (pid, p\<lparr>ps_top_threads :=
           collect_topn_threads (v 4) pid (previous_ticks (he_prev h) pid) (he_cfg h) prev_total
             (ho_total_cpu_jiffies (sn_host now)) num_cpus\<rparr>)) (sn_processes now)\<rparr>)"

definition refresh_now :: "(string \<Rightarrow> string \<Rightarrow> bool) \<Rightarrow> (nat \<Rightarrow> proc_view) \<Rightarrow> int \<Rightarrow> int \<Rightarrow> health \<Rightarrow> SoftHealthSnapshot \<times> health" where
  "refresh_now search v num_cpus clk_tck h =
     (let now = compute_deltas (he_prev h) (take_sample search v num_cpus clk_tck h)
      in (now, h\<lparr>he_current := Some now, he_prev := Some now\<rparr>))"

definition applyConfig :: "SoftHealthMonitorConfig \<Rightarrow> health \<Rightarrow> health" where
  "applyConfig cfg h = h\<lparr>he_cfg := cfg\<rparr>"

text \<open>\<open>start\<close> assigns to the thread; when that still has one to join the program ends, which is \<open>None\<close>.\<close>

definition health_start :: "health \<Rightarrow> health option" where
  "health_start h =
     (if he_running h then Some h
      else if he_joinable h then None
      else Some (h\<lparr>he_running := True, he_joinable := True\<rparr>))"

text \<open>\<open>stop\<close> in its two halves: under the lock, and the join without it.\<close>

definition health_stop_begin :: "health \<Rightarrow> bool \<times> health" where
  "health_stop_begin h = (if \<not> he_running h then (False, h) else (True, h\<lparr>he_running := False\<rparr>))"

definition health_stop_end :: "health \<Rightarrow> health" where
  "health_stop_end h = h\<lparr>he_joinable := False\<rparr>"

inductive health_step :: "health \<Rightarrow> health \<Rightarrow> bool" where
  start: "health_start h = Some h' \<Longrightarrow> health_step h h'"
| stop_begin: "health_step h (snd (health_stop_begin h))"
| stop_end: "\<not> he_running h \<Longrightarrow> health_step h (health_stop_end h)"
| refresh: "health_step h (snd (refresh_now search v num_cpus clk_tck h))"
| config: "health_step h (applyConfig cfg h)"

section \<open>Properties\<close>

text \<open>A snapshot that is well formed: no process twice, the children of a process are processes of the snapshot, in
  order; and no time of the host and no usage in it.\<close>

definition no_usage :: "ProcessSnapshot \<Rightarrow> bool" where
  "no_usage p \<longleftrightarrow> ps_cpu_pct_machine p = 0 \<and> ps_cpu_pct_core p = 0 \<and>
     (\<forall>t \<in> set (ps_top_threads p). th_cpu_pct_machine t = 0 \<and> th_cpu_pct_core t = 0)"

definition snapshot_ok :: "SoftHealthSnapshot \<Rightarrow> bool" where
  "snapshot_ok s \<longleftrightarrow> ho_total_cpu_jiffies (sn_host s) = 0 \<and> distinct (map fst (sn_processes s)) \<and>
     (\<forall>(pid, p) \<in> set (sn_processes s). sorted (ps_children p) \<and> set (ps_children p) \<subseteq> fst ` set (sn_processes s) \<and> no_usage p)"

definition health_inv :: "health \<Rightarrow> bool" where
  "health_inv h \<longleftrightarrow> he_current h = he_prev h \<and> (\<forall>s. he_prev h = Some s \<longrightarrow> snapshot_ok s) \<and> (he_running h \<longrightarrow> he_joinable h)"

lemma status_frame: "ps_children (fold (status_line b) ls p) = ps_children p" "ps_cpu_pct_machine (fold (status_line b) ls p) = ps_cpu_pct_machine p"
  "ps_cpu_pct_core (fold (status_line b) ls p) = ps_cpu_pct_core p" "ps_top_threads (fold (status_line b) ls p) = ps_top_threads p"
  by (induction ls arbitrary: p) (simp_all add: status_line_def)

lemma proc_io_frame: "ps_children (fold proc_io_value ls p) = ps_children p" "ps_cpu_pct_machine (fold proc_io_value ls p) = ps_cpu_pct_machine p"
  "ps_cpu_pct_core (fold proc_io_value ls p) = ps_cpu_pct_core p" "ps_top_threads (fold proc_io_value ls p) = ps_top_threads p"
  by (induction ls arbitrary: p) (simp_all add: proc_io_value_def split: prod.split)

lemma collect_process_frame:
  "collect_process v cfg pid = Some p \<Longrightarrow> ps_children p = [] \<and> ps_cpu_pct_machine p = 0 \<and> ps_cpu_pct_core p = 0 \<and> ps_top_threads p = []"
  by (auto simp: collect_process_def read_proc_stat_def ProcessSnapshot_init_def read_status_fields_def read_proc_io_def
      Let_def status_frame proc_io_frame split: option.splits)

text \<open>The invariant of a sample while it is made.\<close>

lemma collected_ok:
  assumes "snap = \<lparr>sn_host = \<lparr>ho_num_cpus = n, ho_clk_tck = c, ho_total_cpu_jiffies = 0\<rparr>, sn_roots = [], sn_processes = [], sn_pid_tid_ticks = []\<rparr>"
  shows "snapshot_ok (collect_processes_basic search v cfg snap)"
proof (cases "resolve_roots search cfg (v 1) = []")
  case True
  then show ?thesis using assms by (simp add: collect_processes_basic_def snapshot_ok_def)
next
  case False
  let ?m = "snd (build_pid_maps (v 0))"
  let ?ps = "List.map_filter (\<lambda>pid. map_option (Pair pid) (collect_process (v 2) cfg pid))
      (collect_subtree (resolve_roots search cfg (v 1)) ?m)"
  have d: "distinct (map fst ?ps)" using subtree_exact by (simp add: map_filter_keys)
  have "sorted (ps_children p) \<and> set (ps_children p) \<subseteq> fst ` set ?ps \<and> no_usage p" if "(pid, p) \<in> set (fill_children ?m ?ps)" for pid p
  proof -
    from that obtain q where q: "(pid, q) \<in> set ?ps" and
      p: "p = q\<lparr>ps_children := sort (ps_children q @ filter (\<lambda>c. c \<in> fst ` set ?ps) (children_of ?m pid))\<rparr>"
      unfolding fill_children_def by auto
    have "collect_process (v 2) cfg pid = Some q" using q by (auto simp: map_filter_def)
    then show ?thesis using collect_process_frame [of "v 2" cfg pid q] by (auto simp: p no_usage_def)
  qed
  then show ?thesis
    using False assms d by (auto simp: collect_processes_basic_def snapshot_ok_def Let_def fill_children_keys fill_children_fst)
qed

lemma topn_no_usage:
  "t \<in> set (collect_topn_threads v pid prev cfg 0 0 n) \<Longrightarrow> th_cpu_pct_machine t = 0 \<and> th_cpu_pct_core t = 0"
  by (auto simp: collect_topn_threads_def Let_def ticks_delta_def thread_snapshot_fields)

lemma map_processes_ok:
  assumes "snapshot_ok s" "\<And>pid p. no_usage p \<Longrightarrow> no_usage (f pid p) \<and> ps_children (f pid p) = ps_children p"
  shows "snapshot_ok (s\<lparr>sn_processes := map (\<lambda>(pid, p). (pid, f pid p)) (sn_processes s)\<rparr>)"
proof -
  let ?ps = "map (\<lambda>(pid, p). (pid, f pid p)) (sn_processes s)"
  have d: "map fst ?ps = map fst (sn_processes s)" by (simp add: split_beta comp_def)
  then have k: "fst ` set ?ps = fst ` set (sn_processes s)" by (metis list.set_map)
  have "sorted (ps_children q) \<and> set (ps_children q) \<subseteq> fst ` set (sn_processes s) \<and> no_usage q" if "(pid, q) \<in> set ?ps" for pid q
  proof -
    from that obtain p where p: "(pid, p) \<in> set (sn_processes s)" "q = f pid p" by auto
    then have "sorted (ps_children p) \<and> set (ps_children p) \<subseteq> fst ` set (sn_processes s) \<and> no_usage p"
      using assms(1) unfolding snapshot_ok_def by blast
    then show ?thesis using assms(2) [of p pid] by (simp add: p(2))
  qed
  then have "\<forall>(pid, q) \<in> set ?ps. sorted (ps_children q) \<and> set (ps_children q) \<subseteq> fst ` set ?ps \<and> no_usage q"
    unfolding k by blast
  moreover have "distinct (map fst ?ps)" unfolding d using assms(1) by (simp add: snapshot_ok_def)
  ultimately show ?thesis using assms(1) unfolding snapshot_ok_def by (simp del: map_map set_map list.set_map)
qed

lemma take_sample_ok:
  assumes "health_inv h"
  shows "snapshot_ok (take_sample search v n c h)"
proof -
  let ?c = "collect_processes_basic search v (he_cfg h) \<lparr>sn_host = \<lparr>ho_num_cpus = n, ho_clk_tck = c, ho_total_cpu_jiffies = 0\<rparr>,
      sn_roots = [], sn_processes = [], sn_pid_tid_ticks = []\<rparr>"
  have ok: "snapshot_ok (?c\<lparr>sn_pid_tid_ticks := tt\<rparr>)" for tt
    using collected_ok [OF refl, of search v "he_cfg h" n c] by (simp add: snapshot_ok_def)
  have "ho_total_cpu_jiffies (sn_host ?c) = 0" using ok [of "[]"] by (simp add: snapshot_ok_def)
  moreover have "(case he_prev h of None \<Rightarrow> 0 | Some s \<Rightarrow> ho_total_cpu_jiffies (sn_host s)) = 0"
    using assms by (auto simp: health_inv_def snapshot_ok_def split: option.split)
  ultimately show ?thesis
    unfolding take_sample_def Let_def
    using map_processes_ok [OF ok, where f = "\<lambda>pid p. p\<lparr>ps_top_threads := collect_topn_threads (v 4) pid
        (previous_ticks (he_prev h) pid) (he_cfg h) 0 0 n\<rparr>"]
    by (simp add: no_usage_def topn_no_usage)
qed

lemma process_no_usage:
  "no_usage p \<Longrightarrow> no_usage (process_usage 0 prev now pid p) \<and> ps_children (process_usage 0 prev now pid p) = ps_children p"
  by (auto simp: process_usage_def no_usage_def thread_usage_def Let_def split: option.splits)

lemma compute_deltas_ok:
  assumes "snapshot_ok now" "\<forall>s. prev = Some s \<longrightarrow> snapshot_ok s"
  shows "snapshot_ok (compute_deltas prev now)"
proof (cases prev)
  case (Some s)
  then have "ticks_delta (ho_total_cpu_jiffies (sn_host s)) (ho_total_cpu_jiffies (sn_host now)) = 0"
    using assms by (simp add: snapshot_ok_def ticks_delta_def)
  then show ?thesis
    using map_processes_ok [OF assms(1), where f = "process_usage 0 s now"] process_no_usage
    by (simp add: compute_deltas_def Some Let_def)
qed (use assms in \<open>simp add: compute_deltas_def\<close>)

interpretation health: invariant_system "\<lambda>h. h = health_ctor" health_step health_inv
proof
  show "health_inv h" if "h = health_ctor" for h using that by (simp add: health_ctor_def health_inv_def)
  show "health_inv h'" if "health_inv h" "health_step h h'" for h h'
    using that(2,1)
  proof (induction rule: health_step.induct)
    case (refresh h search v n c)
    then have "snapshot_ok (compute_deltas (he_prev h) (take_sample search v n c h))"
      by (intro compute_deltas_ok take_sample_ok) (simp_all add: health_inv_def)
    then show ?case using refresh by (simp add: refresh_now_def Let_def health_inv_def)
  qed (auto simp: health_inv_def health_start_def health_stop_begin_def health_stop_end_def applyConfig_def split: if_splits)
qed

text \<open>Whatever is started, stopped, configured and sampled, and whatever \<open>/proc\<close> holds, the published snapshot is
  the one the next difference is taken against; it has no process twice, the children of each process are
  processes of the snapshot, and every processor usage in it is zero: the time of the host, which they are
  divided by, is never read.\<close>

theorem health_snapshots:
  assumes "health_step\<^sup>*\<^sup>* health_ctor h"
  shows "he_current h = he_prev h \<and>
    (\<forall>s. he_current h = Some s \<longrightarrow> distinct (map fst (sn_processes s)) \<and>
      (\<forall>(pid, p) \<in> set (sn_processes s). set (ps_children p) \<subseteq> fst ` set (sn_processes s) \<and>
        ps_cpu_pct_machine p = 0 \<and> ps_cpu_pct_core p = 0 \<and>
        (\<forall>t \<in> set (ps_top_threads p). th_cpu_pct_machine t = 0 \<and> th_cpu_pct_core t = 0)))"
proof -
  have "health_inv h" using health.reachable_inv [OF refl assms] .
  then show ?thesis by (auto simp: health_inv_def snapshot_ok_def no_usage_def split_beta)
qed

definition demo_health :: health where
  "demo_health = snd (refresh_now (\<lambda>_ _. False) (\<lambda>_. demo_view) 4 100
     (applyConfig (SoftHealthMonitorConfig_init\<lparr>sc_target_pid := Some 7\<rparr>) health_ctor))"

lemma demo_health_reached: "health_step\<^sup>*\<^sup>* health_ctor demo_health"
  unfolding demo_health_def
  by (rule rtranclp.rtrancl_into_rtrancl [OF r_into_rtranclp [of health_step]]) (rule health_step.config, rule health_step.refresh)

lemma demo_health_processes: "\<exists>s p. he_current demo_health = Some s \<and> sn_processes s = [(7, p)]"
proof -
  have "collect_process demo_view cfg 7 \<noteq> None" for cfg
    using stat_parts_line [of "CHR ''S''" 7 "''a) (b''" "replicate 19 3"]
    by (simp add: collect_process_def read_proc_stat_def demo_view_def cisspace_def)
  then obtain p where "collect_process demo_view (SoftHealthMonitorConfig_init\<lparr>sc_target_pid := Some 7\<rparr>) 7 = Some p" by blast
  moreover have "build_pid_maps demo_view = ([], [])"
    by (simp add: build_pid_maps_def list_all_pids_def dir_names_def demo_view_def map_filter_simps)
  ultimately show ?thesis
    by (simp add: demo_health_def refresh_now_def take_sample_def compute_deltas_def collect_processes_basic_def
        resolve_roots_def applyConfig_def health_ctor_def Let_def collect_subtree_def children_of_def map_filter_simps
        fill_children_def)
qed

theorem health_snapshots_witness:
  "\<exists>s p. he_current demo_health = Some s \<and> sn_processes s = [(7, p)] \<and> ps_cpu_pct_machine p = 0"
proof -
  obtain s p where s: "he_current demo_health = Some s" "sn_processes s = [(7, p)]" using demo_health_processes by blast
  with health_snapshots [OF demo_health_reached, THEN conjunct2, rule_format, OF s(1), THEN conjunct2]
  have "ps_cpu_pct_machine p = 0" by simp
  with s show ?thesis by blast
qed

text \<open>The analyser itself is right: with a difference of the host's time it gives each process that was there
  before its share, and leaves one whose number was used again alone.\<close>

lemma percent_bounds: "0 < h \<Longrightarrow> d \<le> h \<Longrightarrow> 0 \<le> percent d h \<and> percent d h \<le> 100"
proof -
  assume a: "0 < h" "d \<le> h"
  then have "0 < uint h" "uint d \<le> uint h" by (simp_all add: word_less_def word_le_def)
  then have "(0 :: rat) < of_int (uint h)" "of_int (uint d) \<le> (of_int (uint h) :: rat)"
    by (simp_all only: of_int_0_less_iff of_int_le_iff)
  then have "(of_int (uint d) :: rat) / of_int (uint h) \<le> 1" by (simp only: divide_le_eq_1_pos)
  moreover have "(0 :: rat) \<le> of_int (uint d) / of_int (uint h)" by (intro divide_nonneg_nonneg) (simp_all only: of_int_0_le_iff uint_ge_0)
  moreover have "0 \<le> x * 100 \<and> x * 100 \<le> 100" if "x \<le> 1" "0 \<le> x" for x :: rat using that by linarith
  ultimately show ?thesis unfolding percent_def by blast
qed

lemma usage_of_process:
  assumes "map_of (sn_processes prev) pid = Some pp" "0 < host_delta"
  shows "ps_cpu_pct_machine (process_usage host_delta prev now pid p) =
    (if ps_start_time_ticks pp = ps_start_time_ticks p
     then percent (ticks_delta (ps_utime_ticks pp + ps_stime_ticks pp) (ps_utime_ticks p + ps_stime_ticks p)) host_delta
     else ps_cpu_pct_machine p)"
  using assms by (simp add: process_usage_def Let_def split: option.split)

text \<open>A \<open>start\<close> between the two halves of a \<open>stop\<close> ends the program.\<close>

lemma start_during_stop_is_fatal:
  assumes "health_start health_ctor = Some h"
  shows "health_start (snd (health_stop_begin h)) = None"
  using assms by (auto simp: health_start_def health_stop_begin_def health_ctor_def)

end
