(* ===== verification/Context.thy ===== *)
theory Context
  imports Complex_Main TextLines "HOL-Library.List_Lexorder" "HOL-Library.Char_ord"
begin

text \<open>
  The store of run-time values \<open>src/util/my_context\<close>: named JSON values with a description, a type and two time
  stamps. Every public function holds the lock of the store, so the calls of all threads are one sequence. The
  table is a list of its entries by name; no function depends on its order. A float is known by its printed text,
  so what it is as a number is a parameter of the readers, as is what \<open>std::stod\<close> makes of a text; \<open>None\<close> is a
  number that is not finite, or no number. Log output and running out of memory are left out.
\<close>

section \<open>Data\<close>

datatype ContextValueType =
  ValueNull | ValueBoolean | ValueInteger | ValueDouble | ValueString | ValueObject | ValueArray

record ContextEntry =
  ce_name :: string
  ce_value :: json
  ce_description :: string
  ce_type :: ContextValueType
  ce_created_at_ms :: int
  ce_updated_at_ms :: int

type_synonym contexts = "(string \<times> ContextEntry) list"

text \<open>What \<open>error_out\<close> says.\<close>

datatype context_error = NameEmpty | NoContext string

fun DeduceType :: "json \<Rightarrow> ContextValueType" where
  "DeduceType (JBool _) = ValueBoolean"
| "DeduceType (JInteger _) = ValueInteger"
| "DeduceType (JUnsigned _) = ValueInteger"
| "DeduceType (JFloat _) = ValueDouble"
| "DeduceType (JString _) = ValueString"
| "DeduceType (JObject _) = ValueObject"
| "DeduceType (JArray _) = ValueArray"
| "DeduceType JNull = ValueNull"

fun TypeToString :: "ContextValueType \<Rightarrow> string" where
  "TypeToString ValueBoolean = ''boolean''"
| "TypeToString ValueInteger = ''integer''"
| "TypeToString ValueDouble = ''double''"
| "TypeToString ValueString = ''string''"
| "TypeToString ValueObject = ''object''"
| "TypeToString ValueArray = ''array''"
| "TypeToString ValueNull = ''null''"

text \<open>The library keeps the fields of an object in the order of their keys.\<close>

definition ToJson :: "ContextEntry \<Rightarrow> json" where
  "ToJson e = JObject
     [(''created_at_ms'', JInteger (ce_created_at_ms e)), (''description'', JString (ce_description e)),
      (''name'', JString (ce_name e)), (''type'', JString (TypeToString (ce_type e))),
      (''updated_at_ms'', JInteger (ce_updated_at_ms e)), (''value'', ce_value e)]"

section \<open>Writing\<close>

definition modify :: "string \<Rightarrow> (ContextEntry \<Rightarrow> ContextEntry) \<Rightarrow> contexts \<Rightarrow> contexts" where
  "modify name f c = map (\<lambda>(k, e). (k, if k = name then f e else e)) c"

definition SetLocked :: "int \<Rightarrow> string \<Rightarrow> json \<Rightarrow> string \<Rightarrow> contexts \<Rightarrow> contexts" where
  "SetLocked now name v d c =
     (case map_of c name of
        None \<Rightarrow> (name, \<lparr>ce_name = name, ce_value = v, ce_description = d, ce_type = DeduceType v,
                       ce_created_at_ms = now, ce_updated_at_ms = now\<rparr>) # c
      | Some _ \<Rightarrow> modify name (\<lambda>e. e\<lparr>ce_value := v, ce_type := DeduceType v,
                      ce_description := (if d \<noteq> [] then d else ce_description e), ce_updated_at_ms := now\<rparr>) c)"

definition ctx_Set :: "int \<Rightarrow> string \<Rightarrow> json \<Rightarrow> string \<Rightarrow> contexts \<Rightarrow> bool \<times> contexts" where
  "ctx_Set now name v d c = (if name = [] then (False, c) else (True, SetLocked now name v d c))"

definition SetBool :: "int \<Rightarrow> string \<Rightarrow> bool \<Rightarrow> string \<Rightarrow> contexts \<Rightarrow> bool \<times> contexts" where
  "SetBool now name b d c = ctx_Set now name (JBool b) d c"

definition SetInt :: "int \<Rightarrow> string \<Rightarrow> int \<Rightarrow> string \<Rightarrow> contexts \<Rightarrow> bool \<times> contexts" where
  "SetInt now name i d c = ctx_Set now name (JInteger i) d c"

definition SetDouble :: "int \<Rightarrow> string \<Rightarrow> string \<Rightarrow> string \<Rightarrow> contexts \<Rightarrow> bool \<times> contexts" where
  "SetDouble now name x d c = ctx_Set now name (JFloat x) d c"

definition SetString :: "int \<Rightarrow> string \<Rightarrow> string \<Rightarrow> string \<Rightarrow> contexts \<Rightarrow> bool \<times> contexts" where
  "SetString now name s d c = ctx_Set now name (JString s) d c"

definition UpdateValue :: "int \<Rightarrow> string \<Rightarrow> json \<Rightarrow> contexts \<Rightarrow> (context_error + unit) \<times> contexts" where
  "UpdateValue now name v c =
     (if name = [] then (Inl NameEmpty, c)
      else case map_of c name of
        None \<Rightarrow> (Inl (NoContext name), c)
      | Some _ \<Rightarrow> (Inr (), modify name (\<lambda>e. e\<lparr>ce_value := v, ce_type := DeduceType v, ce_updated_at_ms := now\<rparr>) c))"

definition UpdateDescription :: "int \<Rightarrow> string \<Rightarrow> string \<Rightarrow> contexts \<Rightarrow> (context_error + unit) \<times> contexts" where
  "UpdateDescription now name d c =
     (if name = [] then (Inl NameEmpty, c)
      else case map_of c name of
        None \<Rightarrow> (Inl (NoContext name), c)
      | Some _ \<Rightarrow> (Inr (), modify name (\<lambda>e. e\<lparr>ce_description := d, ce_updated_at_ms := now\<rparr>) c))"

definition Erase :: "string \<Rightarrow> contexts \<Rightarrow> bool \<times> contexts" where
  "Erase name c = (map_of c name \<noteq> None, filter (\<lambda>(k, e). k \<noteq> name) c)"

definition ctx_Clear :: "contexts \<Rightarrow> contexts" where
  "ctx_Clear c = []"

section \<open>Reading\<close>

definition Has :: "string \<Rightarrow> contexts \<Rightarrow> bool" where
  "Has name c \<longleftrightarrow> map_of c name \<noteq> None"

definition GetEntry :: "string \<Rightarrow> contexts \<Rightarrow> ContextEntry option" where
  "GetEntry name c = map_of c name"

definition GetValue :: "string \<Rightarrow> contexts \<Rightarrow> json option" where
  "GetValue name c = map_option ce_value (map_of c name)"

definition ctx_Size :: "contexts \<Rightarrow> nat" where
  "ctx_Size c = length c"

text \<open>A 64-bit integer converted to \<open>double\<close>: 53 digits are kept, to nearest, ties to even.\<close>

fun excess_bits :: "nat \<Rightarrow> nat" where
  "excess_bits m = (if m < 2 ^ 53 then 0 else Suc (excess_bits (m div 2)))"

declare excess_bits.simps [simp del]

definition round_double :: "nat \<Rightarrow> nat" where
  "round_double m =
     (let k = excess_bits m; q = m div 2 ^ k; r = m mod 2 ^ k
      in (if 2 * r > 2 ^ k \<or> 2 * r = 2 ^ k \<and> odd q then q + 1 else q) * 2 ^ k)"

definition double_of_int :: "int \<Rightarrow> int" where
  "double_of_int i = (if i < 0 then - int (round_double (nat (- i))) else int (round_double (nat i)))"

text \<open>\<open>v.get<double>()\<close> of a number; the text of a float is what the library prints of it.\<close>

definition as_double :: "(string \<Rightarrow> rat option) \<Rightarrow> json \<Rightarrow> rat option" where
  "as_double dbl v =
     (case v of
        JUnsigned n \<Rightarrow> Some (of_int (double_of_int (int n)))
      | JInteger i \<Rightarrow> Some (of_int (double_of_int i))
      | JFloat t \<Rightarrow> dbl t
      | _ \<Rightarrow> None)"

text \<open>A conversion to \<open>int64_t\<close> truncates; it is undefined when the result does not fit.\<close>

definition int64_of_double :: "rat option \<Rightarrow> int option" where
  "int64_of_double x =
     (case x of
        None \<Rightarrow> None
      | Some x \<Rightarrow> let i = (if x < 0 then \<lceil>x\<rceil> else \<lfloor>x\<rfloor>) in if - (2 ^ 63) \<le> i \<and> i < 2 ^ 63 then Some i else None)"

definition GetBool :: "(string \<Rightarrow> rat option) \<Rightarrow> string \<Rightarrow> bool \<Rightarrow> contexts \<Rightarrow> bool" where
  "GetBool dbl name dflt c =
     (case GetValue name c of
        None \<Rightarrow> dflt
      | Some (JBool b) \<Rightarrow> b
      | Some (JString s) \<Rightarrow> s = ''true'' \<or> s = ''1''
      | Some v \<Rightarrow> if DeduceType v \<in> {ValueInteger, ValueDouble} then as_double dbl v \<noteq> Some 0 else dflt)"

definition GetInt :: "(string \<Rightarrow> rat option) \<Rightarrow> string \<Rightarrow> int \<Rightarrow> contexts \<Rightarrow> int option" where
  "GetInt dbl name dflt c =
     (case GetValue name c of
        None \<Rightarrow> Some dflt
      | Some (JBool b) \<Rightarrow> Some (if b then 1 else 0)
      | Some (JString s) \<Rightarrow> (case signed_of_text 64 s of None \<Rightarrow> Some dflt | Some i \<Rightarrow> Some i)
      | Some v \<Rightarrow> if DeduceType v \<in> {ValueInteger, ValueDouble} then int64_of_double (as_double dbl v) else Some dflt)"

definition GetDouble :: "(string \<Rightarrow> rat option) \<Rightarrow> (string \<Rightarrow> rat option option) \<Rightarrow> string \<Rightarrow> rat option \<Rightarrow> contexts \<Rightarrow> rat option" where
  "GetDouble dbl stod name dflt c =
     (case GetValue name c of
        None \<Rightarrow> dflt
      | Some (JBool b) \<Rightarrow> Some (if b then 1 else 0)
      | Some (JString s) \<Rightarrow> (case stod s of None \<Rightarrow> dflt | Some x \<Rightarrow> x)
      | Some v \<Rightarrow> if DeduceType v \<in> {ValueInteger, ValueDouble} then as_double dbl v else dflt)"

text \<open>\<open>dump\<close> prints a value, \<open>None\<close> where it throws because a text is no UTF-8.\<close>

definition GetString :: "(json \<Rightarrow> string option) \<Rightarrow> string \<Rightarrow> string \<Rightarrow> contexts \<Rightarrow> string" where
  "GetString dump name dflt c =
     (case GetValue name c of
        None \<Rightarrow> dflt
      | Some (JString s) \<Rightarrow> s
      | Some v \<Rightarrow> (case dump v of None \<Rightarrow> dflt | Some t \<Rightarrow> t))"

definition GetAllJson :: "contexts \<Rightarrow> json" where
  "GetAllJson c =
     (let items = map ToJson (sort_key ce_name (map snd c))
      in JObject [(''count'', JUnsigned (length items)), (''items'', JArray items)])"

definition GetEntryJson :: "string \<Rightarrow> contexts \<Rightarrow> json option" where
  "GetEntryJson name c = map_option ToJson (GetEntry name c)"

end
