(* ===== verification/ContextLaws.thy ===== *)
theory ContextLaws
  imports Context
begin

text \<open>
  The contract of the store: over every sequence of calls it answers as a map from names to values and descriptions
  does, its listing has every entry once in the order of the names, and exactly the integers a \<open>double\<close> can
  hold come back from \<open>GetInt\<close>.
\<close>

section \<open>Calls\<close>

datatype ctx_call =
    CallSet string json string
  | CallUpdateValue string json
  | CallUpdateDescription string string
  | CallErase string
  | CallClear
  | CallHas string
  | CallGetValue string
  | CallSize

datatype ctx_answer = Answer bool | Result "context_error + unit" | Found "json option" | Entries nat | Nothing

fun ctx_serve :: "int \<times> ctx_call \<Rightarrow> contexts \<Rightarrow> ctx_answer \<times> contexts" where
  "ctx_serve (now, CallSet n v d) c = map_prod Answer id (ctx_Set now n v d c)"
| "ctx_serve (now, CallUpdateValue n v) c = map_prod Result id (UpdateValue now n v c)"
| "ctx_serve (now, CallUpdateDescription n d) c = map_prod Result id (UpdateDescription now n d c)"
| "ctx_serve (now, CallErase n) c = map_prod Answer id (Erase n c)"
| "ctx_serve (now, CallClear) c = (Nothing, ctx_Clear c)"
| "ctx_serve (now, CallHas n) c = (Answer (Has n c), c)"
| "ctx_serve (now, CallGetValue n) c = (Found (GetValue n c), c)"
| "ctx_serve (now, CallSize) c = (Entries (ctx_Size c), c)"

text \<open>What the calls are meant to do: a map to a value and its description; an empty description keeps the old one.\<close>

fun map_serve :: "ctx_call \<Rightarrow> (string \<rightharpoonup> json \<times> string) \<Rightarrow> ctx_answer \<times> (string \<rightharpoonup> json \<times> string)" where
  "map_serve (CallSet n v d) m =
     (if n = [] then (Answer False, m)
      else (Answer True, m(n \<mapsto> (v, case m n of Some (_, old) \<Rightarrow> if d = [] then old else d | None \<Rightarrow> d))))"
| "map_serve (CallUpdateValue n v) m =
     (if n = [] then (Result (Inl NameEmpty), m)
      else case m n of None \<Rightarrow> (Result (Inl (NoContext n)), m) | Some (_, d) \<Rightarrow> (Result (Inr ()), m(n \<mapsto> (v, d))))"
| "map_serve (CallUpdateDescription n d) m =
     (if n = [] then (Result (Inl NameEmpty), m)
      else case m n of None \<Rightarrow> (Result (Inl (NoContext n)), m) | Some (v, _) \<Rightarrow> (Result (Inr ()), m(n \<mapsto> (v, d))))"
| "map_serve (CallErase n) m = (Answer (m n \<noteq> None), m(n := None))"
| "map_serve CallClear m = (Nothing, Map.empty)"
| "map_serve (CallHas n) m = (Answer (m n \<noteq> None), m)"
| "map_serve (CallGetValue n) m = (Found (map_option fst (m n)), m)"
| "map_serve CallSize m = (Entries (card (dom m)), m)"

fun serve_all :: "('call \<Rightarrow> 's \<Rightarrow> 'a \<times> 's) \<Rightarrow> 'call list \<Rightarrow> 's \<Rightarrow> 'a list \<times> 's" where
  "serve_all f [] s = ([], s)"
| "serve_all f (x # xs) s = (let (a, s) = f x s; (as, s) = serve_all f xs s in (a # as, s))"

text \<open>One service stands for another when each call of it is one of the other, related by an abstraction.\<close>

locale simulates =
  fixes serve :: "'call \<Rightarrow> 's \<Rightarrow> 'a \<times> 's"
    and spec :: "'req \<Rightarrow> 't \<Rightarrow> 'a \<times> 't"
    and req :: "'call \<Rightarrow> 'req"
    and abs :: "'s \<Rightarrow> 't"
    and inv :: "'s \<Rightarrow> bool"
  assumes answer: "inv s \<Longrightarrow> fst (spec (req x) (abs s)) = fst (serve x s)"
    and state: "inv s \<Longrightarrow> snd (spec (req x) (abs s)) = abs (snd (serve x s))"
    and keeps: "inv s \<Longrightarrow> inv (snd (serve x s))"
begin

lemma run: "inv s \<Longrightarrow> serve_all spec (map req xs) (abs s) = apsnd abs (serve_all serve xs s) \<and> inv (snd (serve_all serve xs s))"
proof (induction xs arbitrary: s)
  case (Cons x xs)
  obtain a s1 where x: "serve x s = (a, s1)" by fastforce
  obtain b s2 where y: "serve_all serve xs s1 = (b, s2)" by fastforce
  have "spec (req x) (abs s) = (a, abs s1)" "inv s1"
    using answer [OF Cons.prems, of x] state [OF Cons.prems, of x] keeps [OF Cons.prems, of x] by (simp_all add: x prod_eq_iff)
  with Cons.IH [of s1] show ?case by (simp add: x y)
qed simp

end

section \<open>The table\<close>

definition context_ok :: "contexts \<Rightarrow> bool" where
  "context_ok c \<longleftrightarrow> distinct (map fst c) \<and>
     (\<forall>(k, e) \<in> set c. k \<noteq> [] \<and> ce_name e = k \<and> ce_type e = DeduceType (ce_value e))"

definition contents :: "contexts \<Rightarrow> string \<rightharpoonup> json \<times> string" where
  "contents c n = map_option (\<lambda>e. (ce_value e, ce_description e)) (map_of c n)"

lemma map_of_modify: "map_of (modify n f c) = (\<lambda>k. if k = n then map_option f (map_of c k) else map_of c k)"
  by (induction c) (auto simp: modify_def)

lemma modify_keys: "map fst (modify n f c) = map fst c"
  by (simp add: modify_def split_beta comp_def)

lemma map_of_filter_key: "map_of (filter (\<lambda>(k, e). k \<noteq> n) c) = (map_of c)(n := None)"
  by (induction c) auto

lemma modify_ok:
  assumes "context_ok c" "\<And>e. ce_type e = DeduceType (ce_value e) \<Longrightarrow> ce_name (f e) = ce_name e \<and> ce_type (f e) = DeduceType (ce_value (f e))"
  shows "context_ok (modify n f c)"
  using assms by (auto simp: context_ok_def modify_keys) (auto simp: modify_def)

lemma nonempty_names: "context_ok c \<Longrightarrow> map_of c [] = None"
  by (auto simp: context_ok_def map_of_eq_None_iff)

lemma serve_ok: "context_ok c \<Longrightarrow> context_ok (snd (ctx_serve x c))"
proof (induction x c rule: ctx_serve.induct)
  case (1 now n v d c)
  then show ?case
  proof (cases "map_of c n")
    case None
    then have "n \<notin> fst ` set c" by (simp add: map_of_eq_None_iff)
    with 1 None show ?thesis by (auto simp: ctx_Set_def SetLocked_def context_ok_def)
  qed (auto simp: ctx_Set_def SetLocked_def intro!: modify_ok)
next
  case (4 now n c)
  have "distinct (map fst (filter (\<lambda>(k, e). k \<noteq> n) c))" using 4 by (simp add: context_ok_def distinct_map_filter)
  with 4 show ?case by (auto simp: Erase_def context_ok_def)
qed (auto simp: UpdateValue_def UpdateDescription_def ctx_Clear_def context_ok_def [of "[]"] split: option.split intro!: modify_ok)

lemma size_contents: "context_ok c \<Longrightarrow> card (dom (contents c)) = length c"
proof -
  assume "context_ok c"
  then have d: "distinct (map fst c)" by (simp add: context_ok_def)
  have "dom (contents c) = fst ` set c" by (auto simp: contents_def dom_def map_of_eq_None_iff)
  then show ?thesis using distinct_card [OF d] by simp
qed

lemma serve_answer: "context_ok c \<Longrightarrow> fst (map_serve (snd x) (contents c)) = fst (ctx_serve x c)"
  by (induction x c rule: ctx_serve.induct)
    (auto simp: ctx_Set_def UpdateValue_def UpdateDescription_def Erase_def Has_def GetValue_def ctx_Size_def size_contents
      contents_def option.map_comp comp_def split: option.split)

lemma serve_state: "context_ok c \<Longrightarrow> snd (map_serve (snd x) (contents c)) = contents (snd (ctx_serve x c))"
  by (induction x c rule: ctx_serve.induct)
    (auto simp: fun_eq_iff contents_def ctx_Set_def SetLocked_def UpdateValue_def UpdateDescription_def Erase_def ctx_Clear_def
      map_of_modify map_of_filter_key split: option.split)

interpretation store: simulates ctx_serve map_serve snd contents context_ok
  by unfold_locales (simp_all add: serve_answer serve_state serve_ok)

lemma reachable_ok: "context_ok (snd (serve_all ctx_serve calls []))"
  using store.run [of "[]" calls] by (simp add: context_ok_def)

text \<open>C8: For every sequence of calls, at whatever times, the store gives the answers of a map from names to values
  and descriptions and ends with its contents: an unknown name is refused without a change, an empty description
  keeps the old one, erased names are gone.\<close>

theorem context_refines_map:
  "serve_all map_serve (map snd calls) Map.empty = apsnd contents (serve_all ctx_serve calls [])"
proof -
  have "contents [] = Map.empty" by (simp add: contents_def fun_eq_iff)
  then show ?thesis using store.run [of "[]" calls] by (simp add: context_ok_def)
qed

section \<open>The listing\<close>

text \<open>C39: After every sequence of calls the listing counts and holds every entry of the store once, in ascending
  order of the names, each with the type of its value.\<close>

theorem context_listing:
  "\<exists>es. GetAllJson (snd (serve_all ctx_serve calls [])) =
       JObject [(''count'', JUnsigned (length es)), (''items'', JArray (map ToJson es))] \<and>
     sorted_wrt (<) (map ce_name es) \<and>
     (\<forall>n e. e \<in> set es \<and> ce_name e = n \<longleftrightarrow> map_of (snd (serve_all ctx_serve calls [])) n = Some e) \<and>
     (\<forall>e \<in> set es. ce_type e = DeduceType (ce_value e))"
proof -
  let ?c = "snd (serve_all ctx_serve calls [])"
  let ?es = "sort_key ce_name (map snd ?c)"
  have ok: "distinct (map fst ?c)" "\<And>k e. (k, e) \<in> set ?c \<Longrightarrow> ce_name e = k \<and> ce_type e = DeduceType (ce_value e)"
    using reachable_ok [of calls] by (auto simp: context_ok_def)
  have "map ce_name (map snd ?c) = map fst ?c" using ok(2) by (auto intro!: map_cong)
  then have "distinct (map ce_name ?es)" using ok(1) by (simp add: distinct_map inj_on_def) (metis distinct_map inj_on_def set_map)
  then have "sorted_wrt (<) (map ce_name ?es)" by (simp add: strict_sorted_iff)
  moreover have "e \<in> set ?es \<and> ce_name e = n \<longleftrightarrow> map_of ?c n = Some e" for n e
    using ok by (auto simp: map_of_eq_Some_iff image_iff intro: bexI [of _ "(n, e)"])
  moreover have "\<forall>e \<in> set ?es. ce_type e = DeduceType (ce_value e)" using ok(2) by auto
  ultimately show ?thesis by (intro exI [of _ ?es]) (simp add: GetAllJson_def Let_def)
qed

theorem context_listing_witness:
  "\<exists>es. GetAllJson (snd (serve_all ctx_serve [(1, CallSet ''b'' (JBool True) []), (2, CallSet ''a'' JNull ''x'')] [])) =
       JObject [(''count'', JUnsigned 2), (''items'', JArray (map ToJson es))] \<and> map ce_name es = [''a'', ''b'']"
proof -
  let ?calls = "[(1, CallSet ''b'' (JBool True) []), (2, CallSet ''a'' JNull ''x'')]"
  obtain es where es: "GetAllJson (snd (serve_all ctx_serve ?calls [])) =
       JObject [(''count'', JUnsigned (length es)), (''items'', JArray (map ToJson es))]"
    "sorted_wrt (<) (map ce_name es)"
    "\<And>n e. e \<in> set es \<and> ce_name e = n \<longleftrightarrow> map_of (snd (serve_all ctx_serve ?calls [])) n = Some e"
    using context_listing [of ?calls] by blast
  have c: "snd (serve_all ctx_serve ?calls []) =
      [(''a'', \<lparr>ce_name = ''a'', ce_value = JNull, ce_description = ''x'', ce_type = ValueNull, ce_created_at_ms = 2, ce_updated_at_ms = 2\<rparr>),
       (''b'', \<lparr>ce_name = ''b'', ce_value = JBool True, ce_description = [], ce_type = ValueBoolean, ce_created_at_ms = 1, ce_updated_at_ms = 1\<rparr>)]"
    by (simp add: ctx_Set_def SetLocked_def)
  have "set (map ce_name es) = {''a'', ''b''}" (is "?l = ?r")
  proof -
    have "n \<in> ?l \<longleftrightarrow> (\<exists>e. e \<in> set es \<and> ce_name e = n)" for n by auto
    then have "n \<in> ?l \<longleftrightarrow> (\<exists>e. map_of (snd (serve_all ctx_serve ?calls [])) n = Some e)" for n by (simp only: es(3))
    then have m: "n \<in> ?l \<longleftrightarrow> n \<in> ?r" for n unfolding c by (cases "n = ''a''"; cases "n = ''b''") simp_all
    show ?thesis by (rule set_eqI) (rule m)
  qed
  moreover have "''a'' < ''b''" by (simp add: less_char_def)
  ultimately have "map ce_name es = [''a'', ''b'']"
    using es(2) by (intro sorted_distinct_set_unique) (auto simp: strict_sorted_iff)
  moreover from this have "length es = 2" by (metis length_Cons length_map list.size(3) numeral_2_eq_2)
  ultimately show ?thesis using es(1) by auto
qed

section \<open>Integers\<close>

lemma excess_bits_below: "m div 2 ^ excess_bits m < 2 ^ 53"
proof (induction m rule: excess_bits.induct)
  case (1 m)
  then show ?case
    by (cases "m < 2 ^ 53") (simp_all add: excess_bits.simps [of m] div_mult2_eq)
qed

lemma excess_bits_least: "m div 2 ^ k < 2 ^ 53 \<Longrightarrow> excess_bits m \<le> k"
proof (induction m arbitrary: k rule: excess_bits.induct)
  case (1 m)
  show ?case
  proof (cases "m < 2 ^ 53")
    case False
    with 1(2) obtain j where k: "k = Suc j" by (cases k) auto
    then have "m div 2 div 2 ^ j < 2 ^ 53" using 1(2) by (simp add: div_mult2_eq)
    from 1(1) [OF False this] show ?thesis using False by (simp add: excess_bits.simps [of m] k)
  qed (simp add: excess_bits.simps [of m])
qed

lemma round_double_exact: "round_double m = m \<longleftrightarrow> (\<exists>q k. m = q * 2 ^ k \<and> q \<le> 2 ^ 53)"
proof
  let ?k = "excess_bits m"
  let ?q = "m div 2 ^ ?k" and ?r = "m mod 2 ^ ?k"
  have m: "m = ?q * 2 ^ ?k + ?r" and r: "?r < 2 ^ ?k" by (simp_all only: div_mult_mod_eq mod_less_divisor zero_less_power zero_less_numeral)
  {
    assume a: "round_double m = m"
    have "?r = 0"
    proof (cases "2 * ?r > 2 ^ ?k \<or> 2 * ?r = 2 ^ ?k \<and> odd ?q")
      case True
      then have "(?q + 1) * 2 ^ ?k = m" using a by (simp only: round_double_def Let_def if_True)
      then show ?thesis using m r by (simp only: distrib_right)
    next
      case False
      then have "?q * 2 ^ ?k = m" using a by (simp only: round_double_def Let_def if_False)
      then show ?thesis using m by linarith
    qed
    then have "m = ?q * 2 ^ ?k" using m by simp
    with excess_bits_below [of m] show "\<exists>q k. m = q * 2 ^ k \<and> q \<le> 2 ^ 53" by (meson less_imp_le)
  }
  {
    assume "\<exists>q k. m = q * 2 ^ k \<and> q \<le> 2 ^ 53"
    then obtain q0 k0 where q0: "m = q0 * 2 ^ k0" "q0 \<le> 2 ^ 53" by blast
    obtain q k where q: "m = q * 2 ^ k" "q < 2 ^ 53"
    proof (cases "q0 = 2 ^ 53")
      case True
      then have "m = 2 ^ 52 * 2 ^ Suc k0" using q0(1) by simp
      then show ?thesis by (rule that) simp
    qed (use q0 that in auto)
    have "?k \<le> k" using q by (intro excess_bits_least) simp
    then have "2 ^ ?k dvd m" unfolding q(1) by (simp add: le_imp_power_dvd)
    then have "?r = 0" by simp
    then show "round_double m = m" using m by (simp add: round_double_def Let_def)
  }
qed

lemma double_of_int_exact: "double_of_int v = v \<longleftrightarrow> (\<exists>m k. v = m * 2 ^ k \<and> \<bar>m\<bar> \<le> 2 ^ 53)"
proof -
  have "double_of_int v = v \<longleftrightarrow> round_double (nat \<bar>v\<bar>) = nat \<bar>v\<bar>" by (auto simp: double_of_int_def)
  also have "\<dots> \<longleftrightarrow> (\<exists>q k. nat \<bar>v\<bar> = q * 2 ^ k \<and> q \<le> 2 ^ 53)" by (rule round_double_exact)
  also have "\<dots> \<longleftrightarrow> (\<exists>m k. v = m * 2 ^ k \<and> \<bar>m\<bar> \<le> 2 ^ 53)" (is "?l = ?r")
  proof
    assume ?l
    then obtain q k where q: "nat \<bar>v\<bar> = q * 2 ^ k" "q \<le> 2 ^ 53" by blast
    then have "\<bar>v\<bar> = int q * 2 ^ k" by (metis abs_ge_zero int_nat_eq of_nat_mult of_nat_numeral of_nat_power)
    then have "v = (sgn v * int q) * 2 ^ k" using sgn_mult_abs [of v] by (simp add: mult.assoc)
    moreover have "\<bar>sgn v * int q\<bar> \<le> 2 ^ 53" using q(2) by (cases v "0 :: int" rule: linorder_cases) simp_all
    ultimately show ?r by blast
  next
    assume ?r
    then obtain m k where m: "v = m * 2 ^ k" "\<bar>m\<bar> \<le> 2 ^ 53" by blast
    then have "nat \<bar>v\<bar> = nat \<bar>m\<bar> * 2 ^ k" by (simp add: abs_mult nat_mult_distrib nat_power_eq)
    moreover have "nat \<bar>m\<bar> \<le> 2 ^ 53" using m(2) by (simp add: nat_le_iff)
    ultimately show ?l by blast
  qed
  finally show ?thesis .
qed

lemma GetValue_Set: "n \<noteq> [] \<Longrightarrow> GetValue n (snd (ctx_Set now n v d c)) = Some v"
  by (auto simp: GetValue_def ctx_Set_def SetLocked_def map_of_modify split: option.split)

text \<open>C17: Of the integers \<open>SetInt\<close> accepts, \<open>GetInt\<close> gives back exactly those that are a number of at most 53
  binary digits shifted to the left (or the next power of two): the others come back rounded, and from
  \<open>2 ^ 63 - 512\<close> on the conversion is undefined.\<close>

theorem int_roundtrip:
  assumes "name \<noteq> []" "- (2 ^ 63) \<le> v" "v < 2 ^ 63"
  shows "GetInt dbl name dflt (snd (SetInt now name v d c)) = Some v \<longleftrightarrow> (\<exists>m k. v = m * 2 ^ k \<and> \<bar>m\<bar> \<le> 2 ^ 53)"
proof -
  have "GetInt dbl name dflt (snd (SetInt now name v d c)) = int64_of_double (Some (of_int (double_of_int v)))"
    using assms(1) by (simp add: GetInt_def SetInt_def GetValue_Set as_double_def)
  also have "\<dots> = (if - (2 ^ 63) \<le> double_of_int v \<and> double_of_int v < 2 ^ 63 then Some (double_of_int v) else None)"
    by (simp add: int64_of_double_def Let_def)
  also have "\<dots> = Some v \<longleftrightarrow> double_of_int v = v" using assms(2,3) by auto
  finally show ?thesis using double_of_int_exact by simp
qed

theorem int_roundtrip_witness:
  "GetInt (\<lambda>_. None) ''count'' 0 (snd (SetInt 5 ''count'' (3 * 2 ^ 60) [] [])) = Some (3 * 2 ^ 60) \<and>
   GetInt (\<lambda>_. None) ''count'' 0 (snd (SetInt 5 ''count'' 42 [] [])) = Some 42"
proof -
  have "\<exists>m k. (3 * 2 ^ 60 :: int) = m * 2 ^ k \<and> \<bar>m\<bar> \<le> 2 ^ 53" by (intro exI [of _ 3] exI [of _ 60]) simp
  moreover have "\<exists>m k. (42 :: int) = m * 2 ^ k \<and> \<bar>m\<bar> \<le> 2 ^ 53" by (intro exI [of _ 42] exI [of _ 0]) simp
  ultimately show ?thesis
    using int_roundtrip [of "''count''" "3 * 2 ^ 60" "\<lambda>_. None" 0 5 "[]" "[]"]
      int_roundtrip [of "''count''" 42 "\<lambda>_. None" 0 5 "[]" "[]"] by simp
qed

text \<open>The first integer that is lost, and one that cannot be read at all.\<close>

lemma int_lost: "GetInt dbl ''n'' 0 (snd (SetInt 0 ''n'' (2 ^ 53 + 1) [] [])) = Some (2 ^ 53)"
  by (simp add: GetInt_def SetInt_def GetValue_Set as_double_def double_of_int_def round_double_def excess_bits.simps
      int64_of_double_def)

lemma int_undefined: "GetInt dbl ''n'' 0 (snd (SetInt 0 ''n'' (2 ^ 63 - 1) [] [])) = None"
  by (simp add: GetInt_def SetInt_def GetValue_Set as_double_def double_of_int_def round_double_def excess_bits.simps
      int64_of_double_def)

end
