(* ===== verification/ContextApi.thy ===== *)
theory ContextApi
  imports ContextLaws
begin

text \<open>
  The REST handlers of the store, \<open>src/util/my_api/controller/context\<close>, and the response helpers of their base class.
  What oatpp and the JSON library do is a parameter: \<open>mapper\<close> writes the field \<open>value\<close> of a request as text (an
  exception, null or the text), \<open>parse\<close> reads JSON, \<open>fault\<close> is the exception \<open>dump\<close> throws for a response whose
  texts are no UTF-8. A handler that lets an exception out answers \<open>None\<close>. A handler makes its calls to the store
  one after the other without holding its lock.
\<close>

section \<open>Responses\<close>

datatype value_fault = NoMapper | NotSerialised | NotJson | ParseFailed string

datatype handler = GetAllHandler | GetHandler | SetHandler | UpdateHandler | DeleteHandler

datatype api_message =
    AliveMessage
  | MissingName
  | MissingValidName
  | ValueFault value_fault
  | StoreFault context_error
  | SetRefused
  | HandlerOk handler
  | HandlerFailed handler string

record api_response =
  ar_status :: int
  ar_success :: bool
  ar_code :: int
  ar_message :: api_message
  ar_data :: "json option"

type_synonym dump_fault = "api_response \<Rightarrow> string option"

definition mapStatusCode :: "int \<Rightarrow> int" where
  "mapStatusCode code =
     (if code \<in> {200, 201, 202, 204, 400, 401, 403, 404, 409, 413, 422, 503, 500} then code else 500)"

definition jsonResponse :: "dump_fault \<Rightarrow> api_response \<Rightarrow> string + api_response" where
  "jsonResponse fault r = (case fault r of Some what \<Rightarrow> Inl what | None \<Rightarrow> Inr r)"

definition jsonOk :: "dump_fault \<Rightarrow> json \<Rightarrow> api_message \<Rightarrow> string + api_response" where
  "jsonOk fault data msg = jsonResponse fault
     \<lparr>ar_status = 200, ar_success = True, ar_code = 200, ar_message = msg, ar_data = (if data = JNull then None else Some data)\<rparr>"

definition jsonError :: "dump_fault \<Rightarrow> int \<Rightarrow> api_message \<Rightarrow> string + api_response" where
  "jsonError fault code msg = jsonResponse fault
     \<lparr>ar_status = mapStatusCode code, ar_success = False, ar_code = code, ar_message = msg, ar_data = None\<rparr>"

text \<open>The \<open>catch\<close> of every handler.\<close>

definition guarded :: "dump_fault \<Rightarrow> handler \<Rightarrow> string + api_response \<Rightarrow> api_response option" where
  "guarded fault h r =
     (case r of
        Inr x \<Rightarrow> Some x
      | Inl what \<Rightarrow> (case jsonError fault 500 (HandlerFailed h what) of Inr x \<Rightarrow> Some x | Inl _ \<Rightarrow> None))"

section \<open>Handlers\<close>

record name_request =
  rq_name :: "string option"

record 'any write_request = name_request +
  rq_value :: 'any
  rq_description :: "string option"

definition named :: "('more) name_request_scheme option \<Rightarrow> string option" where
  "named req = (case req of None \<Rightarrow> None | Some q \<Rightarrow> (case rq_name q of None \<Rightarrow> None | Some n \<Rightarrow> if n = [] then None else Some (c_str n)))"

definition ConvertAnyToJson ::
    "('any \<Rightarrow> string + string option) option \<Rightarrow> (string \<Rightarrow> json option) \<Rightarrow> 'any \<Rightarrow> value_fault + json" where
  "ConvertAnyToJson mapper parse v =
     (case mapper of
        None \<Rightarrow> Inl NoMapper
      | Some write \<Rightarrow>
          (case write v of
             Inl what \<Rightarrow> Inl (ParseFailed what)
           | Inr None \<Rightarrow> Inl NotSerialised
           | Inr (Some t) \<Rightarrow> (case parse (c_str t) of None \<Rightarrow> Inl NotJson | Some j \<Rightarrow> Inr j)))"

definition given_description :: "'any write_request \<Rightarrow> string option" where
  "given_description q = (case rq_description q of None \<Rightarrow> None | Some d \<Rightarrow> if d = [] then None else Some (c_str d))"

definition entry_or_null :: "string \<Rightarrow> contexts \<Rightarrow> json" where
  "entry_or_null name c = (case GetEntryJson name c of None \<Rightarrow> JNull | Some j \<Rightarrow> j)"

definition getOnline :: "dump_fault \<Rightarrow> string + api_response" where
  "getOnline fault = jsonOk fault (JObject [(''status'', JString ''alive'')]) AliveMessage"

definition getAllContext :: "dump_fault \<Rightarrow> contexts \<Rightarrow> api_response option" where
  "getAllContext fault c = guarded fault GetAllHandler (jsonOk fault (GetAllJson c) (HandlerOk GetAllHandler))"

definition getContext :: "dump_fault \<Rightarrow> name_request option \<Rightarrow> contexts \<Rightarrow> api_response option" where
  "getContext fault req c = guarded fault GetHandler
     (case named req of
        None \<Rightarrow> jsonError fault 400 MissingName
      | Some name \<Rightarrow>
          (case GetEntryJson name c of
             None \<Rightarrow> jsonError fault 404 (StoreFault (NoContext name))
           | Some j \<Rightarrow> jsonOk fault j (HandlerOk GetHandler)))"

definition setContext ::
    "dump_fault \<Rightarrow> ('any \<Rightarrow> string + string option) option \<Rightarrow> (string \<Rightarrow> json option) \<Rightarrow> int \<Rightarrow> 'any write_request option \<Rightarrow>
     contexts \<Rightarrow> api_response option \<times> contexts" where
  "setContext fault mapper parse now req c =
     (case (req, named req) of
        (Some q, Some name) \<Rightarrow>
          (case ConvertAnyToJson mapper parse (rq_value q) of
             Inl e \<Rightarrow> (guarded fault SetHandler (jsonError fault 400 (ValueFault e)), c)
           | Inr v \<Rightarrow>
               (case ctx_Set now name v (case given_description q of None \<Rightarrow> [] | Some d \<Rightarrow> d) c of
                  (False, c) \<Rightarrow> (guarded fault SetHandler (jsonError fault 500 SetRefused), c)
                | (True, c) \<Rightarrow> (guarded fault SetHandler (jsonOk fault (entry_or_null name c) (HandlerOk SetHandler)), c)))
      | _ \<Rightarrow> (guarded fault SetHandler (jsonError fault 400 MissingValidName), c))"

definition updateContext ::
    "dump_fault \<Rightarrow> ('any \<Rightarrow> string + string option) option \<Rightarrow> (string \<Rightarrow> json option) \<Rightarrow> int \<Rightarrow> 'any write_request option \<Rightarrow>
     contexts \<Rightarrow> api_response option \<times> contexts" where
  "updateContext fault mapper parse now req c =
     (case (req, named req) of
        (Some q, Some name) \<Rightarrow>
          (case ConvertAnyToJson mapper parse (rq_value q) of
             Inl e \<Rightarrow> (guarded fault UpdateHandler (jsonError fault 400 (ValueFault e)), c)
           | Inr v \<Rightarrow>
               (case UpdateValue now name v c of
                  (Inl e, c) \<Rightarrow> (guarded fault UpdateHandler (jsonError fault 404 (StoreFault e)), c)
                | (Inr _, c) \<Rightarrow>
                    let c = (case given_description q of None \<Rightarrow> c | Some d \<Rightarrow> snd (UpdateDescription now name d c))
                    in (guarded fault UpdateHandler (jsonOk fault (entry_or_null name c) (HandlerOk UpdateHandler)), c)))
      | _ \<Rightarrow> (guarded fault UpdateHandler (jsonError fault 400 MissingValidName), c))"

definition deleteContext :: "dump_fault \<Rightarrow> name_request option \<Rightarrow> contexts \<Rightarrow> api_response option \<times> contexts" where
  "deleteContext fault req c =
     (case named req of
        None \<Rightarrow> (guarded fault DeleteHandler (jsonError fault 400 MissingName), c)
      | Some name \<Rightarrow>
          (case Erase name c of
             (False, c) \<Rightarrow> (guarded fault DeleteHandler (jsonError fault 404 (StoreFault (NoContext name))), c)
           | (True, c) \<Rightarrow> (guarded fault DeleteHandler (jsonOk fault (JObject []) (HandlerOk DeleteHandler)), c)))"

section \<open>Properties\<close>

lemma guarded_ok: "fault r = None \<Longrightarrow> guarded fault h (jsonResponse fault r) = Some r"
  by (simp add: guarded_def jsonResponse_def)

lemma GetEntryJson_Set: "n \<noteq> [] \<Longrightarrow> GetEntryJson n (snd (ctx_Set now n v d c)) \<noteq> None"
  by (auto simp: GetEntryJson_def GetEntry_def ctx_Set_def SetLocked_def map_of_modify split: option.split)

definition answered :: "int \<Rightarrow> api_response option \<Rightarrow> bool" where
  "answered code r \<longleftrightarrow> (\<exists>x. r = Some x \<and> ar_status x = code)"

text \<open>With texts that can be printed, \<open>setContext\<close> answers 400 exactly for a request without a name or with a value
  that is no JSON, 500 exactly for a name that is empty up to its first null character, and 200 otherwise; it changes
  the store only with 200, and then the entry it shows is the one \<open>getContext\<close> shows next.\<close>

theorem set_context_outcome:
  assumes "\<And>r. fault r = None"
  shows "case setContext fault mapper parse now (Some q) c of (r, c') \<Rightarrow>
    (answered 400 r \<longleftrightarrow> named (Some q) = None \<or> (\<exists>e. ConvertAnyToJson mapper parse (rq_value q) = Inl e)) \<and>
    (answered 500 r \<longleftrightarrow> named (Some q) = Some [] \<and> (\<exists>v. ConvertAnyToJson mapper parse (rq_value q) = Inr v)) \<and>
    (\<not> answered 400 r \<and> \<not> answered 500 r \<longrightarrow> answered 200 r \<and>
       map_option ar_data r = map_option ar_data (getContext fault (Some \<lparr>rq_name = rq_name q\<rparr>) c')) \<and>
    (\<not> answered 200 r \<longrightarrow> c' = c)"
proof -
  have ok: "guarded fault h (jsonOk fault j m) = Some \<lparr>ar_status = 200, ar_success = True, ar_code = 200, ar_message = m,
      ar_data = (if j = JNull then None else Some j)\<rparr>"
    "guarded fault h (jsonError fault code m) = Some \<lparr>ar_status = mapStatusCode code, ar_success = False, ar_code = code,
      ar_message = m, ar_data = None\<rparr>" for h j m code
    using assms by (simp_all add: jsonOk_def jsonError_def guarded_ok)
  have same: "named (Some \<lparr>rq_name = rq_name q\<rparr>) = named (Some q)" by (simp add: named_def)
  show ?thesis
  proof (cases "named (Some q)")
    case None
    then show ?thesis by (simp add: setContext_def ok answered_def mapStatusCode_def)
  next
    case (Some name)
    show ?thesis
    proof (cases "ConvertAnyToJson mapper parse (rq_value q)")
      case (Inl e)
      then show ?thesis using Some by (simp add: setContext_def ok answered_def mapStatusCode_def)
    next
      case (Inr v)
      show ?thesis
      proof (cases "name = []")
        case True
        then show ?thesis using Some Inr by (simp add: setContext_def ok answered_def mapStatusCode_def ctx_Set_def)
      next
        case False
        let ?d = "case given_description q of None \<Rightarrow> [] | Some d \<Rightarrow> d"
        obtain c' where c': "ctx_Set now name v ?d c = (True, c')" using False by (simp add: ctx_Set_def)
        then obtain j where "GetEntryJson name c' = Some j" using GetEntryJson_Set [OF False, of now v ?d c] by auto
        then show ?thesis
          using Some Inr False same c'
          by (simp add: setContext_def getContext_def ok answered_def mapStatusCode_def entry_or_null_def)
      qed
    qed
  qed
qed

theorem set_context_outcome_witness:
  "answered 200 (fst (setContext (\<lambda>_. None) (Some (\<lambda>t. Inr (Some t)))
     (\<lambda>t. if t = ''1'' then Some (JUnsigned 1) else None) 9
     (Some \<lparr>rq_name = Some ''led'', rq_value = ''1'', rq_description = None\<rparr>) []))"
  using set_context_outcome [where fault = "\<lambda>_. None" and mapper = "Some (\<lambda>t. Inr (Some t))" and
      parse = "\<lambda>t. if t = ''1'' then Some (JUnsigned 1) else None" and now = 9 and
      q = "\<lparr>rq_name = Some ''led'', rq_value = ''1'', rq_description = None\<rparr>" and c = "[]"]
  by (simp add: named_def c_str_def ConvertAnyToJson_def split: prod.splits)

text \<open>A description that cannot be printed is stored all the same: the request that brings it and every listing after it
  answer 500 until the entry is deleted.\<close>

lemma bad_text_blocks_listing:
  assumes "\<And>r. ar_data r = Some (GetAllJson c) \<Longrightarrow> fault r = Some what" "\<And>r. ar_data r = None \<Longrightarrow> fault r = None"
  shows "answered 500 (getAllContext fault c)"
  using assms by (simp add: getAllContext_def guarded_def jsonOk_def jsonError_def jsonResponse_def GetAllJson_def Let_def answered_def mapStatusCode_def)

end
