(* ===== verification/IpTools.thy ===== *)
theory IpTools
  imports TextLines "HOL-Library.List_Lexorder" "HOL-Library.Char_ord"
begin

text \<open>
  The address helpers \<open>src/util/my_tools/MyIPTools.cpp\<close>: the texts of IPv4 addresses and networks, the interfaces of the
  machine, the netlink request that adds or removes an address, the checksum and the echo request of a ping, and the
  hosts of a network. An address is a word in host order; the machine is little endian, as the targets are. The answers
  of system calls are arguments. The Chinese texts of results and the log output are left out.
\<close>

section \<open>Addresses as text\<close>

text \<open>\<open>inet_ntop\<close> and \<open>inet_pton\<close> for \<open>AF_INET\<close>: four decimal numbers without leading zeros.\<close>

fun split_dots :: "string \<Rightarrow> string list" where
  "split_dots [] = [[]]"
| "split_dots (c # s) =
     (if c = CHR ''.'' then [] # split_dots s
      else case split_dots s of w # ws \<Rightarrow> (c # w) # ws | [] \<Rightarrow> [[c]])"

definition octet :: "string \<Rightarrow> u32 option" where
  "octet s =
     (if s \<noteq> [] \<and> list_all cisdigit s \<and> (hd s = CHR ''0'' \<longrightarrow> length s = 1) \<and> decimal 0 s \<le> 255
      then Some (of_nat (decimal 0 s)) else None)"

definition address :: "u32 \<Rightarrow> u32 \<Rightarrow> u32 \<Rightarrow> u32 \<Rightarrow> u32" where
  "address a b c d = push_bit 24 a OR push_bit 16 b OR push_bit 8 c OR d"

definition inet_pton :: "string \<Rightarrow> u32 option" where
  "inet_pton s =
     (case split_dots s of
        [a, b, c, d] \<Rightarrow>
          (case (octet a, octet b, octet c, octet d) of
             (Some a, Some b, Some c, Some d) \<Rightarrow> Some (address a b c d)
           | _ \<Rightarrow> None)
      | _ \<Rightarrow> None)"

definition octet_text :: "u32 \<Rightarrow> nat \<Rightarrow> string" where
  "octet_text h k = nat_to_string (unat (byte_at h k))"

definition inet_ntop :: "u32 \<Rightarrow> string" where
  "inet_ntop h = octet_text h 3 @ ''.'' @ octet_text h 2 @ ''.'' @ octet_text h 1 @ ''.'' @ octet_text h 0"

section \<open>Interfaces\<close>

datatype IPErrorCode =
  kSuccess | kInvalidCIDR | kInterfaceNotFound | kPermissionDenied | kSystemError | kIPAlreadyExists | kIPNotFound

record IPInfo =
  ip_interface :: string
  ip_text :: string
  ip_prefix_len :: int

datatype sockaddr = Inet u32 | OtherFamily

record ifaddr =
  ifa_name :: "string option"
  ifa_up :: bool
  ifa_loopback :: bool
  ifa_addr :: "sockaddr option"
  ifa_netmask :: "u32 option"

text \<open>The loops skip what has no IPv4 address or is down.\<close>

definition inet_of :: "ifaddr \<Rightarrow> u32 option" where
  "inet_of i = (case ifa_addr i of Some (Inet a) \<Rightarrow> if ifa_up i then Some a else None | _ \<Rightarrow> None)"

fun local_loop :: "bool \<Rightarrow> ifaddr list \<Rightarrow> string \<Rightarrow> string \<Rightarrow> string \<times> string" where
  "local_loop prefer [] loopback selected = (loopback, selected)"
| "local_loop prefer (i # is) loopback selected =
     (case inet_of i of
        None \<Rightarrow> local_loop prefer is loopback selected
      | Some a \<Rightarrow>
          if \<not> ifa_loopback i then
            (if prefer then (loopback, inet_ntop a) else local_loop prefer is loopback (inet_ntop a))
          else local_loop prefer is (if loopback = [] then inet_ntop a else loopback) selected)"

definition GetLocalIPv4 :: "bool \<Rightarrow> ifaddr list option \<Rightarrow> string" where
  "GetLocalIPv4 prefer interfaces =
     (case interfaces of
        None \<Rightarrow> ''127.0.0.1''
      | Some is \<Rightarrow>
          (case local_loop prefer is ''127.0.0.1'' [] of
             (loopback, selected) \<Rightarrow>
               if selected \<noteq> [] then selected else if loopback \<noteq> [] then loopback else ''127.0.0.1''))"

definition add_interface :: "ifaddr \<Rightarrow> string list \<Rightarrow> string list" where
  "add_interface i result =
     (case ifa_name i of
        None \<Rightarrow> result
      | Some name \<Rightarrow> if ifa_up i \<and> \<not> ifa_loopback i \<and> name \<notin> set result then result @ [name] else result)"

definition GetAllInterfaces :: "ifaddr list option \<Rightarrow> string list" where
  "GetAllInterfaces interfaces = (case interfaces of None \<Rightarrow> [] | Some is \<Rightarrow> fold add_interface is [])"

lemma top_bit: "(m AND 0x80000000 \<noteq> 0) = bit (m :: u32) 31"
  using and_exp_eq_0_iff_not_bit [of m 31] by simp

lemma shift_out: "bit (m :: u32) 31 \<Longrightarrow> unat (push_bit 1 m) < unat m"
proof -
  assume b: "bit m 31"
  have m: "2 ^ 31 \<le> unat m"
  proof (rule ccontr)
    assume "\<not> 2 ^ 31 \<le> unat m"
    then have "unat m div 2 ^ 31 = 0" by simp
    moreover have "bit (unat m) 31" using b by (simp add: bit_unsigned_iff)
    ultimately show False by (simp add: bit_iff_odd)
  qed
  have "unat (push_bit n m) = unat m * 2 ^ n mod 2 ^ 32" for n
  proof -
    have "unat (push_bit n m) = take_bit 32 (push_bit n (unat m))" by (simp only: unsigned_push_bit_eq) simp
    then show ?thesis by (simp only: take_bit_eq_mod push_bit_eq_mult)
  qed
  from this [of 1] have "unat (push_bit 1 m) = unat m * 2 mod 2 ^ 32" by (simp only: power_one_right)
  moreover have less: "unat m < 2 ^ 32" using unsigned_less [of m] by simp
  moreover have "unat m * 2 mod 2 ^ 32 = unat m * 2 - 2 ^ 32"
  proof -
    have "unat m * 2 mod 2 ^ 32 = (unat m * 2 - 2 ^ 32) mod 2 ^ 32" by (rule le_mod_geq) (use m in simp)
    also have "\<dots> = unat m * 2 - 2 ^ 32" by (rule mod_less) (use less in simp)
    finally show ?thesis .
  qed
  ultimately show ?thesis using m by simp
qed

text \<open>The loop over the mask shifts it left while its top bit is set, which makes its value smaller.\<close>

function prefix_loop :: "u32 \<Rightarrow> int \<Rightarrow> int" where
  "prefix_loop m n = (if m AND 0x80000000 \<noteq> 0 then prefix_loop (push_bit 1 m) (n + 1) else n)"
  by pat_completeness auto
termination
  by (relation "measure (\<lambda>(m, _). unat m)") (simp_all only: top_bit wf_measure in_measure prod.case shift_out)

definition prefix_of :: "u32 option \<Rightarrow> int" where
  "prefix_of netmask = (case netmask of None \<Rightarrow> 0 | Some m \<Rightarrow> prefix_loop m 0)"

definition ip_info :: "bool \<Rightarrow> ifaddr \<Rightarrow> IPInfo option" where
  "ip_info include_loopback i =
     (case inet_of i of
        None \<Rightarrow> None
      | Some a \<Rightarrow>
          if \<not> include_loopback \<and> ifa_loopback i then None
          else Some \<lparr>ip_interface = (case ifa_name i of None \<Rightarrow> [] | Some n \<Rightarrow> n), ip_text = inet_ntop a,
                     ip_prefix_len = prefix_of (ifa_netmask i)\<rparr>)"

definition GetAllIPs :: "bool \<Rightarrow> ifaddr list option \<Rightarrow> IPInfo list" where
  "GetAllIPs include_loopback interfaces =
     (case interfaces of None \<Rightarrow> [] | Some is \<Rightarrow> List.map_filter (ip_info include_loopback) is)"

section \<open>Networks as text\<close>

text \<open>\<open>None\<close> is a text that is refused; \<open>std::stoi\<close> throws when the digits do not fit an \<open>int\<close>.\<close>

definition ParseCIDR :: "string \<Rightarrow> cxx_error + (string \<times> int) option" where
  "ParseCIDR cidr =
     (case find_char CHR ''/'' cidr of
        None \<Rightarrow> Inr None
      | Some pos \<Rightarrow>
          if pos = 0 \<or> pos = length cidr - 1 then Inr None
          else
            let ip = take pos cidr; prefix_str = drop (pos + 1) cidr in
            if \<not> list_all cisdigit prefix_str then Inr None
            else (case int_of_text prefix_str of
                    None \<Rightarrow> Inl OutOfRange
                  | Some prefix_len \<Rightarrow>
                      if prefix_len < 0 \<or> prefix_len > 32 then Inr None
                      else if inet_pton (c_str ip) = None then Inr None
                      else Inr (Some (ip, prefix_len))))"

definition IsValidCIDR :: "string \<Rightarrow> cxx_error + bool" where
  "IsValidCIDR cidr = ebind (ParseCIDR cidr) (\<lambda>r. Inr (r \<noteq> None))"

section \<open>Adding and removing an address\<close>

text \<open>The answers of the system: the index of an interface (0 for none), the error numbers of \<open>socket\<close>, \<open>bind\<close> and
  \<open>send\<close>, and what \<open>recv\<close> gives.\<close>

record netlink =
  nl_index :: "string \<Rightarrow> u32"
  nl_socket :: "int option"
  nl_bind :: "int option"
  nl_send :: "byte list \<Rightarrow> int option"
  nl_recv :: "int + byte list"

definition InterfaceExists :: "netlink \<Rightarrow> string \<Rightarrow> bool" where
  "InterfaceExists io name \<longleftrightarrow> nl_index io (c_str name) \<noteq> 0"

definition le_bytes :: "nat \<Rightarrow> 'a::len word \<Rightarrow> byte list" where
  "le_bytes n v = map (byte_at v) [0..<n]"

definition le_word :: "byte list \<Rightarrow> 'a::len word" where
  "le_word bs = foldr (\<lambda>b w. ucast b OR push_bit 8 w) bs 0"

definition network_bytes :: "u32 \<Rightarrow> byte list" where
  "network_bytes h = rev (le_bytes 4 h)"

definition put_bytes :: "nat \<Rightarrow> byte list \<Rightarrow> byte list \<Rightarrow> byte list" where
  "put_bytes off bs buf = take off buf @ bs @ drop (off + length bs) buf"

definition align4 :: "nat \<Rightarrow> nat" where
  "align4 n = (n + 3) div 4 * 4"

text \<open>An attribute: its length and type, then the data, at the aligned end of the message.\<close>

definition add_attribute :: "u16 \<Rightarrow> byte list \<Rightarrow> nat \<times> byte list \<Rightarrow> nat \<times> byte list" where
  "add_attribute rta_type dat msg =
     (case msg of (len, buf) \<Rightarrow>
        (align4 len + 4 + length dat,
         put_bytes (align4 len) (le_bytes 2 (of_nat (4 + length dat) :: u16) @ le_bytes 2 rta_type @ dat) buf))"

definition netlink_request :: "bool \<Rightarrow> u32 \<Rightarrow> int \<Rightarrow> u32 \<Rightarrow> byte list" where
  "netlink_request is_add if_index prefix_len addr =
     (let buf = replicate 280 0;
          buf = put_bytes 4 (le_bytes 2 (if is_add then 20 else 21 :: u16)) buf;
          buf = put_bytes 6 (le_bytes 2 (if is_add then 0x605 else 0x005 :: u16)) buf;
          buf = put_bytes 8 (le_bytes 4 (1 :: u32)) buf;
          buf = put_bytes 16 [2, word_of_int prefix_len, 0, 0] buf;
          buf = put_bytes 20 (le_bytes 4 if_index) buf;
          (len, buf) = add_attribute 1 (network_bytes addr) (add_attribute 2 (network_bytes addr) (24, buf))
      in take len (put_bytes 0 (le_bytes 4 (of_nat len :: u32)) buf))"

text \<open>The answer is read into 4096 zero bytes.\<close>

definition response_code :: "byte list \<Rightarrow> IPErrorCode" where
  "response_code bs =
     (let buf = take 4096 (bs @ replicate 4096 0);
          error = sint (le_word (take 4 (drop 16 buf)) :: u32)
      in if (le_word (take 2 (drop 4 buf)) :: u16) \<noteq> 2 then kSuccess
         else if error = 0 then kSuccess
         else if error = - 17 then kIPAlreadyExists
         else if error = - 99 then kIPNotFound
         else if error = - 1 \<or> error = - 13 then kPermissionDenied
         else kSystemError)"

definition errno_code :: "int \<Rightarrow> IPErrorCode" where
  "errno_code e = (if e = 1 \<or> e = 13 then kPermissionDenied else kSystemError)"

definition ModifyIP :: "netlink \<Rightarrow> string \<Rightarrow> string \<Rightarrow> int \<Rightarrow> bool \<Rightarrow> IPErrorCode" where
  "ModifyIP io name ip prefix_len is_add =
     (let if_index = nl_index io (c_str name) in
      if if_index = 0 then kInterfaceNotFound
      else case inet_pton (c_str ip) of
        None \<Rightarrow> kInvalidCIDR
      | Some addr \<Rightarrow>
          (case nl_socket io of
             Some e \<Rightarrow> errno_code e
           | None \<Rightarrow>
               (case nl_bind io of
                  Some _ \<Rightarrow> kSystemError
                | None \<Rightarrow>
                    (case nl_send io (netlink_request is_add if_index prefix_len addr) of
                       Some e \<Rightarrow> errno_code e
                     | None \<Rightarrow> (case nl_recv io of Inl _ \<Rightarrow> kSystemError | Inr bs \<Rightarrow> response_code bs)))))"

definition change_ip :: "bool \<Rightarrow> netlink \<Rightarrow> string \<Rightarrow> string \<Rightarrow> cxx_error + IPErrorCode" where
  "change_ip is_add io name cidr =
     ebind (ParseCIDR cidr) (\<lambda>r.
       case r of
         None \<Rightarrow> Inr kInvalidCIDR
       | Some (ip, prefix_len) \<Rightarrow>
           if \<not> InterfaceExists io name then Inr kInterfaceNotFound
           else Inr (ModifyIP io name ip prefix_len is_add))"

definition AddIP :: "netlink \<Rightarrow> string \<Rightarrow> string \<Rightarrow> cxx_error + IPErrorCode" where
  "AddIP = change_ip True"

definition DeleteIP :: "netlink \<Rightarrow> string \<Rightarrow> string \<Rightarrow> cxx_error + IPErrorCode" where
  "DeleteIP = change_ip False"

section \<open>The ping\<close>

fun checksum_sum :: "byte list \<Rightarrow> u32 \<Rightarrow> u32" where
  "checksum_sum (a # b # bs) acc = checksum_sum bs (acc + (ucast a OR push_bit 8 (ucast b)))"
| "checksum_sum [a] acc = acc + ucast a"
| "checksum_sum [] acc = acc"

lemma unat_drop: "unat (drop_bit n (w :: u32)) = unat w div 2 ^ n"
  by (subst unat_drop_bit_eq) (rule drop_bit_eq_div)

lemma fold_carry: "unat ((s AND 0xFFFF) + drop_bit 16 (s :: u32)) = unat s mod 2 ^ 16 + unat s div 2 ^ 16"
proof -
  have a: "unat (s AND 0xFFFF) = unat s mod 2 ^ 16"
  proof -
    have "(0xFFFF :: u32) = mask 16" by (simp add: mask_eq_exp_minus_1)
    moreover have "unat (take_bit 16 s) = unat s mod 2 ^ 16" by (subst unsigned_take_bit_eq) (rule take_bit_eq_mod)
    ultimately show ?thesis by (simp only: take_bit_eq_mask)
  qed
  have d: "unat (drop_bit 16 s) = unat s div 2 ^ 16" by (rule unat_drop)
  have "unat s < 2 ^ 32" using unsigned_less [of s] by simp
  then have "unat s mod 2 ^ 16 + unat s div 2 ^ 16 < 2 ^ 32" by simp
  then show ?thesis by (simp add: unat_word_ariths a d)
qed

function fold_carries :: "u32 \<Rightarrow> u32" where
  "fold_carries s = (if drop_bit 16 s \<noteq> 0 then fold_carries ((s AND 0xFFFF) + drop_bit 16 s) else s)"
  by pat_completeness auto
termination
proof (relation "measure unat")
  fix s :: u32
  assume "drop_bit 16 s \<noteq> 0"
  then have "unat (drop_bit 16 s) \<noteq> 0" by (simp only: unsigned_eq_0_iff not_False_eq_True)
  then have "unat s div 2 ^ 16 \<noteq> 0" by (simp only: unat_drop not_False_eq_True)
  moreover have "unat s = unat s div 2 ^ 16 * 2 ^ 16 + unat s mod 2 ^ 16" by (rule div_mult_mod_eq [symmetric])
  moreover have "m + d < x" if "d \<noteq> 0" "x = d * 2 ^ 16 + m" for m d x :: nat using that by simp
  ultimately have "unat s mod 2 ^ 16 + unat s div 2 ^ 16 < unat s" by blast
  then show "((s AND 0xFFFF) + drop_bit 16 s, s) \<in> measure unat" by (simp only: in_measure fold_carry)
qed simp

declare fold_carries.simps [simp del]

definition ComputeICMPChecksum :: "byte list \<Rightarrow> u16" where
  "ComputeICMPChecksum bs = ucast (NOT (fold_carries (checksum_sum bs 0)))"

definition echo_request :: "u16 \<Rightarrow> u16 \<Rightarrow> byte list" where
  "echo_request ident seq =
     (let fields = le_bytes 2 ident @ le_bytes 2 seq;
          checksum = ComputeICMPChecksum ([8, 0, 0, 0] @ fields)
      in [8, 0] @ le_bytes 2 checksum @ fields)"

text \<open>The wait for an answer: each \<open>recvfrom\<close> fails (or times out) or brings a packet and its sender, and the clock says
  whether the deadline has passed. \<open>None\<close> is not having returned yet. The sequence number plays no part.\<close>

definition echo_reply :: "u16 \<Rightarrow> u32 \<Rightarrow> byte list \<Rightarrow> u32 \<Rightarrow> bool" where
  "echo_reply ident dest bs from \<longleftrightarrow>
     (let header = 4 * unat (bs ! 0 AND 0x0F) in
      28 \<le> length bs \<and> header + 8 \<le> length bs \<and> bs ! header = 0 \<and>
      take 2 (drop (header + 4) bs) = le_bytes 2 ident \<and> from = dest)"

fun ping_loop :: "u16 \<Rightarrow> u32 \<Rightarrow> ((byte list \<times> u32) option \<times> bool) list \<Rightarrow> bool option" where
  "ping_loop ident dest [] = None"
| "ping_loop ident dest ((None, late) # rs) = Some False"
| "ping_loop ident dest ((Some (bs, from), late) # rs) =
     (if late then Some False
      else if echo_reply ident dest (take 256 bs) from then Some True
      else ping_loop ident dest rs)"

definition PingHost ::
    "bool \<Rightarrow> (byte list \<Rightarrow> u32 \<Rightarrow> bool) \<Rightarrow> u16 \<Rightarrow> u16 \<Rightarrow> ((byte list \<times> u32) option \<times> bool) list \<Rightarrow> string \<Rightarrow> bool option" where
  "PingHost socket_ok send_ok pid seq answers ip =
     (if \<not> socket_ok then Some False
      else case inet_pton (c_str ip) of
        None \<Rightarrow> Some False
      | Some dest \<Rightarrow>
          if \<not> send_ok (echo_request pid seq) dest then Some False else ping_loop pid dest answers)"

section \<open>The hosts of a network\<close>

text \<open>The loop from the first to the last host; it ends since the last is below the broadcast address.\<close>

definition subnet_mask :: "int \<Rightarrow> u32" where
  "subnet_mask prefix_len = (if prefix_len = 0 then 0 else push_bit (nat (32 - prefix_len)) (NOT 0))"

definition subnet_hosts :: "u32 \<Rightarrow> int \<Rightarrow> u32 list" where
  "subnet_hosts ip_host prefix_len =
     (let network = ip_host AND subnet_mask prefix_len;
          broadcast = network OR NOT (subnet_mask prefix_len);
          first_host = network + 1;
          last_host = broadcast - 1
      in if first_host > last_host then []
         else map of_nat [unat first_host ..< unat last_host + 1])"

definition GenerateSubnetIPs :: "string \<Rightarrow> int \<Rightarrow> string list" where
  "GenerateSubnetIPs ip prefix_len =
     (if prefix_len < 20 \<or> prefix_len > 30 then []
      else case inet_pton (c_str ip) of
        None \<Rightarrow> []
      | Some addr \<Rightarrow> map inet_ntop (subnet_hosts addr prefix_len))"

end
