(* ===== verification/IpLaws.thy ===== *)
theory IpLaws
  imports IpTools
begin

text \<open>
  The laws of the address helpers: texts and addresses correspond one to one, which networks are accepted and which
  texts make the parser throw, the checksum of an echo request is the one a receiver accepts, and the hosts of a network
  are exactly its addresses without the first and the last.
\<close>

section \<open>Addresses\<close>

lemma split_dots_word: "CHR ''.'' \<notin> set w \<Longrightarrow> split_dots (w @ CHR ''.'' # s) = w # split_dots s"
  by (induction w) auto

lemma split_dots_last: "CHR ''.'' \<notin> set w \<Longrightarrow> split_dots w = [w]"
  by (induction w) auto

fun join_dots :: "string list \<Rightarrow> string" where
  "join_dots [] = []"
| "join_dots [w] = w"
| "join_dots (w # ws) = w @ CHR ''.'' # join_dots ws"

lemma split_dots_nonempty: "split_dots s \<noteq> []"
  by (induction s) (auto split: list.split)

lemma join_split_dots: "join_dots (split_dots s) = s"
proof (induction s)
  case (Cons c s)
  obtain w ws where "split_dots s = w # ws" using split_dots_nonempty [of s] by (cases "split_dots s") auto
  with Cons show ?case by (cases ws) auto
qed simp

lemma nat_to_string_snoc: "d < 10 \<Longrightarrow> 0 < n \<Longrightarrow> nat_to_string (10 * n + d) = nat_to_string n @ [char_of (48 + d)]"
proof -
  assume a: "d < 10" "0 < n"
  have "nat_to_string m = nat_to_string (m div 10) @ [char_of (48 + m mod 10)]" if "\<not> m < 10" for m
    by (subst nat_to_string.simps) (simp only: that if_False)
  moreover have "\<not> 10 * n + d < 10" "(10 * n + d) div 10 = n" "(10 * n + d) mod 10 = d" using a by simp_all
  ultimately show ?thesis by metis
qed

lemma canonical_decimal:
  "s \<noteq> [] \<Longrightarrow> list_all cisdigit s \<Longrightarrow> hd s = CHR ''0'' \<longrightarrow> length s = 1 \<Longrightarrow> nat_to_string (decimal 0 s) = s"
proof (induction s rule: rev_induct)
  case (snoc c s)
  define d where "d = (of_char c :: nat) - 48"
  have d: "d < 10" "c = char_of (48 + d)" using snoc.prems by (auto simp: d_def cisdigit_def Let_def)
  have v: "decimal 0 (s @ [c]) = 10 * decimal 0 s + d" by (simp add: decimal_append d_def)
  show ?case
  proof (cases "s = []")
    case True
    have "nat_to_string d = [char_of (48 + d)]" by (subst nat_to_string.simps) (simp only: d(1) if_True)
    then show ?thesis unfolding v by (simp add: True d(2) [symmetric])
  next
    case False
    then have h: "hd s \<noteq> CHR ''0''" using snoc.prems by (cases s) auto
    then have IH: "nat_to_string (decimal 0 s) = s" using snoc False by simp
    have "decimal 0 s \<noteq> 0"
    proof
      assume "decimal 0 s = 0"
      with IH have "s = nat_to_string 0" by simp
      moreover have "char_of (48 :: nat) = CHR ''0''" by (simp add: char_of_def bit_iff_odd)
      ultimately show False using h by (simp add: nat_to_string.simps [of 0])
    qed
    then have "nat_to_string (10 * decimal 0 s + d) = nat_to_string (decimal 0 s) @ [char_of (48 + d)]"
      using d(1) by (intro nat_to_string_snoc) simp_all
    then show ?thesis by (simp only: v IH d(2) [symmetric])
  qed
qed simp

lemma nat_to_string_head: "hd (nat_to_string n) = CHR ''0'' \<Longrightarrow> length (nat_to_string n) = 1"
proof (induction n rule: nat_to_string.induct)
  case (1 n)
  show ?case
  proof (cases "n < 10")
    case False
    have ne: "nat_to_string (n div 10) \<noteq> []" using nat_to_string_digits by blast
    have "hd (nat_to_string (n div 10)) = CHR ''0''" using 1(2) False ne by (simp add: nat_to_string.simps [of n])
    then have l: "length (nat_to_string (n div 10)) = 1" using 1(1) False by simp
    have "10 * (n div 10) \<noteq> 0" using False by simp
    moreover have "nat_to_string (n div 10) = [CHR ''0'']"
      using l \<open>hd (nat_to_string (n div 10)) = CHR ''0''\<close> by (cases "nat_to_string (n div 10)") auto
    then have "decimal 0 (nat_to_string (n div 10)) = 0" by simp
    ultimately show ?thesis by (simp add: decimal_nat_to_string)
  qed (simp add: nat_to_string.simps [of n])
qed

lemma octet_nat: "n \<le> 255 \<Longrightarrow> octet (nat_to_string n) = Some (of_nat n)"
  using nat_to_string_digits [of n] nat_to_string_head [of n] by (auto simp: octet_def decimal_nat_to_string)

lemma octet_text: "octet s = Some v \<Longrightarrow> unat v \<le> 255 \<and> s = nat_to_string (unat v)"
proof -
  assume "octet s = Some v"
  then have a: "s \<noteq> []" "list_all cisdigit s" "hd s = CHR ''0'' \<longrightarrow> length s = 1" "decimal 0 s \<le> 255" "v = of_nat (decimal 0 s)"
    by (auto simp: octet_def split: if_splits)
  from a(4,5) have "unat v = decimal 0 s" by (simp add: unat_of_nat)
  with canonical_decimal [OF a(1-3)] a(4) show ?thesis by simp
qed

lemma no_dot: "CHR ''.'' \<notin> set (nat_to_string n)"
  using nat_to_string_digits [of n] by (auto simp: list_all_iff cisdigit_def Let_def)

lemma no_null: "CHR 0x00 \<notin> set (inet_ntop h)"
proof -
  have "CHR 0x00 \<notin> set (nat_to_string n)" for n
    using nat_to_string_digits [of n] by (auto simp: list_all_iff cisdigit_def Let_def)
  then show ?thesis by (simp add: inet_ntop_def octet_text_def)
qed

lemma c_str_text: "c_str (inet_ntop h) = inet_ntop h"
  using no_null by (auto simp: c_str_def takeWhile_eq_all_conv)

lemma address_bytes:
  assumes "unat a \<le> 255" "unat b \<le> 255" "unat c \<le> 255" "unat d \<le> 255"
  shows "unat (byte_at (address a b c d) 3) = unat a" "unat (byte_at (address a b c d) 2) = unat b"
    "unat (byte_at (address a b c d) 1) = unat c" "unat (byte_at (address a b c d) 0) = unat d"
proof -
  have high: "\<not> bit x n" if "unat x \<le> 255" "8 \<le> n" for x :: u32 and n
  proof -
    have "unat (take_bit 8 x) = take_bit 8 (unat x)" by (rule unsigned_take_bit_eq)
    also have "\<dots> = unat x" using that(1) by (simp add: take_bit_eq_mod)
    finally have "x = take_bit 8 x" by (simp only: word_unat_eq_iff)
    then show ?thesis using that(2) by (metis bit_take_bit_iff not_less)
  qed
  have low: "unat (ucast x :: byte) = unat x" if "unat x \<le> 255" for x :: u32 using that by (subst unsigned_ucast_eq) (simp add: take_bit_eq_mod)
  have "byte_at (address a b c d) 3 = ucast a" "byte_at (address a b c d) 2 = ucast b"
    "byte_at (address a b c d) 1 = ucast c" "byte_at (address a b c d) 0 = ucast d"
    using assms by (auto intro!: bit_word_eqI simp: bit_byte_at address_def bit_simps high)
  then show "unat (byte_at (address a b c d) 3) = unat a" "unat (byte_at (address a b c d) 2) = unat b"
    "unat (byte_at (address a b c d) 1) = unat c" "unat (byte_at (address a b c d) 0) = unat d"
    using assms low by simp_all
qed

lemma bytes_address: "address (ucast (byte_at h 3)) (ucast (byte_at h 2)) (ucast (byte_at h 1)) (ucast (byte_at h 0)) = h"
proof (rule bit_word_eqI)
  fix n
  assume n: "n < LENGTH(32)"
  then consider "n < 8" | "8 \<le> n" "n < 16" | "16 \<le> n" "n < 24" | "24 \<le> n" "n < 32" by fastforce
  then show "bit (address (ucast (byte_at h 3)) (ucast (byte_at h 2)) (ucast (byte_at h 1)) (ucast (byte_at h 0))) n = bit h n"
    by cases (auto simp: address_def bit_simps bit_byte_at)
qed

lemma inet_text: "inet_pton s = Some h \<longleftrightarrow> s = inet_ntop h"
proof
  assume "inet_pton s = Some h"
  then obtain a b c d p q r t where s: "split_dots s = [a, b, c, d]" and
    o: "octet a = Some p" "octet b = Some q" "octet c = Some r" "octet d = Some t" and h: "h = address p q r t"
    by (auto simp: inet_pton_def split: list.splits option.splits)
  have "s = a @ CHR ''.'' # b @ CHR ''.'' # c @ CHR ''.'' # d" using join_split_dots [of s] s by simp
  then show "s = inet_ntop h"
    using octet_text [OF o(1)] octet_text [OF o(2)] octet_text [OF o(3)] octet_text [OF o(4)]
    by (simp add: inet_ntop_def octet_text_def h address_bytes del: One_nat_def)
next
  assume s: "s = inet_ntop h"
  have u: "unat (x :: byte) \<le> 255" for x using unat_byte_less [of x] by simp
  have o: "octet (octet_text h k) = Some (ucast (byte_at h k))" for k
    using u by (simp add: octet_text_def octet_nat)
  have "split_dots s = [octet_text h 3, octet_text h 2, octet_text h 1, octet_text h 0]"
    using no_dot by (simp add: s inet_ntop_def octet_text_def split_dots_word split_dots_last)
  then show "inet_pton s = Some h" by (simp add: inet_pton_def o bytes_address del: One_nat_def)
qed

section \<open>Networks\<close>

lemma int_of_digits:
  assumes "ds \<noteq> []" "list_all cisdigit ds"
  shows "int_of_text ds = (if decimal 0 ds < 2 ^ 31 then Some (int (decimal 0 ds)) else None)"
  using assms by (simp add: int_of_text_def signed_of_text_def Let_def digits_head del: list.case)

text \<open>C20: The parser accepts exactly the texts that are an address without superfluous zeros (up to a null character), a
  slash and digits of a number up to 32, and it throws exactly when the digits behind the first slash are a number
  that does not fit an \<open>int\<close>, whatever is before the slash.\<close>

theorem cidr_outcome:
  "(ParseCIDR cidr = Inr (Some (ip, p)) \<longleftrightarrow>
     (\<exists>ds h. cidr = ip @ CHR ''/'' # ds \<and> CHR ''/'' \<notin> set ip \<and> c_str ip = inet_ntop h \<and> ds \<noteq> [] \<and> list_all cisdigit ds \<and>
       p = int (decimal 0 ds) \<and> p \<le> 32)) \<and>
   (ParseCIDR cidr = Inl e \<longleftrightarrow> e = OutOfRange \<and>
     (\<exists>pre ds. cidr = pre @ CHR ''/'' # ds \<and> CHR ''/'' \<notin> set pre \<and> pre \<noteq> [] \<and> ds \<noteq> [] \<and> list_all cisdigit ds \<and>
       2 ^ 31 \<le> decimal 0 ds))"
proof (cases "CHR ''/'' \<in> set cidr")
  case False
  then have "takeWhile (\<lambda>d. d \<noteq> CHR ''/'') cidr = cidr" by (simp add: takeWhile_eq_all_conv) metis
  then have "find_char CHR ''/'' cidr = None" by (simp only: find_char_def Let_def less_irrefl if_False)
  then have "ParseCIDR cidr = Inr None" by (simp add: ParseCIDR_def)
  with False show ?thesis by auto
next
  case True
  then obtain pre ds where c: "cidr = pre @ CHR ''/'' # ds" "CHR ''/'' \<notin> set pre" by (meson split_list_first)
  have u: "cidr = pre' @ CHR ''/'' # ds' \<and> CHR ''/'' \<notin> set pre' \<longleftrightarrow> pre' = pre \<and> ds' = ds" for pre' ds'
    using c by (auto simp: append_eq_append_conv2 append_eq_Cons_conv Cons_eq_append_conv)
  have P: "ParseCIDR cidr =
     (if pre = [] \<or> ds = [] \<or> \<not> list_all cisdigit ds then Inr None
      else if 2 ^ 31 \<le> decimal 0 ds then Inl OutOfRange
      else if 32 < decimal 0 ds \<or> inet_pton (c_str pre) = None then Inr None
      else Inr (Some (pre, int (decimal 0 ds))))"
  proof -
    have "find_char CHR ''/'' cidr = Some (length pre)" using c by (simp add: find_char_append)
    then show ?thesis by (auto simp: ParseCIDR_def c(1) Let_def int_of_digits)
  qed
  have "inet_pton (c_str []) = None" by (simp add: inet_pton_def c_str_def)
  then have e: "c_str [] \<noteq> inet_ntop h" for h using inet_text by (metis option.distinct(1))
  have i: "inet_pton (c_str pre) = None \<longleftrightarrow> (\<nexists>h. c_str pre = inet_ntop h)"
    using inet_text [of "c_str pre"] by (cases "inet_pton (c_str pre)") auto
  have A: "(\<exists>ds h. cidr = ip @ CHR ''/'' # ds \<and> CHR ''/'' \<notin> set ip \<and> Q ds h) \<longleftrightarrow> ip = pre \<and> (\<exists>h. Q ds h)" for ip Q
    using u by metis
  have B: "(\<exists>pre' ds. cidr = pre' @ CHR ''/'' # ds \<and> CHR ''/'' \<notin> set pre' \<and> Q pre' ds) \<longleftrightarrow> Q pre ds" for Q
    using u by metis
  show ?thesis unfolding A B P i using e by (cases "pre = []") auto
qed

section \<open>The checksum\<close>

text \<open>The one's complement sum of the 16-bit words, as a number.\<close>

fun word_sum :: "byte list \<Rightarrow> nat" where
  "word_sum (a # b # bs) = unat a + 256 * unat b + word_sum bs"
| "word_sum [a] = unat a"
| "word_sum [] = 0"

lemma word_sum_bound: "word_sum bs \<le> 65535 * ((length bs + 1) div 2)"
proof (induction bs rule: word_sum.induct)
  case (1 a b bs)
  then show ?case using unat_byte_less [of a] unat_byte_less [of b] by simp
next
  case (2 a)
  then show ?case using unat_byte_less [of a] by simp
qed simp

lemma unat_pair: "unat (ucast (a :: byte) OR push_bit 8 (ucast (b :: byte)) :: u32) = unat a + 256 * unat b"
proof -
  have "ucast a OR push_bit 8 (ucast b) = (ucast a + push_bit 8 (ucast b) :: u32)"
    by (rule disjunctive_add [symmetric]) (auto simp: bit_simps dest: bit_imp_le_length)
  also have "\<dots> = of_nat (unat a + 256 * unat b)" by (simp add: push_bit_eq_mult)
  finally have w: "ucast a OR push_bit 8 (ucast b) = (of_nat (unat a + 256 * unat b) :: u32)" .
  have "unat a + 256 * unat b < 2 ^ 32" using unat_byte_less [of a] unat_byte_less [of b] by simp
  then show ?thesis unfolding w by (simp only: unat_of_nat) simp
qed

lemma checksum_sum_unat: "unat s + word_sum bs < 2 ^ 32 \<Longrightarrow> unat (checksum_sum bs s) = unat s + word_sum bs"
proof (induction bs s rule: checksum_sum.induct)
  case (1 a b bs s)
  let ?w = "ucast a OR push_bit 8 (ucast b) :: u32"
  have u: "unat (s + ?w) = unat s + (unat a + 256 * unat b)"
    using 1(2) by (simp add: unat_word_ariths unat_pair)
  then show ?case using 1 by simp
next
  case (2 a s)
  have "unat (ucast a :: u32) = unat a" using unat_byte_less [of a] by (subst unsigned_ucast_eq) (simp add: take_bit_eq_mod)
  then show ?case using 2 by (simp add: unat_word_ariths)
qed simp

lemma fold_carries_unat:
  "unat (fold_carries s) < 2 ^ 16 \<and> unat (fold_carries s) mod 65535 = unat s mod 65535 \<and> (unat (fold_carries s) = 0 \<longleftrightarrow> unat s = 0)"
proof (induction s rule: fold_carries.induct)
  case (1 s)
  show ?case
  proof (cases "drop_bit 16 s = 0")
    case True
    then have "unat s div 2 ^ 16 = 0" using unat_drop [of 16 s] by simp
    then have "unat s < 2 ^ 16" by (simp add: div_eq_0_iff)
    with True show ?thesis by (simp add: fold_carries.simps [of s])
  next
    case False
    let ?t = "(s AND 0xFFFF) + drop_bit 16 s"
    have t: "unat ?t = unat s mod 2 ^ 16 + unat s div 2 ^ 16" by (rule fold_carry)
    have s: "unat s = 65535 * (unat s div 2 ^ 16) + unat ?t" unfolding t by (simp add: algebra_simps)
    have "(65535 * q + t) mod 65535 = t mod 65535" for q t :: nat by simp
    from this [of "unat s div 2 ^ 16" "unat ?t"] have "unat ?t mod 65535 = unat s mod 65535" by (simp only: s [symmetric])
    moreover have "unat ?t = 0 \<longleftrightarrow> unat s = 0" using s unfolding t by auto
    ultimately show ?thesis using 1 [OF False] False by (simp add: fold_carries.simps [of s])
  qed
qed

lemma checksum_unat:
  assumes "length bs \<le> 2 ^ 16"
  shows "\<exists>r < 2 ^ 16. unat (ComputeICMPChecksum bs) = 65535 - r \<and> r mod 65535 = word_sum bs mod 65535 \<and> (r = 0 \<longleftrightarrow> word_sum bs = 0)"
proof -
  define f where "f = fold_carries (checksum_sum bs 0)"
  have "(length bs + 1) div 2 \<le> 32768" using assms by simp
  with word_sum_bound [of bs] have "word_sum bs \<le> 65535 * 32768" by linarith
  then have u: "unat (checksum_sum bs 0) = word_sum bs" using checksum_sum_unat [of 0 bs] by simp
  have f: "unat f < 2 ^ 16" "unat f mod 65535 = word_sum bs mod 65535" "unat f = 0 \<longleftrightarrow> word_sum bs = 0"
    using fold_carries_unat [of "checksum_sum bs 0"] by (simp_all add: f_def u)
  have g: "unat (ucast f :: u16) = unat f" using f(1) by (subst unsigned_ucast_eq) (simp add: take_bit_eq_mod)
  have "(ucast (NOT f) :: u16) = NOT (ucast f)" by (rule bit_word_eqI) (simp add: bit_simps)
  also have "\<dots> = 65535 - ucast f" by (simp add: not_eq_complement)
  finally have "unat (ucast (NOT f) :: u16) = unat (65535 - ucast f :: u16)" by simp
  also have "\<dots> = 65535 - unat f"
  proof -
    have n: "unat (65535 :: u16) = 65535" by simp
    have "unat f \<le> 65535" using f(1) by simp
    then have le: "ucast f \<le> (65535 :: u16)" by (simp only: word_le_nat_alt n g)
    show ?thesis by (simp only: unat_sub [OF le] n g)
  qed
  finally have "unat (ComputeICMPChecksum bs) = 65535 - unat f" unfolding ComputeICMPChecksum_def f_def .
  then show ?thesis by (intro exI [of _ "unat f"] conjI f)
qed

lemma word_sum_append: "even (length xs) \<Longrightarrow> word_sum (xs @ ys) = word_sum xs + word_sum ys"
  by (induction xs rule: word_sum.induct) simp_all

lemma byte_pair_unat: "unat (byte_at w 0) + 256 * unat (byte_at w 1) = unat (w :: u16)"
proof -
  have "w = ucast (byte_at w 0) + push_bit 8 (ucast (byte_at w 1))"
    by (subst disjunctive_add) (auto intro!: bit_word_eqI simp: bit_simps bit_byte_at dest: bit_imp_le_length)
  also have "\<dots> = of_nat (unat (byte_at w 0) + 256 * unat (byte_at w 1))" by (simp add: push_bit_eq_mult)
  finally have "unat w = unat (of_nat (unat (byte_at w 0) + 256 * unat (byte_at w 1)) :: u16)" by simp
  moreover have "unat (byte_at w 0) + 256 * unat (byte_at w 1) < 2 ^ 16"
    using unat_byte_less [of "byte_at w 0"] unat_byte_less [of "byte_at w 1"] by simp
  ultimately show ?thesis by (simp only: unat_of_nat) simp
qed

lemma checksum_verifies:
  assumes "even (length pre)" "length pre + length post + 2 \<le> 2 ^ 16"
  shows "ComputeICMPChecksum (pre @ le_bytes 2 (ComputeICMPChecksum (pre @ [0, 0] @ post)) @ post) = 0"
proof -
  define ck where "ck = ComputeICMPChecksum (pre @ [0, 0] @ post)"
  let ?s = "word_sum pre + word_sum post"
  have z: "word_sum (pre @ [0, 0] @ post) = ?s" using assms(1) by (simp add: word_sum_append)
  obtain r where r: "r < 2 ^ 16" "unat ck = 65535 - r" "r mod 65535 = ?s mod 65535" "r = 0 \<longleftrightarrow> ?s = 0"
    using checksum_unat [of "pre @ [0, 0] @ post"] assms(2) unfolding z ck_def by auto
  have two: "le_bytes 2 ck = [byte_at ck 0, byte_at ck 1]" by (simp add: le_bytes_def numeral_2_eq_2)
  have t: "word_sum (pre @ le_bytes 2 ck @ post) = ?s + (65535 - r)"
    using assms(1) byte_pair_unat [of ck] r(2) unfolding two by (simp add: word_sum_append)
  have "(?s + (65535 - r)) mod 65535 = 0"
  proof -
    have "(?s + (65535 - r)) mod 65535 = (r + (65535 - r)) mod 65535" using r(3) by (metis mod_add_left_eq)
    also have "\<dots> = 0" using r(1) by simp
    finally show ?thesis .
  qed
  moreover have "?s + (65535 - r) \<noteq> 0" using r(4) by auto
  moreover obtain q where q: "q < 2 ^ 16" "unat (ComputeICMPChecksum (pre @ le_bytes 2 ck @ post)) = 65535 - q"
      "q mod 65535 = (?s + (65535 - r)) mod 65535" "q = 0 \<longleftrightarrow> ?s + (65535 - r) = 0"
    using checksum_unat [of "pre @ le_bytes 2 ck @ post"] assms(2) unfolding t by (auto simp: two)
  ultimately have m: "q mod 65535 = 0" "q \<noteq> 0" by simp_all
  from m(1) obtain k where k: "q = 65535 * k" by (meson dvdE mod_eq_0_iff_dvd)
  with q(1) have "k < 2" by simp
  with k m(2) have "q = 65535" by (cases k) auto
  with q(2) show ?thesis unfolding ck_def by (simp add: unsigned_eq_0_iff)
qed

text \<open>C40: The checksum over an echo request as it is sent, its checksum field included, is zero, which is what the
  receiver of an ICMP message tests, whatever the identifier and the sequence number.\<close>

theorem echo_request_checksum: "ComputeICMPChecksum (echo_request ident seq) = 0 \<and> length (echo_request ident seq) = 8"
  using checksum_verifies [of "[8, 0]" "le_bytes 2 ident @ le_bytes 2 seq"]
  by (simp add: echo_request_def Let_def le_bytes_def)

section \<open>Hosts\<close>

lemma unat_and_high:
  assumes "k < 32"
  shows "unat (x AND push_bit k (NOT 0) :: u32) = unat x div 2 ^ k * 2 ^ k"
proof -
  have "x AND push_bit k (NOT 0) = push_bit k (drop_bit k x)"
    by (rule bit_word_eqI) (auto simp: bit_simps)
  also have "unat (push_bit k (drop_bit k x)) = take_bit 32 (push_bit k (unat (drop_bit k x)))"
    by (simp only: unsigned_push_bit_eq) simp
  also have "\<dots> = unat x div 2 ^ k * 2 ^ k mod 2 ^ 32" by (simp only: unat_drop take_bit_eq_mod push_bit_eq_mult)
  also have "\<dots> = unat x div 2 ^ k * 2 ^ k"
  proof (rule mod_less)
    have "unat x div 2 ^ k * 2 ^ k \<le> unat x" by (rule div_times_less_eq_dividend)
    also have "unat x < 2 ^ 32" using unsigned_less [of x] by simp
    finally show "unat x div 2 ^ k * 2 ^ k < 2 ^ 32" .
  qed
  finally show ?thesis .
qed

lemma block_iff: "(x :: nat) div 2 ^ k * 2 ^ k = n * 2 ^ k \<longleftrightarrow> n * 2 ^ k \<le> x \<and> x < n * 2 ^ k + 2 ^ k"
proof
  assume "x div 2 ^ k * 2 ^ k = n * 2 ^ k"
  then have "x div 2 ^ k = n" by simp
  then show "n * 2 ^ k \<le> x \<and> x < n * 2 ^ k + 2 ^ k"
    using div_mult_mod_eq [of x "2 ^ k"] mod_less_divisor [of "2 ^ k" x] by (metis add_le_cancel_left le_add1 nat_add_left_cancel_less zero_less_numeral zero_less_power)
next
  assume "n * 2 ^ k \<le> x \<and> x < n * 2 ^ k + 2 ^ k"
  then have "x div 2 ^ k = n" by (intro div_nat_eqI) (simp_all add: algebra_simps)
  then show "x div 2 ^ k * 2 ^ k = n * 2 ^ k" by simp
qed

lemma word_range:
  assumes "j < 2 ^ 32"
  shows "sorted_wrt (<) (map of_nat [i ..< j] :: u32 list)" "(h :: u32) \<in> set (map of_nat [i ..< j]) \<longleftrightarrow> i \<le> unat h \<and> unat h < j"
proof -
  have u: "unat (of_nat x :: u32) = x" if "x < j" for x using that assms by (simp only: unat_of_nat) simp
  show "sorted_wrt (<) (map of_nat [i ..< j] :: u32 list)"
    unfolding sorted_wrt_map
    by (rule sorted_wrt_mono_rel [OF _ sorted_wrt_upt]) (auto simp: word_less_nat_alt u)
  show "h \<in> set (map of_nat [i ..< j]) \<longleftrightarrow> i \<le> unat h \<and> unat h < j"
  proof
    assume "h \<in> set (map of_nat [i ..< j])"
    then show "i \<le> unat h \<and> unat h < j" using u by auto
  next
    assume "i \<le> unat h \<and> unat h < j"
    then have "unat h \<in> set [i ..< j]" by simp
    then have "of_nat (unat h) \<in> set (map of_nat [i ..< j] :: u32 list)" by (simp only: set_map image_eqI)
    then show "h \<in> set (map of_nat [i ..< j])" by simp
  qed
qed

lemma subnet_hosts_exact:
  fixes a :: u32
  assumes "2 \<le> k" "k < 32" "p = 32 - int k"
  shows "sorted_wrt (<) (subnet_hosts a p) \<and> length (subnet_hosts a p) = 2 ^ k - 2 \<and>
    (\<forall>h. h \<in> set (subnet_hosts a p) \<longleftrightarrow> h AND subnet_mask p = a AND subnet_mask p \<and>
      h \<noteq> a AND subnet_mask p \<and> h \<noteq> a OR NOT (subnet_mask p))"
proof -
  define m where "m = subnet_mask p"
  define n where "n = unat a div 2 ^ k"
  have m: "m = push_bit k (NOT 0)" using assms by (simp add: m_def subnet_mask_def)
  have N: "unat (x AND m) = unat x div 2 ^ k * 2 ^ k" for x unfolding m using assms(2) by (rule unat_and_high)
  have top: "n * 2 ^ k + 2 ^ k \<le> 2 ^ 32"
  proof -
    have "unat a < 2 ^ 32" using unsigned_less [of a] by simp
    also have "(2 :: nat) ^ 32 = 2 ^ (32 - k) * 2 ^ k" using assms(2) by (simp add: power_add [symmetric] del: power_numeral)
    finally have "n < 2 ^ (32 - k)" unfolding n_def by (rule less_mult_imp_div_less)
    then have "(n + 1) * 2 ^ k \<le> 2 ^ (32 - k) * 2 ^ k" by (intro mult_le_mono1) simp
    then show ?thesis using assms(2) by (simp add: power_add [symmetric] algebra_simps)
  qed
  have four: "(4 :: nat) \<le> 2 ^ k" using power_increasing [of 2 k "2 :: nat"] assms(1) by simp
  have low: "NOT m = mask k" unfolding m by (rule bit_word_eqI) (auto simp: bit_simps)
  have mk: "unat (mask k :: u32) = 2 ^ k - 1"
  proof -
    have "(2 :: nat) ^ k \<le> 2 ^ 32" using assms(2) by (intro power_increasing) simp_all
    then have "2 ^ k - 1 < (2 :: nat) ^ 32" by simp
    moreover have "unat (mask k :: u32) = unat (of_nat (mask k) :: u32)" by (simp only: of_nat_mask_eq)
    ultimately show ?thesis by (simp only: unat_of_nat mask_eq_exp_minus_1 [of k, where 'a = nat]) simp
  qed
  have add: "(a AND m) OR NOT m = (a AND m) + mask k"
    unfolding low by (rule disjunctive_add [symmetric]) (auto simp: m bit_simps)
  have bc: "a OR NOT m = (a AND m) OR NOT m" by (rule bit_word_eqI) (auto simp: bit_simps)
  have nw: "unat (a AND m) = n * 2 ^ k" by (simp add: N n_def)
  have bw: "unat ((a AND m) OR NOT m) = n * 2 ^ k + (2 ^ k - 1)"
    unfolding add using top four by (subst unat_plus_if') (simp add: nw mk)
  have f: "unat ((a AND m) + 1) = n * 2 ^ k + 1" using top four by (subst unat_plus_if') (simp add: nw)
  have l: "unat (((a AND m) OR NOT m) - 1) = n * 2 ^ k + (2 ^ k - 2)"
  proof -
    have one: "unat (1 :: u32) = 1" by simp
    have g: "1 \<le> x + (y - 1)" "x + (y - 1) - 1 = x + (y - 2)" if "4 \<le> y" for x y :: nat using that by simp_all
    show ?thesis unfolding unat_sub_if' bw one using g [OF four, of "n * 2 ^ k"] by (simp only: if_True)
  qed
  have H: "subnet_hosts a p = map of_nat [n * 2 ^ k + 1 ..< n * 2 ^ k + (2 ^ k - 1)]"
  proof -
    have "\<not> (a AND m) + 1 > ((a AND m) OR NOT m) - 1" using four by (simp add: word_less_nat_alt f l)
    moreover have "n * 2 ^ k + (2 ^ k - 2) + 1 = n * 2 ^ k + (2 ^ k - 1)" using four by simp
    ultimately show ?thesis by (simp only: subnet_hosts_def Let_def m_def [symmetric] f l if_False)
  qed
  have j: "n * 2 ^ k + (2 ^ k - 1) < 2 ^ 32" using top four by simp
  have "h \<in> set (subnet_hosts a p) \<longleftrightarrow> h AND m = a AND m \<and> h \<noteq> a AND m \<and> h \<noteq> a OR NOT m" for h
  proof -
    have "h \<in> set (subnet_hosts a p) \<longleftrightarrow> n * 2 ^ k + 1 \<le> unat h \<and> unat h < n * 2 ^ k + (2 ^ k - 1)"
      unfolding H by (rule word_range(2) [OF j])
    moreover have "h AND m = a AND m \<longleftrightarrow> n * 2 ^ k \<le> unat h \<and> unat h < n * 2 ^ k + 2 ^ k"
      unfolding word_unat_eq_iff N nw [unfolded N] by (rule block_iff)
    moreover have "h = a AND m \<longleftrightarrow> unat h = n * 2 ^ k" "h = a OR NOT m \<longleftrightarrow> unat h = n * 2 ^ k + (2 ^ k - 1)"
      unfolding word_unat_eq_iff bc nw bw by (rule refl)+
    ultimately show ?thesis using four by auto
  qed
  moreover have "sorted_wrt (<) (subnet_hosts a p)" unfolding H by (rule word_range(1) [OF j])
  moreover have "length (subnet_hosts a p) = 2 ^ k - 2" unfolding H using four by simp
  ultimately show ?thesis unfolding m_def by blast
qed

text \<open>C24: For a prefix of 20 to 30 bits the candidates of a scan are the texts of exactly the addresses of the network
  of the given address, in ascending order and without its first and last address.\<close>

theorem subnet_exact:
  assumes "20 \<le> p" "p \<le> 30" "inet_pton (c_str ip) = Some a"
  shows "\<exists>hs. GenerateSubnetIPs ip p = map inet_ntop hs \<and> sorted_wrt (<) hs \<and> length hs = 2 ^ nat (32 - p) - 2 \<and>
    (\<forall>h. h \<in> set hs \<longleftrightarrow> h AND subnet_mask p = a AND subnet_mask p \<and>
      h \<noteq> a AND subnet_mask p \<and> h \<noteq> a OR NOT (subnet_mask p))"
proof -
  have "GenerateSubnetIPs ip p = map inet_ntop (subnet_hosts a p)" using assms by (simp add: GenerateSubnetIPs_def)
  moreover have "2 \<le> nat (32 - p)" "nat (32 - p) < 32" "p = 32 - int (nat (32 - p))" using assms by simp_all
  ultimately show ?thesis using subnet_hosts_exact [of "nat (32 - p)" p a] by blast
qed

theorem subnet_exact_witness:
  "\<exists>hs. GenerateSubnetIPs (inet_ntop 0xC0A80105) 24 = map inet_ntop hs \<and> length hs = 254 \<and> 0xC0A801FE \<in> set hs"
proof -
  obtain hs where "GenerateSubnetIPs (inet_ntop 0xC0A80105) 24 = map inet_ntop hs" "length hs = 2 ^ nat (32 - 24) - 2"
    "\<And>h. h \<in> set hs \<longleftrightarrow> h AND subnet_mask 24 = 0xC0A80105 AND subnet_mask 24 \<and>
      h \<noteq> 0xC0A80105 AND subnet_mask 24 \<and> h \<noteq> 0xC0A80105 OR NOT (subnet_mask 24)"
    using subnet_exact [where p = 24 and ip = "inet_ntop 0xC0A80105" and a = "0xC0A80105"] inet_text c_str_text by auto
  then show ?thesis by (intro exI [of _ hs]) (simp add: subnet_mask_def mask_eq_exp_minus_1)
qed

section \<open>Masks, requests and answers\<close>

declare prefix_loop.simps [simp del]

lemma prefix_loop_mask: "k \<le> 32 \<Longrightarrow> prefix_loop (push_bit (32 - k) (NOT 0)) n = n + int k"
proof (induction k arbitrary: n)
  case 0
  have "\<not> bit (push_bit 32 (NOT 0) :: u32) 31" by (simp add: bit_simps)
  then have "prefix_loop (push_bit 32 (NOT 0)) n = n" by (subst prefix_loop.simps) (simp only: top_bit if_False)
  then show ?case by simp
next
  case (Suc k)
  let ?m = "push_bit (32 - Suc k) (NOT 0) :: u32"
  have b: "bit ?m 31" by (simp add: bit_simps)
  have "prefix_loop ?m n = prefix_loop (push_bit 1 ?m) (n + 1)" by (subst prefix_loop.simps) (simp only: top_bit b if_True)
  moreover have "push_bit 1 ?m = push_bit (32 - k) (NOT 0)"
  proof -
    have "1 + (32 - Suc k) = 32 - k" using Suc(2) by simp
    then show ?thesis by (simp only: push_bit_push_bit)
  qed
  ultimately show ?case using Suc by simp
qed

lemma prefix_of_subnet_mask: "0 \<le> p \<Longrightarrow> p \<le> 32 \<Longrightarrow> prefix_of (Some (subnet_mask p)) = p"
proof -
  assume a: "0 \<le> p" "p \<le> 32"
  have "subnet_mask p = push_bit (32 - nat p) (NOT 0)"
  proof (cases "p = 0")
    case True
    have "push_bit 32 (NOT 0) = (0 :: u32)" by (rule bit_word_eqI) (simp add: bit_simps)
    then show ?thesis by (simp add: True subnet_mask_def)
  qed (use a in \<open>simp add: subnet_mask_def nat_diff_distrib\<close>)
  then show ?thesis using prefix_loop_mask [of "nat p" 0] a by (simp add: prefix_of_def)
qed

text \<open>The sequence number of an answer is not looked at: an answer to an earlier request counts.\<close>

lemma any_sequence_accepted:
  assumes "length zs = 19"
  shows "ping_loop ident dest [(Some (0x45 # zs @ [0, 0, a, b] @ le_bytes 2 ident @ le_bytes 2 (seq :: u16), dest), False)] = Some True"
proof -
  have h: "4 * unat ((0x45 :: byte) AND 0x0F) = 20" by simp
  have l: "length (le_bytes 2 (w :: u16)) = 2" for w by (simp add: le_bytes_def)
  show ?thesis using assms by (simp add: echo_reply_def Let_def h l nth_append)
qed

text \<open>The loop looks for a loopback address only while it has none, and it starts with one.\<close>

lemma loopback_not_read:
  "list_all (\<lambda>i. ifa_loopback i) is \<Longrightarrow> GetLocalIPv4 prefer (Some is) = ''127.0.0.1''"
proof -
  have "local_loop prefer is ''127.0.0.1'' [] = (''127.0.0.1'', [])" if "list_all (\<lambda>i. ifa_loopback i) is"
    using that by (induction "is") (simp_all split: option.split)
  then show "list_all (\<lambda>i. ifa_loopback i) is \<Longrightarrow> ?thesis" by (simp add: GetLocalIPv4_def)
qed

end
