(* ===== verification/IpScan.thy ===== *)
theory IpScan
  imports IpLaws "HOL-Library.Multiset"
begin

text \<open>
  The network scan of \<open>src/util/my_tools/MyIPTools.cpp\<close>: which addresses it asks, and the threads that ask them, at most
  as many at a time as the semaphore admits. Starting a thread, the end of its ping with the entry of its result, and the
  release of the semaphore are the steps; \<open>alive\<close> is what the pings answer. Times and progress messages are left out.
\<close>

section \<open>What is scanned\<close>

datatype scan_error = NoPermission | NoLocalIP | BadCIDR | NoCandidates

record scan_config =
  max_threads :: int
  ping_timeout_ms :: int

definition scan_config_init :: scan_config where
  "scan_config_init = \<lparr>max_threads = 64, ping_timeout_ms = 800\<rparr>"

definition InitScanner :: "int \<Rightarrow> int \<Rightarrow> scan_config" where
  "InitScanner threads timeout_ms =
     (let threads = (if threads < 1 then 1 else threads);
          threads = (if threads > 1024 then 1024 else threads);
          timeout_ms = (if timeout_ms < 100 then 100 else timeout_ms);
          timeout_ms = (if timeout_ms > 5000 then 5000 else timeout_ms)
      in \<lparr>max_threads = threads, ping_timeout_ms = timeout_ms\<rparr>)"

definition is_virtual_iface :: "string \<Rightarrow> bool" where
  "is_virtual_iface iface \<longleftrightarrow>
     iface = ''docker0'' \<or> (\<exists>p \<in> {''br-'', ''veth'', ''virbr'', ''cni'', ''flannel''}. take (length p) iface = p)"

text \<open>\<open>std::set\<close> keeps each candidate once, in the order of the texts.\<close>

definition device_candidates :: "IPInfo list \<Rightarrow> string list" where
  "device_candidates local_ips =
     (let self_ips = map ip_text local_ips
      in sort (remdups (concat (map (\<lambda>i.
           if is_virtual_iface (ip_interface i) then []
           else filter (\<lambda>t. t \<notin> set self_ips) (GenerateSubnetIPs (ip_text i) (ip_prefix_len i))) local_ips))))"

definition ScanActiveDevices_targets :: "bool \<Rightarrow> ifaddr list option \<Rightarrow> scan_error + string list" where
  "ScanActiveDevices_targets permitted interfaces =
     (if \<not> permitted then Inl NoPermission
      else let local_ips = GetAllIPs False interfaces in
        if local_ips = [] then Inl NoLocalIP else Inr (device_candidates local_ips))"

definition ScanTargetSubnet_targets :: "bool \<Rightarrow> string \<Rightarrow> cxx_error + (scan_error + string list)" where
  "ScanTargetSubnet_targets permitted cidr =
     ebind (ParseCIDR cidr) (\<lambda>r.
       Inr (case r of
         None \<Rightarrow> Inl BadCIDR
       | Some (ip, prefix_len) \<Rightarrow>
           if \<not> permitted then Inl NoPermission
           else let candidates = GenerateSubnetIPs ip prefix_len
                in if candidates = [] then Inl NoCandidates else Inr candidates))"

section \<open>The threads\<close>

record scan =
  sc_todo :: "string list"
  sc_sem :: int
  sc_probing :: "string list"
  sc_probed :: "string list"
  sc_active :: "string list"

definition scan_start :: "string list \<Rightarrow> int \<Rightarrow> scan" where
  "scan_start candidates threads = \<lparr>sc_todo = candidates, sc_sem = threads, sc_probing = [], sc_probed = [], sc_active = []\<rparr>"

inductive scan_step :: "(string \<Rightarrow> bool) \<Rightarrow> scan \<Rightarrow> scan \<Rightarrow> bool" for alive where
  launch: "sc_todo s = ip # ips \<Longrightarrow> 0 < sc_sem s \<Longrightarrow>
    scan_step alive s (s\<lparr>sc_todo := ips, sc_sem := sc_sem s - 1, sc_probing := ip # sc_probing s\<rparr>)"
| probed: "sc_probing s = xs @ ip # ys \<Longrightarrow>
    scan_step alive s (s\<lparr>sc_probing := xs @ ys, sc_probed := ip # sc_probed s,
      sc_active := (if alive ip then sc_active s @ [ip] else sc_active s)\<rparr>)"
| release: "sc_probed s = xs @ ip # ys \<Longrightarrow> scan_step alive s (s\<lparr>sc_probed := xs @ ys, sc_sem := sc_sem s + 1\<rparr>)"

inductive_cases scan_stepE: "scan_step alive s s'"

definition scan_joined :: "scan \<Rightarrow> bool" where
  "scan_joined s \<longleftrightarrow> sc_todo s = [] \<and> sc_probing s = [] \<and> sc_probed s = []"

definition address_key :: "string \<Rightarrow> u32" where
  "address_key ip = (case inet_pton (c_str ip) of None \<Rightarrow> 0 | Some a \<Rightarrow> a)"

record ScanResult =
  total_scanned :: int
  active_count :: int
  active_ips :: "string list"

definition scan_result :: "string list \<Rightarrow> scan \<Rightarrow> ScanResult" where
  "scan_result candidates s =
     (let ips = sort_key address_key (sc_active s)
      in \<lparr>total_scanned = int (length candidates), active_count = int (length ips), active_ips = ips\<rparr>)"

section \<open>Properties\<close>

definition scan_inv :: "(string \<Rightarrow> bool) \<Rightarrow> string list \<Rightarrow> int \<Rightarrow> scan \<Rightarrow> bool" where
  "scan_inv alive candidates n s \<longleftrightarrow>
     0 \<le> sc_sem s \<and> sc_sem s + int (length (sc_probing s)) + int (length (sc_probed s)) = n \<and>
     mset (sc_active s) + filter_mset alive (mset (sc_probing s) + mset (sc_todo s)) = filter_mset alive (mset candidates)"

lemma scan_step_inv: "scan_inv alive candidates n s \<Longrightarrow> scan_step alive s s' \<Longrightarrow> scan_inv alive candidates n s'"
  by (erule scan_stepE) (auto simp: scan_inv_def)

interpretation scan: invariant_system "\<lambda>s. s = scan_start candidates n \<and> 0 \<le> n" "scan_step alive" "scan_inv alive candidates n"
  for alive candidates n
proof
  show "scan_inv alive candidates n s" if "s = scan_start candidates n \<and> 0 \<le> n" for s
    using that by (simp add: scan_inv_def scan_start_def)
qed (rule scan_step_inv)

text \<open>The steps that are left.\<close>

definition scan_work :: "scan \<Rightarrow> nat" where
  "scan_work s = 3 * length (sc_todo s) + 2 * length (sc_probing s) + length (sc_probed s)"

lemma scan_step_work: "scan_step alive s s' \<Longrightarrow> scan_work s = Suc (scan_work s')"
  by (erule scan_stepE) (simp_all add: scan_work_def)

lemma scan_steps_work: "(scan_step alive ^^ k) s s' \<Longrightarrow> scan_work s = k + scan_work s'"
  by (induction k arbitrary: s') (auto dest: scan_step_work)

lemma scan_not_stuck:
  assumes "scan_inv alive candidates n s" "1 \<le> n" "\<not> scan_joined s"
  shows "\<exists>s'. scan_step alive s s'"
proof (cases "sc_probing s")
  case (Cons ip ips)
  then show ?thesis using scan_step.probed [of s "[]"] by auto
next
  case probing: Nil
  show ?thesis
  proof (cases "sc_probed s")
    case (Cons ip ips)
    then show ?thesis using scan_step.release [of s "[]"] by auto
  next
    case Nil
    then obtain ip ips where "sc_todo s = ip # ips" using assms(3) probing by (cases "sc_todo s") (auto simp: scan_joined_def)
    moreover have "0 < sc_sem s" using assms(1,2) probing Nil by (simp add: scan_inv_def)
    ultimately show ?thesis using scan_step.launch by blast
  qed
qed

lemma sort_key_unique:
  fixes f :: "'a \<Rightarrow> 'k::linorder"
  assumes "mset xs = mset ys" "inj_on f (set xs)"
  shows "sort_key f xs = sort_key f ys"
proof -
  have "mset (map f (sort_key f xs)) = mset (map f (sort_key f ys))" using assms(1) by simp
  then have "map f (sort_key f xs) = map f (sort_key f ys)" by (metis sorted_list_of_multiset_mset sorted_sort_key sorted_sort_id)
  moreover have "set xs = set ys" using assms(1) by (rule mset_eq_setD)
  ultimately show ?thesis using assms(2) by (auto elim!: map_inj_on)
qed

lemma address_key_text: "address_key (inet_ntop a) = a"
  using inet_text [of "inet_ntop a" a] no_null [of a] by (simp add: address_key_def c_str_text)

text \<open>C11: However the threads of a scan interleave, no more pings run at a time than there are slots, the scan is never
  stuck and ends after three steps for each candidate, and its result is that of asking one candidate after the
  other: the addresses that answer, once each and in ascending order.\<close>

theorem scan_outcome:
  assumes "(scan_step alive ^^ k) (scan_start candidates n) s" "1 \<le> n" "set candidates \<subseteq> range inet_ntop"
  shows "int (length (sc_probing s)) \<le> n \<and> k \<le> 3 * length candidates \<and> (\<not> scan_joined s \<longrightarrow> (\<exists>s'. scan_step alive s s')) \<and>
    (scan_joined s \<longrightarrow> k = 3 * length candidates \<and> active_ips (scan_result candidates s) = sort_key address_key (filter alive candidates))"
proof -
  have "(scan_step alive)\<^sup>*\<^sup>* (scan_start candidates n) s" using assms(1) by (rule relpowp_imp_rtranclp)
  then have i: "scan_inv alive candidates n s" using assms(2) by (intro scan.reachable_inv [of _ candidates n]) auto
  have w: "3 * length candidates = k + scan_work s"
    using scan_steps_work [OF assms(1)] by (simp add: scan_work_def scan_start_def)
  have "sort_key address_key (sc_active s) = sort_key address_key (filter alive candidates)" if "scan_joined s"
  proof (rule sort_key_unique)
    show m: "mset (sc_active s) = mset (filter alive candidates)" using i that by (simp add: scan_inv_def scan_joined_def)
    have "set (sc_active s) \<subseteq> range inet_ntop" using assms(3) mset_eq_setD [OF m] by auto
    then show "inj_on address_key (set (sc_active s))" by (intro inj_onI) (metis address_key_text imageE subsetD)
  qed
  then show ?thesis
    using i w scan_not_stuck [OF i assms(2)] by (auto simp: scan_inv_def scan_joined_def scan_work_def scan_result_def Let_def)
qed

lemma targets_are_addresses: "set (GenerateSubnetIPs ip p) \<subseteq> range inet_ntop"
  by (auto simp: GenerateSubnetIPs_def split: option.split)

theorem scan_outcome_witness:
  "\<exists>s. (scan_step (\<lambda>ip. ip = inet_ntop 7) ^^ 6) (scan_start [inet_ntop 7, inet_ntop 9] 1) s \<and>
     active_ips (scan_result [inet_ntop 7, inet_ntop 9] s) = [inet_ntop 7]"
proof -
  let ?alive = "\<lambda>ip. ip = inet_ntop 7"
  let ?S = "\<lambda>todo sem probing probed active. \<lparr>sc_todo = todo, sc_sem = sem, sc_probing = probing, sc_probed = probed, sc_active = active\<rparr>"
  have ne: "inet_ntop 9 \<noteq> inet_ntop 7" using address_key_text [of 9] address_key_text [of 7] by force
  have "scan_step ?alive (?S [inet_ntop 7, inet_ntop 9] 1 [] [] []) (?S [inet_ntop 9] 0 [inet_ntop 7] [] [])"
    "scan_step ?alive (?S [inet_ntop 9] 0 [inet_ntop 7] [] []) (?S [inet_ntop 9] 0 [] [inet_ntop 7] [inet_ntop 7])"
    "scan_step ?alive (?S [inet_ntop 9] 0 [] [inet_ntop 7] [inet_ntop 7]) (?S [inet_ntop 9] 1 [] [] [inet_ntop 7])"
    "scan_step ?alive (?S [inet_ntop 9] 1 [] [] [inet_ntop 7]) (?S [] 0 [inet_ntop 9] [] [inet_ntop 7])"
    "scan_step ?alive (?S [] 0 [inet_ntop 9] [] [inet_ntop 7]) (?S [] 0 [] [inet_ntop 9] [inet_ntop 7])"
    "scan_step ?alive (?S [] 0 [] [inet_ntop 9] [inet_ntop 7]) (?S [] 1 [] [] [inet_ntop 7])"
    using scan_step.launch [of "?S [inet_ntop 7, inet_ntop 9] 1 [] [] []"] scan_step.probed [of "?S [inet_ntop 9] 0 [inet_ntop 7] [] []" "[]" _ _ ?alive]
      scan_step.release [of "?S [inet_ntop 9] 0 [] [inet_ntop 7] [inet_ntop 7]" "[]"]
      scan_step.launch [of "?S [inet_ntop 9] 1 [] [] [inet_ntop 7]"] scan_step.probed [of "?S [] 0 [inet_ntop 9] [] [inet_ntop 7]" "[]" _ _ ?alive]
      scan_step.release [of "?S [] 0 [] [inet_ntop 9] [inet_ntop 7]" "[]"] ne
    by simp_all
  then have r: "(scan_step ?alive ^^ 6) (scan_start [inet_ntop 7, inet_ntop 9] 1) (?S [] 1 [] [] [inet_ntop 7])"
    unfolding scan_start_def by (simp add: eval_nat_numeral) blast
  have "active_ips (scan_result [inet_ntop 7, inet_ntop 9] (?S [] 1 [] [] [inet_ntop 7])) = [inet_ntop 7]"
    using scan_outcome [OF r] ne by (auto simp: scan_joined_def)
  with r show ?thesis by blast
qed

end
