(* ===== verification/Spec2Isabelle.thy ===== *)
theory Spec2Isabelle
  imports ByteCodec FlyProtocol Framing FlyFrame FlyCodec Queues QueueThreads SearchlightProtocol
    SearchlightCommands SearchlightDevice Json Serial FlyControl FlyControlManager AirdropLock
    GasModbus GasConfig GasPoll GasWorker TaskData Control Workflow Edge EdgeThreads EdgeManager
    FileSys FileCache PodData PodMonitor ViewLink Pod PinlingPod PodManager
    Processes RelayMonitor RelayThreads StreamConfig StreamManager StreamThreads StreamStates
    Heartbeat ServiceGuard Calendar DateTime DateParse FastMqtt FastMqttThreads FastMqttLaws MqttSubscribe
    DemoEdges DemoEdgeThreads TextLines ProcInfo ProcLaws SoftHealth Context ContextLaws ContextApi
    IpTools IpLaws IpScan
begin

text \<open>
  A verification library for \<open>fast_cpp_server\<close>, a C++ server that runs on a drone's companion computer.
  It talks to devices over serial lines with framed binary protocols (flight controller, searchlight,
  drop lock, gas detectors), keeps their last known state, hands work between threads through bounded queues,
  and runs the tasks that commands ask of simulated devices grouped under edges.
  The library models these parts, translated from the sources under \<open>src/src\<close>.

  \<^bold>\<open>Parts and theories.\<close>

  \<^item> \<open>Prelude\<close>: words of the machine widths, results \<open>error + 'a\<close> with \<open>ebind\<close>, byte extraction, and the
    locale \<open>invariant_system\<close> of a step relation that keeps an invariant.
  \<^item> \<open>ByteCodec\<close>: \<open>util/my_tools/MyLEHelper.cpp\<close> and \<open>MyBEHelper.cpp\<close>, the readers and writers of integers
    and bit fields at an offset. One locale states the contract of a byte order, interpreted for both.
    Shown: round trips at every width, a throw on every short read, and the wrap of the guard
    \<open>offset + bytes_needed\<close> near the end of \<open>size_t\<close>.
  \<^item> \<open>FlyProtocol\<close>: the constants and message structures of \<open>util/my_fly_control/FlyControlProtocol.h\<close>.
  \<^item> \<open>Framing\<close>: the interface of a stream parser as locales. \<open>framer\<close> is a parser and the loop that drains
    it, \<open>stable_framer\<close> adds that cutting the stream does not matter, \<open>frame_codec\<close> adds an encoder.
  \<^item> \<open>FlyFrame\<close>: \<open>FlyControlFrame.cpp\<close>, checksum, \<open>BuildFrame\<close> and the class \<open>FrameParser\<close>; its buffer is
    the state. It interprets the three locales. Shown: a built frame is found behind any bytes without
    a header, a reported frame is in the stream, chunks do not matter, how many bytes a waiting parser
    holds, that an unknown command byte stops the parser for good, what the checksum detects.
  \<^item> \<open>FlyCodec\<close>: \<open>FlyControlCodec.cpp\<close>, the sixteen encoders, three decoders and the fault bits. Shown:
    the heartbeat decoder is the inverse of the 82-byte layout, the decoders are total, the encoders
    are injective and their frames are accepted by the parser.
  \<^item> \<open>Json\<close>, \<open>Serial\<close>: JSON values as the readers of configurations use them, and
    \<open>util/my_serial/MySerial.cpp\<close>. The serial library is not in the repository and is the argument \<open>L\<close>, a
    record of its calls; what the theorems need of it are the hypotheses \<open>open_laws\<close>, \<open>write_law\<close>, \<open>read_law\<close>
    and \<open>read_progress\<close>, and \<open>recording_lib\<close> satisfies them. Shown: accepted options are canonical, \<open>Init\<close> commits or resets, and
    a port that is not open is never touched by a transfer.
  \<^item> \<open>FlyControl\<close>, \<open>FlyControlManager\<close>: \<open>MyFlyControl.cpp\<close> and \<open>MyFlyControlManager.cpp\<close>. Shown: the receive
    loop refines a specification over the byte stream, a send call puts exactly its frame on the wire,
    and sent commands arrive at a peer with the same parser in order and with consecutive counters.
  \<^item> \<open>AirdropLock\<close>: \<open>util/my_airdrop_lock/my_airdrop_lock.cpp\<close>. Shown: an invariant over every sequence of
    calls, the exact effect of opening and closing on the wire, and the normal form of duty cycles.
  \<^item> \<open>GasModbus\<close>, \<open>GasConfig\<close>, \<open>GasPoll\<close>, \<open>GasWorker\<close>: \<open>util/my_gas_detector_poll\<close>, the Modbus frames and the
    decoding of the registers, the configuration, and the poll object with its worker thread. Shown: a
    response is valid exactly when it is the frame of ten registers, which are read back; the CRC
    detects every change inside two adjacent bytes; accepted configurations are well formed; an
    invariant over all calls, passes and queries of the worker, exceptions inside an exchange included; the answer of a slave is read exactly however the
    port cuts it; the worker returns once the stop flag is set.
  \<^item> \<open>Queues\<close>: \<open>tools/thread_safe_queue\<close>, \<open>tools/thread_safe_buffer\<close>, \<open>util/my_fast_MQTT/BlockingQueue.hpp\<close> and
    \<open>util/my_control/TaskQueue.cpp\<close>. An operation is a critical section that returns or waits. The locales
    \<open>fifo_queue\<close> and \<open>bounded_fifo\<close> are interpreted for each queue. Shown: first in first out, bounds,
    and the meaning of a shutdown.
  \<^item> \<open>QueueThreads\<close>: the interleavings of threads on the thread-safe queue as a step relation with the two
    condition variables, spurious wake-ups included. Shown: no wake-up is lost without timed pops and
    without changes of the capacity, and one is lost with either.
  \<^item> \<open>SearchlightProtocol\<close>, \<open>SearchlightCommands\<close>, \<open>SearchlightDevice\<close>: \<open>util/my_light\<close>, the frame codec, the
    command builder with the recorded state, and the device object with its serial port and two
    threads. Shown: encoder and decoder are inverse, decoding is sound and its buffer bounded, an echoed
    command sets the state to what was commanded, the outcome of every control call, an invariant of
    the device over all calls and thread rounds, that a second \<open>start\<close> terminates the process, and, in a finer model of
    \<open>shutdown\<close> beside the worker (\<open>light_stop_step\<close>), that a lost wake-up leaves both waiting.
  \<^item> \<open>TaskData\<close>: \<open>util/my_data\<close>, the records of tasks, commands and states with their JSON forms. The locale
    \<open>json_record\<close> is the contract of such a form, interpreted for the five records. Shown: round trips.
  \<^item> \<open>Control\<close>: \<open>util/my_control\<close>, normalisers, controls and their factory. Shown: what becomes of a command.
  \<^item> \<open>Workflow\<close>: \<open>util/my_control/demo/Workflow.cpp\<close> and \<open>util/my_device\<close>, the thread of a device, its life cycle
    and its status. Shown: the accepted tasks are executed once each and in order, the thread stops when
    told to, and it empties its queue otherwise.
  \<^item> \<open>Edge\<close>, \<open>EdgeThreads\<close>, \<open>EdgeManager\<close>: \<open>util/my_edge\<close>, an edge with its devices and queues, its own threads, and
    the collection of edges. The manager is stated over the locale \<open>iedge\<close>, the virtual functions of an edge.
    Shown: which commands are accepted and what that changes, and that every refusal ends in an exception; an edge implements the system of \<open>Workflow\<close>
    for each of its devices; an invariant of the edge; tasks of the edge itself are executed in order unless one of them goes to
    \<open>say_hello\<close>, and how that handler loses one; where \<open>Shutdown\<close> and the snapshot thread get stuck; a
    stopped manager refuses every task, and a task reaches the edge it is meant for.
  \<^item> \<open>FileSys\<close>, \<open>FileCache\<close>: the part of \<open>std::filesystem\<close> that the code uses, on a file system with links, and
    \<open>util/my_cache\<close>, the cache of files below one directory with its check of names, its index and its scan
    thread. System calls may fail, as the record \<open>io\<close> says; times are in seconds. Shown: a checked path is inside
    the directory; no sequence of calls, from the construction and through any \<open>Init\<close>, changes anything outside when the
    opened directory has no links and files are saved under plain relative names, or under any name while there are
    no links anywhere; how a link lets names and the cleaning out; the index is exact after a scan; what a save
    stores, also when the stream cannot be flushed, and that a failed save keeps every file but the temporary one.
  \<^item> \<open>PodData\<close>, \<open>PodMonitor\<close>, \<open>ViewLink\<close>, \<open>Pod\<close>, \<open>PinlingPod\<close>, \<open>PodManager\<close>: \<open>util/my_pod\<close>, the camera pods. \<open>PodData\<close> has
    the values of \<open>common\<close>; \<open>PodMonitor\<close> the thread that polls a pod; \<open>ViewLink\<close> the wrapper of the vendor's SDK, whose
    answers are arguments and whose callbacks are events; \<open>Pod\<close> the sessions, the base class and \<open>DjiPod\<close>;
    \<open>PinlingPod\<close>, a record that extends the base class, the pod with the SDK; \<open>PodManager\<close> the registry and the
    manager, over the locale \<open>closable\<close> of what it needs to close a pod. Shown: the online flag is that of a sliding
    window; the sleep of the monitor ends; an invariant of the Pinling pod under all calls, monitor passes and callbacks, one
    behind the other (in the program the monitor runs beside the calls, and the states inside a call can be seen); how
    far apart reconnections are, and what blocks them for good; what an initialisation registers, which
    polls it allows, and that pods are let go stopped and disconnected.
  \<^item> \<open>Processes\<close>: the process interface of POSIX that the next parts use, over a table of the children of this
    process: zombies, signals, the two kinds of \<open>waitpid\<close>, sleeps. What a child does by itself and how long
    \<open>SIGKILL\<close> takes are parameters, without a bound.
  \<^item> \<open>RelayMonitor\<close>, \<open>RelayThreads\<close>: \<open>util/my_mediamtx_monitor/v1\<close>, the first guard of the media server: configuration, YAML,
    the life of the server, and the monitor thread beside the caller of \<open>Start\<close> and \<open>Stop\<close>. Shown: every round
    returns; there is at most one server as long as no round falls into a stop of the process, which the program does
    not rule out (\<open>relay_pid_\<close> is used by both threads without a lock); that a crashed server counts as running, and how
    \<open>Stop\<close> can leave a server behind.
  \<^item> \<open>StreamConfig\<close>, \<open>StreamManager\<close>, \<open>StreamThreads\<close>, \<open>StreamStates\<close>: \<open>util/my_mediamtx_monitor/v2\<close>, the second guard:
    configuration and YAML, the state machine of the worker and the debounced probe, their interleaving. Shown: a
    server is held exactly in the state \<open>kRunning\<close>, and any other is gone or was killed (one that does not end in time
    stays behind unreaped); the probe meets its specification; starts, stops, restarts,
    cooldown and backoff; that the error state is never left and the backoff never falls.
  \<^item> \<open>Heartbeat\<close>: \<open>util/my_heartbeat\<close>. Shown: the topic loop meets its specification, what a round leaves, and that the
    summary of the edges is lost.
  \<^item> \<open>ServiceGuard\<close>: \<open>tools/service_guard\<close>, the check for other instances at the start. Shown: which processes it kills,
    and what a line longer than its buffer does.
  \<^item> \<open>Calendar\<close>, \<open>DateTime\<close>, \<open>DateParse\<close>: \<open>util/my_tools/MyDateTime.cpp\<close>. \<open>Calendar\<close> has the leap year and the month
    lengths of the source and the calendar of the C library, \<open>DateTime\<close> the functions of the file over a time zone, which
    is an argument, and \<open>DateParse\<close> their laws, in the locale \<open>plain_zone\<close>, interpreted for every fixed offset. Shown: a
    written time stamp is read back to the last digit but for one second; exactly the dates of the calendar are
    accepted, in a zone with a fixed offset; what \<open>IsSameDay\<close> compares.
  \<^item> \<open>FastMqtt\<close>, \<open>FastMqttThreads\<close>, \<open>FastMqttLaws\<close>, \<open>MqttSubscribe\<close>: \<open>util/my_fast_MQTT\<close>, the MQTT client with its two queues,
    four threads and table of callbacks. The library \<open>mosquitto\<close> is seen through the calls made to it, its answers and its
    events. \<open>Publish\<close>, \<open>HandleMessage\<close> and the dispatch run in the pieces between which other threads come in. Shown: every message
    is counted, underway, or lost where \<open>Destroy\<close> drops the queues; a publisher may outlive its queue; a stop completes unless
    a callback under way asks for the status, and then never; what a stop from a
    callback leads to; the table does what its calls say; a message reaches the callbacks that match; no registered
    topic stays unsubscribed unless the library refused it, although \<open>RegisterCallback\<close> and the renewal of the
    subscriptions run in several steps.
  \<^item> \<open>DemoEdges\<close>, \<open>DemoEdgeThreads\<close>: \<open>UUVEdge\<close> and \<open>TUNAEdge\<close> of \<open>util/my_edge/demo\<close>, which have a life cycle of their own. Shown:
    an invariant of each, the outcome of a submitted command in both, when an \<open>Init\<close> that failed can be started, and
    where \<open>Shutdown\<close> and the thread of the edge's own tasks get stuck.
  \<^item> \<open>TextLines\<close>, \<open>ProcInfo\<close>, \<open>ProcLaws\<close>, \<open>SoftHealth\<close>: \<open>util/my_soft_healthy\<close>. \<open>TextLines\<close> has lines, words and numbers in
    text; \<open>ProcInfo\<close> the collectors of processes and threads over a view of \<open>/proc\<close>, one view for each pass; \<open>SoftHealth\<close> the
    analyser, the configuration and the manager, whose invariant is an instance of \<open>invariant_system\<close>. Shown: a line of
    \<open>stat\<close> is read back whatever the name of the process holds; the search through the process tree ends and finds exactly the
    descendants; published snapshots are well formed, and every processor usage in them is zero, which the design document does not
    mean. A sample is one step.
  \<^item> \<open>Context\<close>, \<open>ContextLaws\<close>, \<open>ContextApi\<close>: \<open>util/my_context\<close>, the store of run-time values, and its REST handlers in
    \<open>util/my_api\<close>. The locale \<open>simulates\<close> is the contract between a service and its specification. Shown: the store answers
    as a map does; its listing is exact and in order; which integers survive; the outcome of \<open>setContext\<close>.
  \<^item> \<open>IpTools\<close>, \<open>IpLaws\<close>, \<open>IpScan\<close>: \<open>util/my_tools/MyIPTools.cpp\<close>, addresses and networks as text, the interfaces of the
    machine, the netlink request, the ping, and the scan of a network by threads under a semaphore. Shown: texts and
    addresses correspond one to one; which networks are accepted and which texts throw; the hosts of a network are
    exact; the checksum is the one a receiver accepts; a scan keeps to its slots, is never stuck, ends, and finds what
    asking in sequence would find.

  \<^bold>\<open>Conventions.\<close> A class is a record, an operation a function from the state to its result and the
  state after it; an exception is an \<open>Inl\<close> or an error constructor. Machine integers are words. The
  bytes on a line are lists of bytes; what the environment answers (system calls, the serial library, the
  clock) is an argument. A callback is an event of the returned list. Operations under a mutex are
  atomic; \<open>QueueThreads\<close>, \<open>Workflow\<close>, \<open>EdgeThreads\<close>, \<open>FastMqttThreads\<close>, \<open>MqttSubscribe\<close> and \<open>IpScan\<close> interleave threads, by a step relation or by sequences of events.
  Each step relation says in its theory what a step is; where the program runs such a step without a lock beside another
  thread, the theory says so.

  \<^bold>\<open>Loops.\<close> No definition uses fuel. \<open>PopFrame\<close>, \<open>PopAll\<close> and \<open>decode_all\<close> terminate because every round
  shortens the buffer; \<open>FindHeader\<close> and \<open>skip_to_header\<close> are structural; the wait for a first frame of the
  searchlight is bounded by the remaining time; the loop of a serial write runs over the answers of
  the system call; \<open>pad3\<close> by the missing digits. The loops of the gas detector worker look at the stop flag
  and the clock before each round; they recurse over the list of these observations, and running out of it is
  \<open>None\<close>, not returning. \<open>WorkerLoop\<close> returns when eight observations have seen the flag. The other endless loops of the threads are their rounds,
  quantified by chunks or by reachability. \<open>graceful_wait\<close> of the stream manager ends because the clock runs, and
  \<open>format_loop\<close> of the heartbeat because the text behind its position gets shorter. \<open>find_month\<close> of
  the calendar ends because the months of a year are twelve; the scanner of dates goes through its directives. \<open>words_of\<close> ends because
  its text gets shorter, \<open>subtree_loop\<close> because every process is visited once, \<open>excess_bits\<close> because it halves a number,
  \<open>prefix_loop\<close> and \<open>fold_carries\<close> because their number gets smaller. A
  \<open>double\<close> of these modules is a rational number.

  \<^bold>\<open>Bounds.\<close> 3579 bytes is the length of a route frame of 255 points, the longest frame the parser
  waits for; 66 bytes is the longest searchlight frame; 50 points is the limit of the send calls.

  \<^bold>\<open>Not modelled.\<close> Log output, error texts and JSON output; the other REST controllers, which forward to the
  modules; wrappers of libraries and of the operating system (the MQTT service, MAVSDK, audio, database,
  the sensors of the machine, scripts, sockets, files). Modules with logic of their own that are still open: the pipeline that
  starts and stops the other modules, the timer, and the file and ping helpers.
\<close>

end
